(* ===== verification/Att_Prelude.thy ===== *)
theory Att_Prelude
  imports Main "HOL-Library.Word"
begin

text \<open>
  Shared vocabulary of the ATT-1 development: the machine integer types of the C sources,
  the status codes of \<^verbatim>\<open>include/att1_status.h\<close>, the guard that every entry point applies
  to a pointer argument, and generic lemmas on words, lists and alignment that several
  components use. Pointers are options (\<^verbatim>\<open>NULL\<close> is \<^term>\<open>None\<close>); \<^verbatim>\<open>uintN_t\<close> is an
  N-bit word; \<^verbatim>\<open>size_t\<close> is a 64-bit word (the LP64 targets the repository builds for).
\<close>

unbundle bit_operations_syntax

named_theorems att_defs \<open>definitions a component proof unfolds together\<close>

section \<open>Types\<close>

type_synonym u8 = "8 word"
type_synonym u16 = "16 word"
type_synonym u32 = "32 word"
type_synonym u64 = "64 word"
type_synonym size_t = "64 word"

text \<open>\<^verbatim>\<open>att1_status_t\<close>.\<close>

datatype att1_status =
    ATT1_OK
  | ATT1_ERR_INVALID_ARG
  | ATT1_ERR_OOM
  | ATT1_ERR_IO
  | ATT1_ERR_BAD_FORMAT
  | ATT1_ERR_NOT_FOUND
  | ATT1_ERR_SHAPE
  | ATT1_ERR_QUEUE_FULL
  | ATT1_ERR_STATE
  | ATT1_ERR_UNSUPPORTED
  | ATT1_ERR_QUEUE_EMPTY
  | ATT1_ERR_TIMEOUT
  | ATT1_ERR_ALREADY_STARTED

text \<open>
  The guard \<^verbatim>\<open>if (p == NULL) return ATT1_ERR_INVALID_ARG;\<close> in front of an operation on the
  object \<open>p\<close> points to.
\<close>

definition with_ptr :: "('s \<Rightarrow> att1_status \<times> 's) \<Rightarrow> 's option \<Rightarrow> att1_status \<times> 's option" where
  "with_ptr f p = (case p of None \<Rightarrow> (ATT1_ERR_INVALID_ARG, None)
                           | Some s \<Rightarrow> (let (st, s') = f s in (st, Some s')))"

lemma with_ptr_simps [simp]:
  "with_ptr f None = (ATT1_ERR_INVALID_ARG, None)"
  "with_ptr f (Some s) = (fst (f s), Some (snd (f s)))"
  by (simp_all add: with_ptr_def split: prod.split)

section \<open>Words\<close>

lemma unat_lt_size: "unat (w :: 'a::len word) < 2 ^ LENGTH('a)"
  by (rule unsigned_less)

lemma unat_pow2: "k < LENGTH('a::len) \<Longrightarrow> unat (2 ^ k :: 'a word) = 2 ^ k"
proof -
  assume "k < LENGTH('a)"
  then have "(2::nat) ^ k mod 2 ^ LENGTH('a) = 2 ^ k" by simp
  then have "unat (word_of_nat (2 ^ k) :: 'a word) = 2 ^ k"
    by (simp only: unsigned_of_nat take_bit_nat_def of_nat_id)
  moreover have "(word_of_nat (2 ^ k) :: 'a word) = 2 ^ k"
    by (simp only: of_nat_power of_nat_numeral)
  ultimately show ?thesis by simp
qed

text \<open>\<open>2 ^ k - 1\<close> as a mask keeps the residue modulo \<open>2 ^ k\<close>.\<close>

lemma unat_and_mask_pow2:
  fixes w :: "'a::len word"
  assumes "k < LENGTH('a)"
  shows "unat (w AND (2 ^ k - 1)) = unat w mod 2 ^ k"
proof -
  have "w AND (2 ^ k - 1) = take_bit k w"
    by (simp only: take_bit_eq_mask mask_eq_exp_minus_1)
  moreover have "unat (take_bit k w) = unat w mod 2 ^ k"
    by (simp only: unsigned_take_bit_eq take_bit_nat_def)
  ultimately show ?thesis by simp
qed

lemma pow2_dvd_word_size:
  "k \<le> LENGTH('a::len) \<Longrightarrow> (2::nat) ^ k dvd 2 ^ LENGTH('a)"
  by (simp add: le_imp_power_dvd)

lemma unat_add_mod_pow2:
  fixes a b :: "'a::len word"
  assumes "k \<le> LENGTH('a)"
  shows "unat (a + b) mod 2 ^ k = (unat a + unat b) mod 2 ^ k"
  using assms by (simp add: unat_word_ariths mod_mod_cancel pow2_dvd_word_size)

lemma unat_plus_one:
  fixes w :: "'a::len word"
  assumes "Suc (unat w) < 2 ^ LENGTH('a)"
  shows "unat (w + 1) = Suc (unat w)"
  using assms by (simp add: unat_word_ariths)

lemma unat_minus_one_word:
  fixes w :: "'a::len word"
  assumes "w \<noteq> 0"
  shows "unat (w - 1) = unat w - 1" and "0 < unat w"
  using assms by (simp_all add: unat_minus_one unat_gt_0)

lemma unat_add_no_wrap:
  fixes a b :: "'a::len word"
  assumes "unat a + unat b < 2 ^ LENGTH('a)"
  shows "unat (a + b) = unat a + unat b"
  using assms by (simp add: unat_word_ariths)

lemma word_add_wraps_iff:
  fixes a b :: "'a::len word"
  shows "a + b < a \<longleftrightarrow> 2 ^ LENGTH('a) \<le> unat a + unat b"
proof (cases "unat a + unat b < 2 ^ LENGTH('a)")
  case True
  then show ?thesis by (simp add: word_less_nat_alt unat_add_no_wrap)
next
  case False
  have "unat (a + b) = unat a + unat b - 2 ^ LENGTH('a)"
  proof -
    have "unat a + unat b - 2 ^ LENGTH('a) < 2 ^ LENGTH('a)"
      using unat_lt_size [of a] unat_lt_size [of b] by linarith
    with False show ?thesis by (simp add: unat_word_ariths mod_if)
  qed
  moreover have "unat a + unat b - 2 ^ LENGTH('a) < unat a"
    using False unat_lt_size [of b] by linarith
  ultimately show ?thesis using False by (simp add: word_less_nat_alt)
qed

lemma unat_ucast_up:
  fixes w :: "'a::len word"
  assumes "LENGTH('a) \<le> LENGTH('b)"
  shows "unat (ucast w :: 'b::len word) = unat w"
proof -
  have "unat w < 2 ^ LENGTH('b)"
    using unsigned_less [of w] assms by (meson less_le_trans one_le_numeral power_increasing)
  then show ?thesis by (simp add: unsigned_ucast_eq take_bit_nat_eq_self)
qed

text \<open>A word with \<open>n \<noteq> 0\<close> and \<open>n AND (n - 1) = 0\<close> is a power of two.\<close>

lemma pow2_word_iff:
  fixes n :: "'a::len word"
  shows "n \<noteq> 0 \<and> n AND (n - 1) = 0 \<longleftrightarrow> (\<exists>k < LENGTH('a). n = 2 ^ k)"
proof
  assume "\<exists>k < LENGTH('a). n = 2 ^ k"
  then obtain k where k: "k < LENGTH('a)" "n = 2 ^ k" by blast
  have "unat (n AND (n - 1)) = unat n mod 2 ^ k"
    using k by (simp add: unat_and_mask_pow2)
  also have "\<dots> = 0" using k by (simp add: unat_pow2)
  finally have "n AND (n - 1) = 0" by (simp only: unat_eq_zero)
  moreover have "n \<noteq> 0"
  proof -
    have "unat n = 2 ^ k" using k by (simp add: unat_pow2)
    then show ?thesis by auto
  qed
  ultimately show "n \<noteq> 0 \<and> n AND (n - 1) = 0" by simp
next
  assume n: "n \<noteq> 0 \<and> n AND (n - 1) = 0"
  then have pos: "0 < unat n" by (simp add: unat_gt_0)
  then obtain k where k: "2 ^ k \<le> unat n" "unat n < 2 * 2 ^ k"
    using ex_power_ivl1 [of 2 "unat n"] by auto
  have kl: "k < LENGTH('a)"
  proof (rule ccontr)
    assume "\<not> k < LENGTH('a)"
    then have "(2::nat) ^ LENGTH('a) \<le> 2 ^ k" by simp
    with k(1) unat_lt_size [of n] show False by linarith
  qed
  have "n = 2 ^ k"
  proof (rule ccontr)
    assume "n \<noteq> 2 ^ k"
    then have "unat n \<noteq> 2 ^ k"
      using kl by (metis unat_pow2 word_unat_eq_iff)
    with k have gt: "2 ^ k \<le> unat (n - 1)" "unat (n - 1) < 2 * 2 ^ k"
      using n by (auto simp: unat_minus_one)
    have bit_top: "bit x k" if "2 ^ k \<le> unat x" "unat x < 2 * 2 ^ k" for x :: "'a word"
    proof -
      have "unat x div 2 ^ k = 1"
        using that by (simp add: div_nat_eqI)
      then have "bit (unat x) k" by (simp add: bit_iff_odd)
      then show ?thesis by (simp add: bit_unsigned_iff)
    qed
    have "bit (n AND (n - 1)) k"
      using bit_top [of n] bit_top [of "n - 1"] k gt by (simp add: bit_and_iff)
    with n show False by simp
  qed
  with kl show "\<exists>k < LENGTH('a). n = 2 ^ k" by blast
qed

section \<open>Lists\<close>

lemma list_update_nth_other:
  "i \<noteq> j \<Longrightarrow> xs[i := x] ! j = xs ! j"
  by simp

lemma fold_invariant:
  assumes "P s" and "\<And>x s. x \<in> set xs \<Longrightarrow> P s \<Longrightarrow> P (f x s)"
  shows "P (fold f xs s)"
  using assms by (induction xs arbitrary: s) auto

text \<open>The search loops that stop at the first element with a property.\<close>

definition first_index :: "('a \<Rightarrow> bool) \<Rightarrow> 'a list \<Rightarrow> nat option" where
  "first_index P xs = find (\<lambda>i. P (xs ! i)) [0..<length xs]"

lemma first_index_Some_iff:
  "first_index P xs = Some i \<longleftrightarrow> i < length xs \<and> P (xs ! i) \<and> (\<forall>j < i. \<not> P (xs ! j))"
  by (auto simp: first_index_def find_Some_iff)

lemma first_index_None_iff: "first_index P xs = None \<longleftrightarrow> (\<forall>x \<in> set xs. \<not> P x)"
  by (auto simp: first_index_def find_None_iff in_set_conv_nth all_set_conv_all_nth)

lemma first_index_unique:
  assumes "\<And>i j. i < length xs \<Longrightarrow> j < length xs \<Longrightarrow> P (xs ! i) \<Longrightarrow> P (xs ! j) \<Longrightarrow> i = j"
  shows "first_index P xs = Some i \<longleftrightarrow> i < length xs \<and> P (xs ! i)"
  unfolding first_index_Some_iff using assms by (metis less_imp_neq less_trans)

text \<open>\<^verbatim>\<open>memcpy\<close> into and out of a buffer.\<close>

definition write_bytes :: "nat \<Rightarrow> 'a list \<Rightarrow> 'a list \<Rightarrow> 'a list" where
  "write_bytes off bs xs = take off xs @ bs @ drop (off + length bs) xs"

definition read_bytes :: "nat \<Rightarrow> nat \<Rightarrow> 'a list \<Rightarrow> 'a list" where
  "read_bytes off n xs = take n (drop off xs)"

lemma length_write_bytes [simp]:
  "off + length bs \<le> length xs \<Longrightarrow> length (write_bytes off bs xs) = length xs"
  by (simp add: write_bytes_def)

lemma length_read_bytes [simp]:
  "off + n \<le> length xs \<Longrightarrow> length (read_bytes off n xs) = n"
  by (simp add: read_bytes_def)

lemma nth_write_bytes:
  "off + length bs \<le> length xs \<Longrightarrow> i < length xs \<Longrightarrow>
   write_bytes off bs xs ! i = (if off \<le> i \<and> i < off + length bs then bs ! (i - off) else xs ! i)"
  by (auto simp: write_bytes_def nth_append)

lemma read_write_same:
  "off + length bs \<le> length xs \<Longrightarrow> n = length bs \<Longrightarrow> read_bytes off n (write_bytes off bs xs) = bs"
  by (simp add: read_bytes_def write_bytes_def)

lemma read_write_other:
  assumes "off + length bs \<le> length xs" "o' + n \<le> off \<or> off + length bs \<le> o'"
  shows "read_bytes o' n (write_bytes off bs xs) = read_bytes o' n xs"
  using assms by (intro nth_equalityI) (auto simp: read_bytes_def nth_write_bytes)

lemma read_bytes_nested:
  "a + n \<le> w \<Longrightarrow> read_bytes a n (read_bytes b w xs) = read_bytes (b + a) n xs"
  by (simp add: read_bytes_def drop_take min_def add.commute)

section \<open>Sizes\<close>

text \<open>\<^verbatim>\<open>size_t\<close> limits for the components that model sizes as natural numbers.\<close>

definition SIZE_MAX :: nat where "SIZE_MAX = 2 ^ 64 - 1"

definition att1_mul_size :: "nat \<Rightarrow> nat \<Rightarrow> nat option" where
  "att1_mul_size lhs rhs = (if lhs \<noteq> 0 \<and> SIZE_MAX div lhs < rhs then None else Some (lhs * rhs))"

lemma att1_mul_size_Some_iff:
  "att1_mul_size a b = Some c \<longleftrightarrow> c = a * b \<and> a * b \<le> SIZE_MAX"
proof (cases "a = 0")
  case True
  then show ?thesis by (auto simp: att1_mul_size_def)
next
  case False
  then have "SIZE_MAX div a < b \<longleftrightarrow> SIZE_MAX < a * b"
    by (metis div_less_iff_less_mult mult.commute neq0_conv)
  then show ?thesis using False by (auto simp: att1_mul_size_def)
qed

lemma att1_mul_size_None_iff: "att1_mul_size a b = None \<longleftrightarrow> SIZE_MAX < a * b"
  using att1_mul_size_Some_iff [of a b "a * b"] by (cases "att1_mul_size a b") (auto simp: att1_mul_size_def split: if_splits)

end
