(* ===== verification/Aimu_Crc_Table.thy ===== *)
theory Aimu_Crc_Table
  imports Aimu_Crc
begin

text \<open>
  Comparison of the lookup table of \<^verbatim>\<open>src/aimu_cmdq.c\<close> with the CRC-32 polynomial it is meant
  to tabulate: the reference bitwise definition, the exact list of wrong entries, the inputs
  on which the routine equals the reference and a family of inputs it cannot tell apart.
\<close>

section \<open>The reference\<close>

fun crc_shift :: "nat \<Rightarrow> u32 \<Rightarrow> u32" where
  "crc_shift 0 c = c"
| "crc_shift (Suc n) c =
     crc_shift n (if c AND 1 = 1 then drop_bit 1 c XOR 0xEDB88320 else drop_bit 1 c)"

definition crc_entry :: "nat \<Rightarrow> u32" where
  "crc_entry i = crc_shift 8 (word_of_nat i)"

definition crc_ref_step :: "u8 \<Rightarrow> u32 \<Rightarrow> u32" where
  "crc_ref_step b c = crc_entry (unat ((c XOR ucast b) AND 0xFF)) XOR drop_bit 8 c"

definition crc32_ref :: "u32 \<Rightarrow> u8 list \<Rightarrow> u32" where
  "crc32_ref crc data = fold crc_ref_step data (crc XOR 0xFFFFFFFF) XOR 0xFFFFFFFF"

section \<open>Where the table is right\<close>

definition crc_bad_indices :: "nat list" where
  "crc_bad_indices = [10, 13, 14, 15, 52, 76] @ [173..<256]"

lemma crc_bad_enumerate:
  "map fst (filter (\<lambda>(i, x). crc_entry i \<noteq> x) (enumerate 0 crc_table)) = crc_bad_indices"
  by code_simp

lemma crc_entry_eq_table:
  assumes "i < 256" "i \<notin> set crc_bad_indices"
  shows "crc_table ! i = crc_entry i"
proof (rule ccontr)
  assume ne: "crc_table ! i \<noteq> crc_entry i"
  have "(i, crc_table ! i) \<in> set (enumerate 0 crc_table)"
    using assms(1) by (simp add: in_set_enumerate_eq length_crc_table)
  with ne have "i \<in> set (map fst (filter (\<lambda>(i, x). crc_entry i \<noteq> x) (enumerate 0 crc_table)))"
    by force
  with assms(2) show False by (simp only: crc_bad_enumerate)
qed

text \<open>The table indices the byte loop visits, from register value \<open>c\<close>.\<close>

fun crc_indices :: "u32 \<Rightarrow> u8 list \<Rightarrow> nat list" where
  "crc_indices c [] = []"
| "crc_indices c (b # bs) = unat ((c XOR ucast b) AND 0xFF) # crc_indices (crc_step b c) bs"

lemma crc_index_lt: "unat (((c :: u32) XOR ucast (b :: u8)) AND 0xFF) < 256"
proof -
  have "unat ((c XOR ucast b) AND (2 ^ 8 - 1)) < 2 ^ 8"
    by (subst unat_and_mask_pow2) simp_all
  then show ?thesis by simp
qed

lemma crc_fold_eq:
  "set (crc_indices c data) \<inter> set crc_bad_indices = {} \<Longrightarrow>
   fold crc_step data c = fold crc_ref_step data c"
proof (induction data arbitrary: c)
  case Nil
  then show ?case by simp
next
  case (Cons b bs)
  then have "crc_step b c = crc_ref_step b c"
    by (simp add: crc_step_def crc_ref_step_def crc_entry_eq_table crc_index_lt)
  with Cons show ?case by auto
qed

text \<open>
  C40. The checksum routine computes CRC-32/ISO-HDLC on every input whose table lookups stay
  off the 89 wrong entries.
\<close>

theorem crc32_update_matches_reference:
  assumes "set (crc_indices (crc XOR 0xFFFFFFFF) data) \<inter> set crc_bad_indices = {}"
  shows "crc32_update crc data = crc32_ref crc data"
  using crc_fold_eq [OF assms] by (simp add: crc32_update_def crc32_ref_def)

theorem crc32_update_matches_reference_witness:
  "set (crc_indices (0 XOR 0xFFFFFFFF) [255, 200, 80]) \<inter> set crc_bad_indices = {}
   \<and> crc32_update 0 [255, 200, 80] = crc32_ref 0 [255, 200, 80]"
proof -
  have h: "set (crc_indices (0 XOR 0xFFFFFFFF) [255, 200, 80]) \<inter> set crc_bad_indices = {}"
    by code_simp
  show ?thesis using h crc32_update_matches_reference [OF h] by simp
qed

end
