(* ===== verification/Fifo.thy ===== *)
theory Fifo
  imports Att_Prelude
begin

text \<open>
  Bounded first-in first-out queues. The repository has two array representations: a ring
  addressed by free-running 64-bit head and tail counters masked with \<open>depth - 1\<close>
  (\<^verbatim>\<open>src/aimu_cmdq.c\<close>), and a ring with a head index and an element count reduced modulo the
  capacity (\<^verbatim>\<open>src/fabric.c\<close>, \<^verbatim>\<open>src/runtime.c\<close>). This theory holds the contents of a ring as a
  list, the lemmas both share, and the interface a queue offers its clients as a locale.
\<close>

section \<open>Contents of a ring\<close>

definition ring_content :: "'a list \<Rightarrow> nat \<Rightarrow> nat \<Rightarrow> 'a list" where
  "ring_content xs h n = map (\<lambda>i. xs ! ((h + i) mod length xs)) [0..<n]"

lemma length_ring_content [simp]: "length (ring_content xs h n) = n"
  by (simp add: ring_content_def)

lemma ring_content_0 [simp]: "ring_content xs h 0 = []"
  by (simp add: ring_content_def)

lemma nth_ring_content:
  "i < n \<Longrightarrow> ring_content xs h n ! i = xs ! ((h + i) mod length xs)"
  by (simp add: ring_content_def)

lemma ring_content_eq_Nil [simp]: "ring_content xs h n = [] \<longleftrightarrow> n = 0"
  by (simp add: ring_content_def)

lemma ring_content_mod: "ring_content xs (h mod length xs) n = ring_content xs h n"
  by (simp add: ring_content_def mod_add_left_eq)

lemma ring_content_cong_mod:
  "h mod length xs = h' mod length xs \<Longrightarrow> ring_content xs h n = ring_content xs h' n"
  by (metis ring_content_mod)

text \<open>The slot one past the last element is distinct from every occupied slot.\<close>

lemma ring_slot_free:
  fixes h i n d :: nat
  assumes "i < n" "n < d"
  shows "(h + n) mod d \<noteq> (h + i) mod d"
proof
  assume "(h + n) mod d = (h + i) mod d"
  then have "d dvd (h + n) - (h + i)"
    using assms by (simp add: mod_eq_dvd_iff_nat)
  then have "d dvd n - i" by simp
  then have "d \<le> n - i" using assms by (simp add: dvd_imp_le)
  with assms show False by linarith
qed

lemma ring_content_push:
  assumes "n < length xs"
  shows "ring_content (xs[(h + n) mod length xs := x]) h (Suc n) = ring_content xs h n @ [x]"
proof -
  have "map (\<lambda>i. xs[(h + n) mod length xs := x] ! ((h + i) mod length xs)) [0..<n]
      = map (\<lambda>i. xs ! ((h + i) mod length xs)) [0..<n]"
    using assms by (simp add: ring_slot_free)
  moreover have "(h + n) mod length xs < length xs"
    using assms by (intro mod_less_divisor) linarith
  ultimately show ?thesis
    by (simp add: ring_content_def)
qed

lemma ring_content_pop:
  assumes "0 < n"
  shows "ring_content xs h n = xs ! (h mod length xs) # ring_content xs (Suc h) (n - 1)"
proof -
  have "[0..<n] = 0 # map Suc [0..<n - 1]"
    using assms by (cases n) (simp_all add: upt_conv_Cons map_Suc_upt del: upt_Suc)
  then show ?thesis
    by (simp add: ring_content_def comp_def)
qed

text \<open>Writing a slot that is not occupied leaves the contents alone.\<close>

lemma ring_content_update_other:
  assumes "\<And>i. i < n \<Longrightarrow> (h + i) mod length xs \<noteq> j"
  shows "ring_content (xs[j := x]) h n = ring_content xs h n"
proof -
  have "j \<noteq> (h + i) mod length xs" if "i < n" for i
    using assms [OF that] by simp
  then show ?thesis by (simp add: ring_content_def)
qed

section \<open>Rings with free-running counters\<close>

text \<open>
  Head and tail are 64-bit counters that only grow (and wrap); the slot of a counter is its
  value masked with \<open>2 ^ k - 1\<close>, the number of elements their difference.
\<close>

definition mring_content :: "'a list \<Rightarrow> size_t \<Rightarrow> size_t \<Rightarrow> 'a list" where
  "mring_content xs hp tp = ring_content xs (unat hp) (unat (tp - hp))"

lemma length_mring_content [simp]: "length (mring_content xs hp tp) = unat (tp - hp)"
  by (simp add: mring_content_def)

lemma mring_used:
  fixes hp tp :: size_t
  assumes "k < 64" "unat (tp - hp) < 2 ^ k"
  shows "(tp - hp) AND (2 ^ k - 1) = tp - hp"
proof -
  have "unat ((tp - hp) AND (2 ^ k - 1)) = unat (tp - hp)"
    using assms by (simp add: unat_and_mask_pow2)
  then show ?thesis by (simp only: word_unat_eq_iff)
qed

lemma mring_slot:
  fixes hp tp :: size_t
  assumes "k < 64"
  shows "unat (tp AND (2 ^ k - 1)) = (unat hp + unat (tp - hp)) mod 2 ^ k"
proof -
  have "unat (tp AND (2 ^ k - 1)) = unat (hp + (tp - hp)) mod 2 ^ k"
    using assms by (simp add: unat_and_mask_pow2)
  also have "\<dots> = (unat hp + unat (tp - hp)) mod 2 ^ k"
    using assms by (subst unat_add_mod_pow2) simp_all
  finally show ?thesis .
qed

lemma mring_count_push:
  fixes hp tp :: size_t
  assumes "k < 64" "unat (tp - hp) < 2 ^ k"
  shows "unat (tp + 1 - hp) = Suc (unat (tp - hp))"
proof -
  have "(2::nat) ^ k \<le> 2 ^ 63" using assms(1) by (intro power_increasing) simp_all
  with assms(2) have "Suc (unat (tp - hp)) < 2 ^ LENGTH(64)" by simp
  then have "unat ((tp - hp) + 1) = Suc (unat (tp - hp))" by (rule unat_plus_one)
  then show ?thesis by (simp add: algebra_simps)
qed

lemma mring_push:
  assumes "k < 64" "length xs = 2 ^ k" "unat (tp - hp) < 2 ^ k"
  shows "mring_content (xs[unat (tp AND (2 ^ k - 1)) := x]) hp (tp + 1) = mring_content xs hp tp @ [x]"
  using assms ring_content_push [of "unat (tp - hp)" xs "unat hp" x]
  by (simp add: mring_content_def mring_count_push mring_slot [of k tp hp])

lemma mring_count_pop:
  fixes hp tp :: size_t
  assumes "tp \<noteq> hp"
  shows "unat (tp - (hp + 1)) = unat (tp - hp) - 1" "0 < unat (tp - hp)"
proof -
  have "tp - hp \<noteq> 0" using assms by simp
  from unat_minus_one_word [OF this]
  show "unat (tp - (hp + 1)) = unat (tp - hp) - 1" "0 < unat (tp - hp)"
    by (simp_all add: algebra_simps)
qed

lemma mring_pop:
  assumes "k < 64" "length xs = 2 ^ k" "tp \<noteq> hp"
  shows "mring_content xs hp tp = xs ! unat (hp AND (2 ^ k - 1)) # mring_content xs (hp + 1) tp"
proof -
  have "unat (hp + 1) mod 2 ^ k = Suc (unat hp) mod 2 ^ k"
    using assms(1) by (subst unat_add_mod_pow2) simp_all
  then have "ring_content xs (Suc (unat hp)) n = ring_content xs (unat (hp + 1)) n" for n
    using assms(2) by (intro ring_content_cong_mod) simp
  with assms show ?thesis
    by (simp add: mring_content_def ring_content_pop mring_count_pop unat_and_mask_pow2)
qed

lemma mring_update_empty_slot:
  assumes "k < 64" "length xs = 2 ^ k" "unat (tp - hp) < 2 ^ k"
  shows "mring_content (xs[unat ((hp - 1) AND (2 ^ k - 1)) := x]) hp tp = mring_content xs hp tp"
proof -
  have "unat (hp - 1 + 1) mod 2 ^ k = (unat (hp - 1) + 1) mod 2 ^ k"
    using assms(1) by (subst unat_add_mod_pow2) simp_all
  then have h: "unat hp mod 2 ^ k = Suc (unat (hp - 1)) mod 2 ^ k" by simp
  have "(unat hp + i) mod length xs \<noteq> unat (hp - 1) mod 2 ^ k" if "i < unat (tp - hp)" for i
  proof
    assume "(unat hp + i) mod length xs = unat (hp - 1) mod 2 ^ k"
    then have "(Suc (unat (hp - 1)) + i) mod 2 ^ k = (unat (hp - 1) + 0) mod 2 ^ k"
      using h assms(2) by (metis add.right_neutral mod_add_left_eq)
    moreover have "(unat (hp - 1) + Suc i) mod 2 ^ k \<noteq> (unat (hp - 1) + 0) mod 2 ^ k"
      using that assms(3) by (intro ring_slot_free) simp_all
    ultimately show False by simp
  qed
  then show ?thesis
    using assms(1) unfolding mring_content_def
    by (intro ring_content_update_other) (simp add: unat_and_mask_pow2)
qed

section \<open>The interface\<close>

fun enq_all :: "('a \<Rightarrow> 'q \<Rightarrow> 'q) \<Rightarrow> 'a list \<Rightarrow> 'q \<Rightarrow> 'q" where
  "enq_all enq [] q = q"
| "enq_all enq (x # xs) q = enq_all enq xs (enq x q)"

fun deq_n :: "('q \<Rightarrow> 'a \<times> 'q) \<Rightarrow> nat \<Rightarrow> 'q \<Rightarrow> 'a list \<times> 'q" where
  "deq_n deq 0 q = ([], q)"
| "deq_n deq (Suc n) q = (let (x, q1) = deq q; (xs, q2) = deq_n deq n q1 in (x # xs, q2))"

text \<open>
  What a client of a bounded queue relies on: \<open>content\<close> is the list of the elements in
  order, \<open>cap\<close> the number of elements that fit, \<open>ok\<close> the elements the queue can hold, and the
  two operations keep \<open>inv\<close>.
\<close>

locale bounded_fifo =
  fixes inv :: "'q \<Rightarrow> bool"
    and content :: "'q \<Rightarrow> 'a list"
    and cap :: "'q \<Rightarrow> nat"
    and ok :: "'q \<Rightarrow> 'a \<Rightarrow> bool"
    and enq :: "'a \<Rightarrow> 'q \<Rightarrow> 'q"
    and deq :: "'q \<Rightarrow> 'a \<times> 'q"
  assumes inv_enq: "inv q \<Longrightarrow> ok q x \<Longrightarrow> length (content q) < cap q \<Longrightarrow> inv (enq x q)"
    and content_enq:
      "inv q \<Longrightarrow> ok q x \<Longrightarrow> length (content q) < cap q \<Longrightarrow> content (enq x q) = content q @ [x]"
    and frame_enq: "inv q \<Longrightarrow> cap (enq x q) = cap q \<and> ok (enq x q) y = ok q y"
    and inv_deq: "inv q \<Longrightarrow> content q \<noteq> [] \<Longrightarrow> inv (snd (deq q))"
    and content_deq:
      "inv q \<Longrightarrow> content q \<noteq> [] \<Longrightarrow> content q = fst (deq q) # content (snd (deq q))"
    and frame_deq: "inv q \<Longrightarrow> cap (snd (deq q)) = cap q \<and> ok (snd (deq q)) y = ok q y"
begin

lemma enq_all_content:
  assumes "inv q" "\<forall>x \<in> set xs. ok q x" "length (content q) + length xs \<le> cap q"
  shows "inv (enq_all enq xs q) \<and> content (enq_all enq xs q) = content q @ xs
    \<and> cap (enq_all enq xs q) = cap q"
  using assms
proof (induction xs arbitrary: q)
  case Nil
  then show ?case by simp
next
  case (Cons x xs)
  then have room: "length (content q) < cap q" "ok q x" by simp_all
  with Cons.prems have "inv (enq x q)" and "content (enq x q) = content q @ [x]"
    by (simp_all add: inv_enq content_enq)
  with Cons.prems Cons.IH [of "enq x q"] show ?case
    by (simp add: frame_enq)
qed

lemma deq_n_content:
  assumes "inv q" "n \<le> length (content q)"
  shows "inv (snd (deq_n deq n q)) \<and> fst (deq_n deq n q) = take n (content q)
    \<and> content (snd (deq_n deq n q)) = drop n (content q)"
  using assms
proof (induction n arbitrary: q)
  case 0
  then show ?case by simp
next
  case (Suc n)
  then have ne: "content q \<noteq> []" by auto
  obtain x q1 where q1: "deq q = (x, q1)" by force
  have c: "content q = x # content q1" and "inv q1"
    using Suc.prems(1) ne content_deq [of q] inv_deq [of q] q1 by simp_all
  then show ?case
    using Suc.prems Suc.IH [of q1] q1 by (cases "deq_n deq n q1") simp
qed

text \<open>First in, first out: what went in behind the old contents comes out behind it, in order.\<close>

lemma fifo_roundtrip:
  assumes "inv q" "content q = []" "\<forall>x \<in> set xs. ok q x" "length xs \<le> cap q"
  shows "fst (deq_n deq (length xs) (enq_all enq xs q)) = xs"
proof -
  have e: "inv (enq_all enq xs q)" "content (enq_all enq xs q) = xs"
    using enq_all_content [of q xs] assms by simp_all
  show ?thesis using deq_n_content [OF e(1), of "length xs"] e(2) by simp
qed

end

end
