(* ===== verification/Wire.thy ===== *)
theory Wire
  imports Att_Prelude
begin

text \<open>
  Little-endian wire formats: bytes of words and back, reads from a buffer that fail outside of
  it, and the locales of fixed-width record formats. An access of the C code at an offset of a
  buffer is \<open>bytes_at\<close>; \<^term>\<open>None\<close> is an access outside the buffer, which is undefined
  behaviour in C, so a parser that never returns it is memory safe.
\<close>

section \<open>Words as bytes\<close>

definition le_bytes :: "nat \<Rightarrow> 'a::len word \<Rightarrow> u8 list" where
  "le_bytes n w = map (\<lambda>i. ucast (drop_bit (8 * i) w)) [0..<n]"

lemma length_le_bytes [simp]: "length (le_bytes n w) = n"
  by (simp add: le_bytes_def)

lemma nth_le_bytes [simp]: "i < n \<Longrightarrow> le_bytes n w ! i = ucast (drop_bit (8 * i) w)"
  by (simp add: le_bytes_def)

definition read_u32le :: "u8 list \<Rightarrow> u32" where
  "read_u32le p = ucast (p ! 0) OR push_bit 8 (ucast (p ! 1)) OR push_bit 16 (ucast (p ! 2))
     OR push_bit 24 (ucast (p ! 3))"

definition read_u64le :: "u8 list \<Rightarrow> u64" where
  "read_u64le p = ucast (p ! 0) OR push_bit 8 (ucast (p ! 1)) OR push_bit 16 (ucast (p ! 2))
     OR push_bit 24 (ucast (p ! 3)) OR push_bit 32 (ucast (p ! 4)) OR push_bit 40 (ucast (p ! 5))
     OR push_bit 48 (ucast (p ! 6)) OR push_bit 56 (ucast (p ! 7))"

lemma bit_byte_at:
  "bit (push_bit (8 * k) (ucast (b :: u8)) :: 'a::len word) n \<longleftrightarrow> n < LENGTH('a) \<and> n div 8 = k \<and> bit b (n mod 8)"
proof (cases "8 * k \<le> n \<and> n < 8 * k + 8")
  case True
  then have "n div 8 = k" "n mod 8 = n - 8 * k" by (auto simp: div_nat_eqI minus_mult_div_eq_mod [symmetric])
  then show ?thesis using True by (auto simp: bit_simps)
next
  case False
  then have "n div 8 \<noteq> k" by auto
  moreover have "\<not> (8 * k \<le> n \<and> bit b (n - 8 * k))" using False bit_imp_le_length [of b "n - 8 * k"] by auto
  ultimately show ?thesis by (auto simp: bit_simps)
qed

lemma bit_byte_0:
  "bit (ucast (b :: u8) :: 'a::len word) n \<longleftrightarrow> n < LENGTH('a) \<and> n div 8 = 0 \<and> bit b (n mod 8)"
  using bit_byte_at [of 0 b n, where 'a = 'a] by simp

lemma len_num: "LENGTH(32) = (32 :: nat)" "LENGTH(64) = (64 :: nat)"
  by simp_all

lemma bit_read_u32le: "bit (read_u32le p) n \<longleftrightarrow> n < 32 \<and> bit (p ! (n div 8)) (n mod 8)"
proof -
  note at = bit_byte_at [where 'a = 32]
  have e: "bit (read_u32le p) n \<longleftrightarrow> n < 32 \<and> (n div 8 = 0 \<and> bit (p ! 0) (n mod 8) \<or> n div 8 = 1 \<and> bit (p ! 1) (n mod 8) \<or> n div 8 = 2 \<and> bit (p ! 2) (n mod 8) \<or> n div 8 = 3 \<and> bit (p ! 3) (n mod 8))"
    unfolding read_u32le_def bit_or_iff bit_byte_0
    using at [of 1 "p ! 1" n, simplified]
      at [of 2 "p ! 2" n, simplified]
      at [of 3 "p ! 3" n, simplified]
    by (simp only: len_num One_nat_def conj_disj_distribL)
  have alt: "q = 0 \<or> q = 1 \<or> q = 2 \<or> q = 3" if "q < 4" for q :: nat using that by linarith
  show ?thesis
  proof (cases "n < 32")
    case True
    then have "n div 8 < 4" by (simp add: less_mult_imp_div_less)
    from alt [OF this] show ?thesis unfolding e by (elim disjE) simp_all
  qed (simp add: e)
qed

lemma bit_read_u64le: "bit (read_u64le p) n \<longleftrightarrow> n < 64 \<and> bit (p ! (n div 8)) (n mod 8)"
proof -
  note at = bit_byte_at [where 'a = 64]
  have e: "bit (read_u64le p) n \<longleftrightarrow> n < 64 \<and> (n div 8 = 0 \<and> bit (p ! 0) (n mod 8) \<or> n div 8 = 1 \<and> bit (p ! 1) (n mod 8) \<or> n div 8 = 2 \<and> bit (p ! 2) (n mod 8) \<or> n div 8 = 3 \<and> bit (p ! 3) (n mod 8) \<or> n div 8 = 4 \<and> bit (p ! 4) (n mod 8) \<or> n div 8 = 5 \<and> bit (p ! 5) (n mod 8) \<or> n div 8 = 6 \<and> bit (p ! 6) (n mod 8) \<or> n div 8 = 7 \<and> bit (p ! 7) (n mod 8))"
    unfolding read_u64le_def bit_or_iff bit_byte_0
    using at [of 1 "p ! 1" n, simplified]
      at [of 2 "p ! 2" n, simplified]
      at [of 3 "p ! 3" n, simplified]
      at [of 4 "p ! 4" n, simplified]
      at [of 5 "p ! 5" n, simplified]
      at [of 6 "p ! 6" n, simplified]
      at [of 7 "p ! 7" n, simplified]
    by (simp only: len_num One_nat_def conj_disj_distribL)
  have alt: "q = 0 \<or> q = 1 \<or> q = 2 \<or> q = 3 \<or> q = 4 \<or> q = 5 \<or> q = 6 \<or> q = 7" if "q < 8" for q :: nat using that by linarith
  show ?thesis
  proof (cases "n < 64")
    case True
    then have "n div 8 < 8" by (simp add: less_mult_imp_div_less)
    from alt [OF this] show ?thesis unfolding e by (elim disjE) simp_all
  qed (simp add: e)
qed

lemma read_u32le_bytes [simp]: "read_u32le (le_bytes 4 w) = w"
  by (rule bit_word_eqI) (auto simp: bit_read_u32le bit_simps le_bytes_def)

lemma read_u64le_bytes [simp]: "read_u64le (le_bytes 8 w) = w"
  by (rule bit_word_eqI) (auto simp: bit_read_u64le bit_simps le_bytes_def)

lemma bytes_read_u32le: "length bs = 4 \<Longrightarrow> le_bytes 4 (read_u32le bs) = bs"
  by (rule nth_equalityI, simp, rule bit_word_eqI) (auto simp: bit_read_u32le bit_simps)

lemma bytes_read_u64le: "length bs = 8 \<Longrightarrow> le_bytes 8 (read_u64le bs) = bs"
  by (rule nth_equalityI, simp, rule bit_word_eqI) (auto simp: bit_read_u64le bit_simps)

section \<open>Reads from a buffer\<close>

definition bytes_at :: "u8 list \<Rightarrow> nat \<Rightarrow> nat \<Rightarrow> u8 list option" where
  "bytes_at data off n = (if off + n \<le> length data then Some (read_bytes off n data) else None)"

definition rd_u32 :: "u8 list \<Rightarrow> nat \<Rightarrow> u32 option" where
  "rd_u32 data off = map_option read_u32le (bytes_at data off 4)"

definition rd_u64 :: "u8 list \<Rightarrow> nat \<Rightarrow> u64 option" where
  "rd_u64 data off = map_option read_u64le (bytes_at data off 8)"

lemma bytes_at_in_bounds: "off + n \<le> length data \<Longrightarrow> bytes_at data off n = Some (read_bytes off n data)"
  by (simp add: bytes_at_def)

lemma bytes_at_length: "bytes_at data off n = Some bs \<Longrightarrow> length bs = n \<and> off + n \<le> length data"
  by (auto simp: bytes_at_def split: if_splits)

text \<open>A buffer cut into consecutive fields.\<close>

fun cut_fields :: "nat \<Rightarrow> nat list \<Rightarrow> u8 list \<Rightarrow> u8 list list" where
  "cut_fields off [] bs = []"
| "cut_fields off (w # ws) bs = read_bytes off w bs # cut_fields (off + w) ws bs"

lemma concat_cut_fields: "concat (cut_fields off ws bs) = read_bytes off (sum_list ws) bs"
proof (induction ws arbitrary: off)
  case Nil
  then show ?case by (simp add: read_bytes_def)
next
  case (Cons w ws)
  then show ?case by (simp add: read_bytes_def take_add add.commute)
qed

lemma read_bytes_all: "n = length bs \<Longrightarrow> read_bytes 0 n bs = bs"
  by (simp add: read_bytes_def)

text \<open>Evaluation on concatenated fields.\<close>

lemma read_bytes_skip: "length xs \<le> off \<Longrightarrow> read_bytes off n (xs @ ys) = read_bytes (off - length xs) n ys"
  by (simp add: read_bytes_def)

lemma read_bytes_hit: "n = length xs \<Longrightarrow> read_bytes 0 n (xs @ ys) = xs"
  by (simp add: read_bytes_def)

lemma read_bytes_take: "off + n \<le> k \<Longrightarrow> read_bytes off n (take k xs) = read_bytes off n xs"
  by (simp add: read_bytes_def drop_take min_def)


lemma bytes_at_skip: "length xs \<le> off \<Longrightarrow> bytes_at (xs @ ys) off n = bytes_at ys (off - length xs) n"
  by (auto simp: bytes_at_def read_bytes_def)

lemma bytes_at_hit: "n = length xs \<Longrightarrow> bytes_at (xs @ ys) 0 n = Some xs"
  by (simp add: bytes_at_def read_bytes_def)

lemma bytes_at_all: "n = length xs \<Longrightarrow> bytes_at xs 0 n = Some xs"
  by (simp add: bytes_at_def read_bytes_def)

lemmas wire_eval = bytes_at_skip bytes_at_hit bytes_at_all rd_u32_def rd_u64_def

section \<open>Record formats\<close>

text \<open>
  A record of a fixed width: what is written is read back. In an exact format, in addition,
  a buffer that is accepted is the encoding of the record read from it.
\<close>

locale wire_format =
  fixes width :: nat and enc :: "'a \<Rightarrow> u8 list" and dec :: "u8 list \<Rightarrow> 'a option" and valid :: "'a \<Rightarrow> bool"
  assumes enc_length: "valid x \<Longrightarrow> length (enc x) = width"
    and dec_enc: "valid x \<Longrightarrow> dec (enc x) = Some x"
begin

lemma enc_inj: "valid x \<Longrightarrow> valid y \<Longrightarrow> enc x = enc y \<Longrightarrow> x = y"
  using dec_enc by (metis option.inject)

text \<open>Records one after the other.\<close>

lemma array_length: "\<forall>x \<in> set xs. valid x \<Longrightarrow> length (concat (map enc xs)) = width * length xs"
  by (induction xs) (simp_all add: enc_length)

lemma array_nth:
  assumes "\<forall>x \<in> set xs. valid x" "i < length xs"
  shows "bytes_at (concat (map enc xs) @ zs) (i * width) width = Some (enc (xs ! i))"
  using assms
proof (induction xs arbitrary: i)
  case (Cons x xs)
  have x: "length (enc x) = width" using Cons.prems(1) by (simp add: enc_length)
  show ?case
  proof (cases i)
    case 0
    then show ?thesis using x by (simp add: bytes_at_hit)
  next
    case (Suc j)
    then have "bytes_at (enc x @ concat (map enc xs) @ zs) (i * width) width
        = bytes_at (concat (map enc xs) @ zs) (j * width) width"
      using x by (simp add: bytes_at_skip)
    then show ?thesis using Suc Cons by simp
  qed
qed simp

end

locale exact_wire_format = wire_format +
  assumes enc_dec: "length bs = width \<Longrightarrow> dec bs = Some x \<Longrightarrow> valid x \<and> enc x = bs"
begin

lemma dec_iff: "length bs = width \<Longrightarrow> dec bs = Some x \<longleftrightarrow> valid x \<and> bs = enc x"
  using dec_enc enc_dec by blast

end

interpretation u32_wire: exact_wire_format 4 "le_bytes 4" "\<lambda>bs. Some (read_u32le bs)" "\<lambda>_. True"
  by unfold_locales (auto simp: bytes_read_u32le)

interpretation u64_wire: exact_wire_format 8 "le_bytes 8" "\<lambda>bs. Some (read_u64le bs)" "\<lambda>_. True"
  by unfold_locales (auto simp: bytes_read_u64le)

end
