(* ===== verification/Aimu_Command.thy ===== *)
theory Aimu_Command
  imports Aimu_Crc Wire
begin

text \<open>
  The vocabulary of the AIMU command protocol (\<^verbatim>\<open>include/att1_aimu_cmdq.h\<close>,
  \<^verbatim>\<open>src/aimu_cmdq.c\<close>): command types and result codes with their byte values, names and
  status mapping, the 64-byte command descriptor, the completion record and the checksum.
\<close>

section \<open>Command types and result codes\<close>

datatype att1_aimu_cmd_type =
    CMD_NOP | CMD_LOAD_TENSOR_TILE | CMD_VALIDATE_TENSOR
  | CMD_EXEC_MATMUL | CMD_EXEC_RMSNORM | CMD_EXEC_ROPE | CMD_EXEC_ATTENTION | CMD_EXEC_FFN
  | CMD_KV_APPEND | CMD_KV_READ | CMD_FABRIC_SEND | CMD_FABRIC_REDUCE
  | CMD_TRACE_SNAPSHOT | CMD_TILE_BARRIER | CMD_RESET_TILE | CMD_QUERY_COUNTERS

fun cmd_type_code :: "att1_aimu_cmd_type \<Rightarrow> u8" where
  "cmd_type_code CMD_NOP = 0x00"
| "cmd_type_code CMD_LOAD_TENSOR_TILE = 0x01"
| "cmd_type_code CMD_VALIDATE_TENSOR = 0x02"
| "cmd_type_code CMD_EXEC_MATMUL = 0x10"
| "cmd_type_code CMD_EXEC_RMSNORM = 0x11"
| "cmd_type_code CMD_EXEC_ROPE = 0x12"
| "cmd_type_code CMD_EXEC_ATTENTION = 0x13"
| "cmd_type_code CMD_EXEC_FFN = 0x14"
| "cmd_type_code CMD_KV_APPEND = 0x20"
| "cmd_type_code CMD_KV_READ = 0x21"
| "cmd_type_code CMD_FABRIC_SEND = 0x30"
| "cmd_type_code CMD_FABRIC_REDUCE = 0x31"
| "cmd_type_code CMD_TRACE_SNAPSHOT = 0x40"
| "cmd_type_code CMD_TILE_BARRIER = 0x41"
| "cmd_type_code CMD_RESET_TILE = 0x50"
| "cmd_type_code CMD_QUERY_COUNTERS = 0x51"

definition all_cmd_types :: "att1_aimu_cmd_type list" where
  "all_cmd_types =
    [CMD_NOP, CMD_LOAD_TENSOR_TILE, CMD_VALIDATE_TENSOR,
     CMD_EXEC_MATMUL, CMD_EXEC_RMSNORM, CMD_EXEC_ROPE, CMD_EXEC_ATTENTION, CMD_EXEC_FFN,
     CMD_KV_APPEND, CMD_KV_READ, CMD_FABRIC_SEND, CMD_FABRIC_REDUCE,
     CMD_TRACE_SNAPSHOT, CMD_TILE_BARRIER, CMD_RESET_TILE, CMD_QUERY_COUNTERS]"

text \<open>The cast of the \<^verbatim>\<open>command_type\<close> byte to the enumeration; \<^term>\<open>None\<close> is no enumerator.\<close>

definition cmd_type_of :: "u8 \<Rightarrow> att1_aimu_cmd_type option" where
  "cmd_type_of b = find (\<lambda>t. cmd_type_code t = b) all_cmd_types"

datatype att1_aimu_result =
    AIMU_OK | AIMU_BUSY | AIMU_PENDING
  | AIMU_ERR_INVALID_COMMAND | AIMU_ERR_INVALID_TENSOR | AIMU_ERR_INVALID_DTYPE
  | AIMU_ERR_INVALID_SHAPE | AIMU_ERR_INVALID_SESSION
  | AIMU_ERR_OUT_OF_MEMORY | AIMU_ERR_QUEUE_FULL | AIMU_ERR_KV_OVERFLOW
  | AIMU_ERR_FABRIC | AIMU_ERR_FABRIC_TIMEOUT | AIMU_ERR_BARRIER_TIMEOUT
  | AIMU_ERR_CHECKSUM | AIMU_ERR_DMA_FAULT | AIMU_ERR_ALIGNMENT
  | AIMU_ERR_TIMEOUT | AIMU_ERR_FENCE_DEADLOCK
  | AIMU_ERR_UNSUPPORTED_OP | AIMU_ERR_UNSUPPORTED_DTYPE
  | AIMU_ERR_INTERNAL | AIMU_ERR_FATAL

fun result_byte :: "att1_aimu_result \<Rightarrow> u8" where
  "result_byte AIMU_OK = 0x00"
| "result_byte AIMU_BUSY = 0x01"
| "result_byte AIMU_PENDING = 0x02"
| "result_byte AIMU_ERR_INVALID_COMMAND = 0x10"
| "result_byte AIMU_ERR_INVALID_TENSOR = 0x11"
| "result_byte AIMU_ERR_INVALID_DTYPE = 0x12"
| "result_byte AIMU_ERR_INVALID_SHAPE = 0x13"
| "result_byte AIMU_ERR_INVALID_SESSION = 0x14"
| "result_byte AIMU_ERR_OUT_OF_MEMORY = 0x20"
| "result_byte AIMU_ERR_QUEUE_FULL = 0x21"
| "result_byte AIMU_ERR_KV_OVERFLOW = 0x22"
| "result_byte AIMU_ERR_FABRIC = 0x30"
| "result_byte AIMU_ERR_FABRIC_TIMEOUT = 0x31"
| "result_byte AIMU_ERR_BARRIER_TIMEOUT = 0x32"
| "result_byte AIMU_ERR_CHECKSUM = 0x40"
| "result_byte AIMU_ERR_DMA_FAULT = 0x41"
| "result_byte AIMU_ERR_ALIGNMENT = 0x42"
| "result_byte AIMU_ERR_TIMEOUT = 0x50"
| "result_byte AIMU_ERR_FENCE_DEADLOCK = 0x51"
| "result_byte AIMU_ERR_UNSUPPORTED_OP = 0x60"
| "result_byte AIMU_ERR_UNSUPPORTED_DTYPE = 0x61"
| "result_byte AIMU_ERR_INTERNAL = 0xF0"
| "result_byte AIMU_ERR_FATAL = 0xFF"

fun att1_aimu_result_to_status :: "att1_aimu_result \<Rightarrow> att1_status" where
  "att1_aimu_result_to_status AIMU_OK = ATT1_OK"
| "att1_aimu_result_to_status AIMU_BUSY = ATT1_OK"
| "att1_aimu_result_to_status AIMU_PENDING = ATT1_OK"
| "att1_aimu_result_to_status AIMU_ERR_INVALID_COMMAND = ATT1_ERR_INVALID_ARG"
| "att1_aimu_result_to_status AIMU_ERR_INVALID_TENSOR = ATT1_ERR_NOT_FOUND"
| "att1_aimu_result_to_status AIMU_ERR_INVALID_DTYPE = ATT1_ERR_UNSUPPORTED"
| "att1_aimu_result_to_status AIMU_ERR_INVALID_SHAPE = ATT1_ERR_SHAPE"
| "att1_aimu_result_to_status AIMU_ERR_INVALID_SESSION = ATT1_ERR_INVALID_ARG"
| "att1_aimu_result_to_status AIMU_ERR_OUT_OF_MEMORY = ATT1_ERR_OOM"
| "att1_aimu_result_to_status AIMU_ERR_QUEUE_FULL = ATT1_ERR_QUEUE_FULL"
| "att1_aimu_result_to_status AIMU_ERR_KV_OVERFLOW = ATT1_ERR_STATE"
| "att1_aimu_result_to_status AIMU_ERR_FABRIC = ATT1_ERR_IO"
| "att1_aimu_result_to_status AIMU_ERR_FABRIC_TIMEOUT = ATT1_ERR_TIMEOUT"
| "att1_aimu_result_to_status AIMU_ERR_BARRIER_TIMEOUT = ATT1_ERR_TIMEOUT"
| "att1_aimu_result_to_status AIMU_ERR_CHECKSUM = ATT1_ERR_BAD_FORMAT"
| "att1_aimu_result_to_status AIMU_ERR_DMA_FAULT = ATT1_ERR_IO"
| "att1_aimu_result_to_status AIMU_ERR_ALIGNMENT = ATT1_ERR_INVALID_ARG"
| "att1_aimu_result_to_status AIMU_ERR_TIMEOUT = ATT1_ERR_TIMEOUT"
| "att1_aimu_result_to_status AIMU_ERR_FENCE_DEADLOCK = ATT1_ERR_STATE"
| "att1_aimu_result_to_status AIMU_ERR_UNSUPPORTED_OP = ATT1_ERR_UNSUPPORTED"
| "att1_aimu_result_to_status AIMU_ERR_UNSUPPORTED_DTYPE = ATT1_ERR_UNSUPPORTED"
| "att1_aimu_result_to_status AIMU_ERR_INTERNAL = ATT1_ERR_STATE"
| "att1_aimu_result_to_status AIMU_ERR_FATAL = ATT1_ERR_STATE"

section \<open>Descriptors\<close>

text \<open>\<^verbatim>\<open>att1_aimu_cmd\<close>, in the order of its 64-byte layout (the three pad bytes are not read).\<close>

record att1_aimu_cmd =
  c_input_buf_addr :: u64
  c_output_buf_addr :: u64
  c_command_id :: u32
  c_input_buf_bytes :: u32
  c_output_buf_bytes :: u32
  c_kv_position :: u32
  c_op_param_0 :: u32
  c_op_param_1 :: u32
  c_checksum :: u32
  c_model_id :: u16
  c_tensor_id :: u16
  c_fence_id :: u16
  c_completion_fence_id :: u16
  c_timeout_ms :: u16
  c_command_type :: u8
  c_tile_id :: u8
  c_session_id :: u8
  c_dtype :: u8
  c_trace_flags :: u8
  c_priority :: u8
  c_status :: u8

record att1_aimu_completion =
  k_command_id :: u32
  k_tile_id :: u8
  k_session_id :: u8
  k_result_code :: u8
  k_latency_us :: u32
  k_fence_value :: u32
  k_bytes_read :: u32
  k_bytes_written :: u32
  k_packets_sent :: u32
  k_packets_received :: u32
  k_trace_event_count :: u32

text \<open>A descriptor of zero bytes, as \<^verbatim>\<open>calloc\<close> and \<^verbatim>\<open>memset\<close> leave it.\<close>

definition zero_cmd :: att1_aimu_cmd where
  "zero_cmd = \<lparr>c_input_buf_addr = 0, c_output_buf_addr = 0, c_command_id = 0,
     c_input_buf_bytes = 0, c_output_buf_bytes = 0, c_kv_position = 0, c_op_param_0 = 0,
     c_op_param_1 = 0, c_checksum = 0, c_model_id = 0, c_tensor_id = 0, c_fence_id = 0,
     c_completion_fence_id = 0, c_timeout_ms = 0, c_command_type = 0, c_tile_id = 0,
     c_session_id = 0, c_dtype = 0, c_trace_flags = 0, c_priority = 0, c_status = 0\<rparr>"

definition zero_completion :: att1_aimu_completion where
  "zero_completion = \<lparr>k_command_id = 0, k_tile_id = 0, k_session_id = 0, k_result_code = 0,
     k_latency_us = 0, k_fence_value = 0, k_bytes_read = 0, k_bytes_written = 0,
     k_packets_sent = 0, k_packets_received = 0, k_trace_event_count = 0\<rparr>"

text \<open>
  \<^verbatim>\<open>cmd_checksum\<close>: the CRC routine over the bytes in front of the \<^verbatim>\<open>checksum\<close> field (offsets
  0 to 39), in the little-endian layout of the host.
\<close>

definition cmd_bytes_0_39 :: "att1_aimu_cmd \<Rightarrow> u8 list" where
  "cmd_bytes_0_39 c =
     le_bytes 8 (c_input_buf_addr c) @ le_bytes 8 (c_output_buf_addr c)
     @ le_bytes 4 (c_command_id c) @ le_bytes 4 (c_input_buf_bytes c)
     @ le_bytes 4 (c_output_buf_bytes c) @ le_bytes 4 (c_kv_position c)
     @ le_bytes 4 (c_op_param_0 c) @ le_bytes 4 (c_op_param_1 c)"

definition cmd_checksum :: "att1_aimu_cmd \<Rightarrow> u32" where
  "cmd_checksum c = crc32_update 0 (cmd_bytes_0_39 c)"

section \<open>Names\<close>

fun cmd_type_name :: "att1_aimu_cmd_type \<Rightarrow> string" where
  "cmd_type_name CMD_NOP = ''NOP''"
| "cmd_type_name CMD_LOAD_TENSOR_TILE = ''LOAD_TENSOR_TILE''"
| "cmd_type_name CMD_VALIDATE_TENSOR = ''VALIDATE_TENSOR_TILE''"
| "cmd_type_name CMD_EXEC_MATMUL = ''EXEC_MATMUL''"
| "cmd_type_name CMD_EXEC_RMSNORM = ''EXEC_RMSNORM''"
| "cmd_type_name CMD_EXEC_ROPE = ''EXEC_ROPE''"
| "cmd_type_name CMD_EXEC_ATTENTION = ''EXEC_ATTENTION''"
| "cmd_type_name CMD_EXEC_FFN = ''EXEC_FFN''"
| "cmd_type_name CMD_KV_APPEND = ''KV_APPEND''"
| "cmd_type_name CMD_KV_READ = ''KV_READ''"
| "cmd_type_name CMD_FABRIC_SEND = ''FABRIC_SEND''"
| "cmd_type_name CMD_FABRIC_REDUCE = ''FABRIC_REDUCE''"
| "cmd_type_name CMD_TRACE_SNAPSHOT = ''TRACE_SNAPSHOT''"
| "cmd_type_name CMD_TILE_BARRIER = ''TILE_BARRIER''"
| "cmd_type_name CMD_RESET_TILE = ''RESET_TILE''"
| "cmd_type_name CMD_QUERY_COUNTERS = ''QUERY_COUNTERS''"

definition att1_aimu_cmd_type_name :: "u8 \<Rightarrow> string" where
  "att1_aimu_cmd_type_name b =
     (case cmd_type_of b of Some t \<Rightarrow> cmd_type_name t | None \<Rightarrow> ''UNKNOWN'')"

fun att1_aimu_result_name :: "att1_aimu_result \<Rightarrow> string" where
  "att1_aimu_result_name AIMU_OK = ''OK''"
| "att1_aimu_result_name AIMU_BUSY = ''BUSY''"
| "att1_aimu_result_name AIMU_PENDING = ''PENDING''"
| "att1_aimu_result_name AIMU_ERR_INVALID_COMMAND = ''ERR_INVALID_COMMAND''"
| "att1_aimu_result_name AIMU_ERR_INVALID_TENSOR = ''ERR_INVALID_TENSOR''"
| "att1_aimu_result_name AIMU_ERR_INVALID_DTYPE = ''ERR_INVALID_DTYPE''"
| "att1_aimu_result_name AIMU_ERR_INVALID_SHAPE = ''ERR_INVALID_SHAPE''"
| "att1_aimu_result_name AIMU_ERR_INVALID_SESSION = ''ERR_INVALID_SESSION''"
| "att1_aimu_result_name AIMU_ERR_OUT_OF_MEMORY = ''ERR_OUT_OF_MEMORY''"
| "att1_aimu_result_name AIMU_ERR_QUEUE_FULL = ''ERR_QUEUE_FULL''"
| "att1_aimu_result_name AIMU_ERR_KV_OVERFLOW = ''ERR_KV_OVERFLOW''"
| "att1_aimu_result_name AIMU_ERR_FABRIC = ''ERR_FABRIC''"
| "att1_aimu_result_name AIMU_ERR_FABRIC_TIMEOUT = ''ERR_FABRIC_TIMEOUT''"
| "att1_aimu_result_name AIMU_ERR_BARRIER_TIMEOUT = ''ERR_BARRIER_TIMEOUT''"
| "att1_aimu_result_name AIMU_ERR_CHECKSUM = ''ERR_CHECKSUM''"
| "att1_aimu_result_name AIMU_ERR_DMA_FAULT = ''ERR_DMA_FAULT''"
| "att1_aimu_result_name AIMU_ERR_ALIGNMENT = ''ERR_ALIGNMENT''"
| "att1_aimu_result_name AIMU_ERR_TIMEOUT = ''ERR_TIMEOUT''"
| "att1_aimu_result_name AIMU_ERR_FENCE_DEADLOCK = ''ERR_FENCE_DEADLOCK''"
| "att1_aimu_result_name AIMU_ERR_UNSUPPORTED_OP = ''ERR_UNSUPPORTED_OP''"
| "att1_aimu_result_name AIMU_ERR_UNSUPPORTED_DTYPE = ''ERR_UNSUPPORTED_DTYPE''"
| "att1_aimu_result_name AIMU_ERR_INTERNAL = ''ERR_INTERNAL''"
| "att1_aimu_result_name AIMU_ERR_FATAL = ''ERR_FATAL''"

section \<open>Laws of the codes\<close>

lemma cmd_type_of_code [simp]: "cmd_type_of (cmd_type_code t) = Some t"
  by (cases t) (simp_all add: cmd_type_of_def all_cmd_types_def)

lemma cmd_type_code_inj: "cmd_type_code t = cmd_type_code t' \<longleftrightarrow> t = t'"
  by (metis cmd_type_of_code option.inject)

lemma cmd_type_of_SomeD: "cmd_type_of b = Some t \<Longrightarrow> cmd_type_code t = b"
  by (auto simp: cmd_type_of_def find_Some_iff)

lemma result_to_status_OK:
  "att1_aimu_result_to_status r = ATT1_OK \<longleftrightarrow> r \<in> {AIMU_OK, AIMU_BUSY, AIMU_PENDING}"
  by (cases r) simp_all

lemma length_cmd_bytes: "length (cmd_bytes_0_39 c) = 40"
  by (simp add: cmd_bytes_0_39_def)

text \<open>The checksum does not look at itself, nor at the fields behind it.\<close>

lemma cmd_checksum_frame:
  "cmd_checksum (c\<lparr>c_checksum := x\<rparr>) = cmd_checksum c"
  "cmd_checksum (c\<lparr>c_status := s\<rparr>) = cmd_checksum c"
  "cmd_checksum (c\<lparr>c_command_type := b\<rparr>) = cmd_checksum c"
  "cmd_checksum (c\<lparr>c_tile_id := b\<rparr>) = cmd_checksum c"
  "cmd_checksum (c\<lparr>c_tensor_id := y\<rparr>) = cmd_checksum c"
  by (simp_all add: cmd_checksum_def cmd_bytes_0_39_def)

lemma le_bytes_small:
  fixes a :: u64
  assumes "unat a < 256"
  shows "le_bytes 8 a = ucast a # replicate 7 0"
proof -
  have z: "ucast (drop_bit (8 * Suc i) a) = (0 :: u8)" for i
  proof -
    have "unat (drop_bit (8 * Suc i) a) = unat a div 2 ^ (8 * Suc i)"
      by (simp only: unsigned_drop_bit_eq take_bit_nat_eq_self [OF unat_lt_size] drop_bit_nat_def)
    also have "\<dots> = 0"
      using assms by (simp add: power_add div_mult2_eq)
    finally have "drop_bit (8 * Suc i) a = 0" by (simp only: unsigned_eq_0_iff)
    then show ?thesis by (simp only: unsigned_0)
  qed
  have "[0..<8] = 0 # map Suc [0..<7]" by (simp add: upt_conv_Cons map_Suc_upt numeral_eq_Suc)
  then have "le_bytes 8 a = ucast a # map (\<lambda>i. ucast (drop_bit (8 * Suc i) a)) [0..<7]"
    by (simp add: le_bytes_def comp_def del: mult_Suc_right)
  also have "\<dots> = ucast a # map (\<lambda>i. 0) [0..<7]" by (simp only: z)
  also have "\<dots> = ucast a # replicate 7 0" by (simp add: map_replicate_const)
  finally show ?thesis .
qed

text \<open>
  The checksum of a command does not separate input buffer addresses below 76: a wrong
  low address bit goes unnoticed.
\<close>

theorem cmd_checksum_misses_address_bits:
  assumes "unat a < 76" "unat b < 76"
  shows "cmd_checksum (c\<lparr>c_input_buf_addr := a\<rparr>) = cmd_checksum (c\<lparr>c_input_buf_addr := b\<rparr>)"
proof -
  have low: "unat (ucast x :: u8) < 76" if "unat x < 76" for x :: u64
    using that by (simp add: unsigned_ucast_eq take_bit_nat_eq_self)
  show ?thesis
    using assms crc32_update_low_first [OF low low, OF assms]
    by (simp add: cmd_checksum_def cmd_bytes_0_39_def le_bytes_small)
qed

theorem cmd_checksum_misses_address_bits_witness:
  "unat (16 :: u64) < 76 \<and> unat (0 :: u64) < 76
   \<and> cmd_checksum (zero_cmd\<lparr>c_input_buf_addr := 16\<rparr>)
     = cmd_checksum (zero_cmd\<lparr>c_input_buf_addr := 0\<rparr>)"
  using cmd_checksum_misses_address_bits [of 16 0 zero_cmd] by simp

end
