(* ===== verification/Aimu_Cmdq.thy ===== *)
theory Aimu_Cmdq
  imports Fifo Aimu_Command
begin

text \<open>
  The AIMU command-queue simulator (\<^verbatim>\<open>src/aimu_cmdq.c\<close>): the command and completion rings,
  submission by the host, dispatch by the device, completion polling and the counters. The
  queue is a record; an operation returns its status and the new queue. The optional
  execution hook is a function from the hook context and the popped descriptor to a result,
  the new context and the descriptor as the hook leaves it in its slot (a hook that reaches
  the queue itself through its context is outside the model). The entry points take the
  queue pointer as an option; memory allocation is an oracle \<open>alloc\<close> that says whether the
  i-th \<^verbatim>\<open>calloc\<close> of the call succeeds.
\<close>

section \<open>State\<close>

record att1_aimu_cmdq_counters =
  qc_commands_submitted :: u64
  qc_commands_completed :: u64
  qc_commands_failed :: u64
  qc_queue_full_count :: u64
  qc_compq_full_count :: u64
  qc_resets :: u64
  qc_unsupported_commands :: u64
  qc_fence_value :: u64

definition zero_cmdq_counters :: att1_aimu_cmdq_counters where
  "zero_cmdq_counters = \<lparr>qc_commands_submitted = 0, qc_commands_completed = 0,
     qc_commands_failed = 0, qc_queue_full_count = 0, qc_compq_full_count = 0,
     qc_resets = 0, qc_unsupported_commands = 0, qc_fence_value = 0\<rparr>"

record att1_aimu_cmdq_config =
  qcfg_tile_count :: size_t
  qcfg_cmd_ring_depth :: size_t
  qcfg_comp_ring_depth :: size_t

type_synonym 'ctx exec_hook_fn =
  "'ctx option \<Rightarrow> att1_aimu_cmd \<Rightarrow> att1_aimu_result \<times> 'ctx option \<times> att1_aimu_cmd"

record 'ctx att1_aimu_cmdq =
  q_magic :: u32
  q_config :: att1_aimu_cmdq_config
  q_counters :: att1_aimu_cmdq_counters
  q_cmd_ring :: "att1_aimu_cmd list"
  q_cmd_head :: size_t
  q_cmd_tail :: size_t
  q_comp_ring :: "att1_aimu_completion list"
  q_comp_head :: size_t
  q_comp_tail :: size_t
  q_next_command_id :: u32
  q_exec_hook :: "'ctx exec_hook_fn option"
  q_exec_hook_ctx :: "'ctx option"

definition CMDQ_MAX_TILES :: size_t where "CMDQ_MAX_TILES = 16"
definition CMDQ_DEFAULT_DEPTH :: size_t where "CMDQ_DEFAULT_DEPTH = 256"
definition CMDQ_MAX_DEPTH :: size_t where "CMDQ_MAX_DEPTH = 4096"
definition COMPQ_DEFAULT_DEPTH :: size_t where "COMPQ_DEFAULT_DEPTH = 256"
definition CMDQ_MAGIC :: u32 where "CMDQ_MAGIC = 0xA771C051"

section \<open>Helpers\<close>

definition is_power_of_two :: "size_t \<Rightarrow> bool" where
  "is_power_of_two n \<longleftrightarrow> 1 \<le> n \<and> n AND (n - 1) = 0"

abbreviation cmd_depth :: "'ctx att1_aimu_cmdq \<Rightarrow> size_t" where
  "cmd_depth q \<equiv> qcfg_cmd_ring_depth (q_config q)"

abbreviation comp_depth :: "'ctx att1_aimu_cmdq \<Rightarrow> size_t" where
  "comp_depth q \<equiv> qcfg_comp_ring_depth (q_config q)"

definition cmdq_used :: "'ctx att1_aimu_cmdq \<Rightarrow> size_t" where
  "cmdq_used q = (q_cmd_tail q - q_cmd_head q) AND (cmd_depth q - 1)"

definition compq_used :: "'ctx att1_aimu_cmdq \<Rightarrow> size_t" where
  "compq_used q = (q_comp_tail q - q_comp_head q) AND (comp_depth q - 1)"

text \<open>The slot write and the slot read of the four ring accesses of the file.\<close>

definition cmdq_push :: "att1_aimu_cmd \<Rightarrow> 'ctx att1_aimu_cmdq \<Rightarrow> 'ctx att1_aimu_cmdq" where
  "cmdq_push c q =
     (let slot = q_cmd_tail q AND (cmd_depth q - 1)
      in q\<lparr>q_cmd_ring := (q_cmd_ring q)[unat slot := c], q_cmd_tail := q_cmd_tail q + 1\<rparr>)"

definition cmdq_pop :: "'ctx att1_aimu_cmdq \<Rightarrow> att1_aimu_cmd \<times> 'ctx att1_aimu_cmdq" where
  "cmdq_pop q =
     (let slot = q_cmd_head q AND (cmd_depth q - 1)
      in (q_cmd_ring q ! unat slot, q\<lparr>q_cmd_head := q_cmd_head q + 1\<rparr>))"

definition compq_push :: "att1_aimu_completion \<Rightarrow> 'ctx att1_aimu_cmdq \<Rightarrow> 'ctx att1_aimu_cmdq" where
  "compq_push k q =
     (let slot = q_comp_tail q AND (comp_depth q - 1)
      in q\<lparr>q_comp_ring := (q_comp_ring q)[unat slot := k], q_comp_tail := q_comp_tail q + 1\<rparr>)"

definition compq_pop :: "'ctx att1_aimu_cmdq \<Rightarrow> att1_aimu_completion \<times> 'ctx att1_aimu_cmdq" where
  "compq_pop q =
     (let slot = q_comp_head q AND (comp_depth q - 1)
      in (q_comp_ring q ! unat slot, q\<lparr>q_comp_head := q_comp_head q + 1\<rparr>))"

abbreviation upd_counters ::
  "(att1_aimu_cmdq_counters \<Rightarrow> att1_aimu_cmdq_counters) \<Rightarrow> 'ctx att1_aimu_cmdq \<Rightarrow> 'ctx att1_aimu_cmdq"
where
  "upd_counters f q \<equiv> q\<lparr>q_counters := f (q_counters q)\<rparr>"

definition inc_submitted :: "'ctx att1_aimu_cmdq \<Rightarrow> 'ctx att1_aimu_cmdq" where
  "inc_submitted = upd_counters (\<lambda>c. c\<lparr>qc_commands_submitted := qc_commands_submitted c + 1\<rparr>)"
definition inc_completed :: "'ctx att1_aimu_cmdq \<Rightarrow> 'ctx att1_aimu_cmdq" where
  "inc_completed = upd_counters (\<lambda>c. c\<lparr>qc_commands_completed := qc_commands_completed c + 1\<rparr>)"
definition inc_failed :: "'ctx att1_aimu_cmdq \<Rightarrow> 'ctx att1_aimu_cmdq" where
  "inc_failed = upd_counters (\<lambda>c. c\<lparr>qc_commands_failed := qc_commands_failed c + 1\<rparr>)"
definition inc_queue_full :: "'ctx att1_aimu_cmdq \<Rightarrow> 'ctx att1_aimu_cmdq" where
  "inc_queue_full = upd_counters (\<lambda>c. c\<lparr>qc_queue_full_count := qc_queue_full_count c + 1\<rparr>)"
definition inc_compq_full :: "'ctx att1_aimu_cmdq \<Rightarrow> 'ctx att1_aimu_cmdq" where
  "inc_compq_full = upd_counters (\<lambda>c. c\<lparr>qc_compq_full_count := qc_compq_full_count c + 1\<rparr>)"
definition inc_resets :: "'ctx att1_aimu_cmdq \<Rightarrow> 'ctx att1_aimu_cmdq" where
  "inc_resets = upd_counters (\<lambda>c. c\<lparr>qc_resets := qc_resets c + 1\<rparr>)"
definition inc_unsupported :: "'ctx att1_aimu_cmdq \<Rightarrow> 'ctx att1_aimu_cmdq" where
  "inc_unsupported =
     upd_counters (\<lambda>c. c\<lparr>qc_unsupported_commands := qc_unsupported_commands c + 1\<rparr>)"
definition inc_fence :: "'ctx att1_aimu_cmdq \<Rightarrow> 'ctx att1_aimu_cmdq" where
  "inc_fence = upd_counters (\<lambda>c. c\<lparr>qc_fence_value := qc_fence_value c + 1\<rparr>)"

lemmas inc_defs =
  inc_submitted_def inc_completed_def inc_failed_def inc_queue_full_def inc_compq_full_def
  inc_resets_def inc_unsupported_def inc_fence_def

section \<open>Lifecycle\<close>

definition cmdq_config_valid :: "att1_aimu_cmdq_config \<Rightarrow> bool" where
  "cmdq_config_valid cfg \<longleftrightarrow>
     \<not> (qcfg_tile_count cfg = 0 \<or> CMDQ_MAX_TILES < qcfg_tile_count cfg)
     \<and> \<not> (\<not> is_power_of_two (qcfg_cmd_ring_depth cfg) \<or> CMDQ_MAX_DEPTH < qcfg_cmd_ring_depth cfg)
     \<and> \<not> (\<not> is_power_of_two (qcfg_comp_ring_depth cfg) \<or> CMDQ_MAX_DEPTH < qcfg_comp_ring_depth cfg)"

definition new_cmdq :: "att1_aimu_cmdq_config \<Rightarrow> 'ctx att1_aimu_cmdq" where
  "new_cmdq cfg =
     \<lparr>q_magic = CMDQ_MAGIC, q_config = cfg, q_counters = zero_cmdq_counters,
      q_cmd_ring = replicate (unat (qcfg_cmd_ring_depth cfg)) zero_cmd,
      q_cmd_head = 0, q_cmd_tail = 0,
      q_comp_ring = replicate (unat (qcfg_comp_ring_depth cfg)) zero_completion,
      q_comp_head = 0, q_comp_tail = 0, q_next_command_id = 1,
      q_exec_hook = None, q_exec_hook_ctx = None\<rparr>"

text \<open>
  \<open>out_ok\<close> says whether the \<^verbatim>\<open>out\<close> pointer is not \<^verbatim>\<open>NULL\<close>; the second component is what the
  call leaves in \<^verbatim>\<open>*out\<close>. The three allocations are the queue, the command ring and the
  completion ring.
\<close>

definition att1_aimu_cmdq_create ::
  "(nat \<Rightarrow> bool) \<Rightarrow> att1_aimu_cmdq_config option \<Rightarrow> bool
     \<Rightarrow> att1_status \<times> 'ctx att1_aimu_cmdq option" where
  "att1_aimu_cmdq_create alloc config out_ok =
     (if \<not> out_ok then (ATT1_ERR_INVALID_ARG, None)
      else
        (let cfg = (case config of
               None \<Rightarrow> \<lparr>qcfg_tile_count = 1, qcfg_cmd_ring_depth = CMDQ_DEFAULT_DEPTH,
                        qcfg_comp_ring_depth = COMPQ_DEFAULT_DEPTH\<rparr>
             | Some c \<Rightarrow> c)
         in if \<not> cmdq_config_valid cfg then (ATT1_ERR_INVALID_ARG, None)
            else if \<not> alloc 0 then (ATT1_ERR_OOM, None)
            else if \<not> alloc 1 then (ATT1_ERR_OOM, None)
            else if \<not> alloc 2 then (ATT1_ERR_OOM, None)
            else (ATT1_OK, Some (new_cmdq cfg))))"

definition att1_aimu_cmdq_set_exec_hook ::
  "'ctx att1_aimu_cmdq option \<Rightarrow> 'ctx exec_hook_fn option \<Rightarrow> 'ctx option
     \<Rightarrow> 'ctx att1_aimu_cmdq option" where
  "att1_aimu_cmdq_set_exec_hook qp fn hook_ctx =
     map_option (\<lambda>q. q\<lparr>q_exec_hook := fn, q_exec_hook_ctx := hook_ctx\<rparr>) qp"

section \<open>Submission\<close>

definition cmdq_submit ::
  "'ctx att1_aimu_cmdq \<Rightarrow> att1_aimu_cmd \<Rightarrow> att1_status \<times> 'ctx att1_aimu_cmdq \<times> att1_aimu_cmd" where
  "cmdq_submit q cmd =
     (if qcfg_tile_count (q_config q) \<le> ucast (c_tile_id cmd) then
        (ATT1_ERR_INVALID_ARG, inc_failed q, cmd)
      else if cmd_depth q \<le> cmdq_used q + 1 then
        (ATT1_ERR_QUEUE_FULL, inc_queue_full q, cmd)
      else
        (let cmd1 = cmd\<lparr>c_command_id := q_next_command_id q\<rparr>;
             q1 = q\<lparr>q_next_command_id := q_next_command_id q + 1\<rparr>;
             cmd2 = cmd1\<lparr>c_status := result_byte AIMU_PENDING\<rparr>;
             cmd3 = cmd2\<lparr>c_checksum := cmd_checksum cmd2\<rparr>
         in (ATT1_OK, inc_submitted (cmdq_push cmd3 q1), cmd3)))"

definition att1_aimu_cmdq_submit ::
  "'ctx att1_aimu_cmdq option \<Rightarrow> att1_aimu_cmd option
     \<Rightarrow> att1_status \<times> 'ctx att1_aimu_cmdq option \<times> att1_aimu_cmd option" where
  "att1_aimu_cmdq_submit qp cp =
     (case (qp, cp) of
        (Some q, Some c) \<Rightarrow> (let (st, q', c') = cmdq_submit q c in (st, Some q', Some c'))
      | _ \<Rightarrow> (ATT1_ERR_INVALID_ARG, qp, cp))"

section \<open>Dispatch\<close>

definition write_completion ::
  "'ctx att1_aimu_cmdq \<Rightarrow> att1_aimu_cmd \<Rightarrow> att1_aimu_result \<Rightarrow> att1_status \<times> 'ctx att1_aimu_cmdq" where
  "write_completion q cmd result =
     (if comp_depth q \<le> compq_used q + 1 then
        (ATT1_ERR_QUEUE_FULL, inc_compq_full q)
      else
        (let comp = zero_completion
               \<lparr>k_command_id := c_command_id cmd, k_tile_id := c_tile_id cmd,
                k_session_id := c_session_id cmd, k_result_code := result_byte result,
                k_latency_us := 0\<rparr>;
             (q1, comp1) =
               (if c_completion_fence_id cmd \<noteq> 0 then
                  (let q' = inc_fence q
                   in (q', comp\<lparr>k_fence_value := ucast (qc_fence_value (q_counters q'))\<rparr>))
                else (q, comp))
         in (ATT1_OK, compq_push comp1 q1)))"

text \<open>
  The \<^verbatim>\<open>switch\<close> of \<^verbatim>\<open>att1_aimu_cmdq_dispatch_one\<close> on the command byte. A hook may write the
  descriptor, which lives in its ring slot.
\<close>

definition cmdq_execute ::
  "'ctx att1_aimu_cmdq \<Rightarrow> nat \<Rightarrow> att1_aimu_cmd
     \<Rightarrow> att1_aimu_result \<times> 'ctx att1_aimu_cmdq \<times> att1_aimu_cmd" where
  "cmdq_execute q slot cmd =
     (case cmd_type_of (c_command_type cmd) of
        None \<Rightarrow> (AIMU_ERR_INVALID_COMMAND, inc_failed (inc_unsupported q), cmd)
      | Some t \<Rightarrow>
          (if t \<in> {CMD_NOP, CMD_TRACE_SNAPSHOT, CMD_TILE_BARRIER, CMD_QUERY_COUNTERS} then
             (AIMU_OK, q, cmd)
           else if t = CMD_RESET_TILE then (AIMU_OK, inc_resets q, cmd)
           else
             (let (result, q1, cmd1) =
                    (case q_exec_hook q of
                       Some hook \<Rightarrow>
                         (let (r, ctx', cmd') = hook (q_exec_hook_ctx q) cmd
                          in (r, q\<lparr>q_exec_hook_ctx := ctx',
                                   q_cmd_ring := (q_cmd_ring q)[slot := cmd']\<rparr>, cmd'))
                     | None \<Rightarrow> (AIMU_ERR_UNSUPPORTED_OP, q, cmd))
              in if result = AIMU_ERR_UNSUPPORTED_OP
                 then (result, inc_unsupported q1, cmd1)
                 else (result, q1, cmd1))))"

definition cmdq_account :: "att1_aimu_result \<Rightarrow> 'ctx att1_aimu_cmdq \<Rightarrow> 'ctx att1_aimu_cmdq" where
  "cmdq_account result q =
     (let q1 = (if result = AIMU_OK then inc_completed q
                else if result \<noteq> AIMU_ERR_UNSUPPORTED_OP then inc_failed q
                else q)
      in if result = AIMU_ERR_UNSUPPORTED_OP then inc_completed q1 else q1)"

definition cmdq_dispatch_one :: "'ctx att1_aimu_cmdq \<Rightarrow> att1_status \<times> 'ctx att1_aimu_cmdq" where
  "cmdq_dispatch_one q =
     (if cmdq_used q = 0 then (ATT1_ERR_QUEUE_EMPTY, q)
      else
        (let slot = unat (q_cmd_head q AND (cmd_depth q - 1));
             (cmd, q1) = cmdq_pop q;
             (result, q2, cmd') = cmdq_execute q1 slot cmd;
             (st, q3) = write_completion q2 cmd' result
         in if st \<noteq> ATT1_OK then (st, q3)
            else (ATT1_OK, cmdq_account result q3)))"

definition att1_aimu_cmdq_dispatch_one ::
  "'ctx att1_aimu_cmdq option \<Rightarrow> att1_status \<times> 'ctx att1_aimu_cmdq option" where
  "att1_aimu_cmdq_dispatch_one = with_ptr cmdq_dispatch_one"

text \<open>
  \<^verbatim>\<open>att1_aimu_cmdq_dispatch_all\<close> loops until the ring is empty or an error is returned. Every
  turn that does not leave the loop moves the head one step towards the tail.
\<close>

lemma cmdq_execute_counters_only:
  assumes "cmdq_execute q slot cmd = (r, q', cmd')"
  shows "q_cmd_head q' = q_cmd_head q \<and> q_cmd_tail q' = q_cmd_tail q"
  using assms
  by (auto simp: cmdq_execute_def inc_defs Let_def split: option.splits if_splits prod.splits)

lemma write_completion_cmd_ring:
  assumes "write_completion q cmd r = (st, q')"
  shows "q_cmd_head q' = q_cmd_head q \<and> q_cmd_tail q' = q_cmd_tail q"
  using assms
  by (auto simp: write_completion_def compq_push_def inc_defs Let_def split: if_splits prod.splits)

lemma cmdq_dispatch_one_progress:
  assumes "cmdq_dispatch_one q = (ATT1_OK, q')"
  shows "q_cmd_tail q - q_cmd_head q \<noteq> 0"
    and "q_cmd_head q' = q_cmd_head q + 1" and "q_cmd_tail q' = q_cmd_tail q"
  using assms
  by (auto simp: cmdq_dispatch_one_def cmdq_pop_def cmdq_used_def cmdq_account_def inc_defs Let_def
      dest!: cmdq_execute_counters_only write_completion_cmd_ring split: if_splits prod.splits)

function cmdq_dispatch_all :: "'ctx att1_aimu_cmdq \<Rightarrow> att1_status \<times> 'ctx att1_aimu_cmdq" where
  "cmdq_dispatch_all q =
     (case cmdq_dispatch_one q of
        (st, q') \<Rightarrow>
          if st = ATT1_ERR_QUEUE_EMPTY then (ATT1_OK, q')
          else if st \<noteq> ATT1_OK then (st, q')
          else cmdq_dispatch_all q')"
  by pat_completeness auto
termination
proof (relation "measure (\<lambda>q. unat (q_cmd_tail q - q_cmd_head q))")
  fix q q' :: "'ctx att1_aimu_cmdq" and st
  assume "(st, q') = cmdq_dispatch_one q" "st \<noteq> ATT1_ERR_QUEUE_EMPTY" "\<not> st \<noteq> ATT1_OK"
  then have d: "cmdq_dispatch_one q = (ATT1_OK, q')" by simp
  from cmdq_dispatch_one_progress [OF d] unat_minus_one_word [of "q_cmd_tail q - q_cmd_head q"]
  show "(q', q) \<in> measure (\<lambda>q. unat (q_cmd_tail q - q_cmd_head q))"
    by (simp add: algebra_simps)
qed simp

declare cmdq_dispatch_all.simps [simp del]

definition att1_aimu_cmdq_dispatch_all ::
  "'ctx att1_aimu_cmdq option \<Rightarrow> att1_status \<times> 'ctx att1_aimu_cmdq option" where
  "att1_aimu_cmdq_dispatch_all = with_ptr cmdq_dispatch_all"

section \<open>Completion polling and introspection\<close>

text \<open>\<open>out_ok\<close>: the \<^verbatim>\<open>out\<close> pointer is not \<^verbatim>\<open>NULL\<close>; the last component is the record stored there.\<close>

definition att1_aimu_cmdq_poll_completion ::
  "'ctx att1_aimu_cmdq option \<Rightarrow> bool
     \<Rightarrow> att1_status \<times> 'ctx att1_aimu_cmdq option \<times> att1_aimu_completion option" where
  "att1_aimu_cmdq_poll_completion qp out_ok =
     (case qp of
        None \<Rightarrow> (ATT1_ERR_INVALID_ARG, None, None)
      | Some q \<Rightarrow>
          (if \<not> out_ok then (ATT1_ERR_INVALID_ARG, Some q, None)
           else if compq_used q = 0 then (ATT1_ERR_QUEUE_EMPTY, Some q, None)
           else (let (k, q') = compq_pop q in (ATT1_OK, Some q', Some k))))"

definition att1_aimu_cmdq_pending :: "'ctx att1_aimu_cmdq option \<Rightarrow> size_t" where
  "att1_aimu_cmdq_pending qp = (case qp of None \<Rightarrow> 0 | Some q \<Rightarrow> cmdq_used q)"

definition att1_aimu_cmdq_completions_available :: "'ctx att1_aimu_cmdq option \<Rightarrow> size_t" where
  "att1_aimu_cmdq_completions_available qp = (case qp of None \<Rightarrow> 0 | Some q \<Rightarrow> compq_used q)"

definition att1_aimu_cmdq_get_counters ::
  "'ctx att1_aimu_cmdq option \<Rightarrow> bool \<Rightarrow> att1_status \<times> att1_aimu_cmdq_counters option" where
  "att1_aimu_cmdq_get_counters qp out_ok =
     (case qp of
        None \<Rightarrow> (ATT1_ERR_INVALID_ARG, None)
      | Some q \<Rightarrow> if out_ok then (ATT1_OK, Some (q_counters q)) else (ATT1_ERR_INVALID_ARG, None))"

end
