(* ===== verification/Aimu_Cmdq_Inv.thy ===== *)
theory Aimu_Cmdq_Inv
  imports Aimu_Cmdq
begin

text \<open>
  Correctness of the command queue: the ring invariant and that every operation keeps it, the
  two rings as bounded queues (interpretations of the locale \<open>bounded_fifo\<close>), the behaviour of each
  operation on the list contents, draining, and reachable queues.
\<close>

section \<open>The ring invariant\<close>

definition cmdq_inv :: "'ctx att1_aimu_cmdq \<Rightarrow> bool" where
  "cmdq_inv q \<longleftrightarrow> cmdq_config_valid (q_config q)
     \<and> length (q_cmd_ring q) = unat (cmd_depth q)
     \<and> unat (q_cmd_tail q - q_cmd_head q) < unat (cmd_depth q)
     \<and> length (q_comp_ring q) = unat (comp_depth q)
     \<and> unat (q_comp_tail q - q_comp_head q) < unat (comp_depth q)"

definition cmd_content :: "'ctx att1_aimu_cmdq \<Rightarrow> att1_aimu_cmd list" where
  "cmd_content q = mring_content (q_cmd_ring q) (q_cmd_head q) (q_cmd_tail q)"

definition comp_content :: "'ctx att1_aimu_cmdq \<Rightarrow> att1_aimu_completion list" where
  "comp_content q = mring_content (q_comp_ring q) (q_comp_head q) (q_comp_tail q)"

definition cmd_cap :: "'ctx att1_aimu_cmdq \<Rightarrow> nat" where
  "cmd_cap q = unat (cmd_depth q) - 1"

definition comp_cap :: "'ctx att1_aimu_cmdq \<Rightarrow> nat" where
  "comp_cap q = unat (comp_depth q) - 1"

lemma is_power_of_two_iff: "is_power_of_two n \<longleftrightarrow> (\<exists>k < 64. n = 2 ^ k)"
proof -
  have "1 \<le> n \<longleftrightarrow> n \<noteq> 0"
    by (simp add: word_le_nat_alt unat_gt_0 Suc_le_eq)
  then show ?thesis using pow2_word_iff [of n] by (simp add: is_power_of_two_def)
qed

lemma cmdq_inv_depths:
  assumes "cmdq_inv q"
  obtains i j where "i < 64" "cmd_depth q = 2 ^ i" "j < 64" "comp_depth q = 2 ^ j"
    "length (q_cmd_ring q) = 2 ^ i" "length (q_comp_ring q) = 2 ^ j"
    "unat (q_cmd_tail q - q_cmd_head q) < 2 ^ i" "unat (q_comp_tail q - q_comp_head q) < 2 ^ j"
proof -
  obtain i j where "i < 64" "cmd_depth q = 2 ^ i" "j < 64" "comp_depth q = 2 ^ j"
    using assms by (auto simp: cmdq_inv_def cmdq_config_valid_def is_power_of_two_iff)
  moreover from this have "unat (cmd_depth q) = 2 ^ i" "unat (comp_depth q) = 2 ^ j"
    by (simp_all add: unat_pow2)
  ultimately show ?thesis
    using assms that by (simp add: cmdq_inv_def)
qed

text \<open>Counters are no part of the rings.\<close>

lemma inc_frame:
  fixes q :: "'ctx att1_aimu_cmdq"
  assumes "f \<in> {inc_submitted, inc_completed, inc_failed, inc_queue_full, inc_compq_full,
    inc_resets, inc_unsupported, inc_fence}"
  shows "cmdq_inv (f q) = cmdq_inv q" "cmd_content (f q) = cmd_content q"
    "comp_content (f q) = comp_content q" "q_config (f q) = q_config q"
    "cmdq_used (f q) = cmdq_used q" "compq_used (f q) = compq_used q"
    "cmd_cap (f q) = cmd_cap q" "comp_cap (f q) = comp_cap q"
    "q_next_command_id (f q) = q_next_command_id q" "q_exec_hook (f q) = q_exec_hook q"
    "q_exec_hook_ctx (f q) = q_exec_hook_ctx q"
    "q_cmd_head (f q) = q_cmd_head q" "q_cmd_tail (f q) = q_cmd_tail q"
  using assms
  by (auto simp: inc_defs cmdq_inv_def cmd_content_def comp_content_def cmdq_used_def
      compq_used_def cmd_cap_def comp_cap_def)

lemmas inc_frames [simp] =
  inc_frame [of inc_submitted, simplified] inc_frame [of inc_completed, simplified]
  inc_frame [of inc_failed, simplified] inc_frame [of inc_queue_full, simplified]
  inc_frame [of inc_compq_full, simplified] inc_frame [of inc_resets, simplified]
  inc_frame [of inc_unsupported, simplified] inc_frame [of inc_fence, simplified]

lemma submitted_frame [simp]:
  "qc_commands_submitted (q_counters (inc_submitted q)) = qc_commands_submitted (q_counters q) + 1"
  "qc_commands_submitted (q_counters (inc_completed q)) = qc_commands_submitted (q_counters q)"
  "qc_commands_submitted (q_counters (inc_failed q)) = qc_commands_submitted (q_counters q)"
  "qc_commands_submitted (q_counters (inc_queue_full q)) = qc_commands_submitted (q_counters q)"
  "qc_commands_submitted (q_counters (inc_compq_full q)) = qc_commands_submitted (q_counters q)"
  "qc_commands_submitted (q_counters (inc_resets q)) = qc_commands_submitted (q_counters q)"
  "qc_commands_submitted (q_counters (inc_unsupported q)) = qc_commands_submitted (q_counters q)"
  "qc_commands_submitted (q_counters (inc_fence q)) = qc_commands_submitted (q_counters q)"
  by (simp_all add: inc_defs)

lemma cmdq_used_content:
  assumes "cmdq_inv q"
  shows "unat (cmdq_used q) = length (cmd_content q)"
  using assms by (rule cmdq_inv_depths) (simp add: cmdq_used_def cmd_content_def mring_used)

lemma compq_used_content:
  assumes "cmdq_inv q"
  shows "unat (compq_used q) = length (comp_content q)"
  using assms by (rule cmdq_inv_depths) (simp add: compq_used_def comp_content_def mring_used)


section \<open>The two rings are bounded queues\<close>

lemma cmdq_push_inv:
  assumes "cmdq_inv q" "length (cmd_content q) < cmd_cap q"
  shows "cmdq_inv (cmdq_push c q)" "cmd_content (cmdq_push c q) = cmd_content q @ [c]"
proof -
  obtain i where i: "i < 64" "cmd_depth q = 2 ^ i" "length (q_cmd_ring q) = 2 ^ i"
    "unat (q_cmd_tail q - q_cmd_head q) < 2 ^ i"
    using assms(1) by (rule cmdq_inv_depths)
  have room: "Suc (unat (q_cmd_tail q - q_cmd_head q)) < 2 ^ i"
    using assms(2) i by (simp add: cmd_content_def cmd_cap_def unat_pow2)
  show "cmd_content (cmdq_push c q) = cmd_content q @ [c]"
    using i by (simp add: cmdq_push_def Let_def cmd_content_def mring_push)
  show "cmdq_inv (cmdq_push c q)"
    using assms(1) i room mring_count_push [of i "q_cmd_tail q" "q_cmd_head q"]
    by (simp add: cmdq_inv_def cmdq_push_def Let_def unat_pow2)
qed

lemma cmdq_pop_inv:
  assumes "cmdq_inv q" "cmd_content q \<noteq> []"
  shows "cmdq_inv (snd (cmdq_pop q))"
    "cmd_content q = fst (cmdq_pop q) # cmd_content (snd (cmdq_pop q))"
proof -
  obtain i where i: "i < 64" "cmd_depth q = 2 ^ i" "length (q_cmd_ring q) = 2 ^ i"
    "unat (q_cmd_tail q - q_cmd_head q) < 2 ^ i"
    using assms(1) by (rule cmdq_inv_depths)
  have ne: "q_cmd_tail q \<noteq> q_cmd_head q"
  proof
    assume "q_cmd_tail q = q_cmd_head q"
    then have "length (cmd_content q) = 0" by (simp add: cmd_content_def)
    with assms(2) show False by simp
  qed
  show "cmd_content q = fst (cmdq_pop q) # cmd_content (snd (cmdq_pop q))"
    using i ne by (simp add: cmdq_pop_def Let_def cmd_content_def mring_pop)
  show "cmdq_inv (snd (cmdq_pop q))"
    using assms(1) i mring_count_pop [OF ne]
    by (simp add: cmdq_inv_def cmdq_pop_def Let_def unat_pow2)
qed

lemma compq_push_inv:
  assumes "cmdq_inv q" "length (comp_content q) < comp_cap q"
  shows "cmdq_inv (compq_push k q)" "comp_content (compq_push k q) = comp_content q @ [k]"
proof -
  obtain j where j: "j < 64" "comp_depth q = 2 ^ j" "length (q_comp_ring q) = 2 ^ j"
    "unat (q_comp_tail q - q_comp_head q) < 2 ^ j"
    using assms(1) by (rule cmdq_inv_depths)
  have room: "Suc (unat (q_comp_tail q - q_comp_head q)) < 2 ^ j"
    using assms(2) j by (simp add: comp_content_def comp_cap_def unat_pow2)
  show "comp_content (compq_push k q) = comp_content q @ [k]"
    using j by (simp add: compq_push_def Let_def comp_content_def mring_push)
  show "cmdq_inv (compq_push k q)"
    using assms(1) j room mring_count_push [of j "q_comp_tail q" "q_comp_head q"]
    by (simp add: cmdq_inv_def compq_push_def Let_def unat_pow2)
qed

lemma compq_pop_inv:
  assumes "cmdq_inv q" "comp_content q \<noteq> []"
  shows "cmdq_inv (snd (compq_pop q))"
    "comp_content q = fst (compq_pop q) # comp_content (snd (compq_pop q))"
proof -
  obtain j where j: "j < 64" "comp_depth q = 2 ^ j" "length (q_comp_ring q) = 2 ^ j"
    "unat (q_comp_tail q - q_comp_head q) < 2 ^ j"
    using assms(1) by (rule cmdq_inv_depths)
  have ne: "q_comp_tail q \<noteq> q_comp_head q"
  proof
    assume "q_comp_tail q = q_comp_head q"
    then have "length (comp_content q) = 0" by (simp add: comp_content_def)
    with assms(2) show False by simp
  qed
  show "comp_content q = fst (compq_pop q) # comp_content (snd (compq_pop q))"
    using j ne by (simp add: compq_pop_def Let_def comp_content_def mring_pop)
  show "cmdq_inv (snd (compq_pop q))"
    using assms(1) j mring_count_pop [OF ne]
    by (simp add: cmdq_inv_def compq_pop_def Let_def unat_pow2)
qed

lemma push_pop_frame [simp]:
  "comp_content (cmdq_push c q) = comp_content q" "comp_content (snd (cmdq_pop q)) = comp_content q"
  "cmd_content (compq_push k q) = cmd_content q" "cmd_content (snd (compq_pop q)) = cmd_content q"
  "q_config (cmdq_push c q) = q_config q" "q_config (snd (cmdq_pop q)) = q_config q"
  "q_config (compq_push k q) = q_config q" "q_config (snd (compq_pop q)) = q_config q"
  "q_counters (cmdq_push c q) = q_counters q" "q_counters (snd (cmdq_pop q)) = q_counters q"
  "q_counters (compq_push k q) = q_counters q" "q_counters (snd (compq_pop q)) = q_counters q"
  by (simp_all add: cmdq_push_def cmdq_pop_def compq_push_def compq_pop_def Let_def
      cmd_content_def comp_content_def)

lemma cap_frame:
  "q_config q = q_config q' \<Longrightarrow> cmd_cap q = cmd_cap q'"
  "q_config q = q_config q' \<Longrightarrow> comp_cap q = comp_cap q'"
  by (simp_all add: cmd_cap_def comp_cap_def)

interpretation cmdq_fifo:
  bounded_fifo cmdq_inv cmd_content cmd_cap "\<lambda>_ _. True" cmdq_push cmdq_pop
  by unfold_locales
    (rule cmdq_push_inv cmdq_pop_inv; assumption | simp add: cmd_cap_def)+

interpretation compq_fifo:
  bounded_fifo cmdq_inv comp_content comp_cap "\<lambda>_ _. True" compq_push compq_pop
  by unfold_locales
    (rule compq_push_inv compq_pop_inv; assumption | simp add: comp_cap_def)+

section \<open>Operations on the contents\<close>

lemma unat_used_plus_one:
  assumes "cmdq_inv q"
  shows "cmd_depth q \<le> cmdq_used q + 1 \<longleftrightarrow> cmd_cap q \<le> length (cmd_content q)"
    and "comp_depth q \<le> compq_used q + 1 \<longleftrightarrow> comp_cap q \<le> length (comp_content q)"
proof -
  obtain i j where d: "i < 64" "cmd_depth q = 2 ^ i" "j < 64" "comp_depth q = 2 ^ j"
    "unat (q_cmd_tail q - q_cmd_head q) < 2 ^ i" "unat (q_comp_tail q - q_comp_head q) < 2 ^ j"
    using assms by (rule cmdq_inv_depths)
  have small: "(2::nat) ^ i \<le> 2 ^ 63" "(2::nat) ^ j \<le> 2 ^ 63"
    using d by (simp_all only: power_increasing)
  have "unat (cmdq_used q + 1) = Suc (length (cmd_content q))"
    using cmdq_used_content [OF assms] d small
    by (subst unat_plus_one) (simp_all add: cmd_content_def)
  then show "cmd_depth q \<le> cmdq_used q + 1 \<longleftrightarrow> cmd_cap q \<le> length (cmd_content q)"
    using d by (auto simp: word_le_nat_alt unat_pow2 cmd_cap_def)
  have "unat (compq_used q + 1) = Suc (length (comp_content q))"
    using compq_used_content [OF assms] d small
    by (subst unat_plus_one) (simp_all add: comp_content_def)
  then show "comp_depth q \<le> compq_used q + 1 \<longleftrightarrow> comp_cap q \<le> length (comp_content q)"
    using d by (auto simp: word_le_nat_alt unat_pow2 comp_cap_def)
qed

lemma used_eq_0:
  assumes "cmdq_inv q"
  shows "cmdq_used q = 0 \<longleftrightarrow> cmd_content q = []" "compq_used q = 0 \<longleftrightarrow> comp_content q = []"
  using cmdq_used_content [OF assms] compq_used_content [OF assms]
  by (metis length_0_conv unsigned_eq_0_iff)+

subsection \<open>Submission\<close>

text \<open>The descriptor as \<^verbatim>\<open>submit\<close> stores it.\<close>

definition stamped :: "'ctx att1_aimu_cmdq \<Rightarrow> att1_aimu_cmd \<Rightarrow> att1_aimu_cmd" where
  "stamped q cmd =
     (let c = cmd\<lparr>c_command_id := q_next_command_id q, c_status := result_byte AIMU_PENDING\<rparr>
      in c\<lparr>c_checksum := cmd_checksum c\<rparr>)"

definition submit_rejects :: "'ctx att1_aimu_cmdq \<Rightarrow> att1_aimu_cmd \<Rightarrow> bool" where
  "submit_rejects q cmd \<longleftrightarrow> unat (qcfg_tile_count (q_config q)) \<le> unat (c_tile_id cmd)"

lemma submit_rejects_iff:
  "qcfg_tile_count (q_config q) \<le> ucast (c_tile_id cmd) \<longleftrightarrow> submit_rejects q cmd"
  by (simp add: submit_rejects_def word_le_nat_alt unat_ucast_up)

lemma cmdq_submit_bad_tile:
  "submit_rejects q cmd \<Longrightarrow> cmdq_submit q cmd = (ATT1_ERR_INVALID_ARG, inc_failed q, cmd)"
  by (simp add: cmdq_submit_def submit_rejects_iff)

lemma cmdq_submit_full:
  "cmdq_inv q \<Longrightarrow> \<not> submit_rejects q cmd \<Longrightarrow> cmd_cap q \<le> length (cmd_content q) \<Longrightarrow>
   cmdq_submit q cmd = (ATT1_ERR_QUEUE_FULL, inc_queue_full q, cmd)"
  by (simp add: cmdq_submit_def submit_rejects_iff unat_used_plus_one)

lemma next_id_frame [simp]:
  "cmdq_inv (q\<lparr>q_next_command_id := x\<rparr>) = cmdq_inv q"
  "cmd_content (q\<lparr>q_next_command_id := x\<rparr>) = cmd_content q"
  "comp_content (q\<lparr>q_next_command_id := x\<rparr>) = comp_content q"
  "cmd_cap (q\<lparr>q_next_command_id := x\<rparr>) = cmd_cap q"
  "comp_cap (q\<lparr>q_next_command_id := x\<rparr>) = comp_cap q"
  by (simp_all add: cmdq_inv_def cmd_content_def comp_content_def cmd_cap_def comp_cap_def)

lemma cmdq_submit_ok:
  assumes "cmdq_inv q" "\<not> submit_rejects q cmd" "length (cmd_content q) < cmd_cap q"
  shows "cmdq_submit q cmd =
    (ATT1_OK,
     inc_submitted (cmdq_push (stamped q cmd) (q\<lparr>q_next_command_id := q_next_command_id q + 1\<rparr>)),
     stamped q cmd)"
  using assms
  by (simp add: cmdq_submit_def submit_rejects_iff unat_used_plus_one stamped_def Let_def not_le)

lemma cmdq_submit_content:
  assumes "cmdq_inv q" "\<not> submit_rejects q cmd" "length (cmd_content q) < cmd_cap q"
  shows "cmdq_inv (fst (snd (cmdq_submit q cmd)))"
    and "cmd_content (fst (snd (cmdq_submit q cmd))) = cmd_content q @ [stamped q cmd]"
    and "comp_content (fst (snd (cmdq_submit q cmd))) = comp_content q"
    and "q_config (fst (snd (cmdq_submit q cmd))) = q_config q"
  using assms cmdq_fifo.inv_enq [of "q\<lparr>q_next_command_id := q_next_command_id q + 1\<rparr>"]
    cmdq_fifo.content_enq [of "q\<lparr>q_next_command_id := q_next_command_id q + 1\<rparr>"]
  by (simp_all add: cmdq_submit_ok)

lemma cmdq_submit_inv: "cmdq_inv q \<Longrightarrow> cmdq_inv (fst (snd (cmdq_submit q cmd)))"
  using cmdq_submit_content(1) [of q cmd]
  by (cases "submit_rejects q cmd"; cases "length (cmd_content q) < cmd_cap q")
    (simp_all add: cmdq_submit_bad_tile cmdq_submit_full)

subsection \<open>Dispatch\<close>

text \<open>Executing the popped command writes at most the slot just freed.\<close>

lemma freed_slot_frame:
  assumes "cmdq_inv q" "q_cmd_tail q \<noteq> q_cmd_head q"
  shows "mring_content ((q_cmd_ring q)[unat (q_cmd_head q AND (cmd_depth q - 1)) := c])
           (q_cmd_head q + 1) (q_cmd_tail q)
       = mring_content (q_cmd_ring q) (q_cmd_head q + 1) (q_cmd_tail q)"
proof -
  obtain i where i: "i < 64" "cmd_depth q = 2 ^ i" "length (q_cmd_ring q) = 2 ^ i"
    "unat (q_cmd_tail q - q_cmd_head q) < 2 ^ i"
    using assms(1) by (rule cmdq_inv_depths)
  then have "unat (q_cmd_tail q - (q_cmd_head q + 1)) < 2 ^ i"
    using mring_count_pop [OF assms(2)] by simp
  with i show ?thesis
    using mring_update_empty_slot [of i "q_cmd_ring q" "q_cmd_tail q" "q_cmd_head q + 1" c] by simp
qed

lemma cmd_content_ne:
  "cmd_content q \<noteq> [] \<Longrightarrow> q_cmd_tail q \<noteq> q_cmd_head q"
  by (auto simp: cmd_content_def simp flip: length_0_conv)

lemma cmdq_execute_content:
  assumes "cmdq_inv q" "cmd_content q \<noteq> []"
    and "cmdq_execute (snd (cmdq_pop q)) (unat (q_cmd_head q AND (cmd_depth q - 1))) cmd = (r, q', cmd')"
  shows "cmdq_inv q'" "cmd_content q' = tl (cmd_content q)" "comp_content q' = comp_content q"
    "q_config q' = q_config q" "q_next_command_id q' = q_next_command_id q"
    "qc_commands_submitted (q_counters q') = qc_commands_submitted (q_counters q)"
proof -
  let ?q1 = "snd (cmdq_pop q)" and ?slot = "unat (q_cmd_head q AND (cmd_depth q - 1))"
  let ?w = "\<lambda>c x. ?q1\<lparr>q_exec_hook_ctx := x, q_cmd_ring := (q_cmd_ring ?q1)[?slot := c]\<rparr>"
  have p: "cmdq_inv ?q1" "cmd_content ?q1 = tl (cmd_content q)"
    using cmdq_pop_inv [OF assms(1,2)] by (metis, metis list.sel(3))
  have w: "cmdq_inv (?w c x)" "cmd_content (?w c x) = tl (cmd_content q)"
    "comp_content (?w c x) = comp_content q" for c x
    using p freed_slot_frame [OF assms(1) cmd_content_ne [OF assms(2)], of c]
    by (simp_all add: cmdq_inv_def cmd_content_def comp_content_def cmdq_pop_def Let_def)
  have f: "q_config ?q1 = q_config q" "q_next_command_id ?q1 = q_next_command_id q"
    "q_counters ?q1 = q_counters q"
    by (simp_all add: cmdq_pop_def Let_def)
  show "cmdq_inv q'" "cmd_content q' = tl (cmd_content q)" "comp_content q' = comp_content q"
    using assms(3) p w
    by (auto simp: cmdq_execute_def Let_def split: option.splits if_splits prod.splits)
  show "q_config q' = q_config q" "q_next_command_id q' = q_next_command_id q"
    "qc_commands_submitted (q_counters q') = qc_commands_submitted (q_counters q)"
    using assms(3) f
    by (auto simp: cmdq_execute_def Let_def inc_defs split: option.splits if_splits prod.splits)
qed

text \<open>The completion record of a command, up to its fence value.\<close>

definition completion_matches :: "att1_aimu_completion \<Rightarrow> att1_aimu_cmd \<Rightarrow> att1_aimu_result \<Rightarrow> bool" where
  "completion_matches k c r \<longleftrightarrow> k_command_id k = c_command_id c \<and> k_tile_id k = c_tile_id c
     \<and> k_session_id k = c_session_id c \<and> k_result_code k = result_byte r
     \<and> (c_completion_fence_id c = 0 \<longrightarrow> k_fence_value k = 0)"

lemma write_completion_full:
  "cmdq_inv q \<Longrightarrow> comp_cap q \<le> length (comp_content q) \<Longrightarrow>
   write_completion q cmd r = (ATT1_ERR_QUEUE_FULL, inc_compq_full q)"
  by (simp add: write_completion_def unat_used_plus_one)

lemma write_completion_ok:
  assumes "cmdq_inv q" "length (comp_content q) < comp_cap q"
    and "write_completion q cmd r = (st, q')"
  shows "st = ATT1_OK" "cmdq_inv q'" "cmd_content q' = cmd_content q"
    "\<exists>k. comp_content q' = comp_content q @ [k] \<and> completion_matches k cmd r"
    "q_config q' = q_config q" "q_next_command_id q' = q_next_command_id q"
    "qc_commands_submitted (q_counters q') = qc_commands_submitted (q_counters q)"
proof -
  have nf: "\<not> comp_depth q \<le> compq_used q + 1"
    using assms(1,2) by (simp add: unat_used_plus_one)
  show "st = ATT1_OK" "cmdq_inv q'" "cmd_content q' = cmd_content q"
    "\<exists>k. comp_content q' = comp_content q @ [k] \<and> completion_matches k cmd r"
    "q_config q' = q_config q"
    using assms nf compq_push_inv [of q] compq_push_inv [of "inc_fence q"]
    by (auto simp: write_completion_def Let_def completion_matches_def zero_completion_def
        split: if_splits)
  show "q_next_command_id q' = q_next_command_id q"
    "qc_commands_submitted (q_counters q') = qc_commands_submitted (q_counters q)"
    using assms nf
    by (auto simp: write_completion_def Let_def compq_push_def inc_defs split: if_splits)
qed

lemma cmdq_account_frame [simp]:
  "cmdq_inv (cmdq_account r q) = cmdq_inv q" "cmd_content (cmdq_account r q) = cmd_content q"
  "comp_content (cmdq_account r q) = comp_content q" "q_config (cmdq_account r q) = q_config q"
  "q_next_command_id (cmdq_account r q) = q_next_command_id q"
  "qc_commands_submitted (q_counters (cmdq_account r q)) = qc_commands_submitted (q_counters q)"
  by (simp_all add: cmdq_account_def Let_def)

lemma cmdq_dispatch_one_empty:
  "cmdq_inv q \<Longrightarrow> cmd_content q = [] \<Longrightarrow> cmdq_dispatch_one q = (ATT1_ERR_QUEUE_EMPTY, q)"
  by (simp add: cmdq_dispatch_one_def used_eq_0)

text \<open>The outcome of executing the command at the head of the ring.\<close>

definition head_outcome ::
  "'ctx att1_aimu_cmdq \<Rightarrow> att1_aimu_result \<times> 'ctx att1_aimu_cmdq \<times> att1_aimu_cmd" where
  "head_outcome q =
     cmdq_execute (snd (cmdq_pop q)) (unat (q_cmd_head q AND (cmd_depth q - 1))) (hd (cmd_content q))"

lemma cmdq_dispatch_one_unfold:
  assumes "cmdq_inv q" "cmd_content q \<noteq> []" "head_outcome q = (r, q2, cmd')"
  shows "cmdq_dispatch_one q =
    (case write_completion q2 cmd' r of
       (st, q3) \<Rightarrow> if st \<noteq> ATT1_OK then (st, q3) else (ATT1_OK, cmdq_account r q3))"
proof -
  have "fst (cmdq_pop q) = hd (cmd_content q)"
    using cmdq_pop_inv(2) [OF assms(1,2)] by (metis list.sel(1))
  then show ?thesis
    using assms used_eq_0 [OF assms(1)]
    by (cases "cmdq_pop q"; cases "write_completion q2 cmd' r")
      (simp add: cmdq_dispatch_one_def head_outcome_def Let_def)
qed

lemma cmdq_dispatch_one_ok:
  assumes "cmdq_inv q" "cmd_content q \<noteq> []" "length (comp_content q) < comp_cap q"
    and "head_outcome q = (r, q2, cmd')"
  obtains q' k where "cmdq_dispatch_one q = (ATT1_OK, q')" "cmdq_inv q'"
    "cmd_content q' = tl (cmd_content q)" "comp_content q' = comp_content q @ [k]"
    "completion_matches k cmd' r" "q_config q' = q_config q"
    "q_next_command_id q' = q_next_command_id q"
    "qc_commands_submitted (q_counters q') = qc_commands_submitted (q_counters q)"
proof -
  note e = cmdq_execute_content [OF assms(1,2) assms(4) [unfolded head_outcome_def]]
  obtain st q3 where w: "write_completion q2 cmd' r = (st, q3)" by force
  have room: "length (comp_content q2) < comp_cap q2"
    using assms(3) e(3,4) by (simp add: comp_cap_def)
  note k = write_completion_ok [OF e(1) room w]
  have "cmdq_dispatch_one q = (ATT1_OK, cmdq_account r q3)"
    using cmdq_dispatch_one_unfold [OF assms(1,2,4)] w k(1) by simp
  moreover obtain k' where "comp_content q3 = comp_content q2 @ [k']" "completion_matches k' cmd' r"
    using k(4) by blast
  ultimately show ?thesis
    using that [of "cmdq_account r q3" k'] k e by simp
qed

lemma cmdq_dispatch_one_full:
  assumes "cmdq_inv q" "cmd_content q \<noteq> []" "comp_cap q \<le> length (comp_content q)"
  obtains q' where "cmdq_dispatch_one q = (ATT1_ERR_QUEUE_FULL, q')" "cmdq_inv q'"
    "cmd_content q' = tl (cmd_content q)" "comp_content q' = comp_content q"
    "q_config q' = q_config q" "q_next_command_id q' = q_next_command_id q"
    "qc_commands_submitted (q_counters q') = qc_commands_submitted (q_counters q)"
proof -
  obtain r q2 cmd' where h: "head_outcome q = (r, q2, cmd')" by (metis prod_cases3)
  note e = cmdq_execute_content [OF assms(1,2) h [unfolded head_outcome_def]]
  have "comp_cap q2 \<le> length (comp_content q2)"
    using assms(3) e(3,4) by (simp add: comp_cap_def)
  then have "cmdq_dispatch_one q = (ATT1_ERR_QUEUE_FULL, inc_compq_full q2)"
    using cmdq_dispatch_one_unfold [OF assms(1,2) h] e(1) by (simp add: write_completion_full)
  then show ?thesis
    using that [of "inc_compq_full q2"] e by simp
qed

lemma cmdq_dispatch_one_cases:
  assumes "cmdq_inv q" "cmdq_dispatch_one q = (st, q')"
  shows "cmdq_inv q' \<and> q_config q' = q_config q \<and> q_next_command_id q' = q_next_command_id q
    \<and> qc_commands_submitted (q_counters q') = qc_commands_submitted (q_counters q)
    \<and> cmd_content q' = tl (cmd_content q)
    \<and> (st = ATT1_OK \<longleftrightarrow> cmd_content q \<noteq> [] \<and> length (comp_content q) < comp_cap q)
    \<and> (st = ATT1_ERR_QUEUE_EMPTY \<longleftrightarrow> cmd_content q = [])
    \<and> st \<in> {ATT1_OK, ATT1_ERR_QUEUE_EMPTY, ATT1_ERR_QUEUE_FULL}"
proof (cases "cmd_content q = []")
  case True
  then show ?thesis using assms by (simp add: cmdq_dispatch_one_empty)
next
  case ne: False
  obtain r q2 cmd' where h: "head_outcome q = (r, q2, cmd')" by (metis prod_cases3)
  show ?thesis
  proof (cases "length (comp_content q) < comp_cap q")
    case True
    show ?thesis
      by (rule cmdq_dispatch_one_ok [OF assms(1) ne True h]) (use assms ne True in auto)
  next
    case False
    then have "comp_cap q \<le> length (comp_content q)" by simp
    then show ?thesis
      by (rule cmdq_dispatch_one_full [OF assms(1) ne]) (use assms ne False in auto)
  qed
qed

subsection \<open>Draining\<close>

lemma cmdq_dispatch_all_step:
  "cmdq_dispatch_one q = (ATT1_OK, q') \<Longrightarrow> cmdq_dispatch_all q = cmdq_dispatch_all q'"
  "cmdq_dispatch_one q = (ATT1_ERR_QUEUE_EMPTY, q') \<Longrightarrow> cmdq_dispatch_all q = (ATT1_OK, q')"
  "cmdq_dispatch_one q = (ATT1_ERR_QUEUE_FULL, q') \<Longrightarrow> cmdq_dispatch_all q = (ATT1_ERR_QUEUE_FULL, q')"
  by (simp_all add: cmdq_dispatch_all.simps [of q])

lemma cmdq_dispatch_all_inv:
  assumes "cmdq_inv q"
  shows "cmdq_inv (snd (cmdq_dispatch_all q))
    \<and> q_config (snd (cmdq_dispatch_all q)) = q_config q
    \<and> fst (cmdq_dispatch_all q) \<in> {ATT1_OK, ATT1_ERR_QUEUE_FULL}
    \<and> (fst (cmdq_dispatch_all q) = ATT1_OK \<longrightarrow> cmd_content (snd (cmdq_dispatch_all q)) = [])"
  using assms
proof (induction q rule: cmdq_dispatch_all.induct)
  case (1 q)
  obtain st q' where d: "cmdq_dispatch_one q = (st, q')" by force
  note c = cmdq_dispatch_one_cases [OF "1.prems" d]
  consider "st = ATT1_OK" | "st = ATT1_ERR_QUEUE_EMPTY" | "st = ATT1_ERR_QUEUE_FULL"
    using c by blast
  then show ?case
  proof cases
    case 1
    then show ?thesis
      using "1.IH" [OF d [symmetric]] c d by (simp add: cmdq_dispatch_all_step)
  qed (use c d in \<open>auto simp: cmdq_dispatch_all_step\<close>)
qed

text \<open>What the device answers when no hook is installed.\<close>

definition no_hook_result :: "att1_aimu_cmd \<Rightarrow> att1_aimu_result" where
  "no_hook_result c =
     (case cmd_type_of (c_command_type c) of
        None \<Rightarrow> AIMU_ERR_INVALID_COMMAND
      | Some t \<Rightarrow>
          if t \<in> {CMD_NOP, CMD_TRACE_SNAPSHOT, CMD_TILE_BARRIER, CMD_QUERY_COUNTERS, CMD_RESET_TILE}
          then AIMU_OK else AIMU_ERR_UNSUPPORTED_OP)"

lemma head_outcome_no_hook:
  assumes "q_exec_hook q = None"
  shows "\<exists>q2. head_outcome q = (no_hook_result (hd (cmd_content q)), q2, hd (cmd_content q))
    \<and> q_exec_hook q2 = None"
proof -
  have "q_exec_hook (snd (cmdq_pop q)) = None"
    using assms by (simp add: cmdq_pop_def Let_def)
  then show ?thesis
    by (auto simp: head_outcome_def cmdq_execute_def no_hook_result_def split: option.splits)
qed

lemma cmdq_dispatch_one_hook:
  assumes "cmdq_dispatch_one q = (st, q')"
  shows "q_exec_hook q' = q_exec_hook q"
  using assms
  by (auto simp: cmdq_dispatch_one_def cmdq_pop_def cmdq_execute_def write_completion_def
      compq_push_def cmdq_account_def inc_defs Let_def
      split: if_splits prod.splits option.splits)

fun completions_match :: "att1_aimu_completion list \<Rightarrow> att1_aimu_cmd list \<Rightarrow> bool" where
  "completions_match [] [] = True"
| "completions_match (k # ks) (c # cs) \<longleftrightarrow>
     completion_matches k c (no_hook_result c) \<and> completions_match ks cs"
| "completions_match _ _ = False"

lemma completions_match_length: "completions_match ks cs \<Longrightarrow> length ks = length cs"
  by (induction ks cs rule: completions_match.induct) simp_all

lemma cmdq_drain_no_hook:
  assumes "cmdq_inv q" "q_exec_hook q = None"
    and "length (comp_content q) + length (cmd_content q) \<le> comp_cap q"
  shows "\<exists>q' ks. cmdq_dispatch_all q = (ATT1_OK, q') \<and> cmdq_inv q' \<and> cmd_content q' = []
    \<and> comp_content q' = comp_content q @ ks \<and> completions_match ks (cmd_content q)"
  using assms
proof (induction "cmd_content q" arbitrary: q)
  case Nil
  then show ?case
    using cmdq_dispatch_one_empty [of q] by (simp add: cmdq_dispatch_all_step)
next
  case (Cons c cs)
  have ne: "cmd_content q \<noteq> []" and hd: "hd (cmd_content q) = c" and tl: "tl (cmd_content q) = cs"
    using Cons.hyps(2) by (metis list.discI, metis list.sel(1), metis list.sel(3))
  obtain q2 where h: "head_outcome q = (no_hook_result c, q2, c)"
    using head_outcome_no_hook [OF Cons.prems(2)] hd by auto
  have room: "length (comp_content q) < comp_cap q"
    using Cons.prems(3) ne by (cases "cmd_content q") auto
  obtain q1 k where q1: "cmdq_dispatch_one q = (ATT1_OK, q1)" "cmdq_inv q1"
    "cmd_content q1 = cs" "comp_content q1 = comp_content q @ [k]"
    "completion_matches k c (no_hook_result c)" "q_config q1 = q_config q"
    using cmdq_dispatch_one_ok [OF Cons.prems(1) ne room h] tl by metis
  have "length (comp_content q1) + length (cmd_content q1) \<le> comp_cap q1"
  proof -
    have "length (cmd_content q) = Suc (length cs)"
      unfolding Cons.hyps(2) [symmetric] by simp
    then show ?thesis using Cons.prems(3) q1 by (simp add: comp_cap_def)
  qed
  moreover have "q_exec_hook q1 = None"
    using cmdq_dispatch_one_hook [OF q1(1)] Cons.prems(2) by simp
  ultimately obtain q' ks where "cmdq_dispatch_all q1 = (ATT1_OK, q')" "cmdq_inv q'"
    "cmd_content q' = []" "comp_content q' = comp_content q1 @ ks" "completions_match ks cs"
    using Cons.hyps(1) [of q1] q1(2,3) by auto
  moreover have "completions_match (k # ks) (cmd_content q)"
    unfolding Cons.hyps(2) [symmetric] using q1(5) calculation(5) by simp
  ultimately show ?case
    using q1(1,4) by (intro exI [of _ q'] exI [of _ "k # ks"]) (simp add: cmdq_dispatch_all_step)
qed

section \<open>Reachable queues\<close>

text \<open>
  The host and the device act on the queue in any order: submissions (accepted or not),
  single dispatches, drains, polls and hook changes.
\<close>

datatype 'ctx cmdq_op =
    OpSubmit att1_aimu_cmd
  | OpDispatch
  | OpDrain
  | OpPoll
  | OpHook "'ctx exec_hook_fn option" "'ctx option"

inductive cmdq_step :: "'ctx att1_aimu_cmdq \<Rightarrow> 'ctx cmdq_op \<Rightarrow> 'ctx att1_aimu_cmdq \<Rightarrow> bool" where
  submit: "cmdq_submit q c = (st, q', c') \<Longrightarrow> cmdq_step q (OpSubmit c) q'"
| dispatch: "cmdq_dispatch_one q = (st, q') \<Longrightarrow> cmdq_step q OpDispatch q'"
| drain: "cmdq_dispatch_all q = (st, q') \<Longrightarrow> cmdq_step q OpDrain q'"
| poll: "att1_aimu_cmdq_poll_completion (Some q) True = (st, Some q', k) \<Longrightarrow> cmdq_step q OpPoll q'"
| hook: "att1_aimu_cmdq_set_exec_hook (Some q) fn x = Some q' \<Longrightarrow> cmdq_step q (OpHook fn x) q'"

inductive_cases cmdq_stepE: "cmdq_step q op q'"

inductive cmdq_reachable :: "'ctx att1_aimu_cmdq \<Rightarrow> bool" where
  create: "att1_aimu_cmdq_create alloc cfg out_ok = (ATT1_OK, Some q) \<Longrightarrow> cmdq_reachable q"
| step: "cmdq_reachable q \<Longrightarrow> cmdq_step q op q' \<Longrightarrow> cmdq_reachable q'"

text \<open>
  Command identifiers: the next one is the number of accepted submissions plus one, and the
  pending commands carry the identifiers that precede it, in order.
\<close>

definition cmdq_ids_inv :: "'ctx att1_aimu_cmdq \<Rightarrow> bool" where
  "cmdq_ids_inv q \<longleftrightarrow>
     q_next_command_id q = ucast (qc_commands_submitted (q_counters q)) + 1
     \<and> map c_command_id (cmd_content q)
       = map (\<lambda>i. q_next_command_id q - word_of_nat (length (cmd_content q) - i))
           [0..<length (cmd_content q)]"

lemma new_cmdq_inv:
  assumes "cmdq_config_valid cfg"
  shows "cmdq_inv (new_cmdq cfg)" "cmdq_ids_inv (new_cmdq cfg)"
proof -
  obtain i j where "i < 64" "qcfg_cmd_ring_depth cfg = 2 ^ i"
    "j < 64" "qcfg_comp_ring_depth cfg = 2 ^ j"
    using assms by (auto simp: cmdq_config_valid_def is_power_of_two_iff)
  then show "cmdq_inv (new_cmdq cfg)"
    using assms by (simp add: cmdq_inv_def new_cmdq_def unat_pow2)
  show "cmdq_ids_inv (new_cmdq cfg)"
    by (simp add: cmdq_ids_inv_def new_cmdq_def zero_cmdq_counters_def cmd_content_def
        mring_content_def)
qed

lemma create_inv:
  assumes "att1_aimu_cmdq_create alloc cfg out_ok = (ATT1_OK, Some q)"
  shows "cmdq_inv q \<and> cmdq_ids_inv q"
  using assms
  by (auto simp: att1_aimu_cmdq_create_def Let_def new_cmdq_inv split: if_splits)

lemma ids_tl:
  fixes n :: u32
  assumes "map f xs = map (\<lambda>i. n - word_of_nat (length xs - i)) [0..<length xs]"
  shows "map f (tl xs) = map (\<lambda>i. n - word_of_nat (length (tl xs) - i)) [0..<length (tl xs)]"
proof (cases xs)
  case (Cons x ys)
  have "tl (map f xs) = tl (map (\<lambda>i. n - word_of_nat (length xs - i)) [0..<length xs])"
    using assms by simp
  also have "\<dots> = map (\<lambda>i. n - word_of_nat (length ys - i)) [0..<length ys]"
    by (simp add: Cons upt_conv_Cons comp_def flip: map_Suc_upt del: upt_Suc)
  finally show ?thesis by (simp add: Cons)
qed simp

lemma ids_snoc:
  fixes n :: u32
  assumes "map f xs = map (\<lambda>i. n - word_of_nat (length xs - i)) [0..<length xs]" "f x = n"
  shows "map f (xs @ [x]) =
    map (\<lambda>i. n + 1 - word_of_nat (length (xs @ [x]) - i)) [0..<length (xs @ [x])]"
proof -
  have "n + 1 - word_of_nat (Suc (length xs) - i) = n - word_of_nat (length xs - i)"
    if "i < length xs" for i
    using that by (simp add: Suc_diff_le)
  then show ?thesis using assms by simp
qed

lemma cmdq_submit_ids:
  assumes "cmdq_inv q" "cmdq_ids_inv q"
  shows "cmdq_ids_inv (fst (snd (cmdq_submit q c)))"
proof (cases "\<not> submit_rejects q c \<and> length (cmd_content q) < cmd_cap q")
  case True
  let ?q1 = "fst (snd (cmdq_submit q c))"
  have n: "q_next_command_id ?q1 = q_next_command_id q + 1"
    "qc_commands_submitted (q_counters ?q1) = qc_commands_submitted (q_counters q) + 1"
    using True assms(1) by (simp_all add: cmdq_submit_ok) (simp add: cmdq_push_def Let_def)
  have i: "c_command_id (stamped q c) = q_next_command_id q" by (simp add: stamped_def Let_def)
  have "(ucast (qc_commands_submitted (q_counters q) + 1) :: u32)
      = ucast (qc_commands_submitted (q_counters q)) + 1"
    by (simp add: unsigned_ucast_eq word_unat_eq_iff unat_word_ariths take_bit_eq_mod mod_simps
        mod_mod_cancel)
  then show ?thesis
    using assms(2) True n cmdq_submit_content(2) [of q c] assms(1) i
      ids_snoc [of c_command_id "cmd_content q" "q_next_command_id q" "stamped q c"]
    by (simp add: cmdq_ids_inv_def del: upt_Suc map_append)
next
  case False
  then show ?thesis
    using assms
    by (cases "submit_rejects q c") (auto simp: cmdq_submit_bad_tile cmdq_submit_full cmdq_ids_inv_def)
qed

lemma cmdq_dispatch_one_ids:
  assumes "cmdq_inv q" "cmdq_ids_inv q" "cmdq_dispatch_one q = (st, q')"
  shows "cmdq_ids_inv q'"
  using cmdq_dispatch_one_cases [OF assms(1,3)] assms(2) ids_tl [of c_command_id "cmd_content q"]
  by (simp add: cmdq_ids_inv_def)

lemma cmdq_dispatch_all_ids:
  "cmdq_inv q \<Longrightarrow> cmdq_ids_inv q \<Longrightarrow> cmdq_ids_inv (snd (cmdq_dispatch_all q))"
proof (induction q rule: cmdq_dispatch_all.induct)
  case (1 q)
  obtain st q' where d: "cmdq_dispatch_one q = (st, q')" by force
  note i = cmdq_dispatch_one_ids [OF "1.prems" d] and c = cmdq_dispatch_one_cases [OF "1.prems"(1) d]
  show ?case
    using "1.IH" [OF d [symmetric]] i c d by (auto simp: cmdq_dispatch_all.simps [of q])
qed

lemma cmdq_poll_frame:
  assumes "cmdq_inv q" "cmdq_ids_inv q"
    and "att1_aimu_cmdq_poll_completion (Some q) True = (st, Some q', k)"
  shows "cmdq_inv q' \<and> cmdq_ids_inv q'"
proof (cases "comp_content q = []")
  case True
  then show ?thesis
    using assms by (simp add: att1_aimu_cmdq_poll_completion_def used_eq_0)
next
  case False
  then have "q' = snd (compq_pop q)"
    using assms(1,3) by (auto simp: att1_aimu_cmdq_poll_completion_def used_eq_0 split: prod.splits)
  moreover have "q_next_command_id (snd (compq_pop q)) = q_next_command_id q"
    by (simp add: compq_pop_def Let_def)
  ultimately show ?thesis
    using assms(2) compq_pop_inv(1) [OF assms(1) False] by (simp add: cmdq_ids_inv_def)
qed

lemma cmdq_step_inv:
  assumes "cmdq_step q op q'" "cmdq_inv q" "cmdq_ids_inv q"
  shows "cmdq_inv q' \<and> cmdq_ids_inv q'"
  using assms(1)
proof cases
  case (submit c st c')
  then show ?thesis
    using cmdq_submit_inv [OF assms(2), of c] cmdq_submit_ids [OF assms(2,3), of c] by simp
next
  case (dispatch st)
  then show ?thesis
    using cmdq_dispatch_one_cases [OF assms(2)] cmdq_dispatch_one_ids [OF assms(2,3)] by blast
next
  case (drain st)
  then show ?thesis
    using cmdq_dispatch_all_inv [OF assms(2)] cmdq_dispatch_all_ids [OF assms(2,3)] by simp
next
  case (poll st k)
  then show ?thesis using cmdq_poll_frame [OF assms(2,3)] by blast
next
  case (hook fn x)
  then show ?thesis
    using assms(2,3)
    by (auto simp: att1_aimu_cmdq_set_exec_hook_def cmdq_inv_def cmdq_ids_inv_def cmd_content_def)
qed

lemma cmdq_reachable_invs: "cmdq_reachable q \<Longrightarrow> cmdq_inv q \<and> cmdq_ids_inv q"
proof (induction rule: cmdq_reachable.induct)
  case (create alloc cfg out_ok q)
  then show ?case by (rule create_inv)
next
  case (step q op q')
  then show ?case using cmdq_step_inv by blast
qed

end
