(* ===== verification/Aimu_Cmdq_Props.thy ===== *)
theory Aimu_Cmdq_Props
  imports Aimu_Cmdq_Inv
begin

text \<open>
  The properties of the command queue, each with a run of a small concrete queue on which its
  hypotheses hold: two tiles, four command slots and two completion slots.
\<close>

section \<open>A concrete run\<close>

definition demo_cfg :: att1_aimu_cmdq_config where
  "demo_cfg = \<lparr>qcfg_tile_count = 2, qcfg_cmd_ring_depth = 4, qcfg_comp_ring_depth = 2\<rparr>"

definition demo_q0 :: "unit att1_aimu_cmdq" where
  "demo_q0 = new_cmdq demo_cfg"

definition demo_q1 :: "unit att1_aimu_cmdq" where
  "demo_q1 = fst (snd (cmdq_submit demo_q0 (zero_cmd\<lparr>c_command_type := 0x77\<rparr>)))"

definition demo_q2 :: "unit att1_aimu_cmdq" where
  "demo_q2 = fst (snd (cmdq_submit demo_q1 zero_cmd))"

definition demo_q3 :: "unit att1_aimu_cmdq" where
  "demo_q3 = snd (cmdq_dispatch_one demo_q2)"

lemma demo_cfg_valid: "cmdq_config_valid demo_cfg"
  by (simp add: cmdq_config_valid_def demo_cfg_def CMDQ_MAX_TILES_def CMDQ_MAX_DEPTH_def
      is_power_of_two_def)

lemma demo_q0_facts:
  "cmdq_inv demo_q0" "cmdq_reachable demo_q0" "cmd_content demo_q0 = []" "comp_content demo_q0 = []"
  "q_config demo_q0 = demo_cfg" "q_exec_hook demo_q0 = None"
proof -
  have "att1_aimu_cmdq_create (\<lambda>_. True) (Some demo_cfg) True = (ATT1_OK, Some demo_q0)"
    by (simp add: att1_aimu_cmdq_create_def demo_cfg_valid demo_q0_def)
  then show "cmdq_reachable demo_q0" by (rule cmdq_reachable.create)
  show "cmdq_inv demo_q0" by (simp add: demo_q0_def new_cmdq_inv demo_cfg_valid)
  show "cmd_content demo_q0 = []" "comp_content demo_q0 = []" "q_config demo_q0 = demo_cfg"
    "q_exec_hook demo_q0 = None"
    by (simp_all add: demo_q0_def new_cmdq_def cmd_content_def comp_content_def mring_content_def)
qed

lemma submit_hook: "q_exec_hook (fst (snd (cmdq_submit q c))) = q_exec_hook q"
  by (simp add: cmdq_submit_def Let_def cmdq_push_def)

lemma submit_reachable:
  "cmdq_reachable q \<Longrightarrow> cmdq_reachable (fst (snd (cmdq_submit q c)))"
  by (cases "cmdq_submit q c") (auto intro: cmdq_reachable.step [OF _ cmdq_step.submit])

lemma demo_submit:
  fixes q :: "unit att1_aimu_cmdq"
  assumes "cmdq_inv q" "cmdq_reachable q" "q_config q = demo_cfg" "length (cmd_content q) < 3"
    "c_tile_id c = 0"
  shows "cmdq_inv (fst (snd (cmdq_submit q c)))" "cmdq_reachable (fst (snd (cmdq_submit q c)))"
    "q_config (fst (snd (cmdq_submit q c))) = demo_cfg"
    "cmd_content (fst (snd (cmdq_submit q c))) = cmd_content q @ [stamped q c]"
    "comp_content (fst (snd (cmdq_submit q c))) = comp_content q"
  using cmdq_submit_content [of q c] assms submit_reachable
  by (simp_all add: submit_rejects_def cmd_cap_def demo_cfg_def)

lemma demo_q1_facts:
  "cmdq_inv demo_q1" "cmdq_reachable demo_q1" "q_config demo_q1 = demo_cfg"
  "cmd_content demo_q1 = [stamped demo_q0 (zero_cmd\<lparr>c_command_type := 0x77\<rparr>)]"
  "comp_content demo_q1 = []" "q_exec_hook demo_q1 = None"
  using demo_submit [of demo_q0 "zero_cmd\<lparr>c_command_type := 0x77\<rparr>"] demo_q0_facts
  by (simp_all add: demo_q1_def zero_cmd_def submit_hook)

lemma demo_q2_facts:
  "cmdq_inv demo_q2" "cmdq_reachable demo_q2" "q_config demo_q2 = demo_cfg"
  "cmd_content demo_q2 =
     [stamped demo_q0 (zero_cmd\<lparr>c_command_type := 0x77\<rparr>), stamped demo_q1 zero_cmd]"
  "comp_content demo_q2 = []" "q_exec_hook demo_q2 = None"
  using demo_submit [of demo_q1 zero_cmd] demo_q1_facts
  by (simp_all add: demo_q2_def zero_cmd_def submit_hook)

lemma demo_q3_facts:
  "cmdq_inv demo_q3" "cmdq_reachable demo_q3" "q_config demo_q3 = demo_cfg"
  "cmd_content demo_q3 = [stamped demo_q1 zero_cmd]" "length (comp_content demo_q3) = 1"
proof -
  obtain r q2 c where h: "head_outcome demo_q2 = (r, q2, c)" by (metis prod_cases3)
  have "cmd_content demo_q2 \<noteq> []" "length (comp_content demo_q2) < comp_cap demo_q2"
    using demo_q2_facts by (simp_all add: comp_cap_def demo_cfg_def)
  from cmdq_dispatch_one_ok [OF demo_q2_facts(1) this h]
  obtain q' k where d: "cmdq_dispatch_one demo_q2 = (ATT1_OK, q')" "cmdq_inv q'"
    "cmd_content q' = tl (cmd_content demo_q2)" "comp_content q' = comp_content demo_q2 @ [k]"
    "q_config q' = q_config demo_q2"
    by metis
  moreover have "demo_q3 = q'" using d(1) by (simp add: demo_q3_def)
  ultimately show "cmdq_inv demo_q3" "q_config demo_q3 = demo_cfg"
    "cmd_content demo_q3 = [stamped demo_q1 zero_cmd]" "length (comp_content demo_q3) = 1"
    using demo_q2_facts by simp_all
  show "cmdq_reachable demo_q3"
    using cmdq_reachable.step [OF demo_q2_facts(2) cmdq_step.dispatch [OF d(1)]] \<open>demo_q3 = q'\<close>
    by simp
qed

section \<open>Properties\<close>

text \<open>
  C33. In every queue the API can reach, in any interleaving of submissions, dispatches,
  drains, polls and hook changes, both rings keep their size and hold fewer entries than
  slots, the used counts are the numbers of entries, and the pending commands carry the
  consecutive identifiers that precede the next one.
\<close>

theorem cmdq_reachable_invariant:
  assumes "cmdq_reachable q"
  shows "length (q_cmd_ring q) = unat (cmd_depth q) \<and> length (q_comp_ring q) = unat (comp_depth q)
    \<and> unat (cmdq_used q) = length (cmd_content q) \<and> length (cmd_content q) < unat (cmd_depth q)
    \<and> unat (compq_used q) = length (comp_content q) \<and> length (comp_content q) < unat (comp_depth q)
    \<and> q_next_command_id q = ucast (qc_commands_submitted (q_counters q)) + 1
    \<and> map c_command_id (cmd_content q)
      = map (\<lambda>i. q_next_command_id q - word_of_nat (length (cmd_content q) - i))
          [0..<length (cmd_content q)]"
  using cmdq_reachable_invs [OF assms] cmdq_used_content [of q] compq_used_content [of q]
  by (simp add: cmdq_inv_def cmdq_ids_inv_def cmd_content_def comp_content_def)

theorem cmdq_reachable_invariant_witness:
  "cmdq_reachable demo_q2 \<and> unat (cmdq_used demo_q2) = 2
   \<and> map c_command_id (cmd_content demo_q2) = [q_next_command_id demo_q2 - 2, q_next_command_id demo_q2 - 1]"
  using cmdq_reachable_invariant [OF demo_q2_facts(2)] demo_q2_facts
  by (simp add: upt_rec [of _ 2] upt_rec)

text \<open>
  Submission on every branch: a tile index out of range is refused, a full ring is
  refused, and otherwise the descriptor, stamped with the next identifier, the pending
  status and its checksum, goes behind the pending commands; completions are untouched.
\<close>

theorem cmdq_submit_spec:
  assumes "cmdq_reachable q" "att1_aimu_cmdq_submit (Some q) (Some c) = (st, Some q', Some c')"
  shows "comp_content q' = comp_content q \<and>
    (if unat (qcfg_tile_count (q_config q)) \<le> unat (c_tile_id c)
     then st = ATT1_ERR_INVALID_ARG \<and> c' = c \<and> cmd_content q' = cmd_content q
       \<and> qc_commands_failed (q_counters q') = qc_commands_failed (q_counters q) + 1
     else if length (cmd_content q) = unat (cmd_depth q) - 1
     then st = ATT1_ERR_QUEUE_FULL \<and> c' = c \<and> cmd_content q' = cmd_content q
       \<and> qc_queue_full_count (q_counters q') = qc_queue_full_count (q_counters q) + 1
     else st = ATT1_OK \<and> cmd_content q' = cmd_content q @ [c']
       \<and> c_command_id c' = q_next_command_id q \<and> c_status c' = result_byte AIMU_PENDING
       \<and> c_checksum c' = cmd_checksum c' \<and> c_command_type c' = c_command_type c)"
proof -
  have i: "cmdq_inv q" using cmdq_reachable_invs [OF assms(1)] by blast
  have s: "cmdq_submit q c = (st, q', c')"
    using assms(2) by (simp add: att1_aimu_cmdq_submit_def split: prod.splits)
  have le: "length (cmd_content q) \<le> unat (cmd_depth q) - 1"
    using i unfolding cmdq_inv_def cmd_content_def length_mring_content by linarith
  have n: "qc_commands_failed (q_counters (inc_failed q)) = qc_commands_failed (q_counters q) + 1"
    "qc_queue_full_count (q_counters (inc_queue_full q)) = qc_queue_full_count (q_counters q) + 1"
    by (simp_all add: inc_defs)
  have st: "c_checksum (stamped q c) = cmd_checksum (stamped q c)"
    "c_command_id (stamped q c) = q_next_command_id q"
    "c_status (stamped q c) = result_byte AIMU_PENDING" "c_command_type (stamped q c) = c_command_type c"
    by (simp_all add: stamped_def Let_def cmd_checksum_frame)
  consider (tile) "submit_rejects q c"
    | (full) "\<not> submit_rejects q c" "length (cmd_content q) = unat (cmd_depth q) - 1"
    | (ok) "\<not> submit_rejects q c" "length (cmd_content q) < unat (cmd_depth q) - 1"
    using le by linarith
  then show ?thesis
  proof cases
    case tile
    then show ?thesis
      using s n cmdq_submit_bad_tile [OF tile] by (auto simp: submit_rejects_def)
  next
    case full
    then have "cmdq_submit q c = (ATT1_ERR_QUEUE_FULL, inc_queue_full q, c)"
      by (intro cmdq_submit_full [OF i]) (simp_all add: cmd_cap_def)
    with s n full show ?thesis by (auto simp: submit_rejects_def)
  next
    case ok
    then have "length (cmd_content q) < cmd_cap q" by (simp add: cmd_cap_def)
    with ok s st cmdq_submit_ok [OF i] cmdq_submit_content [OF i] show ?thesis
      by (auto simp: submit_rejects_def)
  qed
qed

theorem cmdq_submit_spec_witness:
  "cmdq_reachable demo_q1
   \<and> (\<exists>st q' c'. att1_aimu_cmdq_submit (Some demo_q1) (Some zero_cmd) = (st, Some q', Some c')
       \<and> st = ATT1_OK \<and> cmd_content q' = cmd_content demo_q1 @ [c'])"
proof (cases "cmdq_submit demo_q1 zero_cmd")
  case (fields st q' c')
  then have s: "att1_aimu_cmdq_submit (Some demo_q1) (Some zero_cmd) = (st, Some q', Some c')"
    by (simp add: att1_aimu_cmdq_submit_def)
  show ?thesis
    using cmdq_submit_spec [OF demo_q1_facts(2) s] s demo_q1_facts
    by (auto simp: demo_cfg_def zero_cmd_def)
qed


lemma demo_q1b_facts:
  fixes q :: "unit att1_aimu_cmdq"
  defines "q \<equiv> fst (snd (cmdq_submit demo_q0 zero_cmd))"
  shows "cmdq_reachable q" "q_exec_hook q = None" "q_config q = demo_cfg"
    "cmd_content q = [stamped demo_q0 zero_cmd]" "comp_content q = []"
  using demo_submit [of demo_q0 zero_cmd] demo_q0_facts
  by (simp_all add: q_def zero_cmd_def submit_hook)


text \<open>
  When the completion ring is full, dispatching still takes the oldest command from the
  command ring and executes it, but returns \<open>ATT1_ERR_QUEUE_FULL\<close> without a completion
  record: the host never sees an answer to that command, and retrying cannot produce one,
  since the command is gone.
\<close>

theorem cmdq_full_completion_ring_loses_command:
  assumes "cmdq_reachable q" "cmd_content q = c # cs"
    and "length (comp_content q) = unat (comp_depth q) - 1"
  shows "\<exists>q'. att1_aimu_cmdq_dispatch_one (Some q) = (ATT1_ERR_QUEUE_FULL, Some q')
    \<and> cmd_content q' = cs \<and> comp_content q' = comp_content q"
proof -
  have "cmdq_inv q" using cmdq_reachable_invs [OF assms(1)] by blast
  moreover have "cmd_content q \<noteq> []" "comp_cap q \<le> length (comp_content q)"
    using assms by (simp_all add: comp_cap_def)
  ultimately show ?thesis
    by (rule cmdq_dispatch_one_full) (use assms in \<open>auto simp: att1_aimu_cmdq_dispatch_one_def\<close>)
qed

theorem cmdq_full_completion_ring_loses_command_witness:
  "\<exists>q'. cmd_content demo_q3 = [stamped demo_q1 zero_cmd]
    \<and> att1_aimu_cmdq_dispatch_one (Some demo_q3) = (ATT1_ERR_QUEUE_FULL, Some q')
    \<and> cmd_content q' = []"
  using cmdq_full_completion_ring_loses_command [OF demo_q3_facts(2,4)] demo_q3_facts
  by (auto simp: demo_cfg_def)

text \<open>
  A command whose type byte is not a known command is completed with the result
  \<open>AIMU_ERR_INVALID_COMMAND\<close>, and the failure counter grows by two for it: once in the
  switch and once in the accounting after the completion is written.
\<close>

theorem cmdq_invalid_command_counted_twice:
  assumes "cmdq_reachable q" "cmd_content q = c # cs" "cmd_type_of (c_command_type c) = None"
    and "length (comp_content q) < unat (comp_depth q) - 1"
  shows "\<exists>q' k. att1_aimu_cmdq_dispatch_one (Some q) = (ATT1_OK, Some q')
    \<and> comp_content q' = comp_content q @ [k]
    \<and> k_result_code k = result_byte AIMU_ERR_INVALID_COMMAND
    \<and> qc_unsupported_commands (q_counters q') = qc_unsupported_commands (q_counters q) + 1
    \<and> qc_commands_failed (q_counters q') = qc_commands_failed (q_counters q) + 2
    \<and> qc_commands_completed (q_counters q') = qc_commands_completed (q_counters q)"
proof -
  have i: "cmdq_inv q" using cmdq_reachable_invs [OF assms(1)] by blast
  let ?q2 = "inc_failed (inc_unsupported (snd (cmdq_pop q)))"
  have h: "head_outcome q = (AIMU_ERR_INVALID_COMMAND, ?q2, c)"
    using assms(2,3) by (simp add: head_outcome_def cmdq_execute_def)
  have ne: "cmd_content q \<noteq> []" and room: "length (comp_content q) < comp_cap q"
    using assms(2,4) by (simp_all add: comp_cap_def)
  obtain q' k where d: "cmdq_dispatch_one q = (ATT1_OK, q')"
    "comp_content q' = comp_content q @ [k]" "completion_matches k c AIMU_ERR_INVALID_COMMAND"
    by (rule cmdq_dispatch_one_ok [OF i ne room h])
  have u: "cmdq_dispatch_one q = (case write_completion ?q2 c AIMU_ERR_INVALID_COMMAND of
      (st, q3) \<Rightarrow> if st \<noteq> ATT1_OK then (st, q3)
        else (ATT1_OK, cmdq_account AIMU_ERR_INVALID_COMMAND q3))"
    by (rule cmdq_dispatch_one_unfold [OF i ne h])
  then obtain q3 where w: "write_completion ?q2 c AIMU_ERR_INVALID_COMMAND = (ATT1_OK, q3)"
    "q' = cmdq_account AIMU_ERR_INVALID_COMMAND q3"
    using d(1) by (auto split: prod.splits if_splits)
  have "qc_commands_failed (q_counters q3) = qc_commands_failed (q_counters q) + 1"
    "qc_unsupported_commands (q_counters q3) = qc_unsupported_commands (q_counters q) + 1"
    "qc_commands_completed (q_counters q3) = qc_commands_completed (q_counters q)"
    using w(1)
    by (auto simp: write_completion_def compq_push_def inc_defs Let_def split: if_splits)
  then show ?thesis
    using d w(2) by (auto simp: att1_aimu_cmdq_dispatch_one_def completion_matches_def
        cmdq_account_def Let_def inc_defs)
qed

theorem cmdq_invalid_command_counted_twice_witness:
  "\<exists>q'. att1_aimu_cmdq_dispatch_one (Some demo_q1) = (ATT1_OK, Some q')
    \<and> qc_commands_failed (q_counters q') = qc_commands_failed (q_counters demo_q1) + 2"
proof -
  have "cmd_type_of (c_command_type (stamped demo_q0 (zero_cmd\<lparr>c_command_type := 0x77\<rparr>))) = None"
    by (simp add: stamped_def Let_def zero_cmd_def cmd_type_of_def all_cmd_types_def)
  from cmdq_invalid_command_counted_twice [OF demo_q1_facts(2,4) this]
  show ?thesis using demo_q1_facts by (auto simp: demo_cfg_def)
qed

text \<open>
  Polling a reachable queue: an empty completion ring is reported, otherwise the oldest
  completion record is handed out and removed; pending commands are untouched.
\<close>

theorem cmdq_poll_spec:
  assumes "cmdq_reachable q"
  shows "case comp_content q of
      [] \<Rightarrow> att1_aimu_cmdq_poll_completion (Some q) True = (ATT1_ERR_QUEUE_EMPTY, Some q, None)
    | k # ks \<Rightarrow> \<exists>q'. att1_aimu_cmdq_poll_completion (Some q) True = (ATT1_OK, Some q', Some k)
        \<and> comp_content q' = ks \<and> cmd_content q' = cmd_content q"
proof -
  have i: "cmdq_inv q" using cmdq_reachable_invs [OF assms] by blast
  show ?thesis
  proof (cases "comp_content q")
    case Nil
    then show ?thesis by (simp add: att1_aimu_cmdq_poll_completion_def used_eq_0 i)
  next
    case (Cons k ks)
    then have "comp_content q = fst (compq_pop q) # comp_content (snd (compq_pop q))"
      by (intro compq_fifo.content_deq [OF i]) simp
    with Cons show ?thesis
      by (auto simp: att1_aimu_cmdq_poll_completion_def used_eq_0 i split: prod.splits)
        (metis push_pop_frame(4) snd_conv)
  qed
qed

theorem cmdq_poll_spec_witness:
  "\<exists>k q'. att1_aimu_cmdq_poll_completion (Some demo_q3) True = (ATT1_OK, Some q', Some k)
     \<and> comp_content q' = []"
  using cmdq_poll_spec [OF demo_q3_facts(2)] demo_q3_facts(5)
  by (cases "comp_content demo_q3") auto

end
