(* ===== verification/Ranges.thy ===== *)
theory Ranges
  imports Att_Prelude
begin

text \<open>
  Address ranges as the AIMU components use them: half-open intervals of natural numbers,
  rounding up to a power of two in 64-bit arithmetic, and the interface of an allocator that
  hands out pairwise disjoint ranges below a capacity.
\<close>

section \<open>Disjoint ranges\<close>

type_synonym range = "nat \<times> nat"

definition range_set :: "range \<Rightarrow> nat set" where
  "range_set r = {fst r ..< fst r + snd r}"

definition apart :: "range \<Rightarrow> range \<Rightarrow> bool" where
  "apart r s \<longleftrightarrow> fst r + snd r \<le> fst s \<or> fst s + snd s \<le> fst r"

lemma apart_sym: "apart r s \<Longrightarrow> apart s r"
  by (auto simp: apart_def)

lemma apart_disjoint: "apart r s \<Longrightarrow> range_set r \<inter> range_set s = {}"
  by (auto simp: apart_def range_set_def)

lemma apart_iff_disjoint:
  "0 < snd r \<Longrightarrow> 0 < snd s \<Longrightarrow> apart r s \<longleftrightarrow> range_set r \<inter> range_set s = {}"
proof
  assume "0 < snd r" "0 < snd s" "range_set r \<inter> range_set s = {}"
  then have "max (fst r) (fst s) \<notin> range_set r \<inter> range_set s" by simp
  then show "apart r s"
    using \<open>0 < snd r\<close> \<open>0 < snd s\<close> by (auto simp: apart_def range_set_def max_def split: if_splits)
qed (rule apart_disjoint)

text \<open>A finite map of ranges inside \<open>[0, cap)\<close>, pairwise apart.\<close>

definition placed :: "nat \<Rightarrow> ('id \<rightharpoonup> range) \<Rightarrow> bool" where
  "placed cap L \<longleftrightarrow> finite (dom L)
     \<and> (\<forall>i r. L i = Some r \<longrightarrow> 0 < snd r \<and> fst r + snd r \<le> cap)
     \<and> (\<forall>i j r s. L i = Some r \<longrightarrow> L j = Some s \<longrightarrow> i \<noteq> j \<longrightarrow> apart r s)"

definition total_size :: "('id \<rightharpoonup> range) \<Rightarrow> nat" where
  "total_size L = (\<Sum>i \<in> dom L. snd (the (L i)))"

lemma placed_total:
  assumes "placed cap L"
  shows "total_size L \<le> cap"
proof -
  have "total_size L = (\<Sum>i \<in> dom L. card (range_set (the (L i))))"
    by (simp add: total_size_def range_set_def)
  also have "\<dots> = card (\<Union>i \<in> dom L. range_set (the (L i)))"
  proof (rule card_UN_disjoint [symmetric])
    show "finite (dom L)" using assms by (simp add: placed_def)
    show "\<forall>i\<in>dom L. finite (range_set (the (L i)))" by (simp add: range_set_def)
    show "\<forall>i\<in>dom L. \<forall>j\<in>dom L. i \<noteq> j \<longrightarrow> range_set (the (L i)) \<inter> range_set (the (L j)) = {}"
      using assms by (fastforce simp: placed_def dest: apart_disjoint)
  qed
  also have "\<dots> \<le> card {..<cap}"
  proof (rule card_mono)
    show "(\<Union>i \<in> dom L. range_set (the (L i))) \<subseteq> {..<cap}"
      using assms by (fastforce simp: placed_def range_set_def)
  qed simp
  finally show ?thesis by simp
qed

lemma placed_insert:
  assumes "placed cap L" "i \<notin> dom L" "0 < snd r" "fst r + snd r \<le> cap"
    and "\<And>j s. L j = Some s \<Longrightarrow> apart r s"
  shows "placed cap (L(i \<mapsto> r))"
  unfolding placed_def
proof (intro conjI allI impI)
  show "finite (dom (L(i \<mapsto> r)))" using assms(1) by (simp add: placed_def)
  fix j s assume "(L(i \<mapsto> r)) j = Some s"
  then have "j = i \<and> s = r \<or> L j = Some s" by (auto split: if_splits)
  then show "0 < snd s" "fst s + snd s \<le> cap"
    using assms(1,3,4) unfolding placed_def by blast+
next
  fix j k s t
  assume j: "(L(i \<mapsto> r)) j = Some s" and k: "(L(i \<mapsto> r)) k = Some t" and ne: "j \<noteq> k"
  have all: "\<forall>i j r s. L i = Some r \<longrightarrow> L j = Some s \<longrightarrow> i \<noteq> j \<longrightarrow> apart r s"
    using assms(1) unfolding placed_def by (elim conjE)
  show "apart s t"
  proof (cases "j = i")
    case True
    with j k ne have "s = r" "L k = Some t" by simp_all
    then show ?thesis using assms(5) by simp
  next
    case False
    with j have s: "L j = Some s" by simp
    show ?thesis
    proof (cases "k = i")
      case True
      with k have "t = r" by simp
      then show ?thesis using assms(5) [OF s] by (simp only: apart_sym)
    next
      case False
      with k have "L k = Some t" by simp
      with s ne all show ?thesis by iprover
    qed
  qed
qed

lemma placed_delete: "placed cap L \<Longrightarrow> placed cap (L(i := None))"
  by (auto simp: placed_def split: if_splits)

section \<open>Rounding up\<close>

definition align_up :: "u64 \<Rightarrow> u64 \<Rightarrow> u64" where
  "align_up addr align = (addr + align - 1) AND NOT (align - 1)"

lemma unat_and_not_mask:
  fixes w :: "'a::len word"
  assumes "k < LENGTH('a)"
  shows "unat (w AND NOT (2 ^ k - 1)) = unat w - unat w mod 2 ^ k"
proof -
  have d: "(w AND NOT (2 ^ k - 1)) AND (w AND (2 ^ k - 1)) = 0"
    by (simp add: bit_eq_iff bit_simps)
  have "w = (w AND NOT (2 ^ k - 1)) OR (w AND (2 ^ k - 1))"
    by (simp add: bit_eq_iff bit_simps) blast
  also have "\<dots> = (w AND NOT (2 ^ k - 1)) + (w AND (2 ^ k - 1))"
    using d by (simp add: disjunctive_add_eq_or)
  finally have e: "w = (w AND NOT (2 ^ k - 1)) + (w AND (2 ^ k - 1))" .
  have le: "w AND NOT (2 ^ k - 1) \<le> w"
    by (metis and.commute word_and_le1)
  have "unat (w AND (2 ^ k - 1)) = unat (w - (w AND NOT (2 ^ k - 1)))"
    using e by (metis add_diff_cancel_left')
  also have "\<dots> = unat w - unat (w AND NOT (2 ^ k - 1))"
    using le by (rule unat_sub)
  finally show ?thesis
    using assms le by (simp add: unat_and_mask_pow2 word_le_nat_alt)
qed

definition round_up :: "nat \<Rightarrow> nat \<Rightarrow> nat" where
  "round_up a d = (a + d - 1) - (a + d - 1) mod d"

lemma round_up_least:
  assumes "0 < d"
  shows "a \<le> round_up a d" "d dvd round_up a d" "\<And>x. a \<le> x \<Longrightarrow> d dvd x \<Longrightarrow> round_up a d \<le> x"
proof -
  have m: "(a + d - 1) mod d < d" using assms by simp
  then show "a \<le> round_up a d" unfolding round_up_def by linarith
  show "d dvd round_up a d" by (simp add: round_up_def minus_mod_eq_mult_div)
  fix x assume x: "a \<le> x" "d dvd x"
  then obtain q where q: "x = d * q" by (auto elim: dvdE)
  have "round_up a d = d * ((a + d - 1) div d)"
    by (simp add: round_up_def minus_mod_eq_mult_div)
  moreover have "(a + d - 1) div d \<le> q"
  proof -
    have "a + d - 1 \<le> d * q + (d - 1)" using x q assms by linarith
    then have "(a + d - 1) div d \<le> (d * q + (d - 1)) div d" by (rule div_le_mono)
    also have "\<dots> = q + (d - 1) div d"
      using assms by (metis add.commute div_mult_self2 less_numeral_extra(3))
    also have "(d - 1) div d = 0" using assms by simp
    finally have "(a + d - 1) div d \<le> q + 0" .
    then show ?thesis by simp
  qed
  ultimately show "round_up a d \<le> x" using q by simp
qed

lemma align_up_no_wrap:
  assumes "k < 64" "unat a + 2 ^ k - 1 < 2 ^ 64"
  shows "unat (align_up a (2 ^ k)) = round_up (unat a) (2 ^ k)"
proof -
  have "unat (2 ^ k - 1 :: u64) = 2 ^ k - 1"
    using assms(1) by (subst unat_sub) (simp_all add: unat_pow2 word_le_nat_alt)
  then have "unat (a + (2 ^ k - 1)) = unat a + (2 ^ k - 1)"
    using assms(2) by (subst unat_add_no_wrap) simp_all
  then have "unat (a + 2 ^ k - 1) = unat a + 2 ^ k - 1" by (simp add: add_diff_eq)
  then show ?thesis using assms(1) by (simp add: align_up_def unat_and_not_mask round_up_def)
qed

lemma align_up_wrap:
  assumes "k < 64" "2 ^ 64 \<le> unat a + 2 ^ k - 1"
  shows "align_up a (2 ^ k) < a"
proof -
  have u: "unat (2 ^ k - 1 :: u64) = 2 ^ k - 1"
    using assms(1) by (subst unat_sub) (simp_all add: unat_pow2 word_le_nat_alt)
  have "unat (a + 2 ^ k - 1) = (unat a + (2 ^ k - 1)) mod 2 ^ 64"
    using u by (simp add: add_diff_eq [symmetric] unat_word_ariths)
  also have "\<dots> = unat a + (2 ^ k - 1) - 2 ^ 64"
  proof -
    have "(2::nat) ^ k \<le> 2 ^ 63" using assms(1) by (intro power_increasing) simp_all
    with assms(2) unat_lt_size [of a] show ?thesis by (simp add: mod_if)
  qed
  also have "\<dots> < 2 ^ k"
  proof -
    have "x + (y - 1) - (2::nat) ^ 64 < y" if "x < 2 ^ 64" "0 < y" for x y
      using that by linarith
    from this [of "unat a" "2 ^ k"] show ?thesis using unat_lt_size [of a] by simp
  qed
  finally have "unat (align_up a (2 ^ k)) = 0"
    using assms(1) by (simp add: align_up_def unat_and_not_mask)
  moreover have "0 < unat a"
  proof -
    have "(2::nat) ^ k < 2 ^ 64" using assms(1) by (intro power_strict_increasing) simp_all
    with assms(2) show ?thesis by linarith
  qed
  ultimately show ?thesis by (simp add: word_less_nat_alt)
qed

section \<open>The allocator interface\<close>

text \<open>
  What the clients of a range allocator rely on. \<open>live\<close> maps the identifier of every live
  allocation to its range.
\<close>

locale range_allocator =
  fixes inv :: "'s \<Rightarrow> bool"
    and cap :: "'s \<Rightarrow> nat"
    and live :: "'s \<Rightarrow> 'id \<rightharpoonup> range"
    and alloc :: "'req \<Rightarrow> 's \<Rightarrow> ('id \<times> 's) option"
    and release :: "'id \<Rightarrow> 's \<Rightarrow> 's option"
  assumes inv_placed: "inv s \<Longrightarrow> placed (cap s) (live s)"
    and alloc_ok: "inv s \<Longrightarrow> alloc r s = Some (i, s') \<Longrightarrow>
      inv s' \<and> cap s' = cap s \<and> i \<notin> dom (live s) \<and> (\<exists>x. live s' = (live s)(i \<mapsto> x))"
    and release_ok: "inv s \<Longrightarrow> release i s = Some s' \<Longrightarrow>
      inv s' \<and> cap s' = cap s \<and> i \<in> dom (live s) \<and> live s' = (live s)(i := None)"
begin

lemma total_bounded: "inv s \<Longrightarrow> total_size (live s) \<le> cap s"
  by (rule placed_total [OF inv_placed])

lemma alloc_apart:
  assumes "inv s" "alloc r s = Some (i, s')"
  shows "\<exists>x. live s' i = Some x \<and> fst x + snd x \<le> cap s
    \<and> (\<forall>j y. live s j = Some y \<longrightarrow> live s' j = Some y \<and> apart x y)"
proof -
  obtain x where x: "live s' = (live s)(i \<mapsto> x)" "inv s'" "cap s' = cap s" "i \<notin> dom (live s)"
    using alloc_ok [OF assms] by auto
  have p: "placed (cap s) (live s')" using inv_placed [OF x(2)] x(3) by simp
  have xi: "live s' i = Some x" using x(1) by simp
  then have "fst x + snd x \<le> cap s" using p unfolding placed_def by blast
  moreover have "live s' j = Some y \<and> apart x y" if "live s j = Some y" for j y
  proof -
    have "j \<noteq> i" using that x(4) by auto
    then have "live s' j = Some y" using that x(1) by simp
    with xi p \<open>j \<noteq> i\<close> show ?thesis unfolding placed_def by blast
  qed
  ultimately show ?thesis using xi by blast
qed

lemma alloc_release:
  assumes "inv s" "alloc r s = Some (i, s')" "release i s' = Some s''"
  shows "live s'' = live s"
proof -
  obtain x where "live s' = (live s)(i \<mapsto> x)" "inv s'" "i \<notin> dom (live s)"
    using alloc_ok [OF assms(1,2)] by auto
  then show ?thesis using release_ok [OF \<open>inv s'\<close> assms(3)] by auto
qed

end

end
