(* ===== verification/Aimu_Mem.thy ===== *)
theory Aimu_Mem
  imports Ranges
begin

text \<open>
  The AIMU tile memory allocator simulator (\<^verbatim>\<open>src/aimu_mem.c\<close>, \<^verbatim>\<open>include/att1_aimu_mem.h\<close>): a
  first-fit allocator over a simulated 64-bit address space that keeps records only. The table
  \<^verbatim>\<open>allocs[4096]\<close> is written front to back and never compacted, so the model keeps its used
  prefix as the list \<open>m_allocs\<close>; \<^verbatim>\<open>alloc_count\<close> is the length of the list. An allocation whose
  \<^verbatim>\<open>name\<close> pointer is \<^verbatim>\<open>NULL\<close> is named by the empty string.
\<close>

section \<open>State\<close>

datatype att1_aimu_mem_region_type =
    REGION_TENSOR | REGION_KV_CACHE | REGION_STAGING | REGION_DMA_BUFFER
  | REGION_COMMAND_QUEUE | REGION_COMPLETION_QUEUE | REGION_TRACE_BUFFER
  | REGION_FABRIC_BUFFER | REGION_RESERVED

definition all_region_types :: "att1_aimu_mem_region_type list" where
  "all_region_types =
     [REGION_TENSOR, REGION_KV_CACHE, REGION_STAGING, REGION_DMA_BUFFER, REGION_COMMAND_QUEUE,
      REGION_COMPLETION_QUEUE, REGION_TRACE_BUFFER, REGION_FABRIC_BUFFER, REGION_RESERVED]"

text \<open>The range check on the enum argument, an \<^verbatim>\<open>int\<close>.\<close>

definition region_of_int :: "int \<Rightarrow> att1_aimu_mem_region_type option" where
  "region_of_int i =
     (if i < 0 \<or> int (length all_region_types) \<le> i then None else Some (all_region_types ! nat i))"

definition MEM_MAGIC :: u32 where "MEM_MAGIC = 0xA771A124"
definition MEM_BASE :: u64 where "MEM_BASE = 0"
definition MEM_MIN_ALIGN :: u64 where "MEM_MIN_ALIGN = 16"
definition MEM_MAX_ALIGN :: u64 where "MEM_MAX_ALIGN = 65536"
definition MEM_MAX_ALLOCS :: nat where "MEM_MAX_ALLOCS = 4096"
definition MEM_NAME_MAX :: nat where "MEM_NAME_MAX = 64"
definition MEM_INVALID_ID :: u32 where "MEM_INVALID_ID = 0xFFFFFFFF"
definition MEM_FLAG_ALL_KNOWN :: u32 where "MEM_FLAG_ALL_KNOWN = 0xF"
definition UINT64_MAX :: u64 where "UINT64_MAX = 0xFFFFFFFFFFFFFFFF"

record att1_aimu_mem_alloc =
  al_id :: u32
  al_tile :: u32
  al_region :: att1_aimu_mem_region_type
  al_dtype :: u8
  al_flags :: u32
  al_base :: u64
  al_size :: u64
  al_align :: u64
  al_name :: string
  al_live :: bool

record att1_aimu_mem_frag =
  fr_capacity_bytes :: u64
  fr_used_bytes :: u64
  fr_free_bytes :: u64
  fr_largest_free_block :: u64
  fr_allocation_count :: u32
  fr_fragmentation_pct :: u32

record att1_aimu_mem =
  m_magic :: u32
  m_tile :: u32
  m_capacity :: u64
  m_next_id :: u32
  m_allocs :: "att1_aimu_mem_alloc list"

section \<open>Helpers\<close>

definition mem_is_pow2 :: "u64 \<Rightarrow> bool" where
  "mem_is_pow2 v \<longleftrightarrow> v \<noteq> 0 \<and> v AND (v - 1) = 0"

definition mem_valid :: "att1_aimu_mem option \<Rightarrow> bool" where
  "mem_valid mp = (case mp of None \<Rightarrow> False | Some m \<Rightarrow> m_magic m = MEM_MAGIC)"

text \<open>
  The insertion sort of \<^verbatim>\<open>collect_live_sorted\<close>. Its inner loop walks the sorted prefix from the
  right, so the prefix is kept reversed.
\<close>

fun insert_key :: "att1_aimu_mem_alloc \<Rightarrow> att1_aimu_mem_alloc list \<Rightarrow> att1_aimu_mem_alloc list" where
  "insert_key key [] = [key]"
| "insert_key key (x # xs) = (if al_base key < al_base x then x # insert_key key xs else key # x # xs)"

definition collect_live_sorted :: "att1_aimu_mem \<Rightarrow> att1_aimu_mem_alloc list" where
  "collect_live_sorted m = rev (fold insert_key (filter al_live (m_allocs m)) [])"

section \<open>Lifecycle\<close>

definition att1_aimu_mem_create ::
  "bool \<Rightarrow> u32 \<Rightarrow> u64 \<Rightarrow> bool \<Rightarrow> att1_status \<times> att1_aimu_mem option" where
  "att1_aimu_mem_create alloc tile_id capacity_bytes out_ok =
     (if \<not> out_ok then (ATT1_ERR_INVALID_ARG, None)
      else if capacity_bytes = 0 then (ATT1_ERR_INVALID_ARG, None)
      else if \<not> alloc then (ATT1_ERR_OOM, None)
      else (ATT1_OK, Some \<lparr>m_magic = MEM_MAGIC, m_tile = tile_id, m_capacity = capacity_bytes,
                          m_next_id = 1, m_allocs = []\<rparr>))"

section \<open>Allocation\<close>

text \<open>
  The first-fit scan. The list holds the sorted records not yet passed; the result is the
  address found or \<^const>\<open>UINT64_MAX\<close>.
\<close>

fun first_fit :: "u64 \<Rightarrow> u64 \<Rightarrow> u64 \<Rightarrow> u64 \<Rightarrow> att1_aimu_mem_alloc list \<Rightarrow> u64" where
  "first_fit cap align sz search_start [] =
     (let candidate = align_up search_start align
      in if candidate < search_start then UINT64_MAX
         else if cap < candidate then UINT64_MAX
         else if sz \<le> cap - candidate then candidate
         else UINT64_MAX)"
| "first_fit cap align sz search_start (a # as) =
     (let candidate = align_up search_start align;
          gap_end = al_base a
      in if candidate < search_start then UINT64_MAX
         else if gap_end < candidate then first_fit cap align sz (al_base a + al_size a) as
         else if sz \<le> gap_end - candidate then candidate
         else first_fit cap align sz (al_base a + al_size a) as)"

text \<open>The result carries the contents of \<^verbatim>\<open>*addr_out\<close> and \<^verbatim>\<open>*id_out\<close> when the call writes them.\<close>

definition att1_aimu_mem_alloc_range ::
  "att1_aimu_mem option \<Rightarrow> int \<Rightarrow> u64 \<Rightarrow> u64 \<Rightarrow> u8 \<Rightarrow> u32 \<Rightarrow> string option
     \<Rightarrow> att1_status \<times> att1_aimu_mem option \<times> (u64 \<times> u32) option" where
  "att1_aimu_mem_alloc_range mp region_type byte_size alignment dtype flags name =
     (case mp of
        None \<Rightarrow> (ATT1_ERR_INVALID_ARG, mp, None)
      | Some m \<Rightarrow>
        (if \<not> mem_valid mp then (ATT1_ERR_INVALID_ARG, mp, None)
         else if byte_size = 0 then (ATT1_ERR_INVALID_ARG, mp, None)
         else
          (case region_of_int region_type of
             None \<Rightarrow> (ATT1_ERR_INVALID_ARG, mp, None)
           | Some rt \<Rightarrow>
             (if flags AND NOT MEM_FLAG_ALL_KNOWN \<noteq> 0 then (ATT1_ERR_INVALID_ARG, mp, None)
              else
               (let alignment = (if alignment = 0 then MEM_MIN_ALIGN else alignment)
                in if \<not> mem_is_pow2 alignment then (ATT1_ERR_INVALID_ARG, mp, None)
                   else if alignment < MEM_MIN_ALIGN then (ATT1_ERR_INVALID_ARG, mp, None)
                   else if MEM_MAX_ALIGN < alignment then (ATT1_ERR_INVALID_ARG, mp, None)
                   else if MEM_MAX_ALLOCS \<le> length (m_allocs m) then (ATT1_ERR_STATE, mp, None)
                   else if m_capacity m < byte_size then (ATT1_ERR_OOM, mp, None)
                   else
                    (let found_addr =
                           first_fit (m_capacity m) alignment byte_size MEM_BASE (collect_live_sorted m)
                     in if found_addr = UINT64_MAX then (ATT1_ERR_OOM, mp, None)
                        else
                         (let rec =
                                \<lparr>al_id = m_next_id m, al_tile = m_tile m, al_region = rt,
                                 al_dtype = dtype, al_flags = flags, al_base = found_addr,
                                 al_size = byte_size, al_align = alignment,
                                 al_name = (case name of None \<Rightarrow> [] | Some s \<Rightarrow> take (MEM_NAME_MAX - 1) s),
                                 al_live = True\<rparr>;
                              m' = m\<lparr>m_next_id := m_next_id m + 1, m_allocs := m_allocs m @ [rec]\<rparr>
                          in (ATT1_OK, Some m', Some (found_addr, al_id rec)))))))))"

text \<open>The search loop of \<^verbatim>\<open>att1_aimu_mem_free\<close>.\<close>

fun free_scan :: "u32 \<Rightarrow> att1_aimu_mem_alloc list \<Rightarrow> att1_status \<times> att1_aimu_mem_alloc list" where
  "free_scan i [] = (ATT1_ERR_NOT_FOUND, [])"
| "free_scan i (a # as) =
     (if al_id a = i then
        (if \<not> al_live a then (ATT1_ERR_STATE, a # as)
         else (ATT1_OK, a\<lparr>al_live := False\<rparr> # as))
      else (let (st, as') = free_scan i as in (st, a # as')))"

definition att1_aimu_mem_free ::
  "att1_aimu_mem option \<Rightarrow> u32 \<Rightarrow> att1_status \<times> att1_aimu_mem option" where
  "att1_aimu_mem_free mp i =
     (case mp of
        None \<Rightarrow> (ATT1_ERR_INVALID_ARG, mp)
      | Some m \<Rightarrow>
        (if \<not> mem_valid mp then (ATT1_ERR_INVALID_ARG, mp)
         else if i = 0 \<or> i = MEM_INVALID_ID then (ATT1_ERR_NOT_FOUND, mp)
         else (let (st, as') = free_scan i (m_allocs m) in (st, Some (m\<lparr>m_allocs := as'\<rparr>)))))"

section \<open>Queries\<close>

definition att1_aimu_mem_query_by_id ::
  "att1_aimu_mem option \<Rightarrow> u32 \<Rightarrow> bool \<Rightarrow> att1_status \<times> att1_aimu_mem_alloc option" where
  "att1_aimu_mem_query_by_id mp i out_ok =
     (case mp of
        None \<Rightarrow> (ATT1_ERR_INVALID_ARG, None)
      | Some m \<Rightarrow>
        (if \<not> mem_valid mp \<or> \<not> out_ok then (ATT1_ERR_INVALID_ARG, None)
         else (case find (\<lambda>a. al_id a = i \<and> al_live a) (m_allocs m) of
                 None \<Rightarrow> (ATT1_ERR_NOT_FOUND, None)
               | Some a \<Rightarrow> (ATT1_OK, Some a))))"

definition att1_aimu_mem_query_by_address ::
  "att1_aimu_mem option \<Rightarrow> u64 \<Rightarrow> bool \<Rightarrow> att1_status \<times> att1_aimu_mem_alloc option" where
  "att1_aimu_mem_query_by_address mp addr out_ok =
     (case mp of
        None \<Rightarrow> (ATT1_ERR_INVALID_ARG, None)
      | Some m \<Rightarrow>
        (if \<not> mem_valid mp \<or> \<not> out_ok then (ATT1_ERR_INVALID_ARG, None)
         else (case find (\<lambda>a. al_live a \<and> al_base a \<le> addr \<and> addr < al_base a + al_size a) (m_allocs m) of
                 None \<Rightarrow> (ATT1_ERR_NOT_FOUND, None)
               | Some a \<Rightarrow> (ATT1_OK, Some a))))"

definition att1_aimu_mem_range_valid :: "att1_aimu_mem option \<Rightarrow> u64 \<Rightarrow> u64 \<Rightarrow> bool" where
  "att1_aimu_mem_range_valid mp addr sz =
     (case mp of
        None \<Rightarrow> False
      | Some m \<Rightarrow>
        (if \<not> mem_valid mp \<or> sz = 0 then False
         else if UINT64_MAX - sz < addr then False
         else (let fin = addr + sz
               in list_ex (\<lambda>a. al_live a \<and> al_base a \<le> addr \<and> fin \<le> al_base a + al_size a) (m_allocs m))))"

section \<open>Accounting\<close>

fun largest_gap :: "u64 \<Rightarrow> u64 \<Rightarrow> u64 \<Rightarrow> att1_aimu_mem_alloc list \<Rightarrow> u64" where
  "largest_gap cap scan_pos largest [] =
     (if scan_pos < cap then (let gap_size = cap - scan_pos in if largest < gap_size then gap_size else largest)
      else largest)"
| "largest_gap cap scan_pos largest (a # as) =
     (let largest' = (if scan_pos < al_base a
                      then (let gap_size = al_base a - scan_pos in if largest < gap_size then gap_size else largest)
                      else largest)
      in largest_gap cap (al_base a + al_size a) largest' as)"

definition att1_aimu_mem_get_frag ::
  "att1_aimu_mem option \<Rightarrow> bool \<Rightarrow> att1_status \<times> att1_aimu_mem_frag option" where
  "att1_aimu_mem_get_frag mp out_ok =
     (case mp of
        None \<Rightarrow> (ATT1_ERR_INVALID_ARG, None)
      | Some m \<Rightarrow>
        (if \<not> mem_valid mp \<or> \<not> out_ok then (ATT1_ERR_INVALID_ARG, None)
         else
          (let sorted = collect_live_sorted m;
               used = fold (\<lambda>a u. u + al_size a) sorted 0;
               free_bytes = (if used < m_capacity m then m_capacity m - used else 0);
               largest = largest_gap (m_capacity m) MEM_BASE 0 sorted;
               pct = (if free_bytes = 0 then 0
                      else if free_bytes \<le> largest then 0
                      else (let fragmented = free_bytes - largest;
                                pct = (fragmented * 100) div free_bytes
                            in if 100 < pct then 100 else ucast pct))
           in (ATT1_OK, Some \<lparr>fr_capacity_bytes = m_capacity m, fr_used_bytes = used,
                 fr_free_bytes = free_bytes, fr_largest_free_block = largest,
                 fr_allocation_count = word_of_nat (length sorted),
                 fr_fragmentation_pct = pct\<rparr>))))"

section \<open>Reset\<close>

definition att1_aimu_mem_reset :: "att1_aimu_mem option \<Rightarrow> att1_status \<times> att1_aimu_mem option" where
  "att1_aimu_mem_reset mp =
     (case mp of
        None \<Rightarrow> (ATT1_ERR_INVALID_ARG, mp)
      | Some m \<Rightarrow>
        (if \<not> mem_valid mp then (ATT1_ERR_INVALID_ARG, mp)
         else (ATT1_OK, Some (m\<lparr>m_allocs := [], m_next_id := 1\<rparr>))))"

end
