(* ===== verification/Aimu_Mem_Inv.thy ===== *)
theory Aimu_Mem_Inv
  imports Aimu_Mem
begin

text \<open>
  Correctness of the tile allocator: the invariant of the record table, the sorted list of live
  records, first-fit as a search for the least free address, and the allocator as an instance
  of the locale \<open>range_allocator\<close>.
\<close>

section \<open>Invariant\<close>

definition al_range :: "att1_aimu_mem_alloc \<Rightarrow> range" where
  "al_range a = (unat (al_base a), unat (al_size a))"

abbreviation al_end :: "att1_aimu_mem_alloc \<Rightarrow> nat" where
  "al_end a \<equiv> unat (al_base a) + unat (al_size a)"

definition align_ok :: "u64 \<Rightarrow> bool" where
  "align_ok al \<longleftrightarrow> mem_is_pow2 al \<and> MEM_MIN_ALIGN \<le> al \<and> al \<le> MEM_MAX_ALIGN"

definition alloc_wf :: "att1_aimu_mem \<Rightarrow> att1_aimu_mem_alloc \<Rightarrow> bool" where
  "alloc_wf m a \<longleftrightarrow> al_size a \<noteq> 0 \<and> al_end a \<le> unat (m_capacity m) \<and> align_ok (al_align a)
     \<and> unat (al_align a) dvd unat (al_base a) \<and> al_flags a AND NOT MEM_FLAG_ALL_KNOWN = 0
     \<and> length (al_name a) < MEM_NAME_MAX \<and> al_tile a = m_tile m"

definition mem_inv :: "att1_aimu_mem \<Rightarrow> bool" where
  "mem_inv m \<longleftrightarrow> m_magic m = MEM_MAGIC \<and> length (m_allocs m) \<le> MEM_MAX_ALLOCS
     \<and> m_next_id m = word_of_nat (Suc (length (m_allocs m)))
     \<and> map al_id (m_allocs m) = map (\<lambda>i. word_of_nat (Suc i)) [0..<length (m_allocs m)]
     \<and> (\<forall>a \<in> set (m_allocs m). alloc_wf m a)
     \<and> (\<forall>a \<in> set (m_allocs m). \<forall>b \<in> set (m_allocs m).
          al_live a \<longrightarrow> al_live b \<longrightarrow> al_id a \<noteq> al_id b \<longrightarrow> apart (al_range a) (al_range b))"

lemma mem_pow2_iff: "mem_is_pow2 n \<longleftrightarrow> (\<exists>k < 64. n = 2 ^ k)"
  using pow2_word_iff [of n] by (simp add: mem_is_pow2_def)

lemma align_okE:
  assumes "align_ok al"
  obtains k where "1 \<le> k" "k < 64" "al = 2 ^ k"
proof -
  obtain k where k: "k < 64" "al = 2 ^ k"
    using assms by (auto simp: align_ok_def mem_pow2_iff)
  have "k \<noteq> 0"
  proof
    assume "k = 0"
    with assms k(2) show False by (simp add: align_ok_def MEM_MIN_ALIGN_def word_le_nat_alt)
  qed
  with k that [of k] show ?thesis by simp
qed

lemma mem_inv_distinct:
  assumes "mem_inv m"
  shows "distinct (map al_id (m_allocs m))"
proof -
  have "inj_on (\<lambda>i. word_of_nat (Suc i) :: u32) {0..<length (m_allocs m)}"
  proof (rule inj_onI)
    fix i j assume ij: "i \<in> {0..<length (m_allocs m)}" "j \<in> {0..<length (m_allocs m)}"
      and e: "(word_of_nat (Suc i) :: u32) = word_of_nat (Suc j)"
    have "Suc i < 2 ^ 32" "Suc j < 2 ^ 32"
      using ij assms by (simp_all add: mem_inv_def MEM_MAX_ALLOCS_def)
    then have "unat (word_of_nat (Suc i) :: u32) = Suc i" "unat (word_of_nat (Suc j) :: u32) = Suc j"
      by (simp_all add: unsigned_of_nat take_bit_nat_eq_self del: of_nat_Suc)
    then show "i = j" by (metis e nat.inject)
  qed
  then show ?thesis
    using assms by (simp add: mem_inv_def distinct_map)
qed

lemma mem_inv_id_unique:
  assumes "mem_inv m" "a \<in> set (m_allocs m)" "b \<in> set (m_allocs m)" "al_id a = al_id b"
  shows "a = b"
  using mem_inv_distinct [OF assms(1)] assms(2-) by (auto simp: distinct_map dest: inj_onD)

lemma mem_inv_apart:
  assumes "mem_inv m" "a \<in> set (m_allocs m)" "b \<in> set (m_allocs m)" "al_live a" "al_live b" "a \<noteq> b"
  shows "apart (al_range a) (al_range b)"
  using assms mem_inv_id_unique [OF assms(1-3)] by (auto simp: mem_inv_def)

lemma mem_inv_wf: "mem_inv m \<Longrightarrow> a \<in> set (m_allocs m) \<Longrightarrow> alloc_wf m a"
  by (simp add: mem_inv_def)

lemma mem_inv_valid: "mem_inv m \<Longrightarrow> mem_valid (Some m)"
  by (simp add: mem_inv_def mem_valid_def)

section \<open>The sorted list of live records\<close>

definition descending :: "att1_aimu_mem_alloc list \<Rightarrow> bool" where
  "descending as \<longleftrightarrow> sorted_wrt (\<lambda>a b. al_end b \<le> unat (al_base a)) as"

definition ascending :: "att1_aimu_mem_alloc list \<Rightarrow> bool" where
  "ascending as \<longleftrightarrow> sorted_wrt (\<lambda>a b. al_end a \<le> unat (al_base b)) as"

lemma ascending_rev: "ascending (rev as) = descending as"
  by (simp add: ascending_def descending_def sorted_wrt_rev)

lemma set_insert_key [simp]: "set (insert_key k as) = insert k (set as)"
  by (induction as) auto

lemma length_insert_key [simp]: "length (insert_key k as) = Suc (length as)"
  by (induction as) auto

lemma insert_key_descending:
  assumes "descending as" "al_size k \<noteq> 0" "\<forall>a \<in> set as. apart (al_range k) (al_range a)"
    "\<forall>a \<in> set as. al_size a \<noteq> 0"
  shows "descending (insert_key k as)"
  using assms
proof (induction as)
  case Nil
  then show ?case by (simp add: descending_def)
next
  case (Cons x xs)
  have sz: "0 < unat (al_size k)" "0 < unat (al_size x)" using Cons.prems by (simp_all add: unat_gt_0)
  have ap: "al_end k \<le> unat (al_base x) \<or> al_end x \<le> unat (al_base k)"
    using Cons.prems by (simp add: apart_def al_range_def)
  show ?case
  proof (cases "al_base k < al_base x")
    case True
    then have "al_end k \<le> unat (al_base x)" using ap sz by (simp add: word_less_nat_alt)
    then show ?thesis using Cons True by (simp add: descending_def)
  next
    case False
    then have le: "al_end x \<le> unat (al_base k)" using ap sz by (simp add: word_less_nat_alt)
    moreover have "al_end y \<le> unat (al_base k)" if "y \<in> set xs" for y
    proof -
      have "al_end y \<le> unat (al_base x)" using Cons.prems(1) that by (simp add: descending_def)
      with le show ?thesis by linarith
    qed
    ultimately show ?thesis using Cons.prems(1) False by (simp add: descending_def)
  qed
qed

lemma fold_insert_key:
  assumes "distinct ks" "\<forall>k \<in> set ks. al_size k \<noteq> 0"
    and "\<forall>a \<in> set ks \<union> set as. \<forall>b \<in> set ks \<union> set as. a \<noteq> b \<longrightarrow> apart (al_range a) (al_range b)"
    and "descending as" "set ks \<inter> set as = {}" "\<forall>a \<in> set as. al_size a \<noteq> 0"
  shows "descending (fold insert_key ks as) \<and> set (fold insert_key ks as) = set ks \<union> set as
    \<and> length (fold insert_key ks as) = length ks + length as"
  using assms
proof (induction ks arbitrary: as)
  case Nil
  then show ?case by simp
next
  case (Cons k ks)
  have "\<forall>a \<in> set as. apart (al_range k) (al_range a)"
    using Cons.prems(3,5) by auto
  then have d: "descending (insert_key k as)"
    using Cons.prems by (intro insert_key_descending) simp_all
  have "descending (fold insert_key ks (insert_key k as))
    \<and> set (fold insert_key ks (insert_key k as)) = set ks \<union> set (insert_key k as)
    \<and> length (fold insert_key ks (insert_key k as)) = length ks + length (insert_key k as)"
    using Cons.prems d by (intro Cons.IH) auto
  then show ?case by simp
qed

lemma collect_live_sorted:
  assumes "mem_inv m"
  shows "ascending (collect_live_sorted m)"
    "set (collect_live_sorted m) = {a \<in> set (m_allocs m). al_live a}"
    "length (collect_live_sorted m) = length (filter al_live (m_allocs m))"
proof -
  let ?ks = "filter al_live (m_allocs m)"
  have "descending (fold insert_key ?ks []) \<and> set (fold insert_key ?ks []) = set ?ks \<union> set []
    \<and> length (fold insert_key ?ks []) = length ?ks + length ([] :: att1_aimu_mem_alloc list)"
  proof (intro fold_insert_key)
    show "distinct ?ks"
      using mem_inv_distinct [OF assms] by (auto simp: distinct_map intro: distinct_filter)
    show "\<forall>k \<in> set ?ks. al_size k \<noteq> 0"
      using mem_inv_wf [OF assms] by (auto simp: alloc_wf_def)
    show "\<forall>a \<in> set ?ks \<union> set []. \<forall>b \<in> set ?ks \<union> set []. a \<noteq> b \<longrightarrow> apart (al_range a) (al_range b)"
      using mem_inv_apart [OF assms] by auto
  qed (simp_all add: descending_def)
  then show "ascending (collect_live_sorted m)"
    "set (collect_live_sorted m) = {a \<in> set (m_allocs m). al_live a}"
    "length (collect_live_sorted m) = length (filter al_live (m_allocs m))"
    by (auto simp: collect_live_sorted_def ascending_rev)
qed

section \<open>First fit\<close>

text \<open>\<open>fits\<close>: an aligned address from \<open>start\<close> on at which \<open>sz\<close> bytes are free.\<close>

definition fits :: "nat \<Rightarrow> nat \<Rightarrow> nat \<Rightarrow> nat \<Rightarrow> att1_aimu_mem_alloc set \<Rightarrow> nat \<Rightarrow> bool" where
  "fits cap align sz start A x \<longleftrightarrow> start \<le> x \<and> align dvd x \<and> x + sz \<le> cap
     \<and> (\<forall>a \<in> A. apart (x, sz) (al_range a))"

definition least_fit :: "nat \<Rightarrow> nat \<Rightarrow> nat \<Rightarrow> nat \<Rightarrow> att1_aimu_mem_alloc set \<Rightarrow> u64 \<Rightarrow> bool" where
  "least_fit cap align sz start A r \<longleftrightarrow>
     (if r = UINT64_MAX then \<forall>x. \<not> fits cap align sz start A x
      else fits cap align sz start A (unat r)
        \<and> (\<forall>x. fits cap align sz start A x \<longrightarrow> unat r \<le> x))"

lemma aligned_not_max:
  fixes r :: u64
  assumes "1 \<le> k" "2 ^ k dvd unat r"
  shows "r \<noteq> UINT64_MAX"
proof
  assume "r = UINT64_MAX"
  moreover have "(2::nat) dvd 2 ^ k" using assms(1) by (intro dvd_power) simp
  with assms(2) have "even (unat r)" by (rule dvd_trans [rotated])
  ultimately show False by (simp add: UINT64_MAX_def)
qed

lemma no_fit_on_wrap:
  assumes "k < 64" "2 ^ 64 \<le> start + 2 ^ k - 1" "cap < 2 ^ 64"
  shows "\<not> fits cap (2 ^ k) sz start A x"
proof
  assume f: "fits cap (2 ^ k) sz start A x"
  then have x: "start \<le> x" "2 ^ k dvd x" "x < 2 ^ 64"
    using assms(3) by (simp_all add: fits_def)
  obtain q where q: "x = 2 ^ k * q" using x(2) by (auto elim: dvdE)
  have e: "(2::nat) ^ 64 = 2 ^ k * 2 ^ (64 - k)"
    using assms(1) by (simp only: flip: power_add) simp
  have "q < 2 ^ (64 - k)" using x(3) unfolding q e by simp
  then have "2 ^ k * (q + 1) \<le> (2::nat) ^ 64" unfolding e by (intro mult_le_mono2) simp
  then have "x + 2 ^ k \<le> 2 ^ 64" by (simp add: q algebra_simps)
  moreover have "(0::nat) < 2 ^ 64" by simp
  ultimately show False using assms(2) x(1) by linarith
qed

lemma align_up_cases:
  assumes "k < 64"
  obtains "2 ^ 64 \<le> unat s + 2 ^ k - 1" "align_up s (2 ^ k) < s"
  | "\<not> align_up s (2 ^ k) < s" "unat (align_up s (2 ^ k)) = round_up (unat s) (2 ^ k)"
proof (cases "unat s + 2 ^ k - 1 < 2 ^ 64")
  case True
  have "unat s \<le> round_up (unat s) (2 ^ k)" by (rule round_up_least) simp
  then show ?thesis
    using that(2) align_up_no_wrap [OF assms True] by (simp add: word_less_nat_alt)
next
  case False
  then show ?thesis using that(1) align_up_wrap [OF assms] by simp
qed

lemma fits_candidate:
  assumes "0 < d" "fits cap d sz start A x"
  shows "round_up start d \<le> x"
  using assms round_up_least(3) by (simp add: fits_def)

lemma first_fit_least:
  assumes "1 \<le> k" "k < 64" "sz \<noteq> 0" "ascending as"
    and "\<forall>a \<in> set as. unat s \<le> unat (al_base a) \<and> al_end a \<le> unat cap \<and> al_size a \<noteq> 0"
  shows "least_fit (unat cap) (2 ^ k) (unat sz) (unat s) (set as) (first_fit cap (2 ^ k) sz s as)"
  using assms(4,5)
proof (induction as arbitrary: s)
  case Nil
  have cap: "unat cap < 2 ^ 64" using unat_lt_size [of cap] by simp
  show ?case
  proof (cases rule: align_up_cases [OF assms(2), of s])
    case 1
    then show ?thesis
      using no_fit_on_wrap [OF assms(2) 1(1) cap] by (simp add: least_fit_def)
  next
    case 2
    let ?c = "align_up s (2 ^ k)"
    have c: "unat s \<le> unat ?c" "2 ^ k dvd unat ?c" "\<And>x. fits (unat cap) (2 ^ k) (unat sz) (unat s) {} x \<Longrightarrow> unat ?c \<le> x"
      using 2(2) round_up_least [of "2 ^ k" "unat s"] fits_candidate [of "2 ^ k"] by simp_all
    have nm: "?c \<noteq> UINT64_MAX" by (rule aligned_not_max [OF assms(1) c(2)])
    have iff: "(\<not> cap < ?c \<and> sz \<le> cap - ?c) \<longleftrightarrow> unat ?c + unat sz \<le> unat cap"
      using assms(3) by (auto simp: word_less_nat_alt word_le_nat_alt unat_sub_if')
    show ?thesis
    proof (cases "unat ?c + unat sz \<le> unat cap")
      case True
      then show ?thesis using 2 c nm iff by (auto simp: least_fit_def fits_def Let_def)
    next
      case False
      then have "\<not> fits (unat cap) (2 ^ k) (unat sz) (unat s) {} x" for x
        using c(3) [of x] by (auto simp: fits_def)
      moreover have "first_fit cap (2 ^ k) sz s [] = UINT64_MAX"
        using False iff by (auto simp: Let_def)
      ultimately show ?thesis by (simp add: least_fit_def)
    qed
  qed
next
  case (Cons a as)
  have cap: "unat cap < 2 ^ 64" using unat_lt_size [of cap] by simp
  let ?e = "al_base a + al_size a"
  have a: "unat s \<le> unat (al_base a)" "al_end a \<le> unat cap" "0 < unat (al_size a)"
    using Cons.prems(2) by (simp_all add: unat_gt_0)
  have e: "unat ?e = al_end a" using a(2) cap by (intro unat_add_no_wrap) simp
  have asc: "ascending as" "\<forall>b \<in> set as. al_end a \<le> unat (al_base b)"
    using Cons.prems(1) by (simp_all add: ascending_def)
  have IH: "least_fit (unat cap) (2 ^ k) (unat sz) (al_end a) (set as)
      (first_fit cap (2 ^ k) sz ?e as)"
    using Cons.IH [of ?e] asc Cons.prems(2) e by simp
  show ?case
  proof (cases rule: align_up_cases [OF assms(2), of s])
    case 1
    then show ?thesis
      using no_fit_on_wrap [OF assms(2) 1(1) cap] by (simp add: least_fit_def)
  next
    case 2
    let ?c = "align_up s (2 ^ k)"
    let ?fits = "fits (unat cap) (2 ^ k) (unat sz) (unat s) (set (a # as))"
    have c: "unat s \<le> unat ?c" "2 ^ k dvd unat ?c" "\<And>x. ?fits x \<Longrightarrow> unat ?c \<le> x"
      using 2(2) round_up_least [of "2 ^ k" "unat s"] fits_candidate [of "2 ^ k"] by simp_all
    have nm: "?c \<noteq> UINT64_MAX" by (rule aligned_not_max [OF assms(1) c(2)])
    have iff: "(\<not> al_base a < ?c \<and> sz \<le> al_base a - ?c) \<longleftrightarrow> unat ?c + unat sz \<le> unat (al_base a)"
      using assms(3) by (auto simp: word_less_nat_alt word_le_nat_alt unat_sub_if')
    show ?thesis
    proof (cases "unat ?c + unat sz \<le> unat (al_base a)")
      case True
      have "apart (unat ?c, unat sz) (al_range b)" if b: "b \<in> set (a # as)" for b
      proof -
        have "unat (al_base a) \<le> unat (al_base b)" using b asc(2) by fastforce
        with True show ?thesis by (simp add: apart_def al_range_def)
      qed
      then have "?fits (unat ?c)" using c True a(2) by (auto simp: fits_def)
      then show ?thesis using 2 c nm iff True by (auto simp: least_fit_def Let_def)
    next
      case False
      have "?fits x \<longleftrightarrow> fits (unat cap) (2 ^ k) (unat sz) (al_end a) (set as) x" for x
        using c(3) [of x] False a by (auto simp: fits_def apart_def al_range_def)
      moreover have "first_fit cap (2 ^ k) sz s (a # as) = first_fit cap (2 ^ k) sz ?e as"
        using 2(1) iff False by (auto simp: Let_def)
      ultimately show ?thesis using IH by (simp add: least_fit_def del: first_fit.simps)
    qed
  qed
qed

section \<open>Allocation\<close>

definition eff_align :: "u64 \<Rightarrow> u64" where
  "eff_align al = (if al = 0 then MEM_MIN_ALIGN else al)"

definition alloc_args_ok :: "int \<Rightarrow> u64 \<Rightarrow> u64 \<Rightarrow> u32 \<Rightarrow> bool" where
  "alloc_args_ok rt sz al flags \<longleftrightarrow> sz \<noteq> 0 \<and> 0 \<le> rt \<and> rt < 9 \<and> flags AND NOT MEM_FLAG_ALL_KNOWN = 0
     \<and> align_ok (eff_align al)"

definition new_record ::
  "att1_aimu_mem \<Rightarrow> int \<Rightarrow> u64 \<Rightarrow> u64 \<Rightarrow> u8 \<Rightarrow> u32 \<Rightarrow> string option \<Rightarrow> u64 \<Rightarrow> att1_aimu_mem_alloc" where
  "new_record m rt sz al dtype flags name addr =
     \<lparr>al_id = m_next_id m, al_tile = m_tile m, al_region = the (region_of_int rt), al_dtype = dtype,
      al_flags = flags, al_base = addr, al_size = sz, al_align = eff_align al,
      al_name = (case name of None \<Rightarrow> [] | Some s \<Rightarrow> take (MEM_NAME_MAX - 1) s), al_live = True\<rparr>"

definition push_record :: "att1_aimu_mem_alloc \<Rightarrow> att1_aimu_mem \<Rightarrow> att1_aimu_mem" where
  "push_record r m = m\<lparr>m_next_id := m_next_id m + 1, m_allocs := m_allocs m @ [r]\<rparr>"

lemma region_of_int_iff: "region_of_int rt = None \<longleftrightarrow> \<not> (0 \<le> rt \<and> rt < 9)"
  by (auto simp: region_of_int_def all_region_types_def)

text \<open>The call on its branches.\<close>

lemma alloc_range_unfold:
  assumes "mem_inv m"
  shows "att1_aimu_mem_alloc_range (Some m) rt sz al dtype flags name =
    (if \<not> alloc_args_ok rt sz al flags then (ATT1_ERR_INVALID_ARG, Some m, None)
     else if length (m_allocs m) = MEM_MAX_ALLOCS then (ATT1_ERR_STATE, Some m, None)
     else (let addr = first_fit (m_capacity m) (eff_align al) sz MEM_BASE (collect_live_sorted m)
           in if m_capacity m < sz \<or> addr = UINT64_MAX then (ATT1_ERR_OOM, Some m, None)
              else (ATT1_OK, Some (push_record (new_record m rt sz al dtype flags name addr) m),
                    Some (addr, m_next_id m))))"
proof -
  have l: "MEM_MAX_ALLOCS \<le> length (m_allocs m) \<longleftrightarrow> length (m_allocs m) = MEM_MAX_ALLOCS"
    using assms by (auto simp: mem_inv_def)
  have e: "(if al = 0 then MEM_MIN_ALIGN else al) = eff_align al" by (simp add: eff_align_def)
  show ?thesis
  proof (cases "alloc_args_ok rt sz al flags")
    case True
    then have a: "sz \<noteq> 0" "flags AND NOT MEM_FLAG_ALL_KNOWN = 0" "mem_is_pow2 (eff_align al)"
      "\<not> eff_align al < MEM_MIN_ALIGN" "\<not> MEM_MAX_ALIGN < eff_align al"
      by (simp_all add: alloc_args_ok_def align_ok_def not_less)
    obtain r where r: "region_of_int rt = Some r"
      using True region_of_int_iff [of rt] by (auto simp: alloc_args_ok_def)
    show ?thesis
      unfolding att1_aimu_mem_alloc_range_def e Let_def
      using a True mem_inv_valid [OF assms] by (simp add: r l new_record_def push_record_def)
  next
    case False
    then consider "sz = 0" | "region_of_int rt = None" | "flags AND NOT MEM_FLAG_ALL_KNOWN \<noteq> 0"
      | "\<not> mem_is_pow2 (eff_align al)" | "eff_align al < MEM_MIN_ALIGN" | "MEM_MAX_ALIGN < eff_align al"
      unfolding alloc_args_ok_def align_ok_def region_of_int_iff not_less [symmetric] by blast
    then have "att1_aimu_mem_alloc_range (Some m) rt sz al dtype flags name
        = (ATT1_ERR_INVALID_ARG, Some m, None)"
      unfolding att1_aimu_mem_alloc_range_def e Let_def
      by cases (simp_all split: option.split)
    with False show ?thesis by simp
  qed
qed

text \<open>Free space of an allocator: an aligned address at which \<open>sz\<close> bytes can be placed.\<close>

definition mem_fits :: "att1_aimu_mem \<Rightarrow> u64 \<Rightarrow> u64 \<Rightarrow> nat \<Rightarrow> bool" where
  "mem_fits m al sz x \<longleftrightarrow> unat (eff_align al) dvd x \<and> x + unat sz \<le> unat (m_capacity m)
     \<and> (\<forall>a \<in> set (m_allocs m). al_live a \<longrightarrow> apart (x, unat sz) (al_range a))"

lemma first_fit_mem:
  assumes "mem_inv m" "align_ok (eff_align al)" "sz \<noteq> 0"
  defines "addr \<equiv> first_fit (m_capacity m) (eff_align al) sz MEM_BASE (collect_live_sorted m)"
  shows "if addr = UINT64_MAX then \<forall>x. \<not> mem_fits m al sz x
    else mem_fits m al sz (unat addr) \<and> (\<forall>x. mem_fits m al sz x \<longrightarrow> unat addr \<le> x)"
proof -
  obtain k where k: "1 \<le> k" "k < 64" "eff_align al = 2 ^ k"
    using assms(2) by (rule align_okE)
  note c = collect_live_sorted [OF assms(1)]
  have "least_fit (unat (m_capacity m)) (2 ^ k) (unat sz) (unat MEM_BASE)
      (set (collect_live_sorted m)) addr"
    unfolding addr_def k(3)
    using c(1) c(2) mem_inv_wf [OF assms(1)]
    by (intro first_fit_least k assms(3)) (auto simp: alloc_wf_def MEM_BASE_def)
  moreover have "fits (unat (m_capacity m)) (2 ^ k) (unat sz) (unat MEM_BASE)
      (set (collect_live_sorted m)) x \<longleftrightarrow> mem_fits m al sz x" for x
    using k by (auto simp: fits_def mem_fits_def c(2) MEM_BASE_def unat_pow2)
  ultimately show ?thesis by (simp add: least_fit_def split: if_splits)
qed

lemma no_fit_too_big: "m_capacity m < sz \<Longrightarrow> \<not> mem_fits m al sz x"
  by (simp add: mem_fits_def word_less_nat_alt)

lemma push_record_inv:
  assumes "mem_inv m" "alloc_args_ok rt sz al flags" "length (m_allocs m) \<noteq> MEM_MAX_ALLOCS"
    and "mem_fits m al sz (unat addr)"
  shows "mem_inv (push_record (new_record m rt sz al dtype flags name addr) m)"
proof -
  let ?r = "new_record m rt sz al dtype flags name addr"
  let ?m = "push_record ?r m"
  have wf: "alloc_wf ?m a \<longleftrightarrow> alloc_wf m a" for a
    by (simp add: alloc_wf_def push_record_def)
  have r: "alloc_wf m ?r" "al_id ?r = m_next_id m"
    using assms(2,4)
    by (simp_all add: alloc_wf_def new_record_def alloc_args_ok_def mem_fits_def MEM_NAME_MAX_def
        min_less_iff_disj split: option.split)
  have ap: "apart (al_range ?r) (al_range a)" if "a \<in> set (m_allocs m)" "al_live a" for a
    using assms(4) that by (simp add: mem_fits_def al_range_def new_record_def)
  have ap': "apart (al_range a) (al_range ?r)" if "a \<in> set (m_allocs m)" "al_live a" for a
    using ap [OF that] by (rule apart_sym)
  have l: "length (m_allocs m) < MEM_MAX_ALLOCS"
    using assms(1,3) by (simp add: mem_inv_def)
  show ?thesis
    unfolding mem_inv_def
  proof (intro conjI)
    show "m_magic ?m = MEM_MAGIC" using assms(1) by (simp add: mem_inv_def push_record_def)
    show "length (m_allocs ?m) \<le> MEM_MAX_ALLOCS" using l by (simp add: push_record_def)
    show "m_next_id ?m = word_of_nat (Suc (length (m_allocs ?m)))"
      using assms(1) by (simp add: mem_inv_def push_record_def)
    show "map al_id (m_allocs ?m) = map (\<lambda>i. word_of_nat (Suc i)) [0..<length (m_allocs ?m)]"
      using assms(1) r(2) by (simp add: mem_inv_def push_record_def)
    show "\<forall>a \<in> set (m_allocs ?m). alloc_wf ?m a"
      unfolding wf using mem_inv_wf [OF assms(1)] r(1) by (auto simp: push_record_def)
    show "\<forall>a \<in> set (m_allocs ?m). \<forall>b \<in> set (m_allocs ?m). al_live a \<longrightarrow> al_live b \<longrightarrow>
        al_id a \<noteq> al_id b \<longrightarrow> apart (al_range a) (al_range b)"
      using mem_inv_apart [OF assms(1)] ap ap' by (auto simp: push_record_def)
  qed
qed

section \<open>Release\<close>

lemma free_scan_records:
  assumes "free_scan i as = (st, as')"
  shows "list_all2 (\<lambda>a a'. a' = a \<or> st = ATT1_OK \<and> al_id a = i \<and> al_live a \<and> a' = a\<lparr>al_live := False\<rparr>) as as'"
  using assms
proof (induction as arbitrary: as' st)
  case Nil
  then show ?case by simp
next
  case (Cons a as)
  show ?case
  proof (cases "al_id a = i")
    case True
    then show ?thesis
      using Cons.prems by (auto split: if_splits simp: list.rel_refl intro!: list.rel_refl)
  next
    case False
    then show ?thesis
      using Cons.prems Cons.IH by (auto split: prod.splits)
  qed
qed

lemma free_scan_ids: "free_scan i as = (st, as') \<Longrightarrow> map al_id as' = map al_id as"
proof (induction as arbitrary: as' st)
  case (Cons a as)
  then show ?case by (auto split: if_splits prod.splits)
qed simp

lemma free_scan_status:
  "distinct (map al_id as) \<Longrightarrow> fst (free_scan i as) =
     (case find (\<lambda>a. al_id a = i) as of
        None \<Rightarrow> ATT1_ERR_NOT_FOUND
      | Some a \<Rightarrow> if al_live a then ATT1_OK else ATT1_ERR_STATE)"
  by (induction as) (auto split: prod.splits)

lemma free_scan_not_ok: "free_scan i as = (st, as') \<Longrightarrow> st \<noteq> ATT1_OK \<Longrightarrow> as' = as"
  by (induction as arbitrary: as' st) (auto split: if_splits prod.splits)

lemma free_scan_member:
  assumes "free_scan i as = (st, as')" "a' \<in> set as'"
  obtains a where "a \<in> set as" "al_id a' = al_id a" "al_range a' = al_range a"
    "al_live a' \<Longrightarrow> a' = a" "alloc_wf m a' = alloc_wf m a"
proof -
  from free_scan_records [OF assms(1)] assms(2)
  obtain k where k: "k < length as" "as' ! k = a'"
      "as' ! k = as ! k \<or> as' ! k = (as ! k)\<lparr>al_live := False\<rparr>"
    unfolding list_all2_conv_all_nth in_set_conv_nth by metis
  show ?thesis
    using k by (intro that [of "as ! k"]) (auto simp: al_range_def alloc_wf_def)
qed

lemma free_inv:
  assumes "mem_inv m" "free_scan i (m_allocs m) = (st, as')"
  shows "mem_inv (m\<lparr>m_allocs := as'\<rparr>)"
proof -
  have ids: "map al_id as' = map al_id (m_allocs m)" by (rule free_scan_ids [OF assms(2)])
  then have len: "length as' = length (m_allocs m)" by (metis length_map)
  have wf: "alloc_wf (m\<lparr>m_allocs := as'\<rparr>) a = alloc_wf m a" for a by (simp add: alloc_wf_def)
  have "alloc_wf m a'" if "a' \<in> set as'" for a'
    by (rule free_scan_member [OF assms(2) that, of m]) (simp add: mem_inv_wf [OF assms(1)])
  moreover have "apart (al_range a') (al_range b')"
    if ab: "a' \<in> set as'" "b' \<in> set as'" "al_live a'" "al_live b'" "al_id a' \<noteq> al_id b'" for a' b'
  proof -
    have "a' \<in> set (m_allocs m)" by (rule free_scan_member [OF assms(2) ab(1), of m]) (simp add: ab(3))
    moreover have "b' \<in> set (m_allocs m)"
      by (rule free_scan_member [OF assms(2) ab(2), of m]) (simp add: ab(4))
    ultimately show ?thesis using ab assms(1) by (simp add: mem_inv_def)
  qed
  ultimately show ?thesis
    using assms(1) ids len by (simp add: mem_inv_def wf)
qed

end
