(* ===== verification/Aimu_Mem_Props.thy ===== *)
theory Aimu_Mem_Props
  imports Aimu_Mem_Inv
begin

text \<open>
  The tile allocator as an instance of the locale \<open>range_allocator\<close>, its reachable states, the
  fragmentation report, and the properties of the component with their concrete runs.
\<close>

section \<open>Live allocations as a map\<close>

definition mem_live :: "att1_aimu_mem \<Rightarrow> u32 \<rightharpoonup> range" where
  "mem_live m i = map_option al_range (find (\<lambda>a. al_live a \<and> al_id a = i) (m_allocs m))"

lemma mem_live_iff:
  assumes "mem_inv m"
  shows "mem_live m i = Some r \<longleftrightarrow> (\<exists>a \<in> set (m_allocs m). al_live a \<and> al_id a = i \<and> r = al_range a)"
proof
  assume "mem_live m i = Some r"
  then obtain a where "find (\<lambda>a. al_live a \<and> al_id a = i) (m_allocs m) = Some a" "r = al_range a"
    by (auto simp: mem_live_def)
  then show "\<exists>a \<in> set (m_allocs m). al_live a \<and> al_id a = i \<and> r = al_range a"
    by (auto simp: find_Some_iff)
next
  assume "\<exists>a \<in> set (m_allocs m). al_live a \<and> al_id a = i \<and> r = al_range a"
  then obtain a where a: "a \<in> set (m_allocs m)" "al_live a" "al_id a = i" "r = al_range a" by blast
  then obtain b where b: "find (\<lambda>a. al_live a \<and> al_id a = i) (m_allocs m) = Some b"
    by (cases "find (\<lambda>a. al_live a \<and> al_id a = i) (m_allocs m)") (auto simp: find_None_iff)
  then have "b \<in> set (m_allocs m)" "al_id b = i" by (auto simp: find_Some_iff)
  with a have "b = a" using mem_inv_id_unique [OF assms] by metis
  with b a show "mem_live m i = Some r" by (simp add: mem_live_def)
qed

lemma mem_live_None_iff:
  assumes "mem_inv m"
  shows "mem_live m i = None \<longleftrightarrow> (\<forall>a \<in> set (m_allocs m). al_live a \<longrightarrow> al_id a \<noteq> i)"
  by (auto simp: mem_live_def find_None_iff)

lemma mem_placed:
  assumes "mem_inv m"
  shows "placed (unat (m_capacity m)) (mem_live m)"
  unfolding placed_def
proof (intro conjI allI impI)
  have "dom (mem_live m) \<subseteq> al_id ` set (m_allocs m)"
    using mem_live_iff [OF assms] by (auto simp: dom_def)
  then show "finite (dom (mem_live m))" by (rule finite_subset) simp
  fix i r assume "mem_live m i = Some r"
  then obtain a where "a \<in> set (m_allocs m)" "r = al_range a"
    using mem_live_iff [OF assms] by blast
  then show "0 < snd r" "fst r + snd r \<le> unat (m_capacity m)"
    using mem_inv_wf [OF assms] by (auto simp: alloc_wf_def al_range_def unat_gt_0)
next
  fix i j r s assume "mem_live m i = Some r" "mem_live m j = Some s" "i \<noteq> j"
  then obtain a b where "a \<in> set (m_allocs m)" "al_live a" "al_id a = i" "r = al_range a"
    "b \<in> set (m_allocs m)" "al_live b" "al_id b = j" "s = al_range b"
    using mem_live_iff [OF assms] by metis
  with \<open>i \<noteq> j\<close> show "apart r s" using mem_inv_apart [OF assms, of a b] by auto
qed

lemma mem_live_push:
  assumes "mem_inv m" "mem_inv (push_record r m)" "al_live r"
  shows "mem_live (push_record r m) = (mem_live m)(al_id r \<mapsto> al_range r)"
    and "al_id r \<notin> dom (mem_live m)"
proof -
  have new: "al_id a \<noteq> al_id r" if "a \<in> set (m_allocs m)" for a
    using mem_inv_distinct [OF assms(2)] that by (auto simp: push_record_def image_iff)
  then show "al_id r \<notin> dom (mem_live m)"
    using mem_live_None_iff [OF assms(1)] by (auto simp: domIff)
  show "mem_live (push_record r m) = (mem_live m)(al_id r \<mapsto> al_range r)"
  proof
    fix i
    show "mem_live (push_record r m) i = ((mem_live m)(al_id r \<mapsto> al_range r)) i"
    proof (cases "i = al_id r")
      case True
      then have "mem_live (push_record r m) i = Some (al_range r)"
        using assms(3) mem_live_iff [OF assms(2)] by (auto simp: push_record_def)
      with True show ?thesis by simp
    next
      case False
      then have "mem_live (push_record r m) i = Some x \<longleftrightarrow> mem_live m i = Some x" for x
        using mem_live_iff [OF assms(1)] mem_live_iff [OF assms(2)] by (auto simp: push_record_def)
      with False show ?thesis
        by (cases "mem_live m i"; cases "mem_live (push_record r m) i") auto
    qed
  qed
qed

lemma free_scan_ok:
  assumes "free_scan i as = (ATT1_OK, as')"
  shows "\<exists>us a vs. as = us @ a # vs \<and> al_id a = i \<and> al_live a
    \<and> as' = us @ a\<lparr>al_live := False\<rparr> # vs"
  using assms
proof (induction as arbitrary: as')
  case (Cons a as)
  show ?case
  proof (cases "al_id a = i")
    case True
    then show ?thesis using Cons.prems by (intro exI [of _ "[]"]) (auto split: if_splits)
  next
    case False
    then obtain as1 where "free_scan i as = (ATT1_OK, as1)" "as' = a # as1"
      using Cons.prems by (auto split: prod.splits)
    with Cons.IH show ?thesis by (metis append_Cons)
  qed
qed simp

lemma mem_live_free:
  assumes "mem_inv m" "free_scan i (m_allocs m) = (ATT1_OK, as')"
  shows "mem_live (m\<lparr>m_allocs := as'\<rparr>) = (mem_live m)(i := None)"
    and "i \<in> dom (mem_live m)"
proof -
  obtain us a vs where s: "m_allocs m = us @ a # vs" "al_id a = i" "al_live a"
    "as' = us @ a\<lparr>al_live := False\<rparr> # vs"
    using free_scan_ok [OF assms(2)] by blast
  have "al_id b \<noteq> i" if "b \<in> set us \<union> set vs" for b
    using mem_inv_distinct [OF assms(1)] that s(1,2) by (auto simp: image_iff)
  note other = this
  show "i \<in> dom (mem_live m)"
    using mem_live_None_iff [OF assms(1), of i] s by (auto simp: domIff)
  let ?m = "m\<lparr>m_allocs := as'\<rparr>"
  have inv: "mem_inv ?m" by (rule free_inv [OF assms])
  show "mem_live ?m = (mem_live m)(i := None)"
  proof
    fix j
    show "mem_live ?m j = ((mem_live m)(i := None)) j"
    proof (cases "j = i")
      case True
      then have "mem_live ?m j = None"
        using mem_live_None_iff [OF inv, of j] other s(4) by auto
      with True show ?thesis by simp
    next
      case False
      then have "mem_live ?m j = Some x \<longleftrightarrow> mem_live m j = Some x" for x
        using mem_live_iff [OF assms(1), of j x] mem_live_iff [OF inv, of j x] s by auto
      with False show ?thesis by (cases "mem_live m j"; cases "mem_live ?m j") auto
    qed
  qed
qed

section \<open>The allocator contract\<close>

type_synonym mem_request = "int \<times> u64 \<times> u64 \<times> u8 \<times> u32 \<times> string option"

definition mem_alloc_op :: "mem_request \<Rightarrow> att1_aimu_mem \<Rightarrow> (u32 \<times> att1_aimu_mem) option" where
  "mem_alloc_op req m =
     (case req of (rt, sz, al, dtype, flags, name) \<Rightarrow>
       (case att1_aimu_mem_alloc_range (Some m) rt sz al dtype flags name of
          (ATT1_OK, Some m', Some (addr, i)) \<Rightarrow> Some (i, m')
        | _ \<Rightarrow> None))"

definition mem_release_op :: "u32 \<Rightarrow> att1_aimu_mem \<Rightarrow> att1_aimu_mem option" where
  "mem_release_op i m =
     (case att1_aimu_mem_free (Some m) i of (ATT1_OK, Some m') \<Rightarrow> Some m' | _ \<Rightarrow> None)"

lemma alloc_range_okE:
  assumes "mem_inv m"
    and "att1_aimu_mem_alloc_range (Some m) rt sz al dtype flags name = (ATT1_OK, mp, out)"
  obtains addr where "alloc_args_ok rt sz al flags" "mem_fits m al sz (unat addr)"
    "\<And>x. mem_fits m al sz x \<Longrightarrow> unat addr \<le> x"
    "mp = Some (push_record (new_record m rt sz al dtype flags name addr) m)"
    "out = Some (addr, m_next_id m)"
    "mem_inv (push_record (new_record m rt sz al dtype flags name addr) m)"
proof -
  let ?addr = "first_fit (m_capacity m) (eff_align al) sz MEM_BASE (collect_live_sorted m)"
  have a: "alloc_args_ok rt sz al flags" "length (m_allocs m) \<noteq> MEM_MAX_ALLOCS"
    "?addr \<noteq> UINT64_MAX"
    "mp = Some (push_record (new_record m rt sz al dtype flags name ?addr) m)"
    "out = Some (?addr, m_next_id m)"
    using assms(2) unfolding alloc_range_unfold [OF assms(1)]
    by (auto simp: Let_def split: if_splits)
  have "mem_fits m al sz (unat ?addr) \<and> (\<forall>x. mem_fits m al sz x \<longrightarrow> unat ?addr \<le> x)"
    using first_fit_mem [OF assms(1), of al sz] a by (simp add: alloc_args_ok_def)
  with a that push_record_inv [OF assms(1) a(1,2)] show ?thesis by blast
qed

lemma mem_free_okE:
  assumes "mem_inv m" "att1_aimu_mem_free (Some m) i = (ATT1_OK, mp)"
  obtains as' where "free_scan i (m_allocs m) = (ATT1_OK, as')" "mp = Some (m\<lparr>m_allocs := as'\<rparr>)"
  using assms that mem_inv_valid [OF assms(1)]
  by (auto simp: att1_aimu_mem_free_def split: if_splits prod.splits)

lemma mem_alloc_op_ok:
  assumes "mem_inv m" "mem_alloc_op req m = Some (i, m')"
  shows "mem_inv m' \<and> m_capacity m' = m_capacity m \<and> i \<notin> dom (mem_live m)
    \<and> (\<exists>x. mem_live m' = (mem_live m)(i \<mapsto> x))"
proof -
  obtain rt sz al dtype flags name where req: "req = (rt, sz, al, dtype, flags, name)"
    by (cases req)
  obtain st mp out where c: "att1_aimu_mem_alloc_range (Some m) rt sz al dtype flags name = (st, mp, out)"
    by (cases "att1_aimu_mem_alloc_range (Some m) rt sz al dtype flags name")
  from assms(2) obtain addr where o: "st = ATT1_OK" "mp = Some m'" "out = Some (addr, i)"
    by (cases st; cases mp; cases out) (auto simp: mem_alloc_op_def req c)
  from alloc_range_okE [OF assms(1) c [unfolded o(1)]] obtain addr where
    m': "m' = push_record (new_record m rt sz al dtype flags name addr) m" "i = m_next_id m" "mem_inv m'"
    using o by (metis option.inject prod.inject)
  let ?r = "new_record m rt sz al dtype flags name addr"
  have r: "al_live ?r" "al_id ?r = i" using m'(2) by (simp_all add: new_record_def)
  have "mem_live m' = (mem_live m)(i \<mapsto> al_range ?r)" "i \<notin> dom (mem_live m)"
    using mem_live_push [OF assms(1) m'(3) [unfolded m'(1)] r(1)] r(2) m'(1) by simp_all
  moreover have "m_capacity m' = m_capacity m" using m'(1) by (simp add: push_record_def)
  ultimately show ?thesis using m'(3) by blast
qed

lemma mem_release_op_ok:
  assumes "mem_inv m" "mem_release_op i m = Some m'"
  shows "mem_inv m' \<and> m_capacity m' = m_capacity m \<and> i \<in> dom (mem_live m)
    \<and> mem_live m' = (mem_live m)(i := None)"
proof -
  obtain st mp where f: "att1_aimu_mem_free (Some m) i = (st, mp)" by force
  with assms(2) have "att1_aimu_mem_free (Some m) i = (ATT1_OK, Some m')"
    by (cases st; cases mp) (simp_all add: mem_release_op_def)
  from mem_free_okE [OF assms(1) this] obtain as' where
    s: "free_scan i (m_allocs m) = (ATT1_OK, as')" "m' = m\<lparr>m_allocs := as'\<rparr>"
    by auto
  then show ?thesis
    using free_inv [OF assms(1) s(1)] mem_live_free [OF assms(1) s(1)] by simp
qed

interpretation mem: range_allocator mem_inv "\<lambda>m. unat (m_capacity m)" mem_live mem_alloc_op mem_release_op
proof unfold_locales
  fix m :: att1_aimu_mem assume "mem_inv m"
  then show "placed (unat (m_capacity m)) (mem_live m)" by (rule mem_placed)
next
  fix m req i m' assume "mem_inv m" "mem_alloc_op req m = Some (i, m')"
  from mem_alloc_op_ok [OF this] show "mem_inv m' \<and> unat (m_capacity m') = unat (m_capacity m)
      \<and> i \<notin> dom (mem_live m) \<and> (\<exists>x. mem_live m' = (mem_live m)(i \<mapsto> x))" by simp
next
  fix m i m' assume "mem_inv m" "mem_release_op i m = Some m'"
  from mem_release_op_ok [OF this] show "mem_inv m' \<and> unat (m_capacity m') = unat (m_capacity m)
      \<and> i \<in> dom (mem_live m) \<and> mem_live m' = (mem_live m)(i := None)" by simp
qed

section \<open>Reachable allocators\<close>

inductive mem_reachable :: "att1_aimu_mem \<Rightarrow> bool" where
  create: "att1_aimu_mem_create alloc tile cap out_ok = (ATT1_OK, Some m) \<Longrightarrow> mem_reachable m"
| alloc: "mem_reachable m \<Longrightarrow>
    att1_aimu_mem_alloc_range (Some m) rt sz al dtype flags name = (st, Some m', out) \<Longrightarrow> mem_reachable m'"
| free: "mem_reachable m \<Longrightarrow> att1_aimu_mem_free (Some m) i = (st, Some m') \<Longrightarrow> mem_reachable m'"
| reset: "mem_reachable m \<Longrightarrow> att1_aimu_mem_reset (Some m) = (st, Some m') \<Longrightarrow> mem_reachable m'"

lemma alloc_range_inv:
  assumes "mem_inv m" "att1_aimu_mem_alloc_range (Some m) rt sz al dtype flags name = (st, Some m', out)"
  shows "mem_inv m'"
proof (cases "st = ATT1_OK")
  case True
  with alloc_range_okE [OF assms(1)] assms(2) show ?thesis by (metis option.inject)
next
  case False
  with assms show ?thesis
    unfolding alloc_range_unfold [OF assms(1)] by (auto simp: Let_def split: if_splits)
qed

lemma mem_free_inv:
  assumes "mem_inv m" "att1_aimu_mem_free (Some m) i = (st, Some m')"
  shows "mem_inv m'"
  using assms free_inv [OF assms(1)]
  by (auto simp: att1_aimu_mem_free_def split: if_splits prod.splits)

lemma mem_reachable_inv: "mem_reachable m \<Longrightarrow> mem_inv m"
proof (induction rule: mem_reachable.induct)
  case (create alloc tile cap out_ok m)
  then show ?case
    by (auto simp: att1_aimu_mem_create_def mem_inv_def split: if_splits)
next
  case (alloc m rt sz al dtype flags name st m' out)
  then show ?case using alloc_range_inv by blast
next
  case (free m i st m')
  then show ?case using mem_free_inv by blast
next
  case (reset m st m')
  then show ?case
    by (auto simp: att1_aimu_mem_reset_def mem_inv_def split: if_splits)
qed

section \<open>The fragmentation report\<close>

definition live_set :: "att1_aimu_mem \<Rightarrow> att1_aimu_mem_alloc set" where
  "live_set m = {a \<in> set (m_allocs m). al_live a}"

text \<open>A hole: \<open>n\<close> free bytes from \<open>x\<close> on, below the capacity and from \<open>start\<close> on.\<close>

definition hole :: "nat \<Rightarrow> nat \<Rightarrow> att1_aimu_mem_alloc set \<Rightarrow> nat \<Rightarrow> nat \<Rightarrow> bool" where
  "hole cap start A x n \<longleftrightarrow> fits cap 1 n start A x"

lemma ascending_distinct:
  "ascending as \<Longrightarrow> \<forall>a \<in> set as. al_size a \<noteq> 0 \<Longrightarrow> distinct as"
proof (induction as)
  case (Cons a as)
  then have "\<forall>b \<in> set as. al_end a \<le> unat (al_base b)" "al_size a \<noteq> 0" "distinct as"
    by (simp_all add: ascending_def)
  then show ?case using unat_gt_0 [of "al_size a"] by fastforce
qed simp

lemma sum_sizes:
  assumes "ascending as" "s \<le> cap" "\<forall>a \<in> set as. s \<le> unat (al_base a) \<and> al_end a \<le> cap"
  shows "s + sum_list (map (\<lambda>a. unat (al_size a)) as) \<le> cap"
  using assms
proof (induction as arbitrary: s)
  case (Cons a as)
  have "al_end a + sum_list (map (\<lambda>a. unat (al_size a)) as) \<le> cap"
    using Cons.prems by (intro Cons.IH) (auto simp: ascending_def)
  moreover have "s \<le> unat (al_base a)" using Cons.prems(3) by simp
  ultimately show ?case by simp
qed simp

lemma fold_sizes:
  assumes "unat u + sum_list (map (\<lambda>a. unat (al_size a)) as) < 2 ^ 64"
  shows "unat (fold (\<lambda>a u. u + al_size a) as u) = unat u + sum_list (map (\<lambda>a. unat (al_size a)) as)"
  using assms
proof (induction as arbitrary: u)
  case (Cons a as)
  have "unat (u + al_size a) = unat u + unat (al_size a)"
    using Cons.prems by (intro unat_add_no_wrap) simp
  with Cons show ?case by simp
qed simp

definition largest_hole :: "nat \<Rightarrow> nat \<Rightarrow> att1_aimu_mem_alloc set \<Rightarrow> nat \<Rightarrow> nat \<Rightarrow> bool" where
  "largest_hole cap start A l r \<longleftrightarrow> l \<le> r \<and> (\<forall>x n. 0 < n \<longrightarrow> hole cap start A x n \<longrightarrow> n \<le> r)
     \<and> (r = l \<or> (\<exists>x. hole cap start A x r))"

lemma largest_gap_spec:
  assumes "ascending as" "unat s \<le> unat cap"
    and "\<forall>a \<in> set as. unat s \<le> unat (al_base a) \<and> al_end a \<le> unat cap \<and> al_size a \<noteq> 0"
  shows "largest_hole (unat cap) (unat s) (set as) (unat l) (unat (largest_gap cap s l as))"
  using assms
proof (induction as arbitrary: s l)
  case Nil
  have "unat (cap - s) = unat cap - unat s"
    using Nil.prems(2) by (simp add: unat_sub_if')
  then show ?case
    by (auto simp: largest_hole_def hole_def fits_def Let_def word_less_nat_alt)
next
  case (Cons a as)
  let ?e = "al_base a + al_size a"
  let ?l = "if s < al_base a then (let g = al_base a - s in if l < g then g else l) else l"
  have a: "unat s \<le> unat (al_base a)" "al_end a \<le> unat cap" "0 < unat (al_size a)"
    using Cons.prems(3) by (simp_all add: unat_gt_0)
  have e: "unat ?e = al_end a"
    using a(2) unat_lt_size [of cap] by (intro unat_add_no_wrap) simp
  have asc: "ascending as" "\<forall>b \<in> set as. al_end a \<le> unat (al_base b)"
    using Cons.prems(1) by (simp_all add: ascending_def)
  have IH: "largest_hole (unat cap) (al_end a) (set as) (unat ?l) (unat (largest_gap cap ?e ?l as))"
    using Cons.IH [of ?e ?l] asc Cons.prems(3) e a(2) by simp
  have l: "unat ?l = max (unat l) (unat (al_base a) - unat s)"
    using a(1) by (auto simp: Let_def word_less_nat_alt unat_sub_if' max_def)
  have below: "hole (unat cap) (unat s) (set (a # as)) x n \<longleftrightarrow>
      (unat s \<le> x \<and> x + n \<le> unat (al_base a)) \<or> hole (unat cap) (al_end a) (set as) x n" if "0 < n" for x n
  proof -
    have "apart (x, n) (al_range b)" if "x + n \<le> unat (al_base a)" "b \<in> set as" for b
      using asc(2) that unfolding apart_def al_range_def by fastforce
    moreover have "apart (x, n) (al_range a) \<longleftrightarrow> x + n \<le> unat (al_base a) \<or> al_end a \<le> x"
      by (simp add: apart_def al_range_def)
    ultimately show ?thesis
      using a that by (auto simp: hole_def fits_def)
  qed
  let ?r = "unat (largest_gap cap s l (a # as))"
  have r: "?r = unat (largest_gap cap ?e ?l as)" by (simp add: Let_def)
  show ?case
    unfolding largest_hole_def
  proof (intro conjI allI impI)
    show "unat l \<le> ?r" using IH l unfolding r largest_hole_def by linarith
    fix x n :: nat assume n: "0 < n" "hole (unat cap) (unat s) (set (a # as)) x n"
    then consider "n \<le> unat (al_base a) - unat s" | "hole (unat cap) (al_end a) (set as) x n"
      using below by fastforce
    then show "n \<le> ?r"
      using IH n(1) l unfolding r largest_hole_def by cases (linarith, blast)
  next
    consider "?r = unat l" | "0 < ?r" "?r = unat (al_base a) - unat s"
      | "0 < ?r" "\<exists>x. hole (unat cap) (al_end a) (set as) x ?r"
    proof -
      define L R where "L = unat ?l" and "R = ?r"
      have "L \<le> R" "R = L \<or> (\<exists>x. hole (unat cap) (al_end a) (set as) x R)"
        using IH unfolding L_def R_def r largest_hole_def by blast+
      moreover have "L = unat l \<or> L = unat (al_base a) - unat s" "unat l \<le> L"
        using l unfolding L_def by linarith+
      ultimately show ?thesis
        using that unfolding R_def [symmetric] by (cases "R = unat l") auto
    qed
    then show "?r = unat l \<or> (\<exists>x. hole (unat cap) (unat s) (set (a # as)) x ?r)"
    proof cases
      case 2
      then have "hole (unat cap) (unat s) (set (a # as)) (unat s) ?r"
        using below [OF 2(1)] a(1) by simp
      then show ?thesis by blast
    next
      case 3
      then show ?thesis using below [OF 3(1)] by blast
    qed simp
  qed
qed

lemma live_set_facts:
  assumes "mem_inv m"
  shows "set (collect_live_sorted m) = live_set m"
    "\<forall>a \<in> set (collect_live_sorted m). unat MEM_BASE \<le> unat (al_base a)
       \<and> al_end a \<le> unat (m_capacity m) \<and> al_size a \<noteq> 0"
    "sum_list (map (\<lambda>a. unat (al_size a)) (collect_live_sorted m)) = (\<Sum>a \<in> live_set m. unat (al_size a))"
proof -
  note c = collect_live_sorted [OF assms]
  show s: "set (collect_live_sorted m) = live_set m" using c(2) by (simp add: live_set_def)
  show w: "\<forall>a \<in> set (collect_live_sorted m). unat MEM_BASE \<le> unat (al_base a)
       \<and> al_end a \<le> unat (m_capacity m) \<and> al_size a \<noteq> 0"
    using mem_inv_wf [OF assms] by (auto simp: c(2) alloc_wf_def MEM_BASE_def)
  show "sum_list (map (\<lambda>a. unat (al_size a)) (collect_live_sorted m)) = (\<Sum>a \<in> live_set m. unat (al_size a))"
    using ascending_distinct [OF c(1)] w s by (simp add: sum_list_distinct_conv_sum_set)
qed

lemma frag_facts:
  assumes "mem_inv m" "att1_aimu_mem_get_frag (Some m) True = (st, Some f)"
  shows "unat (fr_used_bytes f) = (\<Sum>a \<in> live_set m. unat (al_size a))"
    "unat (fr_used_bytes f) \<le> unat (m_capacity m)"
    "unat (fr_free_bytes f) = unat (m_capacity m) - unat (fr_used_bytes f)"
    "largest_hole (unat (m_capacity m)) 0 (live_set m) 0 (unat (fr_largest_free_block f))"
proof -
  note c = collect_live_sorted [OF assms(1)] and l = live_set_facts [OF assms(1)]
  let ?as = "collect_live_sorted m"
  have sum: "sum_list (map (\<lambda>a. unat (al_size a)) ?as) \<le> unat (m_capacity m)"
    using sum_sizes [OF c(1), of 0 "unat (m_capacity m)"] l(2) by (simp add: MEM_BASE_def)
  have u: "unat (fold (\<lambda>a u. u + al_size a) ?as 0) = sum_list (map (\<lambda>a. unat (al_size a)) ?as)"
    using fold_sizes [of 0 ?as] sum unat_lt_size [of "m_capacity m"] by simp
  have f: "fr_used_bytes f = fold (\<lambda>a u. u + al_size a) ?as 0"
    "fr_free_bytes f = (if fr_used_bytes f < m_capacity m then m_capacity m - fr_used_bytes f else 0)"
    "fr_largest_free_block f = largest_gap (m_capacity m) MEM_BASE 0 ?as"
    using assms mem_inv_valid [OF assms(1)]
    by (auto simp: att1_aimu_mem_get_frag_def Let_def)
  show "unat (fr_used_bytes f) = (\<Sum>a \<in> live_set m. unat (al_size a))"
    using f(1) u l(3) by simp
  show le: "unat (fr_used_bytes f) \<le> unat (m_capacity m)" using f(1) u sum by simp
  show "unat (fr_free_bytes f) = unat (m_capacity m) - unat (fr_used_bytes f)"
    using le by (auto simp: f(2) word_less_nat_alt unat_sub_if')
  show "largest_hole (unat (m_capacity m)) 0 (live_set m) 0 (unat (fr_largest_free_block f))"
    using largest_gap_spec [OF c(1), of MEM_BASE "m_capacity m" 0] l f(3) by (simp add: MEM_BASE_def)
qed

section \<open>A concrete run\<close>

definition demo_rec :: "u32 \<Rightarrow> u64 \<Rightarrow> u64 \<Rightarrow> bool \<Rightarrow> att1_aimu_mem_alloc" where
  "demo_rec i b n l = \<lparr>al_id = i, al_tile = 0, al_region = REGION_TENSOR, al_dtype = 0, al_flags = 0,
     al_base = b, al_size = n, al_align = 16, al_name = [], al_live = l\<rparr>"

definition demo_mem :: "att1_aimu_mem_alloc list \<Rightarrow> att1_aimu_mem" where
  "demo_mem as = \<lparr>m_magic = MEM_MAGIC, m_tile = 0, m_capacity = 1000,
     m_next_id = word_of_nat (Suc (length as)), m_allocs = as\<rparr>"

abbreviation demo_m2 :: att1_aimu_mem where
  "demo_m2 \<equiv> demo_mem [demo_rec 1 0 100 True, demo_rec 2 112 50 True]"

abbreviation demo_m3 :: att1_aimu_mem where
  "demo_m3 \<equiv> demo_mem [demo_rec 1 0 100 False, demo_rec 2 112 50 True]"

lemma demo_alloc_1:
  "att1_aimu_mem_alloc_range (Some (demo_mem [])) 0 100 0 0 0 None
     = (ATT1_OK, Some (demo_mem [demo_rec 1 0 100 True]), Some (0, 1))"
  by code_simp

lemma demo_alloc_2:
  "att1_aimu_mem_alloc_range (Some (demo_mem [demo_rec 1 0 100 True])) 0 50 0 0 0 None
     = (ATT1_OK, Some demo_m2, Some (112, 2))"
  by code_simp

lemma demo_free: "att1_aimu_mem_free (Some demo_m2) 1 = (ATT1_OK, Some demo_m3)"
  by code_simp

lemma demo_m0_reachable: "mem_reachable (demo_mem [])"
proof -
  have "att1_aimu_mem_create True 0 1000 True = (ATT1_OK, Some (demo_mem []))"
    by (simp add: att1_aimu_mem_create_def demo_mem_def)
  then show ?thesis by (rule mem_reachable.create)
qed

lemma demo_m2_reachable: "mem_reachable demo_m2"
  by (rule mem_reachable.alloc [OF mem_reachable.alloc [OF demo_m0_reachable demo_alloc_1] demo_alloc_2])

lemma demo_m3_reachable: "mem_reachable demo_m3"
  by (rule mem_reachable.free [OF demo_m2_reachable demo_free])

section \<open>Properties\<close>

text \<open>
  In every allocator the API can reach, the live allocations lie below the capacity at
  addresses that are multiples of their alignment, a power of two between 16 and 65536, they
  are pairwise disjoint, so that together they occupy at most the capacity, and the records
  carry the identifiers 1, 2, 3 and so on in table order.
\<close>

theorem mem_reachable_invariant:
  assumes "mem_reachable m"
  shows "(\<forall>a \<in> live_set m. unat (al_base a) + unat (al_size a) \<le> unat (m_capacity m)
        \<and> al_size a \<noteq> 0 \<and> align_ok (al_align a) \<and> unat (al_align a) dvd unat (al_base a))
    \<and> (\<forall>a \<in> live_set m. \<forall>b \<in> live_set m. a \<noteq> b \<longrightarrow> range_set (al_range a) \<inter> range_set (al_range b) = {})
    \<and> total_size (mem_live m) \<le> unat (m_capacity m)
    \<and> map al_id (m_allocs m) = map (\<lambda>i. word_of_nat (Suc i)) [0..<length (m_allocs m)]"
proof -
  have i: "mem_inv m" by (rule mem_reachable_inv [OF assms])
  moreover have "range_set (al_range a) \<inter> range_set (al_range b) = {}"
    if "a \<in> live_set m" "b \<in> live_set m" "a \<noteq> b" for a b
    using mem_inv_apart [OF i] that by (auto simp: live_set_def intro!: apart_disjoint)
  moreover have "alloc_wf m a" if "a \<in> live_set m" for a
    using mem_inv_wf [OF i] that by (simp add: live_set_def)
  ultimately show ?thesis
    using mem.total_bounded [OF i] unfolding alloc_wf_def by (auto simp: mem_inv_def)
qed

theorem mem_reachable_invariant_witness:
  "range_set (al_range (demo_rec 1 0 100 True)) \<inter> range_set (al_range (demo_rec 2 112 50 True)) = {}
   \<and> total_size (mem_live demo_m2) \<le> 1000"
proof -
  have "demo_rec 1 0 100 True \<in> live_set demo_m2" "demo_rec 2 112 50 True \<in> live_set demo_m2"
    "demo_rec 1 0 100 True \<noteq> demo_rec 2 112 50 True" "unat (m_capacity demo_m2) = 1000"
    by (simp_all add: live_set_def demo_mem_def demo_rec_def)
  then show ?thesis using mem_reachable_invariant [OF demo_m2_reachable] by auto
qed

text \<open>
  C13. Allocation with valid arguments and a free table slot is exact first fit: it succeeds
  when some aligned address with enough free bytes below the capacity exists, and then takes
  the lowest such address, hands out the next identifier and changes no other allocation; it
  reports \<open>ATT1_ERR_OOM\<close>, changing nothing, exactly when no such address exists.
\<close>

theorem mem_alloc_first_fit:
  assumes "mem_reachable m" "alloc_args_ok rt sz al flags" "length (m_allocs m) < MEM_MAX_ALLOCS"
  shows "if \<exists>x. mem_fits m al sz x
    then \<exists>addr m'. att1_aimu_mem_alloc_range (Some m) rt sz al dtype flags name
            = (ATT1_OK, Some m', Some (addr, m_next_id m))
        \<and> unat addr = (LEAST x. mem_fits m al sz x)
        \<and> mem_live m' = (mem_live m)(m_next_id m \<mapsto> (unat addr, unat sz))
    else att1_aimu_mem_alloc_range (Some m) rt sz al dtype flags name = (ATT1_ERR_OOM, Some m, None)"
proof -
  have i: "mem_inv m" by (rule mem_reachable_inv [OF assms(1)])
  let ?addr = "first_fit (m_capacity m) (eff_align al) sz MEM_BASE (collect_live_sorted m)"
  let ?r = "new_record m rt sz al dtype flags name ?addr"
  have ff: "if ?addr = UINT64_MAX then \<forall>x. \<not> mem_fits m al sz x
    else mem_fits m al sz (unat ?addr) \<and> (\<forall>x. mem_fits m al sz x \<longrightarrow> unat ?addr \<le> x)"
    using first_fit_mem [OF i] assms(2) by (simp add: alloc_args_ok_def)
  show ?thesis
  proof (cases "\<exists>x. mem_fits m al sz x")
    case True
    then have nm: "?addr \<noteq> UINT64_MAX" and f: "mem_fits m al sz (unat ?addr)"
      "\<And>x. mem_fits m al sz x \<Longrightarrow> unat ?addr \<le> x" and "\<not> m_capacity m < sz"
      using ff no_fit_too_big by (auto split: if_splits)
    then have c: "att1_aimu_mem_alloc_range (Some m) rt sz al dtype flags name
        = (ATT1_OK, Some (push_record ?r m), Some (?addr, m_next_id m))"
      using assms(2,3) by (simp add: alloc_range_unfold [OF i] Let_def)
    have "unat ?addr = (LEAST x. mem_fits m al sz x)"
      using f by (intro Least_equality [symmetric]) simp_all
    moreover have "mem_live (push_record ?r m) = (mem_live m)(m_next_id m \<mapsto> (unat ?addr, unat sz))"
      using mem_live_push(1) [OF i push_record_inv [OF i assms(2) _ f(1)]] assms(3)
      by (simp add: new_record_def al_range_def)
    ultimately show ?thesis using True c by auto
  next
    case False
    then have "?addr = UINT64_MAX" using ff by (auto split: if_splits)
    with False show ?thesis
      using assms(2,3) by (simp add: alloc_range_unfold [OF i] Let_def)
  qed
qed

theorem mem_alloc_first_fit_witness:
  "\<exists>m'. att1_aimu_mem_alloc_range (Some demo_m3) 1 90 32 0 0 None = (ATT1_OK, Some m', Some (0, 3))
     \<and> mem_live m' = (mem_live demo_m3)(3 \<mapsto> (0, 90))"
proof -
  have fit: "mem_fits demo_m3 32 90 0"
    by (simp add: mem_fits_def demo_mem_def demo_rec_def apart_def al_range_def)
  have args: "alloc_args_ok 1 90 32 0" "length (m_allocs demo_m3) < MEM_MAX_ALLOCS"
    "m_next_id demo_m3 = 3"
    by (simp_all add: alloc_args_ok_def align_ok_def eff_align_def mem_is_pow2_def MEM_MIN_ALIGN_def
        MEM_MAX_ALIGN_def MEM_MAX_ALLOCS_def demo_mem_def)
  have ex: "\<exists>x. mem_fits demo_m3 32 90 x" using fit by blast
  have least: "(LEAST x. mem_fits demo_m3 32 90 x) = 0" using fit by (intro Least_equality) simp_all
  from mem_alloc_first_fit [OF demo_m3_reachable args(1,2), of 0 None] ex obtain addr m' where
    "att1_aimu_mem_alloc_range (Some demo_m3) 1 90 32 0 0 None = (ATT1_OK, Some m', Some (addr, 3))"
    "unat addr = 0" "mem_live m' = (mem_live demo_m3)(3 \<mapsto> (unat addr, unat (90 :: u64)))"
    unfolding if_P [OF ex] least args(3) by blast
  then show ?thesis by (simp add: unsigned_eq_0_iff)
qed

text \<open>
  Releasing an identifier: it succeeds exactly for a live allocation and removes only that
  one; releasing it again is reported as \<open>ATT1_ERR_STATE\<close> and any other identifier as
  \<open>ATT1_ERR_NOT_FOUND\<close>, both without any change.
\<close>

theorem mem_free_spec:
  assumes "mem_reachable m" "att1_aimu_mem_free (Some m) i = (st, Some m')"
  shows "(st = ATT1_OK \<longleftrightarrow> i \<in> dom (mem_live m))
    \<and> (st = ATT1_OK \<longrightarrow> mem_live m' = (mem_live m)(i := None) \<and> m_capacity m' = m_capacity m
         \<and> fst (att1_aimu_mem_free (Some m') i) = ATT1_ERR_STATE)
    \<and> (st \<noteq> ATT1_OK \<longrightarrow> m' = m \<and>
         st = (if \<exists>a \<in> set (m_allocs m). al_id a = i then ATT1_ERR_STATE else ATT1_ERR_NOT_FOUND))"
proof -
  have inv: "mem_inv m" by (rule mem_reachable_inv [OF assms(1)])
  note v = mem_inv_valid [OF inv] and d = mem_inv_distinct [OF inv]
  have id_range: "i \<noteq> 0 \<and> i \<noteq> MEM_INVALID_ID" if "a \<in> set (m_allocs m)" "al_id a = i" for a
  proof -
    have "i \<in> set (map al_id (m_allocs m))" using that by auto
    then obtain k where k: "k < length (m_allocs m)" "i = word_of_nat (Suc k)"
      using inv unfolding mem_inv_def by (auto simp del: of_nat_Suc)
    have "unat (word_of_nat (Suc k) :: u32) = Suc k"
      using k(1) inv by (simp add: mem_inv_def MEM_MAX_ALLOCS_def unsigned_of_nat take_bit_nat_eq_self
          del: of_nat_Suc)
    then have "unat i = Suc k" "Suc k \<le> 4096"
      using k inv by (simp_all add: mem_inv_def MEM_MAX_ALLOCS_def del: of_nat_Suc)
    then show ?thesis by (auto simp: MEM_INVALID_ID_def)
  qed
  show ?thesis
  proof (cases "\<exists>a \<in> set (m_allocs m). al_id a = i")
    case False
    then have "find (\<lambda>a. al_id a = i) (m_allocs m) = None" by (auto simp: find_None_iff)
    then have "st = ATT1_ERR_NOT_FOUND \<and> m' = m"
      using assms(2) v d free_scan_status [OF d, of i] free_scan_not_ok [of i "m_allocs m"]
      by (auto simp: att1_aimu_mem_free_def split: if_splits prod.splits)
    moreover have "mem_live m i = None" using False mem_live_None_iff [OF inv] by blast
    ultimately show ?thesis using False by auto
  next
    case True
    then obtain a where a: "a \<in> set (m_allocs m)" "al_id a = i" by blast
    obtain b where b: "find (\<lambda>a. al_id a = i) (m_allocs m) = Some b"
      using a by (cases "find (\<lambda>a. al_id a = i) (m_allocs m)") (auto simp: find_None_iff)
    then have "b \<in> set (m_allocs m)" "al_id b = i" by (auto simp: find_Some_iff)
    with a have ba: "b = a" using mem_inv_id_unique [OF inv] by metis
    obtain st1 as' where s: "free_scan i (m_allocs m) = (st1, as')" by force
    have st1: "st1 = (if al_live a then ATT1_OK else ATT1_ERR_STATE)"
      using free_scan_status [OF d, of i] s b ba by simp
    have m': "st = st1" "m' = m\<lparr>m_allocs := as'\<rparr>"
      using assms(2) v s id_range [OF a] by (auto simp: att1_aimu_mem_free_def)
    show ?thesis
    proof (cases "al_live a")
      case False
      then have "as' = m_allocs m" "st = ATT1_ERR_STATE"
        using free_scan_not_ok [OF s] st1 m' by simp_all
      moreover have "mem_live m i = None"
        using mem_live_None_iff [OF inv, of i] False a mem_inv_id_unique [OF inv] by metis
      ultimately show ?thesis using m' True by auto
    next
      case live: True
      then have ok: "free_scan i (m_allocs m) = (ATT1_OK, as')" "st = ATT1_OK"
        using s st1 m' by simp_all
      note l = mem_live_free [OF inv ok(1)]
      have inv': "mem_inv m'" using free_inv [OF inv ok(1)] m'(2) by simp
      obtain us vs where us: "m_allocs m = us @ a # vs" "as' = us @ a\<lparr>al_live := False\<rparr> # vs"
      proof -
        obtain us c vs where c: "m_allocs m = us @ c # vs" "al_id c = i"
          "as' = us @ c\<lparr>al_live := False\<rparr> # vs"
          using free_scan_ok [OF ok(1)] by blast
        then have "c \<in> set (m_allocs m)" by simp
        then have "c = a" using mem_inv_id_unique [OF inv _ a(1)] c(2) a(2) by simp
        with c that show thesis by simp
      qed
      have "fst (free_scan i (m_allocs m')) = ATT1_ERR_STATE"
      proof -
        have "find (\<lambda>a. al_id a = i) as' = Some (a\<lparr>al_live := False\<rparr>)"
        proof -
          have "\<forall>c \<in> set us. al_id c \<noteq> i" using d us(1) a(2) by (auto simp: image_iff)
          then show ?thesis unfolding us(2) by (induction us) (simp_all add: a(2))
        qed
        then show ?thesis
          using free_scan_status [OF mem_inv_distinct [OF inv'], of i] m'(2) by simp
      qed
      then have "fst (att1_aimu_mem_free (Some m') i) = ATT1_ERR_STATE"
        using mem_inv_valid [OF inv'] id_range [OF a]
        by (auto simp: att1_aimu_mem_free_def split: prod.splits)
      then show ?thesis using l ok(2) m'(2) by auto
    qed
  qed
qed

theorem mem_free_spec_witness:
  "att1_aimu_mem_free (Some demo_m2) 1 = (ATT1_OK, Some demo_m3)
   \<and> mem_live demo_m3 = (mem_live demo_m2)(1 := None)
   \<and> fst (att1_aimu_mem_free (Some demo_m3) 1) = ATT1_ERR_STATE"
  using mem_free_spec [OF demo_m2_reachable demo_free] demo_free by (simp only: simp_thms)

text \<open>
  Address queries agree with the ranges: an address is resolved to the one live
  allocation that contains it, and a span is valid exactly when it is non-empty and lies in
  one live allocation, with no wrap-around at the end of the address space.
\<close>

theorem mem_query_spec:
  assumes "mem_reachable m"
  shows "(att1_aimu_mem_query_by_address (Some m) addr True = (ATT1_OK, Some a)
      \<longleftrightarrow> a \<in> live_set m \<and> unat addr \<in> range_set (al_range a))
    \<and> (att1_aimu_mem_range_valid (Some m) addr sz
      \<longleftrightarrow> sz \<noteq> 0 \<and> (\<exists>a \<in> live_set m. {unat addr ..< unat addr + unat sz} \<subseteq> range_set (al_range a)))"
proof -
  have inv: "mem_inv m" by (rule mem_reachable_inv [OF assms])
  note v = mem_inv_valid [OF inv]
  have e: "unat (al_base a + al_size a) = al_end a" "al_end a < 2 ^ 64" if "a \<in> live_set m" for a
  proof -
    show lt: "al_end a < 2 ^ 64"
      using mem_inv_wf [OF inv, of a] that unat_lt_size [of "m_capacity m"]
      by (simp add: live_set_def alloc_wf_def)
    then show "unat (al_base a + al_size a) = al_end a" by (intro unat_add_no_wrap) simp
  qed
  have in_iff: "al_live a \<and> al_base a \<le> addr \<and> addr < al_base a + al_size a
      \<longleftrightarrow> a \<in> live_set m \<and> unat addr \<in> range_set (al_range a)" if "a \<in> set (m_allocs m)" for a
    using that e [of a] by (auto simp: live_set_def range_set_def al_range_def word_le_nat_alt word_less_nat_alt)
  have uniq: "a = b" if "a \<in> live_set m" "b \<in> live_set m" "x \<in> range_set (al_range a)"
      "x \<in> range_set (al_range b)" for a b x
    using mem_inv_apart [OF inv, of a b] that apart_disjoint [of "al_range a" "al_range b"]
    by (auto simp: live_set_def)
  let ?P = "\<lambda>a. al_live a \<and> al_base a \<le> addr \<and> addr < al_base a + al_size a"
  have q: "att1_aimu_mem_query_by_address (Some m) addr True = (ATT1_OK, Some a)
      \<longleftrightarrow> find ?P (m_allocs m) = Some a"
    using v by (simp add: att1_aimu_mem_query_by_address_def split: option.splits)
  have "find ?P (m_allocs m) = Some a \<longleftrightarrow> a \<in> live_set m \<and> unat addr \<in> range_set (al_range a)"
  proof
    assume "find ?P (m_allocs m) = Some a"
    then have "a \<in> set (m_allocs m)" "?P a" by (auto simp: find_Some_iff)
    then show "a \<in> live_set m \<and> unat addr \<in> range_set (al_range a)" using in_iff by blast
  next
    assume r: "a \<in> live_set m \<and> unat addr \<in> range_set (al_range a)"
    then have "a \<in> set (m_allocs m)" by (simp add: live_set_def)
    then obtain b where b: "find ?P (m_allocs m) = Some b"
      using r in_iff by (cases "find ?P (m_allocs m)") (auto simp: find_None_iff)
    then have "b \<in> set (m_allocs m)" "?P b" by (auto simp: find_Some_iff)
    then have "b = a" using in_iff uniq r by blast
    with b show "find ?P (m_allocs m) = Some a" by simp
  qed
  moreover have "att1_aimu_mem_range_valid (Some m) addr sz
      \<longleftrightarrow> sz \<noteq> 0 \<and> (\<exists>a \<in> live_set m. {unat addr ..< unat addr + unat sz} \<subseteq> range_set (al_range a))"
  proof (cases "sz = 0")
    case True
    then show ?thesis using v by (simp add: att1_aimu_mem_range_valid_def)
  next
    case False
    then have sz: "0 < unat sz" by (simp add: unat_gt_0)
    have sub: "{unat addr ..< unat addr + unat sz} \<subseteq> range_set (al_range a)
        \<longleftrightarrow> unat (al_base a) \<le> unat addr \<and> unat addr + unat sz \<le> al_end a" for a
      using sz by (auto simp: range_set_def al_range_def ivl_subset)
    have wrap: "UINT64_MAX - sz < addr \<longleftrightarrow> 2 ^ 64 \<le> unat addr + unat sz"
    proof -
      have "unat UINT64_MAX = 2 ^ 64 - 1" by (simp add: UINT64_MAX_def)
      moreover have "unat (UINT64_MAX - sz) = 2 ^ 64 - 1 - unat sz"
        using calculation unat_lt_size [of sz] by (subst unat_sub) (simp_all add: word_le_nat_alt)
      ultimately show ?thesis using unat_lt_size [of sz] by (simp add: word_less_nat_alt) linarith
    qed
    show ?thesis
    proof (cases "2 ^ 64 \<le> unat addr + unat sz")
      case True
      then have "\<not> unat addr + unat sz \<le> al_end a" if "a \<in> live_set m" for a
        using e(2) [OF that] by linarith
      then show ?thesis
        using True False v wrap sub by (auto simp: att1_aimu_mem_range_valid_def)
    next
      case fits: False
      then have "unat (addr + sz) = unat addr + unat sz" by (intro unat_add_no_wrap) simp
      then have "(\<exists>a \<in> set (m_allocs m). al_live a \<and> al_base a \<le> addr \<and> addr + sz \<le> al_base a + al_size a)
          \<longleftrightarrow> (\<exists>a \<in> live_set m. {unat addr ..< unat addr + unat sz} \<subseteq> range_set (al_range a))"
        using e(1) unfolding sub by (auto simp: live_set_def word_le_nat_alt)
      then show ?thesis
        using fits False v wrap by (simp add: att1_aimu_mem_range_valid_def list_ex_iff Let_def)
    qed
  qed
  ultimately show ?thesis using q by simp
qed

theorem mem_query_spec_witness:
  "att1_aimu_mem_query_by_address (Some demo_m2) 120 True = (ATT1_OK, Some (demo_rec 2 112 50 True))
   \<and> \<not> att1_aimu_mem_range_valid (Some demo_m2) 90 40"
proof -
  have "demo_rec 2 112 50 True \<in> live_set demo_m2 \<and> unat (120 :: u64) \<in> range_set (al_range (demo_rec 2 112 50 True))"
    by (simp add: live_set_def demo_mem_def demo_rec_def range_set_def al_range_def)
  moreover have "\<not> (\<exists>a \<in> live_set demo_m2. {unat (90 :: u64) ..< unat (90 :: u64) + unat (40 :: u64)} \<subseteq> range_set (al_range a))"
    by (auto simp: live_set_def demo_mem_def demo_rec_def range_set_def al_range_def)
  ultimately show ?thesis
    using mem_query_spec [OF demo_m2_reachable, of 120 "demo_rec 2 112 50 True" 40]
      mem_query_spec [OF demo_m2_reachable, of 90 "demo_rec 2 112 50 True" 40] by blast
qed

text \<open>
  The fragmentation report is exact: the used bytes are the sum of the live sizes, used
  and free bytes add up to the capacity, and the largest free block is the size of the
  largest span of free addresses.
\<close>

theorem mem_frag_spec:
  assumes "mem_reachable m" "att1_aimu_mem_get_frag (Some m) True = (st, Some f)"
  shows "unat (fr_used_bytes f) = (\<Sum>a \<in> live_set m. unat (al_size a))
    \<and> unat (fr_used_bytes f) + unat (fr_free_bytes f) = unat (m_capacity m)
    \<and> (\<forall>x n. 0 < n \<longrightarrow> hole (unat (m_capacity m)) 0 (live_set m) x n \<longrightarrow> n \<le> unat (fr_largest_free_block f))
    \<and> (fr_largest_free_block f \<noteq> 0 \<longrightarrow>
        (\<exists>x. hole (unat (m_capacity m)) 0 (live_set m) x (unat (fr_largest_free_block f))))
    \<and> fr_fragmentation_pct f \<le> 100"
proof -
  have inv: "mem_inv m" by (rule mem_reachable_inv [OF assms(1)])
  note f = frag_facts [OF inv assms(2)]
  have pct: "fr_fragmentation_pct f = (if fr_free_bytes f = 0 then 0
      else if fr_free_bytes f \<le> fr_largest_free_block f then 0
      else (let pct = ((fr_free_bytes f - fr_largest_free_block f) * 100) div fr_free_bytes f
            in if 100 < pct then 100 else ucast pct))"
    using assms(2) mem_inv_valid [OF inv] by (auto simp: att1_aimu_mem_get_frag_def Let_def)
  have "fr_fragmentation_pct f \<le> 100"
  proof -
    have "(ucast p :: u32) \<le> 100" if "\<not> 100 < p" for p :: u64
    proof -
      have "unat p \<le> 100" using that by (simp add: word_less_nat_alt)
      then have "unat (ucast p :: u32) \<le> 100"
        by (simp add: unsigned_ucast_eq take_bit_nat_eq_self)
      then show ?thesis by (simp add: word_le_nat_alt)
    qed
    then show ?thesis unfolding pct by (simp add: Let_def)
  qed
  with f show ?thesis by (auto simp: largest_hole_def unsigned_eq_0_iff)
qed

theorem mem_frag_spec_witness:
  "\<exists>f. att1_aimu_mem_get_frag (Some demo_m2) True = (ATT1_OK, Some f)
     \<and> unat (fr_used_bytes f) + unat (fr_free_bytes f) = 1000"
proof -
  have "fst (att1_aimu_mem_get_frag (Some demo_m2) True) = ATT1_OK"
    using mem_inv_valid [OF mem_reachable_inv [OF demo_m2_reachable]]
    by (simp add: att1_aimu_mem_get_frag_def Let_def)
  moreover obtain f where f: "att1_aimu_mem_get_frag (Some demo_m2) True = (ATT1_OK, Some f)"
    using mem_inv_valid [OF mem_reachable_inv [OF demo_m2_reachable]]
    by (simp add: att1_aimu_mem_get_frag_def Let_def)
  moreover have "unat (m_capacity demo_m2) = 1000" by (simp add: demo_mem_def)
  ultimately show ?thesis using mem_frag_spec [OF demo_m2_reachable f] by auto
qed

text \<open>
  Table slots are never reused: once 4096 allocations have been made, every further
  well-formed request is refused with \<open>ATT1_ERR_STATE\<close>, even when all of them have been
  released and the whole capacity is free.
\<close>

theorem mem_table_exhausted:
  assumes "mem_inv m" "length (m_allocs m) = MEM_MAX_ALLOCS" "alloc_args_ok rt sz al flags"
  shows "att1_aimu_mem_alloc_range (Some m) rt sz al dtype flags name = (ATT1_ERR_STATE, Some m, None)"
  using assms by (simp add: alloc_range_unfold)

theorem mem_table_exhausted_witness:
  "\<exists>m. live_set m = {} \<and> att1_aimu_mem_alloc_range (Some m) 0 1 0 0 0 None = (ATT1_ERR_STATE, Some m, None)"
proof -
  define m where "m = demo_mem (map (\<lambda>i. demo_rec (word_of_nat (Suc i)) 0 100 False) [0..<4096])"
  have dead: "\<not> al_live a" if "a \<in> set (m_allocs m)" for a
    using that by (auto simp: m_def demo_mem_def demo_rec_def)
  have len: "length (m_allocs m) = 4096" by (simp add: m_def demo_mem_def)
  have "mem_inv m"
    unfolding mem_inv_def
  proof (intro conjI)
    show "map al_id (m_allocs m) = map (\<lambda>i. word_of_nat (Suc i)) [0..<length (m_allocs m)]"
      by (simp add: m_def demo_mem_def demo_rec_def comp_def)
    show "\<forall>a \<in> set (m_allocs m). alloc_wf m a"
      by (auto simp: m_def demo_mem_def demo_rec_def alloc_wf_def align_ok_def mem_is_pow2_def
          MEM_MIN_ALIGN_def MEM_MAX_ALIGN_def MEM_NAME_MAX_def)
    show "\<forall>a \<in> set (m_allocs m). \<forall>b \<in> set (m_allocs m). al_live a \<longrightarrow> al_live b \<longrightarrow>
        al_id a \<noteq> al_id b \<longrightarrow> apart (al_range a) (al_range b)"
      using dead by blast
  qed (simp_all add: m_def demo_mem_def MEM_MAX_ALLOCS_def)
  moreover have "alloc_args_ok 0 1 0 0"
    by (simp add: alloc_args_ok_def align_ok_def eff_align_def mem_is_pow2_def MEM_MIN_ALIGN_def
        MEM_MAX_ALIGN_def)
  moreover have "live_set m = {}" using dead by (auto simp: live_set_def)
  ultimately show ?thesis
    using mem_table_exhausted [of m] len by (auto simp: MEM_MAX_ALLOCS_def)
qed

end
