(* ===== verification/Aimu_Dma.thy ===== *)
theory Aimu_Dma
  imports Ranges
begin

text \<open>
  The AIMU DMA descriptor simulator (\<^verbatim>\<open>src/aimu_dma.c\<close>): descriptor validation against the
  registered host and device regions, and the transfer counters. The fixed region arrays are
  written front to back, so the model keeps their used prefixes as lists.
\<close>

section \<open>State\<close>

record att1_aimu_dma_desc =
  d_host_addr :: u64
  d_device_addr :: u64
  d_src_device_addr :: u64
  d_dst_device_addr :: u64
  d_byte_length :: u32
  d_descriptor_id :: u32
  d_command_id :: u32
  d_tensor_id :: u32
  d_checksum :: u32
  d_dim0 :: u16
  d_dim1 :: u16
  d_flags :: u16
  d_dtype :: u8
  d_quant_group_size :: u8
  d_direction :: u8

record att1_aimu_dma_counters =
  dc_submitted :: u64
  dc_completed :: u64
  dc_failed :: u64
  dc_bytes_h2d :: u64
  dc_bytes_d2h :: u64
  dc_bytes_d2d :: u64
  dc_alignment_failures :: u64
  dc_range_failures :: u64
  dc_unsupported_flags :: u64

definition zero_dma_counters :: att1_aimu_dma_counters where
  "zero_dma_counters = \<lparr>dc_submitted = 0, dc_completed = 0, dc_failed = 0, dc_bytes_h2d = 0,
     dc_bytes_d2h = 0, dc_bytes_d2d = 0, dc_alignment_failures = 0, dc_range_failures = 0,
     dc_unsupported_flags = 0\<rparr>"

record att1_aimu_dma_region =
  rg_base :: u64
  rg_size :: u64

record att1_aimu_dma =
  dma_magic :: u32
  dma_host_regions :: "att1_aimu_dma_region list"
  dma_device_regions :: "att1_aimu_dma_region list"
  dma_counters :: att1_aimu_dma_counters
  dma_next_descriptor_id :: u32

definition DMA_MAGIC :: u32 where "DMA_MAGIC = 0xA771D4A7"
definition DMA_ALIGN_BYTES :: u64 where "DMA_ALIGN_BYTES = 64"
definition DMA_MAX_TRANSFER_BYTES :: u32 where "DMA_MAX_TRANSFER_BYTES = 0x10000000"
definition DMA_MAX_HOST_REGIONS :: nat where "DMA_MAX_HOST_REGIONS = 8"
definition DMA_MAX_DEVICE_REGIONS :: nat where "DMA_MAX_DEVICE_REGIONS = 8"
definition DMA_HOST_TO_DEVICE :: u8 where "DMA_HOST_TO_DEVICE = 0"
definition DMA_DEVICE_TO_HOST :: u8 where "DMA_DEVICE_TO_HOST = 1"
definition DMA_DEVICE_TO_DEVICE :: u8 where "DMA_DEVICE_TO_DEVICE = 2"
definition DMA_DTYPE_F32 :: u8 where "DMA_DTYPE_F32 = 0"
definition DMA_DTYPE_Q8 :: u8 where "DMA_DTYPE_Q8 = 1"
definition DMA_DTYPE_Q4 :: u8 where "DMA_DTYPE_Q4 = 2"
definition DMA_FLAG_VALID_MASK :: u16 where "DMA_FLAG_VALID_MASK = 0x000F"

lemmas dma_consts =
  DMA_ALIGN_BYTES_def DMA_MAX_TRANSFER_BYTES_def DMA_MAX_HOST_REGIONS_def
  DMA_MAX_DEVICE_REGIONS_def DMA_HOST_TO_DEVICE_def DMA_DEVICE_TO_HOST_def
  DMA_DEVICE_TO_DEVICE_def DMA_DTYPE_F32_def DMA_DTYPE_Q8_def DMA_DTYPE_Q4_def
  DMA_FLAG_VALID_MASK_def

datatype dma_vresult =
    DMA_VALID | DMA_ERR_NULL | DMA_ERR_DIRECTION | DMA_ERR_BYTE_LENGTH | DMA_ERR_FLAGS
  | DMA_ERR_DTYPE | DMA_ERR_Q4_ALIGN | DMA_ERR_ALIGNMENT | DMA_ERR_OVERFLOW | DMA_ERR_RANGE
  | DMA_ERR_D2D_OVERLAP

section \<open>Helpers\<close>

definition region_contains :: "att1_aimu_dma_region \<Rightarrow> u64 \<Rightarrow> u64 \<Rightarrow> bool" where
  "region_contains r addr len =
     (if len = 0 then True
      else if addr < rg_base r then False
      else (let end_addr = addr + len
            in if end_addr < addr then False
               else (let reg_end = rg_base r + rg_size r
                     in if reg_end < rg_base r then False else end_addr \<le> reg_end)))"

fun fits_any_region :: "att1_aimu_dma_region list \<Rightarrow> u64 \<Rightarrow> u64 \<Rightarrow> bool" where
  "fits_any_region [] addr len = False"
| "fits_any_region (r # rs) addr len =
     (if region_contains r addr len then True else fits_any_region rs addr len)"

definition ranges_overlap :: "u64 \<Rightarrow> u64 \<Rightarrow> u64 \<Rightarrow> u64 \<Rightarrow> bool" where
  "ranges_overlap a_base a_len b_base b_len =
     (let a_end = a_base + a_len; b_end = b_base + b_len
      in if a_end < a_base \<or> b_end < b_base then True
         else \<not> (a_end \<le> b_base \<or> b_end \<le> a_base))"

section \<open>Descriptor validation\<close>

text \<open>The checks that do not look at addresses, in the order of the code.\<close>

definition validate_q4 :: "att1_aimu_dma_desc \<Rightarrow> bool" where
  "validate_q4 d =
     (if d_dtype d = DMA_DTYPE_Q4 then
        (let gs = d_quant_group_size d
         in if gs \<noteq> 32 \<and> gs \<noteq> 64 then False
            else (let group_bytes = (ucast gs :: u32) div 2 in d_byte_length d mod group_bytes = 0))
      else True)"

definition validate_host_transfer :: "att1_aimu_dma \<Rightarrow> att1_aimu_dma_desc \<Rightarrow> dma_vresult" where
  "validate_host_transfer sim d =
     (let len = ucast (d_byte_length d)
      in if d_host_addr d mod DMA_ALIGN_BYTES \<noteq> 0 then DMA_ERR_ALIGNMENT
         else if d_device_addr d mod DMA_ALIGN_BYTES \<noteq> 0 then DMA_ERR_ALIGNMENT
         else
          (let h_end = d_host_addr d + len; d_end = d_device_addr d + len
           in if h_end < d_host_addr d then DMA_ERR_OVERFLOW
              else if d_end < d_device_addr d then DMA_ERR_OVERFLOW
              else if dma_host_regions sim \<noteq> []
                   \<and> \<not> fits_any_region (dma_host_regions sim) (d_host_addr d) len then DMA_ERR_RANGE
              else if dma_device_regions sim \<noteq> []
                   \<and> \<not> fits_any_region (dma_device_regions sim) (d_device_addr d) len then DMA_ERR_RANGE
              else DMA_VALID))"

definition validate_d2d_transfer :: "att1_aimu_dma \<Rightarrow> att1_aimu_dma_desc \<Rightarrow> dma_vresult" where
  "validate_d2d_transfer sim d =
     (let len = ucast (d_byte_length d)
      in if d_src_device_addr d mod DMA_ALIGN_BYTES \<noteq> 0 then DMA_ERR_ALIGNMENT
         else if d_dst_device_addr d mod DMA_ALIGN_BYTES \<noteq> 0 then DMA_ERR_ALIGNMENT
         else
          (let s_end = d_src_device_addr d + len; d_end = d_dst_device_addr d + len
           in if s_end < d_src_device_addr d then DMA_ERR_OVERFLOW
              else if d_end < d_dst_device_addr d then DMA_ERR_OVERFLOW
              else if ranges_overlap (d_src_device_addr d) len (d_dst_device_addr d) len
                   then DMA_ERR_D2D_OVERLAP
              else if dma_device_regions sim \<noteq> []
                   \<and> \<not> fits_any_region (dma_device_regions sim) (d_src_device_addr d) len then DMA_ERR_RANGE
              else if dma_device_regions sim \<noteq> []
                   \<and> \<not> fits_any_region (dma_device_regions sim) (d_dst_device_addr d) len then DMA_ERR_RANGE
              else DMA_VALID))"

definition validate_desc :: "att1_aimu_dma option \<Rightarrow> att1_aimu_dma_desc option \<Rightarrow> dma_vresult" where
  "validate_desc simp dp =
     (case (simp, dp) of
        (Some sim, Some d) \<Rightarrow>
          (if DMA_DEVICE_TO_DEVICE < d_direction d then DMA_ERR_DIRECTION
           else if d_byte_length d = 0 \<or> DMA_MAX_TRANSFER_BYTES < d_byte_length d then DMA_ERR_BYTE_LENGTH
           else if d_flags d AND NOT DMA_FLAG_VALID_MASK \<noteq> 0 then DMA_ERR_FLAGS
           else if d_dtype d \<noteq> DMA_DTYPE_F32 \<and> d_dtype d \<noteq> DMA_DTYPE_Q8 \<and> d_dtype d \<noteq> DMA_DTYPE_Q4
                then DMA_ERR_DTYPE
           else if \<not> validate_q4 d then DMA_ERR_Q4_ALIGN
           else if d_direction d = DMA_HOST_TO_DEVICE \<or> d_direction d = DMA_DEVICE_TO_HOST
                then validate_host_transfer sim d
           else validate_d2d_transfer sim d)
      | _ \<Rightarrow> DMA_ERR_NULL)"

section \<open>Lifecycle and regions\<close>

definition new_dma :: att1_aimu_dma where
  "new_dma = \<lparr>dma_magic = DMA_MAGIC, dma_host_regions = [], dma_device_regions = [],
     dma_counters = zero_dma_counters, dma_next_descriptor_id = 1\<rparr>"

definition att1_aimu_dma_create :: "bool \<Rightarrow> bool \<Rightarrow> att1_status \<times> att1_aimu_dma option" where
  "att1_aimu_dma_create alloc out_ok =
     (if \<not> out_ok then (ATT1_ERR_INVALID_ARG, None)
      else if \<not> alloc then (ATT1_ERR_OOM, None)
      else (ATT1_OK, Some new_dma))"

definition att1_aimu_dma_register_host_region ::
  "att1_aimu_dma option \<Rightarrow> u64 \<Rightarrow> u64 \<Rightarrow> att1_status \<times> att1_aimu_dma option" where
  "att1_aimu_dma_register_host_region simp base sz =
     (case simp of
        None \<Rightarrow> (ATT1_ERR_INVALID_ARG, simp)
      | Some sim \<Rightarrow>
        (if sz = 0 then (ATT1_ERR_INVALID_ARG, simp)
         else if base mod DMA_ALIGN_BYTES \<noteq> 0 then (ATT1_ERR_INVALID_ARG, simp)
         else if DMA_MAX_HOST_REGIONS \<le> length (dma_host_regions sim) then (ATT1_ERR_STATE, simp)
         else (ATT1_OK, Some (sim\<lparr>dma_host_regions :=
                 dma_host_regions sim @ [\<lparr>rg_base = base, rg_size = sz\<rparr>]\<rparr>))))"

definition att1_aimu_dma_register_device_region ::
  "att1_aimu_dma option \<Rightarrow> u64 \<Rightarrow> u64 \<Rightarrow> att1_status \<times> att1_aimu_dma option" where
  "att1_aimu_dma_register_device_region simp base sz =
     (case simp of
        None \<Rightarrow> (ATT1_ERR_INVALID_ARG, simp)
      | Some sim \<Rightarrow>
        (if sz = 0 then (ATT1_ERR_INVALID_ARG, simp)
         else if base mod DMA_ALIGN_BYTES \<noteq> 0 then (ATT1_ERR_INVALID_ARG, simp)
         else if DMA_MAX_DEVICE_REGIONS \<le> length (dma_device_regions sim) then (ATT1_ERR_STATE, simp)
         else (ATT1_OK, Some (sim\<lparr>dma_device_regions :=
                 dma_device_regions sim @ [\<lparr>rg_base = base, rg_size = sz\<rparr>]\<rparr>))))"

section \<open>Validation and submission\<close>

definition att1_aimu_dma_validate ::
  "att1_aimu_dma option \<Rightarrow> att1_aimu_dma_desc option \<Rightarrow> att1_status" where
  "att1_aimu_dma_validate simp dp =
     (if validate_desc simp dp = DMA_VALID then ATT1_OK else ATT1_ERR_INVALID_ARG)"

definition dma_count_failure :: "dma_vresult \<Rightarrow> att1_aimu_dma_counters \<Rightarrow> att1_aimu_dma_counters" where
  "dma_count_failure r c =
     (let c = c\<lparr>dc_failed := dc_failed c + 1\<rparr>
      in case r of
           DMA_ERR_ALIGNMENT \<Rightarrow> c\<lparr>dc_alignment_failures := dc_alignment_failures c + 1\<rparr>
         | DMA_ERR_OVERFLOW \<Rightarrow> c\<lparr>dc_range_failures := dc_range_failures c + 1\<rparr>
         | DMA_ERR_RANGE \<Rightarrow> c\<lparr>dc_range_failures := dc_range_failures c + 1\<rparr>
         | DMA_ERR_D2D_OVERLAP \<Rightarrow> c\<lparr>dc_range_failures := dc_range_failures c + 1\<rparr>
         | DMA_ERR_FLAGS \<Rightarrow> c\<lparr>dc_unsupported_flags := dc_unsupported_flags c + 1\<rparr>
         | _ \<Rightarrow> c)"

definition dma_count_transfer :: "att1_aimu_dma_desc \<Rightarrow> att1_aimu_dma_counters \<Rightarrow> att1_aimu_dma_counters" where
  "dma_count_transfer d c =
     (let c = c\<lparr>dc_completed := dc_completed c + 1\<rparr>; len = ucast (d_byte_length d)
      in if d_direction d = DMA_HOST_TO_DEVICE then c\<lparr>dc_bytes_h2d := dc_bytes_h2d c + len\<rparr>
         else if d_direction d = DMA_DEVICE_TO_HOST then c\<lparr>dc_bytes_d2h := dc_bytes_d2h c + len\<rparr>
         else if d_direction d = DMA_DEVICE_TO_DEVICE then c\<lparr>dc_bytes_d2d := dc_bytes_d2d c + len\<rparr>
         else c)"

definition att1_aimu_dma_submit ::
  "att1_aimu_dma option \<Rightarrow> att1_aimu_dma_desc option \<Rightarrow> att1_status \<times> att1_aimu_dma option" where
  "att1_aimu_dma_submit simp dp =
     (case (simp, dp) of
        (Some sim, Some d) \<Rightarrow>
          (let sim1 = sim\<lparr>dma_counters := (dma_counters sim)\<lparr>dc_submitted := dc_submitted (dma_counters sim) + 1\<rparr>\<rparr>;
               r = validate_desc (Some sim1) dp
           in if r \<noteq> DMA_VALID
              then (ATT1_ERR_INVALID_ARG, Some (sim1\<lparr>dma_counters := dma_count_failure r (dma_counters sim1)\<rparr>))
              else (ATT1_OK, Some (sim1\<lparr>dma_counters := dma_count_transfer d (dma_counters sim1)\<rparr>)))
      | _ \<Rightarrow> (ATT1_ERR_INVALID_ARG, simp))"

definition att1_aimu_dma_get_counters ::
  "att1_aimu_dma option \<Rightarrow> bool \<Rightarrow> att1_status \<times> att1_aimu_dma_counters option" where
  "att1_aimu_dma_get_counters simp out_ok =
     (case simp of
        Some sim \<Rightarrow> if out_ok then (ATT1_OK, Some (dma_counters sim)) else (ATT1_ERR_INVALID_ARG, None)
      | None \<Rightarrow> (ATT1_ERR_INVALID_ARG, None))"

definition att1_aimu_dma_reset_counters :: "att1_aimu_dma option \<Rightarrow> att1_status \<times> att1_aimu_dma option" where
  "att1_aimu_dma_reset_counters =
     with_ptr (\<lambda>sim. (ATT1_OK, sim\<lparr>dma_counters := zero_dma_counters\<rparr>))"

section \<open>What validation guarantees\<close>

text \<open>A span as an interval of addresses, and the spans a region list admits.\<close>

definition span :: "u64 \<Rightarrow> u32 \<Rightarrow> range" where
  "span a len = (unat a, unat len)"

definition span_ok :: "att1_aimu_dma_region list \<Rightarrow> u64 \<Rightarrow> u32 \<Rightarrow> bool" where
  "span_ok rs a len \<longleftrightarrow> unat a mod 64 = 0 \<and> unat a + unat len < 2 ^ 64
     \<and> (rs \<noteq> [] \<longrightarrow> (\<exists>r \<in> set rs. unat (rg_base r) + unat (rg_size r) < 2 ^ 64
          \<and> range_set (span a len) \<subseteq> {unat (rg_base r) ..< unat (rg_base r) + unat (rg_size r)}))"

lemma u64_of_u32_len: "unat (ucast (len :: u32) :: u64) = unat len"
  by (rule unat_ucast_up) simp

lemma span_no_wrap_iff:
  "\<not> a + ucast (len :: u32) < (a :: u64) \<longleftrightarrow> unat a + unat len < 2 ^ 64"
  using word_add_wraps_iff [of a "ucast len :: u64"] by (simp add: u64_of_u32_len not_le)

lemma region_contains_iff:
  assumes "len \<noteq> 0"
  shows "region_contains r a (ucast (len :: u32)) \<longleftrightarrow>
    unat a + unat len < 2 ^ 64 \<and> unat (rg_base r) + unat (rg_size r) < 2 ^ 64
    \<and> range_set (span a len) \<subseteq> {unat (rg_base r) ..< unat (rg_base r) + unat (rg_size r)}"
proof -
  have nz: "unat len \<noteq> 0" using assms by (simp add: unsigned_eq_0_iff)
  have len: "0 < unat len" "(ucast len :: u64) \<noteq> 0"
  proof -
    show "0 < unat len" using nz by simp
    show "(ucast len :: u64) \<noteq> 0"
      using nz u64_of_u32_len [of len] by (metis unsigned_0)
  qed
  have sub: "range_set (span a len) \<subseteq> {x..<y} \<longleftrightarrow> x \<le> unat a \<and> unat a + unat len \<le> y" for x y
    using len(1) by (auto simp: range_set_def span_def ivl_subset)
  have w: "\<not> a + ucast len < a \<longleftrightarrow> unat a + unat len < 2 ^ 64"
    "\<not> rg_base r + rg_size r < rg_base r \<longleftrightarrow> unat (rg_base r) + unat (rg_size r) < 2 ^ 64"
    using span_no_wrap_iff [of a len] word_add_wraps_iff [of "rg_base r" "rg_size r"] by auto
  have e: "unat a + unat len < 2 ^ 64 \<Longrightarrow> unat (a + ucast len) = unat a + unat len"
    "unat (rg_base r) + unat (rg_size r) < 2 ^ 64 \<Longrightarrow>
      unat (rg_base r + rg_size r) = unat (rg_base r) + unat (rg_size r)"
    by (simp_all add: unat_add_no_wrap u64_of_u32_len)
  show ?thesis
  proof (cases "unat a + unat len < 2 ^ 64 \<and> unat (rg_base r) + unat (rg_size r) < 2 ^ 64")
    case True
    then have n: "\<not> a + ucast len < a" "\<not> rg_base r + rg_size r < rg_base r" using w by auto
    show ?thesis
      using True n len(2) e unfolding sub
      by (auto simp: region_contains_def Let_def word_le_nat_alt word_less_nat_alt)
  next
    case False
    then have "a + ucast len < a \<or> rg_base r + rg_size r < rg_base r" using w by auto
    then show ?thesis using False len(2) by (auto simp: region_contains_def Let_def)
  qed
qed

lemma fits_any_region_iff: "fits_any_region rs a len \<longleftrightarrow> (\<exists>r \<in> set rs. region_contains r a len)"
  by (induction rs) auto

lemma mod_align_iff: "(a :: u64) mod DMA_ALIGN_BYTES = 0 \<longleftrightarrow> unat a mod 64 = 0"
  by (simp add: dma_consts unat_mod_distrib flip: unat_eq_zero)

lemma span_ok_iff:
  assumes "len \<noteq> 0"
  shows "span_ok rs a len \<longleftrightarrow> a mod DMA_ALIGN_BYTES = 0 \<and> \<not> a + ucast len < a
    \<and> (rs \<noteq> [] \<longrightarrow> fits_any_region rs a (ucast len))"
  unfolding span_ok_def mod_align_iff span_no_wrap_iff fits_any_region_iff
    region_contains_iff [OF assms] by auto

lemma ranges_overlap_iff:
  assumes "unat a + unat la < 2 ^ 64" "unat b + unat lb < 2 ^ 64" "la \<noteq> 0" "lb \<noteq> 0"
  shows "ranges_overlap a (ucast (la :: u32)) b (ucast (lb :: u32))
    \<longleftrightarrow> range_set (span a la) \<inter> range_set (span b lb) \<noteq> {}"
proof -
  have e: "unat (a + ucast la) = unat a + unat la" "unat (b + ucast lb) = unat b + unat lb"
    using assms by (simp_all add: unat_add_no_wrap u64_of_u32_len)
  have "\<not> a + ucast la < a" "\<not> b + ucast lb < b"
    using assms(1,2) by (simp_all add: span_no_wrap_iff)
  then have "ranges_overlap a (ucast la) b (ucast lb) \<longleftrightarrow> \<not> apart (span a la) (span b lb)"
    using e by (auto simp: ranges_overlap_def Let_def apart_def span_def word_le_nat_alt)
  also have "\<dots> \<longleftrightarrow> range_set (span a la) \<inter> range_set (span b lb) \<noteq> {}"
    using assms(3,4) by (simp add: apart_iff_disjoint span_def unat_gt_0)
  finally show ?thesis .
qed

text \<open>The descriptors the checks without addresses accept.\<close>

definition desc_shape_ok :: "att1_aimu_dma_desc \<Rightarrow> bool" where
  "desc_shape_ok d \<longleftrightarrow> d_direction d \<in> {0, 1, 2} \<and> 0 < unat (d_byte_length d)
     \<and> unat (d_byte_length d) \<le> 2 ^ 28 \<and> d_flags d AND NOT 0x000F = 0 \<and> d_dtype d \<in> {0, 1, 2}
     \<and> (d_dtype d = 2 \<longrightarrow> d_quant_group_size d \<in> {32, 64}
          \<and> 2 * unat (d_byte_length d) mod unat (d_quant_group_size d) = 0)"

definition desc_spec :: "att1_aimu_dma \<Rightarrow> att1_aimu_dma_desc \<Rightarrow> bool" where
  "desc_spec sim d \<longleftrightarrow> desc_shape_ok d \<and>
     (if d_direction d = 2
      then span_ok (dma_device_regions sim) (d_src_device_addr d) (d_byte_length d)
        \<and> span_ok (dma_device_regions sim) (d_dst_device_addr d) (d_byte_length d)
        \<and> range_set (span (d_src_device_addr d) (d_byte_length d))
          \<inter> range_set (span (d_dst_device_addr d) (d_byte_length d)) = {}
      else span_ok (dma_host_regions sim) (d_host_addr d) (d_byte_length d)
        \<and> span_ok (dma_device_regions sim) (d_device_addr d) (d_byte_length d))"

lemma direction_cases:
  "\<not> DMA_DEVICE_TO_DEVICE < (x :: u8) \<longleftrightarrow> x \<in> {0, 1, 2}"
  by (auto simp: dma_consts word_less_nat_alt word_unat_eq_iff)

lemma q4_iff:
  "validate_q4 d \<longleftrightarrow> (d_dtype d = 2 \<longrightarrow> d_quant_group_size d \<in> {32, 64}
     \<and> 2 * unat (d_byte_length d) mod unat (d_quant_group_size d) = 0)"
proof -
  have "d_byte_length d mod 16 = 0 \<longleftrightarrow> 2 * unat (d_byte_length d) mod 32 = 0"
    "d_byte_length d mod 32 = 0 \<longleftrightarrow> 2 * unat (d_byte_length d) mod 64 = 0"
    by (simp_all add: unat_mod_distrib flip: unat_eq_zero) presburger+
  then show ?thesis by (auto simp: validate_q4_def dma_consts Let_def)
qed

lemma host_transfer_valid_iff:
  assumes "d_byte_length d \<noteq> 0"
  shows "validate_host_transfer sim d = DMA_VALID \<longleftrightarrow>
    span_ok (dma_host_regions sim) (d_host_addr d) (d_byte_length d)
    \<and> span_ok (dma_device_regions sim) (d_device_addr d) (d_byte_length d)"
  unfolding span_ok_iff [OF assms] by (auto simp: validate_host_transfer_def Let_def)

lemma d2d_transfer_valid_iff:
  assumes "d_byte_length d \<noteq> 0"
  shows "validate_d2d_transfer sim d = DMA_VALID \<longleftrightarrow>
    span_ok (dma_device_regions sim) (d_src_device_addr d) (d_byte_length d)
    \<and> span_ok (dma_device_regions sim) (d_dst_device_addr d) (d_byte_length d)
    \<and> range_set (span (d_src_device_addr d) (d_byte_length d))
      \<inter> range_set (span (d_dst_device_addr d) (d_byte_length d)) = {}"
proof -
  have "validate_d2d_transfer sim d = DMA_VALID \<longleftrightarrow>
    span_ok (dma_device_regions sim) (d_src_device_addr d) (d_byte_length d)
    \<and> span_ok (dma_device_regions sim) (d_dst_device_addr d) (d_byte_length d)
    \<and> \<not> ranges_overlap (d_src_device_addr d) (ucast (d_byte_length d)) (d_dst_device_addr d)
        (ucast (d_byte_length d))"
    unfolding span_ok_iff [OF assms] by (auto simp: validate_d2d_transfer_def Let_def)
  also have "\<dots> \<longleftrightarrow> span_ok (dma_device_regions sim) (d_src_device_addr d) (d_byte_length d)
    \<and> span_ok (dma_device_regions sim) (d_dst_device_addr d) (d_byte_length d)
    \<and> range_set (span (d_src_device_addr d) (d_byte_length d))
      \<inter> range_set (span (d_dst_device_addr d) (d_byte_length d)) = {}"
    using ranges_overlap_iff [of "d_src_device_addr d" "d_byte_length d" "d_dst_device_addr d" "d_byte_length d"]
      assms by (auto simp: span_ok_def)
  finally show ?thesis .
qed

lemma validate_desc_iff: "validate_desc (Some sim) (Some d) = DMA_VALID \<longleftrightarrow> desc_spec sim d"
proof (cases "d_byte_length d = 0")
  case True
  then show ?thesis by (auto simp: validate_desc_def desc_spec_def desc_shape_ok_def)
next
  case False
  have len: "\<not> DMA_MAX_TRANSFER_BYTES < d_byte_length d \<longleftrightarrow> unat (d_byte_length d) \<le> 2 ^ 28"
    by (simp add: dma_consts word_less_nat_alt not_less)
  have dir: "d_direction d = 0 \<or> d_direction d = 1 \<longleftrightarrow> d_direction d \<noteq> 2" if "d_direction d \<in> {0, 1, 2}"
    using that by auto
  have valid: "validate_desc (Some sim) (Some d) = DMA_VALID \<longleftrightarrow> desc_shape_ok d \<and>
    (if d_direction d = 2 then validate_d2d_transfer sim d = DMA_VALID
     else validate_host_transfer sim d = DMA_VALID)"
    using False direction_cases [of "d_direction d"] len q4_iff [of d] dir
    by (auto simp: validate_desc_def desc_shape_ok_def DMA_FLAG_VALID_MASK_def DMA_HOST_TO_DEVICE_def
        DMA_DEVICE_TO_HOST_def DMA_DTYPE_F32_def DMA_DTYPE_Q8_def DMA_DTYPE_Q4_def unat_gt_0)
  show ?thesis
    unfolding valid desc_spec_def host_transfer_valid_iff [OF False] d2d_transfer_valid_iff [OF False] ..
qed

end
