(* ===== verification/Aimu_Dma_Props.thy ===== *)
theory Aimu_Dma_Props
  imports Aimu_Dma
begin

text \<open>
  Properties of the DMA simulator: acceptance is exactly the stated contract of a descriptor,
  the counters of a run of submissions account for every descriptor, and the fields the
  validation does not look at.
\<close>

section \<open>Runs of submissions\<close>

fun dma_submit_all :: "att1_aimu_dma_desc list \<Rightarrow> att1_aimu_dma \<Rightarrow> att1_aimu_dma" where
  "dma_submit_all [] sim = sim"
| "dma_submit_all (d # ds) sim =
     dma_submit_all ds (the (snd (att1_aimu_dma_submit (Some sim) (Some d))))"

lemma validate_desc_counters:
  "validate_desc (Some (sim\<lparr>dma_counters := c\<rparr>)) dp = validate_desc (Some sim) dp"
proof -
  have "validate_host_transfer (sim\<lparr>dma_counters := c\<rparr>) d = validate_host_transfer sim d"
    "validate_d2d_transfer (sim\<lparr>dma_counters := c\<rparr>) d = validate_d2d_transfer sim d" for d
    by (simp_all add: validate_host_transfer_def validate_d2d_transfer_def Let_def cong: if_cong)
  then show ?thesis by (simp add: validate_desc_def split: option.split)
qed

lemma submit_eq:
  "att1_aimu_dma_submit (Some sim) (Some d) =
    (let c = (dma_counters sim)\<lparr>dc_submitted := dc_submitted (dma_counters sim) + 1\<rparr>;
         r = validate_desc (Some sim) (Some d)
     in if desc_spec sim d then (ATT1_OK, Some (sim\<lparr>dma_counters := dma_count_transfer d c\<rparr>))
        else (ATT1_ERR_INVALID_ARG, Some (sim\<lparr>dma_counters := dma_count_failure r c\<rparr>)))"
  using validate_desc_iff [of sim d]
  by (simp add: att1_aimu_dma_submit_def validate_desc_counters Let_def)

text \<open>What a run adds to the counters.\<close>

definition accepted :: "att1_aimu_dma \<Rightarrow> att1_aimu_dma_desc list \<Rightarrow> att1_aimu_dma_desc list" where
  "accepted sim ds = filter (desc_spec sim) ds"

definition bytes_moved :: "u8 \<Rightarrow> att1_aimu_dma_desc list \<Rightarrow> nat" where
  "bytes_moved dir ds = (\<Sum>d \<leftarrow> filter (\<lambda>d. d_direction d = dir) ds. unat (d_byte_length d))"

lemma desc_spec_cong:
  "dma_host_regions sim = dma_host_regions sim' \<Longrightarrow> dma_device_regions sim = dma_device_regions sim'
   \<Longrightarrow> desc_spec sim = desc_spec sim'"
  by (rule ext) (simp add: desc_spec_def)

lemma count_failure_simps:
  "dc_submitted (dma_count_failure r c) = dc_submitted c"
  "dc_completed (dma_count_failure r c) = dc_completed c"
  "dc_failed (dma_count_failure r c) = dc_failed c + 1"
  "dc_bytes_h2d (dma_count_failure r c) = dc_bytes_h2d c"
  "dc_bytes_d2h (dma_count_failure r c) = dc_bytes_d2h c"
  "dc_bytes_d2d (dma_count_failure r c) = dc_bytes_d2d c"
  by (simp_all add: dma_count_failure_def Let_def split: dma_vresult.split)

lemma count_transfer_simps:
  "dc_submitted (dma_count_transfer d c) = dc_submitted c"
  "dc_completed (dma_count_transfer d c) = dc_completed c + 1"
  "dc_failed (dma_count_transfer d c) = dc_failed c"
  "dc_bytes_h2d (dma_count_transfer d c) =
     dc_bytes_h2d c + (if d_direction d = 0 then word_of_nat (unat (d_byte_length d)) else 0)"
  "dc_bytes_d2h (dma_count_transfer d c) =
     dc_bytes_d2h c + (if d_direction d = 1 then word_of_nat (unat (d_byte_length d)) else 0)"
  "dc_bytes_d2d (dma_count_transfer d c) =
     dc_bytes_d2d c + (if d_direction d = 2 then word_of_nat (unat (d_byte_length d)) else 0)"
  by (simp_all add: dma_count_transfer_def Let_def dma_consts unsigned_ucast_eq)

lemma submit_frame:
  assumes "att1_aimu_dma_submit (Some sim) (Some d) = (st, Some sim')"
  shows "dma_host_regions sim' = dma_host_regions sim" "dma_device_regions sim' = dma_device_regions sim"
    "desc_spec sim' = desc_spec sim"
proof -
  show r: "dma_host_regions sim' = dma_host_regions sim" "dma_device_regions sim' = dma_device_regions sim"
    using assms by (auto simp: submit_eq Let_def split: if_splits)
  show "desc_spec sim' = desc_spec sim" by (rule desc_spec_cong) (simp_all add: r)
qed

lemma dma_run_counters:
  "dc_submitted (dma_counters (dma_submit_all ds sim))
     = dc_submitted (dma_counters sim) + word_of_nat (length ds)
   \<and> dc_completed (dma_counters (dma_submit_all ds sim))
     = dc_completed (dma_counters sim) + word_of_nat (length (accepted sim ds))
   \<and> dc_failed (dma_counters (dma_submit_all ds sim))
     = dc_failed (dma_counters sim) + word_of_nat (length ds - length (accepted sim ds))
   \<and> dc_bytes_h2d (dma_counters (dma_submit_all ds sim))
     = dc_bytes_h2d (dma_counters sim) + word_of_nat (bytes_moved 0 (accepted sim ds))
   \<and> dc_bytes_d2h (dma_counters (dma_submit_all ds sim))
     = dc_bytes_d2h (dma_counters sim) + word_of_nat (bytes_moved 1 (accepted sim ds))
   \<and> dc_bytes_d2d (dma_counters (dma_submit_all ds sim))
     = dc_bytes_d2d (dma_counters sim) + word_of_nat (bytes_moved 2 (accepted sim ds))"
proof (induction ds arbitrary: sim)
  case Nil
  then show ?case by (simp add: accepted_def bytes_moved_def)
next
  case (Cons d ds)
  obtain st sim' where s: "att1_aimu_dma_submit (Some sim) (Some d) = (st, Some sim')"
    by (cases "desc_spec sim d") (auto simp: submit_eq Let_def)
  have acc: "accepted sim' ds = accepted sim ds" by (simp add: accepted_def submit_frame(3) [OF s])
  have le: "length (accepted sim ds) \<le> length ds" by (simp add: accepted_def)
  show ?case
  proof (cases "desc_spec sim d")
    case True
    then have c: "dma_counters sim' = dma_count_transfer d ((dma_counters sim)\<lparr>dc_submitted := dc_submitted (dma_counters sim) + 1\<rparr>)"
      "accepted sim (d # ds) = d # accepted sim ds"
      using s by (auto simp: submit_eq Let_def accepted_def)
    show ?thesis
      using Cons.IH [of sim'] acc s c(2)
      by (simp add: c(1) count_transfer_simps bytes_moved_def)
  next
    case False
    then obtain r where c: "dma_counters sim' = dma_count_failure r ((dma_counters sim)\<lparr>dc_submitted := dc_submitted (dma_counters sim) + 1\<rparr>)"
      "accepted sim (d # ds) = accepted sim ds"
      using s by (auto simp: submit_eq Let_def accepted_def)
    show ?thesis
      using Cons.IH [of sim'] acc s c(2) le
      by (simp add: c(1) count_failure_simps Suc_diff_le)
  qed
qed

section \<open>Concrete descriptors\<close>

definition demo_desc :: "u8 \<Rightarrow> u64 \<Rightarrow> u64 \<Rightarrow> u32 \<Rightarrow> att1_aimu_dma_desc" where
  "demo_desc dir a b len = \<lparr>d_host_addr = a, d_device_addr = b, d_src_device_addr = a,
     d_dst_device_addr = b, d_byte_length = len, d_descriptor_id = 1, d_command_id = 1,
     d_tensor_id = 1, d_checksum = 0, d_dim0 = 0, d_dim1 = 0, d_flags = 0, d_dtype = 1,
     d_quant_group_size = 0, d_direction = dir\<rparr>"

section \<open>Properties\<close>

text \<open>
  C37. A descriptor is accepted exactly when it satisfies the stated contract: a known
  direction and data type, 1 to \<open>2 ^ 28\<close> bytes, known flags, whole quantisation groups for
  Q4, addresses that are multiples of 64, spans that do not run past the end of the address
  space and lie inside one registered region where regions are registered, and disjoint
  source and destination for a device-to-device transfer.
\<close>

theorem dma_validate_iff:
  "att1_aimu_dma_validate (Some sim) (Some d) = ATT1_OK \<longleftrightarrow> desc_spec sim d"
  using validate_desc_iff [of sim d] by (simp add: att1_aimu_dma_validate_def)

text \<open>
  A device-to-device transfer that is accepted copies between disjoint spans, neither of
  which wraps, and each of which lies inside a registered device region when there is one.
\<close>

theorem dma_d2d_safe:
  assumes "att1_aimu_dma_submit (Some sim) (Some d) = (ATT1_OK, sp)" "d_direction d = 2"
    and "dma_device_regions sim \<noteq> []"
  shows "range_set (span (d_src_device_addr d) (d_byte_length d))
        \<inter> range_set (span (d_dst_device_addr d) (d_byte_length d)) = {}
    \<and> (\<forall>a \<in> {d_src_device_addr d, d_dst_device_addr d}.
        unat a + unat (d_byte_length d) < 2 ^ 64 \<and>
        (\<exists>r \<in> set (dma_device_regions sim).
          range_set (span a (d_byte_length d)) \<subseteq> {unat (rg_base r) ..< unat (rg_base r) + unat (rg_size r)}))"
proof -
  have "desc_spec sim d" using assms(1) by (auto simp: submit_eq Let_def split: if_splits)
  then show ?thesis using assms(2,3) by (auto simp: desc_spec_def span_ok_def)
qed

definition demo_dma :: att1_aimu_dma where
  "demo_dma = new_dma\<lparr>dma_device_regions := [\<lparr>rg_base = 0, rg_size = 4096\<rparr>]\<rparr>"

lemma demo_dma_register:
  "att1_aimu_dma_register_device_region (Some new_dma) 0 4096 = (ATT1_OK, Some demo_dma)"
  by (simp add: att1_aimu_dma_register_device_region_def new_dma_def demo_dma_def dma_consts)

lemma demo_desc_valid: "desc_spec demo_dma (demo_desc 2 0 1024 512)"
  unfolding validate_desc_iff [symmetric] by code_simp

theorem dma_d2d_safe_witness:
  "range_set (span 0 512) \<inter> range_set (span 1024 512) = {}
   \<and> fst (att1_aimu_dma_submit (Some demo_dma) (Some (demo_desc 2 0 1024 512))) = ATT1_OK"
proof -
  have s: "att1_aimu_dma_submit (Some demo_dma) (Some (demo_desc 2 0 1024 512))
      = (ATT1_OK, snd (att1_aimu_dma_submit (Some demo_dma) (Some (demo_desc 2 0 1024 512))))"
    using demo_desc_valid by (simp add: submit_eq Let_def)
  have "dma_device_regions demo_dma \<noteq> []" by (simp add: demo_dma_def)
  note sep = dma_d2d_safe [OF s _ this]
  have "d_src_device_addr (demo_desc 2 0 1024 512) = 0" "d_dst_device_addr (demo_desc 2 0 1024 512) = 1024"
    "d_byte_length (demo_desc 2 0 1024 512) = 512" "d_direction (demo_desc 2 0 1024 512) = 2"
    by (simp_all add: demo_desc_def)
  with sep have "range_set (span 0 512) \<inter> range_set (span 1024 512) = {}" by simp
  moreover have "fst (att1_aimu_dma_submit (Some demo_dma) (Some (demo_desc 2 0 1024 512))) = ATT1_OK"
    using s by (metis fst_conv)
  ultimately show ?thesis ..
qed

text \<open>
  Accounting: after any run of submissions on a simulator with zeroed counters, the
  submitted count is the number of descriptors, each of them is counted once as completed or
  failed, and the byte counter of each direction is the sum of the lengths of the accepted
  transfers of that direction, all modulo \<open>2 ^ 64\<close>.
\<close>

theorem dma_run_accounting:
  assumes "dma_counters sim = zero_dma_counters"
  shows "dc_submitted (dma_counters (dma_submit_all ds sim)) = word_of_nat (length ds)
    \<and> dc_completed (dma_counters (dma_submit_all ds sim)) = word_of_nat (length (accepted sim ds))
    \<and> dc_completed (dma_counters (dma_submit_all ds sim)) + dc_failed (dma_counters (dma_submit_all ds sim))
        = dc_submitted (dma_counters (dma_submit_all ds sim))
    \<and> dc_bytes_h2d (dma_counters (dma_submit_all ds sim)) = word_of_nat (bytes_moved 0 (accepted sim ds))
    \<and> dc_bytes_d2h (dma_counters (dma_submit_all ds sim)) = word_of_nat (bytes_moved 1 (accepted sim ds))
    \<and> dc_bytes_d2d (dma_counters (dma_submit_all ds sim)) = word_of_nat (bytes_moved 2 (accepted sim ds))"
proof -
  have "length (accepted sim ds) \<le> length ds" by (simp add: accepted_def)
  then have "word_of_nat (length (accepted sim ds)) + word_of_nat (length ds - length (accepted sim ds))
      = (word_of_nat (length ds) :: u64)"
    by (simp flip: of_nat_add)
  then show ?thesis
    using dma_run_counters [of ds sim] assms by (simp add: zero_dma_counters_def)
qed

theorem dma_run_accounting_witness:
  "dc_completed (dma_counters (dma_submit_all [demo_desc 2 0 1024 512, demo_desc 2 0 256 512] demo_dma)) = 1
   \<and> dc_bytes_d2d (dma_counters (dma_submit_all [demo_desc 2 0 1024 512, demo_desc 2 0 256 512] demo_dma)) = 512"
proof -
  have "\<not> desc_spec demo_dma (demo_desc 2 0 256 512)"
    unfolding validate_desc_iff [symmetric] by code_simp
  then have acc: "accepted demo_dma [demo_desc 2 0 1024 512, demo_desc 2 0 256 512] = [demo_desc 2 0 1024 512]"
    using demo_desc_valid by (simp add: accepted_def)
  have "dma_counters demo_dma = zero_dma_counters" by (simp add: demo_dma_def new_dma_def)
  from dma_run_accounting [OF this, of "[demo_desc 2 0 1024 512, demo_desc 2 0 256 512]"]
  show ?thesis unfolding acc by (simp add: bytes_moved_def demo_desc_def)
qed

end
