(* ===== verification/Aimu_Device.thy ===== *)
theory Aimu_Device
  imports Aimu_Cmdq
begin

text \<open>
  The AIMU device and tile capability simulator (\<^verbatim>\<open>src/aimu_device.c\<close>). The tile array is
  filled front to back at creation, so the model keeps its used prefix \<open>dev_tiles\<close>. The attached
  command queue is not owned by the device: the model keeps its address and the snapshot
  operation reads the queue through a store.
\<close>

section \<open>State\<close>

datatype att1_aimu_tile_state = TILE_IDLE | TILE_ACTIVE | TILE_ERROR | TILE_RESET

record att1_aimu_tile_info =
  ti_tile_id :: u8
  ti_state :: att1_aimu_tile_state
  ti_memory_capacity_bytes :: u64
  ti_kv_capacity_bytes :: u64
  ti_supported_dtypes :: u32
  ti_supported_ops :: u32
  ti_fabric_link_mask :: u16
  ti_max_sessions :: u8
  ti_error_code :: u8
  ti_memory_used_bytes :: u64
  ti_kv_used_bytes :: u64
  ti_reset_count :: u32

record att1_aimu_device_version =
  ver_major :: u8
  ver_minor :: u8
  ver_patch :: u8
  ver_build :: u8

record att1_aimu_device_info =
  di_register_map_version :: u32
  di_version :: att1_aimu_device_version
  di_feature_flags :: u64
  di_tile_count :: size_t
  di_global_status :: u32
  di_global_error :: u32

record att1_aimu_device_config =
  dcfg_tile_count :: size_t
  dcfg_tile_memory_bytes :: u64
  dcfg_tile_kv_bytes :: u64
  dcfg_supported_dtypes :: u32
  dcfg_supported_ops :: u32
  dcfg_feature_flags :: u64
  dcfg_version :: att1_aimu_device_version

record 'q att1_aimu_device =
  dev_magic :: u32
  dev_register_map_version :: u32
  dev_version :: att1_aimu_device_version
  dev_feature_flags :: u64
  dev_tile_count :: size_t
  dev_tiles :: "att1_aimu_tile_info list"
  dev_global_status :: u32
  dev_global_error :: u32
  dev_reset_count :: u32
  dev_cmdq :: "'q option"

definition DEVICE_MAX_TILES :: size_t where "DEVICE_MAX_TILES = 16"
definition DEVICE_MAGIC :: u32 where "DEVICE_MAGIC = 0xA771DE7C"
definition REGISTER_MAP_VERSION :: u32 where "REGISTER_MAP_VERSION = 0x00010000"
definition DEFAULT_TILE_MEMORY_BYTES :: u64 where "DEFAULT_TILE_MEMORY_BYTES = push_bit 30 1"
definition DEFAULT_TILE_KV_BYTES :: u64 where "DEFAULT_TILE_KV_BYTES = push_bit 20 256"
definition DEFAULT_MAX_SESSIONS :: u8 where "DEFAULT_MAX_SESSIONS = 4"
definition DEVICE_DEFAULT_VERSION :: att1_aimu_device_version where
  "DEVICE_DEFAULT_VERSION = \<lparr>ver_major = 0, ver_minor = 1, ver_patch = 0, ver_build = 0\<rparr>"

definition FEAT_CMD_RING :: u64 where "FEAT_CMD_RING = push_bit 0 1"
definition FEAT_COMP_RING :: u64 where "FEAT_COMP_RING = push_bit 1 1"
definition FEAT_TRACE :: u64 where "FEAT_TRACE = push_bit 4 1"
definition FEAT_COUNTERS :: u64 where "FEAT_COUNTERS = push_bit 5 1"
definition FEAT_MULTI_SESSION :: u64 where "FEAT_MULTI_SESSION = push_bit 7 1"
definition FEAT_FENCE :: u64 where "FEAT_FENCE = push_bit 8 1"
definition FEAT_KV_MMU :: u64 where "FEAT_KV_MMU = push_bit 9 1"
definition FEAT_PLACEMENT_AWARE :: u64 where "FEAT_PLACEMENT_AWARE = push_bit 10 1"
definition DEVICE_DEFAULT_FEATURES :: u64 where
  "DEVICE_DEFAULT_FEATURES = FEAT_CMD_RING OR FEAT_COMP_RING OR FEAT_TRACE OR FEAT_COUNTERS
     OR FEAT_MULTI_SESSION OR FEAT_FENCE OR FEAT_KV_MMU OR FEAT_PLACEMENT_AWARE"

definition DTYPE_F32 :: u32 where "DTYPE_F32 = push_bit 0 1"
definition DTYPE_Q8 :: u32 where "DTYPE_Q8 = push_bit 1 1"
definition DTYPE_Q4 :: u32 where "DTYPE_Q4 = push_bit 2 1"
definition DTYPE_ALL :: u32 where "DTYPE_ALL = DTYPE_F32 OR DTYPE_Q8 OR DTYPE_Q4"

definition OP_MATMUL :: u32 where "OP_MATMUL = push_bit 0 1"
definition OP_RMSNORM :: u32 where "OP_RMSNORM = push_bit 1 1"
definition OP_ROPE :: u32 where "OP_ROPE = push_bit 2 1"
definition OP_ATTENTION :: u32 where "OP_ATTENTION = push_bit 3 1"
definition OP_FFN :: u32 where "OP_FFN = push_bit 4 1"
definition OP_KV_APPEND :: u32 where "OP_KV_APPEND = push_bit 5 1"
definition OP_KV_READ :: u32 where "OP_KV_READ = push_bit 6 1"
definition OP_FABRIC_SEND :: u32 where "OP_FABRIC_SEND = push_bit 7 1"
definition OP_FABRIC_REDUCE :: u32 where "OP_FABRIC_REDUCE = push_bit 8 1"
definition OP_ALL :: u32 where
  "OP_ALL = OP_MATMUL OR OP_RMSNORM OR OP_ROPE OR OP_ATTENTION OR OP_FFN OR OP_KV_APPEND
     OR OP_KV_READ OR OP_FABRIC_SEND OR OP_FABRIC_REDUCE"

lemmas op_bits =
  OP_MATMUL_def OP_RMSNORM_def OP_ROPE_def OP_ATTENTION_def OP_FFN_def OP_KV_APPEND_def
  OP_KV_READ_def OP_FABRIC_SEND_def OP_FABRIC_REDUCE_def

section \<open>Lifecycle\<close>

definition effective_config :: "att1_aimu_device_config option \<Rightarrow> att1_aimu_device_config" where
  "effective_config config =
     (case config of
        None \<Rightarrow> \<lparr>dcfg_tile_count = 1, dcfg_tile_memory_bytes = DEFAULT_TILE_MEMORY_BYTES,
                 dcfg_tile_kv_bytes = DEFAULT_TILE_KV_BYTES, dcfg_supported_dtypes = DTYPE_ALL,
                 dcfg_supported_ops = OP_ALL, dcfg_feature_flags = DEVICE_DEFAULT_FEATURES,
                 dcfg_version = DEVICE_DEFAULT_VERSION\<rparr>
      | Some c \<Rightarrow>
          \<lparr>dcfg_tile_count = (if dcfg_tile_count c = 0 then 1 else dcfg_tile_count c),
           dcfg_tile_memory_bytes =
             (if dcfg_tile_memory_bytes c = 0 then DEFAULT_TILE_MEMORY_BYTES else dcfg_tile_memory_bytes c),
           dcfg_tile_kv_bytes =
             (if dcfg_tile_kv_bytes c = 0 then DEFAULT_TILE_KV_BYTES else dcfg_tile_kv_bytes c),
           dcfg_supported_dtypes =
             (if dcfg_supported_dtypes c = 0 then DTYPE_ALL else dcfg_supported_dtypes c),
           dcfg_supported_ops = (if dcfg_supported_ops c = 0 then OP_ALL else dcfg_supported_ops c),
           dcfg_feature_flags =
             (if dcfg_feature_flags c = 0 then DEVICE_DEFAULT_FEATURES else dcfg_feature_flags c),
           dcfg_version =
             (let v = dcfg_version c
              in if ver_major v = 0 \<and> ver_minor v = 0 \<and> ver_patch v = 0 \<and> ver_build v = 0
                 then DEVICE_DEFAULT_VERSION else v)\<rparr>)"

text \<open>The loop that computes the link mask of tile \<open>i\<close>.\<close>

definition fabric_link_mask :: "nat \<Rightarrow> nat \<Rightarrow> u16" where
  "fabric_link_mask n i =
     fold (\<lambda>j mask. if j \<noteq> i then mask OR ucast (push_bit j 1 :: u32) else mask) [0..<n] 0"

definition new_tile :: "att1_aimu_device_config \<Rightarrow> nat \<Rightarrow> att1_aimu_tile_info" where
  "new_tile cfg i =
     \<lparr>ti_tile_id = word_of_nat i, ti_state = TILE_IDLE,
      ti_memory_capacity_bytes = dcfg_tile_memory_bytes cfg,
      ti_kv_capacity_bytes = dcfg_tile_kv_bytes cfg,
      ti_supported_dtypes = dcfg_supported_dtypes cfg,
      ti_supported_ops = dcfg_supported_ops cfg,
      ti_fabric_link_mask = fabric_link_mask (unat (dcfg_tile_count cfg)) i,
      ti_max_sessions = DEFAULT_MAX_SESSIONS, ti_error_code = 0, ti_memory_used_bytes = 0,
      ti_kv_used_bytes = 0, ti_reset_count = 0\<rparr>"

definition att1_aimu_device_create ::
  "bool \<Rightarrow> att1_aimu_device_config option \<Rightarrow> bool \<Rightarrow> att1_status \<times> 'q att1_aimu_device option" where
  "att1_aimu_device_create alloc config out_ok =
     (if \<not> out_ok then (ATT1_ERR_INVALID_ARG, None)
      else
        (let cfg = effective_config config
         in if dcfg_tile_count cfg = 0 \<or> DEVICE_MAX_TILES < dcfg_tile_count cfg
            then (ATT1_ERR_INVALID_ARG, None)
            else if \<not> alloc then (ATT1_ERR_OOM, None)
            else (ATT1_OK, Some
              \<lparr>dev_magic = DEVICE_MAGIC, dev_register_map_version = REGISTER_MAP_VERSION,
               dev_version = dcfg_version cfg, dev_feature_flags = dcfg_feature_flags cfg,
               dev_tile_count = dcfg_tile_count cfg,
               dev_tiles = map (new_tile cfg) [0..<unat (dcfg_tile_count cfg)],
               dev_global_status = 0, dev_global_error = 0, dev_reset_count = 0, dev_cmdq = None\<rparr>)))"

section \<open>Queries\<close>

definition att1_aimu_device_query_info ::
  "'q att1_aimu_device option \<Rightarrow> bool \<Rightarrow> att1_status \<times> att1_aimu_device_info option" where
  "att1_aimu_device_query_info devp info_ok =
     (case devp of
        None \<Rightarrow> (ATT1_ERR_INVALID_ARG, None)
      | Some dev \<Rightarrow>
        (if \<not> info_ok then (ATT1_ERR_INVALID_ARG, None)
         else (ATT1_OK, Some
           \<lparr>di_register_map_version = dev_register_map_version dev, di_version = dev_version dev,
            di_feature_flags = dev_feature_flags dev, di_tile_count = dev_tile_count dev,
            di_global_status = dev_global_status dev, di_global_error = dev_global_error dev\<rparr>)))"

definition att1_aimu_device_tile_count :: "'q att1_aimu_device option \<Rightarrow> size_t" where
  "att1_aimu_device_tile_count devp = (case devp of None \<Rightarrow> 0 | Some dev \<Rightarrow> dev_tile_count dev)"

definition tile_in_range :: "'q att1_aimu_device \<Rightarrow> u8 \<Rightarrow> bool" where
  "tile_in_range dev t \<longleftrightarrow> \<not> dev_tile_count dev \<le> ucast t"

definition att1_aimu_device_query_tile ::
  "'q att1_aimu_device option \<Rightarrow> u8 \<Rightarrow> bool \<Rightarrow> att1_status \<times> att1_aimu_tile_info option" where
  "att1_aimu_device_query_tile devp t info_ok =
     (case devp of
        None \<Rightarrow> (ATT1_ERR_INVALID_ARG, None)
      | Some dev \<Rightarrow>
        (if \<not> info_ok then (ATT1_ERR_INVALID_ARG, None)
         else if \<not> tile_in_range dev t then (ATT1_ERR_INVALID_ARG, None)
         else (ATT1_OK, Some (dev_tiles dev ! unat t))))"

definition att1_aimu_device_validate_tile_id :: "'q att1_aimu_device option \<Rightarrow> u8 \<Rightarrow> att1_status" where
  "att1_aimu_device_validate_tile_id devp t =
     (case devp of
        None \<Rightarrow> ATT1_ERR_INVALID_ARG
      | Some dev \<Rightarrow> if tile_in_range dev t then ATT1_OK else ATT1_ERR_INVALID_ARG)"

definition att1_aimu_device_supports_dtype :: "'q att1_aimu_device option \<Rightarrow> u32 \<Rightarrow> bool" where
  "att1_aimu_device_supports_dtype devp b =
     (case devp of
        None \<Rightarrow> False
      | Some dev \<Rightarrow> list_all (\<lambda>i. ti_supported_dtypes (dev_tiles dev ! i) AND b \<noteq> 0)
                     [0..<unat (dev_tile_count dev)])"

definition att1_aimu_device_supports_op :: "'q att1_aimu_device option \<Rightarrow> u32 \<Rightarrow> bool" where
  "att1_aimu_device_supports_op devp b =
     (case devp of
        None \<Rightarrow> False
      | Some dev \<Rightarrow> list_all (\<lambda>i. ti_supported_ops (dev_tiles dev ! i) AND b \<noteq> 0)
                     [0..<unat (dev_tile_count dev)])"

definition att1_aimu_device_tile_supports_dtype :: "'q att1_aimu_device option \<Rightarrow> u8 \<Rightarrow> u32 \<Rightarrow> bool" where
  "att1_aimu_device_tile_supports_dtype devp t b =
     (case devp of
        None \<Rightarrow> False
      | Some dev \<Rightarrow> tile_in_range dev t \<and> ti_supported_dtypes (dev_tiles dev ! unat t) AND b \<noteq> 0)"

definition att1_aimu_device_tile_supports_op :: "'q att1_aimu_device option \<Rightarrow> u8 \<Rightarrow> u32 \<Rightarrow> bool" where
  "att1_aimu_device_tile_supports_op devp t b =
     (case devp of
        None \<Rightarrow> False
      | Some dev \<Rightarrow> tile_in_range dev t \<and> ti_supported_ops (dev_tiles dev ! unat t) AND b \<noteq> 0)"

section \<open>Reset\<close>

definition clear_tile :: "att1_aimu_tile_info \<Rightarrow> att1_aimu_tile_info" where
  "clear_tile t = t\<lparr>ti_memory_used_bytes := 0, ti_kv_used_bytes := 0, ti_error_code := 0,
                    ti_state := TILE_IDLE\<rparr>"

definition att1_aimu_device_reset ::
  "'q att1_aimu_device option \<Rightarrow> att1_status \<times> 'q att1_aimu_device option" where
  "att1_aimu_device_reset =
     with_ptr (\<lambda>dev. (ATT1_OK,
       dev\<lparr>dev_global_status := 0, dev_global_error := 0, dev_reset_count := dev_reset_count dev + 1,
           dev_tiles := fold (\<lambda>i ts. ts[i := clear_tile (ts ! i)]) [0..<unat (dev_tile_count dev)]
                          (dev_tiles dev)\<rparr>))"

definition att1_aimu_device_reset_tile ::
  "'q att1_aimu_device option \<Rightarrow> u8 \<Rightarrow> att1_status \<times> 'q att1_aimu_device option" where
  "att1_aimu_device_reset_tile devp t =
     with_ptr (\<lambda>dev.
       if \<not> tile_in_range dev t then (ATT1_ERR_INVALID_ARG, dev)
       else (ATT1_OK,
         (let tile = clear_tile (dev_tiles dev ! unat t)
          in dev\<lparr>dev_tiles := (dev_tiles dev)
                   [unat t := tile\<lparr>ti_reset_count := ti_reset_count tile + 1\<rparr>]\<rparr>))) devp"

section \<open>Command queue attachment\<close>

text \<open>\<open>store\<close> maps the address of a queue to its state.\<close>

definition att1_aimu_device_snapshot_counters ::
  "('q \<Rightarrow> 'ctx att1_aimu_cmdq) \<Rightarrow> 'q att1_aimu_device option \<Rightarrow> bool
     \<Rightarrow> att1_status \<times> att1_aimu_cmdq_counters option" where
  "att1_aimu_device_snapshot_counters store devp out_ok =
     (case devp of
        None \<Rightarrow> (ATT1_ERR_INVALID_ARG, None)
      | Some dev \<Rightarrow>
        (if \<not> out_ok then (ATT1_ERR_INVALID_ARG, None)
         else (case dev_cmdq dev of
                 None \<Rightarrow> (ATT1_ERR_STATE, None)
               | Some q \<Rightarrow> att1_aimu_cmdq_get_counters (Some (store q)) out_ok)))"

definition att1_aimu_device_attach_cmdq ::
  "'q att1_aimu_device option \<Rightarrow> 'q option \<Rightarrow> att1_status \<times> 'q att1_aimu_device option" where
  "att1_aimu_device_attach_cmdq devp q = with_ptr (\<lambda>dev. (ATT1_OK, dev\<lparr>dev_cmdq := q\<rparr>)) devp"

section \<open>Names\<close>

definition att1_aimu_dtype_name :: "u32 \<Rightarrow> string" where
  "att1_aimu_dtype_name b =
     (if b = DTYPE_F32 then ''F32'' else if b = DTYPE_Q8 then ''Q8''
      else if b = DTYPE_Q4 then ''Q4'' else ''UNKNOWN'')"

definition att1_aimu_op_name :: "u32 \<Rightarrow> string" where
  "att1_aimu_op_name b =
     (if b = OP_MATMUL then ''MATMUL'' else if b = OP_RMSNORM then ''RMSNORM''
      else if b = OP_ROPE then ''ROPE'' else if b = OP_ATTENTION then ''ATTENTION''
      else if b = OP_FFN then ''FFN'' else if b = OP_KV_APPEND then ''KV_APPEND''
      else if b = OP_KV_READ then ''KV_READ'' else if b = OP_FABRIC_SEND then ''FABRIC_SEND''
      else if b = OP_FABRIC_REDUCE then ''FABRIC_REDUCE'' else ''UNKNOWN'')"

section \<open>Invariant\<close>

definition device_inv :: "'q att1_aimu_device \<Rightarrow> bool" where
  "device_inv dev \<longleftrightarrow> dev_magic dev = DEVICE_MAGIC
     \<and> 0 < length (dev_tiles dev) \<and> length (dev_tiles dev) \<le> 16
     \<and> unat (dev_tile_count dev) = length (dev_tiles dev)
     \<and> (\<forall>i < length (dev_tiles dev). unat (ti_tile_id (dev_tiles dev ! i)) = i
          \<and> (\<forall>j < 16. bit (ti_fabric_link_mask (dev_tiles dev ! i)) j \<longleftrightarrow>
               j < length (dev_tiles dev) \<and> j \<noteq> i))"

lemma fabric_link_mask_bits:
  assumes "n \<le> 16" "j < 16"
  shows "bit (fabric_link_mask n i) j \<longleftrightarrow> j < n \<and> j \<noteq> i"
proof -
  have "bit (fold (\<lambda>j mask. if j \<noteq> i then mask OR ucast (push_bit j 1 :: u32) else mask) [0..<n] m :: u16) j
      \<longleftrightarrow> bit m j \<or> j < n \<and> j \<noteq> i" for m
    using assms
  proof (induction n)
    case (Suc n)
    have one: "bit (ucast (push_bit n 1 :: u32) :: u16) j \<longleftrightarrow> j = n"
      using Suc.prems by (auto simp: bit_simps)
    show ?case
      using Suc one by (auto simp: bit_or_iff less_Suc_eq)
  qed simp
  from this [of 0] show ?thesis by (simp add: fabric_link_mask_def)
qed

lemma create_device_inv:
  assumes "att1_aimu_device_create alloc config out_ok = (ATT1_OK, Some dev)"
  shows "device_inv dev"
proof -
  let ?cfg = "effective_config config"
  let ?n = "unat (dcfg_tile_count ?cfg)"
  have n: "0 < ?n" "?n \<le> 16"
    using assms
    by (auto simp: att1_aimu_device_create_def Let_def DEVICE_MAX_TILES_def unat_gt_0
        word_less_nat_alt not_less split: if_splits)
  have d: "dev_magic dev = DEVICE_MAGIC" "dev_tiles dev = map (new_tile ?cfg) [0..<?n]"
    "dev_tile_count dev = dcfg_tile_count ?cfg"
    using assms by (auto simp: att1_aimu_device_create_def Let_def split: if_splits)
  have "unat (ti_tile_id (new_tile ?cfg i)) = i" if "i < ?n" for i
    using that n by (simp add: new_tile_def unsigned_of_nat take_bit_nat_eq_self)
  with n d show ?thesis
    by (simp add: device_inv_def) (simp add: new_tile_def fabric_link_mask_bits)
qed

lemma tile_in_range_iff:
  "device_inv dev \<Longrightarrow> tile_in_range dev t \<longleftrightarrow> unat t < length (dev_tiles dev)"
  by (simp add: tile_in_range_def device_inv_def word_le_nat_alt unat_ucast_up not_le)

lemma clear_all:
  "n \<le> length ts \<Longrightarrow> fold (\<lambda>i ts. ts[i := clear_tile (ts ! i)]) [0..<n] ts
     = map clear_tile (take n ts) @ drop n ts"
proof (induction n)
  case (Suc n)
  then have "(map clear_tile (take n ts) @ drop n ts)[n := clear_tile ((map clear_tile (take n ts) @ drop n ts) ! n)]
      = map clear_tile (take n ts) @ (drop n ts)[0 := clear_tile (ts ! n)]"
    by (simp add: list_update_append nth_append)
  also have "(drop n ts)[0 := clear_tile (ts ! n)] = clear_tile (ts ! n) # drop (Suc n) ts"
    using Suc.prems by (simp flip: Cons_nth_drop_Suc)
  finally show ?case using Suc by (simp add: take_Suc_conv_app_nth)
qed simp

lemma reset_eq:
  "device_inv dev \<Longrightarrow> att1_aimu_device_reset (Some dev) = (ATT1_OK, Some
     (dev\<lparr>dev_global_status := 0, dev_global_error := 0, dev_reset_count := dev_reset_count dev + 1,
          dev_tiles := map clear_tile (dev_tiles dev)\<rparr>))"
  by (simp add: att1_aimu_device_reset_def device_inv_def clear_all)

lemma clear_tile_simps [simp]:
  "ti_tile_id (clear_tile t) = ti_tile_id t"
  "ti_fabric_link_mask (clear_tile t) = ti_fabric_link_mask t"
  "ti_reset_count (clear_tile t) = ti_reset_count t"
  by (simp_all add: clear_tile_def)

lemma reset_inv:
  "device_inv dev \<Longrightarrow> att1_aimu_device_reset (Some dev) = (st, Some dev') \<Longrightarrow> device_inv dev'"
  using reset_eq [of dev] by (auto simp: device_inv_def)

lemma reset_tile_inv:
  assumes "device_inv dev" "att1_aimu_device_reset_tile (Some dev) t = (st, Some dev')"
  shows "device_inv dev'"
proof (cases "tile_in_range dev t")
  case True
  let ?ts = "(dev_tiles dev)[unat t := clear_tile (dev_tiles dev ! unat t)
    \<lparr>ti_reset_count := ti_reset_count (dev_tiles dev ! unat t) + 1\<rparr>]"
  have "ti_tile_id (?ts ! i) = ti_tile_id (dev_tiles dev ! i)"
    "ti_fabric_link_mask (?ts ! i) = ti_fabric_link_mask (dev_tiles dev ! i)"
    if "i < length (dev_tiles dev)" for i
    using that by (cases "i = unat t"; simp)+
  moreover have "dev' = dev\<lparr>dev_tiles := ?ts\<rparr>"
    using assms(2) True by (simp add: att1_aimu_device_reset_tile_def Let_def)
  ultimately show ?thesis using assms(1) by (simp add: device_inv_def)
next
  case False
  then show ?thesis using assms by (simp add: att1_aimu_device_reset_tile_def)
qed

inductive device_reachable :: "'q att1_aimu_device \<Rightarrow> bool" where
  create: "att1_aimu_device_create alloc config out_ok = (ATT1_OK, Some dev) \<Longrightarrow> device_reachable dev"
| reset: "device_reachable dev \<Longrightarrow> att1_aimu_device_reset (Some dev) = (st, Some dev') \<Longrightarrow> device_reachable dev'"
| reset_tile: "device_reachable dev \<Longrightarrow>
    att1_aimu_device_reset_tile (Some dev) t = (st, Some dev') \<Longrightarrow> device_reachable dev'"
| attach: "device_reachable dev \<Longrightarrow>
    att1_aimu_device_attach_cmdq (Some dev) q = (st, Some dev') \<Longrightarrow> device_reachable dev'"

lemma device_reachable_inv: "device_reachable dev \<Longrightarrow> device_inv dev"
proof (induction rule: device_reachable.induct)
  case (attach dev q st dev')
  then show ?case by (auto simp: att1_aimu_device_attach_cmdq_def device_inv_def)
qed (blast intro: create_device_inv reset_inv reset_tile_inv)+

end
