(* ===== verification/Aimu_Exec.thy ===== *)
theory Aimu_Exec
  imports Aimu_Device Aimu_Cmdq_Inv
begin

text \<open>
  Simulated execution of AIMU commands (\<^verbatim>\<open>src/aimu_exec.c\<close>): the capability checks of a command
  against the device, the result code and the replay counters; and the dispatch routine as an
  execution hook of the command queue.
\<close>

section \<open>State\<close>

record att1_aimu_exec_counters =
  ec_seen :: u64
  ec_completed :: u64
  ec_failed :: u64
  ec_unsupported :: u64
  ec_matmul :: u64
  ec_rmsnorm :: u64
  ec_rope :: u64
  ec_attention :: u64
  ec_ffn :: u64
  ec_kv_append :: u64
  ec_kv_read :: u64
  ec_fabric_send :: u64
  ec_fabric_reduce :: u64
  ec_barrier :: u64
  ec_trace_snapshot :: u64
  ec_bytes_read :: u64
  ec_bytes_written :: u64

definition zero_exec_counters :: att1_aimu_exec_counters where
  "zero_exec_counters =
     \<lparr>ec_seen = 0, ec_completed = 0, ec_failed = 0, ec_unsupported = 0, ec_matmul = 0,
      ec_rmsnorm = 0, ec_rope = 0, ec_attention = 0, ec_ffn = 0, ec_kv_append = 0,
      ec_kv_read = 0, ec_fabric_send = 0, ec_fabric_reduce = 0, ec_barrier = 0,
      ec_trace_snapshot = 0, ec_bytes_read = 0, ec_bytes_written = 0\<rparr>"

record 'q att1_aimu_exec_ctx =
  x_magic :: u32
  x_device :: "'q att1_aimu_device option"
  x_counters :: att1_aimu_exec_counters

definition EXEC_CTX_MAGIC :: u32 where "EXEC_CTX_MAGIC = 0xA771E5EC"

definition dtype_to_bit :: "u8 \<Rightarrow> u32" where
  "dtype_to_bit b = (if b \<le> 2 then push_bit (unat b) 1 else 0)"

section \<open>Lifecycle\<close>

text \<open>The device is held by reference and only read, so the context carries its value.\<close>

definition att1_aimu_exec_ctx_create ::
  "bool \<Rightarrow> 'q att1_aimu_device option \<Rightarrow> bool \<Rightarrow> att1_status \<times> 'q att1_aimu_exec_ctx option" where
  "att1_aimu_exec_ctx_create alloc device out_ok =
     (if \<not> out_ok then (ATT1_ERR_INVALID_ARG, None)
      else if \<not> alloc then (ATT1_ERR_OOM, None)
      else (ATT1_OK, Some \<lparr>x_magic = EXEC_CTX_MAGIC, x_device = device, x_counters = zero_exec_counters\<rparr>))"

definition att1_aimu_exec_ctx_reset_counters ::
  "'q att1_aimu_exec_ctx option \<Rightarrow> att1_status \<times> 'q att1_aimu_exec_ctx option" where
  "att1_aimu_exec_ctx_reset_counters =
     with_ptr (\<lambda>ctx. if x_magic ctx \<noteq> EXEC_CTX_MAGIC then (ATT1_ERR_INVALID_ARG, ctx)
                     else (ATT1_OK, ctx\<lparr>x_counters := zero_exec_counters\<rparr>))"

definition att1_aimu_exec_ctx_get_counters ::
  "'q att1_aimu_exec_ctx option \<Rightarrow> bool \<Rightarrow> att1_status \<times> att1_aimu_exec_counters option" where
  "att1_aimu_exec_ctx_get_counters ctxp out_ok =
     (case ctxp of
        None \<Rightarrow> (ATT1_ERR_INVALID_ARG, None)
      | Some ctx \<Rightarrow>
        (if x_magic ctx \<noteq> EXEC_CTX_MAGIC \<or> \<not> out_ok then (ATT1_ERR_INVALID_ARG, None)
         else (ATT1_OK, Some (x_counters ctx))))"

section \<open>Dispatch\<close>

definition ec_fail :: "att1_aimu_exec_counters \<Rightarrow> att1_aimu_exec_counters" where
  "ec_fail c = c\<lparr>ec_failed := ec_failed c + 1\<rparr>"

definition ec_unsup :: "att1_aimu_exec_counters \<Rightarrow> att1_aimu_exec_counters" where
  "ec_unsup c = c\<lparr>ec_unsupported := ec_unsupported c + 1\<rparr>"

definition ec_ok :: "att1_aimu_exec_counters \<Rightarrow> att1_aimu_exec_counters" where
  "ec_ok c = c\<lparr>ec_completed := ec_completed c + 1\<rparr>"

definition ec_read :: "att1_aimu_cmd \<Rightarrow> att1_aimu_exec_counters \<Rightarrow> att1_aimu_exec_counters" where
  "ec_read cmd c = c\<lparr>ec_bytes_read := ec_bytes_read c + ucast (c_input_buf_bytes cmd)\<rparr>"

definition ec_write :: "att1_aimu_cmd \<Rightarrow> att1_aimu_exec_counters \<Rightarrow> att1_aimu_exec_counters" where
  "ec_write cmd c = c\<lparr>ec_bytes_written := ec_bytes_written c + ucast (c_output_buf_bytes cmd)\<rparr>"

text \<open>The macro \<^verbatim>\<open>EXEC_OP_CHECK(op_bit, counter_field)\<close>; \<open>inc\<close> increments the field.\<close>

definition exec_op_check ::
  "u32 \<Rightarrow> u32 \<Rightarrow> att1_aimu_cmd \<Rightarrow> u32 \<Rightarrow> (att1_aimu_exec_counters \<Rightarrow> att1_aimu_exec_counters)
     \<Rightarrow> att1_aimu_exec_counters \<Rightarrow> att1_aimu_result \<times> att1_aimu_exec_counters" where
  "exec_op_check tile_ops tile_dtype cmd op_bit inc cnt =
     (let cmd_dtype_bit = dtype_to_bit (c_dtype cmd)
      in if cmd_dtype_bit \<noteq> 0 \<and> tile_dtype AND cmd_dtype_bit = 0
         then (AIMU_ERR_UNSUPPORTED_DTYPE, ec_fail cnt)
         else if tile_ops AND op_bit = 0
         then (AIMU_ERR_UNSUPPORTED_OP, ec_fail (ec_unsup cnt))
         else (AIMU_OK, ec_write cmd (ec_read cmd (ec_ok (inc cnt)))))"

text \<open>The cases for the cache and fabric commands: the operation check alone, then \<open>fin\<close>.\<close>

definition exec_cap_check ::
  "u32 \<Rightarrow> u32 \<Rightarrow> (att1_aimu_exec_counters \<Rightarrow> att1_aimu_exec_counters)
     \<Rightarrow> att1_aimu_exec_counters \<Rightarrow> att1_aimu_result \<times> att1_aimu_exec_counters" where
  "exec_cap_check tile_ops op_bit fin cnt =
     (if tile_ops AND op_bit = 0 then (AIMU_ERR_UNSUPPORTED_OP, ec_fail (ec_unsup cnt))
      else (AIMU_OK, fin cnt))"

definition exec_switch ::
  "u32 \<Rightarrow> u32 \<Rightarrow> att1_aimu_cmd \<Rightarrow> att1_aimu_exec_counters
     \<Rightarrow> att1_aimu_result \<times> att1_aimu_exec_counters" where
  "exec_switch ops dt cmd cnt =
     (case cmd_type_of (c_command_type cmd) of
        None \<Rightarrow> (AIMU_ERR_INVALID_COMMAND, ec_fail cnt)
      | Some t \<Rightarrow>
        (case t of
           CMD_LOAD_TENSOR_TILE \<Rightarrow> (AIMU_OK, ec_write cmd (ec_ok cnt))
         | CMD_VALIDATE_TENSOR \<Rightarrow> (AIMU_OK, ec_ok cnt)
         | CMD_EXEC_MATMUL \<Rightarrow>
             (if c_tensor_id cmd = 0 then (AIMU_ERR_INVALID_TENSOR, ec_fail cnt)
              else exec_op_check ops dt cmd OP_MATMUL (\<lambda>c. c\<lparr>ec_matmul := ec_matmul c + 1\<rparr>) cnt)
         | CMD_EXEC_RMSNORM \<Rightarrow>
             exec_op_check ops dt cmd OP_RMSNORM (\<lambda>c. c\<lparr>ec_rmsnorm := ec_rmsnorm c + 1\<rparr>) cnt
         | CMD_EXEC_ROPE \<Rightarrow> exec_op_check ops dt cmd OP_ROPE (\<lambda>c. c\<lparr>ec_rope := ec_rope c + 1\<rparr>) cnt
         | CMD_EXEC_ATTENTION \<Rightarrow>
             exec_op_check ops dt cmd OP_ATTENTION (\<lambda>c. c\<lparr>ec_attention := ec_attention c + 1\<rparr>) cnt
         | CMD_EXEC_FFN \<Rightarrow> exec_op_check ops dt cmd OP_FFN (\<lambda>c. c\<lparr>ec_ffn := ec_ffn c + 1\<rparr>) cnt
         | CMD_KV_APPEND \<Rightarrow>
             exec_cap_check ops OP_KV_APPEND
               (\<lambda>c. ec_write cmd (ec_ok (c\<lparr>ec_kv_append := ec_kv_append c + 1\<rparr>))) cnt
         | CMD_KV_READ \<Rightarrow>
             exec_cap_check ops OP_KV_READ
               (\<lambda>c. ec_read cmd (ec_ok (c\<lparr>ec_kv_read := ec_kv_read c + 1\<rparr>))) cnt
         | CMD_FABRIC_SEND \<Rightarrow>
             exec_cap_check ops OP_FABRIC_SEND
               (\<lambda>c. ec_ok (c\<lparr>ec_fabric_send := ec_fabric_send c + 1\<rparr>)) cnt
         | CMD_FABRIC_REDUCE \<Rightarrow>
             exec_cap_check ops OP_FABRIC_REDUCE
               (\<lambda>c. ec_ok (c\<lparr>ec_fabric_reduce := ec_fabric_reduce c + 1\<rparr>)) cnt
         | CMD_TILE_BARRIER \<Rightarrow> (AIMU_OK, ec_ok (cnt\<lparr>ec_barrier := ec_barrier cnt + 1\<rparr>))
         | CMD_TRACE_SNAPSHOT \<Rightarrow>
             (AIMU_OK, ec_ok (cnt\<lparr>ec_trace_snapshot := ec_trace_snapshot cnt + 1\<rparr>))
         | CMD_QUERY_COUNTERS \<Rightarrow> (AIMU_OK, ec_ok cnt)
         | CMD_NOP \<Rightarrow> (AIMU_OK, ec_ok cnt)
         | CMD_RESET_TILE \<Rightarrow> (AIMU_OK, ec_ok cnt)))"

definition exec_dispatch ::
  "'q att1_aimu_exec_ctx \<Rightarrow> att1_aimu_cmd \<Rightarrow> att1_aimu_result \<times> 'q att1_aimu_exec_ctx" where
  "exec_dispatch ctx cmd =
     (if x_magic ctx \<noteq> EXEC_CTX_MAGIC then (AIMU_ERR_INVALID_COMMAND, ctx)
      else
       (let cnt = (x_counters ctx)\<lparr>ec_seen := ec_seen (x_counters ctx) + 1\<rparr>;
            (r, cnt') =
              (case x_device ctx of
                 Some dev \<Rightarrow>
                   (if \<not> tile_in_range dev (c_tile_id cmd) then (AIMU_ERR_INVALID_COMMAND, ec_fail cnt)
                    else (let t = dev_tiles dev ! unat (c_tile_id cmd)
                          in exec_switch (ti_supported_ops t) (ti_supported_dtypes t) cmd cnt))
               | None \<Rightarrow> exec_switch OP_ALL DTYPE_ALL cmd cnt)
        in (r, ctx\<lparr>x_counters := cnt'\<rparr>)))"

definition att1_aimu_exec_dispatch ::
  "'q att1_aimu_exec_ctx option \<Rightarrow> att1_aimu_cmd option \<Rightarrow> att1_aimu_result \<times> 'q att1_aimu_exec_ctx option" where
  "att1_aimu_exec_dispatch ctxp cmdp =
     (case (ctxp, cmdp) of
        (Some ctx, Some cmd) \<Rightarrow> (let (r, ctx') = exec_dispatch ctx cmd in (r, Some ctx'))
      | _ \<Rightarrow> (AIMU_ERR_INVALID_COMMAND, ctxp))"

text \<open>The routine in the shape the command queue calls.\<close>

definition exec_hook :: "'q att1_aimu_exec_ctx exec_hook_fn" where
  "exec_hook ctxp cmd = (let (r, ctxp') = att1_aimu_exec_dispatch ctxp (Some cmd) in (r, ctxp', cmd))"

section \<open>What the result depends on\<close>

text \<open>The operation a command needs, if any, and whether its data type is checked.\<close>

definition needs_op :: "att1_aimu_cmd_type \<Rightarrow> u32" where
  "needs_op t = (case t of
      CMD_EXEC_MATMUL \<Rightarrow> OP_MATMUL | CMD_EXEC_RMSNORM \<Rightarrow> OP_RMSNORM | CMD_EXEC_ROPE \<Rightarrow> OP_ROPE
    | CMD_EXEC_ATTENTION \<Rightarrow> OP_ATTENTION | CMD_EXEC_FFN \<Rightarrow> OP_FFN | CMD_KV_APPEND \<Rightarrow> OP_KV_APPEND
    | CMD_KV_READ \<Rightarrow> OP_KV_READ | CMD_FABRIC_SEND \<Rightarrow> OP_FABRIC_SEND
    | CMD_FABRIC_REDUCE \<Rightarrow> OP_FABRIC_REDUCE | _ \<Rightarrow> 0)"

definition is_exec_op :: "att1_aimu_cmd_type \<Rightarrow> bool" where
  "is_exec_op t \<longleftrightarrow> t \<in> {CMD_EXEC_MATMUL, CMD_EXEC_RMSNORM, CMD_EXEC_ROPE, CMD_EXEC_ATTENTION, CMD_EXEC_FFN}"

text \<open>The documented validation order, on the capabilities of the addressed tile.\<close>

definition exec_verdict :: "u32 \<Rightarrow> u32 \<Rightarrow> att1_aimu_cmd \<Rightarrow> att1_aimu_result" where
  "exec_verdict ops dt cmd =
     (case cmd_type_of (c_command_type cmd) of
        None \<Rightarrow> AIMU_ERR_INVALID_COMMAND
      | Some t \<Rightarrow>
          if t = CMD_EXEC_MATMUL \<and> c_tensor_id cmd = 0 then AIMU_ERR_INVALID_TENSOR
          else if is_exec_op t \<and> unat (c_dtype cmd) \<le> 2 \<and> \<not> bit dt (unat (c_dtype cmd))
          then AIMU_ERR_UNSUPPORTED_DTYPE
          else if needs_op t \<noteq> 0 \<and> ops AND needs_op t = 0 then AIMU_ERR_UNSUPPORTED_OP
          else AIMU_OK)"

lemma and_one_bit: "(w :: 'a::len word) AND push_bit n 1 = 0 \<longleftrightarrow> \<not> (n < LENGTH('a) \<and> bit w n)"
proof -
  have "w AND push_bit n 1 = 0 \<longleftrightarrow> (\<forall>k. \<not> (k < LENGTH('a) \<and> bit w k \<and> k = n))"
    by (auto simp: bit_eq_iff bit_simps)
  then show ?thesis by auto
qed

lemma dtype_check_iff:
  "(dtype_to_bit b \<noteq> 0 \<and> dt AND dtype_to_bit b = 0) \<longleftrightarrow> unat b \<le> 2 \<and> \<not> bit dt (unat b)"
proof (cases "unat b \<le> 2")
  case True
  then have "dtype_to_bit b = push_bit (unat b) 1" by (simp add: dtype_to_bit_def word_le_nat_alt)
  moreover have "(push_bit (unat b) 1 :: u32) \<noteq> 0"
  proof
    assume "(push_bit (unat b) 1 :: u32) = 0"
    then have "bit (push_bit (unat b) 1 :: u32) (unat b) = bit (0 :: u32) (unat b)" by (simp only:)
    moreover have "unat b < 32" using True by simp
    ultimately show False by (simp add: bit_simps)
  qed
  moreover have "unat b < LENGTH(32)" using True by simp
  ultimately show ?thesis using True and_one_bit [of dt "unat b"] by simp
qed (simp add: dtype_to_bit_def word_le_nat_alt)

lemma op_bits_nonzero:
  "OP_MATMUL \<noteq> 0" "OP_RMSNORM \<noteq> 0" "OP_ROPE \<noteq> 0" "OP_ATTENTION \<noteq> 0" "OP_FFN \<noteq> 0"
  "OP_KV_APPEND \<noteq> 0" "OP_KV_READ \<noteq> 0" "OP_FABRIC_SEND \<noteq> 0" "OP_FABRIC_REDUCE \<noteq> 0"
  by (simp_all add: op_bits)

lemma exec_switch_verdict: "fst (exec_switch ops dt cmd cnt) = exec_verdict ops dt cmd"
proof (cases "cmd_type_of (c_command_type cmd)")
  case None
  then show ?thesis by (simp add: exec_switch_def exec_verdict_def)
next
  case (Some t)
  have check: "fst (exec_op_check ops dt cmd b inc cnt) =
      (if unat (c_dtype cmd) \<le> 2 \<and> \<not> bit dt (unat (c_dtype cmd)) then AIMU_ERR_UNSUPPORTED_DTYPE
       else if ops AND b = 0 then AIMU_ERR_UNSUPPORTED_OP else AIMU_OK)" for b inc
    unfolding exec_op_check_def Let_def dtype_check_iff by simp
  show ?thesis
    by (cases t)
      (simp_all add: Some exec_switch_def exec_verdict_def check exec_cap_check_def needs_op_def
        is_exec_op_def op_bits_nonzero)
qed

text \<open>How the counters move with the result.\<close>

definition counts_result :: "att1_aimu_result \<Rightarrow> att1_aimu_exec_counters \<Rightarrow> att1_aimu_exec_counters \<Rightarrow> bool" where
  "counts_result r c c' \<longleftrightarrow>
     ec_seen c' = ec_seen c
     \<and> ec_completed c' = ec_completed c + (if r = AIMU_OK then 1 else 0)
     \<and> ec_failed c' = ec_failed c + (if r = AIMU_OK then 0 else 1)
     \<and> ec_unsupported c' = ec_unsupported c + (if r = AIMU_ERR_UNSUPPORTED_OP then 1 else 0)"

lemmas ec_defs = ec_fail_def ec_unsup_def ec_ok_def ec_read_def ec_write_def

lemma exec_switch_counts:
  "counts_result (fst (exec_switch ops dt cmd cnt)) cnt (snd (exec_switch ops dt cmd cnt))"
  unfolding exec_switch_def
  by (simp add: exec_op_check_def exec_cap_check_def counts_result_def ec_defs Let_def
      split: option.split att1_aimu_cmd_type.split)

lemma exec_dispatch_counts:
  assumes "x_magic ctx = EXEC_CTX_MAGIC" "exec_dispatch ctx cmd = (r, ctx')"
  shows "counts_result r ((x_counters ctx)\<lparr>ec_seen := ec_seen (x_counters ctx) + 1\<rparr>) (x_counters ctx')
    \<and> x_magic ctx' = x_magic ctx \<and> x_device ctx' = x_device ctx"
proof -
  let ?c = "(x_counters ctx)\<lparr>ec_seen := ec_seen (x_counters ctx) + 1\<rparr>"
  have bad: "counts_result AIMU_ERR_INVALID_COMMAND ?c (ec_fail ?c)"
    by (simp add: counts_result_def ec_fail_def)
  show ?thesis
  proof (cases "x_device ctx")
    case None
    then show ?thesis
      using assms exec_switch_counts [of OP_ALL DTYPE_ALL cmd ?c]
      by (auto simp: exec_dispatch_def Let_def split: prod.splits)
  next
    case (Some dev)
    let ?t = "dev_tiles dev ! unat (c_tile_id cmd)"
    show ?thesis
      using assms Some bad exec_switch_counts [of "ti_supported_ops ?t" "ti_supported_dtypes ?t" cmd ?c]
      by (auto simp: exec_dispatch_def Let_def split: prod.splits if_splits)
  qed
qed

text \<open>Runs: the commands of a replay, one after another.\<close>

fun exec_run :: "att1_aimu_cmd list \<Rightarrow> 'q att1_aimu_exec_ctx \<Rightarrow> att1_aimu_result list \<times> 'q att1_aimu_exec_ctx" where
  "exec_run [] ctx = ([], ctx)"
| "exec_run (c # cs) ctx =
     (let (r, ctx1) = exec_dispatch ctx c; (rs, ctx2) = exec_run cs ctx1 in (r # rs, ctx2))"

lemma exec_run_counts:
  assumes "x_magic ctx = EXEC_CTX_MAGIC" "exec_run cs ctx = (rs, ctx')"
  shows "length rs = length cs \<and> x_magic ctx' = EXEC_CTX_MAGIC \<and> x_device ctx' = x_device ctx
    \<and> ec_seen (x_counters ctx') = ec_seen (x_counters ctx) + word_of_nat (length cs)
    \<and> ec_completed (x_counters ctx') = ec_completed (x_counters ctx)
        + word_of_nat (length (filter (\<lambda>r. r = AIMU_OK) rs))
    \<and> ec_failed (x_counters ctx') = ec_failed (x_counters ctx)
        + word_of_nat (length (filter (\<lambda>r. r \<noteq> AIMU_OK) rs))
    \<and> ec_unsupported (x_counters ctx') = ec_unsupported (x_counters ctx)
        + word_of_nat (length (filter (\<lambda>r. r = AIMU_ERR_UNSUPPORTED_OP) rs))"
  using assms
proof (induction cs arbitrary: ctx rs ctx')
  case Nil
  then show ?case by simp
next
  case (Cons c cs)
  obtain r ctx1 where d: "exec_dispatch ctx c = (r, ctx1)" by force
  obtain rs1 ctx2 where e: "exec_run cs ctx1 = (rs1, ctx2)" by force
  have rs: "rs = r # rs1" "ctx2 = ctx'" using Cons.prems(2) d e by simp_all
  note k = exec_dispatch_counts [OF Cons.prems(1) d]
  have "x_magic ctx1 = EXEC_CTX_MAGIC" using k Cons.prems(1) by simp
  from Cons.IH [OF this e [unfolded rs(2)]] k show ?case
    unfolding rs(1) by (auto simp: counts_result_def)
qed

end
