(* ===== verification/Aimu_Exec_Props.thy ===== *)
theory Aimu_Exec_Props
  imports Aimu_Exec
begin

text \<open>
  Properties of the device model and of simulated execution, and of the command queue with the
  dispatch routine installed as its hook.
\<close>

section \<open>Properties of the device\<close>

text \<open>
  In every device the API can reach, the tiles are numbered by their position, every tile
  is linked to exactly the other tiles, so that links are symmetric and no tile is linked to
  itself, and the tile queries answer exactly for the indices below the tile count.
\<close>

theorem device_reachable_invariant:
  assumes "device_reachable dev"
  shows "0 < length (dev_tiles dev) \<and> length (dev_tiles dev) \<le> 16
    \<and> (\<forall>i < length (dev_tiles dev). unat (ti_tile_id (dev_tiles dev ! i)) = i
        \<and> (\<forall>j < 16. bit (ti_fabric_link_mask (dev_tiles dev ! i)) j \<longleftrightarrow> j < length (dev_tiles dev) \<and> j \<noteq> i))
    \<and> (att1_aimu_device_validate_tile_id (Some dev) t = ATT1_OK \<longleftrightarrow> unat t < length (dev_tiles dev))
    \<and> (unat t < length (dev_tiles dev) \<longrightarrow>
        att1_aimu_device_query_tile (Some dev) t True = (ATT1_OK, Some (dev_tiles dev ! unat t)))"
  using device_reachable_inv [OF assms] tile_in_range_iff [of dev t]
  by (simp add: device_inv_def att1_aimu_device_validate_tile_id_def att1_aimu_device_query_tile_def)

definition demo_devcfg :: att1_aimu_device_config where
  "demo_devcfg = \<lparr>dcfg_tile_count = 2, dcfg_tile_memory_bytes = 4096, dcfg_tile_kv_bytes = 1024,
     dcfg_supported_dtypes = 7, dcfg_supported_ops = 1, dcfg_feature_flags = 1,
     dcfg_version = \<lparr>ver_major = 1, ver_minor = 0, ver_patch = 0, ver_build = 0\<rparr>\<rparr>"

definition demo_dev :: "unit att1_aimu_device" where
  "demo_dev = the (snd (att1_aimu_device_create True (Some demo_devcfg) True))"

lemma demo_dev_create:
  "att1_aimu_device_create True (Some demo_devcfg) True = (ATT1_OK, Some demo_dev)"
  "dev_tiles demo_dev = map (new_tile demo_devcfg) [0..<2]" "dev_reset_count demo_dev = 0"
proof -
  have e: "effective_config (Some demo_devcfg) = demo_devcfg"
    by (simp add: effective_config_def demo_devcfg_def)
  have "dcfg_tile_count demo_devcfg = 2" by (simp add: demo_devcfg_def)
  then show "att1_aimu_device_create True (Some demo_devcfg) True = (ATT1_OK, Some demo_dev)"
    "dev_tiles demo_dev = map (new_tile demo_devcfg) [0..<2]" "dev_reset_count demo_dev = 0"
    by (simp_all add: demo_dev_def att1_aimu_device_create_def e Let_def DEVICE_MAX_TILES_def)
qed

lemma demo_dev_facts:
  "device_reachable demo_dev" "length (dev_tiles demo_dev) = 2"
  "\<And>i. i < 2 \<Longrightarrow> ti_supported_ops (dev_tiles demo_dev ! i) = 1"
  "\<And>i. i < 2 \<Longrightarrow> ti_supported_dtypes (dev_tiles demo_dev ! i) = 7"
  by (rule device_reachable.create [OF demo_dev_create(1)])
    (simp_all add: demo_dev_create(2) new_tile_def demo_devcfg_def)

theorem device_reachable_invariant_witness:
  "bit (ti_fabric_link_mask (dev_tiles demo_dev ! 0)) 1 \<and> \<not> bit (ti_fabric_link_mask (dev_tiles demo_dev ! 0)) 0
   \<and> att1_aimu_device_validate_tile_id (Some demo_dev) 2 \<noteq> ATT1_OK"
  using device_reachable_invariant [OF demo_dev_facts(1), of 2] demo_dev_facts(2) by simp

text \<open>
  Resets: a device reset clears the global error state and every tile's usage, error code
  and state, counts one device reset and leaves the tile reset counts and the attached queue
  alone; resetting one tile clears that tile, counts one reset for it and changes nothing else.
\<close>

theorem device_reset_spec:
  assumes "device_reachable dev"
  shows "(\<exists>dev'. att1_aimu_device_reset (Some dev) = (ATT1_OK, Some dev')
      \<and> dev_global_status dev' = 0 \<and> dev_global_error dev' = 0
      \<and> dev_reset_count dev' = dev_reset_count dev + 1 \<and> dev_cmdq dev' = dev_cmdq dev
      \<and> dev_tiles dev' = map clear_tile (dev_tiles dev)
      \<and> map ti_reset_count (dev_tiles dev') = map ti_reset_count (dev_tiles dev))
    \<and> (if unat t < length (dev_tiles dev)
       then att1_aimu_device_reset_tile (Some dev) t = (ATT1_OK, Some
         (dev\<lparr>dev_tiles := (dev_tiles dev)[unat t := (clear_tile (dev_tiles dev ! unat t))
                \<lparr>ti_reset_count := ti_reset_count (dev_tiles dev ! unat t) + 1\<rparr>]\<rparr>))
       else att1_aimu_device_reset_tile (Some dev) t = (ATT1_ERR_INVALID_ARG, Some dev))"
  using reset_eq [OF device_reachable_inv [OF assms]] tile_in_range_iff [OF device_reachable_inv [OF assms], of t]
  by (auto simp: att1_aimu_device_reset_tile_def Let_def)

theorem device_reset_spec_witness:
  "\<exists>dev'. att1_aimu_device_reset (Some demo_dev) = (ATT1_OK, Some dev') \<and> dev_reset_count dev' = 1"
  using device_reset_spec [OF demo_dev_facts(1)] demo_dev_create(3) by auto

section \<open>Properties of simulated execution\<close>

lemma exec_dispatch_result:
  assumes "x_magic ctx = EXEC_CTX_MAGIC"
  shows "fst (exec_dispatch ctx cmd) =
    (case x_device ctx of
       None \<Rightarrow> exec_verdict OP_ALL DTYPE_ALL cmd
     | Some dev \<Rightarrow>
         if \<not> tile_in_range dev (c_tile_id cmd) then AIMU_ERR_INVALID_COMMAND
         else exec_verdict (ti_supported_ops (dev_tiles dev ! unat (c_tile_id cmd)))
                (ti_supported_dtypes (dev_tiles dev ! unat (c_tile_id cmd))) cmd)"
proof -
  have v: "exec_switch ops dt cmd cnt = (r, c) \<Longrightarrow> r = exec_verdict ops dt cmd" for ops dt cnt r c
    using exec_switch_verdict [of ops dt cmd cnt] by simp
  show ?thesis
    using assms by (auto simp: exec_dispatch_def Let_def split: option.split prod.split dest: v)
qed

text \<open>
  The result of a command is the verdict of the documented validation order on the
  capabilities of the addressed tile (all capabilities when no device is attached): tile
  range, command type, tensor of a matrix product, data type, operation; and the context
  keeps its device.
\<close>

theorem exec_dispatch_verdict:
  assumes "x_magic ctx = EXEC_CTX_MAGIC"
  shows "fst (exec_dispatch ctx cmd) =
    (case x_device ctx of
       None \<Rightarrow> exec_verdict OP_ALL DTYPE_ALL cmd
     | Some dev \<Rightarrow>
         if unat (dev_tile_count dev) \<le> unat (c_tile_id cmd) then AIMU_ERR_INVALID_COMMAND
         else exec_verdict (ti_supported_ops (dev_tiles dev ! unat (c_tile_id cmd)))
                (ti_supported_dtypes (dev_tiles dev ! unat (c_tile_id cmd))) cmd)
    \<and> x_device (snd (exec_dispatch ctx cmd)) = x_device ctx"
proof -
  have t: "tile_in_range dev t \<longleftrightarrow> \<not> unat (dev_tile_count dev) \<le> unat t" for dev :: "'a att1_aimu_device" and t
    by (simp add: tile_in_range_def word_le_nat_alt unat_ucast_up)
  note exec_dispatch_result [OF assms, of cmd]
  moreover have "x_device (snd (exec_dispatch ctx cmd)) = x_device ctx"
    using exec_dispatch_counts [OF assms, of cmd] by (cases "exec_dispatch ctx cmd") simp
  ultimately show ?thesis by (simp add: t split: option.split)
qed

definition demo_ctx :: "unit att1_aimu_exec_ctx" where
  "demo_ctx = \<lparr>x_magic = EXEC_CTX_MAGIC, x_device = Some demo_dev, x_counters = zero_exec_counters\<rparr>"

definition demo_rope :: att1_aimu_cmd where
  "demo_rope = zero_cmd\<lparr>c_command_type := 0x12\<rparr>"

lemma rope_verdict:
  assumes "c_command_type c = 0x12" "c_dtype c = 0"
  shows "exec_verdict 1 7 c = AIMU_ERR_UNSUPPORTED_OP"
proof -
  have "cmd_type_of (c_command_type c) = Some CMD_EXEC_ROPE"
    unfolding assms by (simp add: cmd_type_of_def all_cmd_types_def)
  then show ?thesis
    using assms by (simp add: exec_verdict_def needs_op_def is_exec_op_def op_bits)
qed

lemma demo_ctx_in_range: "\<not> unat (dev_tile_count demo_dev) \<le> unat (c_tile_id demo_rope)"
  using device_reachable_inv [OF demo_dev_facts(1)] demo_dev_facts(2)
  by (simp add: device_inv_def demo_rope_def zero_cmd_def)

theorem exec_dispatch_verdict_witness:
  "fst (exec_dispatch demo_ctx demo_rope) = AIMU_ERR_UNSUPPORTED_OP"
proof -
  have "x_magic demo_ctx = EXEC_CTX_MAGIC" by (simp add: demo_ctx_def)
  from exec_dispatch_verdict [OF this, of demo_rope] show ?thesis
    using demo_ctx_in_range demo_dev_facts(3,4) rope_verdict [of demo_rope]
    by (simp add: demo_ctx_def demo_rope_def zero_cmd_def)
qed

text \<open>
  Accounting of a replay: every command is seen once and counted once, as completed when
  its result is \<open>AIMU_OK\<close> and as failed otherwise, and the unsupported count is the number of
  results \<open>AIMU_ERR_UNSUPPORTED_OP\<close>, all modulo \<open>2 ^ 64\<close>.
\<close>

theorem exec_run_accounting:
  assumes "att1_aimu_exec_ctx_create True device True = (ATT1_OK, Some ctx)"
    and "exec_run cmds ctx = (rs, ctx')"
  shows "length rs = length cmds
    \<and> ec_seen (x_counters ctx') = word_of_nat (length cmds)
    \<and> ec_completed (x_counters ctx') = word_of_nat (length (filter (\<lambda>r. r = AIMU_OK) rs))
    \<and> ec_completed (x_counters ctx') + ec_failed (x_counters ctx') = ec_seen (x_counters ctx')
    \<and> ec_unsupported (x_counters ctx')
        = word_of_nat (length (filter (\<lambda>r. r = AIMU_ERR_UNSUPPORTED_OP) rs))"
proof -
  have c: "x_magic ctx = EXEC_CTX_MAGIC" "x_counters ctx = zero_exec_counters"
    using assms(1) by (auto simp: att1_aimu_exec_ctx_create_def)
  have "length (filter (\<lambda>r. r = AIMU_OK) rs) + length (filter (\<lambda>r. r \<noteq> AIMU_OK) rs) = length rs"
    by (simp add: sum_length_filter_compl)
  then have "word_of_nat (length (filter (\<lambda>r. r = AIMU_OK) rs))
      + word_of_nat (length (filter (\<lambda>r. r \<noteq> AIMU_OK) rs)) = (word_of_nat (length rs) :: u64)"
    by (simp flip: of_nat_add)
  then show ?thesis
    using exec_run_counts [OF c(1) assms(2)] c(2) by (simp add: zero_exec_counters_def)
qed

theorem exec_run_accounting_witness:
  "ec_seen (x_counters (snd (exec_run [demo_rope, zero_cmd] demo_ctx))) = 2
   \<and> ec_completed (x_counters (snd (exec_run [demo_rope, zero_cmd] demo_ctx)))
     + ec_failed (x_counters (snd (exec_run [demo_rope, zero_cmd] demo_ctx))) = 2"
proof -
  have "att1_aimu_exec_ctx_create True (Some demo_dev) True = (ATT1_OK, Some demo_ctx)"
    by (simp add: att1_aimu_exec_ctx_create_def demo_ctx_def)
  note acc = exec_run_accounting [OF this prod.collapse [symmetric], of "[demo_rope, zero_cmd]"]
  have "ec_seen (x_counters (snd (exec_run [demo_rope, zero_cmd] demo_ctx))) = 2"
    using acc [THEN conjunct2, THEN conjunct1] by (simp del: exec_run.simps)
  with acc [THEN conjunct2, THEN conjunct2, THEN conjunct2, THEN conjunct1] show ?thesis by simp
qed

section \<open>The command queue with the dispatch routine as its hook\<close>

lemma head_outcome_exec:
  assumes "q_exec_hook q = Some exec_hook" "q_exec_hook_ctx q = Some x" "cmd_content q = c # cs"
    and "cmd_type_of (c_command_type c) = Some t"
    and "t \<notin> {CMD_NOP, CMD_TRACE_SNAPSHOT, CMD_TILE_BARRIER, CMD_QUERY_COUNTERS, CMD_RESET_TILE}"
    and "exec_dispatch x c = (r, x')"
  shows "\<exists>q2. head_outcome q = (r, q2, c) \<and> q_exec_hook_ctx q2 = Some x'
    \<and> qc_commands_completed (q_counters q2) = qc_commands_completed (q_counters q)
    \<and> qc_commands_failed (q_counters q2) = qc_commands_failed (q_counters q)"
proof -
  have "q_exec_hook (snd (cmdq_pop q)) = Some exec_hook" "q_exec_hook_ctx (snd (cmdq_pop q)) = Some x"
    "q_counters (snd (cmdq_pop q)) = q_counters q"
    using assms(1,2) by (simp_all add: cmdq_pop_def Let_def)
  moreover have "exec_hook (Some x) c = (r, Some x', c)"
    using assms(6) by (simp add: exec_hook_def att1_aimu_exec_dispatch_def)
  ultimately show ?thesis
    using assms(3-5)
    by (auto simp: head_outcome_def cmdq_execute_def Let_def inc_unsupported_def)
qed

text \<open>
  With the simulated execution installed as the hook, dispatching a command that is not a
  housekeeping command completes it with the verdict of the execution, keeps the replay
  context that execution leaves, and counts it once: as completed when the result is
  \<open>AIMU_OK\<close>, and also when it is \<open>AIMU_ERR_UNSUPPORTED_OP\<close>, which the replay context counts as
  failed.
\<close>

theorem cmdq_exec_hook_spec:
  assumes "cmdq_reachable q" "q_exec_hook q = Some exec_hook" "q_exec_hook_ctx q = Some x"
    and "cmd_content q = c # cs" "cmd_type_of (c_command_type c) = Some t"
    and "t \<notin> {CMD_NOP, CMD_TRACE_SNAPSHOT, CMD_TILE_BARRIER, CMD_QUERY_COUNTERS, CMD_RESET_TILE}"
    and "length (comp_content q) < unat (comp_depth q) - 1" "exec_dispatch x c = (r, x')"
  shows "\<exists>q' k. att1_aimu_cmdq_dispatch_one (Some q) = (ATT1_OK, Some q')
    \<and> cmd_content q' = cs \<and> comp_content q' = comp_content q @ [k] \<and> completion_matches k c r
    \<and> q_exec_hook_ctx q' = Some x'
    \<and> (if r = AIMU_OK \<or> r = AIMU_ERR_UNSUPPORTED_OP
       then qc_commands_completed (q_counters q') = qc_commands_completed (q_counters q) + 1
         \<and> qc_commands_failed (q_counters q') = qc_commands_failed (q_counters q)
       else qc_commands_failed (q_counters q') = qc_commands_failed (q_counters q) + 1
         \<and> qc_commands_completed (q_counters q') = qc_commands_completed (q_counters q))"
proof -
  have i: "cmdq_inv q" using cmdq_reachable_invs [OF assms(1)] by blast
  obtain q2 where h: "head_outcome q = (r, q2, c)" and q2: "q_exec_hook_ctx q2 = Some x'"
    "qc_commands_completed (q_counters q2) = qc_commands_completed (q_counters q)"
    "qc_commands_failed (q_counters q2) = qc_commands_failed (q_counters q)"
    using head_outcome_exec [OF assms(2-6,8)] by blast
  have ne: "cmd_content q \<noteq> []" and room: "length (comp_content q) < comp_cap q"
    using assms(4,7) by (simp_all add: comp_cap_def)
  obtain q' k where d: "cmdq_dispatch_one q = (ATT1_OK, q')" "cmd_content q' = tl (cmd_content q)"
    "comp_content q' = comp_content q @ [k]" "completion_matches k c r"
    by (rule cmdq_dispatch_one_ok [OF i ne room h])
  obtain q3 where w: "write_completion q2 c r = (ATT1_OK, q3)" "q' = cmdq_account r q3"
    using d(1) cmdq_dispatch_one_unfold [OF i ne h] by (auto split: prod.splits if_splits)
  have "q_exec_hook_ctx q3 = Some x'"
    "qc_commands_completed (q_counters q3) = qc_commands_completed (q_counters q)"
    "qc_commands_failed (q_counters q3) = qc_commands_failed (q_counters q)"
    using w(1) q2
    by (auto simp: write_completion_def compq_push_def inc_defs Let_def split: if_splits)
  then show ?thesis
    using d w(2) assms(4)
    by (intro exI [of _ q'] exI [of _ k])
      (auto simp: att1_aimu_cmdq_dispatch_one_def cmdq_account_def Let_def inc_defs)
qed

theorem cmdq_exec_hook_spec_witness:
  "\<exists>(q :: unit att1_aimu_exec_ctx att1_aimu_cmdq) q' k c.
     att1_aimu_cmdq_dispatch_one (Some q) = (ATT1_OK, Some q') \<and> comp_content q' = [k]
     \<and> completion_matches k c AIMU_ERR_UNSUPPORTED_OP
     \<and> qc_commands_completed (q_counters q') = 1 \<and> qc_commands_failed (q_counters q') = 0"
proof -
  let ?cfg = "\<lparr>qcfg_tile_count = 2, qcfg_cmd_ring_depth = 4, qcfg_comp_ring_depth = 4\<rparr>"
  define q0 :: "unit att1_aimu_exec_ctx att1_aimu_cmdq" where
    "q0 = (new_cmdq ?cfg)\<lparr>q_exec_hook := Some exec_hook, q_exec_hook_ctx := Some demo_ctx\<rparr>"
  define q1 where "q1 = fst (snd (cmdq_submit q0 demo_rope))"
  have valid: "cmdq_config_valid ?cfg"
    by (simp add: cmdq_config_valid_def CMDQ_MAX_TILES_def CMDQ_MAX_DEPTH_def is_power_of_two_def)
  then have "att1_aimu_cmdq_create (\<lambda>_. True) (Some ?cfg) True
      = (ATT1_OK, Some (new_cmdq ?cfg :: unit att1_aimu_exec_ctx att1_aimu_cmdq))"
    by (simp add: att1_aimu_cmdq_create_def)
  from cmdq_reachable.step [OF cmdq_reachable.create [OF this] cmdq_step.hook]
  have r0: "cmdq_reachable q0" by (simp add: att1_aimu_cmdq_set_exec_hook_def q0_def)
  then have r1: "cmdq_reachable q1"
    unfolding q1_def
    by (cases "cmdq_submit q0 demo_rope") (auto intro: cmdq_reachable.step [OF _ cmdq_step.submit])
  have c0: "cmd_content q0 = []" "comp_content q0 = []" "q_config q0 = ?cfg"
    "\<not> submit_rejects q0 demo_rope"
    by (simp_all add: q0_def new_cmdq_def cmd_content_def comp_content_def mring_content_def
        submit_rejects_def demo_rope_def zero_cmd_def)
  have i0: "cmdq_inv q0" using cmdq_reachable_invs [OF r0] by blast
  have room: "length (cmd_content q0) < cmd_cap q0" by (simp add: c0 cmd_cap_def)
  have s: "q1 = inc_submitted (cmdq_push (stamped q0 demo_rope) (q0\<lparr>q_next_command_id := q_next_command_id q0 + 1\<rparr>))"
    using cmdq_submit_ok [OF i0 c0(4) room] by (simp add: q1_def)
  have f: "q_exec_hook q1 = Some exec_hook" "q_exec_hook_ctx q1 = Some demo_ctx"
    "qc_commands_completed (q_counters q1) = 0" "qc_commands_failed (q_counters q1) = 0"
    by (simp_all add: s inc_submitted_def cmdq_push_def Let_def q0_def new_cmdq_def zero_cmdq_counters_def)
  have c1: "cmd_content q1 = [stamped q0 demo_rope]" "comp_content q1 = []" "q_config q1 = ?cfg"
    using cmdq_submit_content [OF i0 c0(4) room] c0 by (simp_all add: q1_def)
  have st: "c_command_type (stamped q0 demo_rope) = 0x12" "c_tile_id (stamped q0 demo_rope) = 0"
    "c_dtype (stamped q0 demo_rope) = 0"
    by (simp_all add: stamped_def demo_rope_def zero_cmd_def Let_def)
  have t: "cmd_type_of (c_command_type (stamped q0 demo_rope)) = Some CMD_EXEC_ROPE"
    unfolding st by (simp add: cmd_type_of_def all_cmd_types_def)
  have m: "x_magic demo_ctx = EXEC_CTX_MAGIC" by (simp add: demo_ctx_def)
  have "fst (exec_dispatch demo_ctx (stamped q0 demo_rope)) = AIMU_ERR_UNSUPPORTED_OP"
  proof -
    have "tile_in_range demo_dev (c_tile_id (stamped q0 demo_rope))"
      using tile_in_range_iff [OF device_reachable_inv [OF demo_dev_facts(1)]] demo_dev_facts(2) st
      by simp
    then have "fst (exec_dispatch demo_ctx (stamped q0 demo_rope)) = exec_verdict 1 7 (stamped q0 demo_rope)"
      using exec_dispatch_result [OF m, of "stamped q0 demo_rope"] demo_dev_facts(3,4) st
      by (simp add: demo_ctx_def)
    also have "\<dots> = AIMU_ERR_UNSUPPORTED_OP" using st by (intro rope_verdict) simp_all
    finally show ?thesis .
  qed
  then obtain x' where e: "exec_dispatch demo_ctx (stamped q0 demo_rope) = (AIMU_ERR_UNSUPPORTED_OP, x')"
    by (cases "exec_dispatch demo_ctx (stamped q0 demo_rope)") simp
  have "length (comp_content q1) < unat (comp_depth q1) - 1" by (simp add: c1)
  from cmdq_exec_hook_spec [OF r1 f(1,2) c1(1) t _ this e] f(3,4) c1(2)
  show ?thesis by auto
qed

end
