(* ===== verification/Fabric.thy ===== *)
theory Fabric
  imports Fifo
begin

text \<open>
  The packet fabric (\<^verbatim>\<open>src/fabric.c\<close>, \<^verbatim>\<open>simulator/sim_fabric_bus.c\<close>): one bounded inbound queue per
  tile with its payload bytes in one flat store, broadcast, and the single-generation barrier.
  Sizes and indices (\<^verbatim>\<open>size_t\<close>) are natural numbers: creation refuses a configuration whose
  storage size does not fit 64 bits, so the index arithmetic of the file cannot wrap. Tile
  numbers and the fields of a packet header keep their widths, and the statistics counters
  wrap at 64 bits. A fabric that was destroyed, or whose creation failed, has no queues.
\<close>

section \<open>State\<close>

datatype att1_packet_type =
    PACKET_ACTIVATION | PACKET_LOGITS | PACKET_KV_PAGE | PACKET_CONTROL | PACKET_BARRIER | PACKET_TRACE

record att1_fabric_packet =
  pk_type :: att1_packet_type
  pk_source :: u32
  pk_target :: u32
  pk_payload_bytes :: u32
  pk_tag :: u64

record att1_fabric_bus_config =
  fc_tile_count :: nat
  fc_queue_capacity :: nat
  fc_max_payload_bytes :: nat

record att1_fabric_counters =
  fk_packets_sent :: u64
  fk_packets_received :: u64
  fk_broadcast_packets :: u64
  fk_payload_bytes_sent :: u64
  fk_payload_bytes_received :: u64
  fk_queue_full_errors :: u64
  fk_invalid_packets :: u64
  fk_empty_receives :: u64
  fk_barrier_arrivals :: u64
  fk_barrier_completions :: u64

definition zero_fabric_counters :: att1_fabric_counters where
  "zero_fabric_counters = \<lparr>fk_packets_sent = 0, fk_packets_received = 0, fk_broadcast_packets = 0,
     fk_payload_bytes_sent = 0, fk_payload_bytes_received = 0, fk_queue_full_errors = 0,
     fk_invalid_packets = 0, fk_empty_receives = 0, fk_barrier_arrivals = 0,
     fk_barrier_completions = 0\<rparr>"

record att1_fabric_queue =
  fq_head :: nat
  fq_count :: nat
  fq_packets :: "att1_fabric_packet list"

record att1_fabric =
  f_config :: att1_fabric_bus_config
  f_counters :: att1_fabric_counters
  f_queues :: "att1_fabric_queue list"
  f_payload_storage :: "u8 list"
  f_barrier_expected :: "bool list"
  f_barrier_arrived :: "bool list"
  f_barrier_expected_count :: nat
  f_barrier_active :: bool

definition zero_fabric :: att1_fabric where
  "zero_fabric = \<lparr>f_config = \<lparr>fc_tile_count = 0, fc_queue_capacity = 0, fc_max_payload_bytes = 0\<rparr>,
     f_counters = zero_fabric_counters, f_queues = [], f_payload_storage = [],
     f_barrier_expected = [], f_barrier_arrived = [], f_barrier_expected_count = 0,
     f_barrier_active = False\<rparr>"

definition zero_packet :: att1_fabric_packet where
  "zero_packet = \<lparr>pk_type = PACKET_ACTIVATION, pk_source = 0, pk_target = 0, pk_payload_bytes = 0,
     pk_tag = 0\<rparr>"

abbreviation f_tiles :: "att1_fabric \<Rightarrow> nat" where "f_tiles f \<equiv> fc_tile_count (f_config f)"
abbreviation f_cap :: "att1_fabric \<Rightarrow> nat" where "f_cap f \<equiv> fc_queue_capacity (f_config f)"
abbreviation f_max :: "att1_fabric \<Rightarrow> nat" where "f_max f \<equiv> fc_max_payload_bytes (f_config f)"

definition UINT32_MAX_nat :: nat where "UINT32_MAX_nat = 2 ^ 32 - 1"

section \<open>Helpers\<close>

definition att1_fabric_config_valid :: "att1_fabric_bus_config option \<Rightarrow> bool" where
  "att1_fabric_config_valid cp =
     (case cp of
        None \<Rightarrow> False
      | Some c \<Rightarrow>
        (if fc_tile_count c = 0 \<or> fc_queue_capacity c = 0 \<or> fc_max_payload_bytes c = 0 then False
         else if UINT32_MAX_nat < fc_tile_count c then False
         else if UINT32_MAX_nat < fc_max_payload_bytes c then False
         else (case att1_mul_size (fc_tile_count c) (fc_queue_capacity c) of
                 None \<Rightarrow> False
               | Some slots \<Rightarrow>
                 (case att1_mul_size slots (fc_max_payload_bytes c) of
                    None \<Rightarrow> False
                  | Some payload_bytes \<Rightarrow> 0 < payload_bytes))))"

text \<open>The offset of \<^verbatim>\<open>att1_fabric_slot_payload\<close> in the payload store.\<close>

definition slot_offset :: "att1_fabric \<Rightarrow> nat \<Rightarrow> nat \<Rightarrow> nat" where
  "slot_offset f tile_id slot = (tile_id * f_cap f + slot) * f_max f"

definition att1_fabric_valid_tile :: "att1_fabric \<Rightarrow> u32 \<Rightarrow> bool" where
  "att1_fabric_valid_tile f t \<longleftrightarrow> unat t < f_tiles f"

abbreviation upd_fk :: "(att1_fabric_counters \<Rightarrow> att1_fabric_counters) \<Rightarrow> att1_fabric \<Rightarrow> att1_fabric" where
  "upd_fk g f \<equiv> f\<lparr>f_counters := g (f_counters f)\<rparr>"

definition att1_fabric_count_invalid :: "att1_fabric \<Rightarrow> att1_fabric" where
  "att1_fabric_count_invalid = upd_fk (\<lambda>c. c\<lparr>fk_invalid_packets := fk_invalid_packets c + 1\<rparr>)"

definition count_queue_full :: "att1_fabric \<Rightarrow> att1_fabric" where
  "count_queue_full = upd_fk (\<lambda>c. c\<lparr>fk_queue_full_errors := fk_queue_full_errors c + 1\<rparr>)"

text \<open>The check without its counter; the callers count an invalid packet when it fails.\<close>

definition att1_fabric_payload_valid :: "att1_fabric \<Rightarrow> u8 list option \<Rightarrow> nat \<Rightarrow> bool" where
  "att1_fabric_payload_valid f payload payload_bytes =
     (if f_max f < payload_bytes then False
      else if 0 < payload_bytes \<and> payload = None then False
      else True)"

definition att1_fabric_queue_has_room :: "att1_fabric \<Rightarrow> u32 \<Rightarrow> bool" where
  "att1_fabric_queue_has_room f t \<longleftrightarrow> fq_count (f_queues f ! unat t) < f_cap f"

text \<open>\<open>payload\<close> is the source buffer, of which \<open>payload_bytes\<close> bytes are copied.\<close>

definition att1_fabric_enqueue ::
  "att1_fabric \<Rightarrow> u32 \<Rightarrow> u32 \<Rightarrow> att1_packet_type \<Rightarrow> u8 list option \<Rightarrow> nat \<Rightarrow> u64 \<Rightarrow> att1_fabric" where
  "att1_fabric_enqueue f source_tile target_tile type payload payload_bytes tag =
     (let t = unat target_tile;
          queue = f_queues f ! t;
          slot = (fq_head queue + fq_count queue) mod f_cap f;
          packet = \<lparr>pk_type = type, pk_source = source_tile, pk_target = target_tile,
                    pk_payload_bytes = word_of_nat payload_bytes, pk_tag = tag\<rparr>;
          queue' = queue\<lparr>fq_packets := (fq_packets queue)[slot := packet], fq_count := fq_count queue + 1\<rparr>;
          storage = (if 0 < payload_bytes
                     then write_bytes (slot_offset f t slot) (take payload_bytes (the payload)) (f_payload_storage f)
                     else f_payload_storage f);
          c = f_counters f
      in f\<lparr>f_queues := (f_queues f)[t := queue'], f_payload_storage := storage,
           f_counters := c\<lparr>fk_packets_sent := fk_packets_sent c + 1,
                           fk_payload_bytes_sent := fk_payload_bytes_sent c + word_of_nat payload_bytes\<rparr>\<rparr>)"

section \<open>Lifecycle\<close>

text \<open>
  \<open>alloc i\<close> says whether the i-th \<^verbatim>\<open>calloc\<close> of the call succeeds: the queue array, the two
  barrier arrays, the payload store, and then the packet array of each tile.
\<close>

definition att1_fabric_create ::
  "(nat \<Rightarrow> bool) \<Rightarrow> att1_fabric option \<Rightarrow> att1_fabric_bus_config option \<Rightarrow> att1_status \<times> att1_fabric option" where
  "att1_fabric_create alloc fp cp =
     (case (fp, cp) of
        (Some f, Some c) \<Rightarrow>
          (if \<not> att1_fabric_config_valid cp then (ATT1_ERR_INVALID_ARG, fp)
           else if \<not> (alloc 0 \<and> alloc 1 \<and> alloc 2) then (ATT1_ERR_OOM, Some zero_fabric)
           else if \<not> alloc 3 then (ATT1_ERR_OOM, Some zero_fabric)
           else if \<not> list_all (\<lambda>tile. alloc (4 + tile)) [0..<fc_tile_count c]
                then (ATT1_ERR_OOM, Some zero_fabric)
           else (ATT1_OK, Some
             (zero_fabric
               \<lparr>f_config := c,
                f_queues := replicate (fc_tile_count c)
                  \<lparr>fq_head = 0, fq_count = 0, fq_packets = replicate (fc_queue_capacity c) zero_packet\<rparr>,
                f_payload_storage :=
                  replicate (fc_tile_count c * fc_queue_capacity c * fc_max_payload_bytes c) 0,
                f_barrier_expected := replicate (fc_tile_count c) False,
                f_barrier_arrived := replicate (fc_tile_count c) False\<rparr>)))
      | _ \<Rightarrow> (ATT1_ERR_INVALID_ARG, fp))"

definition att1_fabric_destroy :: "att1_fabric option \<Rightarrow> att1_fabric option" where
  "att1_fabric_destroy fp = map_option (\<lambda>_. zero_fabric) fp"

definition att1_sim_fabric_bus_create ::
  "(nat \<Rightarrow> bool) \<Rightarrow> att1_fabric option \<Rightarrow> nat \<Rightarrow> nat \<Rightarrow> nat \<Rightarrow> att1_status \<times> att1_fabric option" where
  "att1_sim_fabric_bus_create alloc fp tile_count queue_capacity max_payload_bytes =
     att1_fabric_create alloc fp
       (Some \<lparr>fc_tile_count = tile_count, fc_queue_capacity = queue_capacity,
              fc_max_payload_bytes = max_payload_bytes\<rparr>)"

section \<open>Send and receive\<close>

text \<open>The guard \<^verbatim>\<open>fabric == NULL || fabric->queues == NULL\<close> in front of an operation.\<close>

definition with_fabric ::
  "(att1_fabric \<Rightarrow> att1_status \<times> att1_fabric) \<Rightarrow> att1_fabric option \<Rightarrow> att1_status \<times> att1_fabric option" where
  "with_fabric op fp =
     (case fp of
        None \<Rightarrow> (ATT1_ERR_INVALID_ARG, None)
      | Some f \<Rightarrow> if f_queues f = [] then (ATT1_ERR_INVALID_ARG, fp)
                  else (let (st, f') = op f in (st, Some f')))"

definition fabric_send ::
  "u32 \<Rightarrow> u32 \<Rightarrow> att1_packet_type \<Rightarrow> u8 list option \<Rightarrow> nat \<Rightarrow> u64 \<Rightarrow> att1_fabric
     \<Rightarrow> att1_status \<times> att1_fabric" where
  "fabric_send source_tile target_tile type payload payload_bytes tag f =
     (if \<not> att1_fabric_valid_tile f source_tile \<or> \<not> att1_fabric_valid_tile f target_tile
      then (ATT1_ERR_INVALID_ARG, att1_fabric_count_invalid f)
      else if \<not> att1_fabric_payload_valid f payload payload_bytes
      then (ATT1_ERR_INVALID_ARG, att1_fabric_count_invalid f)
      else if \<not> att1_fabric_queue_has_room f target_tile
      then (ATT1_ERR_QUEUE_FULL, count_queue_full f)
      else (ATT1_OK, att1_fabric_enqueue f source_tile target_tile type payload payload_bytes tag))"

definition att1_fabric_send ::
  "att1_fabric option \<Rightarrow> u32 \<Rightarrow> u32 \<Rightarrow> att1_packet_type \<Rightarrow> u8 list option \<Rightarrow> nat \<Rightarrow> u64
     \<Rightarrow> att1_status \<times> att1_fabric option" where
  "att1_fabric_send fp source_tile target_tile type payload payload_bytes tag =
     with_fabric (fabric_send source_tile target_tile type payload payload_bytes tag) fp"

text \<open>
  The bytes copied out and the packet header come back as a value; \<open>out_payload_ok\<close> says that
  the output buffer is not \<^verbatim>\<open>NULL\<close>, \<open>capacity\<close> is its size.
\<close>

definition fabric_receive ::
  "att1_fabric \<Rightarrow> u32 \<Rightarrow> bool \<Rightarrow> nat
     \<Rightarrow> att1_status \<times> att1_fabric \<times> (att1_fabric_packet \<times> u8 list) option" where
  "fabric_receive f tile_id out_payload_ok capacity =
     (if \<not> att1_fabric_valid_tile f tile_id then (ATT1_ERR_INVALID_ARG, att1_fabric_count_invalid f, None)
      else
       (let t = unat tile_id; queue = f_queues f ! t
        in if fq_count queue = 0
           then (ATT1_ERR_QUEUE_EMPTY,
                 upd_fk (\<lambda>c. c\<lparr>fk_empty_receives := fk_empty_receives c + 1\<rparr>) f, None)
           else
            (let packet = fq_packets queue ! fq_head queue; n = unat (pk_payload_bytes packet)
             in if capacity < n \<or> (0 < n \<and> \<not> out_payload_ok)
                then (ATT1_ERR_INVALID_ARG, att1_fabric_count_invalid f, None)
                else
                 (let bytes = read_bytes (slot_offset f t (fq_head queue)) n (f_payload_storage f);
                      queue' = queue\<lparr>fq_head := (fq_head queue + 1) mod f_cap f, fq_count := fq_count queue - 1\<rparr>;
                      c = f_counters f
                  in (ATT1_OK,
                      f\<lparr>f_queues := (f_queues f)[t := queue'],
                        f_counters := c\<lparr>fk_packets_received := fk_packets_received c + 1,
                          fk_payload_bytes_received := fk_payload_bytes_received c + word_of_nat n\<rparr>\<rparr>,
                      Some (packet, bytes))))))"

definition att1_fabric_receive ::
  "att1_fabric option \<Rightarrow> u32 \<Rightarrow> bool \<Rightarrow> bool \<Rightarrow> nat
     \<Rightarrow> att1_status \<times> att1_fabric option \<times> (att1_fabric_packet \<times> u8 list) option" where
  "att1_fabric_receive fp tile_id out_packet_ok out_payload_ok capacity =
     (case fp of
        None \<Rightarrow> (ATT1_ERR_INVALID_ARG, None, None)
      | Some f \<Rightarrow>
        (if f_queues f = [] \<or> \<not> out_packet_ok then (ATT1_ERR_INVALID_ARG, fp, None)
         else (let (st, f', out) = fabric_receive f tile_id out_payload_ok capacity in (st, Some f', out))))"

text \<open>The polling loop; \<open>n\<close> is the number of attempts left, \<open>timeout_ticks + 1\<close> at the start.\<close>

fun receive_loop ::
  "nat \<Rightarrow> att1_fabric option \<Rightarrow> u32 \<Rightarrow> bool \<Rightarrow> bool \<Rightarrow> nat
     \<Rightarrow> att1_status \<times> att1_fabric option \<times> (att1_fabric_packet \<times> u8 list) option" where
  "receive_loop 0 fp tile_id pok ook capacity = (ATT1_ERR_TIMEOUT, fp, None)"
| "receive_loop (Suc n) fp tile_id pok ook capacity =
     (let (rc, fp', out) = att1_fabric_receive fp tile_id pok ook capacity
      in if rc \<noteq> ATT1_ERR_QUEUE_EMPTY then (rc, fp', out)
         else receive_loop n fp' tile_id pok ook capacity)"

definition att1_fabric_receive_timeout ::
  "att1_fabric option \<Rightarrow> u32 \<Rightarrow> bool \<Rightarrow> bool \<Rightarrow> nat \<Rightarrow> nat
     \<Rightarrow> att1_status \<times> att1_fabric option \<times> (att1_fabric_packet \<times> u8 list) option" where
  "att1_fabric_receive_timeout fp tile_id pok ook capacity timeout_ticks =
     receive_loop (timeout_ticks + 1) fp tile_id pok ook capacity"

section \<open>Broadcast\<close>

text \<open>The first loop over the group: the first tile that is invalid or full decides.\<close>

fun preflight :: "att1_fabric \<Rightarrow> u32 \<Rightarrow> u32 list \<Rightarrow> att1_status" where
  "preflight f source [] = ATT1_OK"
| "preflight f source (t # ts) =
     (if \<not> att1_fabric_valid_tile f t then ATT1_ERR_INVALID_ARG
      else if t \<noteq> source \<and> \<not> att1_fabric_queue_has_room f t then ATT1_ERR_QUEUE_FULL
      else preflight f source ts)"

fun send_group ::
  "u32 \<Rightarrow> att1_packet_type \<Rightarrow> u8 list option \<Rightarrow> nat \<Rightarrow> u64 \<Rightarrow> u32 list \<Rightarrow> att1_fabric \<Rightarrow> nat
     \<Rightarrow> att1_fabric \<times> nat" where
  "send_group source type payload n tag [] f sent = (f, sent)"
| "send_group source type payload n tag (t # ts) f sent =
     (if t \<noteq> source
      then send_group source type payload n tag ts (att1_fabric_enqueue f source t type payload n tag) (sent + 1)
      else send_group source type payload n tag ts f sent)"

text \<open>
  Without a group the loops run over all tile numbers; the \<^verbatim>\<open>(uint32_t)\<close> casts are exact since
  there are at most \<^verbatim>\<open>UINT32_MAX\<close> tiles.
\<close>

definition all_tiles :: "att1_fabric \<Rightarrow> u32 list" where
  "all_tiles f = map word_of_nat [0..<f_tiles f]"

definition fabric_broadcast ::
  "u32 \<Rightarrow> u32 list option \<Rightarrow> nat \<Rightarrow> att1_packet_type \<Rightarrow> u8 list option \<Rightarrow> nat \<Rightarrow> u64
     \<Rightarrow> att1_fabric \<Rightarrow> att1_status \<times> att1_fabric" where
  "fabric_broadcast source grp group_count type payload payload_bytes tag f =
     (if \<not> att1_fabric_valid_tile f source then (ATT1_ERR_INVALID_ARG, att1_fabric_count_invalid f)
      else if \<not> att1_fabric_payload_valid f payload payload_bytes
      then (ATT1_ERR_INVALID_ARG, att1_fabric_count_invalid f)
      else if grp = None \<and> group_count \<noteq> 0 then (ATT1_ERR_INVALID_ARG, att1_fabric_count_invalid f)
      else
       (let targets = (case grp of Some g \<Rightarrow> take group_count g | None \<Rightarrow> all_tiles f)
        in case preflight f source targets of
             ATT1_ERR_INVALID_ARG \<Rightarrow> (ATT1_ERR_INVALID_ARG, att1_fabric_count_invalid f)
           | ATT1_ERR_QUEUE_FULL \<Rightarrow> (ATT1_ERR_QUEUE_FULL, count_queue_full f)
           | _ \<Rightarrow>
             (let (f', sent) = send_group source type payload payload_bytes tag targets f 0
              in (ATT1_OK, upd_fk (\<lambda>c. c\<lparr>fk_broadcast_packets := fk_broadcast_packets c + word_of_nat sent\<rparr>) f'))))"

definition att1_fabric_broadcast ::
  "att1_fabric option \<Rightarrow> u32 \<Rightarrow> u32 list option \<Rightarrow> nat \<Rightarrow> att1_packet_type \<Rightarrow> u8 list option \<Rightarrow> nat \<Rightarrow> u64
     \<Rightarrow> att1_status \<times> att1_fabric option" where
  "att1_fabric_broadcast fp source grp group_count type payload payload_bytes tag =
     with_fabric (fabric_broadcast source grp group_count type payload payload_bytes tag) fp"

section \<open>Barrier\<close>

fun mark_participants :: "nat \<Rightarrow> u32 list \<Rightarrow> bool list \<Rightarrow> bool \<times> bool list" where
  "mark_participants tiles [] expected = (True, expected)"
| "mark_participants tiles (t # ts) expected =
     (if \<not> unat t < tiles then (False, expected)
      else if expected ! unat t then (False, expected)
      else mark_participants tiles ts (expected[unat t := True]))"

text \<open>The result and the contents of \<^verbatim>\<open>barrier_expected\<close> after the call.\<close>

definition att1_fabric_participant_set_valid ::
  "att1_fabric \<Rightarrow> u32 list option \<Rightarrow> nat \<Rightarrow> bool \<times> bool list" where
  "att1_fabric_participant_set_valid f participants participant_count =
     (case participants of
        None \<Rightarrow> (False, f_barrier_expected f)
      | Some ps \<Rightarrow>
        (if participant_count = 0 then (False, f_barrier_expected f)
         else if f_tiles f < participant_count then (False, f_barrier_expected f)
         else mark_participants (f_tiles f) (take participant_count ps) (replicate (f_tiles f) False)))"

text \<open>\<open>alloc\<close>: the \<^verbatim>\<open>malloc\<close> of the saved copy succeeds. The expected set is restored.\<close>

definition att1_fabric_participant_set_matches ::
  "bool \<Rightarrow> att1_fabric \<Rightarrow> u32 list option \<Rightarrow> nat \<Rightarrow> bool" where
  "att1_fabric_participant_set_matches alloc f participants participant_count =
     (if \<not> alloc then False
      else (let saved = f_barrier_expected f;
                (valid, expected) = att1_fabric_participant_set_valid f participants participant_count
            in if \<not> valid then False
               else list_all (\<lambda>tile. expected ! tile = saved ! tile) [0..<f_tiles f]))"

definition barrier_mark_arrival :: "att1_fabric \<Rightarrow> nat \<Rightarrow> att1_status \<times> att1_fabric \<times> bool" where
  "barrier_mark_arrival f t =
     (if \<not> f_barrier_expected f ! t then (ATT1_ERR_INVALID_ARG, att1_fabric_count_invalid f, False)
      else if f_barrier_arrived f ! t then (ATT1_ERR_INVALID_ARG, att1_fabric_count_invalid f, False)
      else
       (let f1 = upd_fk (\<lambda>c. c\<lparr>fk_barrier_arrivals := fk_barrier_arrivals c + 1\<rparr>)
                   (f\<lparr>f_barrier_arrived := (f_barrier_arrived f)[t := True]\<rparr>);
            arrived_count = length (filter (\<lambda>tile. f_barrier_arrived f1 ! tile) [0..<f_tiles f1])
        in if arrived_count = f_barrier_expected_count f1
           then (ATT1_OK,
                 (upd_fk (\<lambda>c. c\<lparr>fk_barrier_completions := fk_barrier_completions c + 1\<rparr>) f1)
                   \<lparr>f_barrier_active := False, f_barrier_expected_count := 0,
                    f_barrier_expected := replicate (f_tiles f) False,
                    f_barrier_arrived := replicate (f_tiles f) False\<rparr>,
                 True)
           else (ATT1_OK, f1, False)))"

text \<open>The last component is the value stored in \<^verbatim>\<open>*out_complete\<close>.\<close>

definition fabric_barrier_arrive ::
  "bool \<Rightarrow> att1_fabric \<Rightarrow> u32 \<Rightarrow> u32 list option \<Rightarrow> nat \<Rightarrow> att1_status \<times> att1_fabric \<times> bool" where
  "fabric_barrier_arrive alloc f tile_id participants participant_count =
     (if \<not> att1_fabric_valid_tile f tile_id then (ATT1_ERR_INVALID_ARG, att1_fabric_count_invalid f, False)
      else if \<not> f_barrier_active f then
       (let (valid, expected) = att1_fabric_participant_set_valid f participants participant_count;
            f1 = f\<lparr>f_barrier_expected := expected\<rparr>
        in if \<not> valid then (ATT1_ERR_INVALID_ARG, att1_fabric_count_invalid f1, False)
           else barrier_mark_arrival
                  (f1\<lparr>f_barrier_arrived := replicate (f_tiles f) False,
                      f_barrier_expected_count := participant_count, f_barrier_active := True\<rparr>)
                  (unat tile_id))
      else if \<not> att1_fabric_participant_set_matches alloc f participants participant_count
      then (ATT1_ERR_INVALID_ARG, att1_fabric_count_invalid f, False)
      else barrier_mark_arrival f (unat tile_id))"

definition att1_fabric_barrier_arrive ::
  "bool \<Rightarrow> att1_fabric option \<Rightarrow> u32 \<Rightarrow> u32 list option \<Rightarrow> nat
     \<Rightarrow> att1_status \<times> att1_fabric option \<times> bool" where
  "att1_fabric_barrier_arrive alloc fp tile_id participants participant_count =
     (case fp of
        None \<Rightarrow> (ATT1_ERR_INVALID_ARG, None, False)
      | Some f \<Rightarrow>
        (if f_barrier_expected f = [] \<or> f_barrier_arrived f = [] then (ATT1_ERR_INVALID_ARG, fp, False)
         else (let (st, f', complete) = fabric_barrier_arrive alloc f tile_id participants participant_count
               in (st, Some f', complete))))"

section \<open>Counters\<close>

definition att1_fabric_get_counters :: "att1_fabric option \<Rightarrow> bool \<Rightarrow> att1_fabric_counters option" where
  "att1_fabric_get_counters fp out_ok =
     (case fp of Some f \<Rightarrow> if out_ok then Some (f_counters f) else None | None \<Rightarrow> None)"

definition att1_fabric_reset_counters :: "att1_fabric option \<Rightarrow> att1_fabric option" where
  "att1_fabric_reset_counters fp = map_option (\<lambda>f. f\<lparr>f_counters := zero_fabric_counters\<rparr>) fp"

end
