(* ===== verification/Fabric_Inv.thy ===== *)
theory Fabric_Inv
  imports Fabric
begin

text \<open>
  Correctness of the fabric queues: disjointness of the payload slots, the invariant, enqueue
  and receive on the list of pending messages of each tile, and each inbound queue as a
  bounded queue (an interpretation of the locale \<open>bounded_fifo\<close>).
\<close>

section \<open>Invariant\<close>

type_synonym fab_msg = "att1_fabric_packet \<times> u8 list"

definition slot_msg :: "att1_fabric \<Rightarrow> nat \<Rightarrow> nat \<Rightarrow> fab_msg" where
  "slot_msg f t s =
     (let p = fq_packets (f_queues f ! t) ! s
      in (p, read_bytes (slot_offset f t s) (unat (pk_payload_bytes p)) (f_payload_storage f)))"

definition fab_slots :: "att1_fabric \<Rightarrow> nat \<Rightarrow> fab_msg list" where
  "fab_slots f t = map (slot_msg f t) [0..<f_cap f]"

definition fab_content :: "att1_fabric \<Rightarrow> nat \<Rightarrow> fab_msg list" where
  "fab_content f t = ring_content (fab_slots f t) (fq_head (f_queues f ! t)) (fq_count (f_queues f ! t))"

definition queue_ok :: "att1_fabric \<Rightarrow> nat \<Rightarrow> bool" where
  "queue_ok f t \<longleftrightarrow> length (fq_packets (f_queues f ! t)) = f_cap f
     \<and> fq_head (f_queues f ! t) < f_cap f \<and> fq_count (f_queues f ! t) \<le> f_cap f
     \<and> (\<forall>s < f_cap f. unat (pk_payload_bytes (fq_packets (f_queues f ! t) ! s)) \<le> f_max f)"

definition fab_inv :: "att1_fabric \<Rightarrow> bool" where
  "fab_inv f \<longleftrightarrow> att1_fabric_config_valid (Some (f_config f))
     \<and> length (f_queues f) = f_tiles f
     \<and> length (f_payload_storage f) = f_tiles f * f_cap f * f_max f
     \<and> (\<forall>t < f_tiles f. queue_ok f t)
     \<and> (\<forall>t < f_tiles f. \<forall>m \<in> set (fab_content f t).
          unat (pk_target (fst m)) = t \<and> unat (pk_source (fst m)) < f_tiles f
          \<and> unat (pk_payload_bytes (fst m)) = length (snd m))"

lemma config_valid_bounds:
  assumes "att1_fabric_config_valid (Some c)"
  shows "0 < fc_tile_count c" "0 < fc_queue_capacity c" "0 < fc_max_payload_bytes c"
    "fc_tile_count c < 2 ^ 32" "fc_max_payload_bytes c < 2 ^ 32"
    "fc_tile_count c * fc_queue_capacity c * fc_max_payload_bytes c < 2 ^ 64"
proof -
  have d: "a * b \<le> SIZE_MAX" if "\<not> SIZE_MAX div a < b" "0 < a" for a b :: nat
  proof -
    have "a * b \<le> a * (SIZE_MAX div a)" using that(1) by (intro mult_le_mono2) simp
    also have "\<dots> \<le> SIZE_MAX" by (rule times_div_less_eq_dividend)
    finally show ?thesis .
  qed
  show b: "0 < fc_tile_count c" "0 < fc_queue_capacity c" "0 < fc_max_payload_bytes c"
    "fc_tile_count c < 2 ^ 32" "fc_max_payload_bytes c < 2 ^ 32"
    using assms by (auto simp: att1_fabric_config_valid_def UINT32_MAX_nat_def split: if_splits)
  have "fc_tile_count c * fc_queue_capacity c * fc_max_payload_bytes c \<le> SIZE_MAX"
    using assms b d [of "fc_tile_count c * fc_queue_capacity c" "fc_max_payload_bytes c"]
    by (auto simp: att1_fabric_config_valid_def att1_mul_size_def split: if_splits)
  then show "fc_tile_count c * fc_queue_capacity c * fc_max_payload_bytes c < 2 ^ 64"
    by (simp add: SIZE_MAX_def)
qed

lemma fab_inv_bounds:
  assumes "fab_inv f"
  shows "0 < f_tiles f" "0 < f_cap f" "0 < f_max f" "f_max f < 2 ^ 32" "f_tiles f < 2 ^ 32"
    "f_queues f \<noteq> []"
  using assms config_valid_bounds [of "f_config f"] by (auto simp: fab_inv_def)

lemma fab_inv_queue:
  assumes "fab_inv f" "t < f_tiles f"
  shows "length (fq_packets (f_queues f ! t)) = f_cap f" "fq_head (f_queues f ! t) < f_cap f"
    "fq_count (f_queues f ! t) \<le> f_cap f"
    "s < f_cap f \<Longrightarrow> unat (pk_payload_bytes (fq_packets (f_queues f ! t) ! s)) \<le> f_max f"
  using assms by (auto simp: fab_inv_def queue_ok_def)

lemma length_fab_slots [simp]: "length (fab_slots f t) = f_cap f"
  by (simp add: fab_slots_def)

lemma length_fab_content [simp]: "length (fab_content f t) = fq_count (f_queues f ! t)"
  by (simp add: fab_content_def)

lemma fab_content_eq_Nil: "fab_content f t = [] \<longleftrightarrow> fq_count (f_queues f ! t) = 0"
  by (simp add: fab_content_def)

text \<open>Distinct slots have disjoint bytes.\<close>

lemma slot_offset_bounds:
  assumes "t < f_tiles f" "s < f_cap f"
  shows "slot_offset f t s + f_max f \<le> f_tiles f * f_cap f * f_max f"
proof -
  have "t * f_cap f + s + 1 \<le> (t + 1) * f_cap f" using assms(2) by simp
  also have "\<dots> \<le> f_tiles f * f_cap f" using assms(1) by (intro mult_le_mono1) simp
  finally have "(t * f_cap f + s + 1) * f_max f \<le> f_tiles f * f_cap f * f_max f"
    by (rule mult_le_mono1)
  then show ?thesis by (simp add: slot_offset_def algebra_simps)
qed

lemma slot_offset_apart:
  assumes "s < f_cap f" "s' < f_cap f" "(t, s) \<noteq> (t', s')"
  shows "slot_offset f t s + f_max f \<le> slot_offset f t' s' \<or> slot_offset f t' s' + f_max f \<le> slot_offset f t s"
proof -
  have ne: "t * f_cap f + s \<noteq> t' * f_cap f + s'"
  proof
    assume e: "t * f_cap f + s = t' * f_cap f + s'"
    then have "(t * f_cap f + s) div f_cap f = (t' * f_cap f + s') div f_cap f" by simp
    then have "t = t'" using assms(1,2) by simp
    with e assms(3) show False by simp
  qed
  have "(a + 1) * f_max f \<le> b * f_max f" if "a < b" for a b
    using that by (intro mult_le_mono1) simp
  with ne show ?thesis
    unfolding slot_offset_def by (metis add_mult_distrib mult_1 nat_neq_iff)
qed

section \<open>Enqueue\<close>

lemma enqueue_frame [simp]:
  "f_config (att1_fabric_enqueue f s t ty pl n tag) = f_config f"
  "f_barrier_expected (att1_fabric_enqueue f s t ty pl n tag) = f_barrier_expected f"
  "f_barrier_arrived (att1_fabric_enqueue f s t ty pl n tag) = f_barrier_arrived f"
  "f_barrier_expected_count (att1_fabric_enqueue f s t ty pl n tag) = f_barrier_expected_count f"
  "f_barrier_active (att1_fabric_enqueue f s t ty pl n tag) = f_barrier_active f"
  "length (f_queues (att1_fabric_enqueue f s t ty pl n tag)) = length (f_queues f)"
  by (simp_all add: att1_fabric_enqueue_def Let_def)

definition sent_msg :: "u32 \<Rightarrow> u32 \<Rightarrow> att1_packet_type \<Rightarrow> u8 list option \<Rightarrow> nat \<Rightarrow> u64 \<Rightarrow> fab_msg" where
  "sent_msg source target type payload n tag =
     (\<lparr>pk_type = type, pk_source = source, pk_target = target, pk_payload_bytes = word_of_nat n,
       pk_tag = tag\<rparr>, take n (the payload))"

text \<open>What a caller must pass: a payload of at least \<open>n\<close> bytes when \<open>n\<close> is not zero.\<close>

definition payload_ok :: "att1_fabric \<Rightarrow> u8 list option \<Rightarrow> nat \<Rightarrow> bool" where
  "payload_ok f payload n \<longleftrightarrow> n \<le> f_max f \<and> (0 < n \<longrightarrow> (\<exists>b. payload = Some b \<and> n \<le> length b))"

lemma fab_slots_enqueue:
  assumes "fab_inv f" "unat target < f_tiles f" "payload_ok f payload n"
    and "u < f_tiles f"
  defines "slot \<equiv> (fq_head (f_queues f ! unat target) + fq_count (f_queues f ! unat target)) mod f_cap f"
  shows "fab_slots (att1_fabric_enqueue f source target ty payload n tag) u =
    (if u = unat target then (fab_slots f u)[slot := sent_msg source target ty payload n tag]
     else fab_slots f u)"
proof -
  let ?f' = "att1_fabric_enqueue f source target ty payload n tag"
  let ?t = "unat target"
  let ?p = "fst (sent_msg source target ty payload n tag)"
  let ?bs = "take n (the payload)"
  have slot: "slot < f_cap f" unfolding slot_def using fab_inv_bounds(2) [OF assms(1)] by simp
  have n: "n \<le> f_max f" "n < 2 ^ 32" "0 < n \<Longrightarrow> length ?bs = n"
    using assms(3) fab_inv_bounds(4) [OF assms(1)] by (auto simp: payload_ok_def)
  have pb: "unat (pk_payload_bytes ?p) = n"
    using n(2) by (simp add: sent_msg_def unsigned_of_nat take_bit_nat_eq_self)
  have len: "length (f_queues f) = f_tiles f" "length (fq_packets (f_queues f ! ?t)) = f_cap f"
    "length (f_payload_storage f) = f_tiles f * f_cap f * f_max f"
    using assms(1) fab_inv_queue [OF assms(1,2)] by (simp_all add: fab_inv_def)
  have off: "slot_offset f ?t slot + n \<le> length (f_payload_storage f)"
    using slot_offset_bounds [OF assms(2) slot] n(1) len(3) by linarith
  have q: "f_queues ?f' ! v = (if v = ?t then (f_queues f ! ?t)\<lparr>fq_packets := (fq_packets (f_queues f ! ?t))[slot := ?p],
        fq_count := fq_count (f_queues f ! ?t) + 1\<rparr> else f_queues f ! v)" for v
    using assms(2) len(1)
    by (simp add: att1_fabric_enqueue_def Let_def sent_msg_def slot_def)
  have st: "f_payload_storage ?f' = (if 0 < n then write_bytes (slot_offset f ?t slot) ?bs (f_payload_storage f)
        else f_payload_storage f)"
    by (simp add: att1_fabric_enqueue_def Let_def slot_def)
  have so: "slot_offset ?f' v s = slot_offset f v s" for v s by (simp add: slot_offset_def)
  have same: "slot_msg ?f' ?t slot = sent_msg source target ty payload n tag"
  proof (cases "0 < n")
    case True
    then show ?thesis
      using q [of ?t] st so len slot pb n(3) off
      by (simp add: slot_msg_def Let_def read_write_same) (simp add: sent_msg_def)
  next
    case False
    then show ?thesis
      using q [of ?t] len slot pb by (simp add: slot_msg_def Let_def read_bytes_def) (simp add: sent_msg_def)
  qed
  have other: "slot_msg ?f' u s = slot_msg f u s" if s: "s < f_cap f" "(u, s) \<noteq> (?t, slot)" for s
  proof -
    have p: "fq_packets (f_queues ?f' ! u) ! s = fq_packets (f_queues f ! u) ! s"
      using q [of u] s by auto
    have b: "unat (pk_payload_bytes (fq_packets (f_queues f ! u) ! s)) \<le> f_max f"
      using fab_inv_queue(4) [OF assms(1) assms(4) s(1)] .
    show ?thesis
    proof (cases "0 < n")
      case True
      have "slot_offset f u s + unat (pk_payload_bytes (fq_packets (f_queues f ! u) ! s)) \<le> slot_offset f ?t slot
          \<or> slot_offset f ?t slot + length ?bs \<le> slot_offset f u s"
        using slot_offset_apart [OF s(1) slot s(2)] b n(1) n(3) [OF True] by linarith
      then show ?thesis
        using p so st True off n(3) by (simp add: slot_msg_def Let_def read_write_other)
    next
      case False
      then show ?thesis using p so st by (simp add: slot_msg_def Let_def)
    qed
  qed
  show ?thesis
  proof (cases "u = ?t")
    case True
    have "fab_slots ?f' u = (fab_slots f u)[slot := sent_msg source target ty payload n tag]"
      by (rule nth_equalityI) (use same other slot True in \<open>auto simp: fab_slots_def nth_list_update\<close>)
    with True show ?thesis by simp
  next
    case False
    then show ?thesis using other by (auto simp: fab_slots_def)
  qed
qed

lemma fab_content_enqueue:
  assumes "fab_inv f" "unat target < f_tiles f" "payload_ok f payload n"
    and "fq_count (f_queues f ! unat target) < f_cap f" "u < f_tiles f"
  shows "fab_content (att1_fabric_enqueue f source target ty payload n tag) u =
    (if u = unat target then fab_content f u @ [sent_msg source target ty payload n tag] else fab_content f u)"
proof -
  let ?f' = "att1_fabric_enqueue f source target ty payload n tag"
  have len: "length (f_queues f) = f_tiles f" using assms(1) by (simp add: fab_inv_def)
  have hq: "fq_head (f_queues ?f' ! u) = fq_head (f_queues f ! u)"
    "fq_count (f_queues ?f' ! u) = (if u = unat target then Suc (fq_count (f_queues f ! u)) else fq_count (f_queues f ! u))"
    using assms(2) len by (auto simp: att1_fabric_enqueue_def Let_def nth_list_update)
  show ?thesis
    using fab_slots_enqueue [OF assms(1-3,5), of source ty tag] hq assms(4)
      ring_content_push [of "fq_count (f_queues f ! u)" "fab_slots f u" "fq_head (f_queues f ! u)"
        "sent_msg source target ty payload n tag"]
    by (auto simp: fab_content_def)
qed

lemma fab_inv_enqueue:
  assumes "fab_inv f" "unat target < f_tiles f" "payload_ok f payload n"
    and "fq_count (f_queues f ! unat target) < f_cap f" "unat source < f_tiles f"
  shows "fab_inv (att1_fabric_enqueue f source target ty payload n tag)"
proof -
  let ?f' = "att1_fabric_enqueue f source target ty payload n tag"
  let ?m = "sent_msg source target ty payload n tag"
  have n: "n \<le> f_max f" "n < 2 ^ 32" "length (snd ?m) = n"
    using assms(3) fab_inv_bounds(4) [OF assms(1)] by (auto simp: payload_ok_def sent_msg_def)
  have m: "unat (pk_payload_bytes (fst ?m)) = n" "pk_target (fst ?m) = target" "pk_source (fst ?m) = source"
    using n(2) by (simp_all add: sent_msg_def unsigned_of_nat take_bit_nat_eq_self)
  have len: "length (f_queues f) = f_tiles f" using assms(1) by (simp add: fab_inv_def)
  let ?slot = "(fq_head (f_queues f ! unat target) + fq_count (f_queues f ! unat target)) mod f_cap f"
  have slot: "?slot < f_cap f" using fab_inv_bounds(2) [OF assms(1)] by simp
  have qok: "queue_ok ?f' u" if "u < f_tiles f" for u
  proof -
    have "queue_ok f u" using assms(1) that by (simp add: fab_inv_def)
    moreover have "f_queues ?f' ! u = (if u = unat target
        then (f_queues f ! u)\<lparr>fq_packets := (fq_packets (f_queues f ! u))[?slot := fst ?m],
          fq_count := fq_count (f_queues f ! u) + 1\<rparr> else f_queues f ! u)"
      using assms(2) len by (auto simp: att1_fabric_enqueue_def Let_def sent_msg_def nth_list_update)
    ultimately show ?thesis
      using assms(4) n(1) m(1) by (auto simp: queue_ok_def nth_list_update)
  qed
  have "length (f_payload_storage ?f') = length (f_payload_storage f)"
  proof (cases "0 < n")
    case True
    then have "length (take n (the payload)) = n" using assms(3) by (auto simp: payload_ok_def)
    moreover have "slot_offset f (unat target) ?slot + n \<le> length (f_payload_storage f)"
      using slot_offset_bounds [OF assms(2) slot] n(1) assms(1) by (simp add: fab_inv_def)
    ultimately show ?thesis using True by (simp add: att1_fabric_enqueue_def Let_def)
  qed (simp add: att1_fabric_enqueue_def Let_def)
  moreover have "unat (pk_target (fst x)) = u \<and> unat (pk_source (fst x)) < f_tiles f
      \<and> unat (pk_payload_bytes (fst x)) = length (snd x)"
    if "u < f_tiles f" "x \<in> set (fab_content ?f' u)" for u x
  proof -
    have "x \<in> set (fab_content f u) \<or> (u = unat target \<and> x = ?m)"
      using that fab_content_enqueue [OF assms(1-4) that(1), of source ty tag] by (auto split: if_splits)
    then show ?thesis using assms(1,5) that(1) m n(3) by (auto simp: fab_inv_def)
  qed
  ultimately show ?thesis using assms(1) qok by (simp add: fab_inv_def)
qed

section \<open>Receive\<close>

lemma counters_frame [simp]:
  "fab_inv (f\<lparr>f_counters := c\<rparr>) = fab_inv f"
  "fab_content (f\<lparr>f_counters := c\<rparr>) t = fab_content f t"
proof -
  have m: "slot_msg (f\<lparr>f_counters := c\<rparr>) = slot_msg f"
    by (intro ext) (simp add: slot_msg_def slot_offset_def)
  then have c: "fab_content (f\<lparr>f_counters := c\<rparr>) t = fab_content f t" for t
    by (simp add: fab_content_def fab_slots_def)
  then show "fab_content (f\<lparr>f_counters := c\<rparr>) t = fab_content f t" .
  show "fab_inv (f\<lparr>f_counters := c\<rparr>) = fab_inv f"
    by (simp add: fab_inv_def c queue_ok_def)
qed

lemma head_msg:
  assumes "fab_inv f" "t < f_tiles f" "fab_content f t \<noteq> []"
  shows "hd (fab_content f t) = slot_msg f t (fq_head (f_queues f ! t))"
    "tl (fab_content f t) = ring_content (fab_slots f t) (Suc (fq_head (f_queues f ! t))) (fq_count (f_queues f ! t) - 1)"
proof -
  have "0 < fq_count (f_queues f ! t)" using assms(3) fab_content_eq_Nil [of f t] by simp
  from ring_content_pop [OF this, of "fab_slots f t" "fq_head (f_queues f ! t)"] fab_inv_queue(2) [OF assms(1,2)]
  show "hd (fab_content f t) = slot_msg f t (fq_head (f_queues f ! t))"
    "tl (fab_content f t) = ring_content (fab_slots f t) (Suc (fq_head (f_queues f ! t))) (fq_count (f_queues f ! t) - 1)"
    by (simp_all add: fab_content_def) (simp add: fab_slots_def)
qed

lemma fabric_receive_empty:
  "unat target < f_tiles f \<Longrightarrow> fab_content f (unat target) = [] \<Longrightarrow>
   fabric_receive f target pok c =
     (ATT1_ERR_QUEUE_EMPTY, upd_fk (\<lambda>c. c\<lparr>fk_empty_receives := fk_empty_receives c + 1\<rparr>) f, None)"
  by (simp add: fabric_receive_def att1_fabric_valid_tile_def fab_content_eq_Nil Let_def)

lemma fabric_receive_refused:
  assumes "fab_inv f" "unat target < f_tiles f" "fab_content f (unat target) = m # ms"
    and "c < length (snd m) \<or> (snd m \<noteq> [] \<and> \<not> pok)"
  shows "fabric_receive f target pok c = (ATT1_ERR_INVALID_ARG, att1_fabric_count_invalid f, None)"
proof -
  have ne: "fab_content f (unat target) \<noteq> []" using assms(3) by simp
  have m: "m = slot_msg f (unat target) (fq_head (f_queues f ! unat target))"
    using head_msg(1) [OF assms(1,2) ne] assms(3) by simp
  have "unat (pk_payload_bytes (fst m)) = length (snd m)"
    using assms(1-3) by (auto simp: fab_inv_def)
  moreover have "fst m = fq_packets (f_queues f ! unat target) ! fq_head (f_queues f ! unat target)"
    by (simp add: m slot_msg_def Let_def)
  moreover have "fq_count (f_queues f ! unat target) \<noteq> 0" using ne fab_content_eq_Nil by blast
  ultimately show ?thesis
    using assms(2,4) by (auto simp: fabric_receive_def att1_fabric_valid_tile_def Let_def)
qed

lemma fabric_receive_ok:
  assumes "fab_inv f" "unat target < f_tiles f" "fab_content f (unat target) = m # ms"
    and "length (snd m) \<le> c" "snd m = [] \<or> pok"
  obtains f' where "fabric_receive f target pok c = (ATT1_OK, f', Some m)" "fab_inv f'"
    "\<And>u. u < f_tiles f \<Longrightarrow> fab_content f' u = (if u = unat target then ms else fab_content f u)"
    "f_config f' = f_config f"
    "fk_packets_received (f_counters f') = fk_packets_received (f_counters f) + 1"
proof -
  let ?t = "unat target"
  let ?q = "f_queues f ! ?t"
  let ?q' = "?q\<lparr>fq_head := (fq_head ?q + 1) mod f_cap f, fq_count := fq_count ?q - 1\<rparr>"
  let ?cnt = "(f_counters f)\<lparr>fk_packets_received := fk_packets_received (f_counters f) + 1,
      fk_payload_bytes_received := fk_payload_bytes_received (f_counters f) + word_of_nat (unat (pk_payload_bytes (fst m)))\<rparr>"
  define f' where "f' = f\<lparr>f_queues := (f_queues f)[?t := ?q'], f_counters := ?cnt\<rparr>"
  have ne: "fab_content f ?t \<noteq> []" using assms(3) by simp
  have pos: "fq_count ?q \<noteq> 0" using ne fab_content_eq_Nil by blast
  have m: "m = slot_msg f ?t (fq_head ?q)" "ms = ring_content (fab_slots f ?t) (Suc (fq_head ?q)) (fq_count ?q - 1)"
    using head_msg [OF assms(1,2) ne] assms(3) by simp_all
  have pb: "unat (pk_payload_bytes (fst m)) = length (snd m)"
    using assms(1-3) by (auto simp: fab_inv_def)
  have pk: "fst m = fq_packets ?q ! fq_head ?q" by (simp add: m slot_msg_def Let_def)
  have out: "(fq_packets ?q ! fq_head ?q,
      read_bytes (slot_offset f ?t (fq_head ?q)) (unat (pk_payload_bytes (fq_packets ?q ! fq_head ?q))) (f_payload_storage f)) = m"
    by (simp add: m slot_msg_def Let_def)
  have r: "fabric_receive f target pok c = (ATT1_OK, f', Some m)"
    using assms(2,4,5) pos pb pk out
    by (auto simp: fabric_receive_def att1_fabric_valid_tile_def Let_def f'_def)
  have len: "length (f_queues f) = f_tiles f" using assms(1) by (simp add: fab_inv_def)
  have q: "f_queues f' ! u = (if u = ?t then ?q' else f_queues f ! u)" for u
    using assms(2) len by (simp add: f'_def)
  have sl: "fab_slots f' u = fab_slots f u" for u
    using q by (auto simp: fab_slots_def slot_msg_def f'_def slot_offset_def Let_def)
  have ct: "fab_content f' u = (if u = ?t then ms else fab_content f u)" for u
    using q [of u] sl [of u] m(2) ring_content_mod [of "fab_slots f ?t" "Suc (fq_head ?q)"]
    by (auto simp: fab_content_def)
  have "fab_inv f'"
    unfolding fab_inv_def
  proof (intro conjI allI impI ballI)
    show "att1_fabric_config_valid (Some (f_config f'))" "length (f_queues f') = f_tiles f'"
      "length (f_payload_storage f') = f_tiles f' * f_cap f' * f_max f'"
      using assms(1) by (simp_all add: fab_inv_def f'_def)
    fix u assume "u < f_tiles f'"
    then have u: "u < f_tiles f" by (simp add: f'_def)
    then have "queue_ok f u" using assms(1) by (simp add: fab_inv_def)
    moreover have "f_config f' = f_config f" by (simp add: f'_def)
    ultimately show "queue_ok f' u"
      using q [of u] fab_inv_bounds(2) [OF assms(1)] by (auto simp: queue_ok_def)
    fix x assume "x \<in> set (fab_content f' u)"
    then have "x \<in> set (fab_content f u)"
      using ct [of u] assms(3) by (auto split: if_splits)
    then show "unat (pk_target (fst x)) = u" "unat (pk_source (fst x)) < f_tiles f'"
      "unat (pk_payload_bytes (fst x)) = length (snd x)"
      using assms(1) u by (auto simp: fab_inv_def f'_def)
  qed
  with r ct that show ?thesis by (simp add: f'_def)
qed

section \<open>Each inbound queue is a bounded queue\<close>

definition fab_enq :: "u32 \<Rightarrow> fab_msg \<Rightarrow> att1_fabric \<Rightarrow> att1_fabric" where
  "fab_enq target m f =
     att1_fabric_enqueue f (pk_source (fst m)) target (pk_type (fst m)) (Some (snd m)) (length (snd m)) (pk_tag (fst m))"

definition fab_deq :: "u32 \<Rightarrow> att1_fabric \<Rightarrow> fab_msg \<times> att1_fabric" where
  "fab_deq target f = (case fabric_receive f target True (f_max f) of (st, f', out) \<Rightarrow> (the out, f'))"

definition fab_msg_ok :: "u32 \<Rightarrow> att1_fabric \<Rightarrow> fab_msg \<Rightarrow> bool" where
  "fab_msg_ok target f m \<longleftrightarrow> pk_target (fst m) = target \<and> unat (pk_source (fst m)) < f_tiles f
     \<and> length (snd m) \<le> f_max f \<and> pk_payload_bytes (fst m) = word_of_nat (length (snd m))"

definition fab_inv_at :: "u32 \<Rightarrow> att1_fabric \<Rightarrow> bool" where
  "fab_inv_at target f \<longleftrightarrow> fab_inv f \<and> unat target < f_tiles f"

lemma fab_deq_content:
  assumes "fab_inv f" "unat target < f_tiles f" "fab_content f (unat target) \<noteq> []"
  shows "fab_inv (snd (fab_deq target f))" "f_config (snd (fab_deq target f)) = f_config f"
    "fab_content f (unat target) = fst (fab_deq target f) # fab_content (snd (fab_deq target f)) (unat target)"
proof -
  obtain m ms where c: "fab_content f (unat target) = m # ms" using assms(3) by (cases "fab_content f (unat target)") auto
  have ne: "fab_content f (unat target) \<noteq> []" using c by simp
  have "m = slot_msg f (unat target) (fq_head (f_queues f ! unat target))"
    using head_msg(1) [OF assms(1,2) ne] c by simp
  then have "unat (pk_payload_bytes (fst m)) \<le> f_max f"
    using fab_inv_queue(4) [OF assms(1,2) fab_inv_queue(2) [OF assms(1,2)]]
    by (simp add: slot_msg_def Let_def)
  moreover have "unat (pk_payload_bytes (fst m)) = length (snd m)"
    using assms(1,2) c by (auto simp: fab_inv_def)
  ultimately have "length (snd m) \<le> f_max f" by simp
  then obtain f' where "fabric_receive f target True (f_max f) = (ATT1_OK, f', Some m)" "fab_inv f'"
    "fab_content f' (unat target) = ms" "f_config f' = f_config f"
    using fabric_receive_ok [OF assms(1,2) c, of "f_max f" True] assms(2) by (metis (full_types))
  then show "fab_inv (snd (fab_deq target f))" "f_config (snd (fab_deq target f)) = f_config f"
    "fab_content f (unat target) = fst (fab_deq target f) # fab_content (snd (fab_deq target f)) (unat target)"
    using c by (simp_all add: fab_deq_def)
qed

lemma fab_receive_config: "f_config (fst (snd (fabric_receive f target pok c))) = f_config f"
  by (simp add: fabric_receive_def att1_fabric_count_invalid_def Let_def)

interpretation fab: bounded_fifo "fab_inv_at target" "\<lambda>f. fab_content f (unat target)" "\<lambda>f. f_cap f"
  "fab_msg_ok target" "fab_enq target" "fab_deq target" for target
proof unfold_locales
  fix f m assume a: "fab_inv_at target f" "fab_msg_ok target f m"
    "length (fab_content f (unat target)) < f_cap f"
  then have p: "fab_inv f" "unat target < f_tiles f" "payload_ok f (Some (snd m)) (length (snd m))"
    "fq_count (f_queues f ! unat target) < f_cap f" "unat (pk_source (fst m)) < f_tiles f"
    by (simp_all add: fab_inv_at_def fab_msg_ok_def payload_ok_def)
  show "fab_inv_at target (fab_enq target m f)"
    using fab_inv_enqueue [OF p] p(2) by (simp add: fab_inv_at_def fab_enq_def)
  have "sent_msg (pk_source (fst m)) target (pk_type (fst m)) (Some (snd m)) (length (snd m)) (pk_tag (fst m)) = m"
    using a(2) by (cases m) (auto simp: sent_msg_def fab_msg_ok_def)
  then show "fab_content (fab_enq target m f) (unat target) = fab_content f (unat target) @ [m]"
    using fab_content_enqueue [OF p(1-4) p(2)] by (simp add: fab_enq_def)
next
  fix f m y
  show "f_cap (fab_enq target m f) = f_cap f \<and> fab_msg_ok target (fab_enq target m f) y = fab_msg_ok target f y"
    by (simp add: fab_enq_def fab_msg_ok_def)
next
  fix f assume a: "fab_inv_at target f" "fab_content f (unat target) \<noteq> []"
  then have p: "fab_inv f" "unat target < f_tiles f" by (simp_all add: fab_inv_at_def)
  show "fab_inv_at target (snd (fab_deq target f))"
    using fab_deq_content [OF p a(2)] p(2) by (simp add: fab_inv_at_def)
  show "fab_content f (unat target) = fst (fab_deq target f) # fab_content (snd (fab_deq target f)) (unat target)"
    by (rule fab_deq_content(3) [OF p a(2)])
next
  fix f y
  have "f_config (snd (fab_deq target f)) = f_config f"
    using fab_receive_config [of f target True "f_max f"]
    by (cases "fabric_receive f target True (f_max f)") (simp add: fab_deq_def)
  then show "f_cap (snd (fab_deq target f)) = f_cap f
      \<and> fab_msg_ok target (snd (fab_deq target f)) y = fab_msg_ok target f y"
    by (simp add: fab_msg_ok_def)
qed

end
