(* ===== verification/Fabric_Barrier.thy ===== *)
theory Fabric_Barrier
  imports Fabric_Inv
begin

text \<open>
  The barrier of the fabric: its abstract state (the expected and the arrived tiles of the open
  generation), the invariant that links the two flag arrays to it, and the refinement of an
  arrival by one abstract step.
\<close>

section \<open>Flag arrays as sets\<close>

definition true_set :: "bool list \<Rightarrow> nat set" where
  "true_set xs = {i. i < length xs \<and> xs ! i}"

lemma true_set_finite [simp]: "finite (true_set xs)"
  by (simp add: true_set_def)

lemma true_set_replicate [simp]: "true_set (replicate n False) = {}"
  by (auto simp: true_set_def)

lemma true_set_update: "i < length xs \<Longrightarrow> true_set (xs[i := True]) = insert i (true_set xs)"
  by (auto simp: true_set_def nth_list_update)

lemma count_true_set:
  "length xs = n \<Longrightarrow> length (filter (\<lambda>i. xs ! i) [0..<n]) = card (true_set xs)"
proof -
  assume n: "length xs = n"
  have "length (filter (\<lambda>i. xs ! i) [0..<n]) = card (set (filter (\<lambda>i. xs ! i) [0..<n]))"
    by (intro distinct_card [symmetric]) simp
  also have "set (filter (\<lambda>i. xs ! i) [0..<n]) = true_set xs" using n by (auto simp: true_set_def)
  finally show ?thesis .
qed

lemma true_set_eq_iff:
  "length xs = n \<Longrightarrow> length ys = n \<Longrightarrow> list_all (\<lambda>i. xs ! i = ys ! i) [0..<n] \<longleftrightarrow> true_set xs = true_set ys"
proof -
  assume n: "length xs = n" "length ys = n"
  have "(\<forall>i<n. xs ! i = ys ! i) \<longleftrightarrow> {i. i < n \<and> xs ! i} = {i. i < n \<and> ys ! i}" by blast
  then show ?thesis using n by (simp add: true_set_def list_all_iff Ball_def)
qed

text \<open>Marking: it succeeds exactly for tiles in range, pairwise distinct and not yet marked.\<close>

lemma mark_participants_spec:
  assumes "length e = n"
  shows "length (snd (mark_participants n ts e)) = n
    \<and> (fst (mark_participants n ts e) \<longleftrightarrow>
         (\<forall>t \<in> set ts. unat t < n \<and> unat t \<notin> true_set e) \<and> distinct ts)
    \<and> (fst (mark_participants n ts e) \<longrightarrow>
         true_set (snd (mark_participants n ts e)) = true_set e \<union> unat ` set ts)"
  using assms
proof (induction ts arbitrary: e)
  case Nil
  then show ?case by simp
next
  case (Cons t ts)
  show ?case
  proof (cases "unat t < n \<and> \<not> e ! unat t")
    case False
    then show ?thesis using Cons.prems by (auto simp: true_set_def)
  next
    case True
    let ?e = "e[unat t := True]"
    have ts: "true_set ?e = insert (unat t) (true_set e)"
      using True Cons.prems by (simp add: true_set_update)
    have ne: "unat t \<notin> true_set e" using True by (simp add: true_set_def)
    have inj: "unat x = unat t \<longleftrightarrow> x = t" for x by (simp add: word_unat_eq_iff)
    note IH = Cons.IH [of ?e, simplified, OF Cons.prems]
    show ?thesis
      using IH True ne unfolding ts by (auto simp: inj)
  qed
qed

section \<open>Abstract barrier\<close>

type_synonym abs_barrier = "(nat set \<times> nat set) option"

text \<open>The participant set a caller passes, when the arguments denote one.\<close>

definition participant_set :: "nat \<Rightarrow> u32 list option \<Rightarrow> nat \<Rightarrow> nat set option" where
  "participant_set tiles ps count =
     (case ps of
        None \<Rightarrow> None
      | Some l \<Rightarrow>
          if count \<noteq> 0 \<and> count \<le> tiles \<and> distinct (take count l) \<and> (\<forall>t \<in> set (take count l). unat t < tiles)
          then Some (unat ` set (take count l)) else None)"

definition abs_arrive :: "nat \<Rightarrow> nat set option \<Rightarrow> abs_barrier \<Rightarrow> att1_status \<times> abs_barrier \<times> bool" where
  "abs_arrive t P b =
     (case b of
        None \<Rightarrow>
          (case P of
             None \<Rightarrow> (ATT1_ERR_INVALID_ARG, None, False)
           | Some S \<Rightarrow> if t \<notin> S then (ATT1_ERR_INVALID_ARG, Some (S, {}), False)
                       else if S = {t} then (ATT1_OK, None, True)
                       else (ATT1_OK, Some (S, {t}), False))
      | Some (E, A) \<Rightarrow>
          if P \<noteq> Some E \<or> t \<notin> E \<or> t \<in> A then (ATT1_ERR_INVALID_ARG, b, False)
          else if insert t A = E then (ATT1_OK, None, True)
          else (ATT1_OK, Some (E, insert t A), False))"

definition barrier_abs :: "att1_fabric \<Rightarrow> abs_barrier" where
  "barrier_abs f = (if f_barrier_active f
     then Some (true_set (f_barrier_expected f), true_set (f_barrier_arrived f)) else None)"

definition barrier_inv :: "att1_fabric \<Rightarrow> bool" where
  "barrier_inv f \<longleftrightarrow> length (f_barrier_expected f) = f_tiles f \<and> length (f_barrier_arrived f) = f_tiles f
     \<and> (f_barrier_active f \<longrightarrow>
          f_barrier_expected_count f = card (true_set (f_barrier_expected f))
          \<and> true_set (f_barrier_arrived f) \<subset> true_set (f_barrier_expected f))"

lemma participant_set_valid_spec:
  assumes "length (f_barrier_expected f) = f_tiles f" "case ps of None \<Rightarrow> True | Some l \<Rightarrow> count \<le> length l"
    and "att1_fabric_participant_set_valid f ps count = (ok, e)"
  shows "length e = f_tiles f"
    "ok \<Longrightarrow> participant_set (f_tiles f) ps count = Some (true_set e) \<and> card (true_set e) = count"
    "\<not> ok \<Longrightarrow> participant_set (f_tiles f) ps count = None"
proof -
  have "length e = f_tiles f
    \<and> (ok \<longrightarrow> participant_set (f_tiles f) ps count = Some (true_set e) \<and> card (true_set e) = count)
    \<and> (\<not> ok \<longrightarrow> participant_set (f_tiles f) ps count = None)"
  proof (cases ps)
    case None
    then show ?thesis
      using assms by (auto simp: att1_fabric_participant_set_valid_def participant_set_def)
  next
    case (Some l)
    show ?thesis
    proof (cases "count = 0 \<or> f_tiles f < count")
      case True
      then show ?thesis
        using assms Some by (auto simp: att1_fabric_participant_set_valid_def participant_set_def split: if_splits)
    next
      case False
      let ?l = "take count l"
      have m: "mark_participants (f_tiles f) ?l (replicate (f_tiles f) False) = (ok, e)"
        using assms(3) Some False by (simp add: att1_fabric_participant_set_valid_def)
      note s = mark_participants_spec [of "replicate (f_tiles f) False" "f_tiles f" ?l, unfolded m, simplified]
      have "card (unat ` set ?l) = count" if "distinct ?l"
      proof -
        have "card (unat ` set ?l) = card (set ?l)" by (intro card_image inj_onI) (simp add: word_unat_eq_iff)
        also have "\<dots> = length ?l" using that by (rule distinct_card)
        finally show ?thesis using assms(2) Some by simp
      qed
      then show ?thesis
        using s False Some by (auto simp: participant_set_def)
    qed
  qed
  then show "length e = f_tiles f"
    "ok \<Longrightarrow> participant_set (f_tiles f) ps count = Some (true_set e) \<and> card (true_set e) = count"
    "\<not> ok \<Longrightarrow> participant_set (f_tiles f) ps count = None"
    by simp_all
qed

lemma participant_set_matches_iff:
  assumes "barrier_inv f" "case ps of None \<Rightarrow> True | Some l \<Rightarrow> count \<le> length l"
  shows "att1_fabric_participant_set_matches True f ps count \<longleftrightarrow>
    participant_set (f_tiles f) ps count = Some (true_set (f_barrier_expected f))"
proof -
  obtain ok e where v: "att1_fabric_participant_set_valid f ps count = (ok, e)" by force
  have len: "length (f_barrier_expected f) = f_tiles f" using assms(1) by (simp add: barrier_inv_def)
  note s = participant_set_valid_spec [OF len assms(2) v]
  show ?thesis
    using s true_set_eq_iff [OF s(1) len]
    by (cases ok) (auto simp: att1_fabric_participant_set_matches_def v Let_def)
qed

lemma mark_arrival_spec:
  assumes "length (f_barrier_expected f) = f_tiles f" "length (f_barrier_arrived f) = f_tiles f"
    and "f_barrier_expected_count f = card (true_set (f_barrier_expected f))"
    and "true_set (f_barrier_arrived f) \<subseteq> true_set (f_barrier_expected f)"
    and "f_barrier_active f" "t < f_tiles f"
    and "barrier_mark_arrival f t = (st, f', complete)"
  shows "(st, barrier_abs f', complete) =
    (let E = true_set (f_barrier_expected f); A = true_set (f_barrier_arrived f)
     in if t \<notin> E \<or> t \<in> A then (ATT1_ERR_INVALID_ARG, Some (E, A), False)
        else if insert t A = E then (ATT1_OK, None, True)
        else (ATT1_OK, Some (E, insert t A), False))"
    "true_set (f_barrier_arrived f) \<noteq> true_set (f_barrier_expected f) \<Longrightarrow> barrier_inv f'"
    "f_config f' = f_config f" "f_queues f' = f_queues f" "f_payload_storage f' = f_payload_storage f"
proof -
  let ?E = "true_set (f_barrier_expected f)" and ?A = "true_set (f_barrier_arrived f)"
  have e: "f_barrier_expected f ! t \<longleftrightarrow> t \<in> ?E" "f_barrier_arrived f ! t \<longleftrightarrow> t \<in> ?A"
    using assms(1,2,6) by (simp_all add: true_set_def)
  have ins: "true_set ((f_barrier_arrived f)[t := True]) = insert t ?A"
    using assms(2,6) by (simp add: true_set_update)
  have cnt: "length (filter (\<lambda>i. (f_barrier_arrived f)[t := True] ! i) [0..<f_tiles f]) = card (insert t ?A)"
    using assms(2) ins by (subst count_true_set) simp_all
  have full: "card (insert t ?A) = f_barrier_expected_count f \<longleftrightarrow> insert t ?A = ?E" if "t \<in> ?E"
    using assms(3,4) that by (metis card_subset_eq insert_subset true_set_finite)
  let ?f1 = "upd_fk (\<lambda>c. c\<lparr>fk_barrier_arrivals := fk_barrier_arrivals c + 1\<rparr>)
      (f\<lparr>f_barrier_arrived := (f_barrier_arrived f)[t := True]\<rparr>)"
  let ?f2 = "(upd_fk (\<lambda>c. c\<lparr>fk_barrier_completions := fk_barrier_completions c + 1\<rparr>) ?f1)
      \<lparr>f_barrier_active := False, f_barrier_expected_count := 0,
       f_barrier_expected := replicate (f_tiles f) False, f_barrier_arrived := replicate (f_tiles f) False\<rparr>"
  have r: "(st, f', complete) =
      (if t \<notin> ?E \<or> t \<in> ?A then (ATT1_ERR_INVALID_ARG, att1_fabric_count_invalid f, False)
       else if insert t ?A = ?E then (ATT1_OK, ?f2, True) else (ATT1_OK, ?f1, False))"
  proof (cases "t \<in> ?E \<and> t \<notin> ?A")
    case True
    then show ?thesis
      using assms(7) cnt full unfolding barrier_mark_arrival_def Let_def e by (simp split: if_splits)
  next
    case False
    then show ?thesis using assms(7) unfolding barrier_mark_arrival_def Let_def e by (auto split: if_splits)
  qed
  consider (bad) "t \<notin> ?E \<or> t \<in> ?A" | (last) "t \<in> ?E" "t \<notin> ?A" "insert t ?A = ?E"
    | (more) "t \<in> ?E" "t \<notin> ?A" "insert t ?A \<noteq> ?E" by blast
  note cases = this
  show "(st, barrier_abs f', complete) =
    (let E = true_set (f_barrier_expected f); A = true_set (f_barrier_arrived f)
     in if t \<notin> E \<or> t \<in> A then (ATT1_ERR_INVALID_ARG, Some (E, A), False)
        else if insert t A = E then (ATT1_OK, None, True)
        else (ATT1_OK, Some (E, insert t A), False))"
    using r assms(5) ins
    by (cases rule: cases) (simp_all add: barrier_abs_def Let_def att1_fabric_count_invalid_def)
  show "barrier_inv f'" if ne: "?A \<noteq> ?E"
  proof (cases rule: cases)
    case bad
    then show ?thesis
      using r assms(1-5) ne by (auto simp: barrier_inv_def att1_fabric_count_invalid_def)
  next
    case last
    then show ?thesis using r by (simp add: barrier_inv_def)
  next
    case more
    then have "insert t ?A \<subset> ?E" using assms(4) by blast
    then show ?thesis using r more assms(1-5) ins by (simp add: barrier_inv_def)
  qed
  show "f_config f' = f_config f" "f_queues f' = f_queues f" "f_payload_storage f' = f_payload_storage f"
    using r by (auto simp: att1_fabric_count_invalid_def split: if_splits)
qed

text \<open>An arrival is one abstract step.\<close>

lemma barrier_arrive_refines:
  assumes "barrier_inv f" "unat t < f_tiles f" "case ps of None \<Rightarrow> True | Some l \<Rightarrow> count \<le> length l"
    and "fabric_barrier_arrive True f t ps count = (st, f', complete)"
  shows "(st, barrier_abs f', complete) = abs_arrive (unat t) (participant_set (f_tiles f) ps count) (barrier_abs f)"
    "barrier_inv f'" "f_config f' = f_config f" "f_queues f' = f_queues f"
    "f_payload_storage f' = f_payload_storage f"
proof -
  have len: "length (f_barrier_expected f) = f_tiles f" "length (f_barrier_arrived f) = f_tiles f"
    using assms(1) by (simp_all add: barrier_inv_def)
  have "(st, barrier_abs f', complete) = abs_arrive (unat t) (participant_set (f_tiles f) ps count) (barrier_abs f)
    \<and> barrier_inv f' \<and> f_config f' = f_config f \<and> f_queues f' = f_queues f
    \<and> f_payload_storage f' = f_payload_storage f"
  proof (cases "f_barrier_active f")
    case False
    obtain ok e where v: "att1_fabric_participant_set_valid f ps count = (ok, e)" by force
    note s = participant_set_valid_spec [OF len(1) assms(3) v]
    show ?thesis
    proof (cases ok)
      case False
      then show ?thesis
        using assms(2,4) \<open>\<not> f_barrier_active f\<close> s len v
        by (auto simp: fabric_barrier_arrive_def att1_fabric_valid_tile_def barrier_abs_def abs_arrive_def
            att1_fabric_count_invalid_def barrier_inv_def)
    next
      case True
      let ?f = "f\<lparr>f_barrier_expected := e, f_barrier_arrived := replicate (f_tiles f) False,
          f_barrier_expected_count := count, f_barrier_active := True\<rparr>"
      have m: "barrier_mark_arrival ?f (unat t) = (st, f', complete)"
        using assms(2,4) True \<open>\<not> f_barrier_active f\<close> v
        by (simp add: fabric_barrier_arrive_def att1_fabric_valid_tile_def)
      have p: "participant_set (f_tiles f) ps count = Some (true_set e)" "card (true_set e) = count" "0 < count"
        using s(2) True by (auto simp: participant_set_def split: option.splits if_splits)
      have "true_set e \<noteq> {}" using p(2,3) by auto
      have pre: "length (f_barrier_expected ?f) = f_tiles ?f" "length (f_barrier_arrived ?f) = f_tiles ?f"
        "f_barrier_expected_count ?f = card (true_set (f_barrier_expected ?f))"
        "true_set (f_barrier_arrived ?f) \<subseteq> true_set (f_barrier_expected ?f)" "f_barrier_active ?f"
        "unat t < f_tiles ?f"
        using s(1) p(2) assms(2) by simp_all
      note a = mark_arrival_spec [OF pre m, simplified]
      have "insert (unat t) {} = true_set e \<longleftrightarrow> true_set e = {unat t}" by auto
      then show ?thesis
        using a p(1) \<open>\<not> f_barrier_active f\<close> \<open>true_set e \<noteq> {}\<close>
        by (auto simp: barrier_abs_def [of f] abs_arrive_def Let_def)
    qed
  next
    case active: True
    show ?thesis
    proof (cases "att1_fabric_participant_set_matches True f ps count")
      case False
      then show ?thesis
        using assms active participant_set_matches_iff [OF assms(1,3)]
        by (auto simp: fabric_barrier_arrive_def att1_fabric_valid_tile_def barrier_abs_def abs_arrive_def
            att1_fabric_count_invalid_def barrier_inv_def)
    next
      case True
      then have m: "barrier_mark_arrival f (unat t) = (st, f', complete)"
        using assms(2,4) active by (simp add: fabric_barrier_arrive_def att1_fabric_valid_tile_def)
      have i: "f_barrier_expected_count f = card (true_set (f_barrier_expected f))"
        "true_set (f_barrier_arrived f) \<subset> true_set (f_barrier_expected f)"
        using assms(1) active by (simp_all add: barrier_inv_def)
      note a = mark_arrival_spec [OF len i(1) psubset_imp_subset [OF i(2)] active assms(2) m]
      have "participant_set (f_tiles f) ps count = Some (true_set (f_barrier_expected f))"
        using True participant_set_matches_iff [OF assms(1,3)] by simp
      then show ?thesis
        using a i(2) active by (auto simp: barrier_abs_def [of f] abs_arrive_def Let_def)
    qed
  qed
  then show "(st, barrier_abs f', complete) = abs_arrive (unat t) (participant_set (f_tiles f) ps count) (barrier_abs f)"
    "barrier_inv f'" "f_config f' = f_config f" "f_queues f' = f_queues f"
    "f_payload_storage f' = f_payload_storage f"
    by simp_all
qed

section \<open>A generation of the abstract barrier\<close>

fun abs_arrivals :: "nat list \<Rightarrow> nat set option \<Rightarrow> abs_barrier \<Rightarrow> (att1_status \<times> bool) list \<times> abs_barrier" where
  "abs_arrivals [] P b = ([], b)"
| "abs_arrivals (t # ts) P b =
     (let (st, b', complete) = abs_arrive t P b; (cs, b'') = abs_arrivals ts P b' in ((st, complete) # cs, b''))"

text \<open>What the participants of one generation are answered.\<close>

definition generation_results :: "nat \<Rightarrow> (att1_status \<times> bool) list" where
  "generation_results n = replicate (n - 1) (ATT1_OK, False) @ [(ATT1_OK, True)]"

lemma generation_results_step:
  "n \<noteq> 0 \<Longrightarrow> (ATT1_OK, False) # generation_results n = generation_results (Suc n)"
  by (cases n) (simp_all add: generation_results_def)

lemma generation_results_1 [simp]: "generation_results (Suc 0) = [(ATT1_OK, True)]"
  by (simp add: generation_results_def)

lemma abs_arrivals_open:
  assumes "distinct ts" "set ts = E - A" "A \<subset> E"
  shows "abs_arrivals ts (Some E) (Some (E, A)) = (generation_results (length ts), None)"
  using assms
proof (induction ts arbitrary: A)
  case Nil
  then show ?case by auto
next
  case (Cons t ts)
  have t: "t \<in> E" "t \<notin> A" using Cons.prems(2) by auto
  have st: "set ts = E - insert t A" using Cons.prems(1,2) by auto
  show ?case
  proof (cases "insert t A = E")
    case True
    then have "ts = []" using st by simp
    with True t show ?thesis by (simp add: abs_arrive_def)
  next
    case False
    then have "insert t A \<subset> E" using t Cons.prems(3) by auto
    moreover from this have "ts \<noteq> []" using st by auto
    ultimately show ?thesis
      using Cons.IH [OF _ st] Cons.prems(1) False t
      by (simp add: abs_arrive_def generation_results_step)
  qed
qed

text \<open>When the participants arrive once each, exactly the last arrival completes the barrier.\<close>

lemma abs_generation:
  assumes "distinct ts" "ts \<noteq> []"
  shows "abs_arrivals ts (Some (set ts)) None = (generation_results (length ts), None)"
proof (cases ts)
  case Nil
  with assms(2) show ?thesis by simp
next
  case (Cons t us)
  show ?thesis
  proof (cases "us = []")
    case True
    with Cons show ?thesis by (simp add: abs_arrive_def)
  next
    case False
    have ne: "set ts \<noteq> {t}" using Cons False assms(1) by (cases us) auto
    have "set us = set ts - {t}" "{t} \<subset> set ts" "distinct us"
      using Cons assms(1) ne by auto
    then have "abs_arrivals us (Some (set ts)) (Some (set ts, {t})) = (generation_results (length us), None)"
      by (intro abs_arrivals_open) simp_all
    moreover have "abs_arrive t (Some (set ts)) None = (ATT1_OK, Some (set ts, {t}), False)"
      using Cons ne by (simp add: abs_arrive_def)
    ultimately have "abs_arrivals (t # us) (Some (set ts)) None = (generation_results (length ts), None)"
      using Cons False by (simp add: generation_results_step)
    then show ?thesis using Cons by simp
  qed
qed

end
