(* ===== verification/Fabric_Props.thy ===== *)
theory Fabric_Props
  imports Fabric_Barrier
begin

text \<open>
  Broadcast on the pending messages, the reachable fabrics, and the properties of the fabric
  with their concrete runs.
\<close>

section \<open>Broadcast\<close>

definition copies :: "u32 \<Rightarrow> (u32 \<Rightarrow> fab_msg) \<Rightarrow> u32 list \<Rightarrow> nat \<Rightarrow> fab_msg list" where
  "copies source msg ts u = map msg (filter (\<lambda>t. unat t = u \<and> t \<noteq> source) ts)"

lemma send_group_content:
  assumes "fab_inv f" "unat source < f_tiles f" "payload_ok f payload n"
    and "\<forall>t \<in> set ts. unat t < f_tiles f"
    and "\<forall>u < f_tiles f. length (fab_content f u) + length (filter (\<lambda>t. unat t = u \<and> t \<noteq> source) ts) \<le> f_cap f"
    and "send_group source ty payload n tag ts f sent = (f', sent')"
  shows "fab_inv f' \<and> f_config f' = f_config f
    \<and> (\<forall>u < f_tiles f. fab_content f' u = fab_content f u @ copies source (\<lambda>t. sent_msg source t ty payload n tag) ts u)
    \<and> sent' = sent + length (filter (\<lambda>t. t \<noteq> source) ts)
    \<and> f_barrier_expected f' = f_barrier_expected f \<and> f_barrier_arrived f' = f_barrier_arrived f
    \<and> f_barrier_expected_count f' = f_barrier_expected_count f \<and> f_barrier_active f' = f_barrier_active f"
  using assms
proof (induction ts arbitrary: f sent)
  case Nil
  then show ?case by (simp add: copies_def)
next
  case (Cons t ts)
  show ?case
  proof (cases "t = source")
    case True
    have "\<forall>u < f_tiles f. length (fab_content f u) + length (filter (\<lambda>t. unat t = u \<and> t \<noteq> source) ts) \<le> f_cap f"
      using Cons.prems(5) True by simp
    then show ?thesis
      using Cons.IH [of f sent] Cons.prems True by (simp add: copies_def)
  next
    case False
    let ?f = "att1_fabric_enqueue f source t ty payload n tag"
    have t: "unat t < f_tiles f" using Cons.prems(4) by simp
    have room: "fq_count (f_queues f ! unat t) < f_cap f"
    proof -
      have "length (fab_content f (unat t)) + length (filter (\<lambda>x. unat x = unat t \<and> x \<noteq> source) (t # ts)) \<le> f_cap f"
        using Cons.prems(5) t by blast
      then show ?thesis using False by simp
    qed
    have inv: "fab_inv ?f" by (rule fab_inv_enqueue [OF Cons.prems(1) t Cons.prems(3) room Cons.prems(2)])
    note c = fab_content_enqueue [OF Cons.prems(1) t Cons.prems(3) room, of _ source ty tag]
    have room': "\<forall>u < f_tiles ?f. length (fab_content ?f u) + length (filter (\<lambda>t. unat t = u \<and> t \<noteq> source) ts) \<le> f_cap ?f"
    proof (intro allI impI)
      fix u assume "u < f_tiles ?f"
      then have u: "u < f_tiles f" by simp
      then have "length (fab_content f u) + length (filter (\<lambda>x. unat x = u \<and> x \<noteq> source) (t # ts)) \<le> f_cap f"
        using Cons.prems(5) by blast
      moreover have "length (fab_content ?f u) = length (fab_content f u) + (if unat t = u then 1 else 0)"
        unfolding c [OF u] by simp
      ultimately show "length (fab_content ?f u) + length (filter (\<lambda>t. unat t = u \<and> t \<noteq> source) ts) \<le> f_cap ?f"
        using False by (simp del: length_fab_content split: if_splits)
    qed
    have po: "payload_ok ?f payload n" using Cons.prems(3) by (simp add: payload_ok_def)
    have IH: "send_group source ty payload n tag ts ?f (sent + 1) = (f', sent')"
      using Cons.prems(6) False by simp
    from Cons.IH [of ?f "sent + 1", OF inv _ po _ room' IH] Cons.prems(2,4)
    show ?thesis using c False by (auto simp: copies_def)
  qed
qed

lemma preflight_ok_iff:
  "preflight f source ts = ATT1_OK \<longleftrightarrow>
    (\<forall>t \<in> set ts. unat t < f_tiles f \<and> (t \<noteq> source \<longrightarrow> fq_count (f_queues f ! unat t) < f_cap f))"
  by (induction ts) (auto simp: att1_fabric_valid_tile_def att1_fabric_queue_has_room_def)

lemma preflight_range: "preflight f source ts \<in> {ATT1_OK, ATT1_ERR_INVALID_ARG, ATT1_ERR_QUEUE_FULL}"
  by (induction ts) auto

definition targets_of :: "att1_fabric \<Rightarrow> u32 list option \<Rightarrow> nat \<Rightarrow> u32 list" where
  "targets_of f g gc = (case g of Some l \<Rightarrow> take gc l | None \<Rightarrow> all_tiles f)"

lemma all_tiles_facts:
  assumes "fab_inv f"
  shows "distinct (all_tiles f)" "set (all_tiles f) = {t. unat t < f_tiles f}"
proof -
  have b: "f_tiles f < 2 ^ 32" by (rule fab_inv_bounds(5) [OF assms])
  have un: "unat (word_of_nat i :: u32) = i" if "i < f_tiles f" for i
    using that b by (simp add: unsigned_of_nat take_bit_nat_eq_self)
  show "distinct (all_tiles f)"
    using un by (auto simp: all_tiles_def distinct_map intro!: inj_onI) (metis un)
  show "set (all_tiles f) = {t. unat t < f_tiles f}"
  proof (intro set_eqI iffI)
    fix t assume "t \<in> {t :: u32. unat t < f_tiles f}"
    then have "t = word_of_nat (unat t)" "unat t < f_tiles f" by simp_all
    then show "t \<in> set (all_tiles f)" unfolding all_tiles_def set_map by (intro image_eqI) auto
  qed (auto simp: all_tiles_def un)
qed

lemma distinct_filter_le_1:
  "distinct ts \<Longrightarrow> length (filter (\<lambda>t. unat t = u \<and> t \<noteq> source) ts) \<le> (if \<exists>t \<in> set ts. unat t = u \<and> t \<noteq> (source :: u32) then 1 else 0)"
proof (induction ts)
  case (Cons t ts)
  have inj: "unat x = unat t \<longleftrightarrow> x = t" for x by (simp add: word_unat_eq_iff)
  show ?case
  proof (cases "unat t = u \<and> t \<noteq> source")
    case True
    then have "filter (\<lambda>t. unat t = u \<and> t \<noteq> source) ts = []"
      using Cons.prems inj by (auto simp: filter_empty_conv)
    then show ?thesis using True by simp
  next
    case False
    then show ?thesis using Cons by (auto split: if_splits)
  qed
qed simp

lemma broadcast_ok:
  assumes "fab_inv f" "unat source < f_tiles f" "payload_ok f payload n"
    and "distinct (targets_of f g gc)" "preflight f source (targets_of f g gc) = ATT1_OK"
    and "send_group source ty payload n tag (targets_of f g gc) f 0 = (f', sent)"
  shows "fab_inv f' \<and> f_config f' = f_config f
    \<and> (\<forall>u < f_tiles f. fab_content f' u = fab_content f u
        @ copies source (\<lambda>t. sent_msg source t ty payload n tag) (targets_of f g gc) u)
    \<and> sent = length (filter (\<lambda>t. t \<noteq> source) (targets_of f g gc))
    \<and> f_barrier_expected f' = f_barrier_expected f \<and> f_barrier_arrived f' = f_barrier_arrived f
    \<and> f_barrier_expected_count f' = f_barrier_expected_count f \<and> f_barrier_active f' = f_barrier_active f"
proof -
  let ?ts = "targets_of f g gc"
  have pf: "\<forall>t \<in> set ?ts. unat t < f_tiles f \<and> (t \<noteq> source \<longrightarrow> fq_count (f_queues f ! unat t) < f_cap f)"
    using assms(5) preflight_ok_iff by blast
  have "length (fab_content f u) + length (filter (\<lambda>t. unat t = u \<and> t \<noteq> source) ?ts) \<le> f_cap f"
    if u: "u < f_tiles f" for u
  proof (cases "\<exists>t \<in> set ?ts. unat t = u \<and> t \<noteq> source")
    case True
    then have "fq_count (f_queues f ! u) < f_cap f" using pf by blast
    then show ?thesis using distinct_filter_le_1 [OF assms(4), of u source] by (simp split: if_splits)
  next
    case False
    then have "filter (\<lambda>t. unat t = u \<and> t \<noteq> source) ?ts = []" by (auto simp: filter_empty_conv)
    then show ?thesis using fab_inv_queue(3) [OF assms(1) u] by simp
  qed
  then show ?thesis
    using send_group_content [OF assms(1-3) _ _ assms(6)] pf by simp
qed

lemma broadcast_cases:
  assumes "fabric_broadcast source g gc ty payload n tag f = (st, f')"
  shows "(st = ATT1_OK \<and> unat source < f_tiles f \<and> att1_fabric_payload_valid f payload n
      \<and> preflight f source (targets_of f g gc) = ATT1_OK
      \<and> f' = upd_fk (\<lambda>c. c\<lparr>fk_broadcast_packets := fk_broadcast_packets c
            + word_of_nat (snd (send_group source ty payload n tag (targets_of f g gc) f 0))\<rparr>)
          (fst (send_group source ty payload n tag (targets_of f g gc) f 0)))
    \<or> (st \<noteq> ATT1_OK \<and> (\<exists>c. f' = f\<lparr>f_counters := c\<rparr>))"
  using assms preflight_range [of f source "targets_of f g gc"]
  unfolding fabric_broadcast_def targets_of_def [symmetric] Let_def att1_fabric_count_invalid_def
    count_queue_full_def att1_fabric_valid_tile_def
  by (auto split: if_splits prod.splits)

section \<open>Reachable fabrics\<close>

text \<open>
  Every operation in any order, from callers that pass buffers as long as they say, group and
  participant arrays as long as they say, and no tile twice in a broadcast group.
\<close>

definition buffer_ok :: "'a list option \<Rightarrow> nat \<Rightarrow> bool" where
  "buffer_ok p n \<longleftrightarrow> (case p of None \<Rightarrow> True | Some b \<Rightarrow> n \<le> length b)"

lemma payload_valid_ok:
  "buffer_ok payload n \<Longrightarrow> att1_fabric_payload_valid f payload n \<Longrightarrow> payload_ok f payload n"
  by (auto simp: buffer_ok_def att1_fabric_payload_valid_def payload_ok_def split: option.splits if_splits)

inductive fab_reachable :: "att1_fabric \<Rightarrow> bool" where
  create: "att1_fabric_create alloc (Some f0) cfg = (ATT1_OK, Some f) \<Longrightarrow> fab_reachable f"
| send: "fab_reachable f \<Longrightarrow> buffer_ok payload n \<Longrightarrow>
    att1_fabric_send (Some f) source target ty payload n tag = (st, Some f') \<Longrightarrow> fab_reachable f'"
| receive: "fab_reachable f \<Longrightarrow>
    att1_fabric_receive (Some f) tile pok ook c = (st, Some f', out) \<Longrightarrow> fab_reachable f'"
| broadcast: "fab_reachable f \<Longrightarrow> buffer_ok payload n \<Longrightarrow> distinct (targets_of f g gc) \<Longrightarrow>
    att1_fabric_broadcast (Some f) source g gc ty payload n tag = (st, Some f') \<Longrightarrow> fab_reachable f'"
| barrier: "fab_reachable f \<Longrightarrow> buffer_ok ps pc \<Longrightarrow>
    att1_fabric_barrier_arrive alloc (Some f) tile ps pc = (st, Some f', complete) \<Longrightarrow> fab_reachable f'"
| reset: "fab_reachable f \<Longrightarrow> att1_fabric_reset_counters (Some f) = Some f' \<Longrightarrow> fab_reachable f'"

lemma barrier_inv_cong:
  "f_config f' = f_config f \<Longrightarrow> f_barrier_expected f' = f_barrier_expected f \<Longrightarrow>
   f_barrier_arrived f' = f_barrier_arrived f \<Longrightarrow> f_barrier_expected_count f' = f_barrier_expected_count f \<Longrightarrow>
   f_barrier_active f' = f_barrier_active f \<Longrightarrow> barrier_inv f' = barrier_inv f"
  by (simp add: barrier_inv_def)

lemma fab_inv_cong:
  assumes "f_config f' = f_config f" "f_queues f' = f_queues f" "f_payload_storage f' = f_payload_storage f"
  shows "fab_inv f' = fab_inv f" "fab_content f' t = fab_content f t"
proof -
  have "slot_msg f' = slot_msg f"
    by (intro ext) (simp add: slot_msg_def slot_offset_def assms)
  then have c: "fab_content f' t = fab_content f t" for t
    by (simp add: fab_content_def fab_slots_def assms)
  then show "fab_content f' t = fab_content f t" .
  show "fab_inv f' = fab_inv f" by (simp add: fab_inv_def c queue_ok_def assms)
qed

lemma create_fab_inv:
  assumes "att1_fabric_create alloc (Some f0) cfg = (ATT1_OK, Some f)"
  shows "fab_inv f \<and> barrier_inv f \<and> (\<forall>t < f_tiles f. fab_content f t = []) \<and> \<not> f_barrier_active f"
proof -
  obtain c where c: "cfg = Some c" "att1_fabric_config_valid (Some c)"
    using assms by (auto simp: att1_fabric_create_def split: option.splits if_splits)
  have f: "f_config f = c" "f_queues f = replicate (fc_tile_count c)
        \<lparr>fq_head = 0, fq_count = 0, fq_packets = replicate (fc_queue_capacity c) zero_packet\<rparr>"
      "f_payload_storage f = replicate (fc_tile_count c * fc_queue_capacity c * fc_max_payload_bytes c) 0"
      "f_barrier_expected f = replicate (fc_tile_count c) False"
      "f_barrier_arrived f = replicate (fc_tile_count c) False" "\<not> f_barrier_active f"
    using assms c by (auto simp: att1_fabric_create_def zero_fabric_def split: if_splits)
  have e: "fab_content f t = []" if "t < fc_tile_count c" for t
    using that f by (simp add: fab_content_def)
  have "fab_inv f"
    using c(2) f e config_valid_bounds [OF c(2)] by (simp add: fab_inv_def queue_ok_def zero_packet_def)
  then show ?thesis using f e by (simp add: barrier_inv_def)
qed

lemma receive_other_status:
  assumes "fab_inv f" "fabric_receive f target pok c = (st, f', out)"
  shows "fab_inv f' \<and> f_config f' = f_config f \<and> f_barrier_expected f' = f_barrier_expected f
    \<and> f_barrier_arrived f' = f_barrier_arrived f
    \<and> f_barrier_expected_count f' = f_barrier_expected_count f \<and> f_barrier_active f' = f_barrier_active f"
proof -
  have fr: "f_config f' = f_config f \<and> f_barrier_expected f' = f_barrier_expected f
    \<and> f_barrier_arrived f' = f_barrier_arrived f
    \<and> f_barrier_expected_count f' = f_barrier_expected_count f \<and> f_barrier_active f' = f_barrier_active f"
    using assms(2) by (auto simp: fabric_receive_def att1_fabric_count_invalid_def Let_def split: if_splits)
  have "fab_inv f'"
  proof (cases "unat target < f_tiles f")
    case False
    then show ?thesis
      using assms by (auto simp: fabric_receive_def att1_fabric_valid_tile_def att1_fabric_count_invalid_def)
  next
    case t: True
    show ?thesis
    proof (cases "fab_content f (unat target)")
      case Nil
      then have "f' = upd_fk (\<lambda>c. c\<lparr>fk_empty_receives := fk_empty_receives c + 1\<rparr>) f"
        using assms(2) fabric_receive_empty [OF t Nil, of pok c] by simp
      then show ?thesis using assms(1) by simp
    next
      case (Cons m ms)
      show ?thesis
      proof (cases "length (snd m) \<le> c \<and> (snd m = [] \<or> pok)")
        case True
        then show ?thesis using fabric_receive_ok [OF assms(1) t Cons] assms(2) by (metis Pair_inject)
      next
        case False
        then have "fabric_receive f target pok c = (ATT1_ERR_INVALID_ARG, att1_fabric_count_invalid f, None)"
          by (intro fabric_receive_refused [OF assms(1) t Cons]) auto
        then show ?thesis using assms by (simp add: att1_fabric_count_invalid_def)
      qed
    qed
  qed
  with fr show ?thesis by simp
qed

lemma barrier_arrive_no_copy:
  "fabric_barrier_arrive False f tile ps pc =
     (if att1_fabric_valid_tile f tile \<and> f_barrier_active f
      then (ATT1_ERR_INVALID_ARG, att1_fabric_count_invalid f, False)
      else fabric_barrier_arrive True f tile ps pc)"
  by (simp add: fabric_barrier_arrive_def att1_fabric_participant_set_matches_def)

lemma fab_reachable_inv: "fab_reachable f \<Longrightarrow> fab_inv f \<and> barrier_inv f"
proof (induction rule: fab_reachable.induct)
  case (create alloc f0 cfg f)
  then show ?case using create_fab_inv by blast
next
  case (send f payload n source target ty tag st f')
  then have q: "f_queues f \<noteq> []" using fab_inv_bounds(6) by blast
  then have s: "fabric_send source target ty payload n tag f = (st, f')"
    using send.hyps(3) by (auto simp: att1_fabric_send_def with_fabric_def split: prod.splits)
  show ?case
  proof (cases "st = ATT1_OK")
    case True
    then have p: "unat source < f_tiles f" "unat target < f_tiles f" "att1_fabric_payload_valid f payload n"
      "fq_count (f_queues f ! unat target) < f_cap f"
      "f' = att1_fabric_enqueue f source target ty payload n tag"
      using s by (auto simp: fabric_send_def att1_fabric_valid_tile_def att1_fabric_queue_has_room_def split: if_splits)
    have "payload_ok f payload n" using payload_valid_ok send.hyps(2) p(3) by blast
    then show ?thesis
      using fab_inv_enqueue [OF _ p(2) _ p(4) p(1)] send.IH p(5) barrier_inv_cong [of f' f] by simp
  next
    case False
    then have "\<exists>c. f' = f\<lparr>f_counters := c\<rparr>"
      using s by (auto simp: fabric_send_def att1_fabric_count_invalid_def count_queue_full_def split: if_splits)
    then show ?thesis using send.IH barrier_inv_cong [of f' f] by auto
  qed
next
  case (receive f tile pok ook c st f' out)
  show ?case
  proof (cases "f_queues f = [] \<or> \<not> pok")
    case True
    then show ?thesis using receive by (auto simp: att1_fabric_receive_def)
  next
    case False
    then have "fabric_receive f tile ook c = (st, f', out)"
      using receive.hyps(2) by (auto simp: att1_fabric_receive_def split: prod.splits)
    then show ?thesis
      using receive_other_status receive.IH barrier_inv_cong [of f' f] by blast
  qed
next
  case (broadcast f payload n g gc source ty tag st f')
  then have q: "f_queues f \<noteq> []" using fab_inv_bounds(6) by blast
  then have b: "fabric_broadcast source g gc ty payload n tag f = (st, f')"
    using broadcast.hyps(4) by (auto simp: att1_fabric_broadcast_def with_fabric_def split: prod.splits)
  obtain f1 sent where sg: "send_group source ty payload n tag (targets_of f g gc) f 0 = (f1, sent)" by force
  from broadcast_cases [OF b] show ?case
  proof (elim disjE conjE exE)
    assume h: "unat source < f_tiles f" "att1_fabric_payload_valid f payload n"
      "preflight f source (targets_of f g gc) = ATT1_OK"
      "f' = upd_fk (\<lambda>c. c\<lparr>fk_broadcast_packets := fk_broadcast_packets c
            + word_of_nat (snd (send_group source ty payload n tag (targets_of f g gc) f 0))\<rparr>)
          (fst (send_group source ty payload n tag (targets_of f g gc) f 0))"
    have po: "payload_ok f payload n" using payload_valid_ok broadcast.hyps(2) h(2) by blast
    have inv: "fab_inv f" using broadcast.IH by blast
    note k = broadcast_ok [OF inv h(1) po broadcast.hyps(3) h(3) sg]
    have "barrier_inv f1" using k broadcast.IH barrier_inv_cong [of f1 f] by blast
    moreover have "barrier_inv f' = barrier_inv f1"
      using h(4) sg by (intro barrier_inv_cong) simp_all
    ultimately show ?thesis using h(4) sg k by simp
  next
    fix c assume "f' = f\<lparr>f_counters := c\<rparr>"
    then show ?thesis using broadcast.IH barrier_inv_cong [of f' f] by simp
  qed
next
  case (barrier f ps pc alloc tile st f' complete)
  have inv: "fab_inv f" "barrier_inv f" using barrier.IH by blast+
  then have ne: "f_barrier_expected f \<noteq> []" "f_barrier_arrived f \<noteq> []"
    using fab_inv_bounds(1) [OF inv(1)] by (auto simp: barrier_inv_def)
  then have a0: "fabric_barrier_arrive alloc f tile ps pc = (st, f', complete)"
    using barrier.hyps(3) by (auto simp: att1_fabric_barrier_arrive_def split: prod.splits)
  then consider "f' = att1_fabric_count_invalid f" | "fabric_barrier_arrive True f tile ps pc = (st, f', complete)"
    using barrier_arrive_no_copy [of f tile ps pc] by (cases alloc) (auto split: if_splits)
  then show ?case
  proof cases
    case 1
    then show ?thesis using inv barrier_inv_cong [of f' f] by (simp add: att1_fabric_count_invalid_def)
  next
    case a: 2
  show ?thesis
  proof (cases "unat tile < f_tiles f")
    case True
    have "case ps of None \<Rightarrow> True | Some l \<Rightarrow> pc \<le> length l"
      using barrier.hyps(2) by (simp add: buffer_ok_def)
    from barrier_arrive_refines [OF inv(2) True this a] inv fab_inv_cong(1) [of f' f]
    show ?thesis by simp
  next
    case False
    then have "f' = att1_fabric_count_invalid f"
      using a by (simp add: fabric_barrier_arrive_def att1_fabric_valid_tile_def)
    then show ?thesis using inv barrier_inv_cong [of f' f] by (simp add: att1_fabric_count_invalid_def)
  qed
  qed
next
  case (reset f f')
  then show ?case using barrier_inv_cong [of f' f] by (auto simp: att1_fabric_reset_counters_def)
qed

section \<open>A concrete fabric\<close>

definition demo_fcfg :: att1_fabric_bus_config where
  "demo_fcfg = \<lparr>fc_tile_count = 3, fc_queue_capacity = 2, fc_max_payload_bytes = 4\<rparr>"

definition demo_f0 :: att1_fabric where
  "demo_f0 = the (snd (att1_fabric_create (\<lambda>_. True) (Some zero_fabric) (Some demo_fcfg)))"

lemma demo_f0_create:
  "att1_fabric_create (\<lambda>_. True) (Some zero_fabric) (Some demo_fcfg) = (ATT1_OK, Some demo_f0)"
  "f_config demo_f0 = demo_fcfg"
  by (simp_all add: demo_f0_def att1_fabric_create_def att1_fabric_config_valid_def demo_fcfg_def
      UINT32_MAX_nat_def att1_mul_size_def SIZE_MAX_def list_all_iff)

lemma demo_f0_facts:
  "fab_reachable demo_f0" "fab_inv demo_f0" "f_config demo_f0 = demo_fcfg" "f_tiles demo_f0 = 3"
  "\<And>t. t < 3 \<Longrightarrow> fab_content demo_f0 t = []" "\<not> f_barrier_active demo_f0" "barrier_inv demo_f0"
proof -
  show r: "fab_reachable demo_f0" by (rule fab_reachable.create [OF demo_f0_create(1)])
  show c: "f_config demo_f0 = demo_fcfg" by (rule demo_f0_create(2))
  then show t: "f_tiles demo_f0 = 3" by (simp add: demo_fcfg_def)
  show "fab_content demo_f0 t = []" if "t < 3" for t
    using create_fab_inv [OF demo_f0_create(1)] that t by simp
  show "fab_inv demo_f0" "\<not> f_barrier_active demo_f0" "barrier_inv demo_f0"
    using create_fab_inv [OF demo_f0_create(1)] by simp_all
qed

section \<open>Properties\<close>

lemma fabric_send_live:
  "fab_inv f \<Longrightarrow> att1_fabric_send (Some f) s t ty p n tag = (st, fp') \<longleftrightarrow>
     (\<exists>f'. fp' = Some f' \<and> fabric_send s t ty p n tag f = (st, f'))"
  using fab_inv_bounds(6) [of f] by (auto simp: att1_fabric_send_def with_fabric_def split: prod.splits)

text \<open>
  In every fabric the API can reach, in any interleaving of sends, receives, broadcasts and
  barrier arrivals, every inbound queue holds at most its capacity, every pending message is
  addressed to the tile whose queue holds it, comes from a tile of the fabric and carries as
  many payload bytes as its header says, at most the configured maximum.
\<close>

theorem fabric_reachable_invariant:
  assumes "fab_reachable f" "t < f_tiles f"
  shows "length (fab_content f t) \<le> f_cap f
    \<and> (\<forall>m \<in> set (fab_content f t). unat (pk_target (fst m)) = t \<and> unat (pk_source (fst m)) < f_tiles f
        \<and> unat (pk_payload_bytes (fst m)) = length (snd m) \<and> length (snd m) \<le> f_max f)"
proof -
  have i: "fab_inv f" using fab_reachable_inv [OF assms(1)] by blast
  have "length (snd m) \<le> f_max f" if m: "m \<in> set (fab_content f t)" for m
  proof -
    obtain j where j: "m = fab_slots f t ! ((fq_head (f_queues f ! t) + j) mod f_cap f)"
      using m by (auto simp: fab_content_def ring_content_def)
    obtain k where "k < f_cap f" "m = slot_msg f t k"
      using j fab_inv_bounds(2) [OF i] that [of "(fq_head (f_queues f ! t) + j) mod f_cap f"]
      by (simp add: fab_slots_def)
    then have "unat (pk_payload_bytes (fst m)) \<le> f_max f"
      using fab_inv_queue(4) [OF i assms(2)] by (simp add: slot_msg_def Let_def)
    then show ?thesis using i assms(2) m by (auto simp: fab_inv_def)
  qed
  then show ?thesis using i assms(2) fab_inv_queue(3) [OF i assms(2)] by (auto simp: fab_inv_def)
qed

theorem fabric_reachable_invariant_witness:
  "fab_reachable demo_f0 \<and> length (fab_content demo_f0 1) \<le> 2"
  using fabric_reachable_invariant [OF demo_f0_facts(1), of 1] demo_f0_facts by (simp add: demo_fcfg_def)

text \<open>
  Sending on every branch: an unknown source or target tile, a payload above the maximum
  or a missing payload is refused; a full target queue is refused; otherwise exactly one
  message, with the header the caller gave and a copy of the payload bytes, goes behind the
  pending messages of the target tile. No other queue changes, and a refusal changes none.
\<close>

theorem fabric_send_spec:
  assumes "fab_reachable f" "buffer_ok payload n"
    and "att1_fabric_send (Some f) source target ty payload n tag = (st, Some f')"
  shows "if f_tiles f \<le> unat source \<or> f_tiles f \<le> unat target \<or> f_max f < n \<or> (0 < n \<and> payload = None)
    then st = ATT1_ERR_INVALID_ARG \<and> (\<forall>u. fab_content f' u = fab_content f u)
    else if length (fab_content f (unat target)) = f_cap f
    then st = ATT1_ERR_QUEUE_FULL \<and> (\<forall>u. fab_content f' u = fab_content f u)
    else st = ATT1_OK \<and> (\<forall>u < f_tiles f. fab_content f' u =
      (if u = unat target then fab_content f u @ [sent_msg source target ty payload n tag] else fab_content f u))"
proof -
  have i: "fab_inv f" using fab_reachable_inv [OF assms(1)] by blast
  have s: "fabric_send source target ty payload n tag f = (st, f')"
    using assms(3) fabric_send_live [OF i] by blast
  let ?bad = "f_tiles f \<le> unat source \<or> f_tiles f \<le> unat target \<or> f_max f < n \<or> (0 < n \<and> payload = None)"
  have bad: "?bad \<longleftrightarrow> \<not> att1_fabric_valid_tile f source \<or> \<not> att1_fabric_valid_tile f target
      \<or> \<not> att1_fabric_payload_valid f payload n"
    by (auto simp: att1_fabric_valid_tile_def att1_fabric_payload_valid_def)
  show ?thesis
  proof (cases ?bad)
    case True
    then have "st = ATT1_ERR_INVALID_ARG \<and> f' = att1_fabric_count_invalid f"
      using s unfolding bad by (auto simp: fabric_send_def split: if_splits)
    with True show ?thesis by (simp add: att1_fabric_count_invalid_def)
  next
    case False
    then have v: "att1_fabric_valid_tile f source" "att1_fabric_valid_tile f target"
      "att1_fabric_payload_valid f payload n" unfolding bad by simp_all
    then have t: "unat target < f_tiles f" by (simp add: att1_fabric_valid_tile_def)
    show ?thesis
    proof (cases "length (fab_content f (unat target)) = f_cap f")
      case True
      then have "st = ATT1_ERR_QUEUE_FULL \<and> f' = count_queue_full f"
        using s v by (simp add: fabric_send_def att1_fabric_queue_has_room_def)
      then show ?thesis using True False by (simp add: count_queue_full_def)
    next
      case room: False
      then have r: "fq_count (f_queues f ! unat target) < f_cap f"
        using fab_inv_queue(3) [OF i t] by simp
      then have "st = ATT1_OK" "f' = att1_fabric_enqueue f source target ty payload n tag"
        using s v by (simp_all add: fabric_send_def att1_fabric_queue_has_room_def)
      moreover have "payload_ok f payload n" using payload_valid_ok assms(2) v(3) by blast
      ultimately show ?thesis
        using False room fab_content_enqueue [OF i t _ r, of payload n _ source ty tag] by simp
    qed
  qed
qed

theorem fabric_send_spec_witness:
  "\<exists>f'. att1_fabric_send (Some demo_f0) 0 1 PACKET_LOGITS (Some [7, 8, 9]) 2 5 = (ATT1_OK, Some f')
     \<and> fab_content f' 1 = [(\<lparr>pk_type = PACKET_LOGITS, pk_source = 0, pk_target = 1,
          pk_payload_bytes = 2, pk_tag = 5\<rparr>, [7, 8])] \<and> fab_content f' 2 = []"
proof -
  obtain st f' where s: "att1_fabric_send (Some demo_f0) 0 1 PACKET_LOGITS (Some [7, 8, 9]) 2 5 = (st, Some f')"
    using fabric_send_live [OF demo_f0_facts(2)] by (metis surj_pair)
  have "buffer_ok (Some [7 :: u8, 8, 9]) 2" by (simp add: buffer_ok_def)
  from fabric_send_spec [OF demo_f0_facts(1) this s] s demo_f0_facts show ?thesis
    by (auto simp: demo_fcfg_def sent_msg_def)
qed

text \<open>
  Receiving on every branch: an unknown tile and an empty queue are reported; a message
  that does not fit the caller's buffer stays in the queue; otherwise the oldest message of
  that tile is handed out with its bytes and removed. No other queue changes.
\<close>

theorem fabric_receive_spec:
  assumes "fab_reachable f" "att1_fabric_receive (Some f) tile True ook c = (st, Some f', out)"
  shows "if f_tiles f \<le> unat tile then st = ATT1_ERR_INVALID_ARG \<and> out = None \<and> (\<forall>u. fab_content f' u = fab_content f u)
    else (case fab_content f (unat tile) of
      [] \<Rightarrow> st = ATT1_ERR_QUEUE_EMPTY \<and> out = None \<and> (\<forall>u. fab_content f' u = fab_content f u)
    | m # ms \<Rightarrow>
        if c < length (snd m) \<or> (snd m \<noteq> [] \<and> \<not> ook)
        then st = ATT1_ERR_INVALID_ARG \<and> out = None \<and> (\<forall>u. fab_content f' u = fab_content f u)
        else st = ATT1_OK \<and> out = Some m
          \<and> (\<forall>u < f_tiles f. fab_content f' u = (if u = unat tile then ms else fab_content f u)))"
proof -
  have i: "fab_inv f" using fab_reachable_inv [OF assms(1)] by blast
  have r: "fabric_receive f tile ook c = (st, f', out)"
    using assms(2) fab_inv_bounds(6) [OF i] by (auto simp: att1_fabric_receive_def split: prod.splits)
  show ?thesis
  proof (cases "f_tiles f \<le> unat tile")
    case True
    then show ?thesis
      using r by (auto simp: fabric_receive_def att1_fabric_valid_tile_def att1_fabric_count_invalid_def)
  next
    case False
    then have t: "unat tile < f_tiles f" by simp
    show ?thesis
    proof (cases "fab_content f (unat tile)")
      case Nil
      have "st = ATT1_ERR_QUEUE_EMPTY" "out = None"
        "f' = upd_fk (\<lambda>c. c\<lparr>fk_empty_receives := fk_empty_receives c + 1\<rparr>) f"
        using r fabric_receive_empty [OF t Nil, of ook c] by simp_all
      then show ?thesis using Nil False by simp
    next
      case (Cons m ms)
      show ?thesis
      proof (cases "c < length (snd m) \<or> (snd m \<noteq> [] \<and> \<not> ook)")
        case True
        then have "st = ATT1_ERR_INVALID_ARG" "out = None" "f' = att1_fabric_count_invalid f"
          using r fabric_receive_refused [OF i t Cons True] by simp_all
        then show ?thesis using Cons False True by (simp add: att1_fabric_count_invalid_def)
      next
        case fits: False
        then have "length (snd m) \<le> c" "snd m = [] \<or> ook" by auto
        from fabric_receive_ok [OF i t Cons this] obtain f1 where
          "fabric_receive f tile ook c = (ATT1_OK, f1, Some m)"
          "\<And>u. u < f_tiles f \<Longrightarrow> fab_content f1 u = (if u = unat tile then ms else fab_content f u)"
          by blast
        then show ?thesis using r Cons False fits by simp
      qed
    qed
  qed
qed

theorem fabric_receive_spec_witness:
  "\<exists>f'. att1_fabric_receive (Some demo_f0) 1 True True 4 = (ATT1_ERR_QUEUE_EMPTY, Some f', None)"
proof -
  obtain st f' out where r: "att1_fabric_receive (Some demo_f0) 1 True True 4 = (st, Some f', out)"
    using fab_inv_bounds(6) [OF demo_f0_facts(2)]
    by (cases "fabric_receive demo_f0 1 True 4") (simp add: att1_fabric_receive_def)
  from fabric_receive_spec [OF demo_f0_facts(1) r] r demo_f0_facts show ?thesis by auto
qed



text \<open>
  C39. A broadcast to a group without repetitions (or to all tiles) is all or nothing: on
  success every tile of the group other than the source has exactly one new message and no
  other queue changes; on any error no queue changes.
\<close>

theorem fabric_broadcast_atomic:
  assumes "fab_reachable f" "buffer_ok payload n" "distinct (targets_of f g gc)"
    and "att1_fabric_broadcast (Some f) source g gc ty payload n tag = (st, Some f')"
  shows "if st = ATT1_OK
    then \<forall>u < f_tiles f. fab_content f' u =
      (if \<exists>t \<in> set (targets_of f g gc). unat t = u \<and> t \<noteq> source
       then fab_content f u @ [sent_msg source (word_of_nat u) ty payload n tag] else fab_content f u)
    else \<forall>u. fab_content f' u = fab_content f u"
proof -
  have i: "fab_inv f" using fab_reachable_inv [OF assms(1)] by blast
  then have b: "fabric_broadcast source g gc ty payload n tag f = (st, f')"
    using assms(4) fab_inv_bounds(6) [OF i]
    by (auto simp: att1_fabric_broadcast_def with_fabric_def split: prod.splits)
  obtain f1 sent where sg: "send_group source ty payload n tag (targets_of f g gc) f 0 = (f1, sent)" by force
  from broadcast_cases [OF b] show ?thesis
  proof (elim disjE conjE exE)
    assume ok: "st = ATT1_OK" and h: "unat source < f_tiles f" "att1_fabric_payload_valid f payload n"
      "preflight f source (targets_of f g gc) = ATT1_OK"
      "f' = upd_fk (\<lambda>c. c\<lparr>fk_broadcast_packets := fk_broadcast_packets c
            + word_of_nat (snd (send_group source ty payload n tag (targets_of f g gc) f 0))\<rparr>)
          (fst (send_group source ty payload n tag (targets_of f g gc) f 0))"
    have po: "payload_ok f payload n" using payload_valid_ok assms(2) h(2) by blast
    note k = broadcast_ok [OF i h(1) po assms(3) h(3) sg]
    have "copies source msg (targets_of f g gc) u =
        (if \<exists>t \<in> set (targets_of f g gc). unat t = u \<and> t \<noteq> source then [msg (word_of_nat u)] else [])" for u msg
    proof (cases "\<exists>t \<in> set (targets_of f g gc). unat t = u \<and> t \<noteq> source")
      case True
      then obtain t where t: "t \<in> set (targets_of f g gc)" "unat t = u" "t \<noteq> source" by blast
      let ?xs = "filter (\<lambda>t. unat t = u \<and> t \<noteq> source) (targets_of f g gc)"
      have "t \<in> set ?xs" using t by simp
      moreover have "length ?xs \<le> 1"
        using distinct_filter_le_1 [OF assms(3), of u source] by (simp split: if_splits)
      ultimately have "?xs = [t]" by (cases ?xs) auto
      moreover have "word_of_nat u = t" using t(2) by auto
      ultimately show ?thesis using True by (simp add: copies_def)
    next
      case False
      then show ?thesis by (auto simp: copies_def filter_empty_conv)
    qed
    then show ?thesis using k h(4) sg ok by simp blast
  next
    assume "st \<noteq> ATT1_OK"
    fix c assume "f' = f\<lparr>f_counters := c\<rparr>"
    then show ?thesis using \<open>st \<noteq> ATT1_OK\<close> by simp
  qed
qed

lemma demo_broadcast:
  "\<exists>f'. att1_fabric_broadcast (Some demo_f0) 0 None 0 PACKET_CONTROL None 0 9 = (ATT1_OK, Some f')"
proof -
  have "preflight demo_f0 0 (all_tiles demo_f0) = ATT1_OK"
  proof -
    have "fq_count (f_queues demo_f0 ! t) = 0" if "t < 3" for t
      using demo_f0_facts(5) [OF that] fab_content_eq_Nil by blast
    then show ?thesis
      using all_tiles_facts(2) [OF demo_f0_facts(2)] demo_f0_facts(3,4)
      by (auto simp: preflight_ok_iff demo_fcfg_def)
  qed
  moreover have "att1_fabric_valid_tile demo_f0 0" "att1_fabric_payload_valid demo_f0 None 0"
    using demo_f0_facts(4) by (simp_all add: att1_fabric_valid_tile_def att1_fabric_payload_valid_def)
  ultimately show ?thesis
    using fab_inv_bounds(6) [OF demo_f0_facts(2)]
    by (simp add: att1_fabric_broadcast_def with_fabric_def fabric_broadcast_def Let_def split: prod.split)
qed

theorem fabric_broadcast_atomic_witness:
  "\<exists>f'. att1_fabric_broadcast (Some demo_f0) 0 None 0 PACKET_CONTROL None 0 9 = (ATT1_OK, Some f')
     \<and> length (fab_content f' 1) = 1 \<and> fab_content f' 0 = []"
proof -
  have s: "set (all_tiles demo_f0) = {t. unat t < 3}" "distinct (all_tiles demo_f0)"
    using all_tiles_facts [OF demo_f0_facts(2)] demo_f0_facts(4) by simp_all
  then have d: "distinct (targets_of demo_f0 None 0)" by (simp add: targets_of_def)
  have m: "\<exists>t \<in> set (targets_of demo_f0 None 0). unat t = 1 \<and> t \<noteq> 0"
    by (intro bexI [of _ 1]) (simp_all add: targets_of_def s)
  have z: "\<not> (\<exists>t \<in> set (targets_of demo_f0 None 0). unat t = 0 \<and> t \<noteq> (0 :: u32))"
    by (simp add: unsigned_eq_0_iff)
  obtain f' where b: "att1_fabric_broadcast (Some demo_f0) 0 None 0 PACKET_CONTROL None 0 9 = (ATT1_OK, Some f')"
    using demo_broadcast by blast
  have "buffer_ok (None :: u8 list option) 0" by (simp add: buffer_ok_def)
  note at = fabric_broadcast_atomic [OF demo_f0_facts(1) this d b]
  have "fab_content f' 1 = fab_content demo_f0 1 @ [sent_msg 0 (word_of_nat 1) PACKET_CONTROL None 0 9]"
    "fab_content f' 0 = fab_content demo_f0 0"
    using at m z demo_f0_facts(4) by (simp_all del: of_nat_1)
  then have "fab_content f' 1 = [sent_msg 0 (word_of_nat 1) PACKET_CONTROL None 0 9]" "fab_content f' 0 = []"
    using demo_f0_facts(5) by simp_all
  then have "length (fab_content f' 1) = 1" "fab_content f' 0 = []" by (simp_all del: length_fab_content)
  with b show ?thesis by blast
qed

text \<open>
  The room check of a broadcast looks at every entry of the group by itself. A group that
  names a tile twice when its queue has one slot left passes the check: the call reports
  success, the queue then counts one message more than its capacity, and the oldest pending
  slot has been overwritten by the new message.
\<close>

theorem fabric_broadcast_duplicate_overflow:
  assumes "fab_reachable f" "unat source < f_tiles f" "unat t < f_tiles f" "t \<noteq> source"
    and "att1_fabric_payload_valid f payload n" "buffer_ok payload n"
    and "length (fab_content f (unat t)) = f_cap f - 1"
  shows "\<exists>f'. att1_fabric_broadcast (Some f) source (Some [t, t]) 2 ty payload n tag = (ATT1_OK, Some f')
    \<and> length (fab_content f' (unat t)) = f_cap f' + 1
    \<and> hd (fab_content f' (unat t)) = sent_msg source t ty payload n tag"
proof -
  have i: "fab_inv f" using fab_reachable_inv [OF assms(1)] by blast
  have cap: "0 < f_cap f" by (rule fab_inv_bounds(2) [OF i])
  have po: "payload_ok f payload n" using payload_valid_ok assms(5,6) by blast
  let ?f1 = "att1_fabric_enqueue f source t ty payload n tag"
  let ?f2 = "att1_fabric_enqueue ?f1 source t ty payload n tag"
  let ?m = "sent_msg source t ty payload n tag"
  have room: "fq_count (f_queues f ! unat t) < f_cap f" using assms(7) cap by simp
  have i1: "fab_inv ?f1" by (rule fab_inv_enqueue [OF i assms(3) po room assms(2)])
  have "length (fab_content ?f1 (unat t)) = f_cap f"
    unfolding fab_content_enqueue [OF i assms(3) po room assms(3)] using assms(7) cap by simp
  then have full: "fq_count (f_queues ?f1 ! unat t) = f_cap f" by simp
  have t1: "unat t < f_tiles ?f1" and po1: "payload_ok ?f1 payload n"
    using assms(3) po by (simp_all add: payload_ok_def)
  let ?h = "fq_head (f_queues ?f1 ! unat t)"
  have h: "?h < f_cap f" using fab_inv_queue(2) [OF i1 t1] by simp
  have sl: "fab_slots ?f2 (unat t) = (fab_slots ?f1 (unat t))[?h := ?m]"
    using fab_slots_enqueue [OF i1 t1 po1 t1, of source ty tag] full h by simp
  have "length (f_queues ?f1) = f_tiles f" using i1 by (simp add: fab_inv_def)
  then have q2: "fq_count (f_queues ?f2 ! unat t) = f_cap f + 1" "fq_head (f_queues ?f2 ! unat t) = ?h"
    using assms(3) full unfolding att1_fabric_enqueue_def [of ?f1] Let_def by simp_all
  have "hd (fab_content ?f2 (unat t)) = fab_slots ?f2 (unat t) ! ?h"
    using q2 h ring_content_pop [of "f_cap f + 1" "fab_slots ?f2 (unat t)" ?h]
    by (simp add: fab_content_def)
  also have "\<dots> = ?m" using h unfolding sl by simp
  finally have hd: "hd (fab_content ?f2 (unat t)) = ?m" .
  have "preflight f source [t, t] = ATT1_OK"
    using assms(3) room by (simp add: att1_fabric_valid_tile_def att1_fabric_queue_has_room_def)
  then have "fabric_broadcast source (Some [t, t]) 2 ty payload n tag f
      = (ATT1_OK, upd_fk (\<lambda>c. c\<lparr>fk_broadcast_packets := fk_broadcast_packets c + 2\<rparr>) ?f2)"
    using assms(2,4,5) by (simp add: fabric_broadcast_def att1_fabric_valid_tile_def Let_def)
  then show ?thesis
    using fab_inv_bounds(6) [OF i] hd q2(1)
    by (simp add: att1_fabric_broadcast_def with_fabric_def)
qed

theorem fabric_broadcast_duplicate_overflow_witness:
  "\<exists>f f'. fab_reachable f \<and> att1_fabric_broadcast (Some f) 0 (Some [1, 1]) 2 PACKET_CONTROL None 0 9 = (ATT1_OK, Some f')
     \<and> length (fab_content f' 1) = 3 \<and> f_cap f' = 2"
proof -
  obtain st f where s: "att1_fabric_send (Some demo_f0) 0 1 PACKET_LOGITS (Some [7]) 1 5 = (st, Some f)"
    using fabric_send_live [OF demo_f0_facts(2)] by (metis surj_pair)
  have b: "buffer_ok (Some [7 :: u8]) 1" by (simp add: buffer_ok_def)
  have r: "fab_reachable f" by (rule fab_reachable.send [OF demo_f0_facts(1) b s])
  have c: "fab_content f 1 = [sent_msg 0 1 PACKET_LOGITS (Some [7]) 1 5]"
  proof -
    have e: "f = att1_fabric_enqueue demo_f0 0 1 PACKET_LOGITS (Some [7]) 1 5"
      using s fabric_send_live [OF demo_f0_facts(2)] demo_f0_facts(3) fab_content_eq_Nil [of demo_f0 1] demo_f0_facts(5) [of 1]
      by (simp add: fabric_send_def att1_fabric_valid_tile_def att1_fabric_payload_valid_def
          att1_fabric_queue_has_room_def demo_fcfg_def)
    have "fq_count (f_queues demo_f0 ! unat (1 :: u32)) < f_cap demo_f0"
      using fab_content_eq_Nil [of demo_f0 1] demo_f0_facts(3) demo_f0_facts(5) [of 1] by (simp add: demo_fcfg_def)
    moreover have "payload_ok demo_f0 (Some [7]) 1" "unat (1 :: u32) < f_tiles demo_f0"
      using demo_f0_facts(3) by (simp_all add: payload_ok_def demo_fcfg_def)
    ultimately show ?thesis
      using fab_content_enqueue [OF demo_f0_facts(2), of 1 "Some [7]" 1 1 0 PACKET_LOGITS 5] demo_f0_facts(5) [of 1]
      unfolding e by simp
  qed
  have cfg: "f_config f = demo_fcfg"
    using s fabric_send_live [OF demo_f0_facts(2)] demo_f0_facts(3)
    by (auto simp: fabric_send_def att1_fabric_count_invalid_def count_queue_full_def split: if_splits)
  have pv: "att1_fabric_payload_valid f None 0" by (simp add: att1_fabric_payload_valid_def)
  have "unat (0 :: u32) < f_tiles f" "unat (1 :: u32) < f_tiles f" "(1 :: u32) \<noteq> 0"
    "length (fab_content f (unat (1 :: u32))) = f_cap f - 1"
    using c cfg by (simp_all add: demo_fcfg_def)
  from fabric_broadcast_duplicate_overflow [OF r this(1-3) pv _ this(4), of PACKET_CONTROL 9]
  obtain f' where f': "att1_fabric_broadcast (Some f) 0 (Some [1, 1]) 2 PACKET_CONTROL None 0 9 = (ATT1_OK, Some f')"
    "length (fab_content f' 1) = f_cap f' + 1"
    by (auto simp: buffer_ok_def)
  have "f_config f' = demo_fcfg"
    using f'(1) fab_inv_bounds(6) [of f] fab_reachable_inv [OF r] cfg
    by (auto simp: att1_fabric_broadcast_def with_fabric_def fabric_broadcast_def Let_def
        att1_fabric_count_invalid_def count_queue_full_def split: prod.splits if_splits att1_status.splits)
  with f' r show ?thesis by (auto simp: demo_fcfg_def)
qed

section \<open>The barrier\<close>

lemma barrier_arrive_live:
  assumes "fab_inv f" "barrier_inv f"
  shows "att1_fabric_barrier_arrive True (Some f) t ps pc = (st, fp', complete) \<longleftrightarrow>
    (\<exists>f'. fp' = Some f' \<and> fabric_barrier_arrive True f t ps pc = (st, f', complete))"
proof -
  have "f_barrier_expected f \<noteq> []" "f_barrier_arrived f \<noteq> []"
    using assms fab_inv_bounds(1) [OF assms(1)] by (auto simp: barrier_inv_def)
  then show ?thesis by (auto simp: att1_fabric_barrier_arrive_def split: prod.splits)
qed

lemma barrier_step:
  assumes "fab_reachable f" "buffer_ok ps pc" "unat t < f_tiles f"
    and "att1_fabric_barrier_arrive True (Some f) t ps pc = (st, Some f', complete)"
  shows "(st, barrier_abs f', complete) = abs_arrive (unat t) (participant_set (f_tiles f) ps pc) (barrier_abs f)"
    "fab_reachable f'" "f_config f' = f_config f"
proof -
  have i: "fab_inv f" "barrier_inv f" using fab_reachable_inv [OF assms(1)] by blast+
  have a: "fabric_barrier_arrive True f t ps pc = (st, f', complete)"
    using assms(4) barrier_arrive_live [OF i] by simp
  have l: "case ps of None \<Rightarrow> True | Some l \<Rightarrow> pc \<le> length l" using assms(2) by (simp add: buffer_ok_def)
  note r = barrier_arrive_refines [OF i(2) assms(3) l a]
  show "(st, barrier_abs f', complete) = abs_arrive (unat t) (participant_set (f_tiles f) ps pc) (barrier_abs f)"
    "f_config f' = f_config f" by (rule r(1), rule r(3))
  show "fab_reachable f'" by (rule fab_reachable.barrier [OF assms(1,2,4)])
qed

text \<open>One generation: the tiles of \<open>ts\<close> arrive in this order, each naming the participants \<open>ps\<close>.\<close>

fun barrier_arrivals ::
  "u32 list \<Rightarrow> u32 list \<Rightarrow> att1_fabric \<Rightarrow> (att1_status \<times> bool) list \<times> att1_fabric" where
  "barrier_arrivals [] ps f = ([], f)"
| "barrier_arrivals (t # ts) ps f =
     (let (st, fp', complete) = att1_fabric_barrier_arrive True (Some f) t (Some ps) (length ps);
          (rs, f'') = barrier_arrivals ts ps (the fp')
      in ((st, complete) # rs, f''))"

lemma barrier_arrivals_abs:
  assumes "fab_reachable f" "\<forall>t \<in> set ts. unat t < f_tiles f"
    and "barrier_arrivals ts ps f = (rs, f')"
  shows "(rs, barrier_abs f') = abs_arrivals (map unat ts) (participant_set (f_tiles f) (Some ps) (length ps)) (barrier_abs f)
    \<and> fab_reachable f' \<and> f_config f' = f_config f"
  using assms
proof (induction ts arbitrary: f rs)
  case Nil
  then show ?case by simp
next
  case (Cons t ts)
  have i: "fab_inv f" "barrier_inv f" using fab_reachable_inv [OF Cons.prems(1)] by blast+
  obtain st f1 c where a: "att1_fabric_barrier_arrive True (Some f) t (Some ps) (length ps) = (st, Some f1, c)"
    using barrier_arrive_live [OF i] by (metis surj_pair)
  obtain rs' where r: "barrier_arrivals ts ps f1 = (rs', f')" "rs = (st, c) # rs'"
    using Cons.prems(3) a by (auto split: prod.splits)
  have b: "buffer_ok (Some ps) (length ps)" by (simp add: buffer_ok_def)
  have t: "unat t < f_tiles f" using Cons.prems(2) by simp
  note s = barrier_step [OF Cons.prems(1) b t a]
  have "\<forall>t \<in> set ts. unat t < f_tiles f1" using Cons.prems(2) s(3) by simp
  from Cons.IH [OF s(2) this r(1)] s r(2) show ?case
    by (auto split: prod.splits simp flip: s(1))
qed

text \<open>
  C29. An arrival at the barrier is one step of the abstract barrier: its state is the open
  generation (the expected and the arrived tiles) or none; arrivals with another participant
  set, from outsiders and repeated arrivals are refused without a change of an open
  generation, and the arrival that completes the set closes the generation.
\<close>

theorem fabric_barrier_refines:
  assumes "fab_reachable f" "buffer_ok ps pc" "unat t < f_tiles f"
    and "att1_fabric_barrier_arrive True (Some f) t ps pc = (st, Some f', complete)"
  shows "(st, barrier_abs f', complete) = abs_arrive (unat t) (participant_set (f_tiles f) ps pc) (barrier_abs f)"
  by (rule barrier_step(1) [OF assms])

lemma demo_barrier_abs: "barrier_abs demo_f0 = None"
  using demo_f0_facts(6) by (simp add: barrier_abs_def)

theorem fabric_barrier_refines_witness:
  "\<exists>f'. att1_fabric_barrier_arrive True (Some demo_f0) 1 (Some [0, 1]) 2 = (ATT1_OK, Some f', False)
     \<and> barrier_abs f' = Some ({0, 1}, {1})"
proof -
  have i: "fab_inv demo_f0" "barrier_inv demo_f0" using demo_f0_facts by simp_all
  obtain st f' c where a: "att1_fabric_barrier_arrive True (Some demo_f0) 1 (Some [0, 1]) 2 = (st, Some f', c)"
    using barrier_arrive_live [OF i] by (metis surj_pair)
  have b: "buffer_ok (Some [0, 1 :: u32]) 2" "unat (1 :: u32) < f_tiles demo_f0"
    using demo_f0_facts(4) by (simp_all add: buffer_ok_def)
  have p: "participant_set (f_tiles demo_f0) (Some [0, 1]) 2 = Some {0, 1}"
    using demo_f0_facts(4) by (simp add: participant_set_def)
  have "(st, barrier_abs f', c) = (ATT1_OK, Some ({0, 1}, {1}), False)"
    using fabric_barrier_refines [OF demo_f0_facts(1) b a] unfolding p demo_barrier_abs
    by (simp add: abs_arrive_def)
  with a show ?thesis by simp
qed

text \<open>
  Liveness of a generation: when no generation is open and the participants arrive once
  each, in any order, every arrival is accepted, exactly the last one reports completion, and
  the barrier is closed again.
\<close>

theorem fabric_barrier_generation:
  assumes "fab_reachable f" "\<not> f_barrier_active f" "distinct ps" "ps \<noteq> []"
    and "\<forall>t \<in> set ps. unat t < f_tiles f" "distinct ts" "set ts = set ps"
    and "barrier_arrivals ts ps f = (rs, f')"
  shows "rs = replicate (length ps - 1) (ATT1_OK, False) @ [(ATT1_OK, True)] \<and> \<not> f_barrier_active f'"
proof -
  have f: "f_config f = f_config f" "barrier_abs f = None" using assms(2) by (simp_all add: barrier_abs_def)
  have len: "length ps \<le> f_tiles f"
  proof -
    have "length ps = card (unat ` set ps)"
      using distinct_card [OF assms(3)] by (simp add: card_image inj_on_def word_unat_eq_iff)
    also have "\<dots> \<le> card {..<f_tiles f}" using assms(5) by (intro card_mono) auto
    finally show ?thesis by simp
  qed
  have p: "participant_set (f_tiles f) (Some ps) (length ps) = Some (set (map unat ts))"
    using assms len by (simp add: participant_set_def)
  have "distinct (map unat ts)" using assms(6) by (simp add: distinct_map inj_on_def word_unat_eq_iff)
  moreover have "ts \<noteq> []" using assms(4,7) by auto
  moreover have "length ts = length ps" using assms(3,6,7) by (metis distinct_card)
  moreover have "\<forall>t \<in> set ts. unat t < f_tiles f" using assms(5,7) by simp
  ultimately show ?thesis
    using barrier_arrivals_abs [OF assms(1) _ assms(8)] abs_generation [of "map unat ts"] p f
    by (simp add: generation_results_def barrier_abs_def [of f'] split: if_splits)
qed

theorem fabric_barrier_generation_witness:
  "\<exists>f'. barrier_arrivals [2, 0, 1] [0, 1, 2] demo_f0
     = ([(ATT1_OK, False), (ATT1_OK, False), (ATT1_OK, True)], f') \<and> \<not> f_barrier_active f'"
proof -
  obtain rs f' where r: "barrier_arrivals [2, 0, 1] [0, 1, 2] demo_f0 = (rs, f')" by force
  have "\<forall>t \<in> set [0, 1, 2 :: u32]. unat t < f_tiles demo_f0" "set [2, 0, 1 :: u32] = set [0, 1, 2]"
    using demo_f0_facts(4) by auto
  from fabric_barrier_generation [OF demo_f0_facts(1,6) _ _ this(1) _ this(2) r]
  have "rs = [(ATT1_OK, False), (ATT1_OK, False), (ATT1_OK, True)] \<and> \<not> f_barrier_active f'"
    by (simp add: numeral_2_eq_2)
  then show ?thesis using r by simp
qed

text \<open>
  An arrival by a tile that is not in the participant set it names is rejected, but it
  opens the generation all the same: the next arrival that names another set is refused too,
  and the barrier stays open for the rejected set.
\<close>

theorem fabric_barrier_outsider_opens:
  assumes "fab_reachable f" "\<not> f_barrier_active f" "buffer_ok ps pc" "unat t < f_tiles f"
    and "participant_set (f_tiles f) ps pc = Some S" "unat t \<notin> S"
    and "buffer_ok ps' pc'" "unat t' < f_tiles f" "participant_set (f_tiles f) ps' pc' = Some S'" "S' \<noteq> S"
    and "att1_fabric_barrier_arrive True (Some f) t ps pc = (st, Some f', c)"
    and "att1_fabric_barrier_arrive True (Some f') t' ps' pc' = (st', Some f'', c')"
  shows "st = ATT1_ERR_INVALID_ARG \<and> f_barrier_active f' \<and> st' = ATT1_ERR_INVALID_ARG \<and> f_barrier_active f''
    \<and> true_set (f_barrier_expected f'') = S \<and> true_set (f_barrier_arrived f'') = {}"
proof -
  have n: "barrier_abs f = None" using assms(2) by (simp add: barrier_abs_def)
  note s = barrier_step [OF assms(1,3,4,11), unfolded n assms(5)]
  have 1: "st = ATT1_ERR_INVALID_ARG" "barrier_abs f' = Some (S, {})"
    using s(1) assms(6) by (simp_all add: abs_arrive_def)
  have t': "unat t' < f_tiles f'" using assms(8) s(3) by simp
  note s' = barrier_step [OF s(2) assms(7) t' assms(12), unfolded 1(2) s(3) assms(9)]
  have 2: "st' = ATT1_ERR_INVALID_ARG" "barrier_abs f'' = Some (S, {})"
    using s'(1) assms(10) by (simp_all add: abs_arrive_def)
  show ?thesis using 1 2 by (simp add: barrier_abs_def split: if_splits)
qed

theorem fabric_barrier_outsider_opens_witness:
  "\<exists>f' f''. att1_fabric_barrier_arrive True (Some demo_f0) 2 (Some [0, 1]) 2 = (ATT1_ERR_INVALID_ARG, Some f', False)
     \<and> att1_fabric_barrier_arrive True (Some f') 0 (Some [0, 2]) 2 = (ATT1_ERR_INVALID_ARG, Some f'', False)
     \<and> f_barrier_active f''"
proof -
  have i: "fab_inv demo_f0" "barrier_inv demo_f0" using demo_f0_facts by simp_all
  obtain st f' c where a: "att1_fabric_barrier_arrive True (Some demo_f0) 2 (Some [0, 1]) 2 = (st, Some f', c)"
    using barrier_arrive_live [OF i] by (metis surj_pair)
  have b: "buffer_ok (Some [0, 1 :: u32]) 2" "buffer_ok (Some [0, 2 :: u32]) 2"
    "unat (2 :: u32) < f_tiles demo_f0" "unat (0 :: u32) < f_tiles demo_f0"
    using demo_f0_facts(4) by (simp_all add: buffer_ok_def)
  have p: "participant_set (f_tiles demo_f0) (Some [0, 1]) 2 = Some {0, 1}"
    "participant_set (f_tiles demo_f0) (Some [0, 2]) 2 = Some {0, 2}"
    using demo_f0_facts(4) by (simp_all add: participant_set_def)
  note s = barrier_step [OF demo_f0_facts(1) b(1,3) a]
  have c: "\<not> c" using s(1) unfolding p demo_barrier_abs by (simp add: abs_arrive_def split: if_splits)
  have i': "fab_inv f'" "barrier_inv f'" using fab_reachable_inv [OF s(2)] by blast+
  obtain st' f'' c' where a': "att1_fabric_barrier_arrive True (Some f') 0 (Some [0, 2]) 2 = (st', Some f'', c')"
    using barrier_arrive_live [OF i'] by (metis surj_pair)
  have nin: "unat (2 :: u32) \<notin> {0, 1}" by simp
  have "(2 :: nat) \<in> {0, 2}" "(2 :: nat) \<notin> {0, 1}" by simp_all
  then have ne: "{0, 2 :: nat} \<noteq> {0, 1}" by metis
  note w = fabric_barrier_outsider_opens [OF demo_f0_facts(1,6) b(1,3) p(1) nin b(2,4) p(2) ne a a']
  have c': "\<not> c'"
  proof -
    have ab: "barrier_abs f' = Some ({0, 1}, {})"
      using s(1) unfolding p demo_barrier_abs by (simp add: abs_arrive_def split: if_splits)
    have t: "unat (0 :: u32) < f_tiles f'" using b(4) s(3) by simp
    from barrier_step(1) [OF s(2) b(2) t a'] show ?thesis
      unfolding s(3) p ab using ne by (simp add: abs_arrive_def)
  qed
  show ?thesis using a a' w c c' by simp
qed

section \<open>Polling\<close>

lemma receive_loop_empty:
  assumes "fab_inv f" "unat t < f_tiles f" "fab_content f (unat t) = []"
  shows "receive_loop n (Some f) t True ook c = (ATT1_ERR_TIMEOUT,
    Some (upd_fk (\<lambda>k. k\<lparr>fk_empty_receives := fk_empty_receives k + word_of_nat n\<rparr>) f), None)"
  using assms
proof (induction n arbitrary: f)
  case 0
  then show ?case by simp
next
  case (Suc n)
  let ?g = "upd_fk (\<lambda>k. k\<lparr>fk_empty_receives := fk_empty_receives k + 1\<rparr>) f"
  have "att1_fabric_receive (Some f) t True ook c = (ATT1_ERR_QUEUE_EMPTY, Some ?g, None)"
    using fabric_receive_empty [OF Suc.prems(2,3)] fab_inv_bounds(6) [OF Suc.prems(1)]
    by (simp add: att1_fabric_receive_def)
  moreover have "fab_inv ?g" "fab_content ?g (unat t) = []" using Suc.prems by simp_all
  ultimately show ?case using Suc.IH [of ?g] Suc.prems(2) by (simp add: add.assoc)
qed

text \<open>
  Receiving with a timeout: on an empty queue the call polls \<open>n + 1\<close> times, counts that many
  empty receives, changes nothing else and reports the timeout; otherwise it is one receive.
\<close>

theorem fabric_receive_timeout_spec:
  assumes "fab_reachable f" "unat t < f_tiles f"
  shows "att1_fabric_receive_timeout (Some f) t True ook c n =
    (if fab_content f (unat t) = []
     then (ATT1_ERR_TIMEOUT,
       Some (upd_fk (\<lambda>k. k\<lparr>fk_empty_receives := fk_empty_receives k + word_of_nat (n + 1)\<rparr>) f), None)
     else att1_fabric_receive (Some f) t True ook c)"
proof -
  have i: "fab_inv f" using fab_reachable_inv [OF assms(1)] by blast
  show ?thesis
  proof (cases "fab_content f (unat t) = []")
    case True
    then show ?thesis
      using receive_loop_empty [OF i assms(2) True, of "n + 1"] by (simp add: att1_fabric_receive_timeout_def)
  next
    case False
    then have "fst (fabric_receive f t ook c) \<noteq> ATT1_ERR_QUEUE_EMPTY"
      by (simp add: fabric_receive_def Let_def fab_content_eq_Nil)
    then show ?thesis
      using False fab_inv_bounds(6) [OF i]
      by (auto simp: att1_fabric_receive_timeout_def att1_fabric_receive_def split: prod.splits)
  qed
qed

theorem fabric_receive_timeout_spec_witness:
  "\<exists>f'. att1_fabric_receive_timeout (Some demo_f0) 1 True True 4 9 = (ATT1_ERR_TIMEOUT, Some f', None)
     \<and> fk_empty_receives (f_counters f') = fk_empty_receives (f_counters demo_f0) + 10"
proof -
  have "unat (1 :: u32) < f_tiles demo_f0" using demo_f0_facts(4) by simp
  from fabric_receive_timeout_spec [OF demo_f0_facts(1) this, of True 4 9] demo_f0_facts(5) [of 1]
  show ?thesis by simp
qed

end
