(* ===== verification/Kv_Store.thy ===== *)
theory Kv_Store
  imports Att_Prelude
begin

text \<open>
  The contract the two key/value stores of the program share: an append-only sequence of
  vector pairs with a capacity, read back one head at a time. The paged store and the local
  cache are instances; what a client observes is derived here once.
\<close>

type_synonym f32 = u32
type_synonym kv_pair = "f32 list \<times> f32 list"

definition head_of :: "nat \<Rightarrow> nat \<Rightarrow> kv_pair \<Rightarrow> kv_pair" where
  "head_of dim h e = (read_bytes (h * dim) dim (fst e), read_bytes (h * dim) dim (snd e))"

text \<open>A run of appends: what each one answered, and the state after the last.\<close>

fun append_all ::
  "(f32 list \<Rightarrow> f32 list \<Rightarrow> 's \<Rightarrow> bool \<times> 's) \<Rightarrow> kv_pair list \<Rightarrow> 's \<Rightarrow> bool list \<times> 's" where
  "append_all append_op [] s = ([], s)"
| "append_all append_op ((k, v) # ps) s =
     (let (ok, s') = append_op k v s; (oks, s'') = append_all append_op ps s' in (ok # oks, s''))"

locale kv_store =
  fixes inv :: "'s \<Rightarrow> bool"
    and heads :: "'s \<Rightarrow> nat"
    and dim :: "'s \<Rightarrow> nat"
    and capacity :: "'s \<Rightarrow> nat"
    and content :: "'s \<Rightarrow> kv_pair list"
    and append_op :: "f32 list \<Rightarrow> f32 list \<Rightarrow> 's \<Rightarrow> bool \<times> 's"
    and read_op :: "'s \<Rightarrow> nat \<Rightarrow> nat \<Rightarrow> kv_pair option"
  assumes append_law:
      "inv s \<Longrightarrow> heads s * dim s \<le> length k \<Longrightarrow> heads s * dim s \<le> length v \<Longrightarrow> append_op k v s = (ok, s') \<Longrightarrow>
       inv s' \<and> heads s' = heads s \<and> dim s' = dim s \<and> capacity s' = capacity s
       \<and> (ok \<longleftrightarrow> length (content s) < capacity s)
       \<and> content s' = (if ok then content s @ [(take (heads s * dim s) k, take (heads s * dim s) v)] else content s)"
    and read_law:
      "inv s \<Longrightarrow> h < heads s \<Longrightarrow> p < capacity s \<Longrightarrow>
       read_op s p h = (if p < length (content s) then Some (head_of (dim s) h (content s ! p)) else None)"
begin

text \<open>The first pairs that fit are stored, in order, and the rest is refused.\<close>

lemma append_all_content:
  assumes "inv s" "\<forall>(k, v) \<in> set ps. length k = heads s * dim s \<and> length v = heads s * dim s"
    and "append_all append_op ps s = (oks, s')" "length (content s) \<le> capacity s"
  shows "inv s' \<and> heads s' = heads s \<and> dim s' = dim s \<and> capacity s' = capacity s
    \<and> content s' = take (capacity s) (content s @ ps)
    \<and> oks = map (\<lambda>i. length (content s) + i < capacity s) [0..<length ps]"
  using assms
proof (induction ps arbitrary: s oks)
  case Nil
  then show ?case by simp
next
  case (Cons e ps)
  obtain k v where e: "e = (k, v)" by force
  obtain ok s1 where a: "append_op k v s = (ok, s1)" by force
  obtain oks1 where r: "append_all append_op ps s1 = (oks1, s')" "oks = ok # oks1"
    using Cons.prems(3) e a by (auto split: prod.splits)
  have lens: "length k = heads s * dim s" "length v = heads s * dim s" using Cons.prems(2) e by auto
  then have "heads s * dim s \<le> length k" "heads s * dim s \<le> length v" by simp_all
  note l = append_law [OF Cons.prems(1) this a]
  have "\<forall>(k, v) \<in> set ps. length k = heads s1 * dim s1 \<and> length v = heads s1 * dim s1"
    using Cons.prems(2) l by simp
  moreover have "length (content s1) \<le> capacity s1" using l Cons.prems(4) by auto
  ultimately have IH: "inv s' \<and> heads s' = heads s1 \<and> dim s' = dim s1 \<and> capacity s' = capacity s1
    \<and> content s' = take (capacity s1) (content s1 @ ps)
    \<and> oks1 = map (\<lambda>i. length (content s1) + i < capacity s1) [0..<length ps]"
    using Cons.IH [of s1 oks1] l r(1) by blast
  have up: "[0..<length (e # ps)] = 0 # map Suc [0..<length ps]"
    by (simp add: map_Suc_upt upt_conv_Cons del: upt_Suc)
  show ?case
  proof (cases ok)
    case True
    then show ?thesis using IH l r(2) e lens unfolding up by (simp add: comp_def)
  next
    case False
    then have "length (content s) = capacity s" using l Cons.prems(4) by auto
    then show ?thesis using IH l r(2) False unfolding up by (simp add: comp_def)
  qed
qed

text \<open>What a reader sees after the appends depends on the pairs only.\<close>

lemma read_after_append_all:
  assumes "inv s" "content s = []" "\<forall>(k, v) \<in> set ps. length k = heads s * dim s \<and> length v = heads s * dim s"
    and "append_all append_op ps s = (oks, s')" "h < heads s" "p < capacity s"
  shows "read_op s' p h = (if p < length ps then Some (head_of (dim s) h (ps ! p)) else None)
    \<and> oks = map (\<lambda>i. i < capacity s) [0..<length ps]"
proof -
  have a: "inv s' \<and> heads s' = heads s \<and> dim s' = dim s \<and> capacity s' = capacity s
    \<and> content s' = take (capacity s) ps \<and> oks = map (\<lambda>i. i < capacity s) [0..<length ps]"
    using append_all_content [OF assms(1,3,4)] assms(2) by simp
  then show ?thesis using read_law [of s' h p] assms(5,6) by simp
qed

end

end
