(* ===== verification/Kv_Mmu.thy ===== *)
theory Kv_Mmu
  imports Kv_Store
begin

text \<open>
  The paged KV-MMU (\<^verbatim>\<open>src/kv_mmu.c\<close>): sessions, a page table searched linearly, key and value
  vectors stored per page as [token][head][dimension]. Sizes and positions (\<^verbatim>\<open>size_t\<close>) are
  natural numbers below \<open>2 ^ 64\<close>, with the one sum that can wrap written with \<^verbatim>\<open>mod\<close>; session
  numbers and the statistics counters are 64-bit words. A \<^verbatim>\<open>float\<close> is its 32-bit pattern: the
  code only copies it. A handle is an option (\<^verbatim>\<open>NULL\<close> is \<^term>\<open>None\<close>); the arrays of a handle
  that creation returned are never \<^verbatim>\<open>NULL\<close>, an empty list stands for a missing array.
\<close>

section \<open>State\<close>

record att1_kv_mmu_config =
  kc_max_sessions :: nat
  kc_max_pages :: nat
  kc_num_layers :: nat
  kc_num_heads :: nat
  kc_head_dim :: nat
  kc_page_tokens :: nat
  kc_max_positions :: nat

record att1_kv_mmu_counters =
  kk_page_hits :: u64
  kk_page_misses :: u64
  kk_page_allocations :: u64
  kk_append_ops :: u64
  kk_read_ops :: u64
  kk_range_copy_ops :: u64
  kk_errors :: u64

record att1_kv_mmu_page_ref =
  pr_physical_page :: u64
  pr_session_id :: u64
  pr_layer_id :: nat
  pr_logical_page :: nat
  pr_page_tokens :: nat

record att1_kv_mmu_session =
  ks_session_id :: u64
  ks_active :: bool

record att1_kv_mmu_page =
  kp_physical_page :: u64
  kp_session_id :: u64
  kp_layer_id :: nat
  kp_logical_page :: nat
  kp_active :: bool
  kp_token_present :: "bool list"
  kp_keys :: "f32 list"
  kp_values :: "f32 list"

record att1_kv_mmu =
  km_config :: att1_kv_mmu_config
  km_counters :: att1_kv_mmu_counters
  km_sessions :: "att1_kv_mmu_session list"
  km_pages :: "att1_kv_mmu_page list"

definition zero_kv_counters :: att1_kv_mmu_counters where
  "zero_kv_counters = \<lparr>kk_page_hits = 0, kk_page_misses = 0, kk_page_allocations = 0,
     kk_append_ops = 0, kk_read_ops = 0, kk_range_copy_ops = 0, kk_errors = 0\<rparr>"

definition zero_session :: att1_kv_mmu_session where
  "zero_session = \<lparr>ks_session_id = 0, ks_active = False\<rparr>"

definition zero_page :: att1_kv_mmu_page where
  "zero_page = \<lparr>kp_physical_page = 0, kp_session_id = 0, kp_layer_id = 0, kp_logical_page = 0,
     kp_active = False, kp_token_present = [], kp_keys = [], kp_values = []\<rparr>"

definition zero_page_ref :: att1_kv_mmu_page_ref where
  "zero_page_ref = \<lparr>pr_physical_page = 0, pr_session_id = 0, pr_layer_id = 0, pr_logical_page = 0,
     pr_page_tokens = 0\<rparr>"

abbreviation km_pt :: "att1_kv_mmu \<Rightarrow> nat" where "km_pt m \<equiv> kc_page_tokens (km_config m)"
abbreviation km_heads :: "att1_kv_mmu \<Rightarrow> nat" where "km_heads m \<equiv> kc_num_heads (km_config m)"
abbreviation km_dim :: "att1_kv_mmu \<Rightarrow> nat" where "km_dim m \<equiv> kc_head_dim (km_config m)"
abbreviation km_layers :: "att1_kv_mmu \<Rightarrow> nat" where "km_layers m \<equiv> kc_num_layers (km_config m)"
abbreviation km_max_positions :: "att1_kv_mmu \<Rightarrow> nat" where
  "km_max_positions m \<equiv> kc_max_positions (km_config m)"

abbreviation upd_kk :: "(att1_kv_mmu_counters \<Rightarrow> att1_kv_mmu_counters) \<Rightarrow> att1_kv_mmu \<Rightarrow> att1_kv_mmu" where
  "upd_kk g m \<equiv> m\<lparr>km_counters := g (km_counters m)\<rparr>"

definition att1_kv_mmu_error :: "att1_kv_mmu \<Rightarrow> att1_kv_mmu" where
  "att1_kv_mmu_error = upd_kk (\<lambda>k. k\<lparr>kk_errors := kk_errors k + 1\<rparr>)"

section \<open>Helpers\<close>

definition att1_kv_mmu_config_valid :: "att1_kv_mmu_config option \<Rightarrow> bool" where
  "att1_kv_mmu_config_valid cp =
     (case cp of
        None \<Rightarrow> False
      | Some c \<Rightarrow>
        (if kc_max_sessions c = 0 \<or> kc_max_pages c = 0 \<or> kc_num_layers c = 0 \<or> kc_num_heads c = 0
            \<or> kc_head_dim c = 0 \<or> kc_page_tokens c = 0 \<or> kc_max_positions c = 0
         then False
         else (case att1_mul_size (kc_num_heads c) (kc_head_dim c) of
                 None \<Rightarrow> False
               | Some heads_dims \<Rightarrow>
                 (case att1_mul_size (kc_page_tokens c) heads_dims of
                    None \<Rightarrow> False
                  | Some page_elements \<Rightarrow>
                    (case att1_mul_size (kc_max_pages c) (kc_page_tokens c) of
                       None \<Rightarrow> False
                     | Some capacity_positions \<Rightarrow>
                         if capacity_positions < kc_max_positions c then False
                         else 0 < page_elements)))))"

definition att1_kv_mmu_page_elements :: "att1_kv_mmu \<Rightarrow> nat" where
  "att1_kv_mmu_page_elements m = km_pt m * km_heads m * km_dim m"

definition att1_kv_mmu_position_offset :: "att1_kv_mmu \<Rightarrow> nat \<Rightarrow> nat \<Rightarrow> nat" where
  "att1_kv_mmu_position_offset m token_in_page head_id = (token_in_page * km_heads m + head_id) * km_dim m"

text \<open>The two searches return the index of the entry the code returns a pointer to.\<close>

definition att1_kv_mmu_find_session :: "att1_kv_mmu \<Rightarrow> u64 \<Rightarrow> nat option" where
  "att1_kv_mmu_find_session m session_id =
     first_index (\<lambda>s. ks_active s \<and> ks_session_id s = session_id) (km_sessions m)"

definition page_matches :: "u64 \<Rightarrow> nat \<Rightarrow> nat \<Rightarrow> att1_kv_mmu_page \<Rightarrow> bool" where
  "page_matches session_id layer_id logical_page p \<longleftrightarrow>
     kp_active p \<and> kp_session_id p = session_id \<and> kp_layer_id p = layer_id \<and> kp_logical_page p = logical_page"

definition att1_kv_mmu_find_page :: "att1_kv_mmu \<Rightarrow> u64 \<Rightarrow> nat \<Rightarrow> nat \<Rightarrow> nat option" where
  "att1_kv_mmu_find_page m session_id layer_id logical_page =
     first_index (page_matches session_id layer_id logical_page) (km_pages m)"

definition att1_kv_mmu_release_page :: "att1_kv_mmu_page \<Rightarrow> att1_kv_mmu_page" where
  "att1_kv_mmu_release_page p = zero_page\<lparr>kp_physical_page := kp_physical_page p\<rparr>"

text \<open>\<open>alloc i\<close>: the i-th \<^verbatim>\<open>calloc\<close> of the call succeeds.\<close>

definition att1_kv_mmu_alloc_page ::
  "(nat \<Rightarrow> bool) \<Rightarrow> att1_kv_mmu \<Rightarrow> u64 \<Rightarrow> nat \<Rightarrow> nat \<Rightarrow> nat option \<times> att1_kv_mmu" where
  "att1_kv_mmu_alloc_page alloc m session_id layer_id logical_page =
     (case first_index (\<lambda>p. \<not> kp_active p) (km_pages m) of
        None \<Rightarrow> (None, m)
      | Some i \<Rightarrow>
        (let page = km_pages m ! i; page_elements = att1_kv_mmu_page_elements m
         in if \<not> alloc 0 \<or> \<not> alloc 1 \<or> \<not> alloc 2
            then (None, m\<lparr>km_pages := (km_pages m)[i := att1_kv_mmu_release_page page]\<rparr>)
            else (Some i,
                  upd_kk (\<lambda>k. k\<lparr>kk_page_allocations := kk_page_allocations k + 1\<rparr>)
                    (m\<lparr>km_pages := (km_pages m)[i := page
                       \<lparr>kp_token_present := replicate (km_pt m) False,
                        kp_keys := replicate page_elements 0, kp_values := replicate page_elements 0,
                        kp_session_id := session_id, kp_layer_id := layer_id,
                        kp_logical_page := logical_page, kp_active := True\<rparr>]\<rparr>))))"

definition att1_kv_mmu_lookup_existing ::
  "att1_kv_mmu \<Rightarrow> u64 \<Rightarrow> nat \<Rightarrow> nat \<Rightarrow> nat option \<times> att1_kv_mmu" where
  "att1_kv_mmu_lookup_existing m session_id layer_id position =
     (case att1_kv_mmu_find_page m session_id layer_id (position div km_pt m) of
        None \<Rightarrow> (None, upd_kk (\<lambda>k. k\<lparr>kk_page_misses := kk_page_misses k + 1\<rparr>) m)
      | Some i \<Rightarrow> (Some i, upd_kk (\<lambda>k. k\<lparr>kk_page_hits := kk_page_hits k + 1\<rparr>) m))"

definition att1_kv_mmu_token_present :: "att1_kv_mmu \<Rightarrow> u64 \<Rightarrow> nat \<Rightarrow> nat \<Rightarrow> bool" where
  "att1_kv_mmu_token_present m session_id layer_id position =
     (case att1_kv_mmu_find_page m session_id layer_id (position div km_pt m) of
        None \<Rightarrow> False
      | Some i \<Rightarrow> kp_token_present (km_pages m ! i) ! (position mod km_pt m))"

text \<open>The loop of \<^verbatim>\<open>att1_kv_mmu_next_position\<close>, from \<open>position\<close> on.\<close>

function next_position_from :: "att1_kv_mmu \<Rightarrow> u64 \<Rightarrow> nat \<Rightarrow> nat \<Rightarrow> nat" where
  "next_position_from m session_id layer_id position =
     (if position < km_max_positions m
      then (if \<not> att1_kv_mmu_token_present m session_id layer_id position then position
            else next_position_from m session_id layer_id (position + 1))
      else position)"
  by pat_completeness auto
termination
  by (relation "measure (\<lambda>(m, s, l, position). km_max_positions m - position)") auto

declare next_position_from.simps [simp del]

definition att1_kv_mmu_next_position :: "att1_kv_mmu \<Rightarrow> u64 \<Rightarrow> nat \<Rightarrow> nat" where
  "att1_kv_mmu_next_position m session_id layer_id = next_position_from m session_id layer_id 0"

section \<open>Argument checks\<close>

text \<open>Each returns the status and the handle, with the error counted when it fails.\<close>

definition kv_fail :: "att1_status \<Rightarrow> att1_kv_mmu \<Rightarrow> att1_status \<times> att1_kv_mmu" where
  "kv_fail st m = (st, att1_kv_mmu_error m)"

definition att1_kv_mmu_validate_address :: "att1_kv_mmu \<Rightarrow> u64 \<Rightarrow> nat \<Rightarrow> att1_status \<times> att1_kv_mmu" where
  "att1_kv_mmu_validate_address m session_id layer_id =
     (if km_sessions m = [] \<or> km_pages m = [] then kv_fail ATT1_ERR_INVALID_ARG m
      else if att1_kv_mmu_find_session m session_id = None then kv_fail ATT1_ERR_NOT_FOUND m
      else if km_layers m \<le> layer_id then kv_fail ATT1_ERR_INVALID_ARG m
      else (ATT1_OK, m))"

definition att1_kv_mmu_validate_position :: "att1_kv_mmu \<Rightarrow> nat \<Rightarrow> att1_status \<times> att1_kv_mmu" where
  "att1_kv_mmu_validate_position m position =
     (if km_max_positions m \<le> position then kv_fail ATT1_ERR_INVALID_ARG m else (ATT1_OK, m))"

definition att1_kv_mmu_validate_range :: "att1_kv_mmu \<Rightarrow> nat \<Rightarrow> nat \<Rightarrow> att1_status \<times> att1_kv_mmu" where
  "att1_kv_mmu_validate_range m start_position position_count =
     (if position_count = 0 then kv_fail ATT1_ERR_INVALID_ARG m
      else if SIZE_MAX - (position_count - 1) < start_position then kv_fail ATT1_ERR_INVALID_ARG m
      else if km_max_positions m < (start_position + position_count) mod 2 ^ 64
      then kv_fail ATT1_ERR_INVALID_ARG m
      else (ATT1_OK, m))"

section \<open>Lifecycle\<close>

text \<open>\<open>out_ok\<close>: \<^verbatim>\<open>out_mmu\<close> is not \<^verbatim>\<open>NULL\<close>; the handle stored in it is the second component.\<close>

definition att1_kv_mmu_create ::
  "(nat \<Rightarrow> bool) \<Rightarrow> att1_kv_mmu_config option \<Rightarrow> bool \<Rightarrow> att1_status \<times> att1_kv_mmu option" where
  "att1_kv_mmu_create alloc cp out_ok =
     (if \<not> out_ok then (ATT1_ERR_INVALID_ARG, None)
      else if \<not> att1_kv_mmu_config_valid cp then (ATT1_ERR_INVALID_ARG, None)
      else if \<not> alloc 0 then (ATT1_ERR_OOM, None)
      else if \<not> alloc 1 \<or> \<not> alloc 2 then (ATT1_ERR_OOM, None)
      else (let c = the cp
            in (ATT1_OK, Some
                 \<lparr>km_config = c, km_counters = zero_kv_counters,
                  km_sessions = replicate (kc_max_sessions c) zero_session,
                  km_pages = map (\<lambda>i. zero_page\<lparr>kp_physical_page := word_of_nat i\<rparr>) [0..<kc_max_pages c]\<rparr>)))"

text \<open>Destroying frees everything; no handle remains.\<close>

definition att1_kv_mmu_destroy :: "att1_kv_mmu option \<Rightarrow> att1_kv_mmu option" where
  "att1_kv_mmu_destroy mp = None"

definition kv_create_session :: "u64 \<Rightarrow> att1_kv_mmu \<Rightarrow> att1_status \<times> att1_kv_mmu" where
  "kv_create_session session_id m =
     (if km_sessions m = [] then kv_fail ATT1_ERR_INVALID_ARG m
      else if att1_kv_mmu_find_session m session_id \<noteq> None then kv_fail ATT1_ERR_STATE m
      else (case first_index (\<lambda>s. \<not> ks_active s) (km_sessions m) of
              None \<Rightarrow> kv_fail ATT1_ERR_OOM m
            | Some i \<Rightarrow> (ATT1_OK, m\<lparr>km_sessions := (km_sessions m)
                [i := \<lparr>ks_session_id = session_id, ks_active = True\<rparr>]\<rparr>)))"

definition att1_kv_mmu_create_session :: "att1_kv_mmu option \<Rightarrow> u64 \<Rightarrow> att1_status \<times> att1_kv_mmu option" where
  "att1_kv_mmu_create_session mp session_id = with_ptr (kv_create_session session_id) mp"

definition kv_destroy_session :: "u64 \<Rightarrow> att1_kv_mmu \<Rightarrow> att1_status \<times> att1_kv_mmu" where
  "kv_destroy_session session_id m =
     (if km_sessions m = [] \<or> km_pages m = [] then kv_fail ATT1_ERR_INVALID_ARG m
      else (case att1_kv_mmu_find_session m session_id of
              None \<Rightarrow> kv_fail ATT1_ERR_NOT_FOUND m
            | Some i \<Rightarrow>
                (ATT1_OK,
                 m\<lparr>km_pages := map (\<lambda>p. if kp_active p \<and> kp_session_id p = session_id
                                        then att1_kv_mmu_release_page p else p) (km_pages m),
                   km_sessions := (km_sessions m)[i := zero_session]\<rparr>)))"

definition att1_kv_mmu_destroy_session :: "att1_kv_mmu option \<Rightarrow> u64 \<Rightarrow> att1_status \<times> att1_kv_mmu option" where
  "att1_kv_mmu_destroy_session mp session_id = with_ptr (kv_destroy_session session_id) mp"

section \<open>Append and read\<close>

text \<open>The copies at the end of \<^verbatim>\<open>att1_kv_mmu_append\<close>, on the page of index \<open>i\<close>.\<close>

definition kv_store_token :: "nat \<Rightarrow> nat \<Rightarrow> nat \<Rightarrow> f32 list \<Rightarrow> f32 list \<Rightarrow> att1_kv_mmu \<Rightarrow> att1_kv_mmu" where
  "kv_store_token i token_in_page head_values key value m =
     (let page = km_pages m ! i; position_values = token_in_page * head_values;
          page' = page\<lparr>kp_keys := write_bytes position_values (take head_values key) (kp_keys page),
                       kp_values := write_bytes position_values (take head_values value) (kp_values page),
                       kp_token_present := (kp_token_present page)[token_in_page := True]\<rparr>
      in upd_kk (\<lambda>k. k\<lparr>kk_append_ops := kk_append_ops k + 1\<rparr>) (m\<lparr>km_pages := (km_pages m)[i := page']\<rparr>))"

definition kv_append ::
  "(nat \<Rightarrow> bool) \<Rightarrow> u64 \<Rightarrow> nat \<Rightarrow> nat \<Rightarrow> f32 list option \<Rightarrow> f32 list option \<Rightarrow> att1_kv_mmu
     \<Rightarrow> att1_status \<times> att1_kv_mmu" where
  "kv_append alloc session_id layer_id position key value m =
     (if key = None \<or> value = None then kv_fail ATT1_ERR_INVALID_ARG m
      else
       (case att1_kv_mmu_validate_address m session_id layer_id of
          (ATT1_OK, _) \<Rightarrow>
           (case att1_kv_mmu_validate_position m position of
              (ATT1_OK, _) \<Rightarrow>
               (if position \<noteq> att1_kv_mmu_next_position m session_id layer_id then kv_fail ATT1_ERR_STATE m
                else
                 (let page_id = position div km_pt m; token_in_page = position mod km_pt m;
                      (found, m1) = att1_kv_mmu_lookup_existing m session_id layer_id position;
                      (page, m2) = (case found of
                                      Some i \<Rightarrow> (Some i, m1)
                                    | None \<Rightarrow> att1_kv_mmu_alloc_page alloc m1 session_id layer_id page_id)
                  in case page of
                       None \<Rightarrow> kv_fail ATT1_ERR_OOM m2
                     | Some i \<Rightarrow>
                        (if kp_token_present (km_pages m2 ! i) ! token_in_page then kv_fail ATT1_ERR_STATE m2
                         else (case att1_mul_size (km_heads m2) (km_dim m2) of
                                 None \<Rightarrow> kv_fail ATT1_ERR_INVALID_ARG m2
                               | Some head_values \<Rightarrow>
                                   (ATT1_OK,
                                    kv_store_token i token_in_page head_values (the key) (the value) m2)))))
            | r \<Rightarrow> r)
        | r \<Rightarrow> r))"

definition att1_kv_mmu_append ::
  "(nat \<Rightarrow> bool) \<Rightarrow> att1_kv_mmu option \<Rightarrow> u64 \<Rightarrow> nat \<Rightarrow> nat \<Rightarrow> f32 list option \<Rightarrow> f32 list option
     \<Rightarrow> att1_status \<times> att1_kv_mmu option" where
  "att1_kv_mmu_append alloc mp session_id layer_id position key value =
     with_ptr (kv_append alloc session_id layer_id position key value) mp"

text \<open>
  The vectors written to \<^verbatim>\<open>out_key\<close> and \<^verbatim>\<open>out_value\<close>; a \<^verbatim>\<open>NULL\<close> output (\<open>out_key_ok\<close>,
  \<open>out_value_ok\<close>) receives nothing.
\<close>

type_synonym kv_out = "f32 list option \<times> f32 list option"

definition kv_read ::
  "att1_kv_mmu \<Rightarrow> u64 \<Rightarrow> nat \<Rightarrow> nat \<Rightarrow> nat \<Rightarrow> bool \<Rightarrow> bool \<Rightarrow> att1_status \<times> att1_kv_mmu \<times> kv_out" where
  "kv_read m session_id layer_id head_id position out_key_ok out_value_ok =
     (let fail = (\<lambda>st m. (st, att1_kv_mmu_error m, None, None))
      in if \<not> out_key_ok \<and> \<not> out_value_ok then fail ATT1_ERR_INVALID_ARG m
         else
          (case att1_kv_mmu_validate_address m session_id layer_id of
             (ATT1_OK, _) \<Rightarrow>
              (case att1_kv_mmu_validate_position m position of
                 (ATT1_OK, _) \<Rightarrow>
                  (if km_heads m \<le> head_id then fail ATT1_ERR_INVALID_ARG m
                   else
                    (let token_in_page = position mod km_pt m;
                         (found, m1) = att1_kv_mmu_lookup_existing m session_id layer_id position
                     in case found of
                          None \<Rightarrow> fail ATT1_ERR_NOT_FOUND m1
                        | Some i \<Rightarrow>
                           (let page = km_pages m1 ! i;
                                offset = att1_kv_mmu_position_offset m1 token_in_page head_id
                            in if \<not> kp_token_present page ! token_in_page then fail ATT1_ERR_NOT_FOUND m1
                               else (ATT1_OK,
                                     upd_kk (\<lambda>k. k\<lparr>kk_read_ops := kk_read_ops k + 1\<rparr>) m1,
                                     if out_key_ok then Some (read_bytes offset (km_dim m1) (kp_keys page)) else None,
                                     if out_value_ok then Some (read_bytes offset (km_dim m1) (kp_values page)) else None))))
               | (st, m') \<Rightarrow> (st, m', None, None))
           | (st, m') \<Rightarrow> (st, m', None, None)))"

definition att1_kv_mmu_read ::
  "att1_kv_mmu option \<Rightarrow> u64 \<Rightarrow> nat \<Rightarrow> nat \<Rightarrow> nat \<Rightarrow> bool \<Rightarrow> bool
     \<Rightarrow> att1_status \<times> att1_kv_mmu option \<times> kv_out" where
  "att1_kv_mmu_read mp session_id layer_id head_id position out_key_ok out_value_ok =
     (case mp of
        None \<Rightarrow> (ATT1_ERR_INVALID_ARG, None, None, None)
      | Some m \<Rightarrow> (let (st, m', out) = kv_read m session_id layer_id head_id position out_key_ok out_value_ok
                    in (st, Some m', out)))"

text \<open>
  The loop of \<^verbatim>\<open>att1_kv_mmu_copy_range\<close>: \<open>n\<close> positions from \<open>position\<close> on; the list holds what was
  written for each position, in order, up to the first failure.
\<close>

fun copy_positions ::
  "nat \<Rightarrow> att1_kv_mmu \<Rightarrow> u64 \<Rightarrow> nat \<Rightarrow> nat \<Rightarrow> nat \<Rightarrow> bool \<Rightarrow> bool
     \<Rightarrow> att1_status \<times> att1_kv_mmu \<times> kv_out list" where
  "copy_positions 0 m session_id layer_id head_id position ok_k ok_v = (ATT1_OK, m, [])"
| "copy_positions (Suc n) m session_id layer_id head_id position ok_k ok_v =
     (let (st, m1, out) = kv_read m session_id layer_id head_id (position mod 2 ^ 64) ok_k ok_v
      in if st \<noteq> ATT1_OK then (st, m1, [])
         else (let (st', m2, outs) = copy_positions n m1 session_id layer_id head_id (position + 1) ok_k ok_v
               in (st', m2, out # outs)))"

definition kv_copy_range ::
  "att1_kv_mmu \<Rightarrow> u64 \<Rightarrow> nat \<Rightarrow> nat \<Rightarrow> nat \<Rightarrow> nat \<Rightarrow> bool \<Rightarrow> bool
     \<Rightarrow> att1_status \<times> att1_kv_mmu \<times> kv_out list" where
  "kv_copy_range m session_id layer_id head_id start_position position_count out_keys_ok out_values_ok =
     (if \<not> out_keys_ok \<and> \<not> out_values_ok then (ATT1_ERR_INVALID_ARG, att1_kv_mmu_error m, [])
      else
       (case att1_kv_mmu_validate_range m start_position position_count of
          (ATT1_OK, _) \<Rightarrow>
           (if km_heads m \<le> head_id then (ATT1_ERR_INVALID_ARG, att1_kv_mmu_error m, [])
            else
             (let (st, m', outs) =
                    copy_positions position_count m session_id layer_id head_id start_position
                      out_keys_ok out_values_ok
              in if st \<noteq> ATT1_OK then (st, m', outs)
                 else (ATT1_OK, upd_kk (\<lambda>k. k\<lparr>kk_range_copy_ops := kk_range_copy_ops k + 1\<rparr>) m', outs)))
        | (st, m') \<Rightarrow> (st, m', [])))"

definition att1_kv_mmu_copy_range ::
  "att1_kv_mmu option \<Rightarrow> u64 \<Rightarrow> nat \<Rightarrow> nat \<Rightarrow> nat \<Rightarrow> nat \<Rightarrow> bool \<Rightarrow> bool
     \<Rightarrow> att1_status \<times> att1_kv_mmu option \<times> kv_out list" where
  "att1_kv_mmu_copy_range mp session_id layer_id head_id start_position position_count out_keys_ok out_values_ok =
     (case mp of
        None \<Rightarrow> (ATT1_ERR_INVALID_ARG, None, [])
      | Some m \<Rightarrow>
         (let (st, m', outs) =
                kv_copy_range m session_id layer_id head_id start_position position_count out_keys_ok out_values_ok
          in (st, Some m', outs)))"

definition kv_lookup_page ::
  "att1_kv_mmu \<Rightarrow> u64 \<Rightarrow> nat \<Rightarrow> nat \<Rightarrow> bool \<Rightarrow> att1_status \<times> att1_kv_mmu \<times> att1_kv_mmu_page_ref option" where
  "kv_lookup_page m session_id layer_id position out_ok =
     (if \<not> out_ok then (ATT1_ERR_INVALID_ARG, att1_kv_mmu_error m, None)
      else
       (case att1_kv_mmu_validate_address m session_id layer_id of
          (ATT1_OK, _) \<Rightarrow>
           (case att1_kv_mmu_validate_position m position of
              (ATT1_OK, _) \<Rightarrow>
               (let logical_page = position div km_pt m;
                    (found, m1) = att1_kv_mmu_lookup_existing m session_id layer_id position
                in case found of
                     None \<Rightarrow> (ATT1_ERR_NOT_FOUND, m1, Some zero_page_ref)
                   | Some i \<Rightarrow>
                      (let page = km_pages m1 ! i
                       in (ATT1_OK, m1, Some
                            \<lparr>pr_physical_page = kp_physical_page page, pr_session_id = kp_session_id page,
                             pr_layer_id = kp_layer_id page, pr_logical_page = logical_page,
                             pr_page_tokens = km_pt m1\<rparr>)))
            | (st, m') \<Rightarrow> (st, m', Some zero_page_ref))
        | (st, m') \<Rightarrow> (st, m', Some zero_page_ref)))"

definition att1_kv_mmu_lookup_page ::
  "att1_kv_mmu option \<Rightarrow> u64 \<Rightarrow> nat \<Rightarrow> nat \<Rightarrow> bool
     \<Rightarrow> att1_status \<times> att1_kv_mmu option \<times> att1_kv_mmu_page_ref option" where
  "att1_kv_mmu_lookup_page mp session_id layer_id position out_ok =
     (case mp of
        None \<Rightarrow> (ATT1_ERR_INVALID_ARG, None, if out_ok then Some zero_page_ref else None)
      | Some m \<Rightarrow> (let (st, m', r) = kv_lookup_page m session_id layer_id position out_ok in (st, Some m', r)))"

section \<open>Counters\<close>

definition att1_kv_mmu_get_counters :: "att1_kv_mmu option \<Rightarrow> bool \<Rightarrow> att1_kv_mmu_counters option" where
  "att1_kv_mmu_get_counters mp out_ok =
     (case mp of Some m \<Rightarrow> if out_ok then Some (km_counters m) else None | None \<Rightarrow> None)"

definition att1_kv_mmu_reset_counters :: "att1_kv_mmu option \<Rightarrow> att1_kv_mmu option" where
  "att1_kv_mmu_reset_counters mp = map_option (\<lambda>m. m\<lparr>km_counters := zero_kv_counters\<rparr>) mp"

end
