(* ===== verification/Kv_Mmu_Inv.thy ===== *)
theory Kv_Mmu_Inv
  imports Kv_Mmu
begin

text \<open>
  Correctness of the KV-MMU: the page table invariant, the vector stored at a (session, layer,
  position), the effect of every operation on it, and the sequence of vectors of a
  (session, layer) pair.
\<close>

section \<open>Configuration\<close>

lemma kv_config_valid_iff:
  "att1_kv_mmu_config_valid (Some c) \<longleftrightarrow>
     0 < kc_max_sessions c \<and> 0 < kc_max_pages c \<and> 0 < kc_num_layers c \<and> 0 < kc_num_heads c
   \<and> 0 < kc_head_dim c \<and> 0 < kc_page_tokens c \<and> 0 < kc_max_positions c
   \<and> kc_page_tokens c * (kc_num_heads c * kc_head_dim c) \<le> SIZE_MAX
   \<and> kc_max_pages c * kc_page_tokens c \<le> SIZE_MAX
   \<and> kc_max_positions c \<le> kc_max_pages c * kc_page_tokens c"
proof -
  let ?hd = "kc_num_heads c * kc_head_dim c" and ?pt = "kc_page_tokens c"
  have le: "?hd \<le> SIZE_MAX" if "0 < ?pt" "?pt * ?hd \<le> SIZE_MAX"
    using that by (cases ?pt) simp_all
  show ?thesis
    using le
    by (auto simp: att1_kv_mmu_config_valid_def att1_mul_size_Some_iff att1_mul_size_None_iff not_le
        split: option.splits)
qed

section \<open>Invariant\<close>

definition kv_width :: "att1_kv_mmu \<Rightarrow> nat" where "kv_width m = km_heads m * km_dim m"

definition kv_live :: "att1_kv_mmu \<Rightarrow> u64 \<Rightarrow> bool" where
  "kv_live m s \<longleftrightarrow> (\<exists>x \<in> set (km_sessions m). ks_active x \<and> ks_session_id x = s)"

definition page_ok :: "att1_kv_mmu \<Rightarrow> att1_kv_mmu_page \<Rightarrow> bool" where
  "page_ok m p \<longleftrightarrow> (kp_active p \<longrightarrow>
     length (kp_token_present p) = km_pt m \<and> length (kp_keys p) = km_pt m * kv_width m
     \<and> length (kp_values p) = km_pt m * kv_width m \<and> kv_live m (kp_session_id p) \<and> kp_layer_id p < km_layers m)"

definition page_key :: "att1_kv_mmu_page \<Rightarrow> u64 \<times> nat \<times> nat" where
  "page_key p = (kp_session_id p, kp_layer_id p, kp_logical_page p)"

definition kv_table_inv :: "att1_kv_mmu \<Rightarrow> bool" where
  "kv_table_inv m \<longleftrightarrow> att1_kv_mmu_config_valid (Some (km_config m))
     \<and> length (km_sessions m) = kc_max_sessions (km_config m)
     \<and> length (km_pages m) = kc_max_pages (km_config m)
     \<and> (\<forall>p \<in> set (km_pages m). page_ok m p)
     \<and> (\<forall>i < length (km_pages m). kp_physical_page (km_pages m ! i) = word_of_nat i)
     \<and> (\<forall>i < length (km_pages m). \<forall>j < length (km_pages m). kp_active (km_pages m ! i) \<longrightarrow>
          kp_active (km_pages m ! j) \<longrightarrow> page_key (km_pages m ! i) = page_key (km_pages m ! j) \<longrightarrow> i = j)
     \<and> (\<forall>i < length (km_sessions m). \<forall>j < length (km_sessions m). ks_active (km_sessions m ! i) \<longrightarrow>
          ks_active (km_sessions m ! j) \<longrightarrow>
          ks_session_id (km_sessions m ! i) = ks_session_id (km_sessions m ! j) \<longrightarrow> i = j)"

lemma kv_table_inv_parts:
  assumes "kv_table_inv m"
  shows "0 < kc_max_sessions (km_config m)" "0 < kc_max_pages (km_config m)" "0 < km_layers m"
    "0 < km_heads m" "0 < km_dim m" "0 < km_pt m" "0 < km_max_positions m"
    "km_pt m * kv_width m \<le> SIZE_MAX"
    "km_max_positions m \<le> kc_max_pages (km_config m) * km_pt m"
    "kc_max_pages (km_config m) * km_pt m \<le> SIZE_MAX"
    "km_sessions m \<noteq> []" "km_pages m \<noteq> []"
    "length (km_sessions m) = kc_max_sessions (km_config m)"
    "length (km_pages m) = kc_max_pages (km_config m)"
  using assms unfolding kv_table_inv_def kv_config_valid_iff kv_width_def by auto

lemma kv_table_inv_page:
  "kv_table_inv m \<Longrightarrow> i < length (km_pages m) \<Longrightarrow> page_ok m (km_pages m ! i)"
  by (simp add: kv_table_inv_def)

lemma find_session_iff: "att1_kv_mmu_find_session m s \<noteq> None \<longleftrightarrow> kv_live m s"
  unfolding att1_kv_mmu_find_session_def kv_live_def
  using first_index_None_iff [of "\<lambda>x. ks_active x \<and> ks_session_id x = s" "km_sessions m"] by auto

lemma page_matches_key: "page_matches s l lp p \<longleftrightarrow> kp_active p \<and> page_key p = (s, l, lp)"
  by (auto simp: page_matches_def page_key_def)

lemma find_page_iff:
  assumes "kv_table_inv m"
  shows "att1_kv_mmu_find_page m s l lp = Some i \<longleftrightarrow>
    i < length (km_pages m) \<and> page_matches s l lp (km_pages m ! i)"
  unfolding att1_kv_mmu_find_page_def
  by (intro first_index_unique) (use assms in \<open>auto simp: kv_table_inv_def page_matches_key\<close>)

section \<open>Stored vectors\<close>

definition page_entry :: "att1_kv_mmu \<Rightarrow> att1_kv_mmu_page \<Rightarrow> nat \<Rightarrow> kv_pair option" where
  "page_entry m p j =
     (if kp_token_present p ! j
      then Some (read_bytes (j * kv_width m) (kv_width m) (kp_keys p),
                 read_bytes (j * kv_width m) (kv_width m) (kp_values p)) else None)"

definition kv_entry :: "att1_kv_mmu \<Rightarrow> u64 \<Rightarrow> nat \<Rightarrow> nat \<Rightarrow> kv_pair option" where
  "kv_entry m s l p =
     (case att1_kv_mmu_find_page m s l (p div km_pt m) of
        None \<Rightarrow> None
      | Some i \<Rightarrow> page_entry m (km_pages m ! i) (p mod km_pt m))"

lemma token_present_entry: "att1_kv_mmu_token_present m s l p \<longleftrightarrow> kv_entry m s l p \<noteq> None"
  by (simp add: att1_kv_mmu_token_present_def kv_entry_def page_entry_def split: option.split)

definition kv_len :: "att1_kv_mmu \<Rightarrow> u64 \<Rightarrow> nat \<Rightarrow> nat" where
  "kv_len m s l = att1_kv_mmu_next_position m s l"

definition kv_seq :: "att1_kv_mmu \<Rightarrow> u64 \<Rightarrow> nat \<Rightarrow> kv_pair list" where
  "kv_seq m s l = map (\<lambda>p. the (kv_entry m s l p)) [0..<kv_len m s l]"

text \<open>
  The positions of a (session, layer) pair are filled from 0 on without a gap, and no page is
  mapped before it is used.
\<close>

definition kv_inv :: "att1_kv_mmu \<Rightarrow> bool" where
  "kv_inv m \<longleftrightarrow> kv_table_inv m
     \<and> (\<forall>s l p. kv_entry m s l p \<noteq> None \<longrightarrow> p < kv_len m s l)
     \<and> (\<forall>s l lp. att1_kv_mmu_find_page m s l lp \<noteq> None \<longrightarrow> kv_entry m s l (lp * km_pt m) \<noteq> None)"

lemma length_kv_seq [simp]: "length (kv_seq m s l) = kv_len m s l"
  by (simp add: kv_seq_def)

lemma next_position_from_spec:
  "n = next_position_from m s l p \<Longrightarrow> p \<le> km_max_positions m \<Longrightarrow>
    p \<le> n \<and> n \<le> km_max_positions m \<and> (\<forall>q. p \<le> q \<and> q < n \<longrightarrow> kv_entry m s l q \<noteq> None)
    \<and> (n < km_max_positions m \<longrightarrow> kv_entry m s l n = None)"
proof (induction m s l p arbitrary: n rule: next_position_from.induct)
  case (1 m s l p)
  show ?case
  proof (cases "p < km_max_positions m \<and> kv_entry m s l p \<noteq> None")
    case False
    then have "n = p"
      using "1.prems" by (subst (asm) next_position_from.simps) (auto simp: token_present_entry simp del: not_None_eq)
    then show ?thesis using False "1.prems"(2) by (auto simp del: not_None_eq)
  next
    case True
    then have n: "n = next_position_from m s l (p + 1)"
      using "1.prems"(1) by (subst (asm) next_position_from.simps) (simp add: token_present_entry)
    have "p + 1 \<le> n \<and> n \<le> km_max_positions m \<and> (\<forall>q. p + 1 \<le> q \<and> q < n \<longrightarrow> kv_entry m s l q \<noteq> None)
        \<and> (n < km_max_positions m \<longrightarrow> kv_entry m s l n = None)"
      using True n by (intro "1.IH") (simp_all add: token_present_entry)
    moreover have "q = p \<or> p + 1 \<le> q" if "p \<le> q" for q using that by linarith
    ultimately show ?thesis using True by (auto simp del: not_None_eq)
  qed
qed

lemma kv_len_spec:
  "kv_len m s l \<le> km_max_positions m"
  "q < kv_len m s l \<Longrightarrow> kv_entry m s l q \<noteq> None"
  "kv_len m s l < km_max_positions m \<Longrightarrow> kv_entry m s l (kv_len m s l) = None"
  using next_position_from_spec [of "kv_len m s l" m s l 0]
  by (simp_all add: kv_len_def att1_kv_mmu_next_position_def)

lemma kv_len_unique:
  assumes "n \<le> km_max_positions m" "\<forall>q < n. kv_entry m s l q \<noteq> None"
    and "n < km_max_positions m \<Longrightarrow> kv_entry m s l n = None"
  shows "kv_len m s l = n"
proof (rule ccontr)
  assume "kv_len m s l \<noteq> n"
  then consider "kv_len m s l < n" | "n < kv_len m s l" by linarith
  then show False
    using assms kv_len_spec(1) [of m s l] kv_len_spec(2) [where m = m and s = s and l = l]
      kv_len_spec(3) [of m s l] by cases (metis less_le_trans)+
qed

lemma kv_entry_iff:
  "kv_inv m \<Longrightarrow> kv_entry m s l p \<noteq> None \<longleftrightarrow> p < kv_len m s l"
  using kv_len_spec(2) unfolding kv_inv_def by blast

lemma kv_entry_seq:
  "kv_inv m \<Longrightarrow> kv_entry m s l p = (if p < kv_len m s l then Some (kv_seq m s l ! p) else None)"
  using kv_entry_iff [of m s l p] by (cases "kv_entry m s l p") (auto simp: kv_seq_def)

lemma kv_entry_cong:
  assumes "km_config m' = km_config m" "km_pages m' = km_pages m"
  shows "kv_entry m' = kv_entry m" "kv_len m' = kv_len m" "kv_seq m' = kv_seq m"
proof -
  show e: "kv_entry m' = kv_entry m"
    by (intro ext) (simp add: kv_entry_def att1_kv_mmu_find_page_def page_entry_def kv_width_def assms
        split: option.split)
  show n: "kv_len m' = kv_len m"
    using kv_len_spec by (intro ext kv_len_unique) (simp_all add: assms e)
  show "kv_seq m' = kv_seq m" by (intro ext) (simp add: kv_seq_def e n)
qed

text \<open>The sequences follow from the entries.\<close>

lemma kv_seq_same:
  assumes "km_config m' = km_config m" "\<And>p. kv_entry m' s l p = kv_entry m s l p"
  shows "kv_len m' s l = kv_len m s l" "kv_seq m' s l = kv_seq m s l"
proof -
  show n: "kv_len m' s l = kv_len m s l"
    using kv_len_spec(1,3) [of m s l] kv_len_spec(2) [where m = m and s = s and l = l]
    by (intro kv_len_unique) (simp_all add: assms)
  show "kv_seq m' s l = kv_seq m s l" by (simp add: kv_seq_def n assms(2))
qed

lemma kv_seq_extend:
  assumes "kv_inv m" "km_config m' = km_config m" "kv_len m s l < km_max_positions m"
    and "\<And>p. kv_entry m' s l p = (if p = kv_len m s l then Some e else kv_entry m s l p)"
  shows "kv_len m' s l = Suc (kv_len m s l)" "kv_seq m' s l = kv_seq m s l @ [e]"
proof -
  have "kv_entry m s l (Suc (kv_len m s l)) = None"
    using kv_entry_iff [OF assms(1), of s l "Suc (kv_len m s l)"] by (simp del: not_None_eq)
  then show n: "kv_len m' s l = Suc (kv_len m s l)"
    using assms(2,3) kv_len_spec(2) [where m = m and s = s and l = l]
    by (intro kv_len_unique) (simp_all add: assms(4))
  show "kv_seq m' s l = kv_seq m s l @ [e]"
    by (simp add: kv_seq_def n assms(4))
qed

section \<open>Counters do not matter\<close>

lemma kv_inv_cong:
  assumes "km_config m' = km_config m" "km_pages m' = km_pages m" "km_sessions m' = km_sessions m"
  shows "kv_inv m' = kv_inv m" "kv_table_inv m' = kv_table_inv m"
proof -
  have "kv_live m' = kv_live m" by (intro ext) (simp add: kv_live_def assms)
  then have "page_ok m' = page_ok m" by (intro ext) (simp add: page_ok_def kv_width_def assms)
  then show t: "kv_table_inv m' = kv_table_inv m" by (simp add: kv_table_inv_def assms)
  have "att1_kv_mmu_find_page m' = att1_kv_mmu_find_page m"
    by (intro ext) (simp add: att1_kv_mmu_find_page_def assms)
  then show "kv_inv m' = kv_inv m" by (simp add: kv_inv_def t kv_entry_cong [OF assms(1,2)] assms(1))
qed

lemma kv_counters_frame [simp]:
  "kv_inv (m\<lparr>km_counters := c\<rparr>) = kv_inv m"
  "kv_table_inv (m\<lparr>km_counters := c\<rparr>) = kv_table_inv m"
  "kv_entry (m\<lparr>km_counters := c\<rparr>) = kv_entry m"
  "kv_len (m\<lparr>km_counters := c\<rparr>) = kv_len m"
  "kv_seq (m\<lparr>km_counters := c\<rparr>) = kv_seq m"
  by (simp_all add: kv_inv_cong [of "m\<lparr>km_counters := c\<rparr>" m] kv_entry_cong [of "m\<lparr>km_counters := c\<rparr>" m])

lemma kv_live_frame [simp]: "kv_live (m\<lparr>km_counters := c\<rparr>) = kv_live m"
  by (intro ext) (simp add: kv_live_def)

lemma find_frame [simp]:
  "att1_kv_mmu_find_session (m\<lparr>km_counters := c\<rparr>) = att1_kv_mmu_find_session m"
  "att1_kv_mmu_find_page (m\<lparr>km_counters := c\<rparr>) = att1_kv_mmu_find_page m"
  "att1_kv_mmu_next_position (m\<lparr>km_counters := c\<rparr>) = att1_kv_mmu_next_position m"
proof -
  show "att1_kv_mmu_find_session (m\<lparr>km_counters := c\<rparr>) = att1_kv_mmu_find_session m"
    "att1_kv_mmu_find_page (m\<lparr>km_counters := c\<rparr>) = att1_kv_mmu_find_page m"
    by (intro ext; simp add: att1_kv_mmu_find_session_def att1_kv_mmu_find_page_def)+
  show "att1_kv_mmu_next_position (m\<lparr>km_counters := c\<rparr>) = att1_kv_mmu_next_position m"
    using kv_counters_frame(4) [of c m] unfolding kv_len_def fun_eq_iff by blast
qed

text \<open>A page is mapped exactly when one of its positions is filled.\<close>

lemma find_page_mapped_iff:
  assumes "kv_inv m"
  shows "att1_kv_mmu_find_page m s l lp \<noteq> None \<longleftrightarrow> lp * km_pt m < kv_len m s l"
proof
  assume "att1_kv_mmu_find_page m s l lp \<noteq> None"
  then have "kv_entry m s l (lp * km_pt m) \<noteq> None" using assms unfolding kv_inv_def by blast
  then show "lp * km_pt m < kv_len m s l" using kv_entry_iff [OF assms] by blast
next
  assume "lp * km_pt m < kv_len m s l"
  then have "kv_entry m s l (lp * km_pt m) \<noteq> None" by (rule kv_len_spec(2))
  moreover have "0 < km_pt m" using assms kv_table_inv_parts(6) unfolding kv_inv_def by blast
  ultimately show "att1_kv_mmu_find_page m s l lp \<noteq> None" by (auto simp: kv_entry_def split: option.splits)
qed

section \<open>Changing one page\<close>

lemma page_ok_cong:
  "km_config m' = km_config m \<Longrightarrow> km_sessions m' = km_sessions m \<Longrightarrow> page_ok m' p = page_ok m p"
  by (simp add: page_ok_def kv_width_def kv_live_def)

lemma table_inv_update:
  assumes "kv_table_inv m" "i < length (km_pages m)" "page_ok m p'"
    and "kp_physical_page p' = kp_physical_page (km_pages m ! i)"
    and "\<And>j. kp_active p' \<Longrightarrow> j < length (km_pages m) \<Longrightarrow> j \<noteq> i \<Longrightarrow> kp_active (km_pages m ! j) \<Longrightarrow>
      page_key (km_pages m ! j) \<noteq> page_key p'"
  shows "kv_table_inv (m\<lparr>km_pages := (km_pages m)[i := p']\<rparr>)"
proof -
  let ?m = "m\<lparr>km_pages := (km_pages m)[i := p']\<rparr>"
  have "page_ok ?m p" if "p \<in> set (km_pages ?m)" for p
    using that assms(1,3) set_update_subset_insert [of "km_pages m" i p'] page_ok_cong [of ?m m p]
    by (auto simp: kv_table_inv_def)
  moreover have "kp_physical_page (km_pages ?m ! j) = word_of_nat j" if "j < length (km_pages ?m)" for j
    using that assms(1,2,4) by (cases "j = i") (simp_all add: kv_table_inv_def)
  moreover have "a = b" if "a < length (km_pages ?m)" "b < length (km_pages ?m)" "kp_active (km_pages ?m ! a)"
      "kp_active (km_pages ?m ! b)" "page_key (km_pages ?m ! a) = page_key (km_pages ?m ! b)" for a b
  proof -
    have u: "a = b" if "a < length (km_pages m)" "b < length (km_pages m)" "kp_active (km_pages m ! a)"
        "kp_active (km_pages m ! b)" "page_key (km_pages m ! a) = page_key (km_pages m ! b)" for a b
      using that assms(1) unfolding kv_table_inv_def by blast
    show ?thesis
      using that assms(2) assms(5) [of a] assms(5) [of b] u [of a b]
      by (cases "a = i"; cases "b = i") simp_all
  qed
  moreover have "att1_kv_mmu_config_valid (Some (km_config ?m)) \<and> length (km_sessions ?m) = kc_max_sessions (km_config ?m)
      \<and> length (km_pages ?m) = kc_max_pages (km_config ?m)"
    using assms(1) by (simp add: kv_table_inv_def)
  moreover have "\<forall>i < length (km_sessions ?m). \<forall>j < length (km_sessions ?m). ks_active (km_sessions ?m ! i) \<longrightarrow>
      ks_active (km_sessions ?m ! j) \<longrightarrow>
      ks_session_id (km_sessions ?m ! i) = ks_session_id (km_sessions ?m ! j) \<longrightarrow> i = j"
    using assms(1) by (simp add: kv_table_inv_def)
  ultimately show ?thesis unfolding kv_table_inv_def by blast
qed

lemma find_page_update:
  assumes "kv_table_inv m" "kv_table_inv m'" "km_pages m' = (km_pages m)[i := p']" "i < length (km_pages m)"
  shows "att1_kv_mmu_find_page m' s l lp = Some j \<longleftrightarrow>
    (if j = i then page_matches s l lp p' else att1_kv_mmu_find_page m s l lp = Some j)"
  using assms(3,4) by (auto simp: find_page_iff [OF assms(1)] find_page_iff [OF assms(2)])

text \<open>The entries after a change of one page.\<close>

lemma kv_entry_update:
  assumes "kv_table_inv m" "kv_table_inv m'" "km_pages m' = (km_pages m)[i := p']" "i < length (km_pages m)"
    and "km_config m' = km_config m"
    and "\<not> kp_active (km_pages m ! i) \<or> page_key p' = page_key (km_pages m ! i)"
  shows "kv_entry m' s l p =
    (if page_matches s l (p div km_pt m) p' then page_entry m p' (p mod km_pt m)
     else if page_matches s l (p div km_pt m) (km_pages m ! i) then None else kv_entry m s l p)"
proof -
  note f = find_page_update [OF assms(1-4), of s l "p div km_pt m"]
  have pe: "page_entry m' = page_entry m" by (intro ext) (simp add: page_entry_def kv_width_def assms(5))
  show ?thesis
  proof (cases "page_matches s l (p div km_pt m) p'")
    case True
    then have "att1_kv_mmu_find_page m' s l (p div km_pt m) = Some i" using f [of i] by simp
    then show ?thesis using True assms(3-5) by (simp add: kv_entry_def pe)
  next
    case False
    show ?thesis
    proof (cases "att1_kv_mmu_find_page m' s l (p div km_pt m)")
      case None
      then have "att1_kv_mmu_find_page m s l (p div km_pt m) = Some j \<Longrightarrow> j = i" for j
        using f [of j] by (auto split: if_splits)
      then show ?thesis
        using None False assms(4) find_page_iff [OF assms(1), of s l "p div km_pt m" i]
        by (cases "att1_kv_mmu_find_page m s l (p div km_pt m)") (auto simp: kv_entry_def assms(5))
    next
      case (Some j)
      then have j: "j \<noteq> i" "att1_kv_mmu_find_page m s l (p div km_pt m) = Some j"
        using f [of j] False by (auto split: if_splits)
      then have "\<not> page_matches s l (p div km_pt m) (km_pages m ! i)"
        using find_page_iff [OF assms(1), of s l "p div km_pt m" i] assms(4) by auto
      then show ?thesis using Some j False assms(3,5) by (simp add: kv_entry_def pe)
    qed
  qed
qed

section \<open>Storing a token\<close>

lemma page_entry_store:
  assumes "length (kp_token_present p) = n" "length (kp_keys p) = n * kv_width m" "length (kp_values p) = n * kv_width m"
    and "t < n" "j < n" "length k = kv_width m" "length v = kv_width m"
  shows "page_entry m (p\<lparr>kp_keys := write_bytes (t * kv_width m) k (kp_keys p),
      kp_values := write_bytes (t * kv_width m) v (kp_values p),
      kp_token_present := (kp_token_present p)[t := True]\<rparr>) j =
    (if j = t then Some (k, v) else page_entry m p j)"
proof -
  let ?w = "kv_width m"
  have fit: "a * ?w + ?w \<le> b * ?w" if "a < b" for a b
  proof -
    have "(a + 1) * ?w \<le> b * ?w" using that by (intro mult_le_mono1) simp
    then show ?thesis by simp
  qed
  have ap: "j * ?w + ?w \<le> t * ?w \<or> t * ?w + ?w \<le> j * ?w" if "j \<noteq> t"
    using that fit [of j t] fit [of t j] by linarith
  show ?thesis
    using assms fit [of t n] ap by (cases "j = t") (simp_all add: page_entry_def read_write_same read_write_other)
qed

lemma kv_store_spec:
  assumes "kv_table_inv m" "i < length (km_pages m)" "page_matches s l lp (km_pages m ! i)" "t < km_pt m"
    and "kv_width m \<le> length k" "kv_width m \<le> length v"
  defines "m' \<equiv> kv_store_token i t (kv_width m) k v m"
  shows "kv_table_inv m'" "km_config m' = km_config m" "km_sessions m' = km_sessions m"
    "kv_entry m' s' l' p = (if s' = s \<and> l' = l \<and> p = lp * km_pt m + t
       then Some (take (kv_width m) k, take (kv_width m) v) else kv_entry m s' l' p)"
    "att1_kv_mmu_find_page m' a b c \<noteq> None \<longleftrightarrow> att1_kv_mmu_find_page m a b c \<noteq> None"
    "map (\<lambda>p. (kp_active p, page_key p)) (km_pages m') = map (\<lambda>p. (kp_active p, page_key p)) (km_pages m)"
proof -
  let ?p = "km_pages m ! i" and ?k = "take (kv_width m) k" and ?v = "take (kv_width m) v"
  let ?p' = "?p\<lparr>kp_keys := write_bytes (t * kv_width m) ?k (kp_keys ?p),
      kp_values := write_bytes (t * kv_width m) ?v (kp_values ?p),
      kp_token_present := (kp_token_present ?p)[t := True]\<rparr>"
  let ?m = "m\<lparr>km_pages := (km_pages m)[i := ?p']\<rparr>"
  have m': "m' = upd_kk (\<lambda>k. k\<lparr>kk_append_ops := kk_append_ops k + 1\<rparr>) ?m"
    by (simp add: m'_def kv_store_token_def Let_def)
  have act: "kp_active ?p" "page_key ?p = (s, l, lp)" using assms(3) by (simp_all add: page_matches_key)
  have ok: "length (kp_token_present ?p) = km_pt m" "length (kp_keys ?p) = km_pt m * kv_width m"
      "length (kp_values ?p) = km_pt m * kv_width m" "kv_live m (kp_session_id ?p)" "kp_layer_id ?p < km_layers m"
    using kv_table_inv_page [OF assms(1,2)] act(1) by (simp_all add: page_ok_def)
  have fit: "t * kv_width m + kv_width m \<le> km_pt m * kv_width m"
  proof -
    have "(t + 1) * kv_width m \<le> km_pt m * kv_width m" using assms(4) by (intro mult_le_mono1) simp
    then show ?thesis by simp
  qed
  have kv: "length ?k = kv_width m" "length ?v = kv_width m" using assms(5,6) by simp_all
  have key': "page_key ?p' = page_key ?p" "kp_active ?p'" using act by (simp_all add: page_key_def)
  have T: "kv_table_inv ?m"
  proof (rule table_inv_update [OF assms(1,2)])
    show "page_ok m ?p'" using ok fit kv act by (simp add: page_ok_def)
    show "page_key (km_pages m ! j) \<noteq> page_key ?p'"
      if "j < length (km_pages m)" "j \<noteq> i" "kp_active (km_pages m ! j)" for j
      using that assms(1,2) act(1) unfolding key'(1) by (auto simp: kv_table_inv_def)
  qed simp
  then show "kv_table_inv m'" "km_config m' = km_config m" "km_sessions m' = km_sessions m"
    by (simp_all add: m')
  have pm: "page_matches a b c ?p' \<longleftrightarrow> (a, b, c) = (s, l, lp)" "page_matches a b c ?p \<longleftrightarrow> (a, b, c) = (s, l, lp)" for a b c
    using act key' by (auto simp: page_matches_key)
  show "map (\<lambda>p. (kp_active p, page_key p)) (km_pages m') = map (\<lambda>p. (kp_active p, page_key p)) (km_pages m)"
    using key' act(1) assms(2) by (simp add: m' map_update list_update_same_conv)
  have "att1_kv_mmu_find_page ?m a b c = Some j \<longleftrightarrow> att1_kv_mmu_find_page m a b c = Some j" for j
    using find_page_update [OF assms(1) T _ assms(2), of ?p' a b c j] pm [of a b c]
      find_page_iff [OF assms(1), of a b c i] assms(2) by (cases "j = i") simp_all
  then show "att1_kv_mmu_find_page m' a b c \<noteq> None \<longleftrightarrow> att1_kv_mmu_find_page m a b c \<noteq> None"
    unfolding m' find_frame by (metis not_None_eq)
  have pt: "0 < km_pt m" using kv_table_inv_parts [OF assms(1)] by simp
  have "kv_entry m' s' l' p = kv_entry ?m s' l' p" by (simp add: m')
  also have "\<dots> = (if (s', l', p div km_pt m) = (s, l, lp) then page_entry m ?p' (p mod km_pt m) else kv_entry m s' l' p)"
    using kv_entry_update [OF assms(1) T _ assms(2), of ?p' s' l' p] key' unfolding pm by simp
  also have "\<dots> = (if (s', l', p div km_pt m) = (s, l, lp)
      then (if p mod km_pt m = t then Some (?k, ?v) else page_entry m ?p (p mod km_pt m)) else kv_entry m s' l' p)"
    using page_entry_store [OF ok(1-3) assms(4) _ kv, of "p mod km_pt m"] pt by simp
  also have "\<dots> = (if s' = s \<and> l' = l \<and> p = lp * km_pt m + t then Some (?k, ?v) else kv_entry m s' l' p)"
  proof (cases "(s', l', p div km_pt m) = (s, l, lp)")
    case True
    have "att1_kv_mmu_find_page m s l lp = Some i"
      using find_page_iff [OF assms(1)] assms(2,3) by simp
    then have "kv_entry m s' l' p = page_entry m ?p (p mod km_pt m)" using True by (simp add: kv_entry_def)
    moreover have "p = lp * km_pt m + t \<longleftrightarrow> p mod km_pt m = t"
    proof -
      have "p = lp * km_pt m + p mod km_pt m" using True div_mult_mod_eq [of p "km_pt m"] by simp
      then show ?thesis by linarith
    qed
    ultimately have e: "kv_entry m s' l' p = page_entry m ?p (p mod km_pt m)"
      "(s' = s \<and> l' = l \<and> p = lp * km_pt m + t) = (p mod km_pt m = t)" using True by auto
    show ?thesis by (simp only: True e if_True simp_thms)
  next
    case False
    then have "\<not> (s' = s \<and> l' = l \<and> p = lp * km_pt m + t)" using assms(4) by auto
    then show ?thesis by (simp only: False if_False)
  qed
  finally show "kv_entry m' s' l' p = (if s' = s \<and> l' = l \<and> p = lp * km_pt m + t
       then Some (?k, ?v) else kv_entry m s' l' p)" .
qed

section \<open>Allocating a page\<close>

lemma kv_alloc_spec:
  assumes "kv_table_inv m" "att1_kv_mmu_find_page m s l lp = None" "kv_live m s" "l < km_layers m"
    and "att1_kv_mmu_alloc_page alloc m s l lp = (r, m')"
  shows "kv_table_inv m' \<and> km_config m' = km_config m \<and> km_sessions m' = km_sessions m \<and> kv_entry m' = kv_entry m
    \<and> (\<forall>i. r = Some i \<longrightarrow> i < length (km_pages m') \<and> page_matches s l lp (km_pages m' ! i)
           \<and> kp_token_present (km_pages m' ! i) = replicate (km_pt m) False)
    \<and> (r = None \<longleftrightarrow> (\<forall>p \<in> set (km_pages m). kp_active p) \<or> \<not> (alloc 0 \<and> alloc 1 \<and> alloc 2))
    \<and> (\<forall>a b c. att1_kv_mmu_find_page m' a b c \<noteq> None \<longrightarrow>
          att1_kv_mmu_find_page m a b c \<noteq> None \<or> (r \<noteq> None \<and> (a, b, c) = (s, l, lp)))"
proof (cases "first_index (\<lambda>p. \<not> kp_active p) (km_pages m)")
  case None
  then show ?thesis
    using assms(1,5) None [unfolded first_index_None_iff] by (simp add: att1_kv_mmu_alloc_page_def)
next
  case (Some i)
  then have i: "i < length (km_pages m)" "\<not> kp_active (km_pages m ! i)" by (auto simp: first_index_Some_iff)
  then have ex: "\<not> (\<forall>p \<in> set (km_pages m). kp_active p)" using nth_mem by blast
  let ?p = "km_pages m ! i"
  show ?thesis
  proof (cases "alloc 0 \<and> alloc 1 \<and> alloc 2")
    case False
    let ?p' = "att1_kv_mmu_release_page ?p"
    let ?m = "m\<lparr>km_pages := (km_pages m)[i := ?p']\<rparr>"
    have r: "r = None" "m' = ?m" using assms(5) Some False by (auto simp: att1_kv_mmu_alloc_page_def)
    have na: "\<not> kp_active ?p'" "kp_physical_page ?p' = kp_physical_page ?p"
      by (simp_all add: att1_kv_mmu_release_page_def zero_page_def)
    have T: "kv_table_inv ?m"
      by (rule table_inv_update [OF assms(1) i(1)]) (simp_all add: na page_ok_def)
    have "kv_entry ?m a b p = kv_entry m a b p" for a b p
      using kv_entry_update [OF assms(1) T _ i(1), of ?p' a b p] i(2) na(1) by (simp add: page_matches_def)
    then have "kv_entry ?m = kv_entry m" by (intro ext)
    moreover have "att1_kv_mmu_find_page ?m a b c = Some j \<Longrightarrow> att1_kv_mmu_find_page m a b c = Some j" for a b c j
      using find_page_update [OF assms(1) T _ i(1), of ?p' a b c j] na(1) by (simp add: page_matches_def split: if_splits)
    then have "att1_kv_mmu_find_page ?m a b c \<noteq> None \<Longrightarrow> att1_kv_mmu_find_page m a b c \<noteq> None" for a b c by fastforce
    ultimately show ?thesis using r T False by simp
  next
    case True
    let ?n = "att1_kv_mmu_page_elements m"
    let ?p' = "?p\<lparr>kp_token_present := replicate (km_pt m) False, kp_keys := replicate ?n 0,
        kp_values := replicate ?n 0, kp_session_id := s, kp_layer_id := l, kp_logical_page := lp, kp_active := True\<rparr>"
    let ?m = "m\<lparr>km_pages := (km_pages m)[i := ?p']\<rparr>"
    have r: "r = Some i" "m' = upd_kk (\<lambda>k. k\<lparr>kk_page_allocations := kk_page_allocations k + 1\<rparr>) ?m"
      using assms(5) Some True by (auto simp: att1_kv_mmu_alloc_page_def Let_def)
    have key: "page_key ?p' = (s, l, lp)" "kp_active ?p'" by (simp_all add: page_key_def)
    have n: "?n = km_pt m * kv_width m" by (simp add: att1_kv_mmu_page_elements_def kv_width_def)
    have T: "kv_table_inv ?m"
    proof (rule table_inv_update [OF assms(1) i(1)])
      show "page_ok m ?p'" using assms(3,4) by (simp add: page_ok_def n)
      show "page_key (km_pages m ! j) \<noteq> page_key ?p'"
        if "j < length (km_pages m)" "kp_active (km_pages m ! j)" for j
        using that find_page_iff [OF assms(1), of s l lp j] assms(2) unfolding key(1) by (auto simp: page_matches_key)
    qed simp
    have pm: "page_matches a b c ?p' \<longleftrightarrow> (a, b, c) = (s, l, lp)" for a b c using key by (auto simp: page_matches_key)
    have pt: "0 < km_pt m" using kv_table_inv_parts [OF assms(1)] by simp
    have "page_entry m ?p' j = None" if "j < km_pt m" for j using that by (simp add: page_entry_def)
    then have "kv_entry ?m a b p = kv_entry m a b p" for a b p
      using kv_entry_update [OF assms(1) T _ i(1), of ?p' a b p] i(2) assms(2) pt unfolding pm
      by (auto simp: page_matches_def [of _ _ _ ?p] kv_entry_def [of m])
    then have "kv_entry ?m = kv_entry m" by (intro ext)
    moreover have "att1_kv_mmu_find_page ?m a b c = Some j \<Longrightarrow>
        att1_kv_mmu_find_page m a b c = Some j \<or> (a, b, c) = (s, l, lp)" for a b c j
      using find_page_update [OF assms(1) T _ i(1), of ?p' a b c j] pm by (simp split: if_splits)
    then have "att1_kv_mmu_find_page ?m a b c \<noteq> None \<Longrightarrow>
        att1_kv_mmu_find_page m a b c \<noteq> None \<or> (a, b, c) = (s, l, lp)" for a b c by fastforce
    ultimately show ?thesis using r T True ex i(1) pm by (simp del: not_None_eq)
  qed
qed

end
