(* ===== verification/Kv_Mmu_Ops.thy ===== *)
theory Kv_Mmu_Ops
  imports Kv_Mmu_Inv
begin

text \<open>
  The operations of the KV-MMU on the stored sequences: append, read, range copy, the two
  session operations; each preserves the invariant. The pages in use are exactly those the
  sequences need.
\<close>

section \<open>Address checks\<close>

lemma find_session_None_iff: "att1_kv_mmu_find_session m s = None \<longleftrightarrow> \<not> kv_live m s"
  using find_session_iff [of m s] by metis

lemma validate_address_eq:
  assumes "kv_table_inv m"
  shows "att1_kv_mmu_validate_address m s l =
    (if \<not> kv_live m s then kv_fail ATT1_ERR_NOT_FOUND m
     else if km_layers m \<le> l then kv_fail ATT1_ERR_INVALID_ARG m else (ATT1_OK, m))"
  using kv_table_inv_parts(11,12) [OF assms]
  by (simp add: att1_kv_mmu_validate_address_def find_session_None_iff)

lemma kv_error_frame [simp]:
  "kv_inv (att1_kv_mmu_error m) = kv_inv m" "kv_table_inv (att1_kv_mmu_error m) = kv_table_inv m"
  "kv_seq (att1_kv_mmu_error m) = kv_seq m" "kv_entry (att1_kv_mmu_error m) = kv_entry m"
  "km_config (att1_kv_mmu_error m) = km_config m"
  "kv_live (att1_kv_mmu_error m) = kv_live m" "km_pages (att1_kv_mmu_error m) = km_pages m"
  "km_sessions (att1_kv_mmu_error m) = km_sessions m"
  "kk_errors (km_counters (att1_kv_mmu_error m)) = kk_errors (km_counters m) + 1"
  by (simp_all add: att1_kv_mmu_error_def)

lemma kv_live_cong: "km_sessions m' = km_sessions m \<Longrightarrow> kv_live m' = kv_live m"
  by (intro ext) (simp add: kv_live_def)

definition kv_free_pages :: "att1_kv_mmu \<Rightarrow> nat" where
  "kv_free_pages m = length (filter (\<lambda>p. \<not> kp_active p) (km_pages m))"

lemma kv_free_pages_0: "kv_free_pages m = 0 \<longleftrightarrow> (\<forall>p \<in> set (km_pages m). kp_active p)"
  by (simp add: kv_free_pages_def filter_empty_conv)

section \<open>Append\<close>

text \<open>The status of an append with both vectors present.\<close>

definition append_status :: "(nat \<Rightarrow> bool) \<Rightarrow> att1_kv_mmu \<Rightarrow> u64 \<Rightarrow> nat \<Rightarrow> nat \<Rightarrow> att1_status" where
  "append_status alloc m s l p =
     (if \<not> kv_live m s then ATT1_ERR_NOT_FOUND
      else if km_layers m \<le> l \<or> km_max_positions m \<le> p then ATT1_ERR_INVALID_ARG
      else if p \<noteq> kv_len m s l then ATT1_ERR_STATE
      else if p mod km_pt m = 0 \<and> (kv_free_pages m = 0 \<or> \<not> (alloc 0 \<and> alloc 1 \<and> alloc 2)) then ATT1_ERR_OOM
      else ATT1_OK)"

lemma page_mapped_at_len:
  assumes "kv_inv m"
  shows "att1_kv_mmu_find_page m s l (kv_len m s l div km_pt m) = None \<longleftrightarrow> kv_len m s l mod km_pt m = 0"
proof -
  let ?n = "kv_len m s l"
  have "att1_kv_mmu_find_page m s l (?n div km_pt m) \<noteq> None \<longleftrightarrow> ?n div km_pt m * km_pt m < ?n"
    by (rule find_page_mapped_iff [OF assms])
  also have "\<dots> \<longleftrightarrow> ?n mod km_pt m \<noteq> 0"
    using div_mult_mod_eq [of ?n "km_pt m"] by linarith
  finally show ?thesis by metis
qed

text \<open>Appending on the page that was found or allocated.\<close>

lemma kv_append_store:
  assumes "kv_inv m" "kv_table_inv m2" "km_config m2 = km_config m" "kv_entry m2 = kv_entry m"
    and "i < length (km_pages m2)" "page_matches s l (kv_len m s l div km_pt m) (km_pages m2 ! i)"
    and "kv_len m s l < km_max_positions m" "kv_width m \<le> length k" "kv_width m \<le> length v"
    and mapped: "\<And>a b c. att1_kv_mmu_find_page m2 a b c \<noteq> None \<Longrightarrow>
      att1_kv_mmu_find_page m a b c \<noteq> None
      \<or> (kv_len m s l mod km_pt m = 0 \<and> (a, b, c) = (s, l, kv_len m s l div km_pt m))"
  defines "m' \<equiv> kv_store_token i (kv_len m s l mod km_pt m) (kv_width m) k v m2"
  shows "kv_inv m'" "km_config m' = km_config m" "km_sessions m' = km_sessions m2"
    "kv_seq m' s' l' = (if s' = s \<and> l' = l then kv_seq m s l @ [(take (kv_width m) k, take (kv_width m) v)]
       else kv_seq m s' l')"
proof -
  let ?n = "kv_len m s l" and ?pt = "km_pt m"
  let ?e = "(take (kv_width m) k, take (kv_width m) v)"
  have tm: "kv_table_inv m" using assms(1) unfolding kv_inv_def by blast
  have pt: "0 < ?pt" using kv_table_inv_parts [OF tm] by simp
  have w: "kv_width m2 = kv_width m" by (simp add: kv_width_def assms(3))
  have t: "?n mod ?pt < km_pt m2" using pt assms(3) by simp
  have n: "?n div ?pt * ?pt + ?n mod ?pt = ?n" by simp
  have wl: "kv_width m2 \<le> length k" "kv_width m2 \<le> length v" using assms(8,9) w by simp_all
  note st = kv_store_spec [OF assms(2,5,6) t wl, unfolded w assms(3,4), folded m'_def, unfolded n]
  show c: "km_config m' = km_config m" "km_sessions m' = km_sessions m2" by (rule st(2), rule st(3))
  have e: "kv_entry m' a b p = (if a = s \<and> b = l \<and> p = ?n then Some ?e else kv_entry m a b p)" for a b p
    by (rule st(4))
  have ext: "kv_len m' s l = Suc ?n" "kv_seq m' s l = kv_seq m s l @ [?e]"
    using e by (intro kv_seq_extend [OF assms(1) c(1) assms(7)]; simp)+
  have same: "kv_len m' a b = kv_len m a b" "kv_seq m' a b = kv_seq m a b" if "\<not> (a = s \<and> b = l)" for a b
    using e that by (intro kv_seq_same [OF c(1)]; auto)+
  show "kv_seq m' s' l' = (if s' = s \<and> l' = l then kv_seq m s l @ [?e] else kv_seq m s' l')"
    using ext same by auto
  show "kv_inv m'"
    unfolding kv_inv_def
  proof (intro conjI allI impI)
    show "kv_table_inv m'" by (rule st(1))
  next
    fix a b p assume h: "kv_entry m' a b p \<noteq> None"
    show "p < kv_len m' a b"
    proof (cases "a = s \<and> b = l \<and> p = ?n")
      case True
      then show ?thesis using ext by simp
    next
      case False
      then have "kv_entry m' a b p = kv_entry m a b p" unfolding e by (simp only: if_False)
      then have "p < kv_len m a b" using h kv_entry_iff [OF assms(1), of a b p] by simp
      then show ?thesis using ext same by (cases "a = s \<and> b = l") auto
    qed
  next
    fix a b c assume "att1_kv_mmu_find_page m' a b c \<noteq> None"
    then have "att1_kv_mmu_find_page m2 a b c \<noteq> None" using st(5) by blast
    then have "att1_kv_mmu_find_page m a b c \<noteq> None \<or> (?n mod ?pt = 0 \<and> (a, b, c) = (s, l, ?n div ?pt))"
      by (rule mapped)
    then show "kv_entry m' a b (c * km_pt m') \<noteq> None"
    proof (elim disjE conjE)
      assume "att1_kv_mmu_find_page m a b c \<noteq> None"
      then have "kv_entry m a b (c * ?pt) \<noteq> None" using assms(1) unfolding kv_inv_def by blast
      then show ?thesis unfolding e c(1) by simp
    next
      assume z: "?n mod ?pt = 0" "(a, b, c) = (s, l, ?n div ?pt)"
      then have "c * ?pt = ?n" using n by simp
      then show ?thesis using z(2) unfolding e c(1) by simp
    qed
  qed
qed

lemma kv_append_spec_inv:
  assumes "kv_inv m" "kv_width m \<le> length k" "kv_width m \<le> length v"
    and "kv_append alloc s l p (Some k) (Some v) m = (st, m')"
  shows "st = append_status alloc m s l p \<and> kv_inv m' \<and> km_config m' = km_config m \<and> kv_live m' = kv_live m
    \<and> (\<forall>s' l'. kv_seq m' s' l' = (if st = ATT1_OK \<and> s' = s \<and> l' = l
         then kv_seq m s l @ [(take (kv_width m) k, take (kv_width m) v)] else kv_seq m s' l'))
    \<and> kk_errors (km_counters m') = (if st = ATT1_OK then kk_errors (km_counters m) else kk_errors (km_counters m) + 1)"
proof -
  have tm: "kv_table_inv m" using assms(1) unfolding kv_inv_def by blast
  let ?n = "kv_len m s l" and ?pt = "km_pt m"
  have fail: ?thesis if "(st, m') = kv_fail (append_status alloc m s l p) m" "append_status alloc m s l p \<noteq> ATT1_OK"
    using that assms(1) by (simp add: kv_fail_def)
  show ?thesis
  proof (cases "kv_live m s \<and> l < km_layers m \<and> p < km_max_positions m \<and> p = ?n")
    case False
    have "(st, m') = kv_fail (append_status alloc m s l p) m"
      using assms(4) False
      by (auto simp: kv_append_def validate_address_eq [OF tm] att1_kv_mmu_validate_position_def kv_fail_def
          append_status_def kv_len_def split: if_splits)
    moreover have "append_status alloc m s l p \<noteq> ATT1_OK" using False by (auto simp: append_status_def)
    ultimately show ?thesis by (rule fail)
  next
    case True
    then have p: "p = ?n" "kv_live m s" "l < km_layers m" "?n < km_max_positions m" by auto
    define found where "found = fst (att1_kv_mmu_lookup_existing m s l p)"
    define m1 where "m1 = snd (att1_kv_mmu_lookup_existing m s l p)"
    have f: "found = att1_kv_mmu_find_page m s l (?n div ?pt)" "\<exists>c. m1 = m\<lparr>km_counters := c\<rparr> \<and> kk_errors c = kk_errors (km_counters m)"
      using p(1) unfolding found_def m1_def att1_kv_mmu_lookup_existing_def
      by (auto split: option.split)
    then obtain c where c: "m1 = m\<lparr>km_counters := c\<rparr>" "kk_errors c = kk_errors (km_counters m)" by blast
    obtain page m2 where pg: "(case found of Some i \<Rightarrow> (Some i, m1)
        | None \<Rightarrow> att1_kv_mmu_alloc_page alloc m1 s l (?n div ?pt)) = (page, m2)" by force
    have m2: "kv_table_inv m2 \<and> km_config m2 = km_config m \<and> km_sessions m2 = km_sessions m \<and> kv_entry m2 = kv_entry m
      \<and> kk_errors (km_counters m2) = kk_errors (km_counters m)
      \<and> (\<forall>i. page = Some i \<longrightarrow> i < length (km_pages m2) \<and> page_matches s l (?n div ?pt) (km_pages m2 ! i))
      \<and> (page = None \<longleftrightarrow> ?n mod ?pt = 0 \<and> (kv_free_pages m = 0 \<or> \<not> (alloc 0 \<and> alloc 1 \<and> alloc 2)))
      \<and> (\<forall>a b c. att1_kv_mmu_find_page m2 a b c \<noteq> None \<longrightarrow> att1_kv_mmu_find_page m a b c \<noteq> None
          \<or> (page \<noteq> None \<and> ?n mod ?pt = 0 \<and> (a, b, c) = (s, l, ?n div ?pt)))"
    proof (cases found)
      case None
      then have np: "att1_kv_mmu_find_page m1 s l (?n div ?pt) = None" and z: "?n mod ?pt = 0"
        using f(1) page_mapped_at_len [OF assms(1), of s l] c(1) by auto
      have a: "att1_kv_mmu_alloc_page alloc m1 s l (?n div ?pt) = (page, m2)" using pg None by simp
      have "kk_errors (km_counters m2) = kk_errors c"
        using a c(1) by (auto simp: att1_kv_mmu_alloc_page_def Let_def split: option.splits if_splits)
      then have err: "kk_errors (km_counters m2) = kk_errors (km_counters m)" using c(2) by simp
      have "kv_table_inv m1" "kv_live m1 s" "l < km_layers m1" using tm p c(1) by simp_all
      note al = kv_alloc_spec [OF this(1) np this(2,3) a]
      have "kv_table_inv m2 \<and> km_config m2 = km_config m \<and> km_sessions m2 = km_sessions m \<and> kv_entry m2 = kv_entry m"
        using al by (simp add: c(1))
      moreover have "page = None \<longleftrightarrow> ?n mod ?pt = 0 \<and> (kv_free_pages m = 0 \<or> \<not> (alloc 0 \<and> alloc 1 \<and> alloc 2))"
        using al z unfolding kv_free_pages_0 by (simp add: c(1))
      moreover have "\<forall>a b c. att1_kv_mmu_find_page m2 a b c \<noteq> None \<longrightarrow> att1_kv_mmu_find_page m a b c \<noteq> None
          \<or> (page \<noteq> None \<and> ?n mod ?pt = 0 \<and> (a, b, c) = (s, l, ?n div ?pt))"
        using al z unfolding c(1) find_frame by metis
      ultimately show ?thesis using al err by blast
    next
      case (Some i)
      then have fi: "att1_kv_mmu_find_page m s l (?n div ?pt) = Some i" "page = Some i" "m2 = m1"
        using pg f(1) by simp_all
      have "i < length (km_pages m)" "page_matches s l (?n div ?pt) (km_pages m ! i)"
        using fi(1) find_page_iff [OF tm] by blast+
      moreover have "?n mod ?pt \<noteq> 0" using page_mapped_at_len [OF assms(1), of s l] fi(1) by simp
      ultimately show ?thesis using fi c tm by simp
    qed
    have "?n < km_max_positions m" "?pt * kv_width m \<le> SIZE_MAX" "0 < ?pt"
      using p kv_table_inv_parts [OF tm] by simp_all
    then have "kv_width m \<le> SIZE_MAX" by (cases ?pt) simp_all
    then have mul: "att1_mul_size (km_heads m2) (km_dim m2) = Some (kv_width m)"
      using m2 by (simp add: att1_mul_size_Some_iff kv_width_def)
    have r: "(st, m') = (case page of None \<Rightarrow> kv_fail ATT1_ERR_OOM m2
        | Some i \<Rightarrow> if kp_token_present (km_pages m2 ! i) ! (?n mod ?pt) then kv_fail ATT1_ERR_STATE m2
                    else (ATT1_OK, kv_store_token i (?n mod ?pt) (kv_width m) k v m2))"
      using assms(4) p pg mul
      by (auto simp: kv_append_def validate_address_eq [OF tm] att1_kv_mmu_validate_position_def kv_len_def
          Let_def found_def m1_def split: prod.splits option.splits)
    have seq2: "kv_seq m2 = kv_seq m"
      using m2 by (intro ext kv_seq_same(2)) simp_all
    show ?thesis
    proof (cases page)
      case None
      have "kv_inv m2"
        using m2 None assms(1) kv_seq_same(1) [of m2 m] unfolding kv_inv_def by (metis (no_types, lifting))
      then show ?thesis
        using r None m2 p kv_live_cong [of m2 m] seq2 by (simp add: kv_fail_def append_status_def)
    next
      case (Some i)
      have i: "i < length (km_pages m2)" "page_matches s l (?n div ?pt) (km_pages m2 ! i)"
        using m2 Some by blast+
      have "kv_table_inv m2" using m2 by blast
      then have "att1_kv_mmu_find_page m2 s l (?n div ?pt) = Some i" using find_page_iff i by simp
      moreover have "kv_entry m2 s l ?n = None" using m2 kv_len_spec(3) p(4) by metis
      moreover have "km_pt m2 = ?pt" using m2 by simp
      ultimately have np: "\<not> kp_token_present (km_pages m2 ! i) ! (?n mod ?pt)"
        by (simp add: kv_entry_def [of m2] page_entry_def split: if_splits)
      have sm: "st = ATT1_OK" "m' = kv_store_token i (?n mod ?pt) (kv_width m) k v m2"
        using r Some np by simp_all
      have mp: "att1_kv_mmu_find_page m a b c \<noteq> None \<or> (?n mod ?pt = 0 \<and> (a, b, c) = (s, l, ?n div ?pt))"
        if "att1_kv_mmu_find_page m2 a b c \<noteq> None" for a b c using m2 that by blast
      have pre: "kv_table_inv m2" "km_config m2 = km_config m" "kv_entry m2 = kv_entry m" using m2 by simp_all
      note a = kv_append_store [OF assms(1) pre i p(4) assms(2,3) mp, folded sm(2)]
      have "append_status alloc m s l p = ATT1_OK" using m2 Some p by (auto simp: append_status_def)
      moreover have "kk_errors (km_counters m') = kk_errors (km_counters m)"
        using m2 by (simp add: sm(2) kv_store_token_def Let_def)
      moreover have "kv_live m' = kv_live m" using a(3) m2 by (intro kv_live_cong) simp
      ultimately show ?thesis using a sm(1) by simp
    qed
  qed
qed

section \<open>Read\<close>

text \<open>The vector of one head within the vectors of all heads of a token.\<close>

definition head_slice :: "att1_kv_mmu \<Rightarrow> nat \<Rightarrow> f32 list \<Rightarrow> f32 list" where
  "head_slice m h xs = read_bytes (h * km_dim m) (km_dim m) xs"

definition head_out :: "att1_kv_mmu \<Rightarrow> nat \<Rightarrow> bool \<Rightarrow> bool \<Rightarrow> kv_pair \<Rightarrow> kv_out" where
  "head_out m h ok_k ok_v e =
     (if ok_k then Some (head_slice m h (fst e)) else None, if ok_v then Some (head_slice m h (snd e)) else None)"

lemma head_slice_page:
  assumes "h < km_heads m"
  shows "read_bytes (att1_kv_mmu_position_offset m t h) (km_dim m) xs
    = head_slice m h (read_bytes (t * kv_width m) (kv_width m) xs)"
proof -
  have "(h + 1) * km_dim m \<le> kv_width m" unfolding kv_width_def using assms by (intro mult_le_mono1) simp
  then show ?thesis
    by (simp add: head_slice_def read_bytes_nested att1_kv_mmu_position_offset_def kv_width_def algebra_simps)
qed

lemma kv_read_spec_inv:
  assumes "kv_inv m" "kv_live m s" "l < km_layers m" "h < km_heads m" "p < km_max_positions m" "ok_k \<or> ok_v"
  shows "\<exists>c. kv_read m s l h p ok_k ok_v =
    (if p < kv_len m s l then (ATT1_OK, m\<lparr>km_counters := c\<rparr>, head_out m h ok_k ok_v (kv_seq m s l ! p))
     else (ATT1_ERR_NOT_FOUND, m\<lparr>km_counters := c\<rparr>, None, None))"
proof -
  have tm: "kv_table_inv m" using assms(1) unfolding kv_inv_def by blast
  have hs: "read_bytes (att1_kv_mmu_position_offset (m\<lparr>km_counters := c\<rparr>) t h) (km_dim m) xs
      = head_slice m h (read_bytes (t * kv_width m) (kv_width m) xs)" for c t xs
    using head_slice_page [OF assms(4), of t xs] by (simp add: att1_kv_mmu_position_offset_def)
  show ?thesis
  proof (cases "att1_kv_mmu_find_page m s l (p div km_pt m)")
    case None
    then have "\<not> p < kv_len m s l" using kv_entry_iff [OF assms(1), of s l p] by (simp add: kv_entry_def)
    then show ?thesis
      using None assms
      by (auto simp: kv_read_def Let_def validate_address_eq [OF tm] att1_kv_mmu_validate_position_def
          att1_kv_mmu_lookup_existing_def att1_kv_mmu_error_def)
  next
    case (Some i)
    note e = kv_entry_seq [OF assms(1), of s l p]
    show ?thesis
    proof (cases "kp_token_present (km_pages m ! i) ! (p mod km_pt m)")
      case False
      then have "\<not> p < kv_len m s l" using e Some by (simp add: kv_entry_def page_entry_def split: if_splits)
      then show ?thesis
        using Some False assms
        by (auto simp: kv_read_def Let_def validate_address_eq [OF tm] att1_kv_mmu_validate_position_def
            att1_kv_mmu_lookup_existing_def att1_kv_mmu_error_def)
    next
      case True
      then have "p < kv_len m s l" "kv_seq m s l ! p =
          (read_bytes (p mod km_pt m * kv_width m) (kv_width m) (kp_keys (km_pages m ! i)),
           read_bytes (p mod km_pt m * kv_width m) (kv_width m) (kp_values (km_pages m ! i)))"
        using e Some by (simp_all add: kv_entry_def page_entry_def split: if_splits)
      then show ?thesis
        using Some True assms
        by (auto simp: kv_read_def Let_def validate_address_eq [OF tm] att1_kv_mmu_validate_position_def
            att1_kv_mmu_lookup_existing_def hs head_out_def)
    qed
  qed
qed

lemma kv_read_counters_only:
  "kv_read m s l h p ok_k ok_v = (st, m', out) \<Longrightarrow> \<exists>c. m' = m\<lparr>km_counters := c\<rparr>"
  by (auto simp: kv_read_def Let_def att1_kv_mmu_validate_address_def att1_kv_mmu_validate_position_def
      kv_fail_def att1_kv_mmu_lookup_existing_def att1_kv_mmu_error_def
      split: if_splits prod.splits option.splits att1_status.splits)

section \<open>Range copy\<close>

lemma head_out_counters [simp]: "head_out (m\<lparr>km_counters := c\<rparr>) = head_out m"
  by (intro ext) (simp add: head_out_def head_slice_def)

lemma copy_positions_spec:
  assumes "kv_inv m" "kv_live m s" "l < km_layers m" "h < km_heads m" "p + n \<le> km_max_positions m"
    "ok_k \<or> ok_v" "p \<le> kv_len m s l"
  shows "\<exists>c. copy_positions n m s l h p ok_k ok_v =
    (if p + n \<le> kv_len m s l then ATT1_OK else ATT1_ERR_NOT_FOUND, m\<lparr>km_counters := c\<rparr>,
     map (head_out m h ok_k ok_v) (take n (drop p (kv_seq m s l))))"
  using assms
proof (induction n arbitrary: m p)
  case 0
  have "m = m\<lparr>km_counters := km_counters m\<rparr>" by simp
  then show ?case using 0 by (auto intro: exI [of _ "km_counters m"])
next
  case (Suc n)
  have "kv_table_inv m" using Suc.prems(1) unfolding kv_inv_def by blast
  then have "p < 2 ^ 64" using kv_table_inv_parts(9,10) [of m] Suc.prems(5) by (simp add: SIZE_MAX_def)
  then have pm: "p mod 2 ^ 64 = p" by simp
  have "p < km_max_positions m" using Suc.prems(5) by simp
  from kv_read_spec_inv [OF Suc.prems(1-4) this Suc.prems(6)] obtain c where
    r: "kv_read m s l h p ok_k ok_v =
    (if p < kv_len m s l then (ATT1_OK, m\<lparr>km_counters := c\<rparr>, head_out m h ok_k ok_v (kv_seq m s l ! p))
     else (ATT1_ERR_NOT_FOUND, m\<lparr>km_counters := c\<rparr>, None, None))" by blast
  show ?case
  proof (cases "p < kv_len m s l")
    case False
    then show ?thesis using r Suc.prems(7) pm by auto
  next
    case True
    let ?m = "m\<lparr>km_counters := c\<rparr>"
    obtain c' where c': "copy_positions n ?m s l h (p + 1) ok_k ok_v =
      (if p + 1 + n \<le> kv_len m s l then ATT1_OK else ATT1_ERR_NOT_FOUND, m\<lparr>km_counters := c'\<rparr>,
       map (head_out m h ok_k ok_v) (take n (drop (p + 1) (kv_seq m s l))))"
      using Suc.IH [of ?m "p + 1"] Suc.prems True by auto
    have "take (Suc n) (drop p (kv_seq m s l)) = kv_seq m s l ! p # take n (drop (p + 1) (kv_seq m s l))"
      using True by (simp add: Cons_nth_drop_Suc [symmetric])
    then show ?thesis using r True pm c' by auto
  qed
qed

section \<open>Sessions\<close>

lemma kv_live_iff: "kv_live m s \<longleftrightarrow> (\<exists>i < length (km_sessions m). ks_active (km_sessions m ! i) \<and> ks_session_id (km_sessions m ! i) = s)"
  unfolding kv_live_def by (metis in_set_conv_nth)

lemma kv_create_session_spec:
  assumes "kv_inv m" "kv_create_session s m = (st, m')"
  shows "kv_inv m' \<and> km_config m' = km_config m \<and> kv_seq m' = kv_seq m
    \<and> st = (if kv_live m s then ATT1_ERR_STATE
            else if \<forall>x \<in> set (km_sessions m). ks_active x then ATT1_ERR_OOM else ATT1_OK)
    \<and> (\<forall>a. kv_live m' a \<longleftrightarrow> kv_live m a \<or> (st = ATT1_OK \<and> a = s))"
proof -
  have tm: "kv_table_inv m" using assms(1) unfolding kv_inv_def by blast
  then have ne: "km_sessions m \<noteq> []" using kv_table_inv_parts by simp
  show ?thesis
  proof (cases "kv_live m s \<or> (\<forall>x \<in> set (km_sessions m). ks_active x)")
    case True
    then have "first_index (\<lambda>s. \<not> ks_active s) (km_sessions m) = None" if "\<not> kv_live m s"
      using that by (simp add: first_index_None_iff)
    then show ?thesis
      using assms ne True by (auto simp: kv_create_session_def find_session_None_iff kv_fail_def)
  next
    case False
    then obtain i where f: "first_index (\<lambda>s. \<not> ks_active s) (km_sessions m) = Some i"
      using first_index_None_iff [of "\<lambda>s. \<not> ks_active s" "km_sessions m"] by (cases "first_index (\<lambda>s. \<not> ks_active s) (km_sessions m)") auto
    then have i: "i < length (km_sessions m)" "\<not> ks_active (km_sessions m ! i)" by (auto simp: first_index_Some_iff)
    let ?x = "\<lparr>ks_session_id = s, ks_active = True\<rparr>"
    let ?m = "m\<lparr>km_sessions := (km_sessions m)[i := ?x]\<rparr>"
    have r: "st = ATT1_OK" "m' = ?m"
      using assms(2) ne False f by (auto simp: kv_create_session_def find_session_None_iff)
    have live: "kv_live ?m a \<longleftrightarrow> kv_live m a \<or> a = s" for a
      using i unfolding kv_live_iff by (auto simp: nth_list_update split: if_splits)
    have fp: "att1_kv_mmu_find_page ?m = att1_kv_mmu_find_page m"
      by (intro ext) (simp add: att1_kv_mmu_find_page_def)
    have en: "kv_entry ?m = kv_entry m" "kv_len ?m = kv_len m" "kv_seq ?m = kv_seq m"
      using kv_entry_cong [of ?m m] by simp_all
    have po: "page_ok ?m p" if "page_ok m p" for p using that live by (simp add: page_ok_def kv_width_def)
    have uniq: "a = b" if "a < length (km_sessions ?m)" "b < length (km_sessions ?m)"
        "ks_active (km_sessions ?m ! a)" "ks_active (km_sessions ?m ! b)"
        "ks_session_id (km_sessions ?m ! a) = ks_session_id (km_sessions ?m ! b)" for a b
    proof -
      have u: "a = b" if "a < length (km_sessions m)" "b < length (km_sessions m)" "ks_active (km_sessions m ! a)"
          "ks_active (km_sessions m ! b)" "ks_session_id (km_sessions m ! a) = ks_session_id (km_sessions m ! b)" for a b
        using that tm unfolding kv_table_inv_def by blast
      have nl: "ks_session_id (km_sessions m ! c) \<noteq> s" if "c < length (km_sessions m)" "ks_active (km_sessions m ! c)" for c
        using that False unfolding kv_live_iff by blast
      show ?thesis using that i(1) u [of a b] nl [of a] nl [of b] by (cases "a = i"; cases "b = i") simp_all
    qed
    have "kv_table_inv ?m"
      using tm po uniq by (simp add: kv_table_inv_def)
    then have "kv_inv ?m" using assms(1) unfolding kv_inv_def en fp by simp
    then show ?thesis using r live en False by auto
  qed
qed

lemma option_guard_eq:
  assumes "\<And>j. x = Some j \<longleftrightarrow> P \<and> y = Some j"
  shows "x = (if P then y else None)"
proof (cases x)
  case None
  then have "\<not> (P \<and> y = Some j)" for j using assms [of j] by simp
  then show ?thesis using None by (cases y) auto
next
  case (Some j)
  then show ?thesis using assms [of j] by simp
qed

lemma kv_destroy_session_spec:
  assumes "kv_inv m" "kv_destroy_session s m = (st, m')"
  shows "kv_inv m' \<and> km_config m' = km_config m
    \<and> st = (if kv_live m s then ATT1_OK else ATT1_ERR_NOT_FOUND)
    \<and> (\<forall>a l. kv_seq m' a l = (if a = s then [] else kv_seq m a l))
    \<and> (\<forall>a. kv_live m' a \<longleftrightarrow> kv_live m a \<and> a \<noteq> s)"
proof -
  have tm: "kv_table_inv m" using assms(1) unfolding kv_inv_def by blast
  then have ne: "km_sessions m \<noteq> []" "km_pages m \<noteq> []" using kv_table_inv_parts by simp_all
  have dead: "kv_seq m s l = []" if "\<not> kv_live m s" for l
  proof -
    have "att1_kv_mmu_find_page m s l 0 = None"
    proof (rule ccontr)
      assume "att1_kv_mmu_find_page m s l 0 \<noteq> None"
      then obtain i where "i < length (km_pages m)" "page_matches s l 0 (km_pages m ! i)"
        using find_page_iff [OF tm] by blast
      then show False using kv_table_inv_page [OF tm] that by (auto simp: page_ok_def page_matches_def)
    qed
    then have "\<not> 0 * km_pt m < kv_len m s l" using find_page_mapped_iff [OF assms(1), of s l 0] by simp
    then show ?thesis by (simp add: kv_seq_def)
  qed
  show ?thesis
  proof (cases "kv_live m s")
    case False
    then show ?thesis
      using assms ne dead find_session_None_iff [of m s] by (auto simp: kv_destroy_session_def kv_fail_def)
  next
    case True
    then obtain i where f: "att1_kv_mmu_find_session m s = Some i" using find_session_iff by blast
    then have i: "i < length (km_sessions m)" "ks_active (km_sessions m ! i)" "ks_session_id (km_sessions m ! i) = s"
      by (auto simp: att1_kv_mmu_find_session_def first_index_Some_iff)
    let ?g = "\<lambda>p. if kp_active p \<and> kp_session_id p = s then att1_kv_mmu_release_page p else p"
    let ?m = "m\<lparr>km_pages := map ?g (km_pages m), km_sessions := (km_sessions m)[i := zero_session]\<rparr>"
    have r: "st = ATT1_OK" "m' = ?m" using assms(2) ne f by (auto simp: kv_destroy_session_def)
    have us: "a = b" if "a < length (km_sessions m)" "b < length (km_sessions m)" "ks_active (km_sessions m ! a)"
        "ks_active (km_sessions m ! b)" "ks_session_id (km_sessions m ! a) = ks_session_id (km_sessions m ! b)" for a b
      using that tm unfolding kv_table_inv_def by blast
    have live: "kv_live ?m a \<longleftrightarrow> kv_live m a \<and> a \<noteq> s" for a
    proof
      assume "kv_live ?m a"
      then obtain j where j: "j < length (km_sessions m)" "ks_active (km_sessions ?m ! j)" "ks_session_id (km_sessions ?m ! j) = a"
        unfolding kv_live_iff by auto
      then have "j \<noteq> i" using i(1) by (auto simp: zero_session_def)
      then show "kv_live m a \<and> a \<noteq> s" using j us [of j i] i unfolding kv_live_iff by auto
    next
      assume "kv_live m a \<and> a \<noteq> s"
      then obtain j where "j < length (km_sessions m)" "ks_active (km_sessions m ! j)" "ks_session_id (km_sessions m ! j) = a" "j \<noteq> i"
        unfolding kv_live_iff using i by auto
      then show "kv_live ?m a" unfolding kv_live_iff by (auto intro!: exI [of _ j])
    qed
    have g: "kp_active (?g p) \<longleftrightarrow> kp_active p \<and> kp_session_id p \<noteq> s" "kp_physical_page (?g p) = kp_physical_page p"
        "kp_active (?g p) \<Longrightarrow> ?g p = p" for p
      by (auto simp: att1_kv_mmu_release_page_def zero_page_def)
    have po: "page_ok ?m (?g p)" if "page_ok m p" for p
    proof (cases "kp_active (?g p)")
      case a: True
      then have "?g p = p" "kp_session_id p \<noteq> s" "kp_active p" using g by auto
      then show ?thesis using that live by (simp add: page_ok_def kv_width_def)
    next
      case False
      then show ?thesis by (simp only: page_ok_def simp_thms)
    qed
    have up: "a = b" if "a < length (km_pages m)" "b < length (km_pages m)" "kp_active (?g (km_pages m ! a))"
        "kp_active (?g (km_pages m ! b))" "page_key (?g (km_pages m ! a)) = page_key (?g (km_pages m ! b))" for a b
    proof -
      have "kp_active (km_pages m ! a)" "kp_active (km_pages m ! b)" "page_key (km_pages m ! a) = page_key (km_pages m ! b)"
        using that g by auto
      then show ?thesis using that(1,2) tm unfolding kv_table_inv_def by blast
    qed
    have u': "a = b" if "a < length (km_sessions ?m)" "b < length (km_sessions ?m)" "ks_active (km_sessions ?m ! a)"
        "ks_active (km_sessions ?m ! b)" "ks_session_id (km_sessions ?m ! a) = ks_session_id (km_sessions ?m ! b)" for a b
      using that i(1) us [of a b] by (cases "a = i"; cases "b = i") (simp_all add: zero_session_def)
    have T: "kv_table_inv ?m"
      unfolding kv_table_inv_def
    proof (intro conjI allI impI ballI)
      fix p assume "p \<in> set (km_pages ?m)"
      then obtain q where "q \<in> set (km_pages m)" "p = ?g q" by auto
      then show "page_ok ?m p" using po tm unfolding kv_table_inv_def by blast
    next
      fix a b assume "a < length (km_pages ?m)" "b < length (km_pages ?m)" "kp_active (km_pages ?m ! a)"
        "kp_active (km_pages ?m ! b)" "page_key (km_pages ?m ! a) = page_key (km_pages ?m ! b)"
      then show "a = b" using up [of a b] by simp
    qed (use tm g(2) u' in \<open>auto simp: kv_table_inv_def\<close>)
    have fp: "att1_kv_mmu_find_page ?m a l lp = (if a \<noteq> s then att1_kv_mmu_find_page m a l lp else None)" for a l lp
    proof -
      have "att1_kv_mmu_find_page ?m a l lp = Some j \<longleftrightarrow> a \<noteq> s \<and> att1_kv_mmu_find_page m a l lp = Some j" for j
        unfolding find_page_iff [OF T] find_page_iff [OF tm] using g(1) g(3)
        by (cases "j < length (km_pages m)"; cases "kp_active (?g (km_pages m ! j))") (auto simp: page_matches_def)
      then show ?thesis by (rule option_guard_eq)
    qed
    have en: "kv_entry ?m a l p = (if a = s then None else kv_entry m a l p)" for a l p
    proof (cases "att1_kv_mmu_find_page ?m a l (p div km_pt m)")
      case None
      then show ?thesis using fp [of a l "p div km_pt m"] by (auto simp: kv_entry_def split: if_splits)
    next
      case (Some j)
      then have j: "a \<noteq> s" "att1_kv_mmu_find_page m a l (p div km_pt m) = Some j" using fp by (auto split: if_splits)
      have "j < length (km_pages ?m)" "page_matches a l (p div km_pt m) (km_pages ?m ! j)"
        using Some find_page_iff [OF T] by blast+
      then have "km_pages ?m ! j = km_pages m ! j"
        using g(3) by (auto simp: page_matches_def)
      then show ?thesis using Some j by (simp add: kv_entry_def page_entry_def kv_width_def)
    qed
    have ls: "kv_len ?m s l = 0" for l by (intro kv_len_unique) (simp_all add: en)
    have lo: "kv_len ?m a l = kv_len m a l" "kv_seq ?m a l = kv_seq m a l" if "a \<noteq> s" for a l
      using that en by (intro kv_seq_same; simp)+
    have "kv_inv ?m"
      unfolding kv_inv_def
    proof (intro conjI allI impI)
      fix a l p assume h: "kv_entry ?m a l p \<noteq> None"
      then have "a \<noteq> s" "kv_entry m a l p \<noteq> None" unfolding en by (auto split: if_splits)
      then show "p < kv_len ?m a l" using lo kv_entry_iff [OF assms(1), of a l p] by simp
    next
      fix a l lp assume "att1_kv_mmu_find_page ?m a l lp \<noteq> None"
      then have "a \<noteq> s" "att1_kv_mmu_find_page m a l lp \<noteq> None" unfolding fp by (auto split: if_splits)
      then show "kv_entry ?m a l (lp * km_pt ?m) \<noteq> None"
        using assms(1) unfolding kv_inv_def en by simp
    qed (rule T)
    then show ?thesis using r True live ls lo by (auto simp: kv_seq_def)
  qed
qed

end
