(* ===== verification/Kv_Mmu_Props.thy ===== *)
theory Kv_Mmu_Props
  imports Kv_Mmu_Ops
begin

text \<open>
  The handles of the KV-MMU that its API can reach, the accounting of its pages, and the
  properties of the component with their concrete runs.
\<close>

section \<open>Reachable handles\<close>

definition pair_ok :: "att1_kv_mmu \<Rightarrow> f32 list option \<Rightarrow> f32 list option \<Rightarrow> bool" where
  "pair_ok m key value \<longleftrightarrow> (\<forall>v. key = Some v \<or> value = Some v \<longrightarrow> kv_width m \<le> length v)"

inductive kv_reachable :: "att1_kv_mmu \<Rightarrow> bool" where
  create: "att1_kv_mmu_create alloc cfg True = (ATT1_OK, Some m) \<Longrightarrow> kv_reachable m"
| open_session: "kv_reachable m \<Longrightarrow> att1_kv_mmu_create_session (Some m) s = (st, Some m') \<Longrightarrow> kv_reachable m'"
| close_session: "kv_reachable m \<Longrightarrow> att1_kv_mmu_destroy_session (Some m) s = (st, Some m') \<Longrightarrow> kv_reachable m'"
| append: "kv_reachable m \<Longrightarrow> pair_ok m key value \<Longrightarrow>
    att1_kv_mmu_append alloc (Some m) s l p key value = (st, Some m') \<Longrightarrow> kv_reachable m'"
| read: "kv_reachable m \<Longrightarrow> att1_kv_mmu_read (Some m) s l h p ok_k ok_v = (st, Some m', out) \<Longrightarrow> kv_reachable m'"
| copy_range: "kv_reachable m \<Longrightarrow>
    att1_kv_mmu_copy_range (Some m) s l h p n ok_k ok_v = (st, Some m', outs) \<Longrightarrow> kv_reachable m'"
| lookup: "kv_reachable m \<Longrightarrow> att1_kv_mmu_lookup_page (Some m) s l p ok = (st, Some m', r) \<Longrightarrow> kv_reachable m'"
| reset: "kv_reachable m \<Longrightarrow> att1_kv_mmu_reset_counters (Some m) = Some m' \<Longrightarrow> kv_reachable m'"

lemma copy_positions_counters_only:
  "copy_positions n m s l h p ok_k ok_v = (st, m', outs) \<Longrightarrow> \<exists>c. m' = m\<lparr>km_counters := c\<rparr>"
proof (induction n arbitrary: m p outs)
  case 0
  then show ?case by (auto intro: exI [of _ "km_counters m"])
next
  case (Suc n)
  obtain st1 m1 o1 where r: "kv_read m s l h (p mod 2 ^ 64) ok_k ok_v = (st1, m1, o1)" by (metis surj_pair)
  obtain c where c: "m1 = m\<lparr>km_counters := c\<rparr>" using kv_read_counters_only [OF r] by blast
  show ?case
  proof (cases "st1 = ATT1_OK")
    case False
    then show ?thesis using Suc.prems r c by auto
  next
    case True
    obtain m2 os where "copy_positions n m1 s l h (p + 1) ok_k ok_v = (st, m2, os)" "m' = m2"
      using Suc.prems r True by (auto split: prod.splits)
    then obtain c' where "m' = m1\<lparr>km_counters := c'\<rparr>" using Suc.IH by blast
    then show ?thesis using c by auto
  qed
qed

lemma kv_copy_range_counters_only:
  assumes "kv_copy_range m s l h p n ok_k ok_v = (st, m', outs)"
  shows "\<exists>c. m' = m\<lparr>km_counters := c\<rparr>"
proof -
  have v: "\<exists>c. snd (att1_kv_mmu_validate_range m p n) = m\<lparr>km_counters := c\<rparr>"
    by (auto simp: att1_kv_mmu_validate_range_def kv_fail_def att1_kv_mmu_error_def intro: exI [of _ "km_counters m"])
  obtain st1 m1 o1 where c: "copy_positions n m s l h p ok_k ok_v = (st1, m1, o1)" by (metis surj_pair)
  obtain k where "m1 = m\<lparr>km_counters := k\<rparr>" using copy_positions_counters_only [OF c] by blast
  then show ?thesis
    using assms v c
    by (auto simp: kv_copy_range_def att1_kv_mmu_error_def split: if_splits prod.splits att1_status.splits)
qed

lemma kv_lookup_counters_only:
  "kv_lookup_page m s l p ok = (st, m', r) \<Longrightarrow> \<exists>c. m' = m\<lparr>km_counters := c\<rparr>"
  by (auto simp: kv_lookup_page_def Let_def att1_kv_mmu_validate_address_def att1_kv_mmu_validate_position_def
      kv_fail_def att1_kv_mmu_lookup_existing_def att1_kv_mmu_error_def
      split: if_splits prod.splits option.splits att1_status.splits)

lemma kv_create_inv:
  assumes "att1_kv_mmu_create alloc cfg True = (ATT1_OK, Some m)"
  shows "kv_inv m \<and> (\<forall>s. \<not> kv_live m s) \<and> cfg = Some (km_config m) \<and> (\<forall>s l. kv_seq m s l = [])"
proof -
  obtain c where c: "cfg = Some c" "att1_kv_mmu_config_valid (Some c)"
    using assms by (cases cfg) (auto simp: att1_kv_mmu_create_def att1_kv_mmu_config_valid_def split: if_splits)
  have m: "km_config m = c" "km_sessions m = replicate (kc_max_sessions c) zero_session"
    "km_pages m = map (\<lambda>i. zero_page\<lparr>kp_physical_page := word_of_nat i\<rparr>) [0..<kc_max_pages c]"
    using assms c by (auto simp: att1_kv_mmu_create_def Let_def split: if_splits)
  have live: "\<not> kv_live m s" for s by (simp add: kv_live_def m zero_session_def)
  have tm: "kv_table_inv m"
    using c(2) by (auto simp: kv_table_inv_def m page_ok_def zero_page_def zero_session_def)
  have f: "att1_kv_mmu_find_page m s l lp = None" for s l lp
    unfolding att1_kv_mmu_find_page_def first_index_None_iff
    by (auto simp: m page_matches_def zero_page_def)
  then have e: "kv_entry m s l p = None" for s l p by (simp add: kv_entry_def)
  then have n: "kv_len m s l = 0" for s l by (intro kv_len_unique) simp_all
  have "kv_inv m" using tm f e unfolding kv_inv_def by simp
  then show ?thesis using live m(1) c(1) n by (auto simp: kv_seq_def)
qed

lemma kv_reachable_inv: "kv_reachable m \<Longrightarrow> kv_inv m"
proof (induction rule: kv_reachable.induct)
  case (create alloc cfg m)
  then show ?case using kv_create_inv by blast
next
  case (open_session m s st m')
  then show ?case
    using kv_create_session_spec [of m s st m'] by (auto simp: att1_kv_mmu_create_session_def)
next
  case (close_session m s st m')
  then show ?case
    using kv_destroy_session_spec [of m s st m'] by (auto simp: att1_kv_mmu_destroy_session_def)
next
  case (append m key "value" alloc s l p st m')
  show ?case
  proof (cases "key = None \<or> value = None")
    case True
    then show ?thesis using append by (auto simp: att1_kv_mmu_append_def kv_append_def kv_fail_def)
  next
    case False
    then obtain k v where "key = Some k" "value = Some v" "kv_width m \<le> length k" "kv_width m \<le> length v"
      using append.hyps(2) by (auto simp: pair_ok_def)
    then show ?thesis
      using append kv_append_spec_inv [of m k v alloc s l p st m']
      by (auto simp: att1_kv_mmu_append_def)
  qed
next
  case (read m s l h p ok_k ok_v st m' out)
  then have "kv_read m s l h p ok_k ok_v = (st, m', out)"
    by (auto simp: att1_kv_mmu_read_def split: prod.splits)
  then obtain c where "m' = m\<lparr>km_counters := c\<rparr>" using kv_read_counters_only by blast
  then show ?case using read.IH by simp
next
  case (copy_range m s l h p n ok_k ok_v st m' outs)
  then have "kv_copy_range m s l h p n ok_k ok_v = (st, m', outs)"
    by (auto simp: att1_kv_mmu_copy_range_def split: prod.splits)
  then obtain c where "m' = m\<lparr>km_counters := c\<rparr>" using kv_copy_range_counters_only by blast
  then show ?case using copy_range.IH by simp
next
  case (lookup m s l p ok st m' r)
  then have "kv_lookup_page m s l p ok = (st, m', r)"
    by (auto simp: att1_kv_mmu_lookup_page_def split: prod.splits)
  then obtain c where "m' = m\<lparr>km_counters := c\<rparr>" using kv_lookup_counters_only by blast
  then show ?case using lookup.IH by simp
next
  case (reset m m')
  then show ?case by (auto simp: att1_kv_mmu_reset_counters_def)
qed

section \<open>Page accounting\<close>

lemma kv_len_pos_live:
  assumes "kv_inv m" "0 < kv_len m s l"
  shows "kv_live m s \<and> l < km_layers m"
proof -
  have tm: "kv_table_inv m" using assms(1) unfolding kv_inv_def by blast
  have "att1_kv_mmu_find_page m s l 0 \<noteq> None" using find_page_mapped_iff [OF assms(1), of s l 0] assms(2) by simp
  then obtain i where "i < length (km_pages m)" "page_matches s l 0 (km_pages m ! i)"
    using find_page_iff [OF tm] by blast
  then show ?thesis using kv_table_inv_page [OF tm] by (auto simp: page_ok_def page_matches_def)
qed

lemma ceil_div_iff: "0 < (k :: nat) \<Longrightarrow> lp * k < n \<longleftrightarrow> lp < (n + k - 1) div k"
proof -
  assume k: "0 < k"
  have "lp < (n + k - 1) div k \<longleftrightarrow> Suc lp \<le> (n + k - 1) div k" by linarith
  also have "\<dots> \<longleftrightarrow> Suc lp * k \<le> n + k - 1" using k by (rule less_eq_div_iff_mult_less_eq)
  also have "\<dots> \<longleftrightarrow> lp * k < n" using k by auto
  finally show ?thesis by blast
qed

definition pages_needed :: "att1_kv_mmu \<Rightarrow> u64 \<Rightarrow> nat \<Rightarrow> nat" where
  "pages_needed m s l = (length (kv_seq m s l) + km_pt m - 1) div km_pt m"

lemma kv_pages_accounted_inv:
  assumes "kv_inv m"
  shows "kv_free_pages m + (\<Sum>(s, l) \<in> {s. kv_live m s} \<times> {..<km_layers m}. pages_needed m s l)
    = kc_max_pages (km_config m)"
proof -
  have tm: "kv_table_inv m" using assms unfolding kv_inv_def by blast
  have pt: "0 < km_pt m" using kv_table_inv_parts [OF tm] by simp
  let ?A = "{i. i < length (km_pages m) \<and> kp_active (km_pages m ! i)}"
  let ?D = "{s. kv_live m s} \<times> {..<km_layers m}"
  let ?S = "SIGMA d : ?D. {..<pages_needed m (fst d) (snd d)}"
  let ?f = "\<lambda>i. (let (s, l, lp) = page_key (km_pages m ! i) in ((s, l), lp))"
  have fin: "finite {s. kv_live m s}"
  proof -
    have "{s. kv_live m s} \<subseteq> ks_session_id ` set (km_sessions m)" by (auto simp: kv_live_def)
    then show ?thesis by (rule finite_subset) simp
  qed
  have key: "?f i = ?f j \<longleftrightarrow> page_key (km_pages m ! i) = page_key (km_pages m ! j)" for i j
    by (auto simp: page_key_def)
  have inj: "inj_on ?f ?A"
    using tm unfolding inj_on_def key kv_table_inv_def by blast
  have mem: "((s, l), lp) \<in> ?f ` ?A \<longleftrightarrow> lp * km_pt m < kv_len m s l" for s l lp
  proof -
    have "((s, l), lp) \<in> ?f ` ?A \<longleftrightarrow> (\<exists>i < length (km_pages m). page_matches s l lp (km_pages m ! i))"
      by (auto simp: page_matches_key page_key_def image_iff)
    also have "\<dots> \<longleftrightarrow> att1_kv_mmu_find_page m s l lp \<noteq> None"
      using find_page_iff [OF tm, of s l lp] by auto
    finally show ?thesis using find_page_mapped_iff [OF assms] by blast
  qed
  have "?f ` ?A = ?S"
  proof (intro set_eqI)
    fix x :: "(u64 \<times> nat) \<times> nat"
    obtain s l lp where x: "x = ((s, l), lp)" by (metis surj_pair)
    have "kv_live m s \<and> l < km_layers m" if "lp * km_pt m < kv_len m s l"
      using kv_len_pos_live [OF assms, of s l] that by simp
    then show "x \<in> ?f ` ?A \<longleftrightarrow> x \<in> ?S"
      unfolding x mem using ceil_div_iff [OF pt, of lp "kv_len m s l"] by (auto simp: pages_needed_def)
  qed
  then have "card ?A = card ?S" using card_image [OF inj] by simp
  also have "\<dots> = (\<Sum>d \<in> ?D. pages_needed m (fst d) (snd d))"
    using fin by (subst card_SigmaI) auto
  finally have "card ?A = (\<Sum>(s, l) \<in> ?D. pages_needed m s l)" by (simp add: case_prod_beta)
  moreover have "card ?A = length (filter kp_active (km_pages m))"
    by (simp add: length_filter_conv_card)
  moreover have "length (filter kp_active (km_pages m)) + kv_free_pages m = length (km_pages m)"
    unfolding kv_free_pages_def by (rule sum_length_filter_compl)
  ultimately show ?thesis using kv_table_inv_parts(14) [OF tm] by simp
qed

section \<open>A concrete handle\<close>

definition demo_kcfg :: att1_kv_mmu_config where
  "demo_kcfg = \<lparr>kc_max_sessions = 2, kc_max_pages = 3, kc_num_layers = 1, kc_num_heads = 2,
     kc_head_dim = 1, kc_page_tokens = 2, kc_max_positions = 4\<rparr>"

definition demo_k0 :: att1_kv_mmu where
  "demo_k0 = the (snd (att1_kv_mmu_create (\<lambda>_. True) (Some demo_kcfg) True))"

definition demo_k1 :: att1_kv_mmu where
  "demo_k1 = the (snd (att1_kv_mmu_create_session (Some demo_k0) 7))"

definition demo_k2 :: att1_kv_mmu where
  "demo_k2 = the (snd (att1_kv_mmu_append (\<lambda>_. True) (Some demo_k1) 7 0 0 (Some [1, 2]) (Some [3, 4])))"

lemma demo_k0_create:
  "att1_kv_mmu_create (\<lambda>_. True) (Some demo_kcfg) True = (ATT1_OK, Some demo_k0)"
  by (simp add: demo_k0_def att1_kv_mmu_create_def kv_config_valid_iff demo_kcfg_def SIZE_MAX_def Let_def)

lemma demo_k0_facts:
  "kv_reachable demo_k0" "kv_inv demo_k0" "km_config demo_k0 = demo_kcfg" "\<And>s. \<not> kv_live demo_k0 s"
  "\<And>s l. kv_seq demo_k0 s l = []"
proof -
  show r: "kv_reachable demo_k0" by (rule kv_reachable.create [OF demo_k0_create])
  then show "kv_inv demo_k0" by (rule kv_reachable_inv)
  show "km_config demo_k0 = demo_kcfg" "\<And>s. \<not> kv_live demo_k0 s" "\<And>s l. kv_seq demo_k0 s l = []"
    using kv_create_inv [OF demo_k0_create] by simp_all
qed

lemma demo_k1_facts:
  "kv_reachable demo_k1" "kv_inv demo_k1" "km_config demo_k1 = demo_kcfg" "\<And>s. kv_live demo_k1 s \<longleftrightarrow> s = 7"
  "\<And>s l. kv_seq demo_k1 s l = []"
proof -
  have c: "att1_kv_mmu_create_session (Some demo_k0) 7 = (fst (kv_create_session 7 demo_k0), Some demo_k1)"
    by (simp add: demo_k1_def att1_kv_mmu_create_session_def)
  show r: "kv_reachable demo_k1" by (rule kv_reachable.open_session [OF demo_k0_facts(1) c])
  then show "kv_inv demo_k1" by (rule kv_reachable_inv)
  have k: "kv_create_session 7 demo_k0 = (fst (kv_create_session 7 demo_k0), demo_k1)"
    by (simp add: demo_k1_def att1_kv_mmu_create_session_def)
  have "zero_session \<in> set (km_sessions demo_k0)"
    by (simp add: demo_k0_def att1_kv_mmu_create_def kv_config_valid_iff demo_kcfg_def SIZE_MAX_def Let_def)
  moreover have "\<not> ks_active zero_session" by (simp add: zero_session_def)
  ultimately have n: "(\<forall>x \<in> set (km_sessions demo_k0). ks_active x) = False" by blast
  show "km_config demo_k1 = demo_kcfg" "\<And>s. kv_live demo_k1 s \<longleftrightarrow> s = 7" "\<And>s l. kv_seq demo_k1 s l = []"
    using kv_create_session_spec [OF demo_k0_facts(2) k, unfolded n] demo_k0_facts by simp_all
qed

section \<open>Properties\<close>

text \<open>
  C25. Append, on every branch: the status is determined by the session, the layer, the position
  (which must be the length of the sequence) and, at a page boundary, by the free pages and the
  allocator. A successful append adds the pair at the end of its (session, layer) sequence; no
  other sequence changes, a failed append changes none, and it counts one error.
\<close>

theorem kv_append_spec:
  assumes "kv_reachable m" "kv_width m \<le> length k" "kv_width m \<le> length v"
    and "att1_kv_mmu_append alloc (Some m) s l p (Some k) (Some v) = (st, Some m')"
  shows "st = (if \<not> kv_live m s then ATT1_ERR_NOT_FOUND
      else if km_layers m \<le> l \<or> km_max_positions m \<le> p then ATT1_ERR_INVALID_ARG
      else if p \<noteq> length (kv_seq m s l) then ATT1_ERR_STATE
      else if p mod km_pt m = 0 \<and> (kv_free_pages m = 0 \<or> \<not> (alloc 0 \<and> alloc 1 \<and> alloc 2)) then ATT1_ERR_OOM
      else ATT1_OK)
    \<and> (\<forall>s' l'. kv_seq m' s' l' = (if st = ATT1_OK \<and> s' = s \<and> l' = l
         then kv_seq m s l @ [(take (kv_width m) k, take (kv_width m) v)] else kv_seq m s' l'))
    \<and> kk_errors (km_counters m') = (if st = ATT1_OK then kk_errors (km_counters m) else kk_errors (km_counters m) + 1)"
proof -
  have a: "kv_append alloc s l p (Some k) (Some v) m = (st, m')"
    using assms(4) by (auto simp: att1_kv_mmu_append_def)
  show ?thesis
    using kv_append_spec_inv [OF kv_reachable_inv [OF assms(1)] assms(2,3) a] by (simp add: append_status_def)
qed

lemma demo_free_pages: "kv_free_pages demo_k1 \<noteq> 0"
proof -
  have "pages_needed demo_k1 s l = 0" for s l
    using demo_k1_facts(5) [of s l] demo_k1_facts(3) by (simp add: pages_needed_def demo_kcfg_def)
  then show ?thesis
    using kv_pages_accounted_inv [OF demo_k1_facts(2)] demo_k1_facts(3) by (simp add: demo_kcfg_def)
qed

lemma demo_append:
  "att1_kv_mmu_append (\<lambda>_. True) (Some demo_k1) 7 0 0 (Some [1, 2]) (Some [3, 4])
    = (fst (kv_append (\<lambda>_. True) 7 0 0 (Some [1, 2]) (Some [3, 4]) demo_k1), Some demo_k2)"
  by (simp add: demo_k2_def att1_kv_mmu_append_def)

lemma demo_width: "kv_width demo_k1 = 2"
  by (simp add: kv_width_def demo_k1_facts(3) demo_kcfg_def)

lemma demo_k2_facts:
  "kv_reachable demo_k2" "kv_inv demo_k2" "km_config demo_k2 = demo_kcfg" "kv_live demo_k2 7"
  "kv_seq demo_k2 7 0 = [([1, 2], [3, 4])]"
proof -
  have "pair_ok demo_k1 (Some [1, 2]) (Some [3, 4])" by (auto simp: pair_ok_def demo_width)
  then show r: "kv_reachable demo_k2" by (rule kv_reachable.append [OF demo_k1_facts(1) _ demo_append])
  then show "kv_inv demo_k2" by (rule kv_reachable_inv)
  have w: "kv_width demo_k1 \<le> length [1, 2 :: f32]" "kv_width demo_k1 \<le> length [3, 4 :: f32]" by (simp_all add: demo_width)
  have k: "kv_append (\<lambda>_. True) 7 0 0 (Some [1, 2]) (Some [3, 4]) demo_k1
      = (fst (kv_append (\<lambda>_. True) 7 0 0 (Some [1, 2]) (Some [3, 4]) demo_k1), demo_k2)"
    by (simp add: demo_k2_def att1_kv_mmu_append_def)
  have "kv_len demo_k1 7 0 = 0" using demo_k1_facts(5) [of 7 0] by (metis length_kv_seq list.size(3))
  then have "append_status (\<lambda>_. True) demo_k1 7 0 0 = ATT1_OK"
    using demo_free_pages demo_k1_facts(3,4) by (simp add: append_status_def demo_kcfg_def)
  then show "km_config demo_k2 = demo_kcfg" "kv_live demo_k2 7" "kv_seq demo_k2 7 0 = [([1, 2], [3, 4])]"
    using kv_append_spec_inv [OF demo_k1_facts(2) w k] demo_k1_facts(3-5) by (simp_all add: demo_width)
qed

theorem kv_append_spec_witness:
  "\<exists>m'. att1_kv_mmu_append (\<lambda>_. True) (Some demo_k1) 7 0 0 (Some [1, 2]) (Some [3, 4]) = (ATT1_OK, Some m')
    \<and> kv_seq m' 7 0 = [([1, 2], [3, 4])]"
proof -
  have w: "kv_width demo_k1 \<le> length [1, 2 :: f32]" "kv_width demo_k1 \<le> length [3, 4 :: f32]" by (simp_all add: demo_width)
  note a = kv_append_spec [OF demo_k1_facts(1) w demo_append]
  have "fst (kv_append (\<lambda>_. True) 7 0 0 (Some [1, 2]) (Some [3, 4]) demo_k1) = ATT1_OK"
    using a demo_free_pages demo_k1_facts(3-5) by (simp add: demo_kcfg_def del: length_kv_seq)
  then show ?thesis using demo_append demo_k2_facts(5) by simp
qed

text \<open>
  Read returns the slice of the requested head of the pair appended at that position, in the
  streams the caller asked for, exactly for the positions of the sequence; the stored
  sequences and the page table do not change.
\<close>

theorem kv_read_spec:
  assumes "kv_reachable m" "kv_live m s" "l < km_layers m" "h < km_heads m" "p < km_max_positions m" "ok_k \<or> ok_v"
  shows "\<exists>c. att1_kv_mmu_read (Some m) s l h p ok_k ok_v =
    (if p < length (kv_seq m s l)
     then (ATT1_OK, Some (m\<lparr>km_counters := c\<rparr>),
           (if ok_k then Some (take (km_dim m) (drop (h * km_dim m) (fst (kv_seq m s l ! p)))) else None),
           (if ok_v then Some (take (km_dim m) (drop (h * km_dim m) (snd (kv_seq m s l ! p)))) else None))
     else (ATT1_ERR_NOT_FOUND, Some (m\<lparr>km_counters := c\<rparr>), None, None))"
proof -
  obtain c where "kv_read m s l h p ok_k ok_v =
    (if p < kv_len m s l then (ATT1_OK, m\<lparr>km_counters := c\<rparr>, head_out m h ok_k ok_v (kv_seq m s l ! p))
     else (ATT1_ERR_NOT_FOUND, m\<lparr>km_counters := c\<rparr>, None, None))"
    using kv_read_spec_inv [OF kv_reachable_inv [OF assms(1)] assms(2-6)] by blast
  then show ?thesis
    by (intro exI [of _ c]) (simp add: att1_kv_mmu_read_def head_out_def head_slice_def read_bytes_def)
qed

theorem kv_read_spec_witness:
  "\<exists>m'. att1_kv_mmu_read (Some demo_k2) 7 0 1 0 True False = (ATT1_OK, Some m', Some [2], None)"
proof -
  have c: "(0 :: nat) < km_layers demo_k2" "(1 :: nat) < km_heads demo_k2" "(0 :: nat) < km_max_positions demo_k2"
    "km_dim demo_k2 = 1"
    using demo_k2_facts(3) by (simp_all add: demo_kcfg_def)
  from kv_read_spec [OF demo_k2_facts(1,4) c(1-3), of True False] show ?thesis
    using demo_k2_facts(5) c(4) by (auto simp del: length_kv_seq)
qed

text \<open>
  A range copy inside the capacity writes, in token order, the head slices of the positions
  of the range that are filled; it succeeds exactly when the whole range is filled and reports
  the missing position otherwise.
\<close>

theorem kv_copy_range_spec:
  assumes "kv_reachable m" "kv_live m s" "l < km_layers m" "h < km_heads m" "0 < n"
    and "p + n \<le> km_max_positions m" "p \<le> length (kv_seq m s l)" "ok_k \<or> ok_v"
  shows "\<exists>c. att1_kv_mmu_copy_range (Some m) s l h p n ok_k ok_v =
    (if p + n \<le> length (kv_seq m s l) then ATT1_OK else ATT1_ERR_NOT_FOUND, Some (m\<lparr>km_counters := c\<rparr>),
     map (head_out m h ok_k ok_v) (take n (drop p (kv_seq m s l))))"
proof -
  have i: "kv_inv m" by (rule kv_reachable_inv [OF assms(1)])
  have "km_max_positions m \<le> SIZE_MAX"
    using i kv_table_inv_parts(9,10) [of m] unfolding kv_inv_def by simp
  then have b: "p + n \<le> SIZE_MAX" "(p + n) mod 2 ^ 64 = p + n" using assms(6) by (simp_all add: SIZE_MAX_def)
  have pl: "p \<le> kv_len m s l" using assms(7) by simp
  from copy_positions_spec [OF i assms(2-4,6,8) pl] obtain c where
    c: "copy_positions n m s l h p ok_k ok_v =
    (if p + n \<le> kv_len m s l then ATT1_OK else ATT1_ERR_NOT_FOUND, m\<lparr>km_counters := c\<rparr>,
     map (head_out m h ok_k ok_v) (take n (drop p (kv_seq m s l))))" by blast
  have v: "att1_kv_mmu_validate_range m p n = (ATT1_OK, m)"
  proof -
    have "\<not> SIZE_MAX - (n - 1) < p" using b(1) assms(5) by linarith
    then show ?thesis using b(2) assms(5,6) by (simp add: att1_kv_mmu_validate_range_def)
  qed
  have "\<exists>c'. kv_copy_range m s l h p n ok_k ok_v =
    (if p + n \<le> kv_len m s l then ATT1_OK else ATT1_ERR_NOT_FOUND, m\<lparr>km_counters := c'\<rparr>,
     map (head_out m h ok_k ok_v) (take n (drop p (kv_seq m s l))))"
    using v c assms(4,8) by (auto simp: kv_copy_range_def)
  then show ?thesis by (auto simp: att1_kv_mmu_copy_range_def)
qed

theorem kv_copy_range_spec_witness:
  "\<exists>m'. att1_kv_mmu_copy_range (Some demo_k2) 7 0 0 0 2 True True
    = (ATT1_ERR_NOT_FOUND, Some m', [(Some [1], Some [3])])"
proof -
  have c: "(0 :: nat) < km_layers demo_k2" "(0 :: nat) < km_heads demo_k2" "(0 :: nat) < 2" "0 + 2 \<le> km_max_positions demo_k2"
    "km_dim demo_k2 = 1" "0 \<le> length (kv_seq demo_k2 7 0)"
    using demo_k2_facts(3) by (simp_all add: demo_kcfg_def)
  from kv_copy_range_spec [OF demo_k2_facts(1,4) c(1-4) c(6), of True True] show ?thesis
    using demo_k2_facts(5) c(5) by (auto simp: head_out_def head_slice_def read_bytes_def simp del: length_kv_seq)
qed

text \<open>
  Sessions are isolated: closing a session empties exactly the sequences of that session,
  and every other session keeps all its layers.
\<close>

theorem kv_destroy_session_isolation:
  assumes "kv_reachable m" "att1_kv_mmu_destroy_session (Some m) s = (st, Some m')"
  shows "st = (if kv_live m s then ATT1_OK else ATT1_ERR_NOT_FOUND)
    \<and> (\<forall>a l. kv_seq m' a l = (if a = s then [] else kv_seq m a l))
    \<and> (\<forall>a. kv_live m' a \<longleftrightarrow> kv_live m a \<and> a \<noteq> s)"
proof -
  have "kv_destroy_session s m = (st, m')" using assms(2) by (auto simp: att1_kv_mmu_destroy_session_def)
  from kv_destroy_session_spec [OF kv_reachable_inv [OF assms(1)] this] show ?thesis by blast
qed

theorem kv_destroy_session_isolation_witness:
  "\<exists>m'. att1_kv_mmu_destroy_session (Some demo_k2) 7 = (ATT1_OK, Some m') \<and> kv_seq m' 7 0 = []"
proof -
  obtain st m' where d: "att1_kv_mmu_destroy_session (Some demo_k2) 7 = (st, Some m')"
    by (simp add: att1_kv_mmu_destroy_session_def)
  from kv_destroy_session_isolation [OF demo_k2_facts(1) d] d demo_k2_facts(4) show ?thesis by auto
qed

text \<open>
  C38. No page leaks: in every reachable handle the free pages and the pages the stored
  sequences need (their lengths divided by the page size, rounded up, over all open sessions
  and layers) add up to the configured number of pages.
\<close>

theorem kv_pages_accounted:
  assumes "kv_reachable m"
  shows "kv_free_pages m
    + (\<Sum>(s, l) \<in> {s. kv_live m s} \<times> {..<km_layers m}. (length (kv_seq m s l) + km_pt m - 1) div km_pt m)
    = kc_max_pages (km_config m)"
  using kv_pages_accounted_inv [OF kv_reachable_inv [OF assms]] unfolding pages_needed_def .

theorem kv_pages_accounted_witness: "kv_free_pages demo_k2 = 2"
proof -
  have l: "kv_live demo_k2 = kv_live demo_k1"
  proof -
    have w: "kv_width demo_k1 \<le> length [1, 2 :: f32]" "kv_width demo_k1 \<le> length [3, 4 :: f32]" by (simp_all add: demo_width)
    have k: "kv_append (\<lambda>_. True) 7 0 0 (Some [1, 2]) (Some [3, 4]) demo_k1
      = (fst (kv_append (\<lambda>_. True) 7 0 0 (Some [1, 2]) (Some [3, 4]) demo_k1), demo_k2)"
      by (simp add: demo_k2_def att1_kv_mmu_append_def)
    from kv_append_spec_inv [OF demo_k1_facts(2) w k] show ?thesis by blast
  qed
  have "{s. kv_live demo_k2 s} \<times> {..<km_layers demo_k2} = {(7, 0)}"
    using demo_k1_facts(4) demo_k2_facts(3) by (auto simp: l demo_kcfg_def)
  with kv_pages_accounted [OF demo_k2_facts(1)] demo_k2_facts(3,5) show ?thesis
    by (simp add: demo_kcfg_def del: length_kv_seq)
qed

text \<open>
  The range check accepts a non-empty range exactly when it ends within the capacity or when
  its end is \<open>2 ^ 64\<close>: there the sum wraps to 0 and passes, because the overflow test is off by
  one.
\<close>

theorem kv_validate_range_iff:
  assumes "start < 2 ^ 64" "count < 2 ^ 64" "km_max_positions m < 2 ^ 64"
  shows "fst (att1_kv_mmu_validate_range m start count) = ATT1_OK \<longleftrightarrow>
    0 < count \<and> (start + count \<le> km_max_positions m \<or> start + count = 2 ^ 64)"
proof (cases "start + count < 2 ^ 64")
  case True
  then show ?thesis by (auto simp: att1_kv_mmu_validate_range_def kv_fail_def SIZE_MAX_def)
next
  case False
  then show ?thesis
    using assms by (cases "start + count = 2 ^ 64") (auto simp: att1_kv_mmu_validate_range_def kv_fail_def SIZE_MAX_def)
qed

theorem kv_validate_range_iff_witness:
  "fst (att1_kv_mmu_validate_range demo_k2 (2 ^ 64 - 5) 5) = ATT1_OK
   \<and> fst (att1_kv_mmu_validate_range demo_k2 (2 ^ 64 - 5) 6) \<noteq> ATT1_OK"
proof -
  have b: "km_max_positions demo_k2 < 2 ^ 64" "km_max_positions demo_k2 = 4"
    using demo_k2_facts(3) by (simp_all add: demo_kcfg_def)
  show ?thesis
    using kv_validate_range_iff [of "2 ^ 64 - 5" 5 demo_k2] kv_validate_range_iff [of "2 ^ 64 - 5" 6 demo_k2] b by simp
qed

end
