(* ===== verification/Kv_Cache.thy ===== *)
theory Kv_Cache
  imports Kv_Store
begin

text \<open>
  The local KV cache (\<^verbatim>\<open>src/kv_cache.c\<close>): one contiguous buffer for the keys and one for the
  values, laid out as [position][head][dimension], and its correctness as a \<open>kv_store\<close>. Sizes
  are natural numbers; the creation checks keep every index below \<open>2 ^ 64\<close>.
\<close>

section \<open>State and operations\<close>

record att1_kv_cache =
  cc_max_positions :: nat
  cc_num_heads :: nat
  cc_head_dim :: nat
  cc_length :: nat
  cc_keys :: "f32 list option"
  cc_values :: "f32 list option"

definition zero_cache :: att1_kv_cache where
  "zero_cache = \<lparr>cc_max_positions = 0, cc_num_heads = 0, cc_head_dim = 0, cc_length = 0,
     cc_keys = None, cc_values = None\<rparr>"

text \<open>A pointer into one of the buffers is its offset.\<close>

definition att1_kv_cache_slot :: "nat \<Rightarrow> nat \<Rightarrow> nat \<Rightarrow> nat \<Rightarrow> nat" where
  "att1_kv_cache_slot head_dim num_heads position head = ((position * num_heads) + head) * head_dim"

definition att1_kv_cache_free :: "att1_kv_cache option \<Rightarrow> att1_kv_cache option" where
  "att1_kv_cache_free cp = map_option (\<lambda>_. zero_cache) cp"

definition att1_kv_cache_init ::
  "(nat \<Rightarrow> bool) \<Rightarrow> att1_kv_cache option \<Rightarrow> nat \<Rightarrow> nat \<Rightarrow> nat \<Rightarrow> att1_status \<times> att1_kv_cache option" where
  "att1_kv_cache_init alloc cp max_positions num_heads head_dim =
     (case cp of
        None \<Rightarrow> (ATT1_ERR_INVALID_ARG, None)
      | Some _ \<Rightarrow>
        (if max_positions = 0 \<or> num_heads = 0 \<or> head_dim = 0 then (ATT1_ERR_INVALID_ARG, Some zero_cache)
         else (case att1_mul_size max_positions num_heads of
                 None \<Rightarrow> (ATT1_ERR_INVALID_ARG, Some zero_cache)
               | Some vectors \<Rightarrow>
                 (case att1_mul_size vectors head_dim of
                    None \<Rightarrow> (ATT1_ERR_INVALID_ARG, Some zero_cache)
                  | Some elements \<Rightarrow>
                    (if \<not> alloc 0 \<or> \<not> alloc 1 then (ATT1_ERR_OOM, att1_kv_cache_free (Some zero_cache))
                     else (ATT1_OK, Some
                       \<lparr>cc_max_positions = max_positions, cc_num_heads = num_heads, cc_head_dim = head_dim,
                        cc_length = 0, cc_keys = Some (replicate elements 0),
                        cc_values = Some (replicate elements 0)\<rparr>))))))"

text \<open>The result is the \<^verbatim>\<open>int\<close> the code returns.\<close>

definition att1_kv_cache_append ::
  "att1_kv_cache option \<Rightarrow> f32 list option \<Rightarrow> f32 list option \<Rightarrow> int \<times> att1_kv_cache option" where
  "att1_kv_cache_append cp key value =
     (case (cp, key, value) of
        (Some c, Some k, Some v) \<Rightarrow>
          (case (cc_keys c, cc_values c) of
             (Some ks, Some vs) \<Rightarrow>
               (if cc_max_positions c \<le> cc_length c then (-1, cp)
                else (case att1_mul_size (cc_num_heads c) (cc_head_dim c) of
                        None \<Rightarrow> (-1, cp)
                      | Some elements \<Rightarrow>
                        (let off = att1_kv_cache_slot (cc_head_dim c) (cc_num_heads c) (cc_length c) 0
                         in (0, Some (c\<lparr>cc_keys := Some (write_bytes off (take elements k) ks),
                                        cc_values := Some (write_bytes off (take elements v) vs),
                                        cc_length := cc_length c + 1\<rparr>)))))
           | _ \<Rightarrow> (-1, cp))
      | _ \<Rightarrow> (-1, cp))"

definition att1_kv_cache_key :: "att1_kv_cache option \<Rightarrow> nat \<Rightarrow> nat \<Rightarrow> nat option" where
  "att1_kv_cache_key cp position head =
     (case cp of
        None \<Rightarrow> None
      | Some c \<Rightarrow>
        (if cc_keys c = None then None
         else if cc_length c \<le> position \<or> cc_num_heads c \<le> head then None
         else Some (att1_kv_cache_slot (cc_head_dim c) (cc_num_heads c) position head)))"

definition att1_kv_cache_value :: "att1_kv_cache option \<Rightarrow> nat \<Rightarrow> nat \<Rightarrow> nat option" where
  "att1_kv_cache_value cp position head =
     (case cp of
        None \<Rightarrow> None
      | Some c \<Rightarrow>
        (if cc_values c = None then None
         else if cc_length c \<le> position \<or> cc_num_heads c \<le> head then None
         else Some (att1_kv_cache_slot (cc_head_dim c) (cc_num_heads c) position head)))"

text \<open>
  The loop of the range copy: \<open>n\<close> positions from \<open>p\<close> on. The lists are what has been written to
  the two outputs; a \<^verbatim>\<open>NULL\<close> output stays empty.
\<close>

fun cache_copy ::
  "att1_kv_cache \<Rightarrow> nat \<Rightarrow> nat \<Rightarrow> nat \<Rightarrow> bool \<Rightarrow> bool \<Rightarrow> f32 list \<Rightarrow> f32 list \<Rightarrow> int \<times> f32 list \<times> f32 list" where
  "cache_copy c 0 p head ok_k ok_v ks vs = (0, ks, vs)"
| "cache_copy c (Suc n) p head ok_k ok_v ks vs =
     (case (att1_kv_cache_key (Some c) p head, att1_kv_cache_value (Some c) p head) of
        (Some kp, Some vp) \<Rightarrow>
          cache_copy c n (p + 1) head ok_k ok_v
            (if ok_k then ks @ read_bytes kp (cc_head_dim c) (the (cc_keys c)) else ks)
            (if ok_v then vs @ read_bytes vp (cc_head_dim c) (the (cc_values c)) else vs)
      | _ \<Rightarrow> (-1, ks, vs))"

definition att1_kv_cache_copy_range ::
  "att1_kv_cache option \<Rightarrow> nat \<Rightarrow> nat \<Rightarrow> nat \<Rightarrow> bool \<Rightarrow> bool \<Rightarrow> int \<times> f32 list \<times> f32 list" where
  "att1_kv_cache_copy_range cp start_position position_count head out_keys_ok out_values_ok =
     (case cp of
        None \<Rightarrow> (-1, [], [])
      | Some c \<Rightarrow>
        (if \<not> out_keys_ok \<and> \<not> out_values_ok then (-1, [], [])
         else if position_count = 0 \<or> cc_num_heads c \<le> head then (-1, [], [])
         else if cc_length c < start_position then (-1, [], [])
         else if cc_length c - start_position < position_count then (-1, [], [])
         else cache_copy c position_count start_position head out_keys_ok out_values_ok [] []))"

section \<open>The cache as a store\<close>

definition cc_width :: "att1_kv_cache \<Rightarrow> nat" where "cc_width c = cc_num_heads c * cc_head_dim c"

definition cache_inv :: "att1_kv_cache \<Rightarrow> bool" where
  "cache_inv c \<longleftrightarrow> 0 < cc_num_heads c \<and> 0 < cc_head_dim c \<and> cc_length c \<le> cc_max_positions c
     \<and> cc_width c \<le> SIZE_MAX
     \<and> (\<exists>ks vs. cc_keys c = Some ks \<and> cc_values c = Some vs
          \<and> length ks = cc_max_positions c * cc_width c \<and> length vs = cc_max_positions c * cc_width c)"

definition cache_pair :: "att1_kv_cache \<Rightarrow> nat \<Rightarrow> kv_pair" where
  "cache_pair c p = (read_bytes (p * cc_width c) (cc_width c) (the (cc_keys c)),
                     read_bytes (p * cc_width c) (cc_width c) (the (cc_values c)))"

definition cache_content :: "att1_kv_cache \<Rightarrow> kv_pair list" where
  "cache_content c = map (cache_pair c) [0..<cc_length c]"

definition cache_append :: "f32 list \<Rightarrow> f32 list \<Rightarrow> att1_kv_cache \<Rightarrow> bool \<times> att1_kv_cache" where
  "cache_append k v c =
     (case att1_kv_cache_append (Some c) (Some k) (Some v) of (r, c') \<Rightarrow> (r = 0, the c'))"

definition cache_read :: "att1_kv_cache \<Rightarrow> nat \<Rightarrow> nat \<Rightarrow> kv_pair option" where
  "cache_read c p h =
     (case (att1_kv_cache_key (Some c) p h, att1_kv_cache_value (Some c) p h) of
        (Some kp, Some vp) \<Rightarrow> Some (read_bytes kp (cc_head_dim c) (the (cc_keys c)),
                                    read_bytes vp (cc_head_dim c) (the (cc_values c)))
      | _ \<Rightarrow> None)"

lemma cc_width_update [simp]: "cc_width (c\<lparr>cc_keys := a, cc_values := b, cc_length := n\<rparr>) = cc_width c"
  by (simp add: cc_width_def)

lemma length_cache_content [simp]: "length (cache_content c) = cc_length c"
  by (simp add: cache_content_def)

lemma row_fits: "p < n \<Longrightarrow> p * w + w \<le> n * (w :: nat)"
proof -
  assume "p < n"
  then have "(p + 1) * w \<le> n * w" by (intro mult_le_mono1) simp
  then show ?thesis by simp
qed

lemma row_apart: "p \<noteq> q \<Longrightarrow> p * w + w \<le> q * w \<or> q * w + w \<le> p * (w :: nat)"
  using row_fits [of p q w] row_fits [of q p w] by linarith

lemma cache_append_eq:
  assumes "cache_inv c"
  shows "att1_kv_cache_append (Some c) (Some k) (Some v) =
    (if cc_max_positions c \<le> cc_length c then (-1, Some c)
     else (0, Some (c\<lparr>cc_keys := Some (write_bytes (cc_length c * cc_width c) (take (cc_width c) k) (the (cc_keys c))),
        cc_values := Some (write_bytes (cc_length c * cc_width c) (take (cc_width c) v) (the (cc_values c))),
        cc_length := cc_length c + 1\<rparr>)))"
  using assms
  by (auto simp: cache_inv_def att1_kv_cache_append_def att1_kv_cache_slot_def cc_width_def att1_mul_size_Some_iff
      att1_mul_size_None_iff mult.assoc Let_def split: option.splits)

lemma cache_append_law:
  assumes "cache_inv c" "cc_width c \<le> length k" "cc_width c \<le> length v" "cache_append k v c = (ok, c')"
  shows "cache_inv c' \<and> cc_num_heads c' = cc_num_heads c \<and> cc_head_dim c' = cc_head_dim c
    \<and> cc_max_positions c' = cc_max_positions c \<and> (ok \<longleftrightarrow> cc_length c < cc_max_positions c)
    \<and> cache_content c' = (if ok then cache_content c @ [(take (cc_width c) k, take (cc_width c) v)] else cache_content c)"
proof (cases "cc_length c < cc_max_positions c")
  case False
  then show ?thesis using assms(1,4) by (simp add: cache_append_def cache_append_eq)
next
  case True
  let ?w = "cc_width c" and ?n = "cc_length c"
  obtain ks vs where b: "cc_keys c = Some ks" "cc_values c = Some vs" "length ks = cc_max_positions c * ?w"
    "length vs = cc_max_positions c * ?w" using assms(1) by (auto simp: cache_inv_def)
  have fit: "?n * ?w + ?w \<le> cc_max_positions c * ?w" by (rule row_fits [OF True])
  let ?c = "c\<lparr>cc_keys := Some (write_bytes (?n * ?w) (take ?w k) ks),
      cc_values := Some (write_bytes (?n * ?w) (take ?w v) vs), cc_length := ?n + 1\<rparr>"
  have r: "ok" "c' = ?c"
    using assms(1,4) True b by (simp_all add: cache_append_def cache_append_eq)
  have len: "length (take ?w k) = ?w" "length (take ?w v) = ?w" using assms(2,3) by simp_all
  have "cache_pair ?c p = (if p = ?n then (take ?w k, take ?w v) else cache_pair c p)" if "p \<le> ?n" for p
  proof (cases "p = ?n")
    case True
    then show ?thesis using fit b len by (simp add: cache_pair_def read_write_same)
  next
    case False
    then show ?thesis
      using fit b len row_apart [of p ?n ?w] by (simp add: cache_pair_def read_write_other)
  qed
  then have "cache_content ?c = cache_content c @ [(take ?w k, take ?w v)]"
    by (simp add: cache_content_def)
  moreover have "cache_inv ?c"
    using assms(1) True b fit len by (simp add: cache_inv_def)
  ultimately show ?thesis using r True by simp
qed

lemma cache_read_law:
  assumes "cache_inv c" "h < cc_num_heads c"
  shows "cache_read c p h = (if p < cc_length c then Some (head_of (cc_head_dim c) h (cache_content c ! p)) else None)"
proof -
  obtain ks vs where b: "cc_keys c = Some ks" "cc_values c = Some vs" using assms(1) by (auto simp: cache_inv_def)
  have "(h + 1) * cc_head_dim c \<le> cc_width c" unfolding cc_width_def using assms(2) by (intro mult_le_mono1) simp
  then have f: "h * cc_head_dim c + cc_head_dim c \<le> cc_width c" by simp
  have sl: "read_bytes (att1_kv_cache_slot (cc_head_dim c) (cc_num_heads c) p h) (cc_head_dim c) xs
      = read_bytes (h * cc_head_dim c) (cc_head_dim c) (read_bytes (p * cc_width c) (cc_width c) xs)" for xs
    unfolding read_bytes_nested [OF f] by (simp add: att1_kv_cache_slot_def cc_width_def algebra_simps)
  show ?thesis
  proof (cases "p < cc_length c")
    case True
    then show ?thesis
      using b assms(2) sl [of ks] sl [of vs]
      by (simp add: cache_read_def att1_kv_cache_key_def att1_kv_cache_value_def head_of_def cache_content_def cache_pair_def)
  next
    case False
    then show ?thesis by (simp add: cache_read_def att1_kv_cache_key_def)
  qed
qed

interpretation cache: kv_store cache_inv cc_num_heads cc_head_dim cc_max_positions cache_content cache_append cache_read
proof unfold_locales
  fix c k v ok c'
  assume a: "cache_inv c" "cc_num_heads c * cc_head_dim c \<le> length k" "cc_num_heads c * cc_head_dim c \<le> length v"
    "cache_append k v c = (ok, c')"
  from cache_append_law [OF a(1) _ _ a(4)] a(2,3)
  show "cache_inv c' \<and> cc_num_heads c' = cc_num_heads c \<and> cc_head_dim c' = cc_head_dim c
    \<and> cc_max_positions c' = cc_max_positions c \<and> ok = (length (cache_content c) < cc_max_positions c)
    \<and> cache_content c' = (if ok then cache_content c
        @ [(take (cc_num_heads c * cc_head_dim c) k, take (cc_num_heads c * cc_head_dim c) v)] else cache_content c)"
    by (simp add: cc_width_def)
next
  fix c h p
  assume "cache_inv c" "h < cc_num_heads c"
  then show "cache_read c p h = (if p < length (cache_content c)
      then Some (head_of (cc_head_dim c) h (cache_content c ! p)) else None)"
    using cache_read_law by simp
qed

lemma cache_init_inv:
  assumes "att1_kv_cache_init alloc (Some c0) mp nh d = (ATT1_OK, Some c)"
  shows "cache_inv c \<and> cache_content c = [] \<and> cc_max_positions c = mp \<and> cc_num_heads c = nh \<and> cc_head_dim c = d"
proof -
  have p: "0 < mp" "0 < nh" "0 < d" "mp * nh * d \<le> SIZE_MAX"
    and c: "c = \<lparr>cc_max_positions = mp, cc_num_heads = nh, cc_head_dim = d,
      cc_length = 0, cc_keys = Some (replicate (mp * nh * d) 0), cc_values = Some (replicate (mp * nh * d) 0)\<rparr>"
    using assms by (auto simp: att1_kv_cache_init_def att1_mul_size_Some_iff split: if_splits option.splits)
  have "nh * d \<le> mp * nh * d" using p(1) by simp
  then have "nh * d \<le> SIZE_MAX" using p(4) by linarith
  then show ?thesis using p c by (simp add: cache_inv_def cc_width_def cache_content_def mult.assoc)
qed

text \<open>The range copy concatenates the head slices of the range.\<close>

lemma cache_copy_spec:
  assumes "cache_inv c" "h < cc_num_heads c" "p + n \<le> cc_length c"
  shows "cache_copy c n p h ok_k ok_v ks vs =
    (0, if ok_k then ks @ concat (map (fst \<circ> head_of (cc_head_dim c) h) (take n (drop p (cache_content c)))) else ks,
        if ok_v then vs @ concat (map (snd \<circ> head_of (cc_head_dim c) h) (take n (drop p (cache_content c)))) else vs)"
  using assms(3)
proof (induction n arbitrary: p ks vs)
  case 0
  then show ?case by simp
next
  case (Suc n)
  have p: "p < cc_length c" using Suc.prems by simp
  have d: "take (Suc n) (drop p (cache_content c)) = cache_content c ! p # take n (drop (p + 1) (cache_content c))"
    using p by (simp add: Cons_nth_drop_Suc [symmetric])
  have "cache_read c p h = Some (head_of (cc_head_dim c) h (cache_content c ! p))"
    using cache_read_law [OF assms(1,2)] p by simp
  then obtain kp vp where kv: "att1_kv_cache_key (Some c) p h = Some kp" "att1_kv_cache_value (Some c) p h = Some vp"
    "head_of (cc_head_dim c) h (cache_content c ! p)
      = (read_bytes kp (cc_head_dim c) (the (cc_keys c)), read_bytes vp (cc_head_dim c) (the (cc_values c)))"
    by (auto simp: cache_read_def split: option.splits)
  show ?case
    using Suc.IH [of "p + 1"] Suc.prems kv unfolding d by simp
qed

end
