(* ===== verification/Kv_Equiv.thy ===== *)
theory Kv_Equiv
  imports Kv_Mmu_Props Kv_Cache
begin

text \<open>
  The local KV cache and the paged KV-MMU are interchangeable for one attention stream: the
  runtime may keep the vectors of a layer in either. One (session, layer) pair of the KV-MMU is
  a \<open>kv_store\<close> while no other pair holds pages, and so is the cache; what a reader sees after the
  same appends is then derived in the locale for both.
\<close>

section \<open>One stream of the KV-MMU as a store\<close>

definition stream_inv :: "u64 \<Rightarrow> nat \<Rightarrow> att1_kv_mmu \<Rightarrow> bool" where
  "stream_inv s l m \<longleftrightarrow> kv_inv m \<and> kv_live m s \<and> l < km_layers m
     \<and> (\<forall>s' l'. (s', l') \<noteq> (s, l) \<longrightarrow> kv_len m s' l' = 0)"

definition stream_append :: "u64 \<Rightarrow> nat \<Rightarrow> f32 list \<Rightarrow> f32 list \<Rightarrow> att1_kv_mmu \<Rightarrow> bool \<times> att1_kv_mmu" where
  "stream_append s l k v m =
     (case att1_kv_mmu_append (\<lambda>_. True) (Some m) s l (att1_kv_mmu_next_position m s l) (Some k) (Some v) of
        (st, m') \<Rightarrow> (st = ATT1_OK, the m'))"

definition stream_read :: "u64 \<Rightarrow> nat \<Rightarrow> att1_kv_mmu \<Rightarrow> nat \<Rightarrow> nat \<Rightarrow> kv_pair option" where
  "stream_read s l m p h =
     (case att1_kv_mmu_read (Some m) s l h p True True of
        (ATT1_OK, _, Some k, Some v) \<Rightarrow> Some (k, v)
      | _ \<Rightarrow> None)"

lemma finite_live: "finite {s. kv_live m s}"
proof (rule finite_subset)
  show "{s. kv_live m s} \<subseteq> ks_session_id ` set (km_sessions m)" by (auto simp: kv_live_def)
qed simp

text \<open>A stream alone in the table finds a free page whenever it needs one.\<close>

lemma stream_free_page:
  assumes "stream_inv s l m" "kv_len m s l < km_max_positions m" "kv_len m s l mod km_pt m = 0"
  shows "kv_free_pages m \<noteq> 0"
proof
  assume z: "kv_free_pages m = 0"
  have i: "kv_inv m" "kv_live m s" "l < km_layers m" using assms(1) by (auto simp: stream_inv_def)
  have tm: "kv_table_inv m" using i(1) unfolding kv_inv_def by blast
  let ?D = "{s. kv_live m s} \<times> {..<km_layers m}"
  have fin: "finite ?D" by (simp add: finite_live)
  have "(\<Sum>(a, b) \<in> ?D. pages_needed m a b) = (\<Sum>(a, b) \<in> {(s, l)}. pages_needed m a b)"
  proof (intro sum.mono_neutral_right ballI)
    fix x assume x: "x \<in> ?D - {(s, l)}"
    obtain a b where ab: "x = (a, b)" by force
    then have "kv_len m a b = 0" using x assms(1) unfolding stream_inv_def by blast
    then show "(case x of (a, b) \<Rightarrow> pages_needed m a b) = 0"
      using ab kv_table_inv_parts(6) [OF tm] by (simp add: pages_needed_def)
  qed (use i fin in auto)
  then have "(kv_len m s l + km_pt m - 1) div km_pt m = kc_max_pages (km_config m)"
    using kv_pages_accounted_inv [OF i(1)] z by (simp add: pages_needed_def)
  moreover have "(kv_len m s l + km_pt m - 1) div km_pt m = kv_len m s l div km_pt m"
  proof -
    obtain q where "kv_len m s l = km_pt m * q" using assms(3) by (auto simp: mod_eq_0_iff_dvd elim!: dvdE)
    moreover have "(n * q + n - 1) div n = q" if "0 < n" for n q :: nat
    proof -
      have "(n * q + n - 1) div n = ((n - 1) + n * q) div n" using that by (simp add: add.commute)
      also have "\<dots> = q" using that by (simp only: div_mult_self2) simp
      finally show ?thesis .
    qed
    ultimately show ?thesis using kv_table_inv_parts(6) [OF tm] by simp
  qed
  ultimately have "kc_max_pages (km_config m) * km_pt m = kv_len m s l"
    using assms(3) div_mult_mod_eq [of "kv_len m s l" "km_pt m"] by simp
  then show False using assms(2) kv_table_inv_parts(9) [OF tm] by simp
qed

lemma stream_append_law:
  assumes "stream_inv s l m" "kv_width m \<le> length k" "kv_width m \<le> length v" "stream_append s l k v m = (ok, m')"
  shows "stream_inv s l m' \<and> km_config m' = km_config m \<and> (ok \<longleftrightarrow> kv_len m s l < km_max_positions m)
    \<and> kv_seq m' s l = (if ok then kv_seq m s l @ [(take (kv_width m) k, take (kv_width m) v)] else kv_seq m s l)"
proof -
  have i: "kv_inv m" "kv_live m s" "l < km_layers m" using assms(1) by (auto simp: stream_inv_def)
  obtain st m1 where a: "kv_append (\<lambda>_. True) s l (kv_len m s l) (Some k) (Some v) m = (st, m1)" by force
  then have r: "ok \<longleftrightarrow> st = ATT1_OK" "m' = m1"
    using assms(4) by (auto simp: stream_append_def att1_kv_mmu_append_def kv_len_def)
  note sp = kv_append_spec_inv [OF i(1) assms(2,3) a]
  have "append_status (\<lambda>_. True) m s l (kv_len m s l) = ATT1_OK \<longleftrightarrow> kv_len m s l < km_max_positions m"
  proof (cases "kv_len m s l < km_max_positions m")
    case True
    then have "kv_len m s l mod km_pt m = 0 \<Longrightarrow> kv_free_pages m \<noteq> 0" using stream_free_page [OF assms(1) True] by simp
    then show ?thesis using True i(2,3) unfolding append_status_def by (cases "kv_len m s l mod km_pt m = 0") simp_all
  next
    case False
    then show ?thesis using i(2,3) unfolding append_status_def by simp
  qed
  then have ok: "ok \<longleftrightarrow> kv_len m s l < km_max_positions m" using sp r by simp
  have "kv_len m1 s' l' = 0" if "(s', l') \<noteq> (s, l)" for s' l'
  proof -
    have "kv_len m s' l' = 0" using assms(1) that unfolding stream_inv_def by blast
    moreover have "kv_seq m1 s' l' = kv_seq m s' l'" using sp that by auto
    ultimately show ?thesis by (metis length_kv_seq)
  qed
  then have "stream_inv s l m1" using sp i by (simp add: stream_inv_def)
  then show ?thesis using sp r ok by simp
qed

lemma stream_read_law:
  assumes "stream_inv s l m" "h < km_heads m" "p < km_max_positions m"
  shows "stream_read s l m p h = (if p < kv_len m s l then Some (head_of (km_dim m) h (kv_seq m s l ! p)) else None)"
proof -
  have i: "kv_inv m" "kv_live m s" "l < km_layers m" using assms(1) by (auto simp: stream_inv_def)
  obtain c where "kv_read m s l h p True True =
    (if p < kv_len m s l then (ATT1_OK, m\<lparr>km_counters := c\<rparr>, head_out m h True True (kv_seq m s l ! p))
     else (ATT1_ERR_NOT_FOUND, m\<lparr>km_counters := c\<rparr>, None, None))"
    using kv_read_spec_inv [OF i assms(2,3), of True True] by blast
  then show ?thesis
    by (simp add: stream_read_def att1_kv_mmu_read_def head_out_def head_slice_def head_of_def)
qed

interpretation stream: kv_store "stream_inv s l" km_heads km_dim km_max_positions "\<lambda>m. kv_seq m s l"
  "stream_append s l" "stream_read s l" for s l
proof unfold_locales
  fix m k v ok m'
  assume a: "stream_inv s l m" "km_heads m * km_dim m \<le> length k" "km_heads m * km_dim m \<le> length v"
    "stream_append s l k v m = (ok, m')"
  then show "stream_inv s l m' \<and> km_heads m' = km_heads m \<and> km_dim m' = km_dim m
    \<and> km_max_positions m' = km_max_positions m \<and> ok = (length (kv_seq m s l) < km_max_positions m)
    \<and> kv_seq m' s l = (if ok then kv_seq m s l
        @ [(take (km_heads m * km_dim m) k, take (km_heads m * km_dim m) v)] else kv_seq m s l)"
    using stream_append_law [OF a(1) _ _ a(4)] unfolding kv_width_def by simp
next
  fix m h p
  assume "stream_inv s l m" "h < km_heads m" "p < km_max_positions m"
  then show "stream_read s l m p h = (if p < length (kv_seq m s l)
      then Some (head_of (km_dim m) h (kv_seq m s l ! p)) else None)"
    using stream_read_law by simp
qed

text \<open>A fresh handle with one open session holds an empty stream.\<close>

lemma fresh_stream_inv:
  assumes "att1_kv_mmu_create alloc (Some cfg) True = (ATT1_OK, Some m0)"
    and "att1_kv_mmu_create_session (Some m0) s = (ATT1_OK, Some m)" "l < kc_num_layers cfg"
  shows "stream_inv s l m \<and> kv_seq m s l = [] \<and> km_config m = cfg"
proof -
  note c0 = kv_create_inv [OF assms(1)]
  have k: "kv_create_session s m0 = (ATT1_OK, m)" using assms(2) by (simp add: att1_kv_mmu_create_session_def with_ptr_def split: prod.splits)
  have i0: "kv_inv m0" using c0 by blast
  note c1 = kv_create_session_spec [OF i0 k]
  have sq: "kv_seq m a b = []" for a b using c1 c0 by simp
  then have "kv_len m a b = 0" for a b by (metis length_kv_seq list.size(3))
  then show ?thesis using sq c0 c1 assms(3) by (auto simp: stream_inv_def split: if_splits)
qed

section \<open>Property\<close>

text \<open>
  C26. The two stores agree: a local cache and a (session, layer) stream of a fresh KV-MMU with
  the same heads, dimension and capacity accept the same prefix of any sequence of appends, and
  afterwards every head of every position reads the same from both, or is missing from both.
\<close>

theorem kv_cache_matches_kv_mmu:
  assumes "att1_kv_cache_init calloc (Some c0) (kc_max_positions cfg) (kc_num_heads cfg) (kc_head_dim cfg)
      = (ATT1_OK, Some c)"
    and "att1_kv_mmu_create alloc (Some cfg) True = (ATT1_OK, Some m0)"
    and "att1_kv_mmu_create_session (Some m0) s = (ATT1_OK, Some m)" "l < kc_num_layers cfg"
    and "\<forall>(k, v) \<in> set ps. length k = kc_num_heads cfg * kc_head_dim cfg
      \<and> length v = kc_num_heads cfg * kc_head_dim cfg"
    and "append_all cache_append ps c = (oks, c')" "append_all (stream_append s l) ps m = (oks', m')"
    and "h < kc_num_heads cfg" "p < kc_max_positions cfg"
  shows "oks = oks' \<and> cache_read c' p h = stream_read s l m' p h
    \<and> cache_read c' p h = (if p < length ps then Some (head_of (kc_head_dim cfg) h (ps ! p)) else None)"
proof -
  note c = cache_init_inv [OF assms(1)]
  note m = fresh_stream_inv [OF assms(2-4)]
  have "cache_read c' p h = (if p < length ps then Some (head_of (cc_head_dim c) h (ps ! p)) else None)
    \<and> oks = map (\<lambda>i. i < cc_max_positions c) [0..<length ps]"
    using c assms(5,6,8,9) by (intro cache.read_after_append_all) auto
  moreover have "stream_read s l m' p h = (if p < length ps then Some (head_of (km_dim m) h (ps ! p)) else None)
    \<and> oks' = map (\<lambda>i. i < km_max_positions m) [0..<length ps]"
    using m assms(5,7,8,9) by (intro stream.read_after_append_all [of s l]) auto
  ultimately show ?thesis using c m by simp
qed

lemma demo_k1_open: "att1_kv_mmu_create_session (Some demo_k0) 7 = (ATT1_OK, Some demo_k1)"
proof -
  have k: "kv_create_session 7 demo_k0 = (fst (kv_create_session 7 demo_k0), demo_k1)"
    by (simp add: demo_k1_def att1_kv_mmu_create_session_def)
  have "zero_session \<in> set (km_sessions demo_k0)"
    by (simp add: demo_k0_def att1_kv_mmu_create_def kv_config_valid_iff demo_kcfg_def SIZE_MAX_def Let_def)
  moreover have "\<not> ks_active zero_session" by (simp add: zero_session_def)
  ultimately have "(\<forall>x \<in> set (km_sessions demo_k0). ks_active x) = False" by blast
  then have "fst (kv_create_session 7 demo_k0) = ATT1_OK"
    using kv_create_session_spec [OF demo_k0_facts(2) k] demo_k0_facts(4) by simp
  then show ?thesis using k by (simp add: att1_kv_mmu_create_session_def with_ptr_def)
qed

theorem kv_cache_matches_kv_mmu_witness:
  "\<exists>c oks c' oks' m'. att1_kv_cache_init (\<lambda>_. True) (Some zero_cache) 4 2 1 = (ATT1_OK, Some c)
    \<and> append_all cache_append [([1, 2], [3, 4])] c = (oks, c')
    \<and> append_all (stream_append 7 0) [([1, 2], [3, 4])] demo_k1 = (oks', m')
    \<and> cache_read c' 0 1 = Some ([2], [4]) \<and> stream_read 7 0 m' 0 1 = Some ([2], [4])"
proof -
  obtain c where c: "att1_kv_cache_init (\<lambda>_. True) (Some zero_cache) (kc_max_positions demo_kcfg)
      (kc_num_heads demo_kcfg) (kc_head_dim demo_kcfg) = (ATT1_OK, Some c)"
    by (simp add: att1_kv_cache_init_def att1_mul_size_Some_iff SIZE_MAX_def demo_kcfg_def att1_mul_size_def)
  obtain oks c' where a: "append_all cache_append [([1, 2], [3, 4])] c = (oks, c')" by force
  obtain oks' m' where b: "append_all (stream_append 7 0) [([1, 2], [3, 4])] demo_k1 = (oks', m')" by force
  have h: "(0 :: nat) < kc_num_layers demo_kcfg" "(1 :: nat) < kc_num_heads demo_kcfg" "(0 :: nat) < kc_max_positions demo_kcfg"
    "\<forall>(k, v) \<in> set [([1, 2] :: f32 list, [3, 4] :: f32 list)]. length k = kc_num_heads demo_kcfg * kc_head_dim demo_kcfg
      \<and> length v = kc_num_heads demo_kcfg * kc_head_dim demo_kcfg"
    by (simp_all add: demo_kcfg_def)
  from kv_cache_matches_kv_mmu [OF c demo_k0_create demo_k1_open h(1) h(4) a b h(2,3)] a b c show ?thesis
    by (auto simp: demo_kcfg_def head_of_def read_bytes_def)
qed

end
