(* ===== verification/Aimu_Mmio_Map.thy ===== *)
theory Aimu_Mmio_Map
  imports Att_Prelude
begin

text \<open>
  The register map of the 64 KiB register file (\<^verbatim>\<open>include/att1_aimu_mmio.h\<close>) and the access type of
  every offset (\<^verbatim>\<open>mmio_access_type\<close> of \<^verbatim>\<open>src/aimu_mmio.c\<close>). Each switch of the function is a table.
\<close>

section \<open>Offsets\<close>

definition MMIO_MAGIC :: u32 where "MMIO_MAGIC = 0xA771BB10"
definition MMIO_BAR0_SIZE :: u32 where "MMIO_BAR0_SIZE = 0x10000"
definition MMIO_RESERVED_RD :: u32 where "MMIO_RESERVED_RD = 0xDEADBEEF"

definition MMIO_DEVICE_ID :: u32 where "MMIO_DEVICE_ID = 0x0000"
definition MMIO_DEVICE_VERSION :: u32 where "MMIO_DEVICE_VERSION = 0x0004"
definition MMIO_REGISTER_MAP_VERSION :: u32 where "MMIO_REGISTER_MAP_VERSION = 0x0008"
definition MMIO_FEATURE_FLAGS_LOW :: u32 where "MMIO_FEATURE_FLAGS_LOW = 0x000C"
definition MMIO_FEATURE_FLAGS_HIGH :: u32 where "MMIO_FEATURE_FLAGS_HIGH = 0x0010"
definition MMIO_TILE_COUNT :: u32 where "MMIO_TILE_COUNT = 0x0014"
definition MMIO_COMMAND_QUEUE_COUNT :: u32 where "MMIO_COMMAND_QUEUE_COUNT = 0x0018"
definition MMIO_INTERRUPT_STATUS :: u32 where "MMIO_INTERRUPT_STATUS = 0x001C"
definition MMIO_INTERRUPT_ENABLE :: u32 where "MMIO_INTERRUPT_ENABLE = 0x0020"
definition MMIO_GLOBAL_STATUS :: u32 where "MMIO_GLOBAL_STATUS = 0x0024"
definition MMIO_GLOBAL_CONTROL :: u32 where "MMIO_GLOBAL_CONTROL = 0x0028"
definition MMIO_RESET_CONTROL :: u32 where "MMIO_RESET_CONTROL = 0x002C"
definition MMIO_ERROR_STATUS :: u32 where "MMIO_ERROR_STATUS = 0x0030"
definition MMIO_ERROR_DETAIL :: u32 where "MMIO_ERROR_DETAIL = 0x0034"
definition MMIO_TRACE_CONTROL :: u32 where "MMIO_TRACE_CONTROL = 0x0038"
definition MMIO_COUNTER_SNAPSHOT_CONTROL :: u32 where "MMIO_COUNTER_SNAPSHOT_CONTROL = 0x003C"
definition MMIO_TILE_ID :: u32 where "MMIO_TILE_ID = 0x000"
definition MMIO_TILE_STATUS :: u32 where "MMIO_TILE_STATUS = 0x004"
definition MMIO_TILE_FEATURE_FLAGS :: u32 where "MMIO_TILE_FEATURE_FLAGS = 0x008"
definition MMIO_TILE_MEMORY_CAPACITY_LOW :: u32 where "MMIO_TILE_MEMORY_CAPACITY_LOW = 0x00C"
definition MMIO_TILE_MEMORY_CAPACITY_HIGH :: u32 where "MMIO_TILE_MEMORY_CAPACITY_HIGH = 0x010"
definition MMIO_TILE_MEMORY_USED_LOW :: u32 where "MMIO_TILE_MEMORY_USED_LOW = 0x014"
definition MMIO_TILE_MEMORY_USED_HIGH :: u32 where "MMIO_TILE_MEMORY_USED_HIGH = 0x018"
definition MMIO_TILE_KV_CAPACITY_LOW :: u32 where "MMIO_TILE_KV_CAPACITY_LOW = 0x01C"
definition MMIO_TILE_KV_CAPACITY_HIGH :: u32 where "MMIO_TILE_KV_CAPACITY_HIGH = 0x020"
definition MMIO_TILE_KV_USED_LOW :: u32 where "MMIO_TILE_KV_USED_LOW = 0x024"
definition MMIO_TILE_KV_USED_HIGH :: u32 where "MMIO_TILE_KV_USED_HIGH = 0x028"
definition MMIO_TILE_SUPPORTED_DTYPES :: u32 where "MMIO_TILE_SUPPORTED_DTYPES = 0x02C"
definition MMIO_TILE_SUPPORTED_OPS_LOW :: u32 where "MMIO_TILE_SUPPORTED_OPS_LOW = 0x030"
definition MMIO_TILE_SUPPORTED_OPS_HIGH :: u32 where "MMIO_TILE_SUPPORTED_OPS_HIGH = 0x034"
definition MMIO_TILE_FABRIC_LINK_MASK :: u32 where "MMIO_TILE_FABRIC_LINK_MASK = 0x038"
definition MMIO_TILE_ERROR_STATUS :: u32 where "MMIO_TILE_ERROR_STATUS = 0x03C"
definition MMIO_TILE_RESET_CONTROL :: u32 where "MMIO_TILE_RESET_CONTROL = 0x040"
definition MMIO_CQ_BASE_ADDR_LOW :: u32 where "MMIO_CQ_BASE_ADDR_LOW = 0x1000"
definition MMIO_CQ_BASE_ADDR_HIGH :: u32 where "MMIO_CQ_BASE_ADDR_HIGH = 0x1004"
definition MMIO_CQ_SIZE :: u32 where "MMIO_CQ_SIZE = 0x1008"
definition MMIO_CQ_HEAD :: u32 where "MMIO_CQ_HEAD = 0x100C"
definition MMIO_CQ_TAIL :: u32 where "MMIO_CQ_TAIL = 0x1010"
definition MMIO_CQ_DOORBELL :: u32 where "MMIO_CQ_DOORBELL = 0x1014"
definition MMIO_CQ_STATUS :: u32 where "MMIO_CQ_STATUS = 0x1018"
definition MMIO_CQ_ERROR :: u32 where "MMIO_CQ_ERROR = 0x101C"
definition MMIO_CQ_FENCE_VALUE :: u32 where "MMIO_CQ_FENCE_VALUE = 0x1020"
definition MMIO_CQ_COMPLETION_ADDR_LOW :: u32 where "MMIO_CQ_COMPLETION_ADDR_LOW = 0x1024"
definition MMIO_CQ_COMPLETION_ADDR_HIGH :: u32 where "MMIO_CQ_COMPLETION_ADDR_HIGH = 0x1028"
definition MMIO_CQ_COMPLETION_SIZE :: u32 where "MMIO_CQ_COMPLETION_SIZE = 0x102C"
definition MMIO_DMA_CONTROL :: u32 where "MMIO_DMA_CONTROL = 0x2000"
definition MMIO_DMA_STATUS :: u32 where "MMIO_DMA_STATUS = 0x2004"
definition MMIO_DMA_ERROR_STATUS :: u32 where "MMIO_DMA_ERROR_STATUS = 0x2008"
definition MMIO_DMA_RING_BASE_LOW :: u32 where "MMIO_DMA_RING_BASE_LOW = 0x200C"
definition MMIO_DMA_RING_BASE_HIGH :: u32 where "MMIO_DMA_RING_BASE_HIGH = 0x2010"
definition MMIO_DMA_RING_SIZE :: u32 where "MMIO_DMA_RING_SIZE = 0x2014"
definition MMIO_FABRIC_STATUS :: u32 where "MMIO_FABRIC_STATUS = 0x3000"
definition MMIO_FABRIC_CONTROL :: u32 where "MMIO_FABRIC_CONTROL = 0x3004"
definition MMIO_FABRIC_ROUTE_BASE_LOW :: u32 where "MMIO_FABRIC_ROUTE_BASE_LOW = 0x3008"
definition MMIO_FABRIC_ROUTE_BASE_HIGH :: u32 where "MMIO_FABRIC_ROUTE_BASE_HIGH = 0x300C"
definition MMIO_FABRIC_ROUTE_SIZE :: u32 where "MMIO_FABRIC_ROUTE_SIZE = 0x3010"
definition MMIO_FABRIC_PKT_CTR_LOW :: u32 where "MMIO_FABRIC_PKT_CTR_LOW = 0x3014"
definition MMIO_FABRIC_PKT_CTR_HIGH :: u32 where "MMIO_FABRIC_PKT_CTR_HIGH = 0x3018"
definition MMIO_FABRIC_PAYLOAD_BYTES_LOW :: u32 where "MMIO_FABRIC_PAYLOAD_BYTES_LOW = 0x301C"
definition MMIO_FABRIC_PAYLOAD_BYTES_HIGH :: u32 where "MMIO_FABRIC_PAYLOAD_BYTES_HIGH = 0x3020"
definition MMIO_FABRIC_CONGESTION_CTR :: u32 where "MMIO_FABRIC_CONGESTION_CTR = 0x3024"
definition MMIO_FABRIC_ERROR_STATUS :: u32 where "MMIO_FABRIC_ERROR_STATUS = 0x3028"
definition MMIO_CNT_BASE :: u32 where "MMIO_CNT_BASE = 0x4000"
definition MMIO_CNT_CMD_ISSUED_LO :: u32 where "MMIO_CNT_CMD_ISSUED_LO = 0x4000"
definition MMIO_CNT_CMD_ISSUED_HI :: u32 where "MMIO_CNT_CMD_ISSUED_HI = 0x4004"
definition MMIO_CNT_CMD_COMPLETED_LO :: u32 where "MMIO_CNT_CMD_COMPLETED_LO = 0x4008"
definition MMIO_CNT_CMD_COMPLETED_HI :: u32 where "MMIO_CNT_CMD_COMPLETED_HI = 0x400C"
definition MMIO_CNT_TENSOR_BYTES_RD_LO :: u32 where "MMIO_CNT_TENSOR_BYTES_RD_LO = 0x4050"
definition MMIO_CNT_TENSOR_BYTES_WR_LO :: u32 where "MMIO_CNT_TENSOR_BYTES_WR_LO = 0x4058"
definition MMIO_CNT_FABRIC_PKT_SENT_LO :: u32 where "MMIO_CNT_FABRIC_PKT_SENT_LO = 0x4078"
definition MMIO_CNT_FABRIC_PKT_RECV_LO :: u32 where "MMIO_CNT_FABRIC_PKT_RECV_LO = 0x4080"
definition MMIO_CNT_STALL_QUEUE_FULL_LO :: u32 where "MMIO_CNT_STALL_QUEUE_FULL_LO = 0x40A8"
definition MMIO_CNT_STALL_QUEUE_FULL_HI :: u32 where "MMIO_CNT_STALL_QUEUE_FULL_HI = 0x40AC"
definition MMIO_CNT_ERRORS_TOTAL_LO :: u32 where "MMIO_CNT_ERRORS_TOTAL_LO = 0x40B0"
definition MMIO_CNT_END :: u32 where "MMIO_CNT_END = 0x40B8"
definition MMIO_TRACE_BUFFER_BASE_LOW :: u32 where "MMIO_TRACE_BUFFER_BASE_LOW = 0x5000"
definition MMIO_TRACE_BUFFER_BASE_HIGH :: u32 where "MMIO_TRACE_BUFFER_BASE_HIGH = 0x5004"
definition MMIO_TRACE_BUFFER_SIZE :: u32 where "MMIO_TRACE_BUFFER_SIZE = 0x5008"
definition MMIO_TRACE_WRITE_PTR :: u32 where "MMIO_TRACE_WRITE_PTR = 0x500C"
definition MMIO_TRACE_FLAGS :: u32 where "MMIO_TRACE_FLAGS = 0x5010"
definition MMIO_TRACE_DROPPED_EVENTS :: u32 where "MMIO_TRACE_DROPPED_EVENTS = 0x5014"
definition MMIO_TRACE_SNAPSHOT_CONTROL :: u32 where "MMIO_TRACE_SNAPSHOT_CONTROL = 0x5018"

lemmas mmio_offsets =
  MMIO_DEVICE_ID_def MMIO_DEVICE_VERSION_def MMIO_REGISTER_MAP_VERSION_def
  MMIO_FEATURE_FLAGS_LOW_def MMIO_FEATURE_FLAGS_HIGH_def MMIO_TILE_COUNT_def
  MMIO_COMMAND_QUEUE_COUNT_def MMIO_INTERRUPT_STATUS_def MMIO_INTERRUPT_ENABLE_def
  MMIO_GLOBAL_STATUS_def MMIO_GLOBAL_CONTROL_def MMIO_RESET_CONTROL_def MMIO_ERROR_STATUS_def
  MMIO_ERROR_DETAIL_def MMIO_TRACE_CONTROL_def MMIO_COUNTER_SNAPSHOT_CONTROL_def MMIO_TILE_ID_def
  MMIO_TILE_STATUS_def MMIO_TILE_FEATURE_FLAGS_def MMIO_TILE_MEMORY_CAPACITY_LOW_def
  MMIO_TILE_MEMORY_CAPACITY_HIGH_def MMIO_TILE_MEMORY_USED_LOW_def MMIO_TILE_MEMORY_USED_HIGH_def
  MMIO_TILE_KV_CAPACITY_LOW_def MMIO_TILE_KV_CAPACITY_HIGH_def MMIO_TILE_KV_USED_LOW_def
  MMIO_TILE_KV_USED_HIGH_def MMIO_TILE_SUPPORTED_DTYPES_def MMIO_TILE_SUPPORTED_OPS_LOW_def
  MMIO_TILE_SUPPORTED_OPS_HIGH_def MMIO_TILE_FABRIC_LINK_MASK_def MMIO_TILE_ERROR_STATUS_def
  MMIO_TILE_RESET_CONTROL_def MMIO_CQ_BASE_ADDR_LOW_def MMIO_CQ_BASE_ADDR_HIGH_def MMIO_CQ_SIZE_def
  MMIO_CQ_HEAD_def MMIO_CQ_TAIL_def MMIO_CQ_DOORBELL_def MMIO_CQ_STATUS_def MMIO_CQ_ERROR_def
  MMIO_CQ_FENCE_VALUE_def MMIO_CQ_COMPLETION_ADDR_LOW_def MMIO_CQ_COMPLETION_ADDR_HIGH_def
  MMIO_CQ_COMPLETION_SIZE_def MMIO_DMA_CONTROL_def MMIO_DMA_STATUS_def MMIO_DMA_ERROR_STATUS_def
  MMIO_DMA_RING_BASE_LOW_def MMIO_DMA_RING_BASE_HIGH_def MMIO_DMA_RING_SIZE_def
  MMIO_FABRIC_STATUS_def MMIO_FABRIC_CONTROL_def MMIO_FABRIC_ROUTE_BASE_LOW_def
  MMIO_FABRIC_ROUTE_BASE_HIGH_def MMIO_FABRIC_ROUTE_SIZE_def MMIO_FABRIC_PKT_CTR_LOW_def
  MMIO_FABRIC_PKT_CTR_HIGH_def MMIO_FABRIC_PAYLOAD_BYTES_LOW_def MMIO_FABRIC_PAYLOAD_BYTES_HIGH_def
  MMIO_FABRIC_CONGESTION_CTR_def MMIO_FABRIC_ERROR_STATUS_def MMIO_CNT_BASE_def
  MMIO_CNT_CMD_ISSUED_LO_def MMIO_CNT_CMD_ISSUED_HI_def MMIO_CNT_CMD_COMPLETED_LO_def
  MMIO_CNT_CMD_COMPLETED_HI_def MMIO_CNT_TENSOR_BYTES_RD_LO_def MMIO_CNT_TENSOR_BYTES_WR_LO_def
  MMIO_CNT_FABRIC_PKT_SENT_LO_def MMIO_CNT_FABRIC_PKT_RECV_LO_def MMIO_CNT_STALL_QUEUE_FULL_LO_def
  MMIO_CNT_STALL_QUEUE_FULL_HI_def MMIO_CNT_ERRORS_TOTAL_LO_def MMIO_CNT_END_def
  MMIO_TRACE_BUFFER_BASE_LOW_def MMIO_TRACE_BUFFER_BASE_HIGH_def MMIO_TRACE_BUFFER_SIZE_def
  MMIO_TRACE_WRITE_PTR_def MMIO_TRACE_FLAGS_def MMIO_TRACE_DROPPED_EVENTS_def
  MMIO_TRACE_SNAPSHOT_CONTROL_def

definition MMIO_BASE_TILE :: "nat \<Rightarrow> u32" where
  "MMIO_BASE_TILE n = 0x8000 + word_of_nat n * 0x800"

section \<open>Bits\<close>

definition MMIO_GSTAT_DEVICE_READY :: u32 where "MMIO_GSTAT_DEVICE_READY = push_bit 0 1"
definition MMIO_GSTAT_ANY_TILE_ACTIVE :: u32 where "MMIO_GSTAT_ANY_TILE_ACTIVE = push_bit 1 1"
definition MMIO_GSTAT_ANY_TILE_ERROR :: u32 where "MMIO_GSTAT_ANY_TILE_ERROR = push_bit 2 1"
definition MMIO_GSTAT_TRACE_ACTIVE :: u32 where "MMIO_GSTAT_TRACE_ACTIVE = push_bit 5 1"
definition MMIO_GCTRL_ENABLE_DEVICE :: u32 where "MMIO_GCTRL_ENABLE_DEVICE = push_bit 0 1"
definition MMIO_GCTRL_DISABLE_DEVICE :: u32 where "MMIO_GCTRL_DISABLE_DEVICE = push_bit 1 1"
definition MMIO_GCTRL_ENABLE_TRACE :: u32 where "MMIO_GCTRL_ENABLE_TRACE = push_bit 2 1"
definition MMIO_GCTRL_DISABLE_TRACE :: u32 where "MMIO_GCTRL_DISABLE_TRACE = push_bit 3 1"
definition MMIO_RSTCTL_SOFT_RESET_ALL :: u32 where "MMIO_RSTCTL_SOFT_RESET_ALL = push_bit 0 1"
definition MMIO_RSTCTL_RESET_COUNTERS :: u32 where "MMIO_RSTCTL_RESET_COUNTERS = push_bit 1 1"
definition MMIO_RSTCTL_RESET_TRACE :: u32 where "MMIO_RSTCTL_RESET_TRACE = push_bit 2 1"
definition MMIO_SNAP_NOW :: u32 where "MMIO_SNAP_NOW = push_bit 0 1"
definition MMIO_VENDOR_ID :: u32 where "MMIO_VENDOR_ID = 0xA771"
definition MMIO_DEVICE_CLASS_TILE :: u32 where "MMIO_DEVICE_CLASS_TILE = 0x0001"
definition MMIO_DEVICE_ID_DEFAULT :: u32 where
  "MMIO_DEVICE_ID_DEFAULT = push_bit 16 MMIO_VENDOR_ID OR MMIO_DEVICE_CLASS_TILE"

lemmas mmio_bits =
  MMIO_GSTAT_DEVICE_READY_def MMIO_GSTAT_ANY_TILE_ACTIVE_def MMIO_GSTAT_ANY_TILE_ERROR_def
  MMIO_GSTAT_TRACE_ACTIVE_def MMIO_GCTRL_ENABLE_DEVICE_def MMIO_GCTRL_DISABLE_DEVICE_def
  MMIO_GCTRL_ENABLE_TRACE_def MMIO_GCTRL_DISABLE_TRACE_def MMIO_RSTCTL_SOFT_RESET_ALL_def
  MMIO_RSTCTL_RESET_COUNTERS_def MMIO_RSTCTL_RESET_TRACE_def MMIO_SNAP_NOW_def

section \<open>Access types\<close>

datatype reg_access = ACCESS_RO | ACCESS_RW | ACCESS_RW1C | ACCESS_WO | ACCESS_RESERVED

definition mmio_global_regs :: "(u32 \<times> reg_access) list" where
  "mmio_global_regs =
     [(MMIO_DEVICE_ID, ACCESS_RO),
      (MMIO_DEVICE_VERSION, ACCESS_RO),
      (MMIO_REGISTER_MAP_VERSION, ACCESS_RO),
      (MMIO_FEATURE_FLAGS_LOW, ACCESS_RO),
      (MMIO_FEATURE_FLAGS_HIGH, ACCESS_RO),
      (MMIO_TILE_COUNT, ACCESS_RO),
      (MMIO_COMMAND_QUEUE_COUNT, ACCESS_RO),
      (MMIO_INTERRUPT_STATUS, ACCESS_RW1C),
      (MMIO_INTERRUPT_ENABLE, ACCESS_RW),
      (MMIO_GLOBAL_STATUS, ACCESS_RO),
      (MMIO_GLOBAL_CONTROL, ACCESS_WO),
      (MMIO_RESET_CONTROL, ACCESS_WO),
      (MMIO_ERROR_STATUS, ACCESS_RW1C),
      (MMIO_ERROR_DETAIL, ACCESS_RO),
      (MMIO_TRACE_CONTROL, ACCESS_RW),
      (MMIO_COUNTER_SNAPSHOT_CONTROL, ACCESS_RW)]"

definition mmio_cq_regs :: "(u32 \<times> reg_access) list" where
  "mmio_cq_regs =
     [(MMIO_CQ_BASE_ADDR_LOW, ACCESS_RW),
      (MMIO_CQ_BASE_ADDR_HIGH, ACCESS_RW),
      (MMIO_CQ_SIZE, ACCESS_RW),
      (MMIO_CQ_HEAD, ACCESS_RO),
      (MMIO_CQ_TAIL, ACCESS_RW),
      (MMIO_CQ_DOORBELL, ACCESS_WO),
      (MMIO_CQ_STATUS, ACCESS_RO),
      (MMIO_CQ_ERROR, ACCESS_RW1C),
      (MMIO_CQ_FENCE_VALUE, ACCESS_RO),
      (MMIO_CQ_COMPLETION_ADDR_LOW, ACCESS_RW),
      (MMIO_CQ_COMPLETION_ADDR_HIGH, ACCESS_RW),
      (MMIO_CQ_COMPLETION_SIZE, ACCESS_RW)]"

definition mmio_dma_regs :: "(u32 \<times> reg_access) list" where
  "mmio_dma_regs =
     [(MMIO_DMA_CONTROL, ACCESS_RW),
      (MMIO_DMA_STATUS, ACCESS_RO),
      (MMIO_DMA_ERROR_STATUS, ACCESS_RW1C),
      (MMIO_DMA_RING_BASE_LOW, ACCESS_RW),
      (MMIO_DMA_RING_BASE_HIGH, ACCESS_RW),
      (MMIO_DMA_RING_SIZE, ACCESS_RW)]"

definition mmio_fabric_regs :: "(u32 \<times> reg_access) list" where
  "mmio_fabric_regs =
     [(MMIO_FABRIC_STATUS, ACCESS_RO),
      (MMIO_FABRIC_CONTROL, ACCESS_RW),
      (MMIO_FABRIC_ROUTE_BASE_LOW, ACCESS_RW),
      (MMIO_FABRIC_ROUTE_BASE_HIGH, ACCESS_RW),
      (MMIO_FABRIC_ROUTE_SIZE, ACCESS_RW),
      (MMIO_FABRIC_PKT_CTR_LOW, ACCESS_RO),
      (MMIO_FABRIC_PKT_CTR_HIGH, ACCESS_RO),
      (MMIO_FABRIC_PAYLOAD_BYTES_LOW, ACCESS_RO),
      (MMIO_FABRIC_PAYLOAD_BYTES_HIGH, ACCESS_RO),
      (MMIO_FABRIC_CONGESTION_CTR, ACCESS_RO),
      (MMIO_FABRIC_ERROR_STATUS, ACCESS_RW1C)]"

definition mmio_trace_regs :: "(u32 \<times> reg_access) list" where
  "mmio_trace_regs =
     [(MMIO_TRACE_BUFFER_BASE_LOW, ACCESS_RW),
      (MMIO_TRACE_BUFFER_BASE_HIGH, ACCESS_RW),
      (MMIO_TRACE_BUFFER_SIZE, ACCESS_RW),
      (MMIO_TRACE_WRITE_PTR, ACCESS_RO),
      (MMIO_TRACE_FLAGS, ACCESS_RW),
      (MMIO_TRACE_DROPPED_EVENTS, ACCESS_RO),
      (MMIO_TRACE_SNAPSHOT_CONTROL, ACCESS_RW)]"

definition mmio_tile_regs :: "(u32 \<times> reg_access) list" where
  "mmio_tile_regs =
     [(MMIO_TILE_ID, ACCESS_RO),
      (MMIO_TILE_STATUS, ACCESS_RO),
      (MMIO_TILE_FEATURE_FLAGS, ACCESS_RO),
      (MMIO_TILE_MEMORY_CAPACITY_LOW, ACCESS_RO),
      (MMIO_TILE_MEMORY_CAPACITY_HIGH, ACCESS_RO),
      (MMIO_TILE_MEMORY_USED_LOW, ACCESS_RO),
      (MMIO_TILE_MEMORY_USED_HIGH, ACCESS_RO),
      (MMIO_TILE_KV_CAPACITY_LOW, ACCESS_RO),
      (MMIO_TILE_KV_CAPACITY_HIGH, ACCESS_RO),
      (MMIO_TILE_KV_USED_LOW, ACCESS_RO),
      (MMIO_TILE_KV_USED_HIGH, ACCESS_RO),
      (MMIO_TILE_SUPPORTED_DTYPES, ACCESS_RO),
      (MMIO_TILE_SUPPORTED_OPS_LOW, ACCESS_RO),
      (MMIO_TILE_SUPPORTED_OPS_HIGH, ACCESS_RO),
      (MMIO_TILE_FABRIC_LINK_MASK, ACCESS_RO),
      (MMIO_TILE_ERROR_STATUS, ACCESS_RW1C),
      (MMIO_TILE_RESET_CONTROL, ACCESS_WO)]"

definition mmio_tile_access :: "u32 \<Rightarrow> reg_access" where
  "mmio_tile_access off =
     (case map_of mmio_tile_regs ((off - 0x8000) mod 0x800) of Some a \<Rightarrow> a | None \<Rightarrow> ACCESS_RESERVED)"

definition mmio_access_type :: "u32 \<Rightarrow> reg_access" where
  "mmio_access_type off =
     (case map_of mmio_global_regs off of
        Some a \<Rightarrow> a
      | None \<Rightarrow>
     (case map_of mmio_cq_regs off of
        Some a \<Rightarrow> a
      | None \<Rightarrow>
     (case map_of mmio_dma_regs off of
        Some a \<Rightarrow> a
      | None \<Rightarrow>
     (case map_of mmio_fabric_regs off of
        Some a \<Rightarrow> a
      | None \<Rightarrow>
     (if MMIO_CNT_BASE \<le> off \<and> off < MMIO_CNT_END then ACCESS_RO
      else
     (case map_of mmio_trace_regs off of
        Some a \<Rightarrow> a
      | None \<Rightarrow>
     (if 0x8000 \<le> off then mmio_tile_access off else ACCESS_RESERVED)))))))"

lemmas mmio_tables =
  mmio_global_regs_def mmio_cq_regs_def mmio_dma_regs_def mmio_fabric_regs_def mmio_trace_regs_def

end
