(* ===== verification/Aimu_Trace.thy ===== *)
theory Aimu_Trace
  imports Aimu_Device Aimu_Dma
begin

text \<open>
  Counter snapshots over the AIMU simulators (\<^verbatim>\<open>src/aimu_trace.c\<close>): a trace object copies the
  counters of a command queue, a device and a DMA engine into one record, numbered and marked
  complete or partial. The padding words of the structures have no field.
\<close>

section \<open>State\<close>

definition TRACE_MAGIC :: u32 where "TRACE_MAGIC = 0xA771FACE"
definition TRACE_VERSION :: u32 where "TRACE_VERSION = 0x00010000"
definition TRACE_STATUS_OK :: u32 where "TRACE_STATUS_OK = 0"
definition TRACE_STATUS_PARTIAL :: u32 where "TRACE_STATUS_PARTIAL = 1"
definition TRACE_STATUS_EMPTY :: u32 where "TRACE_STATUS_EMPTY = 2"

record att1_aimu_trace_cmdq_counters =
  tq_commands_submitted :: u64
  tq_commands_completed :: u64
  tq_commands_failed :: u64
  tq_queue_full_count :: u64
  tq_unsupported_commands :: u64
  tq_fence_value :: u64

record att1_aimu_trace_device_counters =
  td_device_resets :: u64
  td_tile_resets :: u64
  td_tile_errors :: u64

record att1_aimu_trace_dma_counters =
  ta_dma_submitted :: u64
  ta_dma_completed :: u64
  ta_dma_failed :: u64
  ta_bytes_host_to_device :: u64
  ta_bytes_device_to_host :: u64
  ta_bytes_device_to_device :: u64
  ta_alignment_failures :: u64
  ta_range_failures :: u64
  ta_unsupported_flags :: u64

record att1_aimu_trace_fabric_counters =
  tf_packets_sent :: u64
  tf_packets_received :: u64
  tf_payload_bytes_sent :: u64
  tf_payload_bytes_received :: u64
  tf_congestion_events :: u64

record att1_aimu_trace_meta =
  tm_trace_version :: u32
  tm_snapshot_id :: u32
  tm_device_id :: u32
  tm_tile_count :: u32
  tm_event_count :: u64
  tm_dropped_events :: u64
  tm_status :: u32

record att1_aimu_trace_snapshot =
  ts_meta :: att1_aimu_trace_meta
  ts_cmdq :: att1_aimu_trace_cmdq_counters
  ts_device :: att1_aimu_trace_device_counters
  ts_dma :: att1_aimu_trace_dma_counters
  ts_fabric :: att1_aimu_trace_fabric_counters

record att1_aimu_trace =
  tr_magic :: u32
  tr_snapshot :: att1_aimu_trace_snapshot

text \<open>All fields zero, as \<^verbatim>\<open>memset\<close> leaves them, then the version and the status.\<close>

definition empty_snapshot :: att1_aimu_trace_snapshot where
  "empty_snapshot =
     \<lparr>ts_meta = \<lparr>tm_trace_version = TRACE_VERSION, tm_snapshot_id = 0, tm_device_id = 0, tm_tile_count = 0,
        tm_event_count = 0, tm_dropped_events = 0, tm_status = TRACE_STATUS_EMPTY\<rparr>,
      ts_cmdq = \<lparr>tq_commands_submitted = 0, tq_commands_completed = 0, tq_commands_failed = 0,
        tq_queue_full_count = 0, tq_unsupported_commands = 0, tq_fence_value = 0\<rparr>,
      ts_device = \<lparr>td_device_resets = 0, td_tile_resets = 0, td_tile_errors = 0\<rparr>,
      ts_dma = \<lparr>ta_dma_submitted = 0, ta_dma_completed = 0, ta_dma_failed = 0, ta_bytes_host_to_device = 0,
        ta_bytes_device_to_host = 0, ta_bytes_device_to_device = 0, ta_alignment_failures = 0,
        ta_range_failures = 0, ta_unsupported_flags = 0\<rparr>,
      ts_fabric = \<lparr>tf_packets_sent = 0, tf_packets_received = 0, tf_payload_bytes_sent = 0,
        tf_payload_bytes_received = 0, tf_congestion_events = 0\<rparr>\<rparr>"

abbreviation upd_snapshot ::
  "(att1_aimu_trace_snapshot \<Rightarrow> att1_aimu_trace_snapshot) \<Rightarrow> att1_aimu_trace \<Rightarrow> att1_aimu_trace" where
  "upd_snapshot g t \<equiv> t\<lparr>tr_snapshot := g (tr_snapshot t)\<rparr>"

abbreviation upd_meta ::
  "(att1_aimu_trace_meta \<Rightarrow> att1_aimu_trace_meta) \<Rightarrow> att1_aimu_trace \<Rightarrow> att1_aimu_trace" where
  "upd_meta g \<equiv> upd_snapshot (\<lambda>s. s\<lparr>ts_meta := g (ts_meta s)\<rparr>)"

section \<open>Operations\<close>

definition att1_aimu_trace_create :: "bool \<Rightarrow> bool \<Rightarrow> att1_status \<times> att1_aimu_trace option" where
  "att1_aimu_trace_create alloc out_ok =
     (if \<not> out_ok then (ATT1_ERR_INVALID_ARG, None)
      else if \<not> alloc then (ATT1_ERR_OOM, None)
      else (ATT1_OK, Some \<lparr>tr_magic = TRACE_MAGIC, tr_snapshot = empty_snapshot\<rparr>))"

definition trace_cmdq_counters :: "att1_aimu_cmdq_counters \<Rightarrow> att1_aimu_trace_cmdq_counters" where
  "trace_cmdq_counters c =
     \<lparr>tq_commands_submitted = qc_commands_submitted c, tq_commands_completed = qc_commands_completed c,
      tq_commands_failed = qc_commands_failed c, tq_queue_full_count = qc_queue_full_count c,
      tq_unsupported_commands = qc_unsupported_commands c, tq_fence_value = qc_fence_value c\<rparr>"

definition att1_aimu_trace_snapshot_cmdq ::
  "att1_aimu_trace option \<Rightarrow> 'ctx att1_aimu_cmdq option \<Rightarrow> att1_status \<times> att1_aimu_trace option" where
  "att1_aimu_trace_snapshot_cmdq tp qp =
     (case (tp, qp) of
        (Some t, Some q) \<Rightarrow>
          (ATT1_OK, Some (upd_snapshot (\<lambda>s. s\<lparr>ts_cmdq := trace_cmdq_counters (q_counters q)\<rparr>) t))
      | _ \<Rightarrow> (ATT1_ERR_INVALID_ARG, tp))"

text \<open>The loop over the tiles: the sum of their resets and the number of tiles in error.\<close>

definition trace_tile_totals :: "'q att1_aimu_device \<Rightarrow> u64 \<times> u64" where
  "trace_tile_totals dev =
     fold (\<lambda>i (tile_resets, tile_errors).
             (tile_resets + ucast (ti_reset_count (dev_tiles dev ! i)),
              if ti_state (dev_tiles dev ! i) = TILE_ERROR then tile_errors + 1 else tile_errors))
       [0..<unat (dev_tile_count dev)] (0, 0)"

definition att1_aimu_trace_snapshot_device ::
  "att1_aimu_trace option \<Rightarrow> 'q att1_aimu_device option \<Rightarrow> att1_status \<times> att1_aimu_trace option" where
  "att1_aimu_trace_snapshot_device tp devp =
     (case (tp, devp) of
        (Some t, Some dev) \<Rightarrow>
          (let (tile_resets, tile_errors) = trace_tile_totals dev
           in (ATT1_OK, Some
                (upd_snapshot (\<lambda>s. s\<lparr>ts_device := \<lparr>td_device_resets = ucast (dev_reset_count dev),
                                                   td_tile_resets = tile_resets,
                                                   td_tile_errors = tile_errors\<rparr>,
                                    ts_meta := (ts_meta s)\<lparr>tm_tile_count := ucast (dev_tile_count dev)\<rparr>\<rparr>) t)))
      | _ \<Rightarrow> (ATT1_ERR_INVALID_ARG, tp))"

definition trace_dma_counters :: "att1_aimu_dma_counters \<Rightarrow> att1_aimu_trace_dma_counters" where
  "trace_dma_counters c =
     \<lparr>ta_dma_submitted = dc_submitted c, ta_dma_completed = dc_completed c, ta_dma_failed = dc_failed c,
      ta_bytes_host_to_device = dc_bytes_h2d c, ta_bytes_device_to_host = dc_bytes_d2h c,
      ta_bytes_device_to_device = dc_bytes_d2d c, ta_alignment_failures = dc_alignment_failures c,
      ta_range_failures = dc_range_failures c, ta_unsupported_flags = dc_unsupported_flags c\<rparr>"

definition att1_aimu_trace_snapshot_dma ::
  "att1_aimu_trace option \<Rightarrow> att1_aimu_dma option \<Rightarrow> att1_status \<times> att1_aimu_trace option" where
  "att1_aimu_trace_snapshot_dma tp simp =
     (case (tp, simp) of
        (Some t, Some sim) \<Rightarrow>
          (ATT1_OK, Some (upd_snapshot (\<lambda>s. s\<lparr>ts_dma := trace_dma_counters (dma_counters sim)\<rparr>) t))
      | _ \<Rightarrow> (ATT1_ERR_INVALID_ARG, tp))"

definition att1_aimu_trace_snapshot_all ::
  "att1_aimu_trace option \<Rightarrow> 'ctx att1_aimu_cmdq option \<Rightarrow> 'q att1_aimu_device option \<Rightarrow> att1_aimu_dma option
     \<Rightarrow> att1_status \<times> att1_aimu_trace option" where
  "att1_aimu_trace_snapshot_all tp q dev dma =
     (if tp = None then (ATT1_ERR_INVALID_ARG, None)
      else
        (let t1 = (if q = None then tp else snd (att1_aimu_trace_snapshot_cmdq tp q));
             t2 = (if dev = None then t1 else snd (att1_aimu_trace_snapshot_device t1 dev));
             t3 = (if dma = None then t2 else snd (att1_aimu_trace_snapshot_dma t2 dma));
             status = (if q \<noteq> None \<and> dev \<noteq> None \<and> dma \<noteq> None then TRACE_STATUS_OK else TRACE_STATUS_PARTIAL)
         in (ATT1_OK, map_option
               (upd_meta (\<lambda>m. m\<lparr>tm_snapshot_id := tm_snapshot_id m + 1, tm_status := status\<rparr>)) t3)))"

definition att1_aimu_trace_get_snapshot ::
  "att1_aimu_trace option \<Rightarrow> bool \<Rightarrow> att1_status \<times> att1_aimu_trace_snapshot option" where
  "att1_aimu_trace_get_snapshot tp out_ok =
     (case tp of
        None \<Rightarrow> (ATT1_ERR_INVALID_ARG, None)
      | Some t \<Rightarrow> if out_ok then (ATT1_OK, Some (tr_snapshot t)) else (ATT1_ERR_INVALID_ARG, None))"

definition att1_aimu_trace_reset :: "att1_aimu_trace option \<Rightarrow> att1_status \<times> att1_aimu_trace option" where
  "att1_aimu_trace_reset tp = with_ptr (\<lambda>t. (ATT1_OK, t\<lparr>tr_snapshot := empty_snapshot\<rparr>)) tp"

definition att1_aimu_trace_status_name :: "u32 \<Rightarrow> string" where
  "att1_aimu_trace_status_name status =
     (if status = TRACE_STATUS_OK then ''OK'' else if status = TRACE_STATUS_PARTIAL then ''PARTIAL''
      else if status = TRACE_STATUS_EMPTY then ''EMPTY'' else ''UNKNOWN'')"

section \<open>Correctness\<close>

lemma trace_tile_totals_eq:
  assumes "device_inv dev"
  shows "trace_tile_totals dev =
    (\<Sum>t \<leftarrow> dev_tiles dev. ucast (ti_reset_count t),
     of_nat (length (filter (\<lambda>t. ti_state t = TILE_ERROR) (dev_tiles dev))))"
proof -
  let ?f = "\<lambda>i (r, e). (r + ucast (ti_reset_count (dev_tiles dev ! i)),
      if ti_state (dev_tiles dev ! i) = TILE_ERROR then e + 1 else e) :: u64 \<times> u64"
  have "fold ?f [0..<n] (0, 0) =
      (\<Sum>t \<leftarrow> take n (dev_tiles dev). ucast (ti_reset_count t),
       of_nat (length (filter (\<lambda>t. ti_state t = TILE_ERROR) (take n (dev_tiles dev)))))"
    if "n \<le> length (dev_tiles dev)" for n
    using that by (induction n) (simp_all add: take_Suc_conv_app_nth)
  from this [of "length (dev_tiles dev)"] assms show ?thesis
    by (simp add: trace_tile_totals_def device_inv_def)
qed

text \<open>What a snapshot holds, section by section.\<close>

lemma snapshot_all_eq:
  "att1_aimu_trace_snapshot_all (Some t) q dev dma = (ATT1_OK, Some (upd_snapshot (\<lambda>s. s
     \<lparr>ts_cmdq := (case q of None \<Rightarrow> ts_cmdq s | Some q \<Rightarrow> trace_cmdq_counters (q_counters q)),
      ts_device := (case dev of None \<Rightarrow> ts_device s
        | Some d \<Rightarrow> \<lparr>td_device_resets = ucast (dev_reset_count d), td_tile_resets = fst (trace_tile_totals d),
                     td_tile_errors = snd (trace_tile_totals d)\<rparr>),
      ts_dma := (case dma of None \<Rightarrow> ts_dma s | Some a \<Rightarrow> trace_dma_counters (dma_counters a)),
      ts_meta := (ts_meta s)
        \<lparr>tm_tile_count := (case dev of None \<Rightarrow> tm_tile_count (ts_meta s) | Some d \<Rightarrow> ucast (dev_tile_count d)),
         tm_snapshot_id := tm_snapshot_id (ts_meta s) + 1,
         tm_status := (if q \<noteq> None \<and> dev \<noteq> None \<and> dma \<noteq> None then TRACE_STATUS_OK
                       else TRACE_STATUS_PARTIAL)\<rparr>\<rparr>) t))"
  by (cases q; cases dev; cases dma)
    (simp_all add: att1_aimu_trace_snapshot_all_def att1_aimu_trace_snapshot_cmdq_def
      att1_aimu_trace_snapshot_device_def att1_aimu_trace_snapshot_dma_def Let_def split: prod.split)

end
