(* ===== verification/Aimu_Mmio.thy ===== *)
theory Aimu_Mmio
  imports Aimu_Mmio_Map Aimu_Trace
begin

text \<open>
  The register file (\<^verbatim>\<open>src/aimu_mmio.c\<close>): typed 32-bit and 64-bit accesses over a backing array,
  side effects of the write-only registers, and the copies from the attached simulators. The
  register file does not own the simulators: it keeps their addresses, and the operations read
  and update them in a \<open>aimu_world\<close>. The array of \<^verbatim>\<open>0x10000 / 4\<close> cells is a function of the
  index; \<open>mmio_offset_in_bounds\<close> shows that checked accesses stay inside it.
\<close>

section \<open>State\<close>

record 'ctx aimu_world =
  w_device :: "nat \<Rightarrow> nat att1_aimu_device"
  w_cmdq :: "nat \<Rightarrow> 'ctx att1_aimu_cmdq"
  w_trace :: "nat \<Rightarrow> att1_aimu_trace"

record att1_aimu_mmio =
  mm_magic :: u32
  mm_regs :: "nat \<Rightarrow> u32"
  mm_device :: "nat option"
  mm_cmdq :: "nat option"
  mm_trace :: "nat option"
  mm_doorbell_write_count :: u32
  mm_snapshot_trigger_count :: u32

definition reg_get :: "att1_aimu_mmio \<Rightarrow> u32 \<Rightarrow> u32" where
  "reg_get m off = mm_regs m (unat off div 4)"

definition reg_set :: "u32 \<Rightarrow> u32 \<Rightarrow> att1_aimu_mmio \<Rightarrow> att1_aimu_mmio" where
  "reg_set off v m = m\<lparr>mm_regs := (mm_regs m)(unat off div 4 := v)\<rparr>"

definition reg_set_all :: "(u32 \<times> u32) list \<Rightarrow> att1_aimu_mmio \<Rightarrow> att1_aimu_mmio" where
  "reg_set_all ws m = fold (\<lambda>(off, v). reg_set off v) ws m"

definition lo32 :: "u64 \<Rightarrow> u32" where "lo32 v = ucast (v AND 0xFFFFFFFF)"
definition hi32 :: "u64 \<Rightarrow> u32" where "hi32 v = ucast (drop_bit 32 v)"

section \<open>Copies into the registers\<close>

definition version_word :: "att1_aimu_device_version \<Rightarrow> u32" where
  "version_word v = push_bit 24 (ucast (ver_major v)) OR push_bit 16 (ucast (ver_minor v))
     OR push_bit 8 (ucast (ver_patch v)) OR ucast (ver_build v)"

definition mmio_set_defaults :: "att1_aimu_mmio \<Rightarrow> att1_aimu_mmio" where
  "mmio_set_defaults =
     reg_set_all
       [(MMIO_DEVICE_ID, MMIO_DEVICE_ID_DEFAULT),
        (MMIO_REGISTER_MAP_VERSION, REGISTER_MAP_VERSION),
        (MMIO_GLOBAL_STATUS, MMIO_GSTAT_DEVICE_READY),
        (MMIO_DEVICE_VERSION, version_word DEVICE_DEFAULT_VERSION)]"

fun tile_state_code :: "att1_aimu_tile_state \<Rightarrow> u32" where
  "tile_state_code TILE_IDLE = 0"
| "tile_state_code TILE_ACTIVE = 1"
| "tile_state_code TILE_ERROR = 2"
| "tile_state_code TILE_RESET = 3"

definition global_status_of :: "nat att1_aimu_device \<Rightarrow> u32 \<Rightarrow> u32" where
  "global_status_of dev old =
     fold (\<lambda>i gstat.
             let gstat = (if ti_state (dev_tiles dev ! i) = TILE_ACTIVE
                          then gstat OR MMIO_GSTAT_ANY_TILE_ACTIVE else gstat)
             in if ti_state (dev_tiles dev ! i) = TILE_ERROR
                then gstat OR MMIO_GSTAT_ANY_TILE_ERROR else gstat)
       [0..<unat (dev_tile_count dev)] MMIO_GSTAT_DEVICE_READY
     OR (old AND MMIO_GSTAT_TRACE_ACTIVE)"

text \<open>What the loop writes into the window of one tile, as pairs of a window offset and a value.\<close>

definition tile_window :: "u64 \<Rightarrow> att1_aimu_tile_info \<Rightarrow> (u32 \<times> u32) list" where
  "tile_window feature_flags ti =
     [(MMIO_TILE_ID, ucast (ti_tile_id ti)),
      (MMIO_TILE_STATUS, tile_state_code (ti_state ti) AND 0x3),
      (MMIO_TILE_FEATURE_FLAGS, lo32 feature_flags),
      (MMIO_TILE_MEMORY_CAPACITY_LOW, lo32 (ti_memory_capacity_bytes ti)),
      (MMIO_TILE_MEMORY_CAPACITY_HIGH, hi32 (ti_memory_capacity_bytes ti)),
      (MMIO_TILE_MEMORY_USED_LOW, lo32 (ti_memory_used_bytes ti)),
      (MMIO_TILE_MEMORY_USED_HIGH, hi32 (ti_memory_used_bytes ti)),
      (MMIO_TILE_KV_CAPACITY_LOW, lo32 (ti_kv_capacity_bytes ti)),
      (MMIO_TILE_KV_CAPACITY_HIGH, hi32 (ti_kv_capacity_bytes ti)),
      (MMIO_TILE_KV_USED_LOW, lo32 (ti_kv_used_bytes ti)),
      (MMIO_TILE_KV_USED_HIGH, hi32 (ti_kv_used_bytes ti)),
      (MMIO_TILE_SUPPORTED_DTYPES, ti_supported_dtypes ti),
      (MMIO_TILE_SUPPORTED_OPS_LOW, ti_supported_ops ti),
      (MMIO_TILE_SUPPORTED_OPS_HIGH, 0),
      (MMIO_TILE_FABRIC_LINK_MASK, ucast (ti_fabric_link_mask ti)),
      (MMIO_TILE_ERROR_STATUS, ucast (ti_error_code ti))]"

definition sync_tile :: "u64 \<Rightarrow> nat att1_aimu_device \<Rightarrow> nat \<Rightarrow> att1_aimu_mmio \<Rightarrow> att1_aimu_mmio" where
  "sync_tile feature_flags dev n =
     reg_set_all (map (\<lambda>(f, v). (MMIO_BASE_TILE n + f, v)) (tile_window feature_flags (dev_tiles dev ! n)))"

definition sync_from_device :: "'ctx aimu_world \<Rightarrow> att1_aimu_mmio \<Rightarrow> att1_aimu_mmio" where
  "sync_from_device w m =
     (case mm_device m of
        None \<Rightarrow> m
      | Some a \<Rightarrow>
        (let dev = w_device w a
         in case att1_aimu_device_query_info (Some dev) True of
              (ATT1_OK, Some info) \<Rightarrow>
                (let m1 = reg_set_all
                       [(MMIO_DEVICE_ID, MMIO_DEVICE_ID_DEFAULT),
                        (MMIO_DEVICE_VERSION, version_word (di_version info)),
                        (MMIO_REGISTER_MAP_VERSION, di_register_map_version info),
                        (MMIO_FEATURE_FLAGS_LOW, lo32 (di_feature_flags info)),
                        (MMIO_FEATURE_FLAGS_HIGH, hi32 (di_feature_flags info)),
                        (MMIO_TILE_COUNT, ucast (di_tile_count info)),
                        (MMIO_COMMAND_QUEUE_COUNT, ucast (di_tile_count info))] m;
                     m2 = reg_set MMIO_GLOBAL_STATUS (global_status_of dev (reg_get m1 MMIO_GLOBAL_STATUS)) m1
                 in fold (sync_tile (di_feature_flags info) dev)
                      [0..<min (unat (dev_tile_count dev)) (unat DEVICE_MAX_TILES)] m2)
            | _ \<Rightarrow> m))"

definition sync_from_cmdq :: "'ctx aimu_world \<Rightarrow> att1_aimu_mmio \<Rightarrow> att1_aimu_mmio" where
  "sync_from_cmdq w m =
     (case mm_cmdq m of
        None \<Rightarrow> m
      | Some a \<Rightarrow>
        (let q = w_cmdq w a; c = q_counters q
         in reg_set_all
              [(MMIO_CQ_HEAD, ucast (q_cmd_head q) AND 0xFFFF),
               (MMIO_CQ_TAIL, ucast (q_cmd_tail q) AND 0xFFFF),
               (MMIO_CQ_FENCE_VALUE, ucast (qc_fence_value c AND 0xFFFF)),
               (MMIO_CQ_STATUS, if q_cmd_head q = q_cmd_tail q then 0 else 0x10),
               (MMIO_CNT_CMD_ISSUED_LO, lo32 (qc_commands_submitted c)),
               (MMIO_CNT_CMD_ISSUED_HI, hi32 (qc_commands_submitted c)),
               (MMIO_CNT_CMD_COMPLETED_LO, lo32 (qc_commands_completed c)),
               (MMIO_CNT_CMD_COMPLETED_HI, hi32 (qc_commands_completed c)),
               (MMIO_CNT_STALL_QUEUE_FULL_LO, lo32 (qc_queue_full_count c)),
               (MMIO_CNT_STALL_QUEUE_FULL_HI, hi32 (qc_queue_full_count c))] m))"

definition WR64 :: "u32 \<Rightarrow> u64 \<Rightarrow> (u32 \<times> u32) list" where
  "WR64 lo_off val = [(lo_off, lo32 val), (lo_off + 4, hi32 val)]"

definition sync_from_trace :: "'ctx aimu_world \<Rightarrow> att1_aimu_mmio \<Rightarrow> att1_aimu_mmio" where
  "sync_from_trace w m =
     (case mm_trace m of
        None \<Rightarrow> m
      | Some a \<Rightarrow>
        (let s = tr_snapshot (w_trace w a)
         in if tm_status (ts_meta s) = TRACE_STATUS_EMPTY then m
            else
              (let cmdq = ts_cmdq s; dma = ts_dma s; fabric = ts_fabric s; device = ts_device s;
                   errors_total = tq_commands_failed cmdq + td_tile_errors device
               in reg_set_all
                    (WR64 MMIO_CNT_CMD_ISSUED_LO (tq_commands_submitted cmdq)
                     @ WR64 MMIO_CNT_CMD_COMPLETED_LO (tq_commands_completed cmdq)
                     @ WR64 MMIO_CNT_STALL_QUEUE_FULL_LO (tq_queue_full_count cmdq)
                     @ WR64 MMIO_CNT_ERRORS_TOTAL_LO errors_total
                     @ WR64 MMIO_CNT_TENSOR_BYTES_RD_LO (ta_bytes_host_to_device dma)
                     @ WR64 MMIO_CNT_TENSOR_BYTES_WR_LO (ta_bytes_device_to_host dma)
                     @ WR64 MMIO_CNT_FABRIC_PKT_SENT_LO (tf_packets_sent fabric)
                     @ WR64 MMIO_CNT_FABRIC_PKT_RECV_LO (tf_packets_received fabric)
                     @ WR64 MMIO_FABRIC_PKT_CTR_LOW (tf_packets_sent fabric)
                     @ WR64 MMIO_FABRIC_PAYLOAD_BYTES_LOW (tf_payload_bytes_sent fabric)
                     @ [(MMIO_FABRIC_CONGESTION_CTR, lo32 (tf_congestion_events fabric))]) m)))"

section \<open>Side effects of the write-only registers\<close>

definition mmio_reset_tile :: "u32 \<Rightarrow> 'ctx aimu_world \<Rightarrow> att1_aimu_mmio \<Rightarrow> 'ctx aimu_world \<times> att1_aimu_mmio" where
  "mmio_reset_tile tile_n w m =
     (let w' = (case mm_device m of
                  None \<Rightarrow> w
                | Some a \<Rightarrow>
                  (let dev = w_device w a
                   in if tile_n < ucast (dev_tile_count dev)
                      then w\<lparr>w_device := (w_device w)
                               (a := the (snd (att1_aimu_device_reset_tile (Some dev) (ucast tile_n))))\<rparr>
                      else w))
      in (w', sync_from_device w' m))"

definition mmio_global_control :: "u32 \<Rightarrow> att1_aimu_mmio \<Rightarrow> att1_aimu_mmio" where
  "mmio_global_control value m =
     (let upd = (\<lambda>b g m. if value AND b \<noteq> 0
                         then reg_set MMIO_GLOBAL_STATUS (g (reg_get m MMIO_GLOBAL_STATUS)) m else m)
      in upd MMIO_GCTRL_DISABLE_TRACE (\<lambda>r. r AND NOT MMIO_GSTAT_TRACE_ACTIVE)
          (upd MMIO_GCTRL_ENABLE_TRACE (\<lambda>r. r OR MMIO_GSTAT_TRACE_ACTIVE)
            (upd MMIO_GCTRL_DISABLE_DEVICE (\<lambda>r. r AND NOT MMIO_GSTAT_DEVICE_READY)
              (upd MMIO_GCTRL_ENABLE_DEVICE (\<lambda>r. r OR MMIO_GSTAT_DEVICE_READY) m))))"

text \<open>The \<^verbatim>\<open>memset\<close> over the counter cells.\<close>

definition mmio_clear_counters :: "att1_aimu_mmio \<Rightarrow> att1_aimu_mmio" where
  "mmio_clear_counters m =
     m\<lparr>mm_regs := (\<lambda>i. if unat MMIO_CNT_BASE div 4 \<le> i \<and> i < unat MMIO_CNT_END div 4 then 0
                       else mm_regs m i)\<rparr>"

definition mmio_reset_control :: "u32 \<Rightarrow> 'ctx aimu_world \<Rightarrow> att1_aimu_mmio \<Rightarrow> 'ctx aimu_world \<times> att1_aimu_mmio" where
  "mmio_reset_control value w m =
     (let (w1, m1) =
            (if value AND MMIO_RSTCTL_SOFT_RESET_ALL \<noteq> 0
             then (let w' = (case mm_device m of
                               None \<Rightarrow> w
                             | Some a \<Rightarrow> w\<lparr>w_device := (w_device w)
                                 (a := the (snd (att1_aimu_device_reset (Some (w_device w a)))))\<rparr>)
                   in (w', sync_from_trace w' (sync_from_cmdq w' (sync_from_device w' (mmio_set_defaults m)))))
             else (w, m));
          (w2, m2) =
            (if value AND MMIO_RSTCTL_RESET_COUNTERS \<noteq> 0
             then (case mm_trace m1 of
                     None \<Rightarrow> w1
                   | Some a \<Rightarrow> w1\<lparr>w_trace := (w_trace w1)
                       (a := the (snd (att1_aimu_trace_reset (Some (w_trace w1 a)))))\<rparr>,
                   mmio_clear_counters m1)
             else (w1, m1));
          m3 = (if value AND MMIO_RSTCTL_RESET_TRACE \<noteq> 0
                then reg_set_all [(MMIO_TRACE_WRITE_PTR, 0), (MMIO_TRACE_DROPPED_EVENTS, 0)] m2 else m2)
      in (w2, m3))"

definition mmio_wo_write :: "'ctx aimu_world \<Rightarrow> att1_aimu_mmio \<Rightarrow> u32 \<Rightarrow> u32
    \<Rightarrow> att1_status \<times> 'ctx aimu_world \<times> att1_aimu_mmio" where
  "mmio_wo_write w m off value =
     (if 0x8000 \<le> off
      then (let rel = off - 0x8000; tile_n = rel div 0x800; tile_off = rel mod 0x800
            in if tile_off = MMIO_TILE_RESET_CONTROL
               then (ATT1_OK, mmio_reset_tile tile_n w m)
               else (ATT1_OK, w, m))
      else if off = MMIO_GLOBAL_CONTROL then (ATT1_OK, w, mmio_global_control value m)
      else if off = MMIO_RESET_CONTROL then (ATT1_OK, mmio_reset_control value w m)
      else if off = MMIO_CQ_DOORBELL
      then (ATT1_OK, w, reg_set MMIO_CQ_TAIL (value AND 0xFFFF)
              (m\<lparr>mm_doorbell_write_count := mm_doorbell_write_count m + 1\<rparr>))
      else (ATT1_OK, w, m))"

section \<open>Interface\<close>

definition blank_mmio :: att1_aimu_mmio where
  "blank_mmio = \<lparr>mm_magic = MMIO_MAGIC, mm_regs = (\<lambda>_. 0), mm_device = None, mm_cmdq = None,
     mm_trace = None, mm_doorbell_write_count = 0, mm_snapshot_trigger_count = 0\<rparr>"

definition att1_aimu_mmio_create :: "bool \<Rightarrow> bool \<Rightarrow> att1_status \<times> att1_aimu_mmio option" where
  "att1_aimu_mmio_create alloc out_ok =
     (if \<not> out_ok then (ATT1_ERR_INVALID_ARG, None)
      else if \<not> alloc then (ATT1_ERR_OOM, None)
      else (ATT1_OK, Some (mmio_set_defaults blank_mmio)))"

definition att1_aimu_mmio_read32 :: "att1_aimu_mmio option \<Rightarrow> u32 \<Rightarrow> bool \<Rightarrow> att1_status \<times> u32 option" where
  "att1_aimu_mmio_read32 mp offset out_ok =
     (case mp of
        None \<Rightarrow> (ATT1_ERR_INVALID_ARG, None)
      | Some m \<Rightarrow>
        (if \<not> out_ok then (ATT1_ERR_INVALID_ARG, None)
         else if mm_magic m \<noteq> MMIO_MAGIC then (ATT1_ERR_INVALID_ARG, None)
         else if offset mod 4 \<noteq> 0 then (ATT1_ERR_INVALID_ARG, None)
         else if MMIO_BAR0_SIZE \<le> offset then (ATT1_ERR_INVALID_ARG, None)
         else (case mmio_access_type offset of
                 ACCESS_WO \<Rightarrow> (ATT1_OK, Some 0)
               | ACCESS_RESERVED \<Rightarrow> (ATT1_OK, Some MMIO_RESERVED_RD)
               | _ \<Rightarrow> (ATT1_OK, Some (reg_get m offset)))))"

text \<open>The write to \<^verbatim>\<open>COUNTER_SNAPSHOT_CONTROL\<close>.\<close>

definition mmio_snapshot_write :: "'ctx aimu_world \<Rightarrow> att1_aimu_mmio \<Rightarrow> u32 \<Rightarrow> u32
    \<Rightarrow> 'ctx aimu_world \<times> att1_aimu_mmio" where
  "mmio_snapshot_write w m offset value =
     (if value AND MMIO_SNAP_NOW \<noteq> 0
      then (let m1 = m\<lparr>mm_snapshot_trigger_count := mm_snapshot_trigger_count m + 1\<rparr>;
                (w', m2) =
                  (case mm_trace m1 of
                     Some a \<Rightarrow>
                       (let w' = w\<lparr>w_trace := (w_trace w)
                              (a := the (snd (att1_aimu_trace_snapshot_all (Some (w_trace w a))
                                      (map_option (w_cmdq w) (mm_cmdq m1)) (map_option (w_device w) (mm_device m1))
                                      None)))\<rparr>
                        in (w', sync_from_trace w' m1))
                   | None \<Rightarrow> (w, case mm_cmdq m1 of Some _ \<Rightarrow> sync_from_cmdq w m1 | None \<Rightarrow> m1))
            in (w', reg_set offset (value AND NOT MMIO_SNAP_NOW) m2))
      else (w, reg_set offset value m))"

definition att1_aimu_mmio_write32 :: "'ctx aimu_world \<Rightarrow> att1_aimu_mmio option \<Rightarrow> u32 \<Rightarrow> u32
    \<Rightarrow> att1_status \<times> 'ctx aimu_world \<times> att1_aimu_mmio option" where
  "att1_aimu_mmio_write32 w mp offset value =
     (case mp of
        None \<Rightarrow> (ATT1_ERR_INVALID_ARG, w, None)
      | Some m \<Rightarrow>
        (if mm_magic m \<noteq> MMIO_MAGIC then (ATT1_ERR_INVALID_ARG, w, Some m)
         else if offset mod 4 \<noteq> 0 then (ATT1_ERR_INVALID_ARG, w, Some m)
         else if MMIO_BAR0_SIZE \<le> offset then (ATT1_ERR_INVALID_ARG, w, Some m)
         else (case mmio_access_type offset of
                 ACCESS_RO \<Rightarrow> (ATT1_ERR_UNSUPPORTED, w, Some m)
               | ACCESS_RW \<Rightarrow>
                   (if offset = MMIO_COUNTER_SNAPSHOT_CONTROL
                    then (let (w', m') = mmio_snapshot_write w m offset value in (ATT1_OK, w', Some m'))
                    else (ATT1_OK, w, Some (reg_set offset value m)))
               | ACCESS_RW1C \<Rightarrow> (ATT1_OK, w, Some (reg_set offset (reg_get m offset AND NOT value) m))
               | ACCESS_WO \<Rightarrow> (let (st, w', m') = mmio_wo_write w m offset value in (st, w', Some m'))
               | ACCESS_RESERVED \<Rightarrow> (ATT1_OK, w, Some m))))"

definition att1_aimu_mmio_read64 :: "att1_aimu_mmio option \<Rightarrow> u32 \<Rightarrow> bool \<Rightarrow> att1_status \<times> u64 option" where
  "att1_aimu_mmio_read64 mp offset out_ok =
     (if mp = None \<or> \<not> out_ok then (ATT1_ERR_INVALID_ARG, None)
      else if offset mod 8 \<noteq> 0 then (ATT1_ERR_INVALID_ARG, None)
      else if MMIO_BAR0_SIZE \<le> offset + 4 then (ATT1_ERR_INVALID_ARG, None)
      else (case att1_aimu_mmio_read32 mp offset True of
              (rc, lo) \<Rightarrow>
                if rc \<noteq> ATT1_OK then (rc, None)
                else (case att1_aimu_mmio_read32 mp (offset + 4) True of
                        (rc', hi) \<Rightarrow>
                          if rc' \<noteq> ATT1_OK then (rc', None)
                          else (ATT1_OK, Some (push_bit 32 (ucast (the hi)) OR ucast (the lo))))))"

definition att1_aimu_mmio_write64 :: "'ctx aimu_world \<Rightarrow> att1_aimu_mmio option \<Rightarrow> u32 \<Rightarrow> u64
    \<Rightarrow> att1_status \<times> 'ctx aimu_world \<times> att1_aimu_mmio option" where
  "att1_aimu_mmio_write64 w mp offset value =
     (if mp = None then (ATT1_ERR_INVALID_ARG, w, None)
      else if offset mod 8 \<noteq> 0 then (ATT1_ERR_INVALID_ARG, w, mp)
      else if MMIO_BAR0_SIZE \<le> offset + 4 then (ATT1_ERR_INVALID_ARG, w, mp)
      else (let (rc, w1, mp1) = att1_aimu_mmio_write32 w mp offset (lo32 value)
            in if rc \<noteq> ATT1_OK then (rc, w1, mp1)
               else att1_aimu_mmio_write32 w1 mp1 (offset + 4) (hi32 value)))"

definition att1_aimu_mmio_attach_device :: "att1_aimu_mmio option \<Rightarrow> nat option \<Rightarrow> att1_status \<times> att1_aimu_mmio option" where
  "att1_aimu_mmio_attach_device mp dev = with_ptr (\<lambda>m. (ATT1_OK, m\<lparr>mm_device := dev\<rparr>)) mp"

definition att1_aimu_mmio_attach_cmdq :: "att1_aimu_mmio option \<Rightarrow> nat option \<Rightarrow> att1_status \<times> att1_aimu_mmio option" where
  "att1_aimu_mmio_attach_cmdq mp cq = with_ptr (\<lambda>m. (ATT1_OK, m\<lparr>mm_cmdq := cq\<rparr>)) mp"

definition att1_aimu_mmio_attach_trace :: "att1_aimu_mmio option \<Rightarrow> nat option \<Rightarrow> att1_status \<times> att1_aimu_mmio option" where
  "att1_aimu_mmio_attach_trace mp tr = with_ptr (\<lambda>m. (ATT1_OK, m\<lparr>mm_trace := tr\<rparr>)) mp"

definition att1_aimu_mmio_sync :: "'ctx aimu_world \<Rightarrow> att1_aimu_mmio option \<Rightarrow> att1_status \<times> att1_aimu_mmio option" where
  "att1_aimu_mmio_sync w mp =
     with_ptr (\<lambda>m. (ATT1_OK, sync_from_trace w (sync_from_cmdq w (sync_from_device w (mmio_set_defaults m))))) mp"

definition att1_aimu_mmio_reset :: "att1_aimu_mmio option \<Rightarrow> att1_status \<times> att1_aimu_mmio option" where
  "att1_aimu_mmio_reset mp =
     with_ptr (\<lambda>m. (ATT1_OK, mmio_set_defaults
       (m\<lparr>mm_regs := (\<lambda>_. 0), mm_doorbell_write_count := 0, mm_snapshot_trigger_count := 0\<rparr>))) mp"

fun att1_aimu_mmio_err_name :: "att1_status \<Rightarrow> string" where
  "att1_aimu_mmio_err_name ATT1_OK = ''ATT1_OK''"
| "att1_aimu_mmio_err_name ATT1_ERR_INVALID_ARG = ''ATT1_ERR_INVALID_ARG''"
| "att1_aimu_mmio_err_name ATT1_ERR_OOM = ''ATT1_ERR_OOM''"
| "att1_aimu_mmio_err_name ATT1_ERR_IO = ''ATT1_ERR_IO''"
| "att1_aimu_mmio_err_name ATT1_ERR_BAD_FORMAT = ''ATT1_ERR_BAD_FORMAT''"
| "att1_aimu_mmio_err_name ATT1_ERR_NOT_FOUND = ''ATT1_ERR_NOT_FOUND''"
| "att1_aimu_mmio_err_name ATT1_ERR_SHAPE = ''ATT1_ERR_SHAPE''"
| "att1_aimu_mmio_err_name ATT1_ERR_QUEUE_FULL = ''ATT1_ERR_QUEUE_FULL''"
| "att1_aimu_mmio_err_name ATT1_ERR_STATE = ''ATT1_ERR_STATE''"
| "att1_aimu_mmio_err_name ATT1_ERR_UNSUPPORTED = ''ATT1_ERR_UNSUPPORTED''"
| "att1_aimu_mmio_err_name ATT1_ERR_QUEUE_EMPTY = ''ATT1_ERR_QUEUE_EMPTY''"
| "att1_aimu_mmio_err_name ATT1_ERR_TIMEOUT = ''ATT1_ERR_TIMEOUT''"
| "att1_aimu_mmio_err_name ATT1_ERR_ALREADY_STARTED = ''ATT1_ERR_ALREADY_STARTED''"

end
