(* ===== verification/Aimu_Mmio_Inv.thy ===== *)
theory Aimu_Mmio_Inv
  imports Aimu_Mmio
begin

text \<open>
  Lemmas about the register file: cells and windows, what a write leaves for later reads, the
  64-bit pairs, what a synchronisation copies from the attached device, and the registers that
  hold in every reachable state.
\<close>

section \<open>Register cells\<close>

lemma aligned_index:
  fixes a b :: u32
  assumes "a mod 4 = 0" "b mod 4 = 0"
  shows "unat a div 4 = unat b div 4 \<longleftrightarrow> a = b"
proof
  assume e: "unat a div 4 = unat b div 4"
  have "unat a mod 4 = 0" "unat b mod 4 = 0"
    using assms [THEN arg_cong, of unat] by (simp_all add: unat_mod_distrib)
  then have "unat a = unat b" using e div_mult_mod_eq [of "unat a" 4] div_mult_mod_eq [of "unat b" 4] by simp
  then show "a = b" by (rule word_unat_eq_iff [THEN iffD2])
qed simp

lemma mmio_offset_in_bounds:
  assumes "off < MMIO_BAR0_SIZE"
  shows "unat off div 4 < 0x10000 div 4"
proof -
  have "unat off < 0x10000" using assms by (simp add: MMIO_BAR0_SIZE_def word_less_nat_alt)
  then show ?thesis by simp
qed

lemma reg_get_set:
  "a mod 4 = 0 \<Longrightarrow> b mod 4 = 0 \<Longrightarrow> reg_get (reg_set a v m) b = (if a = b then v else reg_get m b)"
  using aligned_index [of a b] by (auto simp: reg_get_def reg_set_def)

lemma reg_get_set_same [simp]: "reg_get (reg_set a v m) a = v"
  by (simp add: reg_get_def reg_set_def)

lemma reg_set_fields [simp]:
  "mm_magic (reg_set a v m) = mm_magic m" "mm_device (reg_set a v m) = mm_device m"
  "mm_cmdq (reg_set a v m) = mm_cmdq m" "mm_trace (reg_set a v m) = mm_trace m"
  by (simp_all add: reg_set_def)

lemma reg_set_all_simps [simp]:
  "reg_set_all [] m = m" "reg_set_all ((a, v) # ws) m = reg_set_all ws (reg_set a v m)"
  "reg_set_all (ws @ ws') m = reg_set_all ws' (reg_set_all ws m)"
  by (simp_all add: reg_set_all_def)

lemma reg_set_all_fields [simp]:
  "mm_magic (reg_set_all ws m) = mm_magic m" "mm_device (reg_set_all ws m) = mm_device m"
  "mm_cmdq (reg_set_all ws m) = mm_cmdq m" "mm_trace (reg_set_all ws m) = mm_trace m"
  by (induction ws arbitrary: m; auto)+

definition aligned_writes :: "(u32 \<times> u32) list \<Rightarrow> bool" where
  "aligned_writes ws \<longleftrightarrow> (\<forall>(a, v) \<in> set ws. a mod 4 = 0)"

lemma reg_get_set_all:
  "aligned_writes ws \<Longrightarrow> b mod 4 = 0 \<Longrightarrow>
   reg_get (reg_set_all ws m) b = (case map_of (rev ws) b of Some v \<Rightarrow> v | None \<Rightarrow> reg_get m b)"
proof (induction ws arbitrary: m)
  case (Cons e ws)
  obtain a v where e: "e = (a, v)" by force
  have "aligned_writes ws" "a mod 4 = 0" using Cons.prems e by (auto simp: aligned_writes_def)
  then show ?case
    using Cons.IH [of "reg_set a v m"] Cons.prems(2) e
    by (auto simp: reg_get_set map_add_def split: option.split)
qed simp

lemma map_of_rev_distinct: "distinct (map fst ws) \<Longrightarrow> map_of (rev ws) = map_of ws"
  by (subst map_of_inject_set) (simp_all add: rev_map [symmetric])

lemma reg_get_other:
  "aligned_writes ws \<Longrightarrow> b mod 4 = 0 \<Longrightarrow> b \<notin> fst ` set ws \<Longrightarrow> reg_get (reg_set_all ws m) b = reg_get m b"
  by (simp add: reg_get_set_all map_of_eq_None_iff [THEN iffD2])

lemma lo32_mask: "lo32 v = ucast (v AND mask 32)"
proof -
  have "(0xFFFFFFFF :: u64) = mask 32" by (simp add: mask_eq_exp_minus_1)
  then show ?thesis by (simp only: lo32_def)
qed

lemma lo_hi_join: "push_bit 32 (ucast (hi32 v)) OR ucast (lo32 v) = (v :: u64)"
proof (rule bit_word_eqI)
  fix n assume "n < LENGTH(64)"
  then show "bit (push_bit 32 (ucast (hi32 v)) OR ucast (lo32 v) :: u64) n = bit v n"
    by (auto simp: hi32_def lo32_mask bit_simps)
qed

lemma lo_hi_split:
  "lo32 (push_bit 32 (ucast h) OR ucast l) = l" "hi32 (push_bit 32 (ucast h) OR ucast l) = h"
  by (rule bit_word_eqI, auto simp: lo32_mask hi32_def bit_simps dest: bit_imp_le_length)+

section \<open>Writes and reads\<close>

lemma read32_eq:
  "mm_magic m = MMIO_MAGIC \<Longrightarrow> off mod 4 = 0 \<Longrightarrow> off < MMIO_BAR0_SIZE \<Longrightarrow>
   att1_aimu_mmio_read32 (Some m) off True = (ATT1_OK, Some
     (case mmio_access_type off of ACCESS_WO \<Rightarrow> 0 | ACCESS_RESERVED \<Rightarrow> MMIO_RESERVED_RD | _ \<Rightarrow> reg_get m off))"
  by (simp add: att1_aimu_mmio_read32_def not_le split: reg_access.split)

lemma snapshot_write_cell:
  assumes "mmio_snapshot_write w m off v = (w', m')" "off mod 4 = 0"
  shows "reg_get m' off = v AND NOT MMIO_SNAP_NOW" "mm_magic m' = mm_magic m"
proof -
  have "v AND NOT MMIO_SNAP_NOW = v" if "v AND MMIO_SNAP_NOW = 0"
  proof (rule bit_word_eqI)
    fix n assume "n < LENGTH(32)"
    have "\<not> (bit v n \<and> bit MMIO_SNAP_NOW n)" using arg_cong [OF that, of "\<lambda>x. bit x n"] by (simp add: bit_and_iff)
    then show "bit (v AND NOT MMIO_SNAP_NOW) n = bit v n" using \<open>n < LENGTH(32)\<close> by (auto simp: bit_simps)
  qed
  then show "reg_get m' off = v AND NOT MMIO_SNAP_NOW"
    using assms by (auto simp: mmio_snapshot_write_def Let_def split: if_splits option.splits prod.splits)
  show "mm_magic m' = mm_magic m"
    using assms by (auto simp: mmio_snapshot_write_def Let_def sync_from_trace_def sync_from_cmdq_def
        split: if_splits option.splits prod.splits)
qed

section \<open>Synchronisation\<close>

lemma high_access: "0x8000 \<le> off \<Longrightarrow> mmio_access_type off = mmio_tile_access off"
proof -
  assume h: "0x8000 \<le> off"
  have n: "map_of t off = None" if "\<forall>(k, a) \<in> set t. k < 0x8000" for t :: "(u32 \<times> reg_access) list"
    using that h by (fastforce simp: map_of_eq_None_iff)
  have "map_of mmio_global_regs off = None" "map_of mmio_cq_regs off = None" "map_of mmio_dma_regs off = None"
    "map_of mmio_fabric_regs off = None" "map_of mmio_trace_regs off = None"
    by (rule n, simp add: mmio_tables mmio_offsets)+
  moreover have "\<not> off < MMIO_CNT_END"
    using h by (simp add: MMIO_CNT_END_def word_le_nat_alt word_less_nat_alt)
  ultimately show ?thesis using h by (simp add: mmio_access_type_def)
qed

lemma counter_access: "MMIO_CNT_BASE \<le> off \<Longrightarrow> off < MMIO_CNT_END \<Longrightarrow> mmio_access_type off = ACCESS_RO"
proof -
  assume h: "MMIO_CNT_BASE \<le> off" "off < MMIO_CNT_END"
  have n: "map_of t off = None" if "\<forall>(k, a) \<in> set t. k < MMIO_CNT_BASE" for t :: "(u32 \<times> reg_access) list"
    using that h(1) by (fastforce simp: map_of_eq_None_iff)
  have "map_of mmio_global_regs off = None" "map_of mmio_cq_regs off = None" "map_of mmio_dma_regs off = None"
    "map_of mmio_fabric_regs off = None"
    by (rule n, simp add: mmio_tables mmio_offsets)+
  then show ?thesis using h by (simp add: mmio_access_type_def)
qed

lemma tile_offset:
  assumes "n < 16" "f < 0x800"
  shows "unat (MMIO_BASE_TILE n + f) = 0x8000 + n * 0x800 + unat f"
proof -
  have f: "unat f < 0x800" using assms(2) by (simp add: word_less_nat_alt)
  have n: "unat (word_of_nat n :: u32) = n" using assms(1) by (simp add: unat_of_nat)
  have "unat (word_of_nat n * 0x800 :: u32) = n * 0x800" using assms(1) n by (simp add: unat_mult_lem [THEN iffD1])
  then have "unat (MMIO_BASE_TILE n) = 0x8000 + n * 0x800"
    using assms(1) unfolding MMIO_BASE_TILE_def by (subst unat_add_lem [THEN iffD1]) simp_all
  then show ?thesis using assms(1) f by (subst unat_add_lem [THEN iffD1]) simp_all
qed

lemma tile_offset_facts:
  assumes "n < 16" "f < 0x800" "f mod 4 = 0"
  shows "(MMIO_BASE_TILE n + f) mod 4 = 0" "MMIO_BASE_TILE n + f < MMIO_BAR0_SIZE"
    "mmio_access_type (MMIO_BASE_TILE n + f)
      = (case map_of mmio_tile_regs f of Some a \<Rightarrow> a | None \<Rightarrow> ACCESS_RESERVED)"
proof -
  note o = tile_offset [OF assms(1,2)]
  have f: "unat f < 0x800" using assms(2) by (simp add: word_less_nat_alt)
  have f4: "unat f mod 4 = 0" using assms(3) [THEN arg_cong, of unat] by (simp add: unat_mod_distrib)
  have "(0x8000 + n * 0x800 + unat f) mod 4 = 0" using f4 by presburger
  then have "unat ((MMIO_BASE_TILE n + f) mod 4) = 0" using o by (simp add: unat_mod_distrib)
  then show "(MMIO_BASE_TILE n + f) mod 4 = 0" by (simp add: unat_eq_0)
  show "MMIO_BASE_TILE n + f < MMIO_BAR0_SIZE"
    using o f assms(1) by (simp add: MMIO_BAR0_SIZE_def word_less_nat_alt)
  have ge: "0x8000 \<le> MMIO_BASE_TILE n + f" using o by (simp add: word_le_nat_alt)
  have "unat ((MMIO_BASE_TILE n + f - 0x8000) mod 0x800) = (n * 0x800 + unat f) mod 0x800"
    using o ge by (simp add: unat_mod_distrib unat_sub)
  also have "\<dots> = unat f" using f by simp
  finally have "(MMIO_BASE_TILE n + f - 0x8000) mod 0x800 = f" by (simp add: word_unat_eq_iff)
  then show "mmio_access_type (MMIO_BASE_TILE n + f)
      = (case map_of mmio_tile_regs f of Some a \<Rightarrow> a | None \<Rightarrow> ACCESS_RESERVED)"
    using high_access [OF ge] by (simp add: mmio_tile_access_def)
qed

lemma tile_window_keys:
  "map fst (tile_window ff ti) = map fst (butlast mmio_tile_regs)"
  "\<forall>f \<in> fst ` set (tile_window ff ti). f < 0x800 \<and> f mod 4 = 0"
  "distinct (map fst (tile_window ff ti))"
  by (simp_all add: tile_window_def mmio_tile_regs_def mmio_offsets)

lemma tile_window_key:
  assumes "(f, v) \<in> set (tile_window ff ti)"
  shows "f < 0x800 \<and> f mod 4 = 0"
proof -
  have "f \<in> fst ` set (tile_window ff ti)" using assms by force
  then show ?thesis using tile_window_keys(2) [of ff ti] by blast
qed

lemma sync_tile_aligned:
  assumes "n < 16"
  shows "aligned_writes (map (\<lambda>(f, v). (MMIO_BASE_TILE n + f, v)) (tile_window ff ti))"
  unfolding aligned_writes_def
proof clarsimp
  fix f v assume "(f, v) \<in> set (tile_window ff ti)"
  then have "f < 0x800" "f mod 4 = 0" using tile_window_key by blast+
  then show "(MMIO_BASE_TILE n + f) mod 4 = 0" by (intro tile_offset_facts(1) [OF assms])
qed

lemma sync_tile_own:
  assumes "n < 16" "(f, v) \<in> set (tile_window ff (dev_tiles dev ! n))"
  shows "reg_get (sync_tile ff dev n m) (MMIO_BASE_TILE n + f) = v"
proof -
  let ?ws = "tile_window ff (dev_tiles dev ! n)" and ?g = "\<lambda>f. MMIO_BASE_TILE n + f"
  have al: "aligned_writes (map (\<lambda>(f, v). (?g f, v)) ?ws)"
    by (rule sync_tile_aligned [OF assms(1)])
  have d: "distinct (map fst (map (\<lambda>(f, v). (?g f, v)) ?ws))"
    using tile_window_keys(3) by (simp add: comp_def case_prod_unfold distinct_map inj_on_def)
  have "map_of ?ws f = Some v" using assms(2) tile_window_keys(3) by (intro map_of_is_SomeI)
  then have "map_of (map (\<lambda>(f, v). (?g f, v)) ?ws) (?g f) = Some v"
    by (intro map_of_mapk_SomeI) (simp_all add: inj_def)
  moreover have "f < 0x800 \<and> f mod 4 = 0" by (rule tile_window_key [OF assms(2)])
  ultimately show ?thesis
    using tile_offset_facts(1) [OF assms(1), of f] d
    unfolding sync_tile_def by (subst reg_get_set_all [OF al]) (simp_all add: map_of_rev_distinct)
qed

lemma sync_tile_other:
  assumes "n < 16" "b mod 4 = 0" "\<forall>f < 0x800. b \<noteq> MMIO_BASE_TILE n + f"
  shows "reg_get (sync_tile ff dev n m) b = reg_get m b"
  unfolding sync_tile_def
proof (rule reg_get_other)
  show "aligned_writes (map (\<lambda>(f, v). (MMIO_BASE_TILE n + f, v)) (tile_window ff (dev_tiles dev ! n)))"
    by (rule sync_tile_aligned [OF assms(1)])
  show "b \<notin> fst ` set (map (\<lambda>(f, v). (MMIO_BASE_TILE n + f, v)) (tile_window ff (dev_tiles dev ! n)))"
    using tile_window_key assms(3) by fastforce
qed (rule assms(2))

lemma sync_tiles:
  assumes "k \<le> 16"
  shows "n < k \<Longrightarrow> (f, v) \<in> set (tile_window ff (dev_tiles dev ! n)) \<Longrightarrow>
      reg_get (fold (sync_tile ff dev) [0..<k] m) (MMIO_BASE_TILE n + f) = v"
    and "b mod 4 = 0 \<Longrightarrow> unat b < 0x8000 \<Longrightarrow> reg_get (fold (sync_tile ff dev) [0..<k] m) b = reg_get m b"
    and "mm_magic (fold (sync_tile ff dev) [0..<k] m) = mm_magic m"
  using assms
proof (induction k)
  case (Suc k)
  { case 1
    then have n: "n \<le> k" "k < 16" by simp_all
    have "f < 0x800 \<and> f mod 4 = 0" by (rule tile_window_key [OF 1(2)])
    then have f: "f < 0x800" "f mod 4 = 0" by blast+
    show ?case
    proof (cases "n = k")
      case True
      then show ?thesis using sync_tile_own [OF n(2)] 1 by simp
    next
      case False
      then have nk: "n < k" "n < 16" using n by simp_all
      have "MMIO_BASE_TILE n + f \<noteq> MMIO_BASE_TILE k + f'" if "f' < 0x800" for f'
      proof
        assume e: "MMIO_BASE_TILE n + f = MMIO_BASE_TILE k + f'"
        have "n * 0x800 + unat f = k * 0x800 + unat f'"
          using arg_cong [OF e, of unat] tile_offset [OF nk(2) f(1)] tile_offset [OF n(2) that] by simp
        moreover have "unat f < 0x800" "unat f' < 0x800" using f(1) that by (simp_all add: word_less_nat_alt)
        ultimately show False using nk(1) by simp
      qed
      then show ?thesis
        using sync_tile_other [OF n(2) tile_offset_facts(1) [OF nk(2) f]] Suc.IH(1) [OF nk(1) 1(2)] n by simp
    qed
  next
    case 2
    have "b \<noteq> MMIO_BASE_TILE k + f'" if "f' < 0x800" for f'
      using tile_offset [of k f'] that 2 by auto
    then show ?case using sync_tile_other [of k b] Suc.IH(2) 2 by simp
  next
    case 3
    then show ?case using Suc.IH(3) by (simp add: sync_tile_def)
  }
qed simp_all

lemma global_status_eq:
  assumes "device_inv dev"
  shows "global_status_of dev old =
    MMIO_GSTAT_DEVICE_READY
    OR (if \<exists>t \<in> set (dev_tiles dev). ti_state t = TILE_ACTIVE then MMIO_GSTAT_ANY_TILE_ACTIVE else 0)
    OR (if \<exists>t \<in> set (dev_tiles dev). ti_state t = TILE_ERROR then MMIO_GSTAT_ANY_TILE_ERROR else 0)
    OR (old AND MMIO_GSTAT_TRACE_ACTIVE)"
proof -
  let ?f = "\<lambda>i gstat. let gstat = (if ti_state (dev_tiles dev ! i) = TILE_ACTIVE
                          then gstat OR MMIO_GSTAT_ANY_TILE_ACTIVE else gstat)
             in if ti_state (dev_tiles dev ! i) = TILE_ERROR
                then gstat OR MMIO_GSTAT_ANY_TILE_ERROR else gstat"
  have "fold ?f [0..<n] g = g
      OR (if \<exists>t \<in> set (take n (dev_tiles dev)). ti_state t = TILE_ACTIVE then MMIO_GSTAT_ANY_TILE_ACTIVE else 0)
      OR (if \<exists>t \<in> set (take n (dev_tiles dev)). ti_state t = TILE_ERROR then MMIO_GSTAT_ANY_TILE_ERROR else 0)"
    if "n \<le> length (dev_tiles dev)" for n g
    using that by (induction n) (auto simp: take_Suc_conv_app_nth Let_def ac_simps)
  from this [of "length (dev_tiles dev)"] assms show ?thesis
    by (simp add: global_status_of_def device_inv_def or.assoc)
qed

lemma sync_from_cmdq_other:
  assumes "b mod 4 = 0" "b \<notin> {MMIO_CQ_HEAD, MMIO_CQ_TAIL, MMIO_CQ_FENCE_VALUE, MMIO_CQ_STATUS}"
    and "b < MMIO_CNT_BASE \<or> MMIO_CNT_END \<le> b"
  shows "reg_get (sync_from_cmdq w m) b = reg_get m b"
proof (cases "mm_cmdq m")
  case (Some a)
  have "b \<noteq> x" if "MMIO_CNT_BASE \<le> x" "x < MMIO_CNT_END" for x
    using that assms(3) by auto
  then show ?thesis
    unfolding sync_from_cmdq_def Some option.case Let_def
    by (intro reg_get_other) (use assms(1,2) in \<open>simp_all add: aligned_writes_def mmio_offsets\<close>)
qed (simp add: sync_from_cmdq_def)

lemma sync_magic [simp]:
  "mm_magic (sync_from_cmdq w m) = mm_magic m" "mm_magic (sync_from_trace w m) = mm_magic m"
  by (simp_all add: sync_from_cmdq_def sync_from_trace_def Let_def split: option.split)

lemma sync_from_trace_other:
  assumes "b mod 4 = 0" "b < MMIO_FABRIC_PKT_CTR_LOW \<or> MMIO_FABRIC_CONGESTION_CTR < b"
    and "b < MMIO_CNT_BASE \<or> MMIO_CNT_END \<le> b"
  shows "reg_get (sync_from_trace w m) b = reg_get m b"
proof (cases "mm_trace m")
    case (Some a)
    have "b \<noteq> x" if "MMIO_CNT_BASE \<le> x" "x < MMIO_CNT_END" for x
      using that assms(3) by auto
    moreover have "b \<noteq> x" if "MMIO_FABRIC_PKT_CTR_LOW \<le> x" "x \<le> MMIO_FABRIC_CONGESTION_CTR" for x
      using that assms(2) by auto
    ultimately have "reg_get (reg_set_all (WR64 MMIO_CNT_CMD_ISSUED_LO a1 @ WR64 MMIO_CNT_CMD_COMPLETED_LO a2
        @ WR64 MMIO_CNT_STALL_QUEUE_FULL_LO a3 @ WR64 MMIO_CNT_ERRORS_TOTAL_LO a4
        @ WR64 MMIO_CNT_TENSOR_BYTES_RD_LO a5 @ WR64 MMIO_CNT_TENSOR_BYTES_WR_LO a6
        @ WR64 MMIO_CNT_FABRIC_PKT_SENT_LO a7 @ WR64 MMIO_CNT_FABRIC_PKT_RECV_LO a8
        @ WR64 MMIO_FABRIC_PKT_CTR_LOW a9 @ WR64 MMIO_FABRIC_PAYLOAD_BYTES_LOW a10
        @ [(MMIO_FABRIC_CONGESTION_CTR, a11)]) m) b = reg_get m b" for a1 a2 a3 a4 a5 a6 a7 a8 a9 a10 a11
      by (intro reg_get_other) (use assms(1) in \<open>simp_all add: aligned_writes_def WR64_def mmio_offsets\<close>)
    then show ?thesis by (simp only: sync_from_trace_def Some option.case Let_def if_distrib [of "\<lambda>x. reg_get x b"] if_cancel)
qed (simp add: sync_from_trace_def)

text \<open>The registers after a synchronisation with an attached device.\<close>

lemma sync_device_regs:
  assumes "device_inv (w_device w a)" "mm_device m = Some a"
  shows "n < length (dev_tiles (w_device w a)) \<Longrightarrow>
      (f, v) \<in> set (tile_window (dev_feature_flags (w_device w a)) (dev_tiles (w_device w a) ! n)) \<Longrightarrow>
      reg_get (sync_from_device w m) (MMIO_BASE_TILE n + f) = v"
    and "reg_get (sync_from_device w m) MMIO_TILE_COUNT = ucast (dev_tile_count (w_device w a))"
    and "reg_get (sync_from_device w m) MMIO_DEVICE_ID = MMIO_DEVICE_ID_DEFAULT"
    and "reg_get (sync_from_device w m) MMIO_GLOBAL_STATUS
      = global_status_of (w_device w a) (reg_get m MMIO_GLOBAL_STATUS)"
    and "mm_magic (sync_from_device w m) = mm_magic m"
    and "b mod 4 = 0 \<Longrightarrow> MMIO_ERROR_DETAIL \<le> b \<Longrightarrow> b < 0x8000 \<Longrightarrow>
      reg_get (sync_from_device w m) b = reg_get m b"
    and "reg_get (sync_from_device w m) MMIO_REGISTER_MAP_VERSION = dev_register_map_version (w_device w a)"
proof -
  let ?dev = "w_device w a"
  let ?ws = "[(MMIO_DEVICE_ID, MMIO_DEVICE_ID_DEFAULT), (MMIO_DEVICE_VERSION, version_word (dev_version ?dev)),
     (MMIO_REGISTER_MAP_VERSION, dev_register_map_version ?dev),
     (MMIO_FEATURE_FLAGS_LOW, lo32 (dev_feature_flags ?dev)), (MMIO_FEATURE_FLAGS_HIGH, hi32 (dev_feature_flags ?dev)),
     (MMIO_TILE_COUNT, ucast (dev_tile_count ?dev)), (MMIO_COMMAND_QUEUE_COUNT, ucast (dev_tile_count ?dev))]"
  define m1 where "m1 = reg_set_all ?ws m"
  define m2 where "m2 = reg_set MMIO_GLOBAL_STATUS (global_status_of ?dev (reg_get m1 MMIO_GLOBAL_STATUS)) m1"
  let ?n = "length (dev_tiles ?dev)"
  have n16: "?n \<le> 16" using assms(1) by (simp add: device_inv_def)
  have "min (unat (dev_tile_count ?dev)) (unat DEVICE_MAX_TILES) = ?n"
    using assms(1) by (simp add: device_inv_def DEVICE_MAX_TILES_def)
  then have e: "sync_from_device w m = fold (sync_tile (dev_feature_flags ?dev) ?dev) [0..<?n] m2"
    by (simp only: sync_from_device_def assms(2) option.case Let_def att1_aimu_device_query_info_def simp_thms if_True if_False
        prod.case att1_status.case att1_aimu_device_info.simps m1_def m2_def)
  have al: "aligned_writes ?ws" by (simp add: aligned_writes_def mmio_offsets)
  have g1: "reg_get m1 MMIO_GLOBAL_STATUS = reg_get m MMIO_GLOBAL_STATUS"
    unfolding m1_def by (rule reg_get_other [OF al]) (simp_all add: mmio_offsets)
  note low = sync_tiles(2) [OF n16, of _ "dev_feature_flags ?dev" ?dev m2]
  show "reg_get (sync_from_device w m) (MMIO_BASE_TILE n + f) = v"
    if "n < ?n" "(f, v) \<in> set (tile_window (dev_feature_flags ?dev) (dev_tiles ?dev ! n))"
    unfolding e by (rule sync_tiles(1) [OF n16 that])
  show "reg_get (sync_from_device w m) MMIO_TILE_COUNT = ucast (dev_tile_count ?dev)"
    unfolding e by (subst low) (simp_all add: m1_def m2_def reg_get_set mmio_offsets)
  show "reg_get (sync_from_device w m) MMIO_DEVICE_ID = MMIO_DEVICE_ID_DEFAULT"
    unfolding e by (subst low) (simp_all add: m1_def m2_def reg_get_set mmio_offsets)
  show "reg_get (sync_from_device w m) MMIO_REGISTER_MAP_VERSION = dev_register_map_version ?dev"
    unfolding e by (subst low) (simp_all add: m1_def m2_def reg_get_set mmio_offsets)
  show "reg_get (sync_from_device w m) MMIO_GLOBAL_STATUS = global_status_of ?dev (reg_get m MMIO_GLOBAL_STATUS)"
    unfolding e by (subst low) (simp_all add: m2_def g1, simp_all add: mmio_offsets)
  show "mm_magic (sync_from_device w m) = mm_magic m"
    unfolding e sync_tiles(3) [OF n16] by (simp add: m1_def m2_def)
  show "reg_get (sync_from_device w m) b = reg_get m b" if b: "b mod 4 = 0" "MMIO_ERROR_DETAIL \<le> b" "b < 0x8000"
  proof -
    have u: "unat b < 0x8000" using b(3) by (simp add: word_less_nat_alt)
    have ne: "b \<noteq> x" if "x < MMIO_ERROR_DETAIL" for x using that b(2) by auto
    have "reg_get m2 b = reg_get m1 b"
      using b(1) ne [of MMIO_GLOBAL_STATUS] unfolding m2_def by (subst reg_get_set) (simp_all add: mmio_offsets)
    also have "\<dots> = reg_get m b"
      unfolding m1_def by (rule reg_get_other [OF al b(1)]) (use ne in \<open>simp add: mmio_offsets\<close>)
    finally show ?thesis unfolding e using low [OF b(1) u] by simp
  qed
qed

lemma sync_device_magic [simp]:
  "mm_magic (sync_from_device w m) = mm_magic m" "mm_device (sync_from_device w m) = mm_device m"
  "mm_cmdq (sync_from_device w m) = mm_cmdq m" "mm_trace (sync_from_device w m) = mm_trace m"
proof -
  have "mm_magic (fold (sync_tile ff dev) ns m) = mm_magic m \<and> mm_device (fold (sync_tile ff dev) ns m) = mm_device m
      \<and> mm_cmdq (fold (sync_tile ff dev) ns m) = mm_cmdq m \<and> mm_trace (fold (sync_tile ff dev) ns m) = mm_trace m" for ff dev ns m
    by (induction ns arbitrary: m) (simp_all add: sync_tile_def)
  then show "mm_magic (sync_from_device w m) = mm_magic m" "mm_device (sync_from_device w m) = mm_device m"
    "mm_cmdq (sync_from_device w m) = mm_cmdq m" "mm_trace (sync_from_device w m) = mm_trace m"
    by (simp_all add: sync_from_device_def Let_def split: option.split prod.split att1_status.split)
qed

lemma sync_other_fields [simp]:
  "mm_device (sync_from_cmdq w m) = mm_device m" "mm_cmdq (sync_from_cmdq w m) = mm_cmdq m"
  "mm_trace (sync_from_cmdq w m) = mm_trace m" "mm_device (sync_from_trace w m) = mm_device m"
  "mm_cmdq (sync_from_trace w m) = mm_cmdq m" "mm_trace (sync_from_trace w m) = mm_trace m"
  by (simp_all add: sync_from_cmdq_def sync_from_trace_def Let_def split: option.split)

lemma defaults_fields [simp]:
  "mm_magic (mmio_set_defaults m) = mm_magic m" "mm_device (mmio_set_defaults m) = mm_device m"
  "mm_cmdq (mmio_set_defaults m) = mm_cmdq m" "mm_trace (mmio_set_defaults m) = mm_trace m"
  by (simp_all add: mmio_set_defaults_def)

lemma wo_write_magic:
  "mmio_wo_write w m off v = (st, w', m') \<Longrightarrow> st = ATT1_OK \<and> mm_magic m' = mm_magic m"
  by (auto simp: mmio_wo_write_def mmio_reset_tile_def mmio_reset_control_def mmio_global_control_def
      mmio_clear_counters_def mmio_set_defaults_def Let_def split: if_splits prod.splits)

section \<open>Reachable register files\<close>

text \<open>
  The host creates, attaches, writes, synchronises and resets; between two of its calls other
  code may change the simulators, as long as the devices keep their invariant.
\<close>

inductive mmio_reachable :: "'ctx aimu_world \<Rightarrow> att1_aimu_mmio \<Rightarrow> bool" where
  create: "att1_aimu_mmio_create alloc out_ok = (ATT1_OK, Some m) \<Longrightarrow> \<forall>a. device_reachable (w_device w a)
    \<Longrightarrow> mmio_reachable w m"
| outside: "mmio_reachable w m \<Longrightarrow> \<forall>a. device_reachable (w_device w' a) \<Longrightarrow> mmio_reachable w' m"
| write32: "mmio_reachable w m \<Longrightarrow> att1_aimu_mmio_write32 w (Some m) off v = (st, w', Some m')
    \<Longrightarrow> mmio_reachable w' m'"
| attach_device: "mmio_reachable w m \<Longrightarrow> att1_aimu_mmio_attach_device (Some m) d = (st, Some m')
    \<Longrightarrow> mmio_reachable w m'"
| attach_cmdq: "mmio_reachable w m \<Longrightarrow> att1_aimu_mmio_attach_cmdq (Some m) q = (st, Some m')
    \<Longrightarrow> mmio_reachable w m'"
| attach_trace: "mmio_reachable w m \<Longrightarrow> att1_aimu_mmio_attach_trace (Some m) t = (st, Some m')
    \<Longrightarrow> mmio_reachable w m'"
| sync: "mmio_reachable w m \<Longrightarrow> att1_aimu_mmio_sync w (Some m) = (st, Some m') \<Longrightarrow> mmio_reachable w m'"
| reset: "mmio_reachable w m \<Longrightarrow> att1_aimu_mmio_reset (Some m) = (st, Some m') \<Longrightarrow> mmio_reachable w m'"

definition mmio_ok :: "'ctx aimu_world \<Rightarrow> att1_aimu_mmio \<Rightarrow> bool" where
  "mmio_ok w m \<longleftrightarrow> (\<forall>a. device_reachable (w_device w a)) \<and> mm_magic m = MMIO_MAGIC
     \<and> reg_get m MMIO_DEVICE_ID = MMIO_DEVICE_ID_DEFAULT
     \<and> reg_get m MMIO_COUNTER_SNAPSHOT_CONTROL AND MMIO_SNAP_NOW = 0"

lemma mmio_ok_fields [simp]:
  "mmio_ok w (m\<lparr>mm_device := d\<rparr>) = mmio_ok w m" "mmio_ok w (m\<lparr>mm_cmdq := q\<rparr>) = mmio_ok w m"
  "mmio_ok w (m\<lparr>mm_trace := t\<rparr>) = mmio_ok w m"
  "mmio_ok w (m\<lparr>mm_doorbell_write_count := k\<rparr>) = mmio_ok w m"
  "mmio_ok w (m\<lparr>mm_snapshot_trigger_count := k\<rparr>) = mmio_ok w m"
  "mmio_ok (w\<lparr>w_trace := tw\<rparr>) m = mmio_ok w m"
  by (simp_all add: mmio_ok_def reg_get_def)

lemma mmio_ok_reg_set:
  assumes "mmio_ok w m" "off mod 4 = 0" "off \<noteq> MMIO_DEVICE_ID"
    and "off = MMIO_COUNTER_SNAPSHOT_CONTROL \<longrightarrow> v AND MMIO_SNAP_NOW = 0"
  shows "mmio_ok w (reg_set off v m)"
proof -
  have "MMIO_DEVICE_ID mod 4 = 0" "MMIO_COUNTER_SNAPSHOT_CONTROL mod 4 = 0" by (simp_all add: mmio_offsets)
  with assms show ?thesis by (auto simp: mmio_ok_def reg_get_set)
qed

lemma mmio_ok_defaults:
  assumes "\<forall>a. device_reachable (w_device w a)" "mm_magic m = MMIO_MAGIC"
    and "reg_get m MMIO_COUNTER_SNAPSHOT_CONTROL AND MMIO_SNAP_NOW = 0"
  shows "mmio_ok w (mmio_set_defaults m)"
  using assms unfolding mmio_ok_def mmio_set_defaults_def by (simp add: reg_get_set mmio_offsets)

lemma mmio_ok_sync:
  assumes "mmio_ok w m"
  shows "mmio_ok w (sync_from_device w m)" "mmio_ok w (sync_from_cmdq w m)" "mmio_ok w (sync_from_trace w m)"
proof -
  show "mmio_ok w (sync_from_device w m)"
  proof (cases "mm_device m")
    case None
    then show ?thesis using assms by (simp add: sync_from_device_def)
  next
    case (Some a)
    have i: "device_inv (w_device w a)" using assms device_reachable_inv by (auto simp: mmio_ok_def)
    have "reg_get (sync_from_device w m) MMIO_COUNTER_SNAPSHOT_CONTROL = reg_get m MMIO_COUNTER_SNAPSHOT_CONTROL"
      by (rule sync_device_regs(6) [OF i Some]) (simp_all add: mmio_offsets)
    then show ?thesis using assms sync_device_regs(3,5) [OF i Some] by (simp add: mmio_ok_def)
  qed
  show "mmio_ok w (sync_from_cmdq w m)"
    using assms sync_from_cmdq_other [of MMIO_DEVICE_ID w m] sync_from_cmdq_other [of MMIO_COUNTER_SNAPSHOT_CONTROL w m]
    by (simp add: mmio_ok_def mmio_offsets)
  show "mmio_ok w (sync_from_trace w m)"
    using assms sync_from_trace_other [of MMIO_DEVICE_ID w m] sync_from_trace_other [of MMIO_COUNTER_SNAPSHOT_CONTROL w m]
    by (simp add: mmio_ok_def mmio_offsets)
qed

lemma mmio_ok_device_update:
  assumes "mmio_ok w m" "device_reachable (w_device w a) \<Longrightarrow> device_reachable d"
  shows "mmio_ok (w\<lparr>w_device := (w_device w)(a := d)\<rparr>) m"
  using assms by (simp add: mmio_ok_def)

lemma device_reset_reachable:
  "device_reachable d \<Longrightarrow> device_reachable (the (snd (att1_aimu_device_reset (Some d))))"
  "device_reachable d \<Longrightarrow> device_reachable (the (snd (att1_aimu_device_reset_tile (Some d) t)))"
proof -
  assume d: "device_reachable d"
  obtain st d' where "att1_aimu_device_reset (Some d) = (st, Some d')" by (simp add: att1_aimu_device_reset_def)
  then show "device_reachable (the (snd (att1_aimu_device_reset (Some d))))"
    using device_reachable.reset [OF d] by simp
  obtain st d' where "att1_aimu_device_reset_tile (Some d) t = (st, Some d')"
    by (simp add: att1_aimu_device_reset_tile_def)
  then show "device_reachable (the (snd (att1_aimu_device_reset_tile (Some d) t)))"
    using device_reachable.reset_tile [OF d] by simp
qed

lemma mmio_ok_reset_tile:
  assumes "mmio_ok w m" "mmio_reset_tile t w m = (w', m')"
  shows "mmio_ok w' m'"
proof (cases "mm_device m")
  case None
  then show ?thesis using assms mmio_ok_sync(1) [OF assms(1)] by (auto simp: mmio_reset_tile_def)
next
  case (Some a)
  let ?w = "w\<lparr>w_device := (w_device w)
      (a := the (snd (att1_aimu_device_reset_tile (Some (w_device w a)) (ucast t))))\<rparr>"
  have "mmio_ok ?w m" by (rule mmio_ok_device_update [OF assms(1) device_reset_reachable(2)])
  then show ?thesis
    using assms Some mmio_ok_sync(1) by (auto simp: mmio_reset_tile_def Let_def split: if_splits)
qed

lemma mmio_ok_global_control:
  assumes "mmio_ok w m"
  shows "mmio_ok w (mmio_global_control v m)"
proof -
  have "mmio_ok w (reg_set MMIO_GLOBAL_STATUS x m)" if "mmio_ok w m" for x m
    using that by (rule mmio_ok_reg_set) (simp_all add: mmio_offsets)
  then show ?thesis using assms by (simp add: mmio_global_control_def Let_def)
qed

lemma mmio_ok_reset_control:
  assumes "mmio_ok w m" "mmio_reset_control v w m = (w', m')"
  shows "mmio_ok w' m'"
proof -
  let ?w1 = "case mm_device m of None \<Rightarrow> w
    | Some a \<Rightarrow> w\<lparr>w_device := (w_device w)(a := the (snd (att1_aimu_device_reset (Some (w_device w a)))))\<rparr>"
  have "mmio_ok ?w1 m"
    using assms(1) mmio_ok_device_update [OF assms(1) device_reset_reachable(1)] by (simp split: option.split)
  then have "mmio_ok ?w1 (mmio_set_defaults m)" by (intro mmio_ok_defaults) (simp_all add: mmio_ok_def)
  then have 1: "mmio_ok ?w1 (sync_from_trace ?w1 (sync_from_cmdq ?w1 (sync_from_device ?w1 (mmio_set_defaults m))))"
    by (intro mmio_ok_sync)
  have clr: "mmio_ok w (mmio_clear_counters m)" if "mmio_ok w m" for w :: "'a aimu_world" and m
    using that by (simp add: mmio_ok_def mmio_clear_counters_def reg_get_def mmio_offsets)
  have wtr: "mmio_ok (case t of None \<Rightarrow> w | Some a \<Rightarrow> w\<lparr>w_trace := f a\<rparr>) m \<longleftrightarrow> mmio_ok w m"
    for t f and w :: "'a aimu_world" and m
    by (simp split: option.split)
  have tr: "mmio_ok w (reg_set_all [(MMIO_TRACE_WRITE_PTR, 0), (MMIO_TRACE_DROPPED_EVENTS, 0)] m)"
    if "mmio_ok w m" for w :: "'a aimu_world" and m
    using that unfolding reg_set_all_simps by (intro mmio_ok_reg_set) (simp_all add: mmio_offsets)
  show ?thesis
    using assms 1 clr tr
    by (auto simp: mmio_reset_control_def Let_def wtr simp del: reg_set_all_simps split: if_splits)
qed

lemma mmio_ok_wo_write:
  assumes "mmio_ok w m" "mmio_wo_write w m off v = (st, w', m')"
  shows "mmio_ok w' m'"
proof -
  have "mmio_ok w (reg_set MMIO_CQ_TAIL x m)" if "mmio_ok w m" for x m
    using that by (rule mmio_ok_reg_set) (simp_all add: mmio_offsets)
  then show ?thesis
    using assms mmio_ok_reset_tile [OF assms(1)] mmio_ok_reset_control [OF assms(1)] mmio_ok_global_control [OF assms(1)]
    by (auto simp: mmio_wo_write_def Let_def split: if_splits)
qed

lemma fixed_access:
  "mmio_access_type MMIO_DEVICE_ID = ACCESS_RO" "mmio_access_type MMIO_COUNTER_SNAPSHOT_CONTROL = ACCESS_RW"
  by (simp_all add: mmio_access_type_def mmio_global_regs_def mmio_offsets)

lemma and_not_self [simp]: "(v AND NOT b) AND b = (0 :: u32)"
  by (rule bit_word_eqI) (auto simp: bit_simps)

lemma mmio_ok_snapshot_write:
  assumes "mmio_ok w m" "mmio_snapshot_write w m MMIO_COUNTER_SNAPSHOT_CONTROL v = (w', m')"
  shows "mmio_ok w' m'"
proof -
  have st: "mmio_ok w (reg_set MMIO_COUNTER_SNAPSHOT_CONTROL x m)" if "mmio_ok w m" "x AND MMIO_SNAP_NOW = 0"
    for x m and w :: "'a aimu_world"
    using that(1) by (rule mmio_ok_reg_set) (use that(2) in \<open>simp_all add: mmio_offsets\<close>)
  have "mmio_ok (w\<lparr>w_trace := f\<rparr>) (sync_from_trace (w\<lparr>w_trace := f\<rparr>) (m\<lparr>mm_snapshot_trigger_count := k\<rparr>))" for f k
    using assms(1) by (intro mmio_ok_sync) simp
  moreover have "mmio_ok w (sync_from_cmdq w (m\<lparr>mm_snapshot_trigger_count := k\<rparr>))" for k
    using assms(1) by (intro mmio_ok_sync) simp
  ultimately show ?thesis
    using assms st by (auto simp: mmio_snapshot_write_def Let_def split: if_splits option.splits)
qed

lemma mmio_ok_write32:
  assumes "mmio_ok w m" "att1_aimu_mmio_write32 w (Some m) off v = (st, w', Some m')"
  shows "mmio_ok w' m'"
proof (cases "mm_magic m \<noteq> MMIO_MAGIC \<or> off mod 4 \<noteq> 0 \<or> MMIO_BAR0_SIZE \<le> off")
  case True
  then show ?thesis using assms by (auto simp: att1_aimu_mmio_write32_def split: if_splits)
next
  case False
  then have al: "off mod 4 = 0" and g: "mm_magic m = MMIO_MAGIC" "(MMIO_BAR0_SIZE \<le> off) = False" by auto
  note w = assms(2) [unfolded att1_aimu_mmio_write32_def option.case g al simp_thms if_False]
  show ?thesis
  proof (cases "mmio_access_type off")
    case ACCESS_RW
    show ?thesis
    proof (cases "off = MMIO_COUNTER_SNAPSHOT_CONTROL")
      case True
      then show ?thesis
        using w [unfolded ACCESS_RW reg_access.case] mmio_ok_snapshot_write [OF assms(1)] by (auto split: prod.splits)
    next
      case False
      then have "mmio_ok w (reg_set off v m)"
        using ACCESS_RW fixed_access(1) by (intro mmio_ok_reg_set [OF assms(1) al]) auto
      then show ?thesis using w ACCESS_RW False by simp
    qed
  next
    case ACCESS_RW1C
    then have "mmio_ok w (reg_set off (reg_get m off AND NOT v) m)"
      using fixed_access by (intro mmio_ok_reg_set [OF assms(1) al]) auto
    then show ?thesis using w ACCESS_RW1C by simp
  next
    case ACCESS_WO
    then show ?thesis using w mmio_ok_wo_write [OF assms(1)] by (auto split: prod.splits)
  qed (use w assms(1) in simp_all)
qed

lemma mmio_reachable_ok: "mmio_reachable w m \<Longrightarrow> mmio_ok w m"
proof (induction rule: mmio_reachable.induct)
  case (create alloc out_ok m w)
  then have "m = mmio_set_defaults blank_mmio" by (auto simp: att1_aimu_mmio_create_def split: if_splits)
  moreover have "mmio_ok w (mmio_set_defaults blank_mmio)"
    by (rule mmio_ok_defaults [OF create(2)]) (simp_all add: blank_mmio_def reg_get_def)
  ultimately show ?case by simp
next
  case (outside w m w')
  then show ?case by (simp add: mmio_ok_def)
next
  case (write32 w m off v st w' m')
  then show ?case by (blast intro: mmio_ok_write32)
next
  case (sync w m st m')
  then have "mmio_ok w (mmio_set_defaults m)" by (intro mmio_ok_defaults) (simp_all add: mmio_ok_def)
  then show ?case using sync(2) by (auto simp: att1_aimu_mmio_sync_def intro!: mmio_ok_sync)
next
  case (reset w m st m')
  have "mmio_ok w (mmio_set_defaults (m\<lparr>mm_regs := (\<lambda>_. 0), mm_doorbell_write_count := 0, mm_snapshot_trigger_count := 0\<rparr>))"
    using reset(3) by (intro mmio_ok_defaults) (simp_all add: mmio_ok_def reg_get_def)
  then show ?case using reset(2) by (auto simp: att1_aimu_mmio_reset_def)
qed (auto simp: att1_aimu_mmio_attach_device_def att1_aimu_mmio_attach_cmdq_def att1_aimu_mmio_attach_trace_def)

end
