(* ===== verification/Aimu_Mmio_Props.thy ===== *)
theory Aimu_Mmio_Props
  imports Aimu_Mmio_Inv
begin

text \<open>
  Properties of the register file: accesses by type, 64-bit pairs, synchronisation with the
  attached device, and what holds in every reachable register file.
\<close>

section \<open>A concrete register file\<close>

definition mmio_dev :: "nat att1_aimu_device" where
  "mmio_dev = the (snd (att1_aimu_device_create True None True))"

definition demo_world :: "unit aimu_world" where
  "demo_world = \<lparr>w_device = (\<lambda>_. mmio_dev), w_cmdq = (\<lambda>_. new_cmdq \<lparr>qcfg_tile_count = 1,
     qcfg_cmd_ring_depth = 2, qcfg_comp_ring_depth = 2\<rparr>),
     w_trace = (\<lambda>_. \<lparr>tr_magic = TRACE_MAGIC, tr_snapshot = empty_snapshot\<rparr>)\<rparr>"

definition demo_mmio :: att1_aimu_mmio where
  "demo_mmio = (mmio_set_defaults blank_mmio)\<lparr>mm_device := Some 0\<rparr>"

lemma mmio_dev_create: "att1_aimu_device_create True None True = (ATT1_OK, Some mmio_dev)"
  by (simp add: mmio_dev_def att1_aimu_device_create_def effective_config_def DEVICE_MAX_TILES_def Let_def)

lemma demo_world_ok: "\<forall>a. device_reachable (w_device demo_world a)"
  using device_reachable.create [OF mmio_dev_create] by (simp add: demo_world_def)

lemma demo_mmio_reachable: "mmio_reachable demo_world demo_mmio"
proof -
  have "att1_aimu_mmio_create True True = (ATT1_OK, Some (mmio_set_defaults blank_mmio))"
    by (simp add: att1_aimu_mmio_create_def)
  from mmio_reachable.create [OF this demo_world_ok] show ?thesis
    by (rule mmio_reachable.attach_device) (simp add: att1_aimu_mmio_attach_device_def demo_mmio_def)
qed

lemma demo_mmio_magic: "mm_magic demo_mmio = MMIO_MAGIC"
  by (simp add: demo_mmio_def mmio_set_defaults_def blank_mmio_def)

lemma write32_handle: "att1_aimu_mmio_write32 w (Some m) off v = (st, w', mp) \<Longrightarrow> \<exists>m'. mp = Some m'"
  by (auto simp: att1_aimu_mmio_write32_def split: if_splits reg_access.splits prod.splits)

section \<open>Accesses\<close>

text \<open>
  A 32-bit write followed by a read of the same aligned register, for each access type: a
  read-only register refuses the write, a read-write one returns the value (less the
  self-clearing snapshot bit), a write-one-to-clear one loses the written bits, a write-only
  one reads 0, a reserved offset discards the write and reads the sentinel. Writes to ordinary
  storage cells leave all other registers alone.
\<close>

theorem mmio_write_read_spec:
  assumes "mm_magic m = MMIO_MAGIC" "off mod 4 = 0" "off < MMIO_BAR0_SIZE"
    and "att1_aimu_mmio_write32 w (Some m) off v = (st, w', Some m')"
  shows "(case mmio_access_type off of
      ACCESS_RO \<Rightarrow> st = ATT1_ERR_UNSUPPORTED \<and> w' = w \<and> m' = m
    | ACCESS_RW \<Rightarrow> st = ATT1_OK \<and> att1_aimu_mmio_read32 (Some m') off True
        = (ATT1_OK, Some (if off = MMIO_COUNTER_SNAPSHOT_CONTROL then v AND NOT MMIO_SNAP_NOW else v))
    | ACCESS_RW1C \<Rightarrow> st = ATT1_OK \<and> att1_aimu_mmio_read32 (Some m') off True
        = (ATT1_OK, Some (the (snd (att1_aimu_mmio_read32 (Some m) off True)) AND NOT v))
    | ACCESS_WO \<Rightarrow> st = ATT1_OK \<and> att1_aimu_mmio_read32 (Some m') off True = (ATT1_OK, Some 0)
    | ACCESS_RESERVED \<Rightarrow> st = ATT1_OK \<and> w' = w \<and> m' = m
        \<and> att1_aimu_mmio_read32 (Some m') off True = (ATT1_OK, Some 0xDEADBEEF))
    \<and> (mmio_access_type off \<in> {ACCESS_RW, ACCESS_RW1C} \<and> off \<noteq> MMIO_COUNTER_SNAPSHOT_CONTROL \<longrightarrow>
        w' = w \<and> (\<forall>o'. o' \<noteq> off \<longrightarrow> att1_aimu_mmio_read32 (Some m') o' True = att1_aimu_mmio_read32 (Some m) o' True))"
proof -
  note al = assms(2)
  have g: "mm_magic m = MMIO_MAGIC" "(MMIO_BAR0_SIZE \<le> off) = False" using assms(1,3) by auto
  note w = assms(4) [unfolded att1_aimu_mmio_write32_def option.case g al simp_thms if_False]
  have other: "att1_aimu_mmio_read32 (Some (reg_set off x m)) o' True = att1_aimu_mmio_read32 (Some m) o' True"
    if "o' \<noteq> off" for o' x
  proof (cases "o' mod 4 = 0 \<and> o' < MMIO_BAR0_SIZE")
    case True
    then show ?thesis using that assms(1,2) reg_get_set [of off o' x m] by (simp add: read32_eq split: reg_access.split)
  next
    case False
    then show ?thesis by (auto simp: att1_aimu_mmio_read32_def)
  qed
  note rd = read32_eq [OF _ assms(2,3)]
  show ?thesis
  proof (cases "mmio_access_type off")
    case ACCESS_RW
    show ?thesis
    proof (cases "off = MMIO_COUNTER_SNAPSHOT_CONTROL")
      case True
      obtain w1 m1 where s: "mmio_snapshot_write w m off v = (w1, m1)" by force
      then have "st = ATT1_OK" "m' = m1" using w [unfolded ACCESS_RW reg_access.case] True by (auto split: prod.splits)
      then show ?thesis
        using snapshot_write_cell [OF s al] assms(1) ACCESS_RW True rd [of m1] by simp
    next
      case False
      then show ?thesis using w [unfolded ACCESS_RW reg_access.case] other ACCESS_RW assms(1) rd by auto
    qed
  next
    case ACCESS_RW1C
    then show ?thesis using w [unfolded ACCESS_RW1C reg_access.case] other assms(1) rd fixed_access by auto
  next
    case ACCESS_WO
    have "st = ATT1_OK \<and> mm_magic m' = MMIO_MAGIC"
      using w [unfolded ACCESS_WO reg_access.case] wo_write_magic [of w m off v] assms(1) by (auto split: prod.splits)
    then show ?thesis using ACCESS_WO rd by simp
  next
    case ACCESS_RO
    then show ?thesis using w by simp
  next
    case ACCESS_RESERVED
    then show ?thesis using w assms(1) rd by (simp add: MMIO_RESERVED_RD_def)
  qed
qed

theorem mmio_write_read_spec_witness:
  "\<exists>w' m'. att1_aimu_mmio_write32 demo_world (Some demo_mmio) MMIO_INTERRUPT_ENABLE 7 = (ATT1_OK, w', Some m')
    \<and> att1_aimu_mmio_read32 (Some m') MMIO_INTERRUPT_ENABLE True = (ATT1_OK, Some 7)"
proof -
  have o: "MMIO_INTERRUPT_ENABLE mod 4 = 0" "MMIO_INTERRUPT_ENABLE < MMIO_BAR0_SIZE"
    "mmio_access_type MMIO_INTERRUPT_ENABLE = ACCESS_RW" "MMIO_INTERRUPT_ENABLE \<noteq> MMIO_COUNTER_SNAPSHOT_CONTROL"
    by (simp_all add: mmio_offsets MMIO_BAR0_SIZE_def mmio_access_type_def mmio_global_regs_def)
  obtain st w' m' where w: "att1_aimu_mmio_write32 demo_world (Some demo_mmio) MMIO_INTERRUPT_ENABLE 7 = (st, w', Some m')"
    using o demo_mmio_magic by (simp add: att1_aimu_mmio_write32_def not_le [symmetric])
  from mmio_write_read_spec [OF demo_mmio_magic o(1,2) w] w o(3,4) show ?thesis by simp
qed

text \<open>
  Round trip of the 64-bit accesses: on an 8-byte aligned pair of read-write registers,
  other than the pair of the snapshot control, what \<^verbatim>\<open>write64\<close> stores \<^verbatim>\<open>read64\<close> returns.
\<close>

theorem mmio_write64_roundtrip:
  assumes "mm_magic m = MMIO_MAGIC" "off mod 8 = 0" "off < MMIO_BAR0_SIZE"
    and "mmio_access_type off = ACCESS_RW" "mmio_access_type (off + 4) = ACCESS_RW"
    and "off + 4 \<noteq> MMIO_COUNTER_SNAPSHOT_CONTROL"
  shows "\<exists>m'. att1_aimu_mmio_write64 w (Some m) off v = (ATT1_OK, w, Some m')
    \<and> att1_aimu_mmio_read64 (Some m') off True = (ATT1_OK, Some v)"
proof -
  have u8: "unat off mod 8 = 0" using assms(2) [THEN arg_cong, of unat] by (simp add: unat_mod_distrib)
  have ub: "unat off < 0x10000" using assms(3) by (simp add: MMIO_BAR0_SIZE_def word_less_nat_alt)
  have u4: "unat (off + 4) = unat off + 4" using ub by (subst unat_add_lem [THEN iffD1]) simp_all
  have "unat off mod 4 = 0" using u8 by presburger
  then have a: "off mod 4 = 0" by (simp add: word_unat_eq_iff unat_mod_distrib)
  have "(unat off + 4) mod 4 = 0" using u8 by presburger
  then have b: "(off + 4) mod 4 = 0" using u4 by (simp add: word_unat_eq_iff unat_mod_distrib)
  have "unat off + 4 < 0x10000" using u8 ub by presburger
  then have h: "off + 4 < MMIO_BAR0_SIZE" using u4 by (simp add: MMIO_BAR0_SIZE_def word_less_nat_alt)
  have ne: "off \<noteq> off + 4" by simp
  have ns: "off \<noteq> MMIO_COUNTER_SNAPSHOT_CONTROL" using u8 by (auto simp: mmio_offsets)
  let ?m = "reg_set (off + 4) (hi32 v) (reg_set off (lo32 v) m)"
  have w1: "att1_aimu_mmio_write32 w (Some m) off (lo32 v) = (ATT1_OK, w, Some (reg_set off (lo32 v) m))"
    using assms a ns by (simp add: att1_aimu_mmio_write32_def not_le [symmetric])
  have w2: "att1_aimu_mmio_write32 w (Some (reg_set off (lo32 v) m)) (off + 4) (hi32 v) = (ATT1_OK, w, Some ?m)"
    using assms b h by (simp add: att1_aimu_mmio_write32_def not_le [symmetric])
  have r: "att1_aimu_mmio_read32 (Some ?m) off True = (ATT1_OK, Some (lo32 v))"
    "att1_aimu_mmio_read32 (Some ?m) (off + 4) True = (ATT1_OK, Some (hi32 v))"
    using assms a b h ne by (simp_all add: read32_eq reg_get_set)
  have "att1_aimu_mmio_write64 w (Some m) off v = (ATT1_OK, w, Some ?m)"
    using assms(2) h w1 w2 by (simp add: att1_aimu_mmio_write64_def not_le)
  moreover have "att1_aimu_mmio_read64 (Some ?m) off True = (ATT1_OK, Some v)"
    using assms(2) h r lo_hi_join [of v] by (simp add: att1_aimu_mmio_read64_def not_le)
  ultimately show ?thesis by blast
qed

theorem mmio_write64_roundtrip_witness:
  "\<exists>m'. att1_aimu_mmio_write64 demo_world (Some demo_mmio) MMIO_CQ_BASE_ADDR_LOW 0x123456789ABCDEF0
      = (ATT1_OK, demo_world, Some m')
    \<and> att1_aimu_mmio_read64 (Some m') MMIO_CQ_BASE_ADDR_LOW True = (ATT1_OK, Some 0x123456789ABCDEF0)"
proof (rule mmio_write64_roundtrip [OF demo_mmio_magic])
qed (simp_all add: mmio_offsets MMIO_BAR0_SIZE_def mmio_access_type_def mmio_global_regs_def mmio_cq_regs_def)

text \<open>
  The 64-bit reads of these documented register pairs always fail, whatever the register
  file holds: their low halves are not 8-byte aligned, as the register map requires of a pair.
\<close>

theorem mmio_read64_misaligned_pairs:
  "list_all (\<lambda>off. att1_aimu_mmio_read64 mp off ok = (ATT1_ERR_INVALID_ARG, None))
     [MMIO_FEATURE_FLAGS_LOW, MMIO_CQ_COMPLETION_ADDR_LOW, MMIO_DMA_RING_BASE_LOW, MMIO_FABRIC_PKT_CTR_LOW,
      MMIO_FABRIC_PAYLOAD_BYTES_LOW, MMIO_BASE_TILE 0 + MMIO_TILE_MEMORY_CAPACITY_LOW,
      MMIO_BASE_TILE 0 + MMIO_TILE_MEMORY_USED_LOW, MMIO_BASE_TILE 0 + MMIO_TILE_KV_CAPACITY_LOW,
      MMIO_BASE_TILE 0 + MMIO_TILE_KV_USED_LOW]"
  by (simp add: att1_aimu_mmio_read64_def mmio_offsets MMIO_BASE_TILE_def)

section \<open>Synchronisation\<close>



text \<open>
  A synchronisation rebuilds \<^verbatim>\<open>GLOBAL_STATUS\<close> from the tiles alone: the device-ready bit is set
  even after \<^verbatim>\<open>DISABLE_DEVICE\<close>, and the trace-active bit is lost although the code is written to
  preserve it.
\<close>

theorem mmio_sync_forgets_global_control:
  assumes "mmio_reachable w m" "mm_device m = Some a" "att1_aimu_mmio_sync w (Some m) = (st, Some m')"
  shows "att1_aimu_mmio_read32 (Some m') MMIO_GLOBAL_STATUS True = (ATT1_OK, Some
      (MMIO_GSTAT_DEVICE_READY
       OR (if \<exists>t \<in> set (dev_tiles (w_device w a)). ti_state t = TILE_ACTIVE then MMIO_GSTAT_ANY_TILE_ACTIVE else 0)
       OR (if \<exists>t \<in> set (dev_tiles (w_device w a)). ti_state t = TILE_ERROR then MMIO_GSTAT_ANY_TILE_ERROR else 0)))"
proof -
  let ?d = "sync_from_device w (mmio_set_defaults m)"
  have ok: "mmio_ok w m" by (rule mmio_reachable_ok [OF assms(1)])
  then have i: "device_inv (w_device w a)" using device_reachable_inv by (auto simp: mmio_ok_def)
  have m': "m' = sync_from_trace w (sync_from_cmdq w ?d)" using assms(3) by (simp add: att1_aimu_mmio_sync_def)
  have dv: "mm_device (mmio_set_defaults m) = Some a" using assms(2) by (simp add: mmio_set_defaults_def)
  have mg: "mm_magic m' = MMIO_MAGIC" using ok by (simp add: m' mmio_ok_def mmio_set_defaults_def)
  have "reg_get m' MMIO_GLOBAL_STATUS = reg_get ?d MMIO_GLOBAL_STATUS"
    using sync_from_trace_other [of MMIO_GLOBAL_STATUS w "sync_from_cmdq w ?d"]
      sync_from_cmdq_other [of MMIO_GLOBAL_STATUS w ?d]
    unfolding m' by (simp add: mmio_offsets)
  also have "\<dots> = global_status_of (w_device w a) (reg_get (mmio_set_defaults m) MMIO_GLOBAL_STATUS)"
    by (rule sync_device_regs(4) [OF i dv])
  also have "reg_get (mmio_set_defaults m) MMIO_GLOBAL_STATUS = MMIO_GSTAT_DEVICE_READY"
    by (simp add: mmio_set_defaults_def reg_get_set mmio_offsets)
  also have "MMIO_GSTAT_DEVICE_READY AND MMIO_GSTAT_TRACE_ACTIVE = 0" by (simp add: mmio_bits)
  then have "global_status_of (w_device w a) MMIO_GSTAT_DEVICE_READY = MMIO_GSTAT_DEVICE_READY
       OR (if \<exists>t \<in> set (dev_tiles (w_device w a)). ti_state t = TILE_ACTIVE then MMIO_GSTAT_ANY_TILE_ACTIVE else 0)
       OR (if \<exists>t \<in> set (dev_tiles (w_device w a)). ti_state t = TILE_ERROR then MMIO_GSTAT_ANY_TILE_ERROR else 0)"
    unfolding global_status_eq [OF i] by simp
  finally show ?thesis
    using read32_eq [OF mg, of MMIO_GLOBAL_STATUS]
    by (simp add: mmio_access_type_def mmio_global_regs_def mmio_offsets MMIO_BAR0_SIZE_def)
qed

theorem mmio_sync_forgets_global_control_witness:
  "\<exists>w' m1 m2. att1_aimu_mmio_write32 demo_world (Some demo_mmio) MMIO_GLOBAL_CONTROL
        (MMIO_GCTRL_ENABLE_TRACE OR MMIO_GCTRL_DISABLE_DEVICE) = (ATT1_OK, w', Some m1)
    \<and> reg_get m1 MMIO_GLOBAL_STATUS = MMIO_GSTAT_TRACE_ACTIVE
    \<and> att1_aimu_mmio_sync w' (Some m1) = (ATT1_OK, Some m2)
    \<and> att1_aimu_mmio_read32 (Some m2) MMIO_GLOBAL_STATUS True = (ATT1_OK, Some MMIO_GSTAT_DEVICE_READY)"
proof -
  let ?v = "MMIO_GCTRL_ENABLE_TRACE OR MMIO_GCTRL_DISABLE_DEVICE"
  let ?m1 = "mmio_global_control ?v demo_mmio"
  have "mmio_access_type MMIO_GLOBAL_CONTROL = ACCESS_WO"
    by (simp add: mmio_access_type_def mmio_global_regs_def mmio_offsets)
  then have w: "att1_aimu_mmio_write32 demo_world (Some demo_mmio) MMIO_GLOBAL_CONTROL ?v = (ATT1_OK, demo_world, Some ?m1)"
    using demo_mmio_magic
    by (simp add: att1_aimu_mmio_write32_def mmio_wo_write_def) (simp add: mmio_offsets MMIO_BAR0_SIZE_def)
  have d: "mm_device ?m1 = Some 0" by (simp add: mmio_global_control_def demo_mmio_def Let_def)
  have "reg_get demo_mmio MMIO_GLOBAL_STATUS = MMIO_GSTAT_DEVICE_READY"
    by (simp add: demo_mmio_def reg_get_def mmio_set_defaults_def reg_set_def mmio_offsets)
  then have g: "reg_get ?m1 MMIO_GLOBAL_STATUS = MMIO_GSTAT_TRACE_ACTIVE"
    by (simp add: mmio_global_control_def Let_def mmio_bits)
  obtain m2 where s: "att1_aimu_mmio_sync demo_world (Some ?m1) = (ATT1_OK, Some m2)"
    by (simp add: att1_aimu_mmio_sync_def)
  have "\<forall>t \<in> set (dev_tiles (w_device demo_world 0)). ti_state t = TILE_IDLE"
    by (simp add: demo_world_def mmio_dev_def att1_aimu_device_create_def effective_config_def DEVICE_MAX_TILES_def
        Let_def new_tile_def)
  then have "\<not> (\<exists>t \<in> set (dev_tiles (w_device demo_world 0)). ti_state t = TILE_ACTIVE)"
    "\<not> (\<exists>t \<in> set (dev_tiles (w_device demo_world 0)). ti_state t = TILE_ERROR)" by force+
  with mmio_sync_forgets_global_control [OF mmio_reachable.write32 [OF demo_mmio_reachable w] d s] w g s
  show ?thesis by (simp only: if_False or.right_neutral simp_thms) blast
qed

text \<open>
  In every reachable register file the device identifier reads as the ATT-1 tile class and
  the self-clearing snapshot bit reads 0.
\<close>

theorem mmio_reachable_invariant:
  assumes "mmio_reachable w m"
  shows "att1_aimu_mmio_read32 (Some m) MMIO_DEVICE_ID True = (ATT1_OK, Some 0xA7710001)
    \<and> (\<exists>v. att1_aimu_mmio_read32 (Some m) MMIO_COUNTER_SNAPSHOT_CONTROL True = (ATT1_OK, Some v)
           \<and> v AND MMIO_SNAP_NOW = 0)"
proof -
  have ok: "mmio_ok w m" by (rule mmio_reachable_ok [OF assms])
  then have mg: "mm_magic m = MMIO_MAGIC" by (simp add: mmio_ok_def)
  have c: "MMIO_DEVICE_ID_DEFAULT = 0xA7710001"
    by (simp add: MMIO_DEVICE_ID_DEFAULT_def MMIO_VENDOR_ID_def MMIO_DEVICE_CLASS_TILE_def)
  have "att1_aimu_mmio_read32 (Some m) MMIO_DEVICE_ID True = (ATT1_OK, Some (reg_get m MMIO_DEVICE_ID))"
    "att1_aimu_mmio_read32 (Some m) MMIO_COUNTER_SNAPSHOT_CONTROL True
      = (ATT1_OK, Some (reg_get m MMIO_COUNTER_SNAPSHOT_CONTROL))"
    using read32_eq [OF mg] fixed_access by (simp_all add: mmio_offsets MMIO_BAR0_SIZE_def)
  then show ?thesis using ok c by (simp add: mmio_ok_def)
qed

theorem mmio_reachable_invariant_witness:
  "att1_aimu_mmio_read32 (Some demo_mmio) MMIO_DEVICE_ID True = (ATT1_OK, Some 0xA7710001)"
  using mmio_reachable_invariant [OF demo_mmio_reachable] by blast

section \<open>Snapshots through the register file\<close>

lemma trace_cells:
  assumes "mm_trace m = Some a" "tm_status (ts_meta (tr_snapshot (w_trace w a))) \<noteq> TRACE_STATUS_EMPTY"
  defines "s \<equiv> tr_snapshot (w_trace w a)"
  shows "(b, x) \<in> {(MMIO_CNT_CMD_ISSUED_LO, tq_commands_submitted (ts_cmdq s)),
      (MMIO_CNT_CMD_COMPLETED_LO, tq_commands_completed (ts_cmdq s)),
      (MMIO_CNT_STALL_QUEUE_FULL_LO, tq_queue_full_count (ts_cmdq s)),
      (MMIO_CNT_ERRORS_TOTAL_LO, tq_commands_failed (ts_cmdq s) + td_tile_errors (ts_device s))} \<Longrightarrow>
    reg_get (sync_from_trace w m) b = lo32 x \<and> reg_get (sync_from_trace w m) (b + 4) = hi32 x"
proof -
  let ?ws = "WR64 MMIO_CNT_CMD_ISSUED_LO (tq_commands_submitted (ts_cmdq s))
     @ WR64 MMIO_CNT_CMD_COMPLETED_LO (tq_commands_completed (ts_cmdq s))
     @ WR64 MMIO_CNT_STALL_QUEUE_FULL_LO (tq_queue_full_count (ts_cmdq s))
     @ WR64 MMIO_CNT_ERRORS_TOTAL_LO (tq_commands_failed (ts_cmdq s) + td_tile_errors (ts_device s))
     @ WR64 MMIO_CNT_TENSOR_BYTES_RD_LO (ta_bytes_host_to_device (ts_dma s))
     @ WR64 MMIO_CNT_TENSOR_BYTES_WR_LO (ta_bytes_device_to_host (ts_dma s))
     @ WR64 MMIO_CNT_FABRIC_PKT_SENT_LO (tf_packets_sent (ts_fabric s))
     @ WR64 MMIO_CNT_FABRIC_PKT_RECV_LO (tf_packets_received (ts_fabric s))
     @ WR64 MMIO_FABRIC_PKT_CTR_LOW (tf_packets_sent (ts_fabric s))
     @ WR64 MMIO_FABRIC_PAYLOAD_BYTES_LOW (tf_payload_bytes_sent (ts_fabric s))
     @ [(MMIO_FABRIC_CONGESTION_CTR, lo32 (tf_congestion_events (ts_fabric s)))]"
  have e: "sync_from_trace w m = reg_set_all ?ws m"
    using assms(2) by (simp only: sync_from_trace_def assms(1) option.case Let_def if_False s_def)
  have al: "aligned_writes ?ws" by (simp add: aligned_writes_def WR64_def mmio_offsets)
  have "distinct (map fst ?ws)" by (simp add: WR64_def mmio_offsets)
  then have get: "reg_get (sync_from_trace w m) b = v" if "(b, v) \<in> set ?ws" "b mod 4 = 0" for b v
    using that reg_get_set_all [OF al that(2), of m] unfolding e map_of_rev_distinct [OF \<open>distinct (map fst ?ws)\<close>]
    by (simp only: map_of_is_SomeI option.case)
  show "(b, x) \<in> {(MMIO_CNT_CMD_ISSUED_LO, tq_commands_submitted (ts_cmdq s)),
      (MMIO_CNT_CMD_COMPLETED_LO, tq_commands_completed (ts_cmdq s)),
      (MMIO_CNT_STALL_QUEUE_FULL_LO, tq_queue_full_count (ts_cmdq s)),
      (MMIO_CNT_ERRORS_TOTAL_LO, tq_commands_failed (ts_cmdq s) + td_tile_errors (ts_device s))} \<Longrightarrow>
    reg_get (sync_from_trace w m) b = lo32 x \<and> reg_get (sync_from_trace w m) (b + 4) = hi32 x"
    by (intro conjI get) (auto simp: WR64_def, auto simp: mmio_offsets)
qed

abbreviation counter_pairs :: "u32 set" where
  "counter_pairs \<equiv> {MMIO_CNT_CMD_ISSUED_LO, MMIO_CNT_CMD_COMPLETED_LO, MMIO_CNT_STALL_QUEUE_FULL_LO, MMIO_CNT_ERRORS_TOTAL_LO}"

lemma counter_read64:
  assumes "mm_magic m = MMIO_MAGIC" "reg_get m off = lo32 x" "reg_get m (off + 4) = hi32 x" "off \<in> counter_pairs"
  shows "att1_aimu_mmio_read64 (Some m) off True = (ATT1_OK, Some x)"
proof -
  have f: "off mod 8 = 0" "off mod 4 = 0" "(off + 4) mod 4 = 0" "off < MMIO_BAR0_SIZE" "off + 4 < MMIO_BAR0_SIZE"
    using assms(4) by (auto simp: mmio_offsets MMIO_BAR0_SIZE_def)
  have ac: "mmio_access_type off = ACCESS_RO" "mmio_access_type (off + 4) = ACCESS_RO"
    using assms(4) by (auto intro!: counter_access simp: mmio_offsets)
  have "att1_aimu_mmio_read32 (Some m) off True = (ATT1_OK, Some (lo32 x))"
    using read32_eq [OF assms(1) f(2,4)] ac(1) assms(2) by simp
  moreover have "att1_aimu_mmio_read32 (Some m) (off + 4) True = (ATT1_OK, Some (hi32 x))"
    using read32_eq [OF assms(1) f(3,5)] ac(2) assms(3) by simp
  ultimately show ?thesis
    using f(1,5) lo_hi_join [of x] by (simp add: att1_aimu_mmio_read64_def not_le [symmetric])
qed

text \<open>The counter registers after a copy from a trace that holds a snapshot.\<close>

lemma trace_reads:
  assumes "mm_trace m = Some a" "tm_status (ts_meta (tr_snapshot (w_trace w a))) \<noteq> TRACE_STATUS_EMPTY"
    and "mm_magic m' = MMIO_MAGIC"
    and "\<And>off. off \<in> counter_pairs \<Longrightarrow> reg_get m' off = reg_get (sync_from_trace w m) off
      \<and> reg_get m' (off + 4) = reg_get (sync_from_trace w m) (off + 4)"
  defines "s \<equiv> tr_snapshot (w_trace w a)"
  shows "att1_aimu_mmio_read64 (Some m') MMIO_CNT_CMD_ISSUED_LO True = (ATT1_OK, Some (tq_commands_submitted (ts_cmdq s)))"
    and "att1_aimu_mmio_read64 (Some m') MMIO_CNT_CMD_COMPLETED_LO True = (ATT1_OK, Some (tq_commands_completed (ts_cmdq s)))"
    and "att1_aimu_mmio_read64 (Some m') MMIO_CNT_STALL_QUEUE_FULL_LO True = (ATT1_OK, Some (tq_queue_full_count (ts_cmdq s)))"
    and "att1_aimu_mmio_read64 (Some m') MMIO_CNT_ERRORS_TOTAL_LO True
      = (ATT1_OK, Some (tq_commands_failed (ts_cmdq s) + td_tile_errors (ts_device s)))"
proof -
  note cells = trace_cells [OF assms(1,2)] and eq = assms(4)
  show "att1_aimu_mmio_read64 (Some m') MMIO_CNT_CMD_ISSUED_LO True = (ATT1_OK, Some (tq_commands_submitted (ts_cmdq s)))"
    "att1_aimu_mmio_read64 (Some m') MMIO_CNT_CMD_COMPLETED_LO True = (ATT1_OK, Some (tq_commands_completed (ts_cmdq s)))"
    "att1_aimu_mmio_read64 (Some m') MMIO_CNT_STALL_QUEUE_FULL_LO True = (ATT1_OK, Some (tq_queue_full_count (ts_cmdq s)))"
    "att1_aimu_mmio_read64 (Some m') MMIO_CNT_ERRORS_TOTAL_LO True
      = (ATT1_OK, Some (tq_commands_failed (ts_cmdq s) + td_tile_errors (ts_device s)))"
    unfolding s_def
    by (rule counter_read64 [OF assms(3)], simp_all only: eq insert_iff simp_thms cells [THEN conjunct1] cells [THEN conjunct2])+
qed

text \<open>
  A snapshot through the register file: writing \<^verbatim>\<open>SNAP_NOW\<close> with trace, queue and device attached
  leaves in the 64-bit counter registers the queue's counters and the sum of failed commands
  and tiles in error, takes exactly one numbered snapshot, and marks it partial because the
  register file passes no DMA engine.
\<close>

theorem mmio_snapshot_spec:
  assumes "mmio_reachable w m" "mm_trace m = Some a" "mm_cmdq m = Some b" "mm_device m = Some d"
    and "v AND MMIO_SNAP_NOW \<noteq> 0"
    and "att1_aimu_mmio_write32 w (Some m) MMIO_COUNTER_SNAPSHOT_CONTROL v = (st, w', Some m')"
  shows "st = ATT1_OK
    \<and> att1_aimu_mmio_read64 (Some m') MMIO_CNT_CMD_ISSUED_LO True
        = (ATT1_OK, Some (qc_commands_submitted (q_counters (w_cmdq w b))))
    \<and> att1_aimu_mmio_read64 (Some m') MMIO_CNT_CMD_COMPLETED_LO True
        = (ATT1_OK, Some (qc_commands_completed (q_counters (w_cmdq w b))))
    \<and> att1_aimu_mmio_read64 (Some m') MMIO_CNT_STALL_QUEUE_FULL_LO True
        = (ATT1_OK, Some (qc_queue_full_count (q_counters (w_cmdq w b))))
    \<and> att1_aimu_mmio_read64 (Some m') MMIO_CNT_ERRORS_TOTAL_LO True
        = (ATT1_OK, Some (qc_commands_failed (q_counters (w_cmdq w b))
            + of_nat (length (filter (\<lambda>t. ti_state t = TILE_ERROR) (dev_tiles (w_device w d))))))
    \<and> tm_snapshot_id (ts_meta (tr_snapshot (w_trace w' a))) = tm_snapshot_id (ts_meta (tr_snapshot (w_trace w a))) + 1
    \<and> tm_status (ts_meta (tr_snapshot (w_trace w' a))) = TRACE_STATUS_PARTIAL"
proof -
  have ok: "mmio_ok w m" by (rule mmio_reachable_ok [OF assms(1)])
  then have i: "device_inv (w_device w d)" using device_reachable_inv by (auto simp: mmio_ok_def)
  have mg: "mm_magic m = MMIO_MAGIC" using ok by (simp add: mmio_ok_def)
  let ?off = MMIO_COUNTER_SNAPSHOT_CONTROL
  let ?m1 = "m\<lparr>mm_snapshot_trigger_count := mm_snapshot_trigger_count m + 1\<rparr>"
  obtain t' where t': "att1_aimu_trace_snapshot_all (Some (w_trace w a)) (Some (w_cmdq w b)) (Some (w_device w d)) None
      = (ATT1_OK, Some t')" unfolding snapshot_all_eq by blast
  let ?w = "w\<lparr>w_trace := (w_trace w)(a := t')\<rparr>"
  have g: "?off mod 4 = 0" "(MMIO_BAR0_SIZE \<le> ?off) = False" by (simp_all add: mmio_offsets MMIO_BAR0_SIZE_def)
  have "mmio_snapshot_write w m ?off v = (?w, reg_set ?off (v AND NOT MMIO_SNAP_NOW) (sync_from_trace ?w ?m1))"
    using assms(2-5) t' by (simp add: mmio_snapshot_write_def Let_def)
  then have r: "st = ATT1_OK" "w' = ?w" "m' = reg_set ?off (v AND NOT MMIO_SNAP_NOW) (sync_from_trace ?w ?m1)"
    using assms(6) mg g fixed_access(2) by (auto simp: att1_aimu_mmio_write32_def)
  have c: "ts_cmdq (tr_snapshot t') = trace_cmdq_counters (q_counters (w_cmdq w b))"
    "td_tile_errors (ts_device (tr_snapshot t'))
      = of_nat (length (filter (\<lambda>t. ti_state t = TILE_ERROR) (dev_tiles (w_device w d))))"
    "tm_status (ts_meta (tr_snapshot t')) = TRACE_STATUS_PARTIAL"
    "tm_snapshot_id (ts_meta (tr_snapshot t')) = tm_snapshot_id (ts_meta (tr_snapshot (w_trace w a))) + 1"
    using t' trace_tile_totals_eq [OF i] by (auto simp: snapshot_all_eq)
  have ne: "tm_status (ts_meta (tr_snapshot (w_trace ?w a))) \<noteq> TRACE_STATUS_EMPTY"
    using c(3) by (simp add: TRACE_STATUS_PARTIAL_def TRACE_STATUS_EMPTY_def)
  have tr: "mm_trace ?m1 = Some a" using assms(2) by simp
  have mg': "mm_magic m' = MMIO_MAGIC" using mg by (simp add: r)
  have same: "reg_get m' off = reg_get (sync_from_trace ?w ?m1) off \<and> reg_get m' (off + 4) = reg_get (sync_from_trace ?w ?m1) (off + 4)"
    if "off \<in> counter_pairs" for off
  proof -
    have "off mod 4 = 0" "(off + 4) mod 4 = 0" "off \<noteq> ?off" "off + 4 \<noteq> ?off" using that by (auto simp: mmio_offsets)
    then show ?thesis using reg_get_set [OF g(1)] by (simp add: r)
  qed
  note rd = trace_reads [OF tr ne mg' same]
  have S: "tr_snapshot (w_trace ?w a) = tr_snapshot t'" and w't: "w_trace w' a = t'" by (simp_all add: r(2))
  show ?thesis using rd r(1) c(3,4)
    by (simp only: S c(1,2) trace_cmdq_counters_def att1_aimu_trace_cmdq_counters.simps w't simp_thms)
qed

theorem mmio_snapshot_spec_witness:
  "\<exists>w' m'. att1_aimu_mmio_write32 demo_world
       (Some (demo_mmio\<lparr>mm_cmdq := Some 0, mm_trace := Some 0\<rparr>)) MMIO_COUNTER_SNAPSHOT_CONTROL 1 = (ATT1_OK, w', Some m')
    \<and> att1_aimu_mmio_read64 (Some m') MMIO_CNT_ERRORS_TOTAL_LO True = (ATT1_OK, Some 0)"
proof -
  let ?m = "demo_mmio\<lparr>mm_cmdq := Some 0, mm_trace := Some 0\<rparr>"
  have "mmio_reachable demo_world (demo_mmio\<lparr>mm_cmdq := Some 0\<rparr>)"
    by (rule mmio_reachable.attach_cmdq [OF demo_mmio_reachable]) (simp add: att1_aimu_mmio_attach_cmdq_def)
  then have m: "mmio_reachable demo_world ?m"
    by (rule mmio_reachable.attach_trace) (simp add: att1_aimu_mmio_attach_trace_def)
  have f: "mm_trace ?m = Some 0" "mm_cmdq ?m = Some 0" "mm_device ?m = Some 0" "1 AND MMIO_SNAP_NOW \<noteq> 0"
    by (simp_all add: demo_mmio_def MMIO_SNAP_NOW_def)
  obtain st w' m' where w: "att1_aimu_mmio_write32 demo_world (Some ?m) MMIO_COUNTER_SNAPSHOT_CONTROL 1 = (st, w', Some m')"
    using write32_handle by (metis prod_cases3)
  have "dev_tiles mmio_dev = [new_tile (effective_config None) 0]"
    by (simp add: mmio_dev_def att1_aimu_device_create_def effective_config_def DEVICE_MAX_TILES_def Let_def)
  then have "filter (\<lambda>t. ti_state t = TILE_ERROR) (dev_tiles (w_device demo_world 0)) = []"
    by (simp add: demo_world_def new_tile_def)
  moreover have "qc_commands_failed (q_counters (w_cmdq demo_world 0)) = 0"
    by (simp add: demo_world_def new_cmdq_def zero_cmdq_counters_def)
  ultimately show ?thesis using mmio_snapshot_spec [OF m f w] w by simp
qed

end
