(* ===== verification/Aimu_Host.thy ===== *)
theory Aimu_Host
  imports Aimu_Mmio
begin

text \<open>
  The control-plane harness (\<^verbatim>\<open>src/aimu_host.c\<close>): one handle over a device, a command queue, a
  DMA simulator, a trace and a register file. The device, the queue and the trace are pointed to by the
  register file as well, so they live in the \<open>aimu_world\<close> and the handle keeps their addresses; nothing
  else points to the DMA simulator and the register file, which the handle holds by value.
\<close>

section \<open>Data\<close>

definition HOST_MAGIC :: u32 where "HOST_MAGIC = 0xA771A057"
definition HOST_DEFAULT_TILE_COUNT :: size_t where "HOST_DEFAULT_TILE_COUNT = 4"
definition HOST_DEFAULT_CMD_RING_DEPTH :: size_t where "HOST_DEFAULT_CMD_RING_DEPTH = 64"

record att1_aimu_host_config =
  hcfg_tile_count :: size_t
  hcfg_tile_memory_bytes :: u64
  hcfg_tile_kv_bytes :: u64
  hcfg_supported_dtypes :: u32
  hcfg_supported_ops :: u32
  hcfg_cmd_ring_depth :: size_t

record att1_aimu_host_probe_result =
  pr_device_id :: u32
  pr_register_map_version :: u32
  pr_global_status :: u32
  pr_tile_count :: size_t

record att1_aimu_host_tile_info =
  hti_tile_id :: u8
  hti_memory_capacity_bytes :: u64
  hti_kv_capacity_bytes :: u64
  hti_supported_dtypes :: u32
  hti_supported_ops :: u32
  hti_state :: u8

record att1_aimu_host_summary =
  hs_device_id :: u32
  hs_register_map_version :: u32
  hs_tile_count :: size_t
  hs_commands_submitted :: u64
  hs_commands_completed :: u64
  hs_commands_failed :: u64
  hs_dma_submitted :: u64
  hs_dma_completed :: u64
  hs_dma_failed :: u64
  hs_doorbell_count :: u32
  hs_snapshot_trigger_count :: u32
  hs_fence_value :: u64
  hs_trace_event_count :: u64
  hs_trace_snapshot_id :: u32
  hs_trace_status :: u32
  hs_status :: att1_aimu_result

record att1_aimu_host =
  h_magic :: u32
  h_device :: nat
  h_cmdq :: nat
  h_dma :: att1_aimu_dma
  h_trace :: nat
  h_mmio :: att1_aimu_mmio
  h_probe :: att1_aimu_host_probe_result
  h_last_error :: att1_aimu_result
  h_probed :: bool
  h_cmdq_ready :: bool

definition zero_probe :: att1_aimu_host_probe_result where
  "zero_probe = \<lparr>pr_device_id = 0, pr_register_map_version = 0, pr_global_status = 0, pr_tile_count = 0\<rparr>"

definition zero_host_config :: att1_aimu_host_config where
  "zero_host_config = \<lparr>hcfg_tile_count = 0, hcfg_tile_memory_bytes = 0, hcfg_tile_kv_bytes = 0,
     hcfg_supported_dtypes = 0, hcfg_supported_ops = 0, hcfg_cmd_ring_depth = 0\<rparr>"

section \<open>Lifecycle\<close>

definition host_effective_config :: "att1_aimu_host_config option \<Rightarrow> att1_aimu_host_config" where
  "host_effective_config config =
     (let cfg = (case config of Some c \<Rightarrow> c | None \<Rightarrow> zero_host_config);
          cfg1 = (if hcfg_tile_count cfg = 0 then cfg\<lparr>hcfg_tile_count := HOST_DEFAULT_TILE_COUNT\<rparr> else cfg)
      in if hcfg_cmd_ring_depth cfg1 = 0 then cfg1\<lparr>hcfg_cmd_ring_depth := HOST_DEFAULT_CMD_RING_DEPTH\<rparr> else cfg1)"

definition host_device_config :: "att1_aimu_host_config \<Rightarrow> att1_aimu_device_config" where
  "host_device_config cfg =
     \<lparr>dcfg_tile_count = hcfg_tile_count cfg, dcfg_tile_memory_bytes = hcfg_tile_memory_bytes cfg,
      dcfg_tile_kv_bytes = hcfg_tile_kv_bytes cfg, dcfg_supported_dtypes = hcfg_supported_dtypes cfg,
      dcfg_supported_ops = hcfg_supported_ops cfg, dcfg_feature_flags = 0,
      dcfg_version = \<lparr>ver_major = 0, ver_minor = 0, ver_patch = 0, ver_build = 0\<rparr>\<rparr>"

definition host_cmdq_config :: "att1_aimu_host_config \<Rightarrow> att1_aimu_cmdq_config" where
  "host_cmdq_config cfg =
     \<lparr>qcfg_tile_count = hcfg_tile_count cfg, qcfg_cmd_ring_depth = hcfg_cmd_ring_depth cfg,
      qcfg_comp_ring_depth = hcfg_cmd_ring_depth cfg\<rparr>"

text \<open>
  \<open>alloc n\<close>: the n-th allocation succeeds; they are the handle, the device, the three of the queue,
  the DMA simulator, the trace and the register file. \<open>a\<close> is the address of the new objects.
\<close>

definition att1_aimu_host_create ::
  "'ctx aimu_world \<Rightarrow> nat \<Rightarrow> (nat \<Rightarrow> bool) \<Rightarrow> att1_aimu_host_config option \<Rightarrow> bool
    \<Rightarrow> att1_status \<times> 'ctx aimu_world \<times> att1_aimu_host option" where
  "att1_aimu_host_create w a alloc config out_ok =
     (if \<not> out_ok then (ATT1_ERR_INVALID_ARG, w, None)
      else
        (let cfg = host_effective_config config
         in if \<not> alloc 0 then (ATT1_ERR_OOM, w, None)
            else
              (case att1_aimu_device_create (alloc 1) (Some (host_device_config cfg)) True of
                 (s, None) \<Rightarrow> (s, w, None)
               | (_, Some dev) \<Rightarrow>
              (case att1_aimu_cmdq_create (\<lambda>i. alloc (2 + i)) (Some (host_cmdq_config cfg)) True of
                 (s, None) \<Rightarrow> (s, w, None)
               | (_, Some q) \<Rightarrow>
              (case att1_aimu_dma_create (alloc 5) True of
                 (s, None) \<Rightarrow> (s, w, None)
               | (_, Some dma) \<Rightarrow>
              (case att1_aimu_trace_create (alloc 6) True of
                 (s, None) \<Rightarrow> (s, w, None)
               | (_, Some tr) \<Rightarrow>
              (case att1_aimu_mmio_create (alloc 7) True of
                 (s, None) \<Rightarrow> (s, w, None)
               | (_, Some m) \<Rightarrow>
                 (let w' = w\<lparr>w_device := (w_device w)(a := dev), w_cmdq := (w_cmdq w)(a := q),
                             w_trace := (w_trace w)(a := tr)\<rparr>;
                      (s1, m1) = att1_aimu_mmio_attach_device (Some m) (Some a)
                  in if s1 \<noteq> ATT1_OK then (s1, w, None)
                     else
                       (let (s2, m2) = att1_aimu_mmio_attach_trace m1 (Some a)
                        in if s2 \<noteq> ATT1_OK then (s2, w, None)
                           else
                             (let m3 = snd (att1_aimu_mmio_sync w' m2)
                              in (ATT1_OK, w', Some
                                   \<lparr>h_magic = HOST_MAGIC, h_device = a, h_cmdq = a, h_dma = dma, h_trace = a,
                                    h_mmio = the m3, h_probe = zero_probe, h_last_error = AIMU_OK,
                                    h_probed = False, h_cmdq_ready = False\<rparr>)))))))))))"

section \<open>Control-plane flow\<close>

definition host_sync :: "'ctx aimu_world \<Rightarrow> att1_aimu_host \<Rightarrow> att1_status \<times> att1_aimu_host" where
  "host_sync w h = (let (s, m) = att1_aimu_mmio_sync w (Some (h_mmio h)) in (s, h\<lparr>h_mmio := the m\<rparr>))"

text \<open>\<open>out_ok\<close>: the \<^verbatim>\<open>out\<close> pointer is not \<^verbatim>\<open>NULL\<close>; the last component is what is stored there.\<close>

definition att1_aimu_host_probe_device ::
  "'ctx aimu_world \<Rightarrow> att1_aimu_host option \<Rightarrow> bool
    \<Rightarrow> att1_status \<times> att1_aimu_host option \<times> att1_aimu_host_probe_result option" where
  "att1_aimu_host_probe_device w hp out_ok =
     (case hp of
        None \<Rightarrow> (ATT1_ERR_INVALID_ARG, None, None)
      | Some h \<Rightarrow>
        (let h1 = snd (host_sync w h);
             rd = (\<lambda>off. att1_aimu_mmio_read32 (Some (h_mmio h1)) off True);
             (s1, device_id) = rd MMIO_DEVICE_ID;
             (s2, reg_map_ver) = rd MMIO_REGISTER_MAP_VERSION;
             (s3, tile_count_reg) = rd MMIO_TILE_COUNT;
             (s4, global_status) = rd MMIO_GLOBAL_STATUS
         in if s1 \<noteq> ATT1_OK then (s1, Some h1, None)
            else if s2 \<noteq> ATT1_OK then (s2, Some h1, None)
            else if s3 \<noteq> ATT1_OK then (s3, Some h1, None)
            else if s4 \<noteq> ATT1_OK then (s4, Some h1, None)
            else if the global_status AND MMIO_GSTAT_DEVICE_READY = 0 then (ATT1_ERR_STATE, Some h1, None)
            else
              (let probe = \<lparr>pr_device_id = the device_id, pr_register_map_version = the reg_map_ver,
                            pr_global_status = the global_status, pr_tile_count = ucast (the tile_count_reg)\<rparr>
               in (ATT1_OK, Some (h1\<lparr>h_probe := probe, h_probed := True\<rparr>), if out_ok then Some probe else None))))"

definition host_tile_info :: "att1_aimu_tile_info \<Rightarrow> att1_aimu_host_tile_info" where
  "host_tile_info ti =
     \<lparr>hti_tile_id = ti_tile_id ti, hti_memory_capacity_bytes = ti_memory_capacity_bytes ti,
      hti_kv_capacity_bytes = ti_kv_capacity_bytes ti, hti_supported_dtypes = ti_supported_dtypes ti,
      hti_supported_ops = ti_supported_ops ti, hti_state = ucast (tile_state_code (ti_state ti))\<rparr>"

text \<open>The loop over the tiles in \<open>is\<close>; the entries written so far are \<open>infos\<close>.\<close>

fun enumerate_loop ::
  "'q att1_aimu_device \<Rightarrow> nat list \<Rightarrow> att1_aimu_host_tile_info list \<Rightarrow> att1_status \<times> att1_aimu_host_tile_info list" where
  "enumerate_loop dev [] infos = (ATT1_OK, infos)"
| "enumerate_loop dev (i # is) infos =
     (case att1_aimu_device_query_tile (Some dev) (word_of_nat i) True of
        (s, ti) \<Rightarrow>
          if s \<noteq> ATT1_OK then (s, infos)
          else enumerate_loop dev is (infos @ [host_tile_info (the ti)]))"

text \<open>
  \<open>count\<close> is the value \<^verbatim>\<open>*count\<close> points to, \<^term>\<open>None\<close> for \<^verbatim>\<open>NULL\<close>. The result holds the entries
  written to \<^verbatim>\<open>infos\<close> and the new \<^verbatim>\<open>*count\<close>.
\<close>

definition att1_aimu_host_enumerate_tiles ::
  "'ctx aimu_world \<Rightarrow> att1_aimu_host option \<Rightarrow> bool \<Rightarrow> size_t option
    \<Rightarrow> att1_status \<times> att1_aimu_host_tile_info list \<times> size_t option" where
  "att1_aimu_host_enumerate_tiles w hp infos_ok count =
     (case (hp, count) of
        (Some h, Some c) \<Rightarrow>
          (if \<not> infos_ok then (ATT1_ERR_INVALID_ARG, [], count)
           else if \<not> h_probed h then (ATT1_ERR_STATE, [], count)
           else
             (let n = (if c < pr_tile_count (h_probe h) then c else pr_tile_count (h_probe h));
                  (s, infos) = enumerate_loop (w_device w (h_device h)) [0..<unat n] []
              in if s \<noteq> ATT1_OK then (s, infos, Some (word_of_nat (length infos)))
                 else (ATT1_OK, infos, Some n)))
      | _ \<Rightarrow> (ATT1_ERR_INVALID_ARG, [], count))"

definition att1_aimu_host_setup_cmdq ::
  "'ctx aimu_world \<Rightarrow> att1_aimu_host option \<Rightarrow> att1_status \<times> 'ctx aimu_world \<times> att1_aimu_host option" where
  "att1_aimu_host_setup_cmdq w hp =
     (case hp of
        None \<Rightarrow> (ATT1_ERR_INVALID_ARG, w, None)
      | Some h \<Rightarrow>
        (if \<not> h_probed h then (ATT1_ERR_STATE, w, Some h)
         else
           (let (s1, dev) = att1_aimu_device_attach_cmdq (Some (w_device w (h_device h))) (Some (h_cmdq h));
                w1 = w\<lparr>w_device := (w_device w)(h_device h := the dev)\<rparr>
            in if s1 \<noteq> ATT1_OK then (s1, w1, Some h)
               else
                 (let (s2, m) = att1_aimu_mmio_attach_cmdq (Some (h_mmio h)) (Some (h_cmdq h));
                      h1 = h\<lparr>h_mmio := the m\<rparr>
                  in if s2 \<noteq> ATT1_OK then (s2, w1, Some h1)
                     else
                       (let (s3, h2) = host_sync w1 h1
                        in if s3 \<noteq> ATT1_OK then (s3, w1, Some h2)
                           else (ATT1_OK, w1, Some (h2\<lparr>h_cmdq_ready := True\<rparr>)))))))"

definition att1_aimu_host_validate_dma :: "att1_aimu_host option \<Rightarrow> att1_aimu_dma_desc option \<Rightarrow> att1_status" where
  "att1_aimu_host_validate_dma hp desc =
     (case (hp, desc) of
        (Some h, Some _) \<Rightarrow> att1_aimu_dma_validate (Some (h_dma h)) desc
      | _ \<Rightarrow> ATT1_ERR_INVALID_ARG)"

text \<open>The command is written back to the caller's descriptor.\<close>

definition att1_aimu_host_submit_cmd ::
  "'ctx aimu_world \<Rightarrow> att1_aimu_host option \<Rightarrow> att1_aimu_cmd option
    \<Rightarrow> att1_status \<times> 'ctx aimu_world \<times> att1_aimu_cmd option" where
  "att1_aimu_host_submit_cmd w hp cmd =
     (case (hp, cmd) of
        (Some h, Some _) \<Rightarrow>
          (if \<not> h_cmdq_ready h then (ATT1_ERR_STATE, w, cmd)
           else
             (let (s, q, cmd') = att1_aimu_cmdq_submit (Some (w_cmdq w (h_cmdq h))) cmd
              in (s, w\<lparr>w_cmdq := (w_cmdq w)(h_cmdq h := the q)\<rparr>, cmd')))
      | _ \<Rightarrow> (ATT1_ERR_INVALID_ARG, w, cmd))"

definition att1_aimu_host_ring_doorbell ::
  "'ctx aimu_world \<Rightarrow> att1_aimu_host option \<Rightarrow> att1_status \<times> 'ctx aimu_world \<times> att1_aimu_host option" where
  "att1_aimu_host_ring_doorbell w hp =
     (case hp of
        None \<Rightarrow> (ATT1_ERR_INVALID_ARG, w, None)
      | Some h \<Rightarrow>
        (if \<not> h_cmdq_ready h then (ATT1_ERR_STATE, w, Some h)
         else
           (let tail = ucast (q_cmd_tail (w_cmdq w (h_cmdq h)));
                (s, w', m) = att1_aimu_mmio_write32 w (Some (h_mmio h)) MMIO_CQ_DOORBELL tail
            in (s, w', Some (h\<lparr>h_mmio := the m\<rparr>)))))"

definition host_on_cmdq ::
  "('ctx att1_aimu_cmdq \<Rightarrow> att1_status \<times> 'ctx att1_aimu_cmdq) \<Rightarrow> 'ctx aimu_world \<Rightarrow> att1_aimu_host option
    \<Rightarrow> att1_status \<times> 'ctx aimu_world" where
  "host_on_cmdq f w hp =
     (case hp of
        None \<Rightarrow> (ATT1_ERR_INVALID_ARG, w)
      | Some h \<Rightarrow> (let (s, q) = f (w_cmdq w (h_cmdq h)) in (s, w\<lparr>w_cmdq := (w_cmdq w)(h_cmdq h := q)\<rparr>)))"

definition att1_aimu_host_process_one ::
  "'ctx aimu_world \<Rightarrow> att1_aimu_host option \<Rightarrow> att1_status \<times> 'ctx aimu_world" where
  "att1_aimu_host_process_one = host_on_cmdq cmdq_dispatch_one"

definition att1_aimu_host_drain ::
  "'ctx aimu_world \<Rightarrow> att1_aimu_host option \<Rightarrow> att1_status \<times> 'ctx aimu_world" where
  "att1_aimu_host_drain = host_on_cmdq cmdq_dispatch_all"

definition att1_aimu_host_read_completion ::
  "'ctx aimu_world \<Rightarrow> att1_aimu_host option \<Rightarrow> bool \<Rightarrow> att1_status \<times> 'ctx aimu_world \<times> att1_aimu_completion option" where
  "att1_aimu_host_read_completion w hp out_ok =
     (case hp of
        None \<Rightarrow> (ATT1_ERR_INVALID_ARG, w, None)
      | Some h \<Rightarrow>
        (if \<not> out_ok then (ATT1_ERR_INVALID_ARG, w, None)
         else
           (let (s, q, k) = att1_aimu_cmdq_poll_completion (Some (w_cmdq w (h_cmdq h))) True
            in (s, w\<lparr>w_cmdq := (w_cmdq w)(h_cmdq h := the q)\<rparr>, k))))"

definition att1_aimu_host_snapshot_counters ::
  "'ctx aimu_world \<Rightarrow> att1_aimu_host option \<Rightarrow> att1_status \<times> 'ctx aimu_world \<times> att1_aimu_host option" where
  "att1_aimu_host_snapshot_counters w hp =
     (case hp of
        None \<Rightarrow> (ATT1_ERR_INVALID_ARG, w, None)
      | Some h \<Rightarrow>
        (let (s, tr) = att1_aimu_trace_snapshot_all (Some (w_trace w (h_trace h)))
               (if h_cmdq_ready h then Some (w_cmdq w (h_cmdq h)) else None)
               (Some (w_device w (h_device h))) (Some (h_dma h));
             w1 = w\<lparr>w_trace := (w_trace w)(h_trace h := the tr)\<rparr>
         in if s \<noteq> ATT1_OK then (s, w1, Some h)
            else (let (s', h') = host_sync w1 h in (s', w1, Some h'))))"

definition zero_summary_of :: "att1_aimu_host \<Rightarrow> att1_aimu_host_summary" where
  "zero_summary_of h =
     \<lparr>hs_device_id = pr_device_id (h_probe h), hs_register_map_version = pr_register_map_version (h_probe h),
      hs_tile_count = pr_tile_count (h_probe h), hs_commands_submitted = 0, hs_commands_completed = 0,
      hs_commands_failed = 0, hs_dma_submitted = 0, hs_dma_completed = 0, hs_dma_failed = 0, hs_doorbell_count = 0,
      hs_snapshot_trigger_count = 0, hs_fence_value = 0, hs_trace_event_count = 0, hs_trace_snapshot_id = 0,
      hs_trace_status = 0, hs_status = AIMU_OK\<rparr>"

definition att1_aimu_host_get_summary ::
  "'ctx aimu_world \<Rightarrow> att1_aimu_host option \<Rightarrow> bool \<Rightarrow> att1_status \<times> att1_aimu_host_summary option" where
  "att1_aimu_host_get_summary w hp out_ok =
     (case hp of
        None \<Rightarrow> (ATT1_ERR_INVALID_ARG, None)
      | Some h \<Rightarrow>
        (if \<not> out_ok then (ATT1_ERR_INVALID_ARG, None)
         else
           (let s0 = zero_summary_of h;
                s1 = (if h_cmdq_ready h
                      then (case att1_aimu_cmdq_get_counters (Some (w_cmdq w (h_cmdq h))) True of
                              (ATT1_OK, Some c) \<Rightarrow>
                                s0\<lparr>hs_commands_submitted := qc_commands_submitted c, hs_commands_completed := qc_commands_completed c,
                                   hs_commands_failed := qc_commands_failed c, hs_fence_value := qc_fence_value c\<rparr>
                            | _ \<Rightarrow> s0)
                      else s0);
                s2 = (case att1_aimu_dma_get_counters (Some (h_dma h)) True of
                        (ATT1_OK, Some c) \<Rightarrow>
                          s1\<lparr>hs_dma_submitted := dc_submitted c, hs_dma_completed := dc_completed c, hs_dma_failed := dc_failed c\<rparr>
                      | _ \<Rightarrow> s1);
                s3 = s2\<lparr>hs_doorbell_count := mm_doorbell_write_count (h_mmio h),
                        hs_snapshot_trigger_count := mm_snapshot_trigger_count (h_mmio h)\<rparr>;
                s4 = (case att1_aimu_trace_get_snapshot (Some (w_trace w (h_trace h))) True of
                        (ATT1_OK, Some snap) \<Rightarrow>
                          s3\<lparr>hs_trace_event_count := tm_event_count (ts_meta snap),
                             hs_trace_snapshot_id := tm_snapshot_id (ts_meta snap), hs_trace_status := tm_status (ts_meta snap)\<rparr>
                      | _ \<Rightarrow> s3)
            in (ATT1_OK, Some (s4\<lparr>hs_status := h_last_error h\<rparr>)))))"

definition att1_aimu_host_reset ::
  "'ctx aimu_world \<Rightarrow> att1_aimu_host option \<Rightarrow> att1_status \<times> 'ctx aimu_world \<times> att1_aimu_host option" where
  "att1_aimu_host_reset w hp =
     (case hp of
        None \<Rightarrow> (ATT1_ERR_INVALID_ARG, w, None)
      | Some h \<Rightarrow>
        (let (s1, dev) = att1_aimu_device_reset (Some (w_device w (h_device h)));
             w1 = w\<lparr>w_device := (w_device w)(h_device h := the dev)\<rparr>
         in if s1 \<noteq> ATT1_OK then (s1, w1, Some h)
            else
              (let (s2, m) = att1_aimu_mmio_reset (Some (h_mmio h)); h1 = h\<lparr>h_mmio := the m\<rparr>
               in if s2 \<noteq> ATT1_OK then (s2, w1, Some h1)
                  else
                    (let (s3, tr) = att1_aimu_trace_reset (Some (w_trace w1 (h_trace h)));
                         w2 = w1\<lparr>w_trace := (w_trace w1)(h_trace h := the tr)\<rparr>
                     in if s3 \<noteq> ATT1_OK then (s3, w2, Some h1)
                        else
                          (let (s4, dma) = att1_aimu_dma_reset_counters (Some (h_dma h1));
                               h2 = h1\<lparr>h_dma := the dma\<rparr>
                           in if s4 \<noteq> ATT1_OK then (s4, w2, Some h2)
                              else
                                (let (s5, h3) = host_sync w2 h2
                                 in (s5, w2, Some (h3\<lparr>h_probed := False, h_cmdq_ready := False, h_last_error := AIMU_OK,
                                                      h_probe := zero_probe\<rparr>))))))))"

end
