(* ===== verification/Aimu_Userspace.thy ===== *)
theory Aimu_Userspace
  imports Aimu_Host
begin

text \<open>
  The user-space emulator (\<^verbatim>\<open>src/aimu_userspace.c\<close>): the harness plus an optional file that mirrors the
  register window. The mapped buffer is a copy of the register array, \<^term>\<open>None\<close> when no file is open.
  What the operating system answers when the file is opened, truncated and mapped is an argument.
\<close>

section \<open>Data\<close>

definition USERSPACE_MAGIC :: u32 where "USERSPACE_MAGIC = 0xA771A121"
definition USERSPACE_PATH_MAX :: nat where "USERSPACE_PATH_MAX = 512"
definition USERSPACE_DEFAULT_TILES :: size_t where "USERSPACE_DEFAULT_TILES = 4"
definition USERSPACE_DEFAULT_TILE_MEM_BYTES :: u64 where "USERSPACE_DEFAULT_TILE_MEM_BYTES = 32 * 1024 * 1024"
definition USERSPACE_DEFAULT_KV_MEM_BYTES :: u64 where "USERSPACE_DEFAULT_KV_MEM_BYTES = 8 * 1024 * 1024"
definition USERSPACE_MAX_TILE_MEM_BYTES :: u64 where "USERSPACE_MAX_TILE_MEM_BYTES = 256 * 1024 * 1024"

record att1_aimu_userspace_config =
  ucfg_tile_count :: size_t
  ucfg_tile_memory_bytes :: u64
  ucfg_tile_kv_bytes :: u64
  ucfg_supported_dtypes :: u32
  ucfg_supported_ops :: u32
  ucfg_cmd_ring_depth :: size_t

record att1_aimu_userspace =
  u_magic :: u32
  u_host :: att1_aimu_host
  u_bar0_map :: "(nat \<Rightarrow> u32) option"
  u_bar0_path :: string
  u_probed :: bool
  u_cmdq_ready :: bool

text \<open>The answers of \<^verbatim>\<open>open\<close>, \<^verbatim>\<open>ftruncate\<close> and \<^verbatim>\<open>mmap\<close>, and what the file held before.\<close>

record bar0_file =
  bf_open_ok :: bool
  bf_truncate_ok :: bool
  bf_map_ok :: bool
  bf_words :: "nat \<Rightarrow> u32"

section \<open>The mirror\<close>

definition flush_bar0 :: "'ctx aimu_world \<Rightarrow> att1_aimu_userspace \<Rightarrow> att1_aimu_userspace" where
  "flush_bar0 w u =
     (case u_bar0_map u of
        None \<Rightarrow> u
      | Some _ \<Rightarrow>
        (let h = snd (host_sync w (u_host u))
         in u\<lparr>u_host := h, u_bar0_map := Some (mm_regs (h_mmio h))\<rparr>))"

section \<open>Lifecycle\<close>

definition userspace_effective_config :: "att1_aimu_userspace_config option \<Rightarrow> att1_aimu_userspace_config" where
  "userspace_effective_config config =
     (let cfg = (case config of Some c \<Rightarrow> c
                 | None \<Rightarrow> \<lparr>ucfg_tile_count = 0, ucfg_tile_memory_bytes = 0, ucfg_tile_kv_bytes = 0,
                            ucfg_supported_dtypes = 0, ucfg_supported_ops = 0, ucfg_cmd_ring_depth = 0\<rparr>);
          cfg1 = (if ucfg_tile_count cfg = 0 then cfg\<lparr>ucfg_tile_count := USERSPACE_DEFAULT_TILES\<rparr> else cfg);
          cfg2 = (if ucfg_tile_memory_bytes cfg1 = 0
                  then cfg1\<lparr>ucfg_tile_memory_bytes := USERSPACE_DEFAULT_TILE_MEM_BYTES\<rparr> else cfg1)
      in if ucfg_tile_kv_bytes cfg2 = 0 then cfg2\<lparr>ucfg_tile_kv_bytes := USERSPACE_DEFAULT_KV_MEM_BYTES\<rparr> else cfg2)"

definition userspace_host_config :: "att1_aimu_userspace_config \<Rightarrow> att1_aimu_host_config" where
  "userspace_host_config cfg =
     \<lparr>hcfg_tile_count = ucfg_tile_count cfg, hcfg_tile_memory_bytes = ucfg_tile_memory_bytes cfg,
      hcfg_tile_kv_bytes = ucfg_tile_kv_bytes cfg, hcfg_supported_dtypes = ucfg_supported_dtypes cfg,
      hcfg_supported_ops = ucfg_supported_ops cfg, hcfg_cmd_ring_depth = ucfg_cmd_ring_depth cfg\<rparr>"

text \<open>
  \<open>alloc 0\<close> is the handle's own allocation, the others are the harness's. When the file cannot be used
  the harness is destroyed, so the world is the old one.
\<close>

definition att1_aimu_userspace_open ::
  "'ctx aimu_world \<Rightarrow> nat \<Rightarrow> (nat \<Rightarrow> bool) \<Rightarrow> bar0_file \<Rightarrow> att1_aimu_userspace_config option \<Rightarrow> string option \<Rightarrow> bool
    \<Rightarrow> att1_status \<times> 'ctx aimu_world \<times> att1_aimu_userspace option" where
  "att1_aimu_userspace_open w a alloc bf config bar0_path out_ok =
     (if \<not> out_ok then (ATT1_ERR_INVALID_ARG, w, None)
      else
        (let cfg = userspace_effective_config config
         in if 16 < ucfg_tile_count cfg then (ATT1_ERR_INVALID_ARG, w, None)
            else if USERSPACE_MAX_TILE_MEM_BYTES < ucfg_tile_memory_bytes cfg then (ATT1_ERR_INVALID_ARG, w, None)
            else if \<not> alloc 0 then (ATT1_ERR_OOM, w, None)
            else
              (case att1_aimu_host_create w a (\<lambda>i. alloc (1 + i)) (Some (userspace_host_config cfg)) True of
                 (rc, w', None) \<Rightarrow> (rc, w, None)
               | (rc, w', Some h) \<Rightarrow>
                 (let u = \<lparr>u_magic = USERSPACE_MAGIC, u_host = h, u_bar0_map = None, u_bar0_path = [],
                           u_probed = False, u_cmdq_ready = False\<rparr>
                  in (case (case bar0_path of None \<Rightarrow> Some u
                            | Some path \<Rightarrow>
                              (if path = [] then Some u
                               else if USERSPACE_PATH_MAX \<le> length path then None
                               else if \<not> bf_open_ok bf then None
                               else if \<not> bf_truncate_ok bf then None
                               else if \<not> bf_map_ok bf then None
                               else Some (u\<lparr>u_bar0_path := path, u_bar0_map := Some (bf_words bf)\<rparr>))) of
                        None \<Rightarrow> (ATT1_ERR_INVALID_ARG, w, None)
                      | Some u1 \<Rightarrow>
                        (let u2 = u1\<lparr>u_host := snd (host_sync w' (u_host u1))\<rparr>
                         in (ATT1_OK, w', Some (flush_bar0 w' u2))))))))"

text \<open>The file that is left behind when the handle is closed, if there is one.\<close>

definition att1_aimu_userspace_close :: "'ctx aimu_world \<Rightarrow> att1_aimu_userspace option \<Rightarrow> (nat \<Rightarrow> u32) option" where
  "att1_aimu_userspace_close w up =
     (case up of
        None \<Rightarrow> None
      | Some u \<Rightarrow> if u_magic u \<noteq> USERSPACE_MAGIC then u_bar0_map u else u_bar0_map (flush_bar0 w u))"

section \<open>Control-plane flow\<close>

text \<open>Every operation starts with the same test of the handle.\<close>

definition userspace_bad :: "att1_aimu_userspace option \<Rightarrow> bool" where
  "userspace_bad up \<longleftrightarrow> (case up of None \<Rightarrow> True | Some u \<Rightarrow> u_magic u \<noteq> USERSPACE_MAGIC)"

definition att1_aimu_userspace_probe ::
  "'ctx aimu_world \<Rightarrow> att1_aimu_userspace option \<Rightarrow> bool
    \<Rightarrow> att1_status \<times> att1_aimu_userspace option \<times> att1_aimu_host_probe_result option" where
  "att1_aimu_userspace_probe w up out_ok =
     (if userspace_bad up then (ATT1_ERR_INVALID_ARG, up, None)
      else
        (let u = the up; (rc, h, tmp) = att1_aimu_host_probe_device w (Some (u_host u)) True; u1 = u\<lparr>u_host := the h\<rparr>
         in if rc \<noteq> ATT1_OK then (rc, Some u1, None)
            else (ATT1_OK, Some (flush_bar0 w (u1\<lparr>u_probed := True\<rparr>)), if out_ok then tmp else None)))"

definition att1_aimu_userspace_enumerate_tiles ::
  "'ctx aimu_world \<Rightarrow> att1_aimu_userspace option \<Rightarrow> bool \<Rightarrow> size_t option
    \<Rightarrow> att1_status \<times> att1_aimu_userspace option \<times> att1_aimu_host_tile_info list \<times> size_t option" where
  "att1_aimu_userspace_enumerate_tiles w up infos_ok count =
     (if userspace_bad up then (ATT1_ERR_INVALID_ARG, up, [], count)
      else if \<not> infos_ok \<or> count = None then (ATT1_ERR_INVALID_ARG, up, [], count)
      else
        (let u = the up; (rc, infos, c) = att1_aimu_host_enumerate_tiles w (Some (u_host u)) infos_ok count
         in if rc \<noteq> ATT1_OK then (rc, Some u, infos, c)
            else (ATT1_OK, Some (flush_bar0 w u), infos, c)))"

definition att1_aimu_userspace_setup_cmdq ::
  "'ctx aimu_world \<Rightarrow> att1_aimu_userspace option \<Rightarrow> att1_status \<times> 'ctx aimu_world \<times> att1_aimu_userspace option" where
  "att1_aimu_userspace_setup_cmdq w up =
     (if userspace_bad up then (ATT1_ERR_INVALID_ARG, w, up)
      else
        (let u = the up; (rc, w', h) = att1_aimu_host_setup_cmdq w (Some (u_host u)); u1 = u\<lparr>u_host := the h\<rparr>
         in if rc \<noteq> ATT1_OK then (rc, w', Some u1)
            else (ATT1_OK, w', Some (flush_bar0 w' (u1\<lparr>u_cmdq_ready := True\<rparr>)))))"

definition att1_aimu_userspace_read32 :: "att1_aimu_userspace option \<Rightarrow> u32 \<Rightarrow> bool \<Rightarrow> att1_status \<times> u32 option" where
  "att1_aimu_userspace_read32 up offset out_ok =
     (if userspace_bad up then (ATT1_ERR_INVALID_ARG, None)
      else if \<not> out_ok then (ATT1_ERR_INVALID_ARG, None)
      else att1_aimu_mmio_read32 (Some (h_mmio (u_host (the up)))) offset out_ok)"

definition att1_aimu_userspace_write32 ::
  "'ctx aimu_world \<Rightarrow> att1_aimu_userspace option \<Rightarrow> u32 \<Rightarrow> u32
    \<Rightarrow> att1_status \<times> 'ctx aimu_world \<times> att1_aimu_userspace option" where
  "att1_aimu_userspace_write32 w up offset value =
     (if userspace_bad up then (ATT1_ERR_INVALID_ARG, w, up)
      else
        (let u = the up; (rc, w', m) = att1_aimu_mmio_write32 w (Some (h_mmio (u_host u))) offset value;
             u1 = u\<lparr>u_host := (u_host u)\<lparr>h_mmio := the m\<rparr>\<rparr>
         in if rc \<noteq> ATT1_OK then (rc, w', Some u1)
            else (ATT1_OK, w', Some (flush_bar0 w' u1))))"

definition att1_aimu_userspace_validate_dma ::
  "att1_aimu_userspace option \<Rightarrow> att1_aimu_dma_desc option \<Rightarrow> att1_status" where
  "att1_aimu_userspace_validate_dma up desc =
     (if userspace_bad up then ATT1_ERR_INVALID_ARG
      else if desc = None then ATT1_ERR_INVALID_ARG
      else att1_aimu_host_validate_dma (Some (u_host (the up))) desc)"

definition att1_aimu_userspace_submit_cmd ::
  "'ctx aimu_world \<Rightarrow> att1_aimu_userspace option \<Rightarrow> att1_aimu_cmd option
    \<Rightarrow> att1_status \<times> 'ctx aimu_world \<times> att1_aimu_userspace option \<times> att1_aimu_cmd option" where
  "att1_aimu_userspace_submit_cmd w up cmd =
     (if userspace_bad up then (ATT1_ERR_INVALID_ARG, w, up, cmd)
      else if cmd = None then (ATT1_ERR_INVALID_ARG, w, up, cmd)
      else
        (let u = the up; (rc, w', cmd') = att1_aimu_host_submit_cmd w (Some (u_host u)) cmd
         in if rc \<noteq> ATT1_OK then (rc, w', Some u, cmd')
            else (ATT1_OK, w', Some (flush_bar0 w' u), cmd')))"

definition att1_aimu_userspace_ring_doorbell ::
  "'ctx aimu_world \<Rightarrow> att1_aimu_userspace option \<Rightarrow> att1_status \<times> 'ctx aimu_world \<times> att1_aimu_userspace option" where
  "att1_aimu_userspace_ring_doorbell w up =
     (if userspace_bad up then (ATT1_ERR_INVALID_ARG, w, up)
      else
        (let u = the up; (rc, w', h) = att1_aimu_host_ring_doorbell w (Some (u_host u)); u1 = u\<lparr>u_host := the h\<rparr>
         in if rc \<noteq> ATT1_OK then (rc, w', Some u1)
            else (ATT1_OK, w', Some (flush_bar0 w' u1))))"

definition att1_aimu_userspace_drain ::
  "'ctx aimu_world \<Rightarrow> att1_aimu_userspace option \<Rightarrow> att1_status \<times> 'ctx aimu_world \<times> att1_aimu_userspace option" where
  "att1_aimu_userspace_drain w up =
     (if userspace_bad up then (ATT1_ERR_INVALID_ARG, w, up)
      else
        (let u = the up; (rc, w') = att1_aimu_host_drain w (Some (u_host u))
         in if rc \<noteq> ATT1_OK then (rc, w', Some u)
            else (ATT1_OK, w', Some (flush_bar0 w' u))))"

definition att1_aimu_userspace_snapshot ::
  "'ctx aimu_world \<Rightarrow> att1_aimu_userspace option \<Rightarrow> att1_status \<times> 'ctx aimu_world \<times> att1_aimu_userspace option" where
  "att1_aimu_userspace_snapshot w up =
     (if userspace_bad up then (ATT1_ERR_INVALID_ARG, w, up)
      else
        (let u = the up; (rc, w', h) = att1_aimu_host_snapshot_counters w (Some (u_host u)); u1 = u\<lparr>u_host := the h\<rparr>
         in if rc \<noteq> ATT1_OK then (rc, w', Some u1)
            else (ATT1_OK, w', Some (flush_bar0 w' u1))))"

definition att1_aimu_userspace_get_summary ::
  "'ctx aimu_world \<Rightarrow> att1_aimu_userspace option \<Rightarrow> bool \<Rightarrow> att1_status \<times> att1_aimu_host_summary option" where
  "att1_aimu_userspace_get_summary w up out_ok =
     (if userspace_bad up then (ATT1_ERR_INVALID_ARG, None)
      else if \<not> out_ok then (ATT1_ERR_INVALID_ARG, None)
      else att1_aimu_host_get_summary w (Some (u_host (the up))) out_ok)"

definition att1_aimu_userspace_flush_bar0 ::
  "'ctx aimu_world \<Rightarrow> att1_aimu_userspace option \<Rightarrow> att1_status \<times> att1_aimu_userspace option" where
  "att1_aimu_userspace_flush_bar0 w up =
     (if userspace_bad up then (ATT1_ERR_INVALID_ARG, up) else (ATT1_OK, Some (flush_bar0 w (the up))))"

text \<open>The verdict on the last line that \<^verbatim>\<open>att1_aimu_userspace_print_summary\<close> prints.\<close>

definition userspace_summary_passes :: "att1_aimu_host_summary \<Rightarrow> bool" where
  "userspace_summary_passes s \<longleftrightarrow>
     \<not> (hs_status s \<noteq> AIMU_OK \<and> hs_status s \<noteq> AIMU_PENDING) \<and> \<not> 0 < hs_commands_failed s"

end
