(* ===== verification/Aimu_Host_Props.thy ===== *)
theory Aimu_Host_Props
  imports Aimu_Host Aimu_Mmio_Props Aimu_Cmdq_Props
begin

text \<open>
  The control-plane harness: its invariant, probing and enumeration tell the truth about the device,
  submitted commands are answered in order, and what a reset does not reset.
\<close>

section \<open>The invariant\<close>

definition host_inv :: "'ctx aimu_world \<Rightarrow> att1_aimu_host \<Rightarrow> bool" where
  "host_inv w h \<longleftrightarrow> h_magic h = HOST_MAGIC \<and> device_inv (w_device w (h_device h))
     \<and> dev_register_map_version (w_device w (h_device h)) = REGISTER_MAP_VERSION
     \<and> cmdq_reachable (w_cmdq w (h_cmdq h)) \<and> q_exec_hook (w_cmdq w (h_cmdq h)) = None
     \<and> qcfg_tile_count (q_config (w_cmdq w (h_cmdq h))) = dev_tile_count (w_device w (h_device h))
     \<and> cmd_depth (w_cmdq w (h_cmdq h)) = comp_depth (w_cmdq w (h_cmdq h))
     \<and> mm_magic (h_mmio h) = MMIO_MAGIC \<and> mm_device (h_mmio h) = Some (h_device h)
     \<and> mm_trace (h_mmio h) = Some (h_trace h)
     \<and> (h_cmdq_ready h \<longrightarrow> h_probed h \<and> mm_cmdq (h_mmio h) = Some (h_cmdq h))
     \<and> (h_probed h \<longrightarrow> pr_tile_count (h_probe h) = dev_tile_count (w_device w (h_device h))
          \<and> pr_device_id (h_probe h) = MMIO_DEVICE_ID_DEFAULT)"

text \<open>What does not change: everything but the registers, the counters and the pending commands.\<close>

lemma host_sync_eq:
  "host_sync w h = (ATT1_OK, h\<lparr>h_mmio := sync_from_trace w (sync_from_cmdq w (sync_from_device w (mmio_set_defaults (h_mmio h))))\<rparr>)"
  by (simp add: host_sync_def att1_aimu_mmio_sync_def)

lemma host_sync_inv: "host_inv w h \<Longrightarrow> host_inv w (snd (host_sync w h))"
  by (simp add: host_sync_eq host_inv_def)

text \<open>The identification registers after a synchronisation.\<close>

lemma synced_reads:
  assumes "host_inv w h"
  defines "m \<equiv> h_mmio (snd (host_sync w h))"
  shows "att1_aimu_mmio_read32 (Some m) MMIO_DEVICE_ID True = (ATT1_OK, Some MMIO_DEVICE_ID_DEFAULT)"
    and "att1_aimu_mmio_read32 (Some m) MMIO_REGISTER_MAP_VERSION True = (ATT1_OK, Some REGISTER_MAP_VERSION)"
    and "att1_aimu_mmio_read32 (Some m) MMIO_TILE_COUNT True
      = (ATT1_OK, Some (ucast (dev_tile_count (w_device w (h_device h)))))"
    and "att1_aimu_mmio_read32 (Some m) MMIO_GLOBAL_STATUS True
      = (ATT1_OK, Some (global_status_of (w_device w (h_device h)) MMIO_GSTAT_DEVICE_READY))"
proof -
  let ?d = "sync_from_device w (mmio_set_defaults (h_mmio h))"
  have i: "device_inv (w_device w (h_device h))" and a: "mm_device (mmio_set_defaults (h_mmio h)) = Some (h_device h)"
    and mg: "mm_magic m = MMIO_MAGIC" using assms by (simp_all add: host_inv_def host_sync_eq)
  have m: "m = sync_from_trace w (sync_from_cmdq w ?d)" by (simp add: m_def host_sync_eq)
  note dr = sync_device_regs [OF i a]
  have same: "reg_get m b = reg_get ?d b" if "b mod 4 = 0" "b < 0x1000" for b
  proof -
    have r: "b < MMIO_FABRIC_PKT_CTR_LOW \<or> MMIO_FABRIC_CONGESTION_CTR < b" "b < MMIO_CNT_BASE \<or> MMIO_CNT_END \<le> b"
      "b \<notin> {MMIO_CQ_HEAD, MMIO_CQ_TAIL, MMIO_CQ_FENCE_VALUE, MMIO_CQ_STATUS}"
      using that(2) by (auto simp: mmio_offsets word_le_nat_alt word_less_nat_alt)
    show ?thesis unfolding m by (rule trans [OF sync_from_trace_other [OF that(1) r(1,2)] sync_from_cmdq_other [OF that(1) r(3,2)]])
  qed
  have rd: "att1_aimu_mmio_read32 (Some m) b True = (ATT1_OK, Some (reg_get ?d b))"
    if "b \<in> {MMIO_DEVICE_ID, MMIO_REGISTER_MAP_VERSION, MMIO_TILE_COUNT, MMIO_GLOBAL_STATUS}" for b
  proof -
    have f: "b mod 4 = 0" "b < 0x1000" "b < MMIO_BAR0_SIZE" using that by (auto simp: mmio_offsets MMIO_BAR0_SIZE_def)
    have "mmio_access_type b = ACCESS_RO"
      using that by (auto simp: mmio_access_type_def mmio_global_regs_def mmio_offsets)
    then show ?thesis using read32_eq [OF mg f(1,3)] same [OF f(1,2)] by simp
  qed
  show "att1_aimu_mmio_read32 (Some m) MMIO_DEVICE_ID True = (ATT1_OK, Some MMIO_DEVICE_ID_DEFAULT)"
    "att1_aimu_mmio_read32 (Some m) MMIO_REGISTER_MAP_VERSION True = (ATT1_OK, Some REGISTER_MAP_VERSION)"
    "att1_aimu_mmio_read32 (Some m) MMIO_TILE_COUNT True = (ATT1_OK, Some (ucast (dev_tile_count (w_device w (h_device h)))))"
    using rd dr(2,3,7) assms(1) by (simp_all add: host_inv_def)
  have "reg_get (mmio_set_defaults (h_mmio h)) MMIO_GLOBAL_STATUS = MMIO_GSTAT_DEVICE_READY"
    by (simp add: mmio_set_defaults_def reg_get_set mmio_offsets)
  then show "att1_aimu_mmio_read32 (Some m) MMIO_GLOBAL_STATUS True
      = (ATT1_OK, Some (global_status_of (w_device w (h_device h)) MMIO_GSTAT_DEVICE_READY))"
    using rd [of MMIO_GLOBAL_STATUS] dr(4) by simp
qed

lemma global_status_ready:
  assumes "device_inv dev"
  shows "global_status_of dev old AND MMIO_GSTAT_DEVICE_READY \<noteq> 0"
proof -
  have "(MMIO_GSTAT_DEVICE_READY OR x OR y OR z) AND MMIO_GSTAT_DEVICE_READY \<noteq> 0" for x y z
  proof -
    have "bit ((MMIO_GSTAT_DEVICE_READY OR x OR y OR z) AND MMIO_GSTAT_DEVICE_READY) 0"
      by (simp add: MMIO_GSTAT_DEVICE_READY_def bit_simps)
    then show ?thesis by (metis bit_0_eq bot_apply bot_bool_def)
  qed
  then show ?thesis unfolding global_status_eq [OF assms] .
qed

section \<open>Creation\<close>

lemma host_create_cases:
  fixes config :: "att1_aimu_host_config option"
  defines "cfg \<equiv> host_effective_config config"
  shows "att1_aimu_host_create w a alloc config True =
    (if \<not> alloc 0 then (ATT1_ERR_OOM, w, None)
     else if DEVICE_MAX_TILES < hcfg_tile_count cfg then (ATT1_ERR_INVALID_ARG, w, None)
     else if \<not> alloc 1 then (ATT1_ERR_OOM, w, None)
     else if \<not> cmdq_config_valid (host_cmdq_config cfg) then (ATT1_ERR_INVALID_ARG, w, None)
     else if \<not> (\<forall>i \<in> {2..7}. alloc i) then (ATT1_ERR_OOM, w, None)
     else (let dev = the (snd (att1_aimu_device_create True (Some (host_device_config cfg)) True));
               w' = w\<lparr>w_device := (w_device w)(a := dev), w_cmdq := (w_cmdq w)(a := new_cmdq (host_cmdq_config cfg)),
                      w_trace := (w_trace w)(a := \<lparr>tr_magic = TRACE_MAGIC, tr_snapshot = empty_snapshot\<rparr>)\<rparr>
           in (ATT1_OK, w', Some (snd (host_sync w'
                \<lparr>h_magic = HOST_MAGIC, h_device = a, h_cmdq = a, h_dma = new_dma, h_trace = a,
                 h_mmio = (mmio_set_defaults blank_mmio)\<lparr>mm_device := Some a, mm_trace := Some a\<rparr>, h_probe = zero_probe,
                 h_last_error = AIMU_OK, h_probed = False, h_cmdq_ready = False\<rparr>)))))"
proof -
  have nz: "hcfg_tile_count cfg \<noteq> 0"
    by (auto simp: cfg_def host_effective_config_def HOST_DEFAULT_TILE_COUNT_def Let_def)
  have i: "{2..7} = {2, 3, 4, 5, 6, 7 :: nat}" by auto
  show ?thesis
    using nz unfolding att1_aimu_host_create_def cfg_def [symmetric] i
    by (simp add: Let_def att1_aimu_device_create_def effective_config_def host_device_config_def
        att1_aimu_cmdq_create_def att1_aimu_dma_create_def att1_aimu_trace_create_def att1_aimu_mmio_create_def
        att1_aimu_mmio_attach_device_def att1_aimu_mmio_attach_trace_def host_sync_def att1_aimu_mmio_sync_def
        numeral_2_eq_2 [symmetric] numeral_3_eq_3 [symmetric])
qed

lemma host_config_valid:
  fixes config :: "att1_aimu_host_config option"
  defines "cfg \<equiv> host_effective_config config"
  assumes "\<not> DEVICE_MAX_TILES < hcfg_tile_count cfg"
  shows "\<exists>dev :: 'q att1_aimu_device. att1_aimu_device_create True (Some (host_device_config cfg)) True = (ATT1_OK, Some dev)
    \<and> device_inv dev \<and> dev_register_map_version dev = REGISTER_MAP_VERSION \<and> dev_tile_count dev = hcfg_tile_count cfg"
proof -
  have nz: "hcfg_tile_count cfg \<noteq> 0"
    by (auto simp: cfg_def host_effective_config_def HOST_DEFAULT_TILE_COUNT_def Let_def)
  then obtain dev :: "'q att1_aimu_device" where d: "att1_aimu_device_create True (Some (host_device_config cfg)) True = (ATT1_OK, Some dev)"
    "dev_register_map_version dev = REGISTER_MAP_VERSION" "dev_tile_count dev = hcfg_tile_count cfg"
    using assms(2) by (simp add: att1_aimu_device_create_def effective_config_def host_device_config_def)
  then show ?thesis using create_device_inv [OF d(1)] by blast
qed

lemma host_create_inv:
  fixes w :: "'a aimu_world"
  assumes "att1_aimu_host_create w a alloc config True = (ATT1_OK, w', Some h)"
  shows "host_inv w' h \<and> h_device h = a \<and> h_cmdq h = a \<and> h_trace h = a \<and> \<not> h_probed h \<and> \<not> h_cmdq_ready h
    \<and> w_cmdq w' a = new_cmdq (host_cmdq_config (host_effective_config config))
    \<and> dev_tile_count (w_device w' a) = hcfg_tile_count (host_effective_config config)"
proof -
  let ?cfg = "host_effective_config config"
  have c: "\<not> DEVICE_MAX_TILES < hcfg_tile_count ?cfg" "cmdq_config_valid (host_cmdq_config ?cfg)"
    using assms unfolding host_create_cases by (auto simp: Let_def split: if_splits)
  obtain dev :: "nat att1_aimu_device" where d: "att1_aimu_device_create True (Some (host_device_config ?cfg)) True = (ATT1_OK, Some dev)"
    "device_inv dev" "dev_register_map_version dev = REGISTER_MAP_VERSION" "dev_tile_count dev = hcfg_tile_count ?cfg"
    using host_config_valid [OF c(1)] by blast
  have "att1_aimu_cmdq_create (\<lambda>_. True) (Some (host_cmdq_config ?cfg)) True = (ATT1_OK, Some (new_cmdq (host_cmdq_config ?cfg)))"
    using c(2) by (simp add: att1_aimu_cmdq_create_def)
  then have r: "cmdq_reachable (new_cmdq (host_cmdq_config ?cfg) :: 'a att1_aimu_cmdq)" by (rule cmdq_reachable.create)
  have e: "w' = w\<lparr>w_device := (w_device w)(a := dev), w_cmdq := (w_cmdq w)(a := new_cmdq (host_cmdq_config ?cfg)),
                w_trace := (w_trace w)(a := \<lparr>tr_magic = TRACE_MAGIC, tr_snapshot = empty_snapshot\<rparr>)\<rparr>"
    "h = snd (host_sync w' \<lparr>h_magic = HOST_MAGIC, h_device = a, h_cmdq = a, h_dma = new_dma, h_trace = a,
         h_mmio = (mmio_set_defaults blank_mmio)\<lparr>mm_device := Some a, mm_trace := Some a\<rparr>, h_probe = zero_probe,
         h_last_error = AIMU_OK, h_probed = False, h_cmdq_ready = False\<rparr>)"
    using assms d(1) unfolding host_create_cases by (auto simp: Let_def split: if_splits)
  have q: "q_exec_hook (new_cmdq c :: 'a att1_aimu_cmdq) = None" "q_config (new_cmdq c :: 'a att1_aimu_cmdq) = c" for c
    by (simp_all add: new_cmdq_def)
  have "host_inv w' \<lparr>h_magic = HOST_MAGIC, h_device = a, h_cmdq = a, h_dma = new_dma, h_trace = a,
         h_mmio = (mmio_set_defaults blank_mmio)\<lparr>mm_device := Some a, mm_trace := Some a\<rparr>, h_probe = zero_probe,
         h_last_error = AIMU_OK, h_probed = False, h_cmdq_ready = False\<rparr>"
    using d r q by (simp add: host_inv_def e(1) blank_mmio_def, simp add: host_cmdq_config_def)
  note i = host_sync_inv [OF this]
  show ?thesis using i [folded e(2)] d(4) by (simp add: e(2) host_sync_eq) (simp add: e(1))
qed

text \<open>A harness with the default configuration.\<close>

lemma demo_host:
  "\<exists>w h. att1_aimu_host_create demo_world 0 (\<lambda>_. True) None True = (ATT1_OK, w, Some h)
    \<and> hcfg_tile_count (host_effective_config None) = 4 \<and> hcfg_cmd_ring_depth (host_effective_config None) = 64"
proof -
  have e: "hcfg_tile_count (host_effective_config None) = 4" "hcfg_cmd_ring_depth (host_effective_config None) = 64"
    by (simp_all add: host_effective_config_def zero_host_config_def HOST_DEFAULT_TILE_COUNT_def HOST_DEFAULT_CMD_RING_DEPTH_def)
  then have "\<not> DEVICE_MAX_TILES < hcfg_tile_count (host_effective_config None)"
    "cmdq_config_valid (host_cmdq_config (host_effective_config None))"
    by (simp_all add: cmdq_config_valid_def host_cmdq_config_def DEVICE_MAX_TILES_def is_power_of_two_def
        CMDQ_MAX_DEPTH_def CMDQ_MAX_TILES_def)
  then show ?thesis using e unfolding host_create_cases by (simp add: Let_def)
qed

section \<open>Every operation keeps the invariant\<close>

lemma host_probe_ok:
  assumes "host_inv w h"
  shows "att1_aimu_host_probe_device w (Some h) ok = (let p = \<lparr>pr_device_id = MMIO_DEVICE_ID_DEFAULT,
      pr_register_map_version = REGISTER_MAP_VERSION,
      pr_global_status = global_status_of (w_device w (h_device h)) MMIO_GSTAT_DEVICE_READY,
      pr_tile_count = dev_tile_count (w_device w (h_device h))\<rparr>
    in (ATT1_OK, Some ((snd (host_sync w h))\<lparr>h_probe := p, h_probed := True\<rparr>), if ok then Some p else None))"
proof -
  have gs: "global_status_of (w_device w (h_device h)) MMIO_GSTAT_DEVICE_READY AND MMIO_GSTAT_DEVICE_READY \<noteq> 0"
    by (rule global_status_ready) (use assms in \<open>simp add: host_inv_def\<close>)
  have "unat (dev_tile_count (w_device w (h_device h))) < 2 ^ 32"
    using assms by (simp add: host_inv_def device_inv_def)
  then have "(ucast (ucast (dev_tile_count (w_device w (h_device h))) :: u32) :: size_t) = dev_tile_count (w_device w (h_device h))"
    by (simp add: word_unat_eq_iff unsigned_ucast_eq unsigned_take_bit_eq take_bit_nat_eq_self)
  then show ?thesis
    using gs synced_reads [OF assms] by (simp add: att1_aimu_host_probe_device_def Let_def)
qed

lemma host_setup_ok:
  assumes "host_inv w h" "h_probed h"
  defines "w' \<equiv> w\<lparr>w_device := (w_device w)(h_device h := (w_device w (h_device h))\<lparr>dev_cmdq := Some (h_cmdq h)\<rparr>)\<rparr>"
  shows "att1_aimu_host_setup_cmdq w (Some h) = (ATT1_OK, w',
    Some ((snd (host_sync w' (h\<lparr>h_mmio := (h_mmio h)\<lparr>mm_cmdq := Some (h_cmdq h)\<rparr>\<rparr>)))\<lparr>h_cmdq_ready := True\<rparr>))"
  using assms(2) by (simp add: att1_aimu_host_setup_cmdq_def att1_aimu_device_attach_cmdq_def att1_aimu_mmio_attach_cmdq_def
      host_sync_eq Let_def w'_def)

lemma device_inv_cmdq [simp]: "device_inv (d\<lparr>dev_cmdq := q\<rparr>) = device_inv d"
  by (simp add: device_inv_def)

text \<open>The queue of the host never gets a hook.\<close>

lemma cmdq_frames:
  "q_config (fst (snd (cmdq_submit q c))) = q_config q"
  "cmdq_dispatch_one q = (st, q') \<Longrightarrow> q_config q' = q_config q"
  "att1_aimu_cmdq_poll_completion (Some q) True = (st, Some q', k) \<Longrightarrow> q_config q' = q_config q \<and> q_exec_hook q' = q_exec_hook q"
  by (auto simp: cmdq_submit_def cmdq_dispatch_one_def cmdq_pop_def cmdq_execute_def write_completion_def cmdq_push_def
      compq_push_def compq_pop_def cmdq_account_def inc_defs Let_def att1_aimu_cmdq_poll_completion_def
      split: if_splits prod.splits option.splits)

lemma drain_frames:
  "cmdq_dispatch_all q = (st, q') \<Longrightarrow> q_config q' = q_config q \<and> q_exec_hook q' = q_exec_hook q"
proof (induction q rule: cmdq_dispatch_all.induct)
  case (1 q)
  obtain s1 q1 where d: "cmdq_dispatch_one q = (s1, q1)" by fastforce
  note f = cmdq_frames(2) [OF d] cmdq_dispatch_one_hook [OF d]
  show ?case
    using "1.IH" [OF d [symmetric]] "1.prems" f by (auto simp: cmdq_dispatch_all.simps [of q] d split: if_splits)
qed

lemma host_inv_cmdq:
  assumes "host_inv w h" "cmdq_reachable q" "q_exec_hook q = None" "q_config q = q_config (w_cmdq w (h_cmdq h))"
  shows "host_inv (w\<lparr>w_cmdq := (w_cmdq w)(h_cmdq h := q)\<rparr>) h"
  using assms by (simp add: host_inv_def)

lemma host_inv_trace: "host_inv (w\<lparr>w_trace := t\<rparr>) h = host_inv w h"
  by (simp add: host_inv_def)

text \<open>What the control program may do.\<close>

inductive host_step :: "'ctx aimu_world \<Rightarrow> att1_aimu_host \<Rightarrow> 'ctx aimu_world \<Rightarrow> att1_aimu_host \<Rightarrow> bool" where
  probe: "att1_aimu_host_probe_device w (Some h) ok = (st, Some h', p) \<Longrightarrow> host_step w h w h'"
| attach: "att1_aimu_host_setup_cmdq w (Some h) = (st, w', Some h') \<Longrightarrow> host_step w h w' h'"
| submit: "att1_aimu_host_submit_cmd w (Some h) (Some c) = (st, w', c') \<Longrightarrow> host_step w h w' h"
| doorbell: "att1_aimu_host_ring_doorbell w (Some h) = (st, w', Some h') \<Longrightarrow> host_step w h w' h'"
| process_one: "att1_aimu_host_process_one w (Some h) = (st, w') \<Longrightarrow> host_step w h w' h"
| drain: "att1_aimu_host_drain w (Some h) = (st, w') \<Longrightarrow> host_step w h w' h"
| read: "att1_aimu_host_read_completion w (Some h) True = (st, w', k) \<Longrightarrow> host_step w h w' h"
| snapshot: "att1_aimu_host_snapshot_counters w (Some h) = (st, w', Some h') \<Longrightarrow> host_step w h w' h'"
| reset: "att1_aimu_host_reset w (Some h) = (st, w', Some h') \<Longrightarrow> host_step w h w' h'"

inductive host_reachable :: "'ctx aimu_world \<Rightarrow> att1_aimu_host \<Rightarrow> bool" where
  create: "att1_aimu_host_create w a alloc config True = (ATT1_OK, w', Some h) \<Longrightarrow> host_reachable w' h"
| step: "host_reachable w h \<Longrightarrow> host_step w h w' h' \<Longrightarrow> host_reachable w' h'"

lemma host_submit_inv:
  assumes "host_inv w h" "att1_aimu_host_submit_cmd w (Some h) (Some c) = (st, w', c')"
  shows "host_inv w' h"
proof (cases "h_cmdq_ready h")
  case True
  let ?q = "w_cmdq w (h_cmdq h)"
  obtain s q c1 where q: "cmdq_submit ?q c = (s, q, c1)" by (cases "cmdq_submit ?q c") auto
  have "w' = w\<lparr>w_cmdq := (w_cmdq w)(h_cmdq h := q)\<rparr>"
    using assms(2) True q by (auto simp: att1_aimu_host_submit_cmd_def att1_aimu_cmdq_submit_def)
  moreover have "cmdq_reachable ?q" "q_exec_hook ?q = None" using assms(1) by (simp_all add: host_inv_def)
  ultimately show ?thesis
    using host_inv_cmdq [OF assms(1), of q] submit_reachable [of ?q c] submit_hook [of ?q c] cmdq_frames(1) [of ?q c] q by simp
qed (use assms in \<open>simp add: att1_aimu_host_submit_cmd_def\<close>)

lemma host_on_cmdq_inv:
  assumes "host_inv w h" "host_on_cmdq f w (Some h) = (st, w')"
    and "\<And>q s q'. f q = (s, q') \<Longrightarrow> cmdq_reachable q \<Longrightarrow> cmdq_reachable q' \<and> q_config q' = q_config q \<and> q_exec_hook q' = q_exec_hook q"
  shows "host_inv w' h"
proof -
  obtain s q where q: "f (w_cmdq w (h_cmdq h)) = (s, q)" by fastforce
  have "cmdq_reachable (w_cmdq w (h_cmdq h))" "q_exec_hook (w_cmdq w (h_cmdq h)) = None" using assms(1) by (simp_all add: host_inv_def)
  then show ?thesis using assms(2) assms(3) [OF q] q host_inv_cmdq [OF assms(1), of q] by (simp add: host_on_cmdq_def)
qed

lemma host_doorbell_eq:
  assumes "host_inv w h" "h_cmdq_ready h"
  shows "att1_aimu_host_ring_doorbell w (Some h) = (ATT1_OK, w, Some (h\<lparr>h_mmio :=
    reg_set MMIO_CQ_TAIL (ucast (q_cmd_tail (w_cmdq w (h_cmdq h))) AND 0xFFFF)
      ((h_mmio h)\<lparr>mm_doorbell_write_count := mm_doorbell_write_count (h_mmio h) + 1\<rparr>)\<rparr>))"
proof -
  have "mmio_access_type MMIO_CQ_DOORBELL = ACCESS_WO" "MMIO_CQ_DOORBELL mod 4 = 0" "\<not> MMIO_BAR0_SIZE \<le> MMIO_CQ_DOORBELL"
    by (simp_all add: mmio_access_type_def mmio_global_regs_def mmio_cq_regs_def mmio_offsets MMIO_BAR0_SIZE_def)
  moreover have "mmio_wo_write w (h_mmio h) MMIO_CQ_DOORBELL v = (ATT1_OK, w, reg_set MMIO_CQ_TAIL (v AND 0xFFFF)
      ((h_mmio h)\<lparr>mm_doorbell_write_count := mm_doorbell_write_count (h_mmio h) + 1\<rparr>))" for v
    by (simp add: mmio_wo_write_def mmio_offsets)
  ultimately show ?thesis using assms by (simp add: att1_aimu_host_ring_doorbell_def att1_aimu_mmio_write32_def host_inv_def)
qed

lemma host_reset_ok:
  assumes "host_inv w h"
  shows "\<exists>w' h'. att1_aimu_host_reset w (Some h) = (ATT1_OK, w', Some h') \<and> host_inv w' h' \<and> w_cmdq w' = w_cmdq w
    \<and> h_cmdq h' = h_cmdq h \<and> h_device h' = h_device h \<and> h_trace h' = h_trace h \<and> \<not> h_probed h' \<and> \<not> h_cmdq_ready h' \<and> h_probe h' = zero_probe
    \<and> h_dma h' = (h_dma h)\<lparr>dma_counters := zero_dma_counters\<rparr> \<and> tr_snapshot (w_trace w' (h_trace h)) = empty_snapshot
    \<and> dev_tiles (w_device w' (h_device h)) = map clear_tile (dev_tiles (w_device w (h_device h)))"
proof -
  let ?d = "w_device w (h_device h)"
  have i: "device_inv ?d" using assms by (simp add: host_inv_def)
  let ?d' = "?d\<lparr>dev_global_status := 0, dev_global_error := 0, dev_reset_count := dev_reset_count ?d + 1,
          dev_tiles := map clear_tile (dev_tiles ?d)\<rparr>"
  have i': "device_inv ?d'" by (rule reset_inv [OF i reset_eq [OF i]])
  then show ?thesis
    using assms by (simp add: att1_aimu_host_reset_def reset_eq [OF i] att1_aimu_mmio_reset_def att1_aimu_trace_reset_def
        att1_aimu_dma_reset_counters_def host_sync_eq Let_def) (simp add: host_inv_def)
qed

lemma host_snapshot_inv:
  assumes "host_inv w h" "att1_aimu_host_snapshot_counters w (Some h) = (st, w', Some h')"
  shows "host_inv w' h'"
proof -
  obtain t where "att1_aimu_trace_snapshot_all (Some (w_trace w (h_trace h))) (if h_cmdq_ready h then Some (w_cmdq w (h_cmdq h)) else None)
      (Some (w_device w (h_device h))) (Some (h_dma h)) = (ATT1_OK, Some t)" unfolding snapshot_all_eq by blast
  then have e: "w' = w\<lparr>w_trace := (w_trace w)(h_trace h := t)\<rparr>" "h' = snd (host_sync w' h)"
    using assms(2) by (auto simp: att1_aimu_host_snapshot_counters_def host_sync_eq Let_def)
  have "host_inv w' h" using assms(1) unfolding e(1) host_inv_trace .
  then show ?thesis unfolding e(2) by (rule host_sync_inv)
qed

lemma host_step_inv:
  assumes "host_step w h w' h'" "host_inv w h"
  shows "host_inv w' h'"
  using assms
proof (induction rule: host_step.induct)
  case (probe w h ok st h' p)
  then show ?case using host_probe_ok [OF probe.prems, of ok] by (auto simp: host_inv_def Let_def host_sync_eq)
next
  case (attach w h st w' h')
  show ?case
  proof (cases "h_probed h")
    case True
    let ?w = "w\<lparr>w_device := (w_device w)(h_device h := (w_device w (h_device h))\<lparr>dev_cmdq := Some (h_cmdq h)\<rparr>)\<rparr>"
    let ?h = "h\<lparr>h_mmio := (h_mmio h)\<lparr>mm_cmdq := Some (h_cmdq h)\<rparr>\<rparr>"
    have e: "w' = ?w" "h' = (snd (host_sync ?w ?h))\<lparr>h_cmdq_ready := True\<rparr>"
      using host_setup_ok [OF attach.prems True] attach.hyps by simp_all
    have "host_inv ?w ?h" using attach.prems by (simp add: host_inv_def)
    then show ?thesis using True host_sync_inv [of ?w ?h] unfolding e by (simp add: host_inv_def host_sync_eq)
  next
    case False
    then show ?thesis using attach by (simp add: att1_aimu_host_setup_cmdq_def)
  qed
next
  case (doorbell w h st w' h')
  show ?case
  proof (cases "h_cmdq_ready h")
    case True
    then show ?thesis using doorbell host_doorbell_eq [OF doorbell.prems True] by (auto simp: host_inv_def)
  next
    case False
    then show ?thesis using doorbell by (simp add: att1_aimu_host_ring_doorbell_def)
  qed
next
  case (process_one w h st w')
  show ?case
    by (rule host_on_cmdq_inv [OF process_one.prems process_one.hyps [unfolded att1_aimu_host_process_one_def]])
      (auto dest: cmdq_frames(2) cmdq_dispatch_one_hook intro: cmdq_reachable.step [OF _ cmdq_step.dispatch])
next
  case (drain w h st w')
  show ?case
    by (rule host_on_cmdq_inv [OF drain.prems drain.hyps [unfolded att1_aimu_host_drain_def]])
      (auto dest: drain_frames intro: cmdq_reachable.step [OF _ cmdq_step.drain])
next
  case (read w h st w' k)
  obtain s q where q: "att1_aimu_cmdq_poll_completion (Some (w_cmdq w (h_cmdq h))) True = (s, Some q, k)"
    using read.hyps by (auto simp: att1_aimu_host_read_completion_def att1_aimu_cmdq_poll_completion_def split: if_splits prod.splits)
  have "cmdq_reachable (w_cmdq w (h_cmdq h))" "q_exec_hook (w_cmdq w (h_cmdq h)) = None" using read.prems by (simp_all add: host_inv_def)
  then show ?case using read.hyps q host_inv_cmdq [OF read.prems, of q] cmdq_frames(3) [OF q]
      cmdq_reachable.step [OF _ cmdq_step.poll [OF q]] by (simp add: att1_aimu_host_read_completion_def)
next
  case (reset w h st w' h')
  then show ?case using host_reset_ok [OF reset.prems] by auto
qed (blast intro: host_submit_inv host_snapshot_inv)+

lemma host_reachable_inv:
  assumes "host_reachable w h"
  shows "host_inv w h"
  using assms
proof (induction rule: host_reachable.induct)
  case (create w a alloc config w' h)
  then show ?case using host_create_inv by blast
qed (blast intro: host_step_inv)



section \<open>Commands are answered\<close>

fun host_submit_all ::
  "'ctx aimu_world \<Rightarrow> att1_aimu_host \<Rightarrow> att1_aimu_cmd list \<Rightarrow> 'ctx aimu_world \<times> att1_status list \<times> att1_aimu_cmd list" where
  "host_submit_all w h [] = (w, [], [])"
| "host_submit_all w h (c # cs) =
     (let (st, w1, c1) = att1_aimu_host_submit_cmd w (Some h) (Some c); (w2, sts, cs') = host_submit_all w1 h cs
      in (w2, st # sts, the c1 # cs'))"

fun host_read_all :: "'ctx aimu_world \<Rightarrow> att1_aimu_host \<Rightarrow> nat \<Rightarrow> 'ctx aimu_world \<times> att1_aimu_completion list" where
  "host_read_all w h 0 = (w, [])"
| "host_read_all w h (Suc n) =
     (let (st, w1, k) = att1_aimu_host_read_completion w (Some h) True; (w2, ks) = host_read_all w1 h n
      in (w2, the k # ks))"

lemma host_submit_all_ok:
  assumes "host_inv w h" "h_cmdq_ready h"
    and "\<forall>c \<in> set cs. unat (c_tile_id c) < unat (dev_tile_count (w_device w (h_device h)))"
    and "length (cmd_content (w_cmdq w (h_cmdq h))) + length cs \<le> cmd_cap (w_cmdq w (h_cmdq h))"
  shows "\<exists>w' cs'. host_submit_all w h cs = (w', replicate (length cs) ATT1_OK, cs') \<and> host_inv w' h
    \<and> q_config (w_cmdq w' (h_cmdq h)) = q_config (w_cmdq w (h_cmdq h))
    \<and> cmd_content (w_cmdq w' (h_cmdq h)) = cmd_content (w_cmdq w (h_cmdq h)) @ cs'
    \<and> comp_content (w_cmdq w' (h_cmdq h)) = comp_content (w_cmdq w (h_cmdq h))
    \<and> map c_command_type cs' = map c_command_type cs
    \<and> map c_command_id cs' = map (\<lambda>i. q_next_command_id (w_cmdq w (h_cmdq h)) + word_of_nat i) [0..<length cs]"
  using assms
proof (induction cs arbitrary: w)
  case (Cons c cs)
  let ?q = "w_cmdq w (h_cmdq h)" let ?q1 = "fst (snd (cmdq_submit ?q c))"
  let ?w1 = "w\<lparr>w_cmdq := (w_cmdq w)(h_cmdq h := ?q1)\<rparr>"
  have i: "cmdq_inv ?q" using Cons.prems(1) cmdq_reachable_invs by (auto simp: host_inv_def)
  have rj: "\<not> submit_rejects ?q c" using Cons.prems(1,3) by (simp add: submit_rejects_def host_inv_def)
  have room: "length (cmd_content ?q) < cmd_cap ?q" using Cons.prems(4) by simp
  note ok = cmdq_submit_ok [OF i rj room] and ct = cmdq_submit_content [OF i rj room]
  have s: "att1_aimu_host_submit_cmd w (Some h) (Some c) = (ATT1_OK, ?w1, Some (stamped ?q c))"
    using ok Cons.prems(2) by (simp add: att1_aimu_host_submit_cmd_def att1_aimu_cmdq_submit_def)
  have i1: "host_inv ?w1 h" by (rule host_submit_inv [OF Cons.prems(1) s])
  have cap: "cmd_cap ?q1 = cmd_cap ?q" by (rule cap_frame(1) [OF ct(4)])
  have nid: "q_next_command_id ?q1 = q_next_command_id ?q + 1" using ok by (simp add: cmdq_push_def inc_defs Let_def)
  have stm: "c_command_id (stamped ?q c) = q_next_command_id ?q" "c_command_type (stamped ?q c) = c_command_type c"
    by (simp_all add: stamped_def Let_def)
  obtain w' cs' where r: "host_submit_all ?w1 h cs = (w', replicate (length cs) ATT1_OK, cs')" "host_inv w' h"
    "q_config (w_cmdq w' (h_cmdq h)) = q_config ?q1" "cmd_content (w_cmdq w' (h_cmdq h)) = cmd_content ?q1 @ cs'"
    "comp_content (w_cmdq w' (h_cmdq h)) = comp_content ?q1" "map c_command_type cs' = map c_command_type cs"
    "map c_command_id cs' = map (\<lambda>i. q_next_command_id ?q1 + word_of_nat i) [0..<length cs]"
    using Cons.IH [OF i1 Cons.prems(2)] Cons.prems(3,4) cap ct(2) by auto
  have "map (\<lambda>i. q_next_command_id ?q + word_of_nat i) [0..<length (c # cs)]
      = q_next_command_id ?q # map (\<lambda>i. q_next_command_id ?q1 + word_of_nat i) [0..<length cs]"
    by (simp add: upt_conv_Cons map_Suc_upt [symmetric] nid comp_def add.assoc del: upt_Suc)
  then show ?case using s r ct stm by simp
qed simp

lemma host_read_all_ok:
  assumes "host_inv w h" "comp_content (w_cmdq w (h_cmdq h)) = ks"
  shows "\<exists>w'. host_read_all w h (length ks) = (w', ks) \<and> host_inv w' h \<and> comp_content (w_cmdq w' (h_cmdq h)) = []"
  using assms
proof (induction ks arbitrary: w)
  case (Cons k ks)
  let ?q = "w_cmdq w (h_cmdq h)" let ?q1 = "snd (compq_pop ?q)"
  have i: "cmdq_inv ?q" using Cons.prems(1) cmdq_reachable_invs by (auto simp: host_inv_def)
  have "comp_content ?q = fst (compq_pop ?q) # comp_content ?q1"
    by (rule compq_fifo.content_deq [OF i]) (use Cons.prems(2) in simp)
  then have p: "fst (compq_pop ?q) = k" "comp_content ?q1 = ks" using Cons.prems(2) by simp_all
  have s: "att1_aimu_host_read_completion w (Some h) True = (ATT1_OK, w\<lparr>w_cmdq := (w_cmdq w)(h_cmdq h := ?q1)\<rparr>, Some k)"
  proof -
    have "compq_used ?q \<noteq> 0" using used_eq_0 [OF i] Cons.prems(2) by simp
    then show ?thesis using p(1)
      by (cases "compq_pop ?q") (simp add: att1_aimu_host_read_completion_def att1_aimu_cmdq_poll_completion_def)
  qed
  then have "host_inv (w\<lparr>w_cmdq := (w_cmdq w)(h_cmdq h := ?q1)\<rparr>) h"
    using host_step_inv [OF host_step.read [OF s] Cons.prems(1)] by simp
  then show ?case using Cons.IH [of "w\<lparr>w_cmdq := (w_cmdq w)(h_cmdq h := ?q1)\<rparr>"] p s by auto
qed auto

text \<open>
  C11. The control-plane flow from end to end: on a harness that was just created, probing and setting up
  the queue succeed; then any sequence of commands for existing tiles that fits the ring is accepted
  with the identifiers 1, 2, ..., the doorbell and the drain succeed, and reading completions
  gives exactly one answer per command, in the order of submission, with the result that its type stands for.
\<close>

theorem host_flow_completes:
  assumes "att1_aimu_host_create w a alloc config True = (ATT1_OK, w0, Some h0)"
    and "\<forall>c \<in> set cs. unat (c_tile_id c) < unat (hcfg_tile_count (host_effective_config config))"
    and "length cs < unat (hcfg_cmd_ring_depth (host_effective_config config))"
  shows "\<exists>h1 p w2 h2 w3 cs' h3 w4 w5 ks. att1_aimu_host_probe_device w0 (Some h0) True = (ATT1_OK, Some h1, Some p)
    \<and> pr_tile_count p = hcfg_tile_count (host_effective_config config)
    \<and> att1_aimu_host_setup_cmdq w0 (Some h1) = (ATT1_OK, w2, Some h2)
    \<and> host_submit_all w2 h2 cs = (w3, replicate (length cs) ATT1_OK, cs')
    \<and> map c_command_type cs' = map c_command_type cs \<and> map c_command_id cs' = map (\<lambda>i. 1 + word_of_nat i) [0..<length cs]
    \<and> att1_aimu_host_ring_doorbell w3 (Some h2) = (ATT1_OK, w3, Some h3)
    \<and> att1_aimu_host_drain w3 (Some h3) = (ATT1_OK, w4)
    \<and> host_read_all w4 h3 (length cs) = (w5, ks) \<and> completions_match ks cs'
    \<and> fst (att1_aimu_host_read_completion w5 (Some h3) True) = ATT1_ERR_QUEUE_EMPTY"
proof -
  let ?cfg = "host_effective_config config"
  note c0 = host_create_inv [OF assms(1)]
  then have i0: "host_inv w0 h0" by blast
  obtain h1 p where pr: "att1_aimu_host_probe_device w0 (Some h0) True = (ATT1_OK, Some h1, Some p)"
    "h_probed h1" "pr_tile_count p = dev_tile_count (w_device w0 (h_device h0))" "h_cmdq h1 = h_cmdq h0" "h_device h1 = h_device h0"
    using host_probe_ok [OF i0, of True] by (auto simp: Let_def host_sync_eq)
  have i1: "host_inv w0 h1" by (rule host_step_inv [OF host_step.probe [OF pr(1)] i0])
  obtain w2 h2 where su: "att1_aimu_host_setup_cmdq w0 (Some h1) = (ATT1_OK, w2, Some h2)" "h_cmdq_ready h2"
    "w_cmdq w2 = w_cmdq w0" "h_cmdq h2 = h_cmdq h0" "dev_tile_count (w_device w2 (h_device h2)) = dev_tile_count (w_device w0 (h_device h0))"
    using host_setup_ok [OF i1 pr(2)] pr(4,5) by (auto simp: host_sync_eq)
  have i2: "host_inv w2 h2" by (rule host_step_inv [OF host_step.attach [OF su(1)] i1])
  let ?a = "h_cmdq h2"
  have q0: "w_cmdq w2 ?a = new_cmdq (host_cmdq_config ?cfg)" using su(3,4) c0 by simp
  have e: "cmd_content (w_cmdq w2 ?a) = []" "comp_content (w_cmdq w2 ?a) = []" "q_next_command_id (w_cmdq w2 ?a) = 1"
    "cmd_cap (w_cmdq w2 ?a) = unat (hcfg_cmd_ring_depth ?cfg) - 1" "comp_cap (w_cmdq w2 ?a) = unat (hcfg_cmd_ring_depth ?cfg) - 1"
    unfolding q0 by (simp_all add: new_cmdq_def cmd_content_def comp_content_def mring_content_def cmd_cap_def comp_cap_def host_cmdq_config_def)
  have le: "length cs \<le> unat (hcfg_cmd_ring_depth ?cfg) - 1" using assms(3) by simp
  obtain w3 cs' where s: "host_submit_all w2 h2 cs = (w3, replicate (length cs) ATT1_OK, cs')" "host_inv w3 h2"
    "q_config (w_cmdq w3 ?a) = q_config (w_cmdq w2 ?a)" "cmd_content (w_cmdq w3 ?a) = cs'" "comp_content (w_cmdq w3 ?a) = []"
    "map c_command_type cs' = map c_command_type cs" "map c_command_id cs' = map (\<lambda>i. 1 + word_of_nat i) [0..<length cs]"
    using host_submit_all_ok [OF i2 su(2), of cs] assms(2) su(5) c0 e le by auto
  note bell = host_doorbell_eq [OF s(2) su(2)]
  obtain h3 where b: "att1_aimu_host_ring_doorbell w3 (Some h2) = (ATT1_OK, w3, Some h3)" "h_cmdq h3 = ?a" "h_cmdq_ready h3"
    using bell su(2) by simp
  have i3: "host_inv w3 h3" by (rule host_step_inv [OF host_step.doorbell [OF b(1)] s(2)])
  have len: "length cs' = length cs" using arg_cong [OF s(6), of length] by simp
  have "cmdq_inv (w_cmdq w3 ?a)" "q_exec_hook (w_cmdq w3 ?a) = None" using s(2) cmdq_reachable_invs by (auto simp: host_inv_def)
  moreover have "length (comp_content (w_cmdq w3 ?a)) + length (cmd_content (w_cmdq w3 ?a)) \<le> comp_cap (w_cmdq w3 ?a)"
    using s(4,5) len le e(5) cap_frame(2) [OF s(3)] by simp
  ultimately obtain q' ks where dr: "cmdq_dispatch_all (w_cmdq w3 ?a) = (ATT1_OK, q')" "comp_content q' = ks" "completions_match ks cs'"
    using cmdq_drain_no_hook [of "w_cmdq w3 ?a"] s(4,5) by auto
  let ?w4 = "w3\<lparr>w_cmdq := (w_cmdq w3)(?a := q')\<rparr>"
  have d: "att1_aimu_host_drain w3 (Some h3) = (ATT1_OK, ?w4)" using dr(1) b(2) by (simp add: att1_aimu_host_drain_def host_on_cmdq_def)
  have i4: "host_inv ?w4 h3" by (rule host_step_inv [OF host_step.drain [OF d] i3])
  have lk: "length ks = length cs" using completions_match_length [OF dr(3)] len by simp
  obtain w5 where r: "host_read_all ?w4 h3 (length ks) = (w5, ks)" "host_inv w5 h3" "comp_content (w_cmdq w5 (h_cmdq h3)) = []"
    using host_read_all_ok [OF i4, of ks] dr(2) b(2) by auto
  have "cmdq_inv (w_cmdq w5 (h_cmdq h3))" using r(2) cmdq_reachable_invs by (auto simp: host_inv_def)
  then have "compq_used (w_cmdq w5 (h_cmdq h3)) = 0" using r(3) used_eq_0 by blast
  then have "fst (att1_aimu_host_read_completion w5 (Some h3) True) = ATT1_ERR_QUEUE_EMPTY"
    by (simp add: att1_aimu_host_read_completion_def att1_aimu_cmdq_poll_completion_def)
  then show ?thesis using pr(1,3) c0 su(1) s(1,6,7) b(1) d r(1) dr(3) lk by metis
qed

theorem host_flow_completes_witness:
  "\<exists>w h h1 p. att1_aimu_host_create demo_world 0 (\<lambda>_. True) None True = (ATT1_OK, w, Some h)
    \<and> att1_aimu_host_probe_device w (Some h) True = (ATT1_OK, Some h1, Some p) \<and> pr_tile_count p = 4
    \<and> (\<exists>w2 h2 w3 c. att1_aimu_host_setup_cmdq w (Some h1) = (ATT1_OK, w2, Some h2)
        \<and> host_submit_all w2 h2 [zero_cmd] = (w3, [ATT1_OK], c) \<and> map c_command_id c = [1])"
proof -
  obtain w h where c: "att1_aimu_host_create demo_world 0 (\<lambda>_. True) None True = (ATT1_OK, w, Some h)"
    "hcfg_tile_count (host_effective_config None) = 4" "hcfg_cmd_ring_depth (host_effective_config None) = 64" using demo_host by blast
  have "\<forall>c \<in> set [zero_cmd]. unat (c_tile_id c) < unat (hcfg_tile_count (host_effective_config None))"
    by (simp add: c(2) zero_cmd_def)
  moreover have "length [zero_cmd] < unat (hcfg_cmd_ring_depth (host_effective_config None))" by (simp add: c(3))
  ultimately show ?thesis using host_flow_completes [OF c(1), of "[zero_cmd]"] c(1,2) by auto
qed

section \<open>What the host reports\<close>

lemma enumerate_loop_ok:
  assumes "device_inv dev" "\<forall>i \<in> set is. i < length (dev_tiles dev)"
  shows "enumerate_loop dev is acc = (ATT1_OK, acc @ map (\<lambda>i. host_tile_info (dev_tiles dev ! i)) is)"
  using assms(2)
proof (induction "is" arbitrary: acc)
  case (Cons i "is")
  have i: "i < length (dev_tiles dev)" "length (dev_tiles dev) \<le> 16" "unat (dev_tile_count dev) = length (dev_tiles dev)"
    using Cons.prems assms(1) by (auto simp: device_inv_def)
  then have u: "unat (word_of_nat i :: u8) = i" by (simp add: unsigned_of_nat take_bit_nat_eq_self)
  have "tile_in_range dev (word_of_nat i)"
    using i u by (simp add: tile_in_range_def word_le_nat_alt unsigned_ucast_eq unsigned_take_bit_eq take_bit_nat_eq_self)
  then show ?case using Cons u by (simp add: att1_aimu_device_query_tile_def)
qed simp

text \<open>
  Enumeration of a probed host reports the device's tiles in order, as many as the caller has
  room for, and says how many; the entry at index i is tile i. Before a probe it writes nothing and
  leaves the count alone.
\<close>

theorem host_enumerate_exact:
  assumes "host_reachable w h"
  defines "ts \<equiv> dev_tiles (w_device w (h_device h))"
  shows "att1_aimu_host_enumerate_tiles w (Some h) True (Some c) =
      (if h_probed h then (ATT1_OK, map host_tile_info (take (unat c) ts), Some (min c (word_of_nat (length ts))))
       else (ATT1_ERR_STATE, [], Some c))
    \<and> (\<forall>i < min (unat c) (length ts). unat (hti_tile_id (host_tile_info (ts ! i))) = i)"
proof -
  have inv: "host_inv w h" by (rule host_reachable_inv [OF assms(1)])
  then have d: "device_inv (w_device w (h_device h))" by (simp add: host_inv_def)
  then have l: "length ts \<le> 16" "unat (dev_tile_count (w_device w (h_device h))) = length ts"
    "\<forall>i < length ts. unat (ti_tile_id (ts ! i)) = i" by (auto simp: device_inv_def ts_def)
  have tc: "dev_tile_count (w_device w (h_device h)) = word_of_nat (length ts)" unfolding l(2) [symmetric] by simp
  let ?n = "if c < word_of_nat (length ts) then c else word_of_nat (length ts)"
  have n: "?n = min c (word_of_nat (length ts))" "unat ?n = min (unat c) (length ts)"
    using l(2) unfolding tc by (auto simp: min_def word_less_nat_alt word_le_nat_alt word_unat_eq_iff)
  have "enumerate_loop (w_device w (h_device h)) [0..<unat ?n] [] = (ATT1_OK, map host_tile_info (take (unat c) ts))"
  proof -
    have "map (\<lambda>i. host_tile_info (ts ! i)) [0..<min (unat c) (length ts)] = map host_tile_info (take (unat c) ts)"
      by (rule nth_equalityI) simp_all
    then show ?thesis using enumerate_loop_ok [OF d, of "[0..<unat ?n]"] n(2) by (simp add: ts_def)
  qed
  moreover have "pr_tile_count (h_probe h) = word_of_nat (length ts)" if "h_probed h"
    using that inv tc by (simp add: host_inv_def)
  ultimately show ?thesis
    using l(3) n(1) by (auto simp: att1_aimu_host_enumerate_tiles_def host_tile_info_def)
qed

theorem host_enumerate_exact_witness:
  "\<exists>(w :: unit aimu_world) h h1. host_reachable w h \<and> h_probed h1
    \<and> fst (att1_aimu_host_enumerate_tiles w (Some h1) True (Some 3)) = ATT1_OK
    \<and> fst (att1_aimu_host_enumerate_tiles w (Some h) True (Some 3)) = ATT1_ERR_STATE"
proof -
  obtain w h where c: "att1_aimu_host_create demo_world 0 (\<lambda>_. True) None True = (ATT1_OK, w, Some h)" using demo_host by blast
  have r: "host_reachable w h" by (rule host_reachable.create [OF c])
  obtain h1 p where s: "att1_aimu_host_probe_device w (Some h) True = (ATT1_OK, Some h1, Some p)" "h_probed h1"
    using host_probe_ok [OF host_reachable_inv [OF r], of True] by (auto simp: Let_def host_sync_eq)
  have r1: "host_reachable w h1" by (rule host_reachable.step [OF r host_step.probe [OF s(1)]])
  show ?thesis
    using host_enumerate_exact [OF r, of 3] host_enumerate_exact [OF r1, of 3] host_create_inv [OF c] r s(2)
    by (intro exI [of _ w] exI [of _ h] exI [of _ h1]) simp
qed

text \<open>
  A counter snapshot of a host whose queue is set up succeeds, is complete and numbered, and the two
  views of the counters agree: the 64-bit counter registers hold what the summary reports for the
  commands submitted, completed and failed, the error register adding the tiles in error.
\<close>

theorem host_snapshot_agrees:
  assumes "host_reachable w h" "h_cmdq_ready h"
  shows "\<exists>w' h' s. att1_aimu_host_snapshot_counters w (Some h) = (ATT1_OK, w', Some h')
    \<and> att1_aimu_host_get_summary w' (Some h') True = (ATT1_OK, Some s)
    \<and> hs_trace_status s = TRACE_STATUS_OK
    \<and> hs_trace_snapshot_id s = tm_snapshot_id (ts_meta (tr_snapshot (w_trace w (h_trace h)))) + 1
    \<and> hs_commands_submitted s = qc_commands_submitted (q_counters (w_cmdq w (h_cmdq h)))
    \<and> att1_aimu_mmio_read64 (Some (h_mmio h')) MMIO_CNT_CMD_ISSUED_LO True = (ATT1_OK, Some (hs_commands_submitted s))
    \<and> att1_aimu_mmio_read64 (Some (h_mmio h')) MMIO_CNT_CMD_COMPLETED_LO True = (ATT1_OK, Some (hs_commands_completed s))
    \<and> att1_aimu_mmio_read64 (Some (h_mmio h')) MMIO_CNT_ERRORS_TOTAL_LO True = (ATT1_OK, Some (hs_commands_failed s
        + of_nat (length (filter (\<lambda>t. ti_state t = TILE_ERROR) (dev_tiles (w_device w (h_device h)))))))"
proof -
  let ?d = "w_device w (h_device h)" let ?q = "w_cmdq w (h_cmdq h)" let ?a = "h_trace h"
  have inv: "host_inv w h" by (rule host_reachable_inv [OF assms(1)])
  have i: "device_inv ?d" and g: "mm_magic (h_mmio h) = MMIO_MAGIC" and tr: "mm_trace (h_mmio h) = Some ?a"
    using inv by (simp_all add: host_inv_def)
  obtain t where t: "att1_aimu_trace_snapshot_all (Some (w_trace w ?a)) (Some ?q) (Some ?d) (Some (h_dma h)) = (ATT1_OK, Some t)"
    unfolding snapshot_all_eq by blast
  let ?w = "w\<lparr>w_trace := (w_trace w)(?a := t)\<rparr>" let ?h = "snd (host_sync ?w h)"
  have r: "att1_aimu_host_snapshot_counters w (Some h) = (ATT1_OK, ?w, Some ?h)"
    using assms(2) t by (simp add: att1_aimu_host_snapshot_counters_def host_sync_eq Let_def)
  have c: "ts_cmdq (tr_snapshot t) = trace_cmdq_counters (q_counters ?q)"
    "td_tile_errors (ts_device (tr_snapshot t)) = of_nat (length (filter (\<lambda>t. ti_state t = TILE_ERROR) (dev_tiles ?d)))"
    "tm_status (ts_meta (tr_snapshot t)) = TRACE_STATUS_OK"
    "tm_snapshot_id (ts_meta (tr_snapshot t)) = tm_snapshot_id (ts_meta (tr_snapshot (w_trace w ?a))) + 1"
    using t trace_tile_totals_eq [OF i] by (auto simp: snapshot_all_eq)
  let ?m = "sync_from_cmdq ?w (sync_from_device ?w (mmio_set_defaults (h_mmio h)))"
  have m: "h_mmio ?h = sync_from_trace ?w ?m" by (simp add: host_sync_eq)
  have "mm_trace ?m = Some ?a" "tm_status (ts_meta (tr_snapshot (w_trace ?w ?a))) \<noteq> TRACE_STATUS_EMPTY" "mm_magic (h_mmio ?h) = MMIO_MAGIC"
    using tr c(3) g by (simp_all add: m TRACE_STATUS_OK_def TRACE_STATUS_EMPTY_def)
  note rd = trace_reads [OF this, unfolded m, OF conjI [OF refl refl]]
  let ?s = "the (snd (att1_aimu_host_get_summary ?w (Some ?h) True))"
  have h: "h_cmdq_ready ?h" "h_cmdq ?h = h_cmdq h" "h_trace ?h = ?a" using assms(2) by (simp_all add: host_sync_eq)
  have s: "att1_aimu_host_get_summary ?w (Some ?h) True = (ATT1_OK, Some ?s)" by (simp add: att1_aimu_host_get_summary_def Let_def)
  have f: "hs_commands_submitted ?s = qc_commands_submitted (q_counters ?q)" "hs_commands_completed ?s = qc_commands_completed (q_counters ?q)"
    "hs_commands_failed ?s = qc_commands_failed (q_counters ?q)" "hs_trace_status ?s = TRACE_STATUS_OK"
    "hs_trace_snapshot_id ?s = tm_snapshot_id (ts_meta (tr_snapshot (w_trace w ?a))) + 1"
    using h c(3,4) by (simp_all add: att1_aimu_host_get_summary_def att1_aimu_cmdq_get_counters_def att1_aimu_dma_get_counters_def
        att1_aimu_trace_get_snapshot_def Let_def)
  have rd': "att1_aimu_mmio_read64 (Some (h_mmio ?h)) MMIO_CNT_CMD_ISSUED_LO True = (ATT1_OK, Some (hs_commands_submitted ?s))"
    "att1_aimu_mmio_read64 (Some (h_mmio ?h)) MMIO_CNT_CMD_COMPLETED_LO True = (ATT1_OK, Some (hs_commands_completed ?s))"
    "att1_aimu_mmio_read64 (Some (h_mmio ?h)) MMIO_CNT_ERRORS_TOTAL_LO True = (ATT1_OK, Some (hs_commands_failed ?s
        + of_nat (length (filter (\<lambda>t. ti_state t = TILE_ERROR) (dev_tiles ?d)))))"
    using rd(1,2,4) c(1,2) f(1-3) by (simp_all add: m trace_cmdq_counters_def)
  show ?thesis using r s f(1,4,5) rd' by blast
qed

theorem host_snapshot_agrees_witness:
  "\<exists>(w :: unit aimu_world) h w' h'. att1_aimu_host_snapshot_counters w (Some h) = (ATT1_OK, w', Some h')
    \<and> att1_aimu_mmio_read64 (Some (h_mmio h')) MMIO_CNT_CMD_ISSUED_LO True
       = (ATT1_OK, Some (qc_commands_submitted (q_counters (w_cmdq w (h_cmdq h)))))"
proof -
  obtain w h where c: "att1_aimu_host_create demo_world 0 (\<lambda>_. True) None True = (ATT1_OK, w, Some h)" using demo_host by blast
  have r: "host_reachable w h" by (rule host_reachable.create [OF c])
  obtain h1 p where s: "att1_aimu_host_probe_device w (Some h) True = (ATT1_OK, Some h1, Some p)" "h_probed h1"
    using host_probe_ok [OF host_reachable_inv [OF r], of True] by (auto simp: Let_def host_sync_eq)
  have r1: "host_reachable w h1" by (rule host_reachable.step [OF r host_step.probe [OF s(1)]])
  obtain w2 h2 where t: "att1_aimu_host_setup_cmdq w (Some h1) = (ATT1_OK, w2, Some h2)" "h_cmdq_ready h2"
    using host_setup_ok [OF host_reachable_inv [OF r1] s(2)] by (auto simp: host_sync_eq)
  have r2: "host_reachable w2 h2" by (rule host_reachable.step [OF r1 host_step.attach [OF t(1)]])
  show ?thesis using host_snapshot_agrees [OF r2 t(2)] by metis
qed

text \<open>
  What a reset of the host does not reset: it succeeds, empties the trace, clears the DMA counters and the tiles
  and forgets the probe, so that submissions and the doorbell are refused; but the queue keeps every pending
  command and completion, and a drain after the reset still executes the commands submitted before it.
\<close>

theorem host_reset_keeps_commands:
  assumes "host_reachable w h"
  shows "\<exists>w' h'. att1_aimu_host_reset w (Some h) = (ATT1_OK, w', Some h')
    \<and> tr_snapshot (w_trace w' (h_trace h')) = empty_snapshot \<and> dma_counters (h_dma h') = zero_dma_counters
    \<and> dev_tiles (w_device w' (h_device h')) = map clear_tile (dev_tiles (w_device w (h_device h)))
    \<and> att1_aimu_host_submit_cmd w' (Some h') (Some c) = (ATT1_ERR_STATE, w', Some c)
    \<and> att1_aimu_host_ring_doorbell w' (Some h') = (ATT1_ERR_STATE, w', Some h')
    \<and> cmd_content (w_cmdq w' (h_cmdq h')) = cmd_content (w_cmdq w (h_cmdq h))
    \<and> comp_content (w_cmdq w' (h_cmdq h')) = comp_content (w_cmdq w (h_cmdq h))
    \<and> fst (att1_aimu_host_drain w' (Some h')) = fst (cmdq_dispatch_all (w_cmdq w (h_cmdq h)))
    \<and> w_cmdq (snd (att1_aimu_host_drain w' (Some h'))) (h_cmdq h') = snd (cmdq_dispatch_all (w_cmdq w (h_cmdq h)))"
proof -
  obtain w' h' where r: "att1_aimu_host_reset w (Some h) = (ATT1_OK, w', Some h')" "w_cmdq w' = w_cmdq w" "h_cmdq h' = h_cmdq h"
    "h_device h' = h_device h" "h_trace h' = h_trace h" "\<not> h_cmdq_ready h'" "h_dma h' = (h_dma h)\<lparr>dma_counters := zero_dma_counters\<rparr>"
    "tr_snapshot (w_trace w' (h_trace h)) = empty_snapshot"
    "dev_tiles (w_device w' (h_device h)) = map clear_tile (dev_tiles (w_device w (h_device h)))"
    using host_reset_ok [OF host_reachable_inv [OF assms]] by blast
  then show ?thesis
    by (intro exI [of _ w'] exI [of _ h']) (simp add: att1_aimu_host_submit_cmd_def att1_aimu_host_ring_doorbell_def
        att1_aimu_host_drain_def host_on_cmdq_def split: prod.split)
qed

theorem host_reset_keeps_commands_witness:
  "\<exists>w h w' h'. att1_aimu_host_create demo_world 0 (\<lambda>_. True) None True = (ATT1_OK, w, Some h)
    \<and> att1_aimu_host_reset w (Some h) = (ATT1_OK, w', Some h')
    \<and> att1_aimu_host_submit_cmd w' (Some h') (Some zero_cmd) = (ATT1_ERR_STATE, w', Some zero_cmd)"
proof -
  obtain w h where c: "att1_aimu_host_create demo_world 0 (\<lambda>_. True) None True = (ATT1_OK, w, Some h)" using demo_host by blast
  from host_reset_keeps_commands [OF host_reachable.create [OF c], of zero_cmd] c show ?thesis by blast
qed

end
