(* ===== verification/Aimu_Userspace_Props.thy ===== *)
theory Aimu_Userspace_Props
  imports Aimu_Userspace Aimu_Host_Props
begin

text \<open>
  The user-space emulator: after every successful operation the mapped file shows the registers, the
  file does not change what the program computes, and the one place where it does change what
  the program reads.
\<close>

section \<open>Writes to the register file keep the harness consistent\<close>

lemma device_reset_frame:
  assumes "device_inv d"
  shows "device_inv (the (snd (att1_aimu_device_reset (Some d))))"
    "dev_tile_count (the (snd (att1_aimu_device_reset (Some d)))) = dev_tile_count d"
    "dev_register_map_version (the (snd (att1_aimu_device_reset (Some d)))) = dev_register_map_version d"
  using reset_inv [OF assms reset_eq [OF assms]] by (simp_all add: reset_eq [OF assms])

lemma device_reset_tile_frame:
  assumes "device_inv d"
  shows "device_inv (the (snd (att1_aimu_device_reset_tile (Some d) t)))"
    "dev_tile_count (the (snd (att1_aimu_device_reset_tile (Some d) t))) = dev_tile_count d"
    "dev_register_map_version (the (snd (att1_aimu_device_reset_tile (Some d) t))) = dev_register_map_version d"
proof -
  obtain st d' where e: "att1_aimu_device_reset_tile (Some d) t = (st, Some d')"
    by (simp add: att1_aimu_device_reset_tile_def)
  then show "device_inv (the (snd (att1_aimu_device_reset_tile (Some d) t)))"
    using reset_tile_inv [OF assms e] by simp
qed (simp_all add: att1_aimu_device_reset_tile_def Let_def)

definition devices_agree :: "'ctx aimu_world \<Rightarrow> 'ctx aimu_world \<Rightarrow> bool" where
  "devices_agree w w' \<longleftrightarrow> w_cmdq w' = w_cmdq w \<and>
     (\<forall>a. device_inv (w_device w a) \<longrightarrow> device_inv (w_device w' a)
        \<and> dev_tile_count (w_device w' a) = dev_tile_count (w_device w a)
        \<and> dev_register_map_version (w_device w' a) = dev_register_map_version (w_device w a))"

lemma devices_agree_simps [simp]:
  "devices_agree w w" "devices_agree w (w\<lparr>w_trace := t\<rparr>)"
  "devices_agree w (w\<lparr>w_device := (w_device w)(a := the (snd (att1_aimu_device_reset (Some (w_device w a)))))\<rparr>)"
  "devices_agree w (w\<lparr>w_device := (w_device w)(a := the (snd (att1_aimu_device_reset_tile (Some (w_device w a)) n)))\<rparr>)"
  "devices_agree w (w\<lparr>w_device := (w_device w)(a := the (snd (att1_aimu_device_reset (Some (w_device w a))))), w_trace := tr\<rparr>)"
  using device_reset_frame device_reset_tile_frame by (auto simp: devices_agree_def)

text \<open>A register file without its registers.\<close>

definition bare :: "att1_aimu_mmio \<Rightarrow> att1_aimu_mmio" where
  "bare m = m\<lparr>mm_regs := (\<lambda>_. 0)\<rparr>"

lemma bare_update [simp]:
  "bare (m\<lparr>mm_regs := r\<rparr>) = bare m" "bare (m\<lparr>mm_doorbell_write_count := k\<rparr>) = (bare m)\<lparr>mm_doorbell_write_count := k\<rparr>"
  "bare (m\<lparr>mm_snapshot_trigger_count := k\<rparr>) = (bare m)\<lparr>mm_snapshot_trigger_count := k\<rparr>"
  "bare (reg_set off v m) = bare m" "bare (m\<lparr>mm_cmdq := q\<rparr>) = (bare m)\<lparr>mm_cmdq := q\<rparr>"
  by (simp_all add: bare_def reg_set_def)

lemma bare_set_all [simp]: "bare (reg_set_all ws m) = bare m"
  by (induction ws arbitrary: m) (auto simp: reg_set_all_def)

lemma bare_sync [simp]:
  "bare (sync_from_trace w m) = bare m" "bare (sync_from_cmdq w m) = bare m" "bare (sync_from_device w m) = bare m"
  "bare (mmio_set_defaults m) = bare m" "bare (mmio_clear_counters m) = bare m" "bare (mmio_global_control v m) = bare m"
proof -
  show "bare (sync_from_trace w m) = bare m" "bare (sync_from_cmdq w m) = bare m" "bare (mmio_set_defaults m) = bare m"
    "bare (mmio_clear_counters m) = bare m" "bare (mmio_global_control v m) = bare m"
    by (simp_all add: sync_from_trace_def sync_from_cmdq_def mmio_set_defaults_def mmio_clear_counters_def
        mmio_global_control_def Let_def split: option.split)
  have "bare (fold (sync_tile ff dev) ns m) = bare m" for ff dev ns m
    by (induction ns arbitrary: m) (simp_all add: sync_tile_def)
  then show "bare (sync_from_device w m) = bare m"
    by (auto simp: sync_from_device_def Let_def split: option.split prod.split att1_status.split)
qed

lemma bare_fields:
  assumes "bare m1 = bare m2"
  shows "mm_magic m1 = mm_magic m2" "mm_device m1 = mm_device m2" "mm_cmdq m1 = mm_cmdq m2" "mm_trace m1 = mm_trace m2"
    "mm_doorbell_write_count m1 = mm_doorbell_write_count m2" "mm_snapshot_trigger_count m1 = mm_snapshot_trigger_count m2"
proof -
  have f: "mm_magic (bare m) = mm_magic m \<and> mm_device (bare m) = mm_device m \<and> mm_cmdq (bare m) = mm_cmdq m
    \<and> mm_trace (bare m) = mm_trace m \<and> mm_doorbell_write_count (bare m) = mm_doorbell_write_count m
    \<and> mm_snapshot_trigger_count (bare m) = mm_snapshot_trigger_count m" for m by (simp add: bare_def)
  show "mm_magic m1 = mm_magic m2" "mm_device m1 = mm_device m2" "mm_cmdq m1 = mm_cmdq m2" "mm_trace m1 = mm_trace m2"
    "mm_doorbell_write_count m1 = mm_doorbell_write_count m2" "mm_snapshot_trigger_count m1 = mm_snapshot_trigger_count m2"
    using f [of m1] f [of m2] assms by simp_all
qed

text \<open>The registers do not influence what a write does to the devices and the trace.\<close>

lemma wo_write_bare:
  assumes "bare m1 = bare m2"
  shows "\<exists>st w' m1' m2'. mmio_wo_write w m1 off v = (st, w', m1') \<and> mmio_wo_write w m2 off v = (st, w', m2') \<and> bare m1' = bare m2'"
  using assms bare_fields [OF assms]
  by (auto simp: mmio_wo_write_def mmio_reset_tile_def mmio_reset_control_def Let_def split: if_splits option.splits prod.splits)

lemma snapshot_write_bare:
  assumes "bare m1 = bare m2"
  shows "\<exists>w' m1' m2'. mmio_snapshot_write w m1 off v = (w', m1') \<and> mmio_snapshot_write w m2 off v = (w', m2') \<and> bare m1' = bare m2'"
  using assms bare_fields [OF assms]
  by (auto simp: mmio_snapshot_write_def Let_def split: if_splits option.splits prod.splits)

lemma write32_bare:
  assumes "bare m1 = bare m2"
  shows "\<exists>st w' m1' m2'. att1_aimu_mmio_write32 w (Some m1) off v = (st, w', Some m1')
    \<and> att1_aimu_mmio_write32 w (Some m2) off v = (st, w', Some m2') \<and> bare m1' = bare m2'"
proof -
  obtain st w' m1' m2' where wo: "mmio_wo_write w m1 off v = (st, w', m1')" "mmio_wo_write w m2 off v = (st, w', m2')" "bare m1' = bare m2'"
    using wo_write_bare [OF assms] by blast
  obtain w2 n1 n2 where sn: "mmio_snapshot_write w m1 off v = (w2, n1)" "mmio_snapshot_write w m2 off v = (w2, n2)" "bare n1 = bare n2"
    using snapshot_write_bare [OF assms] by blast
  show ?thesis
    using wo sn assms bare_fields(1) [OF assms] by (cases "mmio_access_type off") (auto simp: att1_aimu_mmio_write32_def)
qed

lemma write32_devices:
  assumes "att1_aimu_mmio_write32 w (Some m) off v = (st, w', Some m')"
  shows "devices_agree w w'"
proof -
  have "devices_agree w (fst (snd (mmio_wo_write w m off v)))"
    by (simp add: mmio_wo_write_def mmio_reset_tile_def mmio_reset_control_def Let_def split: option.split)
  moreover have "devices_agree w (fst (mmio_snapshot_write w m off v))"
    by (simp add: mmio_snapshot_write_def Let_def split: option.split)
  ultimately show ?thesis using assms by (auto simp: att1_aimu_mmio_write32_def split: if_splits reg_access.splits prod.splits)
qed

lemma write32_fields:
  assumes "att1_aimu_mmio_write32 w (Some m) off v = (st, w', Some m')"
  shows "mm_magic m' = mm_magic m \<and> mm_device m' = mm_device m \<and> mm_cmdq m' = mm_cmdq m \<and> mm_trace m' = mm_trace m"
proof -
  let ?P = "\<lambda>m'. mm_magic m' = mm_magic m \<and> mm_device m' = mm_device m \<and> mm_cmdq m' = mm_cmdq m \<and> mm_trace m' = mm_trace m"
  have "?P (snd (snd (mmio_wo_write w m off v)))"
    by (simp add: mmio_wo_write_def mmio_reset_tile_def mmio_reset_control_def mmio_clear_counters_def mmio_global_control_def
        reg_set_def reg_set_all_def Let_def split: option.split)
  moreover have "?P (snd (mmio_snapshot_write w m off v))"
    by (simp add: mmio_snapshot_write_def reg_set_def Let_def split: option.split)
  ultimately show ?thesis
    using assms by (auto simp: att1_aimu_mmio_write32_def reg_set_def split: if_splits reg_access.splits prod.splits)
qed

lemma host_write_inv:
  assumes "host_inv w h" "att1_aimu_mmio_write32 w (Some (h_mmio h)) off v = (st, w', Some m')"
  shows "host_inv w' (h\<lparr>h_mmio := m'\<rparr>)"
  using assms(1) write32_fields [OF assms(2)] write32_devices [OF assms(2)] by (auto simp: host_inv_def devices_agree_def)

section \<open>Programs over the emulator\<close>

datatype us_call =
    CallProbe bool | CallEnumerate bool "size_t option" | CallSetup | CallRead u32 bool | CallWrite u32 u32
  | CallDma "att1_aimu_dma_desc option" | CallSubmit "att1_aimu_cmd option" | CallDoorbell | CallDrain
  | CallSnapshot | CallSummary bool | CallFlush

datatype us_answer =
    Done att1_status
  | GotProbe att1_status "att1_aimu_host_probe_result option"
  | GotTiles att1_status "att1_aimu_host_tile_info list" "size_t option"
  | GotCmd att1_status "att1_aimu_cmd option"
  | GotValue att1_status "u32 option"
  | GotSummary att1_status "att1_aimu_host_summary option"

fun us_do :: "'ctx aimu_world \<Rightarrow> att1_aimu_userspace \<Rightarrow> us_call \<Rightarrow> us_answer \<times> 'ctx aimu_world \<times> att1_aimu_userspace" where
  "us_do w u (CallProbe ok) = (let (st, u', p) = att1_aimu_userspace_probe w (Some u) ok in (GotProbe st p, w, the u'))"
| "us_do w u (CallEnumerate ok c) =
     (let (st, u', is, c') = att1_aimu_userspace_enumerate_tiles w (Some u) ok c in (GotTiles st is c', w, the u'))"
| "us_do w u CallSetup = (let (st, w', u') = att1_aimu_userspace_setup_cmdq w (Some u) in (Done st, w', the u'))"
| "us_do w u (CallRead off ok) = (let (st, v) = att1_aimu_userspace_read32 (Some u) off ok in (GotValue st v, w, u))"
| "us_do w u (CallWrite off v) = (let (st, w', u') = att1_aimu_userspace_write32 w (Some u) off v in (Done st, w', the u'))"
| "us_do w u (CallDma d) = (Done (att1_aimu_userspace_validate_dma (Some u) d), w, u)"
| "us_do w u (CallSubmit c) = (let (st, w', u', c') = att1_aimu_userspace_submit_cmd w (Some u) c in (GotCmd st c', w', the u'))"
| "us_do w u CallDoorbell = (let (st, w', u') = att1_aimu_userspace_ring_doorbell w (Some u) in (Done st, w', the u'))"
| "us_do w u CallDrain = (let (st, w', u') = att1_aimu_userspace_drain w (Some u) in (Done st, w', the u'))"
| "us_do w u CallSnapshot = (let (st, w', u') = att1_aimu_userspace_snapshot w (Some u) in (Done st, w', the u'))"
| "us_do w u (CallSummary ok) = (let (st, s) = att1_aimu_userspace_get_summary w (Some u) ok in (GotSummary st s, w, u))"
| "us_do w u CallFlush = (let (st, u') = att1_aimu_userspace_flush_bar0 w (Some u) in (Done st, w, the u'))"

fun us_run :: "'ctx aimu_world \<Rightarrow> att1_aimu_userspace \<Rightarrow> us_call list \<Rightarrow> us_answer list \<times> 'ctx aimu_world \<times> att1_aimu_userspace" where
  "us_run w u [] = ([], w, u)"
| "us_run w u (c # cs) = (let (a, w1, u1) = us_do w u c; (as, w2, u2) = us_run w1 u1 cs in (a # as, w2, u2))"

definition us_inv :: "'ctx aimu_world \<Rightarrow> att1_aimu_userspace \<Rightarrow> bool" where
  "us_inv w u \<longleftrightarrow> u_magic u = USERSPACE_MAGIC \<and> host_inv w (u_host u)"

definition us_mirrored :: "att1_aimu_userspace \<Rightarrow> bool" where
  "us_mirrored u \<longleftrightarrow> (case u_bar0_map u of None \<Rightarrow> True | Some r \<Rightarrow> r = mm_regs (h_mmio (u_host u)))"

lemma flush_inv [simp]: "us_inv w (flush_bar0 w u) = us_inv w u"
proof -
  have "host_inv w (snd (host_sync w h)) = host_inv w h" for h by (simp add: host_sync_eq host_inv_def)
  then show ?thesis by (simp add: us_inv_def flush_bar0_def Let_def split: option.split)
qed

lemma flush_mirrored [simp]: "us_mirrored (flush_bar0 w u)"
  by (simp add: us_mirrored_def flush_bar0_def Let_def split: option.split)

lemma flush_map [simp]: "(u_bar0_map (flush_bar0 w u) = None) = (u_bar0_map u = None)"
  by (simp add: flush_bar0_def Let_def split: option.split)

lemma not_bad [simp]: "u_magic u = USERSPACE_MAGIC \<Longrightarrow> userspace_bad (Some u) = False"
  by (simp add: userspace_bad_def)

lemmas userspace_ops = att1_aimu_userspace_probe_def att1_aimu_userspace_enumerate_tiles_def att1_aimu_userspace_setup_cmdq_def
  att1_aimu_userspace_read32_def att1_aimu_userspace_write32_def att1_aimu_userspace_validate_dma_def
  att1_aimu_userspace_submit_cmd_def att1_aimu_userspace_ring_doorbell_def att1_aimu_userspace_drain_def
  att1_aimu_userspace_snapshot_def att1_aimu_userspace_get_summary_def att1_aimu_userspace_flush_bar0_def

text \<open>
  What an operation does to the harness, and that the mirror follows: a failed operation leaves the
  registers alone, a successful one copies them. \<open>us_acts\<close> describes the three shapes of an operation.
\<close>

definition us_acts :: "'ctx aimu_world \<Rightarrow> att1_aimu_userspace \<Rightarrow> 'ctx aimu_world \<Rightarrow> att1_aimu_userspace \<Rightarrow> bool" where
  "us_acts w u w' u' \<longleftrightarrow>
     (\<exists>h. host_inv w' h \<and> h_mmio h = h_mmio (u_host u) \<and> u' = u\<lparr>u_host := h\<rparr>)
     \<or> (\<exists>u1. host_inv w' (u_host u1) \<and> u_magic u1 = u_magic u \<and> u_bar0_map u1 = u_bar0_map u \<and> u' = flush_bar0 w' u1)"

lemma us_actsD:
  assumes "us_acts w u w' u'" "us_inv w u"
  shows "us_inv w' u'" "us_mirrored u \<Longrightarrow> us_mirrored u'" "(u_bar0_map u' = None) = (u_bar0_map u = None)"
proof -
  have g: "u_magic u = USERSPACE_MAGIC" using assms(2) by (simp add: us_inv_def)
  consider (kept) h where "host_inv w' h" "h_mmio h = h_mmio (u_host u)" "u' = u\<lparr>u_host := h\<rparr>"
    | (flushed) u1 where "host_inv w' (u_host u1)" "u_magic u1 = u_magic u" "u_bar0_map u1 = u_bar0_map u" "u' = flush_bar0 w' u1"
    using assms(1) unfolding us_acts_def by blast
  then have "us_inv w' u' \<and> (us_mirrored u \<longrightarrow> us_mirrored u') \<and> (u_bar0_map u' = None) = (u_bar0_map u = None)"
  proof cases
    case kept
    then show ?thesis using g by (simp add: us_inv_def us_mirrored_def split: option.split)
  next
    case flushed
    then have "us_inv w' u1" using g by (simp add: us_inv_def)
    then show ?thesis unfolding flushed(4) using flushed(3) by simp
  qed
  then show "us_inv w' u'" "us_mirrored u \<Longrightarrow> us_mirrored u'" "(u_bar0_map u' = None) = (u_bar0_map u = None)" by blast+
qed

lemma us_acts_kept: "host_inv w' h \<Longrightarrow> h_mmio h = h_mmio (u_host u) \<Longrightarrow> us_acts w u w' (u\<lparr>u_host := h\<rparr>)"
  unfolding us_acts_def by blast

lemma us_acts_same: "host_inv w' (u_host u) \<Longrightarrow> us_acts w u w' u"
  using us_acts_kept [of w' "u_host u" u w] by simp

lemma us_acts_flushed:
  "host_inv w' (u_host u1) \<Longrightarrow> u_magic u1 = u_magic u \<Longrightarrow> u_bar0_map u1 = u_bar0_map u \<Longrightarrow> us_acts w u w' (flush_bar0 w' u1)"
  unfolding us_acts_def by blast

lemma us_acts_step:
  assumes "us_inv w u" "host_step w (u_host u) w' h"
  shows "h_mmio h = h_mmio (u_host u) \<Longrightarrow> us_acts w u w' (u\<lparr>u_host := h\<rparr>)"
    and "u_host u1 = h \<Longrightarrow> u_magic u1 = u_magic u \<Longrightarrow> u_bar0_map u1 = u_bar0_map u \<Longrightarrow> us_acts w u w' (flush_bar0 w' u1)"
proof -
  have "host_inv w' h" using host_step_inv [OF assms(2)] assms(1) by (simp add: us_inv_def)
  then show "h_mmio h = h_mmio (u_host u) \<Longrightarrow> us_acts w u w' (u\<lparr>u_host := h\<rparr>)"
    and "u_host u1 = h \<Longrightarrow> u_magic u1 = u_magic u \<Longrightarrow> u_bar0_map u1 = u_bar0_map u \<Longrightarrow> us_acts w u w' (flush_bar0 w' u1)"
    by (auto intro: us_acts_kept us_acts_flushed)
qed

lemma write32_refused: "att1_aimu_mmio_write32 w (Some m) off v = (st, w', Some m') \<Longrightarrow> st \<noteq> ATT1_OK \<Longrightarrow> w' = w \<and> m' = m"
  by (auto simp: att1_aimu_mmio_write32_def dest: wo_write_magic split: if_splits reg_access.splits prod.splits)

lemma us_do_acts:
  assumes "us_inv w u" "us_do w u c = (a, w', u')"
  shows "us_acts w u w' u'"
proof -
  have m: "u_magic u = USERSPACE_MAGIC" and i: "host_inv w (u_host u)" using assms(1) by (simp_all add: us_inv_def)
  note b = not_bad [OF m] and st = us_acts_step [OF assms(1)] and d = assms(2)
  let ?h = "u_host u"
  show ?thesis
  proof (cases c)
    case (CallProbe ok)
    obtain h p where h: "att1_aimu_host_probe_device w (Some ?h) True = (ATT1_OK, Some h, p)"
      using host_probe_ok [OF i, of True] by (simp add: Let_def)
    show ?thesis using d h b st(2) [OF host_step.probe [OF h]] by (auto simp: CallProbe att1_aimu_userspace_probe_def)
  next
    case (CallEnumerate ok k)
    then show ?thesis using d b i by (auto simp: att1_aimu_userspace_enumerate_tiles_def split: prod.splits if_splits
          intro: us_acts_same us_acts_flushed)
  next
    case CallSetup
    show ?thesis
    proof (cases "h_probed ?h")
      case True
      obtain w1 h where h: "att1_aimu_host_setup_cmdq w (Some ?h) = (ATT1_OK, w1, Some h)" using host_setup_ok [OF i True] by simp
      show ?thesis using d h b st(2) [OF host_step.attach [OF h]] by (auto simp: CallSetup att1_aimu_userspace_setup_cmdq_def)
    next
      case False
      then show ?thesis using d b us_acts_same [OF i]
        by (auto simp: CallSetup att1_aimu_userspace_setup_cmdq_def att1_aimu_host_setup_cmdq_def)
    qed
  next
    case (CallWrite off v)
    obtain s1 w1 m1 where h: "att1_aimu_mmio_write32 w (Some (h_mmio ?h)) off v = (s1, w1, Some m1)"
      using write32_bare [OF refl] by blast
    have i1: "host_inv w1 (?h\<lparr>h_mmio := m1\<rparr>)" by (rule host_write_inv [OF i h])
    show ?thesis
    proof (cases "s1 = ATT1_OK")
      case True
      then show ?thesis using d h b i1 by (auto simp: CallWrite att1_aimu_userspace_write32_def intro: us_acts_flushed)
    next
      case False
      then show ?thesis using d h b write32_refused [OF h False] us_acts_same [OF i]
        by (auto simp: CallWrite att1_aimu_userspace_write32_def)
    qed
  next
    case (CallSubmit k)
    then show ?thesis
    proof (cases k)
      case (Some c)
      obtain s1 w1 c1 where h: "att1_aimu_host_submit_cmd w (Some ?h) (Some c) = (s1, w1, c1)" by (metis prod_cases3)
      show ?thesis using d h b st(1) [OF host_step.submit [OF h]] st(2) [OF host_step.submit [OF h]]
        by (auto simp: CallSubmit Some att1_aimu_userspace_submit_cmd_def split: if_splits)
    qed (use d b us_acts_same [OF i] in \<open>auto simp: att1_aimu_userspace_submit_cmd_def\<close>)
  next
    case CallDoorbell
    show ?thesis
    proof (cases "h_cmdq_ready ?h")
      case True
      obtain h where h: "att1_aimu_host_ring_doorbell w (Some ?h) = (ATT1_OK, w, Some h)" using host_doorbell_eq [OF i True] by simp
      show ?thesis using d h b st(2) [OF host_step.doorbell [OF h]] by (auto simp: CallDoorbell att1_aimu_userspace_ring_doorbell_def)
    next
      case False
      then show ?thesis using d b us_acts_same [OF i]
        by (auto simp: CallDoorbell att1_aimu_userspace_ring_doorbell_def att1_aimu_host_ring_doorbell_def)
    qed
  next
    case CallDrain
    obtain s1 w1 where h: "att1_aimu_host_drain w (Some ?h) = (s1, w1)" by fastforce
    show ?thesis using d h b st(1) [OF host_step.drain [OF h]] st(2) [OF host_step.drain [OF h]]
      by (auto simp: CallDrain att1_aimu_userspace_drain_def split: if_splits)
  next
    case CallSnapshot
    obtain w1 h where h: "att1_aimu_host_snapshot_counters w (Some ?h) = (ATT1_OK, w1, Some h)"
      by (auto simp: att1_aimu_host_snapshot_counters_def snapshot_all_eq host_sync_eq Let_def)
    show ?thesis using d h b st(2) [OF host_step.snapshot [OF h]] by (auto simp: CallSnapshot att1_aimu_userspace_snapshot_def)
  qed (use d b i in \<open>auto simp: att1_aimu_userspace_flush_bar0_def split: prod.splits intro: us_acts_same us_acts_flushed\<close>)
qed

lemma us_run_inv:
  assumes "us_inv w u" "us_mirrored u" "us_run w u cs = (as, w', u')"
  shows "us_inv w' u' \<and> us_mirrored u' \<and> (u_bar0_map u' = None) = (u_bar0_map u = None)"
  using assms
proof (induction cs arbitrary: w u as)
  case (Cons c cs)
  obtain a w1 u1 where d: "us_do w u c = (a, w1, u1)" by (metis prod_cases3)
  obtain as' where r: "us_run w1 u1 cs = (as', w', u')" using Cons.prems(3) d by (auto split: prod.splits)
  note s = us_actsD [OF us_do_acts [OF Cons.prems(1) d] Cons.prems(1)]
  show ?case using Cons.IH [OF s(1) s(2) [OF Cons.prems(2)] r] s(3) by simp
qed auto

section \<open>The file does not change what is computed\<close>

definition host_sim :: "att1_aimu_host \<Rightarrow> att1_aimu_host \<Rightarrow> bool" where
  "host_sim h1 h2 \<longleftrightarrow> (\<exists>m. h2 = h1\<lparr>h_mmio := m\<rparr> \<and> bare m = bare (h_mmio h1))"

definition us_sim :: "att1_aimu_userspace \<Rightarrow> att1_aimu_userspace \<Rightarrow> bool" where
  "us_sim u1 u2 \<longleftrightarrow> (\<exists>h x y. u2 = u1\<lparr>u_host := h, u_bar0_map := x, u_bar0_path := y\<rparr> \<and> host_sim (u_host u1) h)"

lemma host_sim_fields:
  assumes "host_sim h1 h2"
  shows "h_magic h2 = h_magic h1" "h_device h2 = h_device h1" "h_cmdq h2 = h_cmdq h1" "h_dma h2 = h_dma h1" "h_trace h2 = h_trace h1"
    "h_probe h2 = h_probe h1" "h_last_error h2 = h_last_error h1" "h_probed h2 = h_probed h1" "h_cmdq_ready h2 = h_cmdq_ready h1"
    "bare (h_mmio h2) = bare (h_mmio h1)"
  using assms by (auto simp: host_sim_def)

lemma host_simI:
  "h_magic h2 = h_magic h1 \<Longrightarrow> h_device h2 = h_device h1 \<Longrightarrow> h_cmdq h2 = h_cmdq h1 \<Longrightarrow> h_dma h2 = h_dma h1 \<Longrightarrow> h_trace h2 = h_trace h1
   \<Longrightarrow> h_probe h2 = h_probe h1 \<Longrightarrow> h_last_error h2 = h_last_error h1 \<Longrightarrow> h_probed h2 = h_probed h1 \<Longrightarrow> h_cmdq_ready h2 = h_cmdq_ready h1
   \<Longrightarrow> bare (h_mmio h2) = bare (h_mmio h1) \<Longrightarrow> host_sim h1 h2"
  unfolding host_sim_def by (intro exI [of _ "h_mmio h2"]) simp

lemma us_sim_fields:
  assumes "us_sim u1 u2"
  shows "u_magic u2 = u_magic u1" "u_probed u2 = u_probed u1" "u_cmdq_ready u2 = u_cmdq_ready u1" "host_sim (u_host u1) (u_host u2)"
  using assms by (auto simp: us_sim_def)

lemma us_simI:
  "u_magic u2 = u_magic u1 \<Longrightarrow> u_probed u2 = u_probed u1 \<Longrightarrow> u_cmdq_ready u2 = u_cmdq_ready u1 \<Longrightarrow> host_sim (u_host u1) (u_host u2)
   \<Longrightarrow> us_sim u1 u2"
  unfolding us_sim_def by (intro exI [of _ "u_host u2"] exI [of _ "u_bar0_map u2"] exI [of _ "u_bar0_path u2"]) simp

lemma host_sync_sim: "host_sim h1 h2 \<Longrightarrow> host_sim (snd (host_sync w h1)) (snd (host_sync w h2))"
  by (rule host_simI) (simp_all add: host_sync_eq host_sim_fields)

lemma flush_sim: "us_sim u1 u2 \<Longrightarrow> us_sim (flush_bar0 w u1) (flush_bar0 w u2)"
proof -
  assume s: "us_sim u1 u2"
  have k: "host_sim h (snd (host_sync w h))" "host_sim (snd (host_sync w h)) h" for h
    by (rule host_simI; simp add: host_sync_eq)+
  have t: "host_sim a c" if "host_sim a b" "host_sim b c" for a b c
    by (rule host_simI) (simp_all add: host_sim_fields [OF that(1)] host_sim_fields [OF that(2)])
  have "host_sim (u_host (flush_bar0 w u1)) (u_host (flush_bar0 w u2))"
    using us_sim_fields(4) [OF s] k t by (simp add: flush_bar0_def Let_def split: option.split) blast
  then show ?thesis using us_sim_fields(1-3) [OF s] by (intro us_simI) (simp_all add: flush_bar0_def Let_def split: option.split)
qed

text \<open>The operations of the harness on two hosts that differ in their registers only.\<close>

lemma host_probe_sim:
  assumes "host_sim h1 h2" "host_inv w h1" "host_inv w h2"
  shows "\<exists>h1' h2' p. att1_aimu_host_probe_device w (Some h1) ok = (ATT1_OK, Some h1', p)
    \<and> att1_aimu_host_probe_device w (Some h2) ok = (ATT1_OK, Some h2', p) \<and> host_sim h1' h2'"
  using host_sim_fields [OF host_sync_sim [OF assms(1), of w]] host_sim_fields [OF assms(1)]
  unfolding host_probe_ok [OF assms(2)] host_probe_ok [OF assms(3)] by (auto simp: Let_def intro!: host_simI)

lemma host_setup_sim:
  assumes "host_sim h1 h2"
  shows "\<exists>st w' h1' h2'. att1_aimu_host_setup_cmdq w (Some h1) = (st, w', Some h1')
    \<and> att1_aimu_host_setup_cmdq w (Some h2) = (st, w', Some h2') \<and> host_sim h1' h2'"
  using assms host_sim_fields [OF assms] by (auto simp: att1_aimu_host_setup_cmdq_def att1_aimu_device_attach_cmdq_def
      att1_aimu_mmio_attach_cmdq_def host_sync_eq Let_def intro!: host_simI)

lemma host_doorbell_sim:
  assumes "host_sim h1 h2"
  shows "\<exists>st w' h1' h2'. att1_aimu_host_ring_doorbell w (Some h1) = (st, w', Some h1')
    \<and> att1_aimu_host_ring_doorbell w (Some h2) = (st, w', Some h2') \<and> host_sim h1' h2'"
proof -
  note f = host_sim_fields [OF assms]
  show ?thesis
    using write32_bare [OF f(10), of w MMIO_CQ_DOORBELL "ucast (q_cmd_tail (w_cmdq w (h_cmdq h1)))"] assms f
    by (auto simp: att1_aimu_host_ring_doorbell_def intro!: host_simI)
qed

lemma host_snapshot_sim:
  assumes "host_sim h1 h2"
  shows "\<exists>w' h1' h2'. att1_aimu_host_snapshot_counters w (Some h1) = (ATT1_OK, w', Some h1')
    \<and> att1_aimu_host_snapshot_counters w (Some h2) = (ATT1_OK, w', Some h2') \<and> host_sim h1' h2'"
  using host_sync_sim [OF assms] host_sim_fields [OF assms]
  by (auto simp: att1_aimu_host_snapshot_counters_def snapshot_all_eq Let_def host_sync_eq split del: if_split)

lemma host_summary_sim:
  assumes "host_sim h1 h2"
  shows "att1_aimu_host_get_summary w (Some h2) ok = att1_aimu_host_get_summary w (Some h1) ok"
  using host_sim_fields [OF assms] bare_fields(5,6) [OF host_sim_fields(10) [OF assms]]
  by (simp add: att1_aimu_host_get_summary_def zero_summary_of_def att1_aimu_cmdq_get_counters_def
      att1_aimu_dma_get_counters_def att1_aimu_trace_get_snapshot_def Let_def)

lemma us_sim_host: "us_sim u1 u2 \<Longrightarrow> host_sim h1 h2 \<Longrightarrow> us_sim (u1\<lparr>u_host := h1\<rparr>) (u2\<lparr>u_host := h2\<rparr>)"
  by (rule us_simI) (simp_all add: us_sim_fields)

text \<open>One call, made through two handles that differ in the file and the registers only.\<close>

lemma us_do_sim:
  fixes w :: "'a aimu_world"
  assumes s: "us_sim u1 u2" and i: "us_inv w u1" "us_inv w u2" and c: "\<And>off ok. c \<noteq> CallRead off ok"
  shows "\<exists>a w' u1' u2'. us_do w u1 c = (a, w', u1') \<and> us_do w u2 c = (a, w', u2') \<and> us_sim u1' u2'"
proof -
  have hi: "host_inv w (u_host u1)" "host_inv w (u_host u2)" and m: "u_magic u1 = USERSPACE_MAGIC" "u_magic u2 = USERSPACE_MAGIC"
    using i by (simp_all add: us_inv_def)
  note b = not_bad [OF m(1)] not_bad [OF m(2)] and f = us_sim_fields [OF s]
  note hf = host_sim_fields [OF f(4)]
  have fl: "us_sim (flush_bar0 v a) (flush_bar0 v b)" if "us_sim a b" for a b and v :: "'a aimu_world" by (rule flush_sim [OF that])
  show ?thesis
  proof (cases c)
    case (CallProbe ok)
    obtain h1 h2 p where h: "att1_aimu_host_probe_device w (Some (u_host u1)) True = (ATT1_OK, Some h1, p)"
      "att1_aimu_host_probe_device w (Some (u_host u2)) True = (ATT1_OK, Some h2, p)" "host_sim h1 h2"
      using host_probe_sim [OF f(4) hi] by blast
    have "us_sim (u1\<lparr>u_host := h1, u_probed := True\<rparr>) (u2\<lparr>u_host := h2, u_probed := True\<rparr>)"
      by (rule us_simI) (simp_all add: f h(3))
    then show ?thesis using h b fl by (simp add: CallProbe att1_aimu_userspace_probe_def Let_def)
  next
    case (CallEnumerate ok k)
    have e: "att1_aimu_host_enumerate_tiles w (Some (u_host u2)) ok k = att1_aimu_host_enumerate_tiles w (Some (u_host u1)) ok k" for ok
      by (simp add: att1_aimu_host_enumerate_tiles_def hf split: option.split)
    show ?thesis using b s fl [OF s] e by (simp add: CallEnumerate att1_aimu_userspace_enumerate_tiles_def split: prod.split)
  next
    case CallSetup
    obtain st w' h1 h2 where h: "att1_aimu_host_setup_cmdq w (Some (u_host u1)) = (st, w', Some h1)"
      "att1_aimu_host_setup_cmdq w (Some (u_host u2)) = (st, w', Some h2)" "host_sim h1 h2"
      using host_setup_sim [OF f(4)] by blast
    have "us_sim (u1\<lparr>u_host := h1, u_cmdq_ready := True\<rparr>) (u2\<lparr>u_host := h2, u_cmdq_ready := True\<rparr>)"
      by (rule us_simI) (simp_all add: f h(3))
    then show ?thesis using h b fl us_sim_host [OF s h(3)] by (simp add: CallSetup att1_aimu_userspace_setup_cmdq_def Let_def)
  next
    case (CallWrite off v)
    obtain st w' m1 m2 where h: "att1_aimu_mmio_write32 w (Some (h_mmio (u_host u1))) off v = (st, w', Some m1)"
      "att1_aimu_mmio_write32 w (Some (h_mmio (u_host u2))) off v = (st, w', Some m2)" "bare m1 = bare m2"
      using write32_bare [OF hf(10) [symmetric]] by blast
    have "host_sim ((u_host u1)\<lparr>h_mmio := m1\<rparr>) ((u_host u2)\<lparr>h_mmio := m2\<rparr>)" by (rule host_simI) (simp_all add: hf h(3))
    from us_sim_host [OF s this] show ?thesis using h b fl by (simp add: CallWrite att1_aimu_userspace_write32_def Let_def)
  next
    case (CallSubmit k)
    have e: "att1_aimu_host_submit_cmd w (Some (u_host u2)) k = att1_aimu_host_submit_cmd w (Some (u_host u1)) k"
      by (simp add: att1_aimu_host_submit_cmd_def hf split: option.split)
    show ?thesis using b s fl [OF s] e by (simp add: CallSubmit att1_aimu_userspace_submit_cmd_def split: prod.split)
  next
    case CallDoorbell
    obtain st w' h1 h2 where h: "att1_aimu_host_ring_doorbell w (Some (u_host u1)) = (st, w', Some h1)"
      "att1_aimu_host_ring_doorbell w (Some (u_host u2)) = (st, w', Some h2)" "host_sim h1 h2"
      using host_doorbell_sim [OF f(4)] by blast
    show ?thesis using h b fl us_sim_host [OF s h(3)] by (simp add: CallDoorbell att1_aimu_userspace_ring_doorbell_def Let_def)
  next
    case CallDrain
    have e: "att1_aimu_host_drain w (Some (u_host u2)) = att1_aimu_host_drain w (Some (u_host u1))"
      by (simp add: att1_aimu_host_drain_def host_on_cmdq_def hf)
    show ?thesis using b s fl [OF s] e by (auto simp: CallDrain att1_aimu_userspace_drain_def split: prod.split)
  next
    case CallSnapshot
    obtain w' h1 h2 where h: "att1_aimu_host_snapshot_counters w (Some (u_host u1)) = (ATT1_OK, w', Some h1)"
      "att1_aimu_host_snapshot_counters w (Some (u_host u2)) = (ATT1_OK, w', Some h2)" "host_sim h1 h2"
      using host_snapshot_sim [OF f(4)] by blast
    show ?thesis using h b fl [OF us_sim_host [OF s h(3)]] by (simp add: CallSnapshot att1_aimu_userspace_snapshot_def Let_def)
  next
    case (CallSummary ok)
    then show ?thesis using b s host_summary_sim [OF f(4), of w] by (simp add: att1_aimu_userspace_get_summary_def split: prod.split)
  next
    case (CallDma k)
    then show ?thesis using b s hf(4) by (simp add: att1_aimu_userspace_validate_dma_def att1_aimu_host_validate_dma_def split: option.split)
  next
    case CallFlush
    then show ?thesis using b fl [OF s] by (simp add: att1_aimu_userspace_flush_bar0_def)
  qed (use c in blast)
qed

lemma us_run_sim:
  assumes "us_sim u1 u2" "us_inv w u1" "us_inv w u2" "\<And>off ok. CallRead off ok \<notin> set cs"
  shows "\<exists>as w' u1' u2'. us_run w u1 cs = (as, w', u1') \<and> us_run w u2 cs = (as, w', u2')"
  using assms
proof (induction cs arbitrary: w u1 u2)
  case (Cons c cs)
  have "\<And>off ok. c \<noteq> CallRead off ok" using Cons.prems(4) by (metis list.set_intros(1))
  then obtain a w' u1' u2' where d: "us_do w u1 c = (a, w', u1')" "us_do w u2 c = (a, w', u2')" "us_sim u1' u2'"
    using us_do_sim [OF Cons.prems(1-3)] by blast
  have i: "us_inv w' u1'" "us_inv w' u2'"
    using us_actsD(1) [OF us_do_acts [OF Cons.prems(2) d(1)] Cons.prems(2)] us_actsD(1) [OF us_do_acts [OF Cons.prems(3) d(2)] Cons.prems(3)] .
  have "\<And>off ok. CallRead off ok \<notin> set cs" using Cons.prems(4) by (metis list.set_intros(2))
  from Cons.IH [OF d(3) i this] show ?case using d by auto
qed simp

section \<open>Opening\<close>

lemma us_open_cases:
  assumes "att1_aimu_userspace_open w a alloc bf config path ok = (ATT1_OK, w', Some u)"
  obtains h where "att1_aimu_host_create w a (\<lambda>i. alloc (1 + i)) (Some (userspace_host_config (userspace_effective_config config))) True
      = (ATT1_OK, w', Some h)"
    "u = flush_bar0 w' \<lparr>u_magic = USERSPACE_MAGIC, u_host = snd (host_sync w' h),
       u_bar0_map = (if path = None \<or> path = Some [] then None else Some (bf_words bf)),
       u_bar0_path = (case path of None \<Rightarrow> [] | Some p \<Rightarrow> p), u_probed = False, u_cmdq_ready = False\<rparr>"
proof -
  let ?c = "Some (userspace_host_config (userspace_effective_config config))"
  obtain st w1 hp where c: "att1_aimu_host_create w a (\<lambda>i. alloc (1 + i)) ?c True = (st, w1, hp)" by (metis prod_cases3)
  have some: "st = ATT1_OK" if "hp \<noteq> None"
    using c that unfolding host_create_cases by (auto simp: Let_def split: if_splits)
  show ?thesis
  proof (cases hp)
    case None
    then show ?thesis using assms c by (auto simp: att1_aimu_userspace_open_def Let_def split: if_splits)
  next
    case (Some h)
    then have st: "st = ATT1_OK" using some by simp
    show ?thesis
      by (rule that [of h]; insert assms c Some st)
        (auto simp: att1_aimu_userspace_open_def Let_def split: if_splits option.splits)
  qed
qed

lemma us_open_inv:
  assumes "att1_aimu_userspace_open w a alloc bf config path ok = (ATT1_OK, w', Some u)"
  shows "us_inv w' u \<and> us_mirrored u \<and> (u_bar0_map u = None \<longleftrightarrow> path = None \<or> path = Some [])"
proof -
  obtain h where h: "att1_aimu_host_create w a (\<lambda>i. alloc (1 + i)) (Some (userspace_host_config (userspace_effective_config config))) True
      = (ATT1_OK, w', Some h)"
    "u = flush_bar0 w' \<lparr>u_magic = USERSPACE_MAGIC, u_host = snd (host_sync w' h),
       u_bar0_map = (if path = None \<or> path = Some [] then None else Some (bf_words bf)),
       u_bar0_path = (case path of None \<Rightarrow> [] | Some p \<Rightarrow> p), u_probed = False, u_cmdq_ready = False\<rparr>"
    using us_open_cases [OF assms] .
  have "host_inv w' (snd (host_sync w' h))" using host_create_inv [OF h(1)] host_sync_inv by blast
  then show ?thesis unfolding h(2) by simp (simp add: us_inv_def)
qed

text \<open>An emulator with the default configuration, over a file of zeros.\<close>

definition demo_file :: bar0_file where
  "demo_file = \<lparr>bf_open_ok = True, bf_truncate_ok = True, bf_map_ok = True, bf_words = (\<lambda>_. 0)\<rparr>"

lemma demo_userspace:
  "\<exists>w u. att1_aimu_userspace_open demo_world 0 (\<lambda>_. True) demo_file None (Some ''bar0'') True = (ATT1_OK, w, Some u)"
  "\<exists>w u. att1_aimu_userspace_open demo_world 0 (\<lambda>_. True) demo_file None None True = (ATT1_OK, w, Some u)"
proof -
  let ?c = "userspace_effective_config None" let ?e = "host_effective_config (Some (userspace_host_config ?c))"
  have c: "ucfg_tile_count ?c = 4" "ucfg_tile_memory_bytes ?c = USERSPACE_DEFAULT_TILE_MEM_BYTES"
    "hcfg_tile_count ?e = 4" "hcfg_cmd_ring_depth ?e = 64"
    by (simp_all add: userspace_effective_config_def userspace_host_config_def host_effective_config_def USERSPACE_DEFAULT_TILES_def
        HOST_DEFAULT_CMD_RING_DEPTH_def Let_def)
  have "\<not> DEVICE_MAX_TILES < hcfg_tile_count ?e" "cmdq_config_valid (host_cmdq_config ?e)"
    by (simp_all add: c cmdq_config_valid_def host_cmdq_config_def DEVICE_MAX_TILES_def is_power_of_two_def
        CMDQ_MAX_DEPTH_def CMDQ_MAX_TILES_def)
  then obtain w h where h: "att1_aimu_host_create demo_world 0 (\<lambda>_. True) (Some (userspace_host_config ?c)) True = (ATT1_OK, w, Some h)"
    unfolding host_create_cases by (simp add: Let_def)
  have g: "\<not> 16 < ucfg_tile_count ?c" "\<not> USERSPACE_MAX_TILE_MEM_BYTES < ucfg_tile_memory_bytes ?c"
    by (simp_all add: c USERSPACE_MAX_TILE_MEM_BYTES_def USERSPACE_DEFAULT_TILE_MEM_BYTES_def)
  show "\<exists>w u. att1_aimu_userspace_open demo_world 0 (\<lambda>_. True) demo_file None (Some ''bar0'') True = (ATT1_OK, w, Some u)"
    "\<exists>w u. att1_aimu_userspace_open demo_world 0 (\<lambda>_. True) demo_file None None True = (ATT1_OK, w, Some u)"
    using h g by (simp_all add: att1_aimu_userspace_open_def USERSPACE_PATH_MAX_def demo_file_def Let_def)
qed

text \<open>
  The mapped file is exact: after any program over an emulator opened with a file, whatever its calls answer, the
  file holds the register array; so whoever looks at the file sees, at every readable register, the value
  that a read through the interface returns.
\<close>

theorem userspace_file_exact:
  assumes "att1_aimu_userspace_open w a alloc bf config (Some path) ok = (ATT1_OK, w1, Some u1)" "path \<noteq> []"
    and "us_run w1 u1 cs = (as, w2, u2)"
  shows "\<exists>words. u_bar0_map u2 = Some words \<and> words = mm_regs (h_mmio (u_host u2))
    \<and> (off mod 4 = 0 \<longrightarrow> off < MMIO_BAR0_SIZE \<longrightarrow> mmio_access_type off \<notin> {ACCESS_WO, ACCESS_RESERVED} \<longrightarrow>
        att1_aimu_userspace_read32 (Some u2) off True = (ATT1_OK, Some (words (unat off div 4))))"
proof -
  have i1: "us_inv w1 u1" "us_mirrored u1" "u_bar0_map u1 \<noteq> None" using us_open_inv [OF assms(1)] assms(2) by auto
  have i2: "us_inv w2 u2" "us_mirrored u2" "u_bar0_map u2 \<noteq> None" using us_run_inv [OF i1(1,2) assms(3)] i1(3) by auto
  have g: "u_magic u2 = USERSPACE_MAGIC" "mm_magic (h_mmio (u_host u2)) = MMIO_MAGIC" using i2(1) by (simp_all add: us_inv_def host_inv_def)
  obtain words where f: "u_bar0_map u2 = Some words" "words = mm_regs (h_mmio (u_host u2))"
    using i2(2,3) by (auto simp: us_mirrored_def)
  have "att1_aimu_userspace_read32 (Some u2) off True = (ATT1_OK, Some (words (unat off div 4)))"
    if "off mod 4 = 0" "off < MMIO_BAR0_SIZE" "mmio_access_type off \<notin> {ACCESS_WO, ACCESS_RESERVED}"
    using that read32_eq [OF g(2) that(1,2)] not_bad [OF g(1)] f(2)
    by (cases "mmio_access_type off") (simp_all add: att1_aimu_userspace_read32_def reg_get_def)
  then show ?thesis using f by blast
qed

theorem userspace_file_exact_witness:
  "\<exists>w u as w2 u2 words. att1_aimu_userspace_open demo_world 0 (\<lambda>_. True) demo_file None (Some ''bar0'') True = (ATT1_OK, w, Some u)
    \<and> us_run w u [CallProbe True, CallSetup, CallDrain] = (as, w2, u2) \<and> u_bar0_map u2 = Some words
    \<and> att1_aimu_userspace_read32 (Some u2) MMIO_DEVICE_ID True = (ATT1_OK, Some (words (unat MMIO_DEVICE_ID div 4)))"
proof -
  obtain w u where o: "att1_aimu_userspace_open demo_world 0 (\<lambda>_. True) demo_file None (Some ''bar0'') True = (ATT1_OK, w, Some u)"
    using demo_userspace(1) by blast
  obtain as w2 u2 where r: "us_run w u [CallProbe True, CallSetup, CallDrain] = (as, w2, u2)" by (metis prod_cases3)
  have d: "MMIO_DEVICE_ID mod 4 = 0" "MMIO_DEVICE_ID < MMIO_BAR0_SIZE" "mmio_access_type MMIO_DEVICE_ID \<notin> {ACCESS_WO, ACCESS_RESERVED}"
    by (simp_all add: mmio_access_type_def mmio_global_regs_def mmio_offsets MMIO_BAR0_SIZE_def)
  show ?thesis using userspace_file_exact [OF o _ r, of MMIO_DEVICE_ID] d o r by blast
qed

text \<open>
  C30. The file is an observer only: opened with a file or without, the same program (any sequence of calls other than
  register reads) gets the same answers and leaves the device, the queue and the trace in the same state.
\<close>

theorem userspace_file_transparent:
  assumes "att1_aimu_userspace_open w a alloc bf config path ok = (ATT1_OK, w1, Some u1)"
    and "att1_aimu_userspace_open w a alloc bf config None ok = (ATT1_OK, w2, Some u2)"
    and "\<And>off ok. CallRead off ok \<notin> set cs"
  shows "\<exists>as w' u1' u2'. us_run w1 u1 cs = (as, w', u1') \<and> us_run w2 u2 cs = (as, w', u2')"
proof -
  obtain h1 where h1: "att1_aimu_host_create w a (\<lambda>i. alloc (1 + i)) (Some (userspace_host_config (userspace_effective_config config))) True
      = (ATT1_OK, w1, Some h1)"
    "u1 = flush_bar0 w1 \<lparr>u_magic = USERSPACE_MAGIC, u_host = snd (host_sync w1 h1),
       u_bar0_map = (if path = None \<or> path = Some [] then None else Some (bf_words bf)),
       u_bar0_path = (case path of None \<Rightarrow> [] | Some p \<Rightarrow> p), u_probed = False, u_cmdq_ready = False\<rparr>"
    using us_open_cases [OF assms(1)] .
  obtain h2 where h2: "att1_aimu_host_create w a (\<lambda>i. alloc (1 + i)) (Some (userspace_host_config (userspace_effective_config config))) True
      = (ATT1_OK, w2, Some h2)"
    "u2 = flush_bar0 w2 \<lparr>u_magic = USERSPACE_MAGIC, u_host = snd (host_sync w2 h2),
       u_bar0_map = None, u_bar0_path = [], u_probed = False, u_cmdq_ready = False\<rparr>"
    using us_open_cases [OF assms(2)] by (simp add: option.case) blast
  have e: "w2 = w1" "h2 = h1" using h1(1) h2(1) by simp_all
  have "us_sim u1 u2" unfolding h1(2) h2(2) e
    by (rule flush_sim, rule us_simI) (simp_all add: host_simI)
  then show ?thesis
    using us_run_sim [of u1 u2 w1 cs] us_open_inv [OF assms(1)] us_open_inv [OF assms(2)] assms(3) unfolding e by blast
qed

theorem userspace_file_transparent_witness:
  "\<exists>w1 u1 w2 u2 as w' u1' u2'. us_run w1 u1 [CallProbe True, CallWrite MMIO_GLOBAL_CONTROL 2, CallSetup] = (as, w', u1')
    \<and> us_run w2 u2 [CallProbe True, CallWrite MMIO_GLOBAL_CONTROL 2, CallSetup] = (as, w', u2')
    \<and> att1_aimu_userspace_open demo_world 0 (\<lambda>_. True) demo_file None (Some ''bar0'') True = (ATT1_OK, w1, Some u1)
    \<and> att1_aimu_userspace_open demo_world 0 (\<lambda>_. True) demo_file None None True = (ATT1_OK, w2, Some u2)"
proof -
  obtain w1 u1 where o1: "att1_aimu_userspace_open demo_world 0 (\<lambda>_. True) demo_file None (Some ''bar0'') True = (ATT1_OK, w1, Some u1)"
    using demo_userspace(1) by blast
  obtain w2 u2 where o2: "att1_aimu_userspace_open demo_world 0 (\<lambda>_. True) demo_file None None True = (ATT1_OK, w2, Some u2)"
    using demo_userspace(2) by blast
  have "\<And>off ok. CallRead off ok \<notin> set [CallProbe True, CallWrite MMIO_GLOBAL_CONTROL 2, CallSetup]" by simp
  from userspace_file_transparent [OF o1 o2 this] o1 o2 show ?thesis by blast
qed

text \<open>
  C32. Reads are where the file shows: disabling the device through \<^verbatim>\<open>GLOBAL_CONTROL\<close> clears the ready bit that a later
  read returns only when no file is open. With a file the copy that follows the write rebuilds the status from the
  tiles, so the device is reported ready again at once.
\<close>

theorem userspace_disable_lost_with_file:
  assumes "us_inv w u"
  shows "\<exists>u' v. att1_aimu_userspace_write32 w (Some u) MMIO_GLOBAL_CONTROL MMIO_GCTRL_DISABLE_DEVICE = (ATT1_OK, w, Some u')
    \<and> att1_aimu_userspace_read32 (Some u') MMIO_GLOBAL_STATUS True = (ATT1_OK, Some v)
    \<and> (v AND MMIO_GSTAT_DEVICE_READY \<noteq> 0 \<longleftrightarrow> u_bar0_map u \<noteq> None)"
proof -
  have m: "u_magic u = USERSPACE_MAGIC" and i: "host_inv w (u_host u)" and g: "mm_magic (h_mmio (u_host u)) = MMIO_MAGIC"
    using assms by (simp_all add: us_inv_def host_inv_def)
  let ?h = "u_host u" let ?m1 = "mmio_global_control MMIO_GCTRL_DISABLE_DEVICE (h_mmio ?h)"
  have acc: "mmio_access_type MMIO_GLOBAL_CONTROL = ACCESS_WO" "mmio_access_type MMIO_GLOBAL_STATUS = ACCESS_RO"
    by (simp_all add: mmio_access_type_def mmio_global_regs_def mmio_offsets)
  have wr: "att1_aimu_mmio_write32 w (Some (h_mmio ?h)) MMIO_GLOBAL_CONTROL MMIO_GCTRL_DISABLE_DEVICE = (ATT1_OK, w, Some ?m1)"
    using acc(1) g by (simp add: att1_aimu_mmio_write32_def mmio_wo_write_def) (simp add: mmio_offsets MMIO_BAR0_SIZE_def)
  let ?u1 = "u\<lparr>u_host := ?h\<lparr>h_mmio := ?m1\<rparr>\<rparr>"
  have w: "att1_aimu_userspace_write32 w (Some u) MMIO_GLOBAL_CONTROL MMIO_GCTRL_DISABLE_DEVICE = (ATT1_OK, w, Some (flush_bar0 w ?u1))"
    using wr not_bad [OF m] by (simp add: att1_aimu_userspace_write32_def)
  have i1: "host_inv w (?h\<lparr>h_mmio := ?m1\<rparr>)" by (rule host_write_inv [OF i wr])
  then have g1: "mm_magic ?m1 = MMIO_MAGIC" and dv: "device_inv (w_device w (h_device ?h))" by (simp_all add: host_inv_def)
  show ?thesis
  proof (cases "u_bar0_map u")
    case None
    have "reg_get ?m1 MMIO_GLOBAL_STATUS = reg_get (h_mmio ?h) MMIO_GLOBAL_STATUS AND NOT MMIO_GSTAT_DEVICE_READY"
      by (simp add: mmio_global_control_def Let_def mmio_bits reg_get_def reg_set_def)
    then have "reg_get ?m1 MMIO_GLOBAL_STATUS AND MMIO_GSTAT_DEVICE_READY = 0" by (simp add: and.assoc)
    then show ?thesis
      using w None acc(2) not_bad [of ?u1] m read32_eq [OF g1, of MMIO_GLOBAL_STATUS]
      by (simp add: flush_bar0_def att1_aimu_userspace_read32_def mmio_offsets MMIO_BAR0_SIZE_def)
  next
    case (Some r)
    let ?v = "global_status_of (w_device w (h_device ?h)) MMIO_GSTAT_DEVICE_READY"
    have "att1_aimu_userspace_read32 (Some (flush_bar0 w ?u1)) MMIO_GLOBAL_STATUS True = (ATT1_OK, Some ?v)"
      using Some synced_reads(4) [OF i1] not_bad [of "flush_bar0 w ?u1"] m
      by (simp add: att1_aimu_userspace_read32_def flush_bar0_def Let_def)
    moreover have "?v AND MMIO_GSTAT_DEVICE_READY \<noteq> 0" by (rule global_status_ready [OF dv])
    ultimately show ?thesis using w Some by auto
  qed
qed

theorem userspace_disable_lost_with_file_witness:
  "\<exists>w u u' v. att1_aimu_userspace_open demo_world 0 (\<lambda>_. True) demo_file None (Some ''bar0'') True = (ATT1_OK, w, Some u)
    \<and> att1_aimu_userspace_write32 w (Some u) MMIO_GLOBAL_CONTROL MMIO_GCTRL_DISABLE_DEVICE = (ATT1_OK, w, Some u')
    \<and> att1_aimu_userspace_read32 (Some u') MMIO_GLOBAL_STATUS True = (ATT1_OK, Some v) \<and> v AND MMIO_GSTAT_DEVICE_READY \<noteq> 0"
proof -
  obtain w u where o: "att1_aimu_userspace_open demo_world 0 (\<lambda>_. True) demo_file None (Some ''bar0'') True = (ATT1_OK, w, Some u)"
    using demo_userspace(1) by blast
  have "us_inv w u" "u_bar0_map u \<noteq> None" using us_open_inv [OF o] by auto
  with userspace_disable_lost_with_file [of w u] o show ?thesis by blast
qed

end
