(* ===== verification/Runtime.thy ===== *)
theory Runtime
  imports Fabric_Barrier
begin

text \<open>
  The tile runtime (\<^verbatim>\<open>src/runtime.c\<close>, \<^verbatim>\<open>simulator/sim_tile_thread.c\<close>, \<^verbatim>\<open>src/tile.c\<close>): one worker thread
  per tile with a command queue, a shared packet fabric and a barrier. Every stretch of code
  under one mutex is one step, and the steps of the workers and of the controlling thread
  interleave; a condition variable wait is a step that is not enabled. A worker is the point of
  its loop it has reached. Sizes and tile numbers are natural numbers (at most \<open>2 ^ 32 - 1\<close>
  tiles). The operations are those on a created handle, behind the \<^verbatim>\<open>NULL\<close> guards.
\<close>

section \<open>State\<close>

datatype att1_runtime_command_type =
    RT_LOAD_MODEL_SHARD | RT_RUN_LAYER_RANGE | RT_SEND_ACTIVATION | RT_RECV_ACTIVATION
  | RT_SYNC_BARRIER | RT_SHUTDOWN
  | RT_CMD_OTHER int \<comment> \<open>a value outside the enumeration\<close>

record att1_runtime_command =
  rm_type :: att1_runtime_command_type
  rm_peer_tile :: u32
  rm_layer_start :: u32
  rm_layer_end :: u32
  rm_arg0 :: u64
  rm_tag :: u64
  rm_payload_bytes :: nat
  rm_payload :: "u8 list"

definition RUNTIME_MAX_COMMAND_PAYLOAD :: nat where "RUNTIME_MAX_COMMAND_PAYLOAD = 64"

record att1_tile_counters =
  tk_commands_processed :: u64
  tk_load_model_shard_commands :: u64
  tk_run_layer_range_commands :: u64
  tk_send_activation_commands :: u64
  tk_recv_activation_commands :: u64
  tk_barrier_commands :: u64
  tk_shutdown_commands :: u64
  tk_fabric_send_ops :: u64
  tk_fabric_recv_ops :: u64
  tk_errors :: u64

record att1_tile_state =
  tl_tile_id :: u32
  tl_running :: bool
  tl_model_shard_id :: u64
  tl_last_layer_start :: u32
  tl_last_layer_end :: u32
  tl_counters :: att1_tile_counters

record att1_runtime_config =
  rcfg_tile_count :: nat
  rcfg_command_queue_capacity :: nat
  rcfg_fabric_queue_capacity :: nat
  rcfg_fabric_max_payload_bytes :: nat

record att1_runtime_queue =
  rq_commands :: "att1_runtime_command list"
  rq_head :: nat
  rq_count :: nat

text \<open>
  Where a worker is: not created, before the first statement, waiting for a command, holding a
  command that is not counted yet, about to run it, between the fabric call and its counter,
  between the fabric barrier and the runtime barrier, waiting at the barrier with the generation
  it saw, about to count an error, out of the loop, returned.
\<close>

datatype worker =
    W_NONE
  | W_START
  | W_IDLE
  | W_COUNT att1_runtime_command
  | W_RUN att1_runtime_command
  | W_SENT att1_status
  | W_RECEIVED att1_status
  | W_BARRIER
  | W_WAIT u64
  | W_FAIL
  | W_EXIT
  | W_DONE

text \<open>The controlling thread: outside the runtime, or inside the loops of start and stop.\<close>

datatype host = H_IDLE | H_STARTING nat | H_STOPPING nat

record att1_runtime =
  rt_config :: att1_runtime_config
  rt_fabric :: att1_fabric
  rt_tiles :: "att1_tile_state list"
  rt_queues :: "att1_runtime_queue list"
  rt_barrier_expected :: nat
  rt_barrier_arrived :: nat
  rt_barrier_generation :: u64
  rt_barrier_active :: bool
  rt_stop_requested :: bool
  rt_threads_started :: bool
  rt_workers :: "worker list"
  rt_host :: host

abbreviation rt_n :: "att1_runtime \<Rightarrow> nat" where "rt_n rt \<equiv> rcfg_tile_count (rt_config rt)"
abbreviation rt_cap :: "att1_runtime \<Rightarrow> nat" where "rt_cap rt \<equiv> rcfg_command_queue_capacity (rt_config rt)"

definition att1_tile_state_init :: "nat \<Rightarrow> att1_tile_state" where
  "att1_tile_state_init tile_id =
     \<lparr>tl_tile_id = word_of_nat tile_id, tl_running = False, tl_model_shard_id = 0, tl_last_layer_start = 0,
      tl_last_layer_end = 0,
      tl_counters = \<lparr>tk_commands_processed = 0, tk_load_model_shard_commands = 0,
        tk_run_layer_range_commands = 0, tk_send_activation_commands = 0, tk_recv_activation_commands = 0,
        tk_barrier_commands = 0, tk_shutdown_commands = 0, tk_fabric_send_ops = 0, tk_fabric_recv_ops = 0,
        tk_errors = 0\<rparr>\<rparr>"

definition zero_command :: att1_runtime_command where
  "zero_command = \<lparr>rm_type = RT_LOAD_MODEL_SHARD, rm_peer_tile = 0, rm_layer_start = 0, rm_layer_end = 0,
     rm_arg0 = 0, rm_tag = 0, rm_payload_bytes = 0, rm_payload = replicate RUNTIME_MAX_COMMAND_PAYLOAD 0\<rparr>"

section \<open>Creation\<close>

definition att1_runtime_config_valid :: "att1_runtime_config option \<Rightarrow> bool" where
  "att1_runtime_config_valid cp =
     (case cp of
        None \<Rightarrow> False
      | Some c \<Rightarrow>
        (if rcfg_tile_count c = 0 \<or> rcfg_command_queue_capacity c = 0 \<or> rcfg_fabric_queue_capacity c = 0
            \<or> rcfg_fabric_max_payload_bytes c = 0 then False
         else \<not> UINT32_MAX_nat < rcfg_tile_count c))"

definition att1_runtime_queue_init :: "nat \<Rightarrow> att1_runtime_queue" where
  "att1_runtime_queue_init capacity =
     \<lparr>rq_commands = replicate capacity zero_command, rq_head = 0, rq_count = 0\<rparr>"

text \<open>
  \<open>ok i\<close>: the i-th allocation or thread primitive of the call succeeds, two before the handle
  exists, three arrays, three primitives, then per tile a mutex and the three steps of a queue;
  \<open>falloc\<close> is the allocator of the fabric.
\<close>

definition att1_runtime_create ::
  "(nat \<Rightarrow> bool) \<Rightarrow> (nat \<Rightarrow> bool) \<Rightarrow> att1_runtime_config option \<Rightarrow> att1_status \<times> att1_runtime option" where
  "att1_runtime_create ok falloc cp =
     (if \<not> att1_runtime_config_valid cp then (ATT1_ERR_INVALID_ARG, None)
      else if \<not> ok 0 \<or> \<not> ok 1 then (ATT1_ERR_OOM, None)
      else if \<not> ok 2 \<or> \<not> ok 3 \<or> \<not> ok 4 then (ATT1_ERR_OOM, None)
      else if \<not> ok 5 \<or> \<not> ok 6 \<or> \<not> ok 7 then (ATT1_ERR_INVALID_ARG, None)
      else
        (let c = the cp; n = rcfg_tile_count c;
             fabric_config = \<lparr>fc_tile_count = n, fc_queue_capacity = rcfg_fabric_queue_capacity c,
                              fc_max_payload_bytes = rcfg_fabric_max_payload_bytes c\<rparr>
         in case first_index (\<lambda>i. \<not> (ok (8 + 4 * i) \<and> ok (9 + 4 * i) \<and> ok (10 + 4 * i) \<and> ok (11 + 4 * i))) [0..<n] of
              Some i \<Rightarrow> (if \<not> ok (8 + 4 * i) then ATT1_ERR_INVALID_ARG else ATT1_ERR_OOM, None)
            | None \<Rightarrow>
              (case att1_fabric_create falloc (Some zero_fabric) (Some fabric_config) of
                 (ATT1_OK, Some f) \<Rightarrow>
                   (ATT1_OK, Some
                     \<lparr>rt_config = c, rt_fabric = f, rt_tiles = map att1_tile_state_init [0..<n],
                      rt_queues = map (\<lambda>_. att1_runtime_queue_init (rcfg_command_queue_capacity c)) [0..<n],
                      rt_barrier_expected = 0, rt_barrier_arrived = 0, rt_barrier_generation = 0,
                      rt_barrier_active = False, rt_stop_requested = False, rt_threads_started = False,
                      rt_workers = replicate n W_NONE, rt_host = H_IDLE\<rparr>)
               | _ \<Rightarrow> (ATT1_ERR_OOM, None))))"

section \<open>Tile state and counters\<close>

abbreviation upd_tile :: "nat \<Rightarrow> (att1_tile_state \<Rightarrow> att1_tile_state) \<Rightarrow> att1_runtime \<Rightarrow> att1_runtime" where
  "upd_tile i g rt \<equiv> rt\<lparr>rt_tiles := (rt_tiles rt)[i := g (rt_tiles rt ! i)]\<rparr>"

abbreviation upd_tk :: "nat \<Rightarrow> (att1_tile_counters \<Rightarrow> att1_tile_counters) \<Rightarrow> att1_runtime \<Rightarrow> att1_runtime" where
  "upd_tk i g \<equiv> upd_tile i (\<lambda>t. t\<lparr>tl_counters := g (tl_counters t)\<rparr>)"

definition att1_runtime_mark_tile_running :: "nat \<Rightarrow> bool \<Rightarrow> att1_runtime \<Rightarrow> att1_runtime" where
  "att1_runtime_mark_tile_running i running = upd_tile i (\<lambda>t. t\<lparr>tl_running := running\<rparr>)"

fun count_command_type :: "att1_runtime_command_type \<Rightarrow> att1_tile_counters \<Rightarrow> att1_tile_counters" where
  "count_command_type RT_LOAD_MODEL_SHARD k =
     k\<lparr>tk_load_model_shard_commands := tk_load_model_shard_commands k + 1\<rparr>"
| "count_command_type RT_RUN_LAYER_RANGE k =
     k\<lparr>tk_run_layer_range_commands := tk_run_layer_range_commands k + 1\<rparr>"
| "count_command_type RT_SEND_ACTIVATION k =
     k\<lparr>tk_send_activation_commands := tk_send_activation_commands k + 1\<rparr>"
| "count_command_type RT_RECV_ACTIVATION k =
     k\<lparr>tk_recv_activation_commands := tk_recv_activation_commands k + 1\<rparr>"
| "count_command_type RT_SYNC_BARRIER k = k\<lparr>tk_barrier_commands := tk_barrier_commands k + 1\<rparr>"
| "count_command_type RT_SHUTDOWN k = k\<lparr>tk_shutdown_commands := tk_shutdown_commands k + 1\<rparr>"
| "count_command_type (RT_CMD_OTHER x) k = k\<lparr>tk_errors := tk_errors k + 1\<rparr>"

definition att1_runtime_count_command :: "nat \<Rightarrow> att1_runtime_command_type \<Rightarrow> att1_runtime \<Rightarrow> att1_runtime" where
  "att1_runtime_count_command i type =
     upd_tk i (\<lambda>k. count_command_type type (k\<lparr>tk_commands_processed := tk_commands_processed k + 1\<rparr>))"

definition att1_runtime_count_error :: "nat \<Rightarrow> att1_runtime \<Rightarrow> att1_runtime" where
  "att1_runtime_count_error i = upd_tk i (\<lambda>k. k\<lparr>tk_errors := tk_errors k + 1\<rparr>)"

definition att1_runtime_count_fabric_send :: "nat \<Rightarrow> att1_runtime \<Rightarrow> att1_runtime" where
  "att1_runtime_count_fabric_send i = upd_tk i (\<lambda>k. k\<lparr>tk_fabric_send_ops := tk_fabric_send_ops k + 1\<rparr>)"

definition att1_runtime_count_fabric_recv :: "nat \<Rightarrow> att1_runtime \<Rightarrow> att1_runtime" where
  "att1_runtime_count_fabric_recv i = upd_tk i (\<lambda>k. k\<lparr>tk_fabric_recv_ops := tk_fabric_recv_ops k + 1\<rparr>)"

definition att1_runtime_apply_model_shard :: "nat \<Rightarrow> u64 \<Rightarrow> att1_runtime \<Rightarrow> att1_runtime" where
  "att1_runtime_apply_model_shard i model_shard_id = upd_tile i (\<lambda>t. t\<lparr>tl_model_shard_id := model_shard_id\<rparr>)"

definition att1_runtime_apply_layer_range :: "nat \<Rightarrow> u32 \<Rightarrow> u32 \<Rightarrow> att1_runtime \<Rightarrow> att1_runtime" where
  "att1_runtime_apply_layer_range i layer_start layer_end =
     upd_tile i (\<lambda>t. t\<lparr>tl_last_layer_start := layer_start, tl_last_layer_end := layer_end\<rparr>)"

section \<open>Command queues\<close>

definition rq_push :: "nat \<Rightarrow> att1_runtime_command \<Rightarrow> att1_runtime_queue \<Rightarrow> att1_runtime_queue" where
  "rq_push capacity cmd q =
     (let slot = (rq_head q + rq_count q) mod capacity
      in q\<lparr>rq_commands := (rq_commands q)[slot := cmd], rq_count := rq_count q + 1\<rparr>)"

definition rq_pop :: "nat \<Rightarrow> att1_runtime_queue \<Rightarrow> att1_runtime_command \<times> att1_runtime_queue" where
  "rq_pop capacity q =
     (rq_commands q ! rq_head q, q\<lparr>rq_head := (rq_head q + 1) mod capacity, rq_count := rq_count q - 1\<rparr>)"

definition att1_runtime_queue_clear :: "att1_runtime_queue \<Rightarrow> att1_runtime_queue" where
  "att1_runtime_queue_clear q = q\<lparr>rq_head := 0, rq_count := 0\<rparr>"

definition att1_runtime_valid_tile :: "att1_runtime \<Rightarrow> u32 \<Rightarrow> bool" where
  "att1_runtime_valid_tile rt tile_id \<longleftrightarrow> unat tile_id < rt_n rt"

definition att1_runtime_send_command ::
  "u32 \<Rightarrow> att1_runtime_command option \<Rightarrow> att1_runtime \<Rightarrow> att1_status \<times> att1_runtime" where
  "att1_runtime_send_command tile_id command rt =
     (case command of
        None \<Rightarrow> (ATT1_ERR_INVALID_ARG, rt)
      | Some cmd \<Rightarrow>
        (if \<not> rt_threads_started rt then (ATT1_ERR_INVALID_ARG, rt)
         else if \<not> att1_runtime_valid_tile rt tile_id then (ATT1_ERR_INVALID_ARG, rt)
         else if RUNTIME_MAX_COMMAND_PAYLOAD < rm_payload_bytes cmd then (ATT1_ERR_INVALID_ARG, rt)
         else
           (let t = unat tile_id; queue = rt_queues rt ! t
            in if rq_count queue = rt_cap rt then (ATT1_ERR_QUEUE_FULL, rt)
               else (ATT1_OK, rt\<lparr>rt_queues := (rt_queues rt)[t := rq_push (rt_cap rt) cmd queue]\<rparr>))))"

definition att1_runtime_get_tile_state ::
  "u32 \<Rightarrow> bool \<Rightarrow> att1_runtime \<Rightarrow> att1_status \<times> att1_tile_state option" where
  "att1_runtime_get_tile_state tile_id out_ok rt =
     (if \<not> out_ok \<or> \<not> att1_runtime_valid_tile rt tile_id then (ATT1_ERR_INVALID_ARG, None)
      else (ATT1_OK, Some (rt_tiles rt ! unat tile_id)))"

definition att1_runtime_get_fabric_counters :: "bool \<Rightarrow> att1_runtime \<Rightarrow> att1_fabric_counters option" where
  "att1_runtime_get_fabric_counters out_ok rt = att1_fabric_get_counters (Some (rt_fabric rt)) out_ok"

section \<open>The barrier\<close>

definition att1_runtime_reset_barrier :: "att1_runtime \<Rightarrow> att1_runtime" where
  "att1_runtime_reset_barrier rt =
     rt\<lparr>rt_barrier_active := False, rt_barrier_expected := 0, rt_barrier_arrived := 0,
        rt_barrier_generation := rt_barrier_generation rt + 1\<rparr>"

abbreviation set_worker :: "nat \<Rightarrow> worker \<Rightarrow> att1_runtime \<Rightarrow> att1_runtime" where
  "set_worker i w rt \<equiv> rt\<lparr>rt_workers := (rt_workers rt)[i := w]\<rparr>"

text \<open>
  The first half of \<^verbatim>\<open>att1_runtime_execute_barrier\<close>: the group of all tiles and the arrival at the
  fabric barrier, whose result is ignored. \<open>alloc 0\<close> is the allocation of the group, \<open>alloc 1\<close>
  the one inside the fabric.
\<close>

definition barrier_fabric_arrive :: "(nat \<Rightarrow> bool) \<Rightarrow> nat \<Rightarrow> att1_runtime \<Rightarrow> att1_runtime" where
  "barrier_fabric_arrive alloc i rt =
     (if \<not> alloc 0 \<and> rt_n rt \<noteq> 1 then set_worker i W_FAIL rt
      else
        (let fabric_group = map word_of_nat [0..<rt_n rt];
             (st, f, complete) =
               att1_fabric_barrier_arrive (alloc 1) (Some (rt_fabric rt)) (word_of_nat i) (Some fabric_group) (rt_n rt)
         in set_worker i W_BARRIER (rt\<lparr>rt_fabric := the f\<rparr>)))"

text \<open>The critical section that joins the barrier of the runtime.\<close>

definition barrier_join :: "nat \<Rightarrow> att1_runtime \<Rightarrow> att1_runtime" where
  "barrier_join i rt =
     (let rt1 = (if \<not> rt_barrier_active rt
                 then rt\<lparr>rt_barrier_active := True, rt_barrier_expected := rt_n rt, rt_barrier_arrived := 0\<rparr>
                 else rt);
          generation = rt_barrier_generation rt1;
          rt2 = rt1\<lparr>rt_barrier_arrived := rt_barrier_arrived rt1 + 1\<rparr>
      in if rt_barrier_arrived rt2 = rt_barrier_expected rt2
         then set_worker i W_IDLE (att1_runtime_reset_barrier rt2)
         else set_worker i (W_WAIT generation) rt2)"

definition barrier_blocked :: "u64 \<Rightarrow> att1_runtime \<Rightarrow> bool" where
  "barrier_blocked generation rt \<longleftrightarrow>
     \<not> rt_stop_requested rt \<and> rt_barrier_active rt \<and> rt_barrier_generation rt = generation"

section \<open>Workers\<close>

definition att1_runtime_handle_send_activation :: "nat \<Rightarrow> att1_runtime_command \<Rightarrow> att1_runtime \<Rightarrow> att1_runtime" where
  "att1_runtime_handle_send_activation i cmd rt =
     (if rm_payload_bytes cmd \<le> rcfg_fabric_max_payload_bytes (rt_config rt)
      then (let (rc, f) = att1_fabric_send (Some (rt_fabric rt)) (word_of_nat i) (rm_peer_tile cmd) PACKET_ACTIVATION
                            (Some (rm_payload cmd)) (rm_payload_bytes cmd) (rm_tag cmd)
            in set_worker i (W_SENT rc) (rt\<lparr>rt_fabric := the f\<rparr>))
      else set_worker i (W_SENT ATT1_ERR_INVALID_ARG) rt)"

definition att1_runtime_handle_recv_activation :: "nat \<Rightarrow> att1_runtime \<Rightarrow> att1_runtime" where
  "att1_runtime_handle_recv_activation i rt =
     (let (rc, f, out) = att1_fabric_receive (Some (rt_fabric rt)) (word_of_nat i) True True RUNTIME_MAX_COMMAND_PAYLOAD
      in set_worker i (W_RECEIVED rc) (rt\<lparr>rt_fabric := the f\<rparr>))"

fun att1_runtime_process_command :: "(nat \<Rightarrow> bool) \<Rightarrow> nat \<Rightarrow> att1_runtime_command \<Rightarrow> att1_runtime \<Rightarrow> att1_runtime" where
  "att1_runtime_process_command alloc i cmd rt =
     (case rm_type cmd of
        RT_LOAD_MODEL_SHARD \<Rightarrow> set_worker i W_IDLE (att1_runtime_apply_model_shard i (rm_arg0 cmd) rt)
      | RT_RUN_LAYER_RANGE \<Rightarrow>
          set_worker i W_IDLE (att1_runtime_apply_layer_range i (rm_layer_start cmd) (rm_layer_end cmd) rt)
      | RT_SEND_ACTIVATION \<Rightarrow> att1_runtime_handle_send_activation i cmd rt
      | RT_RECV_ACTIVATION \<Rightarrow> att1_runtime_handle_recv_activation i rt
      | RT_SYNC_BARRIER \<Rightarrow> barrier_fabric_arrive alloc i rt
      | RT_SHUTDOWN \<Rightarrow> set_worker i W_EXIT rt
      | RT_CMD_OTHER x \<Rightarrow> set_worker i W_IDLE (att1_runtime_count_error i rt))"

definition att1_runtime_dequeue :: "nat \<Rightarrow> att1_runtime \<Rightarrow> att1_runtime option" where
  "att1_runtime_dequeue i rt =
     (let queue = rt_queues rt ! i
      in if rq_count queue = 0 \<and> \<not> rt_stop_requested rt then None
         else if rq_count queue = 0 \<and> rt_stop_requested rt then Some (set_worker i W_EXIT rt)
         else (let (cmd, queue') = rq_pop (rt_cap rt) queue
               in Some (set_worker i (W_COUNT cmd) (rt\<lparr>rt_queues := (rt_queues rt)[i := queue']\<rparr>))))"

text \<open>One step of the worker of tile \<open>i\<close>; \<^term>\<open>None\<close> when there is none to take.\<close>

definition att1_sim_tile_thread_step :: "(nat \<Rightarrow> bool) \<Rightarrow> nat \<Rightarrow> att1_runtime \<Rightarrow> att1_runtime option" where
  "att1_sim_tile_thread_step alloc i rt =
     (case rt_workers rt ! i of
        W_NONE \<Rightarrow> None
      | W_START \<Rightarrow> Some (set_worker i W_IDLE (att1_runtime_mark_tile_running i True rt))
      | W_IDLE \<Rightarrow> att1_runtime_dequeue i rt
      | W_COUNT cmd \<Rightarrow> Some (set_worker i (W_RUN cmd) (att1_runtime_count_command i (rm_type cmd) rt))
      | W_RUN cmd \<Rightarrow> Some (att1_runtime_process_command alloc i cmd rt)
      | W_SENT rc \<Rightarrow> Some (set_worker i W_IDLE
          (if rc = ATT1_OK then att1_runtime_count_fabric_send i rt else att1_runtime_count_error i rt))
      | W_RECEIVED rc \<Rightarrow> Some (set_worker i W_IDLE
          (if rc = ATT1_OK then att1_runtime_count_fabric_recv i rt else att1_runtime_count_error i rt))
      | W_BARRIER \<Rightarrow> Some (barrier_join i rt)
      | W_WAIT generation \<Rightarrow>
          (if barrier_blocked generation rt then None
           else if rt_stop_requested rt then Some (set_worker i W_FAIL rt)
           else Some (set_worker i W_IDLE rt))
      | W_FAIL \<Rightarrow> Some (set_worker i W_IDLE (att1_runtime_count_error i rt))
      | W_EXIT \<Rightarrow> Some (set_worker i W_DONE (att1_runtime_mark_tile_running i False rt))
      | W_DONE \<Rightarrow> None)"

section \<open>Start and stop\<close>

text \<open>
  Start: the part before the threads are created, the creation of one thread (\<open>ok\<close>: both the
  allocation of its argument and \<^verbatim>\<open>pthread_create\<close> succeed; when one fails, the nested stop sees
  that the runtime is not started and returns), and the end of the loop.
\<close>

definition att1_runtime_start :: "att1_runtime \<Rightarrow> att1_status \<times> att1_runtime" where
  "att1_runtime_start rt =
     (if rt_threads_started rt then (ATT1_ERR_ALREADY_STARTED, rt)
      else
        (let rt1 = rt\<lparr>rt_stop_requested := False, rt_barrier_active := False, rt_barrier_expected := 0,
                      rt_barrier_arrived := 0, rt_barrier_generation := rt_barrier_generation rt + 1,
                      rt_queues := map att1_runtime_queue_clear (rt_queues rt),
                      rt_tiles := map (\<lambda>t. t\<lparr>tl_running := True\<rparr>) (rt_tiles rt)\<rparr>
         in (ATT1_OK, rt1\<lparr>rt_host := H_STARTING 0\<rparr>)))"

text \<open>Stop: the request, the join of one thread, the end.\<close>

definition att1_runtime_stop :: "att1_runtime \<Rightarrow> att1_status \<times> att1_runtime" where
  "att1_runtime_stop rt =
     (if \<not> rt_threads_started rt then (ATT1_OK, rt)
      else (ATT1_OK, rt\<lparr>rt_stop_requested := True, rt_host := H_STOPPING 0\<rparr>))"

definition att1_runtime_start_thread :: "att1_status option \<Rightarrow> att1_runtime \<Rightarrow> att1_status option \<times> att1_runtime" where
  "att1_runtime_start_thread failure rt =
     (case rt_host rt of
        H_STARTING i \<Rightarrow>
          (if i < rt_n rt
           then (case failure of
                   Some st \<Rightarrow> (Some st, (snd (att1_runtime_stop rt))\<lparr>rt_host := H_IDLE\<rparr>)
                 | None \<Rightarrow> (None, (set_worker i W_START rt)\<lparr>rt_host := H_STARTING (i + 1)\<rparr>))
           else (Some ATT1_OK, rt\<lparr>rt_threads_started := True, rt_host := H_IDLE\<rparr>))
      | _ \<Rightarrow> (None, rt))"

definition att1_runtime_join_thread :: "att1_runtime \<Rightarrow> att1_runtime option" where
  "att1_runtime_join_thread rt =
     (case rt_host rt of
        H_STOPPING i \<Rightarrow>
          (if i < rt_n rt
           then (if rt_workers rt ! i = W_DONE
                 then Some ((set_worker i W_NONE (att1_runtime_mark_tile_running i False rt))\<lparr>rt_host := H_STOPPING (i + 1)\<rparr>)
                 else None)
           else Some (rt\<lparr>rt_threads_started := False, rt_stop_requested := False, rt_host := H_IDLE\<rparr>))
      | _ \<Rightarrow> None)"

section \<open>Executions\<close>

text \<open>
  A runtime is driven by one controlling thread; commands may be sent at any time, workers step
  in any order. The start of a runtime whose earlier start failed, with workers still alive, is
  outside the model: it would give one tile two threads.
\<close>

definition command_ok :: "att1_runtime_command \<Rightarrow> bool" where
  "command_ok cmd \<longleftrightarrow> length (rm_payload cmd) = RUNTIME_MAX_COMMAND_PAYLOAD"

inductive rt_step :: "att1_runtime \<Rightarrow> att1_runtime \<Rightarrow> bool" where
  worker: "i < rt_n rt \<Longrightarrow> att1_sim_tile_thread_step alloc i rt = Some rt' \<Longrightarrow> rt_step rt rt'"
| send: "command_ok cmd \<Longrightarrow> att1_runtime_send_command t (Some cmd) rt = (st, rt') \<Longrightarrow> rt_step rt rt'"
| start: "rt_host rt = H_IDLE \<Longrightarrow> set (rt_workers rt) = {W_NONE} \<Longrightarrow> att1_runtime_start rt = (st, rt')
    \<Longrightarrow> rt_step rt rt'"
| start_thread: "att1_runtime_start_thread failure rt = (st, rt') \<Longrightarrow> rt_step rt rt'"
| stop: "rt_host rt = H_IDLE \<Longrightarrow> att1_runtime_stop rt = (st, rt') \<Longrightarrow> rt_step rt rt'"
| join: "att1_runtime_join_thread rt = Some rt' \<Longrightarrow> rt_step rt rt'"

inductive rt_reachable :: "att1_runtime \<Rightarrow> bool" where
  create: "att1_runtime_create ok falloc cp = (ATT1_OK, Some rt) \<Longrightarrow> rt_reachable rt"
| step: "rt_reachable rt \<Longrightarrow> rt_step rt rt' \<Longrightarrow> rt_reachable rt'"

inductive_cases rt_stepE: "rt_step rt rt'"

end
