(* ===== verification/Runtime_Inv.thy ===== *)
theory Runtime_Inv
  imports Runtime Fabric_Props
begin

text \<open>
  The invariant of the tile runtime over all interleavings, the command queues as bounded
  queues, and the accounting of the barrier: while no stop is requested, the arrivals counted
  are exactly the workers that wait in the current generation.
\<close>

section \<open>Command queues\<close>

definition slot_ok :: "att1_runtime_command \<Rightarrow> bool" where
  "slot_ok c \<longleftrightarrow> command_ok c \<and> rm_payload_bytes c \<le> RUNTIME_MAX_COMMAND_PAYLOAD"

definition rq_inv :: "nat \<Rightarrow> att1_runtime_queue \<Rightarrow> bool" where
  "rq_inv capacity q \<longleftrightarrow> 0 < capacity \<and> length (rq_commands q) = capacity \<and> rq_head q < capacity
     \<and> rq_count q \<le> capacity \<and> (\<forall>c \<in> set (rq_commands q). slot_ok c)"

definition rq_content :: "att1_runtime_queue \<Rightarrow> att1_runtime_command list" where
  "rq_content q = ring_content (rq_commands q) (rq_head q) (rq_count q)"

lemma length_rq_content [simp]: "length (rq_content q) = rq_count q"
  by (simp add: rq_content_def)

lemma rq_push_content:
  assumes "rq_inv capacity q" "rq_count q < capacity" "slot_ok c"
  shows "rq_inv capacity (rq_push capacity c q)" "rq_content (rq_push capacity c q) = rq_content q @ [c]"
proof -
  have l: "length (rq_commands q) = capacity" using assms(1) by (simp add: rq_inv_def)
  show "rq_inv capacity (rq_push capacity c q)"
    using assms set_update_subset_insert [of "rq_commands q" _ c] by (auto simp: rq_inv_def rq_push_def Let_def dest!: subsetD)
  show "rq_content (rq_push capacity c q) = rq_content q @ [c]"
    using assms(2) l ring_content_push [of "rq_count q" "rq_commands q" "rq_head q" c]
    by (simp add: rq_content_def rq_push_def Let_def)
qed

lemma rq_pop_content:
  assumes "rq_inv capacity q" "rq_count q \<noteq> 0"
  shows "rq_inv capacity (snd (rq_pop capacity q))" "slot_ok (fst (rq_pop capacity q))"
    "rq_content q = fst (rq_pop capacity q) # rq_content (snd (rq_pop capacity q))"
proof -
  have l: "length (rq_commands q) = capacity" "rq_head q < capacity" "0 < capacity"
    using assms(1) by (simp_all add: rq_inv_def)
  show "rq_inv capacity (snd (rq_pop capacity q))" "slot_ok (fst (rq_pop capacity q))"
    using assms l by (auto simp: rq_inv_def rq_pop_def)
  have "ring_content (rq_commands q) (Suc (rq_head q)) k = ring_content (rq_commands q) (Suc (rq_head q) mod capacity) k" for k
    using l by (intro ring_content_cong_mod) simp
  then show "rq_content q = fst (rq_pop capacity q) # rq_content (snd (rq_pop capacity q))"
    using assms(2) l ring_content_pop [of "rq_count q" "rq_commands q" "rq_head q"]
    by (simp add: rq_content_def rq_pop_def)
qed

text \<open>The command queue is one more bounded queue in the sense of the shared interface.\<close>

interpretation rq: bounded_fifo "rq_inv capacity" rq_content "\<lambda>_. capacity" "\<lambda>_. slot_ok" "rq_push capacity" "rq_pop capacity"
  for capacity
proof unfold_locales
  fix q c assume "rq_inv capacity q" "slot_ok c" "length (rq_content q) < capacity"
  then show "rq_inv capacity (rq_push capacity c q)" "rq_content (rq_push capacity c q) = rq_content q @ [c]"
    using rq_push_content by simp_all
next
  fix q assume "rq_inv capacity q" "rq_content q \<noteq> []"
  moreover from this have "rq_count q \<noteq> 0" by (auto simp: rq_content_def)
  ultimately show "rq_inv capacity (snd (rq_pop capacity q))"
    "rq_content q = fst (rq_pop capacity q) # rq_content (snd (rq_pop capacity q))"
    using rq_pop_content by simp_all
qed simp_all

section \<open>Barrier accounting\<close>

definition waiting :: "nat \<Rightarrow> worker list \<Rightarrow> u64 \<Rightarrow> nat set" where
  "waiting n ws g = {i. i < n \<and> ws ! i = W_WAIT g}"

definition barrier_ok :: "nat \<Rightarrow> worker list \<Rightarrow> u64 \<Rightarrow> bool \<Rightarrow> nat \<Rightarrow> nat \<Rightarrow> bool" where
  "barrier_ok n ws gen active expected arrived \<longleftrightarrow>
     (\<forall>i < n. \<forall>g. ws ! i = W_WAIT g \<longrightarrow> g = gen \<or> g = gen - 1)
     \<and> (if active then expected = n \<and> arrived = card (waiting n ws gen) \<and> 0 < arrived \<and> arrived < n
        else waiting n ws gen = {})"

lemma finite_waiting [simp]: "finite (waiting n ws g)"
  by (simp add: waiting_def)

text \<open>A worker outside the wait of the current generation may move freely.\<close>

lemma waiting_update:
  assumes "ws ! i \<noteq> W_WAIT gen" "\<forall>g. w \<noteq> W_WAIT g" "length ws = n" "i < n"
  shows "waiting n (ws[i := w]) gen = waiting n ws gen"
  using assms by (auto simp: waiting_def nth_list_update)

lemma barrier_ok_update:
  assumes "barrier_ok n ws gen active expected arrived" "ws ! i \<noteq> W_WAIT gen" "\<forall>g. w \<noteq> W_WAIT g"
    and "length ws = n" "i < n"
  shows "barrier_ok n (ws[i := w]) gen active expected arrived"
  using assms waiting_update [OF assms(2-5)] by (auto simp: barrier_ok_def nth_list_update)

lemma waiting_join:
  assumes "i < n" "length ws = n" "ws ! i \<noteq> W_WAIT gen"
  shows "waiting n (ws[i := W_WAIT gen]) gen = insert i (waiting n ws gen)" "i \<notin> waiting n ws gen"
  using assms by (auto simp: waiting_def nth_list_update)

lemma waiting_full:
  assumes "i < n" "i \<notin> waiting n ws gen" "card (waiting n ws gen) + 1 = n" "j < n" "j \<noteq> i"
  shows "ws ! j = W_WAIT gen"
proof -
  have s: "waiting n ws gen \<subseteq> {..<n} - {i}" using assms(2) by (auto simp: waiting_def)
  have "card ({..<n} - {i}) = card (waiting n ws gen)" using assms(1,3) by simp
  then have "waiting n ws gen = {..<n} - {i}" using s by (intro card_subset_eq) simp_all
  then have "j \<in> waiting n ws gen" using assms(4,5) by simp
  then show ?thesis by (simp add: waiting_def)
qed

text \<open>What joining the barrier does, on both branches.\<close>

lemma barrier_join_cases:
  assumes "barrier_ok (rt_n rt) (rt_workers rt) (rt_barrier_generation rt) (rt_barrier_active rt)
      (rt_barrier_expected rt) (rt_barrier_arrived rt)"
    and "i < rt_n rt" "length (rt_workers rt) = rt_n rt" "rt_workers rt ! i = W_BARRIER"
  shows "if \<forall>j < rt_n rt. j \<noteq> i \<longrightarrow> rt_workers rt ! j = W_WAIT (rt_barrier_generation rt)
    then barrier_join i rt = set_worker i W_IDLE (att1_runtime_reset_barrier rt)
    else barrier_join i rt = set_worker i (W_WAIT (rt_barrier_generation rt))
           (rt\<lparr>rt_barrier_active := True, rt_barrier_expected := rt_n rt,
              rt_barrier_arrived := card (waiting (rt_n rt) (rt_workers rt) (rt_barrier_generation rt)) + 1\<rparr>)
         \<and> card (waiting (rt_n rt) (rt_workers rt) (rt_barrier_generation rt)) + 1 < rt_n rt"
proof -
  let ?n = "rt_n rt" and ?ws = "rt_workers rt" and ?g = "rt_barrier_generation rt"
  let ?W = "waiting ?n ?ws ?g"
  have ni: "i \<notin> ?W" using assms(4) by (simp add: waiting_def)
  have sub: "?W \<subseteq> {..<?n} - {i}" using ni by (auto simp: waiting_def)
  then have le: "card ?W \<le> ?n - 1" using card_mono [OF _ sub] assms(2) by simp
  have full: "card ?W + 1 = ?n \<longleftrightarrow> (\<forall>j < ?n. j \<noteq> i \<longrightarrow> ?ws ! j = W_WAIT ?g)"
  proof
    assume "card ?W + 1 = ?n"
    then show "\<forall>j < ?n. j \<noteq> i \<longrightarrow> ?ws ! j = W_WAIT ?g" using waiting_full [OF assms(2) ni] by blast
  next
    assume "\<forall>j < ?n. j \<noteq> i \<longrightarrow> ?ws ! j = W_WAIT ?g"
    then have "?W = {..<?n} - {i}" using ni by (auto simp: waiting_def)
    then show "card ?W + 1 = ?n" using assms(2) by simp
  qed
  show ?thesis
  proof (cases "rt_barrier_active rt")
    case True
    then have a: "rt_barrier_arrived rt = card ?W" "rt_barrier_expected rt = ?n" using assms(1) by (simp_all add: barrier_ok_def)
    have e: "rt\<lparr>rt_barrier_active := True, rt_barrier_expected := ?n, rt_barrier_arrived := k\<rparr>
        = rt\<lparr>rt_barrier_arrived := k\<rparr>" for k
      using True a(2) by simp
    show ?thesis
      using True a le full assms(2) unfolding e
      by (auto simp: barrier_join_def Let_def att1_runtime_reset_barrier_def)
  next
    case False
    then have "?W = {}" using assms(1) by (simp add: barrier_ok_def)
    then have c: "card ?W = 0" by simp
    show ?thesis
      using False c le full assms(2)
      by (auto simp: barrier_join_def Let_def att1_runtime_reset_barrier_def)
  qed
qed

lemma barrier_ok_join:
  assumes "barrier_ok (rt_n rt) (rt_workers rt) (rt_barrier_generation rt) (rt_barrier_active rt)
      (rt_barrier_expected rt) (rt_barrier_arrived rt)"
    and "i < rt_n rt" "length (rt_workers rt) = rt_n rt" "rt_workers rt ! i = W_BARRIER"
  defines "rt' \<equiv> barrier_join i rt"
  shows "barrier_ok (rt_n rt') (rt_workers rt') (rt_barrier_generation rt') (rt_barrier_active rt')
      (rt_barrier_expected rt') (rt_barrier_arrived rt')"
proof -
  let ?n = "rt_n rt" and ?ws = "rt_workers rt" and ?g = "rt_barrier_generation rt"
  note c = barrier_join_cases [OF assms(1-4)]
  show ?thesis
  proof (cases "\<forall>j < ?n. j \<noteq> i \<longrightarrow> ?ws ! j = W_WAIT ?g")
    case True
    then have rt': "rt' = set_worker i W_IDLE (att1_runtime_reset_barrier rt)" using c by (simp add: rt'_def)
    have "waiting ?n (?ws[i := W_IDLE]) (?g + 1) = {}"
      using True assms(2,3) by (auto simp: waiting_def nth_list_update)
    then show ?thesis
      using True assms(2,3) by (auto simp: rt' barrier_ok_def att1_runtime_reset_barrier_def nth_list_update)
  next
    case False
    let ?W = "waiting ?n ?ws ?g"
    have rt': "rt' = set_worker i (W_WAIT ?g) (rt\<lparr>rt_barrier_active := True, rt_barrier_expected := ?n,
        rt_barrier_arrived := card ?W + 1\<rparr>)" and lt: "card ?W + 1 < ?n"
      using c False by (simp_all only: if_False rt'_def)
    have w: "?ws ! i \<noteq> W_WAIT ?g" using assms(4) by simp
    note j = waiting_join [OF assms(2,3) w]
    have "\<forall>k < ?n. \<forall>g. ?ws[i := W_WAIT ?g] ! k = W_WAIT g \<longrightarrow> g = ?g \<or> g = ?g - 1"
      using assms(1,2,3) by (auto simp: barrier_ok_def nth_list_update)
    then show ?thesis using j lt by (simp add: rt' barrier_ok_def)
  qed
qed

section \<open>The invariant\<close>

definition worker_ok :: "worker \<Rightarrow> bool" where
  "worker_ok w \<longleftrightarrow> (case w of W_COUNT c \<Rightarrow> slot_ok c | W_RUN c \<Rightarrow> slot_ok c | _ \<Rightarrow> True)"

text \<open>The parts a worker step keeps by itself.\<close>

definition rt_data_ok :: "att1_runtime \<Rightarrow> bool" where
  "rt_data_ok rt \<longleftrightarrow> 0 < rt_n rt \<and> rt_n rt < 2 ^ 32
     \<and> length (rt_tiles rt) = rt_n rt \<and> length (rt_queues rt) = rt_n rt \<and> length (rt_workers rt) = rt_n rt
     \<and> (\<forall>i < rt_n rt. tl_tile_id (rt_tiles rt ! i) = word_of_nat i)
     \<and> (\<forall>q \<in> set (rt_queues rt). rq_inv (rt_cap rt) q)
     \<and> (\<forall>w \<in> set (rt_workers rt). worker_ok w)
     \<and> fab_reachable (rt_fabric rt)
     \<and> f_config (rt_fabric rt) = \<lparr>fc_tile_count = rt_n rt,
           fc_queue_capacity = rcfg_fabric_queue_capacity (rt_config rt),
           fc_max_payload_bytes = rcfg_fabric_max_payload_bytes (rt_config rt)\<rparr>"

text \<open>How far the controlling thread is, and which threads exist.\<close>

definition rt_host_ok :: "att1_runtime \<Rightarrow> bool" where
  "rt_host_ok rt \<longleftrightarrow>
     (case rt_host rt of
        H_IDLE \<Rightarrow> \<not> rt_stop_requested rt \<and> (rt_threads_started rt \<longrightarrow> (\<forall>j < rt_n rt. rt_workers rt ! j \<noteq> W_NONE))
      | H_STARTING i \<Rightarrow> i \<le> rt_n rt \<and> \<not> rt_stop_requested rt \<and> \<not> rt_threads_started rt
          \<and> (\<forall>j < rt_n rt. rt_workers rt ! j = W_NONE \<longleftrightarrow> i \<le> j)
      | H_STOPPING i \<Rightarrow> i \<le> rt_n rt \<and> rt_stop_requested rt \<and> rt_threads_started rt
          \<and> (\<forall>j < rt_n rt. rt_workers rt ! j = W_NONE \<longleftrightarrow> j < i))"

definition rt_barrier_ok :: "att1_runtime \<Rightarrow> bool" where
  "rt_barrier_ok rt \<longleftrightarrow>
     (\<not> rt_stop_requested rt \<and> ((\<exists>i. rt_host rt = H_STARTING i) \<or> (\<exists>j < rt_n rt. rt_workers rt ! j \<noteq> W_NONE))
      \<longrightarrow> barrier_ok (rt_n rt) (rt_workers rt) (rt_barrier_generation rt) (rt_barrier_active rt)
            (rt_barrier_expected rt) (rt_barrier_arrived rt))"

definition rt_inv :: "att1_runtime \<Rightarrow> bool" where
  "rt_inv rt \<longleftrightarrow> rt_data_ok rt \<and> rt_host_ok rt \<and> rt_barrier_ok rt"

text \<open>A step that moves worker \<open>i\<close> outside the waits and touches tiles, queues and fabric only.\<close>

lemma rt_inv_move:
  assumes "rt_inv rt" "i < rt_n rt" "rt_workers rt ! i \<noteq> W_NONE"
    and "rt_stop_requested rt \<or> rt_workers rt ! i \<noteq> W_WAIT (rt_barrier_generation rt)"
    and "w \<noteq> W_NONE" "\<forall>g. w \<noteq> W_WAIT g" "worker_ok w"
    and "length ts = rt_n rt" "\<forall>j < rt_n rt. tl_tile_id (ts ! j) = tl_tile_id (rt_tiles rt ! j)"
    and "length qs = rt_n rt" "\<forall>q \<in> set qs. rq_inv (rt_cap rt) q"
    and "fab_reachable f" "f_config f = f_config (rt_fabric rt)"
  shows "rt_inv (rt\<lparr>rt_fabric := f, rt_tiles := ts, rt_queues := qs, rt_workers := (rt_workers rt)[i := w]\<rparr>)"
proof -
  let ?rt = "rt\<lparr>rt_fabric := f, rt_tiles := ts, rt_queues := qs, rt_workers := (rt_workers rt)[i := w]\<rparr>"
  have d: "rt_data_ok rt" "rt_host_ok rt" "rt_barrier_ok rt" using assms(1) by (simp_all add: rt_inv_def)
  then have len: "length (rt_workers rt) = rt_n rt" by (simp add: rt_data_ok_def)
  have "\<forall>x \<in> set ((rt_workers rt)[i := w]). worker_ok x"
    using d(1) assms(7) set_update_subset_insert [of "rt_workers rt" i w] by (auto simp: rt_data_ok_def dest!: subsetD)
  then have "rt_data_ok ?rt" using d(1) assms(8-13) by (simp add: rt_data_ok_def)
  moreover have "rt_host_ok ?rt"
    using d(2) assms(2,3,5) len by (cases "rt_host rt") (auto simp: rt_host_ok_def nth_list_update)
  moreover have "rt_barrier_ok ?rt"
  proof (cases "rt_stop_requested rt")
    case True
    then show ?thesis by (simp add: rt_barrier_ok_def)
  next
    case False
    then have "barrier_ok (rt_n rt) (rt_workers rt) (rt_barrier_generation rt) (rt_barrier_active rt)
        (rt_barrier_expected rt) (rt_barrier_arrived rt)"
      using d(3) assms(2,3) unfolding rt_barrier_ok_def by blast
    moreover have "rt_workers rt ! i \<noteq> W_WAIT (rt_barrier_generation rt)" using False assms(4) by blast
    ultimately have "barrier_ok (rt_n rt) ((rt_workers rt)[i := w]) (rt_barrier_generation rt) (rt_barrier_active rt)
        (rt_barrier_expected rt) (rt_barrier_arrived rt)"
      using assms(2,6) len by (intro barrier_ok_update)
    then show ?thesis by (simp add: rt_barrier_ok_def)
  qed
  ultimately show ?thesis by (simp add: rt_inv_def)
qed

lemma rt_inv_parts:
  assumes "rt_inv rt"
  shows "length (rt_tiles rt) = rt_n rt" "length (rt_queues rt) = rt_n rt" "length (rt_workers rt) = rt_n rt"
    "\<forall>q \<in> set (rt_queues rt). rq_inv (rt_cap rt) q" "fab_reachable (rt_fabric rt)"
    "i < rt_n rt \<Longrightarrow> worker_ok (rt_workers rt ! i)" "i < rt_n rt \<Longrightarrow> rq_inv (rt_cap rt) (rt_queues rt ! i)"
    "0 < rt_n rt" "rt_n rt < 2 ^ 32"
  using assms by (simp_all add: rt_inv_def rt_data_ok_def)

text \<open>The fabric calls of the workers are steps of the fabric.\<close>

lemma runtime_send_fabric:
  assumes "rt_inv rt" "slot_ok cmd"
    and "att1_fabric_send (Some (rt_fabric rt)) s t ty (Some (rm_payload cmd)) (rm_payload_bytes cmd) tag = (rc, fp)"
  shows "\<exists>f. fp = Some f \<and> fab_reachable f \<and> f_config f = f_config (rt_fabric rt)"
proof -
  have r: "fab_reachable (rt_fabric rt)" by (rule rt_inv_parts(5) [OF assms(1)])
  obtain f where f: "fp = Some f" "f_config f = f_config (rt_fabric rt)"
    using assms(3) by (auto simp: att1_fabric_send_def with_fabric_def fabric_send_def att1_fabric_count_invalid_def
        count_queue_full_def split: if_splits)
  have "buffer_ok (Some (rm_payload cmd)) (rm_payload_bytes cmd)"
    using assms(2) by (simp add: buffer_ok_def slot_ok_def command_ok_def)
  then have "fab_reachable f" using fab_reachable.send [OF r] assms(3) f(1) by blast
  then show ?thesis using f by blast
qed

lemma runtime_receive_fabric:
  assumes "rt_inv rt" "att1_fabric_receive (Some (rt_fabric rt)) t pok ook c = (rc, fp, out)"
  shows "\<exists>f. fp = Some f \<and> fab_reachable f \<and> f_config f = f_config (rt_fabric rt)"
proof -
  have r: "fab_reachable (rt_fabric rt)" by (rule rt_inv_parts(5) [OF assms(1)])
  obtain f where f: "fp = Some f" "f_config f = f_config (rt_fabric rt)"
    using assms(2) fab_receive_config [of "rt_fabric rt" t ook c]
    by (auto simp: att1_fabric_receive_def split: if_splits prod.splits)
  then show ?thesis using fab_reachable.receive [OF r] assms(2) by blast
qed

lemma barrier_arrive_config:
  assumes "fab_reachable f0" "att1_fabric_barrier_arrive alloc (Some f0) t ps pc = (st, fp, complete)" "buffer_ok ps pc"
  shows "\<exists>f. fp = Some f \<and> fab_reachable f \<and> f_config f = f_config f0"
proof -
  have "f_config (fst (snd (fabric_barrier_arrive alloc f0 t ps pc))) = f_config f0"
    by (auto simp: fabric_barrier_arrive_def barrier_mark_arrival_def att1_fabric_count_invalid_def Let_def split: prod.split)
  then obtain f where f: "fp = Some f" "f_config f = f_config f0"
    using assms(2) by (auto simp: att1_fabric_barrier_arrive_def split: if_splits prod.splits)
  then show ?thesis using fab_reachable.barrier [OF assms(1,3)] assms(2) by blast
qed

lemma upd_tile_ids:
  assumes "\<forall>t. tl_tile_id (g t) = tl_tile_id t"
  shows "\<forall>j < n. tl_tile_id (xs[i := g (xs ! i)] ! j) = tl_tile_id (xs ! j)"
  using assms by (metis list_update_beyond not_le nth_list_update)

lemmas tile_updates =
  att1_runtime_mark_tile_running_def att1_runtime_count_command_def att1_runtime_count_error_def
  att1_runtime_count_fabric_send_def att1_runtime_count_fabric_recv_def
  att1_runtime_apply_model_shard_def att1_runtime_apply_layer_range_def

text \<open>A move that only updates the state of the tile.\<close>

lemma rt_inv_tile_move:
  assumes "rt_inv rt" "i < rt_n rt" "rt_workers rt ! i \<noteq> W_NONE"
    and "rt_stop_requested rt \<or> rt_workers rt ! i \<noteq> W_WAIT (rt_barrier_generation rt)"
    and "w \<noteq> W_NONE" "\<forall>g. w \<noteq> W_WAIT g" "worker_ok w" "\<forall>t. tl_tile_id (g t) = tl_tile_id t"
  shows "rt_inv (set_worker i w (upd_tile i g rt))"
proof -
  note p = rt_inv_parts [OF assms(1)]
  have "rt_inv (rt\<lparr>rt_fabric := rt_fabric rt, rt_tiles := (rt_tiles rt)[i := g (rt_tiles rt ! i)],
      rt_queues := rt_queues rt, rt_workers := (rt_workers rt)[i := w]\<rparr>)"
    using p(1-5) upd_tile_ids [OF assms(8)] by (intro rt_inv_move [OF assms(1-7)]) simp_all
  then show ?thesis by simp
qed

lemma rt_inv_plain_move:
  assumes "rt_inv rt" "i < rt_n rt" "rt_workers rt ! i \<noteq> W_NONE"
    and "rt_stop_requested rt \<or> rt_workers rt ! i \<noteq> W_WAIT (rt_barrier_generation rt)"
    and "w \<noteq> W_NONE" "\<forall>g. w \<noteq> W_WAIT g" "worker_ok w"
    and "fab_reachable f" "f_config f = f_config (rt_fabric rt)"
  shows "rt_inv (set_worker i w (rt\<lparr>rt_fabric := f\<rparr>))"
proof -
  note p = rt_inv_parts [OF assms(1)]
  have "rt_inv (rt\<lparr>rt_fabric := f, rt_tiles := rt_tiles rt, rt_queues := rt_queues rt,
      rt_workers := (rt_workers rt)[i := w]\<rparr>)"
    using p(1-4) assms(8,9) by (intro rt_inv_move [OF assms(1-7)]) simp_all
  then show ?thesis by simp
qed

lemma rt_inv_dequeue:
  assumes "rt_inv rt" "i < rt_n rt" "rt_workers rt ! i = W_IDLE" "att1_runtime_dequeue i rt = Some rt'"
  shows "rt_inv rt'"
proof (cases "rq_count (rt_queues rt ! i) = 0")
  case True
  then have "rt' = set_worker i W_EXIT (rt\<lparr>rt_fabric := rt_fabric rt\<rparr>)"
    using assms(4) by (simp add: att1_runtime_dequeue_def Let_def split: if_splits)
  then show ?thesis
    using rt_inv_plain_move [OF assms(1,2), of W_EXIT "rt_fabric rt"] assms(3) rt_inv_parts(5) [OF assms(1)]
    by (simp add: worker_ok_def)
next
  case False
  note p = rt_inv_parts [OF assms(1)]
  let ?pop = "rq_pop (rt_cap rt) (rt_queues rt ! i)"
  note pop = rq_pop_content [OF p(7) [OF assms(2)] False]
  have "\<forall>q \<in> set ((rt_queues rt)[i := snd ?pop]). rq_inv (rt_cap rt) q"
    using p(4) pop(1) set_update_subset_insert [of "rt_queues rt" i "snd ?pop"] by blast
  then have "rt_inv (rt\<lparr>rt_fabric := rt_fabric rt, rt_tiles := rt_tiles rt, rt_queues := (rt_queues rt)[i := snd ?pop],
      rt_workers := (rt_workers rt)[i := W_COUNT (fst ?pop)]\<rparr>)"
    using p assms(3) pop(2) by (intro rt_inv_move [OF assms(1,2)]) (simp_all add: worker_ok_def)
  moreover have "rt' = set_worker i (W_COUNT (fst ?pop)) (rt\<lparr>rt_queues := (rt_queues rt)[i := snd ?pop]\<rparr>)"
    using assms(4) False by (auto simp: att1_runtime_dequeue_def Let_def split: prod.splits)
  ultimately show ?thesis by simp
qed

lemma rt_inv_process:
  assumes "rt_inv rt" "i < rt_n rt" "rt_workers rt ! i = W_RUN cmd"
  shows "rt_inv (att1_runtime_process_command alloc i cmd rt)"
proof -
  have ne: "rt_workers rt ! i \<noteq> W_NONE" "rt_stop_requested rt \<or> rt_workers rt ! i \<noteq> W_WAIT (rt_barrier_generation rt)"
    using assms(3) by simp_all
  have cmd: "slot_ok cmd" using rt_inv_parts(6) [OF assms(1,2)] assms(3) by (simp add: worker_ok_def)
  note tile = rt_inv_tile_move [OF assms(1,2) ne]
  note plain = rt_inv_plain_move [OF assms(1,2) ne]
  note fr = rt_inv_parts(5) [OF assms(1)]
  show ?thesis
  proof (cases "rm_type cmd")
    case RT_SEND_ACTIVATION
    obtain rc fp where s: "att1_fabric_send (Some (rt_fabric rt)) (word_of_nat i) (rm_peer_tile cmd) PACKET_ACTIVATION
        (Some (rm_payload cmd)) (rm_payload_bytes cmd) (rm_tag cmd) = (rc, fp)" by force
    obtain f where f: "fp = Some f" "fab_reachable f" "f_config f = f_config (rt_fabric rt)"
      using runtime_send_fabric [OF assms(1) cmd s] by blast
    have "rt_inv (set_worker i (W_SENT rc) (rt\<lparr>rt_fabric := f\<rparr>))"
      by (rule plain) (simp_all add: worker_ok_def f)
    moreover have "rt_inv (set_worker i (W_SENT ATT1_ERR_INVALID_ARG) (rt\<lparr>rt_fabric := rt_fabric rt\<rparr>))"
      by (rule plain) (simp_all add: worker_ok_def fr)
    ultimately show ?thesis
      using RT_SEND_ACTIVATION s f(1) by (simp add: att1_runtime_handle_send_activation_def)
  next
    case RT_RECV_ACTIVATION
    obtain rc fp out where s: "att1_fabric_receive (Some (rt_fabric rt)) (word_of_nat i) True True RUNTIME_MAX_COMMAND_PAYLOAD
        = (rc, fp, out)" by (metis prod_cases3)
    obtain f where f: "fp = Some f" "fab_reachable f" "f_config f = f_config (rt_fabric rt)"
      using runtime_receive_fabric [OF assms(1) s] by blast
    have "rt_inv (set_worker i (W_RECEIVED rc) (rt\<lparr>rt_fabric := f\<rparr>))"
      by (rule plain) (simp_all add: worker_ok_def f)
    then show ?thesis using RT_RECV_ACTIVATION s f(1) by (simp add: att1_runtime_handle_recv_activation_def)
  next
    case RT_SYNC_BARRIER
    obtain st fp c where s: "att1_fabric_barrier_arrive (alloc 1) (Some (rt_fabric rt)) (word_of_nat i)
        (Some (map word_of_nat [0..<rt_n rt])) (rt_n rt) = (st, fp, c)" by (metis prod_cases3)
    have "buffer_ok (Some (map word_of_nat [0..<rt_n rt])) (rt_n rt)" by (simp add: buffer_ok_def)
    then obtain f where f: "fp = Some f" "fab_reachable f" "f_config f = f_config (rt_fabric rt)"
      using barrier_arrive_config [OF fr s] by blast
    have "rt_inv (set_worker i W_BARRIER (rt\<lparr>rt_fabric := f\<rparr>))"
      by (rule plain) (simp_all add: worker_ok_def f)
    moreover have "rt_inv (set_worker i W_FAIL (rt\<lparr>rt_fabric := rt_fabric rt\<rparr>))"
      by (rule plain) (simp_all add: worker_ok_def fr)
    ultimately show ?thesis using RT_SYNC_BARRIER s f(1) by (simp add: barrier_fabric_arrive_def Let_def)
  next
    case RT_SHUTDOWN
    have "rt_inv (set_worker i W_EXIT (rt\<lparr>rt_fabric := rt_fabric rt\<rparr>))"
      by (rule plain) (simp_all add: worker_ok_def fr)
    then show ?thesis using RT_SHUTDOWN by simp
  next
    case RT_LOAD_MODEL_SHARD
    have "rt_inv (set_worker i W_IDLE (upd_tile i (\<lambda>t. t\<lparr>tl_model_shard_id := rm_arg0 cmd\<rparr>) rt))"
      by (rule tile) (simp_all add: worker_ok_def)
    then show ?thesis using RT_LOAD_MODEL_SHARD by (simp add: tile_updates)
  next
    case RT_RUN_LAYER_RANGE
    have "rt_inv (set_worker i W_IDLE (upd_tile i
        (\<lambda>t. t\<lparr>tl_last_layer_start := rm_layer_start cmd, tl_last_layer_end := rm_layer_end cmd\<rparr>) rt))"
      by (rule tile) (simp_all add: worker_ok_def)
    then show ?thesis using RT_RUN_LAYER_RANGE by (simp add: tile_updates)
  next
    case (RT_CMD_OTHER x)
    have "rt_inv (set_worker i W_IDLE (upd_tk i (\<lambda>k. k\<lparr>tk_errors := tk_errors k + 1\<rparr>) rt))"
      by (rule tile) (simp_all add: worker_ok_def)
    then show ?thesis using RT_CMD_OTHER by (simp add: tile_updates)
  qed
qed

lemma barrier_join_frame:
  "rt_config (barrier_join i rt) = rt_config rt" "rt_host (barrier_join i rt) = rt_host rt"
  "rt_stop_requested (barrier_join i rt) = rt_stop_requested rt"
  "rt_threads_started (barrier_join i rt) = rt_threads_started rt"
  "rt_tiles (barrier_join i rt) = rt_tiles rt" "rt_queues (barrier_join i rt) = rt_queues rt"
  "rt_fabric (barrier_join i rt) = rt_fabric rt"
  by (simp_all add: barrier_join_def Let_def att1_runtime_reset_barrier_def)

lemma barrier_join_worker:
  obtains w where "rt_workers (barrier_join i rt) = (rt_workers rt)[i := w]" "w \<noteq> W_NONE" "worker_ok w"
proof -
  have "rt_workers (barrier_join i rt) = (rt_workers rt)[i := W_IDLE]
      \<or> rt_workers (barrier_join i rt) = (rt_workers rt)[i := W_WAIT (rt_barrier_generation rt)]"
    by (simp add: barrier_join_def Let_def att1_runtime_reset_barrier_def)
  then show thesis using that by (auto simp: worker_ok_def)
qed

lemma rt_inv_barrier:
  assumes "rt_inv rt" "i < rt_n rt" "rt_workers rt ! i = W_BARRIER"
  shows "rt_inv (barrier_join i rt)"
proof -
  note p = rt_inv_parts [OF assms(1)] and fr = barrier_join_frame
  have d: "rt_data_ok rt" "rt_host_ok rt" "rt_barrier_ok rt" using assms(1) by (simp_all add: rt_inv_def)
  obtain w where w: "rt_workers (barrier_join i rt) = (rt_workers rt)[i := w]" "w \<noteq> W_NONE" "worker_ok w"
    by (rule barrier_join_worker)
  have "\<forall>x \<in> set ((rt_workers rt)[i := w]). worker_ok x"
    using d(1) w(3) set_update_subset_insert [of "rt_workers rt" i w] by (auto simp: rt_data_ok_def dest!: subsetD)
  then have 1: "rt_data_ok (barrier_join i rt)" using d(1) by (simp add: rt_data_ok_def fr w(1))
  have 2: "rt_host_ok (barrier_join i rt)"
    using d(2) assms(2,3) w p(3) by (cases "rt_host rt") (auto simp: rt_host_ok_def fr nth_list_update)
  have 3: "rt_barrier_ok (barrier_join i rt)"
  proof (cases "rt_stop_requested rt")
    case True
    then show ?thesis by (simp add: rt_barrier_ok_def fr)
  next
    case False
    then have "barrier_ok (rt_n rt) (rt_workers rt) (rt_barrier_generation rt) (rt_barrier_active rt)
        (rt_barrier_expected rt) (rt_barrier_arrived rt)"
      using d(3) assms(2,3) unfolding rt_barrier_ok_def by (metis worker.distinct(13))
    from barrier_ok_join [OF this assms(2) p(3) assms(3)] show ?thesis unfolding rt_barrier_ok_def by (rule impI)
  qed
  show ?thesis using 1 2 3 by (simp add: rt_inv_def)
qed

lemma rt_barrier_okD:
  assumes "rt_inv rt" "\<not> rt_stop_requested rt" "i < rt_n rt" "rt_workers rt ! i \<noteq> W_NONE"
  shows "barrier_ok (rt_n rt) (rt_workers rt) (rt_barrier_generation rt) (rt_barrier_active rt)
        (rt_barrier_expected rt) (rt_barrier_arrived rt)"
  using assms unfolding rt_inv_def rt_barrier_ok_def by blast

lemma rt_inv_wait:
  assumes "rt_inv rt" "i < rt_n rt" "rt_workers rt ! i = W_WAIT g" "\<not> barrier_blocked g rt"
  shows "rt_stop_requested rt \<or> rt_workers rt ! i \<noteq> W_WAIT (rt_barrier_generation rt)"
proof (rule ccontr)
  assume n: "\<not> ?thesis"
  then have g: "g = rt_barrier_generation rt" and s: "\<not> rt_stop_requested rt" using assms(3) by simp_all
  then have a: "\<not> rt_barrier_active rt" using assms(4) by (simp add: barrier_blocked_def)
  have "barrier_ok (rt_n rt) (rt_workers rt) (rt_barrier_generation rt) (rt_barrier_active rt)
        (rt_barrier_expected rt) (rt_barrier_arrived rt)"
    using rt_barrier_okD [OF assms(1) s assms(2)] assms(3) by simp
  then have "waiting (rt_n rt) (rt_workers rt) (rt_barrier_generation rt) = {}" using a by (simp add: barrier_ok_def)
  then show False using g assms(2,3) by (auto simp: waiting_def)
qed

lemma rt_inv_worker:
  assumes "rt_inv rt" "i < rt_n rt" "att1_sim_tile_thread_step alloc i rt = Some rt'"
  shows "rt_inv rt'"
proof -
  note fr = rt_inv_parts(5) [OF assms(1)]
  note tile = rt_inv_tile_move [OF assms(1,2)] and plain = rt_inv_plain_move [OF assms(1,2)]
  note ok = rt_inv_parts(6) [OF assms(1,2)]
  note st = assms(3) [unfolded att1_sim_tile_thread_step_def]
  show ?thesis
  proof (cases "rt_workers rt ! i")
    case W_NONE then show ?thesis using st by simp
  next
    case W_DONE then show ?thesis using st by simp
  next
    case W_START
    have "rt_inv (set_worker i W_IDLE (upd_tile i (\<lambda>t. t\<lparr>tl_running := True\<rparr>) rt))"
      by (rule tile) (simp_all add: worker_ok_def W_START)
    then show ?thesis using st W_START by (simp add: tile_updates)
  next
    case W_IDLE
    then show ?thesis using st rt_inv_dequeue [OF assms(1,2)] by simp
  next
    case (W_COUNT cmd)
    have "rt_inv (set_worker i (W_RUN cmd) (upd_tk i (\<lambda>k. count_command_type (rm_type cmd)
        (k\<lparr>tk_commands_processed := tk_commands_processed k + 1\<rparr>)) rt))"
      using ok W_COUNT by (intro tile) (simp_all add: worker_ok_def)
    then show ?thesis using st W_COUNT by (simp add: tile_updates)
  next
    case (W_RUN cmd)
    then show ?thesis using st rt_inv_process [OF assms(1,2) W_RUN, of alloc] by simp
  next
    case (W_SENT rc)
    have "rt_inv (set_worker i W_IDLE (upd_tk i (\<lambda>k. k\<lparr>tk_fabric_send_ops := tk_fabric_send_ops k + 1\<rparr>) rt))"
      by (rule tile) (simp_all add: worker_ok_def W_SENT)
    moreover have "rt_inv (set_worker i W_IDLE (upd_tk i (\<lambda>k. k\<lparr>tk_errors := tk_errors k + 1\<rparr>) rt))"
      by (rule tile) (simp_all add: worker_ok_def W_SENT)
    ultimately show ?thesis using st W_SENT by (simp add: tile_updates split: if_splits)
  next
    case (W_RECEIVED rc)
    have "rt_inv (set_worker i W_IDLE (upd_tk i (\<lambda>k. k\<lparr>tk_fabric_recv_ops := tk_fabric_recv_ops k + 1\<rparr>) rt))"
      by (rule tile) (simp_all add: worker_ok_def W_RECEIVED)
    moreover have "rt_inv (set_worker i W_IDLE (upd_tk i (\<lambda>k. k\<lparr>tk_errors := tk_errors k + 1\<rparr>) rt))"
      by (rule tile) (simp_all add: worker_ok_def W_RECEIVED)
    ultimately show ?thesis using st W_RECEIVED by (simp add: tile_updates split: if_splits)
  next
    case W_BARRIER
    then show ?thesis using st rt_inv_barrier [OF assms(1,2)] by simp
  next
    case (W_WAIT g)
    then have nb: "\<not> barrier_blocked g rt" using st by (simp split: if_splits)
    note w = rt_inv_wait [OF assms(1,2) W_WAIT nb]
    have "rt_inv (set_worker i W_IDLE (rt\<lparr>rt_fabric := rt_fabric rt\<rparr>))"
      "rt_inv (set_worker i W_FAIL (rt\<lparr>rt_fabric := rt_fabric rt\<rparr>))"
      using W_WAIT w fr by (intro plain; simp add: worker_ok_def)+
    then show ?thesis using st W_WAIT nb by (simp split: if_splits)
  next
    case W_FAIL
    have "rt_inv (set_worker i W_IDLE (upd_tk i (\<lambda>k. k\<lparr>tk_errors := tk_errors k + 1\<rparr>) rt))"
      by (rule tile) (simp_all add: worker_ok_def W_FAIL)
    then show ?thesis using st W_FAIL by (simp add: tile_updates)
  next
    case W_EXIT
    have "rt_inv (set_worker i W_DONE (upd_tile i (\<lambda>t. t\<lparr>tl_running := False\<rparr>) rt))"
      by (rule tile) (simp_all add: worker_ok_def W_EXIT)
    then show ?thesis using st W_EXIT by (simp add: tile_updates)
  qed
qed

section \<open>The controlling thread\<close>

lemma rt_inv_send:
  assumes "rt_inv rt" "command_ok cmd" "att1_runtime_send_command t (Some cmd) rt = (st, rt')"
  shows "rt_inv rt'"
proof (cases "rt' = rt")
  case False
  let ?q = "rt_queues rt ! unat t"
  have c: "unat t < rt_n rt" "rm_payload_bytes cmd \<le> RUNTIME_MAX_COMMAND_PAYLOAD" "rq_count ?q \<noteq> rt_cap rt"
    "rt' = rt\<lparr>rt_queues := (rt_queues rt)[unat t := rq_push (rt_cap rt) cmd ?q]\<rparr>"
    using assms(3) False
    by (auto simp: att1_runtime_send_command_def att1_runtime_valid_tile_def Let_def split: if_splits)
  note p = rt_inv_parts [OF assms(1)]
  note q = p(7) [OF c(1)]
  have "rq_inv (rt_cap rt) (rq_push (rt_cap rt) cmd ?q)"
    using q c assms(2) by (intro rq_push_content(1)) (auto simp: rq_inv_def slot_ok_def)
  then have "\<forall>q \<in> set (rt_queues rt'). rq_inv (rt_cap rt) q"
    using p(4) set_update_subset_insert [of "rt_queues rt" "unat t" "rq_push (rt_cap rt) cmd ?q"]
    by (auto simp: c(4) dest!: subsetD)
  then have "rt_data_ok rt'" using assms(1) by (simp add: rt_inv_def rt_data_ok_def c(4))
  moreover have "rt_host_ok rt'" using assms(1) by (cases "rt_host rt") (simp_all add: rt_inv_def rt_host_ok_def c(4))
  moreover have "rt_barrier_ok rt'" using assms(1) by (simp add: rt_inv_def rt_barrier_ok_def c(4))
  ultimately show ?thesis by (simp add: rt_inv_def)
qed (simp add: assms(1))

lemma rt_inv_start:
  assumes "rt_inv rt" "rt_host rt = H_IDLE" "set (rt_workers rt) = {W_NONE}" "att1_runtime_start rt = (st, rt')"
  shows "rt_inv rt'"
proof -
  note p = rt_inv_parts [OF assms(1)]
  have none: "j < rt_n rt \<Longrightarrow> rt_workers rt ! j = W_NONE" for j
    using assms(3) p(3) nth_mem [of j "rt_workers rt"] by auto
  then have nt: "\<not> rt_threads_started rt"
    using assms(1,2) p(8) by (auto simp: rt_inv_def rt_host_ok_def)
  have "\<forall>q \<in> set (map att1_runtime_queue_clear (rt_queues rt)). rq_inv (rt_cap rt) q"
    using p(4) by (auto simp: att1_runtime_queue_clear_def rq_inv_def)
  moreover have "rt' = rt\<lparr>rt_stop_requested := False, rt_barrier_active := False, rt_barrier_expected := 0,
                      rt_barrier_arrived := 0, rt_barrier_generation := rt_barrier_generation rt + 1,
                      rt_queues := map att1_runtime_queue_clear (rt_queues rt),
                      rt_tiles := map (\<lambda>t. t\<lparr>tl_running := True\<rparr>) (rt_tiles rt), rt_host := H_STARTING 0\<rparr>"
    using assms(4) nt by (simp add: att1_runtime_start_def Let_def)
  ultimately show ?thesis
    using assms(1) none nt p(1)
    by (auto simp: rt_inv_def rt_data_ok_def rt_host_ok_def rt_barrier_ok_def barrier_ok_def waiting_def)
qed

lemma rt_inv_start_thread:
  assumes "rt_inv rt" "att1_runtime_start_thread failure rt = (st, rt')"
  shows "rt_inv rt'"
proof (cases "rt_host rt")
  case (H_STARTING i)
  have d: "rt_data_ok rt" "i \<le> rt_n rt" "\<not> rt_stop_requested rt" "\<not> rt_threads_started rt"
    "\<And>j. j < rt_n rt \<Longrightarrow> rt_workers rt ! j = W_NONE \<longleftrightarrow> i \<le> j"
    using assms(1) H_STARTING by (simp_all add: rt_inv_def rt_host_ok_def)
  have b: "barrier_ok (rt_n rt) (rt_workers rt) (rt_barrier_generation rt) (rt_barrier_active rt)
        (rt_barrier_expected rt) (rt_barrier_arrived rt)"
    using assms(1) H_STARTING d(3) unfolding rt_inv_def rt_barrier_ok_def by blast
  have len: "length (rt_workers rt) = rt_n rt" by (rule rt_inv_parts(3) [OF assms(1)])
  note st = assms(2) [unfolded att1_runtime_start_thread_def att1_runtime_stop_def]
  consider (fail) s where "i < rt_n rt" "failure = Some s" | (thread) "i < rt_n rt" "failure = None" | (ended) "i = rt_n rt"
    using d(2) by (cases failure) force+
  then show ?thesis
  proof cases
    case fail
    then have "rt' = rt\<lparr>rt_host := H_IDLE\<rparr>" using st H_STARTING d(4) by simp
    then show ?thesis using d b by (simp add: rt_inv_def rt_data_ok_def rt_host_ok_def rt_barrier_ok_def)
  next
    case thread
    then have thread': "rt' = (set_worker i W_START rt)\<lparr>rt_host := H_STARTING (i + 1)\<rparr>" using st H_STARTING by simp
    have "rt_workers rt ! i = W_NONE" using d(5) thread(1) by simp
    then have b': "barrier_ok (rt_n rt) ((rt_workers rt)[i := W_START]) (rt_barrier_generation rt) (rt_barrier_active rt)
        (rt_barrier_expected rt) (rt_barrier_arrived rt)"
      using thread(1) len by (intro barrier_ok_update [OF b]) simp_all
    have "\<forall>x \<in> set ((rt_workers rt)[i := W_START]). worker_ok x"
      using d(1) set_update_subset_insert [of "rt_workers rt" i W_START]
      by (auto simp: rt_data_ok_def worker_ok_def dest!: subsetD)
    then have "rt_data_ok rt'" using d(1) by (simp add: rt_data_ok_def thread')
    moreover have "rt_host_ok rt'"
      using d(3-5) thread(1) len by (auto simp: rt_host_ok_def thread' nth_list_update)
    moreover have "rt_barrier_ok rt'" using b' by (simp add: rt_barrier_ok_def thread')
    ultimately show ?thesis by (simp add: rt_inv_def)
  next
    case ended
    then have "rt' = rt\<lparr>rt_threads_started := True, rt_host := H_IDLE\<rparr>" using st H_STARTING by simp
    then show ?thesis using d b ended by (simp add: rt_inv_def rt_data_ok_def rt_host_ok_def rt_barrier_ok_def)
  qed
qed (use assms in \<open>simp_all add: att1_runtime_start_thread_def\<close>)

lemma rt_inv_stop:
  assumes "rt_inv rt" "rt_host rt = H_IDLE" "att1_runtime_stop rt = (st, rt')"
  shows "rt_inv rt'"
  using assms by (auto simp: att1_runtime_stop_def rt_inv_def rt_data_ok_def rt_host_ok_def rt_barrier_ok_def split: if_splits)

lemma rt_inv_join:
  assumes "rt_inv rt" "att1_runtime_join_thread rt = Some rt'"
  shows "rt_inv rt'"
proof (cases "rt_host rt")
  case (H_STOPPING i)
  have d: "rt_data_ok rt" "i \<le> rt_n rt" "rt_stop_requested rt" "rt_threads_started rt"
    "\<And>j. j < rt_n rt \<Longrightarrow> rt_workers rt ! j = W_NONE \<longleftrightarrow> j < i"
    using assms(1) H_STOPPING by (simp_all add: rt_inv_def rt_host_ok_def)
  note p = rt_inv_parts [OF assms(1)]
  show ?thesis
  proof (cases "i < rt_n rt")
    case True
    have e: "rt' = rt\<lparr>rt_tiles := (rt_tiles rt)[i := (rt_tiles rt ! i)\<lparr>tl_running := False\<rparr>],
        rt_workers := (rt_workers rt)[i := W_NONE], rt_host := H_STOPPING (i + 1)\<rparr>"
      using assms(2) H_STOPPING True
      by (simp add: att1_runtime_join_thread_def att1_runtime_mark_tile_running_def split: if_splits)
    have "\<forall>x \<in> set ((rt_workers rt)[i := W_NONE]). worker_ok x"
      using d(1) set_update_subset_insert [of "rt_workers rt" i W_NONE]
      by (auto simp: rt_data_ok_def worker_ok_def dest!: subsetD)
    moreover have "\<forall>j < rt_n rt. tl_tile_id ((rt_tiles rt)[i := (rt_tiles rt ! i)\<lparr>tl_running := False\<rparr>] ! j)
        = tl_tile_id (rt_tiles rt ! j)"
      by (rule upd_tile_ids) simp
    ultimately have "rt_data_ok rt'" using d(1) by (simp add: rt_data_ok_def e)
    moreover have "rt_host_ok rt'" using d(3-5) True p(3) by (auto simp: rt_host_ok_def e nth_list_update)
    moreover have "rt_barrier_ok rt'" using d(3) by (simp add: rt_barrier_ok_def e)
    ultimately show ?thesis by (simp add: rt_inv_def)
  next
    case False
    then have e: "rt' = rt\<lparr>rt_threads_started := False, rt_stop_requested := False, rt_host := H_IDLE\<rparr>"
      using assms(2) H_STOPPING by (simp add: att1_runtime_join_thread_def)
    have i: "i = rt_n rt" using d(2) False by simp
    have none: "\<not> (\<exists>j < rt_n rt. rt_workers rt ! j \<noteq> W_NONE)" using d(5) i by simp
    have "rt_data_ok rt'" using d(1) by (simp add: rt_data_ok_def e)
    moreover have "rt_host_ok rt'" by (simp add: rt_host_ok_def e)
    moreover have "rt_barrier_ok rt'" unfolding rt_barrier_ok_def using none by (auto simp: e)
    ultimately show ?thesis by (simp add: rt_inv_def)
  qed
qed (use assms in \<open>simp_all add: att1_runtime_join_thread_def\<close>)

section \<open>Reachable runtimes\<close>

lemma rt_inv_step:
  assumes "rt_inv rt" "rt_step rt rt'"
  shows "rt_inv rt'"
  using assms(2)
proof cases
  case (worker i alloc) then show ?thesis using rt_inv_worker [OF assms(1)] by blast
next
  case (send cmd t st) then show ?thesis using rt_inv_send [OF assms(1)] by blast
next
  case (start st) then show ?thesis using rt_inv_start [OF assms(1)] by blast
next
  case (start_thread f st) then show ?thesis using rt_inv_start_thread [OF assms(1)] by blast
next
  case (stop st) then show ?thesis using rt_inv_stop [OF assms(1)] by blast
next
  case join then show ?thesis using rt_inv_join [OF assms(1)] by blast
qed

lemma rt_inv_create:
  assumes "att1_runtime_create ok falloc cp = (ATT1_OK, Some rt)"
  shows "rt_inv rt"
proof -
  have v: "att1_runtime_config_valid cp"
  proof (rule ccontr)
    assume "\<not> att1_runtime_config_valid cp"
    then show False using assms by (simp add: att1_runtime_create_def)
  qed
  then obtain c where cp: "cp = Some c" by (cases cp) (simp_all add: att1_runtime_config_valid_def)
  let ?n = "rcfg_tile_count c"
  let ?fc = "\<lparr>fc_tile_count = ?n, fc_queue_capacity = rcfg_fabric_queue_capacity c,
      fc_max_payload_bytes = rcfg_fabric_max_payload_bytes c\<rparr>"
  obtain st fp where fe: "att1_fabric_create falloc (Some zero_fabric) (Some ?fc) = (st, fp)" by force
  note a = assms [unfolded att1_runtime_create_def cp Let_def option.sel fe]
  have "st = ATT1_OK \<and> fp \<noteq> None"
    using a v cp by (cases st; cases fp) (auto split: if_splits option.splits)
  then obtain f where f: "att1_fabric_create falloc (Some zero_fabric) (Some ?fc) = (ATT1_OK, Some f)" using fe by auto
  have rt: "rt = \<lparr>rt_config = c, rt_fabric = f, rt_tiles = map att1_tile_state_init [0..<?n],
        rt_queues = map (\<lambda>_. att1_runtime_queue_init (rcfg_command_queue_capacity c)) [0..<?n],
        rt_barrier_expected = 0, rt_barrier_arrived = 0, rt_barrier_generation = 0,
        rt_barrier_active = False, rt_stop_requested = False, rt_threads_started = False,
        rt_workers = replicate ?n W_NONE, rt_host = H_IDLE\<rparr>"
    using assms unfolding att1_runtime_create_def cp Let_def option.sel f by (auto split: if_splits option.splits)
  have r: "fab_reachable f" using fab_reachable.create f by blast
  have fc: "f_config f = \<lparr>fc_tile_count = ?n, fc_queue_capacity = rcfg_fabric_queue_capacity c,
      fc_max_payload_bytes = rcfg_fabric_max_payload_bytes c\<rparr>"
    using f by (auto simp: att1_fabric_create_def Let_def split: if_splits)
  have n: "0 < ?n" "?n < 2 ^ 32" "0 < rcfg_command_queue_capacity c"
    using v by (auto simp: cp att1_runtime_config_valid_def UINT32_MAX_nat_def split: if_splits)
  have q: "rq_inv (rcfg_command_queue_capacity c) (att1_runtime_queue_init (rcfg_command_queue_capacity c))"
    using n(3) by (auto simp: rq_inv_def att1_runtime_queue_init_def slot_ok_def command_ok_def zero_command_def)
  have "barrier_ok ?n (replicate ?n W_NONE) 0 False 0 0" by (auto simp: barrier_ok_def waiting_def)
  then show ?thesis
    using n q r fc
    by (simp add: rt rt_inv_def rt_data_ok_def rt_host_ok_def rt_barrier_ok_def worker_ok_def att1_tile_state_init_def)
qed

lemma rt_reachable_inv: "rt_reachable rt \<Longrightarrow> rt_inv rt"
proof (induction rule: rt_reachable.induct)
  case (create ok falloc cp rt) then show ?case by (rule rt_inv_create)
next
  case (step rt rt') then show ?case using rt_inv_step by blast
qed

end
