(* ===== verification/Runtime_Props.thy ===== *)
theory Runtime_Props
  imports Runtime_Inv
begin

text \<open>
  The properties of the tile runtime: the command queues, the barrier, the end of a stop, and
  two behaviours of its error paths. Concrete runs are computed by an executable reading of the
  step relation.
\<close>

section \<open>Executable runs\<close>

datatype rt_action =
    A_WORKER nat
  | A_SEND u32 att1_runtime_command
  | A_START
  | A_START_THREAD "att1_status option"
  | A_STOP
  | A_JOIN

fun rt_act :: "rt_action \<Rightarrow> att1_runtime \<Rightarrow> att1_runtime option" where
  "rt_act (A_WORKER i) rt = (if i < rt_n rt then att1_sim_tile_thread_step (\<lambda>_. True) i rt else None)"
| "rt_act (A_SEND t cmd) rt = (if command_ok cmd then Some (snd (att1_runtime_send_command t (Some cmd) rt)) else None)"
| "rt_act A_START rt =
     (if rt_host rt = H_IDLE \<and> list_all (\<lambda>w. w = W_NONE) (rt_workers rt) \<and> rt_workers rt \<noteq> []
      then Some (snd (att1_runtime_start rt)) else None)"
| "rt_act (A_START_THREAD failure) rt = Some (snd (att1_runtime_start_thread failure rt))"
| "rt_act A_STOP rt = (if rt_host rt = H_IDLE then Some (snd (att1_runtime_stop rt)) else None)"
| "rt_act A_JOIN rt = att1_runtime_join_thread rt"

fun rt_acts :: "rt_action list \<Rightarrow> att1_runtime \<Rightarrow> att1_runtime option" where
  "rt_acts [] rt = Some rt"
| "rt_acts (a # as) rt = (case rt_act a rt of None \<Rightarrow> None | Some rt' \<Rightarrow> rt_acts as rt')"

lemma rt_act_step: "rt_act a rt = Some rt' \<Longrightarrow> rt_step rt rt'"
proof (cases a)
  case (A_WORKER i)
  assume "rt_act a rt = Some rt'"
  then show ?thesis using A_WORKER rt_step.worker [of i rt "\<lambda>_. True" rt'] by (simp split: if_splits)
next
  case (A_SEND t cmd)
  assume "rt_act a rt = Some rt'"
  then show ?thesis using A_SEND rt_step.send [of cmd t rt] by (simp split: if_splits) (metis prod.collapse)
next
  case A_START
  assume a: "rt_act a rt = Some rt'"
  then have "set (rt_workers rt) = {W_NONE}" using A_START by (cases "rt_workers rt") (auto simp: list_all_iff split: if_splits)
  then show ?thesis using A_START a rt_step.start [of rt] by (simp split: if_splits) (metis prod.collapse)
next
  case (A_START_THREAD f)
  assume "rt_act a rt = Some rt'"
  then show ?thesis using A_START_THREAD rt_step.start_thread [of f rt] by simp (metis prod.collapse)
next
  case A_STOP
  assume "rt_act a rt = Some rt'"
  then show ?thesis using A_STOP rt_step.stop [of rt] by (simp split: if_splits) (metis prod.collapse)
next
  case A_JOIN
  assume "rt_act a rt = Some rt'"
  then show ?thesis using A_JOIN rt_step.join [of rt] by simp
qed

lemma rt_acts_reachable: "rt_reachable rt \<Longrightarrow> rt_acts as rt = Some rt' \<Longrightarrow> rt_reachable rt'"
proof (induction as arbitrary: rt)
  case (Cons a as)
  obtain rt1 where "rt_act a rt = Some rt1" "rt_acts as rt1 = Some rt'"
    using Cons.prems(2) by (auto split: option.splits)
  then show ?case using Cons.IH rt_reachable.step [OF Cons.prems(1) rt_act_step] by blast
qed simp

definition demo_config :: att1_runtime_config where
  "demo_config = \<lparr>rcfg_tile_count = 2, rcfg_command_queue_capacity = 2, rcfg_fabric_queue_capacity = 1,
     rcfg_fabric_max_payload_bytes = 1\<rparr>"

definition demo_rt_fabric :: att1_fabric where
  "demo_rt_fabric = the (snd (att1_fabric_create (\<lambda>_. True) (Some zero_fabric)
     (Some \<lparr>fc_tile_count = 2, fc_queue_capacity = 1, fc_max_payload_bytes = 1\<rparr>)))"

definition demo_rt :: att1_runtime where
  "demo_rt =
     \<lparr>rt_config = demo_config, rt_fabric = demo_rt_fabric, rt_tiles = [att1_tile_state_init 0, att1_tile_state_init 1],
      rt_queues = [att1_runtime_queue_init 2, att1_runtime_queue_init 2],
      rt_barrier_expected = 0, rt_barrier_arrived = 0, rt_barrier_generation = 0,
      rt_barrier_active = False, rt_stop_requested = False, rt_threads_started = False,
      rt_workers = [W_NONE, W_NONE], rt_host = H_IDLE\<rparr>"

definition demo_cmd :: "att1_runtime_command_type \<Rightarrow> att1_runtime_command" where
  "demo_cmd ty = zero_command\<lparr>rm_type := ty\<rparr>"

text \<open>Both tiles started and idle.\<close>

definition demo_started :: "rt_action list" where
  "demo_started = [A_START, A_START_THREAD None, A_START_THREAD None, A_START_THREAD None, A_WORKER 0, A_WORKER 1]"

text \<open>A tile takes a command and begins to run it.\<close>

definition demo_take :: "nat \<Rightarrow> att1_runtime_command_type \<Rightarrow> rt_action list" where
  "demo_take i ty = [A_SEND (word_of_nat i) (demo_cmd ty), A_WORKER i, A_WORKER i, A_WORKER i]"

lemma demo_rt_reachable: "rt_reachable demo_rt"
proof -
  have "att1_fabric_create (\<lambda>_. True) (Some zero_fabric)
      (Some \<lparr>fc_tile_count = 2, fc_queue_capacity = 1, fc_max_payload_bytes = 1\<rparr>) = (ATT1_OK, Some demo_rt_fabric)"
    by (simp add: demo_rt_fabric_def att1_fabric_create_def att1_fabric_config_valid_def UINT32_MAX_nat_def
        att1_mul_size_def SIZE_MAX_def Let_def upt_conv_Cons)
  moreover have two: "replicate 2 W_NONE = [W_NONE, W_NONE]" by (simp add: numeral_2_eq_2)
  ultimately have "att1_runtime_create (\<lambda>_. True) (\<lambda>_. True) (Some demo_config) = (ATT1_OK, Some demo_rt)"
    by (simp add: att1_runtime_create_def demo_config_def att1_runtime_config_valid_def UINT32_MAX_nat_def
        demo_rt_def Let_def upt_conv_Cons first_index_def two)
  then show ?thesis by (rule rt_reachable.create)
qed

lemma demo_reachable: "rt_acts as demo_rt = Some rt \<Longrightarrow> rt_reachable rt"
  by (rule rt_acts_reachable [OF demo_rt_reachable])

lemma demo_some: "rt_acts as demo_rt \<noteq> None \<Longrightarrow> rt_reachable (the (rt_acts as demo_rt))"
  using demo_reachable by auto

lemmas demo_defs =
  demo_started_def demo_take_def demo_cmd_def demo_rt_def demo_config_def zero_command_def RUNTIME_MAX_COMMAND_PAYLOAD_def
  command_ok_def att1_runtime_start_def att1_runtime_start_thread_def att1_runtime_stop_def att1_runtime_join_thread_def
  att1_runtime_send_command_def att1_runtime_valid_tile_def rq_push_def rq_pop_def att1_runtime_queue_init_def
  att1_runtime_queue_clear_def att1_sim_tile_thread_step_def att1_runtime_dequeue_def tile_updates
  barrier_fabric_arrive_def Let_def case_prod_beta

text \<open>Workers stepping one after the other.\<close>

fun worker_steps :: "(nat \<Rightarrow> bool) \<Rightarrow> nat list \<Rightarrow> att1_runtime \<Rightarrow> att1_runtime option" where
  "worker_steps alloc [] rt = Some rt"
| "worker_steps alloc (i # is) rt =
     (case att1_sim_tile_thread_step alloc i rt of None \<Rightarrow> None | Some rt' \<Rightarrow> worker_steps alloc is rt')"

lemma worker_steps_append:
  "worker_steps alloc (xs @ ys) rt = (case worker_steps alloc xs rt of None \<Rightarrow> None | Some rt' \<Rightarrow> worker_steps alloc ys rt')"
  by (induction xs arbitrary: rt) (simp_all split: option.split)

section \<open>What a step leaves alone\<close>

lemma step_frame:
  assumes "att1_sim_tile_thread_step alloc k rt = Some rt'"
  shows "rt_config rt' = rt_config rt \<and> rt_stop_requested rt' = rt_stop_requested rt \<and> rt_host rt' = rt_host rt
    \<and> rt_threads_started rt' = rt_threads_started rt \<and> (\<forall>j. j \<noteq> k \<longrightarrow> rt_workers rt' ! j = rt_workers rt ! j)"
proof -
  have p: "let r = att1_runtime_process_command alloc k cmd rt in rt_config r = rt_config rt \<and> rt_stop_requested r = rt_stop_requested rt \<and> rt_host r = rt_host rt
    \<and> rt_threads_started r = rt_threads_started rt \<and> (\<forall>j. j \<noteq> k \<longrightarrow> rt_workers r ! j = rt_workers rt ! j)" for cmd
    by (cases "rm_type cmd")
      (auto simp: tile_updates att1_runtime_handle_send_activation_def att1_runtime_handle_recv_activation_def
        barrier_fabric_arrive_def Let_def case_prod_beta)
  show ?thesis
    using assms p [unfolded Let_def]
    by (cases "rt_workers rt ! k")
      (auto simp del: att1_runtime_process_command.simps simp: att1_sim_tile_thread_step_def tile_updates att1_runtime_dequeue_def Let_def case_prod_beta
        barrier_join_def att1_runtime_reset_barrier_def split: if_splits)
qed

lemma step_barrier_frame:
  assumes "att1_sim_tile_thread_step alloc k rt = Some rt'" "rt_workers rt ! k \<noteq> W_BARRIER"
  shows "rt_barrier_active rt' = rt_barrier_active rt \<and> rt_barrier_generation rt' = rt_barrier_generation rt"
proof -
  have p: "let r = att1_runtime_process_command alloc k cmd rt in rt_barrier_active r = rt_barrier_active rt \<and> rt_barrier_generation r = rt_barrier_generation rt" for cmd
    by (cases "rm_type cmd")
      (auto simp: tile_updates att1_runtime_handle_send_activation_def att1_runtime_handle_recv_activation_def
        barrier_fabric_arrive_def Let_def case_prod_beta)
  show ?thesis
    using assms p [unfolded Let_def]
    by (cases "rt_workers rt ! k")
      (auto simp del: att1_runtime_process_command.simps simp: att1_sim_tile_thread_step_def tile_updates att1_runtime_dequeue_def Let_def case_prod_beta
        split: if_splits)
qed

text \<open>A blocked worker stays blocked until a stop or until the last tile joins.\<close>

lemma blocked_worker_step:
  assumes "rt_inv rt" "i < rt_n rt" "rt_workers rt ! i = W_WAIT g" "barrier_blocked g rt" "k < rt_n rt"
    and "att1_sim_tile_thread_step alloc k rt = Some rt'"
  shows "rt_workers rt' ! i = W_WAIT g \<and> rt_n rt' = rt_n rt \<and> k \<noteq> i
    \<and> (barrier_blocked g rt'
       \<or> rt_workers rt ! k = W_BARRIER \<and> (\<forall>j < rt_n rt. j \<noteq> k \<longrightarrow> rt_workers rt ! j = W_WAIT g))"
proof -
  have ki: "k \<noteq> i" using assms(3,4,6) by (auto simp: att1_sim_tile_thread_step_def)
  note f = step_frame [OF assms(6)]
  have w: "rt_workers rt' ! i = W_WAIT g" using f ki assms(3) by auto
  have b: "\<not> rt_stop_requested rt" "rt_barrier_active rt" "rt_barrier_generation rt = g"
    using assms(4) by (simp_all add: barrier_blocked_def)
  show ?thesis
  proof (cases "rt_workers rt ! k = W_BARRIER")
    case True
    have ok: "barrier_ok (rt_n rt) (rt_workers rt) (rt_barrier_generation rt) (rt_barrier_active rt)
        (rt_barrier_expected rt) (rt_barrier_arrived rt)"
      using rt_barrier_okD [OF assms(1) b(1) assms(5)] True by simp
    have rt': "rt' = barrier_join k rt" using assms(6) True by (simp add: att1_sim_tile_thread_step_def)
    note c = barrier_join_cases [OF ok assms(5) rt_inv_parts(3) [OF assms(1)] True]
    show ?thesis
    proof (cases "\<forall>j < rt_n rt. j \<noteq> k \<longrightarrow> rt_workers rt ! j = W_WAIT g")
      case False
      then have "barrier_blocked g rt'" using c b unfolding rt' by (auto simp: barrier_blocked_def)
      then show ?thesis using w ki f by simp
    qed (use w ki f True in simp)
  next
    case False
    then have "barrier_blocked g rt'"
      using step_barrier_frame [OF assms(6)] f assms(4) by (simp add: barrier_blocked_def)
    then show ?thesis using w ki f by simp
  qed
qed

lemma blocked_step:
  assumes "rt_inv rt" "i < rt_n rt" "rt_workers rt ! i = W_WAIT g" "barrier_blocked g rt" "rt_step rt rt'"
  shows "rt_n rt' = rt_n rt \<and> rt_workers rt' ! i = W_WAIT g \<and> (rt_stop_requested rt' \<or> barrier_blocked g rt'
      \<or> (\<exists>k < rt_n rt. k \<noteq> i \<and> rt_workers rt ! k = W_BARRIER
           \<and> (\<forall>j < rt_n rt. j \<noteq> k \<longrightarrow> rt_workers rt ! j = W_WAIT g)))"
  using assms(5)
proof cases
  case (worker k alloc)
  then show ?thesis using blocked_worker_step [OF assms(1-4)] by blast
next
  case (send cmd t st)
  then show ?thesis using assms(3,4)
    by (auto simp: att1_runtime_send_command_def Let_def barrier_blocked_def split: if_splits)
next
  case (start st)
  then have "rt_workers rt ! i = W_NONE"
    using assms(2) rt_inv_parts(3) [OF assms(1)] nth_mem [of i "rt_workers rt"] by auto
  then show ?thesis using assms(3) by simp
next
  case (start_thread f st)
  have "H_STARTING i \<noteq> rt_host rt"
    using assms(1,2,3) by (auto simp: rt_inv_def rt_host_ok_def split: host.splits)
  then show ?thesis using start_thread assms(3,4)
    by (auto simp: att1_runtime_start_thread_def att1_runtime_stop_def barrier_blocked_def nth_list_update
        split: host.splits if_splits option.splits)
next
  case (stop st)
  then show ?thesis using assms(3,4) by (auto simp: att1_runtime_stop_def split: if_splits)
next
  case join
  then have "rt_stop_requested rt"
    using assms(1) by (auto simp: att1_runtime_join_thread_def rt_inv_def rt_host_ok_def split: host.splits)
  then show ?thesis using assms(4) by (simp add: barrier_blocked_def)
qed

text \<open>A thread that has returned is only removed by the join of a stop.\<close>

lemma done_step:
  assumes "rt_inv rt" "k < rt_n rt" "rt_workers rt ! k = W_DONE" "rt_step rt rt'" "\<not> rt_stop_requested rt'"
  shows "rt_workers rt' ! k = W_DONE"
  using assms(4)
proof cases
  case (worker m alloc)
  then have "m \<noteq> k" using assms(3) by (auto simp: att1_sim_tile_thread_step_def)
  then show ?thesis using step_frame [OF worker(2)] assms(3) by auto
next
  case (send cmd t st)
  then show ?thesis using assms(3) by (auto simp: att1_runtime_send_command_def Let_def split: if_splits)
next
  case (start st)
  then have "rt_workers rt ! k = W_NONE"
    using assms(2) rt_inv_parts(3) [OF assms(1)] nth_mem [of k "rt_workers rt"] by auto
  then show ?thesis using assms(3) by simp
next
  case (start_thread f st)
  have "rt_host rt = H_STARTING m \<Longrightarrow> m \<noteq> k" for m
    using assms(1,2,3) by (auto simp: rt_inv_def rt_host_ok_def)
  then show ?thesis using start_thread assms(3)
    by (auto simp: att1_runtime_start_thread_def att1_runtime_stop_def split: host.splits if_splits option.splits)
next
  case (stop st)
  then show ?thesis using assms(3) by (auto simp: att1_runtime_stop_def split: if_splits)
next
  case join
  then show ?thesis using assms(1,3,5)
    by (auto simp: att1_runtime_join_thread_def tile_updates rt_inv_def rt_host_ok_def split: host.splits if_splits)
qed

section \<open>All tiles at the barrier\<close>

text \<open>The tiles of \<open>D\<close> wait in the current generation, the others are about to join.\<close>

definition gathered :: "nat set \<Rightarrow> att1_runtime \<Rightarrow> bool" where
  "gathered D rt \<longleftrightarrow> rt_inv rt \<and> \<not> rt_stop_requested rt
     \<and> (\<forall>j < rt_n rt. rt_workers rt ! j = (if j \<in> D then W_WAIT (rt_barrier_generation rt) else W_BARRIER))"

lemma gathered_join:
  assumes "gathered D rt" "i < rt_n rt" "i \<notin> D"
  shows "if {..<rt_n rt} \<subseteq> insert i D
    then barrier_join i rt = set_worker i W_IDLE (att1_runtime_reset_barrier rt)
    else gathered (insert i D) (barrier_join i rt)"
proof -
  have g: "rt_inv rt" "\<not> rt_stop_requested rt"
    "\<And>j. j < rt_n rt \<Longrightarrow> rt_workers rt ! j = (if j \<in> D then W_WAIT (rt_barrier_generation rt) else W_BARRIER)"
    using assms(1) by (simp_all add: gathered_def)
  have w: "rt_workers rt ! i = W_BARRIER" using g(3) [OF assms(2)] assms(3) by simp
  have ok: "barrier_ok (rt_n rt) (rt_workers rt) (rt_barrier_generation rt) (rt_barrier_active rt)
        (rt_barrier_expected rt) (rt_barrier_arrived rt)"
    using rt_barrier_okD [OF g(1,2) assms(2)] w by simp
  note c = barrier_join_cases [OF ok assms(2) rt_inv_parts(3) [OF g(1)] w]
  have all: "(\<forall>j < rt_n rt. j \<noteq> i \<longrightarrow> rt_workers rt ! j = W_WAIT (rt_barrier_generation rt)) \<longleftrightarrow> {..<rt_n rt} \<subseteq> insert i D"
    using g(3) by auto
  have inv: "rt_inv (barrier_join i rt)" by (rule rt_inv_barrier [OF g(1) assms(2) w])
  show ?thesis
  proof (cases "{..<rt_n rt} \<subseteq> insert i D")
    case True
    then show ?thesis using c all by simp
  next
    case False
    then have e: "barrier_join i rt = set_worker i (W_WAIT (rt_barrier_generation rt))
           (rt\<lparr>rt_barrier_active := True, rt_barrier_expected := rt_n rt,
              rt_barrier_arrived := card (waiting (rt_n rt) (rt_workers rt) (rt_barrier_generation rt)) + 1\<rparr>)"
      using c all by simp
    have "gathered (insert i D) (barrier_join i rt)"
      using inv g(2,3) assms(2) rt_inv_parts(3) [OF g(1)] unfolding gathered_def by (auto simp: e nth_list_update)
    then show ?thesis using False by simp
  qed
qed

lemma worker_at_barrier: "rt_workers rt ! i = W_BARRIER \<Longrightarrow> att1_sim_tile_thread_step alloc i rt = Some (barrier_join i rt)"
  by (simp add: att1_sim_tile_thread_step_def)

lemma barrier_join_n: "rt_n (barrier_join i rt) = rt_n rt"
  by (simp add: barrier_join_frame)

lemma gathered_steps:
  assumes "gathered D rt" "distinct xs" "set xs \<inter> D = {}" "set xs \<union> D \<subset> {..<rt_n rt}"
  shows "\<exists>rt'. worker_steps alloc xs rt = Some rt' \<and> gathered (set xs \<union> D) rt' \<and> rt_n rt' = rt_n rt
    \<and> rt_barrier_generation rt' = rt_barrier_generation rt"
  using assms
proof (induction xs arbitrary: rt D)
  case (Cons i xs)
  have i: "i < rt_n rt" "i \<notin> D" using Cons.prems(3,4) by auto
  have w: "rt_workers rt ! i = W_BARRIER" using Cons.prems(1) i by (simp add: gathered_def)
  have "\<not> {..<rt_n rt} \<subseteq> insert i D" using Cons.prems(4) by auto
  then have g: "gathered (insert i D) (barrier_join i rt)" using gathered_join [OF Cons.prems(1) i] by simp
  have "rt_barrier_generation (barrier_join i rt) = rt_barrier_generation rt"
  proof -
    have "rt_workers (barrier_join i rt) ! i = W_WAIT (rt_barrier_generation (barrier_join i rt))"
      using g i(1) by (simp add: gathered_def barrier_join_n)
    then show ?thesis using i(1) rt_inv_parts(3) [of rt] Cons.prems(1)
      by (auto simp: barrier_join_def Let_def att1_runtime_reset_barrier_def gathered_def split: if_splits)
  qed
  moreover have "\<exists>rt'. worker_steps alloc xs (barrier_join i rt) = Some rt' \<and> gathered (set xs \<union> insert i D) rt'
      \<and> rt_n rt' = rt_n (barrier_join i rt) \<and> rt_barrier_generation rt' = rt_barrier_generation (barrier_join i rt)"
    using Cons.prems(2-4) by (intro Cons.IH [OF g]) (auto simp: barrier_join_n)
  ultimately show ?case using worker_at_barrier [OF w] by (auto simp: barrier_join_n)
qed auto

text \<open>Waiting workers leave one by one once the barrier is no longer active.\<close>

lemma released_steps:
  assumes "\<not> rt_stop_requested rt" "\<not> rt_barrier_active rt" "distinct xs"
    and "\<forall>j \<in> set xs. j < length (rt_workers rt) \<and> (\<exists>g. rt_workers rt ! j = W_WAIT g)"
  shows "\<exists>ws. worker_steps alloc xs rt = Some (rt\<lparr>rt_workers := ws\<rparr>) \<and> length ws = length (rt_workers rt)
    \<and> (\<forall>j < length ws. ws ! j = (if j \<in> set xs then W_IDLE else rt_workers rt ! j))"
  using assms
proof (induction xs arbitrary: rt)
  case Nil
  have "rt\<lparr>rt_workers := rt_workers rt\<rparr> = rt" by simp
  then show ?case by (intro exI [of _ "rt_workers rt"]) simp
next
  case (Cons i xs)
  let ?r = "set_worker i W_IDLE rt"
  have s: "att1_sim_tile_thread_step alloc i rt = Some ?r"
    using Cons.prems by (auto simp: att1_sim_tile_thread_step_def barrier_blocked_def)
  have "\<exists>ws. worker_steps alloc xs ?r = Some (?r\<lparr>rt_workers := ws\<rparr>) \<and> length ws = length (rt_workers ?r)
    \<and> (\<forall>j < length ws. ws ! j = (if j \<in> set xs then W_IDLE else rt_workers ?r ! j))"
    using Cons.prems by (intro Cons.IH) (auto simp: nth_list_update)
  then obtain ws where ws: "worker_steps alloc xs ?r = Some (rt\<lparr>rt_workers := ws\<rparr>)" "length ws = length (rt_workers rt)"
    "\<forall>j < length ws. ws ! j = (if j \<in> set xs then W_IDLE else (rt_workers rt)[i := W_IDLE] ! j)" by auto
  then show ?case using s Cons.prems(4) by (intro exI [of _ ws]) (auto simp: nth_list_update)
qed

section \<open>The end of a stop\<close>

definition worker_rank :: "worker \<Rightarrow> nat" where
  "worker_rank w = (case w of W_NONE \<Rightarrow> 0 | W_START \<Rightarrow> 3 | W_IDLE \<Rightarrow> 2 | W_COUNT c \<Rightarrow> 8 | W_RUN c \<Rightarrow> 7 | W_SENT st \<Rightarrow> 3
     | W_RECEIVED st \<Rightarrow> 3 | W_BARRIER \<Rightarrow> 5 | W_WAIT g \<Rightarrow> 4 | W_FAIL \<Rightarrow> 3 | W_EXIT \<Rightarrow> 1 | W_DONE \<Rightarrow> 0)"

definition stop_measure :: "nat \<Rightarrow> att1_runtime \<Rightarrow> nat" where
  "stop_measure i rt = 7 * rq_count (rt_queues rt ! i) + worker_rank (rt_workers rt ! i)"

lemma process_rank:
  "let r = att1_runtime_process_command alloc i cmd rt in
     rt_queues r = rt_queues rt \<and> length (rt_workers r) = length (rt_workers rt)
     \<and> (i < length (rt_workers rt) \<longrightarrow> rt_workers r ! i \<noteq> W_NONE \<and> worker_rank (rt_workers r ! i) \<le> 5)"
  by (cases "rm_type cmd")
    (auto simp: tile_updates att1_runtime_handle_send_activation_def att1_runtime_handle_recv_activation_def
      barrier_fabric_arrive_def Let_def case_prod_beta worker_rank_def)

lemma stop_step:
  assumes "rt_inv rt" "rt_stop_requested rt" "i < rt_n rt" "rt_workers rt ! i \<notin> {W_NONE, W_DONE}"
  shows "\<exists>rt'. att1_sim_tile_thread_step alloc i rt = Some rt' \<and> stop_measure i rt' < stop_measure i rt
    \<and> rt_workers rt' ! i \<noteq> W_NONE"
proof -
  note p = rt_inv_parts [OF assms(1)]
  have i: "i < length (rt_workers rt)" "i < length (rt_queues rt)" using p assms(3) by simp_all
  show ?thesis
  proof (cases "rt_workers rt ! i")
    case W_IDLE
    then show ?thesis using i assms(2)
      by (cases "rq_count (rt_queues rt ! i)")
        (auto simp: att1_sim_tile_thread_step_def att1_runtime_dequeue_def Let_def rq_pop_def stop_measure_def worker_rank_def)
  next
    case (W_RUN cmd)
    then show ?thesis using i process_rank [of alloc i cmd rt]
      by (auto simp del: att1_runtime_process_command.simps
          simp: att1_sim_tile_thread_step_def stop_measure_def worker_rank_def [of "W_RUN cmd"] Let_def)
  next
    case W_BARRIER
    have "rt_workers (barrier_join i rt) = (rt_workers rt)[i := W_IDLE]
        \<or> rt_workers (barrier_join i rt) = (rt_workers rt)[i := W_WAIT (rt_barrier_generation rt)]"
      by (simp add: barrier_join_def Let_def att1_runtime_reset_barrier_def)
    then obtain w where "rt_workers (barrier_join i rt) = (rt_workers rt)[i := w]" "w \<noteq> W_NONE" "worker_rank w \<le> 4"
      by (auto simp: worker_rank_def)
    then show ?thesis using i W_BARRIER
      by (auto simp: att1_sim_tile_thread_step_def stop_measure_def worker_rank_def [of W_BARRIER] barrier_join_frame)
  qed (use i assms(2,4) in \<open>auto simp: att1_sim_tile_thread_step_def stop_measure_def worker_rank_def tile_updates
      barrier_blocked_def\<close>)
qed

lemma stop_run:
  assumes "rt_inv rt" "rt_stop_requested rt" "i < rt_n rt" "rt_workers rt ! i \<noteq> W_NONE"
  shows "\<exists>k rt'. k \<le> stop_measure i rt \<and> worker_steps alloc (replicate k i) rt = Some rt' \<and> rt_workers rt' ! i = W_DONE"
  using assms
proof (induction "stop_measure i rt" arbitrary: rt rule: less_induct)
  case less
  show ?case
  proof (cases "rt_workers rt ! i = W_DONE")
    case True
    then show ?thesis by (intro exI [of _ 0] exI [of _ rt]) simp
  next
    case False
    then obtain rt1 where s: "att1_sim_tile_thread_step alloc i rt = Some rt1" "stop_measure i rt1 < stop_measure i rt"
      "rt_workers rt1 ! i \<noteq> W_NONE"
      using stop_step [OF less.prems(1-3)] less.prems(4) by blast
    have "rt_inv rt1" by (rule rt_inv_worker [OF less.prems(1,3) s(1)])
    moreover have "rt_stop_requested rt1" "rt_n rt1 = rt_n rt" using step_frame [OF s(1)] less.prems(2) by simp_all
    ultimately obtain k rt' where "k \<le> stop_measure i rt1" "worker_steps alloc (replicate k i) rt1 = Some rt'"
      "rt_workers rt' ! i = W_DONE"
      using less.hyps [OF s(2)] less.prems(3) s(3) by auto
    then show ?thesis using s by (intro exI [of _ "Suc k"] exI [of _ rt']) auto
  qed
qed

section \<open>Properties\<close>

text \<open>The commands waiting in the queue of a tile, oldest first.\<close>

abbreviation rt_pending :: "nat \<Rightarrow> att1_runtime \<Rightarrow> att1_runtime_command list" where
  "rt_pending i rt \<equiv> rq_content (rt_queues rt ! i)"

text \<open>
  C34. At every point of every interleaving of the workers and the controlling thread: each
  command queue holds at most its capacity of commands, each with a payload of at most 64 bytes;
  the fabric keeps the configured geometry; and while no stop is requested, an active barrier has
  counted exactly the workers that wait in its generation, at least one and not all, and
  with no active barrier nobody waits in the current generation.
\<close>
theorem rt_reachable_invariant:
  assumes "rt_reachable rt" "i < rt_n rt"
  shows "length (rt_pending i rt) \<le> rt_cap rt
    \<and> (\<forall>c \<in> set (rt_pending i rt). rm_payload_bytes c \<le> RUNTIME_MAX_COMMAND_PAYLOAD)
    \<and> f_tiles (rt_fabric rt) = rt_n rt
    \<and> (\<not> rt_stop_requested rt \<and> rt_workers rt ! i \<noteq> W_NONE \<longrightarrow>
         (let waiters = {j. j < rt_n rt \<and> rt_workers rt ! j = W_WAIT (rt_barrier_generation rt)}
          in if rt_barrier_active rt
             then rt_barrier_expected rt = rt_n rt \<and> rt_barrier_arrived rt = card waiters
               \<and> 0 < card waiters \<and> card waiters < rt_n rt
             else waiters = {}))"
proof -
  have inv: "rt_inv rt" by (rule rt_reachable_inv [OF assms(1)])
  have q: "rq_inv (rt_cap rt) (rt_queues rt ! i)" by (rule rt_inv_parts(7) [OF inv assms(2)])
  have "\<forall>c \<in> set (rt_pending i rt). slot_ok c"
    using q by (auto simp: rq_inv_def rq_content_def ring_content_def)
  then have 1: "length (rt_pending i rt) \<le> rt_cap rt"
    "\<forall>c \<in> set (rt_pending i rt). rm_payload_bytes c \<le> RUNTIME_MAX_COMMAND_PAYLOAD"
    using q by (auto simp: rq_inv_def slot_ok_def)
  have 2: "f_tiles (rt_fabric rt) = rt_n rt" using inv by (simp add: rt_inv_def rt_data_ok_def)
  have 3: "barrier_ok (rt_n rt) (rt_workers rt) (rt_barrier_generation rt) (rt_barrier_active rt)
      (rt_barrier_expected rt) (rt_barrier_arrived rt)" if "\<not> rt_stop_requested rt" "rt_workers rt ! i \<noteq> W_NONE"
    by (rule rt_barrier_okD [OF inv that(1) assms(2) that(2)])
  show ?thesis using 1 2 3 by (auto simp: barrier_ok_def waiting_def Let_def)
qed

text \<open>Both tiles hold a barrier command and have arrived at the fabric.\<close>

definition demo_both :: att1_runtime where
  "demo_both = the (rt_acts (demo_started @ demo_take 0 RT_SYNC_BARRIER @ demo_take 1 RT_SYNC_BARRIER) demo_rt)"

lemma demo_both_facts:
  "rt_reachable demo_both" "rt_n demo_both = 2" "rt_workers demo_both = [W_BARRIER, W_BARRIER]"
  "\<not> rt_stop_requested demo_both" "\<not> rt_barrier_active demo_both" "rt_barrier_generation demo_both = 1"
proof -
  let ?r = "rt_acts (demo_started @ demo_take 0 RT_SYNC_BARRIER @ demo_take 1 RT_SYNC_BARRIER) demo_rt"
  have r: "?r \<noteq> None" "rt_n (the ?r) = 2" "rt_workers (the ?r) = [W_BARRIER, W_BARRIER]"
    "\<not> rt_stop_requested (the ?r)" "\<not> rt_barrier_active (the ?r)" "rt_barrier_generation (the ?r) = 1"
    by (simp_all add: demo_defs)
  then have "rt_acts (demo_started @ demo_take 0 RT_SYNC_BARRIER @ demo_take 1 RT_SYNC_BARRIER) demo_rt = Some demo_both"
    unfolding demo_both_def by simp
  then show "rt_reachable demo_both" by (rule demo_reachable)
  show "rt_n demo_both = 2" "rt_workers demo_both = [W_BARRIER, W_BARRIER]"
  "\<not> rt_stop_requested demo_both" "\<not> rt_barrier_active demo_both" "rt_barrier_generation demo_both = 1"
    unfolding demo_both_def by (rule r)+
qed

theorem rt_reachable_invariant_witness:
  "rt_reachable demo_both \<and> length (rt_pending 0 demo_both) \<le> rt_cap demo_both \<and> f_tiles (rt_fabric demo_both) = 2"
  using rt_reachable_invariant [OF demo_both_facts(1), of 0] demo_both_facts by simp

text \<open>
  C14. Barrier safety: a worker blocked at the barrier stays blocked, whatever step is taken
  anywhere, unless the step requests a stop or is the join of the only tile that was missing, all
  others waiting in the same generation.
\<close>
theorem rt_barrier_safety:
  assumes "rt_reachable rt" "i < rt_n rt" "rt_workers rt ! i = W_WAIT g" "barrier_blocked g rt" "rt_step rt rt'"
  shows "rt_workers rt' ! i = W_WAIT g
    \<and> (barrier_blocked g rt' \<or> rt_stop_requested rt'
       \<or> (\<exists>k < rt_n rt. k \<noteq> i \<and> rt_workers rt ! k = W_BARRIER
            \<and> (\<forall>j < rt_n rt. j \<noteq> k \<longrightarrow> rt_workers rt ! j = W_WAIT g)))"
  using blocked_step [OF rt_reachable_inv [OF assms(1)] assms(2-5)] by blast

text \<open>The first tile waits, the second one is about to join.\<close>

definition demo_half :: att1_runtime where
  "demo_half = barrier_join 0 demo_both"

lemma demo_half_facts:
  "rt_reachable demo_half" "rt_n demo_half = 2" "rt_workers demo_half = [W_WAIT 1, W_BARRIER]"
  "barrier_blocked 1 demo_half"
proof -
  have "att1_sim_tile_thread_step (\<lambda>_. True) 0 demo_both = Some demo_half"
    using worker_at_barrier [of demo_both 0 "\<lambda>_. True"] demo_both_facts(3) by (simp add: demo_half_def)
  then have "rt_step demo_both demo_half" using rt_step.worker [of 0 demo_both] demo_both_facts(2) by simp
  then show "rt_reachable demo_half" by (rule rt_reachable.step [OF demo_both_facts(1)])
  show "rt_n demo_half = 2" "rt_workers demo_half = [W_WAIT 1, W_BARRIER]" "barrier_blocked 1 demo_half"
    using demo_both_facts by (simp_all add: demo_half_def barrier_join_def Let_def barrier_blocked_def)
qed

theorem rt_barrier_safety_witness:
  "\<exists>rt'. rt_step demo_half rt' \<and> rt_workers rt' ! 0 = W_WAIT 1"
proof -
  have s: "rt_step demo_half (snd (att1_runtime_send_command 0 (Some zero_command) demo_half))"
    by (rule rt_step.send [where cmd = zero_command and t = 0
          and st = "fst (att1_runtime_send_command 0 (Some zero_command) demo_half)"])
      (simp_all add: command_ok_def zero_command_def)
  show ?thesis using rt_barrier_safety [OF demo_half_facts(1) _ _ demo_half_facts(4) s, of 0] s demo_half_facts(2,3) by auto
qed

text \<open>
  C28. Barrier liveness: when all tiles stand at the barrier, whatever the order in which they
  join and the order in which the waiting ones are then scheduled, every tile leaves it, the
  barrier is no longer active and its generation has advanced by one.
\<close>
theorem rt_barrier_completes:
  assumes "rt_reachable rt" "\<not> rt_stop_requested rt" "\<forall>j < rt_n rt. rt_workers rt ! j = W_BARRIER"
    and "distinct (first @ [final])" "set (first @ [final]) = {..<rt_n rt}"
    and "distinct order" "set order = set first"
  shows "\<exists>rt'. worker_steps alloc (first @ [final] @ order) rt = Some rt' \<and> (\<forall>j < rt_n rt. rt_workers rt' ! j = W_IDLE)
    \<and> \<not> rt_barrier_active rt' \<and> rt_barrier_generation rt' = rt_barrier_generation rt + 1"
proof -
  have inv: "rt_inv rt" by (rule rt_reachable_inv [OF assms(1)])
  have "gathered {} rt" using inv assms(2,3) by (simp add: gathered_def)
  moreover have "set first \<union> {} \<subset> {..<rt_n rt}" using assms(4,5) by auto
  ultimately obtain rt1 where 1: "worker_steps alloc first rt = Some rt1" "gathered (set first) rt1" "rt_n rt1 = rt_n rt"
    "rt_barrier_generation rt1 = rt_barrier_generation rt"
    using gathered_steps [of "{}" rt first alloc] assms(4) by auto
  have f: "final < rt_n rt1" "final \<notin> set first" "{..<rt_n rt1} \<subseteq> insert final (set first)"
    using assms(4,5) 1(3) by auto
  let ?r = "set_worker final W_IDLE (att1_runtime_reset_barrier rt1)"
  have w: "rt_workers rt1 ! final = W_BARRIER" using 1(2) f by (simp add: gathered_def)
  have 2: "att1_sim_tile_thread_step alloc final rt1 = Some ?r"
    using worker_at_barrier [OF w] gathered_join [OF 1(2) f(1,2)] f(3) by simp
  have len: "length (rt_workers rt1) = rt_n rt1" using 1(2) rt_inv_parts(3) by (simp add: gathered_def)
  have "set order \<subseteq> {..<rt_n rt1}" using assms(5,7) 1(3) by auto
  then have "\<exists>ws. worker_steps alloc order ?r = Some (?r\<lparr>rt_workers := ws\<rparr>) \<and> length ws = length (rt_workers ?r)
    \<and> (\<forall>j < length ws. ws ! j = (if j \<in> set order then W_IDLE else rt_workers ?r ! j))"
    using 1(2) assms(6,7) f(1,2) len
    by (intro released_steps) (auto simp: gathered_def att1_runtime_reset_barrier_def nth_list_update)
  then obtain ws where ws: "worker_steps alloc order ?r = Some (?r\<lparr>rt_workers := ws\<rparr>)" "length ws = rt_n rt"
    "\<forall>j < length ws. ws ! j = (if j \<in> set order then W_IDLE else (rt_workers rt1)[final := W_IDLE] ! j)"
    using len 1(3) by (auto simp: att1_runtime_reset_barrier_def)
  have "\<forall>j < rt_n rt. ws ! j = W_IDLE"
    using ws(2,3) f(3) assms(7) 1(3) len f(1) by (auto simp: nth_list_update)
  then show ?thesis
    using 1 2 ws(1) by (intro exI [of _ "?r\<lparr>rt_workers := ws\<rparr>"])
      (simp add: worker_steps_append att1_runtime_reset_barrier_def)
qed

theorem rt_barrier_completes_witness:
  "\<exists>rt'. worker_steps (\<lambda>_. True) [1, 0, 1] demo_both = Some rt' \<and> rt_workers rt' ! 0 = W_IDLE \<and> rt_workers rt' ! 1 = W_IDLE"
proof -
  have "\<forall>j < rt_n demo_both. rt_workers demo_both ! j = W_BARRIER"
    using demo_both_facts by (simp add: less_2_cases_iff)
  moreover have "set ([1] @ [0]) = {..<rt_n demo_both}" using demo_both_facts by (auto simp: less_2_cases_iff)
  ultimately show ?thesis
    using rt_barrier_completes [OF demo_both_facts(1,4), of "[1]" 0 "[1]" "\<lambda>_. True"] demo_both_facts(2) by auto
qed

text \<open>Execution in which no stop is requested.\<close>

abbreviation unstopped_run :: "att1_runtime \<Rightarrow> att1_runtime \<Rightarrow> bool" where
  "unstopped_run \<equiv> (\<lambda>a b. rt_step a b \<and> \<not> rt_stop_requested b)\<^sup>*\<^sup>*"

text \<open>
  A tile that has shut down takes the barrier with it: while another tile is
  blocked at the barrier, no execution without a stop ever releases it.
\<close>
theorem rt_shutdown_blocks_barrier:
  assumes "rt_reachable rt" "i < rt_n rt" "rt_workers rt ! i = W_WAIT g" "barrier_blocked g rt"
    and "k < rt_n rt" "rt_workers rt ! k = W_DONE" "unstopped_run rt rt'"
  shows "rt_workers rt' ! i = W_WAIT g \<and> barrier_blocked g rt'"
proof -
  have "rt_inv rt' \<and> rt_n rt' = rt_n rt \<and> rt_workers rt' ! i = W_WAIT g \<and> barrier_blocked g rt' \<and> rt_workers rt' ! k = W_DONE"
    using assms(7)
  proof (induction rule: rtranclp_induct)
    case base
    then show ?case using assms(3,4,6) rt_reachable_inv [OF assms(1)] by simp
  next
    case (step a b)
    have a: "rt_inv a" "i < rt_n a" "rt_workers a ! i = W_WAIT g" "barrier_blocked g a" "k < rt_n a"
      "rt_workers a ! k = W_DONE" "k \<noteq> i"
      using step.IH assms(2,3,5,6) by auto
    have ab: "rt_step a b" "\<not> rt_stop_requested b" using step.hyps(2) by simp_all
    have "\<not> (\<exists>m < rt_n a. m \<noteq> i \<and> rt_workers a ! m = W_BARRIER \<and> (\<forall>j < rt_n a. j \<noteq> m \<longrightarrow> rt_workers a ! j = W_WAIT g))"
      using a(5,6) by (auto dest!: spec [of _ k])
    then have b: "rt_n b = rt_n a" "rt_workers b ! i = W_WAIT g" "barrier_blocked g b"
      using blocked_step [OF a(1-4) ab(1)] ab(2) by blast+
    have "rt_workers b ! k = W_DONE" by (rule done_step [OF a(1,5,6) ab])
    then show ?case using b step.IH rt_inv_step [OF a(1) ab(1)] by simp
  qed
  then show ?thesis by simp
qed

text \<open>The second tile has shut down, the first one waits.\<close>

definition demo_shut :: att1_runtime where
  "demo_shut = the (rt_acts (demo_started @ demo_take 1 RT_SHUTDOWN @ [A_WORKER 1]
     @ demo_take 0 RT_SYNC_BARRIER @ [A_WORKER 0]) demo_rt)"

lemma demo_shut_facts:
  "rt_reachable demo_shut" "rt_n demo_shut = 2" "rt_workers demo_shut = [W_WAIT 1, W_DONE]"
  "barrier_blocked 1 demo_shut" "rt_host demo_shut = H_IDLE" "rt_threads_started demo_shut" "rt_pending 0 demo_shut = []" "rt_cap demo_shut = 2"
proof -
  let ?r = "rt_acts (demo_started @ demo_take 1 RT_SHUTDOWN @ [A_WORKER 1] @ demo_take 0 RT_SYNC_BARRIER @ [A_WORKER 0]) demo_rt"
  have r: "?r \<noteq> None" "rt_n (the ?r) = 2" "rt_workers (the ?r) = [W_WAIT 1, W_DONE]" "barrier_blocked 1 (the ?r)"
    "rt_host (the ?r) = H_IDLE" "rt_threads_started (the ?r)" "rt_pending 0 (the ?r) = []" "rt_cap (the ?r) = 2"
    by (simp_all add: demo_defs barrier_join_def barrier_blocked_def rq_content_def)
  then have "?r = Some demo_shut" unfolding demo_shut_def by simp
  then show "rt_reachable demo_shut" by (rule demo_reachable)
  show "rt_n demo_shut = 2" "rt_workers demo_shut = [W_WAIT 1, W_DONE]" "barrier_blocked 1 demo_shut"
    "rt_host demo_shut = H_IDLE" "rt_threads_started demo_shut" "rt_pending 0 demo_shut = []" "rt_cap demo_shut = 2"
    unfolding demo_shut_def by (rule r)+
qed

theorem rt_shutdown_blocks_barrier_witness:
  "rt_workers demo_shut ! 0 = W_WAIT 1 \<and> barrier_blocked 1 demo_shut"
  using rt_shutdown_blocks_barrier [OF demo_shut_facts(1), of 0 1 1 demo_shut] demo_shut_facts by simp

text \<open>
  Sending a command, on every branch: it is refused while the runtime is not started, for a
  tile that does not exist and for a payload above 64 bytes; a full queue is reported; otherwise
  the command is appended to the pending ones of its tile. Nothing else changes.
\<close>
theorem rt_send_command_spec:
  assumes "rt_reachable rt" "command_ok cmd" "att1_runtime_send_command t (Some cmd) rt = (st, rt')"
  defines "valid \<equiv> rt_threads_started rt \<and> unat t < rt_n rt \<and> rm_payload_bytes cmd \<le> RUNTIME_MAX_COMMAND_PAYLOAD"
  shows "if \<not> valid then st = ATT1_ERR_INVALID_ARG \<and> rt' = rt
    else if length (rt_pending (unat t) rt) = rt_cap rt then st = ATT1_ERR_QUEUE_FULL \<and> rt' = rt
    else st = ATT1_OK \<and> rt' = rt\<lparr>rt_queues := rt_queues rt'\<rparr> \<and> rt_pending (unat t) rt' = rt_pending (unat t) rt @ [cmd]
      \<and> (\<forall>j. j \<noteq> unat t \<longrightarrow> rt_queues rt' ! j = rt_queues rt ! j)"
proof -
  note s = assms(3) [unfolded att1_runtime_send_command_def att1_runtime_valid_tile_def Let_def]
  have inv: "rt_inv rt" by (rule rt_reachable_inv [OF assms(1)])
  let ?q = "rt_queues rt ! unat t"
  consider (bad) "\<not> valid" | (full) "valid" "rq_count ?q = rt_cap rt" | (ok) "valid" "rq_count ?q \<noteq> rt_cap rt" by blast
  then show ?thesis
  proof cases
    case bad
    then show ?thesis using s by (auto simp: valid_def split: if_splits)
  next
    case full
    then show ?thesis using s by (simp add: valid_def)
  next
    case ok
    have v: "unat t < rt_n rt" "rm_payload_bytes cmd \<le> RUNTIME_MAX_COMMAND_PAYLOAD" using ok(1) by (simp_all add: valid_def)
    have q: "rq_inv (rt_cap rt) ?q" by (rule rt_inv_parts(7) [OF inv v(1)])
    then have lt: "rq_count ?q < rt_cap rt" using ok(2) by (simp add: rq_inv_def)
    have e: "st = ATT1_OK" "rt' = rt\<lparr>rt_queues := (rt_queues rt)[unat t := rq_push (rt_cap rt) cmd ?q]\<rparr>"
      using s ok by (simp_all add: valid_def)
    have "rq_content (rq_push (rt_cap rt) cmd ?q) = rq_content ?q @ [cmd]"
      using q lt v(2) assms(2) by (intro rq_push_content(2)) (simp_all add: slot_ok_def)
    then show ?thesis using ok e v(1) rt_inv_parts(2) [OF inv] by simp
  qed
qed

theorem rt_send_command_spec_witness:
  "\<exists>rt'. att1_runtime_send_command 0 (Some zero_command) demo_shut = (ATT1_OK, rt') \<and> rt_pending 0 rt' = [zero_command]"
proof -
  obtain st rt' where s: "att1_runtime_send_command 0 (Some zero_command) demo_shut = (st, rt')" by force
  have "command_ok zero_command" by (simp add: command_ok_def zero_command_def)
  from rt_send_command_spec [OF demo_shut_facts(1) this s] s demo_shut_facts
  show ?thesis by (auto simp: zero_command_def)
qed

text \<open>
  An idle worker takes the oldest pending command of its tile, drains its queue even while a
  stop is requested, leaves its loop on a stop only when the queue is empty, and otherwise blocks.
\<close>
theorem rt_worker_takes_oldest:
  assumes "rt_reachable rt" "i < rt_n rt" "rt_workers rt ! i = W_IDLE"
  shows "case rt_pending i rt of
      [] \<Rightarrow> att1_sim_tile_thread_step alloc i rt = (if rt_stop_requested rt then Some (set_worker i W_EXIT rt) else None)
    | c # cs \<Rightarrow> (\<exists>rt'. att1_sim_tile_thread_step alloc i rt = Some rt' \<and> rt_workers rt' ! i = W_COUNT c
        \<and> rt_pending i rt' = cs \<and> (\<forall>j. j \<noteq> i \<longrightarrow> rt_queues rt' ! j = rt_queues rt ! j \<and> rt_workers rt' ! j = rt_workers rt ! j))"
proof (cases "rq_count (rt_queues rt ! i) = 0")
  case True
  then have "rt_pending i rt = []" by (simp add: rq_content_def)
  then show ?thesis using True assms(3) by (simp add: att1_sim_tile_thread_step_def att1_runtime_dequeue_def Let_def)
next
  case False
  have inv: "rt_inv rt" by (rule rt_reachable_inv [OF assms(1)])
  note p = rt_inv_parts [OF inv]
  let ?pop = "rq_pop (rt_cap rt) (rt_queues rt ! i)"
  have c: "rt_pending i rt = fst ?pop # rq_content (snd ?pop)" by (rule rq_pop_content(3) [OF p(7) [OF assms(2)] False])
  have "att1_sim_tile_thread_step alloc i rt
      = Some (set_worker i (W_COUNT (fst ?pop)) (rt\<lparr>rt_queues := (rt_queues rt)[i := snd ?pop]\<rparr>))"
    using False assms(3) by (simp add: att1_sim_tile_thread_step_def att1_runtime_dequeue_def Let_def case_prod_beta)
  then show ?thesis using c p(2,3) assms(2) by simp
qed

text \<open>The first tile idles with one pending command.\<close>

definition demo_idle :: att1_runtime where
  "demo_idle = the (rt_acts (demo_started @ [A_SEND 0 (demo_cmd RT_SYNC_BARRIER)]) demo_rt)"

lemma demo_idle_facts:
  "rt_reachable demo_idle" "rt_n demo_idle = 2" "rt_workers demo_idle = [W_IDLE, W_IDLE]"
  "rt_pending 0 demo_idle = [demo_cmd RT_SYNC_BARRIER]"
proof -
  let ?r = "rt_acts (demo_started @ [A_SEND 0 (demo_cmd RT_SYNC_BARRIER)]) demo_rt"
  have r: "?r \<noteq> None" "rt_n (the ?r) = 2" "rt_workers (the ?r) = [W_IDLE, W_IDLE]"
    "rt_pending 0 (the ?r) = [demo_cmd RT_SYNC_BARRIER]"
    by (simp_all add: demo_defs rq_content_def ring_content_def)
  then have "?r = Some demo_idle" unfolding demo_idle_def by simp
  then show "rt_reachable demo_idle" by (rule demo_reachable)
  show "rt_n demo_idle = 2" "rt_workers demo_idle = [W_IDLE, W_IDLE]"
    "rt_pending 0 demo_idle = [demo_cmd RT_SYNC_BARRIER]"
    unfolding demo_idle_def by (rule r)+
qed

theorem rt_worker_takes_oldest_witness:
  "\<exists>rt'. att1_sim_tile_thread_step (\<lambda>_. True) 0 demo_idle = Some rt' \<and> rt_workers rt' ! 0 = W_COUNT (demo_cmd RT_SYNC_BARRIER)"
  using rt_worker_takes_oldest [OF demo_idle_facts(1), of 0 "\<lambda>_. True"] demo_idle_facts(2-4) by auto

text \<open>
  C35. Once a stop is requested no worker can block any more: scheduled alone it returns within
  seven steps per pending command and eight more, wherever it was, waiting at the barrier included,
  after draining its queue. The join of its thread is then possible.
\<close>
theorem rt_stop_terminates:
  assumes "rt_reachable rt" "rt_stop_requested rt" "i < rt_n rt" "rt_workers rt ! i \<noteq> W_NONE"
  shows "\<exists>k rt'. k \<le> 7 * length (rt_pending i rt) + 8 \<and> worker_steps alloc (replicate k i) rt = Some rt'
    \<and> rt_workers rt' ! i = W_DONE"
proof -
  have "worker_rank w \<le> 8" for w by (cases w) (simp_all add: worker_rank_def)
  then have "stop_measure i rt \<le> 7 * length (rt_pending i rt) + 8" by (simp add: stop_measure_def)
  then show ?thesis using stop_run [OF rt_reachable_inv [OF assms(1)] assms(2-4), of alloc] by (meson le_trans)
qed

definition demo_stopping :: att1_runtime where
  "demo_stopping = snd (att1_runtime_stop demo_shut)"

theorem rt_stop_terminates_witness:
  "\<exists>k rt'. worker_steps (\<lambda>_. True) (replicate k 0) demo_stopping = Some rt' \<and> rt_workers rt' ! 0 = W_DONE"
proof -
  have s: "att1_runtime_stop demo_shut = (ATT1_OK, demo_stopping)"
    using demo_shut_facts by (simp add: demo_stopping_def att1_runtime_stop_def)
  have "rt_reachable demo_stopping"
    using rt_reachable.step [OF demo_shut_facts(1) rt_step.stop [OF demo_shut_facts(5) s]] .
  moreover have "rt_stop_requested demo_stopping" "rt_n demo_stopping = 2" "rt_workers demo_stopping ! 0 \<noteq> W_NONE"
    using demo_shut_facts by (simp_all add: demo_stopping_def att1_runtime_stop_def)
  ultimately show ?thesis using rt_stop_terminates [of demo_stopping 0 "\<lambda>_. True"] by auto
qed

text \<open>
  When the creation of thread \<open>i\<close> fails, start reports the error but the \<open>i\<close> threads created
  before are still there: the stop it calls returns at once because the runtime is not marked
  as started, and so does every later stop, while commands are refused.
\<close>
theorem rt_failed_start_keeps_threads:
  assumes "rt_reachable rt" "rt_host rt = H_STARTING i" "i < rt_n rt"
    and "att1_runtime_start_thread (Some e) rt = (st, rt')"
  shows "st = Some e \<and> rt_host rt' = H_IDLE \<and> (\<forall>j < rt_n rt'. rt_workers rt' ! j \<noteq> W_NONE \<longleftrightarrow> j < i)
    \<and> att1_runtime_stop rt' = (ATT1_OK, rt') \<and> \<not> rt_stop_requested rt'
    \<and> att1_runtime_send_command t (Some cmd) rt' = (ATT1_ERR_INVALID_ARG, rt')"
proof -
  have h: "\<not> rt_stop_requested rt" "\<not> rt_threads_started rt"
    "\<And>j. j < rt_n rt \<Longrightarrow> rt_workers rt ! j = W_NONE \<longleftrightarrow> i \<le> j"
    using rt_reachable_inv [OF assms(1)] assms(2) by (simp_all add: rt_inv_def rt_host_ok_def)
  have "st = Some e" "rt' = rt\<lparr>rt_host := H_IDLE\<rparr>"
    using assms(2-4) h(2) by (simp_all add: att1_runtime_start_thread_def att1_runtime_stop_def)
  then show ?thesis using h by (auto simp: att1_runtime_stop_def att1_runtime_send_command_def)
qed

theorem rt_failed_start_keeps_threads_witness:
  "\<exists>rt rt'. rt_host rt = H_STARTING 1 \<and> att1_runtime_start_thread (Some ATT1_ERR_OOM) rt = (Some ATT1_ERR_OOM, rt')
     \<and> rt_workers rt' ! 0 \<noteq> W_NONE \<and> att1_runtime_stop rt' = (ATT1_OK, rt')"
proof -
  let ?r = "the (rt_acts [A_START, A_START_THREAD None] demo_rt)"
  have r: "rt_acts [A_START, A_START_THREAD None] demo_rt \<noteq> None" "rt_host ?r = H_STARTING 1" "rt_n ?r = 2"
    by (simp_all add: demo_defs)
  obtain rt1 where rt1: "rt_acts [A_START, A_START_THREAD None] demo_rt = Some rt1" using r(1) by blast
  have q: "rt_host rt1 = H_STARTING 1" "rt_n rt1 = 2" using r(2,3) unfolding rt1 by simp_all
  obtain st rt' where s: "att1_runtime_start_thread (Some ATT1_ERR_OOM) rt1 = (st, rt')" by force
  have "rt_config (snd (att1_runtime_start_thread (Some ATT1_ERR_OOM) rt1)) = rt_config rt1"
    by (simp add: att1_runtime_start_thread_def att1_runtime_stop_def split: host.split)
  then have n: "rt_n rt' = 2" using s q by simp
  from rt_failed_start_keeps_threads [OF demo_reachable [OF rt1] q(1) _ s, of 0 zero_command] q s n
  show ?thesis by (intro exI [of _ rt1] exI [of _ rt']) simp
qed

end
