(* ===== verification/Tok_Meta.thy ===== *)
theory Tok_Meta
  imports Wire "HOL-Library.Monad_Syntax"
begin

text \<open>
  The tokenizer metadata section of a model file (\<^verbatim>\<open>src/tok_meta.c\<close>): a record of 96 bytes,
  parsed with its checks, and the check before it is used at run time. Parsing is exact: it
  accepts a section if and only if it is the encoding of a valid record.
\<close>

section \<open>Data\<close>

definition TOK_META_SIZE :: u64 where "TOK_META_SIZE = 96"
definition TOK_META_SCHEMA_VERSION :: u32 where "TOK_META_SCHEMA_VERSION = 1"
definition TOK_ID_ABSENT :: u32 where "TOK_ID_ABSENT = -1"
definition TOK_TYPE_UNKNOWN :: u32 where "TOK_TYPE_UNKNOWN = 0"
definition TOK_TYPE_BYTE :: u32 where "TOK_TYPE_BYTE = 1"
definition TOK_TYPE_BPE_JSON :: u32 where "TOK_TYPE_BPE_JSON = 2"
definition TOK_TYPE_SENTPIECE :: u32 where "TOK_TYPE_SENTPIECE = 3"
definition TOK_NORM_UNKNOWN :: u32 where "TOK_NORM_UNKNOWN = 0"
definition TOK_NORM_NONE :: u32 where "TOK_NORM_NONE = 1"
definition TOK_NORM_UTF8 :: u32 where "TOK_NORM_UTF8 = 2"
definition TOK_NORM_NFKC :: u32 where "TOK_NORM_NFKC = 3"
definition TOK_NORM_CUSTOM :: u32 where "TOK_NORM_CUSTOM = 4"
definition TOK_PRETOK_UNKNOWN :: u32 where "TOK_PRETOK_UNKNOWN = 0"
definition TOK_PRETOK_NONE :: u32 where "TOK_PRETOK_NONE = 1"
definition TOK_PRETOK_BYTE_LEVEL :: u32 where "TOK_PRETOK_BYTE_LEVEL = 2"
definition TOK_PRETOK_WHITESPACE :: u32 where "TOK_PRETOK_WHITESPACE = 3"
definition TOK_PRETOK_SENTPIECE :: u32 where "TOK_PRETOK_SENTPIECE = 4"
definition TOK_PRETOK_CUSTOM :: u32 where "TOK_PRETOK_CUSTOM = 5"
definition TOK_HASH_NONE :: u32 where "TOK_HASH_NONE = 0"
definition TOK_HASH_SHA256 :: u32 where "TOK_HASH_SHA256 = 1"

lemmas tok_codes =
  TOK_META_SIZE_def TOK_META_SCHEMA_VERSION_def TOK_TYPE_UNKNOWN_def TOK_TYPE_BYTE_def TOK_TYPE_BPE_JSON_def
  TOK_TYPE_SENTPIECE_def TOK_NORM_UNKNOWN_def TOK_NORM_NONE_def TOK_NORM_UTF8_def TOK_NORM_NFKC_def
  TOK_NORM_CUSTOM_def TOK_PRETOK_UNKNOWN_def TOK_PRETOK_NONE_def TOK_PRETOK_BYTE_LEVEL_def
  TOK_PRETOK_WHITESPACE_def TOK_PRETOK_SENTPIECE_def TOK_PRETOK_CUSTOM_def TOK_HASH_NONE_def TOK_HASH_SHA256_def

text \<open>An \<^verbatim>\<open>int32_t\<close> is its bit pattern, read with \<^const>\<open>sint\<close>.\<close>

record att1_tok_meta =
  tkm_present :: bool
  tkm_schema_version :: u32
  tkm_tokenizer_type :: u32
  tkm_vocab_size :: u32
  tkm_bos_token_id :: u32
  tkm_eos_token_id :: u32
  tkm_pad_token_id :: u32
  tkm_unk_token_id :: u32
  tkm_byte_fallback :: u32
  tkm_normalization_policy :: u32
  tkm_pretokenizer_policy :: u32
  tkm_asset_hash_kind :: u32
  tkm_flags :: u32
  tkm_asset_hash :: "u8 list"
  tkm_asset_offset :: u64
  tkm_asset_size :: u64

definition zero_tok_meta :: att1_tok_meta where
  "zero_tok_meta = \<lparr>tkm_present = False, tkm_schema_version = 0, tkm_tokenizer_type = 0, tkm_vocab_size = 0,
     tkm_bos_token_id = 0, tkm_eos_token_id = 0, tkm_pad_token_id = 0, tkm_unk_token_id = 0, tkm_byte_fallback = 0,
     tkm_normalization_policy = 0, tkm_pretokenizer_policy = 0, tkm_asset_hash_kind = 0, tkm_flags = 0,
     tkm_asset_hash = replicate 32 0, tkm_asset_offset = 0, tkm_asset_size = 0\<rparr>"

section \<open>Parsing\<close>

definition tok_type_valid :: "u32 \<Rightarrow> bool" where "tok_type_valid v \<longleftrightarrow> v \<le> TOK_TYPE_SENTPIECE"
definition tok_norm_valid :: "u32 \<Rightarrow> bool" where "tok_norm_valid v \<longleftrightarrow> v \<le> TOK_NORM_CUSTOM"
definition tok_pretok_valid :: "u32 \<Rightarrow> bool" where "tok_pretok_valid v \<longleftrightarrow> v \<le> TOK_PRETOK_CUSTOM"
definition tok_hash_valid :: "u32 \<Rightarrow> bool" where "tok_hash_valid v \<longleftrightarrow> v \<le> TOK_HASH_SHA256"

text \<open>The body of the loop over the four special token identifiers.\<close>

definition tok_id_bad :: "u32 \<Rightarrow> u32 \<Rightarrow> bool" where
  "tok_id_bad vocab_size i \<longleftrightarrow> i \<noteq> TOK_ID_ABSENT \<and> (sint i < 0 \<or> vocab_size \<le> i)"

text \<open>
  \<open>section_data\<close> are the bytes from the pointer to the end of its buffer. The outer option is
  \<^term>\<open>None\<close> when a byte outside the buffer would be read.
\<close>

definition att1_tok_meta_parse ::
  "u8 list option \<Rightarrow> u64 \<Rightarrow> u32 \<Rightarrow> att1_tok_meta option \<Rightarrow> (att1_status \<times> att1_tok_meta option) option" where
  "att1_tok_meta_parse section_data section_size model_vocab out_meta =
     (case (section_data, out_meta) of
        (Some sd, Some _) \<Rightarrow>
          (let bad = Some (ATT1_ERR_BAD_FORMAT, Some zero_tok_meta) in
           if section_size \<noteq> TOK_META_SIZE then bad
           else do {
             schema_version \<leftarrow> rd_u32 sd 0;
             tokenizer_type \<leftarrow> rd_u32 sd 4;
             vocab_size \<leftarrow> rd_u32 sd 8;
             bos_id \<leftarrow> rd_u32 sd 12;
             eos_id \<leftarrow> rd_u32 sd 16;
             pad_id \<leftarrow> rd_u32 sd 20;
             unk_id \<leftarrow> rd_u32 sd 24;
             byte_fallback \<leftarrow> rd_u32 sd 28;
             norm_policy \<leftarrow> rd_u32 sd 32;
             pretok_policy \<leftarrow> rd_u32 sd 36;
             hash_kind \<leftarrow> rd_u32 sd 40;
             flags \<leftarrow> rd_u32 sd 44;
             asset_offset \<leftarrow> rd_u64 sd 80;
             asset_size \<leftarrow> rd_u64 sd 88;
             if schema_version \<noteq> TOK_META_SCHEMA_VERSION then bad
             else if \<not> tok_type_valid tokenizer_type then bad
             else if vocab_size = 0 then bad
             else if vocab_size \<noteq> model_vocab then bad
             else if list_ex (tok_id_bad vocab_size) [bos_id, eos_id, pad_id, unk_id] then bad
             else if 1 < byte_fallback then bad
             else if \<not> tok_norm_valid norm_policy then bad
             else if \<not> tok_pretok_valid pretok_policy then bad
             else if \<not> tok_hash_valid hash_kind then bad
             else if flags \<noteq> 0 then bad
             else if (asset_offset = 0) \<noteq> (asset_size = 0) then bad
             else do {
               asset_hash \<leftarrow> bytes_at sd 48 32;
               Some (ATT1_OK, Some
                 \<lparr>tkm_present = True, tkm_schema_version = schema_version, tkm_tokenizer_type = tokenizer_type,
                  tkm_vocab_size = vocab_size, tkm_bos_token_id = bos_id, tkm_eos_token_id = eos_id,
                  tkm_pad_token_id = pad_id, tkm_unk_token_id = unk_id, tkm_byte_fallback = byte_fallback,
                  tkm_normalization_policy = norm_policy, tkm_pretokenizer_policy = pretok_policy,
                  tkm_asset_hash_kind = hash_kind, tkm_flags = flags, tkm_asset_hash = asset_hash,
                  tkm_asset_offset = asset_offset, tkm_asset_size = asset_size\<rparr>)
             }
           })
      | _ \<Rightarrow> Some (ATT1_ERR_INVALID_ARG, out_meta))"

definition att1_tok_meta_check_runtime :: "att1_tok_meta option \<Rightarrow> u32 \<Rightarrow> att1_status" where
  "att1_tok_meta_check_runtime mp model_vocab =
     (case mp of
        None \<Rightarrow> ATT1_ERR_INVALID_ARG
      | Some m \<Rightarrow>
        (if \<not> tkm_present m then ATT1_ERR_INVALID_ARG
         else if tkm_schema_version m \<noteq> TOK_META_SCHEMA_VERSION then ATT1_ERR_BAD_FORMAT
         else if tkm_tokenizer_type m = TOK_TYPE_UNKNOWN then ATT1_ERR_UNSUPPORTED
         else if TOK_TYPE_SENTPIECE < tkm_tokenizer_type m then ATT1_ERR_BAD_FORMAT
         else if tkm_vocab_size m = 0 \<or> tkm_vocab_size m \<noteq> model_vocab then ATT1_ERR_BAD_FORMAT
         else if list_ex (tok_id_bad (tkm_vocab_size m))
                   [tkm_bos_token_id m, tkm_eos_token_id m, tkm_pad_token_id m, tkm_unk_token_id m]
         then ATT1_ERR_BAD_FORMAT
         else if 1 < tkm_byte_fallback m then ATT1_ERR_BAD_FORMAT
         else if TOK_NORM_CUSTOM < tkm_normalization_policy m then ATT1_ERR_BAD_FORMAT
         else if TOK_PRETOK_CUSTOM < tkm_pretokenizer_policy m then ATT1_ERR_BAD_FORMAT
         else if TOK_HASH_SHA256 < tkm_asset_hash_kind m then ATT1_ERR_BAD_FORMAT
         else if tkm_flags m \<noteq> 0 then ATT1_ERR_BAD_FORMAT
         else if (tkm_asset_offset m = 0) \<noteq> (tkm_asset_size m = 0) then ATT1_ERR_BAD_FORMAT
         else ATT1_OK))"

section \<open>Names\<close>

definition att1_tok_type_name :: "u32 \<Rightarrow> string" where
  "att1_tok_type_name t =
     (if t = TOK_TYPE_UNKNOWN then ''unknown''
      else if t = TOK_TYPE_BYTE then ''byte''
      else if t = TOK_TYPE_BPE_JSON then ''bpe_json''
      else if t = TOK_TYPE_SENTPIECE then ''sentencepiece''
      else ''invalid'')"

definition att1_tok_norm_name :: "u32 \<Rightarrow> string" where
  "att1_tok_norm_name p =
     (if p = TOK_NORM_UNKNOWN then ''unknown''
      else if p = TOK_NORM_NONE then ''none''
      else if p = TOK_NORM_UTF8 then ''utf8''
      else if p = TOK_NORM_NFKC then ''nfkc''
      else if p = TOK_NORM_CUSTOM then ''custom''
      else ''invalid'')"

definition att1_tok_pretok_name :: "u32 \<Rightarrow> string" where
  "att1_tok_pretok_name p =
     (if p = TOK_PRETOK_UNKNOWN then ''unknown''
      else if p = TOK_PRETOK_NONE then ''none''
      else if p = TOK_PRETOK_BYTE_LEVEL then ''byte_level''
      else if p = TOK_PRETOK_WHITESPACE then ''whitespace''
      else if p = TOK_PRETOK_SENTPIECE then ''sentencepiece''
      else if p = TOK_PRETOK_CUSTOM then ''custom''
      else ''invalid'')"

section \<open>The format\<close>

text \<open>The contract of a valid record and its layout, as the header of the format gives it.\<close>

definition tok_valid :: "u32 \<Rightarrow> att1_tok_meta \<Rightarrow> bool" where
  "tok_valid vocab m \<longleftrightarrow> tkm_present m \<and> tkm_schema_version m = 1 \<and> tkm_tokenizer_type m \<le> 3
     \<and> tkm_vocab_size m = vocab \<and> vocab \<noteq> 0
     \<and> (\<forall>i \<in> {tkm_bos_token_id m, tkm_eos_token_id m, tkm_pad_token_id m, tkm_unk_token_id m}.
          sint i = -1 \<or> 0 \<le> sint i \<and> uint i < uint vocab)
     \<and> tkm_byte_fallback m \<le> 1 \<and> tkm_normalization_policy m \<le> 4 \<and> tkm_pretokenizer_policy m \<le> 5
     \<and> tkm_asset_hash_kind m \<le> 1 \<and> tkm_flags m = 0 \<and> length (tkm_asset_hash m) = 32
     \<and> (tkm_asset_offset m = 0 \<longleftrightarrow> tkm_asset_size m = 0)"

definition tok_enc :: "att1_tok_meta \<Rightarrow> u8 list" where
  "tok_enc m = concat
     [le_bytes 4 (tkm_schema_version m), le_bytes 4 (tkm_tokenizer_type m), le_bytes 4 (tkm_vocab_size m),
      le_bytes 4 (tkm_bos_token_id m), le_bytes 4 (tkm_eos_token_id m), le_bytes 4 (tkm_pad_token_id m),
      le_bytes 4 (tkm_unk_token_id m), le_bytes 4 (tkm_byte_fallback m), le_bytes 4 (tkm_normalization_policy m),
      le_bytes 4 (tkm_pretokenizer_policy m), le_bytes 4 (tkm_asset_hash_kind m), le_bytes 4 (tkm_flags m),
      tkm_asset_hash m, le_bytes 8 (tkm_asset_offset m), le_bytes 8 (tkm_asset_size m)]"

lemma tok_id_bad_iff: "\<not> tok_id_bad v i \<longleftrightarrow> sint i = -1 \<or> 0 \<le> sint i \<and> uint i < uint v"
proof -
  have "i = TOK_ID_ABSENT \<longleftrightarrow> sint i = -1"
    by (metis TOK_ID_ABSENT_def signed_minus_1 signed_word_eqI)
  then show ?thesis by (auto simp: tok_id_bad_def word_le_def)
qed

lemma tok_valid_iff:
  "tok_valid vocab m \<longleftrightarrow> tkm_present m \<and> tkm_schema_version m = 1 \<and> \<not> 3 < tkm_tokenizer_type m
     \<and> tkm_vocab_size m = vocab \<and> vocab \<noteq> 0
     \<and> \<not> tok_id_bad vocab (tkm_bos_token_id m) \<and> \<not> tok_id_bad vocab (tkm_eos_token_id m)
     \<and> \<not> tok_id_bad vocab (tkm_pad_token_id m) \<and> \<not> tok_id_bad vocab (tkm_unk_token_id m)
     \<and> \<not> 1 < tkm_byte_fallback m \<and> \<not> 4 < tkm_normalization_policy m \<and> \<not> 5 < tkm_pretokenizer_policy m
     \<and> \<not> 1 < tkm_asset_hash_kind m \<and> tkm_flags m = 0 \<and> length (tkm_asset_hash m) = 32
     \<and> (tkm_asset_offset m = 0 \<longleftrightarrow> tkm_asset_size m = 0)"
  unfolding tok_id_bad_iff not_less tok_valid_def by auto

text \<open>The record the parser builds from the fields of a buffer.\<close>

definition tok_of :: "u8 list \<Rightarrow> att1_tok_meta" where
  "tok_of sd =
     (let u4 = \<lambda>off. read_u32le (read_bytes off 4 sd); u8 = \<lambda>off. read_u64le (read_bytes off 8 sd)
      in \<lparr>tkm_present = True, tkm_schema_version = u4 0, tkm_tokenizer_type = u4 4, tkm_vocab_size = u4 8,
          tkm_bos_token_id = u4 12, tkm_eos_token_id = u4 16, tkm_pad_token_id = u4 20, tkm_unk_token_id = u4 24,
          tkm_byte_fallback = u4 28, tkm_normalization_policy = u4 32, tkm_pretokenizer_policy = u4 36,
          tkm_asset_hash_kind = u4 40, tkm_flags = u4 44, tkm_asset_hash = read_bytes 48 32 sd,
          tkm_asset_offset = u8 80, tkm_asset_size = u8 88\<rparr>)"

lemma tok_parse_eq:
  assumes "96 \<le> length sd"
  shows "att1_tok_meta_parse (Some sd) 96 vocab (Some z) =
    Some (if tok_valid vocab (tok_of sd) then (ATT1_OK, Some (tok_of sd)) else (ATT1_ERR_BAD_FORMAT, Some zero_tok_meta))"
proof -
  have r: "rd_u32 sd off = Some (read_u32le (read_bytes off 4 sd))" if "off \<le> 92" for off
    using assms that by (simp add: rd_u32_def bytes_at_def)
  have r8: "rd_u64 sd off = Some (read_u64le (read_bytes off 8 sd))" if "off \<le> 88" for off
    using assms that by (simp add: rd_u64_def bytes_at_def)
  have h: "bytes_at sd 48 32 = Some (read_bytes 48 32 sd)" "length (read_bytes 48 32 sd) = 32"
    using assms by (simp_all add: bytes_at_def)
  show ?thesis
    unfolding att1_tok_meta_parse_def
    by (simp add: r r8 h Let_def tok_codes tok_valid_iff tok_of_def tok_type_valid_def tok_norm_valid_def tok_pretok_valid_def
        tok_hash_valid_def not_le [symmetric] del: not_le)
qed

lemma tok_enc_of:
  assumes "length sd = 96"
  shows "tok_enc (tok_of sd) = sd"
proof -
  have b4: "le_bytes 4 (read_u32le (read_bytes off 4 sd)) = read_bytes off 4 sd" if "off \<le> 92" for off
    using assms that by (simp add: bytes_read_u32le)
  have b8: "le_bytes 8 (read_u64le (read_bytes off 8 sd)) = read_bytes off 8 sd" if "off \<le> 88" for off
    using assms that by (simp add: bytes_read_u64le)
  have "tok_enc (tok_of sd) = concat (cut_fields 0 [4, 4, 4, 4, 4, 4, 4, 4, 4, 4, 4, 4, 32, 8, 8] sd)"
    by (simp add: tok_enc_def tok_of_def Let_def b4 b8)
  also have "\<dots> = sd" unfolding concat_cut_fields using assms by (simp add: read_bytes_all)
  finally show ?thesis .
qed

lemma length_tok_enc: "tok_valid vocab m \<Longrightarrow> length (tok_enc m) = 96"
  by (simp add: tok_enc_def tok_valid_def)

lemma tok_of_enc:
  assumes "tok_valid vocab m"
  shows "tok_of (tok_enc m @ rest) = m"
proof -
  have "tkm_present m" "length (tkm_asset_hash m) = 32" using assms by (simp_all add: tok_valid_def)
  then show ?thesis
    by (cases m) (simp add: tok_of_def tok_enc_def Let_def read_bytes_skip read_bytes_hit)
qed

text \<open>The section as a record format.\<close>

definition tok_dec :: "u32 \<Rightarrow> u8 list \<Rightarrow> att1_tok_meta option" where
  "tok_dec vocab bs =
     (case att1_tok_meta_parse (Some bs) 96 vocab (Some zero_tok_meta) of
        Some (ATT1_OK, m) \<Rightarrow> m
      | _ \<Rightarrow> None)"

interpretation tok_wire: exact_wire_format 96 tok_enc "tok_dec vocab" "tok_valid vocab" for vocab
proof unfold_locales
  fix m assume v: "tok_valid vocab m"
  then show "length (tok_enc m) = 96" by (rule length_tok_enc)
  then show "tok_dec vocab (tok_enc m) = Some m"
    using tok_parse_eq [of "tok_enc m" vocab] tok_of_enc [OF v, of "[]"] v by (simp add: tok_dec_def)
next
  fix bs m assume "length bs = 96" "tok_dec vocab bs = Some m"
  then show "tok_valid vocab m \<and> tok_enc m = bs"
    using tok_parse_eq [of bs vocab] tok_enc_of by (auto simp: tok_dec_def split: if_splits)
qed

section \<open>Properties\<close>

text \<open>
  C19. Parsing a tokenizer section is exact: with 96 bytes in reach it reads nothing else, and it
  returns a record if and only if the bytes are the encoding of that record and the record is
  valid for the vocabulary of the model; every other section is a format error and leaves the output
  zero. A section of another size is a format error without a single read.
\<close>
theorem tok_meta_parse_exact:
  assumes "96 \<le> length sd"
  shows "(\<exists>r. att1_tok_meta_parse (Some sd) n vocab (Some z) = Some r
           \<and> (fst r = ATT1_OK \<longrightarrow> n = 96 \<and> (\<exists>m. snd r = Some m \<and> tok_valid vocab m \<and> take 96 sd = tok_enc m))
           \<and> (fst r \<noteq> ATT1_OK \<longrightarrow> r = (ATT1_ERR_BAD_FORMAT, Some zero_tok_meta)
                \<and> (n = 96 \<longrightarrow> (\<forall>m. tok_valid vocab m \<longrightarrow> take 96 sd \<noteq> tok_enc m))))
    \<and> (tok_valid vocab m \<longrightarrow> att1_tok_meta_parse (Some (tok_enc m @ rest)) 96 vocab (Some z) = Some (ATT1_OK, Some m))"
proof -
  have "tok_of sd = tok_of (take 96 sd)"
    by (simp add: tok_of_def Let_def read_bytes_take)
  then have e: "tok_enc (tok_of sd) = take 96 sd" using tok_enc_of [of "take 96 sd"] assms by simp
  have other: "tok_valid vocab (tok_of sd)" if "tok_valid vocab m'" "take 96 sd = tok_enc m'" for m'
    using tok_of_enc [OF that(1), of "drop 96 sd"] that by (metis append_take_drop_id)
  have enc: "att1_tok_meta_parse (Some (tok_enc m @ rest)) 96 vocab (Some z) = Some (ATT1_OK, Some m)"
    if "tok_valid vocab m" using tok_parse_eq [of "tok_enc m @ rest" vocab z] length_tok_enc [OF that] tok_of_enc [OF that] that
    by simp
  show ?thesis
  proof (cases "n = 96")
    case True
    then show ?thesis using tok_parse_eq [OF assms, of vocab z] e other enc by (cases "tok_valid vocab (tok_of sd)") auto
  next
    case False
    then have "att1_tok_meta_parse (Some sd) n vocab (Some z) = Some (ATT1_ERR_BAD_FORMAT, Some zero_tok_meta)"
      by (simp add: att1_tok_meta_parse_def TOK_META_SIZE_def)
    then show ?thesis using False enc by auto
  qed
qed

definition demo_tok :: att1_tok_meta where
  "demo_tok = zero_tok_meta\<lparr>tkm_present := True, tkm_schema_version := 1, tkm_tokenizer_type := 1, tkm_vocab_size := 256,
     tkm_bos_token_id := -1, tkm_eos_token_id := 255\<rparr>"

lemma demo_tok_valid: "tok_valid 256 demo_tok"
  by (simp add: tok_valid_def demo_tok_def zero_tok_meta_def)

theorem tok_meta_parse_exact_witness:
  "att1_tok_meta_parse (Some (tok_enc demo_tok @ [7])) 96 256 (Some zero_tok_meta) = Some (ATT1_OK, Some demo_tok)"
  using tok_meta_parse_exact [of "tok_enc demo_tok" 96 256 zero_tok_meta demo_tok "[7]"] demo_tok_valid
    length_tok_enc [OF demo_tok_valid] by simp

text \<open>
  The check before use agrees with the parser: a record that parsed passes it, except that
  an unknown tokenizer type is unsupported.
\<close>
theorem tok_meta_parse_then_check:
  assumes "att1_tok_meta_parse (Some sd) n vocab (Some z) = Some (ATT1_OK, Some m)" "96 \<le> length sd"
  shows "att1_tok_meta_check_runtime (Some m) vocab
    = (if tkm_tokenizer_type m = TOK_TYPE_UNKNOWN then ATT1_ERR_UNSUPPORTED else ATT1_OK)"
proof -
  have n: "n = 96"
  proof (rule ccontr)
    assume "n \<noteq> 96"
    then show False using assms(1) by (simp add: att1_tok_meta_parse_def TOK_META_SIZE_def)
  qed
  then have "tok_valid vocab m"
    using assms(1) tok_parse_eq [OF assms(2), of vocab z] by (simp split: if_splits)
  then show ?thesis by (auto simp: att1_tok_meta_check_runtime_def tok_valid_iff tok_codes)
qed

theorem tok_meta_parse_then_check_witness:
  "att1_tok_meta_check_runtime (Some demo_tok) 256 = ATT1_OK"
proof -
  have "length (tok_enc demo_tok) = 96" by (rule length_tok_enc [OF demo_tok_valid])
  moreover have "att1_tok_meta_parse (Some (tok_enc demo_tok)) 96 256 (Some zero_tok_meta) = Some (ATT1_OK, Some demo_tok)"
    using tok_parse_eq [of "tok_enc demo_tok" 256 zero_tok_meta] calculation tok_of_enc [OF demo_tok_valid, of "[]"]
      demo_tok_valid by simp
  ultimately show ?thesis
    using tok_meta_parse_then_check [of "tok_enc demo_tok" 96 256 zero_tok_meta demo_tok]
    by (simp add: demo_tok_def TOK_TYPE_UNKNOWN_def)
qed

end
