(* ===== verification/Model_Data.thy ===== *)
theory Model_Data
  imports Tok_Meta
begin

text \<open>
  The data of a loaded model (\<^verbatim>\<open>include/att1_model.h\<close>, \<^verbatim>\<open>include/att1_shard_meta.h\<close>): configuration,
  tensor descriptors and shard metadata records. A pointer into the file data is its offset.
\<close>

definition MODEL_MAGIC :: "u8 list" where
  "MODEL_MAGIC = [0x41, 0x54, 0x54, 0x31, 0x4D, 0x4F, 0x44, 0x4C]" \<comment> \<open>the characters ATT1MODL\<close>
definition MODEL_MAGIC_SIZE :: nat where "MODEL_MAGIC_SIZE = 8"
definition MODEL_VERSION :: u32 where "MODEL_VERSION = 1"
definition MODEL_VERSION_2 :: u32 where "MODEL_VERSION_2 = 2"
definition MODEL_NAME_SIZE :: nat where "MODEL_NAME_SIZE = 64"
definition MODEL_MAX_DIMS :: nat where "MODEL_MAX_DIMS = 4"
definition MODEL_HEADER_SIZE :: u32 where "MODEL_HEADER_SIZE = 80"
definition MODEL_HEADER_SIZE_V2 :: u32 where "MODEL_HEADER_SIZE_V2 = 96"
definition MODEL_CONFIG_SIZE :: u64 where "MODEL_CONFIG_SIZE = 36"
definition MODEL_TENSOR_DESC_SIZE :: u64 where "MODEL_TENSOR_DESC_SIZE = 128"
definition MODEL_DTYPE_F32 :: u32 where "MODEL_DTYPE_F32 = 1"
definition MODEL_DTYPE_Q8 :: u32 where "MODEL_DTYPE_Q8 = 2"
definition MODEL_DTYPE_Q4 :: u32 where "MODEL_DTYPE_Q4 = 3"

definition SHARD_META_RECORD_SIZE :: u64 where "SHARD_META_RECORD_SIZE = 120"
definition SHARD_TILE_UNASSIGNED :: u32 where "SHARD_TILE_UNASSIGNED = 0xFFFFFFFF"
definition SHARD_DTYPE_F32 :: u32 where "SHARD_DTYPE_F32 = 1"
definition SHARD_DTYPE_Q8 :: u32 where "SHARD_DTYPE_Q8 = 2"
definition SHARD_QUANT_NONE :: u32 where "SHARD_QUANT_NONE = 0"
definition SHARD_QUANT_PER_ROW_Q8 :: u32 where "SHARD_QUANT_PER_ROW_Q8 = 1"
definition SHARD_REPL_NONE :: u32 where "SHARD_REPL_NONE = 0"
definition SHARD_REPL_READ :: u32 where "SHARD_REPL_READ = 1"
definition SHARD_REPL_WRITE_BCAST :: u32 where "SHARD_REPL_WRITE_BCAST = 2"
definition SHARD_REDUCE_NONE :: u32 where "SHARD_REDUCE_NONE = 0"
definition SHARD_REDUCE_SUM :: u32 where "SHARD_REDUCE_SUM = 1"
definition SHARD_REDUCE_MAX :: u32 where "SHARD_REDUCE_MAX = 2"
definition SHARD_REDUCE_CONCAT :: u32 where "SHARD_REDUCE_CONCAT = 3"

lemmas model_codes =
  MODEL_MAGIC_SIZE_def MODEL_VERSION_def MODEL_VERSION_2_def MODEL_NAME_SIZE_def MODEL_MAX_DIMS_def MODEL_HEADER_SIZE_def
  MODEL_HEADER_SIZE_V2_def MODEL_CONFIG_SIZE_def MODEL_TENSOR_DESC_SIZE_def MODEL_DTYPE_F32_def MODEL_DTYPE_Q8_def
  MODEL_DTYPE_Q4_def

lemmas shard_codes =
  SHARD_META_RECORD_SIZE_def SHARD_DTYPE_F32_def SHARD_DTYPE_Q8_def SHARD_QUANT_NONE_def SHARD_QUANT_PER_ROW_Q8_def
  SHARD_REPL_NONE_def SHARD_REPL_READ_def SHARD_REPL_WRITE_BCAST_def SHARD_REDUCE_NONE_def SHARD_REDUCE_SUM_def
  SHARD_REDUCE_MAX_def SHARD_REDUCE_CONCAT_def

record att1_model_config =
  mc_vocab_size :: u32
  mc_n_layers :: u32
  mc_n_heads :: u32
  mc_d_model :: u32
  mc_d_ff :: u32
  mc_max_seq_len :: u32
  mc_rope_dim :: u32
  mc_n_tiles :: u32
  mc_shard_count :: u32

text \<open>The name is the 64 bytes of the array, the last one zero.\<close>

record att1_model_tensor =
  mt_name :: "u8 list"
  mt_dtype :: u32
  mt_ndims :: u32
  mt_shape :: "u64 list"
  mt_offset :: u64
  mt_nbytes :: u64
  mt_shard_id :: u32
  mt_flags :: u32
  mt_data :: "u64 option"

record att1_shard_meta_record =
  sr_tensor_id :: u32
  sr_tile_id :: u32
  sr_byte_offset :: u64
  sr_shape :: "u64 list"
  sr_dtype :: u32
  sr_quantization :: u32
  sr_owner_aimu :: u32
  sr_replication_policy :: u32
  sr_dependency_graph :: "u32 list"
  sr_allowed_ops :: u32
  sr_routing_requirements :: u32
  sr_reduction_behavior :: u32
  sr_checksum :: u64

record att1_shard_meta =
  shm_records :: "att1_shard_meta_record list"
  shm_count :: u64

definition empty_shard_meta :: att1_shard_meta where
  "empty_shard_meta = \<lparr>shm_records = [], shm_count = 0\<rparr>"

record att1_model =
  md_config :: att1_model_config
  md_tensor_count :: u64
  md_tensors :: "att1_model_tensor list"
  md_file_data :: "u8 list option"
  md_file_size :: u64
  md_shard_meta :: att1_shard_meta
  md_tok_meta :: att1_tok_meta

definition zero_config :: att1_model_config where
  "zero_config = \<lparr>mc_vocab_size = 0, mc_n_layers = 0, mc_n_heads = 0, mc_d_model = 0, mc_d_ff = 0, mc_max_seq_len = 0,
     mc_rope_dim = 0, mc_n_tiles = 0, mc_shard_count = 0\<rparr>"

definition zero_model :: att1_model where
  "zero_model = \<lparr>md_config = zero_config, md_tensor_count = 0, md_tensors = [], md_file_data = None, md_file_size = 0,
     md_shard_meta = empty_shard_meta, md_tok_meta = zero_tok_meta\<rparr>"

text \<open>An access to an array of the program; \<^term>\<open>None\<close> is an access outside of it.\<close>

definition elem_at :: "'a list \<Rightarrow> nat \<Rightarrow> 'a option" where
  "elem_at xs i = (if i < length xs then Some (xs ! i) else None)"

end
