(* ===== verification/Shard_Meta.thy ===== *)
theory Shard_Meta
  imports Model_Data
begin

text \<open>
  The shard metadata of a model file (\<^verbatim>\<open>src/shard_meta.c\<close>): parsing of the record section, the
  summary and the consistency check. The record format is exact; parsing accepts precisely the
  concatenated encodings of records that match the tensor descriptors.
\<close>

section \<open>Parsing\<close>

definition shard_dtype_valid :: "u32 \<Rightarrow> bool" where
  "shard_dtype_valid dtype \<longleftrightarrow> dtype = SHARD_DTYPE_F32 \<or> dtype = SHARD_DTYPE_Q8"

definition shard_quant_valid :: "u32 \<Rightarrow> bool" where
  "shard_quant_valid quant \<longleftrightarrow> quant = SHARD_QUANT_NONE \<or> quant = SHARD_QUANT_PER_ROW_Q8"

definition shard_repl_valid :: "u32 \<Rightarrow> bool" where
  "shard_repl_valid repl \<longleftrightarrow> repl = SHARD_REPL_NONE \<or> repl = SHARD_REPL_READ \<or> repl = SHARD_REPL_WRITE_BCAST"

definition shard_reduce_valid :: "u32 \<Rightarrow> bool" where
  "shard_reduce_valid reduce \<longleftrightarrow> reduce = SHARD_REDUCE_NONE \<or> reduce = SHARD_REDUCE_SUM \<or> reduce = SHARD_REDUCE_MAX
     \<or> reduce = SHARD_REDUCE_CONCAT"

text \<open>The record at an offset of the section and its reserved word.\<close>

definition shard_read_record :: "u8 list \<Rightarrow> nat \<Rightarrow> (att1_shard_meta_record \<times> u32) option" where
  "shard_read_record sd p = do {
     tensor_id \<leftarrow> rd_u32 sd p;
     tile_id \<leftarrow> rd_u32 sd (p + 4);
     byte_offset \<leftarrow> rd_u64 sd (p + 8);
     s0 \<leftarrow> rd_u64 sd (p + 16);
     s1 \<leftarrow> rd_u64 sd (p + 24);
     s2 \<leftarrow> rd_u64 sd (p + 32);
     s3 \<leftarrow> rd_u64 sd (p + 40);
     dtype \<leftarrow> rd_u32 sd (p + 48);
     quantization \<leftarrow> rd_u32 sd (p + 52);
     owner_aimu \<leftarrow> rd_u32 sd (p + 56);
     replication_policy \<leftarrow> rd_u32 sd (p + 60);
     d0 \<leftarrow> rd_u32 sd (p + 64);
     d1 \<leftarrow> rd_u32 sd (p + 68);
     d2 \<leftarrow> rd_u32 sd (p + 72);
     d3 \<leftarrow> rd_u32 sd (p + 76);
     d4 \<leftarrow> rd_u32 sd (p + 80);
     d5 \<leftarrow> rd_u32 sd (p + 84);
     d6 \<leftarrow> rd_u32 sd (p + 88);
     d7 \<leftarrow> rd_u32 sd (p + 92);
     allowed_ops \<leftarrow> rd_u32 sd (p + 96);
     routing_requirements \<leftarrow> rd_u32 sd (p + 100);
     reduction_behavior \<leftarrow> rd_u32 sd (p + 104);
     reserved \<leftarrow> rd_u32 sd (p + 108);
     checksum \<leftarrow> rd_u64 sd (p + 112);
     Some (\<lparr>sr_tensor_id = tensor_id, sr_tile_id = tile_id, sr_byte_offset = byte_offset, sr_shape = [s0, s1, s2, s3],
            sr_dtype = dtype, sr_quantization = quantization, sr_owner_aimu = owner_aimu,
            sr_replication_policy = replication_policy, sr_dependency_graph = [d0, d1, d2, d3, d4, d5, d6, d7],
            sr_allowed_ops = allowed_ops, sr_routing_requirements = routing_requirements,
            sr_reduction_behavior = reduction_behavior, sr_checksum = checksum\<rparr>, reserved)
   }"

text \<open>The checks on the i-th record; the comparison of the shapes reads the i-th descriptor.\<close>

definition shard_check_record ::
  "att1_model_tensor list option \<Rightarrow> nat \<Rightarrow> att1_shard_meta_record \<Rightarrow> u32 \<Rightarrow> bool option" where
  "shard_check_record tensors i r reserved =
     (if sr_tensor_id r \<noteq> word_of_nat i then Some False
      else if reserved \<noteq> 0 then Some False
      else if \<not> shard_dtype_valid (sr_dtype r) then Some False
      else if \<not> shard_quant_valid (sr_quantization r) then Some False
      else if \<not> shard_repl_valid (sr_replication_policy r) then Some False
      else if \<not> shard_reduce_valid (sr_reduction_behavior r) then Some False
      else (case tensors of
              None \<Rightarrow> Some True
            | Some ts \<Rightarrow> do {
                t \<leftarrow> elem_at ts i;
                Some (\<not> list_ex (\<lambda>d. sr_shape r ! d \<noteq> mt_shape t ! d) [0..<MODEL_MAX_DIMS])
              }))"

text \<open>The loop: \<open>k\<close> records to go, the i-th one next; \<^term>\<open>None\<close> inside is a format error.\<close>

fun shard_parse_loop ::
  "u8 list \<Rightarrow> att1_model_tensor list option \<Rightarrow> nat \<Rightarrow> nat \<Rightarrow> att1_shard_meta_record list option option" where
  "shard_parse_loop sd tensors 0 i = Some (Some [])"
| "shard_parse_loop sd tensors (Suc k) i = do {
     (r, reserved) \<leftarrow> shard_read_record sd (i * 120);
     good \<leftarrow> shard_check_record tensors i r reserved;
     if \<not> good then Some None
     else do {
       rest \<leftarrow> shard_parse_loop sd tensors k (i + 1);
       Some (map_option ((#) r) rest)
     }
   }"

text \<open>\<open>alloc\<close>: the array of records can be allocated; one record takes 120 bytes.\<close>

definition att1_shard_meta_parse ::
  "bool \<Rightarrow> u8 list option \<Rightarrow> u64 \<Rightarrow> u64 \<Rightarrow> att1_model_tensor list option \<Rightarrow> att1_shard_meta option
    \<Rightarrow> (att1_status \<times> att1_shard_meta option) option" where
  "att1_shard_meta_parse alloc section_data section_size tensor_count tensors out_meta =
     (case (section_data, out_meta) of
        (Some sd, Some _) \<Rightarrow>
          (let record_count = section_size div SHARD_META_RECORD_SIZE in
           if section_size mod SHARD_META_RECORD_SIZE \<noteq> 0 then Some (ATT1_ERR_BAD_FORMAT, Some empty_shard_meta)
           else if record_count \<noteq> tensor_count then Some (ATT1_ERR_BAD_FORMAT, Some empty_shard_meta)
           else if tensor_count = 0 then Some (ATT1_OK, Some empty_shard_meta)
           else if word_of_nat (SIZE_MAX div 120) < tensor_count then Some (ATT1_ERR_OOM, Some empty_shard_meta)
           else if \<not> alloc then Some (ATT1_ERR_OOM, Some empty_shard_meta)
           else do {
             res \<leftarrow> shard_parse_loop sd tensors (unat tensor_count) 0;
             case res of
               None \<Rightarrow> Some (ATT1_ERR_BAD_FORMAT, Some empty_shard_meta)
             | Some records \<Rightarrow> Some (ATT1_OK, Some \<lparr>shm_records = records, shm_count = tensor_count\<rparr>)
           })
      | _ \<Rightarrow> Some (ATT1_ERR_INVALID_ARG, out_meta))"

definition att1_shard_meta_free :: "att1_shard_meta option \<Rightarrow> att1_shard_meta option" where
  "att1_shard_meta_free = map_option (\<lambda>_. empty_shard_meta)"

section \<open>Summary\<close>

record att1_shard_meta_summary =
  ss_count :: u64
  ss_assigned :: u64
  ss_unassigned :: u64
  ss_unique_tiles :: u32
  ss_unique_aimus :: u32
  ss_dtype_f32 :: u64
  ss_dtype_q8 :: u64

definition zero_summary :: att1_shard_meta_summary where
  "zero_summary = \<lparr>ss_count = 0, ss_assigned = 0, ss_unassigned = 0, ss_unique_tiles = 0, ss_unique_aimus = 0,
     ss_dtype_f32 = 0, ss_dtype_q8 = 0\<rparr>"

text \<open>The body of the loop, at the i-th record.\<close>

definition summary_step ::
  "att1_shard_meta_record list \<Rightarrow> nat \<Rightarrow> att1_shard_meta_summary \<Rightarrow> att1_shard_meta_summary" where
  "summary_step rs i out =
     (let r = rs ! i;
          out1 = (if sr_tile_id r = SHARD_TILE_UNASSIGNED then out\<lparr>ss_unassigned := ss_unassigned out + 1\<rparr>
                  else
                    (let out' = out\<lparr>ss_assigned := ss_assigned out + 1\<rparr>;
                         seen = list_ex (\<lambda>j. sr_tile_id (rs ! j) = sr_tile_id r) [0..<i]
                     in if \<not> seen then out'\<lparr>ss_unique_tiles := ss_unique_tiles out' + 1\<rparr> else out'));
          seen = list_ex (\<lambda>j. sr_owner_aimu (rs ! j) = sr_owner_aimu r) [0..<i];
          out2 = (if \<not> seen then out1\<lparr>ss_unique_aimus := ss_unique_aimus out1 + 1\<rparr> else out1)
      in if sr_dtype r = SHARD_DTYPE_F32 then out2\<lparr>ss_dtype_f32 := ss_dtype_f32 out2 + 1\<rparr>
         else if sr_dtype r = SHARD_DTYPE_Q8 then out2\<lparr>ss_dtype_q8 := ss_dtype_q8 out2 + 1\<rparr>
         else out2)"

definition att1_shard_meta_summarize ::
  "att1_shard_meta option \<Rightarrow> att1_shard_meta_summary option \<Rightarrow> att1_shard_meta_summary option" where
  "att1_shard_meta_summarize mp out =
     (case out of
        None \<Rightarrow> None
      | Some _ \<Rightarrow>
        (case mp of
           None \<Rightarrow> Some zero_summary
         | Some m \<Rightarrow>
           (if shm_count m = 0 then Some zero_summary
            else Some (fold (summary_step (shm_records m)) [0..<unat (shm_count m)]
                        (zero_summary\<lparr>ss_count := shm_count m\<rparr>)))))"

section \<open>Consistency check\<close>

definition SHARD_META_VIOLATION_FIELD_SIZE :: nat where "SHARD_META_VIOLATION_FIELD_SIZE = 32"
definition SHARD_META_VIOLATION_DESC_SIZE :: nat where "SHARD_META_VIOLATION_DESC_SIZE = 128"

text \<open>The strings up to their terminator.\<close>

record att1_shard_meta_violation =
  sv_tensor_id :: u32
  sv_field :: string
  sv_description :: string

text \<open>The \<^verbatim>\<open>%u\<close> and \<^verbatim>\<open>PRIu64\<close> conversions.\<close>

fun decimal :: "nat \<Rightarrow> string" where
  "decimal n = (if n < 10 then [char_of (48 + n)] else decimal (n div 10) @ [char_of (48 + n mod 10)])"

declare decimal.simps [simp del]

text \<open>
  Appending to the list; \<open>alloc i\<close> is the i-th \<^verbatim>\<open>realloc\<close>. \<^verbatim>\<open>snprintf\<close> and \<^verbatim>\<open>strncpy\<close> cut the
  strings at the size of their arrays. One violation takes 164 bytes.
\<close>

definition violation_append ::
  "(nat \<Rightarrow> bool) \<Rightarrow> att1_shard_meta_violation list \<Rightarrow> u32 \<Rightarrow> string \<Rightarrow> string \<Rightarrow> att1_shard_meta_violation list option" where
  "violation_append alloc v tensor_id field desc =
     (if SIZE_MAX div 164 \<le> length v then None
      else if \<not> alloc (length v) then None
      else Some (v @ [\<lparr>sv_tensor_id = tensor_id, sv_field = take (SHARD_META_VIOLATION_FIELD_SIZE - 1) field,
                       sv_description = take (SHARD_META_VIOLATION_DESC_SIZE - 1) desc\<rparr>]))"

text \<open>The fields and descriptions reported for one record, in the order of the checks.\<close>

definition shard_record_issues ::
  "att1_model_config \<Rightarrow> att1_model_tensor list option \<Rightarrow> u64 \<Rightarrow> att1_shard_meta_record \<Rightarrow> (string \<times> string) list option" where
  "shard_record_issues config tensors tensor_count r =
     (let dec = (\<lambda>w :: u32. decimal (unat w));
          tile = (if sr_tile_id r \<noteq> SHARD_TILE_UNASSIGNED \<and> 0 < mc_n_tiles config \<and> mc_n_tiles config \<le> sr_tile_id r
                  then [(''tile_id'', ''tile_id '' @ dec (sr_tile_id r) @ '' out of range (n_tiles=''
                           @ dec (mc_n_tiles config) @ '')'')]
                  else []);
          owner = (if 0 < mc_n_tiles config \<and> mc_n_tiles config \<le> sr_owner_aimu r
                   then [(''owner_aimu'', ''owner_aimu '' @ dec (sr_owner_aimu r) @ '' out of range (n_tiles=''
                            @ dec (mc_n_tiles config) @ '')'')]
                   else [])
      in case tensors of
           None \<Rightarrow> Some (tile @ owner)
         | Some ts \<Rightarrow>
           (if sr_tensor_id r < (ucast tensor_count :: u32) then do {
              t \<leftarrow> elem_at ts (unat (sr_tensor_id r));
              let dtype_ok = (if sr_dtype r = SHARD_DTYPE_F32 then mt_dtype t = MODEL_DTYPE_F32 else False);
              let dtype = (if \<not> dtype_ok
                           then [(''dtype'', ''dtype mismatch: shard='' @ dec (sr_dtype r) @ '' tensor='' @ dec (mt_dtype t))]
                           else []);
              let off = (if sr_byte_offset r \<noteq> mt_offset t
                         then [(''byte_offset'', ''byte_offset '' @ decimal (unat (sr_byte_offset r))
                                  @ '' does not match tensor offset '' @ decimal (unat (mt_offset t)))]
                         else []);
              Some (tile @ owner @ dtype @ off)
            }
            else Some (tile @ owner)))"

fun append_issues ::
  "(nat \<Rightarrow> bool) \<Rightarrow> u32 \<Rightarrow> (string \<times> string) list \<Rightarrow> att1_shard_meta_violation list \<Rightarrow> att1_shard_meta_violation list option" where
  "append_issues alloc tensor_id [] v = Some v"
| "append_issues alloc tensor_id ((field, desc) # xs) v =
     (case violation_append alloc v tensor_id field desc of
        None \<Rightarrow> None
      | Some v' \<Rightarrow> append_issues alloc tensor_id xs v')"

text \<open>The loop over the records: a memory fault, out of memory, or the violations.\<close>

fun shard_validate_loop ::
  "(nat \<Rightarrow> bool) \<Rightarrow> att1_model_config \<Rightarrow> att1_model_tensor list option \<Rightarrow> u64 \<Rightarrow> att1_shard_meta_record list
    \<Rightarrow> att1_shard_meta_violation list \<Rightarrow> att1_shard_meta_violation list option option" where
  "shard_validate_loop alloc config tensors tensor_count [] v = Some (Some v)"
| "shard_validate_loop alloc config tensors tensor_count (r # rs) v = do {
     issues \<leftarrow> shard_record_issues config tensors tensor_count r;
     case append_issues alloc (sr_tensor_id r) issues v of
       None \<Rightarrow> Some None
     | Some v' \<Rightarrow> shard_validate_loop alloc config tensors tensor_count rs v'
   }"

definition att1_shard_meta_validate ::
  "(nat \<Rightarrow> bool) \<Rightarrow> att1_shard_meta option \<Rightarrow> att1_model_config option \<Rightarrow> att1_model_tensor list option \<Rightarrow> u64 \<Rightarrow> bool
    \<Rightarrow> (att1_status \<times> att1_shard_meta_violation list) option" where
  "att1_shard_meta_validate alloc mp cp tensors tensor_count out_ok =
     (if \<not> out_ok then Some (ATT1_ERR_INVALID_ARG, [])
      else
        (case (mp, cp) of
           (Some m, Some config) \<Rightarrow>
             (if shm_count m = 0 then Some (ATT1_OK, [])
              else do {
                res \<leftarrow> shard_validate_loop alloc config tensors tensor_count (take (unat (shm_count m)) (shm_records m)) [];
                case res of
                  None \<Rightarrow> Some (ATT1_ERR_OOM, [])
                | Some v \<Rightarrow> Some (ATT1_OK, v)
              })
         | _ \<Rightarrow> Some (ATT1_OK, [])))"

end
