(* ===== verification/Model_Loader.thy ===== *)
theory Model_Loader
  imports Shard_Meta
begin

text \<open>
  The model file loader (\<^verbatim>\<open>src/model_loader.c\<close>). Reading outside the file's bytes is \<^term>\<open>None\<close>
  in the outer option; the size arithmetic is in 64-bit words, as in the code.
\<close>

section \<open>Size arithmetic\<close>

definition Q4_GROUP_SIZE_DEFAULT :: u32 where "Q4_GROUP_SIZE_DEFAULT = 32"
definition Q4_GROUP_SIZE_MIN :: u32 where "Q4_GROUP_SIZE_MIN = 16"
definition Q4_GROUP_SIZE_MAX :: u32 where "Q4_GROUP_SIZE_MAX = 128"
definition Q4_FLAGS_GROUP_MASK :: u32 where "Q4_FLAGS_GROUP_MASK = 0xFF"

lemmas q4_codes = Q4_GROUP_SIZE_DEFAULT_def Q4_GROUP_SIZE_MIN_def Q4_GROUP_SIZE_MAX_def Q4_FLAGS_GROUP_MASK_def

definition UINT64_MAX :: u64 where "UINT64_MAX = 0xFFFFFFFFFFFFFFFF"

definition att1_range_valid :: "u64 \<Rightarrow> u64 \<Rightarrow> u64 \<Rightarrow> bool" where
  "att1_range_valid file_size off sz = (if file_size < off then False else if file_size - off < sz then False else True)"

definition att1_u64_mul :: "u64 \<Rightarrow> u64 \<Rightarrow> u64 option" where
  "att1_u64_mul lhs rhs = (if lhs \<noteq> 0 \<and> UINT64_MAX div lhs < rhs then None else Some (lhs * rhs))"

fun tensor_elements :: "u64 list \<Rightarrow> u64 \<Rightarrow> u64 option" where
  "tensor_elements [] elements = Some elements"
| "tensor_elements (d # ds) elements =
     (if d = 0 then None else do { e \<leftarrow> att1_u64_mul elements d; tensor_elements ds e })"

definition q8_nbytes :: "att1_model_tensor \<Rightarrow> u64 option" where
  "q8_nbytes t =
     (if mt_ndims t \<noteq> 2 then None
      else do {
        value_bytes \<leftarrow> att1_u64_mul (mt_shape t ! 0) (mt_shape t ! 1);
        scale_bytes \<leftarrow> att1_u64_mul (mt_shape t ! 0) 4;
        if UINT64_MAX - value_bytes < scale_bytes then None else Some (value_bytes + scale_bytes)
      })"

definition q4_nbytes :: "att1_model_tensor \<Rightarrow> u64 option" where
  "q4_nbytes t =
     (if mt_ndims t \<noteq> 2 then None
      else if mt_flags t AND NOT Q4_FLAGS_GROUP_MASK \<noteq> 0 then None
      else
        (let group_size_raw = mt_flags t AND Q4_FLAGS_GROUP_MASK;
             group_size = (if group_size_raw = 0 then Q4_GROUP_SIZE_DEFAULT else group_size_raw)
         in if group_size < Q4_GROUP_SIZE_MIN \<or> Q4_GROUP_SIZE_MAX < group_size \<or> group_size AND (group_size - 1) \<noteq> 0
            then None
            else if mt_shape t ! 1 mod 2 \<noteq> 0 \<or> mt_shape t ! 1 mod ucast group_size \<noteq> 0 then None
            else do {
              packed_bytes \<leftarrow> att1_u64_mul (mt_shape t ! 0) (mt_shape t ! 1 div 2);
              scale_bytes_per_row \<leftarrow> att1_u64_mul (mt_shape t ! 1 div ucast group_size) 4;
              scale_bytes \<leftarrow> att1_u64_mul (mt_shape t ! 0) scale_bytes_per_row;
              if UINT64_MAX - packed_bytes < scale_bytes then None else Some (packed_bytes + scale_bytes)
            }))"

definition att1_tensor_nbytes_expected :: "att1_model_tensor \<Rightarrow> u64 option" where
  "att1_tensor_nbytes_expected t =
     (if mt_ndims t = 0 \<or> word_of_nat MODEL_MAX_DIMS < mt_ndims t then None
      else do {
        elements \<leftarrow> tensor_elements (take (unat (mt_ndims t)) (mt_shape t)) 1;
        if mt_dtype t = MODEL_DTYPE_F32 then att1_u64_mul elements 4
        else if mt_dtype t = MODEL_DTYPE_Q8 then q8_nbytes t
        else if mt_dtype t = MODEL_DTYPE_Q4 then q4_nbytes t
        else None
      })"

section \<open>Reading the file\<close>

text \<open>What the C library answers: the bytes of the file when it opens, and which calls succeed.\<close>

record file_env =
  fe_bytes :: "u8 list option"
  fe_seek_end :: bool
  fe_seek_set :: bool
  fe_malloc :: bool
  fe_read :: bool

definition att1_model_read_file :: "file_env \<Rightarrow> u8 list option" where
  "att1_model_read_file fe =
     (case fe_bytes fe of
        None \<Rightarrow> None
      | Some bytes \<Rightarrow>
        (if \<not> fe_seek_end fe then None
         else
           (let sz = (if length bytes < 2 ^ 63 then int (length bytes) else -1) \<comment> \<open>\<^verbatim>\<open>ftell\<close>\<close> in
            if sz < 0 then None
            else if \<not> fe_seek_set fe then None
            else if \<not> fe_malloc fe \<and> sz \<noteq> 0 then None
            else if 0 < sz \<and> \<not> fe_read fe then None
            else Some bytes)))"

definition att1_model_parse_config :: "u8 list \<Rightarrow> nat \<Rightarrow> att1_model_config option" where
  "att1_model_parse_config sd p = do {
     vocab_size \<leftarrow> rd_u32 sd p;
     n_layers \<leftarrow> rd_u32 sd (p + 4);
     n_heads \<leftarrow> rd_u32 sd (p + 8);
     d_model \<leftarrow> rd_u32 sd (p + 12);
     d_ff \<leftarrow> rd_u32 sd (p + 16);
     max_seq_len \<leftarrow> rd_u32 sd (p + 20);
     rope_dim \<leftarrow> rd_u32 sd (p + 24);
     n_tiles \<leftarrow> rd_u32 sd (p + 28);
     shard_count \<leftarrow> rd_u32 sd (p + 32);
     Some \<lparr>mc_vocab_size = vocab_size, mc_n_layers = n_layers, mc_n_heads = n_heads, mc_d_model = d_model,
           mc_d_ff = d_ff, mc_max_seq_len = max_seq_len, mc_rope_dim = rope_dim, mc_n_tiles = n_tiles,
           mc_shard_count = shard_count\<rparr>
   }"

definition att1_model_parse_tensor :: "u8 list \<Rightarrow> nat \<Rightarrow> att1_model_tensor option" where
  "att1_model_parse_tensor sd p = do {
     name \<leftarrow> bytes_at sd p MODEL_NAME_SIZE;
     dtype \<leftarrow> rd_u32 sd (p + 64);
     ndims \<leftarrow> rd_u32 sd (p + 68);
     s0 \<leftarrow> rd_u64 sd (p + 72);
     s1 \<leftarrow> rd_u64 sd (p + 80);
     s2 \<leftarrow> rd_u64 sd (p + 88);
     s3 \<leftarrow> rd_u64 sd (p + 96);
     off \<leftarrow> rd_u64 sd (p + 104);
     nbytes \<leftarrow> rd_u64 sd (p + 112);
     shard_id \<leftarrow> rd_u32 sd (p + 120);
     flags \<leftarrow> rd_u32 sd (p + 124);
     Some \<lparr>mt_name = name[MODEL_NAME_SIZE - 1 := 0], mt_dtype = dtype, mt_ndims = ndims, mt_shape = [s0, s1, s2, s3],
           mt_offset = off, mt_nbytes = nbytes, mt_shard_id = shard_id, mt_flags = flags, mt_data = None\<rparr>
   }"

section \<open>The header\<close>

record model_header =
  hd_config_offset :: u64
  hd_config_size :: u64
  hd_desc_offset :: u64
  hd_tensor_count :: u64
  hd_data_offset :: u64
  hd_data_size :: u64
  hd_shard_offset :: u64
  hd_shard_size :: u64
  hd_tok_offset :: u64
  hd_tok_size :: u64

text \<open>Magic, version and fields of the header: a status, or the fields.\<close>

definition load_header :: "u8 list \<Rightarrow> (att1_status + model_header) option" where
  "load_header sd =
     (let file_size = word_of_nat (length sd) in
      if \<not> att1_range_valid file_size 0 (ucast MODEL_HEADER_SIZE) then Some (Inl ATT1_ERR_BAD_FORMAT)
      else do {
        magic \<leftarrow> bytes_at sd 0 MODEL_MAGIC_SIZE;
        if magic \<noteq> MODEL_MAGIC then Some (Inl ATT1_ERR_BAD_FORMAT)
        else do {
          version \<leftarrow> rd_u32 sd 8;
          header_size \<leftarrow> rd_u32 sd 12;
          tok \<leftarrow>
            (if version = MODEL_VERSION then
               (if header_size \<noteq> MODEL_HEADER_SIZE then Some (Inl ATT1_ERR_UNSUPPORTED) else Some (Inr (0, 0)))
             else if version = MODEL_VERSION_2 then
               (if header_size \<noteq> MODEL_HEADER_SIZE_V2 then Some (Inl ATT1_ERR_UNSUPPORTED)
                else if \<not> att1_range_valid file_size 0 (ucast MODEL_HEADER_SIZE_V2) then Some (Inl ATT1_ERR_BAD_FORMAT)
                else do {
                  tok_meta_offset \<leftarrow> rd_u64 sd 80;
                  tok_meta_size \<leftarrow> rd_u64 sd 88;
                  Some (Inr (tok_meta_offset, tok_meta_size))
                })
             else Some (Inl ATT1_ERR_UNSUPPORTED));
          case tok of
            Inl st \<Rightarrow> Some (Inl st)
          | Inr (tok_meta_offset, tok_meta_size) \<Rightarrow> do {
              config_offset \<leftarrow> rd_u64 sd 16;
              config_size \<leftarrow> rd_u64 sd 24;
              desc_offset \<leftarrow> rd_u64 sd 32;
              tensor_count \<leftarrow> rd_u64 sd 40;
              data_offset \<leftarrow> rd_u64 sd 48;
              data_size \<leftarrow> rd_u64 sd 56;
              shard_offset \<leftarrow> rd_u64 sd 64;
              shard_size \<leftarrow> rd_u64 sd 72;
              Some (Inr \<lparr>hd_config_offset = config_offset, hd_config_size = config_size, hd_desc_offset = desc_offset,
                hd_tensor_count = tensor_count, hd_data_offset = data_offset, hd_data_size = data_size,
                hd_shard_offset = shard_offset, hd_shard_size = shard_size, hd_tok_offset = tok_meta_offset,
                hd_tok_size = tok_meta_size\<rparr>)
            }
        }
      })"

text \<open>The checks on the sections: a status, or the size of the descriptor table. The array of
  descriptors is allocated last; a descriptor takes 136 bytes in memory.\<close>

definition load_check_sections :: "bool \<Rightarrow> u64 \<Rightarrow> model_header \<Rightarrow> att1_status + u64" where
  "load_check_sections alloc file_size h =
     (if hd_config_size h \<noteq> MODEL_CONFIG_SIZE then Inl ATT1_ERR_BAD_FORMAT
      else if \<not> att1_range_valid file_size (hd_config_offset h) (hd_config_size h)
           \<or> \<not> att1_range_valid file_size (hd_data_offset h) (hd_data_size h) then Inl ATT1_ERR_BAD_FORMAT
      else if (hd_shard_offset h = 0) \<noteq> (hd_shard_size h = 0)
           \<or> (hd_shard_size h \<noteq> 0 \<and> \<not> att1_range_valid file_size (hd_shard_offset h) (hd_shard_size h))
      then Inl ATT1_ERR_BAD_FORMAT
      else if (hd_tok_offset h = 0) \<noteq> (hd_tok_size h = 0)
           \<or> (hd_tok_size h \<noteq> 0 \<and> \<not> att1_range_valid file_size (hd_tok_offset h) (hd_tok_size h))
      then Inl ATT1_ERR_BAD_FORMAT
      else
        (case att1_u64_mul (hd_tensor_count h) MODEL_TENSOR_DESC_SIZE of
           None \<Rightarrow> Inl ATT1_ERR_BAD_FORMAT
         | Some desc_bytes \<Rightarrow>
           (if \<not> att1_range_valid file_size (hd_desc_offset h) desc_bytes then Inl ATT1_ERR_BAD_FORMAT
            else if hd_shard_size h \<noteq> 0 \<and> hd_shard_offset h < hd_desc_offset h + desc_bytes
                 \<and> hd_desc_offset h < hd_shard_offset h + hd_shard_size h then Inl ATT1_ERR_BAD_FORMAT
            else if hd_shard_size h \<noteq> 0 \<and> hd_shard_offset h < hd_data_offset h + hd_data_size h
                 \<and> hd_data_offset h < hd_shard_offset h + hd_shard_size h then Inl ATT1_ERR_BAD_FORMAT
            else if word_of_nat (SIZE_MAX div 136) < hd_tensor_count h then Inl ATT1_ERR_OOM
            else if \<not> alloc \<and> hd_tensor_count h \<noteq> 0 then Inl ATT1_ERR_OOM
            else Inr desc_bytes)))"

section \<open>Loading\<close>

text \<open>The body of the loop on the descriptor at an offset of the file.\<close>

definition load_tensor :: "u8 list \<Rightarrow> model_header \<Rightarrow> u64 \<Rightarrow> (att1_status + att1_model_tensor) option" where
  "load_tensor sd h tensor_desc_offset = do {
     t \<leftarrow> att1_model_parse_tensor sd (unat tensor_desc_offset);
     case att1_tensor_nbytes_expected t of
       None \<Rightarrow> Some (Inl ATT1_ERR_SHAPE)
     | Some expected_nbytes \<Rightarrow>
       (if mt_nbytes t \<noteq> expected_nbytes then Some (Inl ATT1_ERR_SHAPE)
        else if \<not> att1_range_valid (hd_data_size h) (mt_offset t) (mt_nbytes t) then Some (Inl ATT1_ERR_BAD_FORMAT)
        else Some (Inr (t\<lparr>mt_data := Some (hd_data_offset h + mt_offset t)\<rparr>)))
   }"

text \<open>\<open>k\<close> descriptors to go, the i-th one next.\<close>

fun load_tensors :: "u8 list \<Rightarrow> model_header \<Rightarrow> nat \<Rightarrow> u64 \<Rightarrow> (att1_status + att1_model_tensor list) option" where
  "load_tensors sd h 0 i = Some (Inr [])"
| "load_tensors sd h (Suc k) i = do {
     one \<leftarrow> load_tensor sd h (hd_desc_offset h + i * MODEL_TENSOR_DESC_SIZE);
     case one of
       Inl st \<Rightarrow> Some (Inl st)
     | Inr t \<Rightarrow> do {
         rest \<leftarrow> load_tensors sd h k (i + 1);
         Some (case rest of Inl st \<Rightarrow> Inl st | Inr ts \<Rightarrow> Inr (t # ts))
       }
   }"

definition att1_model_free :: "att1_model option \<Rightarrow> att1_model option" where
  "att1_model_free = map_option (\<lambda>_. zero_model)"

text \<open>The two optional sections, after the tensors of the model are in place.\<close>

definition load_shard_meta ::
  "bool \<Rightarrow> u8 list \<Rightarrow> model_header \<Rightarrow> att1_model \<Rightarrow> (att1_status \<times> att1_model option) option" where
  "load_shard_meta alloc sd h m =
     (if hd_shard_size h \<noteq> 0 then do {
        (meta_rc, meta) \<leftarrow> att1_shard_meta_parse alloc (Some (drop (unat (hd_shard_offset h)) sd)) (hd_shard_size h)
                            (hd_tensor_count h) (Some (md_tensors m)) (Some (md_shard_meta m));
        let m' = m\<lparr>md_shard_meta := the meta\<rparr>;
        if meta_rc \<noteq> ATT1_OK then Some (meta_rc, att1_model_free (Some m')) else Some (ATT1_OK, Some m')
      }
      else Some (ATT1_OK, Some m))"

definition load_tok_meta :: "u8 list \<Rightarrow> model_header \<Rightarrow> att1_model \<Rightarrow> (att1_status \<times> att1_model option) option" where
  "load_tok_meta sd h m =
     (if hd_tok_size h \<noteq> 0 then do {
        (tok_rc, meta) \<leftarrow> att1_tok_meta_parse (Some (drop (unat (hd_tok_offset h)) sd)) (hd_tok_size h)
                           (mc_vocab_size (md_config m)) (Some (md_tok_meta m));
        let m' = m\<lparr>md_tok_meta := the meta\<rparr>;
        if tok_rc \<noteq> ATT1_OK then Some (tok_rc, att1_model_free (Some m')) else Some (ATT1_OK, Some m')
      }
      else Some (ATT1_OK, Some m))"

text \<open>
  The path of the file is what it names, \<open>fe\<close>; \<open>path\<close> is whether the pointer is there. \<open>alloc\<close>
  tells which of the two arrays can be allocated.
\<close>

definition att1_model_load ::
  "file_env \<Rightarrow> bool \<times> bool \<Rightarrow> bool \<Rightarrow> att1_model option \<Rightarrow> (att1_status \<times> att1_model option) option" where
  "att1_model_load fe alloc path model =
     (if \<not> path \<or> model = None then Some (ATT1_ERR_INVALID_ARG, model)
      else
        (case att1_model_read_file fe of
           None \<Rightarrow> Some (ATT1_ERR_IO, Some zero_model)
         | Some sd \<Rightarrow> do {
             header \<leftarrow> load_header sd;
             case header of
               Inl st \<Rightarrow> Some (st, Some zero_model)
             | Inr h \<Rightarrow>
               (case load_check_sections (fst alloc) (word_of_nat (length sd)) h of
                  Inl st \<Rightarrow> Some (st, Some zero_model)
                | Inr desc_bytes \<Rightarrow> do {
                    config \<leftarrow> att1_model_parse_config sd (unat (hd_config_offset h));
                    tensors \<leftarrow> load_tensors sd h (unat (hd_tensor_count h)) 0;
                    case tensors of
                      Inl st \<Rightarrow> Some (st, Some zero_model)
                    | Inr ts \<Rightarrow> do {
                        let m = zero_model\<lparr>md_config := config, md_tensor_count := hd_tensor_count h, md_tensors := ts,
                                  md_file_data := Some sd, md_file_size := word_of_nat (length sd)\<rparr>;
                        (rc, m1) \<leftarrow> load_shard_meta (snd alloc) sd h m;
                        if rc \<noteq> ATT1_OK then Some (rc, m1) else load_tok_meta sd h (the m1)
                      }
                  })
           }))"

section \<open>Lookup\<close>

text \<open>
  \<^verbatim>\<open>strncmp(a, b, n) == 0\<close>; the end of a list stands for the terminating zero.
\<close>

fun strncmp_zero :: "nat \<Rightarrow> u8 list \<Rightarrow> u8 list \<Rightarrow> bool" where
  "strncmp_zero 0 a b = True"
| "strncmp_zero (Suc n) a b =
     (let ca = (case a of [] \<Rightarrow> 0 | c # _ \<Rightarrow> c); cb = (case b of [] \<Rightarrow> 0 | c # _ \<Rightarrow> c)
      in if ca \<noteq> cb then False else if ca = 0 then True else strncmp_zero n (tl a) (tl b))"

text \<open>The index of the tensor pointed to.\<close>

fun find_tensor_loop :: "att1_model_tensor list \<Rightarrow> nat \<Rightarrow> u8 list \<Rightarrow> nat option" where
  "find_tensor_loop [] i name = None"
| "find_tensor_loop (t # ts) i name =
     (if strncmp_zero MODEL_NAME_SIZE (mt_name t) name then Some i else find_tensor_loop ts (i + 1) name)"

definition att1_model_find_tensor :: "att1_model option \<Rightarrow> u8 list option \<Rightarrow> nat option" where
  "att1_model_find_tensor model name =
     (case (model, name) of
        (Some m, Some s) \<Rightarrow> find_tensor_loop (take (unat (md_tensor_count m)) (md_tensors m)) 0 s
      | _ \<Rightarrow> None)"

end
