(* ===== verification/Model_Sizes.thy ===== *)
theory Model_Sizes
  imports Model_Loader
begin

text \<open>
  The size arithmetic of the loader against the sizes in the integers: no product wraps, and the
  payload of a tensor is accepted exactly when it has the size of its shape and data type.
\<close>

section \<open>Checked arithmetic\<close>

lemma unat_of_small: "k < 2 ^ 64 \<Longrightarrow> unat (word_of_nat k :: u64) = k"
  by (simp add: unsigned_of_nat take_bit_nat_eq_self)

lemma u64_lt: "unat (x :: u64) < 2 ^ 64"
  using unsigned_less [of x] by simp

lemma unat_UINT64_MAX: "unat UINT64_MAX = 2 ^ 64 - 1"
  by (simp add: UINT64_MAX_def)

lemma att1_u64_mul_iff: "att1_u64_mul a b = Some c \<longleftrightarrow> unat c = unat a * unat b"
proof -
  note lt = u64_lt
  have wrap: "a \<noteq> 0 \<and> UINT64_MAX div a < b \<longleftrightarrow> 2 ^ 64 \<le> unat a * unat b"
  proof (cases "a = 0")
    case False
    then have "UINT64_MAX div a < b \<longleftrightarrow> (2 ^ 64 - 1) div unat a < unat b"
      by (simp add: word_less_nat_alt unat_div_distrib unat_UINT64_MAX)
    also have "\<dots> \<longleftrightarrow> 2 ^ 64 - 1 < unat b * unat a"
      by (rule div_less_iff_less_mult) (use False in \<open>simp add: unat_gt_0\<close>)
    finally show ?thesis using False by (simp add: mult.commute Suc_le_eq less_eq_Suc_le)
  qed simp
  have prod: "unat (a * b) = unat a * unat b" if "unat a * unat b < 2 ^ 64"
    using that by (simp add: unat_word_ariths)
  show ?thesis
  proof (cases "unat a * unat b < 2 ^ 64")
    case True
    then show ?thesis using wrap prod by (auto simp: att1_u64_mul_def word_unat_eq_iff)
  next
    case False
    then show ?thesis using wrap lt [of c] by (auto simp: att1_u64_mul_def)
  qed
qed

lemma sum_fits_iff:
  "\<not> UINT64_MAX - a < b \<and> c = a + b \<longleftrightarrow> unat c = unat a + unat b"
proof -
  note lt = u64_lt
  have "unat (UINT64_MAX - a) = 2 ^ 64 - 1 - unat a"
    using lt [of a] by (subst unat_sub) (simp_all add: word_le_nat_alt unat_UINT64_MAX)
  then have fit: "UINT64_MAX - a < b \<longleftrightarrow> 2 ^ 64 \<le> unat a + unat b"
    using lt [of a] by (auto simp: word_less_nat_alt)
  have "unat (a + b) = unat a + unat b" if "unat a + unat b < 2 ^ 64"
    using that by (intro unat_add_no_wrap) simp
  then show ?thesis unfolding fit using lt [of c] by (auto simp: word_unat_eq_iff)
qed

lemma sum_opt_iff:
  "(if UINT64_MAX - a < b then None else Some (a + b)) = Some n \<longleftrightarrow> unat n = unat a + unat b"
  unfolding sum_fits_iff [symmetric] by auto

lemma att1_range_valid_iff: "att1_range_valid n off sz \<longleftrightarrow> unat off + unat sz \<le> unat n"
proof (cases "off \<le> n")
  case True
  then have "unat (n - off) = unat n - unat off" by (rule unat_sub)
  then show ?thesis using True by (auto simp: att1_range_valid_def word_less_nat_alt word_le_nat_alt)
next
  case False
  then show ?thesis by (auto simp: att1_range_valid_def word_less_nat_alt word_le_nat_alt)
qed

lemma tensor_elements_iff:
  "e \<noteq> 0 \<Longrightarrow> tensor_elements ds e = Some r \<longleftrightarrow> 0 \<notin> set ds \<and> unat r = unat e * prod_list (map unat ds)"
proof (induction ds arbitrary: e)
  case Nil
  then show ?case by (auto simp: word_unat_eq_iff)
next
  case (Cons d ds)
  show ?case
  proof (cases "d = 0 \<or> 0 \<in> set ds")
    case True
    have "tensor_elements xs x \<noteq> Some r" if "0 \<in> set xs" for xs x
      using that by (induction xs arbitrary: x) (auto simp: bind_eq_Some_conv)
    from this [of "d # ds" e] show ?thesis using True by auto
  next
    case False
    let ?p = "prod_list (map unat ds)"
    have pos: "0 < unat d" "0 < unat e" using False Cons.prems by (auto simp: unat_gt_0)
    have p1: "1 \<le> ?p" using False by (induction ds) (auto simp: unat_gt_0 Suc_le_eq)
    show ?thesis
    proof (cases "att1_u64_mul e d")
      case None
      then have "unat c \<noteq> unat e * unat d" for c :: u64 using att1_u64_mul_iff [of e d c] by auto
      then have "\<not> unat e * unat d < 2 ^ 64" by (metis unat_of_small)
      moreover have "unat e * unat d * 1 \<le> unat e * unat d * ?p" using p1 by (rule mult_le_mono2)
      ultimately have "unat r \<noteq> unat e * unat d * ?p" using u64_lt [of r] by linarith
      then show ?thesis using None False by (auto simp: mult.assoc)
    next
      case (Some x)
      then have x: "unat x = unat e * unat d" by (simp add: att1_u64_mul_iff)
      then have "x \<noteq> 0" using pos by auto
      then show ?thesis using Some False Cons.IH [of x] x by (auto simp: mult.assoc)
    qed
  qed
qed

section \<open>The size of a tensor\<close>

definition q4_group :: "u32 \<Rightarrow> nat option" where
  "q4_group flags =
     (if flags = 0 then Some 32 else if flags \<in> {16, 32, 64, 128} then Some (unat flags) else None)"

text \<open>Dimensions in the integers, outermost first.\<close>

definition tensor_bytes :: "u32 \<Rightarrow> u32 \<Rightarrow> nat list \<Rightarrow> nat option" where
  "tensor_bytes dtype flags dims =
     (if dtype = MODEL_DTYPE_F32 then Some (4 * prod_list dims)
      else case dims of
        [rows, cols] \<Rightarrow>
          (if dtype = MODEL_DTYPE_Q8 then Some (rows * cols + 4 * rows)
           else if dtype = MODEL_DTYPE_Q4 then
             (case q4_group flags of
                None \<Rightarrow> None
              | Some g \<Rightarrow> if even cols \<and> g dvd cols then Some (rows * (cols div 2) + 4 * (rows * (cols div g))) else None)
           else None)
      | _ \<Rightarrow> None)"

abbreviation tensor_dims :: "att1_model_tensor \<Rightarrow> u64 list" where
  "tensor_dims t \<equiv> take (unat (mt_ndims t)) (mt_shape t)"

lemma q8_nbytes_iff:
  assumes "length (mt_shape t) = 4"
  shows "q8_nbytes t = Some n \<longleftrightarrow> mt_ndims t = 2
    \<and> unat n = unat (mt_shape t ! 0) * unat (mt_shape t ! 1) + 4 * unat (mt_shape t ! 0)"
proof (cases "mt_ndims t = 2")
  case True
  let ?r = "mt_shape t ! 0" let ?c = "mt_shape t ! 1"
  note lt = u64_lt
  have fits: "\<exists>v :: u64. unat v = k" if "k \<le> unat n" for k
  proof -
    have "unat (word_of_nat k :: u64) = k" using that lt [of n] by (intro unat_of_small) simp
    then show ?thesis by blast
  qed
  have "q8_nbytes t = Some n \<longleftrightarrow> (\<exists>(v :: u64) (s :: u64). unat v = unat ?r * unat ?c \<and> unat s = unat ?r * 4 \<and> unat n = unat v + unat s)"
    unfolding q8_nbytes_def using True
    by (simp add: bind_eq_Some_conv att1_u64_mul_iff sum_opt_iff)
  also have "\<dots> \<longleftrightarrow> unat n = unat ?r * unat ?c + 4 * unat ?r"
  proof
    assume sum: "unat n = unat ?r * unat ?c + 4 * unat ?r"
    obtain v s :: u64 where "unat v = unat ?r * unat ?c" "unat s = unat ?r * 4"
      using fits [of "unat ?r * unat ?c"] fits [of "unat ?r * 4"] sum by auto
    then show "\<exists>(v :: u64) (s :: u64). unat v = unat ?r * unat ?c \<and> unat s = unat ?r * 4 \<and> unat n = unat v + unat s"
      using sum by (intro exI [of _ v] exI [of _ s]) simp
  qed auto
  finally show ?thesis using True by simp
qed (simp add: q8_nbytes_def)

lemma q4_flags_clear: "flags AND NOT Q4_FLAGS_GROUP_MASK = 0 \<longleftrightarrow> flags AND Q4_FLAGS_GROUP_MASK = flags"
proof -
  have "flags = (flags AND Q4_FLAGS_GROUP_MASK) OR (flags AND NOT Q4_FLAGS_GROUP_MASK)"
    by (rule bit_word_eqI) (auto simp: bit_simps)
  moreover have "f AND m = f \<Longrightarrow> f AND NOT m = 0" for f m :: u32
    by (metis and.assoc and.right_idem bit.conj_cancel_right bit.conj_zero_right)
  ultimately show ?thesis by (metis or.right_neutral)
qed

lemma q4_size_iff: "\<not> (g < 16 \<or> 128 < g \<or> g AND (g - 1) \<noteq> 0) \<longleftrightarrow> (g :: u32) \<in> {16, 32, 64, 128}"
proof
  assume a: "\<not> (g < 16 \<or> 128 < g \<or> g AND (g - 1) \<noteq> 0)"
  then have "g \<noteq> 0" by auto
  with a pow2_word_iff [of g] obtain k where k: "k < 32" "g = 2 ^ k" by auto
  then have "unat g = 2 ^ k" by (simp add: unat_pow2)
  with a have "(2::nat) ^ 4 \<le> 2 ^ k" "(2::nat) ^ k \<le> 2 ^ 7" by (simp_all add: word_less_nat_alt not_less)
  then have "4 \<le> k" "k \<le> 7"
    using power_le_imp_le_exp [of "2 :: nat" 4 k] power_le_imp_le_exp [of "2 :: nat" k 7] by linarith+
  then have "k = 4 \<or> k = 5 \<or> k = 6 \<or> k = 7" by linarith
  then show "g \<in> {16, 32, 64, 128}" using k by auto
next
  assume "g \<in> {16, 32, 64, 128}"
  then show "\<not> (g < 16 \<or> 128 < g \<or> g AND (g - 1) \<noteq> 0)" by auto
qed

lemma q4_group_iff:
  assumes "g = (if flags = 0 then Q4_GROUP_SIZE_DEFAULT else flags)"
  shows "\<not> (g < Q4_GROUP_SIZE_MIN \<or> Q4_GROUP_SIZE_MAX < g \<or> g AND (g - 1) \<noteq> 0) \<longleftrightarrow> q4_group flags = Some (unat g)"
  using q4_size_iff [of g] assms by (auto simp: q4_codes q4_group_def)

lemma q4_nbytes_iff:
  assumes "length (mt_shape t) = 4"
  shows "q4_nbytes t = Some n \<longleftrightarrow> mt_ndims t = 2
    \<and> (\<exists>g. q4_group (mt_flags t) = Some g \<and> even (unat (mt_shape t ! 1)) \<and> g dvd unat (mt_shape t ! 1)
        \<and> unat n = unat (mt_shape t ! 0) * (unat (mt_shape t ! 1) div 2)
                   + 4 * (unat (mt_shape t ! 0) * (unat (mt_shape t ! 1) div g)))"
proof (cases "mt_ndims t = 2 \<and> mt_flags t AND NOT Q4_FLAGS_GROUP_MASK = 0")
  case True
  let ?r = "mt_shape t ! 0" let ?c = "mt_shape t ! 1" let ?f = "mt_flags t"
  define g where "g = (if ?f = 0 then Q4_GROUP_SIZE_DEFAULT else ?f)"
  have raw: "?f AND Q4_FLAGS_GROUP_MASK = ?f" using True q4_flags_clear by blast
  note grp = q4_group_iff [OF g_def]
  have ug: "unat (ucast g :: u64) = unat g" by (rule unat_ucast_up) simp
  have mods: "\<not> (?c mod 2 \<noteq> 0 \<or> ?c mod ucast g \<noteq> 0) \<longleftrightarrow> even (unat ?c) \<and> unat g dvd unat ?c"
    by (simp add: word_unat_eq_iff unat_mod_distrib ug dvd_eq_mod_eq_0)
  have fits: "\<exists>v :: u64. unat v = k" if "k \<le> unat n" for k
    using unat_of_small [of k] that u64_lt [of n] by (intro exI [of _ "word_of_nat k"]) simp
  have val: "(do { p \<leftarrow> att1_u64_mul ?r (?c div 2); s \<leftarrow> att1_u64_mul (?c div ucast g) 4; b \<leftarrow> att1_u64_mul ?r s;
        if UINT64_MAX - p < b then None else Some (p + b) }) = Some n
      \<longleftrightarrow> unat n = unat ?r * (unat ?c div 2) + 4 * (unat ?r * (unat ?c div unat g))" (is "?do = _ \<longleftrightarrow> ?sum")
    if g0: "4 \<le> unat g"
  proof -
    have "?do = Some n \<longleftrightarrow> (\<exists>(p :: u64) (s :: u64) (b :: u64). unat p = unat ?r * (unat ?c div 2) \<and> unat s = unat ?c div unat g * 4
        \<and> unat b = unat ?r * unat s \<and> unat n = unat p + unat b)"
      by (auto simp: bind_eq_Some_conv att1_u64_mul_iff sum_opt_iff unat_div_distrib ug)
    also have "\<dots> \<longleftrightarrow> ?sum"
    proof
      assume ?sum
      have "unat ?c div unat g * 4 \<le> unat ?c div unat g * unat g" using g0 by (rule mult_le_mono2)
      also have "\<dots> \<le> unat ?c" by (rule div_times_less_eq_dividend)
      finally have "unat (word_of_nat (unat ?c div unat g * 4) :: u64) = unat ?c div unat g * 4"
        using u64_lt [of ?c] by (intro unat_of_small) simp
      then obtain s :: u64 where "unat s = unat ?c div unat g * 4" by blast
      moreover obtain p :: u64 where "unat p = unat ?r * (unat ?c div 2)"
        using fits [of "unat ?r * (unat ?c div 2)"] \<open>?sum\<close> by auto
      moreover obtain b :: u64 where "unat b = unat ?r * (unat ?c div unat g * 4)"
        using fits [of "unat ?r * (unat ?c div unat g * 4)"] \<open>?sum\<close> by (auto simp: algebra_simps)
      ultimately show "\<exists>(p :: u64) (s :: u64) (b :: u64). unat p = unat ?r * (unat ?c div 2) \<and> unat s = unat ?c div unat g * 4
        \<and> unat b = unat ?r * unat s \<and> unat n = unat p + unat b"
        using \<open>?sum\<close> by (intro exI [of _ p] exI [of _ s] exI [of _ b]) (simp add: algebra_simps)
    qed (auto simp: algebra_simps)
    finally show ?thesis .
  qed
  show ?thesis
  proof (cases "q4_group ?f = Some (unat g)")
    case sz: True
    then have "4 \<le> unat g" by (auto simp: q4_group_def split: if_splits)
    moreover have "q4_nbytes t = (if even (unat ?c) \<and> unat g dvd unat ?c then
        (do { p \<leftarrow> att1_u64_mul ?r (?c div 2); s \<leftarrow> att1_u64_mul (?c div ucast g) 4; b \<leftarrow> att1_u64_mul ?r s;
              if UINT64_MAX - p < b then None else Some (p + b) }) else None)"
      using True grp sz unfolding q4_nbytes_def raw Let_def g_def [symmetric] mods [symmetric] by simp
    ultimately show ?thesis using val sz True by auto
  next
    case False
    then have "q4_group ?f = None"
      by (auto simp: q4_group_def g_def Q4_GROUP_SIZE_DEFAULT_def)
    moreover have "q4_nbytes t = None"
      using True grp False unfolding q4_nbytes_def raw Let_def g_def [symmetric] by auto
    ultimately show ?thesis by simp
  qed
next
  case False
  have "mt_flags t AND NOT Q4_FLAGS_GROUP_MASK = 0" if "q4_group (mt_flags t) = Some g" for g
    using that by (auto simp: q4_group_def Q4_FLAGS_GROUP_MASK_def split: if_splits)
  then show ?thesis using False by (auto simp: q4_nbytes_def)
qed

lemma tensor_nbytes_iff:
  assumes "length (mt_shape t) = 4"
  shows "att1_tensor_nbytes_expected t = Some n \<longleftrightarrow>
    1 \<le> mt_ndims t \<and> mt_ndims t \<le> 4 \<and> 0 \<notin> set (tensor_dims t)
    \<and> prod_list (map unat (tensor_dims t)) < 2 ^ 64
    \<and> tensor_bytes (mt_dtype t) (mt_flags t) (map unat (tensor_dims t)) = Some (unat n)"
proof (cases "1 \<le> mt_ndims t \<and> mt_ndims t \<le> 4")
  case True
  let ?ds = "tensor_dims t"
  have nd: "\<not> (mt_ndims t = 0 \<or> word_of_nat MODEL_MAX_DIMS < mt_ndims t)"
    using True by (auto simp: MODEL_MAX_DIMS_def)
  have el: "tensor_elements ?ds 1 = Some e \<longleftrightarrow> 0 \<notin> set ?ds \<and> unat e = prod_list (map unat ?ds)" for e
    by (simp add: tensor_elements_iff)
  have ex: "(\<exists>e :: u64. unat e = k) \<longleftrightarrow> k < 2 ^ 64" for k
    using unat_of_small u64_lt by metis
  have two: "mt_ndims t = 2 \<Longrightarrow> map unat ?ds = [unat (mt_shape t ! 0), unat (mt_shape t ! 1)]"
    using assms by (cases "mt_shape t"; cases "tl (mt_shape t)") auto
  have len2: "length (map unat ?ds) = 2 \<longleftrightarrow> mt_ndims t = 2"
    using True assms by (auto simp: word_le_nat_alt min_def word_unat_eq_iff)
  have other: "dtype \<noteq> MODEL_DTYPE_F32 \<Longrightarrow> length ds \<noteq> 2 \<Longrightarrow> tensor_bytes dtype fl ds = None" for dtype fl ds
    by (auto simp: tensor_bytes_def split: list.splits)
  have "att1_tensor_nbytes_expected t = Some n \<longleftrightarrow> (\<exists>e. tensor_elements ?ds 1 = Some e \<and>
      (if mt_dtype t = MODEL_DTYPE_F32 then att1_u64_mul e 4 else if mt_dtype t = MODEL_DTYPE_Q8 then q8_nbytes t
       else if mt_dtype t = MODEL_DTYPE_Q4 then q4_nbytes t else None) = Some n)"
    unfolding att1_tensor_nbytes_expected_def using nd by (simp add: bind_eq_Some_conv)
  also have "\<dots> \<longleftrightarrow> 0 \<notin> set ?ds \<and> prod_list (map unat ?ds) < 2 ^ 64
      \<and> tensor_bytes (mt_dtype t) (mt_flags t) (map unat ?ds) = Some (unat n)"
  proof (cases "mt_dtype t = MODEL_DTYPE_F32")
    case f32: True
    let ?p = "prod_list (map unat ?ds)"
    have "(\<exists>e :: u64. unat e = ?p \<and> unat n = unat e * 4) \<longleftrightarrow> ?p < 2 ^ 64 \<and> 4 * ?p = unat n"
      using ex [of ?p] by auto
    then show ?thesis unfolding el using f32 by (auto simp: att1_u64_mul_iff tensor_bytes_def)
  next
    case nf: False
    show ?thesis
    proof (cases "mt_ndims t = 2")
      case t2: True
      have "tensor_bytes (mt_dtype t) (mt_flags t) (map unat ?ds) = Some (unat n) \<longleftrightarrow>
        (if mt_dtype t = MODEL_DTYPE_Q8 then q8_nbytes t
         else if mt_dtype t = MODEL_DTYPE_Q4 then q4_nbytes t else None) = Some n"
        unfolding two [OF t2] using nf t2 q8_nbytes_iff [OF assms, of n] q4_nbytes_iff [OF assms, of n]
        by (auto simp: tensor_bytes_def split: option.splits)
      then show ?thesis unfolding el using nf ex by auto
    next
      case False
      then have "q8_nbytes t = None" "q4_nbytes t = None" by (simp_all add: q8_nbytes_def q4_nbytes_def)
      then show ?thesis using other [OF nf] len2 False nf by auto
    qed
  qed
  finally show ?thesis using True by simp
next
  case False
  then have "unat (mt_ndims t) < 1 \<or> 4 < unat (mt_ndims t)"
    by (auto simp: not_le word_less_nat_alt)
  then have "mt_ndims t = 0 \<or> word_of_nat MODEL_MAX_DIMS < mt_ndims t"
    by (auto simp: MODEL_MAX_DIMS_def word_less_nat_alt unat_eq_0)
  then show ?thesis using False by (auto simp: att1_tensor_nbytes_expected_def)
qed

text \<open>
  C17. The size a tensor must have is computed without wrap-around: the loader expects \<open>n\<close> bytes
  exactly when the tensor has one to four dimensions, none zero, with a number of elements that
  fits 64 bits, and \<open>n\<close> is the size of its shape, data type and quantization group in the integers.
\<close>

theorem tensor_nbytes_exact:
  assumes "length (mt_shape t) = 4"
  shows "att1_tensor_nbytes_expected t = Some n \<longleftrightarrow>
    1 \<le> mt_ndims t \<and> mt_ndims t \<le> 4 \<and> 0 \<notin> set (tensor_dims t)
    \<and> prod_list (map unat (tensor_dims t)) < 2 ^ 64
    \<and> tensor_bytes (mt_dtype t) (mt_flags t) (map unat (tensor_dims t)) = Some (unat n)"
  using assms by (rule tensor_nbytes_iff)

text \<open>A 3 by 64 Q4 tensor with the default group of 32.\<close>

definition demo_q4 :: att1_model_tensor where
  "demo_q4 = \<lparr>mt_name = replicate 64 0, mt_dtype = MODEL_DTYPE_Q4, mt_ndims = 2, mt_shape = [3, 64, 0, 0], mt_offset = 0,
     mt_nbytes = 120, mt_shard_id = 0, mt_flags = 0, mt_data = None\<rparr>"

theorem tensor_nbytes_exact_witness: "att1_tensor_nbytes_expected demo_q4 = Some 120"
proof -
  have len: "length (mt_shape demo_q4) = 4" by (simp add: demo_q4_def)
  show ?thesis unfolding tensor_nbytes_exact [OF len]
    by (simp add: demo_q4_def tensor_bytes_def q4_group_def model_codes)
qed

end
