(* ===== verification/Shard_Meta_Props.thy ===== *)
theory Shard_Meta_Props
  imports Shard_Meta
begin

text \<open>The shard record format and what parsing, summary and validation compute.\<close>

section \<open>The record format\<close>

definition shard_valid :: "att1_shard_meta_record \<Rightarrow> bool" where
  "shard_valid r \<longleftrightarrow> sr_dtype r \<in> {1, 2} \<and> sr_quantization r \<in> {0, 1} \<and> sr_replication_policy r \<in> {0, 1, 2}
     \<and> sr_reduction_behavior r \<in> {0, 1, 2, 3} \<and> length (sr_shape r) = 4 \<and> length (sr_dependency_graph r) = 8"

definition shard_enc :: "att1_shard_meta_record \<Rightarrow> u8 list" where
  "shard_enc r = concat
     ([le_bytes 4 (sr_tensor_id r), le_bytes 4 (sr_tile_id r), le_bytes 8 (sr_byte_offset r)] @ map (le_bytes 8) (sr_shape r)
      @ [le_bytes 4 (sr_dtype r), le_bytes 4 (sr_quantization r), le_bytes 4 (sr_owner_aimu r),
         le_bytes 4 (sr_replication_policy r)] @ map (le_bytes 4) (sr_dependency_graph r)
      @ [le_bytes 4 (sr_allowed_ops r), le_bytes 4 (sr_routing_requirements r), le_bytes 4 (sr_reduction_behavior r),
         le_bytes 4 (0 :: u32), le_bytes 8 (sr_checksum r)])"

definition rec_of :: "u8 list \<Rightarrow> att1_shard_meta_record" where
  "rec_of bs =
     (let u4 = \<lambda>off. read_u32le (read_bytes off 4 bs); u8 = \<lambda>off. read_u64le (read_bytes off 8 bs)
      in \<lparr>sr_tensor_id = u4 0, sr_tile_id = u4 4, sr_byte_offset = u8 8, sr_shape = [u8 16, u8 24, u8 32, u8 40],
          sr_dtype = u4 48, sr_quantization = u4 52, sr_owner_aimu = u4 56, sr_replication_policy = u4 60,
          sr_dependency_graph = [u4 64, u4 68, u4 72, u4 76, u4 80, u4 84, u4 88, u4 92], sr_allowed_ops = u4 96,
          sr_routing_requirements = u4 100, sr_reduction_behavior = u4 104, sr_checksum = u8 112\<rparr>)"

abbreviation reserved_of :: "u8 list \<Rightarrow> u32" where "reserved_of bs \<equiv> read_u32le (read_bytes 108 4 bs)"

lemma read_record_at:
  assumes "p + 120 \<le> length sd"
  shows "shard_read_record sd p = Some (rec_of (read_bytes p 120 sd), reserved_of (read_bytes p 120 sd))"
proof -
  have r: "rd_u32 sd (p + off) = Some (read_u32le (read_bytes off 4 (read_bytes p 120 sd)))" if "off \<le> 116" for off
    using assms that by (simp add: rd_u32_def bytes_at_def read_bytes_nested)
  have r8: "rd_u64 sd (p + off) = Some (read_u64le (read_bytes off 8 (read_bytes p 120 sd)))" if "off \<le> 112" for off
    using assms that by (simp add: rd_u64_def bytes_at_def read_bytes_nested)
  have r0: "rd_u32 sd p = Some (read_u32le (read_bytes 0 4 (read_bytes p 120 sd)))" using r [of 0] by simp
  show ?thesis unfolding shard_read_record_def by (simp add: r r8 r0 rec_of_def Let_def)
qed

definition shard_dec :: "u8 list \<Rightarrow> att1_shard_meta_record option" where
  "shard_dec bs =
     (case shard_read_record bs 0 of
        Some (r, reserved) \<Rightarrow> if reserved = 0 \<and> shard_valid r then Some r else None
      | None \<Rightarrow> None)"

lemma shard_enc_rec:
  assumes "length bs = 120" "reserved_of bs = 0"
  shows "shard_enc (rec_of bs) = bs"
proof -
  have b4: "le_bytes 4 (read_u32le (read_bytes off 4 bs)) = read_bytes off 4 bs" if "off \<le> 116" for off
    using assms(1) that by (simp add: bytes_read_u32le)
  have b8: "le_bytes 8 (read_u64le (read_bytes off 8 bs)) = read_bytes off 8 bs" if "off \<le> 112" for off
    using assms(1) that by (simp add: bytes_read_u64le)
  have res: "le_bytes 4 (0 :: u32) = read_bytes 108 4 bs" using b4 [of 108] assms(2) by simp
  have "shard_enc (rec_of bs)
      = concat (cut_fields 0 [4, 4, 8, 8, 8, 8, 8, 4, 4, 4, 4, 4, 4, 4, 4, 4, 4, 4, 4, 4, 4, 4, 4, 8] bs)"
    by (simp add: shard_enc_def rec_of_def Let_def b4 b8 res)
  also have "\<dots> = bs" unfolding concat_cut_fields using assms(1) by (simp add: read_bytes_all)
  finally show ?thesis .
qed

lemma list4: "length xs = 4 \<Longrightarrow> \<exists>a b c d. xs = [a, b, c, d]"
  by (auto simp: numeral_eq_Suc length_Suc_conv)

lemma list8: "length xs = 8 \<Longrightarrow> \<exists>a b c d e f g h. xs = [a, b, c, d, e, f, g, h]"
  by (auto simp: numeral_eq_Suc length_Suc_conv)

lemma rec_of_enc:
  assumes "shard_valid r"
  shows "length (shard_enc r) = 120" "rec_of (shard_enc r) = r" "reserved_of (shard_enc r) = 0"
proof -
  obtain a b c d where s: "sr_shape r = [a, b, c, d]" using assms list4 unfolding shard_valid_def by metis
  obtain e f g h i j k l where g: "sr_dependency_graph r = [e, f, g, h, i, j, k, l]"
    using assms list8 unfolding shard_valid_def by metis
  have "r = \<lparr>sr_tensor_id = sr_tensor_id r, sr_tile_id = sr_tile_id r, sr_byte_offset = sr_byte_offset r,
      sr_shape = [a, b, c, d], sr_dtype = sr_dtype r, sr_quantization = sr_quantization r, sr_owner_aimu = sr_owner_aimu r,
      sr_replication_policy = sr_replication_policy r, sr_dependency_graph = [e, f, g, h, i, j, k, l],
      sr_allowed_ops = sr_allowed_ops r, sr_routing_requirements = sr_routing_requirements r,
      sr_reduction_behavior = sr_reduction_behavior r, sr_checksum = sr_checksum r\<rparr>"
    using s g by simp
  then show "rec_of (shard_enc r) = r"
    by (simp add: rec_of_def shard_enc_def Let_def s g read_bytes_skip read_bytes_hit read_bytes_all)
  show "length (shard_enc r) = 120" "reserved_of (shard_enc r) = 0"
    by (simp_all add: shard_enc_def s g read_bytes_skip read_bytes_hit)
qed

interpretation shard_wire: exact_wire_format 120 shard_enc shard_dec shard_valid
proof unfold_locales
  fix r assume v: "shard_valid r"
  then show "length (shard_enc r) = 120" by (rule rec_of_enc)
  then show "shard_dec (shard_enc r) = Some r"
    using v rec_of_enc [OF v] by (simp add: shard_dec_def read_record_at read_bytes_all)
next
  fix bs r assume "length bs = 120" "shard_dec bs = Some r"
  then show "shard_valid r \<and> shard_enc r = bs"
    by (auto simp: shard_dec_def read_record_at read_bytes_all shard_enc_rec split: if_splits)
qed

section \<open>What parsing accepts\<close>

definition shard_matches :: "att1_model_tensor list option \<Rightarrow> nat \<Rightarrow> att1_shard_meta_record \<Rightarrow> bool" where
  "shard_matches tensors i r \<longleftrightarrow> sr_tensor_id r = word_of_nat i
     \<and> (case tensors of None \<Rightarrow> True | Some ts \<Rightarrow> sr_shape r = mt_shape (ts ! i))"

lemma shard_ranges:
  "shard_dtype_valid d \<longleftrightarrow> d \<in> {1, 2}" "shard_quant_valid q \<longleftrightarrow> q \<in> {0, 1}"
  "shard_repl_valid p \<longleftrightarrow> p \<in> {0, 1, 2}" "shard_reduce_valid x \<longleftrightarrow> x \<in> {0, 1, 2, 3}"
  by (auto simp: shard_dtype_valid_def shard_quant_valid_def shard_repl_valid_def shard_reduce_valid_def shard_codes)

lemma shapes_eq:
  assumes "length a = 4" "length b = 4"
  shows "list_ex (\<lambda>d. a ! d \<noteq> b ! d) [0..<MODEL_MAX_DIMS] \<longleftrightarrow> a \<noteq> b"
  using assms by (auto simp: list_ex_iff MODEL_MAX_DIMS_def Bex_def list_eq_iff_nth_eq)

lemma shard_check_record_eq:
  assumes "length (sr_shape r) = 4" "length (sr_dependency_graph r) = 8"
    and "\<And>ts. tensors = Some ts \<Longrightarrow> i < length ts \<and> length (mt_shape (ts ! i)) = 4"
  shows "shard_check_record tensors i r reserved = Some (reserved = 0 \<and> shard_valid r \<and> shard_matches tensors i r)"
proof (cases tensors)
  case None
  then show ?thesis using assms(1,2)
    by (auto simp: shard_check_record_def shard_valid_def shard_matches_def shard_ranges)
next
  case (Some ts)
  then have "elem_at ts i = Some (ts ! i)" "list_ex (\<lambda>d. sr_shape r ! d \<noteq> mt_shape (ts ! i) ! d) [0..<MODEL_MAX_DIMS]
      \<longleftrightarrow> sr_shape r \<noteq> mt_shape (ts ! i)"
    using assms(1) assms(3) [OF Some] shapes_eq by (auto simp: elem_at_def)
  then show ?thesis using assms(1,2) Some
    by (auto simp: shard_check_record_def shard_valid_def shard_matches_def shard_ranges)
qed

definition shard_section :: "att1_model_tensor list option \<Rightarrow> nat \<Rightarrow> att1_shard_meta_record list \<Rightarrow> bool" where
  "shard_section tensors i rs \<longleftrightarrow> (\<forall>j < length rs. shard_valid (rs ! j) \<and> shard_matches tensors (i + j) (rs ! j))"

lemma shard_section_Cons:
  "shard_section tensors i (r # rs) \<longleftrightarrow> shard_valid r \<and> shard_matches tensors i r \<and> shard_section tensors (i + 1) rs"
  unfolding shard_section_def by (auto simp: less_Suc_eq_0_disj)

definition descs_cover :: "att1_model_tensor list option \<Rightarrow> nat \<Rightarrow> bool" where
  "descs_cover tensors n \<longleftrightarrow> (\<forall>ts. tensors = Some ts \<longrightarrow> n \<le> length ts \<and> (\<forall>t \<in> set ts. length (mt_shape t) = 4))"

lemma rec_of_shape: "length (sr_shape (rec_of bs)) = 4" "length (sr_dependency_graph (rec_of bs)) = 8"
  by (simp_all add: rec_of_def Let_def)

lemma shard_parse_loop_exact:
  assumes "(i + k) * 120 \<le> length sd" "descs_cover tensors (i + k)"
  shows "\<exists>res. shard_parse_loop sd tensors k i = Some res
    \<and> (\<forall>rs. res = Some rs \<longleftrightarrow> length rs = k \<and> shard_section tensors i rs
                                \<and> read_bytes (i * 120) (k * 120) sd = concat (map shard_enc rs))"
  using assms
proof (induction k arbitrary: i)
  case 0
  then show ?case by (auto simp: shard_section_def read_bytes_def)
next
  case (Suc k)
  define b where "b = read_bytes (i * 120) 120 sd"
  define tl where "tl = read_bytes ((i + 1) * 120) (k * 120) sd"
  have lb: "length b = 120" using Suc.prems(1) by (simp add: b_def)
  have rd: "shard_read_record sd (i * 120) = Some (rec_of b, reserved_of b)"
    using Suc.prems(1) by (simp add: read_record_at b_def)
  have chk: "shard_check_record tensors i (rec_of b) (reserved_of b)
      = Some (reserved_of b = 0 \<and> shard_valid (rec_of b) \<and> shard_matches tensors i (rec_of b))"
    using Suc.prems(2) by (intro shard_check_record_eq rec_of_shape) (auto simp: descs_cover_def)
  have split: "read_bytes (i * 120) (Suc k * 120) sd = b @ tl"
    by (simp add: b_def tl_def read_bytes_def take_add algebra_simps)
  have hd: "reserved_of b = 0 \<and> shard_valid (rec_of b) \<and> rec_of b = r \<longleftrightarrow> shard_valid r \<and> b = shard_enc r" for r
    using shard_wire.dec_iff [OF lb, of r] lb by (auto simp: shard_dec_def read_record_at read_bytes_all split: if_splits)
  have app: "b @ tl = concat (map shard_enc (r # rs)) \<longleftrightarrow> b = shard_enc r \<and> tl = concat (map shard_enc rs)"
    if "shard_valid r" for r rs
    using lb shard_wire.enc_length [OF that] by (simp add: append_eq_append_conv)
  obtain res where res: "shard_parse_loop sd tensors k (i + 1) = Some res"
    and ih: "\<And>rs. res = Some rs \<longleftrightarrow> length rs = k \<and> shard_section tensors (i + 1) rs \<and> tl = concat (map shard_enc rs)"
    using Suc.IH [of "i + 1"] Suc.prems by (auto simp: tl_def)
  let ?good = "reserved_of b = 0 \<and> shard_valid (rec_of b) \<and> shard_matches tensors i (rec_of b)"
  let ?out = "if ?good then map_option ((#) (rec_of b)) res else None"
  have "shard_parse_loop sd tensors (Suc k) i = Some ?out" by (simp add: rd chk res [simplified])
  moreover have "?out = Some rs \<longleftrightarrow> length rs = Suc k \<and> shard_section tensors i rs
      \<and> read_bytes (i * 120) (Suc k * 120) sd = concat (map shard_enc rs)" for rs
  proof (cases rs)
    case (Cons r rs')
    have "?out = Some rs \<longleftrightarrow> (reserved_of b = 0 \<and> shard_valid (rec_of b) \<and> rec_of b = r)
        \<and> shard_matches tensors i r \<and> res = Some rs'"
      unfolding Cons by (auto simp: map_option_eq_Some)
    also have "\<dots> \<longleftrightarrow> length rs = Suc k \<and> shard_section tensors i rs \<and> b @ tl = concat (map shard_enc rs)"
      unfolding hd ih Cons shard_section_Cons using app [of r rs'] by auto
    finally show ?thesis unfolding split .
  qed auto
  ultimately show ?case by blast
qed

lemma section_size_iff:
  fixes sz count :: u64
  shows "sz mod SHARD_META_RECORD_SIZE = 0 \<and> sz div SHARD_META_RECORD_SIZE = count \<longleftrightarrow> unat sz = 120 * unat count"
proof -
  have "sz mod 120 = 0 \<longleftrightarrow> unat sz mod 120 = 0" by (simp add: unat_eq_0 [symmetric] unat_mod_distrib)
  moreover have "sz div 120 = count \<longleftrightarrow> unat sz div 120 = unat count"
    by (simp add: word_unat_eq_iff unat_div_distrib)
  moreover have "a mod 120 = 0 \<and> a div 120 = b \<longleftrightarrow> a = 120 * b" for a b :: nat by auto
  ultimately show ?thesis by (simp add: SHARD_META_RECORD_SIZE_def)
qed

lemma count_fits: "unat (sz :: u64) = 120 * unat count \<Longrightarrow> \<not> word_of_nat (SIZE_MAX div 120) < (count :: u64)"
proof -
  assume e: "unat sz = 120 * unat count"
  have "120 * unat count < 2 ^ 64" using unsigned_less [of sz] by (simp add: e [symmetric])
  then show ?thesis by (simp add: word_less_nat_alt SIZE_MAX_def unat_of_nat not_less)
qed

lemma shard_parse_iff:
  assumes "unat section_size \<le> length sd" "descs_cover tensors (unat tensor_count)"
  shows "\<exists>st m'. att1_shard_meta_parse alloc (Some sd) section_size tensor_count tensors (Some m) = Some (st, Some m')
     \<and> (st \<noteq> ATT1_OK \<longrightarrow> m' = empty_shard_meta)
     \<and> (\<forall>rs. st = ATT1_OK \<and> m' = \<lparr>shm_records = rs, shm_count = tensor_count\<rparr> \<longleftrightarrow>
          (alloc \<or> rs = []) \<and> length rs = unat tensor_count \<and> unat section_size = 120 * length rs
          \<and> shard_section tensors 0 rs \<and> take (unat section_size) sd = concat (map shard_enc rs))"
proof (cases "unat section_size = 120 * unat tensor_count")
  case False
  then have "att1_shard_meta_parse alloc (Some sd) section_size tensor_count tensors (Some m)
      = Some (ATT1_ERR_BAD_FORMAT, Some empty_shard_meta)"
    using section_size_iff [of section_size tensor_count] by (auto simp: att1_shard_meta_parse_def Let_def)
  then show ?thesis using False by auto
next
  case sz: True
  then have chk: "section_size mod SHARD_META_RECORD_SIZE = 0" "section_size div SHARD_META_RECORD_SIZE = tensor_count"
    using section_size_iff by auto
  note fits = count_fits [OF sz]
  obtain res where res: "shard_parse_loop sd tensors (unat tensor_count) 0 = Some res"
    and ex: "\<And>rs. res = Some rs \<longleftrightarrow> length rs = unat tensor_count \<and> shard_section tensors 0 rs
               \<and> read_bytes 0 (unat tensor_count * 120) sd = concat (map shard_enc rs)"
    using shard_parse_loop_exact [of 0 "unat tensor_count" sd tensors] assms sz by auto
  have tk: "read_bytes 0 (unat tensor_count * 120) sd = take (unat section_size) sd"
    using sz by (simp add: read_bytes_def mult.commute)
  show ?thesis
  proof (cases "tensor_count = 0")
    case True
    then show ?thesis using chk sz
      by (auto simp: att1_shard_meta_parse_def Let_def empty_shard_meta_def shard_section_def)
  next
    case False
    then have ne: "length rs = unat tensor_count \<Longrightarrow> rs \<noteq> []" for rs :: "att1_shard_meta_record list"
      by (auto simp: unat_eq_0)
    have val: "att1_shard_meta_parse alloc (Some sd) section_size tensor_count tensors (Some m)
        = (if \<not> alloc then Some (ATT1_ERR_OOM, Some empty_shard_meta)
           else case res of None \<Rightarrow> Some (ATT1_ERR_BAD_FORMAT, Some empty_shard_meta)
                | Some rs \<Rightarrow> Some (ATT1_OK, Some \<lparr>shm_records = rs, shm_count = tensor_count\<rparr>))"
      using False fits by (simp only: att1_shard_meta_parse_def Let_def chk res option.case prod.case bind.bind_lunit) simp
    have "unat section_size = 120 * length rs \<longleftrightarrow> length rs = unat tensor_count" for rs :: "att1_shard_meta_record list"
      using sz by auto
    then show ?thesis unfolding val using ex ne unfolding tk by (cases alloc; cases res) auto
  qed
qed

text \<open>
  C18. The shard section of a model file. Parsing never reads outside the section, and it succeeds
  with an array of records exactly when the section is the concatenation of their encodings, with
  as many records as tensors, each record valid, numbered by its position and of the shape of its
  tensor; on every failure the output is empty.
\<close>

theorem shard_meta_parse_exact:
  assumes "unat section_size \<le> length sd" "descs_cover tensors (unat tensor_count)"
  shows "\<exists>st m'. att1_shard_meta_parse alloc (Some sd) section_size tensor_count tensors (Some m) = Some (st, Some m')
     \<and> (st \<noteq> ATT1_OK \<longrightarrow> m' = empty_shard_meta)
     \<and> (\<forall>rs. st = ATT1_OK \<and> m' = \<lparr>shm_records = rs, shm_count = tensor_count\<rparr> \<longleftrightarrow>
          (alloc \<or> rs = []) \<and> length rs = unat tensor_count \<and> unat section_size = 120 * length rs
          \<and> shard_section tensors 0 rs \<and> take (unat section_size) sd = concat (map shard_enc rs))"
  using assms by (rule shard_parse_iff)

section \<open>The summary\<close>

abbreviation assigned_tiles :: "att1_shard_meta_record list \<Rightarrow> u32 list" where
  "assigned_tiles rs \<equiv> filter (\<lambda>t. t \<noteq> SHARD_TILE_UNASSIGNED) (map sr_tile_id rs)"

definition summary_of :: "att1_shard_meta_record list \<Rightarrow> u64 \<Rightarrow> att1_shard_meta_summary" where
  "summary_of rs n =
     \<lparr>ss_count = n,
      ss_assigned = word_of_nat (length (assigned_tiles rs)),
      ss_unassigned = word_of_nat (count_list (map sr_tile_id rs) SHARD_TILE_UNASSIGNED),
      ss_unique_tiles = word_of_nat (card (set (assigned_tiles rs))),
      ss_unique_aimus = word_of_nat (card (set (map sr_owner_aimu rs))),
      ss_dtype_f32 = word_of_nat (count_list (map sr_dtype rs) SHARD_DTYPE_F32),
      ss_dtype_q8 = word_of_nat (count_list (map sr_dtype rs) SHARD_DTYPE_Q8)\<rparr>"

lemma seen_iff: "list_ex (\<lambda>j. f (rs ! j) = x) [0..<i] \<longleftrightarrow> x \<in> set (map f (take i rs))" if "i \<le> length rs"
  using that by (auto simp: list_ex_iff simp flip: nth_image)

lemma card_snoc: "card (set (xs @ [x])) = card (set xs) + (if x \<in> set xs then 0 else 1)"
  by (simp add: card_insert_if)

lemma summary_step_of:
  assumes "i < length rs"
  shows "summary_step rs i (summary_of (take i rs) n) = summary_of (take (Suc i) rs) n"
proof -
  let ?r = "rs ! i"
  have tk: "take (Suc i) rs = take i rs @ [?r]" using assms by (simp add: take_Suc_conv_app_nth)
  have tiles: "list_ex (\<lambda>j. sr_tile_id (rs ! j) = sr_tile_id ?r) [0..<i] \<longleftrightarrow> sr_tile_id ?r \<in> set (map sr_tile_id (take i rs))"
    and owners: "list_ex (\<lambda>j. sr_owner_aimu (rs ! j) = sr_owner_aimu ?r) [0..<i]
      \<longleftrightarrow> sr_owner_aimu ?r \<in> set (map sr_owner_aimu (take i rs))"
    using assms by (simp_all only: seen_iff less_imp_le)
  have "SHARD_DTYPE_F32 \<noteq> SHARD_DTYPE_Q8" by (simp add: shard_codes)
  then show ?thesis
    unfolding summary_step_def Let_def tiles owners tk summary_of_def
    by (simp add: card_snoc [simplified] card_insert_if add.commute del: set_map)
qed

text \<open>
  The summary of a shard section counts what it says: the records with and without a tile, the
  number of different tiles and of different owners, and the records of each data type.
\<close>

theorem shard_summary_counts:
  assumes "length (shm_records m) = unat (shm_count m)"
  shows "att1_shard_meta_summarize (Some m) (Some out) = Some (summary_of (shm_records m) (shm_count m))"
proof -
  let ?rs = "shm_records m"
  have "i \<le> length ?rs \<Longrightarrow> fold (summary_step ?rs) [0..<i] (zero_summary\<lparr>ss_count := shm_count m\<rparr>)
      = summary_of (take i ?rs) (shm_count m)" for i
    by (induction i) (simp_all add: summary_step_of, simp add: summary_of_def zero_summary_def)
  from this [of "length ?rs"] show ?thesis
    using assms by (auto simp: att1_shard_meta_summarize_def summary_of_def zero_summary_def)
qed

section \<open>The consistency check\<close>

lemma u32_lt: "unat (x :: u32) < 2 ^ 32"
  using unsigned_less [of x] by simp

lemma length_decimal: "n < 10 ^ k \<Longrightarrow> 0 < k \<Longrightarrow> length (decimal n) \<le> k"
proof (induction k arbitrary: n)
  case (Suc k)
  show ?case
  proof (cases "n < 10")
    case True
    then show ?thesis by (subst decimal.simps) simp
  next
    case False
    then have "0 < k" using Suc.prems by (cases k) auto
    moreover have "n div 10 < 10 ^ k" using Suc.prems by (simp add: less_mult_imp_div_less mult.commute)
    ultimately show ?thesis using Suc.IH [of "n div 10"] False by (subst decimal.simps) simp
  qed
qed simp

definition shard_consistent :: "att1_model_config \<Rightarrow> att1_model_tensor list option \<Rightarrow> u64 \<Rightarrow> att1_shard_meta_record \<Rightarrow> bool" where
  "shard_consistent config tensors tensor_count r \<longleftrightarrow>
     (0 < mc_n_tiles config \<longrightarrow> (sr_tile_id r = SHARD_TILE_UNASSIGNED \<or> sr_tile_id r < mc_n_tiles config)
                               \<and> sr_owner_aimu r < mc_n_tiles config)
     \<and> (\<forall>ts. tensors = Some ts \<longrightarrow> sr_tensor_id r < ucast tensor_count \<longrightarrow>
          sr_dtype r = SHARD_DTYPE_F32 \<and> mt_dtype (ts ! unat (sr_tensor_id r)) = MODEL_DTYPE_F32
          \<and> sr_byte_offset r = mt_offset (ts ! unat (sr_tensor_id r)))"

lemma ucast_count_le: "x < (ucast (n :: u64) :: u32) \<Longrightarrow> unat x < unat n"
proof -
  assume "x < (ucast n :: u32)"
  moreover have "unat (ucast n :: u32) \<le> unat n" by (simp add: unsigned_ucast_eq unsigned_take_bit_eq)
  ultimately show ?thesis by (simp add: word_less_nat_alt)
qed

lemma shard_record_issues_empty:
  assumes "\<And>ts. tensors = Some ts \<Longrightarrow> unat tensor_count \<le> length ts"
  shows "\<exists>issues. shard_record_issues config tensors tensor_count r = Some issues
    \<and> (issues = [] \<longleftrightarrow> shard_consistent config tensors tensor_count r)"
proof (cases tensors)
  case None
  then show ?thesis by (auto simp: shard_record_issues_def Let_def shard_consistent_def not_le)
next
  case (Some ts)
  show ?thesis
  proof (cases "sr_tensor_id r < (ucast tensor_count :: u32)")
    case True
    then have "elem_at ts (unat (sr_tensor_id r)) = Some (ts ! unat (sr_tensor_id r))"
      using assms [OF Some] ucast_count_le [OF True] by (simp add: elem_at_def)
    then show ?thesis using True Some by (auto simp: shard_record_issues_def Let_def shard_consistent_def not_le)
  next
    case False
    then show ?thesis using Some by (auto simp: shard_record_issues_def Let_def shard_consistent_def not_le)
  qed
qed

lemma violation_append_grows: "violation_append alloc v t f d = Some v' \<Longrightarrow> v' \<noteq> []"
  by (auto simp: violation_append_def split: if_splits)

lemma append_issues_grows: "append_issues alloc t xs v = Some v' \<Longrightarrow> v' = [] \<longleftrightarrow> v = [] \<and> xs = []"
proof (induction xs arbitrary: v)
  case (Cons x xs)
  then show ?case by (cases x) (auto split: option.splits dest: violation_append_grows)
qed simp

lemma shard_validate_loop_empty:
  assumes "\<And>ts. tensors = Some ts \<Longrightarrow> unat tensor_count \<le> length ts"
  shows "\<exists>res. shard_validate_loop alloc config tensors tensor_count rs v = Some res
    \<and> (res = Some [] \<longleftrightarrow> v = [] \<and> (\<forall>r \<in> set rs. shard_consistent config tensors tensor_count r))"
proof (induction rs arbitrary: v)
  case (Cons r rs)
  obtain issues where i: "shard_record_issues config tensors tensor_count r = Some issues"
    "issues = [] \<longleftrightarrow> shard_consistent config tensors tensor_count r"
    using shard_record_issues_empty [where r = r, OF assms] by blast
  show ?case
  proof (cases "append_issues alloc (sr_tensor_id r) issues v")
    case None
    then have "issues \<noteq> []" by auto
    then show ?thesis using i None by simp
  next
    case (Some v')
    with Cons.IH [of v'] append_issues_grows [OF Some] i show ?thesis by auto
  qed
qed auto


section \<open>Witnesses\<close>

definition demo_shard :: att1_shard_meta_record where
  "demo_shard = \<lparr>sr_tensor_id = 0, sr_tile_id = 3, sr_byte_offset = 64, sr_shape = [4, 2, 1, 1], sr_dtype = 2,
     sr_quantization = 1, sr_owner_aimu = 1, sr_replication_policy = 0, sr_dependency_graph = replicate 8 0,
     sr_allowed_ops = 0, sr_routing_requirements = 0, sr_reduction_behavior = 1, sr_checksum = 99\<rparr>"

definition demo_tensor :: att1_model_tensor where
  "demo_tensor = \<lparr>mt_name = replicate 64 0, mt_dtype = 2, mt_ndims = 2, mt_shape = [4, 2, 1, 1], mt_offset = 64, mt_nbytes = 24,
     mt_shard_id = 0, mt_flags = 0, mt_data = None\<rparr>"

lemma demo_shard_valid: "shard_valid demo_shard"
  by (simp add: shard_valid_def demo_shard_def)

theorem shard_meta_parse_exact_witness:
  "att1_shard_meta_parse True (Some (shard_enc demo_shard)) 120 1 (Some [demo_tensor]) (Some empty_shard_meta)
     = Some (ATT1_OK, Some \<lparr>shm_records = [demo_shard], shm_count = 1\<rparr>)"
proof -
  have len: "length (shard_enc demo_shard) = 120" using demo_shard_valid by (rule rec_of_enc)
  have pre: "unat (120 :: u64) \<le> length (shard_enc demo_shard)" "descs_cover (Some [demo_tensor]) (unat (1 :: u64))"
    by (simp_all add: len descs_cover_def demo_tensor_def)
  have "shard_section (Some [demo_tensor]) 0 [demo_shard]"
    using demo_shard_valid by (simp add: shard_section_def shard_matches_def demo_shard_def demo_tensor_def)
  moreover have "take (unat (120 :: u64)) (shard_enc demo_shard) = concat (map shard_enc [demo_shard])"
    by (simp add: len)
  moreover have "length [demo_shard] = unat (1 :: u64)" "unat (120 :: u64) = 120 * length [demo_shard]" by simp_all
  moreover obtain st m' where out: "att1_shard_meta_parse True (Some (shard_enc demo_shard)) 120 1 (Some [demo_tensor])
      (Some empty_shard_meta) = Some (st, Some m')"
    and iff: "\<And>rs. st = ATT1_OK \<and> m' = \<lparr>shm_records = rs, shm_count = 1\<rparr> \<longleftrightarrow> (True \<or> rs = []) \<and> length rs = unat (1 :: u64)
      \<and> unat (120 :: u64) = 120 * length rs \<and> shard_section (Some [demo_tensor]) 0 rs
      \<and> take (unat (120 :: u64)) (shard_enc demo_shard) = concat (map shard_enc rs)"
    using shard_meta_parse_exact [OF pre, of True empty_shard_meta] by blast
  ultimately have "st = ATT1_OK \<and> m' = \<lparr>shm_records = [demo_shard], shm_count = 1\<rparr>" unfolding iff by blast
  then show ?thesis using out by simp
qed

theorem shard_summary_counts_witness:
  "att1_shard_meta_summarize (Some \<lparr>shm_records = [demo_shard, demo_shard], shm_count = 2\<rparr>) (Some zero_summary)
     = Some \<lparr>ss_count = 2, ss_assigned = 2, ss_unassigned = 0, ss_unique_tiles = 1, ss_unique_aimus = 1, ss_dtype_f32 = 0,
        ss_dtype_q8 = 2\<rparr>"
  using shard_summary_counts [of "\<lparr>shm_records = [demo_shard, demo_shard], shm_count = 2\<rparr>" zero_summary]
  by (simp add: summary_of_def demo_shard_def SHARD_TILE_UNASSIGNED_def SHARD_DTYPE_F32_def SHARD_DTYPE_Q8_def)


end
