(* ===== verification/Model_Loader_Props.thy ===== *)
theory Model_Loader_Props
  imports Model_Sizes Shard_Meta_Props
begin

text \<open>
  The loader on arbitrary files: it never reads outside the file, and what it accepts is
  well-formed.
\<close>

section \<open>Well-formed models\<close>

definition tensor_wf :: "nat \<Rightarrow> att1_model_tensor \<Rightarrow> bool" where
  "tensor_wf file_len t \<longleftrightarrow> length (mt_name t) = 64 \<and> mt_name t ! 63 = 0 \<and> length (mt_shape t) = 4
     \<and> 1 \<le> mt_ndims t \<and> mt_ndims t \<le> 4 \<and> 0 \<notin> set (tensor_dims t)
     \<and> prod_list (map unat (tensor_dims t)) < 2 ^ 64
     \<and> tensor_bytes (mt_dtype t) (mt_flags t) (map unat (tensor_dims t)) = Some (unat (mt_nbytes t))
     \<and> (\<exists>p. mt_data t = Some p \<and> unat p + unat (mt_nbytes t) \<le> file_len)"

definition shard_meta_wf :: "att1_model_tensor list \<Rightarrow> att1_shard_meta \<Rightarrow> bool" where
  "shard_meta_wf ts sm \<longleftrightarrow> sm = empty_shard_meta
     \<or> length (shm_records sm) = length ts \<and> unat (shm_count sm) = length ts \<and> shard_section (Some ts) 0 (shm_records sm)"

definition model_wf :: "att1_model \<Rightarrow> bool" where
  "model_wf m \<longleftrightarrow> (\<exists>sd. md_file_data m = Some sd \<and> length sd = unat (md_file_size m)
        \<and> (\<forall>t \<in> set (md_tensors m). tensor_wf (length sd) t))
     \<and> length (md_tensors m) = unat (md_tensor_count m) \<and> shard_meta_wf (md_tensors m) (md_shard_meta m)
     \<and> (md_tok_meta m = zero_tok_meta \<or> tok_valid (mc_vocab_size (md_config m)) (md_tok_meta m))"

section \<open>The stages\<close>

lemma read_file_Some:
  "att1_model_read_file fe = Some sd \<Longrightarrow> fe_bytes fe = Some sd \<and> length sd < 2 ^ 63"
  by (auto simp: att1_model_read_file_def Let_def split: option.splits if_splits)

lemma unat_length: "length (sd :: u8 list) < 2 ^ 63 \<Longrightarrow> unat (word_of_nat (length sd) :: u64) = length sd"
  by (rule unat_of_small) simp

lemma rd_u32_in: "off + 4 \<le> length sd \<Longrightarrow> rd_u32 sd off = Some (read_u32le (read_bytes off 4 sd))"
  by (simp add: rd_u32_def bytes_at_def)

lemma rd_u64_in: "off + 8 \<le> length sd \<Longrightarrow> rd_u64 sd off = Some (read_u64le (read_bytes off 8 sd))"
  by (simp add: rd_u64_def bytes_at_def)

lemma load_header_total:
  assumes "length sd < 2 ^ 63"
  shows "\<exists>r. load_header sd = Some r \<and> (\<forall>st. r = Inl st \<longrightarrow> st \<noteq> ATT1_OK)"
proof (cases "80 \<le> length sd")
  case True
  have v2: "att1_range_valid (word_of_nat (length sd)) 0 (ucast MODEL_HEADER_SIZE_V2) \<longleftrightarrow> 96 \<le> length sd"
    and v1: "att1_range_valid (word_of_nat (length sd)) 0 (ucast MODEL_HEADER_SIZE)"
    using True assms by (simp_all add: att1_range_valid_iff unat_length model_codes unsigned_ucast_eq)
  have m: "bytes_at sd 0 MODEL_MAGIC_SIZE = Some (read_bytes 0 8 sd)"
    using True by (simp add: bytes_at_def MODEL_MAGIC_SIZE_def)
  show ?thesis using True
    by (simp add: load_header_def Let_def v1 v2 m rd_u32_in rd_u64_in split: if_splits)
next
  case False
  then show ?thesis using assms
    by (simp add: load_header_def Let_def att1_range_valid_iff unat_length model_codes unsigned_ucast_eq)
qed

lemma check_sections_Inl: "load_check_sections alloc n h = Inl st \<Longrightarrow> st \<noteq> ATT1_OK"
  by (auto simp: load_check_sections_def split: if_splits option.splits)

lemma check_sections_Inr:
  assumes "load_check_sections alloc n h = Inr db"
  shows "hd_config_size h = 36" "unat (hd_config_offset h) + 36 \<le> unat n"
    "unat (hd_data_offset h) + unat (hd_data_size h) \<le> unat n"
    "hd_shard_size h \<noteq> 0 \<Longrightarrow> unat (hd_shard_offset h) + unat (hd_shard_size h) \<le> unat n"
    "hd_tok_size h \<noteq> 0 \<Longrightarrow> unat (hd_tok_offset h) + unat (hd_tok_size h) \<le> unat n"
    "unat (hd_desc_offset h) + unat (hd_tensor_count h) * 128 \<le> unat n"
  using assms
  by (auto simp: load_check_sections_def att1_range_valid_iff att1_u64_mul_iff model_codes split: if_splits option.splits)

lemma parse_config_total: "p + 36 \<le> length sd \<Longrightarrow> \<exists>c. att1_model_parse_config sd p = Some c"
  by (simp add: att1_model_parse_config_def rd_u32_in)

lemma parse_tensor_total:
  assumes "p + 128 \<le> length sd"
  shows "\<exists>t. att1_model_parse_tensor sd p = Some t \<and> length (mt_name t) = 64 \<and> mt_name t ! 63 = 0 \<and> length (mt_shape t) = 4"
  using assms by (simp add: att1_model_parse_tensor_def rd_u32_in rd_u64_in bytes_at_def MODEL_NAME_SIZE_def)

lemma load_tensor_total:
  assumes "unat off + 128 \<le> length sd" "unat (hd_data_offset h) + unat (hd_data_size h) \<le> length sd" "length sd < 2 ^ 63"
  shows "\<exists>r. load_tensor sd h off = Some r \<and> (\<forall>st. r = Inl st \<longrightarrow> st \<noteq> ATT1_OK) \<and> (\<forall>t. r = Inr t \<longrightarrow> tensor_wf (length sd) t)"
proof -
  obtain t where t: "att1_model_parse_tensor sd (unat off) = Some t"
    and sh: "length (mt_name t) = 64" "mt_name t ! 63 = 0" "length (mt_shape t) = 4"
    using parse_tensor_total [OF assms(1)] by blast
  let ?t = "t\<lparr>mt_data := Some (hd_data_offset h + mt_offset t)\<rparr>"
  have wf: "tensor_wf (length sd) ?t"
    if n: "att1_tensor_nbytes_expected t = Some (mt_nbytes t)"
      and r: "att1_range_valid (hd_data_size h) (mt_offset t) (mt_nbytes t)"
  proof -
    have r': "unat (mt_offset t) + unat (mt_nbytes t) \<le> unat (hd_data_size h)" using r by (simp add: att1_range_valid_iff)
    then have "unat (hd_data_offset h + mt_offset t) = unat (hd_data_offset h) + unat (mt_offset t)"
      using assms(2,3) by (intro unat_add_no_wrap) simp
    then have "unat (hd_data_offset h + mt_offset t) + unat (mt_nbytes t) \<le> length sd" using r' assms(2) by linarith
    then show ?thesis using n sh tensor_nbytes_iff [OF sh(3)] by (auto simp: tensor_wf_def)
  qed
  then show ?thesis by (auto simp: load_tensor_def t split: option.splits)
qed

lemma load_tensors_total:
  assumes "unat (hd_desc_offset h) + (unat i + k) * 128 \<le> length sd"
    "unat (hd_data_offset h) + unat (hd_data_size h) \<le> length sd" "length sd < 2 ^ 63"
  shows "\<exists>r. load_tensors sd h k i = Some r \<and> (\<forall>st. r = Inl st \<longrightarrow> st \<noteq> ATT1_OK)
    \<and> (\<forall>ts. r = Inr ts \<longrightarrow> length ts = k \<and> (\<forall>t \<in> set ts. tensor_wf (length sd) t))"
  using assms(1)
proof (induction k arbitrary: i)
  case (Suc k)
  have i1: "unat (i + 1) = unat i + 1" using Suc.prems assms(3) by (subst unat_plus_one) simp_all
  have "unat (i * MODEL_TENSOR_DESC_SIZE) = unat i * 128"
    using Suc.prems assms(3) by (simp add: unat_word_ariths MODEL_TENSOR_DESC_SIZE_def)
  then have off: "unat (hd_desc_offset h + i * MODEL_TENSOR_DESC_SIZE) = unat (hd_desc_offset h) + unat i * 128"
    using Suc.prems assms(3) by (subst unat_add_no_wrap) simp_all
  obtain one where one: "load_tensor sd h (hd_desc_offset h + i * MODEL_TENSOR_DESC_SIZE) = Some one"
    and o: "\<And>st. one = Inl st \<Longrightarrow> st \<noteq> ATT1_OK" "\<And>t. one = Inr t \<Longrightarrow> tensor_wf (length sd) t"
    using load_tensor_total [OF _ assms(2,3), of "hd_desc_offset h + i * MODEL_TENSOR_DESC_SIZE"] Suc.prems off by auto
  obtain rest where rest: "load_tensors sd h k (i + 1) = Some rest" and r: "\<And>st. rest = Inl st \<Longrightarrow> st \<noteq> ATT1_OK"
    "\<And>ts. rest = Inr ts \<Longrightarrow> length ts = k \<and> (\<forall>t \<in> set ts. tensor_wf (length sd) t)"
    using Suc.IH [of "i + 1"] Suc.prems i1 by auto
  show ?case using o r by (cases one; cases rest) (auto simp: one rest)
qed simp

lemma load_shard_meta_total:
  assumes "hd_shard_size h \<noteq> 0 \<Longrightarrow> unat (hd_shard_offset h) + unat (hd_shard_size h) \<le> length sd"
    "length (md_tensors m) = unat (hd_tensor_count h)" "\<forall>t \<in> set (md_tensors m). tensor_wf n t"
    "md_shard_meta m = empty_shard_meta"
  shows "\<exists>rc m'. load_shard_meta alloc sd h m = Some (rc, Some m')
    \<and> (rc \<noteq> ATT1_OK \<longrightarrow> m' = zero_model)
    \<and> (rc = ATT1_OK \<longrightarrow> (\<exists>sm. m' = m\<lparr>md_shard_meta := sm\<rparr> \<and> shard_meta_wf (md_tensors m) sm))"
proof (cases "hd_shard_size h = 0")
  case True
  then show ?thesis using assms(4) by (auto simp: load_shard_meta_def shard_meta_wf_def intro!: exI [of _ empty_shard_meta])
next
  case False
  let ?sd = "drop (unat (hd_shard_offset h)) sd"
  have "unat (hd_shard_size h) \<le> length ?sd" using assms(1) False by simp
  moreover have "descs_cover (Some (md_tensors m)) (unat (hd_tensor_count h))"
    using assms(2,3) by (simp add: descs_cover_def tensor_wf_def)
  ultimately have "\<exists>st sm. att1_shard_meta_parse alloc (Some ?sd) (hd_shard_size h) (hd_tensor_count h)
      (Some (md_tensors m)) (Some (md_shard_meta m)) = Some (st, Some sm) \<and> (\<forall>rs. st = ATT1_OK \<and>
        sm = \<lparr>shm_records = rs, shm_count = hd_tensor_count h\<rparr> \<longrightarrow>
      length rs = unat (hd_tensor_count h) \<and> shard_section (Some (md_tensors m)) 0 rs)"
    using shard_parse_iff [of "hd_shard_size h" ?sd "Some (md_tensors m)" "hd_tensor_count h" alloc "md_shard_meta m"]
    by (elim meta_impE) (assumption, assumption, elim exE conjE, intro exI conjI, assumption, simp)
  then obtain st sm where p: "att1_shard_meta_parse alloc (Some ?sd) (hd_shard_size h) (hd_tensor_count h)
      (Some (md_tensors m)) (Some (md_shard_meta m)) = Some (st, Some sm)"
    and iff: "\<And>rs. st = ATT1_OK \<and> sm = \<lparr>shm_records = rs, shm_count = hd_tensor_count h\<rparr> \<Longrightarrow>
      length rs = unat (hd_tensor_count h) \<and> shard_section (Some (md_tensors m)) 0 rs"
    by blast
  have cnt: "st = ATT1_OK \<Longrightarrow> shm_count sm = hd_tensor_count h"
    using p
    by (auto simp: att1_shard_meta_parse_def Let_def empty_shard_meta_def bind_eq_Some_conv split: if_splits option.splits)
  have "shard_meta_wf (md_tensors m) sm" if "st = ATT1_OK"
    using iff [of "shm_records sm"] cnt [OF that] that assms(2) by (simp add: shard_meta_wf_def)
  then show ?thesis using False by (auto simp: load_shard_meta_def p att1_model_free_def Let_def)
qed

lemma load_tok_meta_total:
  assumes "hd_tok_size h \<noteq> 0 \<Longrightarrow> unat (hd_tok_offset h) + unat (hd_tok_size h) \<le> length sd" "md_tok_meta m = zero_tok_meta"
  shows "\<exists>rc m'. load_tok_meta sd h m = Some (rc, Some m')
    \<and> (rc \<noteq> ATT1_OK \<longrightarrow> m' = zero_model)
    \<and> (rc = ATT1_OK \<longrightarrow> (\<exists>tm. m' = m\<lparr>md_tok_meta := tm\<rparr>
          \<and> (tm = zero_tok_meta \<or> tok_valid (mc_vocab_size (md_config m)) tm)))"
proof (cases "hd_tok_size h = 96")
  case True
  then have "96 \<le> length (drop (unat (hd_tok_offset h)) sd)" using assms(1) by auto
  from tok_parse_eq [OF this, of "mc_vocab_size (md_config m)" "md_tok_meta m"] True show ?thesis
    by (auto simp: load_tok_meta_def att1_model_free_def)
next
  case False
  then show ?thesis using assms(2)
    by (auto simp: load_tok_meta_def att1_tok_meta_parse_def TOK_META_SIZE_def att1_model_free_def
        intro!: exI [of _ zero_tok_meta])
qed

section \<open>Loading is safe\<close>

text \<open>
  C15. Loading any file, with any answers of the C library, never reads a byte outside of the file.
  It either fails and leaves the model zero, or it succeeds on a well-formed model of the file's
  bytes: every tensor lies inside the file and has exactly the size of its shape and type, the
  shard records match the tensors, and the tokenizer metadata is absent or valid for the vocabulary.
\<close>

theorem model_load_safe:
  "\<exists>st m. att1_model_load fe alloc True (Some m0) = Some (st, Some m)
    \<and> (if st = ATT1_OK then model_wf m \<and> md_file_data m = fe_bytes fe else m = zero_model)"
proof (cases "att1_model_read_file fe")
  case None
  then show ?thesis by (simp add: att1_model_load_def)
next
  case (Some sd)
  note fl = read_file_Some [OF Some]
  have ul: "unat (word_of_nat (length sd) :: u64) = length sd" using fl by (intro unat_length) simp
  obtain hr where hr: "load_header sd = Some hr" "\<And>st. hr = Inl st \<Longrightarrow> st \<noteq> ATT1_OK"
    using load_header_total fl by blast
  show ?thesis
  proof (cases hr)
    case (Inl st)
    then show ?thesis using hr Some by (simp add: att1_model_load_def)
  next
    case (Inr h)
    note hd = hr(1) [unfolded Inr]
    show ?thesis
    proof (cases "load_check_sections (fst alloc) (word_of_nat (length sd)) h")
      case (Inl st)
      then show ?thesis using hd Some check_sections_Inl [OF Inl] by (simp add: att1_model_load_def)
    next
      case (Inr db)
      note cs = check_sections_Inr [OF Inr, unfolded ul]
      obtain c where c: "att1_model_parse_config sd (unat (hd_config_offset h)) = Some c" using parse_config_total cs(2) by blast
      obtain tr where tr: "load_tensors sd h (unat (hd_tensor_count h)) 0 = Some tr" "\<And>st. tr = Inl st \<Longrightarrow> st \<noteq> ATT1_OK"
        "\<And>ts. tr = Inr ts \<Longrightarrow> length ts = unat (hd_tensor_count h) \<and> (\<forall>t \<in> set ts. tensor_wf (length sd) t)"
        using load_tensors_total [of h 0 "unat (hd_tensor_count h)" sd] cs fl by auto
      show ?thesis
      proof (cases tr)
        case (Inl st)
        then show ?thesis using hd Some Inr c tr by (simp add: att1_model_load_def)
      next
        case ts: (Inr ts)
        let ?m = "zero_model\<lparr>md_config := c, md_tensor_count := hd_tensor_count h, md_tensors := ts,
          md_file_data := Some sd, md_file_size := word_of_nat (length sd)\<rparr>"
        obtain rc m1 where s: "load_shard_meta (snd alloc) sd h ?m = Some (rc, Some m1)" "rc \<noteq> ATT1_OK \<longrightarrow> m1 = zero_model"
          "rc = ATT1_OK \<longrightarrow> (\<exists>sm. m1 = ?m\<lparr>md_shard_meta := sm\<rparr> \<and> shard_meta_wf ts sm)"
          using load_shard_meta_total [of h sd ?m "length sd" "snd alloc"] cs tr(3) [OF ts] by (auto simp: zero_model_def)
        have val: "att1_model_load fe alloc True (Some m0)
            = (if rc \<noteq> ATT1_OK then Some (rc, Some m1) else load_tok_meta sd h m1)"
          using hd Some Inr c tr ts s(1) by (simp add: att1_model_load_def)
        show ?thesis
        proof (cases "rc = ATT1_OK")
          case True
          then obtain sm where m1: "m1 = ?m\<lparr>md_shard_meta := sm\<rparr>" "shard_meta_wf ts sm" using s(3) by blast
          then have "md_tok_meta m1 = zero_tok_meta" by (simp add: zero_model_def)
          with load_tok_meta_total [of h sd m1] cs(5) obtain rc' m' where t: "load_tok_meta sd h m1 = Some (rc', Some m')"
            "rc' \<noteq> ATT1_OK \<longrightarrow> m' = zero_model" "rc' = ATT1_OK \<longrightarrow> (\<exists>tm. m' = m1\<lparr>md_tok_meta := tm\<rparr>
              \<and> (tm = zero_tok_meta \<or> tok_valid (mc_vocab_size (md_config m1)) tm))" by blast
          have "model_wf m' \<and> md_file_data m' = fe_bytes fe" if "rc' = ATT1_OK"
            using t(3) that m1 tr(3) [OF ts] fl ul by (auto simp: model_wf_def)
          then show ?thesis using val True t by auto
        qed (use val s(2) in auto)
      qed
    qed
  qed
qed

section \<open>Lookup by name\<close>

text \<open>The C string in a byte array: up to the first zero.\<close>

definition cstr :: "u8 list \<Rightarrow> u8 list" where
  "cstr = takeWhile (\<lambda>c. c \<noteq> 0)"

lemma cstr_simps [simp]: "cstr [] = []" "cstr (c # cs) = (if c = 0 then [] else c # cstr cs)"
  by (simp_all add: cstr_def)

lemma strncmp_zero_iff: "strncmp_zero n a b \<longleftrightarrow> take n (cstr a) = take n (cstr b)"
proof (induction n arbitrary: a b)
  case (Suc n)
  then show ?case by (cases a; cases b) (simp_all add: Let_def)
qed simp

lemma strncmp_zero_name:
  assumes "length a = 64" "a ! 63 = 0"
  shows "strncmp_zero MODEL_NAME_SIZE a b \<longleftrightarrow> cstr a = cstr b"
proof -
  have "length (cstr a) \<le> 63"
  proof (rule ccontr)
    assume "\<not> length (cstr a) \<le> 63"
    then have in_set: "cstr a ! 63 \<in> set (cstr a)" by simp
    have "cstr a ! 63 = a ! 63"
      unfolding cstr_def by (rule takeWhile_nth) (use \<open>\<not> length (cstr a) \<le> 63\<close> in \<open>simp add: cstr_def\<close>)
    then show False using assms(2) set_takeWhileD [OF in_set [unfolded cstr_def]] by (simp add: cstr_def)
  qed
  moreover have "x = y" if e: "take 64 x = take 64 y" and l: "length x \<le> 63" for x y :: "u8 list"
  proof -
    have "min (length y) 64 = length x" using arg_cong [OF e, of length] l by simp
    then have "length y \<le> 63" using l by simp
    then show ?thesis using e l by simp
  qed
  ultimately show ?thesis by (auto simp: strncmp_zero_iff MODEL_NAME_SIZE_def)
qed

lemma first_index_Cons:
  "first_index P (x # xs) = (if P x then Some 0 else map_option Suc (first_index P xs))"
proof (cases "P x")
  case False
  then have "find (\<lambda>j. P ((x # xs) ! j)) (map Suc ys) = map_option Suc (find (\<lambda>j. P (xs ! j)) ys)" for ys
    by (induction ys) simp_all
  then show ?thesis using False by (simp add: first_index_def upt_conv_Cons map_Suc_upt [symmetric] del: upt_Suc)
qed (simp add: first_index_def upt_conv_Cons del: upt_Suc)

lemma find_tensor_loop_eq:
  "find_tensor_loop ts i name = map_option (\<lambda>k. i + k) (first_index (\<lambda>t. strncmp_zero MODEL_NAME_SIZE (mt_name t) name) ts)"
proof (induction ts arbitrary: i)
  case (Cons t ts)
  show ?case using Cons by (simp add: first_index_Cons option.map_comp comp_def)
qed (simp add: first_index_def)

text \<open>
  In a well-formed model, looking up a name finds the first tensor with that name, compared
  as C strings, and nothing when there is none.
\<close>

theorem find_tensor_first:
  assumes "model_wf m"
  shows "att1_model_find_tensor (Some m) (Some name) = first_index (\<lambda>t. cstr (mt_name t) = cstr name) (md_tensors m)"
proof -
  have "\<forall>t \<in> set (md_tensors m). strncmp_zero MODEL_NAME_SIZE (mt_name t) name \<longleftrightarrow> cstr (mt_name t) = cstr name"
    using assms by (auto simp: model_wf_def tensor_wf_def strncmp_zero_name)
  then have "first_index (\<lambda>t. strncmp_zero MODEL_NAME_SIZE (mt_name t) name) (md_tensors m)
      = first_index (\<lambda>t. cstr (mt_name t) = cstr name) (md_tensors m)"
    unfolding first_index_def by (intro find_cong) simp_all
  then show ?thesis using assms by (simp add: att1_model_find_tensor_def find_tensor_loop_eq model_wf_def option.map_ident)
qed

definition demo_model :: att1_model where
  "demo_model = zero_model\<lparr>md_tensor_count := 1, md_file_size := 24, md_file_data := Some (replicate 24 1),
     md_tensors := [demo_tensor\<lparr>mt_name := 97 # 98 # replicate 62 0, mt_data := Some 0\<rparr>]\<rparr>"

theorem find_tensor_first_witness: "att1_model_find_tensor (Some demo_model) (Some [97, 98]) = Some 0"
proof -
  have "model_wf demo_model"
    by (simp add: model_wf_def demo_model_def zero_model_def tensor_wf_def demo_tensor_def tensor_bytes_def model_codes
        shard_meta_wf_def)
  from find_tensor_first [OF this] show ?thesis by (simp add: demo_model_def first_index_def cstr_def)
qed

end
