(* ===== verification/Model_Roundtrip.thy ===== *)
theory Model_Roundtrip
  imports Model_Loader_Props
begin

text \<open>
  A writer of model files in the version 2 layout and the proof that the loader reads back what
  it wrote.
\<close>

section \<open>The records of a file\<close>

definition config_enc :: "att1_model_config \<Rightarrow> u8 list" where
  "config_enc c = concat (map (le_bytes 4) [mc_vocab_size c, mc_n_layers c, mc_n_heads c, mc_d_model c, mc_d_ff c,
     mc_max_seq_len c, mc_rope_dim c, mc_n_tiles c, mc_shard_count c])"

definition tensor_enc :: "att1_model_tensor \<Rightarrow> u8 list" where
  "tensor_enc t = concat ([mt_name t, le_bytes 4 (mt_dtype t), le_bytes 4 (mt_ndims t)] @ map (le_bytes 8) (mt_shape t)
     @ [le_bytes 8 (mt_offset t), le_bytes 8 (mt_nbytes t), le_bytes 4 (mt_shard_id t), le_bytes 4 (mt_flags t)])"

definition tensor_valid :: "att1_model_tensor \<Rightarrow> bool" where
  "tensor_valid t \<longleftrightarrow> length (mt_name t) = 64 \<and> mt_name t ! 63 = 0 \<and> length (mt_shape t) = 4 \<and> mt_data t = None"

lemma rd_nested:
  "off + 4 \<le> w \<Longrightarrow> p + w \<le> length sd \<Longrightarrow> rd_u32 (read_bytes p w sd) off = rd_u32 sd (p + off)"
  "off + 8 \<le> w \<Longrightarrow> p + w \<le> length sd \<Longrightarrow> rd_u64 (read_bytes p w sd) off = rd_u64 sd (p + off)"
  by (simp_all add: rd_u32_def rd_u64_def bytes_at_def read_bytes_nested)

lemma parse_config_at:
  assumes "p + 36 \<le> length sd"
  shows "att1_model_parse_config sd p = att1_model_parse_config (read_bytes p 36 sd) 0"
proof -
  have r: "rd_u32 (read_bytes p 36 sd) off = rd_u32 sd (p + off)" if "off \<le> 32" for off
    using that assms by (intro rd_nested) simp_all
  have r0: "rd_u32 (read_bytes p 36 sd) 0 = rd_u32 sd p" using r [of 0] by simp
  show ?thesis unfolding att1_model_parse_config_def by (simp add: r r0)
qed

lemma parse_tensor_at:
  assumes "p + 128 \<le> length sd"
  shows "att1_model_parse_tensor sd p = att1_model_parse_tensor (read_bytes p 128 sd) 0"
proof -
  have r: "rd_u32 (read_bytes p 128 sd) off = rd_u32 sd (p + off)" if "off \<le> 124" for off
    using that assms by (intro rd_nested) simp_all
  have r8: "rd_u64 (read_bytes p 128 sd) off = rd_u64 sd (p + off)" if "off \<le> 120" for off
    using that assms by (intro rd_nested) simp_all
  have n: "bytes_at (read_bytes p 128 sd) 0 64 = bytes_at sd p 64"
    using assms by (simp add: bytes_at_def read_bytes_nested)
  show ?thesis unfolding att1_model_parse_tensor_def MODEL_NAME_SIZE_def by (simp add: r r8 n)
qed

interpretation config_wire: wire_format 36 config_enc "\<lambda>bs. att1_model_parse_config bs 0" "\<lambda>_. True"
  by unfold_locales (simp_all add: config_enc_def att1_model_parse_config_def wire_eval)

interpretation tensor_wire: wire_format 128 tensor_enc "\<lambda>bs. att1_model_parse_tensor bs 0" tensor_valid
proof unfold_locales
  fix t assume v: "tensor_valid t"
  then obtain a b c d where sh: "mt_shape t = [a, b, c, d]" using list4 unfolding tensor_valid_def by metis
  then show "length (tensor_enc t) = 128" using v by (simp add: tensor_enc_def tensor_valid_def)
  have nm: "(mt_name t)[63 := 0] = mt_name t" using v by (metis list_update_id tensor_valid_def)
  have "length (mt_name t) = 64" "mt_data t = None" using v by (simp_all add: tensor_valid_def)
  then show "att1_model_parse_tensor (tensor_enc t) 0 = Some t"
    using sh nm by (cases t) (simp add: tensor_enc_def att1_model_parse_tensor_def wire_eval MODEL_NAME_SIZE_def)
qed

section \<open>The writer\<close>

record model_source =
  src_config :: att1_model_config
  src_tensors :: "att1_model_tensor list"
  src_shards :: "att1_shard_meta_record list"
  src_tok :: "att1_tok_meta option"
  src_data :: "u8 list"

definition src_tok_bytes :: "model_source \<Rightarrow> u8 list" where
  "src_tok_bytes s = (case src_tok s of None \<Rightarrow> [] | Some t \<Rightarrow> tok_enc t)"

definition src_shard_off :: "model_source \<Rightarrow> nat" where
  "src_shard_off s = 132 + 128 * length (src_tensors s)"

definition src_tok_off :: "model_source \<Rightarrow> nat" where
  "src_tok_off s = src_shard_off s + 120 * length (src_shards s)"

definition src_data_off :: "model_source \<Rightarrow> nat" where
  "src_data_off s = src_tok_off s + length (src_tok_bytes s)"

definition src_header :: "model_source \<Rightarrow> model_header" where
  "src_header s = \<lparr>hd_config_offset = 96, hd_config_size = 36, hd_desc_offset = 132,
     hd_tensor_count = word_of_nat (length (src_tensors s)), hd_data_offset = word_of_nat (src_data_off s),
     hd_data_size = word_of_nat (length (src_data s)),
     hd_shard_offset = (if src_shards s = [] then 0 else word_of_nat (src_shard_off s)),
     hd_shard_size = word_of_nat (120 * length (src_shards s)),
     hd_tok_offset = (if src_tok s = None then 0 else word_of_nat (src_tok_off s)),
     hd_tok_size = (if src_tok s = None then 0 else 96)\<rparr>"

definition header_enc :: "model_header \<Rightarrow> u8 list" where
  "header_enc h = concat ([MODEL_MAGIC, le_bytes 4 MODEL_VERSION_2, le_bytes 4 MODEL_HEADER_SIZE_V2] @ map (le_bytes 8)
     [hd_config_offset h, hd_config_size h, hd_desc_offset h, hd_tensor_count h, hd_data_offset h, hd_data_size h,
      hd_shard_offset h, hd_shard_size h, hd_tok_offset h, hd_tok_size h])"

definition encode_model :: "model_source \<Rightarrow> u8 list" where
  "encode_model s = header_enc (src_header s) @ config_enc (src_config s) @ concat (map tensor_enc (src_tensors s))
     @ concat (map shard_enc (src_shards s)) @ src_tok_bytes s @ src_data s"

definition source_tensor_ok :: "nat \<Rightarrow> att1_model_tensor \<Rightarrow> bool" where
  "source_tensor_ok data_len t \<longleftrightarrow> tensor_valid t \<and> 1 \<le> mt_ndims t \<and> mt_ndims t \<le> 4 \<and> 0 \<notin> set (tensor_dims t)
     \<and> prod_list (map unat (tensor_dims t)) < 2 ^ 64
     \<and> tensor_bytes (mt_dtype t) (mt_flags t) (map unat (tensor_dims t)) = Some (unat (mt_nbytes t))
     \<and> unat (mt_offset t) + unat (mt_nbytes t) \<le> data_len"

definition source_ok :: "model_source \<Rightarrow> bool" where
  "source_ok s \<longleftrightarrow> (\<forall>t \<in> set (src_tensors s). source_tensor_ok (length (src_data s)) t)
     \<and> (src_shards s \<noteq> [] \<longrightarrow> length (src_shards s) = length (src_tensors s)
          \<and> shard_section (Some (src_tensors s)) 0 (src_shards s))
     \<and> (\<forall>t. src_tok s = Some t \<longrightarrow> tok_valid (mc_vocab_size (src_config s)) t)
     \<and> length (encode_model s) < 2 ^ 63"

text \<open>What loading the file gives.\<close>

definition loaded_tensor :: "model_source \<Rightarrow> att1_model_tensor \<Rightarrow> att1_model_tensor" where
  "loaded_tensor s t = t\<lparr>mt_data := Some (word_of_nat (src_data_off s) + mt_offset t)\<rparr>"

definition model_of :: "model_source \<Rightarrow> att1_model" where
  "model_of s =
     \<lparr>md_config = src_config s,
      md_tensor_count = word_of_nat (length (src_tensors s)),
      md_tensors = map (loaded_tensor s) (src_tensors s),
      md_file_data = Some (encode_model s),
      md_file_size = word_of_nat (length (encode_model s)),
      md_shard_meta = (if src_shards s = [] then empty_shard_meta
                       else \<lparr>shm_records = src_shards s, shm_count = word_of_nat (length (src_tensors s))\<rparr>),
      md_tok_meta = (case src_tok s of None \<Rightarrow> zero_tok_meta | Some t \<Rightarrow> t)\<rparr>"

section \<open>The layout\<close>

lemma length_header_enc: "length (header_enc h) = 96"
  by (simp add: header_enc_def MODEL_MAGIC_def)

lemma source_tensors_valid: "source_ok s \<Longrightarrow> \<forall>t \<in> set (src_tensors s). tensor_valid t"
  by (simp add: source_ok_def source_tensor_ok_def)

lemma source_shards_valid: "source_ok s \<Longrightarrow> \<forall>r \<in> set (src_shards s). shard_valid r"
  by (cases "src_shards s = []") (auto simp: source_ok_def shard_section_def in_set_conv_nth)

lemma length_parts:
  assumes "source_ok s"
  shows "length (concat (map tensor_enc (src_tensors s))) = 128 * length (src_tensors s)"
    "length (concat (map shard_enc (src_shards s))) = 120 * length (src_shards s)"
    "length (src_tok_bytes s) = (if src_tok s = None then 0 else 96)"
    "length (encode_model s) = src_data_off s + length (src_data s)"
proof -
  show a: "length (concat (map tensor_enc (src_tensors s))) = 128 * length (src_tensors s)"
    using tensor_wire.array_length source_tensors_valid [OF assms] .
  show b: "length (concat (map shard_enc (src_shards s))) = 120 * length (src_shards s)"
    using shard_wire.array_length source_shards_valid [OF assms] .
  show c: "length (src_tok_bytes s) = (if src_tok s = None then 0 else 96)"
    using assms length_tok_enc by (auto simp: src_tok_bytes_def source_ok_def split: option.split)
  show "length (encode_model s) = src_data_off s + length (src_data s)"
    using config_wire.enc_length
    by (simp only: encode_model_def length_append a b length_header_enc src_data_off_def src_tok_off_def src_shard_off_def)
qed

lemma small_unat: "source_ok s \<Longrightarrow> k \<le> length (encode_model s) \<Longrightarrow> unat (word_of_nat k :: u64) = k"
  by (intro unat_of_small) (simp add: source_ok_def)

lemma header_fields:
  assumes "source_ok s"
  shows "unat (hd_tensor_count (src_header s)) = length (src_tensors s)"
    "unat (hd_data_offset (src_header s)) = src_data_off s" "unat (hd_data_size (src_header s)) = length (src_data s)"
    "src_shards s \<noteq> [] \<Longrightarrow> unat (hd_shard_offset (src_header s)) = src_shard_off s"
    "unat (hd_shard_size (src_header s)) = 120 * length (src_shards s)"
    "src_tok s \<noteq> None \<Longrightarrow> unat (hd_tok_offset (src_header s)) = src_tok_off s"
proof -
  have le: "length (src_tensors s) \<le> length (encode_model s)" "src_data_off s \<le> length (encode_model s)"
    "length (src_data s) \<le> length (encode_model s)" "src_shard_off s \<le> length (encode_model s)"
    "120 * length (src_shards s) \<le> length (encode_model s)" "src_tok_off s \<le> length (encode_model s)"
    unfolding length_parts(4) [OF assms] by (simp_all add: src_data_off_def src_tok_off_def src_shard_off_def)
  show "unat (hd_tensor_count (src_header s)) = length (src_tensors s)"
    "unat (hd_data_offset (src_header s)) = src_data_off s" "unat (hd_data_size (src_header s)) = length (src_data s)"
    "unat (hd_shard_size (src_header s)) = 120 * length (src_shards s)"
    using le [THEN small_unat [OF assms]] by (simp_all add: src_header_def del: of_nat_mult of_nat_add)
  show "unat (hd_shard_offset (src_header s)) = src_shard_off s" if "src_shards s \<noteq> []"
    using le [THEN small_unat [OF assms]] that by (simp add: src_header_def)
  show "unat (hd_tok_offset (src_header s)) = src_tok_off s" if "src_tok s \<noteq> None"
    using le [THEN small_unat [OF assms]] that by (cases "src_tok s") (simp_all add: src_header_def)
qed

lemma load_header_encode:
  assumes "source_ok s"
  shows "load_header (encode_model s) = Some (Inr (src_header s))"
proof -
  let ?h = "src_header s"
  obtain rest where e: "encode_model s = header_enc ?h @ rest" by (simp add: encode_model_def)
  have "96 \<le> length (encode_model s)" "length (encode_model s) < 2 ^ 63"
    using length_parts(4) [OF assms] assms by (simp_all add: src_data_off_def src_tok_off_def src_shard_off_def source_ok_def)
  then have v: "att1_range_valid (word_of_nat (length (encode_model s))) 0 80"
    "att1_range_valid (word_of_nat (length (encode_model s))) 0 96"
    by (simp_all add: att1_range_valid_iff unat_length)
  have ml: "length MODEL_MAGIC = 8" by (simp add: MODEL_MAGIC_def)
  then have m: "bytes_at (encode_model s) 0 8 = Some MODEL_MAGIC" by (simp add: e header_enc_def bytes_at_hit)
  have "header_enc ?h @ rest = MODEL_MAGIC @ le_bytes 4 MODEL_VERSION_2 @ le_bytes 4 MODEL_HEADER_SIZE_V2
      @ le_bytes 8 (hd_config_offset ?h) @ le_bytes 8 (hd_config_size ?h) @ le_bytes 8 (hd_desc_offset ?h)
      @ le_bytes 8 (hd_tensor_count ?h) @ le_bytes 8 (hd_data_offset ?h) @ le_bytes 8 (hd_data_size ?h)
      @ le_bytes 8 (hd_shard_offset ?h) @ le_bytes 8 (hd_shard_size ?h) @ le_bytes 8 (hd_tok_offset ?h)
      @ le_bytes 8 (hd_tok_size ?h) @ rest" (is "_ = ?bytes")
    by (simp add: header_enc_def)
  then have e2: "encode_model s = ?bytes" using e by simp
  have "rd_u32 ?bytes 8 = Some 2" "rd_u32 ?bytes 12 = Some 96" "rd_u64 ?bytes 16 = Some (hd_config_offset ?h)"
    "rd_u64 ?bytes 24 = Some (hd_config_size ?h)" "rd_u64 ?bytes 32 = Some (hd_desc_offset ?h)"
    "rd_u64 ?bytes 40 = Some (hd_tensor_count ?h)" "rd_u64 ?bytes 48 = Some (hd_data_offset ?h)"
    "rd_u64 ?bytes 56 = Some (hd_data_size ?h)" "rd_u64 ?bytes 64 = Some (hd_shard_offset ?h)"
    "rd_u64 ?bytes 72 = Some (hd_shard_size ?h)" "rd_u64 ?bytes 80 = Some (hd_tok_offset ?h)"
    "rd_u64 ?bytes 88 = Some (hd_tok_size ?h)"
    using ml by (simp_all add: wire_eval MODEL_VERSION_2_def MODEL_HEADER_SIZE_V2_def)
  note rds = this [folded e2]
  show ?thesis unfolding load_header_def Let_def
    by (simp add: v m rds MODEL_MAGIC_SIZE_def MODEL_VERSION_def MODEL_VERSION_2_def
        MODEL_HEADER_SIZE_def MODEL_HEADER_SIZE_V2_def)
qed

lemma check_sections_encode:
  assumes "source_ok s"
  shows "load_check_sections True (word_of_nat (length (encode_model s))) (src_header s)
    = Inr (word_of_nat (128 * length (src_tensors s)))"
proof -
  let ?h = "src_header s" let ?n = "word_of_nat (length (encode_model s)) :: u64"
  note f = header_fields [OF assms]
  note len = length_parts [OF assms]
  have n: "unat ?n = length (encode_model s)" using small_unat [OF assms] by simp
  have off: "unat (hd_config_offset ?h) = 96" "unat (hd_config_size ?h) = 36" "unat (hd_desc_offset ?h) = 132"
    "hd_config_size ?h = MODEL_CONFIG_SIZE" "src_tok s \<noteq> None \<Longrightarrow> unat (hd_tok_size ?h) = 96"
    by (auto simp: src_header_def MODEL_CONFIG_SIZE_def)
  have L: "length (encode_model s) = 132 + 128 * length (src_tensors s) + 120 * length (src_shards s)
      + length (src_tok_bytes s) + length (src_data s)" "length (encode_model s) < 2 ^ 63"
    using len(4) assms by (simp_all add: src_data_off_def src_tok_off_def src_shard_off_def source_ok_def)
  have zero: "src_shards s = [] \<Longrightarrow> hd_shard_offset ?h = 0 \<and> hd_shard_size ?h = 0" "src_tok s = None \<Longrightarrow> hd_tok_offset ?h = 0 \<and> hd_tok_size ?h = 0"
    by (simp_all add: src_header_def)
  have nz: "src_shards s \<noteq> [] \<Longrightarrow> hd_shard_offset ?h \<noteq> 0 \<and> hd_shard_size ?h \<noteq> 0"
    "src_tok s \<noteq> None \<Longrightarrow> hd_tok_offset ?h \<noteq> 0 \<and> hd_tok_size ?h \<noteq> 0"
    using f(4,5,6) off(5) by (auto simp: word_unat_eq_iff src_shard_off_def src_tok_off_def)
  have small: "unat (word_of_nat (128 * length (src_tensors s)) :: u64) = 128 * length (src_tensors s)"
    by (rule small_unat [OF assms]) (use L in simp)
  have mul: "att1_u64_mul (hd_tensor_count ?h) MODEL_TENSOR_DESC_SIZE = Some (word_of_nat (128 * length (src_tensors s)))"
    unfolding att1_u64_mul_iff small f(1) by (simp add: MODEL_TENSOR_DESC_SIZE_def)
  have ends: "unat (hd_desc_offset ?h + word_of_nat (128 * length (src_tensors s))) = src_shard_off s"
    using L small off by (subst unat_add_no_wrap) (simp_all add: src_shard_off_def)
  have r: "att1_range_valid ?n (hd_config_offset ?h) (hd_config_size ?h)"
    "att1_range_valid ?n (hd_data_offset ?h) (hd_data_size ?h)"
    "src_shards s \<noteq> [] \<Longrightarrow> att1_range_valid ?n (hd_shard_offset ?h) (hd_shard_size ?h)"
    "src_tok s \<noteq> None \<Longrightarrow> att1_range_valid ?n (hd_tok_offset ?h) (hd_tok_size ?h)"
    "att1_range_valid ?n (hd_desc_offset ?h) (word_of_nat (128 * length (src_tensors s)))"
    unfolding att1_range_valid_iff n using f off L len(3) small
    by (auto simp: src_data_off_def src_tok_off_def src_shard_off_def)
  have lap: "src_shards s \<noteq> [] \<Longrightarrow> \<not> hd_shard_offset ?h < hd_desc_offset ?h + word_of_nat (128 * length (src_tensors s))"
    using ends f(4) by (simp add: word_less_nat_alt)
  have send: "src_shards s \<noteq> [] \<Longrightarrow> unat (hd_shard_offset ?h + hd_shard_size ?h) = src_tok_off s"
    using f(4,5) L by (subst unat_add_no_wrap) (simp_all add: src_tok_off_def src_shard_off_def)
  then have lap2: "src_shards s \<noteq> [] \<Longrightarrow> \<not> hd_data_offset ?h < hd_shard_offset ?h + hd_shard_size ?h"
    using f(2) by (simp add: word_less_nat_alt src_data_off_def)
  have cnt: "\<not> word_of_nat (SIZE_MAX div 136) < hd_tensor_count ?h"
    using L f(1) by (simp add: word_less_nat_alt SIZE_MAX_def)
  show ?thesis
    unfolding load_check_sections_def
    using r zero nz lap lap2 cnt mul off(4)
    by (cases "src_shards s = []"; cases "src_tok s = None") simp_all
qed

text \<open>Loading the descriptors.\<close>

lemma source_tensor_load:
  assumes "source_ok s" "t \<in> set (src_tensors s)"
    and "att1_model_parse_tensor sd (unat off) = Some t"
  shows "load_tensor sd (src_header s) off = Some (Inr (loaded_tensor s t))"
proof -
  have ok: "source_tensor_ok (length (src_data s)) t" using assms by (simp add: source_ok_def)
  then have "length (mt_shape t) = 4" by (simp add: source_tensor_ok_def tensor_valid_def)
  then have "att1_tensor_nbytes_expected t = Some (mt_nbytes t)"
    using ok by (simp add: tensor_nbytes_iff source_tensor_ok_def)
  moreover have "att1_range_valid (hd_data_size (src_header s)) (mt_offset t) (mt_nbytes t)"
    using ok by (simp add: att1_range_valid_iff header_fields [OF assms(1)] source_tensor_ok_def)
  moreover have "hd_data_offset (src_header s) = word_of_nat (src_data_off s)" by (simp add: src_header_def)
  ultimately show ?thesis by (simp add: load_tensor_def assms(3) loaded_tensor_def)
qed

lemma parse_tensor_encode:
  assumes "source_ok s" "i < length (src_tensors s)"
  shows "att1_model_parse_tensor (encode_model s) (132 + i * 128) = Some (src_tensors s ! i)"
proof -
  let ?ts = "src_tensors s"
  have v: "\<forall>t \<in> set ?ts. tensor_valid t" using source_tensors_valid [OF assms(1)] .
  obtain zs where e: "encode_model s = header_enc (src_header s) @ config_enc (src_config s) @ concat (map tensor_enc ?ts) @ zs"
    by (simp add: encode_model_def)
  have "bytes_at (encode_model s) (132 + i * 128) 128 = Some (tensor_enc (?ts ! i))"
    using tensor_wire.array_nth [OF v assms(2), of zs] config_wire.enc_length [of "src_config s"]
    by (simp add: e bytes_at_skip length_header_enc)
  then have "132 + i * 128 + 128 \<le> length (encode_model s)"
    "read_bytes (132 + i * 128) 128 (encode_model s) = tensor_enc (?ts ! i)"
    by (auto simp: bytes_at_def split: if_splits)
  then show ?thesis using parse_tensor_at tensor_wire.dec_enc v assms(2) by (metis nth_mem)
qed

lemma load_tensors_encode:
  assumes "source_ok s" "unat i + k = length (src_tensors s)"
  shows "load_tensors (encode_model s) (src_header s) k i = Some (Inr (map (loaded_tensor s) (drop (unat i) (src_tensors s))))"
  using assms(2)
proof (induction k arbitrary: i)
  case (Suc k)
  have L: "132 + 128 * length (src_tensors s) < 2 ^ 63"
    using length_parts(4) [OF assms(1)] assms(1) by (simp add: src_data_off_def src_tok_off_def src_shard_off_def source_ok_def)
  have i: "unat i < length (src_tensors s)" and i1: "unat (i + 1) = unat i + 1"
    using Suc.prems L by (simp, subst unat_plus_one) simp_all
  have "unat (i * MODEL_TENSOR_DESC_SIZE) = unat i * 128"
    using i L by (simp add: unat_word_ariths MODEL_TENSOR_DESC_SIZE_def)
  moreover have "unat (hd_desc_offset (src_header s)) = 132" by (simp add: src_header_def)
  ultimately have off: "unat (hd_desc_offset (src_header s) + i * MODEL_TENSOR_DESC_SIZE) = 132 + unat i * 128"
    using i L by (subst unat_add_no_wrap) simp_all
  have "load_tensor (encode_model s) (src_header s) (hd_desc_offset (src_header s) + i * MODEL_TENSOR_DESC_SIZE)
      = Some (Inr (loaded_tensor s (src_tensors s ! unat i)))"
    using parse_tensor_encode [OF assms(1) i] i by (intro source_tensor_load [OF assms(1)]) (simp_all add: off)
  moreover have "load_tensors (encode_model s) (src_header s) k (i + 1)
      = Some (Inr (map (loaded_tensor s) (drop (unat i + 1) (src_tensors s))))"
    using Suc.IH [of "i + 1"] Suc.prems i1 by simp
  moreover have "drop (unat i) (src_tensors s) = src_tensors s ! unat i # drop (unat i + 1) (src_tensors s)"
    using i by (simp add: Cons_nth_drop_Suc)
  ultimately show ?case by simp
qed simp

lemma parse_config_encode: "source_ok s \<Longrightarrow> att1_model_parse_config (encode_model s) 96 = Some (src_config s)"
proof -
  assume s: "source_ok s"
  have "bytes_at (encode_model s) 96 36 = Some (config_enc (src_config s))"
    using config_wire.enc_length [of "src_config s"] by (simp add: encode_model_def bytes_at_skip bytes_at_hit length_header_enc)
  then have "96 + 36 \<le> length (encode_model s)" "read_bytes 96 36 (encode_model s) = config_enc (src_config s)"
    by (auto simp: bytes_at_def split: if_splits)
  then show ?thesis using parse_config_at config_wire.dec_enc by metis
qed

text \<open>The optional sections.\<close>

lemma shard_section_loaded:
  assumes "shard_section (Some ts) 0 rs" "length rs = length ts"
  shows "shard_section (Some (map (loaded_tensor s) ts)) 0 rs"
  using assms by (simp add: shard_section_def shard_matches_def loaded_tensor_def)

lemma load_shard_meta_encode:
  assumes "source_ok s" "md_tensors m = map (loaded_tensor s) (src_tensors s)" "md_shard_meta m = empty_shard_meta"
  shows "load_shard_meta True (encode_model s) (src_header s) m
    = Some (ATT1_OK, Some (m\<lparr>md_shard_meta := md_shard_meta (model_of s)\<rparr>))"
proof (cases "src_shards s = []")
  case True
  then show ?thesis using assms(3) by (simp add: load_shard_meta_def src_header_def model_of_def)
next
  case False
  let ?h = "src_header s" let ?rs = "src_shards s" let ?n = "length (src_tensors s)"
  let ?sd = "drop (unat (hd_shard_offset ?h)) (encode_model s)"
  note f = header_fields [OF assms(1)]
  note len = length_parts [OF assms(1)]
  have n: "length ?rs = ?n" and sec: "shard_section (Some (src_tensors s)) 0 ?rs"
    using assms(1) False by (simp_all add: source_ok_def)
  have sz: "unat (hd_shard_size ?h) = 120 * length ?rs" by (rule f(5))
  have sd: "?sd = concat (map shard_enc ?rs) @ src_tok_bytes s @ src_data s"
    using f(4) [OF False] len(1) config_wire.enc_length [of "src_config s"]
    by (simp add: encode_model_def src_shard_off_def length_header_enc)
  have tk: "take (unat (hd_shard_size ?h)) ?sd = concat (map shard_enc ?rs)" unfolding sd sz using len(2) by simp
  have c1: "unat (hd_shard_size ?h) \<le> length ?sd" unfolding sd sz using len(2) by simp
  have c2: "descs_cover (Some (md_tensors m)) (unat (hd_tensor_count ?h))"
    using source_tensors_valid [OF assms(1)] by (auto simp: assms(2) f(1) descs_cover_def loaded_tensor_def tensor_valid_def)
  obtain st sm where p: "att1_shard_meta_parse True (Some ?sd) (hd_shard_size ?h) (hd_tensor_count ?h)
      (Some (md_tensors m)) (Some (md_shard_meta m)) = Some (st, Some sm)"
    and iff: "\<And>rs. st = ATT1_OK \<and> sm = \<lparr>shm_records = rs, shm_count = hd_tensor_count ?h\<rparr> \<longleftrightarrow>
      (True \<or> rs = []) \<and> length rs = unat (hd_tensor_count ?h) \<and> unat (hd_shard_size ?h) = 120 * length rs
      \<and> shard_section (Some (md_tensors m)) 0 rs \<and> take (unat (hd_shard_size ?h)) ?sd = concat (map shard_enc rs)"
    using shard_parse_iff [OF c1 c2, of True "md_shard_meta m"] by blast
  have "st = ATT1_OK \<and> sm = \<lparr>shm_records = ?rs, shm_count = hd_tensor_count ?h\<rparr>"
    unfolding iff using n sz tk f(1) shard_section_loaded [OF sec n] by (simp add: assms(2))
  moreover have "hd_shard_size ?h \<noteq> 0" using False sz by (auto simp: word_unat_eq_iff)
  moreover have "hd_tensor_count ?h = word_of_nat ?n" by (simp add: src_header_def)
  ultimately show ?thesis using False p by (simp add: load_shard_meta_def model_of_def)
qed

lemma load_tok_meta_encode:
  assumes "source_ok s" "md_config m = src_config s" "md_tok_meta m = zero_tok_meta"
  shows "load_tok_meta (encode_model s) (src_header s) m = Some (ATT1_OK, Some (m\<lparr>md_tok_meta := md_tok_meta (model_of s)\<rparr>))"
proof (cases "src_tok s")
  case None
  then show ?thesis using assms(3) by (simp add: load_tok_meta_def src_header_def model_of_def)
next
  case (Some t)
  let ?h = "src_header s"
  have v: "tok_valid (mc_vocab_size (md_config m)) t" using assms(1,2) Some by (simp add: source_ok_def)
  note len = length_parts [OF assms(1)]
  have "drop (unat (hd_tok_offset ?h)) (encode_model s) = tok_enc t @ src_data s"
    using header_fields(6) [OF assms(1)] Some len(1,2) config_wire.enc_length [of "src_config s"]
    by (simp add: encode_model_def src_tok_off_def src_shard_off_def length_header_enc src_tok_bytes_def)
  moreover have "hd_tok_size ?h = 96" using Some by (simp add: src_header_def)
  ultimately show ?thesis
    using tok_parse_eq [of "tok_enc t @ src_data s" _ "md_tok_meta m"] tok_of_enc [OF v] length_tok_enc [OF v] v Some
    by (simp add: load_tok_meta_def model_of_def)
qed

section \<open>What is written is read\<close>

definition good_file :: "u8 list \<Rightarrow> file_env" where
  "good_file bs = \<lparr>fe_bytes = Some bs, fe_seek_end = True, fe_seek_set = True, fe_malloc = True, fe_read = True\<rparr>"

text \<open>
  C16. Writing a model and loading the file gives the model back: configuration, every tensor
  descriptor with its payload at its place in the file, shard records and tokenizer metadata.
\<close>

theorem model_file_roundtrip:
  assumes "source_ok s"
  shows "att1_model_load (good_file (encode_model s)) (True, True) True (Some m0) = Some (ATT1_OK, Some (model_of s))"
proof -
  let ?f = "encode_model s" let ?h = "src_header s"
  have rd: "att1_model_read_file (good_file ?f) = Some ?f"
    using assms by (auto simp: att1_model_read_file_def good_file_def source_ok_def)
  have cfg: "att1_model_parse_config ?f (unat (hd_config_offset ?h)) = Some (src_config s)"
    using parse_config_encode [OF assms] by (simp add: src_header_def)
  have ts: "load_tensors ?f ?h (unat (hd_tensor_count ?h)) 0 = Some (Inr (map (loaded_tensor s) (src_tensors s)))"
    using load_tensors_encode [OF assms, of 0 "length (src_tensors s)"] header_fields(1) [OF assms] by simp
  let ?m = "zero_model\<lparr>md_config := src_config s, md_tensor_count := hd_tensor_count ?h,
    md_tensors := map (loaded_tensor s) (src_tensors s), md_file_data := Some ?f, md_file_size := word_of_nat (length ?f)\<rparr>"
  have sh: "load_shard_meta True ?f ?h ?m = Some (ATT1_OK, Some (?m\<lparr>md_shard_meta := md_shard_meta (model_of s)\<rparr>))"
    by (rule load_shard_meta_encode [OF assms]) (simp_all add: zero_model_def)
  have "load_tok_meta ?f ?h (?m\<lparr>md_shard_meta := md_shard_meta (model_of s)\<rparr>)
      = Some (ATT1_OK, Some (?m\<lparr>md_shard_meta := md_shard_meta (model_of s), md_tok_meta := md_tok_meta (model_of s)\<rparr>))"
    by (subst load_tok_meta_encode [OF assms]) (simp_all add: zero_model_def)
  also have "?m\<lparr>md_shard_meta := md_shard_meta (model_of s), md_tok_meta := md_tok_meta (model_of s)\<rparr> = model_of s"
    by (simp add: zero_model_def model_of_def src_header_def)
  finally have tk: "load_tok_meta ?f ?h (?m\<lparr>md_shard_meta := md_shard_meta (model_of s)\<rparr>) = Some (ATT1_OK, Some (model_of s))" .
  show ?thesis
    by (simp add: att1_model_load_def rd load_header_encode [OF assms] check_sections_encode [OF assms] cfg ts sh tk)
qed

text \<open>One Q8 tensor of 4 by 2, with its shard record and a byte tokenizer.\<close>

definition demo_source :: model_source where
  "demo_source = \<lparr>src_config = zero_config\<lparr>mc_vocab_size := 256\<rparr>,
     src_tensors = [demo_tensor\<lparr>mt_offset := 0\<rparr>], src_shards = [demo_shard], src_tok = Some demo_tok, src_data = replicate 24 5\<rparr>"

lemma demo_source_ok: "source_ok demo_source"
proof -
  let ?t = "demo_tensor\<lparr>mt_offset := 0\<rparr>"
  have t: "source_tensor_ok 24 ?t"
    by (simp add: source_tensor_ok_def tensor_valid_def demo_tensor_def tensor_bytes_def model_codes)
  have sec: "shard_section (Some [?t]) 0 [demo_shard]"
    using demo_shard_valid by (simp add: shard_section_def shard_matches_def demo_shard_def demo_tensor_def)
  have "length (encode_model demo_source) = 96 + 36 + 128 + 120 + 96 + 24"
    using length_header_enc config_wire.enc_length tensor_wire.enc_length [of ?t] shard_wire.enc_length [OF demo_shard_valid]
      tok_wire.enc_length [OF demo_tok_valid] t
    by (simp add: encode_model_def src_tok_bytes_def demo_source_def source_tensor_ok_def)
  then show ?thesis using t sec demo_tok_valid by (simp add: source_ok_def demo_source_def)
qed

theorem model_file_roundtrip_witness:
  "att1_model_load (good_file (encode_model demo_source)) (True, True) True (Some zero_model)
     = Some (ATT1_OK, Some (model_of demo_source))"
  by (rule model_file_roundtrip [OF demo_source_ok])

end
