(* ===== verification/Tok_Ext.thy ===== *)
theory Tok_Ext
  imports Shard_Meta
begin

text \<open>
  External token identifiers (\<^verbatim>\<open>src/tok_ext.c\<close>): a comma-separated string or a file with one
  identifier per line. Strings are the characters up to the terminator; the messages on
  \<^verbatim>\<open>stderr\<close> are left out.
\<close>

section \<open>One identifier\<close>

definition is_digit :: "char \<Rightarrow> bool" where
  "is_digit c \<longleftrightarrow> 48 \<le> (of_char c :: nat) \<and> (of_char c :: nat) \<le> 57"

text \<open>The value of a run of decimal digits, which \<^verbatim>\<open>strtoul\<close> computes unless it exceeds \<^verbatim>\<open>ULONG_MAX\<close>.\<close>

definition digits_value :: "string \<Rightarrow> nat" where
  "digits_value = foldl (\<lambda>v c. 10 * v + (of_char c - 48)) 0"

definition TOK_ID_BUFFER :: nat where "TOK_ID_BUFFER = 64"

text \<open>The buffer starts with a digit when \<^verbatim>\<open>strtoul\<close> reads it, so there is no white space and no sign.\<close>

definition parse_one_id :: "string \<Rightarrow> u32 \<Rightarrow> att1_status + u32" where
  "parse_one_id seg vocab_size =
     (let buf = take (TOK_ID_BUFFER - 1) seg in
      if seg = [] \<or> \<not> is_digit (hd buf) then Inl ATT1_ERR_BAD_FORMAT
      else
        (let val = digits_value (takeWhile is_digit buf);
             endp = dropWhile is_digit buf
         in if endp \<noteq> [] \<or> 2 ^ 64 \<le> val \<or> 2 ^ 32 - 1 < val then Inl ATT1_ERR_BAD_FORMAT
            else if vocab_size \<le> word_of_nat val then Inl ATT1_ERR_BAD_FORMAT
            else Inr (word_of_nat val)))"

section \<open>A string of identifiers\<close>

text \<open>The loop over the segments between commas.\<close>

function parse_segments :: "string \<Rightarrow> u32 \<Rightarrow> att1_status + u32 list" where
  "parse_segments p vocab_size =
     (let seg = takeWhile (\<lambda>c. c \<noteq> CHR '','') p;
          seg_end = dropWhile (\<lambda>c. c \<noteq> CHR '','') p
      in case parse_one_id seg vocab_size of
           Inl rc \<Rightarrow> Inl rc
         | Inr i \<Rightarrow>
           (case seg_end of
              [] \<Rightarrow> Inr [i]
            | _ # p' \<Rightarrow> (case parse_segments p' vocab_size of Inl rc \<Rightarrow> Inl rc | Inr ids \<Rightarrow> Inr (i # ids))))"
  by pat_completeness auto
termination
proof (relation "measure (\<lambda>(p, _). length p)")
  fix p :: string and vocab_size :: u32 and seg seg_end y c p'
  assume "seg_end = dropWhile (\<lambda>c. c \<noteq> CHR '','') p" "seg_end = c # p'"
  then have "length p' < length (dropWhile (\<lambda>c. c \<noteq> CHR '','') p)" by (metis length_Cons lessI)
  also have "\<dots> \<le> length p" by (rule length_dropWhile_le)
  finally show "((p', vocab_size), (p, vocab_size)) \<in> measure (\<lambda>(p, _). length p)" by simp
qed simp

declare parse_segments.simps [simp del]

text \<open>\<open>alloc\<close>: the array of as many identifiers as there are commas plus one can be allocated.\<close>

definition att1_tok_ext_parse_ids_str ::
  "bool \<Rightarrow> string option \<Rightarrow> u32 \<Rightarrow> bool \<Rightarrow> bool \<Rightarrow> att1_status + u32 list" where
  "att1_tok_ext_parse_ids_str alloc str vocab_size out_ids out_count =
     (case str of
        None \<Rightarrow> Inl ATT1_ERR_INVALID_ARG
      | Some s \<Rightarrow>
        (if s = [] \<or> \<not> out_ids \<or> \<not> out_count then Inl ATT1_ERR_INVALID_ARG
         else if \<not> alloc then Inl ATT1_ERR_OOM
         else parse_segments s vocab_size))"

section \<open>A file of identifiers\<close>

definition LINE_BUFFER :: nat where "LINE_BUFFER = 256"

text \<open>\<^verbatim>\<open>fgets\<close>: at most 255 characters, up to and including a newline; and the rest of the file.\<close>

definition fgets :: "string \<Rightarrow> (string \<times> string) option" where
  "fgets s =
     (if s = [] then None
      else
        (let chunk = take (LINE_BUFFER - 1) s;
             body = takeWhile (\<lambda>c. c \<noteq> CHR 0x0A) chunk;
             line = (if length body < length chunk then body @ [CHR 0x0A] else body)
         in Some (line, drop (length line) s)))"

text \<open>The line without its newline, up to the first zero byte.\<close>

definition strip_line :: "string \<Rightarrow> string" where
  "strip_line line = takeWhile (\<lambda>c. c \<noteq> CHR 0x0A \<and> c \<noteq> CHR 0x00) line"

lemma fgets_shorter: "fgets s = Some (line, rest) \<Longrightarrow> length rest < length s"
proof -
  assume f: "fgets s = Some (line, rest)"
  define chunk where "chunk = take (LINE_BUFFER - 1) s"
  define body where "body = takeWhile (\<lambda>c. c \<noteq> CHR 0x0A) chunk"
  from f have s: "s \<noteq> []" and line: "line = (if length body < length chunk then body @ [CHR 0x0A] else body)"
    and rest: "rest = drop (length line) s"
    by (auto simp: fgets_def Let_def chunk_def body_def split: if_splits)
  have "chunk \<noteq> []" using s by (cases s) (simp_all add: chunk_def LINE_BUFFER_def)
  then have "0 < length line" using line by (cases chunk) auto
  then show ?thesis using s rest by (cases s) auto
qed

text \<open>
  The loop over the lines. \<open>ids\<close> are the identifiers so far, \<open>cap\<close> the capacity of the array, and
  \<open>grow n\<close> tells whether it can be reallocated when it holds \<open>n\<close>.
\<close>

function read_lines :: "(nat \<Rightarrow> bool) \<Rightarrow> string \<Rightarrow> u32 \<Rightarrow> nat \<Rightarrow> u32 list \<Rightarrow> att1_status + u32 list" where
  "read_lines grow s vocab_size cap ids =
     (case fgets s of
        None \<Rightarrow> Inr ids
      | Some (line, rest) \<Rightarrow>
        (let l = strip_line line in
         if l = [] \<or> hd l = CHR ''#'' then read_lines grow rest vocab_size cap ids
         else case parse_one_id l vocab_size of
                Inl rc \<Rightarrow> Inl rc
              | Inr i \<Rightarrow>
                (if cap \<le> length ids then
                   (if \<not> grow (length ids) then Inl ATT1_ERR_OOM
                    else read_lines grow rest vocab_size (cap * 2) (ids @ [i]))
                 else read_lines grow rest vocab_size cap (ids @ [i]))))"
  by pat_completeness auto
termination
  by (relation "measure (\<lambda>(_, s, _). length s)") (auto dest: fgets_shorter)

declare read_lines.simps [simp del]

text \<open>\<open>file_content\<close> is the content when the file can be opened, \<open>path\<close> whether the pointer is there.\<close>

definition att1_tok_ext_parse_ids_file ::
  "bool \<Rightarrow> (nat \<Rightarrow> bool) \<Rightarrow> bool \<Rightarrow> string option \<Rightarrow> u32 \<Rightarrow> bool \<Rightarrow> bool \<Rightarrow> att1_status + u32 list" where
  "att1_tok_ext_parse_ids_file alloc grow path file_content vocab_size out_ids out_count =
     (if \<not> path \<or> \<not> out_ids \<or> \<not> out_count then Inl ATT1_ERR_INVALID_ARG
      else
        (case file_content of
           None \<Rightarrow> Inl ATT1_ERR_NOT_FOUND
         | Some s \<Rightarrow>
           (if \<not> alloc then Inl ATT1_ERR_OOM
            else case read_lines grow s vocab_size 16 [] of
                   Inl rc \<Rightarrow> Inl rc
                 | Inr ids \<Rightarrow> (if ids = [] then Inl ATT1_ERR_INVALID_ARG else Inr ids))))"

section \<open>The byte tokenizer\<close>

text \<open>
  \<^verbatim>\<open>src/tokenizer.c\<close>. \<open>tokens\<close> is the array written to, which has at least \<open>token_capacity\<close>
  elements; the result is the return value, the array and the count.
\<close>

definition att1_tokenizer_encode_bytes ::
  "u8 list option \<Rightarrow> u32 list option \<Rightarrow> nat \<Rightarrow> bool \<Rightarrow> int \<times> u32 list option \<times> nat option" where
  "att1_tokenizer_encode_bytes bytes tokens token_capacity out_count =
     (case (bytes, tokens) of
        (Some bs, Some ts) \<Rightarrow>
          (if \<not> out_count then (-1, tokens, None)
           else if token_capacity < length bs then (-1, tokens, None)
           else (0, Some (fold (\<lambda>i ts. ts[i := ucast (bs ! i)]) [0..<length bs] ts), Some (length bs)))
      | _ \<Rightarrow> (-1, tokens, None))"

definition att1_tokenizer_decode_byte :: "u32 \<Rightarrow> bool \<Rightarrow> u8 option" where
  "att1_tokenizer_decode_byte token out_byte =
     (if \<not> out_byte then None else if 255 < token then None else Some (ucast token))"

section \<open>The greedy sampler\<close>

text \<open>
  \<^verbatim>\<open>src/sampler.c\<close> on IEEE single precision bit patterns: \<^verbatim>\<open>isnan\<close> and \<^verbatim>\<open>>\<close>. The two zeros compare equal.
\<close>

definition f32_isnan :: "u32 \<Rightarrow> bool" where
  "f32_isnan w \<longleftrightarrow> 0x7F800000 < w AND 0x7FFFFFFF"

definition f32_key :: "u32 \<Rightarrow> int" where
  "f32_key w = (if bit w 31 then - uint (w AND 0x7FFFFFFF) else uint (w AND 0x7FFFFFFF))"

definition f32_gt :: "u32 \<Rightarrow> u32 \<Rightarrow> bool" where
  "f32_gt a b \<longleftrightarrow> \<not> f32_isnan a \<and> \<not> f32_isnan b \<and> f32_key b < f32_key a"

definition att1_sampler_greedy_f32 :: "u32 list option \<Rightarrow> bool \<Rightarrow> u32 option" where
  "att1_sampler_greedy_f32 logits out_token =
     (case logits of
        None \<Rightarrow> None
      | Some ls \<Rightarrow>
        (if \<not> out_token \<or> length ls = 0 then None
         else if list_ex (\<lambda>i. f32_isnan (ls ! i)) [0..<length ls] then None
         else
           (let best = fold (\<lambda>i best. if f32_gt (ls ! i) (ls ! best) then i else best) [1..<length ls] 0
            in if 2 ^ 32 - 1 < best then None else Some (word_of_nat best))))"

end
