(* ===== verification/Tok_Ext_Props.thy ===== *)
theory Tok_Ext_Props
  imports Tok_Ext Shard_Meta_Props
begin

text \<open>What the token readers accept, that printed identifiers are read back, and the sampler.\<close>

section \<open>Decimal numbers\<close>

lemma is_digit_char: "d < 10 \<Longrightarrow> is_digit (char_of (48 + d :: nat))"
  by (simp add: is_digit_def)

lemma digits_value_snoc: "digits_value (xs @ [c]) = 10 * digits_value xs + (of_char c - 48)"
  by (simp add: digits_value_def)

lemma decimal_digits: "list_all is_digit (decimal n)" "digits_value (decimal n) = n" "decimal n \<noteq> []"
proof (induction n rule: decimal.induct)
  case (1 n)
  have "decimal n = (if n < 10 then [] else decimal (n div 10)) @ [char_of (48 + n mod 10)]"
    by (subst decimal.simps) simp
  moreover have "of_char (char_of (48 + n mod 10) :: char) = 48 + n mod 10" by simp
  ultimately show "list_all is_digit (decimal n)" "digits_value (decimal n) = n" "decimal n \<noteq> []"
    using 1 is_digit_char [of "n mod 10"] by (auto simp: digits_value_snoc) (simp add: digits_value_def)
qed

section \<open>One identifier\<close>

text \<open>The text of an identifier, as the reader sees it: the first 63 characters.\<close>

definition id_text :: "u32 \<Rightarrow> string \<Rightarrow> u32 \<Rightarrow> bool" where
  "id_text vocab seg i \<longleftrightarrow> seg \<noteq> [] \<and> list_all is_digit (take 63 seg) \<and> digits_value (take 63 seg) = unat i \<and> i < vocab"

lemma dropWhile_Nil_iff: "dropWhile P xs = [] \<longleftrightarrow> list_all P xs"
  by (simp add: list_all_iff)

lemma parse_one_id_iff: "parse_one_id seg vocab = Inr i \<longleftrightarrow> id_text vocab seg i"
proof -
  let ?b = "take 63 seg"
  have hd: "seg \<noteq> [] \<Longrightarrow> list_all is_digit ?b \<Longrightarrow> is_digit (hd ?b)" by (cases seg) simp_all
  have all: "list_all is_digit ?b \<Longrightarrow> takeWhile is_digit ?b = ?b" by (simp add: list_all_iff takeWhile_eq_all_conv)
  have small: "unat (word_of_nat k :: u32) = k" if "k \<le> 2 ^ 32 - 1" for k
    using that by (simp add: unsigned_of_nat take_bit_nat_eq_self)
  note lt = u32_lt [of i]
  show ?thesis
  proof (cases "seg \<noteq> [] \<and> list_all is_digit ?b")
    case True
    then have tw: "takeWhile is_digit ?b = ?b" "is_digit (hd ?b)" "dropWhile is_digit ?b = []"
      using hd all by (blast, blast, simp add: dropWhile_Nil_iff)
    have buf: "TOK_ID_BUFFER - 1 = 63" by (simp add: TOK_ID_BUFFER_def)
    have "parse_one_id seg vocab = (if 2 ^ 32 - 1 < digits_value ?b then Inl ATT1_ERR_BAD_FORMAT
        else if vocab \<le> word_of_nat (digits_value ?b) then Inl ATT1_ERR_BAD_FORMAT else Inr (word_of_nat (digits_value ?b)))"
      unfolding parse_one_id_def Let_def buf tw(1,3) using True tw(2) by auto
    then show ?thesis using True small [of "digits_value ?b"] lt
      by (auto simp: id_text_def word_unat_eq_iff not_le not_less)
  next
    case False
    then show ?thesis
      by (auto simp: parse_one_id_def Let_def TOK_ID_BUFFER_def dropWhile_Nil_iff list_all_iff id_text_def split: if_splits)
  qed
qed

lemma id_text_decimal: "i < vocab \<Longrightarrow> id_text vocab (decimal (unat i)) i"
proof -
  assume "i < vocab"
  have "length (decimal (unat i)) \<le> 10" using u32_lt [of i] by (intro length_decimal) simp_all
  then show ?thesis using \<open>i < vocab\<close> by (simp add: id_text_def decimal_digits)
qed

section \<open>Strings of identifiers\<close>

fun join_commas :: "string list \<Rightarrow> string" where
  "join_commas [] = []"
| "join_commas [s] = s"
| "join_commas (s # t # ts) = s @ CHR '','' # join_commas (t # ts)"

lemma takeWhile_no_comma: "CHR '','' \<notin> set s \<Longrightarrow> takeWhile (\<lambda>c. c \<noteq> CHR '','') (s @ CHR '','' # r) = s"
  "CHR '','' \<notin> set s \<Longrightarrow> dropWhile (\<lambda>c. c \<noteq> CHR '','') (s @ CHR '','' # r) = CHR '','' # r"
  "CHR '','' \<notin> set s \<Longrightarrow> takeWhile (\<lambda>c. c \<noteq> CHR '','') s = s"
  "CHR '','' \<notin> set s \<Longrightarrow> dropWhile (\<lambda>c. c \<noteq> CHR '','') s = []"
  by (induction s) auto

lemma parse_segments_join:
  "list_all2 (id_text vocab) segs ids \<Longrightarrow> segs \<noteq> [] \<Longrightarrow> \<forall>s \<in> set segs. CHR '','' \<notin> set s
    \<Longrightarrow> parse_segments (join_commas segs) vocab = Inr ids"
proof (induction segs arbitrary: ids rule: join_commas.induct)
  case (2 s)
  then obtain i where "ids = [i]" "parse_one_id s vocab = Inr i"
    by (auto simp: list_all2_Cons1 parse_one_id_iff)
  then show ?case using 2(3) by (subst parse_segments.simps) (simp add: takeWhile_no_comma)
next
  case (3 s t ts)
  then obtain i ids' where "ids = i # ids'" "parse_one_id s vocab = Inr i" "list_all2 (id_text vocab) (t # ts) ids'"
    by (auto simp: list_all2_Cons1 parse_one_id_iff)
  then show ?case using 3 by (subst parse_segments.simps) (simp add: takeWhile_no_comma)
qed simp

lemma parse_segments_Inr:
  "parse_segments p vocab = Inr ids \<Longrightarrow> \<exists>segs. segs \<noteq> [] \<and> p = join_commas segs \<and> (\<forall>s \<in> set segs. CHR '','' \<notin> set s)
     \<and> list_all2 (id_text vocab) segs ids"
proof (induction p vocab arbitrary: ids rule: parse_segments.induct)
  case (1 p vocab)
  define seg where "seg = takeWhile (\<lambda>c. c \<noteq> CHR '','') p"
  define tl where "tl = dropWhile (\<lambda>c. c \<noteq> CHR '','') p"
  have p: "p = seg @ tl" "CHR '','' \<notin> set seg" by (auto simp: seg_def tl_def dest: set_takeWhileD)
  from 1(2) have one: "\<exists>i. parse_one_id seg vocab = Inr i"
    by (subst (asm) parse_segments.simps) (auto simp: Let_def seg_def [symmetric] split: sum.splits)
  then obtain i where i: "parse_one_id seg vocab = Inr i" by blast
  show ?case
  proof (cases tl)
    case Nil
    then have "ids = [i]" using 1(2) i
      by (subst (asm) parse_segments.simps) (simp add: Let_def seg_def [symmetric] tl_def [symmetric])
    then show ?thesis using Nil p i by (intro exI [of _ "[seg]"]) (simp add: parse_one_id_iff)
  next
    case (Cons c p')
    have c: "c = CHR '',''" using Cons hd_dropWhile [of "\<lambda>c. c \<noteq> CHR '',''" p] by (simp add: tl_def)
    obtain ids' where r: "parse_segments p' vocab = Inr ids'" "ids = i # ids'"
      using 1(2) i Cons
      by (subst (asm) parse_segments.simps) (auto simp: Let_def seg_def [symmetric] tl_def [symmetric] split: sum.splits)
    obtain segs where s: "segs \<noteq> []" "p' = join_commas segs" "\<forall>s \<in> set segs. CHR '','' \<notin> set s"
      "list_all2 (id_text vocab) segs ids'"
      using 1(1) [OF seg_def tl_def i Cons r(1)] by blast
    then have "p = join_commas (seg # segs)" using p c Cons by (cases segs) simp_all
    then show ?thesis using s p i r by (intro exI [of _ "seg # segs"]) (simp add: parse_one_id_iff)
  qed
qed

text \<open>
  The reader of token strings accepts exactly the comma-separated lists of identifier texts, and
  returns the identifiers in order.
\<close>

theorem ids_str_exact:
  "att1_tok_ext_parse_ids_str True (Some s) vocab True True = Inr ids \<longleftrightarrow>
     (\<exists>segs. segs \<noteq> [] \<and> s = join_commas segs \<and> (\<forall>seg \<in> set segs. CHR '','' \<notin> set seg) \<and> list_all2 (id_text vocab) segs ids)"
proof -
  have ne: "join_commas segs \<noteq> []" if "segs \<noteq> []" "list_all2 (id_text vocab) segs ids" for segs
    using that by (cases segs rule: join_commas.cases) (auto simp: list_all2_Cons1 id_text_def)
  show ?thesis
  proof (cases "s = []")
    case True
    then show ?thesis using ne by (simp add: att1_tok_ext_parse_ids_str_def) metis
  next
    case False
    then have "att1_tok_ext_parse_ids_str True (Some s) vocab True True = parse_segments s vocab"
      by (simp add: att1_tok_ext_parse_ids_str_def)
    then show ?thesis using parse_segments_Inr [of s vocab ids] parse_segments_join [of vocab _ ids] by metis
  qed
qed

theorem ids_str_exact_witness: "att1_tok_ext_parse_ids_str True (Some ''7,042'') 100 True True = Inr [7, 42]"
  unfolding ids_str_exact
  by (intro exI [of _ "[''7'', ''042'']"]) (simp add: id_text_def is_digit_def digits_value_def)

text \<open>
  Identifiers below the vocabulary size, printed in decimal and joined with commas, are read
  back unchanged.
\<close>

theorem ids_str_roundtrip:
  assumes "ids \<noteq> []" "\<forall>i \<in> set ids. i < vocab"
  shows "att1_tok_ext_parse_ids_str True (Some (join_commas (map (\<lambda>i. decimal (unat i)) ids))) vocab True True = Inr ids"
proof -
  have "CHR '','' \<notin> set (decimal n)" for n
    using decimal_digits(1) [of n] by (auto simp: list_all_iff is_digit_def)
  moreover have "list_all2 (id_text vocab) (map (\<lambda>i. decimal (unat i)) ids) ids"
    using assms(2) id_text_decimal by (simp add: list_all2_conv_all_nth)
  moreover have "join_commas (map (\<lambda>i. decimal (unat i)) ids) \<noteq> []"
    using assms(1) decimal_digits(3) by (cases ids rule: remdups_adj.cases) simp_all
  ultimately show ?thesis
    using parse_segments_join [of vocab "map (\<lambda>i. decimal (unat i)) ids" ids] assms(1)
    by (simp add: att1_tok_ext_parse_ids_str_def)
qed

theorem ids_str_roundtrip_witness:
  "att1_tok_ext_parse_ids_str True (Some (join_commas (map (\<lambda>i. decimal (unat i)) [5, 17 :: u32]))) 18 True True = Inr [5, 17]"
  by (rule ids_str_roundtrip) simp_all

text \<open>
  A segment is cut at 63 characters before it is examined: after 63 digits anything may follow,
  although the reader is specified to reject trailing characters that are not digits.
\<close>

theorem ids_str_long_segment_accepted:
  assumes "length pre = 63" "list_all is_digit pre" "digits_value pre = unat i" "i < vocab" "CHR '','' \<notin> set junk"
  shows "att1_tok_ext_parse_ids_str True (Some (pre @ junk)) vocab True True = Inr [i]"
proof -
  have "CHR '','' \<notin> set pre" using assms(2) by (auto simp: list_all_iff is_digit_def)
  then have "parse_segments (join_commas [pre @ junk]) vocab = Inr [i]"
    using assms by (intro parse_segments_join) (auto simp: id_text_def)
  then show ?thesis using assms(1) by (auto simp: att1_tok_ext_parse_ids_str_def)
qed

theorem ids_str_long_segment_accepted_witness:
  "att1_tok_ext_parse_ids_str True (Some ((replicate 62 CHR ''0'' @ ''7'') @ '' not a token'')) 10 True True = Inr [7]"
proof (rule ids_str_long_segment_accepted)
  have "foldl (\<lambda>v c. 10 * v + (of_char c - 48)) 0 (replicate n CHR ''0'') = (0 :: nat)" for n by (induction n) simp_all
  then show "digits_value (replicate 62 CHR ''0'' @ ''7'') = unat (7 :: u32)" by (simp add: digits_value_def)
qed (simp_all add: is_digit_def list_all_iff)

section \<open>Files of identifiers\<close>

lemma fgets_line:
  assumes "CHR 0x0A \<notin> set l" "length l < 255"
  shows "fgets (l @ CHR 0x0A # rest) = Some (l @ [CHR 0x0A], rest)"
proof -
  have "take 255 (l @ CHR 0x0A # rest) = l @ CHR 0x0A # take (254 - length l) rest"
    using assms(2) by (simp add: take_Cons' Suc_diff_Suc)
  moreover have "takeWhile (\<lambda>c. c \<noteq> CHR 0x0A) (l @ CHR 0x0A # r) = l" for r using assms(1) by (induction l) auto
  ultimately show ?thesis by (simp add: fgets_def LINE_BUFFER_def Let_def)
qed

lemma strip_digits: "list_all is_digit l \<Longrightarrow> strip_line (l @ [CHR 0x0A]) = l"
  by (induction l) (auto simp: strip_line_def is_digit_def)

lemma read_lines_decimal:
  "\<forall>i \<in> set ids. i < vocab \<Longrightarrow>
    read_lines (\<lambda>_. True) (concat (map (\<lambda>i. decimal (unat i) @ [CHR 0x0A]) ids)) vocab cap done_ids = Inr (done_ids @ ids)"
proof (induction ids arbitrary: cap done_ids)
  case Nil
  then show ?case by (subst read_lines.simps) (simp add: fgets_def)
next
  case (Cons i ids)
  let ?l = "decimal (unat i)"
  note d = decimal_digits [of "unat i"]
  have "length ?l \<le> 10" using u32_lt [of i] by (intro length_decimal) simp_all
  moreover have "CHR 0x0A \<notin> set ?l" using d(1) by (auto simp: list_all_iff is_digit_def)
  ultimately have g: "fgets (?l @ CHR 0x0A # rest) = Some (?l @ [CHR 0x0A], rest)" for rest by (intro fgets_line) simp_all
  have h: "hd ?l \<noteq> CHR ''#''" using d(1,3) by (cases ?l) (auto simp: is_digit_def)
  have p: "parse_one_id ?l vocab = Inr i" using Cons.prems id_text_decimal by (simp add: parse_one_id_iff)
  show ?case using Cons d(3) h by (subst read_lines.simps) (simp add: g strip_digits [OF d(1)] p)
qed

text \<open>A file with one printed identifier per line is read back, whatever its length.\<close>

theorem ids_file_roundtrip:
  assumes "ids \<noteq> []" "\<forall>i \<in> set ids. i < vocab"
  shows "att1_tok_ext_parse_ids_file True (\<lambda>_. True) True
    (Some (concat (map (\<lambda>i. decimal (unat i) @ [CHR 0x0A]) ids))) vocab True True = Inr ids"
  using read_lines_decimal [OF assms(2), of 16 "[]"] assms(1) by (simp add: att1_tok_ext_parse_ids_file_def)

theorem ids_file_roundtrip_witness:
  "att1_tok_ext_parse_ids_file True (\<lambda>_. True) True
     (Some (concat (map (\<lambda>i. decimal (unat i) @ [CHR 0x0A]) [3 :: u32, 1, 2]))) 4 True True = Inr [3, 1, 2]"
  by (rule ids_file_roundtrip) simp_all

section \<open>Bytes\<close>

lemma fold_update_prefix:
  "length bs \<le> length ts \<Longrightarrow> k \<le> length bs \<Longrightarrow>
    fold (\<lambda>i ts. ts[i := f (bs ! i)]) [0..<k] ts = map f (take k bs) @ drop k ts"
proof (induction k)
  case (Suc k)
  then have "drop k ts = ts ! k # drop (Suc k) ts" by (simp add: Cons_nth_drop_Suc)
  then show ?case using Suc by (simp add: take_Suc_conv_app_nth list_update_append)
qed simp

text \<open>Bytes encoded as tokens decode to the same bytes, and the rest of the array is untouched.\<close>

theorem tokenizer_bytes_roundtrip:
  assumes "length bs \<le> cap" "cap \<le> length ts"
  shows "\<exists>ts'. att1_tokenizer_encode_bytes (Some bs) (Some ts) cap True = (0, Some ts', Some (length bs))
    \<and> map (\<lambda>t. att1_tokenizer_decode_byte t True) (take (length bs) ts') = map Some bs \<and> drop (length bs) ts' = drop (length bs) ts"
proof -
  have b: "att1_tokenizer_decode_byte (ucast b) True = Some b" for b :: u8
  proof -
    have "unat (ucast b :: u32) = unat b" by (rule unat_ucast_up) simp
    moreover have "unat b < 256" using unsigned_less [of b] by simp
    moreover have "ucast (ucast b :: u32) = b" by (rule bit_word_eqI) (simp add: bit_simps)
    ultimately show ?thesis by (simp add: att1_tokenizer_decode_byte_def word_less_nat_alt)
  qed
  show ?thesis
    using assms fold_update_prefix [of bs ts "length bs" ucast] b
    by (simp add: att1_tokenizer_encode_bytes_def comp_def)
qed

theorem tokenizer_bytes_roundtrip_witness:
  "\<exists>ts'. att1_tokenizer_encode_bytes (Some [72, 255]) (Some [0, 0, 9]) 3 True = (0, Some ts', Some 2)
    \<and> map (\<lambda>t. att1_tokenizer_decode_byte t True) (take 2 ts') = [Some 72, Some 255] \<and> drop 2 ts' = [9]"
  using tokenizer_bytes_roundtrip [of "[72, 255]" 3 "[0, 0, 9]"] by (simp add: numeral_2_eq_2)

section \<open>Greedy sampling\<close>

lemma greedy_fold:
  assumes "\<forall>x \<in> set ls. \<not> f32_isnan x" "0 < n" "n \<le> length ls"
  shows "let best = fold (\<lambda>i best. if f32_gt (ls ! i) (ls ! best) then i else best) [1..<n] 0
    in best < n \<and> (\<forall>j < n. f32_key (ls ! j) \<le> f32_key (ls ! best)) \<and> (\<forall>j < best. f32_key (ls ! j) < f32_key (ls ! best))"
  using assms(2,3)
proof (induction n)
  case (Suc n)
  show ?case
  proof (cases "n = 0")
    case False
    have gt: "f32_gt (ls ! i) (ls ! j) \<longleftrightarrow> f32_key (ls ! j) < f32_key (ls ! i)" if "i < length ls" "j < length ls" for i j
      using assms(1) that by (simp add: f32_gt_def)
    show ?thesis using Suc False gt by (fastforce simp: Let_def less_Suc_eq)
  qed simp
qed simp

text \<open>
  The greedy sampler returns the first position of the largest logit, for logits that are not
  NaN, at most \<open>2 ^ 32\<close> of them; with a NaN among them it fails.
\<close>

theorem sampler_first_maximum:
  assumes "ls \<noteq> []" "length ls \<le> 2 ^ 32"
  shows "att1_sampler_greedy_f32 (Some ls) True = Some t \<longleftrightarrow>
    (\<forall>x \<in> set ls. \<not> f32_isnan x) \<and> unat t < length ls
    \<and> (\<forall>j < length ls. f32_key (ls ! j) \<le> f32_key (ls ! unat t)) \<and> (\<forall>j < unat t. f32_key (ls ! j) < f32_key (ls ! unat t))"
proof (cases "\<forall>x \<in> set ls. \<not> f32_isnan x")
  case True
  define best where "best = fold (\<lambda>i best. if f32_gt (ls ! i) (ls ! best) then i else best) [1..<length ls] 0"
  have b: "best < length ls" "\<forall>j < length ls. f32_key (ls ! j) \<le> f32_key (ls ! best)"
    "\<forall>j < best. f32_key (ls ! j) < f32_key (ls ! best)"
    using greedy_fold [OF True, of "length ls"] assms(1) by (simp_all add: best_def Let_def)
  have "unat (word_of_nat best :: u32) = best"
    using b(1) assms(2) by (simp add: unsigned_of_nat take_bit_nat_eq_self)
  moreover have "att1_sampler_greedy_f32 (Some ls) True = Some (word_of_nat best)"
    using True b(1) assms by (simp add: att1_sampler_greedy_f32_def Let_def best_def [symmetric, simplified] list_ex_iff)
  moreover have "k = best" if "k < length ls" "\<forall>j < length ls. f32_key (ls ! j) \<le> f32_key (ls ! k)"
      "\<forall>j < k. f32_key (ls ! j) < f32_key (ls ! k)" for k
    using that b by (metis linorder_neqE_nat not_le)
  ultimately show ?thesis using True b by (metis option.inject word_unat_eq_iff)
next
  case False
  then have "list_ex (\<lambda>i. f32_isnan (ls ! i)) [0..<length ls]" by (force simp: list_ex_iff in_set_conv_nth)
  then show ?thesis using False by (simp add: att1_sampler_greedy_f32_def)
qed

text \<open>The logits 1, -2, 3, 3.\<close>

lemma all_less_4: "(\<forall>j < (4 :: nat). P j) \<longleftrightarrow> P 0 \<and> P 1 \<and> P 2 \<and> P 3"
  by (auto simp: numeral_eq_Suc less_Suc_eq)

lemma all_less_2: "(\<forall>j < (2 :: nat). P j) \<longleftrightarrow> P 0 \<and> P 1"
  by (auto simp: numeral_eq_Suc less_Suc_eq)

theorem sampler_first_maximum_witness:
  "att1_sampler_greedy_f32 (Some [0x3F800000, 0xC0000000, 0x40400000, 0x40400000]) True = Some 2"
proof -
  let ?ls = "[0x3F800000, 0xC0000000, 0x40400000, 0x40400000] :: u32 list"
  have k: "f32_key 0x3F800000 = 0x3F800000" "f32_key 0xC0000000 = - 0x40000000" "f32_key 0x40400000 = 0x40400000"
    by (simp_all add: f32_key_def bit_numeral_word_iff)
  have n: "\<forall>x \<in> set ?ls. \<not> f32_isnan x" by (simp add: f32_isnan_def)
  have "\<forall>j < 4. f32_key (?ls ! j) \<le> f32_key (?ls ! 2)" unfolding all_less_4 by (simp add: k)
  moreover have "\<forall>j < 2. f32_key (?ls ! j) < f32_key (?ls ! 2)" unfolding all_less_2 by (simp add: k)
  moreover have "length ?ls = 4" "unat (2 :: u32) = 2" "?ls \<noteq> []" "length ?ls \<le> 2 ^ 32" by simp_all
  ultimately show ?thesis using sampler_first_maximum [of ?ls 2] n by presburger
qed

end
