(* ===== verification/Model_View.thy ===== *)
theory Model_View
  imports Model_Loader_Props
begin

text \<open>
  Typed views of the tensors of a loaded model (\<^verbatim>\<open>src/model_view.c\<close>) and the owned tensors of
  \<^verbatim>\<open>src/tensor.c\<close>. A view is an address in the file data, as in \<open>mt_data\<close>.
\<close>

section \<open>Names and shapes\<close>

text \<open>The characters of a string literal.\<close>

definition str_bytes :: "string \<Rightarrow> u8 list" where
  "str_bytes = map (\<lambda>c. of_char c)"

definition tensor_is_f32_shape :: "att1_model_tensor option \<Rightarrow> u32 \<Rightarrow> u64 \<Rightarrow> u64 \<Rightarrow> bool" where
  "tensor_is_f32_shape tp ndims dim0 dim1 =
     (case tp of
        None \<Rightarrow> False
      | Some t \<Rightarrow>
        (if mt_dtype t \<noteq> MODEL_DTYPE_F32 \<or> mt_ndims t \<noteq> ndims then False
         else if mt_shape t ! 0 \<noteq> dim0 \<or> (1 < ndims \<and> mt_shape t ! 1 \<noteq> dim1) then False
         else True))"

definition tensor_is_q8_shape :: "att1_model_tensor option \<Rightarrow> u64 \<Rightarrow> u64 \<Rightarrow> bool" where
  "tensor_is_q8_shape tp rows cols =
     (case tp of
        None \<Rightarrow> False
      | Some t \<Rightarrow> mt_dtype t = MODEL_DTYPE_Q8 \<and> mt_ndims t = 2 \<and> mt_shape t ! 0 = rows \<and> mt_shape t ! 1 = cols)"

definition tensor_is_q4_shape :: "att1_model_tensor option \<Rightarrow> u64 \<Rightarrow> u64 \<Rightarrow> bool" where
  "tensor_is_q4_shape tp rows cols =
     (case tp of
        None \<Rightarrow> False
      | Some t \<Rightarrow> mt_dtype t = MODEL_DTYPE_Q4 \<and> mt_ndims t = 2 \<and> mt_shape t ! 0 = rows \<and> mt_shape t ! 1 = cols)"

definition tensor_is_output_weight_shape :: "att1_model_tensor option \<Rightarrow> u64 \<Rightarrow> u64 \<Rightarrow> bool" where
  "tensor_is_output_weight_shape tp d_model vocab_size \<longleftrightarrow>
     tensor_is_f32_shape tp 2 d_model vocab_size \<or> tensor_is_q8_shape tp vocab_size d_model"

definition layer_name :: "nat \<Rightarrow> u32 \<Rightarrow> string \<Rightarrow> u8 list option" where
  "layer_name out_size layer suffix =
     (let written = ''layers.'' @ decimal (unat layer) @ ''.'' @ suffix
      in if out_size \<le> length written then None else Some (str_bytes written))"

text \<open>The tensor \<^verbatim>\<open>att1_model_find_tensor\<close> points to.\<close>

definition found_tensor :: "att1_model \<Rightarrow> u8 list \<Rightarrow> att1_model_tensor option" where
  "found_tensor m name = map_option (\<lambda>i. md_tensors m ! i) (att1_model_find_tensor (Some m) (Some name))"

section \<open>Views\<close>

record att1_q8_matrix =
  q8_rows :: u64
  q8_cols :: u64
  q8_values :: "u64 option"
  q8_scales :: "u64 option"

record att1_q4_matrix =
  q4_rows :: u64
  q4_cols :: u64
  q4_group_size :: u32
  q4_packed :: "u64 option"
  q4_scales :: "u64 option"

definition zero_q8_matrix :: att1_q8_matrix where
  "zero_q8_matrix = \<lparr>q8_rows = 0, q8_cols = 0, q8_values = None, q8_scales = None\<rparr>"

definition zero_q4_matrix :: att1_q4_matrix where
  "zero_q4_matrix = \<lparr>q4_rows = 0, q4_cols = 0, q4_group_size = 0, q4_packed = None, q4_scales = None\<rparr>"

text \<open>An output is what its pointer points to, \<^term>\<open>None\<close> for \<^verbatim>\<open>NULL\<close>.\<close>

definition att1_model_view_tensor_f32 ::
  "att1_model option \<Rightarrow> u8 list option \<Rightarrow> u32 \<Rightarrow> u64 \<Rightarrow> u64 \<Rightarrow> u64 option option \<Rightarrow> att1_status \<times> u64 option option" where
  "att1_model_view_tensor_f32 mp np ndims dim0 dim1 out_data =
     (case (mp, np, out_data) of
        (Some m, Some name, Some _) \<Rightarrow>
          (if ndims = 0 \<or> word_of_nat MODEL_MAX_DIMS < ndims then (ATT1_ERR_INVALID_ARG, out_data)
           else
             (case found_tensor m name of
                None \<Rightarrow> (ATT1_ERR_NOT_FOUND, Some None)
              | Some t \<Rightarrow>
                (if \<not> tensor_is_f32_shape (Some t) ndims dim0 dim1 then (ATT1_ERR_SHAPE, Some None)
                 else (ATT1_OK, Some (mt_data t)))))
      | _ \<Rightarrow> (ATT1_ERR_INVALID_ARG, out_data))"

definition att1_model_view_tensor_q8 ::
  "att1_model option \<Rightarrow> u8 list option \<Rightarrow> u64 \<Rightarrow> u64 \<Rightarrow> att1_q8_matrix option \<Rightarrow> att1_status \<times> att1_q8_matrix option" where
  "att1_model_view_tensor_q8 mp np rows cols out_matrix =
     (case (mp, np, out_matrix) of
        (Some m, Some name, Some _) \<Rightarrow>
          (if rows = 0 \<or> cols = 0 then (ATT1_ERR_INVALID_ARG, out_matrix)
           else
             (case found_tensor m name of
                None \<Rightarrow> (ATT1_ERR_NOT_FOUND, Some zero_q8_matrix)
              | Some t \<Rightarrow>
                (if \<not> tensor_is_q8_shape (Some t) rows cols then (ATT1_ERR_SHAPE, Some zero_q8_matrix)
                 else
                   (let value_bytes = rows * cols in
                    (ATT1_OK, Some \<lparr>q8_rows = rows, q8_cols = cols, q8_values = mt_data t,
                                    q8_scales = map_option (\<lambda>p. p + value_bytes) (mt_data t)\<rparr>)))))
      | _ \<Rightarrow> (ATT1_ERR_INVALID_ARG, out_matrix))"

definition att1_model_view_tensor_q4 ::
  "att1_model option \<Rightarrow> u8 list option \<Rightarrow> u64 \<Rightarrow> u64 \<Rightarrow> att1_q4_matrix option \<Rightarrow> att1_status \<times> att1_q4_matrix option" where
  "att1_model_view_tensor_q4 mp np rows cols out_matrix =
     (case (mp, np, out_matrix) of
        (Some m, Some name, Some _) \<Rightarrow>
          (if rows = 0 \<or> cols = 0 then (ATT1_ERR_INVALID_ARG, out_matrix)
           else
             (case found_tensor m name of
                None \<Rightarrow> (ATT1_ERR_NOT_FOUND, Some zero_q4_matrix)
              | Some t \<Rightarrow>
                (if \<not> tensor_is_q4_shape (Some t) rows cols then (ATT1_ERR_SHAPE, Some zero_q4_matrix)
                 else
                   (let raw = mt_flags t AND Q4_FLAGS_GROUP_MASK;
                        group_size = (if raw = 0 then Q4_GROUP_SIZE_DEFAULT else raw);
                        packed_bytes = rows * cols div 2
                    in (ATT1_OK, Some \<lparr>q4_rows = rows, q4_cols = cols, q4_group_size = group_size, q4_packed = mt_data t,
                                       q4_scales = map_option (\<lambda>p. p + packed_bytes) (mt_data t)\<rparr>)))))
      | _ \<Rightarrow> (ATT1_ERR_INVALID_ARG, out_matrix))"

definition att1_model_view_token_embedding :: "att1_model option \<Rightarrow> u64 option option \<Rightarrow> att1_status \<times> u64 option option" where
  "att1_model_view_token_embedding mp out_data =
     (case mp of
        None \<Rightarrow> (ATT1_ERR_INVALID_ARG, out_data)
      | Some m \<Rightarrow> att1_model_view_tensor_f32 mp (Some (str_bytes ''tok_embeddings.weight'')) 2
          (ucast (mc_vocab_size (md_config m))) (ucast (mc_d_model (md_config m))) out_data)"

definition att1_model_view_output_norm :: "att1_model option \<Rightarrow> u64 option option \<Rightarrow> att1_status \<times> u64 option option" where
  "att1_model_view_output_norm mp out_data =
     (case mp of
        None \<Rightarrow> (ATT1_ERR_INVALID_ARG, out_data)
      | Some m \<Rightarrow> att1_model_view_tensor_f32 mp (Some (str_bytes ''output_norm.weight'')) 1
          (ucast (mc_d_model (md_config m))) 1 out_data)"

definition att1_model_view_output_weight :: "att1_model option \<Rightarrow> u64 option option \<Rightarrow> att1_status \<times> u64 option option" where
  "att1_model_view_output_weight mp out_data =
     (case mp of
        None \<Rightarrow> (ATT1_ERR_INVALID_ARG, out_data)
      | Some m \<Rightarrow> att1_model_view_tensor_f32 mp (Some (str_bytes ''output.weight'')) 2
          (ucast (mc_d_model (md_config m))) (ucast (mc_vocab_size (md_config m))) out_data)"

section \<open>Validation\<close>

text \<open>The checks on the configuration that both validators share.\<close>

definition decoder_config_bad :: "att1_model_config \<Rightarrow> bool" where
  "decoder_config_bad c \<longleftrightarrow>
     (let head_dim = (if mc_n_heads c \<noteq> 0 then mc_d_model c div mc_n_heads c else 0)
      in mc_vocab_size c = 0 \<or> mc_n_layers c = 0 \<or> mc_n_heads c = 0 \<or> mc_d_model c = 0 \<or> mc_d_ff c = 0
         \<or> mc_max_seq_len c = 0 \<or> mc_d_model c mod mc_n_heads c \<noteq> 0 \<or> head_dim mod 2 \<noteq> 0)"

definition att1_model_view_validate_decoder :: "att1_model option \<Rightarrow> att1_status" where
  "att1_model_view_validate_decoder mp =
     (case mp of
        None \<Rightarrow> ATT1_ERR_INVALID_ARG
      | Some m \<Rightarrow>
        (if list_ex (\<lambda>t. mt_dtype t = MODEL_DTYPE_Q4) (take (unat (md_tensor_count m)) (md_tensors m))
         then ATT1_ERR_UNSUPPORTED
         else if decoder_config_bad (md_config m) then ATT1_ERR_INVALID_ARG
         else
           (let status = fst (att1_model_view_token_embedding mp (Some None)) in
            if status \<noteq> ATT1_OK then status
            else
              (let status = fst (att1_model_view_output_norm mp (Some None)) in
               if status \<noteq> ATT1_OK then status
               else
                 (let output_weight = found_tensor m (str_bytes ''output.weight'') in
                  if output_weight = None
                     \<or> \<not> tensor_is_output_weight_shape output_weight (ucast (mc_d_model (md_config m)))
                           (ucast (mc_vocab_size (md_config m)))
                  then (if output_weight = None then ATT1_ERR_NOT_FOUND else ATT1_ERR_SHAPE)
                  else ATT1_OK)))))"

text \<open>The pointers of \<^verbatim>\<open>att1_transformer_block_weights\<close>.\<close>

record att1_transformer_block_weights =
  bw_attention_norm :: "u64 option"
  bw_ffn_norm :: "u64 option"
  bw_wq :: "u64 option"
  bw_wk :: "u64 option"
  bw_wv :: "u64 option"
  bw_wo :: "u64 option"
  bw_w_gate :: "u64 option"
  bw_w_up :: "u64 option"
  bw_w_down :: "u64 option"

definition zero_block_weights :: att1_transformer_block_weights where
  "zero_block_weights = \<lparr>bw_attention_norm = None, bw_ffn_norm = None, bw_wq = None, bw_wk = None, bw_wv = None,
     bw_wo = None, bw_w_gate = None, bw_w_up = None, bw_w_down = None\<rparr>"

text \<open>The macro: name, view, store; \<^verbatim>\<open>return\<close> is a status that is passed through.\<close>

definition LOAD_LAYER_TENSOR ::
  "att1_model \<Rightarrow> u32 \<Rightarrow> (u64 option \<Rightarrow> att1_transformer_block_weights \<Rightarrow> att1_transformer_block_weights) \<Rightarrow> string
    \<Rightarrow> u32 \<Rightarrow> u64 \<Rightarrow> u64 \<Rightarrow> att1_status \<times> att1_transformer_block_weights \<Rightarrow> att1_status \<times> att1_transformer_block_weights" where
  "LOAD_LAYER_TENSOR m layer set_member suffix ndims dim0 dim1 acc =
     (let (status, w) = acc in
      if status \<noteq> ATT1_OK then (status, w)
      else
        (case layer_name MODEL_NAME_SIZE layer suffix of
           None \<Rightarrow> (ATT1_ERR_INVALID_ARG, w)
         | Some name \<Rightarrow>
           (let (st, out) = att1_model_view_tensor_f32 (Some m) (Some name) ndims dim0 dim1 (Some None)
            in (st, set_member (the out) w))))"

definition att1_model_view_load_layer_weights ::
  "att1_model option \<Rightarrow> u32 \<Rightarrow> att1_transformer_block_weights option \<Rightarrow> att1_status \<times> att1_transformer_block_weights option" where
  "att1_model_view_load_layer_weights mp layer out_weights =
     (case (mp, out_weights) of
        (Some m, Some _) \<Rightarrow>
          (if mc_n_layers (md_config m) \<le> layer then (ATT1_ERR_INVALID_ARG, out_weights)
           else
             (let d_model = ucast (mc_d_model (md_config m)); d_ff = ucast (mc_d_ff (md_config m));
                  L = LOAD_LAYER_TENSOR m layer;
                  a1 = L (\<lambda>v w. w\<lparr>bw_attention_norm := v\<rparr>) ''attention_norm.weight'' 1 d_model 1 (ATT1_OK, zero_block_weights);
                  a2 = L (\<lambda>v w. w\<lparr>bw_wq := v\<rparr>) ''attention.wq.weight'' 2 d_model d_model a1;
                  a3 = L (\<lambda>v w. w\<lparr>bw_wk := v\<rparr>) ''attention.wk.weight'' 2 d_model d_model a2;
                  a4 = L (\<lambda>v w. w\<lparr>bw_wv := v\<rparr>) ''attention.wv.weight'' 2 d_model d_model a3;
                  a5 = L (\<lambda>v w. w\<lparr>bw_wo := v\<rparr>) ''attention.wo.weight'' 2 d_model d_model a4;
                  a6 = L (\<lambda>v w. w\<lparr>bw_ffn_norm := v\<rparr>) ''ffn_norm.weight'' 1 d_model 1 a5;
                  a7 = L (\<lambda>v w. w\<lparr>bw_w_gate := v\<rparr>) ''ffn.w_gate.weight'' 2 d_model d_ff a6;
                  a8 = L (\<lambda>v w. w\<lparr>bw_w_up := v\<rparr>) ''ffn.w_up.weight'' 2 d_model d_ff a7;
                  a9 = L (\<lambda>v w. w\<lparr>bw_w_down := v\<rparr>) ''ffn.w_down.weight'' 2 d_ff d_model a8
              in (fst a9, Some (snd a9))))
      | _ \<Rightarrow> (ATT1_ERR_INVALID_ARG, out_weights))"

text \<open>The checks of the quantized decoder on one layer.\<close>

definition CHK_F32 :: "att1_model \<Rightarrow> u32 \<Rightarrow> string \<Rightarrow> u32 \<Rightarrow> u64 \<Rightarrow> u64 \<Rightarrow> att1_status \<Rightarrow> att1_status" where
  "CHK_F32 m layer suffix nd d0 d1 status =
     (if status \<noteq> ATT1_OK then status
      else (case layer_name MODEL_NAME_SIZE layer suffix of
              None \<Rightarrow> ATT1_ERR_INVALID_ARG
            | Some name \<Rightarrow> fst (att1_model_view_tensor_f32 (Some m) (Some name) nd d0 d1 (Some None))))"

definition CHK_Q4 :: "att1_model \<Rightarrow> u32 \<Rightarrow> string \<Rightarrow> u64 \<Rightarrow> u64 \<Rightarrow> att1_status \<Rightarrow> att1_status" where
  "CHK_Q4 m layer suffix rows cols status =
     (if status \<noteq> ATT1_OK then status
      else (case layer_name MODEL_NAME_SIZE layer suffix of
              None \<Rightarrow> ATT1_ERR_INVALID_ARG
            | Some name \<Rightarrow> fst (att1_model_view_tensor_q4 (Some m) (Some name) rows cols (Some zero_q4_matrix))))"

definition check_layer_q4 :: "att1_model \<Rightarrow> u32 \<Rightarrow> att1_status \<Rightarrow> att1_status" where
  "check_layer_q4 m layer status =
     (let d_model = ucast (mc_d_model (md_config m)); d_ff = ucast (mc_d_ff (md_config m));
          s1 = CHK_F32 m layer ''attention_norm.weight'' 1 d_model 1 status;
          s2 = CHK_Q4 m layer ''attention.wq.weight'' d_model d_model s1;
          s3 = CHK_Q4 m layer ''attention.wk.weight'' d_model d_model s2;
          s4 = CHK_Q4 m layer ''attention.wv.weight'' d_model d_model s3;
          s5 = CHK_Q4 m layer ''attention.wo.weight'' d_model d_model s4;
          s6 = CHK_F32 m layer ''ffn_norm.weight'' 1 d_model 1 s5;
          s7 = CHK_Q4 m layer ''ffn.w_gate.weight'' d_ff d_model s6;
          s8 = CHK_Q4 m layer ''ffn.w_up.weight'' d_ff d_model s7;
          s9 = CHK_Q4 m layer ''ffn.w_down.weight'' d_model d_ff s8
      in s9)"

definition att1_model_view_validate_decoder_q4 :: "att1_model option \<Rightarrow> att1_status" where
  "att1_model_view_validate_decoder_q4 mp =
     (case mp of
        None \<Rightarrow> ATT1_ERR_INVALID_ARG
      | Some m \<Rightarrow>
        (if decoder_config_bad (md_config m) then ATT1_ERR_INVALID_ARG
         else
           (let status = fst (att1_model_view_token_embedding mp (Some None)) in
            if status \<noteq> ATT1_OK then status
            else
              (let status = fst (att1_model_view_output_norm mp (Some None)) in
               if status \<noteq> ATT1_OK then status
               else
                 (let status = fst (att1_model_view_tensor_q4 mp (Some (str_bytes ''output.weight''))
                                 (ucast (mc_vocab_size (md_config m))) (ucast (mc_d_model (md_config m))) (Some zero_q4_matrix)) in
                  if status \<noteq> ATT1_OK then status
                  else fold (\<lambda>layer. check_layer_q4 m (word_of_nat layer)) [0..<unat (mc_n_layers (md_config m))] ATT1_OK)))))"

section \<open>Owned tensors\<close>

definition TENSOR_MAX_RANK :: nat where "TENSOR_MAX_RANK = 4"

datatype att1_tensor_dtype =
    ATT1_DTYPE_UNKNOWN
  | ATT1_DTYPE_F32
  | ATT1_DTYPE_F16
  | ATT1_DTYPE_BF16
  | ATT1_DTYPE_Q8
  | ATT1_DTYPE_Q4

text \<open>The descriptor and the fields of the tensor; the data are bit patterns.\<close>

record att1_tensor =
  tn_id :: u64
  tn_dtype :: att1_tensor_dtype
  tn_rank :: u32
  tn_bytes :: nat
  tn_shape :: "nat list"
  tn_element_count :: nat
  tn_data :: "u32 list option"

definition zero_tensor :: att1_tensor where
  "zero_tensor = \<lparr>tn_id = 0, tn_dtype = ATT1_DTYPE_UNKNOWN, tn_rank = 0, tn_bytes = 0, tn_shape = replicate TENSOR_MAX_RANK 0,
     tn_element_count = 0, tn_data = None\<rparr>"

text \<open>The loop over the dimensions: the tensor, and the element count unless it failed.\<close>

fun tensor_shape_loop :: "nat list \<Rightarrow> nat \<Rightarrow> nat \<Rightarrow> att1_tensor \<Rightarrow> nat option \<times> att1_tensor" where
  "tensor_shape_loop [] i elements t = (Some elements, t)"
| "tensor_shape_loop (d # ds) i elements t =
     (if d = 0 then (None, t)
      else (case att1_mul_size elements d of
              None \<Rightarrow> (None, t)
            | Some e \<Rightarrow> tensor_shape_loop ds (i + 1) e (t\<lparr>tn_shape := (tn_shape t)[i := d]\<rparr>)))"

definition att1_tensor_alloc_f32 ::
  "bool \<Rightarrow> att1_tensor option \<Rightarrow> u32 \<Rightarrow> nat list option \<Rightarrow> int \<times> att1_tensor option" where
  "att1_tensor_alloc_f32 alloc tp rank shape =
     (case (tp, shape) of
        (Some _, Some sh) \<Rightarrow>
          (if rank = 0 \<or> word_of_nat TENSOR_MAX_RANK < rank then (-1, tp)
           else
             (case tensor_shape_loop (take (unat rank) sh) 0 1 zero_tensor of
                (None, t) \<Rightarrow> (-1, Some t)
              | (Some elements, t) \<Rightarrow>
                (case att1_mul_size elements 4 of
                   None \<Rightarrow> (-1, Some t)
                 | Some bytes \<Rightarrow>
                   (if \<not> alloc then (-1, Some zero_tensor)
                    else (0, Some (t\<lparr>tn_data := Some (replicate elements 0), tn_dtype := ATT1_DTYPE_F32, tn_rank := rank,
                                     tn_bytes := bytes, tn_element_count := elements\<rparr>))))))
      | _ \<Rightarrow> (-1, tp))"

definition att1_tensor_free :: "att1_tensor option \<Rightarrow> att1_tensor option" where
  "att1_tensor_free = map_option (\<lambda>_. zero_tensor)"

end
