(* ===== verification/Model_View_Props.thy ===== *)
theory Model_View_Props
  imports Model_View
begin

text \<open>Views stay inside the file, the validators decide what the loaders need, and tensor allocation.\<close>

section \<open>Views\<close>

lemma found_tensor_wf:
  assumes "model_wf m" "found_tensor m name = Some t"
  shows "tensor_wf (unat (md_file_size m)) t"
proof -
  obtain i where i: "att1_model_find_tensor (Some m) (Some name) = Some i" "t = md_tensors m ! i"
    using assms(2) by (auto simp: found_tensor_def)
  then have "i < length (md_tensors m)"
    by (auto simp: att1_model_find_tensor_def find_tensor_loop_eq first_index_Some_iff)
  then show ?thesis using assms(1) i by (auto simp: model_wf_def)
qed

lemma view_q8_OK:
  "att1_model_view_tensor_q8 (Some m) (Some name) rows cols (Some q0) = (ATT1_OK, Some q) \<Longrightarrow>
    \<exists>t. found_tensor m name = Some t \<and> tensor_is_q8_shape (Some t) rows cols
      \<and> q = \<lparr>q8_rows = rows, q8_cols = cols, q8_values = mt_data t, q8_scales = map_option (\<lambda>p. p + rows * cols) (mt_data t)\<rparr>"
  by (auto simp: att1_model_view_tensor_q8_def Let_def split: if_splits option.splits)

lemma view_q4_OK:
  "att1_model_view_tensor_q4 (Some m) (Some name) rows cols (Some q0) = (ATT1_OK, Some q) \<Longrightarrow>
    \<exists>t. found_tensor m name = Some t \<and> tensor_is_q4_shape (Some t) rows cols
      \<and> q = \<lparr>q4_rows = rows, q4_cols = cols,
             q4_group_size = (let raw = mt_flags t AND Q4_FLAGS_GROUP_MASK in if raw = 0 then Q4_GROUP_SIZE_DEFAULT else raw),
             q4_packed = mt_data t, q4_scales = map_option (\<lambda>p. p + rows * cols div 2) (mt_data t)\<rparr>"
  by (auto simp: att1_model_view_tensor_q4_def Let_def split: if_splits option.splits)

lemma view_f32_OK:
  "att1_model_view_tensor_f32 (Some m) (Some name) nd d0 d1 (Some o0) = (ATT1_OK, Some out) \<Longrightarrow>
    \<exists>t. found_tensor m name = Some t \<and> tensor_is_f32_shape (Some t) nd d0 d1 \<and> out = mt_data t"
  by (auto simp: att1_model_view_tensor_f32_def split: if_splits option.splits)

text \<open>The dimensions of a two-dimensional tensor and its place in the file.\<close>

lemma wf_dims2:
  assumes "tensor_wf n t" "mt_ndims t = 2"
  shows "map unat (tensor_dims t) = [unat (mt_shape t ! 0), unat (mt_shape t ! 1)]"
proof -
  obtain a b c d where "mt_shape t = [a, b, c, d]" using assms(1) list4 unfolding tensor_wf_def by metis
  then show ?thesis using assms(2) by simp
qed

lemma wf_place:
  assumes "tensor_wf n t" "n < 2 ^ 64"
  obtains p where "mt_data t = Some p" "unat p + unat (mt_nbytes t) \<le> n"
    "\<And>k. unat k \<le> unat (mt_nbytes t) \<Longrightarrow> unat (p + k) = unat p + unat k"
proof -
  obtain p where p: "mt_data t = Some p" "unat p + unat (mt_nbytes t) \<le> n" using assms(1) by (auto simp: tensor_wf_def)
  have "unat (p + k) = unat p + unat k" if "unat k \<le> unat (mt_nbytes t)" for k
    using p(2) assms(2) that by (intro unat_add_no_wrap) simp
  with p show thesis by (rule that)
qed

lemma unat_times: "unat (a :: u64) * unat b < 2 ^ 64 \<Longrightarrow> unat (a * b) = unat a * unat b"
  by (simp add: unat_word_ariths)

lemma view_q8_bounds:
  assumes "model_wf m" "att1_model_view_tensor_q8 (Some m) (Some name) rows cols (Some q0) = (ATT1_OK, Some q)"
  shows "\<exists>p s. q8_values q = Some p \<and> q8_scales q = Some s \<and> unat s = unat p + unat rows * unat cols
    \<and> unat s + 4 * unat rows \<le> unat (md_file_size m)"
proof -
  obtain t where t: "found_tensor m name = Some t" "tensor_is_q8_shape (Some t) rows cols"
    "q = \<lparr>q8_rows = rows, q8_cols = cols, q8_values = mt_data t, q8_scales = map_option (\<lambda>p. p + rows * cols) (mt_data t)\<rparr>"
    using view_q8_OK [OF assms(2)] by blast
  note wf = found_tensor_wf [OF assms(1) t(1)]
  have sh: "mt_dtype t = MODEL_DTYPE_Q8" "mt_ndims t = 2" "mt_shape t ! 0 = rows" "mt_shape t ! 1 = cols"
    using t(2) by (simp_all add: tensor_is_q8_shape_def)
  then have nb: "unat (mt_nbytes t) = unat rows * unat cols + 4 * unat rows"
    using wf wf_dims2 [OF wf sh(2)] by (simp add: tensor_wf_def tensor_bytes_def model_codes)
  obtain p where p: "mt_data t = Some p" "unat p + unat (mt_nbytes t) \<le> unat (md_file_size m)"
    "\<And>k. unat k \<le> unat (mt_nbytes t) \<Longrightarrow> unat (p + k) = unat p + unat k"
    using wf_place [OF wf u64_lt] by blast
  have rc: "unat (rows * cols) = unat rows * unat cols" using nb u64_lt [of "mt_nbytes t"] by (intro unat_times) simp
  then have "unat (p + rows * cols) = unat p + unat rows * unat cols" using p(3) [of "rows * cols"] nb by simp
  then show ?thesis using p nb t(3) by simp
qed

lemma view_q4_bounds:
  assumes "model_wf m" "att1_model_view_tensor_q4 (Some m) (Some name) rows cols (Some q0) = (ATT1_OK, Some q)"
  shows "\<exists>p s. q4_packed q = Some p \<and> q4_scales q = Some s \<and> unat s = unat p + unat rows * (unat cols div 2)
    \<and> unat s + 4 * (unat rows * (unat cols div unat (q4_group_size q))) \<le> unat (md_file_size m)
    \<and> unat (q4_group_size q) dvd unat cols \<and> q4_group_size q \<in> {16, 32, 64, 128}"
proof -
  obtain t where t: "found_tensor m name = Some t" "tensor_is_q4_shape (Some t) rows cols"
    "q = \<lparr>q4_rows = rows, q4_cols = cols,
      q4_group_size = (let raw = mt_flags t AND Q4_FLAGS_GROUP_MASK in if raw = 0 then Q4_GROUP_SIZE_DEFAULT else raw),
      q4_packed = mt_data t, q4_scales = map_option (\<lambda>p. p + rows * cols div 2) (mt_data t)\<rparr>"
    using view_q4_OK [OF assms(2)] by blast
  note wf = found_tensor_wf [OF assms(1) t(1)]
  have sh: "mt_dtype t = MODEL_DTYPE_Q4" "mt_ndims t = 2" "mt_shape t ! 0 = rows" "mt_shape t ! 1 = cols"
    using t(2) by (simp_all add: tensor_is_q4_shape_def)
  then obtain g where g: "q4_group (mt_flags t) = Some g" "even (unat cols)" "g dvd unat cols"
    "unat (mt_nbytes t) = unat rows * (unat cols div 2) + 4 * (unat rows * (unat cols div g))"
    using wf wf_dims2 [OF wf sh(2)]
    by (auto simp: tensor_wf_def tensor_bytes_def model_codes split: option.splits if_splits)
  then have gs: "unat (q4_group_size q) = g" "q4_group_size q \<in> {16, 32, 64, 128}"
    by (auto simp: t(3) q4_group_def q4_codes Let_def split: if_splits)
  obtain p where p: "mt_data t = Some p" "unat p + unat (mt_nbytes t) \<le> unat (md_file_size m)"
    "\<And>k. unat k \<le> unat (mt_nbytes t) \<Longrightarrow> unat (p + k) = unat p + unat k"
    using wf_place [OF wf u64_lt] by blast
  have "unat rows * unat cols < 2 ^ 64" using wf wf_dims2 [OF wf sh(2)] sh by (simp add: tensor_wf_def)
  then have "unat (rows * cols div 2) = unat rows * (unat cols div 2)"
    using g(2) by (simp add: unat_div_distrib unat_times div_mult_swap)
  then have "unat (p + rows * cols div 2) = unat p + unat rows * (unat cols div 2)" using p(3) [of "rows * cols div 2"] g by simp
  then show ?thesis using p g gs t(3) by simp
qed

lemma view_f32_bounds:
  assumes "model_wf m" "att1_model_view_tensor_f32 (Some m) (Some name) nd d0 d1 (Some o0) = (ATT1_OK, Some out)"
  shows "\<exists>p. out = Some p \<and> unat p + 4 * (unat d0 * (if nd = 1 then 1 else unat d1)) \<le> unat (md_file_size m)"
proof -
  obtain t where t: "found_tensor m name = Some t" "tensor_is_f32_shape (Some t) nd d0 d1" "out = mt_data t"
    using view_f32_OK [OF assms(2)] by blast
  note wf = found_tensor_wf [OF assms(1) t(1)]
  obtain a b c d where sh: "mt_shape t = [a, b, c, d]" using wf list4 unfolding tensor_wf_def by metis
  have eq: "mt_dtype t = MODEL_DTYPE_F32" "mt_ndims t = nd" "d0 = a" "1 < nd \<longrightarrow> d1 = b"
    using t(2) sh by (auto simp: tensor_is_f32_shape_def split: if_splits)
  have nd: "nd = 1 \<or> nd = 2 \<or> nd = 3 \<or> nd = 4"
  proof -
    have "1 \<le> unat nd" "unat nd \<le> 4" using wf eq(2) by (auto simp: tensor_wf_def word_le_nat_alt)
    then have "unat nd = 1 \<or> unat nd = 2 \<or> unat nd = 3 \<or> unat nd = 4" by linarith
    then show ?thesis by (auto simp: word_unat_eq_iff)
  qed
  have "unat (mt_nbytes t) = 4 * prod_list (map unat (tensor_dims t))" "0 \<notin> set (tensor_dims t)"
    using wf eq by (simp_all add: tensor_wf_def tensor_bytes_def)
  moreover have "k * x \<ge> k" if "0 < x" for k x :: nat using that by simp
  ultimately have le: "4 * (unat d0 * (if nd = 1 then 1 else unat d1)) \<le> unat (mt_nbytes t)"
    using nd eq(2,3,4) sh by (auto simp: unat_gt_0 Suc_le_eq mult.assoc [symmetric])
  obtain p where "mt_data t = Some p" "unat p + unat (mt_nbytes t) \<le> unat (md_file_size m)"
    using wf_place [OF wf u64_lt] by blast
  then show ?thesis using le t(3) by auto
qed

text \<open>
  C23. What a view of a loaded model points to lies inside the file: the values and, behind them,
  the scales of a Q8 matrix, the packed values and the group scales of a Q4 matrix, the elements of
  an F32 tensor. The addresses are computed without wrap-around.
\<close>

theorem views_in_file:
  assumes "model_wf m"
  shows "(att1_model_view_tensor_q8 (Some m) (Some name) rows cols (Some q0) = (ATT1_OK, Some q) \<longrightarrow>
      (\<exists>p s. q8_values q = Some p \<and> q8_scales q = Some s \<and> unat s = unat p + unat rows * unat cols
        \<and> unat s + 4 * unat rows \<le> unat (md_file_size m)))
    \<and> (att1_model_view_tensor_q4 (Some m) (Some name) rows cols (Some w0) = (ATT1_OK, Some w) \<longrightarrow>
      (\<exists>p s. q4_packed w = Some p \<and> q4_scales w = Some s \<and> unat s = unat p + unat rows * (unat cols div 2)
        \<and> unat s + 4 * (unat rows * (unat cols div unat (q4_group_size w))) \<le> unat (md_file_size m)
        \<and> unat (q4_group_size w) dvd unat cols \<and> q4_group_size w \<in> {16, 32, 64, 128}))
    \<and> (att1_model_view_tensor_f32 (Some m) (Some name) nd rows cols (Some o0) = (ATT1_OK, Some out) \<longrightarrow>
      (\<exists>p. out = Some p \<and> unat p + 4 * (unat rows * (if nd = 1 then 1 else unat cols)) \<le> unat (md_file_size m)))"
  using view_q8_bounds [OF assms] view_q4_bounds [OF assms] view_f32_bounds [OF assms] by blast

theorem views_in_file_witness:
  "\<exists>p s. att1_model_view_tensor_q8 (Some demo_model) (Some [97, 98]) 4 2 (Some zero_q8_matrix)
      = (ATT1_OK, Some \<lparr>q8_rows = 4, q8_cols = 2, q8_values = Some p, q8_scales = Some s\<rparr>)
    \<and> unat s = unat p + 8 \<and> unat s + 16 \<le> 24"
proof -
  have wf: "model_wf demo_model"
    by (simp add: model_wf_def demo_model_def zero_model_def tensor_wf_def demo_tensor_def tensor_bytes_def model_codes
        shard_meta_wf_def)
  have "found_tensor demo_model [97, 98] = Some (md_tensors demo_model ! 0)"
    by (simp add: found_tensor_def att1_model_find_tensor_def demo_model_def strncmp_zero_iff MODEL_NAME_SIZE_def cstr_def)
  then have v: "att1_model_view_tensor_q8 (Some demo_model) (Some [97, 98]) 4 2 (Some zero_q8_matrix)
      = (ATT1_OK, Some \<lparr>q8_rows = 4, q8_cols = 2, q8_values = Some 0, q8_scales = Some 8\<rparr>)"
    by (simp add: att1_model_view_tensor_q8_def tensor_is_q8_shape_def demo_model_def demo_tensor_def MODEL_DTYPE_Q8_def)
  show ?thesis
    using views_in_file [OF wf, of "[97, 98]" 4 2 zero_q8_matrix "\<lparr>q8_rows = 4, q8_cols = 2, q8_values = Some 0, q8_scales = Some 8\<rparr>"] v
    by (auto simp: demo_model_def)
qed

section \<open>Validation of the quantized decoder\<close>

lemma layer_name_fits:
  assumes "length suffix \<le> 40"
  shows "\<exists>name. layer_name MODEL_NAME_SIZE layer suffix = Some name"
proof -
  have "length (decimal (unat layer)) \<le> 10"
    using u32_lt [of layer] by (intro length_decimal) simp_all
  then show ?thesis using assms by (simp add: layer_name_def Let_def MODEL_NAME_SIZE_def)
qed

lemma CHK_F32_OK:
  "CHK_F32 m layer suffix nd d0 d1 s = ATT1_OK \<longleftrightarrow> s = ATT1_OK \<and> (\<exists>name out. layer_name MODEL_NAME_SIZE layer suffix = Some name
     \<and> att1_model_view_tensor_f32 (Some m) (Some name) nd d0 d1 (Some None) = (ATT1_OK, Some out))"
  by (auto simp: CHK_F32_def att1_model_view_tensor_f32_def split: option.splits if_splits)

lemma CHK_Q4_OK:
  "CHK_Q4 m layer suffix rows cols s = ATT1_OK \<longleftrightarrow> s = ATT1_OK \<and> (\<exists>name q. layer_name MODEL_NAME_SIZE layer suffix = Some name
     \<and> att1_model_view_tensor_q4 (Some m) (Some name) rows cols (Some zero_q4_matrix) = (ATT1_OK, Some q))"
  by (auto simp: CHK_Q4_def att1_model_view_tensor_q4_def Let_def split: option.splits if_splits)

text \<open>The weights of a layer with their shapes.\<close>

definition q4_layer_weights :: "att1_model_config \<Rightarrow> (string \<times> u64 \<times> u64) list" where
  "q4_layer_weights c =
     (let d = ucast (mc_d_model c); f = ucast (mc_d_ff c)
      in [(''attention.wq.weight'', d, d), (''attention.wk.weight'', d, d), (''attention.wv.weight'', d, d),
          (''attention.wo.weight'', d, d), (''ffn.w_gate.weight'', f, d), (''ffn.w_up.weight'', f, d),
          (''ffn.w_down.weight'', d, f)])"

definition layer_q4_ready :: "att1_model \<Rightarrow> u32 \<Rightarrow> bool" where
  "layer_q4_ready m layer \<longleftrightarrow>
     (\<forall>(suffix, rows, cols) \<in> set (q4_layer_weights (md_config m)).
        \<exists>name q. layer_name MODEL_NAME_SIZE layer suffix = Some name
          \<and> att1_model_view_tensor_q4 (Some m) (Some name) rows cols (Some zero_q4_matrix) = (ATT1_OK, Some q))
     \<and> (\<forall>suffix \<in> {''attention_norm.weight'', ''ffn_norm.weight''}.
        \<exists>name out. layer_name MODEL_NAME_SIZE layer suffix = Some name
          \<and> att1_model_view_tensor_f32 (Some m) (Some name) 1 (ucast (mc_d_model (md_config m))) 1 (Some None) = (ATT1_OK, Some out))"

lemma check_layer_q4_OK: "check_layer_q4 m layer s = ATT1_OK \<longleftrightarrow> s = ATT1_OK \<and> layer_q4_ready m layer"
  unfolding check_layer_q4_def Let_def CHK_F32_OK CHK_Q4_OK layer_q4_ready_def q4_layer_weights_def
  by (simp only: list.set ball_simps insert_iff prod.case) blast

lemma check_layers_q4_OK:
  "fold (\<lambda>layer. check_layer_q4 m (word_of_nat layer)) ls s = ATT1_OK \<longleftrightarrow>
     s = ATT1_OK \<and> (\<forall>l \<in> set ls. layer_q4_ready m (word_of_nat l))"
  by (induction ls arbitrary: s) (auto simp: check_layer_q4_OK)

lemma all_layers: "(\<forall>l \<in> set [0..<unat (n :: u32)]. P (word_of_nat l)) \<longleftrightarrow> (\<forall>layer < n. P layer)"
proof
  assume a: "\<forall>l \<in> set [0..<unat n]. P (word_of_nat l)"
  show "\<forall>layer < n. P layer"
  proof (intro allI impI)
    fix layer assume "layer < n"
    then have "unat layer \<in> set [0..<unat n]" by (simp add: word_less_nat_alt)
    then have "P (word_of_nat (unat layer))" using a by blast
    then show "P layer" by simp
  qed
next
  assume a: "\<forall>layer < n. P layer"
  show "\<forall>l \<in> set [0..<unat n]. P (word_of_nat l)"
  proof
    fix l assume "l \<in> set [0..<unat n]"
    then have "l < unat n" by simp
    then have "unat (word_of_nat l :: u32) < unat n"
      using u32_lt [of n] by (simp add: unsigned_of_nat take_bit_nat_eq_self)
    then show "P (word_of_nat l)" using a by (simp add: word_less_nat_alt)
  qed
qed


text \<open>Models given by a table of names, for concrete instances.\<close>

definition named_tensor :: "string \<Rightarrow> att1_model_tensor \<Rightarrow> att1_model_tensor" where
  "named_tensor s t = t\<lparr>mt_name := str_bytes s @ replicate (64 - length s) 0\<rparr>"

definition c_name :: "string \<Rightarrow> bool" where
  "c_name s \<longleftrightarrow> length s < 64 \<and> CHR 0x00 \<notin> set s"

lemma str_bytes_eq: "str_bytes s = str_bytes s' \<longleftrightarrow> s = s'"
proof
  assume e: "str_bytes s = str_bytes s'"
  have "unat (of_char c :: u8) = of_char c" for c
  proof -
    have "(of_char c :: u8) = word_of_nat (of_char c)" by (simp only: of_nat_of_char)
    then show ?thesis by (simp add: unsigned_of_nat take_bit_nat_eq_self)
  qed
  then have "map (\<lambda>w. char_of (unat w)) (str_bytes r) = r" for r
    by (induction r) (simp_all add: str_bytes_def)
  then show "s = s'" using e by metis
qed simp

lemma cstr_str_bytes: "CHR 0x00 \<notin> set s \<Longrightarrow> cstr (str_bytes s @ replicate k 0) = str_bytes s"
proof (induction s)
  case (Cons c s)
  have "(of_char c :: u8) \<noteq> 0"
    using Cons.prems str_bytes_eq [of "[c]" "[CHR 0x00]"] by (auto simp: str_bytes_def)
  then show ?case using Cons by (simp add: str_bytes_def)
qed (cases k; simp add: str_bytes_def)

lemma found_named:
  assumes "md_tensors m = map (\<lambda>(s, t). named_tensor s t) ts" "unat (md_tensor_count m) = length ts"
    and "\<forall>(s, t) \<in> set ts. c_name s" "CHR 0x00 \<notin> set s'"
  shows "found_tensor m (str_bytes s') = map_option (named_tensor s') (map_of ts s')"
proof -
  have "map_option (\<lambda>k. map (\<lambda>(s, t). named_tensor s t) ts ! (k - i)) (find_tensor_loop (map (\<lambda>(s, t). named_tensor s t) ts) i (str_bytes s'))
      = map_option (named_tensor s') (map_of ts s')" if "\<forall>(s, t) \<in> set ts. c_name s" for ts i
    using that
  proof (induction ts arbitrary: i)
    case (Cons p ts)
    obtain s t where p: "p = (s, t)" by fastforce
    have n: "length (mt_name (named_tensor s t)) = 64" "mt_name (named_tensor s t) ! 63 = 0" "cstr (mt_name (named_tensor s t)) = str_bytes s"
      using Cons.prems cstr_str_bytes [of s] by (auto simp: p named_tensor_def c_name_def str_bytes_def nth_append)
    have "cstr (str_bytes s') = str_bytes s'" using cstr_str_bytes [OF assms(4), of 0] by simp
    then have eq: "strncmp_zero MODEL_NAME_SIZE (mt_name (named_tensor s t)) (str_bytes s') \<longleftrightarrow> s = s'"
      unfolding strncmp_zero_name [OF n(1,2)] n(3) by (simp add: str_bytes_eq)
    show ?case
    proof (cases "s = s'")
      case False
      have "map_option (\<lambda>k. map (\<lambda>(s, t). named_tensor s t) (p # ts) ! (k - i)) (find_tensor_loop (map (\<lambda>(s, t). named_tensor s t) ts) (i + 1) (str_bytes s'))
          = map_option (\<lambda>k. map (\<lambda>(s, t). named_tensor s t) ts ! (k - (i + 1))) (find_tensor_loop (map (\<lambda>(s, t). named_tensor s t) ts) (i + 1) (str_bytes s'))"
        by (rule option.map_cong [OF refl]) (auto simp: find_tensor_loop_eq nth_Cons')
      then show ?thesis using False Cons.IH [of "i + 1"] Cons.prems eq by (simp add: p)
    qed (use eq in \<open>simp add: p\<close>)
  qed simp
  from this [OF assms(3), of 0] show ?thesis
    using assms(1,2) by (simp add: found_tensor_def att1_model_find_tensor_def)
qed

definition demo_f32 :: "u64 list \<Rightarrow> u32 \<Rightarrow> att1_model_tensor" where
  "demo_f32 shape n = demo_tensor\<lparr>mt_dtype := MODEL_DTYPE_F32, mt_ndims := n, mt_shape := shape, mt_data := Some 0\<rparr>"

definition demo_q4 :: att1_model_tensor where
  "demo_q4 = demo_tensor\<lparr>mt_dtype := MODEL_DTYPE_Q4, mt_ndims := 2, mt_shape := [2, 2, 1, 1], mt_data := Some 0\<rparr>"

definition demo_names :: "(string \<times> att1_model_tensor) list" where
  "demo_names = [(''tok_embeddings.weight'', demo_f32 [2, 2, 1, 1] 2), (''output_norm.weight'', demo_f32 [2, 1, 1, 1] 1),
     (''layers.0.attention_norm.weight'', demo_f32 [2, 1, 1, 1] 1), (''layers.0.ffn_norm.weight'', demo_f32 [2, 1, 1, 1] 1)]
   @ map (\<lambda>s. (s, demo_q4)) [''output.weight'', ''layers.0.attention.wq.weight'', ''layers.0.attention.wk.weight'',
       ''layers.0.attention.wv.weight'', ''layers.0.attention.wo.weight'', ''layers.0.ffn.w_gate.weight'',
       ''layers.0.ffn.w_up.weight'', ''layers.0.ffn.w_down.weight'']"

definition demo_decoder :: att1_model where
  "demo_decoder = zero_model\<lparr>md_config := zero_config\<lparr>mc_vocab_size := 2, mc_n_layers := 1, mc_n_heads := 1, mc_d_model := 2,
     mc_d_ff := 2, mc_max_seq_len := 1\<rparr>, md_tensor_count := 12, md_tensors := map (\<lambda>(s, t). named_tensor s t) demo_names\<rparr>"

lemma demo_found: "CHR 0x00 \<notin> set s \<Longrightarrow> found_tensor demo_decoder (str_bytes s) = map_option (named_tensor s) (map_of demo_names s)"
  by (rule found_named [of _ demo_names]) (simp_all add: demo_decoder_def, simp_all add: demo_names_def c_name_def)


section \<open>Loading the weights of a layer\<close>

text \<open>The view of a tensor of a layer.\<close>

definition layer_view :: "att1_model \<Rightarrow> u32 \<Rightarrow> string \<Rightarrow> u32 \<Rightarrow> u64 \<Rightarrow> u64 \<Rightarrow> u64 option option" where
  "layer_view m layer suffix nd d0 d1 =
     (case layer_name MODEL_NAME_SIZE layer suffix of
        None \<Rightarrow> None
      | Some name \<Rightarrow>
        (let (st, out) = att1_model_view_tensor_f32 (Some m) (Some name) nd d0 d1 (Some None)
         in if st = ATT1_OK then out else None))"

lemma LOAD_LAYER_TENSOR_OK:
  "LOAD_LAYER_TENSOR m layer upd suffix nd d0 d1 acc = (ATT1_OK, w') \<longleftrightarrow>
     (\<exists>w out. acc = (ATT1_OK, w) \<and> layer_view m layer suffix nd d0 d1 = Some out \<and> w' = upd out w)"
  by (cases acc) (auto simp: LOAD_LAYER_TENSOR_def layer_view_def att1_model_view_tensor_f32_def split: option.splits if_splits)

text \<open>
  Loading the weights of a layer succeeds exactly when the layer exists and its nine tensors
  have their shapes, and then every member points to the view of its own tensor.
\<close>

theorem load_layer_weights_iff:
  "att1_model_view_load_layer_weights (Some m) layer (Some w0) = (ATT1_OK, Some w) \<longleftrightarrow>
     layer < mc_n_layers (md_config m)
     \<and> (let d = ucast (mc_d_model (md_config m)); f = ucast (mc_d_ff (md_config m)); v = layer_view m layer
        in v ''attention_norm.weight'' 1 d 1 = Some (bw_attention_norm w) \<and> v ''ffn_norm.weight'' 1 d 1 = Some (bw_ffn_norm w)
           \<and> v ''attention.wq.weight'' 2 d d = Some (bw_wq w) \<and> v ''attention.wk.weight'' 2 d d = Some (bw_wk w)
           \<and> v ''attention.wv.weight'' 2 d d = Some (bw_wv w) \<and> v ''attention.wo.weight'' 2 d d = Some (bw_wo w)
           \<and> v ''ffn.w_gate.weight'' 2 d f = Some (bw_w_gate w) \<and> v ''ffn.w_up.weight'' 2 d f = Some (bw_w_up w)
           \<and> v ''ffn.w_down.weight'' 2 f d = Some (bw_w_down w))"
proof (cases "layer < mc_n_layers (md_config m)")
  case True
  have pair: "(fst a, Some (snd a)) = (ATT1_OK, Some w) \<longleftrightarrow> a = (ATT1_OK, w)" for a :: "att1_status \<times> att1_transformer_block_weights"
    by (cases a) auto
  show ?thesis using True
    unfolding att1_model_view_load_layer_weights_def Let_def
    by (simp only: option.case prod.case not_le [symmetric] if_False pair LOAD_LAYER_TENSOR_OK)
      (cases w, auto simp: zero_block_weights_def)
qed (auto simp: att1_model_view_load_layer_weights_def not_less)

section \<open>Tensor allocation\<close>

lemma tensor_shape_loop_fst:
  "e \<noteq> 0 \<Longrightarrow> e \<le> SIZE_MAX \<Longrightarrow> fst (tensor_shape_loop ds i e t) = Some r \<longleftrightarrow> 0 \<notin> set ds \<and> e * prod_list ds \<le> SIZE_MAX \<and> r = e * prod_list ds"
proof (induction ds arbitrary: i e t)
  case (Cons d ds)
  show ?case
  proof (cases "d = 0 \<or> att1_mul_size e d = None")
    case True
    have big: "SIZE_MAX < e * d \<Longrightarrow> 0 \<notin> set ds \<Longrightarrow> SIZE_MAX < e * d * prod_list ds"
    proof -
      assume a: "SIZE_MAX < e * d" "0 \<notin> set ds"
      then have "1 \<le> prod_list ds" by (induction ds) (auto simp: Suc_le_eq)
      then have "e * d * 1 \<le> e * d * prod_list ds" by (rule mult_le_mono2)
      with a show ?thesis by linarith
    qed
    have "fst (tensor_shape_loop (d # ds) i e t) = None" using True by auto
    moreover have "0 \<notin> set (d # ds) \<Longrightarrow> SIZE_MAX < e * prod_list (d # ds)"
      using True big by (auto simp: att1_mul_size_None_iff mult.assoc)
    ultimately show ?thesis by auto
  next
    case False
    then obtain x where x: "att1_mul_size e d = Some x" "x = e * d" "d \<noteq> 0" "e * d \<le> SIZE_MAX" by (auto simp: att1_mul_size_Some_iff)
    then show ?thesis using Cons by (auto simp: mult.assoc)
  qed
qed auto

text \<open>
  Allocating a tensor succeeds exactly for one to four dimensions, none zero, whose elements
  take at most \<^verbatim>\<open>SIZE_MAX\<close> bytes, and then the tensor has that shape and zero data.
\<close>

theorem tensor_alloc_iff:
  assumes "unat rank \<le> length shape"
  shows "fst (att1_tensor_alloc_f32 True (Some t0) rank (Some shape)) = 0 \<longleftrightarrow>
    1 \<le> rank \<and> rank \<le> 4 \<and> 0 \<notin> set (take (unat rank) shape) \<and> 4 * prod_list (take (unat rank) shape) \<le> SIZE_MAX"
proof (cases "1 \<le> rank \<and> rank \<le> 4")
  case True
  let ?ds = "take (unat rank) shape"
  have r: "\<not> (rank = 0 \<or> word_of_nat TENSOR_MAX_RANK < rank)" using True by (auto simp: TENSOR_MAX_RANK_def)
  obtain res t where l: "tensor_shape_loop ?ds 0 1 zero_tensor = (res, t)" by fastforce
  have f: "res = Some e \<longleftrightarrow> 0 \<notin> set ?ds \<and> prod_list ?ds \<le> SIZE_MAX \<and> e = prod_list ?ds" for e
    using tensor_shape_loop_fst [of 1 ?ds 0 zero_tensor e] l by (simp add: SIZE_MAX_def)
  have v: "fst (att1_tensor_alloc_f32 True (Some t0) rank (Some shape)) = 0 \<longleftrightarrow>
      (\<exists>e bytes. res = Some e \<and> att1_mul_size e 4 = Some bytes)"
    using r by (simp add: att1_tensor_alloc_f32_def l [simplified] split: option.split)
  show ?thesis unfolding v f using True by (auto simp: att1_mul_size_Some_iff mult.commute)
next
  case False
  then have "unat rank < 1 \<or> 4 < unat rank" by (auto simp: not_le word_less_nat_alt)
  then have "rank = 0 \<or> word_of_nat TENSOR_MAX_RANK < rank"
    by (auto simp: TENSOR_MAX_RANK_def word_less_nat_alt unat_eq_0)
  then show ?thesis using False by (auto simp: att1_tensor_alloc_f32_def)
qed

theorem tensor_alloc_iff_witness: "fst (att1_tensor_alloc_f32 True (Some zero_tensor) 2 (Some [3, 5, 0])) = 0"
  using tensor_alloc_iff [of 2 "[3, 5, 0]" zero_tensor] by (simp add: SIZE_MAX_def)

text \<open>
  A tensor is left cleared on failure, says its header. It is not: when a later dimension is
  zero, the dimensions before it stay in the shape.
\<close>

theorem tensor_alloc_failure_not_cleared:
  assumes "d \<noteq> 0" "d \<le> SIZE_MAX"
  shows "\<exists>t. att1_tensor_alloc_f32 alloc (Some t0) 2 (Some [d, 0]) = (-1, Some t) \<and> tn_shape t ! 0 = d \<and> t \<noteq> zero_tensor"
proof -
  have m: "att1_mul_size (Suc 0) d = Some d" using assms by (simp add: att1_mul_size_Some_iff)
  have tk: "take (unat (2 :: u32)) [d, 0] = [d, 0]" by simp
  have "tensor_shape_loop [d, 0] 0 1 zero_tensor = (None, zero_tensor\<lparr>tn_shape := [d, 0, 0, 0]\<rparr>)"
    using assms(1) by (simp add: m zero_tensor_def TENSOR_MAX_RANK_def numeral_eq_Suc)
  then have "att1_tensor_alloc_f32 alloc (Some t0) 2 (Some [d, 0]) = (-1, Some (zero_tensor\<lparr>tn_shape := [d, 0, 0, 0]\<rparr>))"
    unfolding att1_tensor_alloc_f32_def tk by (simp add: TENSOR_MAX_RANK_def)
  then show ?thesis using assms(1) by (auto simp: zero_tensor_def TENSOR_MAX_RANK_def numeral_eq_Suc)
qed

theorem tensor_alloc_failure_not_cleared_witness:
  "\<exists>t. att1_tensor_alloc_f32 True (Some zero_tensor) 2 (Some [7, 0]) = (-1, Some t) \<and> tn_shape t ! 0 = 7 \<and> t \<noteq> zero_tensor"
  by (rule tensor_alloc_failure_not_cleared) (simp_all add: SIZE_MAX_def)

end
