(* ===== verification/Shard_Plan.thy ===== *)
theory Shard_Plan
  imports Model_Loader_Props
begin

text \<open>
  Assignment of transformer layers to tiles (\<^verbatim>\<open>src/shard.c\<close>): the contiguous runtime plan, the
  plan proposed by shard metadata, their comparison, and the plan built from a proposed one. An
  access outside an array is \<^term>\<open>None\<close> of the outer option; \<^verbatim>\<open>size_t\<close> is a natural number.
\<close>

section \<open>Data\<close>

record att1_layer_shard =
  lsh_tile_id :: u32
  lsh_layer_start :: u32
  lsh_layer_end :: u32

record att1_shard_plan =
  sp_tile_count :: nat
  sp_layer_count :: nat
  sp_tiles :: "att1_layer_shard list option"
  sp_layer_to_tile :: "u32 list option"

definition zero_layer_shard :: att1_layer_shard where
  "zero_layer_shard = \<lparr>lsh_tile_id = 0, lsh_layer_start = 0, lsh_layer_end = 0\<rparr>"

definition zero_plan :: att1_shard_plan where
  "zero_plan = \<lparr>sp_tile_count = 0, sp_layer_count = 0, sp_tiles = None, sp_layer_to_tile = None\<rparr>"

record att1_meta_plan_entry =
  mpe_layer_id :: u32
  mpe_tile_id :: u32

record att1_meta_plan =
  mp_entries :: "att1_meta_plan_entry list"
  mp_count :: u32
  mp_extra :: u32
  mp_conflict :: u32

definition zero_meta_plan :: att1_meta_plan where
  "zero_meta_plan = \<lparr>mp_entries = [], mp_count = 0, mp_extra = 0, mp_conflict = 0\<rparr>"

record att1_meta_plan_diff =
  mpd_matching :: u32
  mpd_mismatch :: u32
  mpd_missing :: u32
  mpd_extra :: u32
  mpd_conflict :: u32

section \<open>The runtime plan\<close>

text \<open>The loop over the tiles: \<open>k\<close> tiles to go, the last \<open>k\<close> of \<open>tile_count\<close>.\<close>

fun build_tiles :: "u32 \<Rightarrow> nat \<Rightarrow> nat \<Rightarrow> u32 \<Rightarrow> att1_layer_shard list" where
  "build_tiles n_layers tile_count 0 next_layer = []"
| "build_tiles n_layers tile_count (Suc k) next_layer =
     (let tile = tile_count - Suc k;
          remaining_layers = n_layers - next_layer;
          remaining_tiles = tile_count - tile;
          count = word_of_nat ((unat remaining_layers + remaining_tiles - 1) div remaining_tiles)
      in \<lparr>lsh_tile_id = word_of_nat tile, lsh_layer_start = next_layer, lsh_layer_end = next_layer + count\<rparr>
           # build_tiles n_layers tile_count k (next_layer + count))"

text \<open>The layers of one tile entered in the table, from \<open>layer\<close> on; \<^term>\<open>None\<close> is the error exit.\<close>

fun assign_layers :: "u32 \<Rightarrow> nat \<Rightarrow> nat list \<Rightarrow> u32 list \<Rightarrow> u32 list option" where
  "assign_layers n_layers tile [] table = Some table"
| "assign_layers n_layers tile (layer # ls) table =
     (if unat n_layers \<le> layer then None
      else assign_layers n_layers tile ls (table[layer := word_of_nat tile]))"

fun assign_tiles :: "u32 \<Rightarrow> nat \<Rightarrow> att1_layer_shard list \<Rightarrow> u32 list \<Rightarrow> u32 list option" where
  "assign_tiles n_layers tile [] table = Some table"
| "assign_tiles n_layers tile (s # ss) table =
     (case assign_layers n_layers tile [unat (lsh_layer_start s)..<unat (lsh_layer_end s)] table of
        None \<Rightarrow> None
      | Some table' \<Rightarrow> assign_tiles n_layers (tile + 1) ss table')"

definition att1_shard_plan_free :: "att1_shard_plan option \<Rightarrow> att1_shard_plan option" where
  "att1_shard_plan_free = map_option (\<lambda>_. zero_plan)"

text \<open>\<open>alloc\<close>: both arrays can be allocated.\<close>

definition att1_shard_plan_build ::
  "bool \<Rightarrow> att1_shard_plan option \<Rightarrow> att1_model option \<Rightarrow> nat \<Rightarrow> att1_status \<times> att1_shard_plan option" where
  "att1_shard_plan_build alloc plan model tile_count =
     (case (plan, model) of
        (Some _, Some m) \<Rightarrow>
          (if tile_count = 0 \<or> 2 ^ 32 - 1 < tile_count \<or> mc_n_layers (md_config m) = 0 then (ATT1_ERR_INVALID_ARG, plan)
           else if mc_shard_count (md_config m) \<noteq> 0 then (ATT1_ERR_UNSUPPORTED, plan)
           else if \<not> alloc then (ATT1_ERR_OOM, Some zero_plan)
           else
             (let n_layers = mc_n_layers (md_config m);
                  tiles = build_tiles n_layers tile_count tile_count 0
              in case assign_tiles n_layers 0 tiles (replicate (unat n_layers) 0) of
                   None \<Rightarrow> (ATT1_ERR_STATE, Some zero_plan)
                 | Some table \<Rightarrow>
                   (ATT1_OK, Some \<lparr>sp_tile_count = tile_count, sp_layer_count = unat n_layers, sp_tiles = Some tiles,
                                   sp_layer_to_tile = Some table\<rparr>)))
      | _ \<Rightarrow> (ATT1_ERR_INVALID_ARG, plan))"

definition att1_shard_plan_tile :: "att1_shard_plan option \<Rightarrow> u32 \<Rightarrow> att1_layer_shard option" where
  "att1_shard_plan_tile plan tile_id =
     (case plan of
        None \<Rightarrow> None
      | Some p \<Rightarrow>
        (case sp_tiles p of
           None \<Rightarrow> None
         | Some ts \<Rightarrow> if sp_tile_count p \<le> unat tile_id then None else Some (ts ! unat tile_id)))"

text \<open>The status and the value stored in \<^verbatim>\<open>out_tile_id\<close>, whose old value is \<open>out\<close>.\<close>

definition att1_shard_plan_layer_tile :: "att1_shard_plan option \<Rightarrow> u32 \<Rightarrow> u32 option \<Rightarrow> att1_status \<times> u32 option" where
  "att1_shard_plan_layer_tile plan layer_id out =
     (case (plan, out) of
        (Some p, Some _) \<Rightarrow>
          (case sp_layer_to_tile p of
             None \<Rightarrow> (ATT1_ERR_INVALID_ARG, out)
           | Some table \<Rightarrow>
             (if sp_layer_count p \<le> unat layer_id then (ATT1_ERR_INVALID_ARG, out)
              else if sp_tile_count p \<le> unat (table ! unat layer_id) then (ATT1_ERR_STATE, out)
              else (ATT1_OK, Some (table ! unat layer_id))))
      | _ \<Rightarrow> (ATT1_ERR_INVALID_ARG, out))"

section \<open>A plan from a proposed one\<close>

text \<open>
  The loop over the entries from the i-th on, \<open>k\<close> of them: the arrays, or the error exit
  \<^term>\<open>Some None\<close>.
\<close>

fun fill_from_meta ::
  "att1_meta_plan \<Rightarrow> u32 \<Rightarrow> nat \<Rightarrow> nat \<Rightarrow> nat \<Rightarrow> att1_layer_shard list \<Rightarrow> u32 list
    \<Rightarrow> (att1_layer_shard list \<times> u32 list) option option" where
  "fill_from_meta proposed n_layers tile_count 0 i tiles table = Some (Some (tiles, table))"
| "fill_from_meta proposed n_layers tile_count (Suc k) i tiles table = do {
     entry \<leftarrow> elem_at (mp_entries proposed) i;
     let layer_id = mpe_layer_id entry;
     let tile_id = mpe_tile_id entry;
     if layer_id \<noteq> word_of_nat i then Some None
     else if tile_count \<le> unat tile_id then Some None
     else
       (let table' = table[unat layer_id := tile_id];
            shard = tiles ! unat tile_id
        in if lsh_layer_start shard = n_layers
           then fill_from_meta proposed n_layers tile_count k (i + 1)
                  (tiles[unat tile_id := shard\<lparr>lsh_layer_start := layer_id, lsh_layer_end := layer_id + 1\<rparr>]) table'
           else if lsh_layer_end shard = layer_id
           then fill_from_meta proposed n_layers tile_count k (i + 1)
                  (tiles[unat tile_id := shard\<lparr>lsh_layer_end := layer_id + 1\<rparr>]) table'
           else Some None)
   }"

text \<open>The loops before and after it; their counter is compared with \<^verbatim>\<open>(uint32_t)tile_count\<close>.\<close>

definition prepare_tiles :: "u32 \<Rightarrow> nat \<Rightarrow> att1_layer_shard list" where
  "prepare_tiles n_layers tile_count =
     map (\<lambda>i. if i < tile_count mod 2 ^ 32
              then \<lparr>lsh_tile_id = word_of_nat i, lsh_layer_start = n_layers, lsh_layer_end = 0\<rparr>
              else zero_layer_shard) [0..<tile_count]"

definition fix_empty_tiles :: "u32 \<Rightarrow> nat \<Rightarrow> att1_layer_shard list \<Rightarrow> att1_layer_shard list" where
  "fix_empty_tiles n_layers tile_count tiles =
     map (\<lambda>i. let s = tiles ! i in
              if i < tile_count mod 2 ^ 32 \<and> lsh_layer_start s = n_layers
              then s\<lparr>lsh_layer_start := 0, lsh_layer_end := 0\<rparr> else s) [0..<length tiles]"

definition att1_shard_plan_from_meta ::
  "bool \<Rightarrow> att1_meta_plan option \<Rightarrow> u32 \<Rightarrow> nat \<Rightarrow> att1_shard_plan option \<Rightarrow> (att1_status \<times> att1_shard_plan option) option" where
  "att1_shard_plan_from_meta alloc proposed n_layers tile_count out =
     (case (proposed, out) of
        (Some p, Some _) \<Rightarrow>
          (if tile_count = 0 \<or> n_layers = 0 then Some (ATT1_ERR_INVALID_ARG, out)
           else if mp_count p \<noteq> n_layers then Some (ATT1_ERR_INVALID_ARG, out)
           else if 0 < mp_conflict p then Some (ATT1_ERR_INVALID_ARG, out)
           else if word_of_nat (SIZE_MAX div 4) < n_layers then Some (ATT1_ERR_OOM, Some zero_plan)
           else if \<not> alloc then Some (ATT1_ERR_OOM, Some zero_plan)
           else do {
             res \<leftarrow> fill_from_meta p n_layers tile_count (unat (mp_count p)) 0 (prepare_tiles n_layers tile_count)
                       (replicate (unat n_layers) 0);
             case res of
               None \<Rightarrow> Some (ATT1_ERR_INVALID_ARG, Some zero_plan)
             | Some (tiles, table) \<Rightarrow>
                 Some (ATT1_OK, Some \<lparr>sp_tile_count = tile_count, sp_layer_count = unat n_layers,
                   sp_tiles = Some (fix_empty_tiles n_layers tile_count tiles), sp_layer_to_tile = Some table\<rparr>)
           })
      | _ \<Rightarrow> Some (ATT1_ERR_INVALID_ARG, out))"

section \<open>The proposed plan\<close>

definition byte_digit :: "u8 \<Rightarrow> bool" where
  "byte_digit c \<longleftrightarrow> 48 \<le> c \<and> c \<le> 57"

text \<open>The loop over the digits: the layer number, in 32 bits, and the rest of the name.\<close>

fun scan_layer :: "u8 list \<Rightarrow> u32 \<Rightarrow> u32 \<times> u8 list" where
  "scan_layer [] layer = (layer, [])"
| "scan_layer (c # cs) layer =
     (if byte_digit c then scan_layer cs (layer * 10 + (ucast c - 48)) else (layer, c # cs))"

text \<open>The characters of \<^verbatim>\<open>"layers."\<close>.\<close>

definition layers_prefix :: "u8 list" where
  "layers_prefix = [0x6C, 0x61, 0x79, 0x65, 0x72, 0x73, 0x2E]"

text \<open>The name is a C string: the bytes before its terminator.\<close>

definition parse_layer_id :: "u8 list \<Rightarrow> u32 option" where
  "parse_layer_id name =
     (if \<not> strncmp_zero 7 name layers_prefix then None
      else
        (let p = drop 7 name in
         if p = [] \<or> \<not> byte_digit (hd p) then None
         else
           (let (layer, rest) = scan_layer p 0 in
            if rest = [] \<or> hd rest \<noteq> 0x2E then None else Some layer)))"

record layer_slot =
  sl_seen :: bool
  sl_tile_id :: u32
  sl_conflict :: bool

record meta_scan =
  sc_slots :: "layer_slot list"
  sc_extra :: u32
  sc_conflict :: u32

text \<open>The body of the first pass on one record.\<close>

definition categorise :: "att1_model \<Rightarrow> att1_shard_meta_record \<Rightarrow> meta_scan \<Rightarrow> meta_scan option" where
  "categorise m r sc =
     (if ucast (md_tensor_count m) \<le> sr_tensor_id r then Some (sc\<lparr>sc_extra := sc_extra sc + 1\<rparr>)
      else do {
        t \<leftarrow> elem_at (md_tensors m) (unat (sr_tensor_id r));
        case parse_layer_id (cstr (mt_name t)) of
          None \<Rightarrow> Some (sc\<lparr>sc_extra := sc_extra sc + 1\<rparr>)
        | Some layer_id \<Rightarrow>
          (if mc_n_layers (md_config m) \<le> layer_id then Some (sc\<lparr>sc_extra := sc_extra sc + 1\<rparr>)
           else if sr_tile_id r = SHARD_TILE_UNASSIGNED then Some sc
           else
             (let slot = sc_slots sc ! unat layer_id in
              if \<not> sl_seen slot
              then Some (sc\<lparr>sc_slots := (sc_slots sc)[unat layer_id := slot\<lparr>sl_seen := True, sl_tile_id := sr_tile_id r\<rparr>]\<rparr>)
              else if sl_tile_id slot \<noteq> sr_tile_id r \<and> \<not> sl_conflict slot
              then Some (sc\<lparr>sc_slots := (sc_slots sc)[unat layer_id := slot\<lparr>sl_conflict := True\<rparr>],
                            sc_conflict := sc_conflict sc + 1\<rparr>)
              else Some sc))
      })"

fun categorise_all :: "att1_model \<Rightarrow> nat \<Rightarrow> nat \<Rightarrow> meta_scan \<Rightarrow> meta_scan option" where
  "categorise_all m 0 i sc = Some sc"
| "categorise_all m (Suc k) i sc = do {
     r \<leftarrow> elem_at (shm_records (md_shard_meta m)) i;
     sc' \<leftarrow> categorise m r sc;
     categorise_all m k (i + 1) sc'
   }"

text \<open>The second pass: the covered layers in order.\<close>

definition slot_entries :: "layer_slot list \<Rightarrow> att1_meta_plan_entry list" where
  "slot_entries slots =
     map (\<lambda>i. \<lparr>mpe_layer_id = word_of_nat i, mpe_tile_id = sl_tile_id (slots ! i)\<rparr>)
       (filter (\<lambda>i. sl_seen (slots ! i)) [0..<length slots])"

text \<open>\<open>alloc\<close> tells which of the two arrays can be allocated; an entry takes 8 bytes.\<close>

definition att1_meta_plan_build ::
  "bool \<times> bool \<Rightarrow> att1_model option \<Rightarrow> att1_meta_plan option \<Rightarrow> (att1_status \<times> att1_meta_plan option) option" where
  "att1_meta_plan_build alloc model out =
     (case (model, out) of
        (Some m, Some _) \<Rightarrow>
          (let meta = md_shard_meta m; n_layers = mc_n_layers (md_config m) in
           if shm_count meta = 0 \<or> n_layers = 0 then Some (ATT1_OK, Some zero_meta_plan)
           else if \<not> fst alloc then Some (ATT1_ERR_OOM, Some zero_meta_plan)
           else do {
             sc \<leftarrow> categorise_all m (unat (ucast (shm_count meta) :: u32)) 0
                     \<lparr>sc_slots = replicate (unat n_layers) \<lparr>sl_seen = False, sl_tile_id = 0, sl_conflict = False\<rparr>,
                      sc_extra = 0, sc_conflict = 0\<rparr>;
             let entry_count = (word_of_nat (length (filter sl_seen (sc_slots sc))) :: u32);
             if 0 < entry_count \<and> word_of_nat (SIZE_MAX div 8) < entry_count then Some (ATT1_ERR_OOM, Some zero_meta_plan)
             else if 0 < entry_count \<and> \<not> snd alloc then Some (ATT1_ERR_OOM, Some zero_meta_plan)
             else Some (ATT1_OK, Some \<lparr>mp_entries = (if 0 < entry_count then slot_entries (sc_slots sc) else []),
                          mp_count = entry_count, mp_extra = sc_extra sc, mp_conflict = sc_conflict sc\<rparr>)
           })
      | _ \<Rightarrow> Some (ATT1_ERR_INVALID_ARG, out))"

definition att1_meta_plan_free :: "att1_meta_plan option \<Rightarrow> att1_meta_plan option" where
  "att1_meta_plan_free = map_option (\<lambda>_. zero_meta_plan)"

section \<open>Comparison\<close>

text \<open>The linear search in the first \<open>count\<close> entries.\<close>

definition find_entry :: "att1_meta_plan \<Rightarrow> u32 \<Rightarrow> att1_meta_plan_entry option" where
  "find_entry proposed layer_id = find (\<lambda>e. mpe_layer_id e = layer_id) (take (unat (mp_count proposed)) (mp_entries proposed))"

definition compare_layer ::
  "att1_meta_plan \<Rightarrow> att1_shard_plan \<Rightarrow> u32 \<Rightarrow> att1_meta_plan_diff \<Rightarrow> att1_meta_plan_diff" where
  "compare_layer proposed runtime layer_id out =
     (case find_entry proposed layer_id of
        None \<Rightarrow> out\<lparr>mpd_missing := mpd_missing out + 1\<rparr>
      | Some entry \<Rightarrow>
        (let runtime_tile = the (snd (att1_shard_plan_layer_tile (Some runtime) layer_id (Some 0)))
         in if mpe_tile_id entry = runtime_tile then out\<lparr>mpd_matching := mpd_matching out + 1\<rparr>
            else out\<lparr>mpd_mismatch := mpd_mismatch out + 1\<rparr>))"

definition att1_meta_plan_compare ::
  "att1_meta_plan option \<Rightarrow> att1_shard_plan option \<Rightarrow> att1_meta_plan_diff option \<Rightarrow> att1_status \<times> att1_meta_plan_diff option" where
  "att1_meta_plan_compare proposed runtime out =
     (case (proposed, runtime, out) of
        (Some p, Some r, Some _) \<Rightarrow>
          (ATT1_OK, Some (fold (\<lambda>layer. compare_layer p r (word_of_nat layer)) [0..<sp_layer_count r mod 2 ^ 32]
             \<lparr>mpd_matching = 0, mpd_mismatch = 0, mpd_missing = 0, mpd_extra = mp_extra p, mpd_conflict = mp_conflict p\<rparr>))
      | _ \<Rightarrow> (ATT1_ERR_INVALID_ARG, out))"

end
