(* ===== verification/Shard_Plan_Props.thy ===== *)
theory Shard_Plan_Props
  imports Shard_Plan
begin

text \<open>
  The runtime plan is the balanced contiguous partition; every plan that is built is consistent;
  the proposed plan is what the metadata say.
\<close>

section \<open>Consistent plans\<close>

text \<open>
  The contract of a plan: the two arrays have their lengths, every layer has a tile, and the
  range of a tile is the set of the layers that have it.
\<close>

definition plan_wf :: "att1_shard_plan \<Rightarrow> bool" where
  "plan_wf p \<longleftrightarrow> (\<exists>tiles table. sp_tiles p = Some tiles \<and> sp_layer_to_tile p = Some table
     \<and> length tiles = sp_tile_count p \<and> length table = sp_layer_count p
     \<and> (\<forall>i < sp_tile_count p. unat (lsh_tile_id (tiles ! i)) = i)
     \<and> (\<forall>l < sp_layer_count p. unat (table ! l) < sp_tile_count p)
     \<and> (\<forall>i < sp_tile_count p. {l. l < sp_layer_count p \<and> unat (table ! l) = i}
          = {unat (lsh_layer_start (tiles ! i))..<unat (lsh_layer_end (tiles ! i))}))"

section \<open>The balanced partition\<close>

text \<open>The first layer of tile \<open>i\<close> when \<open>n\<close> layers go to \<open>k\<close> tiles as evenly as possible.\<close>

definition balanced_start :: "nat \<Rightarrow> nat \<Rightarrow> nat \<Rightarrow> nat" where
  "balanced_start n k i = i * (n div k) + min i (n mod k)"

lemma balanced_start_0 [simp]: "balanced_start n k 0 = 0"
  by (simp add: balanced_start_def)

lemma balanced_start_end: "0 < k \<Longrightarrow> balanced_start n k k = n"
  using mod_less_divisor [of k n] by (simp add: balanced_start_def min_absorb2 less_imp_le)

lemma balanced_step: "balanced_start n k (Suc i) = balanced_start n k i + n div k + (if i < n mod k then 1 else 0)"
  by (auto simp: balanced_start_def min_def)

lemma balanced_mono: "i \<le> j \<Longrightarrow> balanced_start n k i \<le> balanced_start n k j"
  by (rule lift_Suc_mono_le) (simp_all add: balanced_step)

lemma balanced_le: "0 < k \<Longrightarrow> i \<le> k \<Longrightarrow> balanced_start n k i \<le> n"
  using balanced_mono [of i k n k] balanced_start_end [of k n] by simp

text \<open>The rounded-up quotient of what is left is the size of the next tile.\<close>

lemma balanced_count:
  assumes "i < k"
  shows "(n - balanced_start n k i + (k - i) - 1) div (k - i) = n div k + (if i < n mod k then 1 else 0)"
proof -
  let ?q = "n div k" let ?s = "n mod k" let ?r = "k - i"
  have r: "0 < ?r" using assms by simp
  have s: "?s < k" using assms by simp
  have n: "n = k * ?q + ?s" by simp
  have "n - balanced_start n k i = ?r * ?q + (?s - min i ?s)"
  proof -
    have "k * ?q = i * ?q + ?r * ?q" using assms by (simp add: add_mult_distrib [symmetric])
    then show ?thesis using n by (simp add: balanced_start_def)
  qed
  moreover have "a + b + c - 1 = a + (b + c - 1)" if "0 < c" for a b c :: nat using that by simp
  ultimately have e: "n - balanced_start n k i + ?r - 1 = ?r * ?q + (?s - min i ?s + ?r - 1)" using r by presburger
  have tail: "(?s - min i ?s + ?r - 1) div ?r = (if i < ?s then 1 else 0)"
  proof (cases "i < ?s")
    case True
    then have x: "?s - min i ?s + ?r - 1 = (?s - i - 1) + ?r" and lt: "?s - i - 1 < ?r" using s by auto
    have "(?s - i - 1 + ?r) div ?r = (?s - i - 1) div ?r + 1" by (rule div_add_self2) (use r in simp)
    then show ?thesis unfolding x using True lt by (simp only: div_less) simp
  next
    case False
    then show ?thesis using r by simp
  qed
  have gen: "(a * b + x) div a = b + x div a" if "0 < a" for a b x :: nat using that by simp
  show ?thesis unfolding e gen [OF r] tail ..
qed

lemma build_tiles_balanced:
  assumes "0 < tc" "tc < 2 ^ 32" "k \<le> tc" "unat next = balanced_start (unat n) tc (tc - k)"
  shows "length (build_tiles n tc k next) = k \<and> (\<forall>j < k.
    unat (lsh_tile_id (build_tiles n tc k next ! j)) = tc - k + j
    \<and> unat (lsh_layer_start (build_tiles n tc k next ! j)) = balanced_start (unat n) tc (tc - k + j)
    \<and> unat (lsh_layer_end (build_tiles n tc k next ! j)) = balanced_start (unat n) tc (tc - k + j + 1))"
  using assms(3,4)
proof (induction k arbitrary: "next")
  case (Suc k)
  let ?i = "tc - Suc k" let ?B = "balanced_start (unat n) tc"
  have i: "?i < tc" "tc - ?i = Suc k" "tc - k = Suc ?i" using Suc.prems(1) by simp_all
  have le: "?B j \<le> unat n" if "j \<le> tc" for j using balanced_le [OF assms(1) that] .
  have sub: "unat (n - next) = unat n - ?B ?i"
    using le [of ?i] i Suc.prems(2) by (simp add: unat_sub word_le_nat_alt)
  define count :: u32 where "count = word_of_nat ((unat (n - next) + Suc k - 1) div Suc k)"
  have q: "(unat (n - next) + Suc k - 1) div Suc k = unat n div tc + (if ?i < unat n mod tc then 1 else 0)"
    using balanced_count [OF i(1), of "unat n"] unfolding i(2) sub .
  have step: "?B (Suc ?i) = ?B ?i + (unat (n - next) + Suc k - 1) div Suc k" unfolding q by (simp add: balanced_step)
  have small: "unat n < 2 ^ 32" using unsigned_less [of n] by simp
  have "(unat (n - next) + Suc k - 1) div Suc k < 2 ^ 32" using step le [of "Suc ?i"] i(1) small by simp
  then have c: "unat count = (unat (n - next) + Suc k - 1) div Suc k"
    unfolding count_def by (simp add: unsigned_of_nat take_bit_nat_eq_self)
  have nx: "unat (next + count) = ?B (Suc ?i)"
    using step le [of "Suc ?i"] i(1) small Suc.prems(2) c by (subst unat_add_no_wrap) simp_all
  have tid: "unat (word_of_nat ?i :: u32) = ?i" using i(1) assms(2) by (simp add: unsigned_of_nat take_bit_nat_eq_self)
  have b: "build_tiles n tc (Suc k) next
      = \<lparr>lsh_tile_id = word_of_nat ?i, lsh_layer_start = next, lsh_layer_end = next + count\<rparr> # build_tiles n tc k (next + count)"
    by (simp add: Let_def i(2) count_def del: add_Suc_right)
  let ?rest = "build_tiles n tc k (next + count)"
  have ih: "length ?rest = k" "\<And>j. j < k \<Longrightarrow> unat (lsh_tile_id (?rest ! j)) = Suc ?i + j
      \<and> unat (lsh_layer_start (?rest ! j)) = ?B (Suc ?i + j) \<and> unat (lsh_layer_end (?rest ! j)) = ?B (Suc ?i + j + 1)"
    using Suc.IH [of "next + count"] Suc.prems(1) nx unfolding i(3) by simp_all
  show ?case unfolding b
  proof (intro conjI allI impI)
    fix j assume "j < Suc k"
    then show "unat (lsh_tile_id ((\<lparr>lsh_tile_id = word_of_nat ?i, lsh_layer_start = next, lsh_layer_end = next + count\<rparr> # ?rest) ! j)) = ?i + j"
      "unat (lsh_layer_start ((\<lparr>lsh_tile_id = word_of_nat ?i, lsh_layer_start = next, lsh_layer_end = next + count\<rparr> # ?rest) ! j)) = ?B (?i + j)"
      "unat (lsh_layer_end ((\<lparr>lsh_tile_id = word_of_nat ?i, lsh_layer_start = next, lsh_layer_end = next + count\<rparr> # ?rest) ! j)) = ?B (?i + j + 1)"
      using ih(2) [of "j - 1"] tid nx Suc.prems(2) by (cases j; simp)+
  qed (simp add: ih(1))
qed simp

text \<open>Entering the ranges of the tiles in the table.\<close>

lemma assign_layers_spec:
  "\<forall>l \<in> set ls. l < unat n \<Longrightarrow> length table = unat n \<Longrightarrow> \<exists>table'. assign_layers n tile ls table = Some table'
    \<and> length table' = unat n \<and> (\<forall>l < unat n. table' ! l = (if l \<in> set ls then word_of_nat tile else table ! l))"
proof (induction ls arbitrary: table)
  case (Cons a ls)
  let ?t = "table[a := word_of_nat tile]"
  have len: "length ?t = unat n" and a: "a < unat n" "\<forall>l \<in> set ls. l < unat n" using Cons.prems by simp_all
  obtain t' where t: "assign_layers n tile ls ?t = Some t'" "length t' = unat n"
    "\<forall>l < unat n. t' ! l = (if l \<in> set ls then word_of_nat tile else ?t ! l)"
    using Cons.IH [OF a(2) len] by blast
  have "\<forall>l < unat n. t' ! l = (if l \<in> set (a # ls) then word_of_nat tile else table ! l)"
    using t(3) Cons.prems(2) by (auto simp: nth_list_update)
  then show ?case using t a(1) by simp
qed simp

lemma assign_tiles_spec:
  assumes "length table = unat n"
    "\<And>j. j < length ss \<Longrightarrow> unat (lsh_layer_start (ss ! j)) = B (tile + j) \<and> unat (lsh_layer_end (ss ! j)) = B (tile + j + 1)"
    "\<And>i j. i \<le> j \<Longrightarrow> B i \<le> B j" "B (tile + length ss) \<le> unat n"
  shows "\<exists>table'. assign_tiles n tile ss table = Some table' \<and> length table' = unat n
    \<and> (\<forall>l < unat n. (l < B tile \<longrightarrow> table' ! l = table ! l)
        \<and> (\<forall>j < length ss. B (tile + j) \<le> l \<and> l < B (tile + j + 1) \<longrightarrow> table' ! l = word_of_nat (tile + j)))"
  using assms(1,2,4)
proof (induction ss arbitrary: tile table)
  case (Cons s ss)
  have s: "unat (lsh_layer_start s) = B tile" "unat (lsh_layer_end s) = B (tile + 1)" using Cons.prems(2) [of 0] by simp_all
  have "B (tile + 1) \<le> B (tile + length (s # ss))" by (rule assms(3)) simp
  then obtain t1 where t1: "assign_layers n tile [B tile..<B (tile + 1)] table = Some t1" "length t1 = unat n"
    "\<forall>l < unat n. t1 ! l = (if l \<in> set [B tile..<B (tile + 1)] then word_of_nat tile else table ! l)"
    using assign_layers_spec [of "[B tile..<B (tile + 1)]" n table tile] Cons.prems by fastforce
  obtain t2 where t2: "assign_tiles n (tile + 1) ss t1 = Some t2" "length t2 = unat n"
    "\<forall>l < unat n. (l < B (tile + 1) \<longrightarrow> t2 ! l = t1 ! l)
        \<and> (\<forall>j < length ss. B (tile + 1 + j) \<le> l \<and> l < B (tile + 1 + j + 1) \<longrightarrow> t2 ! l = word_of_nat (tile + 1 + j))"
    using Cons.IH [of t1 "tile + 1"] Cons.prems(2) [of "Suc _"] Cons.prems(3) t1(2) by auto
  have mono: "B tile \<le> B (tile + 1)" by (rule assms(3)) simp
  have "\<forall>l < unat n. (l < B tile \<longrightarrow> t2 ! l = table ! l)
        \<and> (\<forall>j < length (s # ss). B (tile + j) \<le> l \<and> l < B (tile + j + 1) \<longrightarrow> t2 ! l = word_of_nat (tile + j))"
  proof (intro allI impI conjI)
    fix l assume l: "l < unat n" "l < B tile"
    then show "t2 ! l = table ! l" using t1(3) t2(3) mono by auto
  next
    fix l j assume l: "l < unat n" and j: "j < length (s # ss)" and r: "B (tile + j) \<le> l \<and> l < B (tile + j + 1)"
    show "t2 ! l = word_of_nat (tile + j)"
    proof (cases j)
      case 0
      then show ?thesis using l r t1(3) t2(3) by auto
    next
      case (Suc i)
      then show ?thesis using l r j t2(3) by auto
    qed
  qed
  then show ?case using t1 t2 s by auto
qed simp

lemma shard_plan_build_eq:
  assumes "0 < tc" "tc < 2 ^ 32" "mc_n_layers (md_config m) \<noteq> 0" "mc_shard_count (md_config m) = 0"
  shows "\<exists>p tiles table. att1_shard_plan_build True (Some p0) (Some m) tc = (ATT1_OK, Some p)
    \<and> p = \<lparr>sp_tile_count = tc, sp_layer_count = unat (mc_n_layers (md_config m)), sp_tiles = Some tiles, sp_layer_to_tile = Some table\<rparr>
    \<and> length tiles = tc \<and> length table = unat (mc_n_layers (md_config m))
    \<and> (\<forall>i < tc. unat (lsh_tile_id (tiles ! i)) = i
        \<and> unat (lsh_layer_start (tiles ! i)) = balanced_start (unat (mc_n_layers (md_config m))) tc i
        \<and> unat (lsh_layer_end (tiles ! i)) = balanced_start (unat (mc_n_layers (md_config m))) tc (i + 1))
    \<and> (\<forall>i < tc. \<forall>l. balanced_start (unat (mc_n_layers (md_config m))) tc i \<le> l
        \<and> l < balanced_start (unat (mc_n_layers (md_config m))) tc (i + 1) \<longrightarrow> unat (table ! l) = i)"
proof -
  let ?n = "mc_n_layers (md_config m)" let ?B = "balanced_start (unat ?n) tc"
  let ?tiles = "build_tiles ?n tc tc 0"
  have t: "length ?tiles = tc" "\<And>j. j < tc \<Longrightarrow> unat (lsh_tile_id (?tiles ! j)) = j
      \<and> unat (lsh_layer_start (?tiles ! j)) = ?B j \<and> unat (lsh_layer_end (?tiles ! j)) = ?B (j + 1)"
    using build_tiles_balanced [OF assms(1,2) order_refl, of 0 ?n] by simp_all
  have "\<exists>table. assign_tiles ?n 0 ?tiles (replicate (unat ?n) 0) = Some table \<and> length table = unat ?n
    \<and> (\<forall>l < unat ?n. (l < ?B 0 \<longrightarrow> table ! l = replicate (unat ?n) 0 ! l)
        \<and> (\<forall>j < length ?tiles. ?B (0 + j) \<le> l \<and> l < ?B (0 + j + 1) \<longrightarrow> table ! l = word_of_nat (0 + j)))"
    by (rule assign_tiles_spec) (use t balanced_mono balanced_start_end [OF assms(1)] in \<open>auto\<close>)
  then obtain table where a: "assign_tiles ?n 0 ?tiles (replicate (unat ?n) 0) = Some table" "length table = unat ?n"
    "\<forall>l < unat ?n. \<forall>j < tc. ?B j \<le> l \<and> l < ?B (j + 1) \<longrightarrow> table ! l = word_of_nat j"
    using t(1) by auto
  have "unat (table ! l) = i" if "i < tc" "?B i \<le> l" "l < ?B (i + 1)" for i l
  proof -
    have "l < unat ?n" using that balanced_le [OF assms(1), of "i + 1" "unat ?n"] by simp
    then have "table ! l = word_of_nat i" using a(3) that by blast
    then show ?thesis using that(1) assms(2) by (simp add: unsigned_of_nat take_bit_nat_eq_self)
  qed
  moreover have "att1_shard_plan_build True (Some p0) (Some m) tc = (ATT1_OK, Some \<lparr>sp_tile_count = tc,
      sp_layer_count = unat ?n, sp_tiles = Some ?tiles, sp_layer_to_tile = Some table\<rparr>)"
    using assms a(1) by (simp add: att1_shard_plan_build_def Let_def)
  ultimately show ?thesis using t a(2) by blast
qed

lemma balanced_tile: "l < n \<Longrightarrow> 0 < k \<Longrightarrow> \<exists>i < k. balanced_start n k i \<le> l \<and> l < balanced_start n k (i + 1)"
proof -
  assume l: "l < n" and k: "0 < k"
  let ?P = "\<lambda>i. l < balanced_start n k i"
  have P: "?P k" using l balanced_start_end [OF k] by simp
  define j where "j = (LEAST i. ?P i)"
  have "?P j" unfolding j_def using P by (rule LeastI)
  moreover have "j \<le> k" unfolding j_def using P by (rule Least_le)
  moreover have "j \<noteq> 0" using \<open>?P j\<close> by (metis balanced_start_0 not_less_zero)
  moreover have "\<not> ?P (j - 1)" unfolding j_def by (rule not_less_Least) (use \<open>j \<noteq> 0\<close> in \<open>simp add: j_def\<close>)
  ultimately show ?thesis by (intro exI [of _ "j - 1"]) auto
qed

text \<open>
  C24. The runtime plan: for a model without shard metadata of its own and at most \<open>2 ^ 32 - 1\<close>
  tiles the layers are cut into one contiguous run per tile, in the order of the tiles, whose lengths
  differ by at most one, the longer ones first; the table agrees with the runs.
\<close>

theorem shard_plan_balanced:
  assumes "0 < tc" "tc < 2 ^ 32" "mc_n_layers (md_config m) \<noteq> 0" "mc_shard_count (md_config m) = 0"
  shows "\<exists>p tiles. att1_shard_plan_build True (Some p0) (Some m) tc = (ATT1_OK, Some p) \<and> plan_wf p
    \<and> sp_tile_count p = tc \<and> sp_layer_count p = unat (mc_n_layers (md_config m)) \<and> sp_tiles p = Some tiles
    \<and> (\<forall>i < tc. unat (lsh_layer_start (tiles ! i)) = balanced_start (sp_layer_count p) tc i
             \<and> unat (lsh_layer_end (tiles ! i)) = balanced_start (sp_layer_count p) tc i + sp_layer_count p div tc
                   + (if i < sp_layer_count p mod tc then 1 else 0))"
proof -
  let ?n = "mc_n_layers (md_config m)" let ?B = "balanced_start (unat ?n) tc"
  obtain tiles table where p: "att1_shard_plan_build True (Some p0) (Some m) tc = (ATT1_OK, Some \<lparr>sp_tile_count = tc,
      sp_layer_count = unat ?n, sp_tiles = Some tiles, sp_layer_to_tile = Some table\<rparr>)"
    and len: "length tiles = tc" "length table = unat ?n"
    and t: "\<forall>i < tc. unat (lsh_tile_id (tiles ! i)) = i \<and> unat (lsh_layer_start (tiles ! i)) = ?B i
        \<and> unat (lsh_layer_end (tiles ! i)) = ?B (i + 1)"
    and tab: "\<forall>i < tc. \<forall>l. ?B i \<le> l \<and> l < ?B (i + 1) \<longrightarrow> unat (table ! l) = i"
    using shard_plan_build_eq [OF assms, of p0] by blast
  have tile: "\<exists>i < tc. ?B i \<le> l \<and> l < ?B (i + 1) \<and> unat (table ! l) = i" if "l < unat ?n" for l
    using balanced_tile [OF that assms(1)] tab by blast
  have "{l. l < unat ?n \<and> unat (table ! l) = i} = {?B i..<?B (i + 1)}" if "i < tc" for i
  proof (intro set_eqI iffI)
    fix l assume "l \<in> {l. l < unat ?n \<and> unat (table ! l) = i}"
    then show "l \<in> {?B i..<?B (i + 1)}" using tile [of l] by auto
  next
    fix l assume l: "l \<in> {?B i..<?B (i + 1)}"
    then have "l < unat ?n" using balanced_le [OF assms(1), of "i + 1" "unat ?n"] that by simp
    then show "l \<in> {l. l < unat ?n \<and> unat (table ! l) = i}" using tab that l by auto
  qed
  then have "plan_wf \<lparr>sp_tile_count = tc, sp_layer_count = unat ?n, sp_tiles = Some tiles, sp_layer_to_tile = Some table\<rparr>"
    using len t tile by (auto simp: plan_wf_def)
  then show ?thesis using p t by (simp add: balanced_step)
qed

definition demo_layers :: att1_model where
  "demo_layers = zero_model\<lparr>md_config := zero_config\<lparr>mc_n_layers := 7\<rparr>\<rparr>"

theorem shard_plan_balanced_witness:
  "\<exists>p tiles. att1_shard_plan_build True (Some zero_plan) (Some demo_layers) 3 = (ATT1_OK, Some p) \<and> plan_wf p
    \<and> sp_tiles p = Some tiles \<and> map (\<lambda>i. (unat (lsh_layer_start (tiles ! i)), unat (lsh_layer_end (tiles ! i)))) [0, 1, 2]
        = [(0, 3), (3, 5), (5, 7)]"
proof -
  have "mc_n_layers (md_config demo_layers) = 7" "mc_shard_count (md_config demo_layers) = 0"
    by (simp_all add: demo_layers_def zero_config_def)
  with shard_plan_balanced [of 3 demo_layers zero_plan] show ?thesis
    by (auto simp: balanced_start_def)
qed

section \<open>A plan from a proposed plan\<close>

abbreviation entry_tile :: "att1_meta_plan \<Rightarrow> nat \<Rightarrow> nat" where
  "entry_tile p j \<equiv> unat (mpe_tile_id (mp_entries p ! j))"

text \<open>Every tile has its layers in one run.\<close>

definition one_run :: "(nat \<Rightarrow> nat) \<Rightarrow> nat \<Rightarrow> bool" where
  "one_run T n \<longleftrightarrow> (\<forall>a b c. a < b \<and> b < c \<and> c < n \<and> T a = T c \<longrightarrow> T b = T a)"

text \<open>The arrays after the first \<open>i\<close> entries.\<close>

definition fill_inv :: "att1_meta_plan \<Rightarrow> u32 \<Rightarrow> nat \<Rightarrow> nat \<Rightarrow> att1_layer_shard list \<Rightarrow> u32 list \<Rightarrow> bool" where
  "fill_inv p n tc i tiles table \<longleftrightarrow> length tiles = tc \<and> length table = unat n
     \<and> (\<forall>j < i. entry_tile p j < tc \<and> table ! j = mpe_tile_id (mp_entries p ! j))
     \<and> (\<forall>t < tc. unat (lsh_tile_id (tiles ! t)) = t
          \<and> (if \<exists>j < i. entry_tile p j = t
             then {j. j < i \<and> entry_tile p j = t} = {unat (lsh_layer_start (tiles ! t))..<unat (lsh_layer_end (tiles ! t))}
             else lsh_layer_start (tiles ! t) = n))"

lemma fill_inv_one_run: "fill_inv p n tc i tiles table \<Longrightarrow> one_run (entry_tile p) i"
  unfolding one_run_def
proof (intro allI impI)
  fix a b c assume inv: "fill_inv p n tc i tiles table" and h: "a < b \<and> b < c \<and> c < i \<and> entry_tile p a = entry_tile p c"
  define t where "t = entry_tile p c"
  have "t < tc" using inv h by (auto simp: fill_inv_def t_def)
  moreover have "\<exists>j < i. entry_tile p j = t" using h t_def by blast
  ultimately have "{j. j < i \<and> entry_tile p j = t} = {unat (lsh_layer_start (tiles ! t))..<unat (lsh_layer_end (tiles ! t))}"
    using inv by (simp add: fill_inv_def)
  moreover have "a \<in> {j. j < i \<and> entry_tile p j = t}" "c \<in> {j. j < i \<and> entry_tile p j = t}" using h by (auto simp: t_def)
  ultimately have "b \<in> {j. j < i \<and> entry_tile p j = t}" using h by auto
  then show "entry_tile p b = entry_tile p a" using h by (simp add: t_def)
qed

lemma fill_inv_empty_iff:
  assumes "fill_inv p n tc i tiles table" "t < tc" "i \<le> unat n"
  shows "lsh_layer_start (tiles ! t) = n \<longleftrightarrow> \<not> (\<exists>j < i. entry_tile p j = t)"
proof
  assume n: "lsh_layer_start (tiles ! t) = n"
  show "\<not> (\<exists>j < i. entry_tile p j = t)"
  proof
    assume ex: "\<exists>j < i. entry_tile p j = t"
    then have "{j. j < i \<and> entry_tile p j = t} = {unat n..<unat (lsh_layer_end (tiles ! t))}"
      using assms(1,2) n by (auto simp: fill_inv_def)
    with ex assms(3) show False by force
  qed
qed (use assms(1,2) in \<open>auto simp: fill_inv_def\<close>)

lemma fill_inv_step:
  assumes "fill_inv p n tc i tiles table" "i < unat n" "entry_tile p i < tc" "unat w = i"
    and sh: "sh = tiles ! entry_tile p i"
    and ok: "lsh_layer_start sh = n \<or> lsh_layer_end sh = w"
  shows "fill_inv p n tc (i + 1)
    (tiles[entry_tile p i := (if lsh_layer_start sh = n then sh\<lparr>lsh_layer_start := w, lsh_layer_end := w + 1\<rparr>
                              else sh\<lparr>lsh_layer_end := w + 1\<rparr>)])
    (table[i := mpe_tile_id (mp_entries p ! i)])" (is "fill_inv p n tc (i + 1) ?tiles ?table")
proof -
  let ?t = "entry_tile p i"
  have w1: "unat (w + 1) = i + 1"
    using assms(2,4) u32_lt [of n] by (subst unat_plus_one) simp_all
  have len: "length tiles = tc" "length table = unat n" using assms(1) by (simp_all add: fill_inv_def)
  have other: "?tiles ! t = tiles ! t \<and> {j. j < i + 1 \<and> entry_tile p j = t} = {j. j < i \<and> entry_tile p j = t}"
    if "t \<noteq> ?t" for t using that by (auto simp: less_Suc_eq)
  have tid: "unat (lsh_tile_id sh) = ?t" using assms(1,3) unfolding sh fill_inv_def by blast
  have nw: "?tiles ! ?t = (if lsh_layer_start sh = n then sh\<lparr>lsh_layer_start := w, lsh_layer_end := w + 1\<rparr>
      else sh\<lparr>lsh_layer_end := w + 1\<rparr>)" using assms(3) len by (simp only: nth_list_update_eq)
  have same: "unat (lsh_tile_id (?tiles ! ?t)) = ?t
      \<and> {j. j < i + 1 \<and> entry_tile p j = ?t} = {unat (lsh_layer_start (?tiles ! ?t))..<unat (lsh_layer_end (?tiles ! ?t))}"
  proof (cases "lsh_layer_start sh = n")
    case True
    then have "\<not> (\<exists>j < i. entry_tile p j = ?t)"
      using fill_inv_empty_iff [OF assms(1,3)] assms(2) sh by simp
    then have run: "{j. j < i + 1 \<and> entry_tile p j = ?t} = {i..<i + 1}" by (auto simp: less_Suc_eq)
    have "unat (lsh_tile_id (?tiles ! ?t)) = ?t" "unat (lsh_layer_start (?tiles ! ?t)) = i" "unat (lsh_layer_end (?tiles ! ?t)) = i + 1"
      unfolding nw using True tid assms(4) w1 by simp_all
    then show ?thesis using run by (simp only: simp_thms)
  next
    case False
    then have ex: "\<exists>j < i. entry_tile p j = ?t" using fill_inv_empty_iff [OF assms(1,3)] assms(2) sh by simp
    have cur: "if \<exists>j < i. entry_tile p j = ?t
        then {j. j < i \<and> entry_tile p j = ?t} = {unat (lsh_layer_start sh)..<unat (lsh_layer_end sh)}
        else lsh_layer_start sh = n" using assms(1,3) unfolding sh fill_inv_def by blast
    have e: "unat (lsh_layer_end sh) = i" using ok False assms(4) by simp
    have run: "{j. j < i \<and> entry_tile p j = ?t} = {unat (lsh_layer_start sh)..<i}"
      using iffD1 [OF if_P [OF ex] cur] unfolding e .
    obtain j where "j \<in> {j. j < i \<and> entry_tile p j = ?t}" using ex by blast
    then have lt: "unat (lsh_layer_start sh) < i" unfolding run by simp
    have "{j. j < i + 1 \<and> entry_tile p j = ?t} = insert i {j. j < i \<and> entry_tile p j = ?t}" by (auto simp: less_Suc_eq)
    also have "\<dots> = {unat (lsh_layer_start sh)..<i + 1}" unfolding run using lt by auto
    finally have "{j. j < i + 1 \<and> entry_tile p j = ?t} = {unat (lsh_layer_start sh)..<i + 1}" .
    moreover have "unat (lsh_tile_id (?tiles ! ?t)) = ?t" "lsh_layer_start (?tiles ! ?t) = lsh_layer_start sh"
      "unat (lsh_layer_end (?tiles ! ?t)) = i + 1"
      unfolding nw using False tid w1 by simp_all
    ultimately show ?thesis by (simp only: simp_thms)
  qed
  have tab: "\<forall>j < i + 1. entry_tile p j < tc \<and> ?table ! j = mpe_tile_id (mp_entries p ! j)"
    using assms(1,2,3) len by (auto simp: fill_inv_def nth_list_update less_Suc_eq)
  have "unat (lsh_tile_id (?tiles ! t)) = t \<and> (if \<exists>j < i + 1. entry_tile p j = t
      then {j. j < i + 1 \<and> entry_tile p j = t} = {unat (lsh_layer_start (?tiles ! t))..<unat (lsh_layer_end (?tiles ! t))}
      else lsh_layer_start (?tiles ! t) = n)" if t: "t < tc" for t
  proof (cases "t = ?t")
    case True
    moreover have "\<exists>j < i + 1. entry_tile p j = ?t" by (rule exI [of _ i]) simp
    ultimately show ?thesis using same by simp
  next
    case False
    have ex: "(\<exists>j < i + 1. entry_tile p j = t) \<longleftrightarrow> (\<exists>j < i. entry_tile p j = t)" using False by (auto simp: less_Suc_eq)
    show ?thesis unfolding ex other [OF False, THEN conjunct1] other [OF False, THEN conjunct2]
      using assms(1) t unfolding fill_inv_def by blast
  qed
  then show ?thesis unfolding fill_inv_def using tab len by (intro conjI) (simp_all only: length_list_update, blast)
qed

lemma one_run_blocked:
  assumes "fill_inv p n tc i tiles table" "i < unat n" "entry_tile p i < tc" "unat w = i"
    and "lsh_layer_start (tiles ! entry_tile p i) \<noteq> n" "lsh_layer_end (tiles ! entry_tile p i) \<noteq> w"
  shows "\<not> one_run (entry_tile p) (unat n)"
proof -
  let ?t = "entry_tile p i" let ?s = "tiles ! ?t"
  have ex: "\<exists>j < i. entry_tile p j = ?t" using fill_inv_empty_iff [OF assms(1,3)] assms(2,5) by simp
  have cur: "if \<exists>j < i. entry_tile p j = ?t
      then {j. j < i \<and> entry_tile p j = ?t} = {unat (lsh_layer_start ?s)..<unat (lsh_layer_end ?s)}
      else lsh_layer_start ?s = n" using assms(1,3) unfolding fill_inv_def by blast
  note run = iffD1 [OF if_P [OF ex] cur]
  define b where "b = unat (lsh_layer_end ?s)"
  obtain j where j: "j \<in> {j. j < i \<and> entry_tile p j = ?t}" using ex by blast
  then have "j < b" unfolding run b_def by simp
  moreover have "b \<le> i"
  proof (rule ccontr)
    assume "\<not> b \<le> i"
    moreover have "unat (lsh_layer_start ?s) \<le> j" using j unfolding run by simp
    ultimately have "i \<in> {unat (lsh_layer_start ?s)..<unat (lsh_layer_end ?s)}" using j by (auto simp: b_def)
    then show False unfolding run [symmetric] by simp
  qed
  moreover have "b \<noteq> i" using assms(4,6) by (auto simp: b_def word_unat_eq_iff)
  moreover have "b \<notin> {j. j < i \<and> entry_tile p j = ?t}" unfolding run b_def by simp
  ultimately have "j < b \<and> b < i \<and> i < unat n \<and> entry_tile p j = entry_tile p i" "entry_tile p b \<noteq> entry_tile p j"
    using j assms(2) by auto
  then show ?thesis unfolding one_run_def by blast
qed

text \<open>The entries from \<open>i\<close> on name their layers in order and tiles that exist.\<close>

definition entries_ok :: "att1_meta_plan \<Rightarrow> nat \<Rightarrow> nat \<Rightarrow> nat \<Rightarrow> bool" where
  "entries_ok p tc i n \<longleftrightarrow> (\<forall>j. i \<le> j \<and> j < n \<longrightarrow> mpe_layer_id (mp_entries p ! j) = word_of_nat j \<and> entry_tile p j < tc)"

lemma entries_ok_Suc:
  "i < n \<Longrightarrow> entries_ok p tc i n \<longleftrightarrow> mpe_layer_id (mp_entries p ! i) = word_of_nat i \<and> entry_tile p i < tc \<and> entries_ok p tc (i + 1) n"
proof -
  assume i: "i < n"
  have split: "i \<le> j \<longleftrightarrow> j = i \<or> i + 1 \<le> j" for j by auto
  show ?thesis unfolding entries_ok_def split using i by blast
qed

lemma fill_from_meta_spec:
  assumes "i + k = unat n" "unat n \<le> length (mp_entries p)" "fill_inv p n tc i tiles table"
  shows "\<exists>res. fill_from_meta p n tc k i tiles table = Some res
    \<and> (res \<noteq> None \<longleftrightarrow> entries_ok p tc i (unat n) \<and> one_run (entry_tile p) (unat n))
    \<and> (\<forall>tiles' table'. res = Some (tiles', table') \<longrightarrow> fill_inv p n tc (unat n) tiles' table')"
  using assms(1,3)
proof (induction k arbitrary: i tiles table)
  case 0
  then show ?case using fill_inv_one_run [of p n tc i tiles table] by (auto simp: entries_ok_def)
next
  case (Suc k)
  define e where "e = mp_entries p ! i"
  have i: "i < unat n" using Suc.prems(1) by simp
  have el: "elem_at (mp_entries p) i = Some e" using i assms(2) by (simp add: elem_at_def e_def)
  have w: "unat (word_of_nat i :: u32) = i"
    using i u32_lt [of n] by (simp add: unsigned_of_nat take_bit_nat_eq_self)
  note ok_Suc = entries_ok_Suc [OF i, of p tc]
  show ?case
  proof (cases "mpe_layer_id e = word_of_nat i \<and> unat (mpe_tile_id e) < tc")
    case False
    then have "fill_from_meta p n tc (Suc k) i tiles table = Some None" by (auto simp: el Let_def)
    then show ?thesis using False ok_Suc by (auto simp: e_def)
  next
    case True
    let ?sh = "tiles ! entry_tile p i"
    have t: "entry_tile p i < tc" using True by (simp add: e_def)
    show ?thesis
    proof (cases "lsh_layer_start ?sh = n \<or> lsh_layer_end ?sh = word_of_nat i")
      case False
      then have "fill_from_meta p n tc (Suc k) i tiles table = Some None" using True by (auto simp: el Let_def e_def)
      moreover have "\<not> one_run (entry_tile p) (unat n)"
        by (rule one_run_blocked [OF Suc.prems(2) i t w]) (use False in simp_all)
      ultimately show ?thesis by simp
    next
      case run: True
      let ?tiles = "tiles[entry_tile p i := (if lsh_layer_start ?sh = n
          then ?sh\<lparr>lsh_layer_start := word_of_nat i, lsh_layer_end := word_of_nat i + 1\<rparr> else ?sh\<lparr>lsh_layer_end := word_of_nat i + 1\<rparr>)]"
      let ?table = "table[i := mpe_tile_id e]"
      have "fill_from_meta p n tc (Suc k) i tiles table = fill_from_meta p n tc k (i + 1) ?tiles ?table"
        using True run w by (cases "lsh_layer_start ?sh = n") (simp_all add: el Let_def e_def [symmetric])
      moreover have "fill_inv p n tc (i + 1) ?tiles ?table"
        unfolding e_def by (rule fill_inv_step [OF Suc.prems(2) i t w refl run])
      ultimately show ?thesis using Suc.IH [of "i + 1" ?tiles ?table] Suc.prems(1) ok_Suc True by (simp add: e_def)
    qed
  qed
qed

lemma prepare_inv:
  "tc < 2 ^ 32 \<Longrightarrow> fill_inv p n tc 0 (prepare_tiles n tc) (replicate (unat n) 0)"
  by (simp add: fill_inv_def prepare_tiles_def unsigned_of_nat take_bit_nat_eq_self)

lemma fix_inv:
  assumes "fill_inv p n tc (unat n) tiles table" "tc < 2 ^ 32" "0 < unat n"
  shows "plan_wf \<lparr>sp_tile_count = tc, sp_layer_count = unat n, sp_tiles = Some (fix_empty_tiles n tc tiles), sp_layer_to_tile = Some table\<rparr>"
proof -
  have len: "length tiles = tc" "length table = unat n" using assms(1) by (simp_all add: fill_inv_def)
  have tab: "\<forall>l < unat n. unat (table ! l) < tc \<and> table ! l = mpe_tile_id (mp_entries p ! l)"
    using assms(1) by (auto simp: fill_inv_def)
  have fx: "fix_empty_tiles n tc tiles ! t = (if lsh_layer_start (tiles ! t) = n
      then (tiles ! t)\<lparr>lsh_layer_start := 0, lsh_layer_end := 0\<rparr> else tiles ! t)" if "t < tc" for t
    using that len assms(2) by (simp add: fix_empty_tiles_def Let_def)
  have tid: "unat (lsh_tile_id (fix_empty_tiles n tc tiles ! t)) = t" if "t < tc" for t
    using assms(1) that fx [OF that] by (simp add: fill_inv_def)
  have "{l. l < unat n \<and> unat (table ! l) = t}
      = {unat (lsh_layer_start (fix_empty_tiles n tc tiles ! t))..<unat (lsh_layer_end (fix_empty_tiles n tc tiles ! t))}"
    if t: "t < tc" for t
  proof -
    have eq: "{l. l < unat n \<and> unat (table ! l) = t} = {l. l < unat n \<and> entry_tile p l = t}" using tab by auto
    show ?thesis
    proof (cases "lsh_layer_start (tiles ! t) = n")
      case True
      then have "\<not> (\<exists>j < unat n. entry_tile p j = t)" using fill_inv_empty_iff [OF assms(1) t] by simp
      then show ?thesis unfolding eq using fx [OF t] True by auto
    next
      case False
      then have ex: "\<exists>j < unat n. entry_tile p j = t" using fill_inv_empty_iff [OF assms(1) t] by simp
      have cur: "if \<exists>j < unat n. entry_tile p j = t
          then {j. j < unat n \<and> entry_tile p j = t} = {unat (lsh_layer_start (tiles ! t))..<unat (lsh_layer_end (tiles ! t))}
          else lsh_layer_start (tiles ! t) = n" using assms(1) t unfolding fill_inv_def by blast
      show ?thesis unfolding eq fx [OF t] using iffD1 [OF if_P [OF ex] cur] False by (simp only: if_False)
    qed
  qed
  moreover have "length (fix_empty_tiles n tc tiles) = tc" using len by (simp add: fix_empty_tiles_def)
  moreover have "\<forall>l < unat n. unat (table ! l) < tc" using tab by blast
  ultimately show ?thesis using len tid unfolding plan_wf_def by simp
qed

lemma shard_plan_built:
  assumes "n \<noteq> 0" "0 < tc" "tc < 2 ^ 32" "unat (mp_count p) \<le> length (mp_entries p)"
  shows "\<exists>st out. att1_shard_plan_from_meta True (Some p) n tc (Some p0) = Some (st, Some out)
    \<and> (st = ATT1_OK \<longleftrightarrow> mp_count p = n \<and> mp_conflict p = 0 \<and> entries_ok p tc 0 (unat n) \<and> one_run (entry_tile p) (unat n))
    \<and> (st = ATT1_OK \<longrightarrow> plan_wf out \<and> sp_tile_count out = tc \<and> sp_layer_count out = unat n
         \<and> (\<forall>l < unat n. the (sp_layer_to_tile out) ! l = mpe_tile_id (mp_entries p ! l)))
    \<and> (st \<noteq> ATT1_OK \<longrightarrow> st = ATT1_ERR_INVALID_ARG)"
proof (cases "mp_count p = n \<and> mp_conflict p = 0")
  case False
  then have "att1_shard_plan_from_meta True (Some p) n tc (Some p0) = Some (ATT1_ERR_INVALID_ARG, Some p0)"
    using assms by (auto simp: att1_shard_plan_from_meta_def word_neq_0_conv)
  then show ?thesis using False by auto
next
  case True
  have small: "\<not> word_of_nat (SIZE_MAX div 4) < n"
  proof -
    have "SIZE_MAX div 4 = 2 ^ 62 - 1" by (simp add: SIZE_MAX_def)
    then have "(word_of_nat (SIZE_MAX div 4) :: u32) = -1" by (simp add: of_nat_diff)
    then show ?thesis by (simp add: not_less)
  qed
  obtain res where r: "fill_from_meta p n tc (unat n) 0 (prepare_tiles n tc) (replicate (unat n) 0) = Some res"
    and iff: "res \<noteq> None \<longleftrightarrow> entries_ok p tc 0 (unat n) \<and> one_run (entry_tile p) (unat n)"
    and inv: "\<And>tiles table. res = Some (tiles, table) \<Longrightarrow> fill_inv p n tc (unat n) tiles table"
    using fill_from_meta_spec [of 0 "unat n" n p tc, OF _ _ prepare_inv [OF assms(3)]] True assms(4) by auto
  have val: "att1_shard_plan_from_meta True (Some p) n tc (Some p0) = (case res of
      None \<Rightarrow> Some (ATT1_ERR_INVALID_ARG, Some zero_plan)
    | Some (tiles, table) \<Rightarrow> Some (ATT1_OK, Some \<lparr>sp_tile_count = tc, sp_layer_count = unat n,
        sp_tiles = Some (fix_empty_tiles n tc tiles), sp_layer_to_tile = Some table\<rparr>))"
    using assms True small r by (simp add: att1_shard_plan_from_meta_def)
  show ?thesis
  proof (cases res)
    case None
    then show ?thesis using val iff by simp
  next
    case (Some a)
    obtain tiles table where a: "a = (tiles, table)" by fastforce
    note fi = inv [OF Some [unfolded a]]
    have "plan_wf \<lparr>sp_tile_count = tc, sp_layer_count = unat n, sp_tiles = Some (fix_empty_tiles n tc tiles), sp_layer_to_tile = Some table\<rparr>"
      using fix_inv [OF fi assms(3)] assms(1) by (simp add: unat_gt_0)
    moreover have "\<forall>l < unat n. table ! l = mpe_tile_id (mp_entries p ! l)" using fi by (simp add: fill_inv_def)
    ultimately show ?thesis using val Some a iff True by simp
  qed
qed

text \<open>
  C21. A plan is built from a proposed one exactly when the proposal covers every layer without a
  conflict, in order, with tiles that exist, and every tile has its layers in one run; the plan is
  then consistent and gives every layer the proposed tile. Every other proposal is refused.
\<close>

theorem shard_plan_from_meta_iff:
  assumes "n \<noteq> 0" "0 < tc" "tc < 2 ^ 32" "unat (mp_count p) \<le> length (mp_entries p)"
  shows "\<exists>st out. att1_shard_plan_from_meta True (Some p) n tc (Some p0) = Some (st, Some out)
    \<and> (st = ATT1_OK \<longleftrightarrow> mp_count p = n \<and> mp_conflict p = 0 \<and> entries_ok p tc 0 (unat n) \<and> one_run (entry_tile p) (unat n))
    \<and> (st = ATT1_OK \<longrightarrow> plan_wf out \<and> sp_tile_count out = tc \<and> sp_layer_count out = unat n
         \<and> (\<forall>l < unat n. the (sp_layer_to_tile out) ! l = mpe_tile_id (mp_entries p ! l)))
    \<and> (st \<noteq> ATT1_OK \<longrightarrow> st = ATT1_ERR_INVALID_ARG)"
  by (rule shard_plan_built [OF assms])

definition demo_proposal :: "u32 list \<Rightarrow> att1_meta_plan" where
  "demo_proposal ts = \<lparr>mp_entries = map (\<lambda>i. \<lparr>mpe_layer_id = word_of_nat i, mpe_tile_id = ts ! i\<rparr>) [0..<length ts],
     mp_count = word_of_nat (length ts), mp_extra = 0, mp_conflict = 0\<rparr>"

text \<open>Tile 1 takes layers 0 and 1; a proposal that returns to tile 1 afterwards is refused.\<close>

theorem shard_plan_from_meta_iff_witness:
  "(\<exists>out. att1_shard_plan_from_meta True (Some (demo_proposal [1, 1, 0])) 3 2 (Some zero_plan) = Some (ATT1_OK, Some out) \<and> plan_wf out)
   \<and> (\<exists>out. att1_shard_plan_from_meta True (Some (demo_proposal [1, 0, 1])) 3 2 (Some zero_plan) = Some (ATT1_ERR_INVALID_ARG, Some out))"
proof -
  have three: "one_run T 3 \<longleftrightarrow> (T 0 = T 2 \<longrightarrow> T 1 = T 0)" for T
  proof -
    have "a < b \<and> b < c \<and> c < 3 \<longleftrightarrow> a = 0 \<and> b = 1 \<and> c = 2" for a b c :: nat by auto
    then show ?thesis unfolding one_run_def by (metis (no_types, lifting))
  qed
  have [simp]: "i < 3 \<longleftrightarrow> i = 0 \<or> i = 1 \<or> i = 2" for i :: nat by auto
  have u: "[0..<3] = [0, 1, 2 :: nat]" by (simp add: upt_rec)
  have good: "entries_ok (demo_proposal [1, 1, 0]) 2 0 3" by (auto simp: entries_ok_def demo_proposal_def u)
  have "one_run (entry_tile (demo_proposal [1, 1, 0])) 3" by (simp add: three demo_proposal_def u)
  note g = shard_plan_from_meta_iff [of 3 2 "demo_proposal [1, 1, 0]" zero_plan] good this
  have "\<not> one_run (entry_tile (demo_proposal [1, 0, 1])) 3" by (simp add: three demo_proposal_def u)
  note b = shard_plan_from_meta_iff [of 3 2 "demo_proposal [1, 0, 1]" zero_plan] this
  show ?thesis using g b by (auto simp: demo_proposal_def)
qed

end
