(* ===== verification/Shard_Meta_Plan_Props.thy ===== *)
theory Shard_Meta_Plan_Props
  imports Shard_Plan_Props Tok_Ext_Props
begin

text \<open>
  The proposed plan is what the shard metadata say: the layers some record places, in order, each
  with the tile of its first record; and how it compares with a runtime plan.
\<close>

section \<open>What the metadata say\<close>

text \<open>The layer a record is about.\<close>

definition record_layer :: "att1_model \<Rightarrow> att1_shard_meta_record \<Rightarrow> nat option" where
  "record_layer m r =
     (if length (md_tensors m) \<le> unat (sr_tensor_id r) then None
      else case parse_layer_id (cstr (mt_name (md_tensors m ! unat (sr_tensor_id r)))) of
             None \<Rightarrow> None
           | Some l \<Rightarrow> if mc_n_layers (md_config m) \<le> l then None else Some (unat l))"

text \<open>The tiles the records give to a layer, in their order.\<close>

definition votes :: "att1_model \<Rightarrow> att1_shard_meta_record list \<Rightarrow> nat \<Rightarrow> u32 list" where
  "votes m rs l = map sr_tile_id (filter (\<lambda>r. record_layer m r = Some l \<and> sr_tile_id r \<noteq> SHARD_TILE_UNASSIGNED) rs)"

definition contested :: "u32 list \<Rightarrow> bool" where
  "contested vs \<longleftrightarrow> (\<exists>v \<in> set vs. v \<noteq> hd vs)"

definition slot_of :: "u32 list \<Rightarrow> layer_slot" where
  "slot_of vs = \<lparr>sl_seen = (vs \<noteq> []), sl_tile_id = (if vs = [] then 0 else hd vs), sl_conflict = contested vs\<rparr>"

definition layer_total :: "att1_model \<Rightarrow> nat" where
  "layer_total m = unat (mc_n_layers (md_config m))"

definition scan_of :: "att1_model \<Rightarrow> att1_shard_meta_record list \<Rightarrow> meta_scan" where
  "scan_of m rs = \<lparr>sc_slots = map (\<lambda>l. slot_of (votes m rs l)) [0..<layer_total m],
     sc_extra = word_of_nat (length (filter (\<lambda>r. record_layer m r = None) rs)),
     sc_conflict = word_of_nat (card {l. l < layer_total m \<and> contested (votes m rs l)})\<rparr>"

lemma votes_snoc:
  "votes m (rs @ [r]) l = votes m rs l @ (if record_layer m r = Some l \<and> sr_tile_id r \<noteq> SHARD_TILE_UNASSIGNED then [sr_tile_id r] else [])"
  by (simp add: votes_def)

lemma contested_snoc: "contested (vs @ [t]) \<longleftrightarrow> contested vs \<or> vs \<noteq> [] \<and> t \<noteq> hd vs"
  by (cases vs) (auto simp: contested_def)

lemma slot_of_snoc:
  "slot_of (vs @ [t]) =
    (if vs = [] then (slot_of vs)\<lparr>sl_seen := True, sl_tile_id := t\<rparr>
     else if hd vs \<noteq> t then (slot_of vs)\<lparr>sl_conflict := True\<rparr> else slot_of vs)"
  by (auto simp: slot_of_def contested_snoc contested_def)

lemma map_upt_update:
  assumes "l < n" "\<And>i. i \<noteq> l \<Longrightarrow> g i = f i"
  shows "map g [0..<n] = (map f [0..<n])[l := g l]"
  using assms by (intro nth_equalityI) (auto simp: nth_list_update)

lemma card_flip:
  assumes "l < n" "\<not> P l" "Q l" "\<And>i. i \<noteq> l \<Longrightarrow> Q i = P i"
  shows "card {i. i < n \<and> Q i} = card {i. i < (n :: nat) \<and> P i} + 1"
proof -
  have "{i. i < n \<and> Q i} = insert l {i. i < n \<and> P i}"
  proof (intro set_eqI iffI)
    fix i assume "i \<in> insert l {i. i < n \<and> P i}"
    then show "i \<in> {i. i < n \<and> Q i}" using assms by (cases "i = l") auto
  qed (use assms in auto)
  then show ?thesis using assms(2) by simp
qed

lemma record_layer_lt: "record_layer m r = Some l \<Longrightarrow> l < layer_total m"
  by (auto simp: record_layer_def layer_total_def word_le_nat_alt split: if_splits option.splits)

text \<open>One record keeps the scan equal to what the records so far say.\<close>

lemma categorise_scan:
  assumes "length (md_tensors m) = unat (md_tensor_count m)" "unat (md_tensor_count m) < 2 ^ 32"
  shows "categorise m r (scan_of m rs) = Some (scan_of m (rs @ [r]))"
proof -
  have tc: "ucast (md_tensor_count m) \<le> sr_tensor_id r \<longleftrightarrow> length (md_tensors m) \<le> unat (sr_tensor_id r)"
    using assms by (simp add: word_le_nat_alt unsigned_ucast_eq take_bit_nat_eq_self)
  show ?thesis
  proof (cases "record_layer m r")
    case None
    have "votes m (rs @ [r]) = votes m rs" by (rule ext) (simp add: votes_snoc None)
    then have "scan_of m (rs @ [r]) = (scan_of m rs)\<lparr>sc_extra := sc_extra (scan_of m rs) + 1\<rparr>"
      using None by (simp add: scan_of_def)
    then show ?thesis using None
      by (auto simp: categorise_def tc record_layer_def elem_at_def split: option.splits if_splits)
  next
    case (Some l)
    then obtain w where w: "\<not> length (md_tensors m) \<le> unat (sr_tensor_id r)"
      "parse_layer_id (cstr (mt_name (md_tensors m ! unat (sr_tensor_id r)))) = Some w"
      "\<not> mc_n_layers (md_config m) \<le> w" "l = unat w"
      by (auto simp: record_layer_def split: if_splits option.splits)
    have l: "l < layer_total m" by (rule record_layer_lt [OF Some])
    let ?vs = "votes m rs l" let ?t = "sr_tile_id r"
    have slot: "sc_slots (scan_of m rs) ! l = slot_of ?vs" using l by (simp add: scan_of_def)
    have run: "categorise m r (scan_of m rs) = (if ?t = SHARD_TILE_UNASSIGNED then Some (scan_of m rs)
        else if ?vs = [] then Some ((scan_of m rs)\<lparr>sc_slots := (sc_slots (scan_of m rs))[l := (slot_of ?vs)\<lparr>sl_seen := True, sl_tile_id := ?t\<rparr>]\<rparr>)
        else if hd ?vs \<noteq> ?t \<and> \<not> contested ?vs
        then Some ((scan_of m rs)\<lparr>sc_slots := (sc_slots (scan_of m rs))[l := (slot_of ?vs)\<lparr>sl_conflict := True\<rparr>],
                    sc_conflict := sc_conflict (scan_of m rs) + 1\<rparr>)
        else Some (scan_of m rs))"
      using w slot by (auto simp: categorise_def tc elem_at_def Let_def slot_of_def)
    show ?thesis
    proof (cases "?t = SHARD_TILE_UNASSIGNED")
      case True
      have "votes m (rs @ [r]) = votes m rs" by (rule ext) (simp add: votes_snoc True)
      then show ?thesis using run True Some by (simp add: scan_of_def)
    next
      case False
      have new: "votes m (rs @ [r]) l = ?vs @ [?t]" using Some False by (simp add: votes_snoc)
      have old: "i \<noteq> l \<Longrightarrow> votes m (rs @ [r]) i = votes m rs i" for i using Some by (simp add: votes_snoc)
      have slots: "sc_slots (scan_of m (rs @ [r])) = (sc_slots (scan_of m rs))[l := slot_of (?vs @ [?t])]"
        unfolding scan_of_def meta_scan.simps new [symmetric] by (rule map_upt_update) (use l old in simp_all)
      have extra: "sc_extra (scan_of m (rs @ [r])) = sc_extra (scan_of m rs)" using Some by (simp add: scan_of_def)
      have conf: "sc_conflict (scan_of m (rs @ [r]))
          = (if ?vs \<noteq> [] \<and> hd ?vs \<noteq> ?t \<and> \<not> contested ?vs then sc_conflict (scan_of m rs) + 1 else sc_conflict (scan_of m rs))"
      proof (cases "?vs \<noteq> [] \<and> hd ?vs \<noteq> ?t \<and> \<not> contested ?vs")
        case True
        then have "card {i. i < layer_total m \<and> contested (votes m (rs @ [r]) i)} = card {i. i < layer_total m \<and> contested (votes m rs i)} + 1"
          by (intro card_flip [OF l]) (auto simp: new old contested_snoc)
        then show ?thesis using True by (simp add: scan_of_def)
      next
        case False
        then have "contested (votes m (rs @ [r]) i) = contested (votes m rs i)" for i
          by (cases "i = l") (auto simp: new old contested_snoc)
        then show ?thesis using False by (simp add: scan_of_def)
      qed
      have same: "?vs \<noteq> [] \<Longrightarrow> hd ?vs = ?t \<or> contested ?vs \<Longrightarrow> slot_of (?vs @ [?t]) = slot_of ?vs"
        by (auto simp: slot_of_snoc) (simp add: slot_of_def)
      have id: "(sc_slots (scan_of m rs))[l := slot_of ?vs] = sc_slots (scan_of m rs)" unfolding slot [symmetric] by simp
      show ?thesis
      proof (cases "?vs \<noteq> [] \<and> (hd ?vs = ?t \<or> contested ?vs)")
        case True
        then have "scan_of m (rs @ [r]) = scan_of m rs"
          using slots extra conf same id by (auto intro!: meta_scan.equality)
        then show ?thesis unfolding run using False True by auto
      next
        case fresh: False
        then have "slot_of (?vs @ [?t]) = (if ?vs = [] then (slot_of ?vs)\<lparr>sl_seen := True, sl_tile_id := ?t\<rparr>
            else (slot_of ?vs)\<lparr>sl_conflict := True\<rparr>)" unfolding slot_of_snoc by auto
        then show ?thesis unfolding run using False fresh slots extra conf
          by (auto intro!: meta_scan.equality)
      qed
    qed
  qed
qed

lemma categorise_all_scan:
  assumes "length (md_tensors m) = unat (md_tensor_count m)" "unat (md_tensor_count m) < 2 ^ 32"
    and "i + k \<le> length (shm_records (md_shard_meta m))"
  shows "categorise_all m k i (scan_of m (take i (shm_records (md_shard_meta m))))
    = Some (scan_of m (take (i + k) (shm_records (md_shard_meta m))))"
  using assms(3)
proof (induction k arbitrary: i)
  case (Suc k)
  then have "take (i + 1) (shm_records (md_shard_meta m)) = take i (shm_records (md_shard_meta m)) @ [shm_records (md_shard_meta m) ! i]"
    by (simp add: take_Suc_conv_app_nth)
  then show ?case using Suc.IH [of "i + 1"] Suc.prems categorise_scan [OF assms(1,2)] by (simp add: elem_at_def)
qed simp

text \<open>
  C22. The proposed plan is exactly what the metadata of a model say: its entries are the layers that
  some record gives a tile, in order, each with the tile of the first such record; the conflicts are
  the layers given two tiles and the extra records those about no layer. It never reads outside the
  arrays of the model.
\<close>

theorem meta_plan_build_exact:
  assumes "length (md_tensors m) = unat (md_tensor_count m)" "unat (md_tensor_count m) < 2 ^ 32"
    and "length (shm_records (md_shard_meta m)) = unat (shm_count (md_shard_meta m))" "unat (shm_count (md_shard_meta m)) < 2 ^ 32"
    and "shm_count (md_shard_meta m) \<noteq> 0" "mc_n_layers (md_config m) \<noteq> 0"
  shows "\<exists>mp. att1_meta_plan_build (True, True) (Some m) (Some out) = Some (ATT1_OK, Some mp)
    \<and> (let vs = votes m (shm_records (md_shard_meta m)); covered = filter (\<lambda>l. vs l \<noteq> []) [0..<layer_total m]
       in mp_entries mp = map (\<lambda>l. \<lparr>mpe_layer_id = word_of_nat l, mpe_tile_id = hd (vs l)\<rparr>) covered
        \<and> unat (mp_count mp) = length covered
        \<and> unat (mp_conflict mp) = card {l. l < layer_total m \<and> contested (vs l)}
        \<and> unat (mp_extra mp) = length (filter (\<lambda>r. record_layer m r = None) (shm_records (md_shard_meta m))))"
proof -
  let ?rs = "shm_records (md_shard_meta m)" let ?vs = "votes m ?rs" let ?sc = "scan_of m ?rs"
  let ?covered = "filter (\<lambda>l. ?vs l \<noteq> []) [0..<layer_total m]"
  have lt: "layer_total m < 2 ^ 32" unfolding layer_total_def by (rule u32_lt)
  have n: "unat (ucast (shm_count (md_shard_meta m)) :: u32) = length ?rs"
    using assms(3,4) by (simp add: unsigned_ucast_eq take_bit_nat_eq_self)
  have init: "\<lparr>sc_slots = replicate (unat (mc_n_layers (md_config m))) \<lparr>sl_seen = False, sl_tile_id = 0, sl_conflict = False\<rparr>,
      sc_extra = 0, sc_conflict = 0\<rparr> = scan_of m []"
    by (simp add: scan_of_def layer_total_def votes_def slot_of_def contested_def map_replicate_const)
  have scan: "categorise_all m (length ?rs) 0 (scan_of m []) = Some ?sc"
    using categorise_all_scan [OF assms(1,2), of 0 "length ?rs"] by simp
  have seen: "filter sl_seen (sc_slots ?sc) = map (\<lambda>l. slot_of (?vs l)) ?covered"
    by (simp add: scan_of_def filter_map slot_of_def o_def)
  have cov: "length ?covered < 2 ^ 32"
    using length_filter_le [of "\<lambda>l. ?vs l \<noteq> []" "[0..<layer_total m]"] lt by simp
  have entries: "slot_entries (sc_slots ?sc) = map (\<lambda>l. \<lparr>mpe_layer_id = word_of_nat l, mpe_tile_id = hd (?vs l)\<rparr>) ?covered"
    by (auto simp: slot_entries_def scan_of_def slot_of_def intro!: map_cong filter_cong)
  have cnt: "unat (word_of_nat (length ?covered) :: u32) = length ?covered"
    using cov by (simp add: unsigned_of_nat take_bit_nat_eq_self)
  have big: "(word_of_nat (SIZE_MAX div 8) :: u32) = -1"
  proof -
    have "SIZE_MAX div 8 = 2 ^ 61 - 1" by (simp add: SIZE_MAX_def)
    then show ?thesis by (simp add: of_nat_diff)
  qed
  have "att1_meta_plan_build (True, True) (Some m) (Some out) = Some (ATT1_OK, Some \<lparr>mp_entries = slot_entries (sc_slots ?sc),
      mp_count = word_of_nat (length ?covered), mp_extra = sc_extra ?sc, mp_conflict = sc_conflict ?sc\<rparr>)"
  proof -
    have "slot_entries (sc_slots ?sc) = []" if "\<not> 0 < (word_of_nat (length ?covered) :: u32)"
      using that cnt entries by (simp add: word_neq_0_conv [symmetric] del: not_None_eq)
    moreover have "(if \<not> 0 < (word_of_nat (length ?covered) :: u32) then [] else slot_entries (sc_slots ?sc)) = slot_entries (sc_slots ?sc)"
      using calculation by simp
    moreover have "length (filter sl_seen (sc_slots ?sc)) = length ?covered" by (simp only: seen length_map)
    moreover have "\<not> (-1 :: u32) < x" for x by (simp add: not_less)
    ultimately show ?thesis using assms(5,6)
      by (simp add: att1_meta_plan_build_def Let_def n init scan big del: not_None_eq)
  qed
  moreover have "unat (sc_conflict ?sc) = card {l. l < layer_total m \<and> contested (?vs l)}"
  proof -
    have "card {l. l < layer_total m \<and> contested (?vs l)} \<le> card {..<layer_total m}" by (intro card_mono) auto
    then show ?thesis using lt by (simp add: scan_of_def unsigned_of_nat take_bit_nat_eq_self)
  qed
  moreover have "unat (sc_extra ?sc) = length (filter (\<lambda>r. record_layer m r = None) ?rs)"
  proof -
    have "length (filter (\<lambda>r. record_layer m r = None) ?rs) < 2 ^ 32"
      using length_filter_le [of "\<lambda>r. record_layer m r = None" ?rs] assms(3,4) by linarith
    then show ?thesis by (simp add: scan_of_def unsigned_of_nat take_bit_nat_eq_self)
  qed
  ultimately show ?thesis using entries cnt by (simp add: Let_def)
qed

definition demo_sharded :: att1_model where
  "demo_sharded = zero_model\<lparr>md_config := zero_config\<lparr>mc_n_layers := 2\<rparr>, md_tensor_count := 1,
     md_tensors := [demo_tensor\<lparr>mt_name := layers_prefix @ [0x31, 0x2E, 0]\<rparr>],
     md_shard_meta := \<lparr>shm_records = [demo_shard\<lparr>sr_tensor_id := 0, sr_tile_id := 4\<rparr>, demo_shard\<lparr>sr_tensor_id := 0, sr_tile_id := 5\<rparr>],
                       shm_count = 2\<rparr>\<rparr>"

text \<open>Two records that disagree about layer 1: one entry, with the first tile, and one conflict.\<close>

theorem meta_plan_build_exact_witness:
  "\<exists>mp. att1_meta_plan_build (True, True) (Some demo_sharded) (Some zero_meta_plan) = Some (ATT1_OK, Some mp)
    \<and> mp_entries mp = [\<lparr>mpe_layer_id = 1, mpe_tile_id = 4\<rparr>] \<and> unat (mp_conflict mp) = 1"
proof -
  have name: "parse_layer_id (cstr (layers_prefix @ [0x31, 0x2E, 0])) = Some 1"
    by (simp add: parse_layer_id_def layers_prefix_def strncmp_zero_iff byte_digit_def Let_def)
  have rl: "record_layer demo_sharded r = Some 1" if "sr_tensor_id r = 0" for r
    using that name by (simp add: record_layer_def demo_sharded_def zero_config_def word_le_nat_alt)
  have v: "votes demo_sharded (shm_records (md_shard_meta demo_sharded)) = (\<lambda>l. if l = 1 then [4, 5] else [])"
    unfolding votes_def by (rule ext) (simp add: rl demo_sharded_def [THEN arg_cong, of md_shard_meta] SHARD_TILE_UNASSIGNED_def)
  have c: "{l. l < 2 \<and> contested (if l = 1 then [4, 5 :: u32] else [])} = {1 :: nat}"
  proof -
    have "contested [4, 5 :: u32]" unfolding contested_def by (rule bexI [of _ 5]) simp_all
    moreover have "\<not> contested ([] :: u32 list)" by (simp add: contested_def)
    ultimately have *: "contested (if l = 1 then [4, 5 :: u32] else []) \<longleftrightarrow> l = 1" for l :: nat
      by (cases "l = 1") (simp_all only: if_True if_False simp_thms)
    show ?thesis unfolding * by auto
  qed
  have n: "layer_total demo_sharded = 2" "[0..<2] = [0, 1 :: nat]"
    by (simp_all add: layer_total_def demo_sharded_def zero_config_def upt_rec)
  have p: "length (md_tensors demo_sharded) = unat (md_tensor_count demo_sharded)" "unat (md_tensor_count demo_sharded) < 2 ^ 32"
    "length (shm_records (md_shard_meta demo_sharded)) = unat (shm_count (md_shard_meta demo_sharded))"
    "unat (shm_count (md_shard_meta demo_sharded)) < 2 ^ 32"
    "shm_count (md_shard_meta demo_sharded) \<noteq> 0" "mc_n_layers (md_config demo_sharded) \<noteq> 0"
    by (simp_all add: demo_sharded_def zero_config_def)
  obtain mp where mp: "att1_meta_plan_build (True, True) (Some demo_sharded) (Some zero_meta_plan) = Some (ATT1_OK, Some mp)"
    "mp_entries mp = map (\<lambda>l. \<lparr>mpe_layer_id = word_of_nat l, mpe_tile_id = hd (if l = 1 then [4, 5] else [])\<rparr>)
        (filter (\<lambda>l. (if l = 1 then [4, 5 :: u32] else []) \<noteq> []) [0, 1])"
    "unat (mp_conflict mp) = card {1 :: nat}"
    using meta_plan_build_exact [OF p, of zero_meta_plan] unfolding v Let_def n c by blast
  then show ?thesis by (intro exI [of _ mp]) simp
qed

section \<open>Comparison with a runtime plan\<close>

definition same_tile :: "att1_meta_plan \<Rightarrow> att1_shard_plan \<Rightarrow> nat \<Rightarrow> bool option" where
  "same_tile p r l = map_option (\<lambda>e. mpe_tile_id e = the (snd (att1_shard_plan_layer_tile (Some r) (word_of_nat l) (Some 0))))
     (find_entry p (word_of_nat l))"

lemma compare_fold:
  "fold (\<lambda>l. compare_layer p r (word_of_nat l)) ls d = d\<lparr>
     mpd_matching := mpd_matching d + word_of_nat (length (filter (\<lambda>l. same_tile p r l = Some True) ls)),
     mpd_mismatch := mpd_mismatch d + word_of_nat (length (filter (\<lambda>l. same_tile p r l = Some False) ls)),
     mpd_missing := mpd_missing d + word_of_nat (length (filter (\<lambda>l. same_tile p r l = None) ls))\<rparr>"
proof (induction ls arbitrary: d)
  case (Cons l ls)
  then show ?case by (auto simp: compare_layer_def same_tile_def Let_def split: option.splits)
qed simp

lemma compare_counts:
  "att1_meta_plan_compare (Some p) (Some r) (Some d) = (ATT1_OK, Some (let ls = [0..<sp_layer_count r mod 2 ^ 32] in
     \<lparr>mpd_matching = word_of_nat (length (filter (\<lambda>l. same_tile p r l = Some True) ls)),
      mpd_mismatch = word_of_nat (length (filter (\<lambda>l. same_tile p r l = Some False) ls)),
      mpd_missing = word_of_nat (length (filter (\<lambda>l. same_tile p r l = None) ls)),
      mpd_extra = mp_extra p, mpd_conflict = mp_conflict p\<rparr>))"
  by (simp add: att1_meta_plan_compare_def compare_fold Let_def)

lemma find_nth_unique:
  assumes "l < length xs" "P (xs ! l)" "\<And>j. j < l \<Longrightarrow> \<not> P (xs ! j)"
  shows "find P xs = Some (xs ! l)"
  using assms by (auto simp: find_Some_iff)

text \<open>
  The plan built from a proposal agrees with it everywhere: compared with the proposal, every
  layer matches and none is missing or conflicting.
\<close>

theorem plan_from_meta_agrees:
  assumes "n \<noteq> 0" "0 < tc" "tc < 2 ^ 32" "unat (mp_count p) \<le> length (mp_entries p)"
    and "att1_shard_plan_from_meta True (Some p) n tc (Some p0) = Some (ATT1_OK, Some out)"
  shows "att1_meta_plan_compare (Some p) (Some out) (Some d)
    = (ATT1_OK, Some \<lparr>mpd_matching = n, mpd_mismatch = 0, mpd_missing = 0, mpd_extra = mp_extra p, mpd_conflict = 0\<rparr>)"
proof -
  have c: "mp_count p = n" "mp_conflict p = 0" "entries_ok p tc 0 (unat n)" "plan_wf out" "sp_tile_count out = tc"
    "sp_layer_count out = unat n" and tab: "\<forall>l < unat n. the (sp_layer_to_tile out) ! l = mpe_tile_id (mp_entries p ! l)"
    using shard_plan_built [OF assms(1-4), of p0] assms(5) by auto
  have id32: "j < unat n \<Longrightarrow> unat (word_of_nat j :: u32) = j" for j
    using u32_lt [of n] by (simp add: unsigned_of_nat take_bit_nat_eq_self)
  have "same_tile p out l = Some True" if l: "l < unat n" for l
  proof -
    have id: "word_of_nat j = (word_of_nat l :: u32) \<longleftrightarrow> j = l" if "j < unat n" for j
      using that l u32_lt [of n] by (metis id32)
    have lay: "mpe_layer_id (mp_entries p ! j) = word_of_nat j" if "j < unat n" for j
      using c(3) that by (simp add: entries_ok_def)
    have "find_entry p (word_of_nat l) = Some (mp_entries p ! l)"
      unfolding find_entry_def using l assms(4) c(1) id lay
      by (subst find_nth_unique [of l]) simp_all
    moreover have "unat (word_of_nat l :: u32) = l"
      using l u32_lt [of n] by (simp add: unsigned_of_nat take_bit_nat_eq_self)
    moreover obtain table where t: "sp_layer_to_tile out = Some table" "unat (table ! l) < tc"
      using c(4,5,6) l by (auto simp: plan_wf_def)
    ultimately show ?thesis using l c tab by (simp add: same_tile_def att1_shard_plan_layer_tile_def)
  qed
  then have all: "filter (\<lambda>l. same_tile p out l = Some True) [0..<unat n] = [0..<unat n]"
    "filter (\<lambda>l. same_tile p out l = Some False) [0..<unat n] = []" "filter (\<lambda>l. same_tile p out l = None) [0..<unat n] = []"
    by (auto intro!: filter_True filter_False)
  have "sp_layer_count out mod 2 ^ 32 = unat n" using u32_lt [of n] c(6) by simp
  then show ?thesis unfolding compare_counts Let_def all using all c(2) by simp
qed

theorem plan_from_meta_agrees_witness:
  "\<exists>out. att1_shard_plan_from_meta True (Some (demo_proposal [1, 0])) 2 2 (Some zero_plan) = Some (ATT1_OK, Some out)
    \<and> att1_meta_plan_compare (Some (demo_proposal [1, 0])) (Some out) (Some \<lparr>mpd_matching = 0, mpd_mismatch = 0, mpd_missing = 0, mpd_extra = 0, mpd_conflict = 0\<rparr>)
       = (ATT1_OK, Some \<lparr>mpd_matching = 2, mpd_mismatch = 0, mpd_missing = 0, mpd_extra = 0, mpd_conflict = 0\<rparr>)"
proof -
  let ?p = "demo_proposal [1, 0]"
  have u: "[0..<2] = [0, 1 :: nat]" "i < 2 \<longleftrightarrow> i = 0 \<or> i = 1" for i :: nat by (auto simp: upt_rec)
  have ok: "entries_ok ?p 2 0 2" "one_run (entry_tile ?p) 2"
    by (auto simp: entries_ok_def one_run_def demo_proposal_def u(1) less_2_cases_iff)
  then obtain out where "att1_shard_plan_from_meta True (Some ?p) 2 2 (Some zero_plan) = Some (ATT1_OK, Some out)"
    using shard_plan_built [of 2 2 ?p zero_plan] by (auto simp: demo_proposal_def)
  moreover from plan_from_meta_agrees [OF _ _ _ _ this]
  have "att1_meta_plan_compare (Some (demo_proposal [1, 0])) (Some out) (Some \<lparr>mpd_matching = 0, mpd_mismatch = 0, mpd_missing = 0, mpd_extra = 0, mpd_conflict = 0\<rparr>)
       = (ATT1_OK, Some \<lparr>mpd_matching = 2, mpd_mismatch = 0, mpd_missing = 0, mpd_extra = 0, mpd_conflict = 0\<rparr>)"
    by (simp add: demo_proposal_def)
  ultimately show ?thesis by blast
qed

section \<open>Layer numbers are not checked for overflow\<close>

definition digit_bytes :: "nat \<Rightarrow> u8 list" where
  "digit_bytes n = map (\<lambda>c. word_of_nat (of_char c)) (decimal n)"

lemma scan_layer_digits:
  "list_all is_digit ds \<Longrightarrow> scan_layer (map (\<lambda>c. word_of_nat (of_char c)) ds @ 0x2E # rest) (word_of_nat v)
    = (word_of_nat (foldl (\<lambda>v c. 10 * v + (of_char c - 48)) v ds), 0x2E # rest)"
proof (induction ds arbitrary: v)
  case Nil
  then show ?case by (simp add: byte_digit_def)
next
  case (Cons c ds)
  then have c: "48 \<le> (of_char c :: nat)" "(of_char c :: nat) \<le> 57" by (simp_all add: is_digit_def)
  have u: "unat (word_of_nat (of_char c) :: u8) = of_char c" using c by (simp add: unsigned_of_nat take_bit_nat_eq_self)
  then have d: "byte_digit (word_of_nat (of_char c))" using c by (simp add: byte_digit_def word_le_nat_alt)
  have "(ucast (word_of_nat (of_char c) :: u8) :: u32) = word_of_nat (unat (word_of_nat (of_char c) :: u8))" by simp
  then have "(ucast (word_of_nat (of_char c) :: u8) :: u32) = word_of_nat (of_char c)" unfolding u .
  then have "(word_of_nat v * 10 + (ucast (word_of_nat (of_char c) :: u8) - 48) :: u32) = word_of_nat (10 * v + (of_char c - 48))"
    using c by (simp add: of_nat_diff mult.commute)
  then show ?case using d Cons.IH [of "10 * v + (of_char c - 48)"] Cons.prems by (simp only: list.map append_Cons scan_layer.simps if_True foldl_Cons list.pred_inject)
qed

text \<open>
  The layer number of a tensor name is read modulo \<open>2 ^ 32\<close>: the name
  \<^verbatim>\<open>layers.\<close> followed by the decimal digits of any \<open>n\<close> and a dot is taken for layer
  \<open>n mod 2 ^ 32\<close>, so that \<^verbatim>\<open>layers.4294967296.\<close> counts as layer 0 of every model.
\<close>

theorem parse_layer_id_wraps: "parse_layer_id (layers_prefix @ digit_bytes n @ 0x2E # rest) = Some (word_of_nat n)"
proof -
  have ne: "digit_bytes n \<noteq> []" by (simp add: digit_bytes_def decimal_digits)
  have "list_all byte_digit (digit_bytes n)"
    using decimal_digits(1) [of n]
    by (auto simp: list_all_iff digit_bytes_def is_digit_def byte_digit_def word_le_nat_alt unsigned_of_nat take_bit_nat_eq_self)
  then have hd: "byte_digit (hd (digit_bytes n))" using ne by (cases "digit_bytes n") simp_all
  have "scan_layer (digit_bytes n @ 0x2E # rest) (word_of_nat 0)
      = (word_of_nat (foldl (\<lambda>v c. 10 * v + (of_char c - 48)) 0 (decimal n)), 0x2E # rest)"
    unfolding digit_bytes_def by (rule scan_layer_digits [OF decimal_digits(1)])
  then have "scan_layer (digit_bytes n @ 0x2E # rest) 0 = (word_of_nat n, 0x2E # rest)"
    using decimal_digits(2) [of n] by (simp add: digits_value_def)
  moreover have "strncmp_zero 7 (layers_prefix @ r) layers_prefix" for r
    by (simp add: strncmp_zero_iff layers_prefix_def)
  ultimately show ?thesis using ne hd by (simp add: parse_layer_id_def layers_prefix_def Let_def)
qed

end
