(* ===== verification/Numeric.thy ===== *)
theory Numeric
  imports Kv_Store Tok_Ext Model_Loader "HOL-Library.Monad_Syntax"
begin

text \<open>
  The numeric kernels on the processor (\<^verbatim>\<open>src/matmul.c\<close>, \<^verbatim>\<open>src/matmul_q8.c\<close>, \<^verbatim>\<open>src/norm.c\<close>,
  \<^verbatim>\<open>src/rope.c\<close>, \<^verbatim>\<open>src/ffn.c\<close>) and quantisation (\<^verbatim>\<open>src/quant.c\<close>). A \<^verbatim>\<open>float\<close> is its bit pattern;
  the arithmetic of the C implementation is an argument \<open>fo\<close>, since the standard leaves its rounding, contraction and
  library functions to the platform, so what is proved holds for any arithmetic. A buffer is the list of
  its elements; a function that would read or write outside of one has the value \<^term>\<open>None\<close>, otherwise the code's
  result, with the new contents of the destination.
\<close>

section \<open>Floating-point arithmetic\<close>

record float_ops =
  fl_add :: "f32 \<Rightarrow> f32 \<Rightarrow> f32"
  fl_sub :: "f32 \<Rightarrow> f32 \<Rightarrow> f32"
  fl_mul :: "f32 \<Rightarrow> f32 \<Rightarrow> f32"
  fl_div :: "f32 \<Rightarrow> f32 \<Rightarrow> f32"
  fl_sqrt :: "f32 \<Rightarrow> f32"
  fl_exp :: "f32 \<Rightarrow> f32"
  fl_pow :: "f32 \<Rightarrow> f32 \<Rightarrow> f32"
  fl_cos :: "f32 \<Rightarrow> f32"
  fl_sin :: "f32 \<Rightarrow> f32"
  fl_of_int :: "int \<Rightarrow> f32"
  fl_round :: "f32 \<Rightarrow> int"

definition F32_ONE :: f32 where "F32_ONE = 0x3F800000"
definition F32_SEVEN :: f32 where "F32_SEVEN = 0x40E00000"
definition F32_127 :: f32 where "F32_127 = 0x42FE0000"

text \<open>Sign bit, exponent and order are read off the bits; unary minus flips the sign.\<close>

definition f32_neg :: "f32 \<Rightarrow> f32" where "f32_neg x = x XOR 0x80000000"
definition f32_fabs :: "f32 \<Rightarrow> f32" where "f32_fabs x = x AND 0x7FFFFFFF"
definition f32_isfinite :: "f32 \<Rightarrow> bool" where "f32_isfinite x \<longleftrightarrow> x AND 0x7F800000 \<noteq> 0x7F800000"

definition f32_le :: "f32 \<Rightarrow> f32 \<Rightarrow> bool" where
  "f32_le a b \<longleftrightarrow> \<not> f32_isnan a \<and> \<not> f32_isnan b \<and> f32_key a \<le> f32_key b"

definition f32_eq :: "f32 \<Rightarrow> f32 \<Rightarrow> bool" where
  "f32_eq a b \<longleftrightarrow> \<not> f32_isnan a \<and> \<not> f32_isnan b \<and> f32_key a = f32_key b"

section \<open>Buffers\<close>

text \<open>A stretch of a buffer, read and written; \<^term>\<open>None\<close> outside of it.\<close>

definition buf_read :: "'a list \<Rightarrow> nat \<Rightarrow> nat \<Rightarrow> 'a list option" where
  "buf_read xs off n = (if off + n \<le> length xs then Some (read_bytes off n xs) else None)"

definition buf_write :: "'a list \<Rightarrow> nat \<Rightarrow> 'a list \<Rightarrow> 'a list option" where
  "buf_write xs off ys = (if off + length ys \<le> length xs then Some (write_bytes off ys xs) else None)"

section \<open>Matrix products\<close>

text \<open>The cell of row \<open>row\<close> and column \<open>col\<close>: the innermost loop.\<close>

definition matmul_cell :: "float_ops \<Rightarrow> f32 list \<Rightarrow> f32 list \<Rightarrow> nat \<Rightarrow> nat \<Rightarrow> nat \<Rightarrow> nat \<Rightarrow> f32" where
  "matmul_cell fo lhs rhs cols inner row col =
     fold (\<lambda>k sum. fl_add fo sum (fl_mul fo (lhs ! (row * inner + k)) (rhs ! (k * cols + col)))) [0..<inner] 0"

definition att1_matmul_f32 ::
  "float_ops \<Rightarrow> f32 list option \<Rightarrow> f32 list option \<Rightarrow> f32 list option \<Rightarrow> nat \<Rightarrow> nat \<Rightarrow> nat
    \<Rightarrow> (int \<times> f32 list option) option" where
  "att1_matmul_f32 fo dst lhs rhs rows cols inner =
     (case (dst, lhs, rhs) of
        (Some d, Some l, Some r) \<Rightarrow>
          (if rows = 0 \<or> cols = 0 \<or> inner = 0 then Some (-1, dst)
           else if length l < rows * inner \<or> length r < inner * cols then None
           else do {
             d' \<leftarrow> buf_write d 0 (map (\<lambda>i. matmul_cell fo l r cols inner (i div cols) (i mod cols)) [0..<rows * cols]);
             Some (0, Some d')
           })
      | _ \<Rightarrow> Some (-1, dst))"

record q8_buffers =
  qb_rows :: nat
  qb_cols :: nat
  qb_values :: "u8 list option"
  qb_scales :: "f32 list option"

definition matmul_q8_cell ::
  "float_ops \<Rightarrow> f32 list \<Rightarrow> u8 list \<Rightarrow> f32 list \<Rightarrow> nat \<Rightarrow> nat \<Rightarrow> nat \<Rightarrow> f32" where
  "matmul_q8_cell fo lhs values scales cols row out =
     fold (\<lambda>col sum. fl_add fo sum (fl_mul fo (lhs ! (row * cols + col))
             (fl_mul fo (fl_of_int fo (sint (values ! (out * cols + col)))) (scales ! out)))) [0..<cols] 0"

definition att1_matmul_q8xf32 ::
  "float_ops \<Rightarrow> f32 list option \<Rightarrow> f32 list option \<Rightarrow> nat \<Rightarrow> nat \<Rightarrow> q8_buffers option
    \<Rightarrow> (int \<times> f32 list option) option" where
  "att1_matmul_q8xf32 fo dst lhs lhs_rows lhs_cols weights =
     (case (dst, lhs, weights) of
        (Some d, Some l, Some w) \<Rightarrow>
          (case (qb_values w, qb_scales w) of
             (Some vs, Some ss) \<Rightarrow>
               (if lhs_rows = 0 \<or> lhs_cols = 0 \<or> qb_rows w = 0 \<or> qb_cols w = 0 \<or> lhs_cols \<noteq> qb_cols w
                then Some (-1, dst)
                else if length l < lhs_rows * lhs_cols \<or> length vs < qb_rows w * qb_cols w \<or> length ss < qb_rows w
                then None
                else do {
                  d' \<leftarrow> buf_write d 0 (map (\<lambda>i. matmul_q8_cell fo l vs ss (qb_cols w) (i div qb_rows w) (i mod qb_rows w))
                                          [0..<lhs_rows * qb_rows w]);
                  Some (0, Some d')
                })
           | _ \<Rightarrow> Some (-1, dst))
      | _ \<Rightarrow> Some (-1, dst))"

section \<open>Normalisation, rotation, activation\<close>

definition att1_rmsnorm_f32 ::
  "float_ops \<Rightarrow> f32 list option \<Rightarrow> f32 list option \<Rightarrow> f32 list option \<Rightarrow> nat \<Rightarrow> f32 \<Rightarrow> (int \<times> f32 list option) option" where
  "att1_rmsnorm_f32 fo dst src weight count epsilon =
     (case (dst, src, weight) of
        (Some d, Some s, Some w) \<Rightarrow>
          (if count = 0 \<or> f32_le epsilon 0 then Some (-1, dst)
           else if length s < count \<or> length w < count then None
           else
             (let sum_squares = fold (\<lambda>i sum. fl_add fo sum (fl_mul fo (s ! i) (s ! i))) [0..<count] 0;
                  scale = fl_div fo F32_ONE (fl_sqrt fo (fl_add fo (fl_div fo sum_squares (fl_of_int fo (int count))) epsilon))
              in do {
                d' \<leftarrow> buf_write d 0 (map (\<lambda>i. fl_mul fo (fl_mul fo (s ! i) scale) (w ! i)) [0..<count]);
                Some (0, Some d')
              }))
      | _ \<Rightarrow> Some (-1, dst))"

text \<open>In place; a vanishing sum is reported after the exponentials were stored.\<close>

definition att1_softmax_f32 :: "float_ops \<Rightarrow> f32 list option \<Rightarrow> nat \<Rightarrow> (int \<times> f32 list option) option" where
  "att1_softmax_f32 fo values count =
     (case values of
        None \<Rightarrow> Some (-1, values)
      | Some v \<Rightarrow>
        (if count = 0 then Some (-1, values)
         else do {
           xs \<leftarrow> buf_read v 0 count;
           let max_value = fold (\<lambda>x m. if f32_gt x m then x else m) (tl xs) (hd xs);
           let es = map (\<lambda>x. fl_exp fo (fl_sub fo x max_value)) xs;
           let sum = fold (\<lambda>e s. fl_add fo s e) es 0;
           if f32_eq sum 0 then do { v' \<leftarrow> buf_write v 0 es; Some (-1, Some v') }
           else do { v' \<leftarrow> buf_write v 0 (map (\<lambda>e. fl_div fo e sum) es); Some (0, Some v') }
         }))"

text \<open>The pair of values at index \<open>i\<close>, rotated.\<close>

definition rope_pair :: "float_ops \<Rightarrow> nat \<Rightarrow> nat \<Rightarrow> f32 \<Rightarrow> f32 list \<Rightarrow> nat \<Rightarrow> f32 list" where
  "rope_pair fo count position theta v i =
     (let exponent = fl_div fo (fl_of_int fo (int i)) (fl_of_int fo (int count));
          frequency = fl_div fo F32_ONE (fl_pow fo theta exponent);
          angle = fl_mul fo (fl_of_int fo (int position)) frequency;
          c = fl_cos fo angle; s = fl_sin fo angle; x0 = v ! i; x1 = v ! (i + 1)
      in [fl_sub fo (fl_mul fo x0 c) (fl_mul fo x1 s), fl_add fo (fl_mul fo x0 s) (fl_mul fo x1 c)])"

definition att1_rope_f32 ::
  "float_ops \<Rightarrow> f32 list option \<Rightarrow> nat \<Rightarrow> nat \<Rightarrow> f32 \<Rightarrow> (int \<times> f32 list option) option" where
  "att1_rope_f32 fo values count position theta =
     (case values of
        None \<Rightarrow> Some (-1, values)
      | Some v \<Rightarrow>
        (if count = 0 \<or> count mod 2 \<noteq> 0 \<or> f32_le theta 0 then Some (-1, values)
         else if length v < count then None
         else do {
           v' \<leftarrow> buf_write v 0 (concat (map (\<lambda>j. rope_pair fo count position theta v (2 * j)) [0..<count div 2]));
           Some (0, Some v')
         }))"

definition att1_silu_f32 :: "float_ops \<Rightarrow> f32 \<Rightarrow> f32" where
  "att1_silu_f32 fo value = fl_div fo value (fl_add fo F32_ONE (fl_exp fo (f32_neg value)))"

definition att1_swiglu_f32 ::
  "float_ops \<Rightarrow> f32 list option \<Rightarrow> f32 list option \<Rightarrow> f32 list option \<Rightarrow> nat \<Rightarrow> (int \<times> f32 list option) option" where
  "att1_swiglu_f32 fo dst gate value count =
     (case (dst, gate, value) of
        (Some d, Some g, Some v) \<Rightarrow>
          (if count = 0 then Some (-1, dst)
           else do {
             gs \<leftarrow> buf_read g 0 count;
             vs \<leftarrow> buf_read v 0 count;
             d' \<leftarrow> buf_write d 0 (map (\<lambda>(x, y). fl_mul fo (att1_silu_f32 fo x) y) (zip gs vs));
             Some (0, Some d')
           })
      | _ \<Rightarrow> Some (-1, dst))"

section \<open>Quantisation to eight bits\<close>

definition zero_q8_buffers :: q8_buffers where
  "zero_q8_buffers = \<lparr>qb_rows = 0, qb_cols = 0, qb_values = None, qb_scales = None\<rparr>"

definition att1_q8_matrix_alloc :: "(nat \<Rightarrow> bool) \<Rightarrow> q8_buffers option \<Rightarrow> nat \<Rightarrow> nat \<Rightarrow> int \<times> q8_buffers option" where
  "att1_q8_matrix_alloc alloc mp rows cols =
     (case mp of
        None \<Rightarrow> (-1, None)
      | Some _ \<Rightarrow>
        (if rows = 0 \<or> cols = 0 then (-1, mp)
         else (case att1_mul_size rows cols of
                 None \<Rightarrow> (-1, Some zero_q8_buffers)
               | Some n \<Rightarrow>
                 (if \<not> alloc 0 \<or> \<not> alloc 1 then (-1, Some zero_q8_buffers)
                  else (0, Some \<lparr>qb_rows = rows, qb_cols = cols, qb_values = Some (replicate n 0),
                                 qb_scales = Some (replicate rows 0)\<rparr>)))))"

text \<open>The largest magnitude of a row; \<^term>\<open>None\<close> when one of its values is not finite.\<close>

fun row_max_abs :: "f32 list \<Rightarrow> f32 \<Rightarrow> f32 option" where
  "row_max_abs [] max_abs = Some max_abs"
| "row_max_abs (v # vs) max_abs =
     (if \<not> f32_isfinite v then None
      else row_max_abs vs (if f32_gt (f32_fabs v) max_abs then f32_fabs v else max_abs))"

definition clamp :: "int \<Rightarrow> int \<Rightarrow> int" where
  "clamp limit q = (if limit < q then limit else if q < - limit then - limit else q)"

definition q8_row_scale :: "float_ops \<Rightarrow> f32 \<Rightarrow> f32" where
  "q8_row_scale fo max_abs = (if f32_gt max_abs 0 then fl_div fo max_abs F32_127 else F32_ONE)"

definition q8_value :: "float_ops \<Rightarrow> f32 \<Rightarrow> f32 \<Rightarrow> u8" where
  "q8_value fo scale v = word_of_int (clamp 127 (fl_round fo (fl_div fo v scale)))"

text \<open>
  The loop over the rows, with the values and scales of the rows done so far. The inner option is \<^term>\<open>None\<close> when the
  code gives up; a row that the source does not hold entirely is short.
\<close>

fun q8_rows_loop :: "float_ops \<Rightarrow> nat \<Rightarrow> f32 list list \<Rightarrow> u8 list \<Rightarrow> f32 list \<Rightarrow> (u8 list \<times> f32 list) option option" where
  "q8_rows_loop fo cols [] vs ss = Some (Some (vs, ss))"
| "q8_rows_loop fo cols (r # rs) vs ss =
     (case row_max_abs r 0 of
        None \<Rightarrow> Some None
      | Some max_abs \<Rightarrow>
        (if length r < cols then None
         else (let scale = q8_row_scale fo max_abs
               in q8_rows_loop fo cols rs (vs @ map (q8_value fo scale) r) (ss @ [scale]))))"

definition rows_of :: "'a list \<Rightarrow> nat \<Rightarrow> nat \<Rightarrow> 'a list list" where
  "rows_of xs rows cols = map (\<lambda>r. read_bytes (r * cols) cols xs) [0..<rows]"

definition att1_quantize_q8_per_row ::
  "float_ops \<Rightarrow> (nat \<Rightarrow> bool) \<Rightarrow> q8_buffers option \<Rightarrow> f32 list option \<Rightarrow> nat \<Rightarrow> nat \<Rightarrow> (int \<times> q8_buffers option) option" where
  "att1_quantize_q8_per_row fo alloc mp weights rows cols =
     (case (mp, weights) of
        (Some _, Some ws) \<Rightarrow>
          (if rows = 0 \<or> cols = 0 then Some (-1, mp)
           else
             (case att1_q8_matrix_alloc alloc mp rows cols of
                (rc, mp') \<Rightarrow>
                  (if rc \<noteq> 0 then Some (-1, mp')
                   else
                     (case q8_rows_loop fo cols (rows_of ws rows cols) [] [] of
                        None \<Rightarrow> None
                      | Some None \<Rightarrow> Some (-1, Some zero_q8_buffers)
                      | Some (Some (vs, ss)) \<Rightarrow>
                        Some (0, Some ((the mp')\<lparr>qb_values := Some vs, qb_scales := Some ss\<rparr>))))))
      | _ \<Rightarrow> Some (-1, mp))"

section \<open>Quantisation to four bits\<close>

definition q4_group_size_valid :: "u32 \<Rightarrow> bool" where
  "q4_group_size_valid group_size \<longleftrightarrow> Q4_GROUP_SIZE_MIN \<le> group_size \<and> group_size \<le> Q4_GROUP_SIZE_MAX
     \<and> group_size AND (group_size - 1) = 0"

definition att1_q4_group_scale :: "float_ops \<Rightarrow> f32 list option \<Rightarrow> u32 \<Rightarrow> bool \<Rightarrow> (int \<times> f32 option) option" where
  "att1_q4_group_scale fo src group_size out_ok =
     (case src of
        None \<Rightarrow> Some (-1, None)
      | Some s \<Rightarrow>
        (if \<not> out_ok \<or> \<not> q4_group_size_valid group_size then Some (-1, None)
         else (case row_max_abs (take (unat group_size) s) 0 of
                 None \<Rightarrow> Some (-1, None)
               | Some max_abs \<Rightarrow>
                 (if length s < unat group_size then None
                  else Some (0, Some (if f32_gt max_abs 0 then fl_div fo max_abs F32_SEVEN else F32_ONE))))))"

text \<open>Signed bytes are words read with \<^const>\<open>sint\<close>.\<close>

definition q4_clamp :: "u8 \<Rightarrow> u8" where "q4_clamp x = word_of_int (clamp 7 (sint x))"

definition q4_pack_pair :: "u8 \<Rightarrow> u8 \<Rightarrow> u8" where
  "q4_pack_pair lo hi = (q4_clamp lo AND 0x0F) OR push_bit 4 (q4_clamp hi AND 0x0F)"

definition att1_q4_pack_group :: "u8 list option \<Rightarrow> u32 \<Rightarrow> u8 list option \<Rightarrow> (int \<times> u8 list option) option" where
  "att1_q4_pack_group src_int4 group_size dst_packed =
     (case (src_int4, dst_packed) of
        (Some s, Some d) \<Rightarrow>
          (if \<not> q4_group_size_valid group_size then Some (-1, dst_packed)
           else if length s < unat group_size then None
           else do {
             d' \<leftarrow> buf_write d 0 (map (\<lambda>j. q4_pack_pair (s ! (2 * j)) (s ! (2 * j + 1))) [0..<unat group_size div 2]);
             Some (0, Some d')
           })
      | _ \<Rightarrow> Some (-1, dst_packed))"

definition q4_sign_extend :: "u8 \<Rightarrow> u8" where
  "q4_sign_extend nibble = (if nibble AND 0x08 \<noteq> 0 then nibble OR 0xF0 else nibble)"

definition q4_unpack_byte :: "u8 \<Rightarrow> u8 list" where
  "q4_unpack_byte byte = [q4_sign_extend (byte AND 0x0F), q4_sign_extend (drop_bit 4 byte AND 0x0F)]"

definition att1_q4_unpack_group :: "u8 list option \<Rightarrow> u32 \<Rightarrow> u8 list option \<Rightarrow> (int \<times> u8 list option) option" where
  "att1_q4_unpack_group src_packed group_size dst_int4 =
     (case (src_packed, dst_int4) of
        (Some s, Some d) \<Rightarrow>
          (if \<not> q4_group_size_valid group_size then Some (-1, dst_int4)
           else do {
             bytes \<leftarrow> buf_read s 0 (unat group_size div 2);
             d' \<leftarrow> buf_write d 0 (concat (map q4_unpack_byte bytes));
             Some (0, Some d')
           })
      | _ \<Rightarrow> Some (-1, dst_int4))"

definition q4_value :: "float_ops \<Rightarrow> f32 \<Rightarrow> f32 \<Rightarrow> u8" where
  "q4_value fo scale v = word_of_int (clamp 7 (fl_round fo (fl_div fo v scale)))"

text \<open>\<open>buf\<close> is what the local array holds on entry.\<close>

definition att1_q4_quantize_group ::
  "float_ops \<Rightarrow> u8 list \<Rightarrow> f32 list option \<Rightarrow> u32 \<Rightarrow> u8 list option \<Rightarrow> bool \<Rightarrow> (int \<times> u8 list option \<times> f32 option) option" where
  "att1_q4_quantize_group fo buf src group_size dst_packed out_ok =
     (if src = None \<or> dst_packed = None \<or> \<not> out_ok \<or> \<not> q4_group_size_valid group_size then Some (-1, dst_packed, None)
      else do {
        (rc, scale) \<leftarrow> att1_q4_group_scale fo src group_size True;
        if rc \<noteq> 0 then Some (-1, dst_packed, None)
        else do {
          int4_buf \<leftarrow> buf_write buf 0 (map (q4_value fo (the scale)) (take (unat group_size) (the src)));
          (rc', dst') \<leftarrow> att1_q4_pack_group (Some int4_buf) group_size dst_packed;
          Some (rc', dst', scale)
        }
      })"

definition att1_q4_dequantize_group ::
  "float_ops \<Rightarrow> u8 list \<Rightarrow> u8 list option \<Rightarrow> u32 \<Rightarrow> f32 \<Rightarrow> f32 list option \<Rightarrow> (int \<times> f32 list option) option" where
  "att1_q4_dequantize_group fo buf src_packed group_size scale dst =
     (case (src_packed, dst) of
        (Some _, Some d) \<Rightarrow>
          (if \<not> q4_group_size_valid group_size then Some (-1, dst)
           else do {
             (rc, int4_buf) \<leftarrow> att1_q4_unpack_group src_packed group_size (Some buf);
             if rc \<noteq> 0 then Some (-1, dst)
             else do {
               d' \<leftarrow> buf_write d 0 (map (\<lambda>q. fl_mul fo (fl_of_int fo (sint q)) scale) (take (unat group_size) (the int4_buf)));
               Some (0, Some d')
             }
           })
      | _ \<Rightarrow> Some (-1, dst))"

record q4_buffers =
  pb_rows :: nat
  pb_cols :: nat
  pb_group_size :: u32
  pb_packed :: "u8 list option"
  pb_scales :: "f32 list option"

definition zero_q4_buffers :: q4_buffers where
  "zero_q4_buffers = \<lparr>pb_rows = 0, pb_cols = 0, pb_group_size = 0, pb_packed = None, pb_scales = None\<rparr>"

definition att1_q4_matrix_alloc :: "(nat \<Rightarrow> bool) \<Rightarrow> q4_buffers option \<Rightarrow> nat \<Rightarrow> nat \<Rightarrow> u32 \<Rightarrow> int \<times> q4_buffers option" where
  "att1_q4_matrix_alloc alloc mp rows cols group_size =
     (case mp of
        None \<Rightarrow> (-1, None)
      | Some _ \<Rightarrow>
        (if rows = 0 \<or> cols = 0 \<or> \<not> q4_group_size_valid group_size \<or> cols mod 2 \<noteq> 0 \<or> cols mod unat group_size \<noteq> 0
         then (-1, mp)
         else (case att1_mul_size rows (cols div 2) of
                 None \<Rightarrow> (-1, Some zero_q4_buffers)
               | Some packed_bytes \<Rightarrow>
                 (case att1_mul_size (cols div unat group_size) rows of
                    None \<Rightarrow> (-1, Some zero_q4_buffers)
                  | Some n_groups \<Rightarrow>
                    (if \<not> alloc 0 \<or> \<not> alloc 1 then (-1, Some zero_q4_buffers)
                     else (0, Some \<lparr>pb_rows = rows, pb_cols = cols, pb_group_size = group_size,
                                    pb_packed = Some (replicate packed_bytes 0), pb_scales = Some (replicate n_groups 0)\<rparr>))))))"

text \<open>The two loops, flattened to the list of (row, group) pairs still to do.\<close>

fun q4_groups_loop ::
  "float_ops \<Rightarrow> u8 list \<Rightarrow> f32 list \<Rightarrow> nat \<Rightarrow> u32 \<Rightarrow> (nat \<times> nat) list \<Rightarrow> q4_buffers \<Rightarrow> (int \<times> q4_buffers) option" where
  "q4_groups_loop fo buf ws cols group_size [] m = Some (0, m)"
| "q4_groups_loop fo buf ws cols group_size ((row, g) # rest) m =
     (let gs = unat group_size;
          src_off = row * cols + g * gs; packed_off = row * (cols div 2) + g * (gs div 2); scale_idx = row * (cols div gs) + g
      in case att1_q4_quantize_group fo buf (Some (drop src_off ws)) group_size (Some (drop packed_off (the (pb_packed m)))) True of
           None \<Rightarrow> None
         | Some (rc, packed, scale) \<Rightarrow>
           (if rc \<noteq> 0 then Some (-1, zero_q4_buffers)
            else do {
              scales \<leftarrow> buf_write (the (pb_scales m)) scale_idx [the scale];
              q4_groups_loop fo buf ws cols group_size rest
                (m\<lparr>pb_packed := Some (take packed_off (the (pb_packed m)) @ the packed), pb_scales := Some scales\<rparr>)
            }))"

definition att1_quantize_q4_per_group ::
  "float_ops \<Rightarrow> u8 list \<Rightarrow> (nat \<Rightarrow> bool) \<Rightarrow> q4_buffers option \<Rightarrow> f32 list option \<Rightarrow> nat \<Rightarrow> nat \<Rightarrow> u32
    \<Rightarrow> (int \<times> q4_buffers option) option" where
  "att1_quantize_q4_per_group fo buf alloc mp weights rows cols group_size =
     (case (mp, weights) of
        (Some _, Some ws) \<Rightarrow>
          (if rows = 0 \<or> cols = 0 \<or> \<not> q4_group_size_valid group_size \<or> cols mod 2 \<noteq> 0 \<or> cols mod unat group_size \<noteq> 0
           then Some (-1, mp)
           else
             (case att1_q4_matrix_alloc alloc mp rows cols group_size of
                (rc, mp') \<Rightarrow>
                  (if rc \<noteq> 0 then Some (-1, mp')
                   else do {
                     (rc', m) \<leftarrow> q4_groups_loop fo buf ws cols group_size
                        (List.product [0..<rows] [0..<cols div unat group_size]) (the mp');
                     Some (rc', Some m)
                   })))
      | _ \<Rightarrow> Some (-1, mp))"

text \<open>
  The product with a packed matrix: \<open>q4_cell_loop\<close> is the loop over the groups of one cell, \<open>q4_cells_loop\<close> the
  two loops over the cells. A zero group size divides by zero.
\<close>

fun q4_cell_loop ::
  "float_ops \<Rightarrow> u8 list \<Rightarrow> f32 list \<Rightarrow> nat \<Rightarrow> q4_buffers \<Rightarrow> nat \<Rightarrow> nat \<Rightarrow> nat list \<Rightarrow> f32 \<Rightarrow> (int \<times> f32) option" where
  "q4_cell_loop fo buf lhs lhs_cols w lhs_row weight_row [] acc = Some (0, acc)"
| "q4_cell_loop fo buf lhs lhs_cols w lhs_row weight_row (g # gs) acc =
     (let n = unat (pb_group_size w);
          packed_off = weight_row * (pb_cols w div 2) + g * (n div 2);
          act_off = lhs_row * lhs_cols + g * n;
          scale_idx = weight_row * (pb_cols w div n) + g
      in do {
        scale \<leftarrow> buf_read (the (pb_scales w)) scale_idx 1;
        (rc, int4_buf) \<leftarrow> att1_q4_unpack_group (Some (drop packed_off (the (pb_packed w)))) (pb_group_size w) (Some buf);
        if rc \<noteq> 0 then Some (-1, acc)
        else do {
          acts \<leftarrow> buf_read lhs act_off n;
          q4_cell_loop fo buf lhs lhs_cols w lhs_row weight_row gs
            (fold (\<lambda>j s. fl_add fo s (fl_mul fo (acts ! j) (fl_mul fo (fl_of_int fo (sint (the int4_buf ! j))) (hd scale))))
               [0..<n] acc)
        }
      })"

fun q4_cells_loop ::
  "float_ops \<Rightarrow> u8 list \<Rightarrow> f32 list \<Rightarrow> nat \<Rightarrow> q4_buffers \<Rightarrow> (nat \<times> nat) list \<Rightarrow> f32 list \<Rightarrow> (int \<times> f32 list) option" where
  "q4_cells_loop fo buf lhs lhs_cols w [] dst = Some (0, dst)"
| "q4_cells_loop fo buf lhs lhs_cols w ((lhs_row, weight_row) # rest) dst = do {
     (rc, cell) \<leftarrow> q4_cell_loop fo buf lhs lhs_cols w lhs_row weight_row [0..<pb_cols w div unat (pb_group_size w)] 0;
     if rc \<noteq> 0 then Some (-1, dst)
     else do {
       dst' \<leftarrow> buf_write dst (lhs_row * pb_rows w + weight_row) [cell];
       q4_cells_loop fo buf lhs lhs_cols w rest dst'
     }
   }"

definition att1_matmul_q4xf32 ::
  "float_ops \<Rightarrow> u8 list \<Rightarrow> f32 list option \<Rightarrow> f32 list option \<Rightarrow> nat \<Rightarrow> nat \<Rightarrow> q4_buffers option
    \<Rightarrow> (int \<times> f32 list option) option" where
  "att1_matmul_q4xf32 fo buf dst lhs lhs_rows lhs_cols weights =
     (case (dst, lhs, weights) of
        (Some d, Some l, Some w) \<Rightarrow>
          (if pb_packed w = None \<or> pb_scales w = None then Some (-1, dst)
           else if lhs_rows = 0 \<or> lhs_cols = 0 \<or> pb_rows w = 0 \<or> pb_cols w = 0 \<or> lhs_cols \<noteq> pb_cols w then Some (-1, dst)
           else if pb_group_size w = 0 then None
           else do {
             (rc, d') \<leftarrow> q4_cells_loop fo buf l lhs_cols w (List.product [0..<lhs_rows] [0..<pb_rows w]) d;
             Some (rc, Some d')
           })
      | _ \<Rightarrow> Some (-1, dst))"

end
