(* ===== verification/Attention.thy ===== *)
theory Attention
  imports Numeric Kv_Cache
begin

text \<open>
  Back ends (\<^verbatim>\<open>include/att1_backend.h\<close> and the three on the processor), causal self-attention
  (\<^verbatim>\<open>src/attention.c\<close>) and the decoder block (\<^verbatim>\<open>src/transformer_block.c\<close>). The operations of a back end are
  functions of their arguments, as those on the processor are; a \<^verbatim>\<open>NULL\<close> operation is \<^term>\<open>None\<close>. Their
  pointers are never \<^verbatim>\<open>NULL\<close> here. \<open>mem i n\<close> is what the i-th allocation of the call
  returns, asked for \<open>n\<close> bytes: \<^verbatim>\<open>NULL\<close> or a buffer with arbitrary contents. The outer \<^term>\<open>None\<close> of a
  result is an access outside of a buffer.
\<close>

section \<open>Back ends\<close>

type_synonym result_f32 = "(int \<times> f32 list) option"
type_synonym memory = "nat \<Rightarrow> nat \<Rightarrow> f32 list option"

record att1_backend_ops =
  bo_name :: "string option"
  bo_alloc :: bool
  bo_free :: bool
  bo_sync :: "int option"
  bo_matmul_f32 :: "(f32 list \<Rightarrow> f32 list \<Rightarrow> f32 list \<Rightarrow> nat \<Rightarrow> nat \<Rightarrow> nat \<Rightarrow> result_f32) option"
  bo_matmul_q8xf32 :: "(f32 list \<Rightarrow> f32 list \<Rightarrow> nat \<Rightarrow> nat \<Rightarrow> q8_buffers \<Rightarrow> result_f32) option"
  bo_matmul_q4xf32 :: "(f32 list \<Rightarrow> f32 list \<Rightarrow> nat \<Rightarrow> nat \<Rightarrow> q4_buffers \<Rightarrow> result_f32) option"
  bo_rmsnorm_f32 :: "(f32 list \<Rightarrow> f32 list \<Rightarrow> f32 list \<Rightarrow> nat \<Rightarrow> f32 \<Rightarrow> result_f32) option"
  bo_softmax_f32 :: "(f32 list \<Rightarrow> nat \<Rightarrow> result_f32) option"
  bo_rope_f32 :: "(f32 list \<Rightarrow> nat \<Rightarrow> nat \<Rightarrow> f32 \<Rightarrow> result_f32) option"
  bo_ffn_swiglu_f32 :: "(f32 list \<Rightarrow> f32 list \<Rightarrow> f32 list \<Rightarrow> nat \<Rightarrow> result_f32) option"

record att1_backend =
  be_ops :: "att1_backend_ops option"

text \<open>A call whose destination is not \<^verbatim>\<open>NULL\<close>.\<close>

definition non_null :: "(int \<times> f32 list option) option \<Rightarrow> result_f32" where
  "non_null = map_option (\<lambda>(rc, b). (rc, the b))"

definition cpu_f32_ops :: "float_ops \<Rightarrow> att1_backend_ops" where
  "cpu_f32_ops fo = \<lparr>bo_name = Some ''cpu-f32'', bo_alloc = True, bo_free = True, bo_sync = Some 0,
     bo_matmul_f32 = Some (\<lambda>dst lhs rhs rows cols inner.
       non_null (att1_matmul_f32 fo (Some dst) (Some lhs) (Some rhs) rows cols inner)),
     bo_matmul_q8xf32 = Some (\<lambda>dst lhs lhs_rows lhs_cols weights. Some (-1, dst)),
     bo_matmul_q4xf32 = None,
     bo_rmsnorm_f32 = Some (\<lambda>dst src weight count epsilon.
       non_null (att1_rmsnorm_f32 fo (Some dst) (Some src) (Some weight) count epsilon)),
     bo_softmax_f32 = Some (\<lambda>values count. non_null (att1_softmax_f32 fo (Some values) count)),
     bo_rope_f32 = Some (\<lambda>values count position theta. non_null (att1_rope_f32 fo (Some values) count position theta)),
     bo_ffn_swiglu_f32 = Some (\<lambda>dst gate value count.
       non_null (att1_swiglu_f32 fo (Some dst) (Some gate) (Some value) count))\<rparr>"

definition cpu_q8_ops :: "float_ops \<Rightarrow> att1_backend_ops" where
  "cpu_q8_ops fo = \<lparr>bo_name = Some ''cpu-q8'', bo_alloc = True, bo_free = True, bo_sync = Some 0,
     bo_matmul_f32 = Some (\<lambda>dst lhs rhs rows cols inner.
       non_null (att1_matmul_f32 fo (Some dst) (Some lhs) (Some rhs) rows cols inner)),
     bo_matmul_q8xf32 = Some (\<lambda>dst lhs lhs_rows lhs_cols weights.
       non_null (att1_matmul_q8xf32 fo (Some dst) (Some lhs) lhs_rows lhs_cols (Some weights))),
     bo_matmul_q4xf32 = None,
     bo_rmsnorm_f32 = Some (\<lambda>dst src weight count epsilon.
       non_null (att1_rmsnorm_f32 fo (Some dst) (Some src) (Some weight) count epsilon)),
     bo_softmax_f32 = Some (\<lambda>values count. non_null (att1_softmax_f32 fo (Some values) count)),
     bo_rope_f32 = Some (\<lambda>values count position theta. non_null (att1_rope_f32 fo (Some values) count position theta)),
     bo_ffn_swiglu_f32 = Some (\<lambda>dst gate value count.
       non_null (att1_swiglu_f32 fo (Some dst) (Some gate) (Some value) count))\<rparr>"

definition cpu_q4_ops :: "float_ops \<Rightarrow> att1_backend_ops" where
  "cpu_q4_ops fo = \<lparr>bo_name = Some ''cpu-q4'', bo_alloc = True, bo_free = True, bo_sync = Some 0,
     bo_matmul_f32 = Some (\<lambda>dst lhs rhs rows cols inner.
       non_null (att1_matmul_f32 fo (Some dst) (Some lhs) (Some rhs) rows cols inner)),
     bo_matmul_q8xf32 = None,
     bo_matmul_q4xf32 = None,
     bo_rmsnorm_f32 = Some (\<lambda>dst src weight count epsilon.
       non_null (att1_rmsnorm_f32 fo (Some dst) (Some src) (Some weight) count epsilon)),
     bo_softmax_f32 = Some (\<lambda>values count. non_null (att1_softmax_f32 fo (Some values) count)),
     bo_rope_f32 = Some (\<lambda>values count position theta. non_null (att1_rope_f32 fo (Some values) count position theta)),
     bo_ffn_swiglu_f32 = Some (\<lambda>dst gate value count.
       non_null (att1_swiglu_f32 fo (Some dst) (Some gate) (Some value) count))\<rparr>"

definition att1_backend_cpu_f32_create :: "float_ops \<Rightarrow> bool \<Rightarrow> bool \<Rightarrow> att1_status \<times> att1_backend option" where
  "att1_backend_cpu_f32_create fo alloc out_ok =
     (if \<not> out_ok then (ATT1_ERR_INVALID_ARG, None)
      else if \<not> alloc then (ATT1_ERR_OOM, None)
      else (ATT1_OK, Some \<lparr>be_ops = Some (cpu_f32_ops fo)\<rparr>))"

definition att1_backend_cpu_q8_create :: "float_ops \<Rightarrow> bool \<Rightarrow> bool \<Rightarrow> att1_status \<times> att1_backend option" where
  "att1_backend_cpu_q8_create fo alloc out_ok =
     (if \<not> out_ok then (ATT1_ERR_INVALID_ARG, None)
      else if \<not> alloc then (ATT1_ERR_OOM, None)
      else (ATT1_OK, Some \<lparr>be_ops = Some (cpu_q8_ops fo)\<rparr>))"

definition att1_backend_cpu_q4_create :: "float_ops \<Rightarrow> bool \<Rightarrow> bool \<Rightarrow> att1_status \<times> att1_backend option" where
  "att1_backend_cpu_q4_create fo alloc out_ok =
     (if \<not> out_ok then (ATT1_ERR_INVALID_ARG, None)
      else if \<not> alloc then (ATT1_ERR_OOM, None)
      else (ATT1_OK, Some \<lparr>be_ops = Some (cpu_q4_ops fo)\<rparr>))"

definition att1_backend_default_create :: "float_ops \<Rightarrow> bool \<Rightarrow> bool \<Rightarrow> att1_status \<times> att1_backend option" where
  "att1_backend_default_create fo alloc out_ok = att1_backend_cpu_f32_create fo alloc out_ok"

text \<open>\<^verbatim>\<open>n\<close> floats, the size in bytes in 64 bits.\<close>

definition alloc_f32 :: "memory \<Rightarrow> nat \<Rightarrow> nat \<Rightarrow> f32 list option" where
  "alloc_f32 mem i n = mem i ((n * 4) mod 2 ^ 64)"

text \<open>\<^verbatim>\<open>if (call != 0) goto cleanup\<close>: the rest of the function is the continuation.\<close>

definition guard_rc :: "(int \<times> 'b) option \<Rightarrow> 'r \<Rightarrow> ('b \<Rightarrow> 'r option) \<Rightarrow> 'r option" where
  "guard_rc call fail rest =
     (case call of None \<Rightarrow> None | Some (rc, b) \<Rightarrow> if rc \<noteq> 0 then Some fail else rest b)"

text \<open>A call on a pointer into the middle of a buffer.\<close>

definition at_offset :: "nat \<Rightarrow> (f32 list \<Rightarrow> result_f32) \<Rightarrow> f32 list \<Rightarrow> result_f32" where
  "at_offset off f xs =
     (if length xs < off then None
      else (case f (drop off xs) of None \<Rightarrow> None | Some (rc, ys) \<Rightarrow> Some (rc, take off xs @ ys)))"

section \<open>Attention\<close>

record att1_attention_config =
  ac_model_dim :: nat
  ac_num_heads :: nat
  ac_head_dim :: nat
  ac_rope_theta :: f32

record att1_attention_weights =
  aw_wq :: "f32 list option"
  aw_wk :: "f32 list option"
  aw_wv :: "f32 list option"
  aw_wo :: "f32 list option"

record att1_attention_q8_weights =
  aw8_wq :: "q8_buffers option"
  aw8_wk :: "q8_buffers option"
  aw8_wv :: "q8_buffers option"
  aw8_wo :: "q8_buffers option"

record att1_attention_q4_weights =
  aw4_wq :: "q4_buffers option"
  aw4_wk :: "q4_buffers option"
  aw4_wv :: "q4_buffers option"
  aw4_wo :: "q4_buffers option"

definition att1_attention_config_valid :: "att1_attention_config option \<Rightarrow> att1_kv_cache option \<Rightarrow> bool" where
  "att1_attention_config_valid config cache =
     (case (config, cache) of
        (Some c, Some kv) \<Rightarrow>
          (if ac_model_dim c = 0 \<or> ac_num_heads c = 0 \<or> ac_head_dim c = 0 \<or> f32_le (ac_rope_theta c) 0 then False
           else if (ac_num_heads c * ac_head_dim c) mod 2 ^ 64 \<noteq> ac_model_dim c then False
           else if cc_num_heads kv \<noteq> ac_num_heads c \<or> cc_head_dim kv \<noteq> ac_head_dim c then False
           else True)
      | _ \<Rightarrow> False)"

definition att1_attention_weights_valid :: "att1_attention_weights option \<Rightarrow> bool" where
  "att1_attention_weights_valid weights =
     (case weights of None \<Rightarrow> False
      | Some w \<Rightarrow> aw_wq w \<noteq> None \<and> aw_wk w \<noteq> None \<and> aw_wv w \<noteq> None \<and> aw_wo w \<noteq> None)"

definition att1_attention_q8_weights_valid :: "att1_attention_q8_weights option \<Rightarrow> bool" where
  "att1_attention_q8_weights_valid weights =
     (case weights of None \<Rightarrow> False
      | Some w \<Rightarrow> aw8_wq w \<noteq> None \<and> aw8_wk w \<noteq> None \<and> aw8_wv w \<noteq> None \<and> aw8_wo w \<noteq> None)"

definition att1_dot_f32 :: "float_ops \<Rightarrow> f32 list \<Rightarrow> f32 list \<Rightarrow> nat \<Rightarrow> f32 option" where
  "att1_dot_f32 fo lhs rhs count =
     (if length lhs < count \<or> length rhs < count then None
      else Some (fold (\<lambda>i sum. fl_add fo sum (fl_mul fo (lhs ! i) (rhs ! i))) [0..<count] 0))"

fun rope_heads ::
  "(f32 list \<Rightarrow> nat \<Rightarrow> nat \<Rightarrow> f32 \<Rightarrow> result_f32) \<Rightarrow> att1_attention_config \<Rightarrow> nat \<Rightarrow> nat list \<Rightarrow> f32 list \<Rightarrow> f32 list
    \<Rightarrow> (int \<times> f32 list \<times> f32 list) option" where
  "rope_heads rope c position [] query key = Some (0, query, key)"
| "rope_heads rope c position (head # hs) query key = do {
     (rc, query') \<leftarrow> at_offset (head * ac_head_dim c) (\<lambda>x. rope x (ac_head_dim c) position (ac_rope_theta c)) query;
     if rc \<noteq> 0 then Some (-1, query', key)
     else do {
       (rc, key') \<leftarrow> at_offset (head * ac_head_dim c) (\<lambda>x. rope x (ac_head_dim c) position (ac_rope_theta c)) key;
       if rc \<noteq> 0 then Some (-1, query', key') else rope_heads rope c position hs query' key'
     }
   }"

definition att1_attention_apply_rope ::
  "(f32 list \<Rightarrow> nat \<Rightarrow> nat \<Rightarrow> f32 \<Rightarrow> result_f32) \<Rightarrow> att1_attention_config \<Rightarrow> nat \<Rightarrow> f32 list \<Rightarrow> f32 list
    \<Rightarrow> (int \<times> f32 list \<times> f32 list) option" where
  "att1_attention_apply_rope rope c position query key =
     (if ac_head_dim c mod 2 \<noteq> 0 then Some (-1, query, key)
      else rope_heads rope c position [0..<ac_num_heads c] query key)"

text \<open>The two loops over the positions, and the loop over the heads.\<close>

fun score_loop ::
  "float_ops \<Rightarrow> att1_kv_cache \<Rightarrow> f32 list \<Rightarrow> nat \<Rightarrow> nat \<Rightarrow> f32 \<Rightarrow> nat list \<Rightarrow> f32 list \<Rightarrow> result_f32" where
  "score_loop fo cache q_head head head_dim isq [] scores = Some (0, scores)"
| "score_loop fo cache q_head head head_dim isq (pos # ps) scores =
     (case att1_kv_cache_key (Some cache) pos head of
        None \<Rightarrow> Some (-1, scores)
      | Some k_head \<Rightarrow> do {
          dot \<leftarrow> att1_dot_f32 fo q_head (drop k_head (the (cc_keys cache))) head_dim;
          scores' \<leftarrow> buf_write scores pos [fl_mul fo dot isq];
          score_loop fo cache q_head head head_dim isq ps scores'
        })"

fun mix_loop :: "float_ops \<Rightarrow> att1_kv_cache \<Rightarrow> nat \<Rightarrow> nat \<Rightarrow> f32 list \<Rightarrow> nat list \<Rightarrow> f32 list \<Rightarrow> result_f32" where
  "mix_loop fo cache head head_dim scores [] context_head = Some (0, context_head)"
| "mix_loop fo cache head head_dim scores (pos # ps) context_head =
     (case att1_kv_cache_value (Some cache) pos head of
        None \<Rightarrow> Some (-1, context_head)
      | Some v_head \<Rightarrow> do {
          s \<leftarrow> buf_read scores pos 1;
          v \<leftarrow> buf_read (the (cc_values cache)) v_head head_dim;
          c \<leftarrow> buf_read context_head 0 head_dim;
          context' \<leftarrow> buf_write context_head 0 (map (\<lambda>(x, y). fl_add fo x (fl_mul fo (hd s) y)) (zip c v));
          mix_loop fo cache head head_dim scores ps context'
        })"

fun heads_loop ::
  "float_ops \<Rightarrow> (f32 list \<Rightarrow> nat \<Rightarrow> result_f32) \<Rightarrow> att1_kv_cache \<Rightarrow> f32 list \<Rightarrow> nat \<Rightarrow> f32 \<Rightarrow> nat list \<Rightarrow> f32 list \<Rightarrow> f32 list
    \<Rightarrow> (int \<times> f32 list \<times> f32 list) option" where
  "heads_loop fo softmax cache query head_dim isq [] scores context = Some (0, scores, context)"
| "heads_loop fo softmax cache query head_dim isq (head # hs) scores context = do {
     (rc, scores1) \<leftarrow> score_loop fo cache (drop (head * head_dim) query) head head_dim isq [0..<cc_length cache] scores;
     if rc \<noteq> 0 then Some (-1, scores1, context)
     else do {
       (rc, scores2) \<leftarrow> softmax scores1 (cc_length cache);
       if rc \<noteq> 0 then Some (-1, scores2, context)
       else do {
         (rc, context') \<leftarrow> at_offset (head * head_dim)
            (\<lambda>context_head. mix_loop fo cache head head_dim scores2 [0..<cc_length cache] context_head) context;
         if rc \<noteq> 0 then Some (-1, scores2, context')
         else heads_loop fo softmax cache query head_dim isq hs scores2 context'
       }
     }
   }"

text \<open>
  The part the three variants have in common, from the allocations on; \<open>project i\<close> multiplies with \<^verbatim>\<open>wq\<close>, \<^verbatim>\<open>wk\<close>, \<^verbatim>\<open>wv\<close>
  or \<^verbatim>\<open>wo\<close>. The result is the return value, the output and the cache.
\<close>

definition attention_body ::
  "float_ops \<Rightarrow> (f32 list \<Rightarrow> nat \<Rightarrow> nat \<Rightarrow> f32 \<Rightarrow> result_f32) \<Rightarrow> (f32 list \<Rightarrow> nat \<Rightarrow> result_f32)
    \<Rightarrow> (nat \<Rightarrow> f32 list \<Rightarrow> f32 list \<Rightarrow> result_f32) \<Rightarrow> memory \<Rightarrow> att1_attention_config \<Rightarrow> nat
    \<Rightarrow> f32 list \<Rightarrow> att1_kv_cache \<Rightarrow> f32 list \<Rightarrow> (int \<times> f32 list \<times> att1_kv_cache) option" where
  "attention_body fo rope softmax project mem c position output cache input =
     (case (alloc_f32 mem 0 (ac_model_dim c), alloc_f32 mem 1 (ac_model_dim c), alloc_f32 mem 2 (ac_model_dim c),
            alloc_f32 mem 3 (ac_model_dim c), alloc_f32 mem 4 (cc_length cache + 1)) of
        (Some query, Some key, Some value, Some context, Some scores) \<Rightarrow>
          guard_rc (project 0 query input) (-1, output, cache) (\<lambda>query.
          guard_rc (project 1 key input) (-1, output, cache) (\<lambda>key.
          guard_rc (project 2 value input) (-1, output, cache) (\<lambda>value.
          guard_rc (att1_attention_apply_rope rope c position query key) (-1, output, cache) (\<lambda>(query, key).
          (case att1_kv_cache_append (Some cache) (Some key) (Some value) of
             (rc, appended) \<Rightarrow>
               (if rc \<noteq> 0 then Some (-1, output, the appended)
                else do {
                  context \<leftarrow> buf_write context 0 (replicate (ac_model_dim c) 0);
                  let inv_sqrt_head_dim = fl_div fo F32_ONE (fl_sqrt fo (fl_of_int fo (int (ac_head_dim c))));
                  guard_rc (heads_loop fo softmax (the appended) query (ac_head_dim c) inv_sqrt_head_dim
                              [0..<ac_num_heads c] scores context)
                    (-1, output, the appended) (\<lambda>(scores, context).
                  do {
                    (rc, output') \<leftarrow> project 3 output context;
                    Some (if rc \<noteq> 0 then -1 else 0, output', the appended)
                  })
                }))))))
      | _ \<Rightarrow> Some (-1, output, cache))"

text \<open>The guards on the back end: an operation table with an allocator and the operations a variant needs.\<close>

definition backend_lacks :: "(att1_backend_ops \<Rightarrow> bool) \<Rightarrow> att1_backend option \<Rightarrow> bool" where
  "backend_lacks missing backend =
     (case backend of None \<Rightarrow> True
      | Some b \<Rightarrow> (case be_ops b of None \<Rightarrow> True | Some ops \<Rightarrow> \<not> bo_alloc ops \<or> \<not> bo_free ops \<or> missing ops))"

abbreviation backend_ops :: "att1_backend option \<Rightarrow> att1_backend_ops" where
  "backend_ops backend \<equiv> the (be_ops (the backend))"

text \<open>The common part run on pointers that are not \<^verbatim>\<open>NULL\<close>.\<close>

definition run_attention ::
  "float_ops \<Rightarrow> att1_backend_ops \<Rightarrow> (nat \<Rightarrow> f32 list \<Rightarrow> f32 list \<Rightarrow> result_f32) \<Rightarrow> memory \<Rightarrow> f32 list option
    \<Rightarrow> att1_kv_cache option \<Rightarrow> f32 list option \<Rightarrow> att1_attention_config option \<Rightarrow> nat
    \<Rightarrow> (int \<times> f32 list option \<times> att1_kv_cache option) option" where
  "run_attention fo ops project mem output cache input config position =
     (case attention_body fo (the (bo_rope_f32 ops)) (the (bo_softmax_f32 ops)) project mem (the config) position
             (the output) (the cache) (the input) of
        None \<Rightarrow> None
      | Some (rc, output', cache') \<Rightarrow> Some (rc, Some output', Some cache'))"

definition att1_attention_forward_backend ::
  "float_ops \<Rightarrow> memory \<Rightarrow> f32 list option \<Rightarrow> att1_kv_cache option \<Rightarrow> f32 list option \<Rightarrow> att1_attention_weights option
    \<Rightarrow> att1_attention_config option \<Rightarrow> nat \<Rightarrow> att1_backend option
    \<Rightarrow> (int \<times> f32 list option \<times> att1_kv_cache option) option" where
  "att1_attention_forward_backend fo mem output cache input weights config position backend =
     (if output = None \<or> input = None then Some (-1, output, cache)
      else if backend_lacks (\<lambda>ops. Option.is_none (bo_matmul_f32 ops) \<or> Option.is_none (bo_softmax_f32 ops)
                \<or> Option.is_none (bo_rope_f32 ops)) backend
      then Some (-1, output, cache)
      else if \<not> att1_attention_weights_valid weights \<or> \<not> att1_attention_config_valid config cache then Some (-1, output, cache)
      else if position \<noteq> cc_length (the cache) then Some (-1, output, cache)
      else
        (let w = the weights; md = ac_model_dim (the config)
         in run_attention fo (backend_ops backend)
              (\<lambda>i dst src. the (bo_matmul_f32 (backend_ops backend)) dst src
                 (the ([aw_wq w, aw_wk w, aw_wv w, aw_wo w] ! i)) 1 md md)
              mem output cache input config position))"

definition att1_attention_forward_backend_q8 ::
  "float_ops \<Rightarrow> memory \<Rightarrow> f32 list option \<Rightarrow> att1_kv_cache option \<Rightarrow> f32 list option \<Rightarrow> att1_attention_q8_weights option
    \<Rightarrow> att1_attention_config option \<Rightarrow> nat \<Rightarrow> att1_backend option
    \<Rightarrow> (int \<times> f32 list option \<times> att1_kv_cache option) option" where
  "att1_attention_forward_backend_q8 fo mem output cache input weights config position backend =
     (if output = None \<or> input = None then Some (-1, output, cache)
      else if backend_lacks (\<lambda>ops. Option.is_none (bo_matmul_q8xf32 ops) \<or> Option.is_none (bo_softmax_f32 ops)
                \<or> Option.is_none (bo_rope_f32 ops)) backend
      then Some (-1, output, cache)
      else if \<not> att1_attention_q8_weights_valid weights \<or> \<not> att1_attention_config_valid config cache then Some (-1, output, cache)
      else if position \<noteq> cc_length (the cache) then Some (-1, output, cache)
      else
        (let w = the weights; md = ac_model_dim (the config)
         in run_attention fo (backend_ops backend)
              (\<lambda>i dst src. the (bo_matmul_q8xf32 (backend_ops backend)) dst src 1 md
                 (the ([aw8_wq w, aw8_wk w, aw8_wv w, aw8_wo w] ! i)))
              mem output cache input config position))"

text \<open>\<open>int4_buf\<close> is what the local array of the kernel holds when it is called.\<close>

definition attention_q4_matmul ::
  "float_ops \<Rightarrow> u8 list \<Rightarrow> att1_backend_ops \<Rightarrow> f32 list \<Rightarrow> f32 list \<Rightarrow> nat \<Rightarrow> nat \<Rightarrow> q4_buffers \<Rightarrow> result_f32" where
  "attention_q4_matmul fo int4_buf ops dst src rows cols w =
     (case bo_matmul_q4xf32 ops of
        Some f \<Rightarrow> f dst src rows cols w
      | None \<Rightarrow> non_null (att1_matmul_q4xf32 fo int4_buf (Some dst) (Some src) rows cols (Some w)))"

definition att1_attention_forward_backend_q4 ::
  "float_ops \<Rightarrow> u8 list \<Rightarrow> memory \<Rightarrow> f32 list option \<Rightarrow> att1_kv_cache option \<Rightarrow> f32 list option
    \<Rightarrow> att1_attention_q4_weights option \<Rightarrow> att1_attention_config option \<Rightarrow> nat \<Rightarrow> att1_backend option
    \<Rightarrow> (int \<times> f32 list option \<times> att1_kv_cache option) option" where
  "att1_attention_forward_backend_q4 fo int4_buf mem output cache input weights config position backend =
     (if output = None \<or> input = None then Some (-1, output, cache)
      else if backend_lacks (\<lambda>ops. Option.is_none (bo_softmax_f32 ops) \<or> Option.is_none (bo_rope_f32 ops)) backend
      then Some (-1, output, cache)
      else if (case weights of None \<Rightarrow> True
               | Some w \<Rightarrow> aw4_wq w = None \<or> aw4_wk w = None \<or> aw4_wv w = None \<or> aw4_wo w = None)
      then Some (-1, output, cache)
      else if \<not> att1_attention_config_valid config cache then Some (-1, output, cache)
      else if position \<noteq> cc_length (the cache) then Some (-1, output, cache)
      else
        (let w = the weights; md = ac_model_dim (the config)
         in run_attention fo (backend_ops backend)
              (\<lambda>i dst src. attention_q4_matmul fo int4_buf (backend_ops backend) dst src 1 md
                 (the ([aw4_wq w, aw4_wk w, aw4_wv w, aw4_wo w] ! i)))
              mem output cache input config position))"

text \<open>\<open>alloc\<close>: the back end of the call can be allocated.\<close>

definition att1_attention_forward_f32 ::
  "float_ops \<Rightarrow> bool \<Rightarrow> memory \<Rightarrow> f32 list option \<Rightarrow> att1_kv_cache option \<Rightarrow> f32 list option \<Rightarrow> att1_attention_weights option
    \<Rightarrow> att1_attention_config option \<Rightarrow> nat \<Rightarrow> (int \<times> f32 list option \<times> att1_kv_cache option) option" where
  "att1_attention_forward_f32 fo alloc mem output cache input weights config position =
     (case att1_backend_default_create fo alloc True of
        (status, backend) \<Rightarrow>
          (if status \<noteq> ATT1_OK then Some (-1, output, cache)
           else att1_attention_forward_backend fo mem output cache input weights config position backend))"

section \<open>The decoder block\<close>

record att1_transformer_block_config =
  tb_model_dim :: nat
  tb_num_heads :: nat
  tb_head_dim :: nat
  tb_ffn_dim :: nat
  tb_rms_epsilon :: f32
  tb_rope_theta :: f32

text \<open>The weights behind the pointers.\<close>

record block_f32_weights =
  bf_attention_norm :: "f32 list option"
  bf_ffn_norm :: "f32 list option"
  bf_wq :: "f32 list option"
  bf_wk :: "f32 list option"
  bf_wv :: "f32 list option"
  bf_wo :: "f32 list option"
  bf_w_gate :: "f32 list option"
  bf_w_up :: "f32 list option"
  bf_w_down :: "f32 list option"

record att1_transformer_block_q8_weights =
  b8_attention_norm :: "f32 list option"
  b8_ffn_norm :: "f32 list option"
  b8_wq :: "q8_buffers option"
  b8_wk :: "q8_buffers option"
  b8_wv :: "q8_buffers option"
  b8_wo :: "q8_buffers option"
  b8_w_gate :: "q8_buffers option"
  b8_w_up :: "q8_buffers option"
  b8_w_down :: "q8_buffers option"

record att1_transformer_block_q4_weights =
  b4_attention_norm :: "f32 list option"
  b4_ffn_norm :: "f32 list option"
  b4_wq :: "q4_buffers option"
  b4_wk :: "q4_buffers option"
  b4_wv :: "q4_buffers option"
  b4_wo :: "q4_buffers option"
  b4_w_gate :: "q4_buffers option"
  b4_w_up :: "q4_buffers option"
  b4_w_down :: "q4_buffers option"

definition att1_block_config_valid :: "att1_transformer_block_config option \<Rightarrow> att1_kv_cache option \<Rightarrow> bool" where
  "att1_block_config_valid config cache =
     (case (config, cache) of
        (Some c, Some kv) \<Rightarrow>
          (if tb_model_dim c = 0 \<or> tb_num_heads c = 0 \<or> tb_head_dim c = 0 \<or> tb_ffn_dim c = 0
              \<or> f32_le (tb_rms_epsilon c) 0 \<or> f32_le (tb_rope_theta c) 0 then False
           else if (tb_num_heads c * tb_head_dim c) mod 2 ^ 64 \<noteq> tb_model_dim c then False
           else if cc_num_heads kv \<noteq> tb_num_heads c \<or> cc_head_dim kv \<noteq> tb_head_dim c then False
           else True)
      | _ \<Rightarrow> False)"

definition att1_block_weights_valid :: "block_f32_weights option \<Rightarrow> bool" where
  "att1_block_weights_valid weights =
     (case weights of None \<Rightarrow> False
      | Some w \<Rightarrow> bf_attention_norm w \<noteq> None \<and> bf_ffn_norm w \<noteq> None \<and> bf_wq w \<noteq> None \<and> bf_wk w \<noteq> None \<and> bf_wv w \<noteq> None
          \<and> bf_wo w \<noteq> None \<and> bf_w_gate w \<noteq> None \<and> bf_w_up w \<noteq> None \<and> bf_w_down w \<noteq> None)"

definition att1_block_q8_weights_valid :: "att1_transformer_block_q8_weights option \<Rightarrow> bool" where
  "att1_block_q8_weights_valid weights =
     (case weights of None \<Rightarrow> False
      | Some w \<Rightarrow> b8_attention_norm w \<noteq> None \<and> b8_ffn_norm w \<noteq> None \<and> b8_wq w \<noteq> None \<and> b8_wk w \<noteq> None \<and> b8_wv w \<noteq> None
          \<and> b8_wo w \<noteq> None \<and> b8_w_gate w \<noteq> None \<and> b8_w_up w \<noteq> None \<and> b8_w_down w \<noteq> None)"

definition att1_add_f32 :: "float_ops \<Rightarrow> f32 list \<Rightarrow> f32 list \<Rightarrow> f32 list \<Rightarrow> nat \<Rightarrow> f32 list option" where
  "att1_add_f32 fo dst lhs rhs count = do {
     l \<leftarrow> buf_read lhs 0 count;
     r \<leftarrow> buf_read rhs 0 count;
     buf_write dst 0 (map (\<lambda>(x, y). fl_add fo x y) (zip l r))
   }"

text \<open>
  The common part of the three variants; \<open>project i\<close> multiplies with \<^verbatim>\<open>w_gate\<close>, \<^verbatim>\<open>w_up\<close> or \<^verbatim>\<open>w_down\<close>, \<open>attention\<close> is the
  call of the attention step, whose allocations follow the eight of the block.
\<close>

definition block_body ::
  "float_ops \<Rightarrow> att1_backend_ops \<Rightarrow> (nat \<Rightarrow> f32 list \<Rightarrow> f32 list \<Rightarrow> result_f32)
    \<Rightarrow> (memory \<Rightarrow> f32 list option \<Rightarrow> att1_kv_cache option \<Rightarrow> f32 list option \<Rightarrow> att1_attention_config option
          \<Rightarrow> (int \<times> f32 list option \<times> att1_kv_cache option) option)
    \<Rightarrow> f32 list \<Rightarrow> f32 list \<Rightarrow> memory \<Rightarrow> att1_transformer_block_config \<Rightarrow> f32 list \<Rightarrow> att1_kv_cache option \<Rightarrow> f32 list
    \<Rightarrow> (int \<times> f32 list option \<times> att1_kv_cache option) option" where
  "block_body fo ops project attention attention_norm ffn_norm mem c output cache input =
     (let md = tb_model_dim c; fd = tb_ffn_dim c; rmsnorm = the (bo_rmsnorm_f32 ops); swiglu = the (bo_ffn_swiglu_f32 ops) in
      case (alloc_f32 mem 0 md, alloc_f32 mem 1 md, alloc_f32 mem 2 md, alloc_f32 mem 3 md,
            alloc_f32 mem 4 fd, alloc_f32 mem 5 fd, alloc_f32 mem 6 fd, alloc_f32 mem 7 md) of
        (Some attention_input, Some attention_output, Some attention_residual, Some ffn_input,
         Some ffn_gate, Some ffn_up, Some ffn_hidden, Some ffn_output) \<Rightarrow>
          guard_rc (rmsnorm attention_input input attention_norm md (tb_rms_epsilon c)) (-1, Some output, cache) (\<lambda>attention_input.
          do {
            (rc, attention_output, cache') \<leftarrow> attention (\<lambda>i. mem (8 + i)) (Some attention_output) cache (Some attention_input)
               (Some \<lparr>ac_model_dim = md, ac_num_heads = tb_num_heads c, ac_head_dim = tb_head_dim c, ac_rope_theta = tb_rope_theta c\<rparr>);
            if rc \<noteq> 0 then Some (-1, Some output, cache')
            else do {
              attention_residual \<leftarrow> att1_add_f32 fo attention_residual input (the attention_output) md;
              guard_rc (rmsnorm ffn_input attention_residual ffn_norm md (tb_rms_epsilon c)) (-1, Some output, cache') (\<lambda>ffn_input.
              guard_rc (project 0 ffn_gate ffn_input) (-1, Some output, cache') (\<lambda>ffn_gate.
              guard_rc (project 1 ffn_up ffn_input) (-1, Some output, cache') (\<lambda>ffn_up.
              guard_rc (swiglu ffn_hidden ffn_gate ffn_up fd) (-1, Some output, cache') (\<lambda>ffn_hidden.
              guard_rc (project 2 ffn_output ffn_hidden) (-1, Some output, cache') (\<lambda>ffn_output.
              do {
                output \<leftarrow> att1_add_f32 fo output attention_residual ffn_output md;
                Some (0, Some output, cache')
              })))))
            }
          })
      | _ \<Rightarrow> Some (-1, Some output, cache))"

definition att1_transformer_block_forward_backend ::
  "float_ops \<Rightarrow> memory \<Rightarrow> f32 list option \<Rightarrow> att1_kv_cache option \<Rightarrow> f32 list option \<Rightarrow> block_f32_weights option
    \<Rightarrow> att1_transformer_block_config option \<Rightarrow> nat \<Rightarrow> att1_backend option
    \<Rightarrow> (int \<times> f32 list option \<times> att1_kv_cache option) option" where
  "att1_transformer_block_forward_backend fo mem output cache input weights config position backend =
     (if output = None \<or> input = None then Some (-1, output, cache)
      else if backend_lacks (\<lambda>ops. Option.is_none (bo_matmul_f32 ops) \<or> Option.is_none (bo_rmsnorm_f32 ops)
                \<or> Option.is_none (bo_ffn_swiglu_f32 ops)) backend
      then Some (-1, output, cache)
      else if \<not> att1_block_weights_valid weights \<or> \<not> att1_block_config_valid config cache then Some (-1, output, cache)
      else
        (let w = the weights; c = the config; mm = the (bo_matmul_f32 (backend_ops backend))
         in block_body fo (backend_ops backend)
              (\<lambda>i dst src. if i < 2 then mm dst src (the ([bf_w_gate w, bf_w_up w] ! i)) 1 (tb_ffn_dim c) (tb_model_dim c)
                 else mm dst src (the (bf_w_down w)) 1 (tb_model_dim c) (tb_ffn_dim c))
              (\<lambda>mem out kv inp ac. att1_attention_forward_backend fo mem out kv inp
                 (Some \<lparr>aw_wq = bf_wq w, aw_wk = bf_wk w, aw_wv = bf_wv w, aw_wo = bf_wo w\<rparr>) ac position backend)
              (the (bf_attention_norm w)) (the (bf_ffn_norm w)) mem c (the output) cache (the input)))"

definition att1_transformer_block_forward_backend_q8 ::
  "float_ops \<Rightarrow> memory \<Rightarrow> f32 list option \<Rightarrow> att1_kv_cache option \<Rightarrow> f32 list option \<Rightarrow> att1_transformer_block_q8_weights option
    \<Rightarrow> att1_transformer_block_config option \<Rightarrow> nat \<Rightarrow> att1_backend option
    \<Rightarrow> (int \<times> f32 list option \<times> att1_kv_cache option) option" where
  "att1_transformer_block_forward_backend_q8 fo mem output cache input weights config position backend =
     (if output = None \<or> input = None then Some (-1, output, cache)
      else if backend_lacks (\<lambda>ops. Option.is_none (bo_matmul_q8xf32 ops) \<or> Option.is_none (bo_rmsnorm_f32 ops)
                \<or> Option.is_none (bo_ffn_swiglu_f32 ops)) backend
      then Some (-1, output, cache)
      else if \<not> att1_block_q8_weights_valid weights \<or> \<not> att1_block_config_valid config cache then Some (-1, output, cache)
      else
        (let w = the weights; c = the config; mm = the (bo_matmul_q8xf32 (backend_ops backend))
         in block_body fo (backend_ops backend)
              (\<lambda>i dst src. if i < 2 then mm dst src 1 (tb_model_dim c) (the ([b8_w_gate w, b8_w_up w] ! i))
                 else mm dst src 1 (tb_ffn_dim c) (the (b8_w_down w)))
              (\<lambda>mem out kv inp ac. att1_attention_forward_backend_q8 fo mem out kv inp
                 (Some \<lparr>aw8_wq = b8_wq w, aw8_wk = b8_wk w, aw8_wv = b8_wv w, aw8_wo = b8_wo w\<rparr>) ac position backend)
              (the (b8_attention_norm w)) (the (b8_ffn_norm w)) mem c (the output) cache (the input)))"

definition block_q4_matmul ::
  "float_ops \<Rightarrow> u8 list \<Rightarrow> att1_backend_ops \<Rightarrow> f32 list \<Rightarrow> f32 list \<Rightarrow> nat \<Rightarrow> nat \<Rightarrow> q4_buffers \<Rightarrow> result_f32" where
  "block_q4_matmul fo int4_buf ops dst src rows cols w =
     (case bo_matmul_q4xf32 ops of
        Some f \<Rightarrow> f dst src rows cols w
      | None \<Rightarrow> non_null (att1_matmul_q4xf32 fo int4_buf (Some dst) (Some src) rows cols (Some w)))"

definition att1_transformer_block_forward_backend_q4 ::
  "float_ops \<Rightarrow> u8 list \<Rightarrow> memory \<Rightarrow> f32 list option \<Rightarrow> att1_kv_cache option \<Rightarrow> f32 list option
    \<Rightarrow> att1_transformer_block_q4_weights option \<Rightarrow> att1_transformer_block_config option \<Rightarrow> nat \<Rightarrow> att1_backend option
    \<Rightarrow> (int \<times> f32 list option \<times> att1_kv_cache option) option" where
  "att1_transformer_block_forward_backend_q4 fo int4_buf mem output cache input weights config position backend =
     (if output = None \<or> input = None then Some (-1, output, cache)
      else if backend_lacks (\<lambda>ops. Option.is_none (bo_rmsnorm_f32 ops) \<or> Option.is_none (bo_ffn_swiglu_f32 ops)) backend
      then Some (-1, output, cache)
      else if (case weights of None \<Rightarrow> True
               | Some w \<Rightarrow> b4_attention_norm w = None \<or> b4_ffn_norm w = None \<or> b4_wq w = None \<or> b4_wk w = None \<or> b4_wv w = None
                   \<or> b4_wo w = None \<or> b4_w_gate w = None \<or> b4_w_up w = None \<or> b4_w_down w = None)
      then Some (-1, output, cache)
      else if \<not> att1_block_config_valid config cache then Some (-1, output, cache)
      else
        (let w = the weights; c = the config; mm = block_q4_matmul fo int4_buf (backend_ops backend)
         in block_body fo (backend_ops backend)
              (\<lambda>i dst src. if i < 2 then mm dst src 1 (tb_model_dim c) (the ([b4_w_gate w, b4_w_up w] ! i))
                 else mm dst src 1 (tb_ffn_dim c) (the (b4_w_down w)))
              (\<lambda>mem out kv inp ac. att1_attention_forward_backend_q4 fo int4_buf mem out kv inp
                 (Some \<lparr>aw4_wq = b4_wq w, aw4_wk = b4_wk w, aw4_wv = b4_wv w, aw4_wo = b4_wo w\<rparr>) ac position backend)
              (the (b4_attention_norm w)) (the (b4_ffn_norm w)) mem c (the output) cache (the input)))"

definition att1_transformer_block_forward_f32 ::
  "float_ops \<Rightarrow> bool \<Rightarrow> memory \<Rightarrow> f32 list option \<Rightarrow> att1_kv_cache option \<Rightarrow> f32 list option \<Rightarrow> block_f32_weights option
    \<Rightarrow> att1_transformer_block_config option \<Rightarrow> nat \<Rightarrow> (int \<times> f32 list option \<times> att1_kv_cache option) option" where
  "att1_transformer_block_forward_f32 fo alloc mem output cache input weights config position =
     (case att1_backend_default_create fo alloc True of
        (status, backend) \<Rightarrow>
          (if status \<noteq> ATT1_OK then Some (-1, output, cache)
           else att1_transformer_block_forward_backend fo mem output cache input weights config position backend))"

end
