(* ===== verification/Event_Trace.thy ===== *)
theory Event_Trace
  imports Att_Prelude
begin

text \<open>
  The counters of an inference run (\<^verbatim>\<open>src/trace.c\<close>). The array of token times is the list of those recorded, its
  length the token count; what the array holds behind them cannot be read. A reading of the clock is an argument.
\<close>

section \<open>State\<close>

record att1_trace_counters =
  etc_tokens_decoded :: u64
  etc_token_time_us_total :: u64
  etc_token_time_us_max :: u64
  etc_layer_time_us_total :: u64
  etc_activation_bytes_sent :: u64
  etc_logits_bytes_produced :: u64
  etc_fabric_packets_sent :: u64
  etc_fabric_packets_received :: u64
  etc_fabric_payload_bytes_sent :: u64
  etc_fabric_payload_bytes_received :: u64
  etc_kv_appends :: u64
  etc_kv_key_reads :: u64
  etc_kv_value_reads :: u64
  etc_tile_layer_executions :: u64

record att1_trace_layer =
  etl_executions :: u64
  etl_time_us_total :: u64
  etl_kv_appends :: u64
  etl_kv_key_reads :: u64
  etl_kv_value_reads :: u64

record att1_trace_tile =
  ett_layer_executions :: u64
  ett_activation_bytes_sent :: u64
  ett_logits_bytes_produced :: u64

record att1_trace =
  et_layer_count :: nat
  et_tile_count :: nat
  et_token_capacity :: nat
  et_token_time_us :: "u64 list"
  et_counters :: att1_trace_counters
  et_layers :: "att1_trace_layer list"
  et_tiles :: "att1_trace_tile list option"

definition zero_trace_counters :: att1_trace_counters where
  "zero_trace_counters = \<lparr>etc_tokens_decoded = 0, etc_token_time_us_total = 0, etc_token_time_us_max = 0, etc_layer_time_us_total = 0,
     etc_activation_bytes_sent = 0, etc_logits_bytes_produced = 0, etc_fabric_packets_sent = 0, etc_fabric_packets_received = 0,
     etc_fabric_payload_bytes_sent = 0, etc_fabric_payload_bytes_received = 0, etc_kv_appends = 0, etc_kv_key_reads = 0,
     etc_kv_value_reads = 0, etc_tile_layer_executions = 0\<rparr>"

definition zero_trace_layer :: att1_trace_layer where
  "zero_trace_layer = \<lparr>etl_executions = 0, etl_time_us_total = 0, etl_kv_appends = 0, etl_kv_key_reads = 0, etl_kv_value_reads = 0\<rparr>"

definition zero_trace_tile :: att1_trace_tile where
  "zero_trace_tile = \<lparr>ett_layer_executions = 0, ett_activation_bytes_sent = 0, ett_logits_bytes_produced = 0\<rparr>"

section \<open>Lifecycle\<close>

text \<open>Room for one more token: the return value and the capacity; \<open>realloc_ok\<close> says whether the array can grow.\<close>

definition grow_tokens :: "bool \<Rightarrow> att1_trace \<Rightarrow> int \<times> att1_trace" where
  "grow_tokens realloc_ok t =
     (if length (et_token_time_us t) < et_token_capacity t then (0, t)
      else
        (let next_capacity = (if et_token_capacity t = 0 then 8 else (et_token_capacity t * 2) mod 2 ^ 64)
         in if next_capacity < et_token_capacity t then (-1, t)
            else if \<not> realloc_ok then (-1, t)
            else (0, t\<lparr>et_token_capacity := next_capacity\<rparr>)))"

definition att1_trace_create :: "(nat \<Rightarrow> bool) \<Rightarrow> nat \<Rightarrow> nat \<Rightarrow> bool \<Rightarrow> att1_status \<times> att1_trace option" where
  "att1_trace_create alloc layer_count tile_count out_ok =
     (if \<not> out_ok \<or> layer_count = 0 then (ATT1_ERR_INVALID_ARG, None)
      else if \<not> alloc 0 \<or> \<not> alloc 1 then (ATT1_ERR_OOM, None)
      else if tile_count \<noteq> 0 \<and> \<not> alloc 2 then (ATT1_ERR_OOM, None)
      else (ATT1_OK, Some \<lparr>et_layer_count = layer_count, et_tile_count = tile_count, et_token_capacity = 0, et_token_time_us = [],
              et_counters = zero_trace_counters, et_layers = replicate layer_count zero_trace_layer,
              et_tiles = (if tile_count \<noteq> 0 then Some (replicate tile_count zero_trace_tile) else None)\<rparr>))"

definition att1_trace_reset :: "att1_trace option \<Rightarrow> att1_trace option" where
  "att1_trace_reset = map_option (\<lambda>t. t\<lparr>et_token_time_us := [], et_counters := zero_trace_counters,
     et_layers := replicate (et_layer_count t) zero_trace_layer,
     et_tiles := map_option (\<lambda>_. replicate (et_tile_count t) zero_trace_tile) (et_tiles t)\<rparr>)"

section \<open>Snapshots\<close>

text \<open>The value stored in the output comes back with the status; \<open>out_ok\<close>: the output is not \<^verbatim>\<open>NULL\<close>.\<close>

definition att1_trace_snapshot :: "att1_trace option \<Rightarrow> bool \<Rightarrow> att1_status \<times> att1_trace_counters option" where
  "att1_trace_snapshot tp out_ok =
     (case tp of
        Some t \<Rightarrow> if out_ok then (ATT1_OK, Some (et_counters t)) else (ATT1_ERR_INVALID_ARG, None)
      | None \<Rightarrow> (ATT1_ERR_INVALID_ARG, None))"

definition att1_trace_layer_snapshot :: "att1_trace option \<Rightarrow> nat \<Rightarrow> bool \<Rightarrow> att1_status \<times> att1_trace_layer option" where
  "att1_trace_layer_snapshot tp layer_id out_ok =
     (case tp of
        Some t \<Rightarrow> if \<not> out_ok \<or> et_layer_count t \<le> layer_id then (ATT1_ERR_INVALID_ARG, None)
                  else (ATT1_OK, Some (et_layers t ! layer_id))
      | None \<Rightarrow> (ATT1_ERR_INVALID_ARG, None))"

definition att1_trace_tile_snapshot :: "att1_trace option \<Rightarrow> nat \<Rightarrow> bool \<Rightarrow> att1_status \<times> att1_trace_tile option" where
  "att1_trace_tile_snapshot tp tile_id out_ok =
     (case tp of
        Some t \<Rightarrow> if \<not> out_ok \<or> et_tile_count t \<le> tile_id \<or> et_tiles t = None then (ATT1_ERR_INVALID_ARG, None)
                  else (ATT1_OK, Some (the (et_tiles t) ! tile_id))
      | None \<Rightarrow> (ATT1_ERR_INVALID_ARG, None))"

definition att1_trace_token_time_us :: "att1_trace option \<Rightarrow> nat \<Rightarrow> bool \<Rightarrow> att1_status \<times> u64 option" where
  "att1_trace_token_time_us tp token_index out_ok =
     (case tp of
        Some t \<Rightarrow> if \<not> out_ok \<or> length (et_token_time_us t) \<le> token_index then (ATT1_ERR_INVALID_ARG, None)
                  else (ATT1_OK, Some (et_token_time_us t ! token_index))
      | None \<Rightarrow> (ATT1_ERR_INVALID_ARG, None))"

definition att1_trace_layer_count :: "att1_trace option \<Rightarrow> nat" where
  "att1_trace_layer_count tp = (case tp of Some t \<Rightarrow> et_layer_count t | None \<Rightarrow> 0)"

definition att1_trace_tile_count :: "att1_trace option \<Rightarrow> nat" where
  "att1_trace_tile_count tp = (case tp of Some t \<Rightarrow> et_tile_count t | None \<Rightarrow> 0)"

definition att1_trace_token_count :: "att1_trace option \<Rightarrow> nat" where
  "att1_trace_token_count tp = (case tp of Some t \<Rightarrow> length (et_token_time_us t) | None \<Rightarrow> 0)"

text \<open>\<open>now\<close> is what \<^verbatim>\<open>clock()\<close> returns.\<close>

definition att1_trace_now_us :: "int \<Rightarrow> u64 \<Rightarrow> u64" where
  "att1_trace_now_us now clocks_per_sec = (if now = -1 then 0 else (word_of_int now * 1000000) div clocks_per_sec)"

section \<open>Recording\<close>

definition att1_trace_record_token :: "bool \<Rightarrow> att1_trace option \<Rightarrow> u64 \<Rightarrow> att1_trace option" where
  "att1_trace_record_token realloc_ok tp time_us =
     map_option (\<lambda>t.
       let (rc, t1) = grow_tokens realloc_ok t;
           t2 = (if rc = 0 then t1\<lparr>et_token_time_us := et_token_time_us t1 @ [time_us]\<rparr> else t1);
           c = et_counters t2
       in t2\<lparr>et_counters := c\<lparr>etc_tokens_decoded := etc_tokens_decoded c + 1,
            etc_token_time_us_total := etc_token_time_us_total c + time_us,
            etc_token_time_us_max := (if etc_token_time_us_max c < time_us then time_us else etc_token_time_us_max c)\<rparr>\<rparr>) tp"

definition att1_trace_record_layer :: "att1_trace option \<Rightarrow> nat \<Rightarrow> u64 \<Rightarrow> u64 \<Rightarrow> u64 \<Rightarrow> u64 \<Rightarrow> att1_trace option" where
  "att1_trace_record_layer tp layer_id time_us kv_appends kv_key_reads kv_value_reads =
     map_option (\<lambda>t.
       if et_layer_count t \<le> layer_id then t
       else
         (let l = et_layers t ! layer_id; c = et_counters t
          in t\<lparr>et_layers := (et_layers t)[layer_id := \<lparr>etl_executions = etl_executions l + 1,
                 etl_time_us_total = etl_time_us_total l + time_us, etl_kv_appends = etl_kv_appends l + kv_appends,
                 etl_kv_key_reads = etl_kv_key_reads l + kv_key_reads, etl_kv_value_reads = etl_kv_value_reads l + kv_value_reads\<rparr>],
               et_counters := c\<lparr>etc_layer_time_us_total := etc_layer_time_us_total c + time_us,
                 etc_kv_appends := etc_kv_appends c + kv_appends, etc_kv_key_reads := etc_kv_key_reads c + kv_key_reads,
                 etc_kv_value_reads := etc_kv_value_reads c + kv_value_reads\<rparr>\<rparr>)) tp"

text \<open>The per-tile part of the next three, when the tile has an entry.\<close>

definition upd_trace_tile :: "nat \<Rightarrow> (att1_trace_tile \<Rightarrow> att1_trace_tile) \<Rightarrow> att1_trace \<Rightarrow> att1_trace" where
  "upd_trace_tile tile_id g t =
     (case et_tiles t of
        None \<Rightarrow> t
      | Some ts \<Rightarrow> if tile_id < et_tile_count t then t\<lparr>et_tiles := Some (ts[tile_id := g (ts ! tile_id)])\<rparr> else t)"

definition att1_trace_record_activation_send :: "att1_trace option \<Rightarrow> nat \<Rightarrow> u64 \<Rightarrow> att1_trace option" where
  "att1_trace_record_activation_send tp tile_id bytes =
     map_option (\<lambda>t. let c = et_counters t in
       upd_trace_tile tile_id (\<lambda>s. s\<lparr>ett_activation_bytes_sent := ett_activation_bytes_sent s + bytes\<rparr>)
         (t\<lparr>et_counters := c\<lparr>etc_activation_bytes_sent := etc_activation_bytes_sent c + bytes\<rparr>\<rparr>)) tp"

definition att1_trace_record_logits :: "att1_trace option \<Rightarrow> nat \<Rightarrow> u64 \<Rightarrow> att1_trace option" where
  "att1_trace_record_logits tp tile_id bytes =
     map_option (\<lambda>t. let c = et_counters t in
       upd_trace_tile tile_id (\<lambda>s. s\<lparr>ett_logits_bytes_produced := ett_logits_bytes_produced s + bytes\<rparr>)
         (t\<lparr>et_counters := c\<lparr>etc_logits_bytes_produced := etc_logits_bytes_produced c + bytes\<rparr>\<rparr>)) tp"

definition att1_trace_record_fabric_send :: "att1_trace option \<Rightarrow> u64 \<Rightarrow> att1_trace option" where
  "att1_trace_record_fabric_send tp payload_bytes =
     map_option (\<lambda>t. let c = et_counters t in
       t\<lparr>et_counters := c\<lparr>etc_fabric_packets_sent := etc_fabric_packets_sent c + 1,
         etc_fabric_payload_bytes_sent := etc_fabric_payload_bytes_sent c + payload_bytes\<rparr>\<rparr>) tp"

definition att1_trace_record_fabric_receive :: "att1_trace option \<Rightarrow> u64 \<Rightarrow> att1_trace option" where
  "att1_trace_record_fabric_receive tp payload_bytes =
     map_option (\<lambda>t. let c = et_counters t in
       t\<lparr>et_counters := c\<lparr>etc_fabric_packets_received := etc_fabric_packets_received c + 1,
         etc_fabric_payload_bytes_received := etc_fabric_payload_bytes_received c + payload_bytes\<rparr>\<rparr>) tp"

definition att1_trace_record_tile_layers :: "att1_trace option \<Rightarrow> nat \<Rightarrow> u64 \<Rightarrow> att1_trace option" where
  "att1_trace_record_tile_layers tp tile_id layer_count =
     map_option (\<lambda>t. let c = et_counters t in
       upd_trace_tile tile_id (\<lambda>s. s\<lparr>ett_layer_executions := ett_layer_executions s + layer_count\<rparr>)
         (t\<lparr>et_counters := c\<lparr>etc_tile_layer_executions := etc_tile_layer_executions c + layer_count\<rparr>\<rparr>)) tp"

section \<open>Totals\<close>

text \<open>
  The traces a program can get to, with every event naming a tile of the trace. (An event with another tile number
  enters the totals and no tile.)
\<close>

inductive trace_reachable :: "att1_trace \<Rightarrow> bool" where
  create: "att1_trace_create alloc layers tiles True = (ATT1_OK, Some t) \<Longrightarrow> trace_reachable t"
| reset: "trace_reachable t \<Longrightarrow> att1_trace_reset (Some t) = Some t' \<Longrightarrow> trace_reachable t'"
| token: "trace_reachable t \<Longrightarrow> att1_trace_record_token realloc_ok (Some t) us = Some t' \<Longrightarrow> trace_reachable t'"
| layer: "trace_reachable t \<Longrightarrow> att1_trace_record_layer (Some t) l us a k v = Some t' \<Longrightarrow> trace_reachable t'"
| activation: "trace_reachable t \<Longrightarrow> i < et_tile_count t \<Longrightarrow> att1_trace_record_activation_send (Some t) i n = Some t' \<Longrightarrow> trace_reachable t'"
| logits: "trace_reachable t \<Longrightarrow> i < et_tile_count t \<Longrightarrow> att1_trace_record_logits (Some t) i n = Some t' \<Longrightarrow> trace_reachable t'"
| tile_layers: "trace_reachable t \<Longrightarrow> i < et_tile_count t \<Longrightarrow> att1_trace_record_tile_layers (Some t) i n = Some t' \<Longrightarrow> trace_reachable t'"
| fabric_send: "trace_reachable t \<Longrightarrow> att1_trace_record_fabric_send (Some t) n = Some t' \<Longrightarrow> trace_reachable t'"
| fabric_receive: "trace_reachable t \<Longrightarrow> att1_trace_record_fabric_receive (Some t) n = Some t' \<Longrightarrow> trace_reachable t'"

definition trace_inv :: "att1_trace \<Rightarrow> bool" where
  "trace_inv t \<longleftrightarrow> (let c = et_counters t; ls = et_layers t in
     length ls = et_layer_count t \<and> length (et_token_time_us t) \<le> et_token_capacity t \<and> et_token_capacity t < 2 ^ 64
     \<and> etc_layer_time_us_total c = sum_list (map etl_time_us_total ls)
     \<and> etc_kv_appends c = sum_list (map etl_kv_appends ls)
     \<and> etc_kv_key_reads c = sum_list (map etl_kv_key_reads ls)
     \<and> etc_kv_value_reads c = sum_list (map etl_kv_value_reads ls)
     \<and> (case et_tiles t of
          None \<Rightarrow> et_tile_count t = 0
        | Some ts \<Rightarrow> length ts = et_tile_count t
            \<and> etc_activation_bytes_sent c = sum_list (map ett_activation_bytes_sent ts)
            \<and> etc_logits_bytes_produced c = sum_list (map ett_logits_bytes_produced ts)
            \<and> etc_tile_layer_executions c = sum_list (map ett_layer_executions ts)))"

lemma sum_list_map_update:
  "i < length xs \<Longrightarrow> sum_list (map f (xs[i := y])) = sum_list (map f xs) + (f y - f (xs ! i) :: 'b::ab_group_add)"
  by (induction xs arbitrary: i) (auto split: nat.split)

lemma trace_inv_tile:
  assumes "trace_inv t" "i < et_tile_count t"
  shows "trace_inv (upd_trace_tile i (\<lambda>s. s\<lparr>ett_activation_bytes_sent := ett_activation_bytes_sent s + n\<rparr>)
      (t\<lparr>et_counters := (et_counters t)\<lparr>etc_activation_bytes_sent := etc_activation_bytes_sent (et_counters t) + n\<rparr>\<rparr>))"
    and "trace_inv (upd_trace_tile i (\<lambda>s. s\<lparr>ett_logits_bytes_produced := ett_logits_bytes_produced s + n\<rparr>)
      (t\<lparr>et_counters := (et_counters t)\<lparr>etc_logits_bytes_produced := etc_logits_bytes_produced (et_counters t) + n\<rparr>\<rparr>))"
    and "trace_inv (upd_trace_tile i (\<lambda>s. s\<lparr>ett_layer_executions := ett_layer_executions s + n\<rparr>)
      (t\<lparr>et_counters := (et_counters t)\<lparr>etc_tile_layer_executions := etc_tile_layer_executions (et_counters t) + n\<rparr>\<rparr>))"
  using assms by (auto simp: trace_inv_def upd_trace_tile_def sum_list_map_update Let_def split: option.splits)

lemma trace_inv_layer:
  assumes "trace_inv t" "att1_trace_record_layer (Some t) l us a k v = Some t'"
  shows "trace_inv t'"
  using assms by (auto simp: trace_inv_def att1_trace_record_layer_def sum_list_map_update Let_def split: if_splits option.splits)

lemma grow_tokens_room:
  assumes "grow_tokens realloc_ok t = (rc, t')" "length (et_token_time_us t) \<le> et_token_capacity t" "et_token_capacity t < 2 ^ 64"
  shows "\<exists>k < 2 ^ 64. t' = t\<lparr>et_token_capacity := k\<rparr> \<and> length (et_token_time_us t) \<le> k \<and> (rc = 0 \<longrightarrow> length (et_token_time_us t) < k)"
proof -
  let ?k = "et_token_capacity t"
  have same: "t = t\<lparr>et_token_capacity := ?k\<rparr>" by simp
  have "?k < (?k * 2) mod 2 ^ 64" if "?k \<noteq> 0" "\<not> (?k * 2) mod 2 ^ 64 < ?k"
  proof (cases "?k * 2 < 2 ^ 64")
    case False
    then have "(?k * 2) mod 2 ^ 64 = ?k * 2 - 2 ^ 64" using assms(3) by (simp add: mod_if)
    then show ?thesis using that assms(3) by simp
  qed (use that in simp)
  moreover have "(?k * 2) mod 2 ^ 64 < 2 ^ 64" by simp
  ultimately show ?thesis using assms same unfolding grow_tokens_def Let_def
    by (auto split: if_splits intro: exI [of _ ?k] exI [of _ "(?k * 2) mod 2 ^ 64"] exI [of _ 8])
qed

lemma trace_inv_token:
  assumes "trace_inv t" "att1_trace_record_token realloc_ok (Some t) us = Some t'"
  shows "trace_inv t'"
proof -
  obtain rc t1 where g: "grow_tokens realloc_ok t = (rc, t1)" by force
  obtain k where k: "k < 2 ^ 64" "t1 = t\<lparr>et_token_capacity := k\<rparr>" "length (et_token_time_us t) \<le> k"
    "rc = 0 \<longrightarrow> length (et_token_time_us t) < k"
    using grow_tokens_room [OF g] assms(1) by (auto simp: trace_inv_def Let_def)
  show ?thesis
    by (cases "rc = 0") (use assms k g in \<open>auto simp: trace_inv_def att1_trace_record_token_def Let_def split: option.splits\<close>)
qed

lemma trace_reachable_inv: "trace_reachable t \<Longrightarrow> trace_inv t"
proof (induction rule: trace_reachable.induct)
  case (create alloc layers tiles t)
  then show ?case
    by (auto simp: trace_inv_def att1_trace_create_def zero_trace_counters_def zero_trace_layer_def zero_trace_tile_def
        sum_list_replicate split: if_splits)
next
  case (reset t t')
  then show ?case
    by (auto simp: trace_inv_def att1_trace_reset_def zero_trace_counters_def zero_trace_layer_def zero_trace_tile_def Let_def
        sum_list_replicate split: option.splits)
next
  case (token t ok us t')
  then show ?case using trace_inv_token by blast
next
  case (layer t l us a k v t')
  then show ?case using trace_inv_layer by blast
next
  case (activation t i n t')
  then show ?case using trace_inv_tile(1) by (auto simp: att1_trace_record_activation_send_def Let_def)
next
  case (logits t i n t')
  then show ?case using trace_inv_tile(2) by (auto simp: att1_trace_record_logits_def Let_def)
next
  case (tile_layers t i n t')
  then show ?case using trace_inv_tile(3) by (auto simp: att1_trace_record_tile_layers_def Let_def)
next
  case (fabric_send t n t')
  then show ?case by (auto simp: trace_inv_def att1_trace_record_fabric_send_def Let_def split: option.splits)
next
  case (fabric_receive t n t')
  then show ?case by (auto simp: trace_inv_def att1_trace_record_fabric_receive_def Let_def split: option.splits)
qed



end
