(* ===== verification/Infer_Weights.thy ===== *)
theory Infer_Weights
  imports Attention Model_View Event_Trace
begin

text \<open>
  The state of an inference context and the weights it computes with (\<^verbatim>\<open>src/infer.c\<close>, first half; the same functions
  again in \<^verbatim>\<open>src/cluster_infer.c\<close>, whose state extends the record). The model is constant, so
  a view of its file data is held as the elements behind the pointer, up to the end of the file. Alignment is not
  modelled. \<open>alloc i\<close> says whether the i-th allocation of the call succeeds.
\<close>

section \<open>Views as buffers\<close>

definition bytes_behind :: "att1_model \<Rightarrow> u64 option \<Rightarrow> u8 list option" where
  "bytes_behind m p =
     (case (p, md_file_data m) of
        (Some off, Some data) \<Rightarrow> Some (drop (unat off) data)
      | _ \<Rightarrow> None)"

definition f32s_of :: "u8 list \<Rightarrow> f32 list" where
  "f32s_of bs = map (\<lambda>i. read_u32le (read_bytes (4 * i) 4 bs)) [0..<length bs div 4]"

definition f32s_behind :: "att1_model \<Rightarrow> u64 option \<Rightarrow> f32 list option" where
  "f32s_behind m p = map_option f32s_of (bytes_behind m p)"

definition q8_of_view :: "att1_model \<Rightarrow> att1_q8_matrix \<Rightarrow> q8_buffers" where
  "q8_of_view m v = \<lparr>qb_rows = unat (q8_rows v), qb_cols = unat (q8_cols v), qb_values = bytes_behind m (q8_values v),
     qb_scales = f32s_behind m (q8_scales v)\<rparr>"

definition q4_of_view :: "att1_model \<Rightarrow> att1_q4_matrix \<Rightarrow> q4_buffers" where
  "q4_of_view m v = \<lparr>pb_rows = unat (q4_rows v), pb_cols = unat (q4_cols v), pb_group_size = q4_group_size v,
     pb_packed = bytes_behind m (q4_packed v), pb_scales = f32s_behind m (q4_scales v)\<rparr>"

definition weights_of_view :: "att1_model \<Rightarrow> att1_transformer_block_weights \<Rightarrow> block_f32_weights" where
  "weights_of_view m w = \<lparr>bf_attention_norm = f32s_behind m (bw_attention_norm w), bf_ffn_norm = f32s_behind m (bw_ffn_norm w),
     bf_wq = f32s_behind m (bw_wq w), bf_wk = f32s_behind m (bw_wk w), bf_wv = f32s_behind m (bw_wv w), bf_wo = f32s_behind m (bw_wo w),
     bf_w_gate = f32s_behind m (bw_w_gate w), bf_w_up = f32s_behind m (bw_w_up w), bf_w_down = f32s_behind m (bw_w_down w)\<rparr>"

section \<open>State\<close>

record att1_infer_q8_layer =
  iq8_attention_norm :: "f32 list option"
  iq8_ffn_norm :: "f32 list option"
  iq8_wq :: q8_buffers
  iq8_wk :: q8_buffers
  iq8_wv :: q8_buffers
  iq8_wo :: q8_buffers
  iq8_w_gate :: q8_buffers
  iq8_w_up :: q8_buffers
  iq8_w_down :: q8_buffers

record att1_infer_q4_layer =
  iq4_attention_norm :: "f32 list option"
  iq4_ffn_norm :: "f32 list option"
  iq4_wq :: q4_buffers
  iq4_wk :: q4_buffers
  iq4_wv :: q4_buffers
  iq4_wo :: q4_buffers
  iq4_w_gate :: q4_buffers
  iq4_w_up :: q4_buffers
  iq4_w_down :: q4_buffers

definition zero_q8_layer :: att1_infer_q8_layer where
  "zero_q8_layer = \<lparr>iq8_attention_norm = None, iq8_ffn_norm = None, iq8_wq = zero_q8_buffers, iq8_wk = zero_q8_buffers,
     iq8_wv = zero_q8_buffers, iq8_wo = zero_q8_buffers, iq8_w_gate = zero_q8_buffers, iq8_w_up = zero_q8_buffers,
     iq8_w_down = zero_q8_buffers\<rparr>"

definition zero_q4_layer :: att1_infer_q4_layer where
  "zero_q4_layer = \<lparr>iq4_attention_norm = None, iq4_ffn_norm = None, iq4_wq = zero_q4_buffers, iq4_wk = zero_q4_buffers,
     iq4_wv = zero_q4_buffers, iq4_wo = zero_q4_buffers, iq4_w_gate = zero_q4_buffers, iq4_w_up = zero_q4_buffers,
     iq4_w_down = zero_q4_buffers\<rparr>"

record att1_infer =
  in_model :: att1_model
  in_layer_kv :: "att1_kv_cache list"
  in_hidden :: "f32 list"
  in_next_hidden :: "f32 list"
  in_norm :: "f32 list"
  in_logits :: "f32 list"
  in_backend :: att1_backend
  in_q8_layers :: "att1_infer_q8_layer list option"
  in_q8_output_norm :: "f32 list option"
  in_q8_output_weight :: q8_buffers
  in_q8_owned :: bool
  in_q8_ready :: bool
  in_q4_layers :: "att1_infer_q4_layer list option"
  in_q4_output_norm :: "f32 list option"
  in_q4_output_weight :: q4_buffers
  in_q4_ready :: bool
  in_trace :: "att1_trace option"
  in_position :: nat

abbreviation in_config :: "'a att1_infer_scheme \<Rightarrow> att1_model_config" where
  "in_config st \<equiv> md_config (in_model st)"

definition infer_release_q8 :: "'a att1_infer_scheme \<Rightarrow> 'a att1_infer_scheme" where
  "infer_release_q8 st = st\<lparr>in_q8_layers := None,
     in_q8_output_weight := (if in_q8_owned st then zero_q8_buffers else in_q8_output_weight st),
     in_q8_output_norm := None, in_q8_owned := False, in_q8_ready := False\<rparr>"

definition infer_release_q4 :: "'a att1_infer_scheme \<Rightarrow> 'a att1_infer_scheme" where
  "infer_release_q4 st = st\<lparr>in_q4_layers := None, in_q4_output_norm := None, in_q4_output_weight := zero_q4_buffers,
     in_q4_ready := False\<rparr>"

section \<open>Back ends\<close>

definition infer_backend_is_q8 :: "att1_backend option \<Rightarrow> bool" where
  "infer_backend_is_q8 backend =
     (case backend of None \<Rightarrow> False
      | Some b \<Rightarrow> (case be_ops b of None \<Rightarrow> False
                   | Some ops \<Rightarrow> bo_name ops = Some ''cpu-q8'' \<or> bo_name ops = Some ''cuda-q8''))"

definition infer_backend_is_q4 :: "att1_backend option \<Rightarrow> bool" where
  "infer_backend_is_q4 backend =
     (case backend of None \<Rightarrow> False
      | Some b \<Rightarrow> (case be_ops b of None \<Rightarrow> False
                   | Some ops \<Rightarrow> bo_name ops = Some ''cpu-q4'' \<or> bo_name ops = Some ''cuda-q4''))"

definition infer_backend_supports_q4 :: "att1_backend option \<Rightarrow> bool" where
  "infer_backend_supports_q4 backend \<longleftrightarrow> infer_backend_is_q4 backend
     \<and> (let ops = backend_ops backend in bo_alloc ops \<and> bo_free ops \<and> \<not> Option.is_none (bo_rmsnorm_f32 ops)
        \<and> \<not> Option.is_none (bo_softmax_f32 ops) \<and> \<not> Option.is_none (bo_rope_f32 ops) \<and> \<not> Option.is_none (bo_ffn_swiglu_f32 ops))"

definition infer_backend_supports_q8 :: "att1_backend option \<Rightarrow> bool" where
  "infer_backend_supports_q8 backend \<longleftrightarrow> infer_backend_is_q8 backend
     \<and> (let ops = backend_ops backend in bo_alloc ops \<and> bo_free ops \<and> \<not> Option.is_none (bo_matmul_q8xf32 ops)
        \<and> \<not> Option.is_none (bo_rmsnorm_f32 ops) \<and> \<not> Option.is_none (bo_softmax_f32 ops) \<and> \<not> Option.is_none (bo_rope_f32 ops)
        \<and> \<not> Option.is_none (bo_ffn_swiglu_f32 ops))"

definition infer_matmul_q4 ::
  "float_ops \<Rightarrow> u8 list \<Rightarrow> att1_backend_ops \<Rightarrow> f32 list \<Rightarrow> f32 list \<Rightarrow> nat \<Rightarrow> nat \<Rightarrow> q4_buffers \<Rightarrow> result_f32" where
  "infer_matmul_q4 fo int4_buf ops dst src rows cols w =
     (case bo_matmul_q4xf32 ops of
        Some f \<Rightarrow> f dst src rows cols w
      | None \<Rightarrow> non_null (att1_matmul_q4xf32 fo int4_buf (Some dst) (Some src) rows cols (Some w)))"

section \<open>Eight-bit weights\<close>

text \<open>\<^verbatim>\<open>size_t\<close> wraps in the size of the scratch matrix; storing to one that is too small is \<^term>\<open>None\<close>.\<close>

definition infer_quantize_transposed ::
  "float_ops \<Rightarrow> (nat \<Rightarrow> bool) \<Rightarrow> q8_buffers \<Rightarrow> f32 list option \<Rightarrow> nat \<Rightarrow> nat \<Rightarrow> (int \<times> q8_buffers) option" where
  "infer_quantize_transposed fo alloc matrix weights input_count output_count =
     (case weights of
        None \<Rightarrow> Some (-1, matrix)
      | Some ws \<Rightarrow>
        (if input_count = 0 \<or> output_count = 0 then Some (-1, matrix)
         else if SIZE_MAX div output_count < input_count then Some (-1, matrix)
         else if \<not> alloc 0 then Some (-1, matrix)
         else if 2 ^ 64 \<le> input_count * output_count * 4 \<or> length ws < input_count * output_count then None
         else
           (let transposed = map (\<lambda>i. ws ! (i mod input_count * output_count + i div input_count)) [0..<output_count * input_count]
            in case att1_quantize_q8_per_row fo (\<lambda>i. alloc (i + 1)) (Some matrix) (Some transposed) output_count input_count of
                 None \<Rightarrow> None
               | Some (rc, m) \<Rightarrow> Some (rc, the m))))"

definition infer_model_has_file_q8 :: "att1_model \<Rightarrow> bool" where
  "infer_model_has_file_q8 m =
     (case found_tensor m (str_bytes ''output.weight'') of None \<Rightarrow> False | Some t \<Rightarrow> mt_dtype t = MODEL_DTYPE_Q8)"

definition infer_layer_q8_name :: "nat \<Rightarrow> u32 \<Rightarrow> string \<Rightarrow> att1_status \<times> u8 list option" where
  "infer_layer_q8_name out_size layer suffix =
     (case layer_name out_size layer suffix of
        None \<Rightarrow> (ATT1_ERR_INVALID_ARG, None)
      | Some name \<Rightarrow> (ATT1_OK, Some name))"

text \<open>The macro and its float counterpart: name, view, store; a status other than \<^verbatim>\<open>ATT1_OK\<close> is passed through.\<close>

definition LOAD_Q8 ::
  "att1_model \<Rightarrow> u32 \<Rightarrow> (q8_buffers \<Rightarrow> 'l \<Rightarrow> 'l) \<Rightarrow> string \<Rightarrow> u64 \<Rightarrow> u64 \<Rightarrow> att1_status \<times> 'l \<Rightarrow> att1_status \<times> 'l" where
  "LOAD_Q8 m layer set_member suffix rows cols acc =
     (let (status, q) = acc in
      if status \<noteq> ATT1_OK then (status, q)
      else
        (case infer_layer_q8_name MODEL_NAME_SIZE layer suffix of
           (status, name) \<Rightarrow>
             (if status \<noteq> ATT1_OK then (status, q)
              else (let (st, out) = att1_model_view_tensor_q8 (Some m) name rows cols (Some zero_q8_matrix)
                    in (st, set_member (q8_of_view m (the out)) q)))))"

definition LOAD_F32 ::
  "att1_model \<Rightarrow> u32 \<Rightarrow> (f32 list option \<Rightarrow> 'l \<Rightarrow> 'l) \<Rightarrow> string \<Rightarrow> u32 \<Rightarrow> u64 \<Rightarrow> u64 \<Rightarrow> att1_status \<times> 'l \<Rightarrow> att1_status \<times> 'l" where
  "LOAD_F32 m layer set_member suffix nd d0 d1 acc =
     (let (status, q) = acc in
      if status \<noteq> ATT1_OK then (status, q)
      else
        (case infer_layer_q8_name MODEL_NAME_SIZE layer suffix of
           (status, name) \<Rightarrow>
             (if status \<noteq> ATT1_OK then (status, q)
              else (let (st, out) = att1_model_view_tensor_f32 (Some m) name nd d0 d1 (Some None)
                    in (st, set_member (f32s_behind m (the out)) q)))))"

definition infer_load_file_q8_layer :: "att1_model \<Rightarrow> u32 \<Rightarrow> att1_infer_q8_layer \<Rightarrow> att1_status \<times> att1_infer_q8_layer" where
  "infer_load_file_q8_layer m layer q8 =
     (let d_model = ucast (mc_d_model (md_config m)); d_ff = ucast (mc_d_ff (md_config m));
          a1 = LOAD_F32 m layer (\<lambda>v q. q\<lparr>iq8_attention_norm := v\<rparr>) ''attention_norm.weight'' 1 d_model 1 (ATT1_OK, q8);
          a2 = LOAD_Q8 m layer (\<lambda>v q. q\<lparr>iq8_wq := v\<rparr>) ''attention.wq.weight'' d_model d_model a1;
          a3 = LOAD_Q8 m layer (\<lambda>v q. q\<lparr>iq8_wk := v\<rparr>) ''attention.wk.weight'' d_model d_model a2;
          a4 = LOAD_Q8 m layer (\<lambda>v q. q\<lparr>iq8_wv := v\<rparr>) ''attention.wv.weight'' d_model d_model a3;
          a5 = LOAD_Q8 m layer (\<lambda>v q. q\<lparr>iq8_wo := v\<rparr>) ''attention.wo.weight'' d_model d_model a4;
          a6 = LOAD_F32 m layer (\<lambda>v q. q\<lparr>iq8_ffn_norm := v\<rparr>) ''ffn_norm.weight'' 1 d_model 1 a5;
          a7 = LOAD_Q8 m layer (\<lambda>v q. q\<lparr>iq8_w_gate := v\<rparr>) ''ffn.w_gate.weight'' d_ff d_model a6;
          a8 = LOAD_Q8 m layer (\<lambda>v q. q\<lparr>iq8_w_up := v\<rparr>) ''ffn.w_up.weight'' d_ff d_model a7
      in LOAD_Q8 m layer (\<lambda>v q. q\<lparr>iq8_w_down := v\<rparr>) ''ffn.w_down.weight'' d_model d_ff a8)"

text \<open>A loop over the layers that stops at the first status other than \<^verbatim>\<open>ATT1_OK\<close>.\<close>

fun load_layers :: "(u32 \<Rightarrow> att1_status \<times> 'l) \<Rightarrow> nat list \<Rightarrow> 'l list \<Rightarrow> att1_status \<times> 'l list" where
  "load_layers load [] ls = (ATT1_OK, ls)"
| "load_layers load (layer # rest) ls =
     (case load (word_of_nat layer) of
        (status, q) \<Rightarrow> if status \<noteq> ATT1_OK then (status, ls) else load_layers load rest (ls @ [q]))"

definition infer_prepare_file_q8 :: "(nat \<Rightarrow> bool) \<Rightarrow> 'a att1_infer_scheme \<Rightarrow> att1_status \<times> 'a att1_infer_scheme" where
  "infer_prepare_file_q8 alloc st =
     (let m = in_model st; c = md_config m in
      if \<not> alloc 0 then (ATT1_ERR_OOM, st\<lparr>in_q8_layers := None\<rparr>)
      else
        (case load_layers (\<lambda>layer. infer_load_file_q8_layer m layer zero_q8_layer) [0..<unat (mc_n_layers c)] [] of
           (status, layers) \<Rightarrow>
             (if status \<noteq> ATT1_OK then (status, infer_release_q8 st)
              else
                (case att1_model_view_output_norm (Some m) (Some None) of
                   (status, norm) \<Rightarrow>
                     (if status \<noteq> ATT1_OK then (status, infer_release_q8 st)
                      else
                        (case att1_model_view_tensor_q8 (Some m) (Some (str_bytes ''output.weight''))
                                (ucast (mc_vocab_size c)) (ucast (mc_d_model c)) (Some zero_q8_matrix) of
                           (status, weight) \<Rightarrow>
                             (let st = st\<lparr>in_q8_layers := Some layers, in_q8_output_norm := f32s_behind m (the norm),
                                         in_q8_output_weight := q8_of_view m (the weight)\<rparr>
                              in if status \<noteq> ATT1_OK then (status, infer_release_q8 st)
                                 else (ATT1_OK, st\<lparr>in_q8_owned := False, in_q8_ready := True\<rparr>))))))))"

text \<open>The seven matrices of a layer, up to the first that cannot be quantised; three allocations each.\<close>

fun quantize_matrices ::
  "float_ops \<Rightarrow> (nat \<Rightarrow> bool) \<Rightarrow> ((q8_buffers \<Rightarrow> 'l \<Rightarrow> 'l) \<times> f32 list option \<times> nat \<times> nat) list \<Rightarrow> 'l \<Rightarrow> (int \<times> 'l) option" where
  "quantize_matrices fo alloc [] q = Some (0, q)"
| "quantize_matrices fo alloc ((set_member, weights, input_count, output_count) # rest) q = do {
     (rc, matrix) \<leftarrow> infer_quantize_transposed fo alloc zero_q8_buffers weights input_count output_count;
     if rc \<noteq> 0 then Some (-1, q) else quantize_matrices fo (\<lambda>i. alloc (i + 3)) rest (set_member matrix q)
   }"

definition quantize_layer ::
  "float_ops \<Rightarrow> (nat \<Rightarrow> bool) \<Rightarrow> att1_model \<Rightarrow> u32 \<Rightarrow> (att1_status \<times> att1_infer_q8_layer) option" where
  "quantize_layer fo alloc m layer =
     (case att1_model_view_load_layer_weights (Some m) layer (Some zero_block_weights) of
        (status, view) \<Rightarrow>
          (if status \<noteq> ATT1_OK then Some (status, zero_q8_layer)
           else
             (let w = weights_of_view m (the view); md = unat (mc_d_model (md_config m)); fd = unat (mc_d_ff (md_config m)) in
              do {
                (rc, q) \<leftarrow> quantize_matrices fo alloc
                   [(\<lambda>v q. q\<lparr>iq8_wq := v\<rparr>, bf_wq w, md, md), (\<lambda>v q. q\<lparr>iq8_wk := v\<rparr>, bf_wk w, md, md),
                    (\<lambda>v q. q\<lparr>iq8_wv := v\<rparr>, bf_wv w, md, md), (\<lambda>v q. q\<lparr>iq8_wo := v\<rparr>, bf_wo w, md, md),
                    (\<lambda>v q. q\<lparr>iq8_w_gate := v\<rparr>, bf_w_gate w, md, fd), (\<lambda>v q. q\<lparr>iq8_w_up := v\<rparr>, bf_w_up w, md, fd),
                    (\<lambda>v q. q\<lparr>iq8_w_down := v\<rparr>, bf_w_down w, fd, md)]
                   (zero_q8_layer\<lparr>iq8_attention_norm := bf_attention_norm w, iq8_ffn_norm := bf_ffn_norm w\<rparr>);
                Some (if rc \<noteq> 0 then ATT1_ERR_OOM else ATT1_OK, q)
              })))"

fun quantize_layers ::
  "float_ops \<Rightarrow> (nat \<Rightarrow> bool) \<Rightarrow> att1_model \<Rightarrow> nat list \<Rightarrow> att1_infer_q8_layer list
    \<Rightarrow> (att1_status \<times> att1_infer_q8_layer list) option" where
  "quantize_layers fo alloc m [] ls = Some (ATT1_OK, ls)"
| "quantize_layers fo alloc m (layer # rest) ls = do {
     (status, q) \<leftarrow> quantize_layer fo (\<lambda>i. alloc (21 * layer + i)) m (word_of_nat layer);
     if status \<noteq> ATT1_OK then Some (status, ls) else quantize_layers fo alloc m rest (ls @ [q])
   }"

definition infer_prepare_q8 ::
  "float_ops \<Rightarrow> (nat \<Rightarrow> bool) \<Rightarrow> 'a att1_infer_scheme \<Rightarrow> (att1_status \<times> 'a att1_infer_scheme) option" where
  "infer_prepare_q8 fo alloc st =
     (if in_q8_ready st then Some (ATT1_OK, st)
      else
        (let st = infer_release_q8 st; m = in_model st; c = md_config m; n = unat (mc_n_layers c) in
         if infer_model_has_file_q8 m then Some (infer_prepare_file_q8 alloc st)
         else if \<not> alloc 0 then Some (ATT1_ERR_OOM, st)
         else do {
           let st = st\<lparr>in_q8_owned := True\<rparr>;
           (status, layers) \<leftarrow> quantize_layers fo (\<lambda>i. alloc (1 + i)) m [0..<n] [];
           if status \<noteq> ATT1_OK then Some (status, infer_release_q8 st)
           else
             (case att1_model_view_output_norm (Some m) (Some None) of
                (status, norm) \<Rightarrow>
                  (if status \<noteq> ATT1_OK then Some (status, infer_release_q8 st)
                   else
                     (case att1_model_view_output_weight (Some m) (Some None) of
                        (status, weight) \<Rightarrow>
                          (if status \<noteq> ATT1_OK then Some (status, infer_release_q8 st)
                           else do {
                             (rc, matrix) \<leftarrow> infer_quantize_transposed fo (\<lambda>i. alloc (1 + 21 * n + i)) (in_q8_output_weight st)
                                (f32s_behind m (the weight)) (unat (mc_d_model c)) (unat (mc_vocab_size c));
                             let st = st\<lparr>in_q8_layers := Some layers, in_q8_output_norm := f32s_behind m (the norm),
                                        in_q8_output_weight := matrix\<rparr>;
                             if rc \<noteq> 0 then Some (ATT1_ERR_OOM, infer_release_q8 st)
                             else Some (ATT1_OK, st\<lparr>in_q8_ready := True\<rparr>)
                           }))))
         }))"

section \<open>Four-bit weights\<close>

definition LOAD_Q4_LAYER ::
  "att1_model \<Rightarrow> u32 \<Rightarrow> (q4_buffers \<Rightarrow> 'l \<Rightarrow> 'l) \<Rightarrow> string \<Rightarrow> u64 \<Rightarrow> u64 \<Rightarrow> att1_status \<times> 'l \<Rightarrow> att1_status \<times> 'l" where
  "LOAD_Q4_LAYER m layer set_member suffix rows cols acc =
     (let (status, q) = acc in
      if status \<noteq> ATT1_OK then (status, q)
      else
        (case layer_name MODEL_NAME_SIZE layer suffix of
           None \<Rightarrow> (ATT1_ERR_INVALID_ARG, q)
         | Some name \<Rightarrow>
           (let (st, out) = att1_model_view_tensor_q4 (Some m) (Some name) rows cols (Some zero_q4_matrix)
            in (st, set_member (q4_of_view m (the out)) q))))"

definition load_q4_layer :: "att1_model \<Rightarrow> u32 \<Rightarrow> att1_status \<times> att1_infer_q4_layer" where
  "load_q4_layer m layer =
     (let d_model = ucast (mc_d_model (md_config m)); d_ff = ucast (mc_d_ff (md_config m));
          a1 = LOAD_F32 m layer (\<lambda>v q. q\<lparr>iq4_attention_norm := v\<rparr>) ''attention_norm.weight'' 1 d_model 1 (ATT1_OK, zero_q4_layer);
          a2 = LOAD_Q4_LAYER m layer (\<lambda>v q. q\<lparr>iq4_wq := v\<rparr>) ''attention.wq.weight'' d_model d_model a1;
          a3 = LOAD_Q4_LAYER m layer (\<lambda>v q. q\<lparr>iq4_wk := v\<rparr>) ''attention.wk.weight'' d_model d_model a2;
          a4 = LOAD_Q4_LAYER m layer (\<lambda>v q. q\<lparr>iq4_wv := v\<rparr>) ''attention.wv.weight'' d_model d_model a3;
          a5 = LOAD_Q4_LAYER m layer (\<lambda>v q. q\<lparr>iq4_wo := v\<rparr>) ''attention.wo.weight'' d_model d_model a4;
          a6 = LOAD_F32 m layer (\<lambda>v q. q\<lparr>iq4_ffn_norm := v\<rparr>) ''ffn_norm.weight'' 1 d_model 1 a5;
          a7 = LOAD_Q4_LAYER m layer (\<lambda>v q. q\<lparr>iq4_w_gate := v\<rparr>) ''ffn.w_gate.weight'' d_ff d_model a6;
          a8 = LOAD_Q4_LAYER m layer (\<lambda>v q. q\<lparr>iq4_w_up := v\<rparr>) ''ffn.w_up.weight'' d_ff d_model a7
      in LOAD_Q4_LAYER m layer (\<lambda>v q. q\<lparr>iq4_w_down := v\<rparr>) ''ffn.w_down.weight'' d_model d_ff a8)"

definition infer_prepare_q4 :: "(nat \<Rightarrow> bool) \<Rightarrow> 'a att1_infer_scheme \<Rightarrow> att1_status \<times> 'a att1_infer_scheme" where
  "infer_prepare_q4 alloc st =
     (if in_q4_ready st then (ATT1_OK, st)
      else
        (let st = infer_release_q4 st; m = in_model st; c = md_config m in
         if \<not> alloc 0 then (ATT1_ERR_OOM, st)
         else
           (case load_layers (load_q4_layer m) [0..<unat (mc_n_layers c)] [] of
              (status, layers) \<Rightarrow>
                (if status \<noteq> ATT1_OK then (status, infer_release_q4 st)
                 else
                   (case att1_model_view_output_norm (Some m) (Some None) of
                      (status, norm) \<Rightarrow>
                        (if status \<noteq> ATT1_OK then (status, infer_release_q4 st)
                         else
                           (case att1_model_view_tensor_q4 (Some m) (Some (str_bytes ''output.weight''))
                                   (ucast (mc_vocab_size c)) (ucast (mc_d_model c)) (Some zero_q4_matrix) of
                              (status, weight) \<Rightarrow>
                                (if status \<noteq> ATT1_OK then (status, infer_release_q4 st)
                                 else (ATT1_OK, st\<lparr>in_q4_layers := Some layers, in_q4_output_norm := f32s_behind m (the norm),
                                         in_q4_output_weight := q4_of_view m (the weight), in_q4_ready := True\<rparr>)))))))))"

end
