(* ===== verification/Infer.thy ===== *)
theory Infer
  imports Infer_Weights
begin

text \<open>
  Single-context inference (\<^verbatim>\<open>src/infer.c\<close>, second half): creation, decoding of a token, generation, accessors. The steps
  that \<^verbatim>\<open>src/cluster_infer.c\<close> repeats word by word are functions over every extension of the state. The outer \<^term>\<open>None\<close> is
  an access outside of a buffer, a division by zero or a call of a missing operation.
\<close>

section \<open>The platform\<close>

text \<open>
  What a call sees of its surroundings: the arithmetic, the allocations of layer \<open>k\<close> from number \<open>13 * k\<close> on, what the local
  array of the four-bit product holds, the readings of the clock in their order, and whether a trace can grow.
\<close>

record platform =
  pf_float :: float_ops
  pf_memory :: memory
  pf_int4_buf :: "u8 list"
  pf_clock :: "nat \<Rightarrow> u64"
  pf_realloc :: bool

definition INFER_RMS_EPSILON :: f32 where "INFER_RMS_EPSILON = 0x358637BD"
definition INFER_ROPE_THETA :: f32 where "INFER_ROPE_THETA = 0x461C4000"

section \<open>The parts of decoding a token\<close>

text \<open>The status, the embedding, the weights of the last normalisation and the float output matrix.\<close>

definition decode_views ::
  "'a att1_infer_scheme \<Rightarrow> att1_status \<times> f32 list option \<times> f32 list option \<times> f32 list option" where
  "decode_views st =
     (let m = in_model st; backend = Some (in_backend st) in
      case att1_model_view_token_embedding (Some m) (Some None) of
        (status, embedding) \<Rightarrow>
          (if status \<noteq> ATT1_OK then (status, None, None, None)
           else
             (case att1_model_view_output_norm (Some m) (Some None) of
                (status, output_norm) \<Rightarrow>
                  (if status \<noteq> ATT1_OK then (status, None, None, None)
                   else if infer_backend_is_q4 backend then
                     (if \<not> in_q4_ready st \<or> \<not> infer_backend_supports_q4 backend then (ATT1_ERR_STATE, None, None, None)
                      else (ATT1_OK, f32s_behind m (the embedding), in_q4_output_norm st, None))
                   else if infer_backend_is_q8 backend then
                     (if \<not> in_q8_ready st \<or> \<not> infer_backend_supports_q8 backend then (ATT1_ERR_STATE, None, None, None)
                      else (ATT1_OK, f32s_behind m (the embedding), in_q8_output_norm st, None))
                   else
                     (case att1_model_view_output_weight (Some m) (Some None) of
                        (status, output_weight) \<Rightarrow>
                          (if status \<noteq> ATT1_OK then (status, None, None, None)
                           else (ATT1_OK, f32s_behind m (the embedding), f32s_behind m (the output_norm),
                                 f32s_behind m (the output_weight))))))))"

definition embed_token :: "f32 list option \<Rightarrow> u32 \<Rightarrow> 'a att1_infer_scheme \<Rightarrow> 'a att1_infer_scheme option" where
  "embed_token embedding token_id st = do {
     e \<leftarrow> embedding;
     let d_model = unat (mc_d_model (in_config st));
     row \<leftarrow> buf_read e (unat token_id * d_model) d_model;
     hidden \<leftarrow> buf_write (in_hidden st) 0 row;
     Some (st\<lparr>in_hidden := hidden\<rparr>)
   }"

definition infer_block_config :: "att1_model_config \<Rightarrow> att1_transformer_block_config" where
  "infer_block_config c = \<lparr>tb_model_dim = unat (mc_d_model c), tb_num_heads = unat (mc_n_heads c),
     tb_head_dim = unat (mc_d_model c) div unat (mc_n_heads c), tb_ffn_dim = unat (mc_d_ff c),
     tb_rms_epsilon = INFER_RMS_EPSILON, tb_rope_theta = INFER_ROPE_THETA\<rparr>"

definition q8_block_weights :: "att1_infer_q8_layer \<Rightarrow> att1_transformer_block_q8_weights" where
  "q8_block_weights q = \<lparr>b8_attention_norm = iq8_attention_norm q, b8_ffn_norm = iq8_ffn_norm q, b8_wq = Some (iq8_wq q),
     b8_wk = Some (iq8_wk q), b8_wv = Some (iq8_wv q), b8_wo = Some (iq8_wo q), b8_w_gate = Some (iq8_w_gate q),
     b8_w_up = Some (iq8_w_up q), b8_w_down = Some (iq8_w_down q)\<rparr>"

definition q4_block_weights :: "att1_infer_q4_layer \<Rightarrow> att1_transformer_block_q4_weights" where
  "q4_block_weights q = \<lparr>b4_attention_norm = iq4_attention_norm q, b4_ffn_norm = iq4_ffn_norm q, b4_wq = Some (iq4_wq q),
     b4_wk = Some (iq4_wk q), b4_wv = Some (iq4_wv q), b4_wo = Some (iq4_wo q), b4_w_gate = Some (iq4_w_gate q),
     b4_w_up = Some (iq4_w_up q), b4_w_down = Some (iq4_w_down q)\<rparr>"

text \<open>One layer: the block of the kind the back end asks for, from \<^verbatim>\<open>hidden\<close> into \<^verbatim>\<open>next_hidden\<close>.\<close>

definition store_block ::
  "nat \<Rightarrow> 'a att1_infer_scheme \<Rightarrow> int \<times> f32 list option \<times> att1_kv_cache option \<Rightarrow> att1_status \<times> 'a att1_infer_scheme" where
  "store_block layer st = (\<lambda>(rc, output, cache). (if rc \<noteq> 0 then ATT1_ERR_STATE else ATT1_OK,
     st\<lparr>in_next_hidden := the output, in_layer_kv := (in_layer_kv st)[layer := the cache]\<rparr>))"

definition layer_block :: "platform \<Rightarrow> nat \<Rightarrow> 'a att1_infer_scheme \<Rightarrow> (att1_status \<times> 'a att1_infer_scheme) option" where
  "layer_block pf layer st =
     (let fo = pf_float pf; mem = (\<lambda>i. pf_memory pf (13 * layer + i)); m = in_model st;
          c = infer_block_config (md_config m); backend = Some (in_backend st);
          out = Some (in_next_hidden st); cache = Some (in_layer_kv st ! layer); inp = Some (in_hidden st);
          store = store_block layer st
      in if infer_backend_is_q4 backend then
           map_option store (att1_transformer_block_forward_backend_q4 fo (pf_int4_buf pf) mem out cache inp
             (Some (q4_block_weights (the (in_q4_layers st) ! layer))) (Some c) (in_position st) backend)
         else if infer_backend_is_q8 backend then
           map_option store (att1_transformer_block_forward_backend_q8 fo mem out cache inp
             (Some (q8_block_weights (the (in_q8_layers st) ! layer))) (Some c) (in_position st) backend)
         else
           (case att1_model_view_load_layer_weights (Some m) (word_of_nat layer) (Some zero_block_weights) of
              (status, view) \<Rightarrow>
                (if status \<noteq> ATT1_OK then Some (status, st)
                 else map_option store (att1_transformer_block_forward_backend fo mem out cache inp
                        (Some (weights_of_view m (the view))) (Some c) (in_position st) backend))))"

text \<open>The body of the loop over the layers; \<open>clk\<close> is the number of clock readings before it.\<close>

definition run_layer :: "platform \<Rightarrow> nat \<Rightarrow> nat \<Rightarrow> 'a att1_infer_scheme \<Rightarrow> (att1_status \<times> 'a att1_infer_scheme) option" where
  "run_layer pf clk layer st = do {
     let kv_reads = (word_of_nat (in_position st + 1) * ucast (mc_n_heads (in_config st)) :: u64);
     (status, st) \<leftarrow> layer_block pf layer st;
     if status \<noteq> ATT1_OK then Some (status, st)
     else do {
       let st = st\<lparr>in_trace := att1_trace_record_layer (in_trace st) layer (pf_clock pf (clk + 1) - pf_clock pf clk) 1 kv_reads kv_reads\<rparr>;
       row \<leftarrow> buf_read (in_next_hidden st) 0 (unat (mc_d_model (in_config st)));
       hidden \<leftarrow> buf_write (in_hidden st) 0 row;
       Some (ATT1_OK, st\<lparr>in_hidden := hidden\<rparr>)
     }
   }"

fun run_layers :: "platform \<Rightarrow> nat list \<Rightarrow> 'a att1_infer_scheme \<Rightarrow> (att1_status \<times> 'a att1_infer_scheme) option" where
  "run_layers pf [] st = Some (ATT1_OK, st)"
| "run_layers pf (layer # rest) st = do {
     (status, st) \<leftarrow> run_layer pf (1 + 2 * layer) layer st;
     if status \<noteq> ATT1_OK then Some (status, st) else run_layers pf rest st
   }"

text \<open>The last normalisation, the product with the output matrix and the synchronisation.\<close>

definition project_logits ::
  "platform \<Rightarrow> f32 list option \<Rightarrow> f32 list option \<Rightarrow> 'a att1_infer_scheme \<Rightarrow> (att1_status \<times> 'a att1_infer_scheme) option" where
  "project_logits pf output_norm output_weight st =
     (let backend = Some (in_backend st); ops = backend_ops backend;
          d_model = unat (mc_d_model (in_config st)); vocab = unat (mc_vocab_size (in_config st)) in do {
        rmsnorm \<leftarrow> bo_rmsnorm_f32 ops;
        weight \<leftarrow> output_norm;
        (rc, norm) \<leftarrow> rmsnorm (in_norm st) (in_hidden st) weight d_model INFER_RMS_EPSILON;
        let st = st\<lparr>in_norm := norm\<rparr>;
        if rc \<noteq> 0 then Some (ATT1_ERR_STATE, st)
        else do {
          (rc, logits) \<leftarrow>
            (if infer_backend_is_q4 backend
             then infer_matmul_q4 (pf_float pf) (pf_int4_buf pf) ops (in_logits st) (in_norm st) 1 d_model (in_q4_output_weight st)
             else if infer_backend_is_q8 backend
             then do { f \<leftarrow> bo_matmul_q8xf32 ops; f (in_logits st) (in_norm st) 1 d_model (in_q8_output_weight st) }
             else do { f \<leftarrow> bo_matmul_f32 ops; w \<leftarrow> output_weight; f (in_logits st) (in_norm st) w 1 vocab d_model });
          let st = st\<lparr>in_logits := logits\<rparr>;
          if rc \<noteq> 0 then Some (ATT1_ERR_STATE, st)
          else (case bo_sync ops of
                  None \<Rightarrow> Some (ATT1_OK, st)
                | Some rc \<Rightarrow> Some (if rc \<noteq> 0 then ATT1_ERR_STATE else ATT1_OK, st))
        }
      })"

section \<open>Decoding\<close>

text \<open>With no trace the clock is not read, and what the readings are does not matter.\<close>

definition att1_infer_decode_token ::
  "platform \<Rightarrow> att1_infer option \<Rightarrow> u32 \<Rightarrow> bool \<Rightarrow> (att1_status \<times> att1_infer option \<times> u32 option) option" where
  "att1_infer_decode_token pf inferp token_id out_ok =
     (case inferp of
        None \<Rightarrow> Some (ATT1_ERR_INVALID_ARG, None, None)
      | Some st \<Rightarrow>
        (let c = in_config st; n = unat (mc_n_layers c) in
         if \<not> out_ok then Some (ATT1_ERR_INVALID_ARG, inferp, None)
         else if mc_vocab_size c \<le> token_id \<or> unat (mc_max_seq_len c) \<le> in_position st
         then Some (ATT1_ERR_INVALID_ARG, inferp, None)
         else
           (case decode_views st of
              (status, embedding, output_norm, output_weight) \<Rightarrow>
                (if status \<noteq> ATT1_OK then Some (status, inferp, None)
                 else do {
                   st \<leftarrow> embed_token embedding token_id st;
                   if mc_n_heads c = 0 then None
                   else do {
                     (status, st) \<leftarrow> run_layers pf [0..<n] st;
                     if status \<noteq> ATT1_OK then Some (status, Some st, None)
                     else do {
                       (status, st) \<leftarrow> project_logits pf output_norm output_weight st;
                       if status \<noteq> ATT1_OK then Some (status, Some st, None)
                       else do {
                         logits \<leftarrow> buf_read (in_logits st) 0 (unat (mc_vocab_size c));
                         (case att1_sampler_greedy_f32 (Some logits) True of
                            None \<Rightarrow> Some (ATT1_ERR_STATE, Some st, None)
                          | Some token \<Rightarrow>
                            (let trace = att1_trace_record_logits (in_trace st) 0 (ucast (mc_vocab_size c) * 4);
                                 trace = att1_trace_record_token (pf_realloc pf) trace (pf_clock pf (1 + 2 * n) - pf_clock pf 0)
                             in Some (ATT1_OK, Some (st\<lparr>in_trace := trace, in_position := in_position st + 1\<rparr>), Some token)))
                       }
                     }
                   }
                 }))))"

section \<open>Generation\<close>

text \<open>
  The two loops, for any \<open>decode\<close>, whose first argument is the number of the call. A status other than \<^verbatim>\<open>ATT1_OK\<close> ends both;
  the tokens stored until then stay in the caller's array.
\<close>

type_synonym 's decoder = "nat \<Rightarrow> 's \<Rightarrow> u32 \<Rightarrow> (att1_status \<times> 's \<times> u32 option) option"

fun prompt_loop :: "'s decoder \<Rightarrow> nat \<Rightarrow> u8 list \<Rightarrow> 's \<Rightarrow> u32 \<Rightarrow> (att1_status \<times> 's \<times> u32) option" where
  "prompt_loop decode k [] st token = Some (ATT1_OK, st, token)"
| "prompt_loop decode k (b # prompt) st token = do {
     (status, st, next) \<leftarrow> decode k st (ucast b);
     if status \<noteq> ATT1_OK then Some (status, st, token) else prompt_loop decode (k + 1) prompt st (the next)
   }"

fun produce_loop :: "'s decoder \<Rightarrow> nat \<Rightarrow> nat \<Rightarrow> 's \<Rightarrow> u32 \<Rightarrow> u32 list \<Rightarrow> (att1_status \<times> 's \<times> u32 list) option" where
  "produce_loop decode k 0 st token tokens = Some (ATT1_OK, st, tokens)"
| "produce_loop decode k (Suc left) st token tokens =
     (if left = 0 then Some (ATT1_OK, st, tokens @ [token])
      else do {
        (status, st, next) \<leftarrow> decode k st token;
        if status \<noteq> ATT1_OK then Some (status, st, tokens @ [token])
        else produce_loop decode (k + 1) left st (the next) (tokens @ [token])
      })"

text \<open>The status, the context, the tokens stored and the count when it is stored.\<close>

definition generate_loops ::
  "'s decoder \<Rightarrow> u8 list \<Rightarrow> nat \<Rightarrow> 's \<Rightarrow> (att1_status \<times> 's \<times> u32 list \<times> nat option) option" where
  "generate_loops decode prompt count st = do {
     (status, st, token) \<leftarrow> prompt_loop decode 0 prompt st 0;
     if status \<noteq> ATT1_OK then Some (status, st, [], None)
     else do {
       (status, st, tokens) \<leftarrow> produce_loop decode (length prompt) count st token [];
       Some (status, st, tokens, if status \<noteq> ATT1_OK then None else Some count)
     }
   }"

definition att1_infer_generate ::
  "(nat \<Rightarrow> platform) \<Rightarrow> att1_infer option \<Rightarrow> u8 list option \<Rightarrow> nat \<Rightarrow> bool \<Rightarrow> nat \<Rightarrow> bool
    \<Rightarrow> (att1_status \<times> att1_infer option \<times> u32 list \<times> nat option) option" where
  "att1_infer_generate pfs inferp prompt generated_token_count tokens_ok out_token_capacity count_ok =
     (if inferp = None \<or> prompt = None \<or> \<not> tokens_ok \<or> \<not> count_ok then Some (ATT1_ERR_INVALID_ARG, inferp, [], None)
      else if the prompt = [] \<or> out_token_capacity < generated_token_count then Some (ATT1_ERR_INVALID_ARG, inferp, [], None)
      else generate_loops (\<lambda>k st token. att1_infer_decode_token (pfs k) st token True) (the prompt) generated_token_count inferp)"

section \<open>Creation and accessors\<close>

text \<open>The cache of each layer, two allocations each, up to the first that fails.\<close>

fun init_caches :: "(nat \<Rightarrow> bool) \<Rightarrow> nat \<Rightarrow> nat \<Rightarrow> nat \<Rightarrow> nat \<Rightarrow> att1_kv_cache list option" where
  "init_caches alloc 0 max_positions num_heads head_dim = Some []"
| "init_caches alloc (Suc n) max_positions num_heads head_dim =
     (case att1_kv_cache_init alloc (Some zero_cache) max_positions num_heads head_dim of
        (status, cache) \<Rightarrow>
          (if status \<noteq> ATT1_OK then None
           else map_option ((#) (the cache)) (init_caches (\<lambda>i. alloc (i + 2)) n max_positions num_heads head_dim)))"

definition infer_caches :: "(nat \<Rightarrow> bool) \<Rightarrow> att1_model_config \<Rightarrow> att1_kv_cache list option" where
  "infer_caches alloc c = init_caches alloc (unat (mc_n_layers c)) (unat (mc_max_seq_len c)) (unat (mc_n_heads c))
     (if mc_n_heads c \<noteq> 0 then unat (mc_d_model c) div unat (mc_n_heads c) else 0)"

text \<open>A zeroed context with its buffers and its back end.\<close>

definition new_infer :: "att1_model \<Rightarrow> att1_kv_cache list \<Rightarrow> att1_backend \<Rightarrow> att1_infer" where
  "new_infer m caches backend =
     (let d_model = unat (mc_d_model (md_config m)) in
      \<lparr>in_model = m, in_layer_kv = caches, in_hidden = replicate d_model 0, in_next_hidden = replicate d_model 0,
       in_norm = replicate d_model 0, in_logits = replicate (unat (mc_vocab_size (md_config m))) 0, in_backend = backend,
       in_q8_layers = None, in_q8_output_norm = None, in_q8_output_weight = zero_q8_buffers, in_q8_owned = False, in_q8_ready = False,
       in_q4_layers = None, in_q4_output_norm = None, in_q4_output_weight = zero_q4_buffers, in_q4_ready = False,
       in_trace = None, in_position = 0\<rparr>)"

definition att1_infer_create :: "float_ops \<Rightarrow> (nat \<Rightarrow> bool) \<Rightarrow> att1_model option \<Rightarrow> bool \<Rightarrow> att1_status \<times> att1_infer option" where
  "att1_infer_create fo alloc model out_ok =
     (if \<not> out_ok then (ATT1_ERR_INVALID_ARG, None)
      else
        (let status = att1_model_view_validate_decoder model in
         if status \<noteq> ATT1_OK then (status, None)
         else if \<not> alloc 0 then (ATT1_ERR_OOM, None)
         else
           (case att1_backend_default_create fo (alloc 6) True of
              (status, backend) \<Rightarrow>
                (if \<not> (alloc 1 \<and> alloc 2 \<and> alloc 3 \<and> alloc 4 \<and> alloc 5) \<or> status \<noteq> ATT1_OK
                 then (if status = ATT1_OK then ATT1_ERR_OOM else status, None)
                 else
                   (case infer_caches (\<lambda>i. alloc (7 + i)) (md_config (the model)) of
                      None \<Rightarrow> (ATT1_ERR_OOM, None)
                    | Some caches \<Rightarrow> (ATT1_OK, Some (new_infer (the model) caches (the backend))))))))"

definition att1_infer_create_q4 :: "float_ops \<Rightarrow> (nat \<Rightarrow> bool) \<Rightarrow> att1_model option \<Rightarrow> bool \<Rightarrow> att1_status \<times> att1_infer option" where
  "att1_infer_create_q4 fo alloc model out_ok =
     (if \<not> out_ok then (ATT1_ERR_INVALID_ARG, None)
      else
        (let status = att1_model_view_validate_decoder_q4 model in
         if status \<noteq> ATT1_OK then (status, None)
         else if \<not> alloc 0 then (ATT1_ERR_OOM, None)
         else
           (case att1_backend_cpu_q4_create fo (alloc 6) True of
              (status, backend) \<Rightarrow>
                (if \<not> (alloc 1 \<and> alloc 2 \<and> alloc 3 \<and> alloc 4 \<and> alloc 5) \<or> status \<noteq> ATT1_OK
                 then (if status = ATT1_OK then ATT1_ERR_OOM else status, None)
                 else
                   (case infer_caches (\<lambda>i. alloc (7 + i)) (md_config (the model)) of
                      None \<Rightarrow> (ATT1_ERR_OOM, None)
                    | Some caches \<Rightarrow>
                      (case infer_prepare_q4 (\<lambda>i. alloc (7 + 2 * length caches + i)) (new_infer (the model) caches (the backend)) of
                         (status, st) \<Rightarrow> if status \<noteq> ATT1_OK then (status, None) else (ATT1_OK, Some st)))))))"

text \<open>The accessors, over every extension of the state.\<close>

definition att1_infer_logits :: "'a att1_infer_scheme option \<Rightarrow> f32 list option \<times> nat" where
  "att1_infer_logits inferp =
     (case inferp of None \<Rightarrow> (None, 0) | Some st \<Rightarrow> (Some (in_logits st), unat (mc_vocab_size (in_config st))))"

definition att1_infer_position :: "'a att1_infer_scheme option \<Rightarrow> bool \<Rightarrow> att1_status \<times> nat option" where
  "att1_infer_position inferp out_ok =
     (case inferp of
        None \<Rightarrow> (ATT1_ERR_INVALID_ARG, None)
      | Some st \<Rightarrow> if \<not> out_ok then (ATT1_ERR_INVALID_ARG, None) else (ATT1_OK, Some (in_position st)))"

definition att1_infer_layer_kv_length :: "'a att1_infer_scheme option \<Rightarrow> u32 \<Rightarrow> bool \<Rightarrow> att1_status \<times> nat option" where
  "att1_infer_layer_kv_length inferp layer_id out_ok =
     (case inferp of
        None \<Rightarrow> (ATT1_ERR_INVALID_ARG, None)
      | Some st \<Rightarrow>
        (if \<not> out_ok \<or> mc_n_layers (in_config st) \<le> layer_id then (ATT1_ERR_INVALID_ARG, None)
         else (ATT1_OK, Some (cc_length (in_layer_kv st ! unat layer_id)))))"

definition att1_infer_set_trace :: "'a att1_infer_scheme option \<Rightarrow> att1_trace option \<Rightarrow> att1_status \<times> 'a att1_infer_scheme option" where
  "att1_infer_set_trace inferp trace =
     (case inferp of None \<Rightarrow> (ATT1_ERR_INVALID_ARG, None) | Some st \<Rightarrow> (ATT1_OK, Some (st\<lparr>in_trace := trace\<rparr>)))"

definition att1_infer_set_backend ::
  "float_ops \<Rightarrow> (nat \<Rightarrow> bool) \<Rightarrow> 'a att1_infer_scheme option \<Rightarrow> att1_backend option
    \<Rightarrow> (att1_status \<times> 'a att1_infer_scheme option) option" where
  "att1_infer_set_backend fo alloc inferp backend =
     (case (inferp, backend) of
        (Some st, Some b) \<Rightarrow>
          (if be_ops b = None then Some (ATT1_ERR_INVALID_ARG, inferp)
           else if infer_backend_is_q4 backend then
             (if \<not> infer_backend_supports_q4 backend then Some (ATT1_ERR_UNSUPPORTED, inferp)
              else (case infer_prepare_q4 alloc st of
                      (status, st) \<Rightarrow> Some (status, Some (if status \<noteq> ATT1_OK then st else st\<lparr>in_backend := b\<rparr>))))
           else if infer_backend_is_q8 backend then
             (if \<not> infer_backend_supports_q8 backend then Some (ATT1_ERR_UNSUPPORTED, inferp)
              else do {
                (status, st) \<leftarrow> infer_prepare_q8 fo alloc st;
                Some (status, Some (if status \<noteq> ATT1_OK then st else st\<lparr>in_backend := b\<rparr>))
              })
           else Some (ATT1_OK, Some (st\<lparr>in_backend := b\<rparr>)))
      | _ \<Rightarrow> Some (ATT1_ERR_INVALID_ARG, inferp))"

end
