(* ===== verification/Cluster_Infer.thy ===== *)
theory Cluster_Infer
  imports Infer Fabric Shard_Plan
begin

text \<open>
  Inference sharded over tiles (\<^verbatim>\<open>src/cluster_infer.c\<close>): the layers of a tile run one after the other, the activations
  travel over the fabric from the host to tile 0, from tile to tile, and as logits back to the host, which is the endpoint
  after the last tile. The functions the file shares with \<^verbatim>\<open>src/infer.c\<close> up to their names are those of \<open>Infer_Weights\<close> and
  \<open>Infer\<close> at the type of the cluster. The oracle \<open>alloc g\<close> answers for the allocations of the context
  (\<open>g = 0\<close>), the proposed plan (1), the plan (2), the fabric (3), the caches (4) and the weights (5).
\<close>

section \<open>State\<close>

datatype att1_shard_plan_mode = SHARD_PLAN_RUNTIME | SHARD_PLAN_METADATA

record att1_cluster_infer_config =
  cic_tile_count :: nat
  cic_fabric_queue_capacity :: nat
  cic_fabric_max_payload_bytes :: nat
  cic_shard_plan_mode :: att1_shard_plan_mode

record att1_cluster_tile_counters =
  ctc_activations_received :: u64
  ctc_activations_sent :: u64
  ctc_layers_run :: u64
  ctc_logits_sent :: u64
  ctc_layer_start :: u32
  ctc_layer_end :: u32

record att1_cluster_infer = att1_infer +
  ci_shard_plan :: att1_shard_plan
  ci_fabric :: att1_fabric
  ci_host_tile_id :: u32
  ci_tile_counters :: "att1_cluster_tile_counters list"

section \<open>Back ends and weights\<close>

definition cluster_backend_is_q8 :: "att1_backend option \<Rightarrow> bool" where "cluster_backend_is_q8 = infer_backend_is_q8"
definition cluster_backend_is_q4 :: "att1_backend option \<Rightarrow> bool" where "cluster_backend_is_q4 = infer_backend_is_q4"
definition cluster_backend_supports_q8 :: "att1_backend option \<Rightarrow> bool" where "cluster_backend_supports_q8 = infer_backend_supports_q8"
definition cluster_backend_supports_q4 :: "att1_backend option \<Rightarrow> bool" where "cluster_backend_supports_q4 = infer_backend_supports_q4"

definition cluster_release_q8 :: "att1_cluster_infer \<Rightarrow> att1_cluster_infer" where "cluster_release_q8 = infer_release_q8"
definition cluster_release_q4 :: "att1_cluster_infer \<Rightarrow> att1_cluster_infer" where "cluster_release_q4 = infer_release_q4"

definition cluster_quantize_transposed ::
  "float_ops \<Rightarrow> (nat \<Rightarrow> bool) \<Rightarrow> q8_buffers \<Rightarrow> f32 list option \<Rightarrow> nat \<Rightarrow> nat \<Rightarrow> (int \<times> q8_buffers) option" where
  "cluster_quantize_transposed = infer_quantize_transposed"

definition cluster_model_has_file_q8 :: "att1_model \<Rightarrow> bool" where "cluster_model_has_file_q8 = infer_model_has_file_q8"

definition cluster_load_file_q8_layer :: "att1_model \<Rightarrow> u32 \<Rightarrow> att1_infer_q8_layer \<Rightarrow> att1_status \<times> att1_infer_q8_layer" where
  "cluster_load_file_q8_layer = infer_load_file_q8_layer"

definition cluster_prepare_file_q8 :: "(nat \<Rightarrow> bool) \<Rightarrow> att1_cluster_infer \<Rightarrow> att1_status \<times> att1_cluster_infer" where
  "cluster_prepare_file_q8 alloc st =
     (let m = in_model st; c = md_config m in
      if \<not> alloc 0 then (ATT1_ERR_OOM, st\<lparr>in_q8_layers := None\<rparr>)
      else
        (case load_layers (\<lambda>layer. cluster_load_file_q8_layer m layer zero_q8_layer) [0..<unat (mc_n_layers c)] [] of
           (status, layers) \<Rightarrow>
             (if status \<noteq> ATT1_OK then (status, cluster_release_q8 st)
              else
                (case att1_model_view_output_norm (Some m) (Some None) of
                   (status, norm) \<Rightarrow>
                     (if status \<noteq> ATT1_OK then (status, cluster_release_q8 st)
                      else
                        (case att1_model_view_tensor_q8 (Some m) (Some (str_bytes ''output.weight''))
                                (ucast (mc_vocab_size c)) (ucast (mc_d_model c)) (Some zero_q8_matrix) of
                           (status, weight) \<Rightarrow>
                             (let st = st\<lparr>in_q8_layers := Some layers, in_q8_output_norm := f32s_behind m (the norm),
                                         in_q8_output_weight := q8_of_view m (the weight)\<rparr>
                              in if status \<noteq> ATT1_OK then (status, cluster_release_q8 st)
                                 else (ATT1_OK, st\<lparr>in_q8_owned := False, in_q8_ready := True\<rparr>))))))))"

definition cluster_prepare_runtime_q8 ::
  "float_ops \<Rightarrow> (nat \<Rightarrow> bool) \<Rightarrow> att1_cluster_infer \<Rightarrow> (att1_status \<times> att1_cluster_infer) option" where
  "cluster_prepare_runtime_q8 fo alloc st =
     (let m = in_model st; c = md_config m; n = unat (mc_n_layers c) in
      if \<not> alloc 0 then Some (ATT1_ERR_OOM, st\<lparr>in_q8_layers := None\<rparr>)
      else do {
        let st = st\<lparr>in_q8_owned := True\<rparr>;
        (status, layers) \<leftarrow> quantize_layers fo (\<lambda>i. alloc (1 + i)) m [0..<n] [];
        if status \<noteq> ATT1_OK then Some (status, cluster_release_q8 st)
        else
          (case att1_model_view_output_norm (Some m) (Some None) of
             (status, norm) \<Rightarrow>
               (if status \<noteq> ATT1_OK then Some (status, cluster_release_q8 st)
                else
                  (case att1_model_view_output_weight (Some m) (Some None) of
                     (status, weight) \<Rightarrow>
                       (if status \<noteq> ATT1_OK then Some (status, cluster_release_q8 st)
                        else do {
                          (rc, matrix) \<leftarrow> cluster_quantize_transposed fo (\<lambda>i. alloc (1 + 21 * n + i)) (in_q8_output_weight st)
                             (f32s_behind m (the weight)) (unat (mc_d_model c)) (unat (mc_vocab_size c));
                          let st = st\<lparr>in_q8_layers := Some layers, in_q8_output_norm := f32s_behind m (the norm),
                                     in_q8_output_weight := matrix\<rparr>;
                          if rc \<noteq> 0 then Some (ATT1_ERR_OOM, cluster_release_q8 st)
                          else Some (ATT1_OK, st\<lparr>in_q8_ready := True\<rparr>)
                        }))))
      })"

definition cluster_prepare_q8 ::
  "float_ops \<Rightarrow> (nat \<Rightarrow> bool) \<Rightarrow> att1_cluster_infer \<Rightarrow> (att1_status \<times> att1_cluster_infer) option" where
  "cluster_prepare_q8 fo alloc st =
     (if in_q8_ready st then Some (ATT1_OK, st)
      else
        (let st = cluster_release_q8 st in
         if cluster_model_has_file_q8 (in_model st) then Some (cluster_prepare_file_q8 alloc st)
         else cluster_prepare_runtime_q8 fo alloc st))"

text \<open>The two files prepare the same weights.\<close>

lemma cluster_prepare_q8_eq: "cluster_prepare_q8 fo alloc st = infer_prepare_q8 fo alloc st"
proof -
  have r: "in_q8_layers (infer_release_q8 st) = None" "(infer_release_q8 st)\<lparr>in_q8_layers := None\<rparr> = infer_release_q8 st"
    by (simp_all add: infer_release_q8_def)
  show ?thesis
    unfolding cluster_prepare_q8_def infer_prepare_q8_def cluster_prepare_file_q8_def infer_prepare_file_q8_def
      cluster_prepare_runtime_q8_def cluster_release_q8_def cluster_model_has_file_q8_def cluster_load_file_q8_layer_def
      cluster_quantize_transposed_def Let_def r by (rule refl)
qed

definition cluster_prepare_q4 :: "(nat \<Rightarrow> bool) \<Rightarrow> att1_cluster_infer \<Rightarrow> att1_status \<times> att1_cluster_infer" where
  "cluster_prepare_q4 = infer_prepare_q4"

section \<open>The check of the plan\<close>

text \<open>The layers of one tile are marked; \<^term>\<open>None\<close> is \<^verbatim>\<open>goto done\<close> with \<^verbatim>\<open>ok\<close> zero.\<close>

fun mark_layers :: "u32 list \<Rightarrow> nat \<Rightarrow> nat list \<Rightarrow> bool list \<Rightarrow> bool list option" where
  "mark_layers to_tile tile [] seen = Some seen"
| "mark_layers to_tile tile (layer # rest) seen =
     (if seen ! layer \<or> unat (to_tile ! layer) \<noteq> tile then None
      else mark_layers to_tile tile rest (seen[layer := True]))"

fun check_tiles :: "nat \<Rightarrow> u32 list \<Rightarrow> nat \<Rightarrow> att1_layer_shard list \<Rightarrow> bool list \<Rightarrow> bool list option" where
  "check_tiles layer_count to_tile tile [] seen = Some seen"
| "check_tiles layer_count to_tile tile (shard # rest) seen =
     (if unat (lsh_tile_id shard) \<noteq> tile \<or> lsh_layer_end shard < lsh_layer_start shard \<or> layer_count < unat (lsh_layer_end shard)
      then None
      else
        (case mark_layers to_tile tile [unat (lsh_layer_start shard)..<unat (lsh_layer_end shard)] seen of
           None \<Rightarrow> None
         | Some seen' \<Rightarrow> check_tiles layer_count to_tile (tile + 1) rest seen'))"

definition cluster_plan_complete :: "bool \<Rightarrow> att1_cluster_infer \<Rightarrow> bool" where
  "cluster_plan_complete alloc st =
     (let p = ci_shard_plan st; n = sp_layer_count p in
      case (sp_tiles p, sp_layer_to_tile p) of
        (Some tiles, Some to_tile) \<Rightarrow>
          (if sp_tile_count p = 0 \<or> n \<noteq> unat (mc_n_layers (in_config st)) then False
           else if \<not> alloc then False
           else (case check_tiles n to_tile 0 (take (sp_tile_count p) tiles) (replicate n False) of
                   None \<Rightarrow> False
                 | Some seen \<Rightarrow> list_all (\<lambda>s. s) seen))
      | _ \<Rightarrow> False)"

section \<open>Packets\<close>

text \<open>A float buffer as the bytes of a payload, and the bytes of a payload stored over a float buffer.\<close>

definition f32_bytes :: "f32 list \<Rightarrow> u8 list" where
  "f32_bytes xs = concat (map (le_bytes 4) xs)"

definition store_payload :: "u8 list \<Rightarrow> f32 list \<Rightarrow> f32 list option" where
  "store_payload bytes xs = map_option f32s_of (buf_write (f32_bytes xs) 0 bytes)"

text \<open>The status, the fabric and the bytes stored in the output buffer, a rejected packet's included.\<close>

definition receive_payload :: "u32 \<Rightarrow> att1_packet_type \<Rightarrow> nat \<Rightarrow> att1_fabric \<Rightarrow> att1_status \<times> att1_fabric \<times> u8 list" where
  "receive_payload tile_id type payload_bytes f =
     (case att1_fabric_receive (Some f) tile_id True True payload_bytes of
        (status, fp, out) \<Rightarrow>
          (if status \<noteq> ATT1_OK then (status, the fp, [])
           else
             (case the out of
                (packet, bytes) \<Rightarrow>
                  (if pk_type packet \<noteq> type \<or> length bytes \<noteq> payload_bytes then (ATT1_ERR_BAD_FORMAT, the fp, bytes)
                   else (ATT1_OK, the fp, bytes)))))"

text \<open>The first \<open>n\<close> floats of a buffer are sent, and the traces of the packet recorded by \<open>record\<close>.\<close>

definition send_floats ::
  "u32 \<Rightarrow> u32 \<Rightarrow> att1_packet_type \<Rightarrow> f32 list \<Rightarrow> nat \<Rightarrow> (att1_trace option \<Rightarrow> att1_trace option) \<Rightarrow> att1_cluster_infer
    \<Rightarrow> (att1_status \<times> att1_cluster_infer) option" where
  "send_floats source target type xs n record st = do {
     payload \<leftarrow> buf_read xs 0 n;
     (case att1_fabric_send (Some (ci_fabric st)) source target type (Some (f32_bytes payload)) (4 * n) (word_of_nat (in_position st)) of
        (status, fp) \<Rightarrow>
          (let st = st\<lparr>ci_fabric := the fp\<rparr> in
           if status \<noteq> ATT1_OK then Some (status, st)
           else Some (ATT1_OK, st\<lparr>in_trace := att1_trace_record_fabric_send (record (in_trace st)) (word_of_nat (4 * n))\<rparr>)))
   }"

definition count_tile ::
  "nat \<Rightarrow> (att1_cluster_tile_counters \<Rightarrow> att1_cluster_tile_counters) \<Rightarrow> att1_cluster_infer \<Rightarrow> att1_cluster_infer" where
  "count_tile tile g st = st\<lparr>ci_tile_counters := (ci_tile_counters st)[tile := g (ci_tile_counters st ! tile)]\<rparr>"

section \<open>Decoding\<close>

text \<open>The layers of one tile; \<open>clk\<close> is the number of clock readings before.\<close>

fun tile_layers ::
  "platform \<Rightarrow> nat \<Rightarrow> nat \<Rightarrow> nat list \<Rightarrow> att1_cluster_infer \<Rightarrow> (att1_status \<times> att1_cluster_infer) option" where
  "tile_layers pf clk tile [] st = Some (ATT1_OK, st)"
| "tile_layers pf clk tile (layer # rest) st = do {
     (status, st) \<leftarrow> run_layer pf clk layer st;
     if status \<noteq> ATT1_OK then Some (status, st)
     else
       (let st = count_tile tile (\<lambda>c. c\<lparr>ctc_layers_run := ctc_layers_run c + 1\<rparr>) st
        in tile_layers pf (clk + 2) tile rest (st\<lparr>in_trace := att1_trace_record_tile_layers (in_trace st) tile 1\<rparr>))
   }"

definition receive_hidden :: "nat \<Rightarrow> att1_cluster_infer \<Rightarrow> (att1_status \<times> att1_cluster_infer) option" where
  "receive_hidden tile st =
     (let n = unat (mc_d_model (in_config st)) in
      case receive_payload (word_of_nat tile) PACKET_ACTIVATION (4 * n) (ci_fabric st) of
        (status, f, bytes) \<Rightarrow> do {
          hidden \<leftarrow> store_payload bytes (in_hidden st);
          let st = st\<lparr>ci_fabric := f, in_hidden := hidden\<rparr>;
          if status \<noteq> ATT1_OK then Some (status, st)
          else
            Some (ATT1_OK, count_tile tile (\<lambda>c. c\<lparr>ctc_activations_received := ctc_activations_received c + 1\<rparr>)
                   (st\<lparr>in_trace := att1_trace_record_fabric_receive (in_trace st) (word_of_nat (4 * n))\<rparr>))
        })"

text \<open>What follows the layers of a tile: the next tile gets the activations, or the host the logits.\<close>

definition finish_tile ::
  "platform \<Rightarrow> f32 list option \<Rightarrow> f32 list option \<Rightarrow> nat \<Rightarrow> att1_cluster_infer \<Rightarrow> (att1_status \<times> att1_cluster_infer) option" where
  "finish_tile pf output_norm output_weight tile st =
     (let n = unat (mc_d_model (in_config st)); v = unat (mc_vocab_size (in_config st)) in
      if tile + 1 < sp_tile_count (ci_shard_plan st) then do {
        (status, st) \<leftarrow> send_floats (word_of_nat tile) (word_of_nat (tile + 1)) PACKET_ACTIVATION (in_hidden st) n
           (\<lambda>t. att1_trace_record_activation_send t (tile + 1) (word_of_nat (4 * n))) st;
        if status \<noteq> ATT1_OK then Some (status, st)
        else Some (ATT1_OK, count_tile tile (\<lambda>c. c\<lparr>ctc_activations_sent := ctc_activations_sent c + 1\<rparr>) st)
      }
      else do {
        (status, st) \<leftarrow> project_logits pf output_norm output_weight st;
        if status \<noteq> ATT1_OK then Some (status, st)
        else do {
          (status, st) \<leftarrow> send_floats (word_of_nat tile) (ci_host_tile_id st) PACKET_LOGITS (in_logits st) v
             (\<lambda>t. att1_trace_record_logits t tile (word_of_nat (4 * v))) st;
          if status \<noteq> ATT1_OK then Some (status, st)
          else Some (ATT1_OK, count_tile tile (\<lambda>c. c\<lparr>ctc_logits_sent := ctc_logits_sent c + 1\<rparr>) st)
        }
      })"

fun run_tiles ::
  "platform \<Rightarrow> f32 list option \<Rightarrow> f32 list option \<Rightarrow> nat \<Rightarrow> nat \<Rightarrow> att1_layer_shard list \<Rightarrow> att1_cluster_infer
    \<Rightarrow> (att1_status \<times> nat \<times> att1_cluster_infer) option" where
  "run_tiles pf output_norm output_weight clk tile [] st = Some (ATT1_OK, clk, st)"
| "run_tiles pf output_norm output_weight clk tile (shard # rest) st = do {
     let layers = [unat (lsh_layer_start shard)..<unat (lsh_layer_end shard)];
     (status, st) \<leftarrow> receive_hidden tile st;
     if status \<noteq> ATT1_OK then Some (status, clk, st)
     else do {
       (status, st) \<leftarrow> tile_layers pf clk tile layers st;
       if status \<noteq> ATT1_OK then Some (status, clk, st)
       else do {
         (status, st) \<leftarrow> finish_tile pf output_norm output_weight tile st;
         if status \<noteq> ATT1_OK then Some (status, clk, st)
         else run_tiles pf output_norm output_weight (clk + 2 * length layers) (tile + 1) rest st
       }
     }
   }"

definition receive_logits :: "att1_cluster_infer \<Rightarrow> (att1_status \<times> att1_cluster_infer) option" where
  "receive_logits st =
     (let v = unat (mc_vocab_size (in_config st)) in
      case receive_payload (ci_host_tile_id st) PACKET_LOGITS (4 * v) (ci_fabric st) of
        (status, f, bytes) \<Rightarrow> do {
          logits \<leftarrow> store_payload bytes (in_logits st);
          let st = st\<lparr>ci_fabric := f, in_logits := logits\<rparr>;
          if status \<noteq> ATT1_OK then Some (status, st)
          else Some (ATT1_OK, st\<lparr>in_trace := att1_trace_record_fabric_receive (in_trace st) (word_of_nat (4 * v))\<rparr>)
        })"

definition att1_cluster_infer_decode_token ::
  "platform \<Rightarrow> bool \<Rightarrow> att1_cluster_infer option \<Rightarrow> u32 \<Rightarrow> bool \<Rightarrow> (att1_status \<times> att1_cluster_infer option \<times> u32 option) option" where
  "att1_cluster_infer_decode_token pf alloc inferp token_id out_ok =
     (case inferp of
        None \<Rightarrow> Some (ATT1_ERR_INVALID_ARG, None, None)
      | Some st \<Rightarrow>
        (let c = in_config st; n = unat (mc_d_model c) in
         if \<not> out_ok then Some (ATT1_ERR_INVALID_ARG, inferp, None)
         else if mc_vocab_size c \<le> token_id \<or> unat (mc_max_seq_len c) \<le> in_position st
         then Some (ATT1_ERR_INVALID_ARG, inferp, None)
         else if \<not> cluster_plan_complete alloc st then Some (ATT1_ERR_STATE, inferp, None)
         else
           (case decode_views st of
              (status, embedding, output_norm, output_weight) \<Rightarrow>
                (if status \<noteq> ATT1_OK then Some (status, inferp, None)
                 else do {
                   st \<leftarrow> embed_token embedding token_id st;
                   (status, st) \<leftarrow> send_floats (ci_host_tile_id st) 0 PACKET_ACTIVATION (in_hidden st) n
                      (\<lambda>t. att1_trace_record_activation_send t 0 (word_of_nat (4 * n))) st;
                   if status \<noteq> ATT1_OK then Some (status, Some st, None)
                   else if mc_n_heads c = 0 then None
                   else do {
                     let plan = ci_shard_plan st;
                     (status, clk, st) \<leftarrow> run_tiles pf output_norm output_weight 1 0 (take (sp_tile_count plan) (the (sp_tiles plan))) st;
                     if status \<noteq> ATT1_OK then Some (status, Some st, None)
                     else do {
                       (status, st) \<leftarrow> receive_logits st;
                       if status \<noteq> ATT1_OK then Some (status, Some st, None)
                       else do {
                         logits \<leftarrow> buf_read (in_logits st) 0 (unat (mc_vocab_size c));
                         (case att1_sampler_greedy_f32 (Some logits) True of
                            None \<Rightarrow> Some (ATT1_ERR_STATE, Some st, None)
                          | Some token \<Rightarrow>
                            Some (ATT1_OK, Some (st\<lparr>in_trace := att1_trace_record_token (pf_realloc pf) (in_trace st)
                                     (pf_clock pf clk - pf_clock pf 0), in_position := in_position st + 1\<rparr>), Some token))
                       }
                     }
                   }
                 }))))"

definition att1_cluster_infer_generate ::
  "(nat \<Rightarrow> platform) \<Rightarrow> (nat \<Rightarrow> bool) \<Rightarrow> att1_cluster_infer option \<Rightarrow> u8 list option \<Rightarrow> nat \<Rightarrow> bool \<Rightarrow> nat \<Rightarrow> bool
    \<Rightarrow> (att1_status \<times> att1_cluster_infer option \<times> u32 list \<times> nat option) option" where
  "att1_cluster_infer_generate pfs allocs inferp prompt generated_token_count tokens_ok out_token_capacity count_ok =
     (if inferp = None \<or> prompt = None \<or> \<not> tokens_ok \<or> \<not> count_ok then Some (ATT1_ERR_INVALID_ARG, inferp, [], None)
      else if the prompt = [] \<or> out_token_capacity < generated_token_count then Some (ATT1_ERR_INVALID_ARG, inferp, [], None)
      else generate_loops (\<lambda>k st token. att1_cluster_infer_decode_token (pfs k) (allocs k) st token True) (the prompt)
             generated_token_count inferp)"

section \<open>Creation and accessors\<close>

definition new_tile_counters :: "att1_layer_shard \<Rightarrow> att1_cluster_tile_counters" where
  "new_tile_counters shard = \<lparr>ctc_activations_received = 0, ctc_activations_sent = 0, ctc_layers_run = 0, ctc_logits_sent = 0,
     ctc_layer_start = lsh_layer_start shard, ctc_layer_end = lsh_layer_end shard\<rparr>"

text \<open>The number of bytes of the larger of the two packets.\<close>

definition required_payload :: "att1_model_config \<Rightarrow> nat" where
  "required_payload c = (if mc_d_model c < mc_vocab_size c then unat (mc_vocab_size c) * 4 else unat (mc_d_model c) * 4)"

definition cluster_plan ::
  "(nat \<Rightarrow> nat \<Rightarrow> bool) \<Rightarrow> att1_model \<Rightarrow> att1_cluster_infer_config \<Rightarrow> (att1_status \<times> att1_shard_plan) option" where
  "cluster_plan alloc m config =
     (if cic_shard_plan_mode config = SHARD_PLAN_METADATA then
        (if shm_count (md_shard_meta m) = 0 then Some (ATT1_ERR_INVALID_ARG, zero_plan)
         else do {
           (status, proposed) \<leftarrow> att1_meta_plan_build (alloc 1 0, alloc 1 1) (Some m) (Some zero_meta_plan);
           if status \<noteq> ATT1_OK then Some (status, zero_plan)
           else do {
             (status, plan) \<leftarrow> att1_shard_plan_from_meta (alloc 2 0) proposed (mc_n_layers (md_config m)) (cic_tile_count config) (Some zero_plan);
             Some (status, the plan)
           }
         })
      else
        (case att1_shard_plan_build (alloc 2 0) (Some zero_plan) (Some m) (cic_tile_count config) of
           (status, plan) \<Rightarrow> Some (status, the plan)))"

text \<open>The part of both functions from the fabric on, up to the context with its counters.\<close>

definition cluster_setup ::
  "(nat \<Rightarrow> nat \<Rightarrow> bool) \<Rightarrow> att1_status \<times> att1_backend option \<Rightarrow> att1_model \<Rightarrow> att1_cluster_infer_config \<Rightarrow> att1_shard_plan
    \<Rightarrow> att1_status \<times> att1_cluster_infer option" where
  "cluster_setup alloc new_backend m config plan =
     (let tile_count = cic_tile_count config;
          queue_capacity = (if cic_fabric_queue_capacity config \<noteq> 0 then cic_fabric_queue_capacity config else 4);
          max_payload = (if cic_fabric_max_payload_bytes config \<noteq> 0 then cic_fabric_max_payload_bytes config
                         else required_payload (md_config m)) in
      case att1_fabric_create (alloc 3) (Some zero_fabric)
             (Some \<lparr>fc_tile_count = tile_count + 1, fc_queue_capacity = queue_capacity, fc_max_payload_bytes = max_payload\<rparr>) of
        (status, fabric) \<Rightarrow>
          (if status \<noteq> ATT1_OK then (status, None)
           else
             (let (status, backend) = new_backend in
              if \<not> (alloc 0 1 \<and> alloc 0 2 \<and> alloc 0 3 \<and> alloc 0 4 \<and> alloc 0 5 \<and> alloc 0 6) \<or> status \<noteq> ATT1_OK
              then (if status = ATT1_OK then ATT1_ERR_OOM else status, None)
              else
                (case infer_caches (alloc 4) (md_config m) of
                   None \<Rightarrow> (ATT1_ERR_OOM, None)
                 | Some caches \<Rightarrow>
                   (ATT1_OK, Some (att1_infer.extend (new_infer m caches (the backend))
                      \<lparr>ci_shard_plan = plan, ci_fabric = the fabric, ci_host_tile_id = word_of_nat tile_count,
                       ci_tile_counters = map new_tile_counters (take tile_count (the (sp_tiles plan)))\<rparr>))))))"

definition att1_cluster_infer_create ::
  "float_ops \<Rightarrow> (nat \<Rightarrow> nat \<Rightarrow> bool) \<Rightarrow> att1_model option \<Rightarrow> att1_cluster_infer_config option \<Rightarrow> bool
    \<Rightarrow> (att1_status \<times> att1_cluster_infer option) option" where
  "att1_cluster_infer_create fo alloc model configp out_ok =
     (case configp of
        None \<Rightarrow> Some (ATT1_ERR_INVALID_ARG, None)
      | Some config \<Rightarrow>
        (if \<not> out_ok then Some (ATT1_ERR_INVALID_ARG, None)
         else
           (let status = att1_model_view_validate_decoder model; m = the model in
            if status \<noteq> ATT1_OK then Some (status, None)
            else if cic_tile_count config = 0 \<or> 2 ^ 32 - 2 < cic_tile_count config then Some (ATT1_ERR_INVALID_ARG, None)
            else if cic_fabric_max_payload_bytes config \<noteq> 0 \<and> cic_fabric_max_payload_bytes config < required_payload (md_config m)
            then Some (ATT1_ERR_INVALID_ARG, None)
            else if \<not> alloc 0 0 then Some (ATT1_ERR_OOM, None)
            else do {
              (status, plan) \<leftarrow> cluster_plan alloc m config;
              if status \<noteq> ATT1_OK then Some (status, None)
              else Some (cluster_setup alloc (att1_backend_default_create fo (alloc 0 7) True) m config plan)
            })))"

definition att1_cluster_infer_create_q4 ::
  "float_ops \<Rightarrow> (nat \<Rightarrow> nat \<Rightarrow> bool) \<Rightarrow> att1_model option \<Rightarrow> att1_cluster_infer_config option \<Rightarrow> bool
    \<Rightarrow> att1_status \<times> att1_cluster_infer option" where
  "att1_cluster_infer_create_q4 fo alloc model configp out_ok =
     (case configp of
        None \<Rightarrow> (ATT1_ERR_INVALID_ARG, None)
      | Some config \<Rightarrow>
        (if \<not> out_ok then (ATT1_ERR_INVALID_ARG, None)
         else
           (let status = att1_model_view_validate_decoder_q4 model; m = the model in
            if status \<noteq> ATT1_OK then (status, None)
            else if cic_tile_count config = 0 \<or> 2 ^ 32 - 2 < cic_tile_count config then (ATT1_ERR_INVALID_ARG, None)
            else if cic_shard_plan_mode config = SHARD_PLAN_METADATA then (ATT1_ERR_UNSUPPORTED, None)
            else if cic_fabric_max_payload_bytes config \<noteq> 0 \<and> cic_fabric_max_payload_bytes config < required_payload (md_config m)
            then (ATT1_ERR_INVALID_ARG, None)
            else if \<not> alloc 0 0 then (ATT1_ERR_OOM, None)
            else
              (case att1_shard_plan_build (alloc 2 0) (Some zero_plan) model (cic_tile_count config) of
                 (status, plan) \<Rightarrow>
                   (if status \<noteq> ATT1_OK then (status, None)
                    else
                      (case cluster_setup alloc (att1_backend_cpu_q4_create fo (alloc 0 7) True) m config (the plan) of
                         (status, st) \<Rightarrow>
                           (if status \<noteq> ATT1_OK then (status, None)
                            else
                              (case cluster_prepare_q4 (alloc 5) (the st) of
                                 (status, st) \<Rightarrow> if status \<noteq> ATT1_OK then (status, None) else (ATT1_OK, Some st)))))))))"

definition att1_cluster_infer_logits :: "att1_cluster_infer option \<Rightarrow> f32 list option \<times> nat" where
  "att1_cluster_infer_logits = att1_infer_logits"

definition att1_cluster_infer_position :: "att1_cluster_infer option \<Rightarrow> bool \<Rightarrow> att1_status \<times> nat option" where
  "att1_cluster_infer_position = att1_infer_position"

definition att1_cluster_infer_get_tile_counters ::
  "att1_cluster_infer option \<Rightarrow> u32 \<Rightarrow> bool \<Rightarrow> att1_status \<times> att1_cluster_tile_counters option" where
  "att1_cluster_infer_get_tile_counters inferp tile_id out_ok =
     (case inferp of
        None \<Rightarrow> (ATT1_ERR_INVALID_ARG, None)
      | Some st \<Rightarrow>
        (if \<not> out_ok \<or> sp_tile_count (ci_shard_plan st) \<le> unat tile_id then (ATT1_ERR_INVALID_ARG, None)
         else (ATT1_OK, Some (ci_tile_counters st ! unat tile_id))))"

definition att1_cluster_infer_get_tile_shard ::
  "att1_cluster_infer option \<Rightarrow> u32 \<Rightarrow> bool \<Rightarrow> att1_status \<times> att1_layer_shard option" where
  "att1_cluster_infer_get_tile_shard inferp tile_id out_ok =
     (case inferp of
        None \<Rightarrow> (ATT1_ERR_INVALID_ARG, None)
      | Some st \<Rightarrow>
        (if \<not> out_ok then (ATT1_ERR_INVALID_ARG, None)
         else (case att1_shard_plan_tile (Some (ci_shard_plan st)) tile_id of
                 None \<Rightarrow> (ATT1_ERR_INVALID_ARG, None)
               | Some shard \<Rightarrow> (ATT1_OK, Some shard))))"

definition att1_cluster_infer_set_trace ::
  "att1_cluster_infer option \<Rightarrow> att1_trace option \<Rightarrow> att1_status \<times> att1_cluster_infer option" where
  "att1_cluster_infer_set_trace = att1_infer_set_trace"

definition att1_cluster_infer_set_backend ::
  "float_ops \<Rightarrow> (nat \<Rightarrow> bool) \<Rightarrow> att1_cluster_infer option \<Rightarrow> att1_backend option \<Rightarrow> (att1_status \<times> att1_cluster_infer option) option" where
  "att1_cluster_infer_set_backend = att1_infer_set_backend"

end
