(* ===== verification/Numeric_Q4.thy ===== *)
theory Numeric_Q4
  imports Numeric_Props
begin

text \<open>
  Four-bit weights: packing and unpacking, the group quantiser and its inverse, and the product with a packed matrix
  as the float product with the matrix it stands for.
\<close>

section \<open>Nibbles\<close>

lemma q4_group_facts:
  assumes "q4_group_size_valid g"
  shows "even (unat g)" "0 < unat g" "unat g \<le> 128"
proof -
  have "g \<in> {16, 32, 64, 128}"
    using assms q4_size_iff [of g] by (simp add: q4_group_size_valid_def q4_codes not_less)
  then show "even (unat g)" "0 < unat g" "unat g \<le> 128" by auto
qed

lemma sint_clamp: "0 \<le> k \<Longrightarrow> k \<le> 127 \<Longrightarrow> sint (word_of_int (clamp k q) :: u8) = clamp k q"
  by (simp add: sint_sbintrunc' clamp_def signed_take_bit_int_eq_self)

lemma clamp_bounds: "0 \<le> k \<Longrightarrow> - k \<le> clamp k q \<and> clamp k q \<le> k"
  by (simp add: clamp_def)

lemma clamp_id: "- k \<le> q \<Longrightarrow> q \<le> k \<Longrightarrow> clamp k q = q"
  by (simp add: clamp_def)

lemma q4_clamp_cases:
  "q4_clamp x \<in> {0xF9, 0xFA, 0xFB, 0xFC, 0xFD, 0xFE, 0xFF, 0, 1, 2, 3, 4, 5, 6, 7}"
proof -
  have "clamp 7 (sint x) \<in> {-7, -6, -5, -4, -3, -2, -1, 0, 1, 2, 3, 4, 5, 6, 7}"
    using clamp_bounds [of 7 "sint x"] by simp presburger
  then show ?thesis unfolding q4_clamp_def by auto
qed

lemma sign_extend_nibble: "q4_sign_extend (q4_clamp x AND 0x0F) = q4_clamp x"
  using q4_clamp_cases [of x] by (elim insertE emptyE) (simp_all add: q4_sign_extend_def)

lemma nibble_mask: "0x0F = (mask 4 :: u8)"
  by (simp add: mask_eq_exp_minus_1)

lemma low_nibble: "((a AND 0x0F) OR push_bit 4 (b AND 0x0F)) AND 0x0F = (a AND 0x0F :: u8)"
  unfolding nibble_mask by (rule bit_word_eqI) (auto simp: bit_simps)

lemma high_nibble: "drop_bit 4 ((a AND 0x0F) OR push_bit 4 (b AND 0x0F)) AND 0x0F = (b AND 0x0F :: u8)"
  unfolding nibble_mask by (rule bit_word_eqI) (auto simp: bit_simps)

lemma unpack_pack_pair: "q4_unpack_byte (q4_pack_pair lo hi) = [q4_clamp lo, q4_clamp hi]"
  by (simp only: q4_unpack_byte_def q4_pack_pair_def low_nibble high_nibble sign_extend_nibble)

section \<open>Groups\<close>

lemma length_unpacked [simp]: "length (concat (map q4_unpack_byte bs)) = 2 * length bs"
  by (induction bs) (simp_all add: q4_unpack_byte_def)

lemma nth_pairs:
  assumes "\<And>x. length (f x) = 2" "i < 2 * length xs"
  shows "concat (map f xs) ! i = f (xs ! (i div 2)) ! (i mod 2)"
  using assms(2)
proof (induction xs arbitrary: i)
  case (Cons x xs)
  show ?case
  proof (cases "i < 2")
    case True
    then show ?thesis using assms(1) [of x] by (simp add: nth_append)
  next
    case False
    then obtain j where j: "i = j + 2" using le_Suc_ex [of 2 i] by (auto simp: add.commute)
    show ?thesis using Cons.IH [of j] Cons.prems j assms(1) [of x] by (simp add: nth_append)
  qed
qed simp

lemma nth_unpacked: "i < 2 * length bs \<Longrightarrow> concat (map q4_unpack_byte bs) ! i = q4_unpack_byte (bs ! (i div 2)) ! (i mod 2)"
  by (rule nth_pairs) (simp_all add: q4_unpack_byte_def)

lemma unpack_group_eq:
  assumes "q4_group_size_valid g" "unat g div 2 \<le> length s" "unat g \<le> length d"
  shows "att1_q4_unpack_group (Some s) g (Some d)
    = Some (0, Some (concat (map q4_unpack_byte (take (unat g div 2) s)) @ drop (unat g) d))"
proof -
  have "2 * (unat g div 2) = unat g" using q4_group_facts(1) [OF assms(1)] by simp
  then show ?thesis using assms by (simp add: att1_q4_unpack_group_def buf_write_0 min_absorb2)
qed

lemma pack_group_eq:
  assumes "q4_group_size_valid g" "unat g \<le> length s" "unat g div 2 \<le> length d"
  shows "att1_q4_pack_group (Some s) g (Some d)
    = Some (0, Some (map (\<lambda>j. q4_pack_pair (s ! (2 * j)) (s ! (2 * j + 1))) [0..<unat g div 2] @ drop (unat g div 2) d))"
  using assms by (simp add: att1_q4_pack_group_def buf_write_0)

lemma pairs_even: "map f [0..<2 * n] = concat (map (\<lambda>j. [f (2 * j), f (2 * j + 1)]) [0..<n])"
  by (induction n) simp_all

lemma pack_unpack_group:
  assumes "q4_group_size_valid g" "unat g \<le> length s" "unat g div 2 \<le> length d" "unat g \<le> length e"
  shows "\<exists>p. att1_q4_pack_group (Some s) g (Some d) = Some (0, Some p) \<and> length p = length d
    \<and> att1_q4_unpack_group (Some p) g (Some e) = Some (0, Some (map q4_clamp (take (unat g) s) @ drop (unat g) e))"
proof -
  let ?n = "unat g div 2"
  let ?ps = "map (\<lambda>j. q4_pack_pair (s ! (2 * j)) (s ! (2 * j + 1))) [0..<?n]"
  have n: "2 * ?n = unat g" using q4_group_facts(1) [OF assms(1)] by simp
  have "take (unat g) s = map ((!) s) [0..<2 * ?n]" using assms(2) n by (intro nth_equalityI) simp_all
  then have "map q4_clamp (take (unat g) s) = concat (map (\<lambda>j. [q4_clamp (s ! (2 * j)), q4_clamp (s ! (2 * j + 1))]) [0..<?n])"
    by (simp add: map_concat comp_def pairs_even)
  also have "\<dots> = concat (map q4_unpack_byte ?ps)" by (simp add: unpack_pack_pair comp_def)
  finally have e: "concat (map q4_unpack_byte ?ps) = map q4_clamp (take (unat g) s)" ..
  show ?thesis
    using assms n e by (intro exI [of _ "?ps @ drop ?n d"]) (simp add: pack_group_eq unpack_group_eq)
qed

text \<open>
  Packing a group of signed values to four bits and unpacking it again gives back the values,
  clamped to -7..7: for every group size the code accepts, and whatever the two buffers held.
\<close>

theorem q4_pack_unpack:
  assumes "q4_group_size_valid g" "unat g \<le> length s" "unat g div 2 \<le> length d" "unat g \<le> length e"
  shows "\<exists>p. att1_q4_pack_group (Some s) g (Some d) = Some (0, Some p) \<and> length p = length d
    \<and> att1_q4_unpack_group (Some p) g (Some e) = Some (0, Some (map q4_clamp (take (unat g) s) @ drop (unat g) e))"
  using pack_unpack_group [OF assms] .

theorem q4_pack_unpack_witness:
  "\<exists>p. att1_q4_pack_group (Some (replicate 16 9)) 16 (Some (replicate 8 0)) = Some (0, Some p)
    \<and> att1_q4_unpack_group (Some p) 16 (Some (replicate 16 0)) = Some (0, Some (replicate 16 7))"
proof -
  have "q4_clamp 9 = 7" by (simp add: q4_clamp_def clamp_def)
  then show ?thesis
    using q4_pack_unpack [of 16 "replicate 16 9" "replicate 8 0" "replicate 16 0"]
    by (auto simp: q4_group_size_valid_def q4_codes)
qed

section \<open>Quantising a group\<close>

lemma row_max_abs_iff: "row_max_abs r m = None \<longleftrightarrow> (\<exists>v \<in> set r. \<not> f32_isfinite v)"
  by (induction r arbitrary: m) auto

lemma clamp_q4_value: "q4_clamp (q4_value fo s v) = q4_value fo s v"
  using clamp_bounds [of 7 "fl_round fo (fl_div fo v s)"]
  by (simp add: q4_clamp_def q4_value_def sint_clamp clamp_id)

text \<open>
  C9. The quantiser of a group refuses exactly the groups with a value that is not finite and leaves the destination
  alone; otherwise, what it packed dequantises to the rounded quotients, limited to -7..7, times the
  scale it reports. Neither depends on what the local arrays held.
\<close>

theorem q4_group_roundtrip:
  assumes "q4_group_size_valid g" "unat g \<le> length src" "unat g div 2 \<le> length d" "unat g \<le> length e"
    and "128 \<le> length buf" "128 \<le> length buf'"
  shows "if \<exists>v \<in> set (take (unat g) src). \<not> f32_isfinite v
    then att1_q4_quantize_group fo buf (Some src) g (Some d) True = Some (-1, Some d, None)
    else \<exists>p scale. att1_q4_quantize_group fo buf (Some src) g (Some d) True = Some (0, Some p, Some scale)
      \<and> att1_q4_dequantize_group fo buf' (Some p) g scale (Some e)
        = Some (0, Some (map (\<lambda>v. fl_mul fo (fl_of_int fo (clamp 7 (fl_round fo (fl_div fo v scale)))) scale)
                           (take (unat g) src) @ drop (unat g) e))"
proof (cases "row_max_abs (take (unat g) src) 0")
  case None
  then have "\<exists>v \<in> set (take (unat g) src). \<not> f32_isfinite v" by (simp add: row_max_abs_iff)
  then show ?thesis using assms(1) None
    by (simp add: att1_q4_quantize_group_def att1_q4_group_scale_def)
next
  case (Some mx)
  note g = q4_group_facts [OF assms(1)]
  let ?n = "unat g"
  let ?sc = "if f32_gt mx 0 then fl_div fo mx F32_SEVEN else F32_ONE"
  let ?q = "map (q4_value fo ?sc) (take ?n src)"
  let ?ib = "?q @ drop ?n buf"
  have fin: "\<not> (\<exists>v \<in> set (take ?n src). \<not> f32_isfinite v)" using Some row_max_abs_iff by (metis option.distinct(1))
  have ib: "?n \<le> length ?ib" "take ?n ?ib = ?q" using assms(2,5) g by simp_all
  have b': "?n \<le> length buf'" using assms(6) g by simp
  obtain p where p: "att1_q4_pack_group (Some ?ib) g (Some d) = Some (0, Some p)"
    "att1_q4_unpack_group (Some p) g (Some buf') = Some (0, Some (map q4_clamp ?q @ drop ?n buf'))"
    using pack_unpack_group [OF assms(1) ib(1) assms(3) b'] ib(2) by metis
  have q: "att1_q4_quantize_group fo buf (Some src) g (Some d) True = Some (0, Some p, Some ?sc)"
    using assms(1,2,5) Some g p(1) by (simp add: att1_q4_quantize_group_def att1_q4_group_scale_def buf_write_0)
  have "map q4_clamp ?q = ?q" by (simp add: clamp_q4_value)
  then have "att1_q4_dequantize_group fo buf' (Some p) g ?sc (Some e)
      = Some (0, Some (map (\<lambda>v. fl_mul fo (fl_of_int fo (clamp 7 (fl_round fo (fl_div fo v ?sc)))) ?sc) (take ?n src) @ drop ?n e))"
    using assms(1,2,4) b' p(2) by (simp add: att1_q4_dequantize_group_def buf_write_0 comp_def q4_value_def sint_clamp)
  then show ?thesis using q fin by auto
qed

theorem q4_group_roundtrip_witness:
  "\<forall>fo. \<exists>p scale. att1_q4_quantize_group fo (replicate 128 0) (Some (replicate 16 F32_ONE)) 16 (Some (replicate 8 0)) True
        = Some (0, Some p, Some scale)
    \<and> att1_q4_dequantize_group fo (replicate 128 0) (Some p) 16 scale (Some (replicate 16 0))
        = Some (0, Some (replicate 16 (fl_mul fo (fl_of_int fo (clamp 7 (fl_round fo (fl_div fo F32_ONE scale)))) scale)))"
proof
  fix fo
  have "f32_isfinite F32_ONE" by (simp add: f32_isfinite_def F32_ONE_def)
  then show "\<exists>p scale. att1_q4_quantize_group fo (replicate 128 0) (Some (replicate 16 F32_ONE)) 16 (Some (replicate 8 0)) True
        = Some (0, Some p, Some scale)
    \<and> att1_q4_dequantize_group fo (replicate 128 0) (Some p) 16 scale (Some (replicate 16 0))
        = Some (0, Some (replicate 16 (fl_mul fo (fl_of_int fo (clamp 7 (fl_round fo (fl_div fo F32_ONE scale)))) scale)))"
    using q4_group_roundtrip [of 16 "replicate 16 F32_ONE" "replicate 8 0" "replicate 16 0" "replicate 128 0" "replicate 128 0" fo]
    by (simp add: q4_group_size_valid_def q4_codes)
qed

section \<open>Products with four-bit weights\<close>

text \<open>The weight of an output and an input, unpacked, and the float matrix the packed one stands for: a row per input.\<close>

definition q4_weight :: "q4_buffers \<Rightarrow> nat \<Rightarrow> nat \<Rightarrow> u8" where
  "q4_weight w out k = q4_unpack_byte (the (pb_packed w) ! (out * (pb_cols w div 2) + k div 2)) ! (k mod 2)"

definition q4_entry :: "float_ops \<Rightarrow> q4_buffers \<Rightarrow> nat \<Rightarrow> nat \<Rightarrow> f32" where
  "q4_entry fo w out k =
     (let n = unat (pb_group_size w)
      in fl_mul fo (fl_of_int fo (sint (q4_weight w out k))) (the (pb_scales w) ! (out * (pb_cols w div n) + k div n)))"

definition q4_dequant :: "float_ops \<Rightarrow> q4_buffers \<Rightarrow> f32 list" where
  "q4_dequant fo w = map (\<lambda>i. q4_entry fo w (i mod pb_rows w) (i div pb_rows w)) [0..<pb_cols w * pb_rows w]"

definition q4_ok :: "q4_buffers \<Rightarrow> bool" where
  "q4_ok w \<longleftrightarrow> 0 < pb_rows w \<and> 0 < pb_cols w \<and> q4_group_size_valid (pb_group_size w) \<and> unat (pb_group_size w) dvd pb_cols w
     \<and> (\<exists>ps ss. pb_packed w = Some ps \<and> pb_scales w = Some ss
     \<and> pb_rows w * (pb_cols w div 2) \<le> length ps \<and> pb_rows w * (pb_cols w div unat (pb_group_size w)) \<le> length ss)"

lemma length_q4_dequant [simp]: "length (q4_dequant fo w) = pb_cols w * pb_rows w"
  by (simp add: q4_dequant_def)

lemma fold_blocks: "fold (\<lambda>g. fold (\<lambda>j. f (g * n + j)) [0..<n]) [0..<m] = fold f [0..<m * n]"
proof (induction m)
  case (Suc m)
  have "[0..<Suc m * n] = [0..<m * n + n]" by (simp add: add.commute)
  also have "\<dots> = [0..<m * n] @ [m * n..<m * n + n]" by (rule upt_add_eq_append) simp
  also have "[m * n..<m * n + n] = map (\<lambda>j. m * n + j) [0..<n]" by (intro nth_equalityI) simp_all
  finally have "[0..<Suc m * n] = [0..<m * n] @ map (\<lambda>j. m * n + j) [0..<n]" .
  then show ?case using Suc by (simp add: fold_map comp_def)
qed simp

text \<open>One cell is the cell of the float product.\<close>

lemma q4_cell_loop_eq:
  assumes w: "q4_ok w" and b: "128 \<le> length buf" and l: "row * pb_cols w + pb_cols w \<le> length lhs" and o: "out < pb_rows w"
    and gs: "set gs \<subseteq> {..<pb_cols w div unat (pb_group_size w)}"
  shows "q4_cell_loop fo buf lhs (pb_cols w) w row out gs acc
    = Some (0, fold (\<lambda>g. fold (\<lambda>j s. fl_add fo s (fl_mul fo (lhs ! (row * pb_cols w + (g * unat (pb_group_size w) + j)))
                  (q4_entry fo w out (g * unat (pb_group_size w) + j)))) [0..<unat (pb_group_size w)]) gs acc)"
  using gs
proof (induction gs arbitrary: acc)
  case (Cons g gs)
  let ?n = "unat (pb_group_size w)" and ?C = "pb_cols w" and ?R = "pb_rows w"
  obtain ps ss where w': "pb_packed w = Some ps" "pb_scales w = Some ss" "?R * (?C div 2) \<le> length ps" "?R * (?C div ?n) \<le> length ss"
    "q4_group_size_valid (pb_group_size w)" "?n dvd ?C" using w by (auto simp: q4_ok_def)
  note gf = q4_group_facts [OF w'(5)]
  have g: "g < ?C div ?n" using Cons.prems by simp
  have half: "2 * (?n div 2) = ?n" using gf(1) by simp
  have C: "?C = ?C div ?n * ?n" using w'(6) by simp
  have gn: "g * ?n + ?n \<le> ?C" using grid_index [OF g, of "?n - 1" ?n] gf(2) C by simp
  have gh: "g * (?n div 2) + ?n div 2 \<le> ?C div 2"
  proof -
    have "2 * (g * (?n div 2) + ?n div 2) = g * ?n + ?n" using half by (simp add: algebra_simps flip: mult.assoc)
    then show ?thesis using gn by (simp add: less_eq_div_iff_mult_less_eq mult.commute)
  qed
  have po: "out * (?C div 2) + (?C div 2) \<le> length ps" using mult_le_mono1 [of "Suc out" ?R "?C div 2"] o w'(3) by simp
  have si: "out * (?C div ?n) + g < length ss" using grid_index [OF o g] w'(4) by simp
  let ?off = "out * (?C div 2) + g * (?n div 2)"
  have un: "att1_q4_unpack_group (Some (drop ?off ps)) (pb_group_size w) (Some buf)
      = Some (0, Some (concat (map q4_unpack_byte (take (?n div 2) (drop ?off ps))) @ drop ?n buf))"
    using po gh gf b by (intro unpack_group_eq [OF w'(5)]; simp; linarith)
  have un_nth: "(concat (map q4_unpack_byte (take (?n div 2) (drop ?off ps))) @ drop ?n buf) ! j = q4_weight w out (g * ?n + j)"
    if "j < ?n" for j
  proof -
    have j: "j div 2 < ?n div 2" using that half by linarith
    have "g * ?n + j = j + 2 * (g * (?n div 2))" using half by (simp add: mult.left_commute)
    then have "(g * ?n + j) div 2 = g * (?n div 2) + j div 2" "(g * ?n + j) mod 2 = j mod 2" by (simp_all only: div_mult_self2 mod_mult_self2 numeral_neq_zero not_False_eq_True add.commute)
    moreover have "length (take (?n div 2) (drop ?off ps)) = ?n div 2" using po gh by simp
    ultimately show ?thesis using that j po gh half w'(1)
      by (simp add: nth_append nth_unpacked q4_weight_def add.assoc del: length_take)
  qed
  have acts: "buf_read lhs (row * ?C + g * ?n) ?n = Some (take ?n (drop (row * ?C + g * ?n) lhs))"
    using l gn by simp
  have scale: "buf_read ss (out * (?C div ?n) + g) 1 = Some [ss ! (out * (?C div ?n) + g)]"
    using si by (simp add: take_Suc_conv_app_nth [of 0, simplified] hd_drop_conv_nth)
  have inner: "fold (\<lambda>j s. fl_add fo s (fl_mul fo (take ?n (drop (row * ?C + g * ?n) lhs) ! j)
        (fl_mul fo (fl_of_int fo (sint ((concat (map q4_unpack_byte (take (?n div 2) (drop ?off ps))) @ drop ?n buf) ! j)))
           (ss ! (out * (?C div ?n) + g))))) [0..<?n] acc
      = fold (\<lambda>j s. fl_add fo s (fl_mul fo (lhs ! (row * ?C + (g * ?n + j))) (q4_entry fo w out (g * ?n + j)))) [0..<?n] acc"
  proof (rule fold_cong [OF refl refl])
    fix j assume "j \<in> set [0..<?n]"
    then have j: "j < ?n" by simp
    have "(g * ?n + j) div ?n = g" using j by simp
    then show "(\<lambda>s. fl_add fo s (fl_mul fo (take ?n (drop (row * ?C + g * ?n) lhs) ! j)
          (fl_mul fo (fl_of_int fo (sint ((concat (map q4_unpack_byte (take (?n div 2) (drop ?off ps))) @ drop ?n buf) ! j)))
             (ss ! (out * (?C div ?n) + g)))))
        = (\<lambda>s. fl_add fo s (fl_mul fo (lhs ! (row * ?C + (g * ?n + j))) (q4_entry fo w out (g * ?n + j))))"
      using j l gn w'(2) by (simp add: un_nth q4_entry_def Let_def add.assoc)
  qed
  show ?case
    using Cons.IH Cons.prems w'(1,2) un acts scale by (simp add: Let_def inner del: fold_append)
qed simp

lemma q4_cell_eq:
  assumes "q4_ok w" "128 \<le> length buf" "row * pb_cols w + pb_cols w \<le> length lhs" "out < pb_rows w"
  shows "q4_cell_loop fo buf lhs (pb_cols w) w row out [0..<pb_cols w div unat (pb_group_size w)] 0
    = Some (0, matmul_cell fo lhs (q4_dequant fo w) (pb_rows w) (pb_cols w) row out)"
proof -
  let ?n = "unat (pb_group_size w)" and ?C = "pb_cols w"
  let ?f = "\<lambda>k s. fl_add fo s (fl_mul fo (lhs ! (row * ?C + k)) (q4_entry fo w out k))"
  have C: "?C div ?n * ?n = ?C" using assms(1) by (simp add: q4_ok_def)
  have "fold (\<lambda>g. fold (\<lambda>j. ?f (g * ?n + j)) [0..<?n]) [0..<?C div ?n] 0 = fold ?f [0..<?C] 0"
    using fold_blocks [of ?f ?n "?C div ?n"] C by simp
  also have "\<dots> = matmul_cell fo lhs (q4_dequant fo w) (pb_rows w) ?C row out"
    unfolding matmul_cell_def
  proof (rule fold_cong [OF refl refl])
    fix k assume "k \<in> set [0..<?C]"
    then have "k * pb_rows w + out < ?C * pb_rows w" using grid_index assms(4) by simp
    then have "q4_dequant fo w ! (k * pb_rows w + out) = q4_entry fo w out k" using assms(4) by (simp add: q4_dequant_def)
    then show "?f k = (\<lambda>s. fl_add fo s (fl_mul fo (lhs ! (row * ?C + k)) (q4_dequant fo w ! (k * pb_rows w + out))))" by simp
  qed
  finally have e: "fold (\<lambda>g. fold (\<lambda>j. ?f (g * ?n + j)) [0..<?n]) [0..<?C div ?n] 0
      = matmul_cell fo lhs (q4_dequant fo w) (pb_rows w) ?C row out" .
  have "set [0..<?C div ?n] \<subseteq> {..<?C div ?n}" by auto
  from q4_cell_loop_eq [OF assms this, of fo 0] show ?thesis unfolding e .
qed

text \<open>The loop over the cells stores the cells row by row.\<close>

lemma product_index: "List.product [0..<m] [0..<n] = map (\<lambda>i. (i div n, i mod n)) [0..<m * n]"
proof (intro nth_equalityI)
  fix i assume "i < length (List.product [0..<m] [0..<n])"
  then have i: "i < m * n" by simp
  then have "0 < n" by (cases n) auto
  then have "i div n < m" "i mod n < n" using i by (simp_all add: less_mult_imp_div_less)
  then show "List.product [0..<m] [0..<n] ! i = map (\<lambda>i. (i div n, i mod n)) [0..<m * n] ! i"
    using i by (simp add: product_nth)
qed simp

lemma buf_write_1: "i < length xs \<Longrightarrow> buf_write xs i [x] = Some (xs[i := x])"
  by (simp add: buf_write_def write_bytes_def upd_conv_take_nth_drop)

lemma fold_update_map: "n \<le> length d \<Longrightarrow> fold (\<lambda>i d. d[i := f i]) [0..<n] d = map f [0..<n] @ drop n d"
proof (induction n)
  case (Suc n)
  then have "drop n d = d ! n # drop (Suc n) d" by (simp add: Cons_nth_drop_Suc)
  then show ?case using Suc by (simp add: list_update_append)
qed simp

lemma q4_cells_loop_eq:
  assumes "q4_ok w" "128 \<le> length buf" "rows * pb_cols w \<le> length lhs" "rows * pb_rows w \<le> length dst" "set is \<subseteq> {..<rows * pb_rows w}"
  shows "q4_cells_loop fo buf lhs (pb_cols w) w (map (\<lambda>i. (i div pb_rows w, i mod pb_rows w)) is) dst
    = Some (0, fold (\<lambda>i d. d[i := matmul_cell fo lhs (q4_dequant fo w) (pb_rows w) (pb_cols w) (i div pb_rows w) (i mod pb_rows w)]) is dst)"
  using assms(4,5)
proof (induction "is" arbitrary: dst)
  case (Cons i "is")
  have i: "i < rows * pb_rows w" using Cons.prems(2) by simp
  have "0 < pb_rows w" using assms(1) by (simp add: q4_ok_def)
  then have dm: "i div pb_rows w < rows" "i mod pb_rows w < pb_rows w" using i by (simp_all add: less_mult_imp_div_less)
  then have "i div pb_rows w * pb_cols w + pb_cols w \<le> length lhs"
    using mult_le_mono1 [of "Suc (i div pb_rows w)" rows "pb_cols w"] assms(3) by simp
  note cell = q4_cell_eq [OF assms(1,2) this dm(2), of fo]
  have "i div pb_rows w * pb_rows w + i mod pb_rows w = i" by simp
  then show ?case using Cons i by (simp add: cell buf_write_1)
qed simp

lemma matmul_q4_eq:
  assumes "q4_ok w" "128 \<le> length buf" "rows * pb_cols w \<le> length l" "rows * pb_rows w \<le> length d"
  shows "att1_matmul_q4xf32 fo buf (Some d) (Some l) rows (pb_cols w) (Some w)
    = att1_matmul_f32 fo (Some d) (Some l) (Some (q4_dequant fo w)) rows (pb_rows w) (pb_cols w)"
proof (cases "rows = 0")
  case False
  have pos: "0 < pb_rows w" "0 < pb_cols w" "pb_group_size w \<noteq> 0" "pb_packed w \<noteq> None" "pb_scales w \<noteq> None"
    using assms(1) q4_group_facts(2) [of "pb_group_size w"] by (auto simp: q4_ok_def)
  have "set [0..<rows * pb_rows w] \<subseteq> {..<rows * pb_rows w}" by auto
  note loop = q4_cells_loop_eq [OF assms this, of fo]
  show ?thesis
    using False pos assms(3,4) unfolding att1_matmul_q4xf32_def att1_matmul_f32_def product_index
    by (simp add: loop fold_update_map buf_write_0)
next
  case True
  then show ?thesis using assms(1) by (auto simp: att1_matmul_q4xf32_def att1_matmul_f32_def q4_ok_def)
qed

text \<open>
  C7. The product with packed four-bit weights is the float product with the dequantised and transposed matrix, bit by bit
  and for any arithmetic: the groups are read in the order of the columns, and the low nibble of a byte first.
\<close>

theorem matmul_q4_is_f32:
  assumes "q4_ok w" "128 \<le> length buf" "rows * pb_cols w \<le> length l" "rows * pb_rows w \<le> length d"
  shows "att1_matmul_q4xf32 fo buf (Some d) (Some l) rows (pb_cols w) (Some w)
    = att1_matmul_f32 fo (Some d) (Some l) (Some (q4_dequant fo w)) rows (pb_rows w) (pb_cols w)"
  by (rule matmul_q4_eq [OF assms])

definition demo_q4_matrix :: q4_buffers where
  "demo_q4_matrix = \<lparr>pb_rows = 1, pb_cols = 16, pb_group_size = 16, pb_packed = Some (replicate 8 0xF1), pb_scales = Some [7]\<rparr>"

theorem matmul_q4_is_f32_witness:
  "\<forall>fo. att1_matmul_q4xf32 fo (replicate 128 0) (Some [0]) (Some (replicate 16 9)) 1 16 (Some demo_q4_matrix)
    = att1_matmul_f32 fo (Some [0]) (Some (replicate 16 9))
        (Some (concat (replicate 8 [fl_mul fo (fl_of_int fo 1) 7, fl_mul fo (fl_of_int fo (-1)) 7]))) 1 1 16"
proof
  fix fo
  have "q4_ok demo_q4_matrix" by (simp add: q4_ok_def demo_q4_matrix_def q4_group_size_valid_def q4_codes)
  moreover have "q4_dequant fo demo_q4_matrix = concat (replicate 8 [fl_mul fo (fl_of_int fo 1) 7, fl_mul fo (fl_of_int fo (-1)) 7])"
  proof -
    have u: "[0..<16] = [0, 1, 2, 3, 4, 5, 6, 7, 8, 9, 10, 11, 12, 13, 14, 15 :: nat]" by (simp add: upt_rec)
    have r: "replicate 8 x = [x, x, x, x, x, x, x, x]" for x :: "f32 list" by (simp add: numeral_eq_Suc)
    show ?thesis unfolding r
      by (simp add: q4_dequant_def demo_q4_matrix_def u q4_entry_def q4_weight_def q4_unpack_byte_def q4_sign_extend_def)
  qed
  ultimately show "att1_matmul_q4xf32 fo (replicate 128 0) (Some [0]) (Some (replicate 16 9)) 1 16 (Some demo_q4_matrix)
    = att1_matmul_f32 fo (Some [0]) (Some (replicate 16 9))
        (Some (concat (replicate 8 [fl_mul fo (fl_of_int fo 1) 7, fl_mul fo (fl_of_int fo (-1)) 7]))) 1 1 16"
    using matmul_q4_is_f32 [of demo_q4_matrix "replicate 128 0" 1 "replicate 16 9" "[0]" fo] by (simp add: demo_q4_matrix_def)
qed

end
