(* ===== verification/Attention_Props.thy ===== *)
theory Attention_Props
  imports Attention Numeric_Q4
begin

text \<open>
  The decoder block as a function on vectors, without buffers, allocations and scratch space: what the kernels of a back
  end promise (the locale \<open>decoder_kernels\<close>), and that attention and block compute that function with any such back end.
\<close>

section \<open>The functions on vectors\<close>

definition vec_mat :: "float_ops \<Rightarrow> f32 list \<Rightarrow> nat \<Rightarrow> nat \<Rightarrow> f32 list \<Rightarrow> f32 list" where
  "vec_mat fo W n m x = map (matmul_cell fo x W n m 0) [0..<n]"

definition vec_dot :: "float_ops \<Rightarrow> f32 list \<Rightarrow> f32 list \<Rightarrow> f32" where
  "vec_dot fo xs ys = fold (\<lambda>(x, y) s. fl_add fo s (fl_mul fo x y)) (zip xs ys) 0"

definition vec_add :: "float_ops \<Rightarrow> f32 list \<Rightarrow> f32 list \<Rightarrow> f32 list" where
  "vec_add fo xs ys = map (\<lambda>(x, y). fl_add fo x y) (zip xs ys)"

definition vec_axpy :: "float_ops \<Rightarrow> f32 \<Rightarrow> f32 list \<Rightarrow> f32 list \<Rightarrow> f32 list" where
  "vec_axpy fo s ys xs = map (\<lambda>(x, y). fl_add fo x (fl_mul fo s y)) (zip xs ys)"

definition vec_swiglu :: "float_ops \<Rightarrow> f32 list \<Rightarrow> f32 list \<Rightarrow> f32 list" where
  "vec_swiglu fo gs vs = map (\<lambda>(x, y). fl_mul fo (att1_silu_f32 fo x) y) (zip gs vs)"

definition vec_rmsnorm :: "float_ops \<Rightarrow> nat \<Rightarrow> f32 list \<Rightarrow> f32 \<Rightarrow> f32 list \<Rightarrow> f32 list" where
  "vec_rmsnorm fo n w eps s =
     (let sum_squares = fold (\<lambda>i sum. fl_add fo sum (fl_mul fo (s ! i) (s ! i))) [0..<n] 0;
          scale = fl_div fo F32_ONE (fl_sqrt fo (fl_add fo (fl_div fo sum_squares (fl_of_int fo (int n))) eps))
      in map (\<lambda>i. fl_mul fo (fl_mul fo (s ! i) scale) (w ! i)) [0..<n])"

definition vec_softmax :: "float_ops \<Rightarrow> f32 list \<Rightarrow> f32 list option" where
  "vec_softmax fo xs =
     (let mx = fold (\<lambda>x m. if f32_gt x m then x else m) (tl xs) (hd xs);
          es = map (\<lambda>x. fl_exp fo (fl_sub fo x mx)) xs;
          total = fold (\<lambda>e s. fl_add fo s e) es 0
      in if f32_eq total 0 then None else Some (map (\<lambda>e. fl_div fo e total) es))"

definition vec_rope :: "float_ops \<Rightarrow> nat \<Rightarrow> nat \<Rightarrow> f32 \<Rightarrow> f32 list \<Rightarrow> f32 list" where
  "vec_rope fo n position theta v = concat (map (\<lambda>j. rope_pair fo n position theta v (2 * j)) [0..<n div 2])"

text \<open>Something done to each block of \<open>d\<close> elements, and the rest left alone.\<close>

definition blocks :: "nat \<Rightarrow> nat \<Rightarrow> (f32 list \<Rightarrow> f32 list) \<Rightarrow> f32 list \<Rightarrow> f32 list" where
  "blocks d m f x = concat (map (\<lambda>h. f (read_bytes (h * d) d x)) [0..<m]) @ drop (m * d) x"

text \<open>One head: the scores of the query against every position, normalised, and the values mixed.\<close>

definition head_context :: "float_ops \<Rightarrow> nat \<Rightarrow> f32 list \<Rightarrow> kv_pair list \<Rightarrow> nat \<Rightarrow> f32 list option" where
  "head_context fo d q kvs h =
     (let isq = fl_div fo F32_ONE (fl_sqrt fo (fl_of_int fo (int d)));
          scores = map (\<lambda>e. fl_mul fo (vec_dot fo (read_bytes (h * d) d q) (fst (head_of d h e))) isq) kvs
      in case vec_softmax fo scores of
           None \<Rightarrow> None
         | Some ws \<Rightarrow> Some (fold (\<lambda>(w, e). vec_axpy fo w (snd (head_of d h e))) (zip ws kvs) (replicate d 0)))"

definition head_contexts :: "float_ops \<Rightarrow> nat \<Rightarrow> nat \<Rightarrow> f32 list \<Rightarrow> kv_pair list \<Rightarrow> f32 list option" where
  "head_contexts fo d n q kvs =
     (if \<exists>h \<in> set [0..<n]. head_context fo d q kvs h = None then None
      else Some (concat (map (\<lambda>h. the (head_context fo d q kvs h)) [0..<n])))"

record layer_mats =
  lm_attention_norm :: "f32 list"
  lm_ffn_norm :: "f32 list"
  lm_wq :: "f32 list"
  lm_wk :: "f32 list"
  lm_wv :: "f32 list"
  lm_wo :: "f32 list"
  lm_w_gate :: "f32 list"
  lm_w_up :: "f32 list"
  lm_w_down :: "f32 list"

text \<open>The attention step on the stored pairs: the output and the new pair, or failure of the softmax.\<close>

definition attention_spec ::
  "float_ops \<Rightarrow> att1_attention_config \<Rightarrow> (nat \<Rightarrow> f32 list) \<Rightarrow> nat \<Rightarrow> f32 list \<Rightarrow> kv_pair list \<Rightarrow> (f32 list \<times> kv_pair) option" where
  "attention_spec fo c W position x kvs =
     (let md = ac_model_dim c; d = ac_head_dim c; n = ac_num_heads c;
          rope = blocks d n (vec_rope fo d position (ac_rope_theta c));
          q = rope (vec_mat fo (W 0) md md x);
          kv = (rope (vec_mat fo (W 1) md md x), vec_mat fo (W 2) md md x)
      in case head_contexts fo d n q (kvs @ [kv]) of
           None \<Rightarrow> None
         | Some ctx \<Rightarrow> Some (vec_mat fo (W 3) md md ctx, kv))"

definition block_spec ::
  "float_ops \<Rightarrow> att1_transformer_block_config \<Rightarrow> layer_mats \<Rightarrow> nat \<Rightarrow> f32 list \<Rightarrow> kv_pair list \<Rightarrow> (f32 list \<times> kv_pair) option" where
  "block_spec fo c w position x kvs =
     (let md = tb_model_dim c; fd = tb_ffn_dim c in
      case attention_spec fo
             \<lparr>ac_model_dim = md, ac_num_heads = tb_num_heads c, ac_head_dim = tb_head_dim c, ac_rope_theta = tb_rope_theta c\<rparr>
             (\<lambda>i. [lm_wq w, lm_wk w, lm_wv w, lm_wo w] ! i) position
             (vec_rmsnorm fo md (lm_attention_norm w) (tb_rms_epsilon c) x) kvs of
        None \<Rightarrow> None
      | Some (y, kv) \<Rightarrow>
        (let r = vec_add fo x y;
             f = vec_rmsnorm fo md (lm_ffn_norm w) (tb_rms_epsilon c) r;
             g = vec_swiglu fo (vec_mat fo (lm_w_gate w) fd md f) (vec_mat fo (lm_w_up w) fd md f)
         in Some (vec_add fo r (vec_mat fo (lm_w_down w) md fd g), kv)))"

section \<open>Lengths\<close>

lemma length_vec_mat [simp]: "length (vec_mat fo W n m x) = n"
  by (simp add: vec_mat_def)

lemma length_vec_add [simp]: "length (vec_add fo xs ys) = min (length xs) (length ys)"
  by (simp add: vec_add_def)

lemma length_vec_axpy [simp]: "length (vec_axpy fo s ys xs) = min (length xs) (length ys)"
  by (simp add: vec_axpy_def)

lemma length_vec_swiglu [simp]: "length (vec_swiglu fo gs vs) = min (length gs) (length vs)"
  by (simp add: vec_swiglu_def)

lemma length_vec_rmsnorm [simp]: "length (vec_rmsnorm fo n w eps s) = n"
  by (simp add: vec_rmsnorm_def Let_def)

lemma length_vec_softmax: "vec_softmax fo xs = Some ws \<Longrightarrow> length ws = length xs"
  by (auto simp: vec_softmax_def Let_def split: if_splits)

lemma length_vec_rope [simp]: "even n \<Longrightarrow> length (vec_rope fo n p th v) = n"
  by (simp add: vec_rope_def length_rope_pairs)

lemma length_concat_blocks: "(\<And>h. h < m \<Longrightarrow> length (f h) = d) \<Longrightarrow> length (concat (map f [0..<m])) = m * d"
  by (induction m) simp_all

lemma length_blocks:
  assumes "\<And>y. length y = d \<Longrightarrow> length (f y) = d" "m * d \<le> length x"
  shows "length (blocks d m f x) = length x"
proof -
  have "length (f (read_bytes (h * d) d x)) = d" if "h < m" for h
    using that assms(2) mult_le_mono1 [of "Suc h" m d] by (intro assms(1)) simp
  then show ?thesis using assms(2) by (simp add: blocks_def length_concat_blocks)
qed

text \<open>Only the first \<open>m\<close> inputs matter.\<close>

lemma vec_mat_take: "m \<le> k \<Longrightarrow> vec_mat fo W n m (take k x) = vec_mat fo W n m x"
  unfolding vec_mat_def matmul_cell_def by (rule map_cong [OF refl], rule fold_cong) simp_all

lemma vec_rmsnorm_take: "n \<le> k \<Longrightarrow> vec_rmsnorm fo n w eps (take k s) = vec_rmsnorm fo n w eps s"
proof -
  assume "n \<le> k"
  then have "fold (\<lambda>i sum. fl_add fo sum (fl_mul fo (take k s ! i) (take k s ! i))) [0..<n] 0
      = fold (\<lambda>i sum. fl_add fo sum (fl_mul fo (s ! i) (s ! i))) [0..<n] 0"
    by (intro fold_cong) simp_all
  then show ?thesis using \<open>n \<le> k\<close> by (simp add: vec_rmsnorm_def Let_def)
qed

lemma vec_rope_take: "n \<le> k \<Longrightarrow> vec_rope fo n p th (take k v) = vec_rope fo n p th v"
  unfolding vec_rope_def
  by (intro arg_cong [where f = concat] map_cong [OF refl]) (simp add: rope_pair_def Let_def)

section \<open>The kernels of a back end\<close>

text \<open>
  What attention and block rely on: each kernel computes its function into the front of a destination that is long enough,
  and leaves the rest alone.
\<close>

locale decoder_kernels =
  fixes fo :: float_ops and ops :: att1_backend_ops
  assumes alloc_law: "bo_alloc ops" "bo_free ops"
    and rmsnorm_law: "\<exists>f. bo_rmsnorm_f32 ops = Some f \<and> (\<forall>d s w n eps. 0 < n \<longrightarrow> \<not> f32_le eps 0 \<longrightarrow> n \<le> length s
      \<longrightarrow> n \<le> length w \<longrightarrow> n \<le> length d \<longrightarrow> f d s w n eps = Some (0, vec_rmsnorm fo n w eps s @ drop n d))"
    and softmax_law: "\<exists>f. bo_softmax_f32 ops = Some f \<and> (\<forall>v n. 0 < n \<longrightarrow> n \<le> length v \<longrightarrow>
      (case vec_softmax fo (take n v) of
         None \<Rightarrow> \<exists>rc v'. rc \<noteq> 0 \<and> f v n = Some (rc, v')
       | Some ws \<Rightarrow> f v n = Some (0, ws @ drop n v)))"
    and rope_law: "\<exists>f. bo_rope_f32 ops = Some f \<and> (\<forall>v n p th. 0 < n \<longrightarrow> even n \<longrightarrow> \<not> f32_le th 0 \<longrightarrow> n \<le> length v
      \<longrightarrow> f v n p th = Some (0, vec_rope fo n p th v @ drop n v))"
    and swiglu_law: "\<exists>f. bo_ffn_swiglu_f32 ops = Some f \<and> (\<forall>d g v n. 0 < n \<longrightarrow> n \<le> length g \<longrightarrow> n \<le> length v \<longrightarrow> n \<le> length d
      \<longrightarrow> f d g v n = Some (0, vec_swiglu fo (take n g) (take n v) @ drop n d))"

lemma cpu_kernel_rmsnorm:
  assumes "0 < n" "\<not> f32_le eps 0" "n \<le> length s" "n \<le> length w" "n \<le> length d"
  shows "non_null (att1_rmsnorm_f32 fo (Some d) (Some s) (Some w) n eps) = Some (0, vec_rmsnorm fo n w eps s @ drop n d)"
  using assms by (simp add: att1_rmsnorm_f32_def vec_rmsnorm_def buf_write_0 Let_def non_null_def)

lemma cpu_kernel_softmax:
  assumes "0 < n" "n \<le> length v"
  shows "case vec_softmax fo (take n v) of
      None \<Rightarrow> \<exists>rc v'. rc \<noteq> 0 \<and> non_null (att1_softmax_f32 fo (Some v) n) = Some (rc, v')
    | Some ws \<Rightarrow> non_null (att1_softmax_f32 fo (Some v) n) = Some (0, ws @ drop n v)"
  using assms by (simp add: att1_softmax_f32_def vec_softmax_def buf_write_0 Let_def non_null_def min_absorb2)

lemma cpu_kernel_rope:
  assumes "0 < n" "even n" "\<not> f32_le th 0" "n \<le> length v"
  shows "non_null (att1_rope_f32 fo (Some v) n p th) = Some (0, vec_rope fo n p th v @ drop n v)"
  using assms by (simp add: att1_rope_f32_def vec_rope_def buf_write_0 length_rope_pairs non_null_def even_iff_mod_2_eq_zero [symmetric])

lemma cpu_kernel_swiglu:
  assumes "0 < n" "n \<le> length g" "n \<le> length v" "n \<le> length d"
  shows "non_null (att1_swiglu_f32 fo (Some d) (Some g) (Some v) n) = Some (0, vec_swiglu fo (take n g) (take n v) @ drop n d)"
  using assms by (simp add: att1_swiglu_f32_def vec_swiglu_def buf_write_0 non_null_def)

lemmas cpu_kernels = cpu_kernel_rmsnorm cpu_kernel_softmax cpu_kernel_rope cpu_kernel_swiglu

interpretation cpu_f32: decoder_kernels fo "cpu_f32_ops fo" for fo
  by unfold_locales (simp_all add: cpu_f32_ops_def cpu_kernels)

interpretation cpu_q8: decoder_kernels fo "cpu_q8_ops fo" for fo
  by unfold_locales (simp_all add: cpu_q8_ops_def cpu_kernels)

interpretation cpu_q4: decoder_kernels fo "cpu_q4_ops fo" for fo
  by unfold_locales (simp_all add: cpu_q4_ops_def cpu_kernels)

section \<open>Loops\<close>

text \<open>The state after the first \<open>m\<close> blocks of a loop that rewrites a buffer block by block.\<close>

lemma blocks_step:
  assumes "\<And>y. length y = d \<Longrightarrow> length (f y) = d" "m * d + d \<le> length x"
  shows "take (m * d) (blocks d m f x) @ f (read_bytes (m * d) d x) @ drop d (drop (m * d) (blocks d m f x)) = blocks d (Suc m) f x"
    and "drop (m * d) (blocks d m f x) = drop (m * d) x" "m * d \<le> length (blocks d m f x)"
proof -
  have "length (f (read_bytes (h * d) d x)) = d" if "h < m" for h
    using that assms(2) mult_le_mono1 [of "Suc h" m d] by (intro assms(1)) simp
  then have l: "length (concat (map (\<lambda>h. f (read_bytes (h * d) d x)) [0..<m])) = m * d" by (rule length_concat_blocks)
  show "take (m * d) (blocks d m f x) @ f (read_bytes (m * d) d x) @ drop d (drop (m * d) (blocks d m f x)) = blocks d (Suc m) f x"
    using l by (simp add: blocks_def add.commute)
  show "drop (m * d) (blocks d m f x) = drop (m * d) x" using l by (simp add: blocks_def)
  show "m * d \<le> length (blocks d m f x)" using assms(1,2) by (simp add: length_blocks)
qed

lemma dot_eq: "n \<le> length xs \<Longrightarrow> n \<le> length ys \<Longrightarrow> att1_dot_f32 fo xs ys n = Some (vec_dot fo (take n xs) (take n ys))"
proof -
  assume "n \<le> length xs" "n \<le> length ys"
  then have "zip (take n xs) (take n ys) = map (\<lambda>i. (xs ! i, ys ! i)) [0..<n]" by (intro nth_equalityI) simp_all
  then show ?thesis using \<open>n \<le> length xs\<close> \<open>n \<le> length ys\<close> by (simp add: att1_dot_f32_def vec_dot_def fold_map comp_def)
qed

text \<open>What a pointer into the cache points to.\<close>

lemma cache_pointers:
  assumes "cache_inv c" "h < cc_num_heads c" "p < cc_length c"
  shows "att1_kv_cache_key (Some c) p h = Some (att1_kv_cache_slot (cc_head_dim c) (cc_num_heads c) p h)"
    and "att1_kv_cache_value (Some c) p h = Some (att1_kv_cache_slot (cc_head_dim c) (cc_num_heads c) p h)"
    and "att1_kv_cache_slot (cc_head_dim c) (cc_num_heads c) p h + cc_head_dim c \<le> length (the (cc_keys c))"
    and "att1_kv_cache_slot (cc_head_dim c) (cc_num_heads c) p h + cc_head_dim c \<le> length (the (cc_values c))"
    and "read_bytes (att1_kv_cache_slot (cc_head_dim c) (cc_num_heads c) p h) (cc_head_dim c) (the (cc_keys c))
      = fst (head_of (cc_head_dim c) h (cache_content c ! p))"
    and "read_bytes (att1_kv_cache_slot (cc_head_dim c) (cc_num_heads c) p h) (cc_head_dim c) (the (cc_values c))
      = snd (head_of (cc_head_dim c) h (cache_content c ! p))"
proof -
  obtain ks vs where b: "cc_keys c = Some ks" "cc_values c = Some vs" "length ks = cc_max_positions c * cc_width c"
    "length vs = cc_max_positions c * cc_width c" "cc_length c \<le> cc_max_positions c" using assms(1) by (auto simp: cache_inv_def)
  show k: "att1_kv_cache_key (Some c) p h = Some (att1_kv_cache_slot (cc_head_dim c) (cc_num_heads c) p h)"
    and v: "att1_kv_cache_value (Some c) p h = Some (att1_kv_cache_slot (cc_head_dim c) (cc_num_heads c) p h)"
    using b assms by (simp_all add: att1_kv_cache_key_def att1_kv_cache_value_def)
  have "h * cc_head_dim c + cc_head_dim c \<le> cc_width c" using row_fits [OF assms(2)] by (simp add: cc_width_def)
  moreover have "p * cc_width c + cc_width c \<le> cc_max_positions c * cc_width c" using row_fits [of p "cc_max_positions c"] assms(3) b by simp
  moreover have "att1_kv_cache_slot (cc_head_dim c) (cc_num_heads c) p h = p * cc_width c + h * cc_head_dim c"
    by (simp add: att1_kv_cache_slot_def cc_width_def algebra_simps)
  ultimately show "att1_kv_cache_slot (cc_head_dim c) (cc_num_heads c) p h + cc_head_dim c \<le> length (the (cc_keys c))"
    "att1_kv_cache_slot (cc_head_dim c) (cc_num_heads c) p h + cc_head_dim c \<le> length (the (cc_values c))" using b by simp_all
  have "cache_read c p h = Some (head_of (cc_head_dim c) h (cache_content c ! p))"
    using cache_read_law assms b(5) by simp
  then have "(read_bytes (att1_kv_cache_slot (cc_head_dim c) (cc_num_heads c) p h) (cc_head_dim c) (the (cc_keys c)),
      read_bytes (att1_kv_cache_slot (cc_head_dim c) (cc_num_heads c) p h) (cc_head_dim c) (the (cc_values c)))
      = head_of (cc_head_dim c) h (cache_content c ! p)" using k v by (simp add: cache_read_def)
  from this [symmetric] show "read_bytes (att1_kv_cache_slot (cc_head_dim c) (cc_num_heads c) p h) (cc_head_dim c) (the (cc_keys c))
      = fst (head_of (cc_head_dim c) h (cache_content c ! p))"
    "read_bytes (att1_kv_cache_slot (cc_head_dim c) (cc_num_heads c) p h) (cc_head_dim c) (the (cc_values c))
      = snd (head_of (cc_head_dim c) h (cache_content c ! p))" by simp_all
qed

lemma score_loop_eq:
  assumes "cache_inv c" "h < cc_num_heads c" "cc_head_dim c \<le> length qh" "n \<le> cc_length c" "n \<le> length s"
  shows "m \<le> n \<Longrightarrow> score_loop fo c qh h (cc_head_dim c) isq [m..<n]
      (map (\<lambda>e. fl_mul fo (vec_dot fo (take (cc_head_dim c) qh) (fst (head_of (cc_head_dim c) h e))) isq) (take m (cache_content c)) @ drop m s)
    = Some (0, map (\<lambda>e. fl_mul fo (vec_dot fo (take (cc_head_dim c) qh) (fst (head_of (cc_head_dim c) h e))) isq) (take n (cache_content c)) @ drop n s)"
proof (induction m rule: inc_induct)
  case (step m)
  let ?d = "cc_head_dim c"
  let ?sc = "\<lambda>e. fl_mul fo (vec_dot fo (take ?d qh) (fst (head_of ?d h e))) isq"
  let ?off = "att1_kv_cache_slot ?d (cc_num_heads c) m h"
  have m: "m < cc_length c" using step.hyps assms(4) by simp
  note p = cache_pointers [OF assms(1,2) m]
  have dot: "att1_dot_f32 fo qh (drop ?off (the (cc_keys c))) ?d
      = Some (vec_dot fo (take ?d qh) (fst (head_of ?d h (cache_content c ! m))))"
    using assms(3) p(3,5) by (subst dot_eq) (simp_all add: read_bytes_def)
  have s: "drop m s = s ! m # drop (Suc m) s" using step.hyps assms(5) by (simp add: Cons_nth_drop_Suc)
  have w: "buf_write (map ?sc (take m (cache_content c)) @ drop m s) m [?sc (cache_content c ! m)]
      = Some (map ?sc (take (Suc m) (cache_content c)) @ drop (Suc m) s)"
    using step.hyps assms(5) m by (subst buf_write_1) (simp_all add: s list_update_append take_Suc_conv_app_nth)
  show ?case using step.IH step.hyps(2) dot w p(1) by (simp add: upt_conv_Cons del: upt_Suc)
qed simp

lemma mix_loop_eq:
  assumes "cache_inv c" "h < cc_num_heads c" "cc_length c \<le> length s"
  shows "set ps \<subseteq> {..<cc_length c} \<Longrightarrow> cc_head_dim c \<le> length x \<Longrightarrow> mix_loop fo c h (cc_head_dim c) s ps x
    = Some (0, fold (\<lambda>p. vec_axpy fo (s ! p) (snd (head_of (cc_head_dim c) h (cache_content c ! p)))) ps (take (cc_head_dim c) x)
                 @ drop (cc_head_dim c) x)"
proof (induction ps arbitrary: x)
  case (Cons p ps)
  let ?d = "cc_head_dim c"
  let ?v = "snd (head_of ?d h (cache_content c ! p))"
  have p: "p < cc_length c" using Cons.prems(1) by simp
  note q = cache_pointers [OF assms(1,2) p]
  have lv: "length ?v = ?d" using q(4) unfolding q(6) [symmetric] by simp
  have s: "buf_read s p 1 = Some [s ! p]" using p assms(3) by (simp add: take_Suc_conv_app_nth [of 0, simplified] hd_drop_conv_nth)
  have v: "buf_read (the (cc_values c)) (att1_kv_cache_slot ?d (cc_num_heads c) p h) ?d = Some ?v"
    using q(4) unfolding q(6) [symmetric] by (simp add: buf_read_def)
  let ?y = "vec_axpy fo (s ! p) ?v (take ?d x)"
  have y: "length ?y = ?d" using lv Cons.prems(2) by simp
  have w: "buf_write x 0 (map (\<lambda>(x, y). fl_add fo x (fl_mul fo (s ! p) y)) (zip (take ?d x) ?v)) = Some (?y @ drop ?d x)"
    using Cons.prems(2) lv by (simp add: buf_write_0 vec_axpy_def)
  have r: "buf_read x 0 ?d = Some (take ?d x)" using Cons.prems(2) by simp
  have IH: "mix_loop fo c h ?d s ps (?y @ drop ?d x)
      = Some (0, fold (\<lambda>p. vec_axpy fo (s ! p) (snd (head_of ?d h (cache_content c ! p)))) ps ?y @ drop ?d x)"
    using Cons.IH [of "?y @ drop ?d x"] Cons.prems y by simp
  show ?case using s v r w IH q(2) by (simp del: buf_read_Some)
qed simp

lemma fold_zip_index: "length xs = length ys \<Longrightarrow> fold (\<lambda>i. f (xs ! i) (ys ! i)) [0..<length ys] a = fold (\<lambda>(x, y). f x y) (zip xs ys) a"
proof -
  assume "length xs = length ys"
  then have "zip xs ys = map (\<lambda>i. (xs ! i, ys ! i)) [0..<length ys]" by (intro nth_equalityI) simp_all
  then show ?thesis by (simp add: fold_map comp_def)
qed

lemma length_fold_axpy:
  "\<forall>(w, e) \<in> set wes. length (f e) = d \<Longrightarrow> length a = d \<Longrightarrow> length (fold (\<lambda>(w, e). vec_axpy fo w (f e)) wes a) = d"
  by (induction wes arbitrary: a) auto

context decoder_kernels
begin

text \<open>One head of the loop, when its scores can be normalised and when they cannot.\<close>

lemma head_step:
  assumes c: "cache_inv c" "h < cc_num_heads c" "0 < cc_length c" and q: "cc_num_heads c * cc_head_dim c \<le> length q"
    and s: "cc_length c \<le> length s" and x: "(h + 1) * cc_head_dim c \<le> length x"
    and x0: "read_bytes (h * cc_head_dim c) (cc_head_dim c) x = replicate (cc_head_dim c) 0"
  shows "let d = cc_head_dim c; isq = fl_div fo F32_ONE (fl_sqrt fo (fl_of_int fo (int d)));
      loop = heads_loop fo (the (bo_softmax_f32 ops)) c q d isq
    in case head_context fo d q (cache_content c) h of
        None \<Rightarrow> \<exists>s' x'. loop (h # hs) s x = Some (-1, s', x')
      | Some y \<Rightarrow> length y = d \<and> (\<exists>s'. length s' = length s
          \<and> loop (h # hs) s x = loop hs s' (take (h * d) x @ y @ drop d (drop (h * d) x)))"
proof -
  let ?d = "cc_head_dim c" and ?n = "cc_length c" and ?kv = "cache_content c"
  define isq where "isq = fl_div fo F32_ONE (fl_sqrt fo (fl_of_int fo (int ?d)))"
  define sc where "sc = map (\<lambda>e. fl_mul fo (vec_dot fo (read_bytes (h * ?d) ?d q) (fst (head_of ?d h e))) isq) ?kv"
  obtain sm where sm: "bo_softmax_f32 ops = Some sm" and
    law: "\<And>v n. 0 < n \<Longrightarrow> n \<le> length v \<Longrightarrow> (case vec_softmax fo (take n v) of None \<Rightarrow> \<exists>rc v'. rc \<noteq> 0 \<and> sm v n = Some (rc, v')
       | Some ws \<Rightarrow> sm v n = Some (0, ws @ drop n v))" using softmax_law by blast
  have hd: "h * ?d + ?d \<le> length q" using row_fits [OF c(2), of ?d] q by simp
  have scores: "score_loop fo c (drop (h * ?d) q) h ?d isq [0..<?n] s = Some (0, sc @ drop ?n s)"
    using score_loop_eq [OF c(1,2), of "drop (h * ?d) q" ?n s 0 fo isq] hd s by (simp add: sc_def read_bytes_def)
  have lsc: "length sc = ?n" by (simp add: sc_def)
  have hc: "head_context fo ?d q ?kv h = (case vec_softmax fo sc of None \<Rightarrow> None
      | Some ws \<Rightarrow> Some (fold (\<lambda>(w, e). vec_axpy fo w (snd (head_of ?d h e))) (zip ws ?kv) (replicate ?d 0)))"
    by (simp add: head_context_def isq_def sc_def Let_def)
  show ?thesis
  proof (cases "vec_softmax fo sc")
    case None
    then obtain rc v' where "rc \<noteq> 0" "sm (sc @ drop ?n s) ?n = Some (rc, v')" using law [OF c(3), of "sc @ drop ?n s"] lsc by auto
    then show ?thesis using scores sm hc None by (simp add: Let_def isq_def)
  next
    case (Some ws)
    have sws: "sm (sc @ drop ?n s) ?n = Some (0, ws @ drop ?n s)" using law [OF c(3), of "sc @ drop ?n s"] lsc Some by simp
    have lws: "length ws = ?n" using length_vec_softmax [OF Some] lsc by simp
    define y where "y = fold (\<lambda>(w, e). vec_axpy fo w (snd (head_of ?d h e))) (zip ws ?kv) (replicate ?d 0)"
    have vl: "length (snd (head_of ?d h (?kv ! p))) = ?d" if "p < ?n" for p
      using cache_pointers(4,6) [OF c(1,2) that] by (metis length_read_bytes)
    have ly: "length y = ?d" unfolding y_def
      by (rule length_fold_axpy) (auto simp: set_zip vl lws)
    have "fold (\<lambda>p. vec_axpy fo ((ws @ drop ?n s) ! p) (snd (head_of ?d h (?kv ! p)))) [0..<?n] (replicate ?d 0)
        = fold (\<lambda>p. vec_axpy fo (ws ! p) (snd (head_of ?d h (?kv ! p)))) [0..<?n] (replicate ?d 0)"
      by (rule fold_cong) (simp_all add: nth_append lws)
    also have "\<dots> = y" unfolding y_def using fold_zip_index [of ws ?kv "\<lambda>w e. vec_axpy fo w (snd (head_of ?d h e))"] lws by simp
    finally have y: "fold (\<lambda>p. vec_axpy fo ((ws @ drop ?n s) ! p) (snd (head_of ?d h (?kv ! p)))) [0..<?n] (replicate ?d 0) = y" .
    have "?n \<le> length (ws @ drop ?n s)" "set [0..<?n] \<subseteq> {..<?n}" "?d \<le> length (drop (h * ?d) x)" using lws s x by auto
    from mix_loop_eq [OF c(1,2) this, of fo] have mixed: "mix_loop fo c h ?d (ws @ drop ?n s) [0..<?n] (drop (h * ?d) x) = Some (0, y @ drop ?d (drop (h * ?d) x))"
      unfolding x0 [unfolded read_bytes_def] y .
    have "length (ws @ drop ?n s) = length s" using lws s by simp
    moreover have "at_offset (h * ?d) (mix_loop fo c h ?d (ws @ drop ?n s) [0..<?n]) x
        = Some (0, take (h * ?d) x @ y @ drop ?d (drop (h * ?d) x))"
      using mixed x by (simp add: at_offset_def)
    ultimately show ?thesis using scores sm sws hc Some ly
      by (auto simp: Let_def isq_def [symmetric] y_def [symmetric] intro!: exI [of _ "ws @ drop ?n s"])
  qed
qed

end

context decoder_kernels
begin

lemma heads_loop_eq:
  fixes c :: att1_kv_cache and q x :: "f32 list"
  defines "ctx \<equiv> \<lambda>h. head_context fo (cc_head_dim c) q (cache_content c) h"
  defines "state \<equiv> \<lambda>m. concat (map (\<lambda>h. the (ctx h)) [0..<m]) @ drop (m * cc_head_dim c) (replicate (cc_num_heads c * cc_head_dim c) 0 @ x)"
  assumes c: "cache_inv c" "0 < cc_length c" and q: "cc_num_heads c * cc_head_dim c \<le> length q"
    and isq: "isq = fl_div fo F32_ONE (fl_sqrt fo (fl_of_int fo (int (cc_head_dim c))))"
  shows "m \<le> cc_num_heads c \<Longrightarrow> cc_length c \<le> length s \<Longrightarrow> \<forall>h < m. ctx h \<noteq> None \<and> length (the (ctx h)) = cc_head_dim c \<Longrightarrow>
    if \<exists>h \<in> {m..<cc_num_heads c}. ctx h = None
    then \<exists>s' x'. heads_loop fo (the (bo_softmax_f32 ops)) c q (cc_head_dim c) isq [m..<cc_num_heads c] s (state m) = Some (-1, s', x')
    else \<exists>s'. heads_loop fo (the (bo_softmax_f32 ops)) c q (cc_head_dim c) isq [m..<cc_num_heads c] s (state m)
        = Some (0, s', state (cc_num_heads c)) \<and> (\<forall>h < cc_num_heads c. length (the (ctx h)) = cc_head_dim c)"
proof (induction m arbitrary: s rule: inc_induct)
  case (step m)
  let ?d = "cc_head_dim c" and ?nh = "cc_num_heads c"
  have lc: "length (concat (map (\<lambda>h. the (ctx h)) [0..<m])) = m * ?d"
    using step.prems(2) by (intro length_concat_blocks) simp
  have fit: "m * ?d + ?d \<le> ?nh * ?d" using row_fits [OF step.hyps(2)] .
  have x: "(m + 1) * ?d \<le> length (state m)" using fit lc by (simp add: state_def)
  have tk: "take (m * ?d) (state m) = concat (map (\<lambda>h. the (ctx h)) [0..<m])"
    "drop (m * ?d) (state m) = drop (m * ?d) (replicate (?nh * ?d) 0 @ x)" using lc by (simp_all add: state_def)
  have x0: "read_bytes (m * ?d) ?d (state m) = replicate ?d 0"
    unfolding read_bytes_def tk(2) using fit by (simp add: min_def)
  note h = head_step [OF c(1) step.hyps(2) c(2) q step.prems(1) x x0, of "[Suc m..<?nh]", folded isq, unfolded Let_def, folded isq ctx_def]
  have u: "[m..<?nh] = m # [Suc m..<?nh]" using step.hyps(2) by (rule upt_conv_Cons)
  show ?case
  proof (cases "ctx m")
    case None
    then have "\<exists>h \<in> {m..<?nh}. ctx h = None" using step.hyps(2) by auto
    then show ?thesis using h None u ctx_def isq by auto
  next
    case (Some y)
    then obtain s' where s': "length y = ?d" "length s' = length s"
      "heads_loop fo (the (bo_softmax_f32 ops)) c q ?d isq [m..<?nh] s (state m)
        = heads_loop fo (the (bo_softmax_f32 ops)) c q ?d isq [Suc m..<?nh] s' (take (m * ?d) (state m) @ y @ drop ?d (drop (m * ?d) (state m)))"
      using h u ctx_def isq by auto
    have st: "take (m * ?d) (state m) @ y @ drop ?d (drop (m * ?d) (state m)) = state (Suc m)"
      unfolding tk using Some by (simp add: state_def add.commute del: drop_append)
    have pre: "\<forall>h < Suc m. ctx h \<noteq> None \<and> length (the (ctx h)) = ?d" using step.prems(2) Some s'(1) by (auto simp: less_Suc_eq)
    have ex: "(\<exists>h \<in> {m..<?nh}. ctx h = None) \<longleftrightarrow> (\<exists>h \<in> {Suc m..<?nh}. ctx h = None)"
      using Some by (metis atLeastLessThan_iff not_None_eq Suc_leD Suc_leI le_neq_implies_less)
    have "cc_length c \<le> length s'" using s'(2) step.prems(1) by simp
    then show ?thesis using step.IH [OF _ pre] unfolding s'(3) st ex by blast
  qed
qed auto

lemma rope_heads_eq:
  fixes position :: nat
  assumes c: "0 < ac_head_dim c" "even (ac_head_dim c)" "\<not> f32_le (ac_rope_theta c) 0"
    and l: "ac_num_heads c * ac_head_dim c \<le> length q" "ac_num_heads c * ac_head_dim c \<le> length k"
  defines "f \<equiv> vec_rope fo (ac_head_dim c) position (ac_rope_theta c)"
  shows "m \<le> ac_num_heads c \<Longrightarrow>
    rope_heads (the (bo_rope_f32 ops)) c position [m..<ac_num_heads c] (blocks (ac_head_dim c) m f q) (blocks (ac_head_dim c) m f k)
    = Some (0, blocks (ac_head_dim c) (ac_num_heads c) f q, blocks (ac_head_dim c) (ac_num_heads c) f k)"
proof (induction m rule: inc_induct)
  case (step m)
  let ?d = "ac_head_dim c"
  obtain rp where rp: "bo_rope_f32 ops = Some rp" "\<And>v n p th. 0 < n \<Longrightarrow> even n \<Longrightarrow> \<not> f32_le th 0 \<Longrightarrow> n \<le> length v
      \<Longrightarrow> rp v n p th = Some (0, vec_rope fo n p th v @ drop n v)" using rope_law by blast
  have f: "length (f y) = ?d" for y using c(2) by (simp add: f_def)
  have one: "at_offset (m * ?d) (\<lambda>x. rp x ?d position (ac_rope_theta c)) (blocks ?d m f x) = Some (0, blocks ?d (Suc m) f x)"
    if "ac_num_heads c * ?d \<le> length x" for x
  proof -
    have fit: "m * ?d + ?d \<le> length x" using row_fits [OF step.hyps(2), of ?d] that by simp
    note b = blocks_step [where f = f, OF f fit]
    have "rp (drop (m * ?d) x) ?d position (ac_rope_theta c) = Some (0, f (read_bytes (m * ?d) ?d x) @ drop ?d (drop (m * ?d) x))"
      using rp(2) [OF c, of "drop (m * ?d) x" position] fit by (simp add: f_def read_bytes_def vec_rope_take)
    then show ?thesis using b by (simp add: at_offset_def)
  qed
  show ?case using step.IH step.hyps(2) one [OF l(1)] one [OF l(2)] rp(1) by (simp add: upt_conv_Cons del: upt_Suc)
qed simp

end

section \<open>The attention step\<close>

text \<open>Every allocation returns a buffer of the size asked for.\<close>

definition mem_ok :: "memory \<Rightarrow> bool" where
  "mem_ok mem \<longleftrightarrow> (\<forall>i n. \<exists>b. mem i n = Some b \<and> n div 4 \<le> length b)"

lemma mem_ok_alloc: "mem_ok mem \<Longrightarrow> n < 2 ^ 62 \<Longrightarrow> \<exists>b. alloc_f32 mem i n = Some b \<and> n \<le> length b"
proof -
  assume "mem_ok mem" "n < 2 ^ 62"
  moreover from this have "(n * 4) mod 2 ^ 64 = n * 4" by simp
  ultimately show ?thesis using \<open>mem_ok mem\<close> [unfolded mem_ok_def, rule_format, of i "n * 4"] by (simp add: alloc_f32_def)
qed

lemma mem_ok_shift: "mem_ok mem \<Longrightarrow> mem_ok (\<lambda>i. mem (k + i))"
  by (simp add: mem_ok_def)

text \<open>One more pair in the cache.\<close>

definition cache_grown :: "att1_kv_cache \<Rightarrow> kv_pair \<Rightarrow> att1_kv_cache \<Rightarrow> bool" where
  "cache_grown c kv c' \<longleftrightarrow> cache_inv c' \<and> cc_num_heads c' = cc_num_heads c \<and> cc_head_dim c' = cc_head_dim c
     \<and> cc_max_positions c' = cc_max_positions c \<and> cache_content c' = cache_content c @ [kv]"

lemma cache_grown_length: "cache_grown c kv c' \<Longrightarrow> cc_length c' = cc_length c + 1"
  unfolding cache_grown_def by (metis One_nat_def length_cache_content length_append_singleton Suc_eq_plus1)

lemma append_grows:
  assumes "cache_inv c" "cc_length c < cc_max_positions c" "cc_width c = n" "length k = n" "length v = n"
  shows "\<exists>c'. att1_kv_cache_append (Some c) (Some (k @ k')) (Some (v @ v')) = (0, Some c') \<and> cache_grown c (k, v) c'"
proof -
  obtain c' where c': "att1_kv_cache_append (Some c) (Some (k @ k')) (Some (v @ v')) = (0, Some c')"
    using assms(1,2) by (simp add: cache_append_eq)
  then have "cache_append (k @ k') (v @ v') c = (True, c')" by (simp add: cache_append_def)
  from cache_append_law [OF assms(1) _ _ this] assms(3-5) show ?thesis using c' by (auto simp: cache_grown_def)
qed

lemma read_front: "h * d + d \<le> length v \<Longrightarrow> read_bytes (h * d) d (v @ w) = read_bytes (h * d) d (v :: f32 list)"
  by (simp add: read_bytes_def)

lemma blocks_append: "length v = n * d \<Longrightarrow> blocks d n f (v @ w) = blocks d n f v @ w"
proof -
  assume l: "length v = n * d"
  have "read_bytes (h * d) d (v @ w) = read_bytes (h * d) d v" if "h < n" for h
    using row_fits [OF that, of d] l by (intro read_front) simp
  then have m: "map (\<lambda>h. f (read_bytes (h * d) d (v @ w))) [0..<n] = map (\<lambda>h. f (read_bytes (h * d) d v)) [0..<n]"
    by (intro map_cong) simp_all
  show ?thesis unfolding blocks_def m using l by simp
qed

lemma head_context_append: "h < n \<Longrightarrow> length q = n * d \<Longrightarrow> head_context fo d (q @ w) kvs h = head_context fo d q kvs h"
  using row_fits [of h n d] by (simp add: head_context_def read_front)

definition attention_config_ok :: "att1_attention_config \<Rightarrow> bool" where
  "attention_config_ok c \<longleftrightarrow> 0 < ac_num_heads c \<and> 0 < ac_head_dim c \<and> even (ac_head_dim c)
     \<and> ac_model_dim c = ac_num_heads c * ac_head_dim c \<and> ac_model_dim c < 2 ^ 62 \<and> \<not> f32_le (ac_rope_theta c) 0"

text \<open>A projection that computes the product with a matrix.\<close>

definition computes :: "float_ops \<Rightarrow> (f32 list \<Rightarrow> f32 list \<Rightarrow> result_f32) \<Rightarrow> f32 list \<Rightarrow> nat \<Rightarrow> nat \<Rightarrow> bool" where
  "computes fo f W n m \<longleftrightarrow> (\<forall>d x. n \<le> length d \<longrightarrow> m \<le> length x \<longrightarrow> f d x = Some (0, vec_mat fo W n m x @ drop n d))"

context decoder_kernels
begin

lemma apply_rope_eq:
  fixes position :: nat
  assumes c: "attention_config_ok c" and l: "length q = ac_model_dim c" "length k = ac_model_dim c"
  defines "f \<equiv> blocks (ac_head_dim c) (ac_num_heads c) (vec_rope fo (ac_head_dim c) position (ac_rope_theta c))"
  shows "att1_attention_apply_rope (the (bo_rope_f32 ops)) c position (q @ q') (k @ k') = Some (0, f q @ q', f k @ k')"
    and "length (f q) = ac_model_dim c"
proof -
  have lens: "ac_num_heads c * ac_head_dim c \<le> length (q @ q')" "ac_num_heads c * ac_head_dim c \<le> length (k @ k')"
    using c l by (simp_all add: attention_config_ok_def)
  have z: "blocks d 0 g x = x" for d g x by (simp add: blocks_def)
  have b: "blocks (ac_head_dim c) (ac_num_heads c) g (q @ q') = blocks (ac_head_dim c) (ac_num_heads c) g q @ q'"
    "blocks (ac_head_dim c) (ac_num_heads c) g (k @ k') = blocks (ac_head_dim c) (ac_num_heads c) g k @ k'" for g
    using c l by (simp_all add: attention_config_ok_def blocks_append)
  show "att1_attention_apply_rope (the (bo_rope_f32 ops)) c position (q @ q') (k @ k') = Some (0, f q @ q', f k @ k')"
    using rope_heads_eq [OF _ _ _ lens, of 0 position] c
    by (simp add: att1_attention_apply_rope_def attention_config_ok_def z b f_def)
  show "length (f q) = ac_model_dim c"
    using c l unfolding f_def by (subst length_blocks) (simp_all add: attention_config_ok_def)
qed

lemma heads_spec:
  assumes c: "cache_inv c" "0 < cc_length c" and q: "length q = cc_num_heads c * cc_head_dim c" and s: "cc_length c \<le> length s"
    and isq: "isq = fl_div fo F32_ONE (fl_sqrt fo (fl_of_int fo (int (cc_head_dim c))))"
  shows "case head_contexts fo (cc_head_dim c) (cc_num_heads c) q (cache_content c) of
      None \<Rightarrow> \<exists>s' x'. heads_loop fo (the (bo_softmax_f32 ops)) c (q @ q') (cc_head_dim c) isq [0..<cc_num_heads c] s
          (replicate (cc_num_heads c * cc_head_dim c) 0 @ x) = Some (-1, s', x')
    | Some ctx \<Rightarrow> length ctx = cc_num_heads c * cc_head_dim c \<and> (\<exists>s'. heads_loop fo (the (bo_softmax_f32 ops)) c (q @ q')
          (cc_head_dim c) isq [0..<cc_num_heads c] s (replicate (cc_num_heads c * cc_head_dim c) 0 @ x) = Some (0, s', ctx @ x))"
proof -
  let ?d = "cc_head_dim c" and ?n = "cc_num_heads c"
  let ?ctx = "\<lambda>h. head_context fo ?d q (cache_content c) h"
  have e: "head_context fo ?d (q @ q') (cache_content c) h = ?ctx h" if "h < ?n" for h
    using that q by (rule head_context_append)
  have m: "concat (map (\<lambda>h. the (head_context fo ?d (q @ q') (cache_content c) h)) [0..<?n]) = concat (map (\<lambda>h. the (?ctx h)) [0..<?n])"
    using e by (intro arg_cong [where f = concat] map_cong) simp_all
  have "?n * ?d \<le> length (q @ q')" using q by simp
  note h = heads_loop_eq [OF c this isq le0 s, of x]
  have ex: "(\<exists>h \<in> {0..<?n}. head_context fo ?d (q @ q') (cache_content c) h = None) \<longleftrightarrow> (\<exists>h \<in> {0..<?n}. ?ctx h = None)"
    using e by (intro bex_cong) simp_all
  have al: "(\<forall>h < ?n. length (the (head_context fo ?d (q @ q') (cache_content c) h)) = ?d) \<longleftrightarrow> (\<forall>h < ?n. length (the (?ctx h)) = ?d)"
    using e by simp
  have l: "length (concat (map (\<lambda>h. the (?ctx h)) [0..<?n])) = ?n * ?d" if "\<forall>h < ?n. length (the (?ctx h)) = ?d"
    using that by (intro length_concat_blocks) simp
  show ?thesis
    using h unfolding m ex al head_contexts_def using l by (cases "\<exists>h \<in> {0..<?n}. ?ctx h = None") auto
qed

end

lemma guard_rc_simps [simp]:
  "guard_rc (Some (0, b)) fail rest = rest b"
  "rc \<noteq> 0 \<Longrightarrow> guard_rc (Some (rc, b)) fail rest = Some fail"
  by (simp_all add: guard_rc_def)

context decoder_kernels
begin

lemma attention_body_spec:
  assumes c: "attention_config_ok c" and kv: "cache_inv cache" "cc_num_heads cache = ac_num_heads c" "cc_head_dim cache = ac_head_dim c"
      "cc_length cache < cc_max_positions cache" "cc_max_positions cache < 2 ^ 62"
    and mem: "mem_ok mem" and lens: "ac_model_dim c \<le> length output" "ac_model_dim c \<le> length input"
    and proj: "\<And>i. i < 4 \<Longrightarrow> computes fo (project i) (W i) (ac_model_dim c) (ac_model_dim c)"
  shows "case attention_spec fo c W position input (cache_content cache) of
      None \<Rightarrow> \<exists>e cache'. cache_grown cache e cache' \<and> attention_body fo (the (bo_rope_f32 ops)) (the (bo_softmax_f32 ops)) project mem c position output cache input
        = Some (-1, output, cache')
    | Some (y, e) \<Rightarrow> length y = ac_model_dim c \<and> (\<exists>cache'. cache_grown cache e cache'
        \<and> attention_body fo (the (bo_rope_f32 ops)) (the (bo_softmax_f32 ops)) project mem c position output cache input
        = Some (0, y @ drop (ac_model_dim c) output, cache'))"
proof -
  let ?md = "ac_model_dim c" and ?d = "ac_head_dim c" and ?n = "ac_num_heads c"
  let ?rope = "blocks ?d ?n (vec_rope fo ?d position (ac_rope_theta c))"
  let ?v = "\<lambda>i. vec_mat fo (W i) ?md ?md input"
  let ?kv = "(?rope (?v 1), ?v 2)"
  have md: "?md = ?n * ?d" "?md < 2 ^ 62" "cc_width cache = ?md" using c kv by (simp_all add: attention_config_ok_def cc_width_def)
  note a = mem_ok_alloc [OF mem md(2)]
  have "cc_length cache + 1 < 2 ^ 62" using kv(4,5) by linarith
  then have a4: "\<exists>b. alloc_f32 mem 4 (cc_length cache + 1) = Some b \<and> cc_length cache + 1 \<le> length b" by (rule mem_ok_alloc [OF mem])
  obtain b0 b1 b2 b3 b4 where b: "alloc_f32 mem 0 ?md = Some b0" "?md \<le> length b0" "alloc_f32 mem 1 ?md = Some b1" "?md \<le> length b1"
    "alloc_f32 mem 2 ?md = Some b2" "?md \<le> length b2" "alloc_f32 mem 3 ?md = Some b3" "?md \<le> length b3"
    "alloc_f32 mem 4 (cc_length cache + 1) = Some b4" "cc_length cache + 1 \<le> length b4"
    using a [of 0] a [of 1] a [of 2] a [of 3] a4 by (elim exE conjE) (rule that)
  have p: "project i d x = Some (0, vec_mat fo (W i) ?md ?md x @ drop ?md d)" if "i < 4" "?md \<le> length d" "?md \<le> length x" for i d x
    using proj [OF that(1)] that(2,3) by (simp add: computes_def)
  have p012: "project 0 b0 input = Some (0, ?v 0 @ drop ?md b0)" "project 1 b1 input = Some (0, ?v 1 @ drop ?md b1)"
    "project 2 b2 input = Some (0, ?v 2 @ drop ?md b2)" using b lens by (simp_all add: p)
  have rope: "att1_attention_apply_rope (the (bo_rope_f32 ops)) c position (?v 0 @ drop ?md b0) (?v 1 @ drop ?md b1)
      = Some (0, ?rope (?v 0) @ drop ?md b0, ?rope (?v 1) @ drop ?md b1)"
    by (rule apply_rope_eq(1) [OF c]) simp_all
  have lk: "length (?rope (?v i)) = ?md" for i by (rule apply_rope_eq(2) [OF c, where k = "?v i"]) simp_all
  obtain cache' where ap: "att1_kv_cache_append (Some cache) (Some (?rope (?v 1) @ drop ?md b1)) (Some (?v 2 @ drop ?md b2)) = (0, Some cache')"
    "cache_grown cache ?kv cache'" using append_grows [OF kv(1,4) md(3), of "?rope (?v 1)" "?v 2" "drop ?md b1" "drop ?md b2"] lk by (elim meta_impE) auto
  have kv': "cache_inv cache'" "cc_num_heads cache' = ?n" "cc_head_dim cache' = ?d" "cache_content cache' = cache_content cache @ [?kv]"
    "0 < cc_length cache'" "cc_length cache' \<le> length b4" using ap(2) kv b(10) cache_grown_length [OF ap(2)] by (auto simp: cache_grown_def)
  have zero: "buf_write b3 0 (replicate ?md 0) = Some (replicate (?n * ?d) 0 @ drop ?md b3)" using b(8) md(1) by (simp add: buf_write_0)
  have lq: "length (?rope (?v 0)) = cc_num_heads cache' * cc_head_dim cache'" using lk kv' md(1) by simp
  note heads = heads_spec [OF kv'(1,5) lq kv'(6) refl, unfolded kv'(2,3,4), of "drop ?md b0" "drop ?md b3"]
  show ?thesis
  proof (cases "head_contexts fo ?d ?n (?rope (?v 0)) (cache_content cache @ [?kv])")
    case None
    then have "attention_body fo (the (bo_rope_f32 ops)) (the (bo_softmax_f32 ops)) project mem c position output cache input
        = Some (-1, output, cache')"
      using heads b p012 rope ap(1) zero by (auto simp: attention_body_def Let_def)
    moreover have "attention_spec fo c W position input (cache_content cache) = None"
      using None by (simp add: attention_spec_def Let_def)
    ultimately show ?thesis using ap(2) by (simp only: option.case) blast
  next
    case (Some ctx)
    then obtain s' where h: "length ctx = ?md" "heads_loop fo (the (bo_softmax_f32 ops)) cache' (?rope (?v 0) @ drop ?md b0) ?d
        (fl_div fo F32_ONE (fl_sqrt fo (fl_of_int fo (int ?d)))) [0..<?n] b4 (replicate (?n * ?d) 0 @ drop ?md b3) = Some (0, s', ctx @ drop ?md b3)"
      using heads md(1) by auto
    have "vec_mat fo (W 3) ?md ?md (ctx @ drop ?md b3) = vec_mat fo (W 3) ?md ?md ctx"
      using vec_mat_take [of ?md ?md fo "W 3" ?md "ctx @ drop ?md b3"] h(1) by simp
    then have "project 3 output (ctx @ drop ?md b3) = Some (0, vec_mat fo (W 3) ?md ?md ctx @ drop ?md output)"
      using lens h(1) by (subst p) simp_all
    then show ?thesis using Some h b p012 rope ap zero
      by (simp add: attention_spec_def attention_body_def Let_def)
  qed
qed

end

end
