(* ===== verification/Attention_Refine.thy ===== *)
theory Attention_Refine
  imports Attention_Props
begin

text \<open>
  The three variants of attention and of the decoder block against the functions on vectors: the variants with quantised
  weights compute the function of the dequantised matrices.
\<close>

section \<open>The three variants of attention\<close>

text \<open>
  What a step reports: the computed vector in front of the output and one more pair in the cache, or failure, with the pair
  in the cache all the same.
\<close>

definition step_result ::
  "(f32 list \<times> kv_pair) option \<Rightarrow> nat \<Rightarrow> f32 list \<Rightarrow> att1_kv_cache \<Rightarrow> (int \<times> f32 list option \<times> att1_kv_cache option) option \<Rightarrow> bool" where
  "step_result spec n output cache R \<longleftrightarrow>
     (case spec of
        None \<Rightarrow> \<exists>e cache'. cache_grown cache e cache' \<and> R = Some (-1, Some output, Some cache')
      | Some (y, e) \<Rightarrow> length y = n \<and> (\<exists>cache'. cache_grown cache e cache' \<and> R = Some (0, Some (y @ drop n output), Some cache')))"

locale f32_kernels = decoder_kernels +
  assumes matmul_law: "\<exists>f. bo_matmul_f32 ops = Some f \<and> (\<forall>d x W n m. 0 < n \<longrightarrow> 0 < m \<longrightarrow> n \<le> length d \<longrightarrow> m \<le> length x
      \<longrightarrow> m * n \<le> length W \<longrightarrow> f d x W 1 n m = Some (0, vec_mat fo W n m x @ drop n d))"

locale q8_kernels = decoder_kernels +
  assumes matmul_q8_law: "\<exists>f. bo_matmul_q8xf32 ops = Some f \<and> (\<forall>d x w. q8_ok w \<longrightarrow> qb_rows w \<le> length d \<longrightarrow> qb_cols w \<le> length x
      \<longrightarrow> f d x 1 (qb_cols w) w = Some (0, vec_mat fo (q8_dequant fo w) (qb_rows w) (qb_cols w) x @ drop (qb_rows w) d))"

locale q4_kernels = decoder_kernels +
  assumes matmul_q4_none: "bo_matmul_q4xf32 ops = None"

lemma cpu_kernel_matmul:
  assumes "0 < n" "0 < m" "n \<le> length d" "m \<le> length x" "m * n \<le> length W"
  shows "att1_matmul_f32 fo (Some d) (Some x) (Some W) 1 n m = Some (0, Some (vec_mat fo W n m x @ drop n d))"
proof -
  have "map (\<lambda>i. matmul_cell fo x W n m (i div n) (i mod n)) [0..<n] = vec_mat fo W n m x"
    unfolding vec_mat_def by (rule map_cong) simp_all
  then show ?thesis using assms by (simp add: att1_matmul_f32_def buf_write_0 mult.commute)
qed

lemma length_q8_dequant: "length (q8_dequant fo w) = qb_cols w * qb_rows w"
  by (simp add: q8_dequant_def)

lemma cpu_kernel_q8:
  assumes "q8_ok w" "qb_rows w \<le> length d" "qb_cols w \<le> length x"
  shows "att1_matmul_q8xf32 fo (Some d) (Some x) 1 (qb_cols w) (Some w)
    = Some (0, Some (vec_mat fo (q8_dequant fo w) (qb_rows w) (qb_cols w) x @ drop (qb_rows w) d))"
  using assms cpu_kernel_matmul [of "qb_rows w" "qb_cols w" d x "q8_dequant fo w" fo]
  by (simp add: matmul_q8_eq length_q8_dequant) (simp add: q8_ok_def)

lemma cpu_kernel_q4:
  assumes "q4_ok w" "128 \<le> length buf" "pb_rows w \<le> length d" "pb_cols w \<le> length x"
  shows "att1_matmul_q4xf32 fo buf (Some d) (Some x) 1 (pb_cols w) (Some w)
    = Some (0, Some (vec_mat fo (q4_dequant fo w) (pb_rows w) (pb_cols w) x @ drop (pb_rows w) d))"
  using assms cpu_kernel_matmul [of "pb_rows w" "pb_cols w" d x "q4_dequant fo w" fo] matmul_q4_eq [of w buf 1 x d fo]
  by (simp add: q4_ok_def)

interpretation cpu_f32: f32_kernels fo "cpu_f32_ops fo" for fo
  by unfold_locales (simp add: cpu_f32_ops_def cpu_kernel_matmul [unfolded One_nat_def] non_null_def)

interpretation cpu_q8: q8_kernels fo "cpu_q8_ops fo" for fo
  by unfold_locales (simp add: cpu_q8_ops_def cpu_kernel_q8 [unfolded One_nat_def] non_null_def)

interpretation cpu_q4: q4_kernels fo "cpu_q4_ops fo" for fo
  by unfold_locales (simp add: cpu_q4_ops_def)

text \<open>A cache that takes one more position of this configuration.\<close>

definition cache_ready :: "att1_attention_config \<Rightarrow> att1_kv_cache \<Rightarrow> bool" where
  "cache_ready c kv \<longleftrightarrow> attention_config_ok c \<and> cache_inv kv \<and> cc_num_heads kv = ac_num_heads c \<and> cc_head_dim kv = ac_head_dim c
     \<and> cc_length kv < cc_max_positions kv \<and> cc_max_positions kv < 2 ^ 62"

lemma cache_ready_valid: "cache_ready c kv \<Longrightarrow> att1_attention_config_valid (Some c) (Some kv)"
  by (simp add: cache_ready_def attention_config_ok_def att1_attention_config_valid_def)

context decoder_kernels
begin

lemma run_attention_spec:
  assumes "cache_ready c cache" "mem_ok mem" "ac_model_dim c \<le> length output" "ac_model_dim c \<le> length input"
    and "\<And>i. i < 4 \<Longrightarrow> computes fo (project i) (W i) (ac_model_dim c) (ac_model_dim c)"
  shows "step_result (attention_spec fo c W position input (cache_content cache)) (ac_model_dim c) output cache
    (run_attention fo ops project mem (Some output) (Some cache) (Some input) (Some c) position)"
proof -
  have c: "attention_config_ok c" "cache_inv cache" "cc_num_heads cache = ac_num_heads c" "cc_head_dim cache = ac_head_dim c"
    "cc_length cache < cc_max_positions cache" "cc_max_positions cache < 2 ^ 62" using assms(1) by (simp_all add: cache_ready_def)
  note b = attention_body_spec [OF c assms(2-4), where project = project and W = W and position = position, OF assms(5)]
  show ?thesis
  proof (cases "attention_spec fo c W position input (cache_content cache)")
    case None
    with b obtain e cache' where "cache_grown cache e cache'"
      "attention_body fo (the (bo_rope_f32 ops)) (the (bo_softmax_f32 ops)) project mem c position output cache input = Some (-1, output, cache')"
      by auto
    moreover from this(2) have "run_attention fo ops project mem (Some output) (Some cache) (Some input) (Some c) position
      = Some (-1, Some output, Some cache')" by (simp add: run_attention_def)
    ultimately show ?thesis unfolding step_result_def None option.case by blast
  next
    case (Some r)
    with b show ?thesis by (cases r) (auto simp: step_result_def run_attention_def)
  qed
qed

lemma present: "Option.is_none (bo_softmax_f32 ops) = False" "Option.is_none (bo_rope_f32 ops) = False"
  "Option.is_none (bo_rmsnorm_f32 ops) = False" "Option.is_none (bo_ffn_swiglu_f32 ops) = False"
  using softmax_law rope_law rmsnorm_law swiglu_law by auto

lemma backend_lacks_iff: "backend_lacks missing (Some \<lparr>be_ops = Some ops\<rparr>) \<longleftrightarrow> missing ops"
  using alloc_law by (simp add: backend_lacks_def)

end

lemma upto_4: "i < 4 \<longleftrightarrow> i = 0 \<or> i = 1 \<or> i = 2 \<or> i = (3::nat)"
  by auto

context f32_kernels
begin

lemma attention_f32_spec:
  assumes "cache_ready c cache" "mem_ok mem" "ac_model_dim c \<le> length output" "ac_model_dim c \<le> length input"
    and "aw_wq w = Some wq" "aw_wk w = Some wk" "aw_wv w = Some wv" "aw_wo w = Some wo"
    and len: "\<forall>W \<in> {wq, wk, wv, wo}. ac_model_dim c * ac_model_dim c \<le> length W"
  shows "step_result (attention_spec fo c (\<lambda>i. [wq, wk, wv, wo] ! i) (cc_length cache) input (cache_content cache)) (ac_model_dim c) output cache
    (att1_attention_forward_backend fo mem (Some output) (Some cache) (Some input) (Some w) (Some c) (cc_length cache) (Some \<lparr>be_ops = Some ops\<rparr>))"
proof -
  obtain f where f: "bo_matmul_f32 ops = Some f" "\<And>d x W n m. 0 < n \<Longrightarrow> 0 < m \<Longrightarrow> n \<le> length d \<Longrightarrow> m \<le> length x
      \<Longrightarrow> m * n \<le> length W \<Longrightarrow> f d x W 1 n m = Some (0, vec_mat fo W n m x @ drop n d)" using matmul_law by blast
  have "0 < ac_model_dim c" using assms(1) by (simp add: cache_ready_def attention_config_ok_def)
  then have p: "computes fo (\<lambda>d x. f d x (the ([aw_wq w, aw_wk w, aw_wv w, aw_wo w] ! i)) 1 (ac_model_dim c) (ac_model_dim c))
      ([wq, wk, wv, wo] ! i) (ac_model_dim c) (ac_model_dim c)" if "i < 4" for i
    using that f(2) assms(5-9) by (auto simp: computes_def upto_4)
  show ?thesis
    using run_attention_spec [OF assms(1-4) p, where position = "cc_length cache"] assms(5-8) cache_ready_valid [OF assms(1)] f(1) present
    by (simp add: att1_attention_forward_backend_def backend_lacks_iff att1_attention_weights_valid_def Let_def)
qed

end

context q8_kernels
begin

lemma attention_q8_spec:
  assumes "cache_ready c cache" "mem_ok mem" "ac_model_dim c \<le> length output" "ac_model_dim c \<le> length input"
    and "aw8_wq w = Some wq" "aw8_wk w = Some wk" "aw8_wv w = Some wv" "aw8_wo w = Some wo"
    and ok: "\<forall>W \<in> {wq, wk, wv, wo}. q8_ok W \<and> qb_rows W = ac_model_dim c \<and> qb_cols W = ac_model_dim c"
  shows "step_result (attention_spec fo c (\<lambda>i. [q8_dequant fo wq, q8_dequant fo wk, q8_dequant fo wv, q8_dequant fo wo] ! i)
      (cc_length cache) input (cache_content cache)) (ac_model_dim c) output cache
    (att1_attention_forward_backend_q8 fo mem (Some output) (Some cache) (Some input) (Some w) (Some c) (cc_length cache) (Some \<lparr>be_ops = Some ops\<rparr>))"
proof -
  obtain f where f: "bo_matmul_q8xf32 ops = Some f" "\<And>d x w. q8_ok w \<Longrightarrow> qb_rows w \<le> length d \<Longrightarrow> qb_cols w \<le> length x
      \<Longrightarrow> f d x 1 (qb_cols w) w = Some (0, vec_mat fo (q8_dequant fo w) (qb_rows w) (qb_cols w) x @ drop (qb_rows w) d)"
    using matmul_q8_law by blast
  have one: "computes fo (\<lambda>d x. f d x 1 (ac_model_dim c) W) (q8_dequant fo W) (ac_model_dim c) (ac_model_dim c)"
    if "W \<in> {wq, wk, wv, wo}" for W
    using f(2) [of W] bspec [OF ok that] by (simp add: computes_def)
  have p: "computes fo (\<lambda>d x. f d x 1 (ac_model_dim c) (the ([aw8_wq w, aw8_wk w, aw8_wv w, aw8_wo w] ! i)))
      ([q8_dequant fo wq, q8_dequant fo wk, q8_dequant fo wv, q8_dequant fo wo] ! i) (ac_model_dim c) (ac_model_dim c)" if "i < 4" for i
    using that one [of wq] one [of wk] one [of wv] one [of wo] assms(5-8) by (auto simp: upto_4)
  show ?thesis
    using run_attention_spec [OF assms(1-4) p, where position = "cc_length cache"] assms(5-8) cache_ready_valid [OF assms(1)] f(1) present
    by (simp add: att1_attention_forward_backend_q8_def backend_lacks_iff att1_attention_q8_weights_valid_def Let_def)
qed

end

context q4_kernels
begin

lemma attention_q4_spec:
  assumes "cache_ready c cache" "mem_ok mem" "ac_model_dim c \<le> length output" "ac_model_dim c \<le> length input"
    and "aw4_wq w = Some wq" "aw4_wk w = Some wk" "aw4_wv w = Some wv" "aw4_wo w = Some wo" and buf: "128 \<le> length buf"
    and ok: "\<forall>W \<in> {wq, wk, wv, wo}. q4_ok W \<and> pb_rows W = ac_model_dim c \<and> pb_cols W = ac_model_dim c"
  shows "step_result (attention_spec fo c (\<lambda>i. [q4_dequant fo wq, q4_dequant fo wk, q4_dequant fo wv, q4_dequant fo wo] ! i)
      (cc_length cache) input (cache_content cache)) (ac_model_dim c) output cache
    (att1_attention_forward_backend_q4 fo buf mem (Some output) (Some cache) (Some input) (Some w) (Some c) (cc_length cache) (Some \<lparr>be_ops = Some ops\<rparr>))"
proof -
  have one: "computes fo (\<lambda>d x. attention_q4_matmul fo buf ops d x 1 (ac_model_dim c) W) (q4_dequant fo W) (ac_model_dim c) (ac_model_dim c)"
    if "W \<in> {wq, wk, wv, wo}" for W
    using cpu_kernel_q4 [of W buf _ _ fo] bspec [OF ok that] buf matmul_q4_none
    by (auto simp: computes_def attention_q4_matmul_def non_null_def)
  have p: "computes fo (\<lambda>d x. attention_q4_matmul fo buf ops d x 1 (ac_model_dim c) (the ([aw4_wq w, aw4_wk w, aw4_wv w, aw4_wo w] ! i)))
      ([q4_dequant fo wq, q4_dequant fo wk, q4_dequant fo wv, q4_dequant fo wo] ! i) (ac_model_dim c) (ac_model_dim c)" if "i < 4" for i
    using that one [of wq] one [of wk] one [of wv] one [of wo] assms(5-8) by (auto simp: upto_4)
  show ?thesis
    using run_attention_spec [OF assms(1-4) p, where position = "cc_length cache"] assms(5-8) cache_ready_valid [OF assms(1)] present
    by (simp add: att1_attention_forward_backend_q4_def backend_lacks_iff Let_def)
qed

end

section \<open>The decoder block\<close>

definition block_attention :: "att1_transformer_block_config \<Rightarrow> att1_attention_config" where
  "block_attention c = \<lparr>ac_model_dim = tb_model_dim c, ac_num_heads = tb_num_heads c, ac_head_dim = tb_head_dim c,
     ac_rope_theta = tb_rope_theta c\<rparr>"

definition block_ready :: "att1_transformer_block_config \<Rightarrow> att1_kv_cache \<Rightarrow> bool" where
  "block_ready c kv \<longleftrightarrow> cache_ready (block_attention c) kv \<and> 0 < tb_ffn_dim c \<and> tb_ffn_dim c < 2 ^ 62
     \<and> \<not> f32_le (tb_rms_epsilon c) 0"

lemma block_ready_valid: "block_ready c kv \<Longrightarrow> att1_block_config_valid (Some c) (Some kv)"
  by (simp add: block_ready_def block_attention_def cache_ready_def attention_config_ok_def att1_block_config_valid_def)

lemma attention_spec_take:
  "ac_model_dim c \<le> n \<Longrightarrow> attention_spec fo c W p (take n x) kvs = attention_spec fo c W p x kvs"
  by (simp add: attention_spec_def vec_mat_take)

lemma attention_spec_append: "length x = ac_model_dim c \<Longrightarrow> attention_spec fo c W p (x @ y) kvs = attention_spec fo c W p x kvs"
  using attention_spec_take [of c "ac_model_dim c" fo W p "x @ y" kvs] by simp

lemma vec_mat_append: "length x = m \<Longrightarrow> vec_mat fo W n m (x @ y) = vec_mat fo W n m x"
  using vec_mat_take [of m m fo W n "x @ y"] by simp

lemma vec_rmsnorm_append: "length x = n \<Longrightarrow> vec_rmsnorm fo n w eps (x @ y) = vec_rmsnorm fo n w eps x"
  using vec_rmsnorm_take [of n n fo w eps "x @ y"] by simp

lemma add_eq: "n \<le> length d \<Longrightarrow> n \<le> length l \<Longrightarrow> n \<le> length r
    \<Longrightarrow> att1_add_f32 fo d l r n = Some (vec_add fo (take n l) (take n r) @ drop n d)"
  by (simp add: att1_add_f32_def vec_add_def buf_write_0)

abbreviation attention_mats :: "layer_mats \<Rightarrow> nat \<Rightarrow> f32 list" where
  "attention_mats w \<equiv> \<lambda>i. [lm_wq w, lm_wk w, lm_wv w, lm_wo w] ! i"

context decoder_kernels
begin

text \<open>The second half of the block, from the output of the attention step on.\<close>

lemma block_tail:
  assumes c: "block_ready c kv" and n: "tb_model_dim c \<le> length fn" and r: "length r = tb_model_dim c"
    and p: "computes fo p0 (lm_w_gate w) (tb_ffn_dim c) (tb_model_dim c)" "computes fo p1 (lm_w_up w) (tb_ffn_dim c) (tb_model_dim c)"
      "computes fo p2 (lm_w_down w) (tb_model_dim c) (tb_ffn_dim c)"
    and l: "tb_model_dim c \<le> length b3" "tb_ffn_dim c \<le> length b4" "tb_ffn_dim c \<le> length b5" "tb_ffn_dim c \<le> length b6"
      "tb_model_dim c \<le> length b7" "tb_model_dim c \<le> length output"
  defines "f \<equiv> vec_rmsnorm fo (tb_model_dim c) fn (tb_rms_epsilon c) r"
  defines "g \<equiv> vec_swiglu fo (vec_mat fo (lm_w_gate w) (tb_ffn_dim c) (tb_model_dim c) f) (vec_mat fo (lm_w_up w) (tb_ffn_dim c) (tb_model_dim c) f)"
  shows "guard_rc (the (bo_rmsnorm_f32 ops) b3 (r @ r') fn (tb_model_dim c) (tb_rms_epsilon c)) fail (\<lambda>ffn_input.
      guard_rc (p0 b4 ffn_input) fail (\<lambda>ffn_gate.
      guard_rc (p1 b5 ffn_input) fail (\<lambda>ffn_up.
      guard_rc (the (bo_ffn_swiglu_f32 ops) b6 ffn_gate ffn_up (tb_ffn_dim c)) fail (\<lambda>ffn_hidden.
      guard_rc (p2 b7 ffn_hidden) fail (\<lambda>ffn_output.
      do {
        output \<leftarrow> att1_add_f32 fo output (r @ r') ffn_output (tb_model_dim c);
        Some (0, Some output, cache')
      })))))
    = Some (0, Some (vec_add fo r (vec_mat fo (lm_w_down w) (tb_model_dim c) (tb_ffn_dim c) g) @ drop (tb_model_dim c) output), cache')"
proof -
  let ?md = "tb_model_dim c" and ?fd = "tb_ffn_dim c"
  have pos: "0 < ?md" "0 < ?fd" "\<not> f32_le (tb_rms_epsilon c) 0"
    using c by (simp_all add: block_ready_def block_attention_def cache_ready_def attention_config_ok_def)
  have rms: "the (bo_rmsnorm_f32 ops) b3 (r @ r') fn ?md (tb_rms_epsilon c) = Some (0, f @ drop ?md b3)"
    using rmsnorm_law pos n r l(1) by (auto simp: f_def vec_rmsnorm_append)
  have lf: "length f = ?md" by (simp add: f_def)
  have gu: "p0 b4 (f @ drop ?md b3) = Some (0, vec_mat fo (lm_w_gate w) ?fd ?md f @ drop ?fd b4)"
    "p1 b5 (f @ drop ?md b3) = Some (0, vec_mat fo (lm_w_up w) ?fd ?md f @ drop ?fd b5)"
    using p(1,2) l lf by (simp_all add: computes_def vec_mat_append)
  have sw: "the (bo_ffn_swiglu_f32 ops) b6 (vec_mat fo (lm_w_gate w) ?fd ?md f @ drop ?fd b4) (vec_mat fo (lm_w_up w) ?fd ?md f @ drop ?fd b5) ?fd
      = Some (0, g @ drop ?fd b6)"
    using swiglu_law pos l by (auto simp: g_def)
  have lg: "length g = ?fd" by (simp add: g_def)
  have dn: "p2 b7 (g @ drop ?fd b6) = Some (0, vec_mat fo (lm_w_down w) ?md ?fd g @ drop ?md b7)"
    using p(3) l lg by (simp add: computes_def vec_mat_append)
  show ?thesis using rms gu sw dn r l by (simp add: add_eq)
qed

lemma block_body_spec:
  assumes c: "block_ready c cache" and mem: "mem_ok mem"
    and lens: "tb_model_dim c \<le> length output" "tb_model_dim c \<le> length input"
      "tb_model_dim c \<le> length (lm_attention_norm w)" "tb_model_dim c \<le> length (lm_ffn_norm w)"
    and p: "computes fo (project 0) (lm_w_gate w) (tb_ffn_dim c) (tb_model_dim c)"
      "computes fo (project 1) (lm_w_up w) (tb_ffn_dim c) (tb_model_dim c)"
      "computes fo (project 2) (lm_w_down w) (tb_model_dim c) (tb_ffn_dim c)"
    and att: "\<And>mem out inp. mem_ok mem \<Longrightarrow> tb_model_dim c \<le> length out \<Longrightarrow> tb_model_dim c \<le> length inp \<Longrightarrow>
      step_result (attention_spec fo (block_attention c) (attention_mats w) (cc_length cache) inp (cache_content cache))
        (tb_model_dim c) out cache (attention mem (Some out) (Some cache) (Some inp) (Some (block_attention c)))"
  shows "step_result (block_spec fo c w (cc_length cache) (take (tb_model_dim c) input) (cache_content cache)) (tb_model_dim c) output cache
    (block_body fo ops project attention (lm_attention_norm w) (lm_ffn_norm w) mem c output (Some cache) input)"
proof -
  let ?md = "tb_model_dim c" and ?fd = "tb_ffn_dim c"
  let ?a = "vec_rmsnorm fo ?md (lm_attention_norm w) (tb_rms_epsilon c) input"
  let ?att = "attention_spec fo (block_attention c) (attention_mats w) (cc_length cache) ?a (cache_content cache)"
  have pos: "0 < ?md" "?md < 2 ^ 62" "?fd < 2 ^ 62" "\<not> f32_le (tb_rms_epsilon c) 0"
    using c by (simp_all add: block_ready_def block_attention_def cache_ready_def attention_config_ok_def)
  note a = mem_ok_alloc [OF mem pos(2)] and b = mem_ok_alloc [OF mem pos(3)]
  obtain b0 b1 b2 b3 b4 b5 b6 b7 where al: "alloc_f32 mem 0 ?md = Some b0" "alloc_f32 mem 1 ?md = Some b1" "alloc_f32 mem 2 ?md = Some b2"
      "alloc_f32 mem 3 ?md = Some b3" "alloc_f32 mem 4 ?fd = Some b4" "alloc_f32 mem 5 ?fd = Some b5" "alloc_f32 mem 6 ?fd = Some b6"
      "alloc_f32 mem 7 ?md = Some b7"
    and bl: "?md \<le> length b0" "?md \<le> length b1" "?md \<le> length b2" "?md \<le> length b3" "?fd \<le> length b4" "?fd \<le> length b5"
      "?fd \<le> length b6" "?md \<le> length b7"
    using a [of 0] a [of 1] a [of 2] a [of 3] b [of 4] b [of 5] b [of 6] a [of 7] by (elim exE conjE) (rule that)
  have rms: "the (bo_rmsnorm_f32 ops) b0 input (lm_attention_norm w) ?md (tb_rms_epsilon c) = Some (0, ?a @ drop ?md b0)"
    using rmsnorm_law pos lens bl(1) by auto
  have st: "step_result ?att ?md b1 cache (attention (\<lambda>i. mem (8 + i)) (Some b1) (Some cache) (Some (?a @ drop ?md b0)) (Some (block_attention c)))"
    using att [OF mem_ok_shift [OF mem, of 8] bl(2), of "?a @ drop ?md b0"] by (simp add: attention_spec_append block_attention_def)
  define R where "R = attention (\<lambda>i. mem (8 + i)) (Some b1) (Some cache) (Some (?a @ drop ?md b0)) (Some (block_attention c))"
  note st = st [folded R_def] and R = R_def [unfolded block_attention_def, symmetric]
  have spec: "block_spec fo c w (cc_length cache) (take ?md input) (cache_content cache) = (case ?att of None \<Rightarrow> None
      | Some (y, kv) \<Rightarrow>
        (let r = vec_add fo (take ?md input) y; f = vec_rmsnorm fo ?md (lm_ffn_norm w) (tb_rms_epsilon c) r;
             g = vec_swiglu fo (vec_mat fo (lm_w_gate w) ?fd ?md f) (vec_mat fo (lm_w_up w) ?fd ?md f)
         in Some (vec_add fo r (vec_mat fo (lm_w_down w) ?md ?fd g), kv)))"
    by (simp add: block_spec_def vec_rmsnorm_take block_attention_def Let_def)
  show ?thesis
  proof (cases ?att)
    case None
    with st obtain e cache' where g: "cache_grown cache e cache'" "R = Some (-1, Some b1, Some cache')"
      by (auto simp: step_result_def)
    have "block_body fo ops project attention (lm_attention_norm w) (lm_ffn_norm w) mem c output (Some cache) input
        = Some (-1, Some output, Some cache')"
      by (simp add: block_body_def al rms Let_def R g(2) del: One_nat_def)
    then show ?thesis using g(1) unfolding step_result_def spec None option.case by blast
  next
    case (Some ye)
    then obtain y e cache' where ye: "ye = (y, e)" "length y = ?md" "cache_grown cache e cache'"
      "R = Some (0, Some (y @ drop ?md b1), Some cache')"
      using st by (cases ye) (auto simp: step_result_def)
    let ?r = "vec_add fo (take ?md input) y"
    have add: "att1_add_f32 fo b2 input (y @ drop ?md b1) ?md = Some (?r @ drop ?md b2)"
      using lens bl ye(2) by (simp add: add_eq)
    have r: "length ?r = ?md" using lens ye(2) by simp
    note tail = block_tail [OF c lens(4) r p bl(4-8) lens(1)]
    show ?thesis unfolding step_result_def spec Some ye(1)
      using ye add r by (simp add: block_body_def al rms Let_def R tail del: One_nat_def)
  qed
qed

end

end
