(* ===== verification/Block_Refine.thy ===== *)
theory Block_Refine
  imports Attention_Refine
begin

text \<open>
  The three variants of the decoder block: each computes the function of its matrices, dequantised for the quantised ones.
\<close>

section \<open>The three variants of the block\<close>

definition mats_f32 :: "block_f32_weights \<Rightarrow> layer_mats" where
  "mats_f32 w = \<lparr>lm_attention_norm = the (bf_attention_norm w), lm_ffn_norm = the (bf_ffn_norm w), lm_wq = the (bf_wq w),
     lm_wk = the (bf_wk w), lm_wv = the (bf_wv w), lm_wo = the (bf_wo w), lm_w_gate = the (bf_w_gate w), lm_w_up = the (bf_w_up w),
     lm_w_down = the (bf_w_down w)\<rparr>"

definition mats_q8 :: "float_ops \<Rightarrow> att1_transformer_block_q8_weights \<Rightarrow> layer_mats" where
  "mats_q8 fo w = (let m = \<lambda>p. q8_dequant fo (the p) in
     \<lparr>lm_attention_norm = the (b8_attention_norm w), lm_ffn_norm = the (b8_ffn_norm w), lm_wq = m (b8_wq w),
      lm_wk = m (b8_wk w), lm_wv = m (b8_wv w), lm_wo = m (b8_wo w), lm_w_gate = m (b8_w_gate w), lm_w_up = m (b8_w_up w),
      lm_w_down = m (b8_w_down w)\<rparr>)"

definition mats_q4 :: "float_ops \<Rightarrow> att1_transformer_block_q4_weights \<Rightarrow> layer_mats" where
  "mats_q4 fo w = (let m = \<lambda>p. q4_dequant fo (the p) in
     \<lparr>lm_attention_norm = the (b4_attention_norm w), lm_ffn_norm = the (b4_ffn_norm w), lm_wq = m (b4_wq w),
      lm_wk = m (b4_wk w), lm_wv = m (b4_wv w), lm_wo = m (b4_wo w), lm_w_gate = m (b4_w_gate w), lm_w_up = m (b4_w_up w),
      lm_w_down = m (b4_w_down w)\<rparr>)"

text \<open>Weights that are there and large enough for the configuration.\<close>

definition f32_holds :: "nat \<Rightarrow> f32 list option \<Rightarrow> bool" where
  "f32_holds n p \<longleftrightarrow> (\<exists>xs. p = Some xs \<and> n \<le> length xs)"

definition q8_holds :: "nat \<Rightarrow> nat \<Rightarrow> q8_buffers option \<Rightarrow> bool" where
  "q8_holds rows cols p \<longleftrightarrow> (\<exists>w. p = Some w \<and> q8_ok w \<and> qb_rows w = rows \<and> qb_cols w = cols)"

definition q4_holds :: "nat \<Rightarrow> nat \<Rightarrow> q4_buffers option \<Rightarrow> bool" where
  "q4_holds rows cols p \<longleftrightarrow> (\<exists>w. p = Some w \<and> q4_ok w \<and> pb_rows w = rows \<and> pb_cols w = cols)"

definition f32_weights_ok :: "att1_transformer_block_config \<Rightarrow> block_f32_weights \<Rightarrow> bool" where
  "f32_weights_ok c w \<longleftrightarrow> (let md = tb_model_dim c; fd = tb_ffn_dim c in
     f32_holds md (bf_attention_norm w) \<and> f32_holds md (bf_ffn_norm w) \<and> f32_holds (md * md) (bf_wq w) \<and> f32_holds (md * md) (bf_wk w)
     \<and> f32_holds (md * md) (bf_wv w) \<and> f32_holds (md * md) (bf_wo w) \<and> f32_holds (md * fd) (bf_w_gate w) \<and> f32_holds (md * fd) (bf_w_up w)
     \<and> f32_holds (fd * md) (bf_w_down w))"

definition q8_weights_ok :: "att1_transformer_block_config \<Rightarrow> att1_transformer_block_q8_weights \<Rightarrow> bool" where
  "q8_weights_ok c w \<longleftrightarrow> (let md = tb_model_dim c; fd = tb_ffn_dim c in
     f32_holds md (b8_attention_norm w) \<and> f32_holds md (b8_ffn_norm w) \<and> q8_holds md md (b8_wq w) \<and> q8_holds md md (b8_wk w)
     \<and> q8_holds md md (b8_wv w) \<and> q8_holds md md (b8_wo w) \<and> q8_holds fd md (b8_w_gate w) \<and> q8_holds fd md (b8_w_up w)
     \<and> q8_holds md fd (b8_w_down w))"

definition q4_weights_ok :: "att1_transformer_block_config \<Rightarrow> att1_transformer_block_q4_weights \<Rightarrow> bool" where
  "q4_weights_ok c w \<longleftrightarrow> (let md = tb_model_dim c; fd = tb_ffn_dim c in
     f32_holds md (b4_attention_norm w) \<and> f32_holds md (b4_ffn_norm w) \<and> q4_holds md md (b4_wq w) \<and> q4_holds md md (b4_wk w)
     \<and> q4_holds md md (b4_wv w) \<and> q4_holds md md (b4_wo w) \<and> q4_holds fd md (b4_w_gate w) \<and> q4_holds fd md (b4_w_up w)
     \<and> q4_holds md fd (b4_w_down w))"

lemmas holds_defs = f32_holds_def q8_holds_def q4_holds_def

text \<open>One step of the block, as the drivers see it.\<close>

abbreviation block_step ::
  "float_ops \<Rightarrow> att1_transformer_block_config \<Rightarrow> layer_mats \<Rightarrow> f32 list \<Rightarrow> att1_kv_cache \<Rightarrow> f32 list
    \<Rightarrow> (int \<times> f32 list option \<times> att1_kv_cache option) option \<Rightarrow> bool" where
  "block_step fo c w input cache output R \<equiv>
     step_result (block_spec fo c w (cc_length cache) (take (tb_model_dim c) input) (cache_content cache)) (tb_model_dim c) output cache R"

lemma block_ready_dims: "block_ready c kv \<Longrightarrow> 0 < tb_model_dim c \<and> 0 < tb_ffn_dim c \<and> cache_ready (block_attention c) kv"
  by (simp add: block_ready_def cache_ready_def attention_config_ok_def block_attention_def)

context f32_kernels
begin

lemma block_f32_spec:
  assumes c: "block_ready c cache" and mem: "mem_ok mem" and w: "f32_weights_ok c w"
    and lens: "tb_model_dim c \<le> length output" "tb_model_dim c \<le> length input"
  shows "block_step fo c (mats_f32 w) input cache output
    (att1_transformer_block_forward_backend fo mem (Some output) (Some cache) (Some input) (Some w) (Some c) (cc_length cache) (Some \<lparr>be_ops = Some ops\<rparr>))"
proof -
  obtain f where f: "bo_matmul_f32 ops = Some f" "\<And>d x W n m. 0 < n \<Longrightarrow> 0 < m \<Longrightarrow> n \<le> length d \<Longrightarrow> m \<le> length x
      \<Longrightarrow> m * n \<le> length W \<Longrightarrow> f d x W 1 n m = Some (0, vec_mat fo W n m x @ drop n d)" using matmul_law by blast
  note dims = block_ready_dims [OF c]
  obtain an fn wq wk wv wo wg wu wd where ws: "bf_attention_norm w = Some an" "bf_ffn_norm w = Some fn" "bf_wq w = Some wq"
      "bf_wk w = Some wk" "bf_wv w = Some wv" "bf_wo w = Some wo" "bf_w_gate w = Some wg" "bf_w_up w = Some wu" "bf_w_down w = Some wd"
    and wl: "tb_model_dim c \<le> length an" "tb_model_dim c \<le> length fn" "\<forall>W \<in> {wq, wk, wv, wo}. tb_model_dim c * tb_model_dim c \<le> length W"
      "tb_model_dim c * tb_ffn_dim c \<le> length wg" "tb_model_dim c * tb_ffn_dim c \<le> length wu" "tb_ffn_dim c * tb_model_dim c \<le> length wd"
    using w by (auto simp: f32_weights_ok_def holds_defs Let_def)
  have p: "computes fo (\<lambda>d x. f d x wg 1 (tb_ffn_dim c) (tb_model_dim c)) wg (tb_ffn_dim c) (tb_model_dim c)"
    "computes fo (\<lambda>d x. f d x wu 1 (tb_ffn_dim c) (tb_model_dim c)) wu (tb_ffn_dim c) (tb_model_dim c)"
    "computes fo (\<lambda>d x. f d x wd 1 (tb_model_dim c) (tb_ffn_dim c)) wd (tb_model_dim c) (tb_ffn_dim c)"
    using f(2) wl dims by (simp_all add: computes_def)
  show ?thesis
    using block_body_spec [OF c mem lens, of "mats_f32 w"
        "\<lambda>i d x. if i < 2 then f d x (the ([bf_w_gate w, bf_w_up w] ! i)) 1 (tb_ffn_dim c) (tb_model_dim c) else f d x (the (bf_w_down w)) 1 (tb_model_dim c) (tb_ffn_dim c)"
        "\<lambda>mem out kv inp ac. att1_attention_forward_backend fo mem out kv inp
           (Some \<lparr>aw_wq = bf_wq w, aw_wk = bf_wk w, aw_wv = bf_wv w, aw_wo = bf_wo w\<rparr>) ac (cc_length cache) (Some \<lparr>be_ops = Some ops\<rparr>)"]
      attention_f32_spec [of "block_attention c" cache _ _ _ "\<lparr>aw_wq = bf_wq w, aw_wk = bf_wk w, aw_wv = bf_wv w, aw_wo = bf_wo w\<rparr>" wq wk wv wo]
      p wl ws dims block_ready_valid [OF c] f(1) present
    by (simp add: att1_transformer_block_forward_backend_def backend_lacks_iff att1_block_weights_valid_def mats_f32_def
        block_attention_def Let_def)
qed

end

context q8_kernels
begin

lemma block_q8_spec:
  assumes c: "block_ready c cache" and mem: "mem_ok mem" and w: "q8_weights_ok c w"
    and lens: "tb_model_dim c \<le> length output" "tb_model_dim c \<le> length input"
  shows "block_step fo c (mats_q8 fo w) input cache output
    (att1_transformer_block_forward_backend_q8 fo mem (Some output) (Some cache) (Some input) (Some w) (Some c) (cc_length cache) (Some \<lparr>be_ops = Some ops\<rparr>))"
proof -
  obtain f where f: "bo_matmul_q8xf32 ops = Some f" "\<And>d x w. q8_ok w \<Longrightarrow> qb_rows w \<le> length d \<Longrightarrow> qb_cols w \<le> length x
      \<Longrightarrow> f d x 1 (qb_cols w) w = Some (0, vec_mat fo (q8_dequant fo w) (qb_rows w) (qb_cols w) x @ drop (qb_rows w) d)"
    using matmul_q8_law by blast
  note dims = block_ready_dims [OF c]
  obtain an fn wq wk wv wo wg wu wd where ws: "b8_attention_norm w = Some an" "b8_ffn_norm w = Some fn" "b8_wq w = Some wq"
      "b8_wk w = Some wk" "b8_wv w = Some wv" "b8_wo w = Some wo" "b8_w_gate w = Some wg" "b8_w_up w = Some wu" "b8_w_down w = Some wd"
    and wl: "tb_model_dim c \<le> length an" "tb_model_dim c \<le> length fn"
      "\<forall>W \<in> {wq, wk, wv, wo}. q8_ok W \<and> qb_rows W = tb_model_dim c \<and> qb_cols W = tb_model_dim c"
      "q8_ok wg" "qb_rows wg = tb_ffn_dim c" "qb_cols wg = tb_model_dim c" "q8_ok wu" "qb_rows wu = tb_ffn_dim c" "qb_cols wu = tb_model_dim c"
      "q8_ok wd" "qb_rows wd = tb_model_dim c" "qb_cols wd = tb_ffn_dim c"
    using w by (auto simp: q8_weights_ok_def holds_defs Let_def)
  have p: "computes fo (\<lambda>d x. f d x 1 (tb_model_dim c) wg) (q8_dequant fo wg) (tb_ffn_dim c) (tb_model_dim c)"
    "computes fo (\<lambda>d x. f d x 1 (tb_model_dim c) wu) (q8_dequant fo wu) (tb_ffn_dim c) (tb_model_dim c)"
    "computes fo (\<lambda>d x. f d x 1 (tb_ffn_dim c) wd) (q8_dequant fo wd) (tb_model_dim c) (tb_ffn_dim c)"
    using f(2) [of wg] f(2) [of wu] f(2) [of wd] wl by (simp_all add: computes_def)
  let ?aw = "\<lparr>aw8_wq = b8_wq w, aw8_wk = b8_wk w, aw8_wv = b8_wv w, aw8_wo = b8_wo w\<rparr>"
  have m: "attention_mats (mats_q8 fo w) = (\<lambda>i. [q8_dequant fo wq, q8_dequant fo wk, q8_dequant fo wv, q8_dequant fo wo] ! i)"
    using ws by (simp add: mats_q8_def Let_def)
  have att: "step_result (attention_spec fo (block_attention c) (attention_mats (mats_q8 fo w)) (cc_length cache) inp (cache_content cache))
      (tb_model_dim c) out cache (att1_attention_forward_backend_q8 fo mem (Some out) (Some cache) (Some inp) (Some ?aw)
        (Some (block_attention c)) (cc_length cache) (Some \<lparr>be_ops = Some ops\<rparr>))"
    if "mem_ok mem" "tb_model_dim c \<le> length out" "tb_model_dim c \<le> length inp" for mem out inp
    using attention_q8_spec [of "block_attention c" cache mem out inp ?aw wq wk wv wo] that ws dims wl(3)
    unfolding m by (simp only: block_attention_def att1_attention_config.simps att1_attention_q8_weights.simps simp_thms)
  have "block_step fo c (mats_q8 fo w) input cache output (block_body fo ops
      (\<lambda>i d x. if i < 2 then f d x 1 (tb_model_dim c) (the ([b8_w_gate w, b8_w_up w] ! i)) else f d x 1 (tb_ffn_dim c) (the (b8_w_down w)))
      (\<lambda>mem out kv inp ac. att1_attention_forward_backend_q8 fo mem out kv inp (Some ?aw) ac (cc_length cache) (Some \<lparr>be_ops = Some ops\<rparr>))
      (lm_attention_norm (mats_q8 fo w)) (lm_ffn_norm (mats_q8 fo w)) mem c output (Some cache) input)"
  proof (rule block_body_spec [OF c mem lens], goal_cases)
    case (6 mem out inp)
    then show ?case by (rule att)
  qed (use p ws wl(1,2) in \<open>simp_all add: mats_q8_def\<close>)
  then show ?thesis using ws block_ready_valid [OF c] f(1) present
    by (simp add: att1_transformer_block_forward_backend_q8_def backend_lacks_iff att1_block_q8_weights_valid_def mats_q8_def Let_def)
qed

end

context q4_kernels
begin

lemma block_q4_spec:
  assumes c: "block_ready c cache" and mem: "mem_ok mem" and w: "q4_weights_ok c w" and buf: "128 \<le> length buf"
    and lens: "tb_model_dim c \<le> length output" "tb_model_dim c \<le> length input"
  shows "block_step fo c (mats_q4 fo w) input cache output
    (att1_transformer_block_forward_backend_q4 fo buf mem (Some output) (Some cache) (Some input) (Some w) (Some c) (cc_length cache) (Some \<lparr>be_ops = Some ops\<rparr>))"
proof -
  note dims = block_ready_dims [OF c]
  obtain an fn wq wk wv wo wg wu wd where ws: "b4_attention_norm w = Some an" "b4_ffn_norm w = Some fn" "b4_wq w = Some wq"
      "b4_wk w = Some wk" "b4_wv w = Some wv" "b4_wo w = Some wo" "b4_w_gate w = Some wg" "b4_w_up w = Some wu" "b4_w_down w = Some wd"
    and wl: "tb_model_dim c \<le> length an" "tb_model_dim c \<le> length fn"
      "\<forall>W \<in> {wq, wk, wv, wo}. q4_ok W \<and> pb_rows W = tb_model_dim c \<and> pb_cols W = tb_model_dim c"
      "q4_ok wg" "pb_rows wg = tb_ffn_dim c" "pb_cols wg = tb_model_dim c" "q4_ok wu" "pb_rows wu = tb_ffn_dim c" "pb_cols wu = tb_model_dim c"
      "q4_ok wd" "pb_rows wd = tb_model_dim c" "pb_cols wd = tb_ffn_dim c"
    using w by (auto simp: q4_weights_ok_def holds_defs Let_def)
  have p: "computes fo (\<lambda>d x. block_q4_matmul fo buf ops d x 1 (tb_model_dim c) wg) (q4_dequant fo wg) (tb_ffn_dim c) (tb_model_dim c)"
    "computes fo (\<lambda>d x. block_q4_matmul fo buf ops d x 1 (tb_model_dim c) wu) (q4_dequant fo wu) (tb_ffn_dim c) (tb_model_dim c)"
    "computes fo (\<lambda>d x. block_q4_matmul fo buf ops d x 1 (tb_ffn_dim c) wd) (q4_dequant fo wd) (tb_model_dim c) (tb_ffn_dim c)"
    using cpu_kernel_q4 [of wg buf _ _ fo] cpu_kernel_q4 [of wu buf _ _ fo] cpu_kernel_q4 [of wd buf _ _ fo] wl buf matmul_q4_none
    by (simp_all add: computes_def block_q4_matmul_def non_null_def)
  let ?aw = "\<lparr>aw4_wq = b4_wq w, aw4_wk = b4_wk w, aw4_wv = b4_wv w, aw4_wo = b4_wo w\<rparr>"
  have m: "attention_mats (mats_q4 fo w) = (\<lambda>i. [q4_dequant fo wq, q4_dequant fo wk, q4_dequant fo wv, q4_dequant fo wo] ! i)"
    using ws by (simp add: mats_q4_def Let_def)
  have att: "step_result (attention_spec fo (block_attention c) (attention_mats (mats_q4 fo w)) (cc_length cache) inp (cache_content cache))
      (tb_model_dim c) out cache (att1_attention_forward_backend_q4 fo buf mem (Some out) (Some cache) (Some inp) (Some ?aw)
        (Some (block_attention c)) (cc_length cache) (Some \<lparr>be_ops = Some ops\<rparr>))"
    if "mem_ok mem" "tb_model_dim c \<le> length out" "tb_model_dim c \<le> length inp" for mem out inp
    using attention_q4_spec [of "block_attention c" cache mem out inp ?aw wq wk wv wo buf] that ws dims wl(3) buf
    unfolding m by (simp only: block_attention_def att1_attention_config.simps att1_attention_q4_weights.simps simp_thms)
  have "block_step fo c (mats_q4 fo w) input cache output (block_body fo ops
      (\<lambda>i d x. if i < 2 then block_q4_matmul fo buf ops d x 1 (tb_model_dim c) (the ([b4_w_gate w, b4_w_up w] ! i))
         else block_q4_matmul fo buf ops d x 1 (tb_ffn_dim c) (the (b4_w_down w)))
      (\<lambda>mem out kv inp ac. att1_attention_forward_backend_q4 fo buf mem out kv inp (Some ?aw) ac (cc_length cache) (Some \<lparr>be_ops = Some ops\<rparr>))
      (lm_attention_norm (mats_q4 fo w)) (lm_ffn_norm (mats_q4 fo w)) mem c output (Some cache) input)"
  proof (rule block_body_spec [OF c mem lens], goal_cases)
    case (6 mem out inp)
    then show ?case by (rule att)
  qed (use p ws wl(1,2) in \<open>simp_all add: mats_q4_def\<close>)
  then show ?thesis using ws block_ready_valid [OF c] present
    by (simp add: att1_transformer_block_forward_backend_q4_def backend_lacks_iff mats_q4_def Let_def)
qed

end

section \<open>The blocks of the three processor back ends\<close>

text \<open>
  C6. With enough memory and weights of the right shapes, one step of the decoder block computes the same function of the
  input and of the stored keys and values in all three precisions, the quantised ones on the dequantised matrices: it writes the
  first elements of the output, stores one pair in the cache, and fails only when a softmax vanishes. What the
  allocations and the local arrays held does not matter.
\<close>

theorem block_refines:
  assumes "block_ready c cache" "mem_ok mem" "tb_model_dim c \<le> length output" "tb_model_dim c \<le> length input" "128 \<le> length buf"
  shows "(f32_weights_ok c w \<longrightarrow> block_step fo c (mats_f32 w) input cache output
      (att1_transformer_block_forward_backend fo mem (Some output) (Some cache) (Some input) (Some w) (Some c) (cc_length cache)
         (snd (att1_backend_cpu_f32_create fo True True))))
    \<and> (q8_weights_ok c w8 \<longrightarrow> block_step fo c (mats_q8 fo w8) input cache output
      (att1_transformer_block_forward_backend_q8 fo mem (Some output) (Some cache) (Some input) (Some w8) (Some c) (cc_length cache)
         (snd (att1_backend_cpu_q8_create fo True True))))
    \<and> (q4_weights_ok c w4 \<longrightarrow> block_step fo c (mats_q4 fo w4) input cache output
      (att1_transformer_block_forward_backend_q4 fo buf mem (Some output) (Some cache) (Some input) (Some w4) (Some c) (cc_length cache)
         (snd (att1_backend_cpu_q4_create fo True True))))"
  using cpu_f32.block_f32_spec [OF assms(1,2) _ assms(3,4)] cpu_q8.block_q8_spec [OF assms(1,2) _ assms(3,4)]
    cpu_q4.block_q4_spec [OF assms(1,2) _ assms(5,3,4)]
  by (simp add: att1_backend_cpu_f32_create_def att1_backend_cpu_q8_create_def att1_backend_cpu_q4_create_def)

text \<open>A block of one head of two dimensions with all weights zero.\<close>

definition demo_block :: att1_transformer_block_config where
  "demo_block = \<lparr>tb_model_dim = 2, tb_num_heads = 1, tb_head_dim = 2, tb_ffn_dim = 1, tb_rms_epsilon = 0x358637BD, tb_rope_theta = 0x461C4000\<rparr>"

definition demo_cache :: att1_kv_cache where
  "demo_cache = \<lparr>cc_max_positions = 3, cc_num_heads = 1, cc_head_dim = 2, cc_length = 0, cc_keys = Some (replicate 6 0),
     cc_values = Some (replicate 6 0)\<rparr>"

definition demo_memory :: memory where "demo_memory i n = Some (replicate (n div 4) 7)"

lemma demo_block_ready: "block_ready demo_block demo_cache" "mem_ok demo_memory"
  by (simp_all add: block_ready_def demo_block_def demo_cache_def block_attention_def cache_ready_def attention_config_ok_def
      cache_inv_def cc_width_def SIZE_MAX_def f32_le_def f32_isnan_def f32_key_def mem_ok_def demo_memory_def)

definition demo_f32_weights :: block_f32_weights where
  "demo_f32_weights = \<lparr>bf_attention_norm = Some [0, 0], bf_ffn_norm = Some [0, 0], bf_wq = Some (replicate 4 0), bf_wk = Some (replicate 4 0),
     bf_wv = Some (replicate 4 0), bf_wo = Some (replicate 4 0), bf_w_gate = Some [0, 0], bf_w_up = Some [0, 0], bf_w_down = Some [0, 0]\<rparr>"

theorem block_refines_witness:
  "\<forall>fo. block_step fo demo_block (mats_f32 demo_f32_weights) [1, 2] demo_cache [3, 4]
    (att1_transformer_block_forward_backend fo demo_memory (Some [3, 4]) (Some demo_cache) (Some [1, 2]) (Some demo_f32_weights)
       (Some demo_block) 0 (snd (att1_backend_cpu_f32_create fo True True)))"
proof
  fix fo
  have "f32_weights_ok demo_block demo_f32_weights"
    by (simp add: f32_weights_ok_def demo_block_def demo_f32_weights_def holds_defs)
  then show "block_step fo demo_block (mats_f32 demo_f32_weights) [1, 2] demo_cache [3, 4]
    (att1_transformer_block_forward_backend fo demo_memory (Some [3, 4]) (Some demo_cache) (Some [1, 2]) (Some demo_f32_weights)
       (Some demo_block) 0 (snd (att1_backend_cpu_f32_create fo True True)))"
    using block_refines [OF demo_block_ready, of "[3, 4]" "[1, 2]" "replicate 128 0" demo_f32_weights fo]
    by (simp add: demo_block_def demo_cache_def)
qed

end
