(* ===== verification/Infer_Props.thy ===== *)
theory Infer_Props
  imports Infer Block_Refine
begin

text \<open>
  What an inference context computes: the decoder as a function on vectors and on the stored keys and values, the relation
  between it and the context in each of the three precisions, and the refinement of decoding and generation. Everything up to
  the layers is stated over extensions of the state, for the cluster.
\<close>

section \<open>The decoder\<close>

record decoder_model =
  dm_block :: att1_transformer_block_config
  dm_layers :: "layer_mats list"
  dm_embedding :: "f32 list"
  dm_output_norm :: "f32 list"
  dm_output :: "f32 list"
  dm_vocab :: nat
  dm_max :: nat

text \<open>The layers in a given order; \<open>kvs\<close> holds the stored pairs of each layer.\<close>

fun layers_spec ::
  "float_ops \<Rightarrow> decoder_model \<Rightarrow> nat \<Rightarrow> nat list \<Rightarrow> f32 list \<Rightarrow> kv_pair list list \<Rightarrow> (f32 list \<times> kv_pair list list) option" where
  "layers_spec fo D p [] x kvs = Some (x, kvs)"
| "layers_spec fo D p (l # ls) x kvs =
     (case block_spec fo (dm_block D) (dm_layers D ! l) p x (kvs ! l) of
        None \<Rightarrow> None
      | Some (y, e) \<Rightarrow> layers_spec fo D p ls y (kvs[l := kvs ! l @ [e]]))"

definition logits_spec :: "float_ops \<Rightarrow> decoder_model \<Rightarrow> f32 list \<Rightarrow> f32 list" where
  "logits_spec fo D x = (let d = tb_model_dim (dm_block D) in
     vec_mat fo (dm_output D) (dm_vocab D) d (vec_rmsnorm fo d (dm_output_norm D) INFER_RMS_EPSILON x))"

text \<open>One token: the error of the code, or the new state and the next token. The state is the position and the pairs.\<close>

type_synonym decoder_state = "nat \<times> kv_pair list list"

definition decode_spec ::
  "float_ops \<Rightarrow> decoder_model \<Rightarrow> nat list \<Rightarrow> decoder_state \<Rightarrow> u32 \<Rightarrow> att1_status + (decoder_state \<times> u32)" where
  "decode_spec fo D order s token =
     (let (p, kvs) = s; d = tb_model_dim (dm_block D) in
      if dm_vocab D \<le> unat token \<or> dm_max D \<le> p then Inl ATT1_ERR_INVALID_ARG
      else
        (case layers_spec fo D p order (read_bytes (unat token * d) d (dm_embedding D)) kvs of
           None \<Rightarrow> Inl ATT1_ERR_STATE
         | Some (x, kvs') \<Rightarrow>
           (case att1_sampler_greedy_f32 (Some (logits_spec fo D x)) True of
              None \<Rightarrow> Inl ATT1_ERR_STATE
            | Some next \<Rightarrow> Inr ((p + 1, kvs'), next))))"

text \<open>The decoder of a model without shards: its layers in their order.\<close>

abbreviation all_layers :: "decoder_model \<Rightarrow> nat list" where
  "all_layers D \<equiv> [0..<length (dm_layers D)]"

section \<open>Contexts that represent a decoder\<close>

text \<open>Two contexts, of any extensions, with the same weights.\<close>

definition same_weights :: "'a att1_infer_scheme \<Rightarrow> 'b att1_infer_scheme \<Rightarrow> bool" where
  "same_weights st st' \<longleftrightarrow> in_model st' = in_model st \<and> in_backend st' = in_backend st
     \<and> in_q8_layers st' = in_q8_layers st \<and> in_q8_output_norm st' = in_q8_output_norm st
     \<and> in_q8_output_weight st' = in_q8_output_weight st \<and> in_q8_ready st' = in_q8_ready st
     \<and> in_q4_layers st' = in_q4_layers st \<and> in_q4_output_norm st' = in_q4_output_norm st
     \<and> in_q4_output_weight st' = in_q4_output_weight st \<and> in_q4_ready st' = in_q4_ready st"

text \<open>In each precision: the layers and the output matrix stand for the matrices of the decoder.\<close>

definition f32_repr :: "float_ops \<Rightarrow> decoder_model \<Rightarrow> 'a att1_infer_scheme \<Rightarrow> bool" where
  "f32_repr fo D st \<longleftrightarrow> be_ops (in_backend st) = Some (cpu_f32_ops fo)
     \<and> decode_views st = (ATT1_OK, Some (dm_embedding D), Some (dm_output_norm D), Some (dm_output D))
     \<and> tb_model_dim (dm_block D) * dm_vocab D \<le> length (dm_output D)
     \<and> (\<forall>l < length (dm_layers D). \<exists>w. att1_model_view_load_layer_weights (Some (in_model st)) (word_of_nat l) (Some zero_block_weights)
            = (ATT1_OK, Some w)
          \<and> f32_weights_ok (dm_block D) (weights_of_view (in_model st) w) \<and> mats_f32 (weights_of_view (in_model st) w) = dm_layers D ! l)"

definition q8_repr :: "float_ops \<Rightarrow> decoder_model \<Rightarrow> 'a att1_infer_scheme \<Rightarrow> bool" where
  "q8_repr fo D st \<longleftrightarrow> be_ops (in_backend st) = Some (cpu_q8_ops fo)
     \<and> decode_views st = (ATT1_OK, Some (dm_embedding D), Some (dm_output_norm D), None)
     \<and> q8_holds (dm_vocab D) (tb_model_dim (dm_block D)) (Some (in_q8_output_weight st))
     \<and> dm_output D = q8_dequant fo (in_q8_output_weight st)
     \<and> (\<forall>l < length (dm_layers D). q8_weights_ok (dm_block D) (q8_block_weights (the (in_q8_layers st) ! l))
          \<and> mats_q8 fo (q8_block_weights (the (in_q8_layers st) ! l)) = dm_layers D ! l)"

definition q4_repr :: "float_ops \<Rightarrow> decoder_model \<Rightarrow> 'a att1_infer_scheme \<Rightarrow> bool" where
  "q4_repr fo D st \<longleftrightarrow> be_ops (in_backend st) = Some (cpu_q4_ops fo)
     \<and> decode_views st = (ATT1_OK, Some (dm_embedding D), Some (dm_output_norm D), None)
     \<and> q4_holds (dm_vocab D) (tb_model_dim (dm_block D)) (Some (in_q4_output_weight st))
     \<and> dm_output D = q4_dequant fo (in_q4_output_weight st)
     \<and> (\<forall>l < length (dm_layers D). q4_weights_ok (dm_block D) (q4_block_weights (the (in_q4_layers st) ! l))
          \<and> mats_q4 fo (q4_block_weights (the (in_q4_layers st) ! l)) = dm_layers D ! l)"

text \<open>The numbers of the configuration fit each other, and the head dimension is even for the rotation.\<close>

definition dims_ok :: "att1_model_config \<Rightarrow> decoder_model \<Rightarrow> bool" where
  "dims_ok c D \<longleftrightarrow> dm_block D = infer_block_config c \<and> length (dm_layers D) = unat (mc_n_layers c)
     \<and> dm_vocab D = unat (mc_vocab_size c) \<and> dm_max D = unat (mc_max_seq_len c)
     \<and> 0 < mc_d_model c \<and> 0 < mc_n_heads c \<and> 0 < mc_d_ff c \<and> 0 < mc_vocab_size c
     \<and> unat (mc_n_heads c) dvd unat (mc_d_model c) \<and> even (unat (mc_d_model c) div unat (mc_n_heads c))
     \<and> dm_vocab D * tb_model_dim (dm_block D) \<le> length (dm_embedding D) \<and> tb_model_dim (dm_block D) \<le> length (dm_output_norm D)"

definition weights_repr :: "float_ops \<Rightarrow> decoder_model \<Rightarrow> 'a att1_infer_scheme \<Rightarrow> bool" where
  "weights_repr fo D st \<longleftrightarrow> dims_ok (in_config st) D \<and> (f32_repr fo D st \<or> q8_repr fo D st \<or> q4_repr fo D st)"

definition cache_repr :: "decoder_model \<Rightarrow> kv_pair list \<Rightarrow> att1_kv_cache \<Rightarrow> bool" where
  "cache_repr D kv c \<longleftrightarrow> cache_inv c \<and> cache_content c = kv \<and> cc_num_heads c = tb_num_heads (dm_block D)
     \<and> cc_head_dim c = tb_head_dim (dm_block D) \<and> cc_max_positions c = dm_max D"

text \<open>Weights, caches and buffers; between two tokens all caches have the length of the position.\<close>

definition infer_rel :: "float_ops \<Rightarrow> decoder_model \<Rightarrow> kv_pair list list \<Rightarrow> 'a att1_infer_scheme \<Rightarrow> bool" where
  "infer_rel fo D kvs st \<longleftrightarrow> weights_repr fo D st \<and> list_all2 (cache_repr D) kvs (in_layer_kv st)
     \<and> length kvs = length (dm_layers D)
     \<and> length (in_hidden st) = tb_model_dim (dm_block D) \<and> length (in_next_hidden st) = tb_model_dim (dm_block D)
     \<and> length (in_norm st) = tb_model_dim (dm_block D) \<and> length (in_logits st) = dm_vocab D"

definition infer_state :: "float_ops \<Rightarrow> decoder_model \<Rightarrow> decoder_state \<Rightarrow> 'a att1_infer_scheme \<Rightarrow> bool" where
  "infer_state fo D s st \<longleftrightarrow> infer_rel fo D (snd s) st \<and> in_position st = fst s \<and> (\<forall>kv \<in> set (snd s). length kv = fst s)"

definition platform_ok :: "float_ops \<Rightarrow> platform \<Rightarrow> bool" where
  "platform_ok fo pf \<longleftrightarrow> pf_float pf = fo \<and> mem_ok (pf_memory pf) \<and> 128 \<le> length (pf_int4_buf pf)"

section \<open>Frame\<close>

lemma decode_views_same:
  assumes "same_weights st st'"
  shows "decode_views st' = decode_views st"
proof -
  have e: "in_model st' = in_model st" "in_backend st' = in_backend st" "in_q8_output_norm st' = in_q8_output_norm st"
    "in_q8_ready st' = in_q8_ready st" "in_q4_output_norm st' = in_q4_output_norm st" "in_q4_ready st' = in_q4_ready st"
    using assms by (simp_all add: same_weights_def)
  show ?thesis unfolding decode_views_def e by (rule refl)
qed

lemma weights_repr_same: "same_weights st st' \<Longrightarrow> weights_repr fo D st' = weights_repr fo D st"
  using decode_views_same [of st st']
  by (simp add: weights_repr_def f32_repr_def q8_repr_def q4_repr_def same_weights_def)

lemma same_weights_trans: "same_weights st st' \<Longrightarrow> same_weights st' st'' \<Longrightarrow> same_weights st st''"
  by (simp add: same_weights_def)

lemma infer_rel_more:
  "infer_rel fo D kvs st \<Longrightarrow> same_weights st st' \<Longrightarrow> in_layer_kv st' = in_layer_kv st \<Longrightarrow> length (in_hidden st') = length (in_hidden st)
    \<Longrightarrow> length (in_next_hidden st') = length (in_next_hidden st) \<Longrightarrow> length (in_norm st') = length (in_norm st)
    \<Longrightarrow> length (in_logits st') = length (in_logits st) \<Longrightarrow> infer_rel fo D kvs st'"
  by (simp add: infer_rel_def weights_repr_same)

lemma u32_lt62: "unat (w :: u32) < 2 ^ 62"
  using unsigned_less [of w, where ?'a = nat] by simp

lemma dims_nat:
  assumes "dims_ok mc D"
  shows "tb_model_dim (dm_block D) = tb_num_heads (dm_block D) * tb_head_dim (dm_block D)"
    and "0 < tb_num_heads (dm_block D)" "0 < tb_head_dim (dm_block D)" "even (tb_head_dim (dm_block D))"
    and "0 < tb_model_dim (dm_block D)" "tb_model_dim (dm_block D) < 2 ^ 62" "0 < tb_ffn_dim (dm_block D)" "tb_ffn_dim (dm_block D) < 2 ^ 62"
    and "dm_max D < 2 ^ 62" "0 < dm_vocab D"
proof -
  have b: "dm_block D = infer_block_config mc" and pos: "0 < unat (mc_d_model mc)" "0 < unat (mc_n_heads mc)" "0 < unat (mc_d_ff mc)"
      "0 < unat (mc_vocab_size mc)"
    and d: "unat (mc_n_heads mc) dvd unat (mc_d_model mc)" "even (unat (mc_d_model mc) div unat (mc_n_heads mc))"
    and m: "dm_max D = unat (mc_max_seq_len mc)" "dm_vocab D = unat (mc_vocab_size mc)"
    using assms unfolding dims_ok_def word_less_nat_alt unat_0 by blast+
  show "tb_model_dim (dm_block D) = tb_num_heads (dm_block D) * tb_head_dim (dm_block D)" using d(1) by (simp add: b infer_block_config_def)
  show "0 < tb_head_dim (dm_block D)" using d(1) pos by (simp add: b infer_block_config_def div_greater_zero_iff dvd_imp_le)
  show "0 < tb_num_heads (dm_block D)" "even (tb_head_dim (dm_block D))" "0 < tb_model_dim (dm_block D)" "0 < tb_ffn_dim (dm_block D)"
    using pos d(2) by (simp_all add: b infer_block_config_def)
  show "tb_model_dim (dm_block D) < 2 ^ 62" "tb_ffn_dim (dm_block D) < 2 ^ 62" "dm_max D < 2 ^ 62"
    using u32_lt62 by (simp_all add: b m infer_block_config_def)
  show "0 < dm_vocab D" using pos m by simp
qed

lemma block_ready_of:
  assumes "dims_ok mc D" "cache_repr D kv c" "length kv < dm_max D"
  shows "block_ready (dm_block D) c" and "cc_length c = length kv"
proof -
  show l: "cc_length c = length kv" using assms(2) length_cache_content [of c] by (simp add: cache_repr_def)
  have eps: "tb_rms_epsilon (dm_block D) = INFER_RMS_EPSILON" "tb_rope_theta (dm_block D) = INFER_ROPE_THETA"
    using assms(1) by (simp_all add: dims_ok_def infer_block_config_def)
  have "\<not> f32_le INFER_RMS_EPSILON 0" "\<not> f32_le INFER_ROPE_THETA 0"
    by (simp_all add: INFER_RMS_EPSILON_def INFER_ROPE_THETA_def f32_le_def f32_isnan_def f32_key_def)
  then show "block_ready (dm_block D) c"
    using dims_nat [OF assms(1)] assms(2,3) l
    by (simp add: block_ready_def cache_ready_def attention_config_ok_def block_attention_def cache_repr_def eps)
qed

section \<open>One layer\<close>

lemma backend_kinds [simp]:
  "infer_backend_is_q4 (Some \<lparr>be_ops = Some (cpu_f32_ops fo)\<rparr>) = False" "infer_backend_is_q8 (Some \<lparr>be_ops = Some (cpu_f32_ops fo)\<rparr>) = False"
  "infer_backend_is_q4 (Some \<lparr>be_ops = Some (cpu_q8_ops fo)\<rparr>) = False" "infer_backend_is_q8 (Some \<lparr>be_ops = Some (cpu_q8_ops fo)\<rparr>)"
  "infer_backend_is_q4 (Some \<lparr>be_ops = Some (cpu_q4_ops fo)\<rparr>)"
  by (simp_all add: infer_backend_is_q4_def infer_backend_is_q8_def cpu_f32_ops_def cpu_q8_ops_def cpu_q4_ops_def)

text \<open>What a layer does to the context; a failure, too, leaves one more pair in its cache.\<close>

definition layer_outcome ::
  "(f32 list \<times> kv_pair) option \<Rightarrow> nat \<Rightarrow> nat \<Rightarrow> 'a att1_infer_scheme \<Rightarrow> (att1_status \<times> 'a att1_infer_scheme) option \<Rightarrow> bool" where
  "layer_outcome spec n l st R \<longleftrightarrow>
     (case spec of
        None \<Rightarrow> \<exists>e cache'. cache_grown (in_layer_kv st ! l) e cache'
          \<and> R = Some (ATT1_ERR_STATE, st\<lparr>in_layer_kv := (in_layer_kv st)[l := cache']\<rparr>)
      | Some (y, e) \<Rightarrow> length y = n \<and> (\<exists>cache'. cache_grown (in_layer_kv st ! l) e cache'
          \<and> R = Some (ATT1_OK, st\<lparr>in_next_hidden := y, in_layer_kv := (in_layer_kv st)[l := cache']\<rparr>)))"

lemma layer_outcomeI:
  assumes "step_result spec n (in_next_hidden st) (in_layer_kv st ! l) R" "length (in_next_hidden st) = n"
  shows "layer_outcome spec n l st (map_option (store_block l st) R)"
proof (cases spec)
  case None
  then obtain e cache' where "cache_grown (in_layer_kv st ! l) e cache'" "R = Some (-1, Some (in_next_hidden st), Some cache')"
    using assms(1) by (auto simp: step_result_def)
  moreover have "st\<lparr>in_next_hidden := in_next_hidden st\<rparr> = st" by simp
  ultimately show ?thesis using None unfolding layer_outcome_def store_block_def None option.case by (intro exI conjI) simp_all
next
  case (Some r)
  obtain y e where r: "r = (y, e)" by (cases r)
  then obtain cache' where "length y = n" "cache_grown (in_layer_kv st ! l) e cache'" "R = Some (0, Some y, Some cache')"
    using Some assms by (auto simp: step_result_def)
  then show ?thesis unfolding layer_outcome_def store_block_def Some r option.case prod.case by simp blast
qed

lemma layer_block_spec:
  assumes R: "infer_rel fo D kvs st" and l: "l < length (dm_layers D)" and p: "length (kvs ! l) = in_position st" "in_position st < dm_max D"
    and pf: "platform_ok fo pf"
  shows "layer_outcome (block_spec fo (dm_block D) (dm_layers D ! l) (in_position st) (in_hidden st) (kvs ! l)) (tb_model_dim (dm_block D)) l st
    (layer_block pf l st)"
proof -
  have d: "dims_ok (in_config st) D" and w: "f32_repr fo D st \<or> q8_repr fo D st \<or> q4_repr fo D st"
    and lens: "length (in_next_hidden st) = tb_model_dim (dm_block D)" "length (in_hidden st) = tb_model_dim (dm_block D)"
    using R by (simp_all add: infer_rel_def weights_repr_def)
  have cr: "cache_repr D (kvs ! l) (in_layer_kv st ! l)" using R l by (simp add: infer_rel_def list_all2_nthD)
  note br = block_ready_of [OF d cr] p
  have c: "block_ready (dm_block D) (in_layer_kv st ! l)" "cc_length (in_layer_kv st ! l) = in_position st"
      "cache_content (in_layer_kv st ! l) = kvs ! l" using br cr by (simp_all add: cache_repr_def)
  have mem: "mem_ok (\<lambda>i. pf_memory pf (13 * l + i))" and fo: "pf_float pf = fo" and buf: "128 \<le> length (pf_int4_buf pf)"
    using pf by (simp_all add: platform_ok_def mem_ok_def)
  have cfg: "infer_block_config (in_config st) = dm_block D" using d by (simp add: dims_ok_def)
  have be: "in_backend st = \<lparr>be_ops = Some ops\<rparr>" if "be_ops (in_backend st) = Some ops" for ops using that by (cases "in_backend st") simp
  have lo: "tb_model_dim (dm_block D) \<le> length (in_next_hidden st)" "tb_model_dim (dm_block D) \<le> length (in_hidden st)" using lens by simp_all
  have th: "take (tb_model_dim (dm_block D)) (in_hidden st) = in_hidden st" using lens by simp
  from w show ?thesis
  proof (elim disjE)
    assume r: "f32_repr fo D st"
    then obtain v where v: "att1_model_view_load_layer_weights (Some (in_model st)) (word_of_nat l) (Some zero_block_weights) = (ATT1_OK, Some v)"
        "f32_weights_ok (dm_block D) (weights_of_view (in_model st) v)" "mats_f32 (weights_of_view (in_model st) v) = dm_layers D ! l"
      and b: "be_ops (in_backend st) = Some (cpu_f32_ops fo)" using l by (auto simp: f32_repr_def)
    note s = cpu_f32.block_f32_spec [where fo = fo, OF c(1) mem v(2) lo, unfolded th c(2,3) v(3)]
    show ?thesis using layer_outcomeI [OF s lens(1)] unfolding layer_block_def Let_def fo cfg be [OF b] by (simp add: v(1))
  next
    assume r: "q8_repr fo D st"
    then have q: "q8_weights_ok (dm_block D) (q8_block_weights (the (in_q8_layers st) ! l))"
        "mats_q8 fo (q8_block_weights (the (in_q8_layers st) ! l)) = dm_layers D ! l"
      and b: "be_ops (in_backend st) = Some (cpu_q8_ops fo)" using l by (simp_all add: q8_repr_def)
    note s = cpu_q8.block_q8_spec [where fo = fo, OF c(1) mem q(1) lo, unfolded th c(2,3) q(2)]
    show ?thesis using layer_outcomeI [OF s lens(1)] unfolding layer_block_def Let_def fo cfg be [OF b] by simp
  next
    assume r: "q4_repr fo D st"
    then have q: "q4_weights_ok (dm_block D) (q4_block_weights (the (in_q4_layers st) ! l))"
        "mats_q4 fo (q4_block_weights (the (in_q4_layers st) ! l)) = dm_layers D ! l"
      and b: "be_ops (in_backend st) = Some (cpu_q4_ops fo)" using l by (simp_all add: q4_repr_def)
    note s = cpu_q4.block_q4_spec [where fo = fo, OF c(1) mem q(1) buf lo, unfolded th c(2,3) q(2)]
    show ?thesis using layer_outcomeI [OF s lens(1)] unfolding layer_block_def Let_def fo cfg be [OF b] by simp
  qed
qed

text \<open>What the steps over the layers leave alone.\<close>

definition kept :: "'a att1_infer_scheme \<Rightarrow> 'a att1_infer_scheme \<Rightarrow> bool" where
  "kept st st' \<longleftrightarrow> same_weights st st' \<and> in_position st' = in_position st \<and> att1_infer.more st' = att1_infer.more st"

lemma kept_trans: "kept st st' \<Longrightarrow> kept st' st'' \<Longrightarrow> kept st st''"
  unfolding kept_def using same_weights_trans by metis

lemma rel_grown:
  assumes "infer_rel fo D kvs st" "l < length (dm_layers D)" "cache_grown (in_layer_kv st ! l) e cache'" "same_weights st st'"
    and "in_layer_kv st' = (in_layer_kv st)[l := cache']" "length (in_hidden st') = length (in_hidden st)"
    and "length (in_next_hidden st') = length (in_next_hidden st)" "in_norm st' = in_norm st" "in_logits st' = in_logits st"
  shows "infer_rel fo D (kvs[l := kvs ! l @ [e]]) st'"
proof -
  have "cache_repr D (kvs ! l) (in_layer_kv st ! l)" using assms(1,2) by (simp add: infer_rel_def list_all2_nthD)
  then have "cache_repr D (kvs ! l @ [e]) cache'" using assms(3) by (simp add: cache_repr_def cache_grown_def)
  then show ?thesis using assms by (simp add: infer_rel_def weights_repr_same list_all2_update_cong)
qed

lemma run_layer_spec:
  assumes R: "infer_rel fo D kvs st" and l: "l < length (dm_layers D)" and p: "length (kvs ! l) = in_position st" "in_position st < dm_max D"
    and pf: "platform_ok fo pf"
  shows "case block_spec fo (dm_block D) (dm_layers D ! l) (in_position st) (in_hidden st) (kvs ! l) of
      None \<Rightarrow> \<exists>e st'. run_layer pf clk l st = Some (ATT1_ERR_STATE, st') \<and> kept st st' \<and> infer_rel fo D (kvs[l := kvs ! l @ [e]]) st'
    | Some (y, e) \<Rightarrow> \<exists>st'. run_layer pf clk l st = Some (ATT1_OK, st') \<and> kept st st' \<and> infer_rel fo D (kvs[l := kvs ! l @ [e]]) st'
        \<and> in_hidden st' = y"
proof (cases "block_spec fo (dm_block D) (dm_layers D ! l) (in_position st) (in_hidden st) (kvs ! l)")
  case None
  then obtain e cache' where g: "cache_grown (in_layer_kv st ! l) e cache'"
      "layer_block pf l st = Some (ATT1_ERR_STATE, st\<lparr>in_layer_kv := (in_layer_kv st)[l := cache']\<rparr>)"
    using layer_block_spec [OF assms] unfolding layer_outcome_def None option.case by blast
  let ?st' = "st\<lparr>in_layer_kv := (in_layer_kv st)[l := cache']\<rparr>"
  have "run_layer pf clk l st = Some (ATT1_ERR_STATE, ?st')" using g(2) by (simp add: run_layer_def Let_def)
  moreover have "kept st ?st'" by (simp add: kept_def same_weights_def)
  moreover have "infer_rel fo D (kvs[l := kvs ! l @ [e]]) ?st'"
    by (rule rel_grown [OF R l g(1)]) (simp_all add: same_weights_def)
  ultimately show ?thesis unfolding None option.case by blast
next
  case (Some r)
  obtain y e where r: "r = (y, e)" by (cases r)
  have n: "tb_model_dim (dm_block D) = unat (mc_d_model (in_config st))"
    using R by (simp add: infer_rel_def weights_repr_def dims_ok_def infer_block_config_def)
  obtain cache' where g: "length y = tb_model_dim (dm_block D)" "cache_grown (in_layer_kv st ! l) e cache'"
      "layer_block pf l st = Some (ATT1_OK, st\<lparr>in_next_hidden := y, in_layer_kv := (in_layer_kv st)[l := cache']\<rparr>)"
    using layer_block_spec [OF assms] unfolding layer_outcome_def Some r option.case prod.case by blast
  have h: "length (in_hidden st) = length y" "length (in_next_hidden st) = length y" using R g(1) by (simp_all add: infer_rel_def)
  have rw: "buf_read y 0 (unat (mc_d_model (in_config st))) = Some y" "buf_write (in_hidden st) 0 y = Some y"
    using g(1) n h by (simp_all add: buf_read_def buf_write_def read_bytes_def write_bytes_def)
  define st' where "st' = st\<lparr>in_next_hidden := y, in_layer_kv := (in_layer_kv st)[l := cache'],
    in_trace := att1_trace_record_layer (in_trace st) l (pf_clock pf (clk + 1) - pf_clock pf clk) 1
      (word_of_nat (in_position st + 1) * ucast (mc_n_heads (in_config st))) (word_of_nat (in_position st + 1) * ucast (mc_n_heads (in_config st))),
    in_hidden := y\<rparr>"
  have "run_layer pf clk l st = Some (ATT1_OK, st')" using g(3) rw by (simp add: run_layer_def Let_def st'_def)
  moreover have k: "kept st st'" by (simp add: kept_def same_weights_def st'_def)
  moreover have "infer_rel fo D (kvs[l := kvs ! l @ [e]]) st'"
    using h k by (intro rel_grown [OF R l g(2)]) (simp_all add: st'_def kept_def)
  moreover have "in_hidden st' = y" by (simp add: st'_def)
  ultimately show ?thesis unfolding Some r option.case prod.case by blast
qed

section \<open>The last step\<close>

text \<open>The kernels of the three back ends as far as the last step uses them.\<close>

lemma last_norm:
  assumes "bo_rmsnorm_f32 ops = Some f \<and> (\<forall>d s w n eps. 0 < n \<longrightarrow> \<not> f32_le eps 0 \<longrightarrow> n \<le> length s
      \<longrightarrow> n \<le> length w \<longrightarrow> n \<le> length d \<longrightarrow> f d s w n eps = Some (0, vec_rmsnorm fo n w eps s @ drop n d))"
    and "0 < n" "length d = n" "length s = n" "n \<le> length w"
  shows "f d s w n INFER_RMS_EPSILON = Some (0, vec_rmsnorm fo n w INFER_RMS_EPSILON s)"
  using assms by (simp add: INFER_RMS_EPSILON_def f32_le_def f32_isnan_def f32_key_def)

lemma project_logits_spec:
  assumes R: "infer_rel fo D kvs st" and pf: "platform_ok fo pf" and v: "decode_views st = (ATT1_OK, e, output_norm, output_weight)"
  shows "project_logits pf output_norm output_weight st = Some (ATT1_OK,
    st\<lparr>in_norm := vec_rmsnorm fo (tb_model_dim (dm_block D)) (dm_output_norm D) INFER_RMS_EPSILON (in_hidden st),
       in_logits := logits_spec fo D (in_hidden st)\<rparr>)"
proof -
  let ?n = "tb_model_dim (dm_block D)" let ?x = "vec_rmsnorm fo ?n (dm_output_norm D) INFER_RMS_EPSILON (in_hidden st)"
  have d: "dims_ok (in_config st) D" and w: "f32_repr fo D st \<or> q8_repr fo D st \<or> q4_repr fo D st"
    and lens: "length (in_norm st) = ?n" "length (in_hidden st) = ?n" "length (in_logits st) = dm_vocab D"
    using R by (simp_all add: infer_rel_def weights_repr_def)
  have n: "?n = unat (mc_d_model (in_config st))" "dm_vocab D = unat (mc_vocab_size (in_config st))"
    using d by (simp_all add: dims_ok_def infer_block_config_def)
  have wn: "?n \<le> length (dm_output_norm D)" using d unfolding dims_ok_def by blast
  note dn = dims_nat [OF d]
  have fo: "pf_float pf = fo" and buf: "128 \<le> length (pf_int4_buf pf)" using pf by (simp_all add: platform_ok_def)
  have be: "in_backend st = \<lparr>be_ops = Some ops\<rparr>" if "be_ops (in_backend st) = Some ops" for ops using that by (cases "in_backend st") simp
  from w show ?thesis
  proof (elim disjE)
    assume r: "f32_repr fo D st"
    obtain f where f: "bo_rmsnorm_f32 (cpu_f32_ops fo) = Some f" "f (in_norm st) (in_hidden st) (dm_output_norm D) ?n INFER_RMS_EPSILON = Some (0, ?x)"
      using cpu_f32.rmsnorm_law [of fo] last_norm [OF _ dn(5) lens(1,2) wn] by blast
    obtain g where g: "bo_matmul_f32 (cpu_f32_ops fo) = Some g"
        "g (in_logits st) ?x (dm_output D) 1 (dm_vocab D) ?n = Some (0, logits_spec fo D (in_hidden st))"
      using cpu_f32.matmul_law [of fo] dn(5,10) lens(3) r by (fastforce simp: f32_repr_def logits_spec_def Let_def)
    have b: "be_ops (in_backend st) = Some (cpu_f32_ops fo)" and o: "output_norm = Some (dm_output_norm D)" "output_weight = Some (dm_output D)"
      using r v by (simp_all add: f32_repr_def)
    have "bo_sync (cpu_f32_ops fo) = Some 0" by (simp add: cpu_f32_ops_def)
    then show ?thesis using f g unfolding n by (simp add: project_logits_def Let_def be [OF b] o)
  next
    assume r: "q8_repr fo D st"
    obtain f where f: "bo_rmsnorm_f32 (cpu_q8_ops fo) = Some f" "f (in_norm st) (in_hidden st) (dm_output_norm D) ?n INFER_RMS_EPSILON = Some (0, ?x)"
      using cpu_q8.rmsnorm_law [of fo] last_norm [OF _ dn(5) lens(1,2) wn] by blast
    have q: "q8_ok (in_q8_output_weight st)" "qb_rows (in_q8_output_weight st) = dm_vocab D" "qb_cols (in_q8_output_weight st) = ?n"
        "dm_output D = q8_dequant fo (in_q8_output_weight st)"
      using r by (simp_all add: q8_repr_def q8_holds_def)
    obtain g where g': "bo_matmul_q8xf32 (cpu_q8_ops fo) = Some g" "\<And>d x w. q8_ok w \<Longrightarrow> qb_rows w \<le> length d \<Longrightarrow> qb_cols w \<le> length x
        \<Longrightarrow> g d x 1 (qb_cols w) w = Some (0, vec_mat fo (q8_dequant fo w) (qb_rows w) (qb_cols w) x @ drop (qb_rows w) d)"
      using cpu_q8.matmul_q8_law [of fo] by blast
    have g: "bo_matmul_q8xf32 (cpu_q8_ops fo) = Some g"
        "g (in_logits st) ?x 1 ?n (in_q8_output_weight st) = Some (0, logits_spec fo D (in_hidden st))"
      using g'(1) g'(2) [OF q(1), of "in_logits st" ?x] lens(3) q(2-4) by (simp_all add: logits_spec_def Let_def)
    have b: "be_ops (in_backend st) = Some (cpu_q8_ops fo)" and o: "output_norm = Some (dm_output_norm D)" "output_weight = None"
      using r v by (simp_all add: q8_repr_def)
    have "bo_sync (cpu_q8_ops fo) = Some 0" by (simp add: cpu_q8_ops_def)
    then show ?thesis using f g unfolding n by (simp add: project_logits_def Let_def be [OF b] o)
  next
    assume r: "q4_repr fo D st"
    obtain f where f: "bo_rmsnorm_f32 (cpu_q4_ops fo) = Some f" "f (in_norm st) (in_hidden st) (dm_output_norm D) ?n INFER_RMS_EPSILON = Some (0, ?x)"
      using cpu_q4.rmsnorm_law [of fo] last_norm [OF _ dn(5) lens(1,2) wn] by blast
    have q: "q4_ok (in_q4_output_weight st)" "pb_rows (in_q4_output_weight st) = dm_vocab D" "pb_cols (in_q4_output_weight st) = ?n"
        "dm_output D = q4_dequant fo (in_q4_output_weight st)"
      using r by (simp_all add: q4_repr_def q4_holds_def)
    have g: "infer_matmul_q4 fo (pf_int4_buf pf) (cpu_q4_ops fo) (in_logits st) ?x 1 ?n (in_q4_output_weight st)
        = Some (0, logits_spec fo D (in_hidden st))"
      using cpu_kernel_q4 [OF q(1) buf, of "in_logits st" ?x fo] lens(3) q cpu_q4.matmul_q4_none [of fo]
      by (simp add: infer_matmul_q4_def non_null_def logits_spec_def Let_def)
    have b: "be_ops (in_backend st) = Some (cpu_q4_ops fo)" and o: "output_norm = Some (dm_output_norm D)" "output_weight = None"
      using r v by (simp_all add: q4_repr_def)
    have "bo_sync (cpu_q4_ops fo) = Some 0" by (simp add: cpu_q4_ops_def)
    then show ?thesis using f g unfolding n by (simp add: project_logits_def Let_def be [OF b] o fo)
  qed
qed

section \<open>A whole token\<close>

lemma layers_spec_lengths:
  "layers_spec fo D p ls x kvs = Some (y, kvs') \<Longrightarrow> distinct ls \<Longrightarrow> set ls \<subseteq> {..<length kvs} \<Longrightarrow> l < length kvs
    \<Longrightarrow> length kvs' = length kvs \<and> length (kvs' ! l) = length (kvs ! l) + (if l \<in> set ls then 1 else 0)"
  by (induction ls arbitrary: x kvs) (auto simp: nth_list_update split: option.splits)

lemma run_layers_spec:
  assumes "infer_rel fo D kvs st" "distinct ls" "\<forall>l \<in> set ls. l < length (dm_layers D) \<and> length (kvs ! l) = in_position st"
    and "in_position st < dm_max D" "platform_ok fo pf"
  shows "case layers_spec fo D (in_position st) ls (in_hidden st) kvs of
      None \<Rightarrow> \<exists>st'. run_layers pf ls st = Some (ATT1_ERR_STATE, st')
    | Some (x, kvs') \<Rightarrow> \<exists>st'. run_layers pf ls st = Some (ATT1_OK, st') \<and> kept st st' \<and> infer_rel fo D kvs' st' \<and> in_hidden st' = x"
  using assms
proof (induction ls arbitrary: st kvs)
  case Nil
  then show ?case by (simp add: kept_def same_weights_def)
next
  case (Cons l ls)
  have l: "l < length (dm_layers D)" "length (kvs ! l) = in_position st" using Cons.prems(3) by simp_all
  note step = run_layer_spec [OF Cons.prems(1) l Cons.prems(4,5), of "1 + 2 * l"]
  show ?case
  proof (cases "block_spec fo (dm_block D) (dm_layers D ! l) (in_position st) (in_hidden st) (kvs ! l)")
    case None
    then show ?thesis using step by auto
  next
    case (Some r)
    obtain y e where r: "r = (y, e)" by (cases r)
    obtain st' where st': "run_layer pf (1 + 2 * l) l st = Some (ATT1_OK, st')" "kept st st'" "infer_rel fo D (kvs[l := kvs ! l @ [e]]) st'"
        "in_hidden st' = y" using step unfolding Some r option.case prod.case by blast
    have pos: "in_position st' = in_position st" using st'(2) by (simp add: kept_def)
    have "\<forall>k \<in> set ls. k < length (dm_layers D) \<and> length (kvs[l := kvs ! l @ [e]] ! k) = in_position st'"
    proof
      fix k assume "k \<in> set ls"
      moreover from this have "k \<noteq> l" using Cons.prems(2) by auto
      ultimately show "k < length (dm_layers D) \<and> length (kvs[l := kvs ! l @ [e]] ! k) = in_position st'"
        using Cons.prems(3) by (simp add: pos)
    qed
    from Cons.IH [OF st'(3) _ this _ Cons.prems(5)] Cons.prems(2,4)
    have ih: "case layers_spec fo D (in_position st) ls y (kvs[l := kvs ! l @ [e]]) of
      None \<Rightarrow> \<exists>st''. run_layers pf ls st' = Some (ATT1_ERR_STATE, st'')
    | Some (x, kvs') \<Rightarrow> \<exists>st''. run_layers pf ls st' = Some (ATT1_OK, st'') \<and> kept st' st'' \<and> infer_rel fo D kvs' st'' \<and> in_hidden st'' = x"
      by (simp add: pos st'(4))
    then show ?thesis using Some r st'(1) kept_trans [OF st'(2)] by (fastforce split: option.splits prod.splits)
  qed
qed

lemma embed_token_spec:
  assumes "infer_rel fo D kvs st" "unat token < dm_vocab D"
  defines "row \<equiv> read_bytes (unat token * tb_model_dim (dm_block D)) (tb_model_dim (dm_block D)) (dm_embedding D)"
  shows "embed_token (Some (dm_embedding D)) token st = Some (st\<lparr>in_hidden := row\<rparr>)" and "length row = tb_model_dim (dm_block D)"
proof -
  let ?n = "tb_model_dim (dm_block D)"
  have d: "dims_ok (in_config st) D" using assms(1) by (simp add: infer_rel_def weights_repr_def)
  have n: "unat (mc_d_model (in_config st)) = ?n" using d by (simp add: dims_ok_def infer_block_config_def)
  have "dm_vocab D * ?n \<le> length (dm_embedding D)" using d unfolding dims_ok_def by blast
  moreover have "(unat token + 1) * ?n \<le> dm_vocab D * ?n" using assms(2) by (intro mult_le_mono1) simp
  ultimately have b: "unat token * ?n + ?n \<le> length (dm_embedding D)" by (simp add: algebra_simps)
  then show l: "length row = ?n" by (simp add: row_def read_bytes_def)
  have "length (in_hidden st) = ?n" using assms(1) by (simp add: infer_rel_def)
  then show "embed_token (Some (dm_embedding D)) token st = Some (st\<lparr>in_hidden := row\<rparr>)"
    using b l by (simp add: embed_token_def n buf_read_def buf_write_def Let_def write_bytes_def flip: row_def)
qed

lemma decode_views_rel:
  "infer_rel fo D kvs st \<Longrightarrow> \<exists>ow. decode_views st = (ATT1_OK, Some (dm_embedding D), Some (dm_output_norm D), ow)"
  by (auto simp: infer_rel_def weights_repr_def f32_repr_def q8_repr_def q4_repr_def)

lemma buf_read_all: "length xs = n \<Longrightarrow> buf_read xs 0 n = Some xs"
  by (simp add: buf_read_def read_bytes_def)

lemma length_logits_spec [simp]: "length (logits_spec fo D x) = dm_vocab D"
  by (simp add: logits_spec_def Let_def)

text \<open>The state after a token, for any order of the layers.\<close>

lemma next_state:
  assumes "infer_rel fo D kvs' st" "layers_spec fo D p ls x kvs = Some (y, kvs')" "distinct ls" "set ls = {..<length kvs}"
    and "\<forall>kv \<in> set kvs. length kv = p" and st': "same_weights st st'" "in_layer_kv st' = in_layer_kv st" "in_hidden st' = in_hidden st"
    "in_next_hidden st' = in_next_hidden st" "length (in_norm st') = length (in_norm st)" "length (in_logits st') = length (in_logits st)"
    "in_position st' = p + 1"
  shows "infer_state fo D (p + 1, kvs') st'"
proof -
  have sub: "set ls \<subseteq> {..<length kvs}" using assms(4) by simp
  have len: "length kvs' = length kvs \<and> length (kvs' ! l) = p + 1" if "l < length kvs" for l
  proof -
    have "length (kvs ! l) = p" using bspec [OF assms(5), of "kvs ! l"] that by simp
    moreover have "l \<in> set ls" using that unfolding assms(4) by simp
    ultimately show ?thesis using layers_spec_lengths [OF assms(2,3) sub that] by simp
  qed
  have "length kv = p + 1" if kv: "kv \<in> set kvs'" for kv
  proof -
    have "kvs \<noteq> []" using assms(2,4) kv by (cases "kvs = []") simp_all
    then have n: "length kvs' = length kvs" using len [of 0] by simp
    obtain l where "l < length kvs'" "kvs' ! l = kv" using kv unfolding in_set_conv_nth by blast
    then show ?thesis using len [of l] unfolding n by blast
  qed
  then show ?thesis using infer_rel_more [OF assms(1) st'(1,2)] st' by (simp add: infer_state_def)
qed

text \<open>The last step of a token and the choice of the next one, on any context that ran the layers.\<close>

lemma last_step:
  assumes "infer_rel fo D kvs' st" "platform_ok fo pf" "decode_views st = (ATT1_OK, e, output_norm, ow)"
  shows "\<exists>st'. project_logits pf output_norm ow st = Some (ATT1_OK, st') \<and> kept st st' \<and> in_layer_kv st' = in_layer_kv st
      \<and> in_hidden st' = in_hidden st \<and> in_next_hidden st' = in_next_hidden st \<and> length (in_norm st') = length (in_norm st)
      \<and> length (in_logits st') = length (in_logits st) \<and> in_logits st' = logits_spec fo D (in_hidden st)"
proof -
  define st' where "st' = st\<lparr>in_norm := vec_rmsnorm fo (tb_model_dim (dm_block D)) (dm_output_norm D) INFER_RMS_EPSILON (in_hidden st),
       in_logits := logits_spec fo D (in_hidden st)\<rparr>"
  have "length (in_norm st) = tb_model_dim (dm_block D)" "length (in_logits st) = dm_vocab D" using assms(1) by (simp_all add: infer_rel_def)
  then have "length (in_norm st') = length (in_norm st)" "length (in_logits st') = length (in_logits st)" by (simp_all add: st'_def)
  moreover have "kept st st'" by (simp add: st'_def kept_def same_weights_def)
  moreover have "project_logits pf output_norm ow st = Some (ATT1_OK, st')" unfolding st'_def by (rule project_logits_spec [OF assms])
  ultimately show ?thesis by (intro exI [of _ st'] conjI) (simp_all add: st'_def)
qed

lemma infer_decode_spec:
  assumes S: "infer_state fo D s st" and pf: "platform_ok fo pf"
  shows "case decode_spec fo D (all_layers D) s token of
      Inl e \<Rightarrow> e \<noteq> ATT1_OK \<and> (\<exists>st'. att1_infer_decode_token pf (Some st) token True = Some (e, Some st', None))
    | Inr (s', next) \<Rightarrow> \<exists>st'. att1_infer_decode_token pf (Some st) token True = Some (ATT1_OK, Some st', Some next) \<and> infer_state fo D s' st'"
proof -
  obtain p kvs where s: "s = (p, kvs)" by (cases s)
  have R: "infer_rel fo D kvs st" and p: "in_position st = p" and len: "\<forall>kv \<in> set kvs. length kv = p"
    using S by (simp_all add: infer_state_def s)
  let ?c = "in_config st" let ?n = "tb_model_dim (dm_block D)"
  have nk: "length kvs = length (dm_layers D)" using R by (simp add: infer_rel_def)
  have dn: "length (dm_layers D) = unat (mc_n_layers ?c)" "dm_vocab D = unat (mc_vocab_size ?c)" "dm_max D = unat (mc_max_seq_len ?c)"
    "mc_n_heads ?c \<noteq> 0" using R by (auto simp: infer_rel_def weights_repr_def dims_ok_def)
  have guard: "dm_vocab D \<le> unat token \<longleftrightarrow> mc_vocab_size ?c \<le> token" by (simp add: dn word_le_nat_alt)
  show ?thesis
  proof (cases "dm_vocab D \<le> unat token \<or> dm_max D \<le> p")
    case True
    then show ?thesis using guard p dn(3) by (auto simp: decode_spec_def s att1_infer_decode_token_def Let_def)
  next
    case False
    then have g: "\<not> (mc_vocab_size ?c \<le> token \<or> unat (mc_max_seq_len ?c) \<le> in_position st)" "unat token < dm_vocab D" "p < dm_max D"
      using guard p dn(3) by auto
    define row where "row = read_bytes (unat token * ?n) ?n (dm_embedding D)"
    define st1 where "st1 = st\<lparr>in_hidden := row\<rparr>"
    note e = embed_token_spec [OF R g(2), folded row_def st1_def]
    obtain ow where v: "decode_views st = (ATT1_OK, Some (dm_embedding D), Some (dm_output_norm D), ow)" using decode_views_rel [OF R] by blast
    have k1: "kept st st1" by (simp add: kept_def same_weights_def st1_def)
    have R1: "infer_rel fo D kvs st1" using R k1 e(2) by (intro infer_rel_more [OF R]) (simp_all add: st1_def kept_def infer_rel_def)
    have "\<forall>l \<in> set (all_layers D). l < length (dm_layers D) \<and> length (kvs ! l) = in_position st1"
      using len nk by (auto simp: st1_def p)
    from run_layers_spec [OF R1 distinct_upt this _ pf]
    have ls: "case layers_spec fo D p (all_layers D) row kvs of
      None \<Rightarrow> \<exists>st'. run_layers pf (all_layers D) st1 = Some (ATT1_ERR_STATE, st')
    | Some (x, kvs') \<Rightarrow> \<exists>st'. run_layers pf (all_layers D) st1 = Some (ATT1_OK, st') \<and> kept st1 st' \<and> infer_rel fo D kvs' st' \<and> in_hidden st' = x"
      using g(3) by (simp add: st1_def p)
    note unf = att1_infer_decode_token_def option.case Let_def v prod.case e(1) dn(1) [symmetric] g(1) dn(4)
    note spec = decode_spec_def s Let_def row_def [symmetric]
    show ?thesis
    proof (cases "layers_spec fo D p (all_layers D) row kvs")
      case None
      then show ?thesis using ls g(2,3) by (auto simp: spec unf simp del: upt.simps)
    next
      case (Some xk)
      obtain x kvs' where xk: "xk = (x, kvs')" by (cases xk)
      obtain st2 where r: "run_layers pf (all_layers D) st1 = Some (ATT1_OK, st2)" "kept st st2" "infer_rel fo D kvs' st2" "in_hidden st2 = x"
        using ls kept_trans [OF k1] unfolding Some xk option.case prod.case by blast
      have v2: "decode_views st2 = (ATT1_OK, Some (dm_embedding D), Some (dm_output_norm D), ow)"
        using v decode_views_same [of st st2] r(2) by (simp add: kept_def)
      obtain st3 where pl: "project_logits pf (Some (dm_output_norm D)) ow st2 = Some (ATT1_OK, st3)" "kept st2 st3"
          "in_layer_kv st3 = in_layer_kv st2" "in_hidden st3 = in_hidden st2" "in_next_hidden st3 = in_next_hidden st2"
          "length (in_norm st3) = length (in_norm st2)" "length (in_logits st3) = length (in_logits st2)" "in_logits st3 = logits_spec fo D x"
        using last_step [OF r(3) pf v2] r(4) by auto
      have lg: "buf_read (in_logits st3) 0 (unat (mc_vocab_size ?c)) = Some (logits_spec fo D x)"
        by (simp add: pl(8) buf_read_all dn(2) [symmetric])
      have p3: "in_position st3 = p" using r(2) pl(2) p by (simp add: kept_def)
      show ?thesis
      proof (cases "att1_sampler_greedy_f32 (Some (logits_spec fo D x)) True")
        case None
        then show ?thesis using g(2,3) r(1) pl(1) lg Some xk by (simp add: spec unf del: upt.simps)
      next
        case (Some tok)
        have "infer_state fo D (p + 1, kvs') (st3\<lparr>in_trace := t, in_position := in_position st3 + 1\<rparr>)" for t
          using pl(2-7) p3 \<open>layers_spec fo D p (all_layers D) row kvs = Some xk\<close> len
          by (intro next_state [OF r(3), of p "all_layers D" row kvs x]) (auto simp: xk nk kept_def same_weights_def)
        then show ?thesis using g(2,3) r(1) pl(1) lg Some \<open>layers_spec fo D p (all_layers D) row kvs = Some xk\<close> xk p3
          by (simp add: spec unf del: upt.simps)
      qed
    qed
  qed
qed

end
