(* ===== verification/Generation.thy ===== *)
theory Generation
  imports Infer
begin

text \<open>
  The generation loops over any decoder that refines a function on abstract states. The locale \<open>token_decoder\<close> is the contract;
  single-context and cluster inference are its interpretations.
\<close>

section \<open>Generation as a function\<close>

type_synonym 'a token_step = "'a \<Rightarrow> u32 \<Rightarrow> att1_status + ('a \<times> u32)"

text \<open>The prompt byte by byte; then the last token chosen is emitted and fed back.\<close>

fun prompt_spec :: "'a token_step \<Rightarrow> u8 list \<Rightarrow> 'a \<Rightarrow> u32 \<Rightarrow> att1_status + ('a \<times> u32)" where
  "prompt_spec step [] a token = Inr (a, token)"
| "prompt_spec step (b # prompt) a token =
     (case step a (ucast b) of Inl e \<Rightarrow> Inl e | Inr (a', token') \<Rightarrow> prompt_spec step prompt a' token')"

fun produce_spec :: "'a token_step \<Rightarrow> nat \<Rightarrow> 'a \<Rightarrow> u32 \<Rightarrow> att1_status \<times> u32 list" where
  "produce_spec step 0 a token = (ATT1_OK, [])"
| "produce_spec step (Suc left) a token =
     (if left = 0 then (ATT1_OK, [token])
      else
        (case step a token of
           Inl e \<Rightarrow> (e, [token])
         | Inr (a', token') \<Rightarrow> (let (e, ts) = produce_spec step left a' token' in (e, token # ts))))"

definition generate_spec :: "'a token_step \<Rightarrow> u8 list \<Rightarrow> nat \<Rightarrow> 'a \<Rightarrow> att1_status \<times> u32 list \<times> nat option" where
  "generate_spec step prompt count a =
     (case prompt_spec step prompt a 0 of
        Inl e \<Rightarrow> (e, [], None)
      | Inr (a', token) \<Rightarrow>
        (let (e, ts) = produce_spec step count a' token in (e, ts, if e = ATT1_OK then Some count else None)))"

section \<open>The contract of a decoder\<close>

locale token_decoder =
  fixes decode :: "'s decoder" and step :: "'a token_step" and rel :: "'a \<Rightarrow> 's \<Rightarrow> bool"
  assumes decode_law: "rel a st \<Longrightarrow>
    (case step a token of
       Inl e \<Rightarrow> e \<noteq> ATT1_OK \<and> (\<exists>st'. decode k st token = Some (e, st', None))
     | Inr (a', token') \<Rightarrow> \<exists>st'. decode k st token = Some (ATT1_OK, st', Some token') \<and> rel a' st')"
begin

lemma prompt_refines:
  "rel a st \<Longrightarrow> case prompt_spec step prompt a token of
     Inl e \<Rightarrow> e \<noteq> ATT1_OK \<and> (\<exists>st' t. prompt_loop decode k prompt st token = Some (e, st', t))
   | Inr (a', token') \<Rightarrow> \<exists>st'. prompt_loop decode k prompt st token = Some (ATT1_OK, st', token') \<and> rel a' st'"
proof (induction prompt arbitrary: a st token k)
  case (Cons b prompt)
  show ?case
  proof (cases "step a (ucast b)")
    case (Inl e)
    then show ?thesis using decode_law [OF Cons.prems, where token = "ucast b" and k = k] by auto
  next
    case (Inr r)
    obtain a' t where r: "r = (a', t)" by (cases r)
    obtain st' where d: "decode k st (ucast b) = Some (ATT1_OK, st', Some t)" "rel a' st'"
      using decode_law [OF Cons.prems, where token = "ucast b" and k = k] unfolding Inr r sum.case prod.case by blast
    have e: "prompt_loop decode k (b # prompt) st token = prompt_loop decode (k + 1) prompt st' t"
      "prompt_spec step (b # prompt) a token = prompt_spec step prompt a' t" using d(1) by (simp_all add: Inr r)
    show ?thesis unfolding e by (rule Cons.IH [OF d(2)])
  qed
qed simp

lemma produce_refines:
  "rel a st \<Longrightarrow> \<exists>st'. produce_loop decode k n st token tokens
     = Some (fst (produce_spec step n a token), st', tokens @ snd (produce_spec step n a token))"
proof (induction n arbitrary: a st token k tokens)
  case (Suc n)
  show ?case
  proof (cases "n = 0 \<or> (\<exists>e. step a token = Inl e)")
    case True
    then show ?thesis using decode_law [OF Suc.prems, where token = token and k = k] by auto
  next
    case False
    then obtain a' t where r: "step a token = Inr (a', t)" by (metis obj_sumE surj_pair)
    obtain st' where d: "decode k st token = Some (ATT1_OK, st', Some t)" "rel a' st'"
      using decode_law [OF Suc.prems, where token = token and k = k] unfolding r sum.case prod.case by blast
    obtain st'' where "produce_loop decode (k + 1) n st' t (tokens @ [token])
        = Some (fst (produce_spec step n a' t), st'', (tokens @ [token]) @ snd (produce_spec step n a' t))"
      using Suc.IH [OF d(2)] by blast
    then show ?thesis using d(1) False by (simp add: r case_prod_beta)
  qed
qed simp

lemma generate_refines:
  assumes "rel a st"
  shows "\<exists>st'. generate_loops decode prompt count st
    = Some (fst (generate_spec step prompt count a), st', snd (generate_spec step prompt count a))"
proof (cases "prompt_spec step prompt a 0")
  case (Inl e)
  then show ?thesis using prompt_refines [OF assms, where prompt = prompt and k = 0 and token = 0] by (auto simp: generate_loops_def generate_spec_def)
next
  case (Inr r)
  obtain a' t where r: "r = (a', t)" by (cases r)
  obtain st' where p: "prompt_loop decode 0 prompt st 0 = Some (ATT1_OK, st', t)" "rel a' st'"
    using prompt_refines [OF assms, where prompt = prompt and k = 0 and token = 0] unfolding Inr r sum.case prod.case by blast
  show ?thesis using p(1) produce_refines [OF p(2), where k = "length prompt" and n = count and token = t and tokens = "[]"]
    by (auto simp: generate_loops_def generate_spec_def Inr r case_prod_beta)
qed

end

end
