(* ===== verification/Cluster_Props.thy ===== *)
theory Cluster_Props
  imports Cluster_Infer Infer_Props Generation Fabric_Props
begin

text \<open>
  Sharded inference computes what the decoder computes with the layers in the order of the tiles' runs: the fabric carries the
  activations unchanged from tile to tile and is empty between two tokens.
\<close>

section \<open>Payloads\<close>

lemma length_f32_bytes [simp]: "length (f32_bytes xs) = 4 * length xs"
  by (induction xs) (simp_all add: f32_bytes_def)

lemma read_f32_bytes: "i < length xs \<Longrightarrow> read_bytes (4 * i) 4 (f32_bytes xs) = le_bytes 4 (xs ! i)"
proof (induction xs arbitrary: i)
  case (Cons x xs)
  then show ?case by (cases i) (simp_all add: f32_bytes_def read_bytes_def)
qed simp

lemma f32s_of_bytes [simp]: "f32s_of (f32_bytes xs) = xs"
  by (rule nth_equalityI) (simp_all add: f32s_of_def read_f32_bytes)

lemma store_payload_same: "length xs = length ys \<Longrightarrow> store_payload (f32_bytes xs) ys = Some xs"
  by (simp add: store_payload_def buf_write_def write_bytes_def)

section \<open>The fabric between two steps\<close>

text \<open>At most one packet is under way: to \<open>tgt\<close>, with the floats \<open>xs\<close>.\<close>

definition fabric_idle :: "nat \<Rightarrow> nat \<Rightarrow> att1_fabric \<Rightarrow> bool" where
  "fabric_idle tiles bytes f \<longleftrightarrow> fab_inv f \<and> f_tiles f = tiles \<and> bytes \<le> f_max f \<and> (\<forall>t < tiles. fab_content f t = [])"

definition under_way :: "nat \<Rightarrow> nat \<Rightarrow> nat \<Rightarrow> att1_packet_type \<Rightarrow> f32 list \<Rightarrow> att1_fabric \<Rightarrow> bool" where
  "under_way tiles bytes tgt type xs f \<longleftrightarrow> fab_inv f \<and> f_tiles f = tiles \<and> bytes \<le> f_max f \<and> tgt < tiles
     \<and> (\<exists>pk. pk_type pk = type \<and> fab_content f tgt = [(pk, f32_bytes xs)]) \<and> (\<forall>t < tiles. t \<noteq> tgt \<longrightarrow> fab_content f t = [])"

lemma send_under_way:
  assumes "fabric_idle tiles bytes f" "unat source < tiles" "unat target < tiles" "4 * length xs \<le> bytes"
  shows "\<exists>f'. att1_fabric_send (Some f) source target type (Some (f32_bytes xs)) (4 * length xs) tag = (ATT1_OK, Some f')
    \<and> under_way tiles bytes (unat target) type xs f'"
proof -
  have f: "fab_inv f" "f_tiles f = tiles" "bytes \<le> f_max f" "\<forall>t < tiles. fab_content f t = []" using assms(1) by (simp_all add: fabric_idle_def)
  let ?f' = "att1_fabric_enqueue f source target type (Some (f32_bytes xs)) (4 * length xs) tag"
  have room: "fq_count (f_queues f ! unat target) < f_cap f"
    using f(4) assms(3) fab_inv_queue(2) [OF f(1), of "unat target"] f(2) by (auto simp: fab_content_eq_Nil)
  have ok: "payload_ok f (Some (f32_bytes xs)) (4 * length xs)" using assms(4) f(3) by (simp add: payload_ok_def)
  have "f_queues f \<noteq> []" using f(1,2) assms(2) by (auto simp: fab_inv_def)
  then have "att1_fabric_send (Some f) source target type (Some (f32_bytes xs)) (4 * length xs) tag = (ATT1_OK, Some ?f')"
    using assms f room by (simp add: att1_fabric_send_def with_fabric_def fabric_send_def att1_fabric_valid_tile_def
        att1_fabric_payload_valid_def att1_fabric_queue_has_room_def)
  moreover have "under_way tiles bytes (unat target) type xs ?f'"
    using fab_inv_enqueue [OF f(1) _ ok room] fab_content_enqueue [OF f(1) _ ok room] f assms(2,3)
    by (simp add: under_way_def sent_msg_def)
  ultimately show ?thesis by blast
qed

lemma receive_under_way:
  assumes "under_way tiles bytes (unat tile) type xs f"
  shows "\<exists>f'. receive_payload tile type (4 * length xs) f = (ATT1_OK, f', f32_bytes xs) \<and> fabric_idle tiles bytes f'"
proof -
  have f: "fab_inv f" "f_tiles f = tiles" "bytes \<le> f_max f" "unat tile < tiles" "\<forall>t < tiles. t \<noteq> unat tile \<longrightarrow> fab_content f t = []"
    using assms by (simp_all add: under_way_def)
  obtain pk where pk: "pk_type pk = type" "fab_content f (unat tile) = [(pk, f32_bytes xs)]" using assms by (auto simp: under_way_def)
  obtain f' where r: "fabric_receive f tile True (4 * length xs) = (ATT1_OK, f', Some (pk, f32_bytes xs))" "fab_inv f'"
      "\<And>u. u < f_tiles f \<Longrightarrow> fab_content f' u = (if u = unat tile then [] else fab_content f u)" "f_config f' = f_config f"
    using fabric_receive_ok [OF f(1) _ pk(2), of "4 * length xs" True] f(2,4) by auto
  have "f_queues f \<noteq> []" using f(1,2,4) by (auto simp: fab_inv_def)
  then have "receive_payload tile type (4 * length xs) f = (ATT1_OK, f', f32_bytes xs)"
    using r(1) pk(1) by (simp add: receive_payload_def att1_fabric_receive_def)
  moreover have "fabric_idle tiles bytes f'" using r(2-4) f by (simp add: fabric_idle_def)
  ultimately show ?thesis by blast
qed

section \<open>Plans\<close>

definition run_of :: "att1_layer_shard \<Rightarrow> nat list" where
  "run_of shard = [unat (lsh_layer_start shard)..<unat (lsh_layer_end shard)]"

text \<open>The order in which a plan runs the layers.\<close>

definition tile_order :: "att1_shard_plan \<Rightarrow> nat list" where
  "tile_order plan = concat (map run_of (take (sp_tile_count plan) (the (sp_tiles plan))))"

lemma mark_layers_spec:
  "mark_layers to_tile tile ls seen = Some seen' \<Longrightarrow> \<forall>l \<in> set ls. l < length seen \<Longrightarrow>
     distinct ls \<and> length seen' = length seen \<and> (\<forall>l \<in> set ls. \<not> seen ! l)
     \<and> (\<forall>i < length seen. seen' ! i \<longleftrightarrow> seen ! i \<or> i \<in> set ls)"
proof (induction ls arbitrary: seen)
  case (Cons l ls)
  then have c: "\<not> seen ! l" "mark_layers to_tile tile ls (seen[l := True]) = Some seen'" by (simp_all split: if_splits)
  have lt: "l < length seen" "\<forall>j \<in> set ls. j < length (seen[l := True])" using Cons.prems(2) by simp_all
  note ih = Cons.IH [OF c(2) lt(2)]
  have new: "j \<noteq> l \<and> \<not> seen ! j" if "j \<in> set ls" for j
    using bspec [OF conjunct1 [OF conjunct2 [OF conjunct2 [OF ih]]] that] lt(1) by (cases "j = l") simp_all
  have "seen' ! i \<longleftrightarrow> seen ! i \<or> i \<in> set (l # ls)" if "i < length seen" for i
    using ih that lt(1) by (cases "i = l") simp_all
  then show ?case using ih new c(1) by auto
qed simp

lemma check_tiles_spec:
  "check_tiles n to_tile tile shards seen = Some seen' \<Longrightarrow> length seen = n \<Longrightarrow>
     distinct (concat (map run_of shards)) \<and> set (concat (map run_of shards)) \<subseteq> {..<n} \<and> length seen' = n
     \<and> (\<forall>l \<in> set (concat (map run_of shards)). \<not> seen ! l)
     \<and> (\<forall>i < n. seen' ! i \<longleftrightarrow> seen ! i \<or> i \<in> set (concat (map run_of shards)))"
proof (induction shards arbitrary: tile seen)
  case (Cons shard shards)
  then obtain seen1 where c: "unat (lsh_layer_end shard) \<le> n" "mark_layers to_tile tile (run_of shard) seen = Some seen1"
      "check_tiles n to_tile (tile + 1) shards seen1 = Some seen'"
    by (auto simp: run_of_def split: if_splits option.splits)
  have lt: "\<forall>l \<in> set (run_of shard). l < length seen" using c(1) Cons.prems(2) by (simp add: run_of_def)
  note m = mark_layers_spec [OF c(2) lt]
  note t = Cons.IH [OF c(3)]
  show ?case using m t lt Cons.prems(2) by (auto 0 4 simp: subset_eq)
qed simp

lemma plan_complete_order:
  assumes "cluster_plan_complete alloc st" "n = unat (mc_n_layers (in_config st))"
  shows "distinct (tile_order (ci_shard_plan st))" "set (tile_order (ci_shard_plan st)) = {..<n}" "0 < sp_tile_count (ci_shard_plan st)"
proof -
  let ?p = "ci_shard_plan st"
  obtain tiles to_tile seen where p: "sp_tiles ?p = Some tiles" "sp_tile_count ?p \<noteq> 0" "sp_layer_count ?p = n"
      "check_tiles n to_tile 0 (take (sp_tile_count ?p) tiles) (replicate n False) = Some seen" "list_all (\<lambda>s. s) seen"
    using assms by (auto simp: cluster_plan_complete_def Let_def split: option.splits if_splits)
  note c = check_tiles_spec [OF p(4)]
  have "\<forall>i < n. seen ! i" using p(5) c by (simp add: list_all_length)
  then show "distinct (tile_order ?p)" "set (tile_order ?p) = {..<n}" using c p(1) by (auto simp: tile_order_def)
  show "0 < sp_tile_count ?p" using p(2) by simp
qed

lemma layers_spec_append:
  "layers_spec fo D p (ls @ ls') x kvs =
     (case layers_spec fo D p ls x kvs of None \<Rightarrow> None | Some (y, kvs') \<Rightarrow> layers_spec fo D p ls' y kvs')"
  by (induction ls arbitrary: x kvs) (auto split: option.splits)

section \<open>The steps of a tile\<close>

text \<open>What the steps leave alone.\<close>

definition ckept :: "att1_cluster_infer \<Rightarrow> att1_cluster_infer \<Rightarrow> bool" where
  "ckept st st' \<longleftrightarrow> same_weights st st' \<and> in_position st' = in_position st \<and> ci_shard_plan st' = ci_shard_plan st
     \<and> ci_host_tile_id st' = ci_host_tile_id st"

lemma ckept_trans: "ckept st st' \<Longrightarrow> ckept st' st'' \<Longrightarrow> ckept st st''"
  unfolding ckept_def using same_weights_trans by metis

lemma kept_cluster: "kept st st' \<Longrightarrow> ckept st st' \<and> ci_fabric st' = ci_fabric st"
  by (cases st; cases st') (simp add: kept_def ckept_def)

lemma tile_layers_spec:
  assumes "infer_rel fo D kvs st" "distinct ls" "\<forall>l \<in> set ls. l < length (dm_layers D) \<and> length (kvs ! l) = in_position st"
    and "in_position st < dm_max D" "platform_ok fo pf"
  shows "case layers_spec fo D (in_position st) ls (in_hidden st) kvs of
      None \<Rightarrow> \<exists>st'. tile_layers pf clk tile ls st = Some (ATT1_ERR_STATE, st')
    | Some (x, kvs') \<Rightarrow> \<exists>st'. tile_layers pf clk tile ls st = Some (ATT1_OK, st') \<and> ckept st st' \<and> ci_fabric st' = ci_fabric st
        \<and> infer_rel fo D kvs' st' \<and> in_hidden st' = x"
  using assms
proof (induction ls arbitrary: st kvs clk)
  case Nil
  then show ?case by (simp add: ckept_def same_weights_def)
next
  case (Cons l ls)
  have l: "l < length (dm_layers D)" "length (kvs ! l) = in_position st" using Cons.prems(3) by simp_all
  note step = run_layer_spec [OF Cons.prems(1) l Cons.prems(4,5), of clk]
  show ?case
  proof (cases "block_spec fo (dm_block D) (dm_layers D ! l) (in_position st) (in_hidden st) (kvs ! l)")
    case None
    then show ?thesis using step by auto
  next
    case (Some r)
    obtain y e where r: "r = (y, e)" by (cases r)
    obtain st1 where st1: "run_layer pf clk l st = Some (ATT1_OK, st1)" "kept st st1" "infer_rel fo D (kvs[l := kvs ! l @ [e]]) st1"
        "in_hidden st1 = y" using step unfolding Some r option.case prod.case by blast
    define st2 where "st2 = (count_tile tile (\<lambda>c. c\<lparr>ctc_layers_run := ctc_layers_run c + 1\<rparr>) st1)
      \<lparr>in_trace := att1_trace_record_tile_layers (in_trace (count_tile tile (\<lambda>c. c\<lparr>ctc_layers_run := ctc_layers_run c + 1\<rparr>) st1)) tile 1\<rparr>"
    have k: "ckept st st2" "ci_fabric st2 = ci_fabric st" "in_hidden st2 = y" "in_position st2 = in_position st"
      using kept_cluster [OF st1(2)] st1(4) by (simp_all add: st2_def count_tile_def ckept_def same_weights_def)
    have R2: "infer_rel fo D (kvs[l := kvs ! l @ [e]]) st2"
      by (rule infer_rel_more [OF st1(3)]) (simp_all add: st2_def count_tile_def same_weights_def)
    have "\<forall>j \<in> set ls. j < length (dm_layers D) \<and> length (kvs[l := kvs ! l @ [e]] ! j) = in_position st2"
    proof
      fix j assume "j \<in> set ls"
      moreover from this have "j \<noteq> l" using Cons.prems(2) by auto
      ultimately show "j < length (dm_layers D) \<and> length (kvs[l := kvs ! l @ [e]] ! j) = in_position st2"
        using Cons.prems(3) by (simp add: k(4))
    qed
    from Cons.IH [OF R2 _ this _ Cons.prems(5), of "clk + 2"] Cons.prems(2,4)
    have ih: "case layers_spec fo D (in_position st) ls y (kvs[l := kvs ! l @ [e]]) of
      None \<Rightarrow> \<exists>st''. tile_layers pf (clk + 2) tile ls st2 = Some (ATT1_ERR_STATE, st'')
    | Some (x, kvs') \<Rightarrow> \<exists>st''. tile_layers pf (clk + 2) tile ls st2 = Some (ATT1_OK, st'') \<and> ckept st2 st'' \<and> ci_fabric st'' = ci_fabric st2
        \<and> infer_rel fo D kvs' st'' \<and> in_hidden st'' = x"
      by (simp add: k(3,4))
    have e: "tile_layers pf clk tile (l # ls) st = tile_layers pf (clk + 2) tile ls st2" using st1(1) by (simp add: st2_def Let_def)
    show ?thesis unfolding e using ih Some r ckept_trans [OF k(1)] k(2) by (auto split: option.splits prod.splits)
  qed
qed

lemma u32_of_nat: "n < 2 ^ 32 \<Longrightarrow> unat (word_of_nat n :: u32) = n"
  by (simp add: unsigned_of_nat take_bit_nat_eq_self)

text \<open>The tiles, the host behind them and the largest payload of a decoder.\<close>

abbreviation payload_bound :: "decoder_model \<Rightarrow> nat" where
  "payload_bound D \<equiv> 4 * max (dm_vocab D) (tb_model_dim (dm_block D))"

lemma rel_dims:
  assumes "infer_rel fo D kvs st"
  shows "unat (mc_d_model (in_config st)) = tb_model_dim (dm_block D)" "unat (mc_vocab_size (in_config st)) = dm_vocab D"
    "length (in_hidden st) = tb_model_dim (dm_block D)" "length (in_logits st) = dm_vocab D" "mc_n_heads (in_config st) \<noteq> 0"
    "length (dm_layers D) = unat (mc_n_layers (in_config st))" "length kvs = length (dm_layers D)"
    "dm_max D = unat (mc_max_seq_len (in_config st))"
  using assms by (auto simp: infer_rel_def weights_repr_def dims_ok_def infer_block_config_def)

lemma receive_hidden_spec:
  assumes R: "infer_rel fo D kvs st" and f: "under_way tiles b tile PACKET_ACTIVATION x (ci_fabric st)"
    and x: "length x = tb_model_dim (dm_block D)" and t: "tile < 2 ^ 32"
  shows "\<exists>st'. receive_hidden tile st = Some (ATT1_OK, st') \<and> ckept st st' \<and> infer_rel fo D kvs st' \<and> in_hidden st' = x
    \<and> fabric_idle tiles b (ci_fabric st')"
proof -
  note d = rel_dims [OF R]
  have w: "unat (word_of_nat tile :: u32) = tile" using t by (rule u32_of_nat)
  obtain f' where r: "receive_payload (word_of_nat tile) PACKET_ACTIVATION (4 * tb_model_dim (dm_block D)) (ci_fabric st)
      = (ATT1_OK, f', f32_bytes x)" "fabric_idle tiles b f'"
    using receive_under_way [of tiles b "word_of_nat tile" PACKET_ACTIVATION x "ci_fabric st"] f x by (auto simp: w)
  define st' where "st' = count_tile tile (\<lambda>c. c\<lparr>ctc_activations_received := ctc_activations_received c + 1\<rparr>)
    (st\<lparr>ci_fabric := f', in_hidden := x, in_trace := att1_trace_record_fabric_receive (in_trace st) (word_of_nat (4 * tb_model_dim (dm_block D)))\<rparr>)"
  have "receive_hidden tile st = Some (ATT1_OK, st')"
    using r(1) d(1,3) x by (simp add: receive_hidden_def store_payload_same st'_def Let_def)
  moreover have "infer_rel fo D kvs st'"
    using d(3) x by (intro infer_rel_more [OF R]) (simp_all add: st'_def count_tile_def same_weights_def)
  ultimately show ?thesis using r(2)
    by (intro exI [of _ st']) (simp add: st'_def count_tile_def ckept_def same_weights_def)
qed

lemma send_floats_spec:
  assumes f: "fabric_idle tiles b (ci_fabric st)" and s: "unat source < tiles" "unat target < tiles" and x: "4 * length xs \<le> b"
  shows "\<exists>st'. send_floats source target type xs (length xs) record st = Some (ATT1_OK, st')
    \<and> under_way tiles b (unat target) type xs (ci_fabric st') \<and> st'\<lparr>ci_fabric := ci_fabric st, in_trace := in_trace st\<rparr> = st"
proof -
  obtain f' where r: "att1_fabric_send (Some (ci_fabric st)) source target type (Some (f32_bytes xs)) (4 * length xs) (word_of_nat (in_position st))
      = (ATT1_OK, Some f')" "under_way tiles b (unat target) type xs f'"
    using send_under_way [OF f s x, of type "word_of_nat (in_position st)"] by blast
  then show ?thesis by (simp add: send_floats_def buf_read_all Let_def)
qed

lemma send_floats_keeps:
  assumes "st'\<lparr>ci_fabric := f, in_trace := t\<rparr> = st" "infer_rel fo D kvs st"
  shows "ckept st st'" "infer_rel fo D kvs st'" "in_hidden st' = in_hidden st" "in_logits st' = in_logits st"
proof -
  show k: "ckept st st'" "in_hidden st' = in_hidden st" "in_logits st' = in_logits st"
    using assms(1) by (auto simp: ckept_def same_weights_def)
  show "infer_rel fo D kvs st'"
    using assms(1) k by (intro infer_rel_more [OF assms(2)]) (auto simp: ckept_def)
qed

lemma count_tile_keeps:
  "infer_rel fo D kvs st \<Longrightarrow> infer_rel fo D kvs (count_tile tile g st)" "ckept st (count_tile tile g st)"
  "in_hidden (count_tile tile g st) = in_hidden st" "ci_fabric (count_tile tile g st) = ci_fabric st"
  by (erule infer_rel_more, simp_all add: count_tile_def same_weights_def ckept_def)

lemma finish_tile_forward:
  assumes R: "infer_rel fo D kvs st" and f: "fabric_idle (T + 1) (payload_bound D) (ci_fabric st)"
    and t: "tile + 1 < T" "T < 2 ^ 32 - 1" "sp_tile_count (ci_shard_plan st) = T"
  shows "\<exists>st'. finish_tile pf output_norm output_weight tile st = Some (ATT1_OK, st') \<and> ckept st st' \<and> infer_rel fo D kvs st'
    \<and> under_way (T + 1) (payload_bound D) (tile + 1) PACKET_ACTIVATION (in_hidden st) (ci_fabric st')"
proof -
  note d = rel_dims [OF R]
  have w: "unat (word_of_nat tile :: u32) = tile" "unat (word_of_nat (tile + 1) :: u32) = tile + 1" by (rule u32_of_nat, use t in simp)+
  let ?g = "\<lambda>t. att1_trace_record_activation_send t (tile + 1) (word_of_nat (4 * tb_model_dim (dm_block D)))"
  obtain st1 where s: "send_floats (word_of_nat tile) (word_of_nat (tile + 1)) PACKET_ACTIVATION (in_hidden st) (length (in_hidden st)) ?g st
        = Some (ATT1_OK, st1)" "under_way (T + 1) (payload_bound D) (tile + 1) PACKET_ACTIVATION (in_hidden st) (ci_fabric st1)"
      "st1\<lparr>ci_fabric := ci_fabric st, in_trace := in_trace st\<rparr> = st"
    using send_floats_spec [OF f, of "word_of_nat tile" "word_of_nat (tile + 1)" "in_hidden st" PACKET_ACTIVATION ?g] t(1) d(3) unfolding w by auto
  note k = send_floats_keeps [OF s(3) R]
  let ?st' = "count_tile tile (\<lambda>c. c\<lparr>ctc_activations_sent := ctc_activations_sent c + 1\<rparr>) st1"
  have "finish_tile pf output_norm output_weight tile st = Some (ATT1_OK, ?st')"
    using s(1) t(1,3) d(1,3) by (simp add: finish_tile_def Let_def)
  moreover have "ckept st ?st'" by (rule ckept_trans [OF k(1) count_tile_keeps(2)])
  moreover have "infer_rel fo D kvs ?st'" by (rule count_tile_keeps(1) [OF k(2)])
  ultimately show ?thesis using s(2) by (intro exI [of _ ?st']) (simp add: count_tile_keeps(4))
qed

lemma finish_tile_last:
  assumes R: "infer_rel fo D kvs st" and f: "fabric_idle (T + 1) (payload_bound D) (ci_fabric st)" and pf: "platform_ok fo pf"
    and v: "decode_views st = (ATT1_OK, e, output_norm, output_weight)"
    and t: "tile + 1 = T" "T < 2 ^ 32 - 1" "sp_tile_count (ci_shard_plan st) = T" "ci_host_tile_id st = word_of_nat T"
  shows "\<exists>st'. finish_tile pf output_norm output_weight tile st = Some (ATT1_OK, st') \<and> ckept st st' \<and> infer_rel fo D kvs st'
    \<and> under_way (T + 1) (payload_bound D) T PACKET_LOGITS (logits_spec fo D (in_hidden st)) (ci_fabric st')"
proof -
  obtain st1 where pl: "project_logits pf output_norm output_weight st = Some (ATT1_OK, st1)" "kept st st1" "in_layer_kv st1 = in_layer_kv st"
      "in_hidden st1 = in_hidden st" "in_next_hidden st1 = in_next_hidden st" "length (in_norm st1) = length (in_norm st)"
      "length (in_logits st1) = length (in_logits st)" "in_logits st1 = logits_spec fo D (in_hidden st)"
    using last_step [OF R pf v] by blast
  have k1: "ckept st st1" "ci_fabric st1 = ci_fabric st" using kept_cluster [OF pl(2)] by simp_all
  have R1: "infer_rel fo D kvs st1" using pl k1 by (intro infer_rel_more [OF R]) (simp_all add: ckept_def)
  have w: "unat (word_of_nat tile :: u32) = tile" "unat (word_of_nat T :: u32) = T" by (rule u32_of_nat, use t in simp)+
  let ?g = "\<lambda>t. att1_trace_record_logits t tile (word_of_nat (4 * dm_vocab D))"
  obtain st2 where s: "send_floats (word_of_nat tile) (word_of_nat T) PACKET_LOGITS (in_logits st1) (length (in_logits st1)) ?g st1
        = Some (ATT1_OK, st2)" "under_way (T + 1) (payload_bound D) T PACKET_LOGITS (in_logits st1) (ci_fabric st2)"
      "st2\<lparr>ci_fabric := ci_fabric st1, in_trace := in_trace st1\<rparr> = st1"
    using send_floats_spec [OF f [folded k1(2)], of "word_of_nat tile" "word_of_nat T" "in_logits st1" PACKET_LOGITS ?g] t(1) pl(8) unfolding w by auto
  note k2 = send_floats_keeps [OF s(3) R1]
  let ?st' = "count_tile tile (\<lambda>c. c\<lparr>ctc_logits_sent := ctc_logits_sent c + 1\<rparr>) st2"
  have "finish_tile pf output_norm output_weight tile st = Some (ATT1_OK, ?st')"
  proof -
    have nl: "\<not> tile + 1 < sp_tile_count (ci_shard_plan st)" using t(1,3) by simp
    have h: "ci_host_tile_id st1 = word_of_nat T" "unat (mc_vocab_size (in_config st)) = dm_vocab D" "length (in_logits st1) = dm_vocab D"
      using k1 t(4) rel_dims(2) [OF R] pl(8) by (simp_all add: ckept_def)
    show ?thesis using s(1) unfolding finish_tile_def Let_def if_not_P [OF nl] pl(1) h by (simp add: h)
  qed
  moreover have "ckept st ?st'" by (rule ckept_trans [OF ckept_trans [OF k1(1) k2(1)] count_tile_keeps(2)])
  moreover have "infer_rel fo D kvs ?st'" by (rule count_tile_keeps(1) [OF k2(2)])
  ultimately show ?thesis using s(2) by (intro exI [of _ ?st']) (simp add: count_tile_keeps(4) pl(8))
qed

section \<open>All tiles\<close>

text \<open>A cluster whose plan has \<open>T\<close> tiles, with the host behind them.\<close>

definition tiles_ok :: "nat \<Rightarrow> att1_cluster_infer \<Rightarrow> bool" where
  "tiles_ok T st \<longleftrightarrow> T < 2 ^ 32 - 1 \<and> sp_tile_count (ci_shard_plan st) = T \<and> ci_host_tile_id st = word_of_nat T"

lemma tiles_ok_kept: "ckept st st' \<Longrightarrow> tiles_ok T st' = tiles_ok T st"
  by (simp add: ckept_def tiles_ok_def)

lemma views_kept: "ckept st st' \<Longrightarrow> decode_views st' = decode_views st"
  by (rule decode_views_same) (simp add: ckept_def)

lemma tile_body_spec:
  assumes R: "infer_rel fo D kvs st" and f: "under_way (T + 1) (payload_bound D) tile PACKET_ACTIVATION x (ci_fabric st)"
    and x: "length x = tb_model_dim (dm_block D)" and T: "tiles_ok T st" "tile < T" and pf: "platform_ok fo pf"
    and ls: "distinct (run_of shard)" "\<forall>l \<in> set (run_of shard). l < length (dm_layers D) \<and> length (kvs ! l) = in_position st"
    and p: "in_position st < dm_max D" and v: "decode_views st = (ATT1_OK, e, output_norm, output_weight)"
  shows "case layers_spec fo D (in_position st) (run_of shard) x kvs of
      None \<Rightarrow> \<exists>clk' st'. run_tiles pf output_norm output_weight clk tile (shard # rest) st = Some (ATT1_ERR_STATE, clk', st')
    | Some (y, kvs') \<Rightarrow> \<exists>st'. run_tiles pf output_norm output_weight clk tile (shard # rest) st
          = run_tiles pf output_norm output_weight (clk + 2 * length (run_of shard)) (tile + 1) rest st'
        \<and> ckept st st' \<and> infer_rel fo D kvs' st' \<and> length y = tb_model_dim (dm_block D)
        \<and> (if tile + 1 < T then under_way (T + 1) (payload_bound D) (tile + 1) PACKET_ACTIVATION y (ci_fabric st')
           else under_way (T + 1) (payload_bound D) T PACKET_LOGITS (logits_spec fo D y) (ci_fabric st'))"
proof -
  have "tile < 2 ^ 32" using T by (simp add: tiles_ok_def)
  then obtain st1 where s1: "receive_hidden tile st = Some (ATT1_OK, st1)" "ckept st st1" "infer_rel fo D kvs st1" "in_hidden st1 = x"
      "fabric_idle (T + 1) (payload_bound D) (ci_fabric st1)"
    using receive_hidden_spec [OF R f x] by blast
  have pos: "in_position st1 = in_position st" using s1(2) by (simp add: ckept_def)
  note tl = tile_layers_spec [OF s1(3) ls(1) ls(2) [folded pos] p [folded pos] pf, of clk tile, unfolded s1(4) pos]
  show ?thesis
  proof (cases "layers_spec fo D (in_position st) (run_of shard) x kvs")
    case None
    then show ?thesis using tl s1(1) by (auto simp: run_of_def [symmetric])
  next
    case (Some r)
    obtain y kvs' where r: "r = (y, kvs')" by (cases r)
    obtain st2 where s2: "tile_layers pf clk tile (run_of shard) st1 = Some (ATT1_OK, st2)" "ckept st1 st2" "ci_fabric st2 = ci_fabric st1"
        "infer_rel fo D kvs' st2" "in_hidden st2 = y" using tl unfolding Some r option.case prod.case by blast
    have k2: "ckept st st2" by (rule ckept_trans [OF s1(2) s2(2)])
    have T2: "T < 2 ^ 32 - 1" "sp_tile_count (ci_shard_plan st2) = T" "ci_host_tile_id st2 = word_of_nat T"
      using T(1) k2 by (simp_all add: tiles_ok_def ckept_def)
    have v2: "decode_views st2 = (ATT1_OK, e, output_norm, output_weight)" using v views_kept [OF k2] by simp
    have ly: "length y = tb_model_dim (dm_block D)" using rel_dims(3) [OF s2(4)] s2(5) by simp
    have idle: "fabric_idle (T + 1) (payload_bound D) (ci_fabric st2)" using s1(5) s2(3) by simp
    have "\<exists>st3. finish_tile pf output_norm output_weight tile st2 = Some (ATT1_OK, st3) \<and> ckept st2 st3 \<and> infer_rel fo D kvs' st3
        \<and> (if tile + 1 < T then under_way (T + 1) (payload_bound D) (tile + 1) PACKET_ACTIVATION y (ci_fabric st3)
           else under_way (T + 1) (payload_bound D) T PACKET_LOGITS (logits_spec fo D y) (ci_fabric st3))"
    proof (cases "tile + 1 < T")
      case True
      then show ?thesis using finish_tile_forward [OF s2(4) idle True T2(1,2)] s2(5) by simp
    next
      case False
      then have "tile + 1 = T" using T(2) by simp
      then show ?thesis using finish_tile_last [OF s2(4) idle pf v2 _ T2(1,2,3)] s2(5) False by simp
    qed
    then obtain st3 where s3: "finish_tile pf output_norm output_weight tile st2 = Some (ATT1_OK, st3)" "ckept st2 st3" "infer_rel fo D kvs' st3"
        "if tile + 1 < T then under_way (T + 1) (payload_bound D) (tile + 1) PACKET_ACTIVATION y (ci_fabric st3)
         else under_way (T + 1) (payload_bound D) T PACKET_LOGITS (logits_spec fo D y) (ci_fabric st3)" by blast
    have "run_tiles pf output_norm output_weight clk tile (shard # rest) st
        = run_tiles pf output_norm output_weight (clk + 2 * length (run_of shard)) (tile + 1) rest st3"
      using s1(1) s2(1) s3(1) by (simp add: Let_def flip: run_of_def)
    then show ?thesis unfolding Some r option.case prod.case using s3 ckept_trans [OF k2 s3(2)] ly by blast
  qed
qed

lemma run_tiles_spec:
  assumes "infer_rel fo D kvs st" "under_way (T + 1) (payload_bound D) tile PACKET_ACTIVATION x (ci_fabric st)"
    and "length x = tb_model_dim (dm_block D)" "tiles_ok T st" "tile + length shards = T" "shards \<noteq> []" "platform_ok fo pf"
    and "distinct (concat (map run_of shards))"
    and "\<forall>l \<in> set (concat (map run_of shards)). l < length (dm_layers D) \<and> length (kvs ! l) = in_position st"
    and "in_position st < dm_max D" "decode_views st = (ATT1_OK, e, output_norm, output_weight)"
  shows "case layers_spec fo D (in_position st) (concat (map run_of shards)) x kvs of
      None \<Rightarrow> \<exists>clk' st'. run_tiles pf output_norm output_weight clk tile shards st = Some (ATT1_ERR_STATE, clk', st')
    | Some (y, kvs') \<Rightarrow> \<exists>clk' st'. run_tiles pf output_norm output_weight clk tile shards st = Some (ATT1_OK, clk', st')
        \<and> ckept st st' \<and> infer_rel fo D kvs' st' \<and> under_way (T + 1) (payload_bound D) T PACKET_LOGITS (logits_spec fo D y) (ci_fabric st')"
  using assms
proof (induction shards arbitrary: st kvs x tile clk)
  case (Cons shard rest)
  have t: "tile < T" and d: "distinct (run_of shard)" "\<forall>l \<in> set (run_of shard). l < length (dm_layers D) \<and> length (kvs ! l) = in_position st"
    using Cons.prems(5,8,9) by auto
  note b = tile_body_spec [OF Cons.prems(1,2,3,4) t Cons.prems(7) d Cons.prems(10,11), of clk rest]
  show ?case
  proof (cases "layers_spec fo D (in_position st) (run_of shard) x kvs")
    case None
    then show ?thesis using b unfolding list.map concat.simps layers_spec_append None option.case by blast
  next
    case (Some r)
    obtain y kvs' where r: "r = (y, kvs')" by (cases r)
    obtain st' where s: "run_tiles pf output_norm output_weight clk tile (shard # rest) st
          = run_tiles pf output_norm output_weight (clk + 2 * length (run_of shard)) (tile + 1) rest st'"
        "ckept st st'" "infer_rel fo D kvs' st'" "length y = tb_model_dim (dm_block D)"
        "if tile + 1 < T then under_way (T + 1) (payload_bound D) (tile + 1) PACKET_ACTIVATION y (ci_fabric st')
         else under_way (T + 1) (payload_bound D) T PACKET_LOGITS (logits_spec fo D y) (ci_fabric st')"
      using b unfolding Some r option.case prod.case by blast
    have pos: "in_position st' = in_position st" using s(2) by (simp add: ckept_def)
    have app: "layers_spec fo D (in_position st) (concat (map run_of (shard # rest))) x kvs
        = layers_spec fo D (in_position st) (concat (map run_of rest)) y kvs'"
      by (simp only: list.map concat.simps layers_spec_append Some r option.case prod.case)
    show ?thesis
    proof (cases "rest = []")
      case True
      then show ?thesis unfolding s(1) app using s(2,3,5) Cons.prems(5) by simp
    next
      case False
      then have u: "under_way (T + 1) (payload_bound D) (tile + 1) PACKET_ACTIVATION y (ci_fabric st')"
        and tt: "tile + 1 + length rest = T" using s(5) Cons.prems(5) by (cases rest, simp_all)
      have kl: "length kvs = length (dm_layers D)" using Cons.prems(1) by (simp add: infer_rel_def)
      have dj: "set (run_of shard) \<inter> set (concat (map run_of rest)) = {}" using Cons.prems(8) by simp
      have "\<forall>l \<in> set (concat (map run_of rest)). l < length (dm_layers D) \<and> length (kvs' ! l) = in_position st'"
      proof
        fix l assume l: "l \<in> set (concat (map run_of rest))"
        then have o: "l < length (dm_layers D)" "length (kvs ! l) = in_position st" using Cons.prems(9) by auto
        have "l \<notin> set (run_of shard)" using l dj by blast
        moreover have "set (run_of shard) \<subseteq> {..<length kvs}" using d(2) kl by auto
        ultimately show "l < length (dm_layers D) \<and> length (kvs' ! l) = in_position st'"
          using layers_spec_lengths [OF Some [unfolded r] d(1), of l] o kl pos by simp
      qed
      note ih = Cons.IH [OF s(3) u s(4) _ tt False Cons.prems(7) _ this, of "clk + 2 * length (run_of shard)", unfolded pos]
      have "case layers_spec fo D (in_position st) (concat (map run_of rest)) y kvs' of
          None \<Rightarrow> \<exists>clk' st''. run_tiles pf output_norm output_weight (clk + 2 * length (run_of shard)) (tile + 1) rest st' = Some (ATT1_ERR_STATE, clk', st'')
        | Some (y, kvs') \<Rightarrow> \<exists>clk' st''. run_tiles pf output_norm output_weight (clk + 2 * length (run_of shard)) (tile + 1) rest st' = Some (ATT1_OK, clk', st'')
            \<and> ckept st' st'' \<and> infer_rel fo D kvs' st'' \<and> under_way (T + 1) (payload_bound D) T PACKET_LOGITS (logits_spec fo D y) (ci_fabric st'')"
        using Cons.prems(4,8,10,11) tiles_ok_kept [OF s(2)] views_kept [OF s(2)] by (intro ih) simp_all
      then show ?thesis unfolding s(1) app using ckept_trans [OF s(2)] by (auto split: option.splits prod.splits)
    qed
  qed
qed simp

section \<open>A whole token\<close>

definition cluster_state :: "float_ops \<Rightarrow> decoder_model \<Rightarrow> decoder_state \<Rightarrow> att1_cluster_infer \<Rightarrow> bool" where
  "cluster_state fo D s st \<longleftrightarrow> infer_state fo D s st \<and> cluster_plan_complete True st
     \<and> (let T = sp_tile_count (ci_shard_plan st) in
        tiles_ok T st \<and> length (the (sp_tiles (ci_shard_plan st))) = T \<and> fabric_idle (T + 1) (payload_bound D) (ci_fabric st))"

lemma plan_complete_kept:
  assumes "ckept st st'"
  shows "cluster_plan_complete alloc st' = cluster_plan_complete alloc st"
proof -
  have e: "ci_shard_plan st' = ci_shard_plan st" "in_model st' = in_model st" using assms by (simp_all add: ckept_def same_weights_def)
  show ?thesis unfolding cluster_plan_complete_def e by (rule refl)
qed

lemma receive_logits_spec:
  assumes R: "infer_rel fo D kvs st" and f: "under_way tiles b (unat (ci_host_tile_id st)) PACKET_LOGITS x (ci_fabric st)"
    and x: "length x = dm_vocab D"
  shows "\<exists>st'. receive_logits st = Some (ATT1_OK, st') \<and> ckept st st' \<and> infer_rel fo D kvs st' \<and> in_logits st' = x
    \<and> fabric_idle tiles b (ci_fabric st')"
proof -
  note d = rel_dims [OF R]
  obtain f' where r: "receive_payload (ci_host_tile_id st) PACKET_LOGITS (4 * dm_vocab D) (ci_fabric st) = (ATT1_OK, f', f32_bytes x)"
      "fabric_idle tiles b f'"
    using receive_under_way [OF f] x by auto
  define st' where "st' = st\<lparr>ci_fabric := f', in_logits := x, in_trace := att1_trace_record_fabric_receive (in_trace st) (word_of_nat (4 * dm_vocab D))\<rparr>"
  have "receive_logits st = Some (ATT1_OK, st')"
    using r(1) d(2,4) x by (simp add: receive_logits_def store_payload_same st'_def Let_def)
  moreover have "infer_rel fo D kvs st'"
    using d(4) x by (intro infer_rel_more [OF R]) (simp_all add: st'_def same_weights_def)
  ultimately show ?thesis using r(2) by (intro exI [of _ st']) (simp add: st'_def ckept_def same_weights_def)
qed

text \<open>The part of decoding up to the logits.\<close>

lemma cluster_run_spec:
  assumes S: "cluster_state fo D (p, kvs) st" and pf: "platform_ok fo pf" and g: "unat token < dm_vocab D" "p < dm_max D"
    and v: "decode_views st = (ATT1_OK, Some (dm_embedding D), Some (dm_output_norm D), ow)"
  defines "n \<equiv> tb_model_dim (dm_block D)" and "T \<equiv> sp_tile_count (ci_shard_plan st)"
  shows "\<exists>st1 st2. embed_token (Some (dm_embedding D)) token st = Some st1
    \<and> send_floats (ci_host_tile_id st1) 0 PACKET_ACTIVATION (in_hidden st1) n
        (\<lambda>t. att1_trace_record_activation_send t 0 (word_of_nat (4 * n))) st1 = Some (ATT1_OK, st2)
    \<and> ckept st st2
    \<and> (case layers_spec fo D p (tile_order (ci_shard_plan st)) (read_bytes (unat token * n) n (dm_embedding D)) kvs of
        None \<Rightarrow> \<exists>clk st'. run_tiles pf (Some (dm_output_norm D)) ow 1 0 (take T (the (sp_tiles (ci_shard_plan st)))) st2 = Some (ATT1_ERR_STATE, clk, st')
      | Some (y, kvs') \<Rightarrow> \<exists>clk st'. run_tiles pf (Some (dm_output_norm D)) ow 1 0 (take T (the (sp_tiles (ci_shard_plan st)))) st2 = Some (ATT1_OK, clk, st')
          \<and> ckept st st' \<and> infer_rel fo D kvs' st' \<and> under_way (T + 1) (payload_bound D) T PACKET_LOGITS (logits_spec fo D y) (ci_fabric st'))"
proof -
  have I: "infer_rel fo D kvs st" "in_position st = p" "\<forall>kv \<in> set kvs. length kv = p" using S by (simp_all add: cluster_state_def infer_state_def)
  have C: "cluster_plan_complete True st" "tiles_ok T st" "length (the (sp_tiles (ci_shard_plan st))) = T"
      "fabric_idle (T + 1) (payload_bound D) (ci_fabric st)"
    using S by (simp_all add: cluster_state_def T_def Let_def)
  note d = rel_dims [OF I(1)]
  note o = plan_complete_order [OF C(1) d(6)]
  define row where "row = read_bytes (unat token * n) n (dm_embedding D)"
  define st1 where "st1 = st\<lparr>in_hidden := row\<rparr>"
  note e = embed_token_spec [OF I(1) g(1), folded n_def, folded row_def, folded st1_def]
  have k1: "ckept st st1" "ci_fabric st1 = ci_fabric st" "in_hidden st1 = row" by (simp_all add: st1_def ckept_def same_weights_def)
  have R1: "infer_rel fo D kvs st1" using e(2) d(3) by (intro infer_rel_more [OF I(1)]) (simp_all add: st1_def same_weights_def n_def)
  have h: "unat (ci_host_tile_id st1) < T + 1" "unat (0 :: u32) < T + 1"
    using C(2) k1(1) u32_of_nat [of T] by (simp_all add: tiles_ok_def ckept_def)
  obtain st2 where s: "send_floats (ci_host_tile_id st1) 0 PACKET_ACTIVATION row (length row)
        (\<lambda>t. att1_trace_record_activation_send t 0 (word_of_nat (4 * n))) st1 = Some (ATT1_OK, st2)"
      "under_way (T + 1) (payload_bound D) 0 PACKET_ACTIVATION row (ci_fabric st2)" "st2\<lparr>ci_fabric := ci_fabric st1, in_trace := in_trace st1\<rparr> = st1"
    using send_floats_spec [OF C(4) [folded k1(2)] h, of row PACKET_ACTIVATION "\<lambda>t. att1_trace_record_activation_send t 0 (word_of_nat (4 * n))"]
      e(2) by (auto simp: n_def)
  note k2 = send_floats_keeps [OF s(3) R1]
  have k: "ckept st st2" by (rule ckept_trans [OF k1(1) k2(1)])
  have pos: "in_position st2 = p" using k I(2) by (simp add: ckept_def)
  have run: "take T (the (sp_tiles (ci_shard_plan st))) \<noteq> []" "0 + length (take T (the (sp_tiles (ci_shard_plan st)))) = T"
    using C(3) o(3) by (auto simp: T_def)
  have ord: "concat (map run_of (take T (the (sp_tiles (ci_shard_plan st))))) = tile_order (ci_shard_plan st)" by (simp add: tile_order_def T_def)
  have "\<forall>l \<in> set (tile_order (ci_shard_plan st)). l < length (dm_layers D) \<and> length (kvs ! l) = in_position st2"
    using o(2) I(3) d(7) d(6) by (auto simp: pos)
  note rt = run_tiles_spec [OF k2(2) s(2) _ _ run(2,1) pf, unfolded ord, OF _ _ o(1) this, of "Some (dm_embedding D)" "Some (dm_output_norm D)" ow 1, unfolded pos]
  have "case layers_spec fo D p (tile_order (ci_shard_plan st)) row kvs of
      None \<Rightarrow> \<exists>clk st'. run_tiles pf (Some (dm_output_norm D)) ow 1 0 (take T (the (sp_tiles (ci_shard_plan st)))) st2 = Some (ATT1_ERR_STATE, clk, st')
    | Some (y, kvs') \<Rightarrow> \<exists>clk st'. run_tiles pf (Some (dm_output_norm D)) ow 1 0 (take T (the (sp_tiles (ci_shard_plan st)))) st2 = Some (ATT1_OK, clk, st')
        \<and> ckept st2 st' \<and> infer_rel fo D kvs' st' \<and> under_way (T + 1) (payload_bound D) T PACKET_LOGITS (logits_spec fo D y) (ci_fabric st')"
    using e(2) C(2) g(2) v tiles_ok_kept [OF k] views_kept [OF k] by (intro rt) (simp_all add: n_def)
  then show ?thesis using e s(1) k k1(3) ckept_trans [OF k]
    by (intro exI [of _ st1] exI [of _ st2]) (auto simp: row_def [symmetric] split: option.splits prod.splits)
qed

lemma cluster_decode_spec:
  assumes S: "cluster_state fo D s st" and pf: "platform_ok fo pf"
  shows "case decode_spec fo D (tile_order (ci_shard_plan st)) s token of
      Inl e \<Rightarrow> e \<noteq> ATT1_OK \<and> (\<exists>st'. att1_cluster_infer_decode_token pf True (Some st) token True = Some (e, Some st', None))
    | Inr (s', tok) \<Rightarrow> \<exists>st'. att1_cluster_infer_decode_token pf True (Some st) token True = Some (ATT1_OK, Some st', Some tok)
        \<and> cluster_state fo D s' st' \<and> ci_shard_plan st' = ci_shard_plan st"
proof -
  obtain p kvs where s: "s = (p, kvs)" by (cases s)
  have R: "infer_rel fo D kvs st" and p: "in_position st = p" and len: "\<forall>kv \<in> set kvs. length kv = p"
    using S by (simp_all add: cluster_state_def infer_state_def s)
  let ?T = "sp_tile_count (ci_shard_plan st)" let ?n = "tb_model_dim (dm_block D)" let ?ord = "tile_order (ci_shard_plan st)"
  have C: "cluster_plan_complete True st" "tiles_ok ?T st" "length (the (sp_tiles (ci_shard_plan st))) = ?T"
    using S by (simp_all add: cluster_state_def Let_def)
  note d = rel_dims [OF R]
  note o = plan_complete_order [OF C(1) d(6)]
  have guard: "dm_vocab D \<le> unat token \<longleftrightarrow> mc_vocab_size (in_config st) \<le> token" by (simp add: d(2) [symmetric] word_le_nat_alt)
  show ?thesis
  proof (cases "dm_vocab D \<le> unat token \<or> dm_max D \<le> p")
    case True
    then show ?thesis using guard p d(8) by (auto simp: decode_spec_def s att1_cluster_infer_decode_token_def Let_def)
  next
    case False
    then have g: "\<not> (mc_vocab_size (in_config st) \<le> token \<or> unat (mc_max_seq_len (in_config st)) \<le> in_position st)"
      "unat token < dm_vocab D" "p < dm_max D" using guard p d(8) by auto
    define row where "row = read_bytes (unat token * ?n) ?n (dm_embedding D)"
    obtain ow where v: "decode_views st = (ATT1_OK, Some (dm_embedding D), Some (dm_output_norm D), ow)" using decode_views_rel [OF R] by blast
    obtain st1 st2 where r: "embed_token (Some (dm_embedding D)) token st = Some st1"
        "send_floats (ci_host_tile_id st1) 0 PACKET_ACTIVATION (in_hidden st1) ?n
          (\<lambda>t. att1_trace_record_activation_send t 0 (word_of_nat (4 * ?n))) st1 = Some (ATT1_OK, st2)"
        "ckept st st2"
      and rt: "case layers_spec fo D p ?ord row kvs of
        None \<Rightarrow> \<exists>clk st'. run_tiles pf (Some (dm_output_norm D)) ow 1 0 (take ?T (the (sp_tiles (ci_shard_plan st)))) st2 = Some (ATT1_ERR_STATE, clk, st')
      | Some (y, kvs') \<Rightarrow> \<exists>clk st'. run_tiles pf (Some (dm_output_norm D)) ow 1 0 (take ?T (the (sp_tiles (ci_shard_plan st)))) st2 = Some (ATT1_OK, clk, st')
          \<and> ckept st st' \<and> infer_rel fo D kvs' st' \<and> under_way (?T + 1) (payload_bound D) ?T PACKET_LOGITS (logits_spec fo D y) (ci_fabric st')"
      using cluster_run_spec [OF S [unfolded s] pf g(2,3) v] unfolding row_def by blast
    have plan: "ci_shard_plan st2 = ci_shard_plan st" using r(3) by (simp add: ckept_def)
    note unf = att1_cluster_infer_decode_token_def option.case Let_def v prod.case r(1,2) r(2) [simplified] d(1) g(1) plan
    note spec = decode_spec_def s Let_def row_def [symmetric]
    show ?thesis
    proof (cases "layers_spec fo D p ?ord row kvs")
      case None
      then show ?thesis using rt g(2,3) C(1) d(5) by (auto simp: spec unf)
    next
      case (Some xk)
      obtain y kvs' where xk: "xk = (y, kvs')" by (cases xk)
      obtain clk st3 where t: "run_tiles pf (Some (dm_output_norm D)) ow 1 0 (take ?T (the (sp_tiles (ci_shard_plan st)))) st2 = Some (ATT1_OK, clk, st3)"
          "ckept st st3" "infer_rel fo D kvs' st3" "under_way (?T + 1) (payload_bound D) ?T PACKET_LOGITS (logits_spec fo D y) (ci_fabric st3)"
        using rt unfolding Some xk option.case prod.case by blast
      have host: "unat (ci_host_tile_id st3) = ?T"
        using C(2) t(2) u32_of_nat [of ?T] by (simp add: tiles_ok_def ckept_def)
      obtain st4 where l: "receive_logits st3 = Some (ATT1_OK, st4)" "ckept st3 st4" "infer_rel fo D kvs' st4" "in_logits st4 = logits_spec fo D y"
          "fabric_idle (?T + 1) (payload_bound D) (ci_fabric st4)"
        using receive_logits_spec [OF t(3), of "?T + 1" "payload_bound D" "logits_spec fo D y"] t(4) unfolding host by auto
      have k4: "ckept st st4" by (rule ckept_trans [OF t(2) l(2)])
      have p4: "in_position st4 = p" using k4 p by (simp add: ckept_def)
      have lg: "buf_read (in_logits st4) 0 (unat (mc_vocab_size (in_config st))) = Some (logits_spec fo D y)"
        by (simp add: l(4) buf_read_all d(2))
      show ?thesis
      proof (cases "att1_sampler_greedy_f32 (Some (logits_spec fo D y)) True")
        case None
        then show ?thesis using g(2,3) C(1) d(5) t(1) l(1) lg Some xk by (simp add: spec unf)
      next
        case tok: (Some tok)
        define st5 where "st5 = st4\<lparr>in_trace := att1_trace_record_token (pf_realloc pf) (in_trace st4) (pf_clock pf clk - pf_clock pf 0),
          in_position := in_position st4 + 1\<rparr>"
        have "att1_cluster_infer_decode_token pf True (Some st) token True = Some (ATT1_OK, Some st5, Some tok)"
          using g(2,3) C(1) d(5) t(1) l(1) lg tok by (simp add: unf st5_def)
        moreover have "infer_state fo D (p + 1, kvs') st5"
          using Some len o(1,2) d(6,7) p4 by (intro next_state [OF l(3), of p ?ord row kvs y]) (simp_all add: xk st5_def same_weights_def)
        moreover have "ci_shard_plan st5 = ci_shard_plan st" using k4 by (simp add: ckept_def st5_def)
        moreover have "cluster_state fo D (p + 1, kvs') st5"
        proof -
          have e: "ci_shard_plan st5 = ci_shard_plan st" "in_model st5 = in_model st" "ci_host_tile_id st5 = ci_host_tile_id st" "ci_fabric st5 = ci_fabric st4"
            using k4 by (simp_all add: ckept_def same_weights_def st5_def)
          show ?thesis
            using \<open>infer_state fo D (p + 1, kvs') st5\<close> C l(5)
            unfolding cluster_state_def cluster_plan_complete_def tiles_ok_def e by (simp add: Let_def)
        qed
        ultimately show ?thesis using g(2,3) Some tok xk by (simp add: spec)
      qed
    qed
  qed
qed

end
