(* ===== verification/Infer_Create.thy ===== *)
theory Infer_Create
  imports Infer_Props Model_View_Props
begin

text \<open>
  Creation establishes the representation: a context created from a loaded model stands for the decoder whose matrices are the
  tensors of the file, with empty caches at position 0. For float models and, from the four-bit validator alone, for
  four-bit models.
\<close>

section \<open>Views hold their elements\<close>

lemma f32s_behind_holds:
  assumes "model_wf m" "unat p + 4 * k \<le> unat (md_file_size m)"
  shows "f32_holds k (f32s_behind m (Some p))"
proof -
  obtain data where d: "md_file_data m = Some data" "length data = unat (md_file_size m)" using assms(1) by (auto simp: model_wf_def)
  then show ?thesis using assms(2) by (simp add: f32_holds_def f32s_behind_def bytes_behind_def f32s_of_def)
qed

lemma view_f32_holds:
  assumes "model_wf m" "att1_model_view_tensor_f32 (Some m) (Some name) nd d0 d1 (Some None) = (ATT1_OK, Some out)"
  shows "f32_holds (unat d0 * (if nd = 1 then 1 else unat d1)) (f32s_behind m out)"
  using view_f32_bounds [OF assms] f32s_behind_holds [OF assms(1)] by blast

lemma layer_view_holds:
  assumes "model_wf m" "layer_view m layer suffix nd d0 d1 = Some out"
  shows "f32_holds (unat d0 * (if nd = 1 then 1 else unat d1)) (f32s_behind m out)"
proof -
  obtain name where "att1_model_view_tensor_f32 (Some m) (Some name) nd d0 d1 (Some None) = (ATT1_OK, Some out)"
    using assms(2) by (auto simp: layer_view_def split: option.splits prod.splits if_splits)
  then show ?thesis by (rule view_f32_holds [OF assms(1)])
qed

lemma unat_ucast_u64 [simp]: "unat (ucast (x :: u32) :: u64) = unat x"
  by (simp add: unsigned_ucast_eq take_bit_nat_eq_self order.strict_trans [OF unsigned_less])

lemma layer_weights_hold:
  assumes "model_wf m" "att1_model_view_load_layer_weights (Some m) layer (Some w0) = (ATT1_OK, Some w)"
  shows "f32_weights_ok (infer_block_config (md_config m)) (weights_of_view m w)"
  using assms(2) layer_view_holds [OF assms(1)]
  unfolding load_layer_weights_iff Let_def
  by (fastforce simp: f32_weights_ok_def infer_block_config_def weights_of_view_def Let_def)

section \<open>The configuration\<close>

lemma config_dims:
  assumes "\<not> decoder_config_bad c"
  shows "0 < mc_d_model c" "0 < mc_n_heads c" "0 < mc_d_ff c" "0 < mc_vocab_size c" "0 < mc_max_seq_len c" "0 < mc_n_layers c"
    "unat (mc_n_heads c) dvd unat (mc_d_model c)" "even (unat (mc_d_model c) div unat (mc_n_heads c))"
proof -
  note bad = assms [unfolded decoder_config_bad_def Let_def de_Morgan_disj not_not]
  then have g: "mc_d_model c \<noteq> 0" "mc_n_heads c \<noteq> 0" "mc_d_ff c \<noteq> 0" "mc_vocab_size c \<noteq> 0" "mc_max_seq_len c \<noteq> 0" "mc_n_layers c \<noteq> 0"
    and h: "mc_d_model c mod mc_n_heads c = 0" by blast+
  have i: "mc_d_model c div mc_n_heads c mod 2 = 0" using bad unfolding if_P [OF g(2)] by blast
  show "0 < mc_d_model c" "0 < mc_n_heads c" "0 < mc_d_ff c" "0 < mc_vocab_size c" "0 < mc_max_seq_len c" "0 < mc_n_layers c"
    using g by (simp_all add: word_neq_0_conv)
  have "unat (mc_d_model c mod mc_n_heads c) = 0" "unat (mc_d_model c div mc_n_heads c mod 2) = 0" using h i by simp_all
  then show "unat (mc_n_heads c) dvd unat (mc_d_model c)" "even (unat (mc_d_model c) div unat (mc_n_heads c))"
    unfolding unat_mod_distrib unat_div_distrib dvd_eq_mod_eq_0 by simp_all
qed

section \<open>Float models\<close>

text \<open>The decoder in the tensors of a file.\<close>

definition model_layer :: "att1_model \<Rightarrow> nat \<Rightarrow> layer_mats" where
  "model_layer m l = mats_f32 (weights_of_view m
     (the (snd (att1_model_view_load_layer_weights (Some m) (word_of_nat l) (Some zero_block_weights)))))"

definition model_decoder :: "att1_model \<Rightarrow> decoder_model" where
  "model_decoder m = \<lparr>dm_block = infer_block_config (md_config m), dm_layers = map (model_layer m) [0..<unat (mc_n_layers (md_config m))],
     dm_embedding = the (f32s_behind m (the (snd (att1_model_view_token_embedding (Some m) (Some None))))),
     dm_output_norm = the (f32s_behind m (the (snd (att1_model_view_output_norm (Some m) (Some None))))),
     dm_output = the (f32s_behind m (the (snd (att1_model_view_output_weight (Some m) (Some None))))),
     dm_vocab = unat (mc_vocab_size (md_config m)), dm_max = unat (mc_max_seq_len (md_config m))\<rparr>"

text \<open>A loaded model that passes validation, whose output matrix and layers are float tensors of their shapes.\<close>

definition f32_model :: "att1_model \<Rightarrow> bool" where
  "f32_model m \<longleftrightarrow> model_wf m \<and> att1_model_view_validate_decoder (Some m) = ATT1_OK
     \<and> fst (att1_model_view_output_weight (Some m) (Some None)) = ATT1_OK
     \<and> (\<forall>l < unat (mc_n_layers (md_config m)).
          fst (att1_model_view_load_layer_weights (Some m) (word_of_nat l) (Some zero_block_weights)) = ATT1_OK)"

lemma f32_model_views:
  assumes "f32_model m"
  obtains e n w where "att1_model_view_token_embedding (Some m) (Some None) = (ATT1_OK, Some e)"
    "att1_model_view_output_norm (Some m) (Some None) = (ATT1_OK, Some n)"
    "att1_model_view_output_weight (Some m) (Some None) = (ATT1_OK, Some w)" "\<not> decoder_config_bad (md_config m)" "model_wf m"
proof -
  have some: "\<exists>x. R = (ATT1_OK, Some x)" if "fst R = ATT1_OK" "snd R \<noteq> None" for R :: "att1_status \<times> u64 option option"
    using that by (cases R) auto
  have v: "fst (att1_model_view_token_embedding (Some m) (Some None)) = ATT1_OK" "fst (att1_model_view_output_norm (Some m) (Some None)) = ATT1_OK"
      "fst (att1_model_view_output_weight (Some m) (Some None)) = ATT1_OK" "\<not> decoder_config_bad (md_config m)" "model_wf m"
    using assms by (auto simp: f32_model_def att1_model_view_validate_decoder_def Let_def split: if_splits)
  have nn: "snd (att1_model_view_tensor_f32 (Some m) (Some name) nd d0 d1 (Some None)) \<noteq> None" for name nd d0 d1
    by (simp add: att1_model_view_tensor_f32_def split: option.splits)
  obtain e where e: "att1_model_view_token_embedding (Some m) (Some None) = (ATT1_OK, Some e)"
    using some [OF v(1)] nn by (auto simp: att1_model_view_token_embedding_def)
  obtain n where n: "att1_model_view_output_norm (Some m) (Some None) = (ATT1_OK, Some n)"
    using some [OF v(2)] nn by (auto simp: att1_model_view_output_norm_def)
  obtain w where w: "att1_model_view_output_weight (Some m) (Some None) = (ATT1_OK, Some w)"
    using some [OF v(3)] nn by (auto simp: att1_model_view_output_weight_def)
  show thesis by (rule that [OF e n w v(4,5)])
qed

text \<open>Empty caches.\<close>

lemma init_caches_empty:
  "init_caches alloc n mp nh dim = Some cs \<Longrightarrow> length cs = n
     \<and> (\<forall>c \<in> set cs. cache_inv c \<and> cache_content c = [] \<and> cc_max_positions c = mp \<and> cc_num_heads c = nh \<and> cc_head_dim c = dim)"
proof (induction n arbitrary: alloc cs)
  case (Suc n)
  then obtain c cs' where c: "att1_kv_cache_init alloc (Some zero_cache) mp nh dim = (ATT1_OK, Some c)"
      "init_caches (\<lambda>i. alloc (i + 2)) n mp nh dim = Some cs'" "cs = c # cs'"
    by (auto simp: att1_kv_cache_init_def split: prod.splits if_splits option.splits)
  show ?case using Suc.IH [OF c(2)] cache_init_inv [OF c(1)] by (simp add: c(3))
qed simp

lemma infer_caches_repr:
  assumes "infer_caches alloc (md_config m) = Some cs" "dims_ok (md_config m) D"
  shows "list_all2 (cache_repr D) (replicate (length (dm_layers D)) []) cs"
  using init_caches_empty [OF assms(1) [unfolded infer_caches_def]] assms(2)
  by (auto simp: list_all2_conv_all_nth cache_repr_def dims_ok_def infer_block_config_def)

lemma new_infer_state:
  assumes "infer_caches alloc (md_config m) = Some cs" "weights_repr fo D st" "in_layer_kv st = cs" "in_model st = m"
    and "length (in_hidden st) = unat (mc_d_model (md_config m))" "length (in_next_hidden st) = unat (mc_d_model (md_config m))"
    and "length (in_norm st) = unat (mc_d_model (md_config m))" "length (in_logits st) = unat (mc_vocab_size (md_config m))"
    and "in_position st = 0"
  shows "infer_state fo D (0, replicate (length (dm_layers D)) []) st"
proof -
  have d: "dims_ok (md_config m) D" using assms(2,4) by (simp add: weights_repr_def)
  then have "tb_model_dim (dm_block D) = unat (mc_d_model (md_config m))" "dm_vocab D = unat (mc_vocab_size (md_config m))"
    by (simp_all add: dims_ok_def infer_block_config_def)
  then show ?thesis using assms infer_caches_repr [OF assms(1) d] by (simp add: infer_state_def infer_rel_def)
qed

text \<open>The weights of a float model, in any context over it with a float back end.\<close>

lemma f32_model_repr:
  assumes "f32_model m" "in_model st = m" "in_backend st = \<lparr>be_ops = Some (cpu_f32_ops fo)\<rparr>"
  shows "weights_repr fo (model_decoder m) st"
proof -
  obtain e n w where v: "att1_model_view_token_embedding (Some m) (Some None) = (ATT1_OK, Some e)"
    "att1_model_view_output_norm (Some m) (Some None) = (ATT1_OK, Some n)"
    "att1_model_view_output_weight (Some m) (Some None) = (ATT1_OK, Some w)" "\<not> decoder_config_bad (md_config m)" "model_wf m"
    using f32_model_views [OF assms(1)] by blast
  let ?c = "md_config m" let ?D = "model_decoder m"
  obtain xs where e: "f32s_behind m e = Some xs" "unat (mc_vocab_size ?c) * unat (mc_d_model ?c) \<le> length xs"
    using view_f32_holds [OF v(5) v(1) [unfolded att1_model_view_token_embedding_def option.case]] by (auto simp: f32_holds_def)
  obtain ys where n: "f32s_behind m n = Some ys" "unat (mc_d_model ?c) \<le> length ys"
    using view_f32_holds [OF v(5) v(2) [unfolded att1_model_view_output_norm_def option.case]] by (auto simp: f32_holds_def)
  obtain zs where w: "f32s_behind m w = Some zs" "unat (mc_d_model ?c) * unat (mc_vocab_size ?c) \<le> length zs"
    using view_f32_holds [OF v(5) v(3) [unfolded att1_model_view_output_weight_def option.case]] by (auto simp: f32_holds_def)
  have D: "dm_embedding ?D = xs" "dm_output_norm ?D = ys" "dm_output ?D = zs" "dm_block ?D = infer_block_config ?c"
    "dm_vocab ?D = unat (mc_vocab_size ?c)" "length (dm_layers ?D) = unat (mc_n_layers ?c)"
    by (simp_all add: model_decoder_def v(1-3) e(1) n(1) w(1))
  have "dims_ok (in_config st) ?D"
    using config_dims [OF v(4)] e(2) n(2) by (simp add: dims_ok_def D assms(2)) (simp add: model_decoder_def infer_block_config_def)
  moreover have "f32_repr fo ?D st"
  proof -
    have "decode_views st = (ATT1_OK, Some xs, Some ys, Some zs)"
      by (simp add: decode_views_def assms(2,3) v(1-3) e(1) n(1) w(1) Let_def)
    moreover have "\<exists>w. att1_model_view_load_layer_weights (Some m) (word_of_nat l) (Some zero_block_weights) = (ATT1_OK, Some w)
        \<and> f32_weights_ok (infer_block_config ?c) (weights_of_view m w) \<and> mats_f32 (weights_of_view m w) = dm_layers ?D ! l"
      if l: "l < unat (mc_n_layers ?c)" for l
    proof -
      have "fst (att1_model_view_load_layer_weights (Some m) (word_of_nat l) (Some zero_block_weights)) = ATT1_OK"
        using assms(1) l by (simp add: f32_model_def)
      moreover have "snd (att1_model_view_load_layer_weights (Some m) (word_of_nat l) (Some zero_block_weights)) \<noteq> None"
        by (simp add: att1_model_view_load_layer_weights_def Let_def)
      ultimately obtain w where ld: "att1_model_view_load_layer_weights (Some m) (word_of_nat l) (Some zero_block_weights) = (ATT1_OK, Some w)"
        by (metis option.exhaust prod.exhaust_sel)
      have "dm_layers ?D ! l = mats_f32 (weights_of_view m w)" using l ld by (simp add: model_decoder_def model_layer_def)
      then show ?thesis using ld layer_weights_hold [OF v(5) ld] by simp
    qed
    moreover have "unat (mc_d_model ?c) * dm_vocab ?D \<le> length zs" using w(2) by (simp add: D)
    ultimately show ?thesis unfolding f32_repr_def D by (simp add: assms(2,3) infer_block_config_def)
  qed
  ultimately show ?thesis by (simp add: weights_repr_def)
qed

lemma infer_create_state:
  assumes "f32_model m" "att1_infer_create fo alloc (Some m) True = (ATT1_OK, Some st)"
  shows "infer_state fo (model_decoder m) (0, replicate (unat (mc_n_layers (md_config m))) []) st"
proof -
  obtain cs where c: "infer_caches (\<lambda>i. alloc (7 + i)) (md_config m) = Some cs" "st = new_infer m cs \<lparr>be_ops = Some (cpu_f32_ops fo)\<rparr>"
    using assms(2) by (auto simp: att1_infer_create_def att1_backend_default_create_def att1_backend_cpu_f32_create_def Let_def
        split: if_splits option.splits)
  have "weights_repr fo (model_decoder m) st" by (rule f32_model_repr [OF assms(1)]) (simp_all add: c(2) new_infer_def Let_def)
  from new_infer_state [OF c(1) this] show ?thesis by (simp add: c(2) new_infer_def Let_def) (simp add: model_decoder_def)
qed

section \<open>Four-bit models\<close>

lemma view_q4_holds:
  assumes "model_wf m" "att1_model_view_tensor_q4 (Some m) (Some name) rows cols (Some q0) = (ATT1_OK, Some v)"
  shows "q4_holds (unat rows) (unat cols) (Some (q4_of_view m v))"
proof -
  have nz: "rows \<noteq> 0" "cols \<noteq> 0" and dims: "q4_rows v = rows" "q4_cols v = cols"
    using assms(2) by (auto simp: att1_model_view_tensor_q4_def Let_def split: if_splits option.splits)
  obtain p s where b: "q4_packed v = Some p" "q4_scales v = Some s" "unat s = unat p + unat rows * (unat cols div 2)"
      "unat s + 4 * (unat rows * (unat cols div unat (q4_group_size v))) \<le> unat (md_file_size m)"
      "unat (q4_group_size v) dvd unat cols" "q4_group_size v \<in> {16, 32, 64, 128}"
    using view_q4_bounds [OF assms] by blast
  obtain data where d: "md_file_data m = Some data" "length data = unat (md_file_size m)" using assms(1) by (auto simp: model_wf_def)
  have "q4_ok (q4_of_view m v)"
    using nz b d by (auto simp: q4_ok_def q4_of_view_def dims unat_gt_0 bytes_behind_def f32s_behind_def f32s_of_def q4_group_size_valid_def q4_codes)
  then show ?thesis by (simp add: q4_holds_def q4_of_view_def dims)
qed

text \<open>The view of a four-bit tensor of a layer.\<close>

definition layer_q4_view :: "att1_model \<Rightarrow> u32 \<Rightarrow> string \<Rightarrow> u64 \<Rightarrow> u64 \<Rightarrow> att1_q4_matrix option" where
  "layer_q4_view m layer suffix rows cols =
     (case layer_name MODEL_NAME_SIZE layer suffix of
        None \<Rightarrow> None
      | Some name \<Rightarrow>
        (let (st, out) = att1_model_view_tensor_q4 (Some m) (Some name) rows cols (Some zero_q4_matrix)
         in if st = ATT1_OK then out else None))"

lemma LOAD_Q4_LAYER_OK:
  "LOAD_Q4_LAYER m layer upd suffix rows cols acc = (ATT1_OK, w') \<longleftrightarrow>
     (\<exists>w v. acc = (ATT1_OK, w) \<and> layer_q4_view m layer suffix rows cols = Some v \<and> w' = upd (q4_of_view m v) w)"
  by (cases acc) (auto simp: LOAD_Q4_LAYER_def layer_q4_view_def att1_model_view_tensor_q4_def Let_def split: option.splits if_splits)

lemma LOAD_F32_OK:
  "LOAD_F32 m layer upd suffix nd d0 d1 acc = (ATT1_OK, w') \<longleftrightarrow>
     (\<exists>w out. acc = (ATT1_OK, w) \<and> layer_view m layer suffix nd d0 d1 = Some out \<and> w' = upd (f32s_behind m out) w)"
  by (cases acc)
    (auto simp: LOAD_F32_def infer_layer_q8_name_def layer_view_def att1_model_view_tensor_f32_def Let_def split: option.splits if_splits)

lemma layer_q4_view_holds:
  "model_wf m \<Longrightarrow> layer_q4_view m layer suffix rows cols = Some v \<Longrightarrow> q4_holds (unat rows) (unat cols) (Some (q4_of_view m v))"
  by (auto simp: layer_q4_view_def intro: view_q4_holds split: option.splits prod.splits if_splits)

lemma load_q4_layer_holds:
  assumes "model_wf m" "load_q4_layer m layer = (ATT1_OK, q)"
  shows "q4_weights_ok (infer_block_config (md_config m)) (q4_block_weights q)"
  using assms(2) layer_view_holds [OF assms(1)] layer_q4_view_holds [OF assms(1)]
  unfolding load_q4_layer_def Let_def LOAD_Q4_LAYER_OK LOAD_F32_OK
  by (fastforce simp: q4_weights_ok_def infer_block_config_def q4_block_weights_def zero_q4_layer_def Let_def)

lemma load_layers_OK:
  "load_layers load ls acc = (ATT1_OK, res) \<longleftrightarrow>
     (\<forall>l \<in> set ls. fst (load (word_of_nat l)) = ATT1_OK) \<and> res = acc @ map (\<lambda>l. snd (load (word_of_nat l))) ls"
  by (induction ls arbitrary: acc) (auto split: prod.splits)

text \<open>The decoder in the tensors of a four-bit file.\<close>

definition q4_decoder :: "float_ops \<Rightarrow> att1_model \<Rightarrow> decoder_model" where
  "q4_decoder fo m = \<lparr>dm_block = infer_block_config (md_config m),
     dm_layers = map (\<lambda>l. mats_q4 fo (q4_block_weights (snd (load_q4_layer m (word_of_nat l))))) [0..<unat (mc_n_layers (md_config m))],
     dm_embedding = the (f32s_behind m (the (snd (att1_model_view_token_embedding (Some m) (Some None))))),
     dm_output_norm = the (f32s_behind m (the (snd (att1_model_view_output_norm (Some m) (Some None))))),
     dm_output = q4_dequant fo (q4_of_view m (the (snd (att1_model_view_tensor_q4 (Some m) (Some (str_bytes ''output.weight''))
        (ucast (mc_vocab_size (md_config m))) (ucast (mc_d_model (md_config m))) (Some zero_q4_matrix))))),
     dm_vocab = unat (mc_vocab_size (md_config m)), dm_max = unat (mc_max_seq_len (md_config m))\<rparr>"

text \<open>What the preparation of the weights leaves, in any context over the model with a four-bit back end.\<close>

lemma prepare_q4_repr:
  assumes "model_wf m" "att1_model_view_validate_decoder_q4 (Some m) = ATT1_OK" "in_model st = m"
    and "in_backend st = \<lparr>be_ops = Some (cpu_q4_ops fo)\<rparr>" "\<not> in_q4_ready st" "infer_prepare_q4 alloc st = (ATT1_OK, st')"
  shows "weights_repr fo (q4_decoder fo m) st'" and "st' = st\<lparr>in_q4_layers := in_q4_layers st', in_q4_output_norm := in_q4_output_norm st',
    in_q4_output_weight := in_q4_output_weight st', in_q4_ready := True\<rparr>"
proof -
  let ?c = "md_config m" let ?D = "q4_decoder fo m"
  have val: "\<not> decoder_config_bad ?c" "fst (att1_model_view_token_embedding (Some m) (Some None)) = ATT1_OK"
      "fst (att1_model_view_output_norm (Some m) (Some None)) = ATT1_OK"
    using assms(2) by (auto simp: att1_model_view_validate_decoder_q4_def Let_def split: if_splits)
  have nn: "snd (att1_model_view_tensor_f32 (Some m) (Some name) nd d0 d1 (Some None)) \<noteq> None" for name nd d0 d1
    by (simp add: att1_model_view_tensor_f32_def split: option.splits)
  have some: "\<exists>x. R = (ATT1_OK, Some x)" if "fst R = ATT1_OK" "snd R \<noteq> None" for R :: "att1_status \<times> 'b option"
    using that by (cases R) auto
  obtain e where e: "att1_model_view_token_embedding (Some m) (Some None) = (ATT1_OK, Some e)"
    using some [OF val(2)] nn by (auto simp: att1_model_view_token_embedding_def)
  obtain n where n: "att1_model_view_output_norm (Some m) (Some None) = (ATT1_OK, Some n)"
    using some [OF val(3)] nn by (auto simp: att1_model_view_output_norm_def)
  obtain xs where xs: "f32s_behind m e = Some xs" "unat (mc_vocab_size ?c) * unat (mc_d_model ?c) \<le> length xs"
    using view_f32_holds [OF assms(1) e [unfolded att1_model_view_token_embedding_def option.case]] by (auto simp: f32_holds_def)
  obtain ys where ys: "f32s_behind m n = Some ys" "unat (mc_d_model ?c) \<le> length ys"
    using view_f32_holds [OF assms(1) n [unfolded att1_model_view_output_norm_def option.case]] by (auto simp: f32_holds_def)
  let ?w = "att1_model_view_tensor_q4 (Some m) (Some (str_bytes ''output.weight'')) (ucast (mc_vocab_size ?c)) (ucast (mc_d_model ?c)) (Some zero_q4_matrix)"
  have rel: "in_model (infer_release_q4 st) = m" by (simp add: infer_release_q4_def assms(3))
  obtain layers v where l: "load_layers (load_q4_layer m) [0..<unat (mc_n_layers ?c)] [] = (ATT1_OK, layers)" and w: "?w = (ATT1_OK, v)"
      and st': "st' = (infer_release_q4 st)\<lparr>in_q4_layers := Some layers, in_q4_output_norm := Some ys,
        in_q4_output_weight := q4_of_view m (the v), in_q4_ready := True\<rparr>"
    using assms(5,6) by (auto simp: infer_prepare_q4_def Let_def rel n ys(1) split: if_splits prod.splits)
  have "snd ?w \<noteq> None" by (simp add: att1_model_view_tensor_q4_def Let_def split: option.splits)
  then obtain q where q: "?w = (ATT1_OK, Some q)" "v = Some q" using w by auto
  note qh = view_q4_holds [OF assms(1) q(1)]
  have layers: "\<forall>l < unat (mc_n_layers ?c). fst (load_q4_layer m (word_of_nat l)) = ATT1_OK"
      "layers = map (\<lambda>l. snd (load_q4_layer m (word_of_nat l))) [0..<unat (mc_n_layers ?c)]"
    using l by (auto simp: load_layers_OK)
  show "st' = st\<lparr>in_q4_layers := in_q4_layers st', in_q4_output_norm := in_q4_output_norm st',
    in_q4_output_weight := in_q4_output_weight st', in_q4_ready := True\<rparr>" by (simp add: st' infer_release_q4_def)
  have f: "in_model st' = m" "in_backend st' = \<lparr>be_ops = Some (cpu_q4_ops fo)\<rparr>" "in_q4_ready st'" "in_q4_output_norm st' = Some ys"
      "in_q4_layers st' = Some layers" "in_q4_output_weight st' = q4_of_view m q"
    by (simp_all add: st' infer_release_q4_def assms(3,4) q(2))
  have D: "dm_embedding ?D = xs" "dm_output_norm ?D = ys" "dm_output ?D = q4_dequant fo (q4_of_view m q)" "dm_block ?D = infer_block_config ?c"
    "dm_vocab ?D = unat (mc_vocab_size ?c)" "length (dm_layers ?D) = unat (mc_n_layers ?c)"
    by (simp_all add: q4_decoder_def e n xs(1) ys(1) q(1))
  have "dims_ok (in_config st') ?D"
    using config_dims [OF val(1)] xs(2) ys(2) by (simp add: dims_ok_def D f(1)) (simp add: q4_decoder_def infer_block_config_def)
  moreover have "q4_repr fo ?D st'"
  proof -
    have sup: "infer_backend_supports_q4 (Some \<lparr>be_ops = Some (cpu_q4_ops fo)\<rparr>)"
      by (simp add: infer_backend_supports_q4_def infer_backend_is_q4_def cpu_q4_ops_def)
    have "decode_views st' = (ATT1_OK, Some xs, Some ys, None)"
      by (simp add: decode_views_def f e n xs(1) sup Let_def)
    moreover have "q4_weights_ok (infer_block_config ?c) (q4_block_weights (layers ! l)) \<and> mats_q4 fo (q4_block_weights (layers ! l)) = dm_layers ?D ! l"
      if l: "l < unat (mc_n_layers ?c)" for l
    proof -
      have "load_q4_layer m (word_of_nat l) = (ATT1_OK, layers ! l)" using layers l by (simp add: prod_eq_iff)
      from load_q4_layer_holds [OF assms(1) this] show ?thesis using l layers(2) by (simp add: q4_decoder_def)
    qed
    moreover have "q4_holds (dm_vocab ?D) (tb_model_dim (dm_block ?D)) (Some (q4_of_view m q))" using qh by (simp add: D infer_block_config_def)
    ultimately show ?thesis unfolding q4_repr_def by (simp add: f D)
  qed
  ultimately show "weights_repr fo ?D st'" by (simp add: weights_repr_def)
qed

lemma infer_create_q4_state:
  assumes "model_wf m" "att1_infer_create_q4 fo alloc (Some m) True = (ATT1_OK, Some st)"
  shows "infer_state fo (q4_decoder fo m) (0, replicate (unat (mc_n_layers (md_config m))) []) st"
proof -
  obtain cs where c: "att1_model_view_validate_decoder_q4 (Some m) = ATT1_OK" "infer_caches (\<lambda>i. alloc (7 + i)) (md_config m) = Some cs"
      "infer_prepare_q4 (\<lambda>i. alloc (7 + 2 * length cs + i)) (new_infer m cs \<lparr>be_ops = Some (cpu_q4_ops fo)\<rparr>) = (ATT1_OK, st)"
    using assms(2) by (auto simp: att1_infer_create_q4_def att1_backend_cpu_q4_create_def Let_def split: if_splits option.splits prod.splits)
  let ?st0 = "new_infer m cs \<lparr>be_ops = Some (cpu_q4_ops fo)\<rparr>"
  have f0: "in_model ?st0 = m" "in_backend ?st0 = \<lparr>be_ops = Some (cpu_q4_ops fo)\<rparr>" "\<not> in_q4_ready ?st0"
    by (simp_all add: new_infer_def Let_def)
  note p = prepare_q4_repr [OF assms(1) c(1) f0 c(3)]
  have D: "length (dm_layers (q4_decoder fo m)) = unat (mc_n_layers (md_config m))" by (simp add: q4_decoder_def)
  have "in_layer_kv st = cs" "in_model st = m" "length (in_hidden st) = unat (mc_d_model (md_config m))"
    "length (in_next_hidden st) = unat (mc_d_model (md_config m))" "length (in_norm st) = unat (mc_d_model (md_config m))"
    "length (in_logits st) = unat (mc_vocab_size (md_config m))" "in_position st = 0"
    by (subst p(2), simp add: new_infer_def Let_def)+
  from new_infer_state [OF c(2) p(1) this] show ?thesis by (simp add: D)
qed

end
