(* ===== verification/Cluster_Equiv.thy ===== *)
theory Cluster_Equiv
  imports Cluster_Props Infer_Create Shard_Plan_Props
begin

text \<open>
  Generation: single-context and cluster inference as interpretations of the contract of a decoder, and their agreement.
\<close>

section \<open>The two decoders\<close>

definition single_rel :: "float_ops \<Rightarrow> (nat \<Rightarrow> platform) \<Rightarrow> decoder_model \<Rightarrow> decoder_state \<Rightarrow> att1_infer option \<Rightarrow> bool" where
  "single_rel fo pfs D s inferp \<longleftrightarrow> (\<forall>k. platform_ok fo (pfs k)) \<and> (\<exists>st. inferp = Some st \<and> infer_state fo D s st)"

definition cluster_rel ::
  "float_ops \<Rightarrow> (nat \<Rightarrow> platform) \<Rightarrow> (nat \<Rightarrow> bool) \<Rightarrow> decoder_model \<Rightarrow> nat list \<Rightarrow> decoder_state \<Rightarrow> att1_cluster_infer option \<Rightarrow> bool" where
  "cluster_rel fo pfs allocs D order s inferp \<longleftrightarrow> (\<forall>k. platform_ok fo (pfs k) \<and> allocs k)
     \<and> (\<exists>st. inferp = Some st \<and> cluster_state fo D s st \<and> tile_order (ci_shard_plan st) = order)"

interpretation single: token_decoder "\<lambda>k inferp token. att1_infer_decode_token (pfs k) inferp token True"
  "decode_spec fo D (all_layers D)" "single_rel fo pfs D" for pfs fo D
proof
  fix s inferp token k
  assume "single_rel fo pfs D s inferp"
  then obtain st where st: "inferp = Some st" "infer_state fo D s st" and pf: "\<forall>k. platform_ok fo (pfs k)"
    unfolding single_rel_def by blast
  note d = infer_decode_spec [OF st(2) spec [OF pf, of k], where token = token]
  show "case decode_spec fo D (all_layers D) s token of
      Inl e \<Rightarrow> e \<noteq> ATT1_OK \<and> (\<exists>st'. att1_infer_decode_token (pfs k) inferp token True = Some (e, st', None))
    | Inr (s', t) \<Rightarrow> \<exists>st'. att1_infer_decode_token (pfs k) inferp token True = Some (ATT1_OK, st', Some t) \<and> single_rel fo pfs D s' st'"
    using d pf by (auto simp: st(1) single_rel_def split: sum.splits prod.splits)
qed

interpretation cluster: token_decoder "\<lambda>k inferp token. att1_cluster_infer_decode_token (pfs k) (allocs k) inferp token True"
  "decode_spec fo D order" "cluster_rel fo pfs allocs D order" for pfs allocs fo D order
proof
  fix s inferp token k
  assume "cluster_rel fo pfs allocs D order s inferp"
  then obtain st where st: "inferp = Some st" "cluster_state fo D s st" "tile_order (ci_shard_plan st) = order"
    and pf: "\<forall>k. platform_ok fo (pfs k) \<and> allocs k"
    unfolding cluster_rel_def by blast
  have a: "allocs k" "platform_ok fo (pfs k)" using pf by simp_all
  note d = cluster_decode_spec [OF st(2) a(2), where token = token, unfolded st(3)]
  show "case decode_spec fo D order s token of
      Inl e \<Rightarrow> e \<noteq> ATT1_OK \<and> (\<exists>st'. att1_cluster_infer_decode_token (pfs k) (allocs k) inferp token True = Some (e, st', None))
    | Inr (s', t) \<Rightarrow> \<exists>st'. att1_cluster_infer_decode_token (pfs k) (allocs k) inferp token True = Some (ATT1_OK, st', Some t)
        \<and> cluster_rel fo pfs allocs D order s' st'"
    using d pf a(1) st(3) by (auto simp: st(1) cluster_rel_def split: sum.splits prod.splits)
qed

section \<open>Generation\<close>

lemma single_generates:
  assumes "infer_state fo D s st" "\<forall>k. platform_ok fo (pfs k)" "prompt \<noteq> []" "n \<le> room"
  shows "\<exists>st'. att1_infer_generate pfs (Some st) (Some prompt) n True room True
    = Some (fst (generate_spec (decode_spec fo D (all_layers D)) prompt n s), st', snd (generate_spec (decode_spec fo D (all_layers D)) prompt n s))"
proof -
  have "single_rel fo pfs D s (Some st)" using assms(1,2) by (simp add: single_rel_def)
  from single.generate_refines [OF this, where prompt = prompt and count = n] show ?thesis using assms(3,4) by (simp add: att1_infer_generate_def)
qed

lemma cluster_generates:
  assumes "cluster_state fo D s st" "\<forall>k. platform_ok fo (pfs k) \<and> allocs k" "prompt \<noteq> []" "n \<le> room"
  shows "\<exists>st'. att1_cluster_infer_generate pfs allocs (Some st) (Some prompt) n True room True
    = Some (fst (generate_spec (decode_spec fo D (tile_order (ci_shard_plan st))) prompt n s), st',
        snd (generate_spec (decode_spec fo D (tile_order (ci_shard_plan st))) prompt n s))"
proof -
  have "cluster_rel fo pfs allocs D (tile_order (ci_shard_plan st)) s (Some st)" using assms(1,2) by (simp add: cluster_rel_def)
  from cluster.generate_refines [OF this, where prompt = prompt and count = n] show ?thesis using assms(3,4) by (simp add: att1_cluster_infer_generate_def)
qed

section \<open>Plans that pass the check\<close>

lemma mark_layers_ok:
  "distinct ls \<Longrightarrow> \<forall>l \<in> set ls. l < length seen \<and> \<not> seen ! l \<and> unat (to_tile ! l) = tile
    \<Longrightarrow> \<exists>seen'. mark_layers to_tile tile ls seen = Some seen'"
proof (induction ls arbitrary: seen)
  case (Cons a ls)
  have "l < length (seen[a := True]) \<and> \<not> seen[a := True] ! l \<and> unat (to_tile ! l) = tile" if "l \<in> set ls" for l
  proof -
    have "l \<noteq> a" using Cons.prems(1) that by auto
    then show ?thesis using Cons.prems(2) that by simp
  qed
  then show ?case using Cons.IH [of "seen[a := True]"] Cons.prems by simp
qed simp

lemma check_tiles_ok:
  "distinct (concat (map run_of shards)) \<Longrightarrow> \<forall>l \<in> set (concat (map run_of shards)). \<not> seen ! l \<Longrightarrow> length seen = n
    \<Longrightarrow> \<forall>i < length shards. unat (lsh_tile_id (shards ! i)) = tile + i \<and> lsh_layer_start (shards ! i) \<le> lsh_layer_end (shards ! i)
      \<and> unat (lsh_layer_end (shards ! i)) \<le> n \<and> (\<forall>l \<in> set (run_of (shards ! i)). unat (to_tile ! l) = tile + i)
    \<Longrightarrow> \<exists>seen'. check_tiles n to_tile tile shards seen = Some seen'"
proof (induction shards arbitrary: tile seen)
  case (Cons shard shards)
  have h: "unat (lsh_tile_id shard) = tile" "lsh_layer_start shard \<le> lsh_layer_end shard" "unat (lsh_layer_end shard) \<le> n"
      "\<forall>l \<in> set (run_of shard). unat (to_tile ! l) = tile"
    using spec [OF Cons.prems(4), of 0] by simp_all
  have lt: "\<forall>l \<in> set (run_of shard). l < length seen" using h(3) Cons.prems(3) by (simp add: run_of_def)
  obtain seen1 where m: "mark_layers to_tile tile (run_of shard) seen = Some seen1"
    using mark_layers_ok [of "run_of shard" seen to_tile tile] lt h(4) Cons.prems(1,2) by auto
  note ms = mark_layers_spec [OF m lt]
  have "\<exists>seen'. check_tiles n to_tile (tile + 1) shards seen1 = Some seen'"
  proof (rule Cons.IH)
    show "distinct (concat (map run_of shards))" "length seen1 = n" using Cons.prems(1,3) ms by simp_all
    have disj: "l \<notin> set (run_of shard)" "\<not> seen ! l" if "l \<in> set (concat (map run_of shards))" for l
      using that Cons.prems(1,2) by auto
    have bound: "l < length seen" if "l \<in> set (concat (map run_of shards))" for l
    proof -
      obtain s where s: "s \<in> set shards" "l \<in> set (run_of s)" using \<open>l \<in> set (concat (map run_of shards))\<close> by auto
      then obtain i where "i < length shards" "shards ! i = s" unfolding in_set_conv_nth by blast
      then show ?thesis using spec [OF Cons.prems(4), of "Suc i"] Cons.prems(3) s(2) by (simp add: run_of_def)
    qed
    show "\<forall>l \<in> set (concat (map run_of shards)). \<not> seen1 ! l" using ms disj bound by blast
    show "\<forall>i < length shards. unat (lsh_tile_id (shards ! i)) = tile + 1 + i \<and> lsh_layer_start (shards ! i) \<le> lsh_layer_end (shards ! i)
      \<and> unat (lsh_layer_end (shards ! i)) \<le> n \<and> (\<forall>l \<in> set (run_of (shards ! i)). unat (to_tile ! l) = tile + 1 + i)"
    proof (intro allI impI)
      fix i assume "i < length shards"
      then show "unat (lsh_tile_id (shards ! i)) = tile + 1 + i \<and> lsh_layer_start (shards ! i) \<le> lsh_layer_end (shards ! i)
        \<and> unat (lsh_layer_end (shards ! i)) \<le> n \<and> (\<forall>l \<in> set (run_of (shards ! i)). unat (to_tile ! l) = tile + 1 + i)"
        using spec [OF Cons.prems(4), of "Suc i"] by simp
    qed
  qed
  then show ?case using h(1-3) m by (auto simp: run_of_def not_less)
qed simp

text \<open>The runtime plan runs the layers in their order.\<close>

lemma balanced_runs: "concat (map (\<lambda>i. [balanced_start n k i..<balanced_start n k (Suc i)]) [0..<j]) = [0..<balanced_start n k j]"
proof (induction j)
  case (Suc j)
  then show ?case using balanced_mono [of j "Suc j" n k] upt_add_eq_append [of 0 "balanced_start n k j" "balanced_start n k (Suc j) - balanced_start n k j"]
    by simp
qed simp

lemma runtime_plan:
  assumes "att1_shard_plan_build alloc (Some p0) (Some m) tc = (ATT1_OK, Some plan)"
  shows "tile_order plan = [0..<unat (mc_n_layers (md_config m))]" "sp_tile_count plan = tc" "length (the (sp_tiles plan)) = tc"
    and "ci_shard_plan st = plan \<Longrightarrow> in_model st = m \<Longrightarrow> cluster_plan_complete True st"
proof -
  let ?n = "unat (mc_n_layers (md_config m))"
  have g: "0 < tc" "tc < 2 ^ 32" "mc_n_layers (md_config m) \<noteq> 0" "mc_shard_count (md_config m) = 0" "alloc"
    using assms by (auto simp: att1_shard_plan_build_def split: if_splits)
  obtain p tiles table where p: "att1_shard_plan_build True (Some p0) (Some m) tc = (ATT1_OK, Some p)"
      "p = \<lparr>sp_tile_count = tc, sp_layer_count = ?n, sp_tiles = Some tiles, sp_layer_to_tile = Some table\<rparr>"
      "length tiles = tc" "length table = ?n"
      "\<forall>i < tc. unat (lsh_tile_id (tiles ! i)) = i \<and> unat (lsh_layer_start (tiles ! i)) = balanced_start ?n tc i
        \<and> unat (lsh_layer_end (tiles ! i)) = balanced_start ?n tc (i + 1)"
      "\<forall>i < tc. \<forall>l. balanced_start ?n tc i \<le> l \<and> l < balanced_start ?n tc (i + 1) \<longrightarrow> unat (table ! l) = i"
    using shard_plan_build_eq [OF g(1-4), of p0] by blast
  have plan: "plan = \<lparr>sp_tile_count = tc, sp_layer_count = ?n, sp_tiles = Some tiles, sp_layer_to_tile = Some table\<rparr>"
    using assms p(1,2) g(5) by simp
  have "map run_of tiles = map (\<lambda>i. [balanced_start ?n tc i..<balanced_start ?n tc (Suc i)]) [0..<tc]"
    using p(3,5) by (intro nth_equalityI) (simp_all add: run_of_def)
  then have runs: "concat (map run_of tiles) = [0..<?n]" by (simp only: balanced_runs balanced_start_end [OF g(1)])
  show "tile_order plan = [0..<?n]" "sp_tile_count plan = tc" "length (the (sp_tiles plan)) = tc"
    using runs p(3) by (simp_all add: plan tile_order_def)
  assume st: "ci_shard_plan st = plan" "in_model st = m"
  have "\<exists>seen'. check_tiles ?n table 0 tiles (replicate ?n False) = Some seen'"
  proof (rule check_tiles_ok)
    show "\<forall>i < length tiles. unat (lsh_tile_id (tiles ! i)) = 0 + i \<and> lsh_layer_start (tiles ! i) \<le> lsh_layer_end (tiles ! i)
      \<and> unat (lsh_layer_end (tiles ! i)) \<le> ?n \<and> (\<forall>l \<in> set (run_of (tiles ! i)). unat (table ! l) = 0 + i)"
    proof (intro allI impI)
      fix i assume i: "i < length tiles"
      then have t: "unat (lsh_tile_id (tiles ! i)) = i" "unat (lsh_layer_start (tiles ! i)) = balanced_start ?n tc i"
          "unat (lsh_layer_end (tiles ! i)) = balanced_start ?n tc (i + 1)" and j: "i < tc" using p(3,5) by simp_all
      have "balanced_start ?n tc (i + 1) \<le> ?n" using j by (intro balanced_le [OF g(1)]) simp
      then show "unat (lsh_tile_id (tiles ! i)) = 0 + i \<and> lsh_layer_start (tiles ! i) \<le> lsh_layer_end (tiles ! i)
        \<and> unat (lsh_layer_end (tiles ! i)) \<le> ?n \<and> (\<forall>l \<in> set (run_of (tiles ! i)). unat (table ! l) = 0 + i)"
        using t balanced_mono [of i "i + 1" ?n tc] p(6) j by (simp add: word_le_nat_alt run_of_def)
    qed
  qed (simp_all only: runs, simp_all)
  then obtain seen' where c: "check_tiles ?n table 0 tiles (replicate ?n False) = Some seen'" by blast
  have "list_all (\<lambda>s. s) seen'" using check_tiles_spec [OF c] by (simp add: runs list_all_length)
  then show "cluster_plan_complete True st"
    using c p(3) g(1) unfolding cluster_plan_complete_def by (simp add: st plan Let_def)
qed

section \<open>Creation\<close>

lemma cluster_setup_state:
  assumes "cluster_setup alloc (status, backend) m config plan = (ATT1_OK, Some st)"
    and "cic_tile_count config < 2 ^ 32 - 1"
    and "cic_fabric_max_payload_bytes config = 0 \<or> required_payload (md_config m) \<le> cic_fabric_max_payload_bytes config"
  shows "\<exists>caches. infer_caches (alloc 4) (md_config m) = Some caches \<and> status = ATT1_OK
    \<and> att1_infer.truncate st = new_infer m caches (the backend) \<and> ci_shard_plan st = plan
    \<and> ci_host_tile_id st = word_of_nat (cic_tile_count config)
    \<and> fabric_idle (cic_tile_count config + 1) (required_payload (md_config m)) (ci_fabric st)"
proof -
  let ?fc = "\<lparr>fc_tile_count = cic_tile_count config + 1,
    fc_queue_capacity = if cic_fabric_queue_capacity config \<noteq> 0 then cic_fabric_queue_capacity config else 4,
    fc_max_payload_bytes = if cic_fabric_max_payload_bytes config \<noteq> 0 then cic_fabric_max_payload_bytes config
      else required_payload (md_config m)\<rparr>"
  obtain fabric where f: "att1_fabric_create (alloc 3) (Some zero_fabric) (Some ?fc) = (ATT1_OK, fabric)"
    using assms(1) by (auto simp: cluster_setup_def Let_def split: prod.splits if_splits)
  have some: "fabric \<noteq> None" using f by (auto simp: att1_fabric_create_def split: if_splits)
  then obtain f0 where f0: "fabric = Some f0" by blast
  obtain caches where c: "infer_caches (alloc 4) (md_config m) = Some caches" "status = ATT1_OK"
      "st = att1_infer.extend (new_infer m caches (the backend)) \<lparr>ci_shard_plan = plan, ci_fabric = f0,
         ci_host_tile_id = word_of_nat (cic_tile_count config),
         ci_tile_counters = map new_tile_counters (take (cic_tile_count config) (the (sp_tiles plan)))\<rparr>"
    using assms(1) f f0 by (auto simp: cluster_setup_def Let_def split: if_splits option.splits)
  have cfg: "f_config f0 = ?fc" using f f0 by (auto simp: att1_fabric_create_def split: if_splits)
  have "fabric_idle (cic_tile_count config + 1) (required_payload (md_config m)) f0"
    using create_fab_inv [OF f [unfolded f0]] assms(3) by (auto simp: fabric_idle_def cfg)
  then show ?thesis using c by (simp add: att1_infer.defs)
qed

lemma cluster_setup_some: "snd (cluster_setup alloc be m config plan) = None \<Longrightarrow> fst (cluster_setup alloc be m config plan) \<noteq> ATT1_OK"
  by (auto simp: cluster_setup_def Let_def split: prod.splits if_splits option.splits)

text \<open>A context with represented weights, a plan of the runtime and an idle fabric is a cluster in the state of the decoder.\<close>

lemma planned_cluster_state:
  assumes "att1_shard_plan_build alloc (Some p0) (Some m) tc = (ATT1_OK, Some plan)" "tc < 2 ^ 32 - 1"
    and "infer_state fo D (0, caches) st" "in_model st = m" "length (dm_layers D) = unat (mc_n_layers (md_config m))"
    and "payload_bound D = required_payload (md_config m)" "ci_shard_plan st = plan" "ci_host_tile_id st = word_of_nat tc"
    and "fabric_idle (tc + 1) (required_payload (md_config m)) (ci_fabric st)"
  shows "cluster_state fo D (0, caches) st" "tile_order (ci_shard_plan st) = all_layers D" "sp_tile_count (ci_shard_plan st) = tc"
proof -
  note r = runtime_plan [OF assms(1)]
  show "tile_order (ci_shard_plan st) = all_layers D" "sp_tile_count (ci_shard_plan st) = tc" by (simp_all add: assms(5,7) r(1,2))
  show "cluster_state fo D (0, caches) st"
    using assms(2,3,8,9) r(4) [OF assms(7,4)] unfolding cluster_state_def Let_def tiles_ok_def assms(6,7) r(2,3) by simp
qed

lemma cluster_create_state:
  assumes "f32_model m" "cic_shard_plan_mode config = SHARD_PLAN_RUNTIME"
    and "att1_cluster_infer_create fo alloc (Some m) (Some config) True = Some (ATT1_OK, Some st)"
  shows "cluster_state fo (model_decoder m) (0, replicate (unat (mc_n_layers (md_config m))) []) st"
    and "tile_order (ci_shard_plan st) = all_layers (model_decoder m)"
    and "in_model st = m" "sp_tile_count (ci_shard_plan st) = cic_tile_count config"
proof -
  let ?D = "model_decoder m" let ?be = "att1_backend_default_create fo (alloc 0 7) True"
  have g: "cic_tile_count config < 2 ^ 32 - 1"
      "cic_fabric_max_payload_bytes config = 0 \<or> required_payload (md_config m) \<le> cic_fabric_max_payload_bytes config"
    using assms(3) by (auto simp: att1_cluster_infer_create_def Let_def split: if_splits)
  obtain plan where p: "att1_shard_plan_build (alloc 2 0) (Some zero_plan) (Some m) (cic_tile_count config) = (ATT1_OK, Some plan)"
      "cluster_setup alloc ?be m config plan = (ATT1_OK, Some st)"
  proof -
    have "snd (att1_shard_plan_build (alloc 2 0) (Some zero_plan) (Some m) (cic_tile_count config)) \<noteq> None"
      by (simp add: att1_shard_plan_build_def Let_def split: option.splits)
    then show thesis using assms(2,3) that
      by (auto simp: att1_cluster_infer_create_def cluster_plan_def Let_def split: if_splits prod.splits)
  qed
  obtain status backend where b: "?be = (status, backend)" by (cases ?be)
  obtain caches where c: "infer_caches (alloc 4) (md_config m) = Some caches" "status = ATT1_OK"
      "att1_infer.truncate st = new_infer m caches (the backend)" "ci_shard_plan st = plan"
      "ci_host_tile_id st = word_of_nat (cic_tile_count config)"
      "fabric_idle (cic_tile_count config + 1) (required_payload (md_config m)) (ci_fabric st)"
    using cluster_setup_state [OF p(2) [unfolded b] g] by blast
  have fields: "in_model st = m" "in_backend st = the backend" "in_layer_kv st = caches" "in_position st = 0"
      "in_hidden st = replicate (unat (mc_d_model (md_config m))) 0" "in_next_hidden st = replicate (unat (mc_d_model (md_config m))) 0"
      "in_norm st = replicate (unat (mc_d_model (md_config m))) 0" "in_logits st = replicate (unat (mc_vocab_size (md_config m))) 0"
    using c(3) by (simp_all add: att1_infer.defs new_infer_def Let_def)
  have be: "the backend = \<lparr>be_ops = Some (cpu_f32_ops fo)\<rparr>"
    using b c(2) by (auto simp: att1_backend_default_create_def att1_backend_cpu_f32_create_def split: if_splits)
  have D: "length (dm_layers ?D) = unat (mc_n_layers (md_config m))" "payload_bound ?D = required_payload (md_config m)"
    by (simp_all add: model_decoder_def required_payload_def infer_block_config_def max_def word_less_nat_alt)
  have "weights_repr fo ?D st" by (rule f32_model_repr [OF assms(1) fields(1)]) (simp add: fields(2) be)
  from new_infer_state [OF c(1) this fields(3,1)]
  have i: "infer_state fo ?D (0, replicate (unat (mc_n_layers (md_config m))) []) st" by (simp add: fields D)
  note r = planned_cluster_state [OF p(1) g(1) i fields(1) D c(4-6)]
  show "cluster_state fo ?D (0, replicate (unat (mc_n_layers (md_config m))) []) st" "tile_order (ci_shard_plan st) = all_layers ?D"
    "in_model st = m" "sp_tile_count (ci_shard_plan st) = cic_tile_count config"
    by (rule r fields(1))+
qed

section \<open>Sharding does not change what is generated\<close>

text \<open>
  C2. Generation by an inference context created from a loaded float model is the generation function of the decoder in the
  tensors of the file: the status, the tokens, and the count when it is stored; and no step leaves its buffers.
\<close>

theorem infer_generate_refines:
  assumes "f32_model m" "att1_infer_create fo alloc (Some m) True = (ATT1_OK, Some st)"
    and "\<forall>k. platform_ok fo (pfs k)" "prompt \<noteq> []" "n \<le> room"
  shows "\<exists>st'. att1_infer_generate pfs (Some st) (Some prompt) n True room True
    = Some (let G = generate_spec (decode_spec fo (model_decoder m) (all_layers (model_decoder m))) prompt n
                      (0, replicate (unat (mc_n_layers (md_config m))) [])
            in (fst G, st', snd G))"
  unfolding Let_def by (rule single_generates [OF infer_create_state [OF assms(1,2)] assms(3-5)])

text \<open>
  C1. Sharding does not change what is generated: for a loaded float model, a cluster of any number of tiles with the plan of the
  runtime and single-context inference return the same status, the same tokens and the same count, from the same prompt, whatever
  the memory and the clock of either.
\<close>

theorem cluster_matches_single:
  assumes "f32_model m" "att1_infer_create fo alloc (Some m) True = (ATT1_OK, Some st)"
    and "att1_cluster_infer_create fo alloc' (Some m) (Some config) True = Some (ATT1_OK, Some ct)"
    and "cic_shard_plan_mode config = SHARD_PLAN_RUNTIME"
    and "\<forall>k. platform_ok fo (pfs k)" "\<forall>k. platform_ok fo (pfs' k) \<and> allocs k" "prompt \<noteq> []" "n \<le> room"
  shows "\<exists>st' ct' status tokens count.
      att1_infer_generate pfs (Some st) (Some prompt) n True room True = Some (status, st', tokens, count)
    \<and> att1_cluster_infer_generate pfs' allocs (Some ct) (Some prompt) n True room True = Some (status, ct', tokens, count)"
proof -
  note s = single_generates [OF infer_create_state [OF assms(1,2)] assms(5,7,8)]
  note c = cluster_generates [OF cluster_create_state(1) [OF assms(1,4,3)] assms(6,7,8), unfolded cluster_create_state(2) [OF assms(1,4,3)]]
  let ?G = "generate_spec (decode_spec fo (model_decoder m) (all_layers (model_decoder m))) prompt n (0, replicate (unat (mc_n_layers (md_config m))) [])"
  obtain status tokens count where G: "?G = (status, tokens, count)" by (cases ?G) auto
  show ?thesis using s c unfolding G by auto
qed

text \<open>
  C3. Generation by a cluster with any plan that passes its check is the generation function of the decoder whose layers run in
  the order of the tiles: the fabric delivers every activation, and no tile, packet or buffer changes the result.
\<close>

theorem cluster_generate_refines:
  assumes "cluster_state fo D s st" "\<forall>k. platform_ok fo (pfs k) \<and> allocs k" "prompt \<noteq> []" "n \<le> room"
  shows "\<exists>st'. att1_cluster_infer_generate pfs allocs (Some st) (Some prompt) n True room True
    = Some (let G = generate_spec (decode_spec fo D (tile_order (ci_shard_plan st))) prompt n s in (fst G, st', snd G))"
  unfolding Let_def by (rule cluster_generates [OF assms])

section \<open>A concrete model\<close>

text \<open>Two layers of one head with two dimensions; all elements have the same value.\<close>

definition flat_tensor :: "u64 list \<Rightarrow> u32 \<Rightarrow> u64 \<Rightarrow> att1_model_tensor" where
  "flat_tensor shape n bytes = demo_tensor\<lparr>mt_dtype := MODEL_DTYPE_F32, mt_ndims := n, mt_shape := shape, mt_nbytes := bytes,
     mt_data := Some 0\<rparr>"

definition flat_names :: "(string \<times> att1_model_tensor) list" where
  "flat_names = (let vec = flat_tensor [2, 1, 1, 1] 1 8; mat = flat_tensor [2, 2, 1, 1] 2 16;
       layer = (\<lambda>l. map (\<lambda>(s, t). (''layers.'' @ l @ ''.'' @ s, t)) [(''attention_norm.weight'', vec), (''ffn_norm.weight'', vec),
         (''attention.wq.weight'', mat), (''attention.wk.weight'', mat), (''attention.wv.weight'', mat), (''attention.wo.weight'', mat),
         (''ffn.w_gate.weight'', mat), (''ffn.w_up.weight'', mat), (''ffn.w_down.weight'', mat)])
     in [(''tok_embeddings.weight'', mat), (''output_norm.weight'', vec), (''output.weight'', mat)] @ layer ''0'' @ layer ''1'')"

definition flat_model :: att1_model where
  "flat_model = zero_model\<lparr>md_config := zero_config\<lparr>mc_vocab_size := 2, mc_n_layers := 2, mc_n_heads := 1, mc_d_model := 2,
     mc_d_ff := 2, mc_max_seq_len := 4\<rparr>, md_tensor_count := 21, md_tensors := map (\<lambda>(s, t). named_tensor s t) flat_names,
     md_file_data := Some (replicate 16 0x3F), md_file_size := 16\<rparr>"

lemma flat_config:
  "mc_vocab_size (md_config flat_model) = 2" "mc_n_layers (md_config flat_model) = 2" "mc_n_heads (md_config flat_model) = 1"
  "mc_d_model (md_config flat_model) = 2" "mc_d_ff (md_config flat_model) = 2" "mc_max_seq_len (md_config flat_model) = 4"
  "mc_shard_count (md_config flat_model) = 0" "length flat_names = 21" "unat (md_tensor_count flat_model) = 21"
  by (simp_all add: flat_model_def zero_config_def flat_names_def Let_def)

lemma flat_c_names: "\<forall>(s, t) \<in> set flat_names. c_name s"
  by (simp add: flat_names_def c_name_def Let_def)

lemma flat_found: "CHR 0x00 \<notin> set s \<Longrightarrow> found_tensor flat_model (str_bytes s) = map_option (named_tensor s) (map_of flat_names s)"
  by (rule found_named [OF _ _ flat_c_names]) (simp_all add: flat_model_def flat_config)

lemma flat_wf: "model_wf flat_model"
proof -
  have t: "tensor_wf 16 (named_tensor s t)" if "c_name s" "t \<in> {flat_tensor [2, 1, 1, 1] 1 8, flat_tensor [2, 2, 1, 1] 2 16}" for s t
    using that by (auto simp: tensor_wf_def named_tensor_def c_name_def flat_tensor_def demo_tensor_def tensor_bytes_def model_codes
        str_bytes_def nth_append)
  have "snd ` set flat_names \<subseteq> {flat_tensor [2, 1, 1, 1] 1 8, flat_tensor [2, 2, 1, 1] 2 16}"
    by (simp add: flat_names_def Let_def)
  then have "\<forall>t \<in> set (md_tensors flat_model). tensor_wf 16 t"
    using t flat_c_names by (fastforce simp: flat_model_def)
  then show ?thesis by (simp add: model_wf_def flat_model_def zero_model_def shard_meta_wf_def flat_config)
qed

lemma flat_layer_name:
  "length suffix < 50 \<Longrightarrow> layer_name MODEL_NAME_SIZE 0 suffix = Some (str_bytes (''layers.0.'' @ suffix))"
  "length suffix < 50 \<Longrightarrow> layer_name MODEL_NAME_SIZE 1 suffix = Some (str_bytes (''layers.1.'' @ suffix))"
proof -
  have "char_of (48 :: nat) = CHR ''0''" "char_of (49 :: nat) = CHR ''1''" by code_simp+
  then have "decimal 0 = ''0''" "decimal 1 = ''1''" by (subst decimal.simps, simp)+
  then show "length suffix < 50 \<Longrightarrow> layer_name MODEL_NAME_SIZE 0 suffix = Some (str_bytes (''layers.0.'' @ suffix))"
    "length suffix < 50 \<Longrightarrow> layer_name MODEL_NAME_SIZE 1 suffix = Some (str_bytes (''layers.1.'' @ suffix))"
    by (simp_all add: layer_name_def MODEL_NAME_SIZE_def Let_def)
qed

lemmas flat_view = flat_found att1_model_view_tensor_f32_def tensor_is_f32_shape_def flat_names_def named_tensor_def flat_tensor_def
  MODEL_MAX_DIMS_def

lemma flat_validates: "att1_model_view_validate_decoder (Some flat_model) = ATT1_OK"
  "fst (att1_model_view_output_weight (Some flat_model) (Some None)) = ATT1_OK"
proof -
  have q4: "\<not> list_ex (\<lambda>t. mt_dtype t = MODEL_DTYPE_Q4) (take (unat (md_tensor_count flat_model)) (md_tensors flat_model))"
    by (simp add: flat_config flat_model_def flat_names_def named_tensor_def flat_tensor_def model_codes Let_def)
  show "fst (att1_model_view_output_weight (Some flat_model) (Some None)) = ATT1_OK"
    by (simp add: att1_model_view_output_weight_def flat_config flat_view Let_def)
  have "fst (att1_model_view_token_embedding (Some flat_model) (Some None)) = ATT1_OK"
    "fst (att1_model_view_output_norm (Some flat_model) (Some None)) = ATT1_OK"
    by (simp_all add: att1_model_view_token_embedding_def att1_model_view_output_norm_def flat_config flat_view Let_def)
  then show "att1_model_view_validate_decoder (Some flat_model) = ATT1_OK"
    using q4 by (simp add: att1_model_view_validate_decoder_def decoder_config_bad_def tensor_is_output_weight_shape_def flat_config flat_view Let_def)
qed

lemma flat_f32_model: "f32_model flat_model"
proof -
  have "fst (att1_model_view_load_layer_weights (Some flat_model) l (Some zero_block_weights)) = ATT1_OK" if "l = 0 \<or> l = 1" for l
    using that by (elim disjE)
      (simp_all add: word_le_nat_alt [of 2 "1 :: u32"] att1_model_view_load_layer_weights_def LOAD_LAYER_TENSOR_def flat_layer_name flat_config flat_view Let_def)
  moreover have "l < 2 \<Longrightarrow> word_of_nat l = (0 :: u32) \<or> word_of_nat l = (1 :: u32)" for l :: nat
    by (cases "l = 0") (auto simp: less_2_cases_iff)
  ultimately show ?thesis using flat_wf flat_validates by (simp add: f32_model_def flat_config)
qed

definition flat_cluster :: att1_cluster_infer_config where
  "flat_cluster = \<lparr>cic_tile_count = 2, cic_fabric_queue_capacity = 0, cic_fabric_max_payload_bytes = 0,
     cic_shard_plan_mode = SHARD_PLAN_RUNTIME\<rparr>"

lemma flat_caches: "\<exists>cs. infer_caches (\<lambda>_. True) (md_config flat_model) = Some cs"
proof -
  have "init_caches (\<lambda>_. True) 2 4 1 2 = init_caches (\<lambda>_. True) (Suc (Suc 0)) 4 1 2" by (simp only: numeral_2_eq_2)
  then have "\<exists>cs. init_caches (\<lambda>_. True) 2 4 1 2 = Some cs" by (simp add: att1_kv_cache_init_def att1_mul_size_def SIZE_MAX_def)
  then show ?thesis by (simp add: infer_caches_def flat_config)
qed

lemma flat_create: "\<exists>st. att1_infer_create fo (\<lambda>_. True) (Some flat_model) True = (ATT1_OK, Some st)"
  using flat_caches flat_validates(1)
  by (auto simp: att1_infer_create_def att1_backend_default_create_def att1_backend_cpu_f32_create_def Let_def)

lemma flat_cluster_create:
  "\<exists>ct. att1_cluster_infer_create fo (\<lambda>_ _. True) (Some flat_model) (Some flat_cluster) True = Some (ATT1_OK, Some ct)"
proof -
  obtain p where p: "att1_shard_plan_build True (Some zero_plan) (Some flat_model) 2 = (ATT1_OK, Some p)"
    using shard_plan_build_eq [of 2 flat_model zero_plan] by (auto simp: flat_config)
  obtain f where f: "att1_fabric_create (\<lambda>_. True) (Some zero_fabric)
      (Some \<lparr>fc_tile_count = 3, fc_queue_capacity = 4, fc_max_payload_bytes = 8\<rparr>) = (ATT1_OK, Some f)"
    by (simp add: att1_fabric_create_def att1_fabric_config_valid_def UINT32_MAX_nat_def att1_mul_size_def SIZE_MAX_def list_all_iff)
  show ?thesis
    using flat_caches flat_validates(1) p f
    by (auto simp: att1_cluster_infer_create_def cluster_plan_def cluster_setup_def flat_cluster_def required_payload_def
        att1_backend_default_create_def att1_backend_cpu_f32_create_def flat_config Let_def)
qed

definition demo_platform :: "float_ops \<Rightarrow> platform" where
  "demo_platform fo = \<lparr>pf_float = fo, pf_memory = demo_memory, pf_int4_buf = replicate 128 0, pf_clock = word_of_nat, pf_realloc = True\<rparr>"

lemma demo_platform_ok: "platform_ok fo (demo_platform fo)"
  using demo_block_ready(2) by (simp add: platform_ok_def demo_platform_def)

lemma flat_layers: "all_layers (model_decoder flat_model) = [0, 1]" "replicate (unat (mc_n_layers (md_config flat_model))) [] = [[], [] :: kv_pair list]"
proof -
  have "[0..<2] = [0, 1 :: nat]" by (simp add: upt_rec)
  then show "all_layers (model_decoder flat_model) = [0, 1]" by (simp add: model_decoder_def flat_config)
  have "replicate 2 [] = [[], [] :: kv_pair list]" by (simp add: numeral_2_eq_2)
  then show "replicate (unat (mc_n_layers (md_config flat_model))) [] = [[], [] :: kv_pair list]" by (simp add: flat_config)
qed

theorem infer_generate_refines_witness:
  "\<forall>fo. \<exists>st st'. att1_infer_create fo (\<lambda>_. True) (Some flat_model) True = (ATT1_OK, Some st)
    \<and> att1_infer_generate (\<lambda>_. demo_platform fo) (Some st) (Some [1, 0]) 2 True 2 True
      = Some (let G = generate_spec (decode_spec fo (model_decoder flat_model) [0, 1]) [1, 0] 2 (0, [[], []]) in (fst G, st', snd G))"
proof
  fix fo
  obtain st where st: "att1_infer_create fo (\<lambda>_. True) (Some flat_model) True = (ATT1_OK, Some st)" using flat_create by blast
  show "\<exists>st st'. att1_infer_create fo (\<lambda>_. True) (Some flat_model) True = (ATT1_OK, Some st)
    \<and> att1_infer_generate (\<lambda>_. demo_platform fo) (Some st) (Some [1, 0]) 2 True 2 True
      = Some (let G = generate_spec (decode_spec fo (model_decoder flat_model) [0, 1]) [1, 0] 2 (0, [[], []]) in (fst G, st', snd G))"
    using infer_generate_refines [OF flat_f32_model st, of "\<lambda>_. demo_platform fo" "[1, 0]" 2 2] demo_platform_ok st unfolding flat_layers
    by (intro exI [of _ st]) simp
qed

theorem cluster_matches_single_witness:
  "\<forall>fo. \<exists>st ct st' ct' status tokens count.
      att1_infer_create fo (\<lambda>_. True) (Some flat_model) True = (ATT1_OK, Some st)
    \<and> att1_cluster_infer_create fo (\<lambda>_ _. True) (Some flat_model) (Some flat_cluster) True = Some (ATT1_OK, Some ct)
    \<and> att1_infer_generate (\<lambda>_. demo_platform fo) (Some st) (Some [1, 0]) 2 True 2 True = Some (status, st', tokens, count)
    \<and> att1_cluster_infer_generate (\<lambda>_. demo_platform fo) (\<lambda>_. True) (Some ct) (Some [1, 0]) 2 True 2 True = Some (status, ct', tokens, count)"
proof
  fix fo
  obtain st where st: "att1_infer_create fo (\<lambda>_. True) (Some flat_model) True = (ATT1_OK, Some st)" using flat_create by blast
  obtain ct where ct: "att1_cluster_infer_create fo (\<lambda>_ _. True) (Some flat_model) (Some flat_cluster) True = Some (ATT1_OK, Some ct)"
    using flat_cluster_create by blast
  show "\<exists>st ct st' ct' status tokens count.
      att1_infer_create fo (\<lambda>_. True) (Some flat_model) True = (ATT1_OK, Some st)
    \<and> att1_cluster_infer_create fo (\<lambda>_ _. True) (Some flat_model) (Some flat_cluster) True = Some (ATT1_OK, Some ct)
    \<and> att1_infer_generate (\<lambda>_. demo_platform fo) (Some st) (Some [1, 0]) 2 True 2 True = Some (status, st', tokens, count)
    \<and> att1_cluster_infer_generate (\<lambda>_. demo_platform fo) (\<lambda>_. True) (Some ct) (Some [1, 0]) 2 True 2 True = Some (status, ct', tokens, count)"
    using cluster_matches_single [OF flat_f32_model st ct, of "\<lambda>_. demo_platform fo" "\<lambda>_. demo_platform fo" "\<lambda>_. True" "[1, 0]" 2 2]
      demo_platform_ok st ct by (auto simp: flat_cluster_def)
qed

theorem cluster_generate_refines_witness:
  "\<forall>fo. \<exists>ct st'. att1_cluster_infer_create fo (\<lambda>_ _. True) (Some flat_model) (Some flat_cluster) True = Some (ATT1_OK, Some ct)
    \<and> att1_cluster_infer_generate (\<lambda>_. demo_platform fo) (\<lambda>_. True) (Some ct) (Some [1]) 3 True 5 True
      = Some (let G = generate_spec (decode_spec fo (model_decoder flat_model) [0, 1]) [1] 3 (0, [[], []]) in (fst G, st', snd G))"
proof
  fix fo
  obtain ct where ct: "att1_cluster_infer_create fo (\<lambda>_ _. True) (Some flat_model) (Some flat_cluster) True = Some (ATT1_OK, Some ct)"
    using flat_cluster_create by blast
  have r: "cic_shard_plan_mode flat_cluster = SHARD_PLAN_RUNTIME" by (simp add: flat_cluster_def)
  note c = cluster_create_state [OF flat_f32_model r ct]
  show "\<exists>ct st'. att1_cluster_infer_create fo (\<lambda>_ _. True) (Some flat_model) (Some flat_cluster) True = Some (ATT1_OK, Some ct)
    \<and> att1_cluster_infer_generate (\<lambda>_. demo_platform fo) (\<lambda>_. True) (Some ct) (Some [1]) 3 True 5 True
      = Some (let G = generate_spec (decode_spec fo (model_decoder flat_model) [0, 1]) [1] 3 (0, [[], []]) in (fst G, st', snd G))"
    using cluster_generate_refines [OF c(1), of "\<lambda>_. demo_platform fo" "\<lambda>_. True" "[1]" 3 5, unfolded c(2) flat_layers] demo_platform_ok ct
    by (intro exI [of _ ct]) simp
qed

section \<open>Plans from metadata\<close>


end
