(* ===== verification/Cluster_Equiv_Q4.thy ===== *)
theory Cluster_Equiv_Q4
  imports Cluster_Equiv
begin

text \<open>
  Four-bit models: single-context inference and a cluster over the same file generate the same tokens.
\<close>

section \<open>Creation\<close>

lemma cluster_create_q4_state:
  assumes "model_wf m" "att1_cluster_infer_create_q4 fo alloc (Some m) (Some config) True = (ATT1_OK, Some st)"
  shows "cluster_state fo (q4_decoder fo m) (0, replicate (unat (mc_n_layers (md_config m))) []) st"
    and "tile_order (ci_shard_plan st) = all_layers (q4_decoder fo m)"
proof -
  let ?D = "q4_decoder fo m" let ?be = "att1_backend_cpu_q4_create fo (alloc 0 7) True"
  have g: "cic_tile_count config < 2 ^ 32 - 1"
      "cic_fabric_max_payload_bytes config = 0 \<or> required_payload (md_config m) \<le> cic_fabric_max_payload_bytes config"
      and val: "att1_model_view_validate_decoder_q4 (Some m) = ATT1_OK"
    using assms(2) by (auto simp: att1_cluster_infer_create_q4_def Let_def split: if_splits)
  obtain status backend where b: "?be = (status, backend)" by (cases ?be)
  let ?build = "att1_shard_plan_build (alloc 2 0) (Some zero_plan) (Some m) (cic_tile_count config)"
  have "snd ?build \<noteq> None" by (simp add: att1_shard_plan_build_def Let_def split: option.splits)
  then obtain s plan where b1: "?build = (s, Some plan)" by (cases ?build) auto
  obtain s2 st2 where b2: "cluster_setup alloc (status, backend) m config plan = (s2, st2)"
    by (cases "cluster_setup alloc (status, backend) m config plan")
  have ok: "s = ATT1_OK" "s2 = ATT1_OK" "infer_prepare_q4 (alloc 5) (the st2) = (ATT1_OK, st)"
    using assms(2) by (auto simp: att1_cluster_infer_create_q4_def cluster_prepare_q4_def b b1 b2 Let_def split: if_splits prod.splits)
  have "st2 \<noteq> None" using cluster_setup_some [of alloc "(status, backend)" m config plan] by (auto simp: b2 ok(2))
  then obtain st0 where "st2 = Some st0" by blast
  then have p: "?build = (ATT1_OK, Some plan)" "cluster_setup alloc ?be m config plan = (ATT1_OK, Some st0)"
      "infer_prepare_q4 (alloc 5) st0 = (ATT1_OK, st)"
    using b b1 b2 ok by simp_all
  obtain caches where c: "infer_caches (alloc 4) (md_config m) = Some caches" "status = ATT1_OK"
      "att1_infer.truncate st0 = new_infer m caches (the backend)" "ci_shard_plan st0 = plan"
      "ci_host_tile_id st0 = word_of_nat (cic_tile_count config)"
      "fabric_idle (cic_tile_count config + 1) (required_payload (md_config m)) (ci_fabric st0)"
    using cluster_setup_state [OF p(2) [unfolded b] g] by blast
  have fields: "in_model st0 = m" "in_backend st0 = the backend" "in_layer_kv st0 = caches" "in_position st0 = 0" "\<not> in_q4_ready st0"
      "in_hidden st0 = replicate (unat (mc_d_model (md_config m))) 0" "in_next_hidden st0 = replicate (unat (mc_d_model (md_config m))) 0"
      "in_norm st0 = replicate (unat (mc_d_model (md_config m))) 0" "in_logits st0 = replicate (unat (mc_vocab_size (md_config m))) 0"
    using c(3) by (simp_all add: att1_infer.defs new_infer_def Let_def)
  have be: "in_backend st0 = \<lparr>be_ops = Some (cpu_q4_ops fo)\<rparr>"
    using b c(2) by (auto simp: fields(2) att1_backend_cpu_q4_create_def split: if_splits)
  note q = prepare_q4_repr [OF assms(1) val fields(1) be fields(5) p(3)]
  have kept: "in_layer_kv st = caches" "in_model st = m" "length (in_hidden st) = unat (mc_d_model (md_config m))"
    "length (in_next_hidden st) = unat (mc_d_model (md_config m))" "length (in_norm st) = unat (mc_d_model (md_config m))"
    "length (in_logits st) = unat (mc_vocab_size (md_config m))" "in_position st = 0"
    by (subst q(2), simp add: fields)+
  have cluster: "ci_shard_plan st = plan" "ci_host_tile_id st = word_of_nat (cic_tile_count config)"
    "fabric_idle (cic_tile_count config + 1) (required_payload (md_config m)) (ci_fabric st)"
    by (subst q(2), simp add: c(4-6) [simplified])+
  have D: "length (dm_layers ?D) = unat (mc_n_layers (md_config m))" "payload_bound ?D = required_payload (md_config m)"
    by (simp_all add: q4_decoder_def required_payload_def infer_block_config_def max_def word_less_nat_alt)
  have i: "infer_state fo ?D (0, replicate (unat (mc_n_layers (md_config m))) []) st"
    using new_infer_state [OF c(1) q(1) kept] by (simp add: D)
  note r = planned_cluster_state [OF p(1) g(1) i kept(2) D cluster]
  show "cluster_state fo ?D (0, replicate (unat (mc_n_layers (md_config m))) []) st" "tile_order (ci_shard_plan st) = all_layers ?D"
    by (rule r)+
qed

section \<open>Sharding does not change what a four-bit model generates\<close>

text \<open>
  C4. Sharding does not change what a four-bit model generates: for a loaded model in four bits, a cluster of any number of tiles
  and single-context inference return the same status, the same tokens and the same count, from the same prompt.
\<close>

theorem q4_cluster_matches_single:
  assumes "model_wf m" "att1_infer_create_q4 fo alloc (Some m) True = (ATT1_OK, Some st)"
    and "att1_cluster_infer_create_q4 fo alloc' (Some m) (Some config) True = (ATT1_OK, Some ct)"
    and "\<forall>k. platform_ok fo (pfs k)" "\<forall>k. platform_ok fo (pfs' k) \<and> allocs k" "prompt \<noteq> []" "n \<le> room"
  shows "\<exists>st' ct' status tokens count.
      att1_infer_generate pfs (Some st) (Some prompt) n True room True = Some (status, st', tokens, count)
    \<and> att1_cluster_infer_generate pfs' allocs (Some ct) (Some prompt) n True room True = Some (status, ct', tokens, count)"
proof -
  note s = single_generates [OF infer_create_q4_state [OF assms(1,2)] assms(4,6,7)]
  note c = cluster_generates [OF cluster_create_q4_state(1) [OF assms(1,3)] assms(5-7), unfolded cluster_create_q4_state(2) [OF assms(1,3)]]
  let ?G = "generate_spec (decode_spec fo (q4_decoder fo m) (all_layers (q4_decoder fo m))) prompt n
    (0, replicate (unat (mc_n_layers (md_config m))) [])"
  obtain status tokens count where G: "?G = (status, tokens, count)" by (cases ?G) auto
  show ?thesis using s c unfolding G by auto
qed

section \<open>A concrete model\<close>

text \<open>Two layers of one head with sixteen dimensions, in groups of sixteen.\<close>

definition packed_tensor :: "u64 \<Rightarrow> u64 \<Rightarrow> att1_model_tensor" where
  "packed_tensor rows bytes = demo_tensor\<lparr>mt_dtype := MODEL_DTYPE_Q4, mt_flags := 16, mt_ndims := 2, mt_shape := [rows, 16, 1, 1],
     mt_nbytes := bytes, mt_data := Some 0\<rparr>"

definition packed_names :: "(string \<times> att1_model_tensor) list" where
  "packed_names = (let vec = flat_tensor [16, 1, 1, 1] 1 64; mat = packed_tensor 16 192;
       layer = (\<lambda>l. map (\<lambda>(s, t). (''layers.'' @ l @ ''.'' @ s, t)) [(''attention_norm.weight'', vec), (''ffn_norm.weight'', vec),
         (''attention.wq.weight'', mat), (''attention.wk.weight'', mat), (''attention.wv.weight'', mat), (''attention.wo.weight'', mat),
         (''ffn.w_gate.weight'', mat), (''ffn.w_up.weight'', mat), (''ffn.w_down.weight'', mat)])
     in [(''tok_embeddings.weight'', flat_tensor [2, 16, 1, 1] 2 128), (''output_norm.weight'', vec),
         (''output.weight'', packed_tensor 2 24)] @ layer ''0'' @ layer ''1'')"

definition packed_model :: att1_model where
  "packed_model = zero_model\<lparr>md_config := zero_config\<lparr>mc_vocab_size := 2, mc_n_layers := 2, mc_n_heads := 1, mc_d_model := 16,
     mc_d_ff := 16, mc_max_seq_len := 4\<rparr>, md_tensor_count := 21, md_tensors := map (\<lambda>(s, t). named_tensor s t) packed_names,
     md_file_data := Some (replicate 192 0x3F), md_file_size := 192\<rparr>"

lemma packed_config:
  "mc_vocab_size (md_config packed_model) = 2" "mc_n_layers (md_config packed_model) = 2" "mc_n_heads (md_config packed_model) = 1"
  "mc_d_model (md_config packed_model) = 16" "mc_d_ff (md_config packed_model) = 16" "mc_max_seq_len (md_config packed_model) = 4"
  "mc_shard_count (md_config packed_model) = 0" "length packed_names = 21" "unat (md_tensor_count packed_model) = 21"
  by (simp_all add: packed_model_def zero_config_def packed_names_def Let_def)

lemma packed_c_names: "\<forall>(s, t) \<in> set packed_names. c_name s"
  by (simp add: packed_names_def c_name_def Let_def)

lemma packed_found: "CHR 0x00 \<notin> set s \<Longrightarrow> found_tensor packed_model (str_bytes s) = map_option (named_tensor s) (map_of packed_names s)"
  by (rule found_named [OF _ _ packed_c_names]) (simp_all add: packed_model_def packed_config)

lemma packed_wf: "model_wf packed_model"
proof -
  let ?T = "{flat_tensor [16, 1, 1, 1] 1 64, flat_tensor [2, 16, 1, 1] 2 128, packed_tensor 16 192, packed_tensor 2 24}"
  have t: "tensor_wf 192 (named_tensor s t)" if "c_name s" "t \<in> ?T" for s t
    using that by (auto simp: tensor_wf_def named_tensor_def c_name_def flat_tensor_def packed_tensor_def demo_tensor_def tensor_bytes_def
        model_codes q4_group_def str_bytes_def nth_append)
  have "snd ` set packed_names \<subseteq> ?T" by (simp add: packed_names_def Let_def)
  then have "\<forall>t \<in> set (md_tensors packed_model). tensor_wf 192 t"
    using t packed_c_names by (fastforce simp: packed_model_def)
  then show ?thesis by (simp add: model_wf_def packed_model_def zero_model_def shard_meta_wf_def packed_config)
qed

lemmas packed_view = packed_found att1_model_view_tensor_f32_def tensor_is_f32_shape_def att1_model_view_tensor_q4_def tensor_is_q4_shape_def
  packed_names_def named_tensor_def flat_tensor_def packed_tensor_def MODEL_MAX_DIMS_def

lemma packed_layers:
  assumes "l = 0 \<or> l = 1"
  shows "fst (load_q4_layer packed_model l) = ATT1_OK" "check_layer_q4 packed_model l ATT1_OK = ATT1_OK"
  using assms
  by (elim disjE; simp add: load_q4_layer_def check_layer_q4_def LOAD_F32_def LOAD_Q4_LAYER_def CHK_F32_def CHK_Q4_def infer_layer_q8_name_def
      flat_layer_name packed_config packed_view Let_def)+

lemma packed_views:
  "fst (att1_model_view_token_embedding (Some packed_model) (Some None)) = ATT1_OK"
  "fst (att1_model_view_output_norm (Some packed_model) (Some None)) = ATT1_OK"
  "fst (att1_model_view_tensor_q4 (Some packed_model) (Some (str_bytes ''output.weight'')) 2 16 (Some zero_q4_matrix)) = ATT1_OK"
  by (simp_all add: att1_model_view_token_embedding_def att1_model_view_output_norm_def packed_config packed_view Let_def)

lemma packed_validates: "att1_model_view_validate_decoder_q4 (Some packed_model) = ATT1_OK"
proof -
  have "[0..<2] = [0, 1 :: nat]" by (simp add: upt_rec)
  then show ?thesis
    using packed_views packed_layers by (simp add: att1_model_view_validate_decoder_q4_def decoder_config_bad_def packed_config)
qed

lemma packed_caches: "\<exists>cs. infer_caches (\<lambda>_. True) (md_config packed_model) = Some cs"
proof -
  have "init_caches (\<lambda>_. True) 2 4 1 16 = init_caches (\<lambda>_. True) (Suc (Suc 0)) 4 1 16" by (simp only: numeral_2_eq_2)
  then have "\<exists>cs. init_caches (\<lambda>_. True) 2 4 1 16 = Some cs" by (simp add: att1_kv_cache_init_def att1_mul_size_def SIZE_MAX_def)
  then show ?thesis by (simp add: infer_caches_def packed_config)
qed

lemma packed_prepare:
  assumes "in_model st = packed_model" "\<not> in_q4_ready st"
  shows "\<exists>st'. infer_prepare_q4 (\<lambda>_. True) st = (ATT1_OK, st')"
proof -
  have "l < 2 \<Longrightarrow> word_of_nat l = (0 :: u32) \<or> word_of_nat l = (1 :: u32)" for l :: nat
    by (cases "l = 0") (auto simp: less_2_cases_iff)
  then have "\<exists>ls. load_layers (load_q4_layer packed_model) [0..<2] [] = (ATT1_OK, ls)"
    using packed_layers(1) by (simp add: load_layers_OK)
  moreover have "in_model (infer_release_q4 st) = packed_model" using assms(1) by (simp add: infer_release_q4_def)
  ultimately show ?thesis
    using assms(2) packed_views by (auto simp: infer_prepare_q4_def packed_config Let_def split: prod.splits)
qed

lemma packed_create: "\<exists>st. att1_infer_create_q4 fo (\<lambda>_. True) (Some packed_model) True = (ATT1_OK, Some st)"
proof -
  obtain cs where cs: "infer_caches (\<lambda>_. True) (md_config packed_model) = Some cs" using packed_caches by blast
  have "\<exists>st'. infer_prepare_q4 (\<lambda>_. True) (new_infer packed_model cs be) = (ATT1_OK, st')" for be
    by (rule packed_prepare) (simp_all add: new_infer_def Let_def)
  then obtain st' where "infer_prepare_q4 (\<lambda>_. True) (new_infer packed_model cs \<lparr>be_ops = Some (cpu_q4_ops fo)\<rparr>) = (ATT1_OK, st')" by blast
  then show ?thesis using cs packed_validates by (simp add: att1_infer_create_q4_def att1_backend_cpu_q4_create_def Let_def)
qed

lemma packed_cluster_create:
  "\<exists>ct. att1_cluster_infer_create_q4 fo (\<lambda>_ _. True) (Some packed_model) (Some flat_cluster) True = (ATT1_OK, Some ct)"
proof -
  obtain cs where cs: "infer_caches (\<lambda>_. True) (md_config packed_model) = Some cs" using packed_caches by blast
  obtain p where p: "att1_shard_plan_build True (Some zero_plan) (Some packed_model) 2 = (ATT1_OK, Some p)"
    using shard_plan_build_eq [of 2 packed_model zero_plan] by (auto simp: packed_config)
  obtain f where f: "att1_fabric_create (\<lambda>_. True) (Some zero_fabric)
      (Some \<lparr>fc_tile_count = 3, fc_queue_capacity = 4, fc_max_payload_bytes = 64\<rparr>) = (ATT1_OK, Some f)"
    by (simp add: att1_fabric_create_def att1_fabric_config_valid_def UINT32_MAX_nat_def att1_mul_size_def SIZE_MAX_def list_all_iff)
  have "\<exists>st. cluster_setup (\<lambda>_ _. True) (att1_backend_cpu_q4_create fo True True) packed_model flat_cluster p = (ATT1_OK, Some st)
      \<and> in_model st = packed_model \<and> \<not> in_q4_ready st"
    using cs f by (simp add: cluster_setup_def att1_backend_cpu_q4_create_def flat_cluster_def required_payload_def packed_config
        att1_infer.defs new_infer_def Let_def)
  then obtain st where st: "cluster_setup (\<lambda>_ _. True) (att1_backend_cpu_q4_create fo True True) packed_model flat_cluster p = (ATT1_OK, Some st)"
      "in_model st = packed_model" "\<not> in_q4_ready st" by blast
  obtain st' where "infer_prepare_q4 (\<lambda>_. True) st = (ATT1_OK, st')" using packed_prepare [OF st(2,3)] by blast
  moreover have "cic_tile_count flat_cluster = 2" "cic_shard_plan_mode flat_cluster \<noteq> SHARD_PLAN_METADATA" "cic_fabric_max_payload_bytes flat_cluster = 0"
    by (simp_all add: flat_cluster_def)
  ultimately show ?thesis
    using packed_validates p st(1) by (simp add: att1_cluster_infer_create_q4_def cluster_prepare_q4_def Let_def)
qed

theorem q4_cluster_matches_single_witness:
  "\<forall>fo. \<exists>st ct st' ct' status tokens count.
      att1_infer_create_q4 fo (\<lambda>_. True) (Some packed_model) True = (ATT1_OK, Some st)
    \<and> att1_cluster_infer_create_q4 fo (\<lambda>_ _. True) (Some packed_model) (Some flat_cluster) True = (ATT1_OK, Some ct)
    \<and> att1_infer_generate (\<lambda>_. demo_platform fo) (Some st) (Some [1, 0]) 2 True 2 True = Some (status, st', tokens, count)
    \<and> att1_cluster_infer_generate (\<lambda>_. demo_platform fo) (\<lambda>_. True) (Some ct) (Some [1, 0]) 2 True 2 True = Some (status, ct', tokens, count)"
proof
  fix fo
  obtain st where st: "att1_infer_create_q4 fo (\<lambda>_. True) (Some packed_model) True = (ATT1_OK, Some st)" using packed_create by blast
  obtain ct where ct: "att1_cluster_infer_create_q4 fo (\<lambda>_ _. True) (Some packed_model) (Some flat_cluster) True = (ATT1_OK, Some ct)"
    using packed_cluster_create by blast
  show "\<exists>st ct st' ct' status tokens count.
      att1_infer_create_q4 fo (\<lambda>_. True) (Some packed_model) True = (ATT1_OK, Some st)
    \<and> att1_cluster_infer_create_q4 fo (\<lambda>_ _. True) (Some packed_model) (Some flat_cluster) True = (ATT1_OK, Some ct)
    \<and> att1_infer_generate (\<lambda>_. demo_platform fo) (Some st) (Some [1, 0]) 2 True 2 True = Some (status, st', tokens, count)
    \<and> att1_cluster_infer_generate (\<lambda>_. demo_platform fo) (\<lambda>_. True) (Some ct) (Some [1, 0]) 2 True 2 True = Some (status, ct', tokens, count)"
    using q4_cluster_matches_single [OF packed_wf st ct, of "\<lambda>_. demo_platform fo" "\<lambda>_. demo_platform fo" "\<lambda>_. True" "[1, 0]" 2 2]
      demo_platform_ok st ct by auto
qed

end
