(* ===== verification/Spec2Isabelle.thy ===== *)
theory Spec2Isabelle
  imports Aimu_Crc_Table Aimu_Cmdq_Props Aimu_Mem_Props Aimu_Dma_Props Aimu_Exec_Props Fabric_Props
    Kv_Equiv Aimu_Mmio_Props Aimu_Userspace_Props Runtime_Props Model_Roundtrip Tok_Ext_Props Model_View_Props Shard_Meta_Plan_Props Cluster_Equiv_Q4
begin

text \<open>
  ATT-1 simulates an accelerator (an AIMU) built of tiles, the fabric between the tiles, the
  paged key/value store of a tile and the host side that drives them, and runs transformer
  inference on top. This library models the control plane of the simulator, the C code below
  \<^verbatim>\<open>src/\<close> and \<^verbatim>\<open>simulator/\<close> of the repository, and proves it correct component by component.

  \<^bold>\<open>How C becomes HOL.\<close> A struct is a record with its fields in order, an enum a datatype,
  \<^verbatim>\<open>uintN_t\<close> a word of N bits (so counters wrap), \<^verbatim>\<open>size_t\<close> a 64-bit word in the AIMU
  components and a natural number in the fabric and the KV-MMU, whose size checks keep every
  product below \<open>2 ^ 64\<close>; the one sum there that can wrap is written with \<^verbatim>\<open>mod\<close>. A pointer is
  an option, \<^verbatim>\<open>NULL\<close> being \<^term>\<open>None\<close>; an operation on \<^verbatim>\<open>T *p\<close> takes and returns the option. An
  output pointer is a flag that says whether it is \<^verbatim>\<open>NULL\<close>, and the value stored through it is
  part of the result. \<^verbatim>\<open>calloc\<close> is an oracle: a predicate on the number of the allocation
  within the call. Status codes are the datatype \<open>att1_status\<close>. A loop is a structural
  recursion or a \<open>function\<close> with a measure; nothing needs fuel. A condition variable wait is a step
  that is not enabled, and a mutex is the atomicity of a step. A \<^verbatim>\<open>float\<close> that is only copied is
  its bit pattern.

  \<^bold>\<open>Theories.\<close>
  \<^item> \<open>Att_Prelude\<close>: word types, status codes, the pointer guard, \<^verbatim>\<open>memcpy\<close>, search loops, size
    arithmetic. \<open>Fifo\<close>: the locale of bounded queues and ring buffers read as lists. \<open>Ranges\<close>:
    address ranges, alignment and the locale of range allocators.
  \<^item> \<open>Aimu_Crc\<close>, \<open>Aimu_Crc_Table\<close>, \<open>Aimu_Command\<close>: the checksum routine of
    \<^verbatim>\<open>src/aimu_cmdq.c\<close> with its table as written, compared with the bitwise CRC-32/ISO-HDLC; the
    command and completion descriptors with their codes.
  \<^item> \<open>Aimu_Cmdq\<close>, \<open>Aimu_Cmdq_Inv\<close>, \<open>Aimu_Cmdq_Props\<close>: the command queue, its invariant, its two
    rings as bounded queues (interpretations of \<open>bounded_fifo\<close>) and what submission, dispatch,
    drain and poll do to the pending commands and completions.
  \<^item> \<open>Aimu_Mem\<close>, \<open>Aimu_Mem_Inv\<close>, \<open>Aimu_Mem_Props\<close>: the memory map of a tile
    (\<^verbatim>\<open>src/aimu_mem.c\<close>), an interpretation of \<open>range_allocator\<close>; first fit is exact.
  \<^item> \<open>Aimu_Dma\<close>, \<open>Aimu_Dma_Props\<close>: descriptor validation (\<^verbatim>\<open>src/aimu_dma.c\<close>) against a contract
    on address ranges, and its accounting.
  \<^item> \<open>Aimu_Device\<close>, \<open>Aimu_Exec\<close>, \<open>Aimu_Exec_Props\<close>: the device with its tiles
    (\<^verbatim>\<open>src/aimu_device.c\<close>), the simulated execution of commands (\<^verbatim>\<open>src/aimu_exec.c\<close>) and its use
    as the hook of the command queue.
  \<^item> \<open>Fabric\<close>, \<open>Fabric_Inv\<close>, \<open>Fabric_Barrier\<close>, \<open>Fabric_Props\<close>: the packet fabric
    (\<^verbatim>\<open>src/fabric.c\<close>, \<^verbatim>\<open>simulator/sim_fabric_bus.c\<close>): every inbound queue is a bounded queue of
    messages (header and payload bytes), the barrier refines an abstract barrier over sets.
  \<^item> \<open>Kv_Mmu\<close>, \<open>Kv_Mmu_Inv\<close>, \<open>Kv_Mmu_Ops\<close>, \<open>Kv_Mmu_Props\<close>: the paged KV store
    (\<^verbatim>\<open>src/kv_mmu.c\<close>) as one sequence of vector pairs per session and layer.
  \<^item> \<open>Kv_Store\<close>, \<open>Kv_Cache\<close>, \<open>Kv_Equiv\<close>: the locale of key/value stores, the contiguous cache
    (\<^verbatim>\<open>src/kv_cache.c\<close>) and one session and layer of the paged store as two interpretations of
    it, and their agreement.
  \<^item> \<open>Aimu_Trace\<close>: counter snapshots (\<^verbatim>\<open>src/aimu_trace.c\<close>). \<open>Aimu_Mmio_Map\<close>, \<open>Aimu_Mmio\<close>,
    \<open>Aimu_Mmio_Inv\<close>, \<open>Aimu_Mmio_Props\<close>: the register file (\<^verbatim>\<open>src/aimu_mmio.c\<close>) over a store of
    devices, queues and traces addressed by number, since the register file only points to them.
  \<^item> \<open>Aimu_Host\<close>, \<open>Aimu_Host_Props\<close>: the control-plane harness (\<^verbatim>\<open>src/aimu_host.c\<close>) that owns one of each of these
    simulators; its flow from probe to completion, its counters, its reset. \<open>Aimu_Userspace\<close>,
    \<open>Aimu_Userspace_Props\<close>: the emulator over it with its register window in a file (\<^verbatim>\<open>src/aimu_userspace.c\<close>).
  \<^item> \<open>Runtime\<close>, \<open>Runtime_Inv\<close>, \<open>Runtime_Props\<close>: the tile runtime (\<^verbatim>\<open>src/runtime.c\<close>,
    \<^verbatim>\<open>simulator/sim_tile_thread.c\<close>, \<^verbatim>\<open>src/tile.c\<close>) as a step relation over the controlling thread and
    one worker per tile; the stretch of code under one mutex is one step, and the command queues are a
    further interpretation of \<open>bounded_fifo\<close>.
  \<^item> \<open>Wire\<close>: little-endian bytes, reads from a buffer that fail outside of it, and the locales of
    record formats. \<open>Tok_Meta\<close>, \<open>Model_Data\<close>, \<open>Shard_Meta\<close>, \<open>Shard_Meta_Props\<close>,
    \<open>Model_Loader\<close>, \<open>Model_Sizes\<close>, \<open>Model_Loader_Props\<close>, \<open>Model_Roundtrip\<close>: the sections of a model file
    (\<^verbatim>\<open>src/tok_meta.c\<close>, \<^verbatim>\<open>src/shard_meta.c\<close>) and its loader (\<^verbatim>\<open>src/model_loader.c\<close>); a read
    outside the file is the value \<^term>\<open>None\<close> of the outer option, so that memory safety is a theorem,
    and a writer shows that files are read back.
  \<^item> \<open>Model_View\<close>, \<open>Model_View_Props\<close>: typed views of the tensors of a loaded model, the checks of
    decoder models (\<^verbatim>\<open>src/model_view.c\<close>) and tensor allocation (\<^verbatim>\<open>src/tensor.c\<close>).
  \<^item> \<open>Shard_Plan\<close>, \<open>Shard_Plan_Props\<close>, \<open>Shard_Meta_Plan_Props\<close>: the assignment of layers to tiles
    (\<^verbatim>\<open>src/shard.c\<close>): the runtime plan is the balanced partition, the proposed plan is what the
    metadata say, and a proposal becomes a plan exactly when it is one run per tile.
  \<^item> \<open>Tok_Ext\<close>, \<open>Tok_Ext_Props\<close>: token identifiers read from a string or a file
    (\<^verbatim>\<open>src/tok_ext.c\<close>), the byte tokenizer (\<^verbatim>\<open>src/tokenizer.c\<close>) and the greedy sampler
    (\<^verbatim>\<open>src/sampler.c\<close>), whose floats are compared by their bit patterns.
  \<^item> \<open>Numeric\<close>, \<open>Numeric_Props\<close>, \<open>Numeric_Q4\<close>: the kernels (\<^verbatim>\<open>src/matmul.c\<close>, \<^verbatim>\<open>src/matmul_q8.c\<close>,
    \<^verbatim>\<open>src/norm.c\<close>, \<^verbatim>\<open>src/rope.c\<close>, \<^verbatim>\<open>src/ffn.c\<close>) and quantisation (\<^verbatim>\<open>src/quant.c\<close>) on bit patterns, over
    any floating-point arithmetic; products with quantised matrices are the float products with the matrices they stand for.
  \<^item> \<open>Attention\<close>, \<open>Attention_Props\<close>, \<open>Attention_Refine\<close>, \<open>Block_Refine\<close>: the back ends on the processor
    (\<^verbatim>\<open>src/backend_cpu_f32.c\<close> and its two variants), attention (\<^verbatim>\<open>src/attention.c\<close>) and the decoder block
    (\<^verbatim>\<open>src/transformer_block.c\<close>); the locale \<open>decoder_kernels\<close> is what a back end promises, and every variant of
    the block refines one function on vectors.
  \<^item> \<open>Event_Trace\<close>: the event trace (\<^verbatim>\<open>src/trace.c\<close>) and its totals. \<open>Infer_Weights\<close>, \<open>Infer\<close>: the state of an
    inference context, the preparation of its quantised weights, creation, decoding and generation (\<^verbatim>\<open>src/infer.c\<close>).
    \<open>Infer_Props\<close>: the decoder as a function on vectors and stored pairs, and the refinement of one token in each precision;
    \<open>Infer_Create\<close>: what creation from a loaded model establishes.
  \<^item> \<open>Cluster_Infer\<close>, \<open>Cluster_Props\<close>: inference over tiles and the fabric (\<^verbatim>\<open>src/cluster_infer.c\<close>); at most one packet is
    under way, and the layers run in the order of the tiles. \<open>Generation\<close>: the locale of token decoders and the loops over any
    of them. \<open>Cluster_Equiv\<close>: both drivers as its interpretations, and their agreement;
    \<open>Cluster_Equiv_Q4\<close>: the same for models in four bits.

  \<^bold>\<open>How the parts interact.\<close> The host submits commands to the queue; the device attaches a queue
  for its counter snapshot; the queue calls the execution hook, which checks the command against
  the capabilities of the addressed tile of the device. The register file reads the device, the queue
  and the trace it is attached to, resets the device and the trace through its write-only registers
  and takes snapshots of them. The host harness wires these parts together and the user-space emulator
  drives the harness and copies the registers to a file. The workers of the runtime send and receive over the fabric and arrive
  at its barrier before they join their own. DMA and memory map are driven by their callers only.
  Views, plans and validation read the model that the loader delivers, and rest on its
  well-formedness. Inference reads its weights through the views, keeps one local cache per layer, calls the block of its back end
  and records events; cluster inference adds the plan and the fabric, whose invariants its proofs rest on.

  \<^bold>\<open>Not modelled.\<close> The arithmetic of \<^verbatim>\<open>float\<close> itself, which is a parameter; CUDA and PCIe backends, file, socket and console I/O, the command-line
  tools, the tests and the offline compiler in Python. Of modelled files the functions that only
  render text or free memory have no definition. In the runtime, a second start after a failed start
  that left threads behind is outside the step relation.
\<close>

end
